(* ===== verification/CK_Prelude.thy ===== *)
theory CK_Prelude
  imports Main "HOL-Library.List_Lexorder" "HOL-Library.Char_ord" "HOL-Library.AList"
    "HOL-Library.Multiset" "HOL-Library.Word"
begin

text \<open>
  What the components share.

  Strings.  A JavaScript string is a sequence of UTF-16 code units.  The model's \<open>string\<close>
  is a list of 8-bit characters, each standing for the code unit of the same number
  (U+0000 to U+00FF), so string length, indexing, comparison by code unit, \<open>trim\<close> and
  \<open>toLowerCase\<close> are those of JavaScript on that range.  Text outside the range is not
  representable; no operation of the modelled code looks at it other than to copy it.

  Stores.  \<open>jsmap\<close> is a JavaScript \<open>Map\<close>: an association list in insertion order, where
  \<open>set\<close> on a present key keeps its place.  \<open>table\<close> is an IndexedDB object store: an
  association list in primary-key order.  Both provide the interface \<open>kv_store\<close>, whose
  lemmas are proved once.

  Errors.  A throwing function returns \<open>'e + 'a\<close> with \<open>Inl\<close> for the exception.
\<close>

named_theorems store_simps "lookup after update or deletion in a key-value store"
named_theorems js_string_simps "facts about JavaScript string operations"

section \<open>Strings\<close>

text \<open>White space as \<open>String.prototype.trim\<close> and \<open>\s\<close> understand it, on U+0000..U+00FF.\<close>

definition js_space :: "char \<Rightarrow> bool" where
  "js_space c \<longleftrightarrow> (of_char c :: nat) \<in> set [9, 10, 11, 12, 13, 32, 160]"

definition js_trim :: "string \<Rightarrow> string" where
  "js_trim s = rev (dropWhile js_space (rev (dropWhile js_space s)))"

definition js_lower_char :: "char \<Rightarrow> char" where
  "js_lower_char c =
     (let n = (of_char c :: nat)
      in if (65 \<le> n \<and> n \<le> 90) \<or> (192 \<le> n \<and> n \<le> 222 \<and> n \<noteq> 215) then char_of (n + 32) else c)"

definition js_lower :: "string \<Rightarrow> string" where
  "js_lower s = map js_lower_char s"

definition is_digit :: "char \<Rightarrow> bool" where
  "is_digit c \<longleftrightarrow> (let n = (of_char c :: nat) in 48 \<le> n \<and> n \<le> 57)"

text \<open>\<open>[0-9a-f]\<close> and \<open>[0-9a-fA-F]\<close>.\<close>

definition is_hex_lower :: "char \<Rightarrow> bool" where
  "is_hex_lower c \<longleftrightarrow> is_digit c \<or> (let n = (of_char c :: nat) in 97 \<le> n \<and> n \<le> 102)"

definition is_hex :: "char \<Rightarrow> bool" where
  "is_hex c \<longleftrightarrow> is_hex_lower c \<or> (let n = (of_char c :: nat) in 65 \<le> n \<and> n \<le> 70)"

text \<open>A non-empty string is truthy; \<open>s?.trim()\<close> on a possibly absent string.\<close>

definition blank :: "string \<Rightarrow> bool" where
  "blank s \<longleftrightarrow> js_trim s = []"

definition present_text :: "string option \<Rightarrow> bool" where
  "present_text s \<longleftrightarrow> (case s of None \<Rightarrow> False | Some t \<Rightarrow> \<not> blank t)"

text \<open>Decimal text of a natural number, as a template literal prints it.\<close>

fun show_nat :: "nat \<Rightarrow> string" where
  "show_nat n = (if n < 10 then [char_of (48 + n)] else show_nat (n div 10) @ [char_of (48 + n mod 10)])"

declare show_nat.simps [simp del]

definition show_int :: "int \<Rightarrow> string" where
  "show_int i = (if i < 0 then ''-'' @ show_nat (nat (- i)) else show_nat (nat i))"

definition show_bool :: "bool \<Rightarrow> string" where
  "show_bool b = (if b then ''true'' else ''false'')"

abbreviation line_feed :: char where
  "line_feed \<equiv> char_of (10 :: nat)"

text \<open>\<open>s.includes(t)\<close> and \<open>s.startsWith(t)\<close>.\<close>

definition starts_with :: "string \<Rightarrow> string \<Rightarrow> bool" where
  "starts_with s t \<longleftrightarrow> take (length t) s = t"

fun str_includes :: "string \<Rightarrow> string \<Rightarrow> bool" where
  "str_includes [] t \<longleftrightarrow> t = []"
| "str_includes (c # s) t \<longleftrightarrow> starts_with (c # s) t \<or> str_includes s t"

text \<open>\<open>s.split('\n')\<close>.\<close>

fun split_lines :: "string \<Rightarrow> string list" where
  "split_lines [] = [[]]"
| "split_lines (c # s) =
     (if c = line_feed then [] # split_lines s
      else (case split_lines s of [] \<Rightarrow> [[c]] | l # ls \<Rightarrow> (c # l) # ls))"

text \<open>\<open>s.split('/')\<close>.\<close>

fun split_path :: "string \<Rightarrow> string list" where
  "split_path [] = [[]]"
| "split_path (c # s) =
     (if c = CHR ''/'' then [] # split_path s
      else case split_path s of [] \<Rightarrow> [[c]] | w # ws \<Rightarrow> (c # w) # ws)"

lemma split_path_append: "split_path (a @ CHR ''/'' # b) = split_path a @ split_path b"
proof (induction a)
  case (Cons c a)
  have "split_path a \<noteq> []" by (cases a) (auto split: list.split)
  with Cons show ?case by (auto split: list.split)
qed simp

lemma split_path_plain: "CHR ''/'' \<notin> set s \<Longrightarrow> split_path s = [s]"
  by (induction s) auto

text \<open>\<open>xs.join(sep)\<close>.\<close>

fun join :: "string \<Rightarrow> string list \<Rightarrow> string" where
  "join sep [] = []"
| "join sep [x] = x"
| "join sep (x # y # zs) = x @ sep @ join sep (y # zs)"

lemma js_lower_char_idem [js_string_simps]: "js_lower_char (js_lower_char c) = js_lower_char c"
proof -
  have "(of_char c :: nat) < 256" by (rule nat_of_char_less_256)
  then show ?thesis by (auto simp: js_lower_char_def Let_def)
qed

lemma js_lower_idem [js_string_simps, simp]: "js_lower (js_lower s) = js_lower s"
  by (simp add: js_lower_def js_lower_char_idem)

lemma length_js_lower [simp]: "length (js_lower s) = length s"
  by (simp add: js_lower_def)

section \<open>Key-value stores\<close>

text \<open>The number of entries whose value satisfies a test: a counting loop over \<open>map.values()\<close>.\<close>

definition count_values :: "('v \<Rightarrow> bool) \<Rightarrow> ('k \<times> 'v) list \<Rightarrow> nat" where
  "count_values P kvs = length (filter (\<lambda>kv. P (snd kv)) kvs)"

declare map_of_eq_Some_iff [simp del] Some_eq_map_of_iff [simp del] strict_sorted_iff [simp del]

lemma count_values_card:
  assumes "distinct (map fst kvs)"
  shows "count_values P kvs = card {k. \<exists>v. map_of kvs k = Some v \<and> P v}"
proof -
  have "count_values P kvs = length (map fst (filter (\<lambda>kv. P (snd kv)) kvs))"
    by (simp add: count_values_def)
  also have "\<dots> = card (set (map fst (filter (\<lambda>kv. P (snd kv)) kvs)))"
    using assms by (intro distinct_card [symmetric]) (auto simp: distinct_map inj_on_def)
  also have "set (map fst (filter (\<lambda>kv. P (snd kv)) kvs)) = {k. \<exists>v. map_of kvs k = Some v \<and> P v}"
    using assms by (force simp: map_of_eq_Some_iff image_iff)
  finally show ?thesis .
qed

text \<open>
  The interface every stateful component uses: lookup, insert-or-overwrite, delete, and the
  list of entries an iteration visits.
\<close>

locale kv_store =
  fixes invar :: "('k \<times> 'v) list \<Rightarrow> bool"
    and put :: "'k \<Rightarrow> 'v \<Rightarrow> ('k \<times> 'v) list \<Rightarrow> ('k \<times> 'v) list"
    and del :: "'k \<Rightarrow> ('k \<times> 'v) list \<Rightarrow> ('k \<times> 'v) list"
  assumes invar_empty: "invar []"
    and invar_put: "invar m \<Longrightarrow> invar (put k v m)"
    and invar_del: "invar m \<Longrightarrow> invar (del k m)"
    and keys_distinct: "invar m \<Longrightarrow> distinct (map fst m)"
    and lookup_put: "invar m \<Longrightarrow> map_of (put k v m) = (map_of m)(k \<mapsto> v)"
    and lookup_del: "invar m \<Longrightarrow> map_of (del k m) = (map_of m)(k := None)"
begin

lemma put_same: "invar m \<Longrightarrow> map_of (put k v m) k = Some v"
  by (simp add: lookup_put)

lemma put_other: "invar m \<Longrightarrow> k' \<noteq> k \<Longrightarrow> map_of (put k v m) k' = map_of m k'"
  by (simp add: lookup_put)

lemma in_entries: "invar m \<Longrightarrow> (k, v) \<in> set m \<longleftrightarrow> map_of m k = Some v"
  by (simp add: keys_distinct map_of_eq_Some_iff)

lemma in_entries_put:
  "invar m \<Longrightarrow> (k', v') \<in> set (put k v m) \<longleftrightarrow> (if k' = k then v' = v else (k', v') \<in> set m)"
  by (auto simp: in_entries invar_put lookup_put)

lemma count_put:
  assumes "invar m"
  shows "count_values P (put k v m) + (case map_of m k of None \<Rightarrow> 0 | Some w \<Rightarrow> of_bool (P w))
       = count_values P m + of_bool (P v)"
proof -
  let ?A = "{k'. k' \<noteq> k \<and> (\<exists>v. map_of m k' = Some v \<and> P v)}"
  have fin: "finite ?A"
    by (rule finite_subset [of _ "dom (map_of m)"]) (auto simp: finite_dom_map_of)
  have cA: "card (insert k ?A) = Suc (card ?A)"
    using fin by (rule card_insert_disjoint) simp
  have "{k'. \<exists>v'. map_of (put k v m) k' = Some v' \<and> P v'} = (if P v then insert k ?A else ?A)"
    unfolding lookup_put [OF assms] by (auto split: if_splits)
  then have new: "count_values P (put k v m) = card ?A + of_bool (P v)"
    unfolding count_values_card [OF keys_distinct [OF invar_put [OF assms]]] by (simp add: cA)
  have "{k'. \<exists>v'. map_of m k' = Some v' \<and> P v'}
      = (case map_of m k of None \<Rightarrow> ?A | Some w \<Rightarrow> if P w then insert k ?A else ?A)"
    by (cases "map_of m k") auto
  then have old: "count_values P m
      = card ?A + (case map_of m k of None \<Rightarrow> 0 | Some w \<Rightarrow> of_bool (P w))"
    unfolding count_values_card [OF keys_distinct [OF assms]]
    by (cases "map_of m k") (simp_all add: cA)
  show ?thesis unfolding new old by simp
qed

lemma count_del_le:
  assumes "invar m"
  shows "count_values P (del k m) \<le> count_values P m"
proof -
  have "finite {k'. \<exists>v. map_of m k' = Some v \<and> P v}"
    by (rule finite_subset [of _ "dom (map_of m)"]) (auto simp: finite_dom_map_of)
  then show ?thesis
    using assms
    by (simp add: count_values_card keys_distinct invar_del lookup_del)
      (rule card_mono, auto split: if_splits)
qed

end

text \<open>A JavaScript \<open>Map\<close>: insertion order, overwriting keeps the place.\<close>

type_synonym ('k, 'v) jsmap = "('k \<times> 'v) list"

abbreviation jm_get :: "('k, 'v) jsmap \<Rightarrow> 'k \<Rightarrow> 'v option" where
  "jm_get \<equiv> map_of"

abbreviation jm_set :: "'k \<Rightarrow> 'v \<Rightarrow> ('k, 'v) jsmap \<Rightarrow> ('k, 'v) jsmap" where
  "jm_set \<equiv> AList.update"

abbreviation jm_delete :: "'k \<Rightarrow> ('k, 'v) jsmap \<Rightarrow> ('k, 'v) jsmap" where
  "jm_delete \<equiv> AList.delete"

abbreviation jm_ok :: "('k, 'v) jsmap \<Rightarrow> bool" where
  "jm_ok m \<equiv> distinct (map fst m)"

interpretation jm: kv_store jm_ok jm_set jm_delete
  by unfold_locales
    (auto simp: update_conv' delete_conv' intro: distinct_update distinct_delete)

text \<open>An IndexedDB object store: rows in primary-key order; \<open>put\<close> overwrites.\<close>

type_synonym ('k, 'v) table = "('k \<times> 'v) list"

fun tb_put :: "'k::linorder \<Rightarrow> 'v \<Rightarrow> ('k, 'v) table \<Rightarrow> ('k, 'v) table" where
  "tb_put k v [] = [(k, v)]"
| "tb_put k v ((a, b) # t) =
     (if k < a then (k, v) # (a, b) # t
      else if k = a then (k, v) # t
      else (a, b) # tb_put k v t)"

abbreviation tb_get :: "('k, 'v) table \<Rightarrow> 'k \<Rightarrow> 'v option" where
  "tb_get \<equiv> map_of"

definition tb_ok :: "('k::linorder, 'v) table \<Rightarrow> bool" where
  "tb_ok t \<longleftrightarrow> sorted_wrt (<) (map fst t)"

lemma tb_ok_simps [simp]:
  "tb_ok []" "tb_ok (p # t) \<longleftrightarrow> (\<forall>k \<in> fst ` set t. fst p < k) \<and> tb_ok t"
  by (auto simp: tb_ok_def)

lemma keys_tb_put: "fst ` set (tb_put k v t) = insert k (fst ` set t)"
  by (induction k v t rule: tb_put.induct) auto

lemma tb_ok_put: "tb_ok t \<Longrightarrow> tb_ok (tb_put k v t)"
proof (induction k v t rule: tb_put.induct)
  case (2 k v a b t)
  then show ?case using keys_tb_put [of k v t] by auto
qed simp

lemma map_of_tb_put: "tb_ok t \<Longrightarrow> map_of (tb_put k v t) = (map_of t)(k \<mapsto> v)"
  by (induction k v t rule: tb_put.induct) (auto simp: fun_eq_iff map_of_eq_None_iff)

lemma tb_ok_delete: "tb_ok t \<Longrightarrow> tb_ok (AList.delete k t)"
  by (induction t) (auto simp: AList.delete_eq)

lemma tb_ok_distinct: "tb_ok t \<Longrightarrow> distinct (map fst t)"
  by (induction t) auto

interpretation tb: kv_store tb_ok tb_put AList.delete
  by unfold_locales
    (simp_all add: map_of_tb_put delete_conv' tb_ok_put tb_ok_delete tb_ok_distinct)

end
