(* ===== verification/Canonical_Json.thy ===== *)
theory Canonical_Json
  imports CK_Prelude
begin

text \<open>
  JSON values and their two serialisations: \<open>JSON.stringify\<close> (used by the execution registry
  to measure an event) and \<open>canonicalJson\<close> of \<open>shared/runtime/digest.ts\<close>, the input of every
  digest.  A number is carried as the decimal text \<open>JSON.stringify\<close> prints for it, so every
  number here is finite.  A key whose value is \<open>undefined\<close> is absent.  The main facts are
  that the canonical form does not depend on the order in which an object's keys were added,
  and that it exists exactly for values nested at most 64 deep.
\<close>

datatype json =
    JNull
  | JBool bool
  | JNum string
  | JStr string
  | JArr "json list"
  | JObj "(string \<times> json) list"

text \<open>A property of a parsed value: \<open>m.f\<close>, \<open>typeof m.f === "number" ? m.f : null\<close> and the like.\<close>

fun json_field :: "json \<Rightarrow> string \<Rightarrow> json option" where
  "json_field (JObj kvs) k = map_of kvs k"
| "json_field _ k = None"

definition number_field :: "json \<Rightarrow> string \<Rightarrow> string option" where
  "number_field m k = (case json_field m k of Some (JNum n) \<Rightarrow> Some n | _ \<Rightarrow> None)"

definition string_field :: "json \<Rightarrow> string \<Rightarrow> string option" where
  "string_field m k = (case json_field m k of Some (JStr s) \<Rightarrow> Some s | _ \<Rightarrow> None)"

section \<open>JSON.stringify\<close>

definition hex_digit :: "nat \<Rightarrow> char" where
  "hex_digit n = char_of (if n < 10 then 48 + n else 87 + n)"

definition json_escape :: "char \<Rightarrow> string" where
  "json_escape c =
     (let n = (of_char c :: nat)
      in if n = 34 \<or> n = 92 then [CHR 0x5C, c]
         else if n = 8 then [CHR 0x5C, CHR ''b'']
         else if n = 9 then [CHR 0x5C, CHR ''t'']
         else if n = 10 then [CHR 0x5C, CHR ''n'']
         else if n = 12 then [CHR 0x5C, CHR ''f'']
         else if n = 13 then [CHR 0x5C, CHR ''r'']
         else if n < 32 then [CHR 0x5C, CHR ''u'', CHR ''0'', CHR ''0'', hex_digit (n div 16), hex_digit (n mod 16)]
         else [c])"

definition json_quote :: "string \<Rightarrow> string" where
  "json_quote s = [CHR 0x22] @ concat (map json_escape s) @ [CHR 0x22]"

fun stringify :: "json \<Rightarrow> string"
  and stringify_items :: "json list \<Rightarrow> string list"
  and stringify_entries :: "(string \<times> json) list \<Rightarrow> string list" where
  "stringify JNull = ''null''"
| "stringify (JBool b) = show_bool b"
| "stringify (JNum n) = n"
| "stringify (JStr s) = json_quote s"
| "stringify (JArr xs) = ''['' @ join '','' (stringify_items xs) @ '']''"
| "stringify (JObj kvs) = ''{'' @ join '','' (stringify_entries kvs) @ ''}''"
| "stringify_items [] = []"
| "stringify_items (x # xs) = stringify x # stringify_items xs"
| "stringify_entries [] = []"
| "stringify_entries ((k, v) # kvs) = (json_quote k @ '':'' @ stringify v) # stringify_entries kvs"

text \<open>\<open>Buffer.byteLength(s, "utf8")\<close>: one byte below U+0080, two up to U+00FF.\<close>

definition utf8_width :: "char \<Rightarrow> nat" where
  "utf8_width c = (if (of_char c :: nat) < 128 then 1 else 2)"

definition utf8_len :: "string \<Rightarrow> nat" where
  "utf8_len s = sum_list (map utf8_width s)"

lemma utf8_len_simps [simp]:
  "utf8_len [] = 0"
  "utf8_len (c # s) = utf8_width c + utf8_len s"
  "utf8_len (s @ t) = utf8_len s + utf8_len t"
  by (simp_all add: utf8_len_def)

section \<open>canonicalJson\<close>

datatype canonical_error = MaximumDepthExceeded

lemma canonical_error_unique: "(e :: canonical_error) = e'"
  by (cases e; cases e') simp

definition MAX_DEPTH :: nat where
  "MAX_DEPTH = 64"

text \<open>
  \<open>serialize(value, depth)\<close>.  The only exception of a finite value is the depth bound, so
  the order in which members are visited does not matter; the entries are put in key order
  after they are serialised.
\<close>

fun serialize :: "nat \<Rightarrow> json \<Rightarrow> canonical_error + string"
  and serialize_items :: "nat \<Rightarrow> json list \<Rightarrow> canonical_error + string list"
  and serialize_entries :: "nat \<Rightarrow> (string \<times> json) list \<Rightarrow> canonical_error + (string \<times> string) list" where
  "serialize depth JNull = (if MAX_DEPTH < depth then Inl MaximumDepthExceeded else Inr ''null'')"
| "serialize depth (JBool b) = (if MAX_DEPTH < depth then Inl MaximumDepthExceeded else Inr (show_bool b))"
| "serialize depth (JNum n) = (if MAX_DEPTH < depth then Inl MaximumDepthExceeded else Inr n)"
| "serialize depth (JStr s) = (if MAX_DEPTH < depth then Inl MaximumDepthExceeded else Inr (json_quote s))"
| "serialize depth (JArr xs) =
     (if MAX_DEPTH < depth then Inl MaximumDepthExceeded
      else case serialize_items (Suc depth) xs of
             Inl e \<Rightarrow> Inl e
           | Inr ss \<Rightarrow> Inr (''['' @ join '','' ss @ '']''))"
| "serialize depth (JObj kvs) =
     (if MAX_DEPTH < depth then Inl MaximumDepthExceeded
      else case serialize_entries (Suc depth) kvs of
             Inl e \<Rightarrow> Inl e
           | Inr ents \<Rightarrow>
               Inr (''{'' @ join '','' (map (\<lambda>(k, s). json_quote k @ '':'' @ s) (sort_key fst ents)) @ ''}''))"
| "serialize_items depth [] = Inr []"
| "serialize_items depth (x # xs) =
     (case serialize depth x of
        Inl e \<Rightarrow> Inl e
      | Inr s \<Rightarrow> (case serialize_items depth xs of Inl e \<Rightarrow> Inl e | Inr ss \<Rightarrow> Inr (s # ss)))"
| "serialize_entries depth [] = Inr []"
| "serialize_entries depth ((k, v) # kvs) =
     (case serialize depth v of
        Inl e \<Rightarrow> Inl e
      | Inr s \<Rightarrow> (case serialize_entries depth kvs of Inl e \<Rightarrow> Inl e | Inr ss \<Rightarrow> Inr ((k, s) # ss)))"

definition canonicalJson :: "json \<Rightarrow> canonical_error + string" where
  "canonicalJson value = serialize 0 value"

text \<open>Nesting depth: scalars 0, a container one more than its deepest member.\<close>

fun nesting :: "json \<Rightarrow> nat"
  and nesting_items :: "json list \<Rightarrow> nat"
  and nesting_entries :: "(string \<times> json) list \<Rightarrow> nat" where
  "nesting (JArr xs) = nesting_items xs"
| "nesting (JObj kvs) = nesting_entries kvs"
| "nesting _ = 0"
| "nesting_items [] = 0"
| "nesting_items (x # xs) = max (Suc (nesting x)) (nesting_items xs)"
| "nesting_entries [] = 0"
| "nesting_entries ((k, v) # kvs) = max (Suc (nesting v)) (nesting_entries kvs)"

lemma nesting_items_le:
  "d + nesting_items xs \<le> m \<longleftrightarrow> d \<le> m \<and> (\<forall>x \<in> set xs. Suc d + nesting x \<le> m)"
  by (induction xs) auto

lemma nesting_entries_le:
  "d + nesting_entries kvs \<le> m \<longleftrightarrow> d \<le> m \<and> (\<forall>x \<in> snd ` set kvs. Suc d + nesting x \<le> m)"
  by (induction kvs) auto

lemma serialize_defined_iff:
  "(\<exists>s. serialize d v = Inr s) \<longleftrightarrow> d + nesting v \<le> MAX_DEPTH"
  "(\<exists>ss. serialize_items d xs = Inr ss) \<longleftrightarrow> (\<forall>x \<in> set xs. d + nesting x \<le> MAX_DEPTH)"
  "(\<exists>es. serialize_entries d kvs = Inr es) \<longleftrightarrow> (\<forall>x \<in> snd ` set kvs. d + nesting x \<le> MAX_DEPTH)"
proof (induction d v and d xs and d kvs
    rule: serialize_serialize_items_serialize_entries.induct)
  case (5 depth xs)
  then show ?case
    by (cases "MAX_DEPTH < depth") (auto simp: nesting_items_le split: sum.splits)
next
  case (6 depth kvs)
  then show ?case
    by (cases "MAX_DEPTH < depth") (auto simp: nesting_entries_le split: sum.splits)
next
  case (8 depth x xs)
  then show ?case by (cases "serialize depth x"; cases "serialize_items depth xs") auto
next
  case (10 depth k v kvs)
  then show ?case by (cases "serialize depth v"; cases "serialize_entries depth kvs") auto
qed auto

lemma serialize_entries_map:
  "serialize_entries d kvs = Inr es \<Longrightarrow>
     es = map (\<lambda>(k, v). (k, case serialize d v of Inr s \<Rightarrow> s | Inl _ \<Rightarrow> [])) kvs"
proof (induction kvs arbitrary: es)
  case (Cons p kvs)
  then show ?case
    by (cases p; cases "serialize d (snd p)"; cases "serialize_entries d kvs") auto
qed simp

text \<open>Two objects with the same members, whatever the order, have the same canonical form.\<close>

lemma serialize_key_order:
  assumes same: "mset kvs = mset kvs'" and keys: "distinct (map fst kvs)"
  shows "serialize d (JObj kvs) = serialize d (JObj kvs')"
proof (cases "serialize_entries (Suc d) kvs")
  case (Inl e)
  have "\<not> (\<exists>es. serialize_entries (Suc d) kvs' = Inr es)"
    using Inl serialize_defined_iff(3) [of "Suc d" kvs] serialize_defined_iff(3) [of "Suc d" kvs']
      mset_eq_setD [OF same] by simp
  then show ?thesis
    using Inl by (cases "serialize_entries (Suc d) kvs'")
      (auto intro: canonical_error_unique)
next
  case (Inr es)
  then obtain es' where es': "serialize_entries (Suc d) kvs' = Inr es'"
    using serialize_defined_iff(3) [of "Suc d" kvs] serialize_defined_iff(3) [of "Suc d" kvs']
      mset_eq_setD [OF same] by auto
  note forms = serialize_entries_map [OF Inr] serialize_entries_map [OF es']
  have "mset es = mset es'"
    unfolding forms using same by (simp only: mset_map)
  moreover have "map fst es = map fst kvs"
    unfolding forms by (simp add: comp_def case_prod_beta')
  then have "distinct (map fst es)" using keys by simp
  then have "inj_on fst (set es)" by (simp add: distinct_map)
  ultimately have "sort_key fst es = sort_key fst es'"
    by (intro sort_key_inj_key_eq) simp_all
  then show ?thesis by (simp add: Inr es')
qed

text \<open>
  The canonical text of a value, for the callers that hash a value of fixed shape: within the
  depth bound \<open>canonicalJson\<close> returns it (\<open>canonicalJson_text\<close>).
\<close>

definition canonical_text :: "json \<Rightarrow> string" where
  "canonical_text v = (case canonicalJson v of Inr s \<Rightarrow> s | Inl _ \<Rightarrow> [])"

lemma canonicalJson_text: "nesting v \<le> MAX_DEPTH \<Longrightarrow> canonicalJson v = Inr (canonical_text v)"
  using serialize_defined_iff(1) [of 0 v] by (auto simp: canonicalJson_def canonical_text_def)

section \<open>Quoted strings are self-delimiting\<close>

text \<open>
  What \<open>JSON.parse\<close> does after an opening quote: the characters up to the closing quote, and
  the rest.  Only used in proofs.
\<close>

definition hex_value :: "char \<Rightarrow> nat" where
  "hex_value c = (let n = of_char c in if n < 58 then n - 48 else n - 87)"

definition unescape_char :: "char \<Rightarrow> char" where
  "unescape_char e =
     (if e = CHR ''b'' then char_of (8::nat) else if e = CHR ''t'' then char_of (9::nat)
      else if e = CHR ''n'' then char_of (10::nat) else if e = CHR ''f'' then char_of (12::nat)
      else if e = CHR ''r'' then char_of (13::nat) else e)"

fun scan_string :: "string \<Rightarrow> string \<times> string" where
  "scan_string [] = ([], [])"
| "scan_string (c # cs) =
     (if c = CHR 0x22 then ([], cs)
      else if c = CHR 0x5C then
        (case cs of
           [] \<Rightarrow> ([], [])
         | e # ds \<Rightarrow>
             if e = CHR ''u'' then
               (case ds of
                  _ # _ # h # l # rs \<Rightarrow>
                    map_prod ((#) (char_of (16 * hex_value h + hex_value l))) id (scan_string rs)
                | _ \<Rightarrow> ([], []))
             else map_prod ((#) (unescape_char e)) id (scan_string ds))
      else map_prod ((#) c) id (scan_string cs))"

lemma hex_value_digit: "n < 16 \<Longrightarrow> hex_value (hex_digit n) = n"
  by (auto simp: hex_value_def hex_digit_def Let_def)

lemma char_of_quote: "char_of (34 :: nat) = CHR 0x22" "char_of (92 :: nat) = CHR 0x5C"
  by (simp_all add: char_of_def bit_Suc_0_iff)

lemma scan_escape: "scan_string (json_escape c @ r) = map_prod ((#) c) id (scan_string r)"
proof -
  define n where "n = (of_char c :: nat)"
  have c: "c = char_of n" by (simp add: n_def)
  consider "n = 34" | "n = 92" | "n = 8" | "n = 9" | "n = 10" | "n = 12" | "n = 13"
    | "n < 32" "n \<notin> {8, 9, 10, 12, 13}" | "32 \<le> n" "n \<noteq> 34" "n \<noteq> 92"
    by force
  then show ?thesis
  proof cases
    case 8
    then have "json_escape c = [CHR 0x5C, CHR ''u'', CHR ''0'', CHR ''0'', hex_digit (n div 16), hex_digit (n mod 16)]"
      by (simp add: json_escape_def n_def [symmetric])
    moreover have "n div 16 < 16" using 8 by simp
    ultimately show ?thesis by (simp add: hex_value_digit c)
  next
    case 9
    then have "json_escape c = [c]" "c \<noteq> CHR 0x22" "c \<noteq> CHR 0x5C"
      by (auto simp: json_escape_def n_def)
    then show ?thesis by simp
  qed (simp_all add: json_escape_def unescape_char_def c char_of_quote)
qed

lemma scan_quoted: "scan_string (tl (json_quote s) @ r) = (s, r)"
proof -
  have "scan_string (concat (map json_escape s) @ CHR 0x22 # r) = (s, r)"
    by (induction s) (simp_all add: scan_escape)
  then show ?thesis by (simp add: json_quote_def)
qed

lemma json_quote_cancel [simp]: "json_quote s @ r = json_quote s' @ r' \<longleftrightarrow> s = s' \<and> r = r'"
proof
  assume eq: "json_quote s @ r = json_quote s' @ r'"
  then have "tl (json_quote s) @ r = tl (json_quote s') @ r'"
    by (simp add: json_quote_def)
  from arg_cong [OF this, of scan_string] show "s = s' \<and> r = r'"
    by (simp add: scan_quoted)
qed simp

lemma json_quote_inj [simp]: "json_quote s = json_quote s' \<longleftrightarrow> s = s'"
  using json_quote_cancel [of s "[]" s' "[]"] by simp

section \<open>The canonical form determines the value\<close>

text \<open>The value with the members of every object in key order.\<close>

fun key_sorted :: "json \<Rightarrow> json"
  and key_sorted_items :: "json list \<Rightarrow> json list"
  and key_sorted_entries :: "(string \<times> json) list \<Rightarrow> (string \<times> json) list" where
  "key_sorted (JArr xs) = JArr (key_sorted_items xs)"
| "key_sorted (JObj kvs) = JObj (sort_key fst (key_sorted_entries kvs))"
| "key_sorted v = v"
| "key_sorted_items [] = []"
| "key_sorted_items (x # xs) = key_sorted x # key_sorted_items xs"
| "key_sorted_entries [] = []"
| "key_sorted_entries ((k, v) # kvs) = (k, key_sorted v) # key_sorted_entries kvs"

text \<open>Number texts are non-empty and made of the characters of JSON numbers.\<close>

definition number_char :: "char \<Rightarrow> bool" where
  "number_char c \<longleftrightarrow> is_digit c \<or> c \<in> set ''+-.eE''"

definition number_text :: "string \<Rightarrow> bool" where
  "number_text s \<longleftrightarrow> s \<noteq> [] \<and> list_all number_char s"

fun numbers_ok :: "json \<Rightarrow> bool"
  and numbers_ok_items :: "json list \<Rightarrow> bool"
  and numbers_ok_entries :: "(string \<times> json) list \<Rightarrow> bool" where
  "numbers_ok (JNum n) = number_text n"
| "numbers_ok (JArr xs) = numbers_ok_items xs"
| "numbers_ok (JObj kvs) = numbers_ok_entries kvs"
| "numbers_ok _ = True"
| "numbers_ok_items [] = True"
| "numbers_ok_items (x # xs) = (numbers_ok x \<and> numbers_ok_items xs)"
| "numbers_ok_entries [] = True"
| "numbers_ok_entries ((k, v) # kvs) = (numbers_ok v \<and> numbers_ok_entries kvs)"

lemma insort_key_map: "insort_key g (f x) (map f xs) = map f (insort_key (g \<circ> f) x xs)"
  by (induction xs) auto

lemma sort_key_map: "sort_key g (map f xs) = map f (sort_key (g \<circ> f) xs)"
  by (induction xs) (simp_all add: insort_key_map comp_def)

lemma stringify_entries_map:
  "stringify_entries kvs = map (\<lambda>(k, v). json_quote k @ '':'' @ stringify v) kvs"
  by (induction kvs) auto

lemma key_sorted_entries_map: "key_sorted_entries kvs = map (\<lambda>(k, v). (k, key_sorted v)) kvs"
  by (induction kvs) auto

lemma serialize_stringify:
  "serialize d v = Inr s \<Longrightarrow> s = stringify (key_sorted v)"
  "serialize_items d xs = Inr ss \<Longrightarrow> ss = stringify_items (key_sorted_items xs)"
  "serialize_entries d kvs = Inr es \<Longrightarrow> es = map (\<lambda>(k, v). (k, stringify (key_sorted v))) kvs"
proof (induction d v and d xs and d kvs arbitrary: s and ss and es
    rule: serialize_serialize_items_serialize_entries.induct)
  case (6 depth kvs)
  then obtain es where es: "serialize_entries (Suc depth) kvs = Inr es" and d: "\<not> MAX_DEPTH < depth"
    by (auto split: if_splits sum.splits)
  have "sort_key fst es = map (\<lambda>(k, v). (k, stringify v)) (sort_key fst (key_sorted_entries kvs))"
    unfolding 6(1) [OF d es] key_sorted_entries_map sort_key_map
    by (simp add: comp_def case_prod_beta')
  then show ?case
    using 6(2) d es by (auto simp: stringify_entries_map comp_def case_prod_beta')
qed (auto split: if_splits sum.splits)


text \<open>What may follow a value: the end, a comma or a closing bracket.\<close>

definition delimited :: "string \<Rightarrow> bool" where
  "delimited r \<longleftrightarrow> r = [] \<or> hd r \<in> set '',]}''"

lemma delimited_simps [simp]:
  "delimited []" "delimited (c # r) \<longleftrightarrow> c \<in> set '',]}''"
  by (simp_all add: delimited_def)

definition items_tail :: "json list \<Rightarrow> string" where
  "items_tail xs = concat (map (\<lambda>x. '','' @ stringify x) xs)"

definition entries_tail :: "(string \<times> json) list \<Rightarrow> string" where
  "entries_tail kvs = concat (map (\<lambda>(k, v). '','' @ json_quote k @ '':'' @ stringify v) kvs)"

lemma tail_simps [simp]:
  "items_tail [] = []" "items_tail (x # xs) = CHR '','' # stringify x @ items_tail xs"
  "entries_tail [] = []"
  "entries_tail ((k, v) # kvs) = CHR '','' # json_quote k @ CHR '':'' # stringify v @ entries_tail kvs"
  by (simp_all add: items_tail_def entries_tail_def)

lemma delimited_tail [simp]:
  "delimited (items_tail xs @ CHR '']'' # r)" "delimited (entries_tail kvs @ CHR ''}'' # r)"
  by (cases xs; simp) (cases kvs; auto)

lemma join_comma: "join '','' (x # xs) = x @ concat (map (\<lambda>y. '','' @ y) xs)"
  by (induction xs arbitrary: x) auto

lemma stringify_items_map: "stringify_items xs = map stringify xs"
  by (induction xs) auto

lemma join_items [simp]: "CHR '','' # join '','' (stringify_items (x # xs)) = items_tail (x # xs)"
  by (simp add: join_comma stringify_items_map items_tail_def comp_def)

lemma join_entries [simp]:
  "CHR '','' # join '','' (stringify_entries (kv # kvs)) = entries_tail (kv # kvs)"
  by (cases kv) (simp add: join_comma stringify_entries_map entries_tail_def comp_def case_prod_beta')

text \<open>The first character of a value tells its kind.\<close>

lemma number_text_split:
  assumes "number_text n" "number_text m" "delimited r" "delimited r'" "n @ r = m @ r'"
  shows "n = m \<and> r = r'"
proof -
  have stop: "takeWhile number_char (k @ s) = k" if "number_text k" "delimited s" for k s
  proof -
    have "takeWhile number_char s = []"
      using that(2) by (cases s) (auto simp: number_char_def is_digit_def Let_def)
    then show ?thesis using that(1) by (simp add: number_text_def list_all_iff)
  qed
  show ?thesis using stop [of n r] stop [of m r'] assms by auto
qed

fun json_kind :: "json \<Rightarrow> nat" where
  "json_kind JNull = 0"
| "json_kind (JBool b) = (if b then 1 else 2)"
| "json_kind (JStr _) = 3"
| "json_kind (JArr _) = 4"
| "json_kind (JObj _) = 5"
| "json_kind (JNum _) = 6"

definition first_kind :: "char \<Rightarrow> nat" where
  "first_kind c =
     (if c = CHR ''n'' then 0 else if c = CHR ''t'' then 1 else if c = CHR ''f'' then 2
      else if c = CHR 0x22 then 3 else if c = CHR ''['' then 4 else if c = CHR ''{'' then 5 else 6)"

lemma first_kind_number: "number_char c \<Longrightarrow> first_kind c = 6"
  by (auto simp: number_char_def first_kind_def is_digit_def Let_def)

lemma first_kind_stringify: "numbers_ok v \<Longrightarrow> first_kind (hd (stringify v @ r)) = json_kind v"
proof (cases v)
  case (JNum n)
  then show "numbers_ok v \<Longrightarrow> ?thesis"
    by (cases n) (auto simp: number_text_def first_kind_number)
qed (auto simp: first_kind_def show_bool_def json_quote_def)

lemma stringify_not_empty: "numbers_ok v \<Longrightarrow> stringify v \<noteq> []"
  by (cases v) (auto simp: show_bool_def json_quote_def number_text_def)

lemma stringify_not_close:
  assumes ok: "numbers_ok v" shows "stringify v @ r \<noteq> CHR '']'' # r'"
proof
  assume eq: "stringify v @ r = CHR '']'' # r'"
  have "json_kind v = 6"
    using first_kind_stringify [OF ok, of r] by (simp add: eq first_kind_def)
  then obtain n where v: "v = JNum n" by (cases v) (auto split: if_splits)
  then show False
    using ok eq by (cases n) (auto simp: number_text_def number_char_def is_digit_def Let_def)
qed

lemma same_kind:
  "\<lbrakk>stringify v @ r = stringify w @ r'; numbers_ok v; numbers_ok w\<rbrakk> \<Longrightarrow> json_kind v = json_kind w"
  using first_kind_stringify [of v r] first_kind_stringify [of w r'] by simp

lemma json_kind_elims:
  "json_kind w = 0 \<Longrightarrow> w = JNull" "json_kind w = 1 \<Longrightarrow> w = JBool True"
  "json_kind w = 2 \<Longrightarrow> w = JBool False" "json_kind w = 3 \<Longrightarrow> \<exists>s. w = JStr s"
  "json_kind w = 4 \<Longrightarrow> \<exists>ys. w = JArr ys" "json_kind w = 5 \<Longrightarrow> \<exists>kvs. w = JObj kvs"
  "json_kind w = 6 \<Longrightarrow> \<exists>n. w = JNum n"
  by (cases w; simp split: if_splits)+

text \<open>A container's text with a comma put in front is that of its tail form.\<close>

lemma items_text:
  "stringify (JArr xs) @ r = stringify (JArr ys) @ r' \<Longrightarrow> numbers_ok_items xs \<Longrightarrow> numbers_ok_items ys \<Longrightarrow>
   items_tail xs @ CHR '']'' # r = items_tail ys @ CHR '']'' # r'"
proof (cases xs; cases ys)
  fix x xs' y ys'
  assume eq: "stringify (JArr xs) @ r = stringify (JArr ys) @ r'" and c: "xs = x # xs'" "ys = y # ys'"
  from eq have "CHR '','' # (join '','' (stringify_items xs) @ CHR '']'' # r)
      = CHR '','' # (join '','' (stringify_items ys) @ CHR '']'' # r')" by simp
  then show ?thesis
    unfolding c append_Cons [symmetric] join_items .
qed (auto simp: join_comma stringify_items_map stringify_not_close dest: sym)

lemma entries_text:
  "stringify (JObj kvs) @ r = stringify (JObj lws) @ r' \<Longrightarrow>
   entries_tail kvs @ CHR ''}'' # r = entries_tail lws @ CHR ''}'' # r'"
proof (cases kvs; cases lws)
  fix x kvs' y lws'
  assume eq: "stringify (JObj kvs) @ r = stringify (JObj lws) @ r'" and c: "kvs = x # kvs'" "lws = y # lws'"
  from eq have "CHR '','' # (join '','' (stringify_entries kvs) @ CHR ''}'' # r)
      = CHR '','' # (join '','' (stringify_entries lws) @ CHR ''}'' # r')" by simp
  then show ?thesis
    unfolding c append_Cons [symmetric] join_entries .
qed (auto simp: join_comma stringify_entries_map json_quote_def split: prod.splits)

lemma stringify_cancel:
  "\<lbrakk>stringify v @ r = stringify w @ r'; numbers_ok v; numbers_ok w; delimited r; delimited r'\<rbrakk>
     \<Longrightarrow> v = w \<and> r = r'"
  "\<lbrakk>items_tail xs @ CHR '']'' # r = items_tail ys @ CHR '']'' # r'; numbers_ok_items xs; numbers_ok_items ys\<rbrakk>
     \<Longrightarrow> xs = ys \<and> r = r'"
  "\<lbrakk>entries_tail kvs @ CHR ''}'' # r = entries_tail lws @ CHR ''}'' # r';
     numbers_ok_entries kvs; numbers_ok_entries lws\<rbrakk> \<Longrightarrow> kvs = lws \<and> r = r'"
proof (induction v and xs and kvs arbitrary: w r r' and ys r r' and lws r r'
    rule: stringify_stringify_items_stringify_entries.induct)
  case 1
  then show ?case using same_kind [OF 1(1)] json_kind_elims(1) [of w] by simp
next
  case (2 b)
  then have "w = JBool b"
    using same_kind [OF 2(1)] json_kind_elims(2,3) [of w] by (simp split: if_splits)
  then show ?case using 2(1) by simp
next
  case (3 n)
  then obtain m where w: "w = JNum m" using same_kind [OF 3(1)] json_kind_elims(7) [of w] by auto
  show ?case using number_text_split [of n m r r'] 3 by (simp add: w)
next
  case (4 s)
  then obtain t where w: "w = JStr t" using same_kind [OF 4(1)] json_kind_elims(4) [of w] by auto
  show ?case using 4(1) by (simp add: w)
next
  case (5 xs)
  then obtain ys where w: "w = JArr ys" using same_kind [OF 5(2)] json_kind_elims(5) [of w] by auto
  have ok: "numbers_ok_items xs" "numbers_ok_items ys" using 5(3,4) by (simp_all add: w)
  show ?case unfolding w json.inject by (rule 5(1) [OF items_text [OF 5(2) [unfolded w] ok] ok])
next
  case (6 kvs)
  then obtain lws where w: "w = JObj lws" using same_kind [OF 6(2)] json_kind_elims(6) [of w] by auto
  have ok: "numbers_ok_entries kvs" "numbers_ok_entries lws" using 6(3,4) by (simp_all add: w)
  show ?case unfolding w json.inject by (rule 6(1) [OF entries_text [OF 6(2) [unfolded w]] ok])
next
  case 7
  from 7(1) show ?case by (cases ys) simp_all
next
  case (8 x xs)
  from 8(3) obtain y ys' where ys: "ys = y # ys'" by (cases ys) simp_all
  have eq: "stringify x @ (items_tail xs @ CHR '']'' # r) = stringify y @ (items_tail ys' @ CHR '']'' # r')"
    using 8(3) by (simp add: ys)
  have ok: "numbers_ok x" "numbers_ok y" "numbers_ok_items xs" "numbers_ok_items ys'"
    using 8(4,5) by (simp_all add: ys)
  from 8(1) [OF eq ok(1,2)] have hd: "x = y"
    and tl: "items_tail xs @ CHR '']'' # r = items_tail ys' @ CHR '']'' # r'" by simp_all
  from 8(2) [OF tl ok(3,4)] show ?case by (simp add: ys hd)
next
  case 9
  from 9(1) show ?case by (cases lws) auto
next
  case (10 k v kvs)
  from 10(3) obtain l w lws' where ys: "lws = (l, w) # lws'"
    by (cases lws) (simp_all, metis surj_pair)
  have k: "k = l" and
    eq: "stringify v @ (entries_tail kvs @ CHR ''}'' # r) = stringify w @ (entries_tail lws' @ CHR ''}'' # r')"
    using 10(3) by (simp_all add: ys)
  have ok: "numbers_ok v" "numbers_ok w" "numbers_ok_entries kvs" "numbers_ok_entries lws'"
    using 10(4,5) by (simp_all add: ys)
  from 10(1) [OF eq ok(1,2)] have hd: "v = w"
    and tl: "entries_tail kvs @ CHR ''}'' # r = entries_tail lws' @ CHR ''}'' # r'" by simp_all
  from 10(2) [OF tl ok(3,4)] show ?case by (simp add: ys hd k)
qed

lemma numbers_ok_all:
  "numbers_ok_items xs \<longleftrightarrow> (\<forall>x \<in> set xs. numbers_ok x)"
  "numbers_ok_entries kvs \<longleftrightarrow> (\<forall>(k, v) \<in> set kvs. numbers_ok v)"
proof -
  show "numbers_ok_items xs \<longleftrightarrow> (\<forall>x \<in> set xs. numbers_ok x)" by (induction xs) auto
  show "numbers_ok_entries kvs \<longleftrightarrow> (\<forall>(k, v) \<in> set kvs. numbers_ok v)" by (induction kvs) auto
qed

lemma numbers_ok_key_sorted [simp]:
  "numbers_ok (key_sorted v) \<longleftrightarrow> numbers_ok v"
  "numbers_ok_items (key_sorted_items xs) \<longleftrightarrow> numbers_ok_items xs"
  "numbers_ok_entries (key_sorted_entries kvs) \<longleftrightarrow> numbers_ok_entries kvs"
proof (induction v and xs and kvs rule: key_sorted_key_sorted_items_key_sorted_entries.induct)
  case (2 kvs)
  then show ?case by (simp add: numbers_ok_all)
qed auto

lemma canonical_text_inj:
  assumes "canonicalJson v = Inr s" "canonicalJson w = Inr s" "numbers_ok v" "numbers_ok w"
  shows "key_sorted v = key_sorted w"
  using stringify_cancel(1) [of "key_sorted v" "[]" "key_sorted w" "[]"] assms
  by (auto simp: canonicalJson_def dest: serialize_stringify(1))

section \<open>Properties\<close>

lemma canonical_text_sorted: "nesting v \<le> MAX_DEPTH \<Longrightarrow> canonical_text v = stringify (key_sorted v)"
  using canonicalJson_text [of v] by (auto simp: canonicalJson_def dest: serialize_stringify(1))

text \<open>The canonical form exists exactly for values nested at most 64 deep, and is then
  what \<open>JSON.stringify\<close> prints for the value with every object's members put in key order;
  deeper values raise the depth error.\<close>

lemma canonicalJson_spec:
  "canonicalJson v = (if nesting v \<le> MAX_DEPTH then Inr (stringify (key_sorted v))
                      else Inl MaximumDepthExceeded)"
proof (cases "nesting v \<le> MAX_DEPTH")
  case True
  then show ?thesis by (simp add: canonicalJson_text canonical_text_sorted)
next
  case False
  then show ?thesis
    using serialize_defined_iff(1) [of 0 v]
    by (cases "canonicalJson v") (auto simp: canonicalJson_def intro: canonical_error_unique)
qed

text \<open>A digest input stands for one value: two values of JSON numbers, nested within the
  bound, have the same canonical form exactly when they differ at most in the order of object
  members.  So two contexts, bindings or ledgers of different content never share a digest
  input.\<close>

theorem canonicalJson_injective:
  assumes "numbers_ok v" "numbers_ok w" "nesting v \<le> MAX_DEPTH" "nesting w \<le> MAX_DEPTH"
  shows "canonicalJson v = canonicalJson w \<longleftrightarrow> key_sorted v = key_sorted w"
proof
  assume "canonicalJson v = canonicalJson w"
  then show "key_sorted v = key_sorted w"
    using canonicalJson_text assms by (intro canonical_text_inj [of v "canonical_text v"]) simp_all
next
  assume "key_sorted v = key_sorted w"
  then show "canonicalJson v = canonicalJson w"
    using assms by (simp add: canonicalJson_text canonical_text_sorted)
qed

lemma canonicalJson_injective_witness:
  "canonicalJson (JObj [(''b'', JNum ''1''), (''a'', JStr ''x'')])
     = canonicalJson (JObj [(''a'', JStr ''x''), (''b'', JNum ''1'')])
   \<and> canonicalJson (JObj [(''b'', JNum ''1''), (''a'', JStr ''x'')])
     \<noteq> canonicalJson (JObj [(''a'', JNum ''1''), (''b'', JStr ''x'')])"
proof -
  have n: "number_text ''1''" by (simp add: number_text_def number_char_def is_digit_def Let_def)
  have ab: "''a'' < ''b''" "\<not> ''b'' < ''a''" "''a'' \<le> ''b''" "\<not> ''b'' \<le> ''a''" by code_simp+
  show ?thesis
    by (subst (1 2) canonicalJson_injective)
      (simp_all add: n ab MAX_DEPTH_def)
qed

end
