(* ===== verification/Runtime_Contracts.thy ===== *)
theory Runtime_Contracts
  imports Canonical_Json
begin

text \<open>
  The vocabulary the Host's components share: \<open>shared/runtime/contracts.ts\<close> (states, limits,
  quotas), \<open>shared/runtime/errors.ts\<close> (structured errors) and \<open>shared/runtime/events.ts\<close> (the
  event stream of a Model Execution with its schema).
\<close>

section \<open>States and limits\<close>

definition LIMITS_executionBufferBytes :: nat where
  "LIMITS_executionBufferBytes = 32 * 1024 * 1024"

record quotas =
  maxActiveScopes :: nat
  maxParticipantsPerScope :: nat
  maxDriverProcesses :: nat
  maxConcurrentExecutions :: nat
  maxEventConnections :: nat
  scopeCreatesPerMinute :: nat

definition QUOTAS :: quotas where
  "QUOTAS = \<lparr> maxActiveScopes = 4, maxParticipantsPerScope = 8, maxDriverProcesses = 16,
     maxConcurrentExecutions = 4, maxEventConnections = 32, scopeCreatesPerMinute = 10 \<rparr>"

datatype DriverId =
    claude_stream_json | codex_app_server | kimi_stream_json | grok_stream_json | cursor_stream_json

datatype ProfileReadinessState =
    readiness_ready | readiness_invalid_binding | readiness_model_unavailable | readiness_runtime_unavailable

datatype ParticipantRuntimeState = rt_cold | rt_prewarming | rt_ready | rt_busy | rt_failed

datatype ScopeState = scope_creating | scope_active | scope_closing | scope_closed

datatype DispatchState = not_dispatched | dispatch_accepted | dispatch_unknown

datatype ToolState = tool_none | tool_active | tool_completed | tool_unknown

datatype AckState = ack_pending | ack_acknowledged | ack_expired

datatype AckDisposition = disp_committed | disp_discarded

datatype ExecutionState = exec_running | exec_completed | exec_failed | exec_interrupted

section \<open>Errors\<close>

datatype RuntimeErrorCode =
    BAD_REQUEST | UNAUTHENTICATED | FORBIDDEN | NOT_FOUND | METHOD_NOT_ALLOWED | PAYLOAD_TOO_LARGE
  | RESOURCE_LIMIT | RATE_LIMITED | INTERNAL
  | HOST_HEADER_MISMATCH | ORIGIN_MISMATCH | CSRF_MISMATCH | STALE_CONTROLLER
  | INSTALLATION_NOT_FOUND | INSTALLATION_INVALID | INSTALLATION_CHANGED | INSTALLATION_UNTRUSTED
  | PROFILE_INVALID | MODEL_UNAVAILABLE | AUTH_REQUIRED | INCOMPATIBLE_DRIVER
  | SCOPE_NOT_FOUND | SCOPE_CLOSED | PARTICIPANT_NOT_FOUND | PARTICIPANT_BUSY
  | EXECUTION_NOT_FOUND | EXECUTION_CONFLICT | ALREADY_TERMINAL
  | DRIVER_SPAWN_FAILED | HANDSHAKE_TIMEOUT | DISPATCH_TIMEOUT | STREAM_IDLE_TIMEOUT
  | ONESHOT_TIMEOUT | STREAM_DRAIN_TIMEOUT | TURN_TIMEOUT | PROTOCOL_VIOLATION | PROTOCOL_LIMIT
  | DRIVER_CRASH | CANCELLED | EMPTY_OUTPUT | MODEL_MISMATCH | TOOL_STATE_UNKNOWN | NEEDS_REBASE
  | UNSUPPORTED_NODE | PORT_IN_USE

datatype ErrorPhase =
    ph_bootstrap | ph_security | ph_discovery | ph_prewarm | ph_dispatch | ph_stream
  | ph_commit | ph_cancel | ph_close | ph_quota

record RuntimeError =
  err_code :: RuntimeErrorCode
  err_phase :: ErrorPhase
  err_retryable :: bool
  err_message :: string
  err_driverId :: "DriverId option"
  err_executionId :: "string option"
  err_participantId :: "string option"
  err_diagnosticId :: "string option"
  err_retryAfterMs :: "nat option"
  err_limitMs :: "nat option"
  err_detail :: "string option"

text \<open>The partial record \<open>extra\<close> of \<open>makeError\<close>.\<close>

record error_extra =
  xt_retryable :: "bool option"
  xt_driverId :: "DriverId option"
  xt_executionId :: "string option"
  xt_participantId :: "string option"
  xt_diagnosticId :: "string option"
  xt_retryAfterMs :: "nat option"
  xt_limitMs :: "nat option"
  xt_detail :: "string option"

definition no_extra :: error_extra where
  "no_extra = \<lparr> xt_retryable = None, xt_driverId = None, xt_executionId = None,
     xt_participantId = None, xt_diagnosticId = None, xt_retryAfterMs = None,
     xt_limitMs = None, xt_detail = None \<rparr>"

definition makeError :: "RuntimeErrorCode \<Rightarrow> ErrorPhase \<Rightarrow> string \<Rightarrow> error_extra \<Rightarrow> RuntimeError" where
  "makeError code phase message extra =
     \<lparr> err_code = code, err_phase = phase,
       err_retryable = (case xt_retryable extra of None \<Rightarrow> False | Some b \<Rightarrow> b),
       err_message = message, err_driverId = xt_driverId extra,
       err_executionId = xt_executionId extra, err_participantId = xt_participantId extra,
       err_diagnosticId = xt_diagnosticId extra, err_retryAfterMs = xt_retryAfterMs extra,
       err_limitMs = xt_limitMs extra, err_detail = xt_detail extra \<rparr>"

text \<open>\<open>runtimeErrorSchema\<close>: the constraints that go beyond the types.\<close>

definition runtimeErrorSchema :: "RuntimeError \<Rightarrow> bool" where
  "runtimeErrorSchema e \<longleftrightarrow>
     length (err_message e) \<le> 1024
   \<and> (case err_limitMs e of None \<Rightarrow> True | Some n \<Rightarrow> 0 < n)
   \<and> (case err_detail e of None \<Rightarrow> True | Some d \<Rightarrow> length d \<le> 2048)"

text \<open>\<open>throw httpError(status, error)\<close>.\<close>

record HttpError =
  http_status :: nat
  http_error :: RuntimeError

definition httpError :: "nat \<Rightarrow> RuntimeError \<Rightarrow> HttpError" where
  "httpError status e = \<lparr> http_status = status, http_error = e \<rparr>"

section \<open>Execution events\<close>

text \<open>
  A JavaScript property that may be absent, \<open>null\<close> or a value.  Token counts are whole
  numbers; the cost, which is only stored and printed, is kept as its decimal text.
\<close>

datatype 'a nullable = Undefined | Null | Value 'a

record Usage =
  us_inputTokens :: "nat nullable"
  us_outputTokens :: "nat nullable"
  us_costUsd :: "string nullable"

datatype ActivityKind = act_tool | act_command | act_other

datatype ModelVerdict = verdict_match | verdict_mismatch | verdict_unknown

datatype InterruptReason =
    int_user_cancelled | int_driver_crash | int_timeout | int_host_shutdown | int_supervisor_lost | int_unknown

text \<open>
  What a driver hands to \<open>emit\<close>: an event without its identity.  \<open>OtherProto\<close> stands for
  every object outside the eight known shapes (an unknown \<open>type\<close>, a missing or an extra
  field), which the strict schema rejects.
\<close>

datatype DriverEvent =
    Started string
  | OutputDelta string
  | OutputSnapshot string
  | Activity ActivityKind string
  | UsageReport Usage
  | Completed (ev_output: string) (ev_requestedModel: string) (ev_effectiveModel: "string option")
      (ev_modelVerdict: ModelVerdict) (ev_toolState: ToolState) (ev_dispatchState: DispatchState)
      (ev_usage: "Usage option") (ev_finalSeq: nat)
  | Failed RuntimeError DispatchState ToolState bool
  | Interrupted InterruptReason DispatchState ToolState
  | OtherProto

record RuntimeEvent =
  ev_executionId :: string
  ev_seq :: nat
  ev_at :: string
  ev_body :: DriverEvent

fun terminal_body :: "DriverEvent \<Rightarrow> bool" where
  "terminal_body (Completed _ _ _ _ _ _ _ _) = True"
| "terminal_body (Failed _ _ _ _) = True"
| "terminal_body (Interrupted _ _ _) = True"
| "terminal_body _ = False"

definition isTerminalEvent :: "RuntimeEvent \<Rightarrow> bool" where
  "isTerminalEvent e = terminal_body (ev_body e)"

fun output_body :: "DriverEvent \<Rightarrow> bool" where
  "output_body (OutputDelta _) = True"
| "output_body (OutputSnapshot _) = True"
| "output_body _ = False"

text \<open>\<open>runtimeEventSchema.safeParse(event).success\<close>.\<close>

fun body_schema :: "DriverEvent \<Rightarrow> bool" where
  "body_schema (Started requestedModel) = (requestedModel \<noteq> [])"
| "body_schema (OutputDelta _) = True"
| "body_schema (OutputSnapshot _) = True"
| "body_schema (Activity _ summary) = (length summary \<le> 256)"
| "body_schema (UsageReport _) = True"
| "body_schema (Completed _ requestedModel _ _ _ dispatchState _ finalSeq) =
     (requestedModel \<noteq> [] \<and> dispatchState = dispatch_accepted \<and> 0 < finalSeq)"
| "body_schema (Failed err _ _ _) = runtimeErrorSchema err"
| "body_schema (Interrupted _ _ _) = True"
| "body_schema OtherProto = False"

definition runtimeEventSchema :: "RuntimeEvent \<Rightarrow> bool" where
  "runtimeEventSchema e \<longleftrightarrow>
     ev_executionId e \<noteq> [] \<and> 0 < ev_seq e \<and> ev_at e \<noteq> [] \<and> body_schema (ev_body e)"

end
