(* ===== verification/Event_Json.thy ===== *)
theory Event_Json
  imports Runtime_Contracts
begin

text \<open>
  The JSON form of an execution event and its size in bytes,
  \<open>Buffer.byteLength(JSON.stringify(event), "utf8")\<close>: what \<open>eventBytes\<close> of
  \<open>runtime-host/executions/execution-registry.ts\<close> charges an event for.  The texts of the
  enumerated values are those of \<open>shared/runtime/contracts.ts\<close>, \<open>errors.ts\<close> and \<open>events.ts\<close>.
\<close>

section \<open>The size of an event\<close>

definition opt_entry :: "string \<Rightarrow> ('a \<Rightarrow> json) \<Rightarrow> 'a option \<Rightarrow> (string \<times> json) list" where
  "opt_entry k f v = (case v of None \<Rightarrow> [] | Some x \<Rightarrow> [(k, f x)])"

definition nullable_entry :: "string \<Rightarrow> ('a \<Rightarrow> json) \<Rightarrow> 'a nullable \<Rightarrow> (string \<times> json) list" where
  "nullable_entry k f v = (case v of Undefined \<Rightarrow> [] | Null \<Rightarrow> [(k, JNull)] | Value x \<Rightarrow> [(k, f x)])"

definition json_nat :: "nat \<Rightarrow> json" where
  "json_nat n = JNum (show_nat n)"

fun driverId_text :: "DriverId \<Rightarrow> string" where
  "driverId_text claude_stream_json = ''claude-stream-json''"
| "driverId_text codex_app_server = ''codex-app-server''"
| "driverId_text kimi_stream_json = ''kimi-stream-json''"
| "driverId_text grok_stream_json = ''grok-stream-json''"
| "driverId_text cursor_stream_json = ''cursor-stream-json''"

fun dispatch_text :: "DispatchState \<Rightarrow> string" where
  "dispatch_text not_dispatched = ''not_dispatched''"
| "dispatch_text dispatch_accepted = ''accepted''"
| "dispatch_text dispatch_unknown = ''unknown''"

fun tool_text :: "ToolState \<Rightarrow> string" where
  "tool_text tool_none = ''none''"
| "tool_text tool_active = ''active''"
| "tool_text tool_completed = ''completed''"
| "tool_text tool_unknown = ''unknown''"

fun phase_text :: "ErrorPhase \<Rightarrow> string" where
  "phase_text ph_bootstrap = ''bootstrap''"
| "phase_text ph_security = ''security''"
| "phase_text ph_discovery = ''discovery''"
| "phase_text ph_prewarm = ''prewarm''"
| "phase_text ph_dispatch = ''dispatch''"
| "phase_text ph_stream = ''stream''"
| "phase_text ph_commit = ''commit''"
| "phase_text ph_cancel = ''cancel''"
| "phase_text ph_close = ''close''"
| "phase_text ph_quota = ''quota''"

fun interrupt_text :: "InterruptReason \<Rightarrow> string" where
  "interrupt_text int_user_cancelled = ''user_cancelled''"
| "interrupt_text int_driver_crash = ''driver_crash''"
| "interrupt_text int_timeout = ''timeout''"
| "interrupt_text int_host_shutdown = ''host_shutdown''"
| "interrupt_text int_supervisor_lost = ''supervisor_lost''"
| "interrupt_text int_unknown = ''unknown''"

fun activity_text :: "ActivityKind \<Rightarrow> string" where
  "activity_text act_tool = ''tool''"
| "activity_text act_command = ''command''"
| "activity_text act_other = ''other''"

fun verdict_text :: "ModelVerdict \<Rightarrow> string" where
  "verdict_text verdict_match = ''match''"
| "verdict_text verdict_mismatch = ''mismatch''"
| "verdict_text verdict_unknown = ''unknown''"

fun code_text :: "RuntimeErrorCode \<Rightarrow> string" where
  "code_text BAD_REQUEST = ''BAD_REQUEST''"
| "code_text UNAUTHENTICATED = ''UNAUTHENTICATED''"
| "code_text FORBIDDEN = ''FORBIDDEN''"
| "code_text NOT_FOUND = ''NOT_FOUND''"
| "code_text METHOD_NOT_ALLOWED = ''METHOD_NOT_ALLOWED''"
| "code_text PAYLOAD_TOO_LARGE = ''PAYLOAD_TOO_LARGE''"
| "code_text RESOURCE_LIMIT = ''RESOURCE_LIMIT''"
| "code_text RATE_LIMITED = ''RATE_LIMITED''"
| "code_text INTERNAL = ''INTERNAL''"
| "code_text HOST_HEADER_MISMATCH = ''HOST_HEADER_MISMATCH''"
| "code_text ORIGIN_MISMATCH = ''ORIGIN_MISMATCH''"
| "code_text CSRF_MISMATCH = ''CSRF_MISMATCH''"
| "code_text STALE_CONTROLLER = ''STALE_CONTROLLER''"
| "code_text INSTALLATION_NOT_FOUND = ''INSTALLATION_NOT_FOUND''"
| "code_text INSTALLATION_INVALID = ''INSTALLATION_INVALID''"
| "code_text INSTALLATION_CHANGED = ''INSTALLATION_CHANGED''"
| "code_text INSTALLATION_UNTRUSTED = ''INSTALLATION_UNTRUSTED''"
| "code_text PROFILE_INVALID = ''PROFILE_INVALID''"
| "code_text MODEL_UNAVAILABLE = ''MODEL_UNAVAILABLE''"
| "code_text AUTH_REQUIRED = ''AUTH_REQUIRED''"
| "code_text INCOMPATIBLE_DRIVER = ''INCOMPATIBLE_DRIVER''"
| "code_text SCOPE_NOT_FOUND = ''SCOPE_NOT_FOUND''"
| "code_text SCOPE_CLOSED = ''SCOPE_CLOSED''"
| "code_text PARTICIPANT_NOT_FOUND = ''PARTICIPANT_NOT_FOUND''"
| "code_text PARTICIPANT_BUSY = ''PARTICIPANT_BUSY''"
| "code_text EXECUTION_NOT_FOUND = ''EXECUTION_NOT_FOUND''"
| "code_text EXECUTION_CONFLICT = ''EXECUTION_CONFLICT''"
| "code_text ALREADY_TERMINAL = ''ALREADY_TERMINAL''"
| "code_text DRIVER_SPAWN_FAILED = ''DRIVER_SPAWN_FAILED''"
| "code_text HANDSHAKE_TIMEOUT = ''HANDSHAKE_TIMEOUT''"
| "code_text DISPATCH_TIMEOUT = ''DISPATCH_TIMEOUT''"
| "code_text STREAM_IDLE_TIMEOUT = ''STREAM_IDLE_TIMEOUT''"
| "code_text ONESHOT_TIMEOUT = ''ONESHOT_TIMEOUT''"
| "code_text STREAM_DRAIN_TIMEOUT = ''STREAM_DRAIN_TIMEOUT''"
| "code_text TURN_TIMEOUT = ''TURN_TIMEOUT''"
| "code_text PROTOCOL_VIOLATION = ''PROTOCOL_VIOLATION''"
| "code_text PROTOCOL_LIMIT = ''PROTOCOL_LIMIT''"
| "code_text DRIVER_CRASH = ''DRIVER_CRASH''"
| "code_text CANCELLED = ''CANCELLED''"
| "code_text EMPTY_OUTPUT = ''EMPTY_OUTPUT''"
| "code_text MODEL_MISMATCH = ''MODEL_MISMATCH''"
| "code_text TOOL_STATE_UNKNOWN = ''TOOL_STATE_UNKNOWN''"
| "code_text NEEDS_REBASE = ''NEEDS_REBASE''"
| "code_text UNSUPPORTED_NODE = ''UNSUPPORTED_NODE''"
| "code_text PORT_IN_USE = ''PORT_IN_USE''"

definition usage_json :: "Usage \<Rightarrow> json" where
  "usage_json u = JObj (nullable_entry ''inputTokens'' json_nat (us_inputTokens u)
     @ nullable_entry ''outputTokens'' json_nat (us_outputTokens u)
     @ nullable_entry ''costUsd'' JNum (us_costUsd u))"

definition error_json :: "RuntimeError \<Rightarrow> json" where
  "error_json e = JObj (
     [(''code'', JStr (code_text (err_code e))), (''phase'', JStr (phase_text (err_phase e))),
      (''retryable'', JBool (err_retryable e)), (''message'', JStr (err_message e))]
     @ opt_entry ''driverId'' (\<lambda>d. JStr (driverId_text d)) (err_driverId e)
     @ opt_entry ''executionId'' JStr (err_executionId e)
     @ opt_entry ''participantId'' JStr (err_participantId e)
     @ opt_entry ''diagnosticId'' JStr (err_diagnosticId e)
     @ opt_entry ''retryAfterMs'' json_nat (err_retryAfterMs e)
     @ opt_entry ''limitMs'' json_nat (err_limitMs e)
     @ opt_entry ''detail'' JStr (err_detail e))"

definition null_or :: "('a \<Rightarrow> json) \<Rightarrow> 'a option \<Rightarrow> json" where
  "null_or f v = (case v of None \<Rightarrow> JNull | Some x \<Rightarrow> f x)"

fun body_json :: "DriverEvent \<Rightarrow> (string \<times> json) list" where
  "body_json (Started m) = [(''type'', JStr ''started''), (''requestedModel'', JStr m)]"
| "body_json (OutputDelta t) = [(''type'', JStr ''output.delta''), (''text'', JStr t)]"
| "body_json (OutputSnapshot t) = [(''type'', JStr ''output.snapshot''), (''text'', JStr t)]"
| "body_json (Activity k s) =
     [(''type'', JStr ''activity''), (''kind'', JStr (activity_text k)), (''summary'', JStr s)]"
| "body_json (UsageReport u) = [(''type'', JStr ''usage''), (''usage'', usage_json u)]"
| "body_json (Completed out req eff v t d u fs) =
     [(''type'', JStr ''completed''), (''output'', JStr out), (''requestedModel'', JStr req),
      (''effectiveModel'', null_or JStr eff), (''modelVerdict'', JStr (verdict_text v)),
      (''toolState'', JStr (tool_text t)), (''dispatchState'', JStr (dispatch_text d)),
      (''usage'', null_or usage_json u), (''finalSeq'', json_nat fs)]"
| "body_json (Failed e d t r) =
     [(''type'', JStr ''failed''), (''error'', error_json e), (''dispatchState'', JStr (dispatch_text d)),
      (''toolState'', JStr (tool_text t)), (''retryable'', JBool r)]"
| "body_json (Interrupted r d t) =
     [(''type'', JStr ''interrupted''), (''reason'', JStr (interrupt_text r)),
      (''dispatchState'', JStr (dispatch_text d)), (''toolState'', JStr (tool_text t))]"
| "body_json OtherProto = []"

definition event_json :: "RuntimeEvent \<Rightarrow> json" where
  "event_json e = JObj ([(''executionId'', JStr (ev_executionId e)), (''seq'', json_nat (ev_seq e)),
     (''at'', JStr (ev_at e))] @ body_json (ev_body e))"

definition eventBytes :: "RuntimeEvent \<Rightarrow> int" where
  "eventBytes e = int (utf8_len (stringify (event_json e)))"

end
