(* ===== verification/Execution_Registry.thy ===== *)
theory Execution_Registry
  imports Event_Json
begin

text \<open>
  The execution registry of the Runtime Host, \<open>runtime-host/executions/execution-registry.ts\<close>:
  the store of Model Executions, their event buffers, followers and acknowledgements.
  The closure state of \<open>createExecutionRegistry\<close> is the record \<open>Registry\<close>; each method is a
  function on it.  A listener is a number (one per \<open>follow\<close> call); the calls it receives are
  the log \<open>rg_delivered\<close>.  The clock is the argument \<open>now\<close>.  Listeners do not call back into
  the registry.

  Shown here: the invariant every method keeps (strictly increasing sequence numbers, exact
  byte accounting, the terminal event last and unique, tombstones empty), that the runtime
  check inside the coalescing step never fires, the bound on the buffer, and that a follower
  never sees a sequence number twice or out of order.
\<close>

section \<open>State\<close>

record ExecutionRecord =
  er_executionId :: string
  er_participantId :: string
  er_scopeId :: string
  er_state :: ExecutionState
  er_events :: "RuntimeEvent list"
  er_lastSeq :: nat
  er_bufferedBytes :: int
  er_ackState :: AckState
  er_disposition :: "AckDisposition option"
  er_tombstone :: bool
  er_terminal :: "RuntimeEvent option"
  er_createdAt :: string

record Registry =
  rg_records :: "(string, ExecutionRecord) jsmap"
  rg_listeners :: "(string, nat list) jsmap"
  rg_delivered :: "(nat \<times> RuntimeEvent) list"

definition createExecutionRegistry :: Registry where
  "createExecutionRegistry = \<lparr> rg_records = [], rg_listeners = [], rg_delivered = [] \<rparr>"

section \<open>The event buffer\<close>

text \<open>The \<open>Error\<close> \<open>bufferEvent\<close> throws when its own consistency check fails.\<close>

datatype registry_error = CoalesceInvariantViolated nat nat

fun event_text :: "DriverEvent \<Rightarrow> string" where
  "event_text (OutputDelta t) = t"
| "event_text (OutputSnapshot t) = t"
| "event_text _ = []"

text \<open>The variables of the coalescing loop.\<close>

record coalesce_state =
  cs_kept :: "RuntimeEvent list"
  cs_preview :: string
  cs_firstDeltaSeq :: "nat option"
  cs_firstDeltaIndex :: "nat option"
  cs_bytes :: int

definition coalesce_step :: "RuntimeEvent \<Rightarrow> coalesce_state \<Rightarrow> coalesce_state" where
  "coalesce_step existing cs =
     (if output_body (ev_body existing) then
        (let cs' = (if cs_firstDeltaSeq cs = None
                    then cs\<lparr>cs_firstDeltaIndex := Some (length (cs_kept cs)),
                            cs_firstDeltaSeq := Some (ev_seq existing)\<rparr>
                    else cs)
         in cs'\<lparr>cs_preview := cs_preview cs' @ event_text (ev_body existing),
                cs_bytes := cs_bytes cs' - eventBytes existing\<rparr>)
      else cs\<lparr>cs_kept := cs_kept cs @ [existing]\<rparr>)"

definition coalesce_loop :: "RuntimeEvent list \<Rightarrow> int \<Rightarrow> coalesce_state" where
  "coalesce_loop events bytes =
     fold coalesce_step events
       \<lparr> cs_kept = [], cs_preview = [], cs_firstDeltaSeq = None, cs_firstDeltaIndex = None,
         cs_bytes = bytes \<rparr>"

text \<open>The replaced buffer and its byte count.\<close>

definition coalesce :: "string \<Rightarrow> string \<Rightarrow> RuntimeEvent list \<Rightarrow> int \<Rightarrow> RuntimeEvent list \<times> int" where
  "coalesce now execId events bytes =
     (let cs = coalesce_loop events bytes
      in case cs_firstDeltaSeq cs of
           None \<Rightarrow> (cs_kept cs, cs_bytes cs)
         | Some sq \<Rightarrow>
             (let snapshot = \<lparr> ev_executionId = execId, ev_seq = sq, ev_at = now,
                               ev_body = OutputSnapshot (cs_preview cs) \<rparr>;
                  i = (case cs_firstDeltaIndex cs of None \<Rightarrow> 0 | Some i \<Rightarrow> i)
              in (take i (cs_kept cs) @ [snapshot] @ drop i (cs_kept cs),
                  cs_bytes cs + eventBytes snapshot)))"

text \<open>The first adjacent pair whose sequence numbers decrease.\<close>

fun seq_violation :: "RuntimeEvent list \<Rightarrow> (nat \<times> nat) option" where
  "seq_violation (a # b # es) =
     (if ev_seq b < ev_seq a then Some (ev_seq a, ev_seq b) else seq_violation (b # es))"
| "seq_violation _ = None"

definition append_event :: "ExecutionRecord \<Rightarrow> RuntimeEvent \<Rightarrow> ExecutionRecord" where
  "append_event r event =
     r\<lparr>er_events := er_events r @ [event],
       er_bufferedBytes := er_bufferedBytes r + eventBytes event,
       er_lastSeq := ev_seq event\<rparr>"

definition bufferEvent :: "string \<Rightarrow> ExecutionRecord \<Rightarrow> RuntimeEvent \<Rightarrow> registry_error + ExecutionRecord" where
  "bufferEvent now r event =
     (let size = eventBytes event;
          limit = int LIMITS_executionBufferBytes
      in if \<not> isTerminalEvent event \<and> limit < er_bufferedBytes r + size then
           (let (evs, bytes) = coalesce now (er_executionId r) (er_events r) (er_bufferedBytes r);
                r' = r\<lparr>er_events := evs, er_bufferedBytes := bytes\<rparr>
            in case seq_violation evs of
                 Some (a, b) \<Rightarrow> Inl (CoalesceInvariantViolated a b)
               | None \<Rightarrow>
                   if limit < bytes + size then Inr (r'\<lparr>er_lastSeq := ev_seq event\<rparr>)
                   else Inr (append_event r' event))
         else Inr (append_event r event))"

section \<open>Methods\<close>

definition put_record :: "string \<Rightarrow> ExecutionRecord \<Rightarrow> Registry \<Rightarrow> Registry" where
  "put_record k r g = g\<lparr>rg_records := jm_set k r (rg_records g)\<rparr>"

definition notify :: "string \<Rightarrow> RuntimeEvent \<Rightarrow> Registry \<Rightarrow> Registry" where
  "notify executionId event g =
     (case jm_get (rg_listeners g) executionId of
        None \<Rightarrow> g
      | Some ls \<Rightarrow> g\<lparr>rg_delivered := rg_delivered g @ map (\<lambda>l. (l, event)) ls\<rparr>)"

text \<open>\<open>begin\<close> (a keyword here): the record and whether it was created by this call.\<close>

definition begin_execution :: "string \<Rightarrow> string \<Rightarrow> string \<Rightarrow> string \<Rightarrow> Registry \<Rightarrow> Registry \<times> ExecutionRecord \<times> bool" where
  "begin_execution now executionId participantId scopeId g =
     (case jm_get (rg_records g) executionId of
        Some existing \<Rightarrow> (g, existing, False)
      | None \<Rightarrow>
          (let r = \<lparr> er_executionId = executionId, er_participantId = participantId,
                     er_scopeId = scopeId, er_state = exec_running, er_events = [], er_lastSeq = 0,
                     er_bufferedBytes = 0, er_ackState = ack_pending, er_disposition = None,
                     er_tombstone = False, er_terminal = None, er_createdAt = now \<rparr>
           in (put_record executionId r g, r, True)))"

definition get_execution :: "string \<Rightarrow> Registry \<Rightarrow> ExecutionRecord option" where
  "get_execution executionId g = jm_get (rg_records g) executionId"

text \<open>The spread \<open>{...proto, executionId, seq, at}\<close>, with \<open>finalSeq\<close> of a completed event set.\<close>

fun stamp_final :: "nat \<Rightarrow> DriverEvent \<Rightarrow> DriverEvent" where
  "stamp_final sq (Completed out req eff v t d u _) = Completed out req eff v t d u sq"
| "stamp_final _ b = b"

definition stamp :: "string \<Rightarrow> string \<Rightarrow> nat \<Rightarrow> DriverEvent \<Rightarrow> RuntimeEvent" where
  "stamp now executionId sq proto =
     \<lparr> ev_executionId = executionId, ev_seq = sq, ev_at = now, ev_body = stamp_final sq proto \<rparr>"

fun state_of_terminal :: "DriverEvent \<Rightarrow> ExecutionState" where
  "state_of_terminal (Completed _ _ _ _ _ _ _ _) = exec_completed"
| "state_of_terminal (Failed _ _ _ _) = exec_failed"
| "state_of_terminal _ = exec_interrupted"

definition protocol_violation_body :: DriverEvent where
  "protocol_violation_body =
     Failed (makeError PROTOCOL_VIOLATION ph_stream ''driver emitted an invalid event'' no_extra)
       dispatch_unknown tool_unknown False"

text \<open>
  The event \<open>emit\<close> stores: the stamped proto if the schema accepts it, else the fallback
  failure that ends the execution.
\<close>

definition emitted_event :: "string \<Rightarrow> ExecutionRecord \<Rightarrow> string \<Rightarrow> DriverEvent \<Rightarrow> RuntimeEvent" where
  "emitted_event now r executionId proto =
     (let stamped = stamp now executionId (er_lastSeq r + 1) proto
      in if runtimeEventSchema stamped then stamped
         else \<lparr> ev_executionId = executionId, ev_seq = er_lastSeq r + 1, ev_at = now,
                ev_body = protocol_violation_body \<rparr>)"

definition emit :: "string \<Rightarrow> string \<Rightarrow> DriverEvent \<Rightarrow> Registry \<Rightarrow> registry_error + Registry \<times> RuntimeEvent option" where
  "emit now executionId proto g =
     (case jm_get (rg_records g) executionId of
        None \<Rightarrow> Inr (g, None)
      | Some r \<Rightarrow>
          if er_tombstone r \<or> er_terminal r \<noteq> None then Inr (g, None)
          else
            (let event = emitted_event now r executionId proto;
                 r' = (if isTerminalEvent event
                       then r\<lparr>er_state := state_of_terminal (ev_body event), er_terminal := Some event\<rparr>
                       else r)
             in case bufferEvent now r' event of
                  Inl e \<Rightarrow> Inl e
                | Inr r'' \<Rightarrow> Inr (notify executionId event (put_record executionId r'' g), Some event)))"

text \<open>\<open>follow\<close>: the replay is delivered, then the listener is added to the set if events can come.\<close>

definition set_add :: "'a \<Rightarrow> 'a list \<Rightarrow> 'a list" where
  "set_add x xs = (if x \<in> set xs then xs else xs @ [x])"

definition follow :: "string \<Rightarrow> nat \<Rightarrow> nat \<Rightarrow> Registry \<Rightarrow> Registry option" where
  "follow executionId afterSeq listener g =
     (case jm_get (rg_records g) executionId of
        None \<Rightarrow> None
      | Some r \<Rightarrow>
          (let g' = g\<lparr>rg_delivered := rg_delivered g
                     @ map (\<lambda>e. (listener, e)) (filter (\<lambda>e. afterSeq < ev_seq e) (er_events r))\<rparr>
           in if er_tombstone r \<or> er_terminal r \<noteq> None then Some g'
              else
                (let ls = (case jm_get (rg_listeners g') executionId of None \<Rightarrow> [] | Some ls \<Rightarrow> ls)
                 in Some (g'\<lparr>rg_listeners := jm_set executionId (set_add listener ls) (rg_listeners g')\<rparr>))))"

text \<open>The function \<open>follow\<close> returns.\<close>

definition unfollow :: "string \<Rightarrow> nat \<Rightarrow> Registry \<Rightarrow> Registry" where
  "unfollow executionId listener g =
     (case jm_get (rg_listeners g) executionId of
        None \<Rightarrow> g
      | Some ls \<Rightarrow> g\<lparr>rg_listeners := jm_set executionId (removeAll listener ls) (rg_listeners g)\<rparr>)"

datatype ack_outcome =
    Acknowledged "AckDisposition option"
  | AckExpired
  | AckConflict "AckDisposition option" RuntimeError

definition ack_error :: "string \<Rightarrow> string \<Rightarrow> RuntimeError" where
  "ack_error executionId message =
     makeError EXECUTION_CONFLICT ph_commit message (no_extra\<lparr>xt_executionId := Some executionId\<rparr>)"

definition ack :: "string \<Rightarrow> nat \<Rightarrow> AckDisposition \<Rightarrow> Registry \<Rightarrow> Registry \<times> ack_outcome" where
  "ack executionId finalSeq disposition g =
     (case jm_get (rg_records g) executionId of
        None \<Rightarrow> (g, AckExpired)
      | Some r \<Rightarrow>
          if er_tombstone r \<or> er_ackState r = ack_acknowledged then
            (if er_disposition r = Some disposition then (g, Acknowledged (er_disposition r))
             else (g, AckConflict (er_disposition r)
                        (ack_error executionId
                           ''ACK disposition differs from the recorded terminal disposition.'')))
          else (case er_terminal r of
                  None \<Rightarrow> (g, AckConflict None (ack_error executionId ''ACK before a terminal event.''))
                | Some t \<Rightarrow>
                    if ev_seq t \<noteq> finalSeq then
                      (g, AckConflict None
                            (ack_error executionId ''ACK finalSeq does not match the terminal event.''))
                    else
                      (let r' = r\<lparr>er_ackState := ack_acknowledged, er_disposition := Some disposition,
                                 er_events := [], er_bufferedBytes := 0, er_tombstone := True\<rparr>
                       in ((put_record executionId r' g)
                             \<lparr>rg_listeners := jm_delete executionId (rg_listeners g)\<rparr>,
                           Acknowledged (Some disposition)))))"

definition runningCount :: "Registry \<Rightarrow> nat" where
  "runningCount g = count_values (\<lambda>r. er_state r = exec_running) (rg_records g)"

definition eventConnectionCount :: "Registry \<Rightarrow> nat" where
  "eventConnectionCount g = sum_list (map (\<lambda>(_, ls). length ls) (rg_listeners g))"

definition in_scope :: "string \<Rightarrow> Registry \<Rightarrow> string \<Rightarrow> bool" where
  "in_scope scopeId g executionId \<longleftrightarrow>
     (case jm_get (rg_records g) executionId of None \<Rightarrow> False | Some r \<Rightarrow> er_scopeId r = scopeId)"

definition releaseScope :: "string \<Rightarrow> Registry \<Rightarrow> Registry" where
  "releaseScope scopeId g =
     g\<lparr>rg_records := filter (\<lambda>(k, r). er_scopeId r \<noteq> scopeId) (rg_records g),
       rg_listeners := filter (\<lambda>(k, ls). \<not> in_scope scopeId g k) (rg_listeners g)\<rparr>"

definition reset_registry :: "Registry \<Rightarrow> Registry" where
  "reset_registry g = g\<lparr>rg_records := [], rg_listeners := []\<rparr>"

section \<open>What coalescing computes\<close>

definition buf_bytes :: "RuntimeEvent list \<Rightarrow> int" where
  "buf_bytes es = sum_list (map eventBytes es)"

abbreviation is_output :: "RuntimeEvent \<Rightarrow> bool" where
  "is_output e \<equiv> output_body (ev_body e)"

text \<open>The preview text a follower of the buffer can reconstruct.\<close>

definition preview_of :: "RuntimeEvent list \<Rightarrow> string" where
  "preview_of es = concat (map (\<lambda>e. event_text (ev_body e)) es)"

lemma buf_bytes_simps [simp]:
  "buf_bytes [] = 0" "buf_bytes (e # es) = eventBytes e + buf_bytes es"
  "buf_bytes (es @ fs) = buf_bytes es + buf_bytes fs"
  by (simp_all add: buf_bytes_def)

lemma preview_of_simps [simp]:
  "preview_of [] = []" "preview_of (e # es) = event_text (ev_body e) @ preview_of es"
  "preview_of (es @ fs) = preview_of es @ preview_of fs"
  by (simp_all add: preview_of_def)

lemma event_text_no_output: "\<not> output_body b \<Longrightarrow> event_text b = []"
  by (cases b) auto

lemma buf_bytes_partition:
  "buf_bytes es = buf_bytes (filter is_output es) + buf_bytes (filter (\<lambda>e. \<not> is_output e) es)"
  by (induction es) auto

lemma preview_of_filter_output: "preview_of (filter is_output es) = preview_of es"
  by (induction es) (auto simp: event_text_no_output)

lemma coalesce_no_output:
  "\<forall>e \<in> set es. \<not> is_output e \<Longrightarrow> fold coalesce_step es cs = cs\<lparr>cs_kept := cs_kept cs @ es\<rparr>"
  by (induction es arbitrary: cs) (auto simp: coalesce_step_def)

lemma coalesce_after_first:
  "cs_firstDeltaSeq cs = Some q \<Longrightarrow>
   fold coalesce_step es cs =
     cs\<lparr>cs_kept := cs_kept cs @ filter (\<lambda>e. \<not> is_output e) es,
        cs_preview := cs_preview cs @ preview_of es,
        cs_bytes := cs_bytes cs - buf_bytes (filter is_output es)\<rparr>"
proof (induction es arbitrary: cs)
  case (Cons e es)
  then show ?case
    by (cases "is_output e") (auto simp: coalesce_step_def event_text_no_output Let_def)
qed simp

text \<open>
  With \<open>d\<close> the first delta or snapshot, the buffer keeps everything else in place and puts one
  snapshot with the joined text where \<open>d\<close> stood.
\<close>

definition joined_snapshot :: "string \<Rightarrow> string \<Rightarrow> nat \<Rightarrow> string \<Rightarrow> RuntimeEvent" where
  "joined_snapshot now execId sq text =
     \<lparr> ev_executionId = execId, ev_seq = sq, ev_at = now, ev_body = OutputSnapshot text \<rparr>"

lemma coalesce_split:
  assumes pre: "\<forall>e \<in> set pre. \<not> is_output e" and d: "is_output d"
  shows "coalesce now x (pre @ d # post) b =
     (let snap = joined_snapshot now x (ev_seq d) (preview_of (d # post))
      in (pre @ snap # filter (\<lambda>e. \<not> is_output e) post,
          b - buf_bytes (filter is_output (d # post)) + eventBytes snap))"
  using d
  by (simp add: coalesce_def coalesce_loop_def coalesce_no_output [OF pre] coalesce_step_def
      coalesce_after_first joined_snapshot_def Let_def algebra_simps)

lemma coalesce_none:
  "\<forall>e \<in> set es. \<not> is_output e \<Longrightarrow> coalesce now x es b = (es, b)"
  by (simp add: coalesce_def coalesce_loop_def coalesce_no_output Let_def)

lemma split_first_output:
  obtains (none) "\<forall>e \<in> set es. \<not> is_output e"
  | (first) pre d post where "es = pre @ d # post" "\<forall>e \<in> set pre. \<not> is_output e" "is_output d"
proof (cases "\<exists>e \<in> set es. is_output e")
  case True
  then show ?thesis by (elim split_list_first_propE) (rule first)
next
  case False
  then show ?thesis using none by blast
qed

abbreviation seqs :: "RuntimeEvent list \<Rightarrow> nat list" where
  "seqs es \<equiv> map ev_seq es"

lemma sorted_filter_seqs:
  "sorted_wrt (<) (seqs es) \<Longrightarrow> sorted_wrt (<) (seqs (filter P es))"
  by (induction es) auto

lemma coalesce_facts:
  assumes c: "coalesce now x es b = (es', b')"
  shows coalesce_sorted: "sorted_wrt (<) (seqs es) \<Longrightarrow> sorted_wrt (<) (seqs es')"
    and coalesce_seqs: "ev_seq ` set es' \<subseteq> ev_seq ` set es"
    and coalesce_preview: "preview_of es' = preview_of es"
    and coalesce_bytes: "b' - buf_bytes es' = b - buf_bytes es"
    and coalesce_event: "e \<in> set es' \<Longrightarrow> e \<in> set es \<or> e = joined_snapshot now x (ev_seq e) (preview_of es)"
proof -
  have all: "(sorted_wrt (<) (seqs es) \<longrightarrow> sorted_wrt (<) (seqs es'))
    \<and> ev_seq ` set es' \<subseteq> ev_seq ` set es \<and> preview_of es' = preview_of es
    \<and> b' - buf_bytes es' = b - buf_bytes es
    \<and> (\<forall>e \<in> set es'. e \<in> set es \<or> e = joined_snapshot now x (ev_seq e) (preview_of es))"
  proof (cases rule: split_first_output [of es])
    case none
    then show ?thesis using c by (simp add: coalesce_none)
  next
    case (first pre d post)
    have pre_text: "preview_of pre = []"
      using first(2) by (induction pre) (auto simp: event_text_no_output)
    have rest_text: "preview_of (filter (\<lambda>e. \<not> is_output e) post) = []"
      by (induction post) (auto simp: event_text_no_output)
    have es': "es' = pre @ joined_snapshot now x (ev_seq d) (preview_of (d # post))
                 # filter (\<lambda>e. \<not> is_output e) post"
      and b': "b' = b - buf_bytes (filter is_output (d # post))
                 + eventBytes (joined_snapshot now x (ev_seq d) (preview_of (d # post)))"
      using c unfolding first(1) coalesce_split [OF first(2,3)] by (simp_all add: Let_def)
    show ?thesis
      using first(3) buf_bytes_partition [of post]
      by (auto simp: es' b' first(1) joined_snapshot_def pre_text rest_text sorted_wrt_append
          intro: sorted_filter_seqs)
  qed
  then show "sorted_wrt (<) (seqs es) \<Longrightarrow> sorted_wrt (<) (seqs es')"
    and "ev_seq ` set es' \<subseteq> ev_seq ` set es"
    and "preview_of es' = preview_of es"
    and "b' - buf_bytes es' = b - buf_bytes es"
    and "e \<in> set es' \<Longrightarrow> e \<in> set es \<or> e = joined_snapshot now x (ev_seq e) (preview_of es)"
    by auto
qed

lemma seq_violation_none: "sorted_wrt (<) (seqs es) \<Longrightarrow> seq_violation es = None"
  by (induction es rule: seq_violation.induct) auto

section \<open>The invariant of a record\<close>

definition record_ok :: "string \<Rightarrow> ExecutionRecord \<Rightarrow> bool" where
  "record_ok k r \<longleftrightarrow>
     er_executionId r = k
   \<and> sorted_wrt (<) (seqs (er_events r))
   \<and> (\<forall>e \<in> set (er_events r). 0 < ev_seq e \<and> ev_seq e \<le> er_lastSeq r \<and> ev_executionId e = k)
   \<and> er_bufferedBytes r = buf_bytes (er_events r)
   \<and> er_ackState r = (if er_tombstone r then ack_acknowledged else ack_pending)
   \<and> (er_disposition r = None \<longleftrightarrow> \<not> er_tombstone r)
   \<and> (case er_terminal r of
        None \<Rightarrow> er_state r = exec_running \<and> \<not> er_tombstone r
              \<and> (\<forall>e \<in> set (er_events r). \<not> isTerminalEvent e)
      | Some t \<Rightarrow> isTerminalEvent t \<and> er_state r = state_of_terminal (ev_body t)
              \<and> ev_seq t = er_lastSeq r
              \<and> (if er_tombstone r then er_events r = []
                 else \<exists>es. er_events r = es @ [t] \<and> (\<forall>e \<in> set es. \<not> isTerminalEvent e)))"

lemma state_of_terminal_not_running [simp]: "state_of_terminal b \<noteq> exec_running"
  by (cases b) auto

lemma output_not_terminal: "output_body b \<Longrightarrow> \<not> terminal_body b"
  by (cases b) auto

text \<open>An open record: no terminal event yet.\<close>

abbreviation open_record :: "ExecutionRecord \<Rightarrow> bool" where
  "open_record r \<equiv> er_terminal r = None \<and> \<not> er_tombstone r"

lemma record_ok_open:
  "record_ok k r \<Longrightarrow> er_terminal r = None \<Longrightarrow> \<not> er_tombstone r \<and> er_state r = exec_running"
  by (auto simp: record_ok_def)

lemma emitted_event_simps [simp]:
  "ev_seq (emitted_event now r k proto) = er_lastSeq r + 1"
  "ev_executionId (emitted_event now r k proto) = k"
  "ev_at (emitted_event now r k proto) = now"
  by (simp_all add: emitted_event_def stamp_def Let_def)

text \<open>
  Buffering one event that is next in sequence, in a record that has no terminal event
  before it, never trips the consistency check.
\<close>

lemma bufferEvent_open:
  assumes ok: "record_ok k r" and opn: "er_terminal r = None"
    and sq: "ev_seq e = er_lastSeq r + 1" and nt: "\<not> isTerminalEvent e" and ek: "ev_executionId e = k"
  obtains r' where "bufferEvent now r e = Inr r'" "record_ok k r'" "er_lastSeq r' = ev_seq e"
    "er_terminal r' = None" "er_scopeId r' = er_scopeId r" "er_state r' = er_state r"
    "er_participantId r' = er_participantId r"
proof (cases "int LIMITS_executionBufferBytes < er_bufferedBytes r + eventBytes e")
  case False
  then have "bufferEvent now r e = Inr (append_event r e)"
    by (simp add: bufferEvent_def Let_def)
  moreover have "record_ok k (append_event r e)"
    using ok opn sq nt ek by (fastforce simp: record_ok_def append_event_def sorted_wrt_append)
  ultimately show ?thesis using opn that by (simp add: append_event_def)
next
  case True
  obtain es' b' where c: "coalesce now (er_executionId r) (er_events r) (er_bufferedBytes r) = (es', b')"
    by fastforce
  note sorted' = coalesce_sorted [OF c]
  note seqs' = coalesce_seqs [OF c]
  have sorted: "sorted_wrt (<) (seqs es')"
    using sorted' ok by (simp add: record_ok_def)
  have elems: "\<forall>e \<in> set es'. 0 < ev_seq e \<and> ev_seq e \<le> er_lastSeq r \<and> ev_executionId e = k
      \<and> \<not> isTerminalEvent e"
    using coalesce_event [OF c] seqs' ok opn
    by (fastforce simp: record_ok_def joined_snapshot_def isTerminalEvent_def)
  let ?r = "r\<lparr>er_events := es', er_bufferedBytes := b'\<rparr>"
  have ok': "record_ok k ?r"
    using ok opn sorted elems coalesce_bytes [OF c] by (auto simp: record_ok_def)
  show ?thesis
  proof (cases "int LIMITS_executionBufferBytes < b' + eventBytes e")
    case drop: True
    have "bufferEvent now r e = Inr (?r\<lparr>er_lastSeq := ev_seq e\<rparr>)"
      using True drop nt c by (simp add: bufferEvent_def Let_def seq_violation_none [OF sorted])
    moreover have "record_ok k (?r\<lparr>er_lastSeq := ev_seq e\<rparr>)"
      using ok' opn sq by (fastforce simp: record_ok_def)
    ultimately show ?thesis using opn that by simp
  next
    case push: False
    have "bufferEvent now r e = Inr (append_event ?r e)"
      using True push nt c by (simp add: bufferEvent_def Let_def seq_violation_none [OF sorted])
    moreover have "record_ok k (append_event ?r e)"
      using ok' opn sq nt ek by (fastforce simp: record_ok_def append_event_def sorted_wrt_append)
    ultimately show ?thesis using opn that by (simp add: append_event_def)
  qed
qed

lemma bufferEvent_terminal:
  assumes ok: "record_ok k r" and opn: "er_terminal r = None"
    and sq: "ev_seq e = er_lastSeq r + 1" and t: "isTerminalEvent e" and ek: "ev_executionId e = k"
  defines "r1 \<equiv> r\<lparr>er_state := state_of_terminal (ev_body e), er_terminal := Some e\<rparr>"
  shows "bufferEvent now r1 e = Inr (append_event r1 e)" and "record_ok k (append_event r1 e)"
  using ok opn sq t ek
  by (auto simp: r1_def bufferEvent_def record_ok_def append_event_def sorted_wrt_append Let_def
      split: if_splits)

section \<open>The invariant of the registry\<close>

text \<open>Sequence numbers a listener has received for one execution, in order of arrival.\<close>

definition received :: "nat \<Rightarrow> string \<Rightarrow> Registry \<Rightarrow> nat list" where
  "received l k g = map (\<lambda>(_, e). ev_seq e)
     (filter (\<lambda>(l', e). l' = l \<and> ev_executionId e = k) (rg_delivered g))"

definition subscribed :: "nat \<Rightarrow> string \<Rightarrow> Registry \<Rightarrow> bool" where
  "subscribed l k g \<longleftrightarrow> (\<exists>ls. jm_get (rg_listeners g) k = Some ls \<and> l \<in> set ls)"

definition fresh_listener :: "nat \<Rightarrow> Registry \<Rightarrow> bool" where
  "fresh_listener l g \<longleftrightarrow>
     l \<notin> fst ` set (rg_delivered g) \<and> (\<forall>(k, ls) \<in> set (rg_listeners g). l \<notin> set ls)"

definition registry_ok :: "Registry \<Rightarrow> bool" where
  "registry_ok g \<longleftrightarrow>
     jm_ok (rg_records g) \<and> jm_ok (rg_listeners g)
   \<and> (\<forall>k r. jm_get (rg_records g) k = Some r \<longrightarrow> record_ok k r)
   \<and> (\<forall>k ls. jm_get (rg_listeners g) k = Some ls \<longrightarrow> distinct ls)
   \<and> (\<forall>l k. sorted_wrt (<) (received l k g))
   \<and> (\<forall>l k. subscribed l k g \<longrightarrow>
        (\<exists>r. jm_get (rg_records g) k = Some r \<and> (\<forall>q \<in> set (received l k g). q \<le> er_lastSeq r)))"

lemma registry_okD:
  assumes "registry_ok g"
  shows registry_ok_keys: "jm_ok (rg_records g)" "jm_ok (rg_listeners g)"
    and registry_ok_record: "jm_get (rg_records g) k = Some r \<Longrightarrow> record_ok k r"
    and registry_ok_listeners: "jm_get (rg_listeners g) k = Some ls \<Longrightarrow> distinct ls"
    and registry_ok_received: "sorted_wrt (<) (received l k g)"
    and registry_ok_subscribed: "subscribed l k g \<Longrightarrow>
        \<exists>r. jm_get (rg_records g) k = Some r \<and> (\<forall>q \<in> set (received l k g). q \<le> er_lastSeq r)"
  using assms by (auto simp: registry_ok_def)

text \<open>What \<open>emit\<close> does to an open record, and that it never throws.\<close>

lemma emit_open:
  assumes g: "jm_get (rg_records g) k = Some r" and ok: "record_ok k r" and opn: "er_terminal r = None"
  obtains r' where
    "emit now k proto g = Inr (notify k (emitted_event now r k proto) (put_record k r' g),
                               Some (emitted_event now r k proto))"
    "record_ok k r'" "er_lastSeq r' = er_lastSeq r + 1" "er_scopeId r' = er_scopeId r"
    "er_participantId r' = er_participantId r"
    "er_terminal r' = (if isTerminalEvent (emitted_event now r k proto)
                       then Some (emitted_event now r k proto) else None)"
    "er_state r' = exec_running \<longrightarrow> er_state r = exec_running"
proof (cases "isTerminalEvent (emitted_event now r k proto)")
  case True
  let ?e = "emitted_event now r k proto"
  note b = bufferEvent_terminal [OF ok opn _ True, simplified]
  show ?thesis
    by (rule that [of "append_event (r\<lparr>er_state := state_of_terminal (ev_body ?e), er_terminal := Some ?e\<rparr>) ?e"])
      (use g ok opn True b in \<open>simp_all add: emit_def Let_def append_event_def record_ok_open [OF ok opn]\<close>)
next
  case False
  let ?e = "emitted_event now r k proto"
  obtain r' where r': "bufferEvent now r ?e = Inr r'" "record_ok k r'" "er_lastSeq r' = ev_seq ?e"
    "er_terminal r' = None" "er_scopeId r' = er_scopeId r" "er_state r' = er_state r"
    "er_participantId r' = er_participantId r"
    by (rule bufferEvent_open [OF ok opn _ False]) simp_all
  show ?thesis
    by (rule that [of r'])
      (use g opn False r' in \<open>simp_all add: emit_def Let_def record_ok_open [OF ok opn]\<close>)
qed

lemma emit_closed:
  "jm_get (rg_records g) k = None
     \<or> (\<exists>r. jm_get (rg_records g) k = Some r \<and> (er_tombstone r \<or> er_terminal r \<noteq> None))
   \<Longrightarrow> emit now k proto g = Inr (g, None)"
  by (auto simp: emit_def)

lemma received_append:
  "received l k (g\<lparr>rg_delivered := rg_delivered g @ ds\<rparr>) =
     received l k g @ map (\<lambda>(_, e). ev_seq e) (filter (\<lambda>(l', e). l' = l \<and> ev_executionId e = k) ds)"
  by (simp add: received_def)

lemma received_frame [simp]:
  "received l k (g\<lparr>rg_records := x\<rparr>) = received l k g"
  "received l k (g\<lparr>rg_listeners := y\<rparr>) = received l k g"
  "received l k (put_record a r g) = received l k g"
  by (simp_all add: received_def put_record_def)

lemma subscribed_frame [simp]:
  "subscribed l k (g\<lparr>rg_records := x\<rparr>) = subscribed l k g"
  "subscribed l k (g\<lparr>rg_delivered := y\<rparr>) = subscribed l k g"
  "subscribed l k (put_record a r g) = subscribed l k g"
  by (simp_all add: subscribed_def put_record_def)

lemma filter_own_listener:
  "distinct ls \<Longrightarrow> filter (\<lambda>l'. l' = l) ls = (if l \<in> set ls then [l] else [])"
  by (induction ls) auto

lemma received_notify:
  assumes "\<And>ls. jm_get (rg_listeners g) k = Some ls \<Longrightarrow> distinct ls" and "ev_executionId e = k"
  shows "received l k' (notify k e g) =
     received l k' g @ (if k' = k \<and> subscribed l k g then [ev_seq e] else [])"
proof (cases "jm_get (rg_listeners g) k")
  case None
  then show ?thesis by (simp add: notify_def subscribed_def)
next
  case (Some ls)
  have "filter (\<lambda>(l', e'). l' = l \<and> ev_executionId e' = k') (map (\<lambda>l. (l, e)) ls)
      = (if k' = k then map (\<lambda>l. (l, e)) (filter (\<lambda>l'. l' = l) ls) else [])"
    using assms(2) by (induction ls) auto
  then show ?thesis
    using Some assms(1) [OF Some]
    by (simp add: notify_def received_append subscribed_def filter_own_listener)
qed

lemma notify_frame [simp]:
  "rg_records (notify k e g) = rg_records g"
  "rg_listeners (notify k e g) = rg_listeners g"
  "subscribed l k' (notify k e g) = subscribed l k' g"
  by (simp_all add: notify_def subscribed_def split: option.split)

lemma put_record_simps [simp]:
  "rg_records (put_record k r g) = jm_set k r (rg_records g)"
  "rg_listeners (put_record k r g) = rg_listeners g"
  "rg_delivered (put_record k r g) = rg_delivered g"
  by (simp_all add: put_record_def)

section \<open>Every method keeps the invariant\<close>

lemma begin_execution_ok:
  assumes "registry_ok g"
  shows "registry_ok (fst (begin_execution now x p s g))"
proof (cases "jm_get (rg_records g) x")
  case (Some r)
  then show ?thesis using assms by (simp add: begin_execution_def)
next
  case None
  then have "\<not> subscribed l x g" for l
    using registry_ok_subscribed [OF assms, of l x] by auto
  then show ?thesis
    using assms None
    by (auto simp: begin_execution_def registry_ok_def Let_def distinct_update update_conv'
        record_ok_def)
qed

lemma emit_ok:
  assumes ok: "registry_ok g" and step: "emit now k proto g = Inr (g', ev)"
  shows "registry_ok g'"
proof (cases "\<exists>r. jm_get (rg_records g) k = Some r \<and> er_terminal r = None \<and> \<not> er_tombstone r")
  case False
  then have "g' = g"
    using emit_closed [of g k now proto] step by (cases "jm_get (rg_records g) k") auto
  then show ?thesis using ok by simp
next
  case True
  then obtain r where r: "jm_get (rg_records g) k = Some r" "er_terminal r = None" by blast
  let ?e = "emitted_event now r k proto"
  note rok = registry_ok_record [OF ok r(1)]
  obtain r' where r': "emit now k proto g = Inr (notify k ?e (put_record k r' g), Some ?e)"
    "record_ok k r'" "er_lastSeq r' = er_lastSeq r + 1"
    by (rule emit_open [OF r(1) rok r(2)])
  have g': "g' = notify k ?e (put_record k r' g)" using r'(1) step by simp
  have g'_frame: "rg_records g' = jm_set k r' (rg_records g)" "rg_listeners g' = rg_listeners g"
    "subscribed l k' g' = subscribed l k' g" for l k'
    by (simp_all add: g')
  have rec: "received l k' g' = received l k' g @
      (if k' = k \<and> subscribed l k g then [er_lastSeq r + 1] else [])" for l k'
    unfolding g' by (subst received_notify) (auto dest: registry_ok_listeners [OF ok])
  have bound: "subscribed l k g \<Longrightarrow> q \<in> set (received l k g) \<Longrightarrow> q \<le> er_lastSeq r" for l q
    using registry_ok_subscribed [OF ok, of l k] r(1) by auto
  have "sorted_wrt (<) (received l k' g')" for l k'
    using registry_ok_received [OF ok, of l k'] bound [of l]
    by (auto simp: rec sorted_wrt_append less_Suc_eq_le)
  moreover have "\<exists>r. jm_get (rg_records g') k' = Some r \<and> (\<forall>q \<in> set (received l k' g'). q \<le> er_lastSeq r)"
    if "subscribed l k' g'" for l k'
  proof (cases "k' = k")
    case True
    then show ?thesis
      using r'(3) that bound [of l] by (auto simp: rec g'_frame update_conv' intro: le_SucI)
  next
    case False
    then show ?thesis
      using that registry_ok_subscribed [OF ok, of l k'] by (auto simp: rec g'_frame update_conv')
  qed
  ultimately show ?thesis
    using r'(2) registry_okD [OF ok]
    by (auto simp: registry_ok_def g'_frame distinct_update update_conv')
qed

lemma not_fresh_subscribed: "fresh_listener l g \<Longrightarrow> \<not> subscribed l k g"
  by (auto simp: fresh_listener_def subscribed_def dest!: map_of_SomeD)

lemma fresh_received: "fresh_listener l g \<Longrightarrow> received l k g = []"
  by (force simp: fresh_listener_def received_def filter_empty_conv)

lemma received_replay:
  assumes "\<forall>e \<in> set es. ev_executionId e = x"
  shows "received l' k (g\<lparr>rg_delivered := rg_delivered g @ map (\<lambda>e. (l, e)) (filter P es)\<rparr>)
     = received l' k g @ (if l' = l \<and> k = x then seqs (filter P es) else [])"
proof -
  have "filter (\<lambda>(l'', e). l'' = l' \<and> ev_executionId e = k) (map (\<lambda>e. (l, e)) (filter P es))
      = (if l' = l \<and> k = x then map (\<lambda>e. (l, e)) (filter P es) else [])"
    using assms by (induction es) auto
  then show ?thesis by (simp add: received_append comp_def)
qed

lemma follow_ok:
  assumes ok: "registry_ok g" and fr: "fresh_listener l g" and step: "follow x a l g = Some g'"
  shows "registry_ok g'"
proof -
  obtain r where r: "jm_get (rg_records g) x = Some r"
    using step by (auto simp: follow_def split: option.splits)
  note rok = registry_ok_record [OF ok r]
  have own: "\<forall>e \<in> set (er_events r). ev_executionId e = x"
    using rok by (simp add: record_ok_def)
  let ?new = "seqs (filter (\<lambda>e. a < ev_seq e) (er_events r))"
  have new: "sorted_wrt (<) ?new" "\<forall>q \<in> set ?new. q \<le> er_lastSeq r"
    using rok by (auto simp: record_ok_def intro: sorted_filter_seqs)
  let ?g = "g\<lparr>rg_delivered := rg_delivered g
      @ map (\<lambda>e. (l, e)) (filter (\<lambda>e. a < ev_seq e) (er_events r))\<rparr>"
  have rec: "received l' k ?g = received l' k g @ (if l' = l \<and> k = x then ?new else [])" for l' k
    by (rule received_replay [OF own])
  have srt: "sorted_wrt (<) (received l' k ?g)" for l' k
    using registry_ok_received [OF ok, of l' k] new(1)
    by (auto simp: rec fresh_received [OF fr])
  have other: "subscribed l' k g \<Longrightarrow> received l' k ?g = received l' k g" for l' k
    using not_fresh_subscribed [OF fr, of k] by (auto simp: rec)
  have mid: "registry_ok ?g"
    using registry_okD [OF ok] srt by (simp add: registry_ok_def other)
  show ?thesis
  proof (cases "er_tombstone r \<or> er_terminal r \<noteq> None")
    case True
    then show ?thesis using step r mid by (simp add: follow_def)
  next
    case False
    let ?ls = "case jm_get (rg_listeners g) x of None \<Rightarrow> [] | Some ls \<Rightarrow> ls"
    have g': "g' = ?g\<lparr>rg_listeners := jm_set x (set_add l ?ls) (rg_listeners g)\<rparr>"
      using step r False by (simp add: follow_def Let_def)
    have sub: "subscribed l' k g' \<longleftrightarrow> (l' = l \<and> k = x) \<or> subscribed l' k g" for l' k
      using registry_ok_keys(2) [OF ok]
      by (auto simp: g' subscribed_def update_conv' set_add_def split: option.splits if_splits)
    have recg: "received l' k g' = received l' k ?g" for l' k by (simp add: g')
    have "\<exists>r. jm_get (rg_records g') k = Some r \<and> (\<forall>q \<in> set (received l' k g'). q \<le> er_lastSeq r)"
      if sb: "subscribed l' k g'" for l' k
    proof (cases "subscribed l' k g")
      case True
      then show ?thesis
        using registry_ok_subscribed [OF ok True] by (simp only: recg other) (simp add: g')
    next
      case False
      then have eq: "l' = l" "k = x" using sb sub [of l' k] by auto
      have "received l x g' = ?new" by (simp only: recg rec fresh_received [OF fr]) simp
      then show ?thesis using r new(2) by (simp add: eq g')
    qed
    then show ?thesis
      using registry_okD [OF mid] srt
      by (auto simp: registry_ok_def g' distinct_update update_conv' recg set_add_def
          split: option.splits if_splits)
  qed
qed

lemma unfollow_ok:
  assumes ok: "registry_ok g"
  shows "registry_ok (unfollow x l g)"
proof (cases "jm_get (rg_listeners g) x")
  case (Some ls)
  have "subscribed l' k (unfollow x l g) \<Longrightarrow> subscribed l' k g" for l' k
    using registry_ok_keys(2) [OF ok] Some
    by (auto simp: unfollow_def subscribed_def update_conv' split: if_splits)
  then show ?thesis
    using registry_okD [OF ok] Some registry_ok_listeners [OF ok Some]
    by (auto simp: registry_ok_def unfollow_def distinct_update update_conv' distinct_removeAll
        split: if_splits)
next
  case None
  then show ?thesis using ok by (simp add: unfollow_def)
qed

lemma ack_cases:
  obtains (same) "fst (ack x q d g) = g"
  | (released) r t where "jm_get (rg_records g) x = Some r" "\<not> er_tombstone r"
      "er_terminal r = Some t" "ev_seq t = q" "er_ackState r \<noteq> ack_acknowledged"
      "fst (ack x q d g) =
         (put_record x (r\<lparr>er_ackState := ack_acknowledged, er_disposition := Some d, er_events := [],
                         er_bufferedBytes := 0, er_tombstone := True\<rparr>) g)
           \<lparr>rg_listeners := jm_delete x (rg_listeners g)\<rparr>"
      "snd (ack x q d g) = Acknowledged (Some d)"
proof (cases "jm_get (rg_records g) x")
  case None
  then show ?thesis by (intro same) (simp add: ack_def)
next
  case (Some r)
  show ?thesis
  proof (cases "er_tombstone r \<or> er_ackState r = ack_acknowledged")
    case True
    then show ?thesis using Some by (intro same) (auto simp: ack_def)
  next
    case False
    show ?thesis
    proof (cases "er_terminal r")
      case None
      then show ?thesis using Some False by (intro same) (auto simp: ack_def)
    next
      case t: (Some t)
      show ?thesis
      proof (cases "ev_seq t = q")
        case True
        then show ?thesis
          using Some False t by (intro released [of r t]) (auto simp: ack_def Let_def)
      next
        case ne: False
        then show ?thesis using Some False t by (intro same) (auto simp: ack_def)
      qed
    qed
  qed
qed

lemma ack_ok:
  assumes ok: "registry_ok g"
  shows "registry_ok (fst (ack x q d g))"
proof (cases rule: ack_cases [of x q d g])
  case same
  then show ?thesis using ok by simp
next
  case (released r t)
  let ?r = "r\<lparr>er_ackState := ack_acknowledged, er_disposition := Some d, er_events := [],
        er_bufferedBytes := 0, er_tombstone := True\<rparr>"
  define g' where "g' = fst (ack x q d g)"
  have g': "rg_records g' = jm_set x ?r (rg_records g)" "rg_listeners g' = jm_delete x (rg_listeners g)"
    and rec: "received l k g' = received l k g" for l k
    by (simp_all add: g'_def released(6))
  have sub: "subscribed l k g' \<longleftrightarrow> k \<noteq> x \<and> subscribed l k g" for l k
    using registry_ok_keys(2) [OF ok] by (auto simp: g' subscribed_def delete_conv' split: if_splits)
  have "record_ok x ?r"
    using registry_ok_record [OF ok released(1)] released(3) by (simp add: record_ok_def)
  then have "registry_ok g'"
    using registry_okD [OF ok]
    by (auto simp: registry_ok_def rec sub g' distinct_update distinct_delete
        update_conv' delete_conv' split: if_splits)
  then show ?thesis by (simp add: g'_def)
qed

lemma map_of_filter_value:
  "jm_ok m \<Longrightarrow> map_of (filter (\<lambda>(k, v). P k v) m) k =
     (case map_of m k of None \<Rightarrow> None | Some v \<Rightarrow> if P k v then Some v else None)"
  by (induction m) (auto split: option.splits simp: map_of_eq_None_iff rev_image_eqI)

lemma jm_ok_filter: "jm_ok m \<Longrightarrow> jm_ok (filter P m)"
  by (simp add: distinct_map_filter)

lemma releaseScope_records:
  "registry_ok g \<Longrightarrow> jm_get (rg_records (releaseScope s g)) k =
     (case jm_get (rg_records g) k of None \<Rightarrow> None | Some r \<Rightarrow> if er_scopeId r = s then None else Some r)"
  using map_of_filter_value [of "rg_records g" "\<lambda>k r. er_scopeId r \<noteq> s" k]
  by (auto simp: releaseScope_def registry_ok_keys split: option.splits)

lemma releaseScope_listeners:
  "registry_ok g \<Longrightarrow> jm_get (rg_listeners (releaseScope s g)) k =
     (if in_scope s g k then None else jm_get (rg_listeners g) k)"
  using map_of_filter_value [of "rg_listeners g" "\<lambda>k ls. \<not> in_scope s g k" k]
  by (auto simp: releaseScope_def registry_ok_keys split: option.splits)

lemma releaseScope_ok:
  assumes ok: "registry_ok g"
  shows "registry_ok (releaseScope s g)"
proof -
  have sub: "subscribed l k (releaseScope s g) \<longleftrightarrow> \<not> in_scope s g k \<and> subscribed l k g" for l k
    by (auto simp: subscribed_def releaseScope_listeners [OF ok])
  have rec: "received l k (releaseScope s g) = received l k g" for l k
    by (simp add: releaseScope_def)
  have keys: "jm_ok (rg_records (releaseScope s g))" "jm_ok (rg_listeners (releaseScope s g))"
    using registry_ok_keys [OF ok] by (simp_all add: releaseScope_def jm_ok_filter)
  have "\<exists>r. jm_get (rg_records (releaseScope s g)) k = Some r \<and>
          (\<forall>q \<in> set (received l k g). q \<le> er_lastSeq r)"
    if "\<not> in_scope s g k" "subscribed l k g" for l k
    using registry_ok_subscribed [OF ok that(2)] that(1)
    by (auto simp: releaseScope_records [OF ok] in_scope_def)
  then show ?thesis
    using registry_okD [OF ok]
    by (auto simp: registry_ok_def sub rec releaseScope_records [OF ok] releaseScope_listeners [OF ok]
        keys split: option.splits if_splits)
qed

lemma reset_registry_ok: "registry_ok g \<Longrightarrow> registry_ok (reset_registry g)"
  by (auto simp: registry_ok_def reset_registry_def subscribed_def)

lemma registry_ok_init: "registry_ok createExecutionRegistry"
  by (simp add: registry_ok_def createExecutionRegistry_def received_def subscribed_def)

section \<open>The size of the buffer\<close>

definition escaped_len :: "string \<Rightarrow> nat" where
  "escaped_len s = utf8_len (concat (map json_escape s))"

lemma escaped_len_simps [simp]:
  "escaped_len [] = 0" "escaped_len (s @ t) = escaped_len s + escaped_len t"
  by (simp_all add: escaped_len_def)

lemma eventBytes_delta:
  "eventBytes \<lparr>ev_executionId = x, ev_seq = q, ev_at = t, ev_body = OutputDelta s\<rparr> =
     int (65 + escaped_len x + utf8_len (show_nat q) + escaped_len t + escaped_len s)"
  by (simp add: eventBytes_def event_json_def json_nat_def json_quote_def escaped_len_def
      json_escape_def utf8_width_def Let_def)

lemma eventBytes_snapshot:
  "eventBytes \<lparr>ev_executionId = x, ev_seq = q, ev_at = t, ev_body = OutputSnapshot s\<rparr> =
     int (68 + escaped_len x + utf8_len (show_nat q) + escaped_len t + escaped_len s)"
  by (simp add: eventBytes_def event_json_def json_nat_def json_quote_def escaped_len_def
      json_escape_def utf8_width_def Let_def)

text \<open>\<open>new Date().toISOString()\<close> has 24 characters, none of them escaped.\<close>

definition iso_time :: "string \<Rightarrow> bool" where
  "iso_time t \<longleftrightarrow> escaped_len t = 24"

fun is_snapshot_body :: "DriverEvent \<Rightarrow> bool" where
  "is_snapshot_body (OutputSnapshot _) = True"
| "is_snapshot_body _ = False"

abbreviation has_snapshot :: "RuntimeEvent list \<Rightarrow> bool" where
  "has_snapshot es \<equiv> (\<exists>e \<in> set es. is_snapshot_body (ev_body e))"

text \<open>
  A buffered event is well timed if its identity and its timestamp are those of the record's
  execution; the open record's bytes stay within the limit, plus the three bytes by which
  \<open>output.snapshot\<close> is longer than \<open>output.delta\<close>.
\<close>

definition sized :: "string \<Rightarrow> ExecutionRecord \<Rightarrow> bool" where
  "sized k r \<longleftrightarrow>
     (\<forall>e \<in> set (er_events r). iso_time (ev_at e))
   \<and> (er_terminal r = None \<longrightarrow>
        er_bufferedBytes r \<le> int LIMITS_executionBufferBytes + (if has_snapshot (er_events r) then 3 else 0))"

lemma output_event_bytes:
  assumes "is_output e" "ev_executionId e = k" "iso_time (ev_at e)"
  shows "eventBytes e = int (89 + (if is_snapshot_body (ev_body e) then 3 else 0) + escaped_len k
           + utf8_len (show_nat (ev_seq e)) + escaped_len (event_text (ev_body e)))"
  using assms
  by (cases e; cases "ev_body e") (auto simp: eventBytes_delta eventBytes_snapshot iso_time_def)

lemma outputs_bytes_ge:
  assumes "\<forall>e \<in> set es. is_output e \<and> ev_executionId e = k \<and> iso_time (ev_at e)"
  shows "int (escaped_len (preview_of es)) + 3 * int (length es) \<le> buf_bytes es"
  using assms by (induction es) (auto simp: output_event_bytes)

text \<open>Coalescing never adds bytes, except three when it renames a single delta.\<close>

lemma coalesce_growth:
  assumes c: "coalesce now k es b = (es', b')" and t: "iso_time now"
    and es: "\<forall>e \<in> set es. ev_executionId e = k \<and> iso_time (ev_at e)"
  shows "b' \<le> b + (if has_snapshot es' \<and> \<not> has_snapshot es then 3 else 0)"
    and "\<forall>e \<in> set es'. iso_time (ev_at e)"
    and "has_snapshot es \<Longrightarrow> has_snapshot es'"
proof -
  have "b' \<le> b + (if has_snapshot es' \<and> \<not> has_snapshot es then 3 else 0)
     \<and> (\<forall>e \<in> set es'. iso_time (ev_at e)) \<and> (has_snapshot es \<longrightarrow> has_snapshot es')"
  proof (cases rule: split_first_output [of es])
    case none
    then show ?thesis using c es by (simp add: coalesce_none)
  next
    case (first pre d post)
    let ?snap = "joined_snapshot now k (ev_seq d) (preview_of (d # post))"
    let ?outs = "filter is_output post"
    have es': "es' = pre @ ?snap # filter (\<lambda>e. \<not> is_output e) post"
      and b': "b' = b - buf_bytes (d # ?outs) + eventBytes ?snap"
      using c first(3) unfolding first(1) coalesce_split [OF first(2,3)] by (simp_all add: Let_def)
    have outs: "int (escaped_len (preview_of ?outs)) + 3 * int (length ?outs) \<le> buf_bytes ?outs"
      by (rule outputs_bytes_ge [of _ k]) (use es first(1) in auto)
    have dsz: "eventBytes d = int (89 + (if is_snapshot_body (ev_body d) then 3 else 0) + escaped_len k
           + utf8_len (show_nat (ev_seq d)) + escaped_len (event_text (ev_body d)))"
      by (rule output_event_bytes) (use es first(1,3) in auto)
    have ssz: "eventBytes ?snap = int (92 + escaped_len k + utf8_len (show_nat (ev_seq d))
           + escaped_len (event_text (ev_body d)) + escaped_len (preview_of ?outs))"
      using t by (simp add: joined_snapshot_def eventBytes_snapshot iso_time_def preview_of_filter_output)
    have has': "has_snapshot es'" by (simp add: es' joined_snapshot_def)
    have few: "b' \<le> b" if "has_snapshot es"
    proof (cases "is_snapshot_body (ev_body d)")
      case True
      then show ?thesis using outs dsz ssz by (simp add: b')
    next
      case False
      have "has_snapshot post"
        using that first False by (auto simp: ) (metis is_snapshot_body.elims(2) output_body.simps(2))
      then have "?outs \<noteq> []"
        by (auto simp: filter_empty_conv) (metis is_snapshot_body.elims(2) output_body.simps(2))
      then have "1 \<le> length ?outs" by (cases ?outs) auto
      then show ?thesis using outs dsz ssz False by (simp add: b')
    qed
    moreover have "b' \<le> b + 3" using outs dsz ssz by (simp add: b')
    moreover have "\<forall>e \<in> set es'. iso_time (ev_at e)"
      using es t by (auto simp: es' first(1) joined_snapshot_def)
    ultimately show ?thesis using has' by auto
  qed
  then show "b' \<le> b + (if has_snapshot es' \<and> \<not> has_snapshot es then 3 else 0)"
    and "\<forall>e \<in> set es'. iso_time (ev_at e)"
    and "has_snapshot es \<Longrightarrow> has_snapshot es'"
    by auto
qed

lemma bufferEvent_sized:
  assumes ok: "record_ok k r" and opn: "er_terminal r = None" and sz: "sized k r"
    and t: "iso_time now" and e: "ev_at e = now" and nt: "\<not> isTerminalEvent e"
    and step: "bufferEvent now r e = Inr r'"
  shows "sized k r'"
proof (cases "int LIMITS_executionBufferBytes < er_bufferedBytes r + eventBytes e")
  case False
  then have "r' = append_event r e" using step by (simp add: bufferEvent_def Let_def)
  then show ?thesis using False sz t e opn by (auto simp: sized_def append_event_def)
next
  case True
  obtain es' b' where c0: "coalesce now (er_executionId r) (er_events r) (er_bufferedBytes r) = (es', b')"
    by fastforce
  then have c: "coalesce now k (er_events r) (er_bufferedBytes r) = (es', b')"
    using ok by (simp add: record_ok_def)
  have g: "\<forall>e \<in> set (er_events r). ev_executionId e = k \<and> iso_time (ev_at e)"
    using ok sz by (simp add: record_ok_def sized_def)
  note grow = coalesce_growth [OF c t g]
  have "b' \<le> int LIMITS_executionBufferBytes + (if has_snapshot es' then 3 else 0)"
    using grow(1,3) sz opn by (auto simp: sized_def split: if_splits)
  then show ?thesis
    using True step nt c0 grow(2) t e opn
    by (auto simp: bufferEvent_def Let_def sized_def append_event_def split: option.splits if_splits)
qed

definition registry_sized :: "Registry \<Rightarrow> bool" where
  "registry_sized g \<longleftrightarrow> (\<forall>k r. jm_get (rg_records g) k = Some r \<longrightarrow> sized k r)"

lemma emit_sized:
  assumes ok: "registry_ok g" and sz: "registry_sized g" and t: "iso_time now"
    and step: "emit now k proto g = Inr (g', ev)"
  shows "registry_sized g'"
proof (cases "\<exists>r. jm_get (rg_records g) k = Some r \<and> er_terminal r = None \<and> \<not> er_tombstone r")
  case False
  then have "g' = g"
    using emit_closed [of g k now proto] step by (cases "jm_get (rg_records g) k") auto
  then show ?thesis using sz by simp
next
  case True
  then obtain r where r: "jm_get (rg_records g) k = Some r" "er_terminal r = None" "\<not> er_tombstone r"
    by blast
  let ?e = "emitted_event now r k proto"
  let ?r1 = "if isTerminalEvent ?e
     then r\<lparr>er_state := state_of_terminal (ev_body ?e), er_terminal := Some ?e\<rparr> else r"
  obtain r' where r': "bufferEvent now ?r1 ?e = Inr r'" "rg_records g' = jm_set k r' (rg_records g)"
    using step r by (auto simp: emit_def Let_def split: sum.splits if_splits)
  have "sized k r'"
  proof (cases "isTerminalEvent ?e")
    case True
    then have "r' = append_event ?r1 ?e" using r'(1) by (simp add: bufferEvent_def Let_def)
    then show ?thesis
      using sz r True t by (auto simp: registry_sized_def sized_def append_event_def)
  next
    case False
    then show ?thesis
      using bufferEvent_sized [OF registry_ok_record [OF ok r(1)] r(2) _ t, of ?e r'] sz r r'
      by (simp add: registry_sized_def)
  qed
  then show ?thesis using sz by (auto simp: registry_sized_def r'(2) update_conv')
qed

lemma sized_new: "sized k \<lparr> er_executionId = x, er_participantId = p, er_scopeId = s,
    er_state = st, er_events = [], er_lastSeq = n, er_bufferedBytes = 0, er_ackState = a,
    er_disposition = d, er_tombstone = b, er_terminal = t, er_createdAt = now \<rparr>"
  by (simp add: sized_def)

section \<open>Reachable registries\<close>

text \<open>
  Any interleaving of method calls by the Host's components, the clock reading ISO times and
  every \<open>follow\<close> passing a new listener.
\<close>

inductive registry_step :: "Registry \<Rightarrow> Registry \<Rightarrow> bool" where
  step_begin: "registry_step g (fst (begin_execution now x p s g))"
| step_emit: "iso_time now \<Longrightarrow> emit now x proto g = Inr (g', ev) \<Longrightarrow> registry_step g g'"
| step_follow: "fresh_listener l g \<Longrightarrow> follow x a l g = Some g' \<Longrightarrow> registry_step g g'"
| step_unfollow: "registry_step g (unfollow x l g)"
| step_ack: "registry_step g (fst (ack x q d g))"
| step_release: "registry_step g (releaseScope s g)"
| step_reset: "registry_step g (reset_registry g)"

inductive registry_reachable :: "Registry \<Rightarrow> bool" where
  reach_init: "registry_reachable createExecutionRegistry"
| reach_step: "registry_reachable g \<Longrightarrow> registry_step g g' \<Longrightarrow> registry_reachable g'"

lemma registry_step_ok: "registry_step g g' \<Longrightarrow> registry_ok g \<Longrightarrow> registry_ok g'"
  by (induction rule: registry_step.induct)
    (auto intro: begin_execution_ok emit_ok follow_ok unfollow_ok ack_ok releaseScope_ok reset_registry_ok)

lemma registry_step_sized:
  assumes "registry_step g g'" and "registry_ok g" and "registry_sized g"
  shows "registry_sized g'"
  using assms
proof (induction rule: registry_step.induct)
  case (step_begin g now x p s)
  then show ?case
    by (auto simp: begin_execution_def registry_sized_def Let_def update_conv' sized_new
        split: option.splits)
next
  case (step_emit now x proto g g' ev)
  then show ?case by (blast intro: emit_sized)
next
  case (step_follow l g x a g')
  then show ?case
    by (auto simp: follow_def registry_sized_def Let_def split: option.splits if_splits)
next
  case (step_unfollow g x l)
  then show ?case by (auto simp: unfollow_def registry_sized_def split: option.splits)
next
  case (step_ack g x q d)
  then show ?case
    by (cases rule: ack_cases [of x q d g])
      (auto simp: registry_sized_def update_conv' sized_def split: if_splits)
next
  case (step_release g s)
  then show ?case
    by (auto simp: registry_sized_def releaseScope_records split: option.splits if_splits)
next
  case (step_reset g)
  then show ?case by (simp add: registry_sized_def reset_registry_def)
qed

lemma registry_sized_init: "registry_sized createExecutionRegistry"
  by (simp add: registry_sized_def createExecutionRegistry_def)

lemma registry_reachable_both: "registry_reachable g \<Longrightarrow> registry_ok g \<and> registry_sized g"
  by (induction rule: registry_reachable.induct)
    (blast intro: registry_ok_init registry_step_ok registry_step_sized registry_sized_init)+

lemma registry_reachable_invariant: "registry_reachable g \<Longrightarrow> registry_ok g"
  by (induction rule: registry_reachable.induct) (auto intro: registry_ok_init registry_step_ok)

section \<open>Counting running executions\<close>

lemma runningCount_begin:
  assumes "registry_ok g"
  shows "runningCount (fst (begin_execution now x p s g)) \<le> Suc (runningCount g)"
    and "\<not> snd (snd (begin_execution now x p s g)) \<Longrightarrow> fst (begin_execution now x p s g) = g"
  using jm.count_put [OF registry_ok_keys(1) [OF assms], of "\<lambda>r. er_state r = exec_running" x]
  by (auto simp: begin_execution_def runningCount_def Let_def of_bool_def split: option.splits)

lemma runningCount_put:
  assumes "registry_ok g" "jm_get (rg_records g) x = Some r"
    and "er_state r' = exec_running \<Longrightarrow> er_state r = exec_running"
  shows "count_values (\<lambda>r. er_state r = exec_running) (jm_set x r' (rg_records g)) \<le> runningCount g"
  using jm.count_put [OF registry_ok_keys(1) [OF assms(1)], of "\<lambda>r. er_state r = exec_running" x r'] assms(2,3)
  by (cases "er_state r' = exec_running") (auto simp: runningCount_def)

lemma runningCount_emit:
  assumes ok: "registry_ok g" and step: "emit now x proto g = Inr (g', ev)"
  shows "runningCount g' \<le> runningCount g"
proof (cases "\<exists>r. jm_get (rg_records g) x = Some r \<and> er_terminal r = None \<and> \<not> er_tombstone r")
  case False
  then have "g' = g"
    using emit_closed [of g x now proto] step by (cases "jm_get (rg_records g) x") auto
  then show ?thesis by simp
next
  case True
  then obtain r where r: "jm_get (rg_records g) x = Some r" "er_terminal r = None" by blast
  obtain r' where "emit now x proto g = Inr (notify x (emitted_event now r x proto) (put_record x r' g),
      Some (emitted_event now r x proto))" "er_state r' = exec_running \<longrightarrow> er_state r = exec_running"
    by (rule emit_open [OF r(1) registry_ok_record [OF ok r(1)] r(2)])
  then show ?thesis
    using step runningCount_put [OF ok r(1), of r'] by (auto simp: runningCount_def)
qed

lemma runningCount_ack:
  assumes ok: "registry_ok g"
  shows "runningCount (fst (ack x q d g)) \<le> runningCount g"
proof (cases rule: ack_cases [of x q d g])
  case same
  then show ?thesis by simp
next
  case (released r t)
  then show ?thesis
    using runningCount_put [OF ok released(1), of "r\<lparr>er_ackState := ack_acknowledged,
      er_disposition := Some d, er_events := [], er_bufferedBytes := 0, er_tombstone := True\<rparr>"]
    by (simp add: runningCount_def)
qed

lemma count_values_filter_le: "count_values P (filter Q kvs) \<le> count_values P kvs"
  by (induction kvs) (auto simp: count_values_def)

lemma runningCount_release: "runningCount (releaseScope s g) \<le> runningCount g"
  by (simp add: runningCount_def releaseScope_def count_values_filter_le)

lemma runningCount_follow: "follow x a l g = Some g' \<Longrightarrow> runningCount g' = runningCount g"
  by (auto simp: follow_def runningCount_def Let_def split: option.splits if_splits)

lemma emit_total:
  assumes "registry_ok g"
  shows "\<exists>g' ev. emit now k proto g = Inr (g', ev)"
proof (cases "\<exists>r. jm_get (rg_records g) k = Some r \<and> er_terminal r = None \<and> \<not> er_tombstone r")
  case False
  then show ?thesis
    using emit_closed [of g k now proto] by (cases "jm_get (rg_records g) k") auto
next
  case True
  then obtain r where r: "jm_get (rg_records g) k = Some r" "er_terminal r = None" by blast
  from registry_ok_record [OF assms r(1)] r
  show ?thesis by (elim emit_open [of g k r now proto]) auto
qed

section \<open>The store a scope manager relies on\<close>

text \<open>
  The operations of an execution store and what they promise: every operation keeps its
  invariant, only \<open>start\<close> can raise the number of running executions and by at most one, an
  existing execution is returned untouched, and \<open>send\<close> always returns.
\<close>

locale execution_store =
  fixes ok :: "'g \<Rightarrow> bool" and running :: "'g \<Rightarrow> nat"
    and start :: "string \<Rightarrow> string \<Rightarrow> string \<Rightarrow> string \<Rightarrow> 'g \<Rightarrow> 'g \<times> 'r \<times> bool"
    and send :: "string \<Rightarrow> string \<Rightarrow> 'p \<Rightarrow> 'g \<Rightarrow> 'e + 'g \<times> 'v"
    and settle :: "string \<Rightarrow> nat \<Rightarrow> 'd \<Rightarrow> 'g \<Rightarrow> 'g \<times> 'o"
    and drop_scope :: "string \<Rightarrow> 'g \<Rightarrow> 'g"
  assumes start_ok: "ok g \<Longrightarrow> ok (fst (start now x p s g))"
    and start_running: "ok g \<Longrightarrow> running (fst (start now x p s g)) \<le> running g + 1"
    and start_existing: "ok g \<Longrightarrow> \<not> snd (snd (start now x p s g)) \<Longrightarrow> fst (start now x p s g) = g"
    and send_total: "ok g \<Longrightarrow> \<exists>r. send now x proto g = Inr r"
    and send_ok: "ok g \<Longrightarrow> send now x proto g = Inr r \<Longrightarrow> ok (fst r)"
    and send_running: "ok g \<Longrightarrow> send now x proto g = Inr r \<Longrightarrow> running (fst r) \<le> running g"
    and settle_ok: "ok g \<Longrightarrow> ok (fst (settle x q d g))"
    and settle_running: "ok g \<Longrightarrow> running (fst (settle x q d g)) \<le> running g"
    and drop_ok: "ok g \<Longrightarrow> ok (drop_scope s g)"
    and drop_running: "ok g \<Longrightarrow> running (drop_scope s g) \<le> running g"
begin

text \<open>The store within a quota \<open>n\<close>.\<close>

lemma start_within: "ok g \<Longrightarrow> running g < n \<Longrightarrow> ok (fst (start now x p s g)) \<and> running (fst (start now x p s g)) \<le> n"
  using start_ok [of g now x p s] start_running [of g now x p s] by simp

lemma send_within: "ok g \<Longrightarrow> running g \<le> n \<Longrightarrow> send now x proto g = Inr r \<Longrightarrow> ok (fst r) \<and> running (fst r) \<le> n"
  using send_ok [of g now x proto r] send_running [of g now x proto r] by simp

lemma settle_within: "ok g \<Longrightarrow> running g \<le> n \<Longrightarrow> ok (fst (settle x q d g)) \<and> running (fst (settle x q d g)) \<le> n"
  using settle_ok [of g x q d] settle_running [of g x q d] by simp

lemma drop_within: "ok g \<Longrightarrow> running g \<le> n \<Longrightarrow> ok (drop_scope s g) \<and> running (drop_scope s g) \<le> n"
  using drop_ok [of g s] drop_running [of g s] by simp

end

interpretation xs: execution_store registry_ok runningCount begin_execution emit ack releaseScope
  by unfold_locales
    (auto simp: begin_execution_ok emit_total ack_ok runningCount_ack releaseScope_ok
      runningCount_release runningCount_begin intro: emit_ok runningCount_emit)

section \<open>Properties\<close>

text \<open>C29: The store invariant.  In every registry the Host can reach, each record's buffered
  events have strictly increasing sequence numbers no larger than \<open>lastSeq\<close>, its byte count
  is exactly the sum of the sizes of its events, a terminal event is unique, last, and decides
  the state, and an acknowledged record is an empty tombstone with a disposition.\<close>

theorem registry_invariant: "registry_reachable g \<Longrightarrow> registry_ok g"
  by (rule registry_reachable_invariant)

definition sample_registry :: Registry where
  "sample_registry = fst (begin_execution ''2026-01-01T00:00:00.000Z'' ''exec-1'' ''p1'' ''scope-1''
     createExecutionRegistry)"

lemma sample_registry_reachable: "registry_reachable sample_registry"
  unfolding sample_registry_def by (rule reach_step [OF reach_init step_begin])

theorem registry_invariant_witness:
  "registry_reachable sample_registry \<and> registry_ok sample_registry"
  using sample_registry_reachable registry_invariant [OF sample_registry_reachable] by simp

text \<open>No internal failure.  The consistency check inside \<open>bufferEvent\<close> ("coalesce
  invariant violated") never fires: in every reachable registry \<open>emit\<close> returns, whatever the
  driver hands it.\<close>

theorem emit_never_throws:
  "registry_reachable g \<Longrightarrow> \<exists>g' ev. emit now k proto g = Inr (g', ev)"
  by (rule emit_total [OF registry_reachable_invariant])

theorem emit_never_throws_witness:
  "registry_reachable sample_registry
   \<and> (\<exists>g' ev. emit ''now'' ''exec-1'' OtherProto sample_registry = Inr (g', ev))"
  using sample_registry_reachable emit_never_throws [OF sample_registry_reachable] by blast

text \<open>Followers.  A listener never receives two events of an execution out of order and
  never the same sequence number twice, across replay, live delivery, coalescing, dropped
  deltas, acknowledgement and release.\<close>

theorem follower_in_order:
  "registry_reachable g \<Longrightarrow> sorted_wrt (<) (received l k g)"
  by (rule registry_ok_received [OF registry_reachable_invariant])

theorem follower_in_order_witness:
  "registry_reachable sample_registry \<and> sorted_wrt (<) (received 0 ''exec-1'' sample_registry)"
  using sample_registry_reachable follower_in_order [OF sample_registry_reachable] by blast

text \<open>Resume.  A new follower at \<open>afterSeq\<close> of a running execution gets exactly the
  buffered events above \<open>afterSeq\<close>, then the next emitted event.\<close>

theorem follow_replays_then_follows:
  assumes reach: "registry_reachable g" and r: "jm_get (rg_records g) k = Some r"
    and opn: "er_terminal r = None" and fr: "fresh_listener l g"
    and fol: "follow k a l g = Some g1" and em: "emit now k proto g1 = Inr (g2, ev)"
  shows "received l k g2 = seqs (filter (\<lambda>e. a < ev_seq e) (er_events r)) @ [er_lastSeq r + 1]"
proof -
  note ok = registry_reachable_invariant [OF reach]
  note rok = registry_ok_record [OF ok r]
  note ok1 = follow_ok [OF ok fr fol]
  have g1: "jm_get (rg_records g1) k = Some r" "subscribed l k g1"
    "received l k g1 = seqs (filter (\<lambda>e. a < ev_seq e) (er_events r))"
  proof -
    have own: "\<forall>e \<in> set (er_events r). ev_executionId e = k" using rok by (simp add: record_ok_def)
    from fol r opn record_ok_open [OF rok opn]
    show "jm_get (rg_records g1) k = Some r" "subscribed l k g1"
      "received l k g1 = seqs (filter (\<lambda>e. a < ev_seq e) (er_events r))"
      using received_replay [OF own, of l k g l "\<lambda>e. a < ev_seq e"] fresh_received [OF fr, of k]
      by (auto simp: follow_def Let_def subscribed_def update_conv' set_add_def
          split: option.splits if_splits)
  qed
  let ?e = "emitted_event now r k proto"
  obtain r' where "emit now k proto g1 = Inr (notify k ?e (put_record k r' g1), Some ?e)"
    by (rule emit_open [OF g1(1) rok opn])
  then have "g2 = notify k ?e (put_record k r' g1)" using em by simp
  moreover have "received l k (notify k ?e (put_record k r' g1)) = received l k g1 @ [er_lastSeq r + 1]"
    using g1(2) by (subst received_notify) (auto dest: registry_ok_listeners [OF ok1])
  ultimately show ?thesis using g1(3) by simp
qed

theorem follow_replays_then_follows_witness:
  "\<exists>r g1 g2 ev. jm_get (rg_records sample_registry) ''exec-1'' = Some r
     \<and> follow ''exec-1'' 0 7 sample_registry = Some g1
     \<and> emit ''t'' ''exec-1'' (OutputDelta ''hi'') g1 = Inr (g2, ev)
     \<and> received 7 ''exec-1'' g2 = seqs (filter (\<lambda>e. 0 < ev_seq e) (er_events r)) @ [er_lastSeq r + 1]"
proof -
  let ?g = sample_registry
  have fr: "fresh_listener 7 ?g"
    by (simp add: sample_registry_def fresh_listener_def begin_execution_def createExecutionRegistry_def
        put_record_def Let_def)
  obtain r where r: "jm_get (rg_records ?g) ''exec-1'' = Some r" "er_terminal r = None" "\<not> er_tombstone r"
    by (simp add: sample_registry_def begin_execution_def createExecutionRegistry_def put_record_def Let_def)
  obtain g1 where g1: "follow ''exec-1'' 0 7 ?g = Some g1"
    using r by (simp add: follow_def Let_def)
  have "registry_reachable g1"
    by (rule reach_step [OF sample_registry_reachable step_follow [OF fr g1]])
  then obtain g2 ev where g2: "emit ''t'' ''exec-1'' (OutputDelta ''hi'') g1 = Inr (g2, ev)"
    using emit_total registry_reachable_invariant by blast
  show ?thesis
    using r(1) g1 g2
      follow_replays_then_follows [OF sample_registry_reachable r(1,2) fr g1 g2] by blast
qed

text \<open>Terminal means final.  Once an execution has its terminal event, no step of the
  registry changes it, its state or \<open>lastSeq\<close>, short of releasing or resetting the record.\<close>

theorem terminal_is_final:
  assumes reach: "registry_reachable g" and step: "registry_step g g'"
    and r: "jm_get (rg_records g) k = Some r" and t: "er_terminal r = Some t"
  shows "jm_get (rg_records g') k = None
     \<or> (\<exists>r'. jm_get (rg_records g') k = Some r' \<and> er_terminal r' = Some t
          \<and> er_state r' = er_state r \<and> er_lastSeq r' = er_lastSeq r)"
  using step r t registry_reachable_invariant [OF reach]
proof (induction rule: registry_step.induct)
  case (step_begin g now x p s)
  then show ?case
    by (auto simp: begin_execution_def Let_def update_conv' split: option.splits)
next
  case (step_emit now x proto g g' ev)
  show ?case
  proof (cases "x = k")
    case True
    then show ?thesis using step_emit emit_closed [of g k now proto] by auto
  next
    case False
    then have "jm_get (rg_records g') k = jm_get (rg_records g) k"
      using step_emit(2)
      by (auto simp: emit_def Let_def update_conv' split: option.splits if_splits sum.splits)
    then show ?thesis using step_emit(3,4) by auto
  qed
next
  case (step_follow l g x a g')
  then show ?case by (auto simp: follow_def Let_def split: option.splits if_splits)
next
  case (step_unfollow g x l)
  then show ?case by (auto simp: unfollow_def split: option.splits)
next
  case (step_ack g x q d)
  then show ?case by (cases rule: ack_cases [of x q d g]) (auto simp: update_conv')
next
  case (step_release g s)
  then show ?case by (auto simp: releaseScope_records)
next
  case (step_reset g)
  then show ?case by (simp add: reset_registry_def)
qed

definition sample_interrupt :: DriverEvent where
  "sample_interrupt = Interrupted int_timeout dispatch_unknown tool_unknown"

definition sample_finished :: Registry where
  "sample_finished = (case emit ''2026-01-01T00:00:01.000Z'' ''exec-1'' sample_interrupt sample_registry of
     Inr (g, _) \<Rightarrow> g | Inl _ \<Rightarrow> sample_registry)"

lemma iso_sample: "iso_time ''2026-01-01T00:00:01.000Z''"
  by (simp add: iso_time_def escaped_len_def json_escape_def utf8_width_def Let_def)

lemma sample_finished_step: "registry_step sample_registry sample_finished"
proof -
  obtain g ev where e: "emit ''2026-01-01T00:00:01.000Z'' ''exec-1'' sample_interrupt sample_registry = Inr (g, ev)"
    using emit_total [OF registry_reachable_invariant [OF sample_registry_reachable]] by blast
  have "registry_step sample_registry g" by (rule step_emit [OF iso_sample e])
  then show ?thesis by (simp add: sample_finished_def e)
qed

lemmas sample_registry_eval = sample_registry_def begin_execution_def createExecutionRegistry_def
  put_record_def Let_def

lemma sample_finished_record:
  "\<exists>r t. jm_get (rg_records sample_finished) ''exec-1'' = Some r \<and> er_terminal r = Some t
     \<and> ev_seq t = 1 \<and> \<not> er_tombstone r"
  by (simp add: sample_finished_def sample_interrupt_def emit_def sample_registry_eval emitted_event_def stamp_def
      runtimeEventSchema_def bufferEvent_def isTerminalEvent_def append_event_def notify_def)

theorem terminal_is_final_witness:
  "\<exists>r t. jm_get (rg_records sample_finished) ''exec-1'' = Some r \<and> er_terminal r = Some t
     \<and> (let g' = fst (ack ''exec-1'' 1 disp_committed sample_finished)
        in jm_get (rg_records g') ''exec-1'' = None
           \<or> (\<exists>r'. jm_get (rg_records g') ''exec-1'' = Some r' \<and> er_terminal r' = Some t
                \<and> er_state r' = er_state r \<and> er_lastSeq r' = er_lastSeq r))"
proof -
  obtain r t where rt: "jm_get (rg_records sample_finished) ''exec-1'' = Some r" "er_terminal r = Some t"
    using sample_finished_record by blast
  have "registry_reachable sample_finished"
    by (rule reach_step [OF sample_registry_reachable sample_finished_step])
  from terminal_is_final [OF this step_ack rt, of "''exec-1''" 1 disp_committed] rt
  show ?thesis by (auto simp: Let_def)
qed

text \<open>The buffer bound.  The byte count of an execution still running is the size of its
  events and exceeds the 32 MiB limit by at most the three bytes that renaming a single delta
  to \<open>output.snapshot\<close> adds.\<close>

theorem buffer_bounded:
  assumes "registry_reachable g" and "jm_get (rg_records g) k = Some r" and "er_terminal r = None"
  shows "er_bufferedBytes r = buf_bytes (er_events r)
    \<and> er_bufferedBytes r \<le> int LIMITS_executionBufferBytes + 3"
  using registry_reachable_both [OF assms(1)] registry_ok_record [of g k r] assms(2,3)
  by (force simp: registry_sized_def sized_def record_ok_def split: if_splits)

theorem buffer_bounded_witness:
  "\<exists>r. jm_get (rg_records sample_registry) ''exec-1'' = Some r \<and> er_terminal r = None
     \<and> er_bufferedBytes r = buf_bytes (er_events r)
     \<and> er_bufferedBytes r \<le> int LIMITS_executionBufferBytes + 3"
proof -
  obtain r where r: "jm_get (rg_records sample_registry) ''exec-1'' = Some r" "er_terminal r = None"
    by (simp add: sample_registry_eval)
  from buffer_bounded [OF sample_registry_reachable r] r show ?thesis by blast
qed

text \<open>No output is lost by coalescing.  After a delta is emitted, the text that can be
  reassembled from the buffer is the old text followed by the delta, unless the delta alone
  no longer fits, and then the old text is still there in full.\<close>

lemma emit_keeps_text:
  assumes reach: "registry_reachable g" and r: "jm_get (rg_records g) k = Some r"
    and em: "emit now k (OutputDelta txt) g = Inr (g', Some e)" and e: "ev_body e = OutputDelta txt"
    and r': "jm_get (rg_records g') k = Some r'"
  shows "preview_of (er_events r') = preview_of (er_events r) @ txt
    \<or> (preview_of (er_events r') = preview_of (er_events r)
       \<and> int LIMITS_executionBufferBytes < er_bufferedBytes r' + eventBytes e)"
proof -
  have opn: "\<not> er_tombstone r" "er_terminal r = None"
    using em r by (auto simp: emit_def split: if_splits)
  have nt: "\<not> isTerminalEvent e" by (simp add: isTerminalEvent_def e)
  have b: "bufferEvent now r e = Inr r'"
    using em r opn nt r' by (auto simp: emit_def Let_def update_conv' split: sum.splits if_splits)
  obtain es' b' where c: "coalesce now (er_executionId r) (er_events r) (er_bufferedBytes r) = (es', b')"
    by fastforce
  show ?thesis
    using b nt c coalesce_preview [OF c] e
    by (auto simp: bufferEvent_def Let_def append_event_def split: if_splits option.splits)
qed

theorem emit_keeps_text_witness:
  "\<exists>r r' g' e. jm_get (rg_records sample_registry) ''exec-1'' = Some r
     \<and> emit ''t'' ''exec-1'' (OutputDelta ''hi'') sample_registry = Inr (g', Some e)
     \<and> jm_get (rg_records g') ''exec-1'' = Some r'
     \<and> (preview_of (er_events r') = preview_of (er_events r) @ ''hi''
        \<or> (preview_of (er_events r') = preview_of (er_events r)
            \<and> int LIMITS_executionBufferBytes < er_bufferedBytes r' + eventBytes e))"
proof -
  obtain r where r: "jm_get (rg_records sample_registry) ''exec-1'' = Some r" "er_terminal r = None"
    "er_lastSeq r = 0"
    by (simp add: sample_registry_eval)
  let ?e = "emitted_event ''t'' r ''exec-1'' (OutputDelta ''hi'')"
  note rok = registry_ok_record [OF registry_reachable_invariant [OF sample_registry_reachable] r(1)]
  obtain r' where r': "emit ''t'' ''exec-1'' (OutputDelta ''hi'') sample_registry
      = Inr (notify ''exec-1'' ?e (put_record ''exec-1'' r' sample_registry), Some ?e)"
    by (rule emit_open [OF r(1) rok r(2)])
  have e: "ev_body ?e = OutputDelta ''hi''"
    by (simp add: emitted_event_def stamp_def runtimeEventSchema_def Let_def)
  have g': "jm_get (rg_records (notify ''exec-1'' ?e (put_record ''exec-1'' r' sample_registry))) ''exec-1'' = Some r'"
    by (simp add: update_conv')
  from emit_keeps_text [OF sample_registry_reachable r(1) r' e g'] r(1) r' g' show ?thesis by blast
qed

text \<open>Acknowledgement is idempotent.  After an ACK succeeds, the same disposition is
  acknowledged again without any change, whatever sequence number it names, and the other
  disposition conflicts without any change.\<close>

theorem ack_idempotent:
  assumes reach: "registry_reachable g" and first: "ack k q d g = (g', Acknowledged (Some d))"
  shows "ack k q' d g' = (g', Acknowledged (Some d))
    \<and> (d' \<noteq> d \<longrightarrow> (\<exists>err. ack k q' d' g' = (g', AckConflict (Some d) err)))"
proof -
  have "\<exists>r. jm_get (rg_records g') k = Some r
     \<and> (er_tombstone r \<or> er_ackState r = ack_acknowledged) \<and> er_disposition r = Some d"
    using first
    by (auto simp: ack_def Let_def update_conv' split: option.splits if_splits)
  then show ?thesis by (auto simp: ack_def)
qed

theorem ack_idempotent_witness:
  "\<exists>g'. ack ''exec-1'' 1 disp_committed sample_finished = (g', Acknowledged (Some disp_committed))
     \<and> ack ''exec-1'' 5 disp_committed g' = (g', Acknowledged (Some disp_committed))
     \<and> (\<exists>err. ack ''exec-1'' 5 disp_discarded g' = (g', AckConflict (Some disp_committed) err))"
proof -
  have reach: "registry_reachable sample_finished"
    by (rule reach_step [OF sample_registry_reachable sample_finished_step])
  obtain r t where rt: "jm_get (rg_records sample_finished) ''exec-1'' = Some r" "er_terminal r = Some t"
    "ev_seq t = 1" "\<not> er_tombstone r"
    using sample_finished_record by blast
  have "er_ackState r = ack_pending"
    using registry_ok_record [OF registry_reachable_invariant [OF reach] rt(1)] rt(4)
    by (simp add: record_ok_def)
  then obtain g' where g': "ack ''exec-1'' 1 disp_committed sample_finished = (g', Acknowledged (Some disp_committed))"
    using rt by (simp add: ack_def Let_def)
  from ack_idempotent [OF reach g', of 5 disp_discarded] g' show ?thesis by auto
qed

end
