(* ===== verification/Session_Reconciler.thy ===== *)
theory Session_Reconciler
  imports Canonical_Json Runtime_Contracts
begin

text \<open>
  The Session Reconciler, \<open>runtime-host/scopes/session-reconciler.ts\<close>, and the renderer of
  prompts, \<open>snapshot-render.ts\<close>.  The closure's \<open>records\<close> map is the state; \<open>sha\<close> stands for
  SHA-256 in hexadecimal, a parameter.  Shown here: a session is continued only for a strict
  extension of what it has already been given, every extension within the limits is continued,
  what was sent before and the new prompt together are the full prompt, and no session is used
  for more than 32 executions.
\<close>

section \<open>Context snapshots\<close>

datatype SnapshotRole = role_user | role_participant | role_summary

record SnapshotItem =
  si_id :: string
  si_role :: SnapshotRole
  si_participantId :: "string option"
  si_content :: string
  si_sourceExecutionId :: "string option"

record RoomContext =
  rc_contextRevision :: nat
  rc_contextDigest :: string
  rc_topic :: "string option"
  rc_background :: "string option"
  rc_items :: "SnapshotItem list"

datatype InstructionKind = instruction_message | instruction_summary

record SnapshotParticipant =
  sp_participantId :: string
  sp_participantSnapshotDigest :: string
  sp_personaPrompt :: "string option"

record Instruction =
  in_kind :: InstructionKind
  in_digest :: string
  in_text :: string

record ContextSnapshot =
  cx_digestVersion :: nat
  cx_roomContext :: RoomContext
  cx_participant :: SnapshotParticipant
  cx_instruction :: Instruction

fun role_text :: "SnapshotRole \<Rightarrow> string" where
  "role_text role_user = ''user''"
| "role_text role_participant = ''participant''"
| "role_text role_summary = ''summary''"

fun instruction_kind_text :: "InstructionKind \<Rightarrow> string" where
  "instruction_kind_text instruction_message = ''message''"
| "instruction_kind_text instruction_summary = ''summary''"

section \<open>Rendering a turn\<close>

definition newline :: string where
  "newline = [CHR 0x0A]"

abbreviation blank_line :: string where
  "blank_line \<equiv> newline @ newline"

definition renderItem :: "SnapshotItem \<Rightarrow> string" where
  "renderItem item =
     (case si_role item of
        role_user \<Rightarrow> ''[user]'' @ newline @ si_content item
      | role_summary \<Rightarrow> ''[summary]'' @ newline @ si_content item
      | role_participant \<Rightarrow>
          ''[participant '' @ (case si_participantId item of None \<Rightarrow> ''unknown'' | Some p \<Rightarrow> p) @ '']''
            @ newline @ si_content item)"

definition renderItems :: "SnapshotItem list \<Rightarrow> string" where
  "renderItems items = join blank_line (map renderItem items)"

text \<open>\<open>filter(Boolean)\<close> drops \<open>null\<close> and the empty string; an absent or empty topic is \<open>null\<close>.\<close>

fun truthy :: "string option \<Rightarrow> bool" where
  "truthy None = False"
| "truthy (Some s) = (s \<noteq> [])"

definition header_line :: "string \<Rightarrow> string option \<Rightarrow> string list" where
  "header_line label s = (if truthy s then [label @ the s] else [])"

definition render_header :: "RoomContext \<Rightarrow> string" where
  "render_header rc =
     join newline
       ([''# Discussion context (revision '' @ show_nat (rc_contextRevision rc) @ '')'']
        @ header_line ''Topic: '' (rc_topic rc)
        @ header_line (''Background:'' @ newline) (rc_background rc))"

definition render_instruction :: "Instruction \<Rightarrow> string" where
  "render_instruction i = ''# Instruction ('' @ instruction_kind_text (in_kind i) @ '')'' @ newline @ in_text i"

text \<open>The prompt and the number of items it brings the session to.\<close>

definition renderTurn :: "ContextSnapshot \<Rightarrow> nat \<Rightarrow> string \<times> nat" where
  "renderTurn snapshot fromIndex =
     (let items = drop fromIndex (rc_items (cx_roomContext snapshot));
          parts = (if fromIndex = 0 then [render_header (cx_roomContext snapshot)] else [])
                @ (if items \<noteq> [] then [renderItems items] else [])
                @ [render_instruction (cx_instruction snapshot)]
      in (join blank_line parts, length (rc_items (cx_roomContext snapshot))))"

section \<open>Sessions\<close>

definition SESSION_MAX_EXECUTIONS :: nat where
  "SESSION_MAX_EXECUTIONS = 32"

definition DEFAULT_CONTEXT_WINDOW_TOKENS :: nat where
  "DEFAULT_CONTEXT_WINDOW_TOKENS = 65536"

record SessionRecord =
  sr_sessionEpoch :: nat
  sr_digestVersion :: nat
  sr_contextRevision :: nat
  sr_contextDigest :: string
  sr_participantSnapshotDigest :: string
  sr_appliedItemCount :: nat
  sr_itemDigests :: "string list"
  sr_topic :: string
  sr_background :: string
  sr_executionCount :: nat
  sr_cumulativeInputTokens :: nat
  sr_executionIds :: "string list"

datatype rebase_reason =
    digest_version_changed
  | history_replaced
  | shared_context_changed
  | participant_changed
  | revision_regressed
  | session_execution_limit
  | context_window_threshold

datatype prompt_basis = basis_full | basis_incremental

datatype ReconcileOutcome =
    Reconciled prompt_basis string nat
  | NeedsRebase rebase_reason

type_synonym reconciler_state = "(string, SessionRecord) jsmap"

text \<open>The object \<open>hashItem\<close> digests; a property that is \<open>undefined\<close> is left out.\<close>

definition opt_member :: "string \<Rightarrow> string option \<Rightarrow> (string \<times> json) list" where
  "opt_member k s = (case s of None \<Rightarrow> [] | Some t \<Rightarrow> [(k, JStr t)])"

definition item_json :: "SnapshotItem \<Rightarrow> json" where
  "item_json item =
     JObj ([(''id'', JStr (si_id item)), (''role'', JStr (role_text (si_role item)))]
        @ opt_member ''participantId'' (si_participantId item)
        @ [(''content'', JStr (si_content item))]
        @ opt_member ''sourceExecutionId'' (si_sourceExecutionId item))"

definition hashItem :: "(string \<Rightarrow> string) \<Rightarrow> SnapshotItem \<Rightarrow> string" where
  "hashItem sha item = sha (canonical_text (item_json item))"

text \<open>\<open>s ?? ""\<close>.\<close>

fun text_or_empty :: "string option \<Rightarrow> string" where
  "text_or_empty None = []"
| "text_or_empty (Some s) = s"

text \<open>
  The loop over the first \<open>appliedItemCount\<close> items, entered only when there are that many;
  an index past \<open>itemDigests\<close> reads \<open>undefined\<close>, which differs from every digest.
\<close>

fun same_prefix :: "(string \<Rightarrow> string) \<Rightarrow> nat \<Rightarrow> SnapshotItem list \<Rightarrow> string list \<Rightarrow> bool" where
  "same_prefix sha 0 items digests = True"
| "same_prefix sha (Suc n) (item # items) (d # digests) = (hashItem sha item = d \<and> same_prefix sha n items digests)"
| "same_prefix sha (Suc n) items digests = False"

definition reconcile ::
  "(string \<Rightarrow> string) \<Rightarrow> string \<Rightarrow> ContextSnapshot \<Rightarrow> nat \<Rightarrow> nat option \<Rightarrow> reconciler_state \<Rightarrow> ReconcileOutcome" where
  "reconcile sha participantId snapshot driverSessionEpoch contextWindowTokens records =
     (let cold = (case renderTurn snapshot 0 of (prompt, itemCount) \<Rightarrow> Reconciled basis_full prompt itemCount);
          rc = cx_roomContext snapshot; items = rc_items rc
      in case jm_get records participantId of
           None \<Rightarrow> cold
         | Some r \<Rightarrow>
             if sr_sessionEpoch r \<noteq> driverSessionEpoch then cold
             else if SESSION_MAX_EXECUTIONS \<le> sr_executionCount r then NeedsRebase session_execution_limit
             else if (case contextWindowTokens of None \<Rightarrow> DEFAULT_CONTEXT_WINDOW_TOKENS | Some w \<Rightarrow> w)
                       \<le> 2 * sr_cumulativeInputTokens r then NeedsRebase context_window_threshold
             else if cx_digestVersion snapshot \<noteq> sr_digestVersion r then NeedsRebase digest_version_changed
             else if rc_contextRevision rc < sr_contextRevision r then NeedsRebase revision_regressed
             else if sp_participantSnapshotDigest (cx_participant snapshot) \<noteq> sr_participantSnapshotDigest r
               then NeedsRebase participant_changed
             else if length items < sr_appliedItemCount r then NeedsRebase history_replaced
             else if \<not> same_prefix sha (sr_appliedItemCount r) items (sr_itemDigests r)
               then NeedsRebase history_replaced
             else if text_or_empty (rc_topic rc) \<noteq> sr_topic r \<or> text_or_empty (rc_background rc) \<noteq> sr_background r
               then NeedsRebase shared_context_changed
             else (case renderTurn snapshot (sr_appliedItemCount r) of
                     (prompt, itemCount) \<Rightarrow> Reconciled basis_incremental prompt itemCount))"

definition fresh_session :: "nat \<Rightarrow> ContextSnapshot \<Rightarrow> SessionRecord" where
  "fresh_session driverSessionEpoch snapshot =
     \<lparr> sr_sessionEpoch = driverSessionEpoch, sr_digestVersion = cx_digestVersion snapshot,
       sr_contextRevision = 0, sr_contextDigest = [],
       sr_participantSnapshotDigest = sp_participantSnapshotDigest (cx_participant snapshot),
       sr_appliedItemCount = 0, sr_itemDigests = [], sr_topic = [], sr_background = [],
       sr_executionCount = 0, sr_cumulativeInputTokens = 0, sr_executionIds = [] \<rparr>"

text \<open>\<open>usage?.inputTokens ?? 0\<close>.\<close>

definition reported_input :: "Usage option \<Rightarrow> nat" where
  "reported_input usage =
     (case usage of None \<Rightarrow> 0 | Some u \<Rightarrow> (case us_inputTokens u of Value n \<Rightarrow> n | _ \<Rightarrow> 0))"

definition applied_record ::
  "(string \<Rightarrow> string) \<Rightarrow> ContextSnapshot \<Rightarrow> string \<Rightarrow> Usage option \<Rightarrow> SessionRecord \<Rightarrow> SessionRecord" where
  "applied_record sha snapshot executionId usage base =
     (let rc = cx_roomContext snapshot
      in base\<lparr>sr_digestVersion := cx_digestVersion snapshot,
              sr_contextRevision := rc_contextRevision rc,
              sr_contextDigest := rc_contextDigest rc,
              sr_participantSnapshotDigest := sp_participantSnapshotDigest (cx_participant snapshot),
              sr_appliedItemCount := length (rc_items rc),
              sr_itemDigests := map (hashItem sha) (rc_items rc),
              sr_topic := text_or_empty (rc_topic rc),
              sr_background := text_or_empty (rc_background rc),
              sr_executionCount := sr_executionCount base + 1,
              sr_cumulativeInputTokens := sr_cumulativeInputTokens base + reported_input usage,
              sr_executionIds := sr_executionIds base @ [executionId]\<rparr>)"

definition session_base :: "string \<Rightarrow> nat \<Rightarrow> ContextSnapshot \<Rightarrow> reconciler_state \<Rightarrow> SessionRecord" where
  "session_base participantId driverSessionEpoch snapshot records =
     (case jm_get records participantId of
        Some existing \<Rightarrow>
          if sr_sessionEpoch existing = driverSessionEpoch then existing
          else fresh_session driverSessionEpoch snapshot
      | None \<Rightarrow> fresh_session driverSessionEpoch snapshot)"

definition recordApplied ::
  "(string \<Rightarrow> string) \<Rightarrow> string \<Rightarrow> ContextSnapshot \<Rightarrow> string \<Rightarrow> nat \<Rightarrow> Usage option \<Rightarrow> reconciler_state
    \<Rightarrow> reconciler_state" where
  "recordApplied sha participantId snapshot executionId driverSessionEpoch usage records =
     jm_set participantId
       (applied_record sha snapshot executionId usage
          (session_base participantId driverSessionEpoch snapshot records))
       records"

definition invalidate :: "string \<Rightarrow> reconciler_state \<Rightarrow> reconciler_state" where
  "invalidate participantId records = jm_delete participantId records"

definition session_record :: "string \<Rightarrow> reconciler_state \<Rightarrow> SessionRecord option" where
  "session_record participantId records = jm_get records participantId"

definition reset_sessions :: "reconciler_state \<Rightarrow> reconciler_state" where
  "reset_sessions records = []"

section \<open>Digests of items\<close>

lemma text_or_role_inj: "role_text a = role_text b \<longleftrightarrow> a = b"
  by (cases a; cases b) simp_all

lemma item_json_shape:
  "nesting (item_json it) \<le> MAX_DEPTH" "numbers_ok (item_json it)"
  by (simp_all add: item_json_def opt_member_def MAX_DEPTH_def split: option.splits)

lemma item_key_order:
  "''content'' < ''id''" "''content'' < ''participantId''" "''content'' < ''role''"
  "''content'' < ''sourceExecutionId''" "''id'' < ''participantId''" "''id'' < ''role''"
  "''id'' < ''sourceExecutionId''" "''participantId'' < ''role''"
  "''participantId'' < ''sourceExecutionId''" "''role'' < ''sourceExecutionId''"
  by code_simp+

lemmas item_key_less = item_key_order [THEN less_imp_le] item_key_order [THEN not_le [THEN iffD2]]

lemma key_sorted_item:
  "key_sorted (item_json it) =
     JObj ([(''content'', JStr (si_content it)), (''id'', JStr (si_id it))]
        @ opt_member ''participantId'' (si_participantId it)
        @ [(''role'', JStr (role_text (si_role it)))]
        @ opt_member ''sourceExecutionId'' (si_sourceExecutionId it))"
  by (cases "si_participantId it"; cases "si_sourceExecutionId it")
    (simp_all add: item_json_def opt_member_def item_key_less)

lemma item_text_inj: "canonical_text (item_json a) = canonical_text (item_json b) \<longleftrightarrow> a = b"
proof
  assume "canonical_text (item_json a) = canonical_text (item_json b)"
  then have "canonicalJson (item_json b) = Inr (canonical_text (item_json a))"
    using canonicalJson_text [OF item_json_shape(1)] by simp
  from canonical_text_inj [OF canonicalJson_text [OF item_json_shape(1)] this]
  have "key_sorted (item_json a) = key_sorted (item_json b)"
    by (simp add: item_json_shape)
  then show "a = b"
    by (cases a; cases b)
      (auto simp: key_sorted_item opt_member_def text_or_role_inj split: option.splits)
qed simp

text \<open>SHA-256 does not map the canonical texts of two different items of the lists to one digest.\<close>

definition no_collision :: "(string \<Rightarrow> string) \<Rightarrow> SnapshotItem list \<Rightarrow> SnapshotItem list \<Rightarrow> bool" where
  "no_collision sha xs ys \<longleftrightarrow>
     (\<forall>a \<in> set xs. \<forall>b \<in> set ys. sha (canonical_text (item_json a)) = sha (canonical_text (item_json b))
        \<longrightarrow> canonical_text (item_json a) = canonical_text (item_json b))"

lemma same_prefix_iff:
  "same_prefix sha n items ds \<longleftrightarrow>
     n \<le> length items \<and> n \<le> length ds \<and> map (hashItem sha) (take n items) = take n ds"
  by (induction sha n items ds rule: same_prefix.induct) auto

lemma same_prefix_digests:
  assumes "no_collision sha old items"
  shows "same_prefix sha (length old) items (map (hashItem sha) old) \<longleftrightarrow> (\<exists>new. items = old @ new)"
proof
  assume pre: "same_prefix sha (length old) items (map (hashItem sha) old)"
  then have "map (hashItem sha) (take (length old) items) = map (hashItem sha) old"
    by (simp add: same_prefix_iff)
  then have "take (length old) items = old"
    using assms
  proof (induction old arbitrary: items)
    case (Cons a old)
    then obtain b items' where "items = b # items'" by (cases items) auto
    with Cons show ?case
      by (auto simp: no_collision_def hashItem_def item_text_inj)
  qed simp
  then show "\<exists>new. items = old @ new" by (metis append_take_drop_id)
qed (auto simp: same_prefix_iff)

section \<open>The renderer\<close>

lemma join_append: "xs \<noteq> [] \<Longrightarrow> ys \<noteq> [] \<Longrightarrow> join sep (xs @ ys) = join sep xs @ sep @ join sep ys"
proof (induction xs rule: induct_list012)
  case (2 x)
  then show ?case by (cases ys) auto
qed auto

text \<open>What an incremental turn sends.\<close>

definition incremental_prompt :: "SnapshotItem list \<Rightarrow> Instruction \<Rightarrow> string" where
  "incremental_prompt new i =
     (if new = [] then render_instruction i else renderItems new @ blank_line @ render_instruction i)"

lemma renderTurn_tail:
  assumes "0 < n"
  shows "renderTurn snapshot n =
     (incremental_prompt (drop n (rc_items (cx_roomContext snapshot))) (cx_instruction snapshot),
      length (rc_items (cx_roomContext snapshot)))"
  using assms by (simp add: renderTurn_def incremental_prompt_def)

section \<open>Invariant\<close>

definition session_ok :: "SessionRecord \<Rightarrow> bool" where
  "session_ok r \<longleftrightarrow> sr_appliedItemCount r = length (sr_itemDigests r)
     \<and> sr_executionCount r = length (sr_executionIds r)
     \<and> 0 < sr_executionCount r \<and> sr_executionCount r \<le> SESSION_MAX_EXECUTIONS"

definition sessions_ok :: "reconciler_state \<Rightarrow> bool" where
  "sessions_ok rs \<longleftrightarrow> jm_ok rs \<and> (\<forall>p r. jm_get rs p = Some r \<longrightarrow> session_ok r)"

lemma sessions_ok_invalidate: "sessions_ok rs \<Longrightarrow> sessions_ok (invalidate p rs)"
  by (auto simp: sessions_ok_def invalidate_def delete_conv' distinct_delete split: if_splits)

lemma sessions_ok_applied:
  assumes ok: "sessions_ok rs" and granted: "reconcile sha p s ep win rs = Reconciled b pr n"
  shows "sessions_ok (recordApplied sha p s' x ep u rs)"
proof -
  let ?base = "session_base p ep s' rs"
  have "sr_executionCount ?base = length (sr_executionIds ?base)
      \<and> sr_executionCount ?base < SESSION_MAX_EXECUTIONS"
  proof (cases "jm_get rs p")
    case None
    then show ?thesis by (simp add: session_base_def fresh_session_def SESSION_MAX_EXECUTIONS_def)
  next
    case (Some r)
    then have "session_ok r" using ok by (auto simp: sessions_ok_def)
    moreover have "sr_sessionEpoch r = ep \<Longrightarrow> sr_executionCount r < SESSION_MAX_EXECUTIONS"
      using granted Some by (auto simp: reconcile_def Let_def split: if_splits)
    ultimately show ?thesis
      using Some by (simp add: session_base_def session_ok_def fresh_session_def SESSION_MAX_EXECUTIONS_def)
  qed
  then have "session_ok (applied_record sha s' x u ?base)"
    by (auto simp: session_ok_def applied_record_def Let_def)
  then show ?thesis
    using ok by (auto simp: sessions_ok_def recordApplied_def update_conv' distinct_update split: if_splits)
qed

text \<open>
  A session's life: a turn the reconciler accepted completes and is recorded under the epoch it
  was accepted for (its snapshot, identifiers and usage are the caller's); a session is dropped;
  the Host is reset.
\<close>

inductive sessions_reachable :: "(string \<Rightarrow> string) \<Rightarrow> reconciler_state \<Rightarrow> bool" for sha where
  sessions_init: "sessions_reachable sha []"
| sessions_turn: "\<lbrakk>sessions_reachable sha rs; reconcile sha p s ep win rs = Reconciled b pr n\<rbrakk>
    \<Longrightarrow> sessions_reachable sha (recordApplied sha p s x ep u rs)"
| sessions_invalidate: "sessions_reachable sha rs \<Longrightarrow> sessions_reachable sha (invalidate p rs)"
| sessions_reset: "sessions_reachable sha rs \<Longrightarrow> sessions_reachable sha (reset_sessions rs)"

lemma sessions_reachable_ok: "sessions_reachable sha rs \<Longrightarrow> sessions_ok rs"
proof (induction rule: sessions_reachable.induct)
  case sessions_init
  then show ?case by (simp add: sessions_ok_def)
next
  case sessions_turn
  then show ?case by (blast intro: sessions_ok_applied)
next
  case sessions_invalidate
  then show ?case by (blast intro: sessions_ok_invalidate)
next
  case sessions_reset
  then show ?case by (simp add: sessions_ok_def reset_sessions_def)
qed

section \<open>Properties\<close>

text \<open>\<open>later\<close> only adds to what \<open>earlier\<close> gave the session.\<close>

definition extends_context :: "ContextSnapshot \<Rightarrow> ContextSnapshot \<Rightarrow> bool" where
  "extends_context earlier later \<longleftrightarrow>
     (let a = cx_roomContext earlier; b = cx_roomContext later
      in cx_digestVersion later = cx_digestVersion earlier
       \<and> sp_participantSnapshotDigest (cx_participant later) = sp_participantSnapshotDigest (cx_participant earlier)
       \<and> rc_contextRevision a \<le> rc_contextRevision b
       \<and> text_or_empty (rc_topic a) = text_or_empty (rc_topic b)
       \<and> text_or_empty (rc_background a) = text_or_empty (rc_background b)
       \<and> (\<exists>new. rc_items b = rc_items a @ new))"

text \<open>The thresholds that do not depend on the context.\<close>

definition within_limits :: "nat option \<Rightarrow> SessionRecord \<Rightarrow> bool" where
  "within_limits win r \<longleftrightarrow>
     sr_executionCount r < SESSION_MAX_EXECUTIONS
   \<and> 2 * sr_cumulativeInputTokens r < (case win of None \<Rightarrow> DEFAULT_CONTEXT_WINDOW_TOKENS | Some w \<Rightarrow> w)"

lemma reconcile_applied:
  assumes "no_collision sha (rc_items (cx_roomContext s)) (rc_items (cx_roomContext s'))"
  shows "(\<exists>pr n. reconcile sha p s' ep win (recordApplied sha p s x ep u rs) = Reconciled basis_incremental pr n)
     \<longleftrightarrow> extends_context s s' \<and> within_limits win (applied_record sha s x u (session_base p ep s rs))"
    and "reconcile sha p s' ep win (recordApplied sha p s x ep u rs) \<noteq> Reconciled basis_full pr n"
proof -
  have ep: "sr_sessionEpoch (session_base p ep s rs) = ep"
    by (simp add: session_base_def fresh_session_def split: option.splits)
  note pre = same_prefix_digests [OF assms]
  show "(\<exists>pr n. reconcile sha p s' ep win (recordApplied sha p s x ep u rs) = Reconciled basis_incremental pr n)
     \<longleftrightarrow> extends_context s s' \<and> within_limits win (applied_record sha s x u (session_base p ep s rs))"
    by (auto simp: reconcile_def recordApplied_def update_conv' applied_record_def Let_def ep pre
        extends_context_def within_limits_def split: prod.splits)
  show "reconcile sha p s' ep win (recordApplied sha p s x ep u rs) \<noteq> Reconciled basis_full pr n"
    by (auto simp: reconcile_def recordApplied_def update_conv' applied_record_def Let_def ep
        split: prod.splits)
qed

lemma reconcile_incremental_prompt:
  assumes "reconcile sha p s' ep win (recordApplied sha p s x ep u rs) = Reconciled basis_incremental pr n"
  shows "(pr, n) = renderTurn s' (length (rc_items (cx_roomContext s)))"
proof -
  have ep: "sr_sessionEpoch (session_base p ep s rs) = ep"
    by (simp add: session_base_def fresh_session_def split: option.splits)
  show ?thesis using assms
    by (auto simp: reconcile_def recordApplied_def update_conv' applied_record_def Let_def ep
        split: prod.splits if_splits)
qed

text \<open>C30: When a session is continued.  After a turn on \<open>s\<close>, a snapshot \<open>s'\<close> for the same driver
  session is sent incrementally exactly when it extends \<open>s\<close> (same digest version, participant,
  topic and background, no older revision, the items of \<open>s\<close> as an exact prefix) and the execution
  and token thresholds are not reached; otherwise a rebase is asked for and never a silent full
  prompt.  (SHA-256 is assumed not to collide on the items of the two snapshots.)\<close>

theorem session_continued_iff_extended:
  assumes "no_collision sha (rc_items (cx_roomContext s)) (rc_items (cx_roomContext s'))"
  shows "case reconcile sha p s' ep win (recordApplied sha p s x ep u rs) of
           Reconciled basis pr n \<Rightarrow>
             basis = basis_incremental \<and> extends_context s s'
             \<and> within_limits win (applied_record sha s x u (session_base p ep s rs))
             \<and> n = length (rc_items (cx_roomContext s'))
         | NeedsRebase _ \<Rightarrow>
             \<not> (extends_context s s' \<and> within_limits win (applied_record sha s x u (session_base p ep s rs)))"
proof (cases "reconcile sha p s' ep win (recordApplied sha p s x ep u rs)")
  case (Reconciled basis pr n)
  moreover have "basis = basis_incremental"
    using reconcile_applied(2) [OF assms] Reconciled by (cases basis) auto
  moreover have "n = length (rc_items (cx_roomContext s'))"
    using reconcile_incremental_prompt [of sha p s' ep win s x u rs pr n] Reconciled calculation(2)
    by (simp add: renderTurn_def Let_def)
  ultimately show ?thesis using reconcile_applied(1) [OF assms, of p ep win x u rs] by auto
next
  case (NeedsRebase r)
  then show ?thesis using reconcile_applied(1) [OF assms, of p ep win x u rs] by auto
qed

text \<open>Nothing is lost or repeated between turns.  If the session is continued after a turn
  on \<open>s\<close> with at least one item, the full prompt for \<open>s'\<close> is the header, the rendering of the
  items the session already holds, and exactly the incremental prompt that is sent.\<close>

theorem incremental_completes_full_prompt:
  assumes "rc_items (cx_roomContext s) \<noteq> []"
    and "no_collision sha (rc_items (cx_roomContext s)) (rc_items (cx_roomContext s'))"
    and "reconcile sha p s' ep win (recordApplied sha p s x ep u rs) = Reconciled basis_incremental pr n"
  shows "fst (renderTurn s' 0) =
           render_header (cx_roomContext s') @ blank_line
           @ renderItems (rc_items (cx_roomContext s)) @ blank_line @ pr"
proof -
  obtain new where items: "rc_items (cx_roomContext s') = rc_items (cx_roomContext s) @ new"
    using reconcile_applied(1) [OF assms(2), of p ep win x u rs] assms(3)
    by (auto simp: extends_context_def Let_def)
  have pr: "pr = incremental_prompt new (cx_instruction s')"
    using reconcile_incremental_prompt [OF assms(3)] assms(1) by (simp add: renderTurn_tail items)
  show ?thesis
    using assms(1) join_append [of "map renderItem (rc_items (cx_roomContext s))" "map renderItem new" blank_line]
    by (auto simp: renderTurn_def Let_def items pr incremental_prompt_def renderItems_def)
qed

text \<open>Session limits.  In every reachable state a session has completed at most 32
  executions, its execution log has one entry for each, and it holds one digest per applied item.\<close>

theorem session_limits_invariant:
  assumes "sessions_reachable sha rs" and "jm_get rs p = Some r"
  shows "sr_executionCount r \<le> SESSION_MAX_EXECUTIONS
       \<and> length (sr_executionIds r) = sr_executionCount r
       \<and> length (sr_itemDigests r) = sr_appliedItemCount r"
proof -
  have "session_ok r" using sessions_reachable_ok [OF assms(1)] assms(2) by (simp add: sessions_ok_def)
  then show ?thesis by (simp add: session_ok_def)
qed

text \<open>A lost session starts cold.  After \<open>invalidate\<close> (and for a driver on another session
  epoch) the next turn carries the whole context, whatever was applied before.\<close>

theorem invalidated_session_starts_cold:
  "reconcile sha p s ep win (invalidate p rs)
     = Reconciled basis_full (fst (renderTurn s 0)) (length (rc_items (cx_roomContext s)))
   \<and> (ep' \<noteq> ep \<longrightarrow>
       reconcile sha p s ep' win (recordApplied sha p s0 x ep u rs)
         = Reconciled basis_full (fst (renderTurn s 0)) (length (rc_items (cx_roomContext s))))"
  by (auto simp: reconcile_def invalidate_def delete_conv' recordApplied_def update_conv'
      applied_record_def session_base_def fresh_session_def renderTurn_def Let_def split: option.splits)

section \<open>Witnesses\<close>

definition sample_item :: "string \<Rightarrow> SnapshotItem" where
  "sample_item t = \<lparr> si_id = t, si_role = role_user, si_participantId = None, si_content = t,
                     si_sourceExecutionId = None \<rparr>"

definition sample_snapshot :: "SnapshotItem list \<Rightarrow> ContextSnapshot" where
  "sample_snapshot items =
     \<lparr> cx_digestVersion = 1,
       cx_roomContext = \<lparr> rc_contextRevision = length items, rc_contextDigest = ''c'', rc_topic = Some ''t'',
                         rc_background = None, rc_items = items \<rparr>,
       cx_participant = \<lparr> sp_participantId = ''p'', sp_participantSnapshotDigest = ''d'', sp_personaPrompt = None \<rparr>,
       cx_instruction = \<lparr> in_kind = instruction_message, in_digest = ''i'', in_text = ''go'' \<rparr> \<rparr>"

abbreviation sample_before :: ContextSnapshot where
  "sample_before \<equiv> sample_snapshot [sample_item ''a'']"

abbreviation sample_after :: ContextSnapshot where
  "sample_after \<equiv> sample_snapshot [sample_item ''a'', sample_item ''b'']"

lemma sample_no_collision: "no_collision id xs ys"
  by (simp add: no_collision_def)

lemmas reconciler_eval =
  reconcile_def recordApplied_def applied_record_def session_base_def fresh_session_def
  sample_snapshot_def same_prefix_iff renderTurn_def reported_input_def SESSION_MAX_EXECUTIONS_def
  DEFAULT_CONTEXT_WINDOW_TOKENS_def Let_def

lemma sample_continued:
  "\<exists>pr n. reconcile id ''p'' sample_after 1 None (recordApplied id ''p'' sample_before ''x1'' 1 None [])
     = Reconciled basis_incremental pr n"
  by (simp add: reconciler_eval)

lemma session_continued_iff_extended_witness:
  "case reconcile id ''p'' sample_after 1 None (recordApplied id ''p'' sample_before ''x1'' 1 None []) of
     Reconciled basis pr n \<Rightarrow> basis = basis_incremental \<and> extends_context sample_before sample_after \<and> n = 2
   | NeedsRebase _ \<Rightarrow> False"
  using session_continued_iff_extended
    [where sha = id and s = sample_before and s' = sample_after and p = "''p''" and ep = 1 and win = None
       and x = "''x1''" and u = None and rs = "[]", OF sample_no_collision] sample_continued
  by (auto simp: sample_snapshot_def)

lemma incremental_completes_full_prompt_witness:
  "\<exists>pr n. reconcile id ''p'' sample_after 1 None (recordApplied id ''p'' sample_before ''x1'' 1 None [])
       = Reconciled basis_incremental pr n
     \<and> fst (renderTurn sample_after 0) =
         render_header (cx_roomContext sample_after) @ blank_line
         @ renderItems [sample_item ''a''] @ blank_line @ pr"
proof -
  obtain pr n where r: "reconcile id ''p'' sample_after 1 None
      (recordApplied id ''p'' sample_before ''x1'' 1 None []) = Reconciled basis_incremental pr n"
    using sample_continued by blast
  have "rc_items (cx_roomContext sample_before) = [sample_item ''a'']" by (simp add: sample_snapshot_def)
  with incremental_completes_full_prompt [OF _ sample_no_collision r] r show ?thesis by auto
qed

lemma session_limits_invariant_witness:
  "\<exists>r. jm_get (recordApplied id ''p'' sample_before ''x1'' 1 None []) ''p'' = Some r
     \<and> sr_executionCount r = 1 \<and> 1 \<le> SESSION_MAX_EXECUTIONS \<and> length (sr_executionIds r) = 1"
proof -
  have "reconcile id ''p'' sample_before 1 None [] = Reconciled basis_full
      (fst (renderTurn sample_before 0)) (snd (renderTurn sample_before 0))"
    by (simp add: reconcile_def case_prod_beta')
  from sessions_turn [OF sessions_init this]
  have reach: "sessions_reachable id (recordApplied id ''p'' sample_before ''x1'' 1 None [])" .
  obtain r where r: "jm_get (recordApplied id ''p'' sample_before ''x1'' 1 None []) ''p'' = Some r"
    and c: "sr_executionCount r = 1"
    by (simp add: reconciler_eval)
  from session_limits_invariant [OF reach r] r c show ?thesis by auto
qed

lemma invalidated_session_starts_cold_witness:
  "reconcile id ''p'' sample_after 2 None (recordApplied id ''p'' sample_before ''x1'' 1 None [])
     = Reconciled basis_full (fst (renderTurn sample_after 0)) 2"
  using invalidated_session_starts_cold [of id "''p''" sample_after 1 None "[]" 2 sample_before "''x1''" None]
  by (simp add: sample_snapshot_def)

end
