(* ===== verification/Profile_Resolver.thy ===== *)
theory Profile_Resolver
  imports Event_Json
begin

text \<open>
  The profile resolver, \<open>runtime-host/profiles/resolver.ts\<close>, with the data it reads: Execution
  Profiles, Installations (\<open>shared/runtime/schemas.ts\<close>, \<open>runtime-host/installations/registry.ts\<close>)
  and the driver's handshake (\<open>runtime-host/drivers/types.ts\<close>).  The installation registry is the
  argument \<open>lookup\<close> (its \<open>get\<close>), SHA-256 the argument \<open>sha\<close>.  Shown here: which installations
  resolve, that a binding exists exactly for the handshaken model or a declared alias, and what
  two bindings with equal digests have in common.
\<close>

section \<open>Data\<close>

datatype InstallationState =
    inst_discovering | inst_discovered | inst_trusted | inst_changed | inst_not_found | inst_invalid

fun installation_state_text :: "InstallationState \<Rightarrow> string" where
  "installation_state_text inst_discovering = ''discovering''"
| "installation_state_text inst_discovered = ''discovered''"
| "installation_state_text inst_trusted = ''trusted''"
| "installation_state_text inst_changed = ''changed''"
| "installation_state_text inst_not_found = ''not_found''"
| "installation_state_text inst_invalid = ''invalid''"

datatype ComponentRole = role_wrapper | role_claude_binary | role_cfuse_binary

fun component_role_text :: "ComponentRole \<Rightarrow> string" where
  "component_role_text role_wrapper = ''wrapper''"
| "component_role_text role_claude_binary = ''claude-binary''"
| "component_role_text role_cfuse_binary = ''cfuse-binary''"

record InstallationComponent =
  ic_role :: ComponentRole
  ic_path :: string
  ic_fingerprint :: string

record InstallationDto =
  id_installationId :: string
  id_driverId :: DriverId
  id_state :: InstallationState
  id_executablePath :: "string option"
  id_fingerprint :: "string option"
  id_components :: "InstallationComponent list"
  id_detail :: "string option"

record InstallationRecord =
  ir_installationId :: string
  ir_driverId :: DriverId
  ir_name :: string
  ir_discoveredPath :: string
  ir_realpath :: string
  ir_fingerprint :: string
  ir_state :: InstallationState
  ir_components :: "InstallationComponent list"
  ir_detail :: "string option"

text \<open>The discriminated union of profile options: the driver id is the constructor.\<close>

datatype DriverOptions =
    ClaudeOptions string
  | CodexOptions "string option"
  | KimiOptions
  | GrokOptions
  | CursorOptions

record ExecutionProfileDto =
  ep_installationId :: string
  ep_options :: DriverOptions

fun options_driver :: "DriverOptions \<Rightarrow> DriverId" where
  "options_driver (ClaudeOptions _) = claude_stream_json"
| "options_driver (CodexOptions _) = codex_app_server"
| "options_driver KimiOptions = kimi_stream_json"
| "options_driver GrokOptions = grok_stream_json"
| "options_driver CursorOptions = cursor_stream_json"

definition ep_driverId :: "ExecutionProfileDto \<Rightarrow> DriverId" where
  "ep_driverId p = options_driver (ep_options p)"

record ProfileReadiness =
  rd_state :: ProfileReadinessState
  rd_detail :: "string option"

record ParticipantSpec =
  ps_participantId :: string
  ps_profile :: ExecutionProfileDto
  ps_modelId :: string
  ps_personaPrompt :: "string option"

record PrewarmResult =
  pw_canonicalModelId :: string
  pw_modelAliases :: "string list"
  pw_capability :: "(string \<times> json) list"
  pw_catalog :: "string list"

record ResolvedBinding =
  rb_bindingDigest :: string
  rb_driverId :: DriverId
  rb_installationId :: string
  rb_installationFingerprint :: string
  rb_capabilityDigest :: string
  rb_requestedModel :: string
  rb_canonicalModelId :: string
  rb_modelAliases :: "string list"
  rb_route :: "string option"
  rb_reasoningEffort :: "string option"

record ResolveResult =
  rr_readiness :: ProfileReadiness
  rr_binding :: "ResolvedBinding option"

section \<open>Static resolution\<close>

definition CLAUDE_ROUTES :: "string list" where
  "CLAUDE_ROUTES = [''ant-glm5.2'', ''moonshot'', ''deepseek'', ''cfuse'']"

definition readiness :: "ProfileReadinessState \<Rightarrow> string \<Rightarrow> ProfileReadiness" where
  "readiness st detail = \<lparr> rd_state = st, rd_detail = Some detail \<rparr>"

definition route_of :: "DriverOptions \<Rightarrow> string option" where
  "route_of opts = (case opts of ClaudeOptions route \<Rightarrow> Some route | _ \<Rightarrow> None)"

definition effort_of :: "DriverOptions \<Rightarrow> string option" where
  "effort_of opts = (case opts of CodexOptions eff \<Rightarrow> eff | _ \<Rightarrow> None)"

text \<open>The lookup throwing is the same as finding nothing.\<close>

definition resolveStatic ::
  "(string \<Rightarrow> InstallationDto option) \<Rightarrow> ExecutionProfileDto \<Rightarrow> ProfileReadiness \<times> InstallationDto option" where
  "resolveStatic lookup profile =
     (case lookup (ep_installationId profile) of
        None \<Rightarrow> (readiness readiness_invalid_binding ''unknown installationId'', None)
      | Some installation \<Rightarrow>
          if id_driverId installation \<noteq> ep_driverId profile then
            (readiness readiness_invalid_binding ''profile driver does not match installation'', None)
          else if id_state installation \<noteq> inst_trusted then
            (readiness readiness_runtime_unavailable
               (''installation is '' @ installation_state_text (id_state installation)
                  @ ''; revalidation required''), Some installation)
          else (case route_of (ep_options profile) of
                  Some route \<Rightarrow>
                    if route \<notin> set CLAUDE_ROUTES then
                      (readiness readiness_invalid_binding (''unsupported route '' @ route), Some installation)
                    else (readiness readiness_ready ''static binding ok; driver handshake still required'',
                          Some installation)
                | None \<Rightarrow>
                    (readiness readiness_ready ''static binding ok; driver handshake still required'',
                     Some installation)))"

section \<open>The binding\<close>

definition digestOf :: "(string \<Rightarrow> string) \<Rightarrow> json \<Rightarrow> canonical_error + string" where
  "digestOf sha v = (case canonicalJson v of Inl e \<Rightarrow> Inl e | Inr s \<Rightarrow> Inr (sha s))"

definition component_json :: "InstallationComponent \<Rightarrow> json" where
  "component_json c =
     JObj [(''role'', JStr (component_role_text (ic_role c))), (''path'', JStr (ic_path c)),
           (''fingerprint'', JStr (ic_fingerprint c))]"

definition capability_json :: "PrewarmResult \<Rightarrow> json" where
  "capability_json pw =
     JObj [(''capability'', JObj (pw_capability pw)), (''catalog'', JArr (map JStr (pw_catalog pw)))]"

definition installation_json :: "InstallationRecord \<Rightarrow> json" where
  "installation_json i =
     JObj [(''realpath'', JStr (ir_realpath i)), (''fingerprint'', JStr (ir_fingerprint i)),
           (''components'', JArr (map component_json (ir_components i)))]"

definition binding_json :: "DriverId \<Rightarrow> string \<Rightarrow> string \<Rightarrow> string \<Rightarrow> string \<Rightarrow> DriverOptions \<Rightarrow> json" where
  "binding_json driver installationId installationFingerprint capabilityDigest canonical opts =
     JObj ([(''driverId'', JStr (driverId_text driver)), (''installationId'', JStr installationId),
            (''installationFingerprint'', JStr installationFingerprint),
            (''capabilityDigest'', JStr capabilityDigest), (''canonicalModelId'', JStr canonical)]
         @ opt_entry ''route'' JStr (route_of opts)
         @ opt_entry ''reasoningEffort'' JStr (effort_of opts))"

text \<open>A blank effort is falsy and left out of the binding.\<close>

definition truthy_effort :: "string option \<Rightarrow> string option" where
  "truthy_effort e = (case e of Some s \<Rightarrow> if s = [] then None else Some s | None \<Rightarrow> None)"

definition buildBinding ::
  "(string \<Rightarrow> string) \<Rightarrow> ParticipantSpec \<Rightarrow> InstallationRecord \<Rightarrow> PrewarmResult \<Rightarrow> canonical_error + ResolveResult" where
  "buildBinding sha spec installation prewarm =
     (let requested = ps_modelId spec; canonical = pw_canonicalModelId prewarm;
          aliases = pw_modelAliases prewarm; opts = ep_options (ps_profile spec)
      in if requested \<noteq> canonical \<and> requested \<notin> set aliases then
           Inr \<lparr> rr_readiness = readiness readiness_model_unavailable
                   ''requested model is not the handshaken canonical model'',
                 rr_binding = None \<rparr>
         else (case digestOf sha (capability_json prewarm) of
                 Inl e \<Rightarrow> Inl e
               | Inr capabilityDigest \<Rightarrow>
           (case digestOf sha (installation_json installation) of
                 Inl e \<Rightarrow> Inl e
               | Inr installationFingerprint \<Rightarrow>
           (case digestOf sha (binding_json (options_driver opts) (ir_installationId installation)
                                 installationFingerprint capabilityDigest canonical opts) of
                 Inl e \<Rightarrow> Inl e
               | Inr bindingDigest \<Rightarrow>
                   Inr \<lparr> rr_readiness = \<lparr> rd_state = readiness_ready, rd_detail = None \<rparr>,
                         rr_binding = Some
                           \<lparr> rb_bindingDigest = bindingDigest, rb_driverId = options_driver opts,
                             rb_installationId = ir_installationId installation,
                             rb_installationFingerprint = installationFingerprint,
                             rb_capabilityDigest = capabilityDigest, rb_requestedModel = requested,
                             rb_canonicalModelId = canonical, rb_modelAliases = aliases,
                             rb_route = route_of opts,
                             rb_reasoningEffort = truthy_effort (effort_of opts) \<rparr> \<rparr>))))"

section \<open>Digests determine what they digest\<close>

lemma driverId_text_inj: "driverId_text a = driverId_text b \<longleftrightarrow> a = b"
  by (cases a; cases b) simp_all

lemma component_role_text_inj: "component_role_text a = component_role_text b \<longleftrightarrow> a = b"
  by (cases a; cases b) simp_all

lemma key_sorted_items_strings [simp]: "key_sorted_items (map JStr xs) = map JStr xs"
  by (induction xs) simp_all

lemma key_sorted_items_map: "key_sorted_items xs = map key_sorted xs"
  by (induction xs) simp_all

lemma numbers_ok_strings [simp]: "numbers_ok_items (map JStr xs)"
  by (induction xs) simp_all

lemma nesting_strings [simp]: "nesting_items (map JStr xs) \<le> 1"
  by (induction xs) simp_all

lemma component_order:
  "''fingerprint'' < ''path''" "''fingerprint'' < ''role''" "''path'' < ''role''"
  "''components'' < ''fingerprint''" "''components'' < ''realpath''" "''fingerprint'' < ''realpath''"
  "''capability'' < ''catalog''"
  by code_simp+

lemma binding_order:
  "''canonicalModelId'' < ''capabilityDigest''" "''canonicalModelId'' < ''driverId''"
  "''canonicalModelId'' < ''installationFingerprint''" "''canonicalModelId'' < ''installationId''"
  "''canonicalModelId'' < ''reasoningEffort''" "''canonicalModelId'' < ''route''"
  "''capabilityDigest'' < ''driverId''" "''capabilityDigest'' < ''installationFingerprint''"
  "''capabilityDigest'' < ''installationId''" "''capabilityDigest'' < ''reasoningEffort''"
  "''capabilityDigest'' < ''route''" "''driverId'' < ''installationFingerprint''"
  "''driverId'' < ''installationId''" "''driverId'' < ''reasoningEffort''" "''driverId'' < ''route''"
  "''installationFingerprint'' < ''installationId''" "''installationFingerprint'' < ''reasoningEffort''"
  "''installationFingerprint'' < ''route''" "''installationId'' < ''reasoningEffort''"
  "''installationId'' < ''route''" "''reasoningEffort'' < ''route''"
  by code_simp+

lemmas resolver_order =
  component_order [THEN less_imp_le] component_order [THEN not_le [THEN iffD2]]
  binding_order [THEN less_imp_le] binding_order [THEN not_le [THEN iffD2]]

lemma numbers_ok_binding [simp]: "numbers_ok (binding_json d i f c m opts)"
  by (cases opts) (auto simp: binding_json_def opt_entry_def route_of_def effort_of_def split: option.splits)

lemma numbers_ok_installation [simp]: "numbers_ok (installation_json i)"
proof -
  have "numbers_ok_items (map component_json cs)" for cs
    by (induction cs) (simp_all add: component_json_def)
  then show ?thesis by (simp add: installation_json_def)
qed

lemma binding_json_inj:
  assumes "key_sorted (binding_json d i f c m o1) = key_sorted (binding_json d' i' f' c' m' o2)"
  shows "d = d' \<and> i = i' \<and> f = f' \<and> c = c' \<and> m = m' \<and> route_of o1 = route_of o2 \<and> effort_of o1 = effort_of o2"
  using assms
  by (cases "route_of o1"; cases "effort_of o1"; cases "route_of o2"; cases "effort_of o2")
    (simp_all add: binding_json_def opt_entry_def resolver_order driverId_text_inj)

lemma component_json_inj: "key_sorted (component_json a) = key_sorted (component_json b) \<longleftrightarrow> a = b"
  by (cases a; cases b) (auto simp: component_json_def resolver_order component_role_text_inj)

lemma installation_json_inj:
  assumes "key_sorted (installation_json a) = key_sorted (installation_json b)"
  shows "ir_realpath a = ir_realpath b \<and> ir_fingerprint a = ir_fingerprint b \<and> ir_components a = ir_components b"
proof -
  have "map (\<lambda>c. key_sorted (component_json c)) xs = map (\<lambda>c. key_sorted (component_json c)) ys \<longleftrightarrow> xs = ys" for xs ys
    by (rule inj_map_eq_map) (simp add: inj_def component_json_inj)
  then show ?thesis
    using assms by (simp add: installation_json_def resolver_order key_sorted_items_map comp_def)
qed

lemma capability_json_inj:
  assumes "key_sorted (capability_json a) = key_sorted (capability_json b)"
  shows "key_sorted (JObj (pw_capability a)) = key_sorted (JObj (pw_capability b)) \<and> pw_catalog a = pw_catalog b"
  using assms inj_map_eq_map [of JStr "pw_catalog a" "pw_catalog b"]
  by (auto simp: capability_json_def resolver_order inj_def)

section \<open>Properties\<close>

text \<open>No silent model substitution.  A binding is made exactly when the requested model is
  the one the live handshake reported or an alias the driver declares; readiness says so; and the
  binding names the requested and the canonical model, the driver of the profile and the
  installation that was checked.\<close>

lemma binding_only_for_handshaken_model:
  assumes "buildBinding sha spec installation prewarm = Inr r"
  shows "case rr_binding r of
           None \<Rightarrow> ps_modelId spec \<noteq> pw_canonicalModelId prewarm
                 \<and> ps_modelId spec \<notin> set (pw_modelAliases prewarm)
                 \<and> rd_state (rr_readiness r) = readiness_model_unavailable
         | Some b \<Rightarrow> (ps_modelId spec = pw_canonicalModelId prewarm
                     \<or> ps_modelId spec \<in> set (pw_modelAliases prewarm))
                 \<and> rd_state (rr_readiness r) = readiness_ready
                 \<and> rb_requestedModel b = ps_modelId spec
                 \<and> rb_canonicalModelId b = pw_canonicalModelId prewarm
                 \<and> rb_driverId b = ep_driverId (ps_profile spec)
                 \<and> rb_installationId b = ir_installationId installation"
  using assms
  by (auto simp: buildBinding_def readiness_def ep_driverId_def Let_def split: if_splits sum.splits)

text \<open>The canonical texts one binding hashes.\<close>

definition binding_inputs ::
  "(string \<Rightarrow> string) \<Rightarrow> ParticipantSpec \<Rightarrow> InstallationRecord \<Rightarrow> PrewarmResult \<Rightarrow> string set" where
  "binding_inputs sha spec i pw =
     (let opts = ep_options (ps_profile spec); c = canonical_text (capability_json pw);
          f = canonical_text (installation_json i)
      in {c, f, canonical_text (binding_json (options_driver opts) (ir_installationId i) (sha f) (sha c)
                  (pw_canonicalModelId pw) opts)})"

lemma digestOf_text: "digestOf sha v = Inr h \<Longrightarrow> h = sha (canonical_text v) \<and> canonicalJson v = Inr (canonical_text v)"
  by (auto simp: digestOf_def canonical_text_def split: sum.splits)

lemma buildBinding_digests:
  assumes "buildBinding sha spec i pw = Inr r" "rr_binding r = Some b"
  defines "opts \<equiv> ep_options (ps_profile spec)"
  defines "c \<equiv> capability_json pw"
  defines "f \<equiv> installation_json i"
  defines "d \<equiv> binding_json (options_driver opts) (ir_installationId i) (sha (canonical_text f))
                 (sha (canonical_text c)) (pw_canonicalModelId pw) opts"
  shows "canonicalJson c = Inr (canonical_text c)" "canonicalJson f = Inr (canonical_text f)"
    "canonicalJson d = Inr (canonical_text d)" "rb_bindingDigest b = sha (canonical_text d)"
  using assms(1,2) unfolding opts_def c_def f_def d_def
  by (auto simp: buildBinding_def Let_def split: if_splits sum.splits dest!: digestOf_text)

text \<open>A binding digest pins the execution configuration.  Two bindings with the same digest
  come from the same driver, installation (path, fingerprint and components), capability surface
  and catalog, canonical model, route and reasoning effort, if SHA-256 does not collide on their
  inputs.\<close>

theorem binding_digest_pins_configuration:
  assumes b1: "buildBinding sha s1 i1 p1 = Inr r1" "rr_binding r1 = Some b1"
    and b2: "buildBinding sha s2 i2 p2 = Inr r2" "rr_binding r2 = Some b2"
    and same: "rb_bindingDigest b1 = rb_bindingDigest b2"
    and sha: "inj_on sha (binding_inputs sha s1 i1 p1 \<union> binding_inputs sha s2 i2 p2)"
    and numbers: "numbers_ok (JObj (pw_capability p1))" "numbers_ok (JObj (pw_capability p2))"
  shows "ep_driverId (ps_profile s1) = ep_driverId (ps_profile s2)
    \<and> ir_installationId i1 = ir_installationId i2
    \<and> ir_realpath i1 = ir_realpath i2 \<and> ir_fingerprint i1 = ir_fingerprint i2
    \<and> ir_components i1 = ir_components i2
    \<and> key_sorted (JObj (pw_capability p1)) = key_sorted (JObj (pw_capability p2))
    \<and> pw_catalog p1 = pw_catalog p2
    \<and> pw_canonicalModelId p1 = pw_canonicalModelId p2
    \<and> route_of (ep_options (ps_profile s1)) = route_of (ep_options (ps_profile s2))
    \<and> effort_of (ep_options (ps_profile s1)) = effort_of (ep_options (ps_profile s2))"
proof -
  note d1 = buildBinding_digests [OF b1] and d2 = buildBinding_digests [OF b2]
  have shaD: "x = y" if "sha x = sha y" "x \<in> binding_inputs sha s1 i1 p1" "y \<in> binding_inputs sha s2 i2 p2" for x y
    using inj_onD [OF sha that(1)] that(2,3) by simp
  have text_eq: "key_sorted v = key_sorted w"
    if "canonicalJson v = Inr (canonical_text v)" "canonicalJson w = Inr (canonical_text w)"
      "canonical_text v = canonical_text w" "numbers_ok v" "numbers_ok w" for v w
    using canonical_text_inj [OF that(1) _ that(4,5)] that(2,3) by simp
  have "sha (canonical_text (binding_json (options_driver (ep_options (ps_profile s1))) (ir_installationId i1)
        (sha (canonical_text (installation_json i1))) (sha (canonical_text (capability_json p1)))
        (pw_canonicalModelId p1) (ep_options (ps_profile s1))))
    = sha (canonical_text (binding_json (options_driver (ep_options (ps_profile s2))) (ir_installationId i2)
        (sha (canonical_text (installation_json i2))) (sha (canonical_text (capability_json p2)))
        (pw_canonicalModelId p2) (ep_options (ps_profile s2))))"
    using same d1(4) d2(4) by simp
  from shaD [OF this] have "key_sorted (binding_json (options_driver (ep_options (ps_profile s1))) (ir_installationId i1)
        (sha (canonical_text (installation_json i1))) (sha (canonical_text (capability_json p1)))
        (pw_canonicalModelId p1) (ep_options (ps_profile s1)))
    = key_sorted (binding_json (options_driver (ep_options (ps_profile s2))) (ir_installationId i2)
        (sha (canonical_text (installation_json i2))) (sha (canonical_text (capability_json p2)))
        (pw_canonicalModelId p2) (ep_options (ps_profile s2)))"
    by (intro text_eq d1(3) d2(3)) (simp_all add: binding_inputs_def Let_def)
  note b = binding_json_inj [OF this]
  have "canonical_text (installation_json i1) = canonical_text (installation_json i2)"
    by (rule shaD) (use b in \<open>simp_all add: binding_inputs_def Let_def\<close>)
  then have "key_sorted (installation_json i1) = key_sorted (installation_json i2)"
    by (intro text_eq d1(2) d2(2)) simp_all
  note i = installation_json_inj [OF this]
  have "canonical_text (capability_json p1) = canonical_text (capability_json p2)"
    by (rule shaD) (use b in \<open>simp_all add: binding_inputs_def Let_def\<close>)
  then have "key_sorted (capability_json p1) = key_sorted (capability_json p2)"
    using numbers by (intro text_eq d1(1) d2(1)) (simp_all add: capability_json_def)
  note c = capability_json_inj [OF this]
  show ?thesis using b i c by (simp add: ep_driverId_def)
qed

section \<open>Witnesses\<close>

definition sample_profile :: ExecutionProfileDto where
  "sample_profile = \<lparr> ep_installationId = ''inst-1'', ep_options = ClaudeOptions ''moonshot'' \<rparr>"

definition sample_spec :: "string \<Rightarrow> ParticipantSpec" where
  "sample_spec p = \<lparr> ps_participantId = p, ps_profile = sample_profile, ps_modelId = ''k2'', ps_personaPrompt = None \<rparr>"

definition sample_installation :: InstallationRecord where
  "sample_installation =
     \<lparr> ir_installationId = ''inst-1'', ir_driverId = claude_stream_json, ir_name = ''claude'',
       ir_discoveredPath = ''/b'', ir_realpath = ''/b'', ir_fingerprint = ''f'', ir_state = inst_trusted,
       ir_components = [], ir_detail = None \<rparr>"

definition sample_prewarm :: PrewarmResult where
  "sample_prewarm = \<lparr> pw_canonicalModelId = ''k2'', pw_modelAliases = [], pw_capability = [], pw_catalog = [''k2''] \<rparr>"

lemma sample_depth:
  "nesting (capability_json sample_prewarm) \<le> MAX_DEPTH"
  "nesting (installation_json sample_installation) \<le> MAX_DEPTH"
  "nesting (binding_json d i f c m opts) \<le> MAX_DEPTH"
  by (simp_all add: capability_json_def sample_prewarm_def installation_json_def sample_installation_def
      binding_json_def opt_entry_def MAX_DEPTH_def split: option.splits)

lemma sample_binding_exists:
  "\<exists>r b. buildBinding id (sample_spec p) sample_installation sample_prewarm = Inr r
     \<and> rr_binding r = Some b \<and> rb_bindingDigest b = canonical_text
       (binding_json claude_stream_json ''inst-1'' (canonical_text (installation_json sample_installation))
         (canonical_text (capability_json sample_prewarm)) ''k2'' (ClaudeOptions ''moonshot''))"
  by (simp add: buildBinding_def digestOf_def canonicalJson_text [OF sample_depth(1)]
      canonicalJson_text [OF sample_depth(2)] canonicalJson_text [OF sample_depth(3)] Let_def
      sample_spec_def sample_profile_def sample_prewarm_def [THEN arg_cong, of pw_canonicalModelId]
      sample_installation_def [THEN arg_cong, of ir_installationId])

lemma sample_binding:
  obtains r b where "buildBinding id (sample_spec p) sample_installation sample_prewarm = Inr r"
    "rr_binding r = Some b" "rb_bindingDigest b = canonical_text
       (binding_json claude_stream_json ''inst-1'' (canonical_text (installation_json sample_installation))
         (canonical_text (capability_json sample_prewarm)) ''k2'' (ClaudeOptions ''moonshot''))"
  using sample_binding_exists by blast

lemma binding_only_for_handshaken_model_witness:
  "\<exists>r b. buildBinding id (sample_spec ''p'') sample_installation sample_prewarm = Inr r
     \<and> rr_binding r = Some b \<and> rb_canonicalModelId b = ''k2'' \<and> rd_state (rr_readiness r) = readiness_ready"
proof -
  obtain r b where r: "buildBinding id (sample_spec ''p'') sample_installation sample_prewarm = Inr r"
    "rr_binding r = Some b" by (rule sample_binding)
  from binding_only_for_handshaken_model [OF r(1)] r show ?thesis
    by (simp add: sample_prewarm_def)
qed

lemma binding_digest_pins_configuration_witness:
  "\<exists>r b. buildBinding id (sample_spec ''p'') sample_installation sample_prewarm = Inr r
     \<and> rr_binding r = Some b
     \<and> ep_driverId (ps_profile (sample_spec ''p'')) = ep_driverId (ps_profile (sample_spec ''q''))"
proof -
  obtain r b where r: "buildBinding id (sample_spec ''p'') sample_installation sample_prewarm = Inr r"
    "rr_binding r = Some b" and d: "rb_bindingDigest b = canonical_text
       (binding_json claude_stream_json ''inst-1'' (canonical_text (installation_json sample_installation))
         (canonical_text (capability_json sample_prewarm)) ''k2'' (ClaudeOptions ''moonshot''))"
    by (rule sample_binding)
  obtain r' b' where r': "buildBinding id (sample_spec ''q'') sample_installation sample_prewarm = Inr r'"
    "rr_binding r' = Some b'" and d': "rb_bindingDigest b' = canonical_text
       (binding_json claude_stream_json ''inst-1'' (canonical_text (installation_json sample_installation))
         (canonical_text (capability_json sample_prewarm)) ''k2'' (ClaudeOptions ''moonshot''))"
    by (rule sample_binding)
  from binding_digest_pins_configuration [OF r r'] r show ?thesis
    by (simp add: d d' sample_prewarm_def)
qed

end
