(* ===== verification/Clip_Utf16.thy ===== *)
theory Clip_Utf16
  imports CK_Prelude
begin

text \<open>
  Clipping text on UTF-16 code units, \<open>shared/text/clip-utf16.ts\<close>.  Here a string is the list of
  its code units (numbers below 2^16), so surrogates are visible: the result never exceeds the
  bound and is well formed (no lone surrogate) whenever the input is.
\<close>

type_synonym code_units = "nat list"

definition isHighSurrogate :: "nat \<Rightarrow> bool" where
  "isHighSurrogate u \<longleftrightarrow> 0xD800 \<le> u \<and> u \<le> 0xDBFF"

definition isLowSurrogate :: "nat \<Rightarrow> bool" where
  "isLowSurrogate u \<longleftrightarrow> 0xDC00 \<le> u \<and> u \<le> 0xDFFF"

text \<open>\<open>charCodeAt\<close> is only used inside the string here.  The recursive call clips the suffix with
  no suffix of its own, so it is one call deep.\<close>

definition clip_plain :: "code_units \<Rightarrow> nat \<Rightarrow> code_units" where
  "clip_plain value limit =
     (if limit = 0 then []
      else if length value \<le> limit then value
      else take (if isHighSurrogate (value ! (limit - 1)) then limit - 1 else limit) value)"

definition clipUtf16 :: "code_units \<Rightarrow> nat \<Rightarrow> code_units \<Rightarrow> code_units" where
  "clipUtf16 value limit suffix =
     (if limit = 0 then []
      else if length value \<le> limit then value
      else if limit \<le> length suffix then
        (if length suffix \<le> limit then suffix else clip_plain suffix limit)
      else
        (let budget = limit - length suffix;
             budget' = (if isHighSurrogate (value ! (budget - 1)) then budget - 1 else budget)
         in take budget' value @ suffix))"

definition clipUtf16Tail :: "code_units \<Rightarrow> nat \<Rightarrow> code_units \<Rightarrow> code_units" where
  "clipUtf16Tail value limit pre =
     (if limit = 0 then []
      else if length value \<le> limit then value
      else if limit \<le> length pre then
        (if length pre \<le> limit then pre else clipUtf16 pre limit [])
      else
        (let budget = limit - length pre;
             start = length value - budget;
             start' = (if isLowSurrogate (value ! start) then start + 1 else start)
         in if length value \<le> start' then pre else pre @ drop start' value))"

lemma clip_plain_no_suffix: "clip_plain value n = clipUtf16 value n []"
  by (simp add: clip_plain_def clipUtf16_def)

text \<open>On the model's strings (code units below U+0100).\<close>

definition units :: "string \<Rightarrow> code_units" where
  "units s = map of_char s"

definition clip_string :: "string \<Rightarrow> nat \<Rightarrow> string" where
  "clip_string s limit = map char_of (clipUtf16 (units s) limit [])"

section \<open>Well-formed UTF-16\<close>

text \<open>Every high surrogate is followed by a low one and every low one follows a high one.\<close>

fun well_formed :: "code_units \<Rightarrow> bool" where
  "well_formed [] = True"
| "well_formed [u] = (\<not> isHighSurrogate u \<and> \<not> isLowSurrogate u)"
| "well_formed (u # v # us) =
     (if isHighSurrogate u then isLowSurrogate v \<and> well_formed us
      else \<not> isLowSurrogate u \<and> well_formed (v # us))"

lemma surrogates_disjoint: "isHighSurrogate u \<Longrightarrow> \<not> isLowSurrogate u"
  by (simp add: isHighSurrogate_def isLowSurrogate_def)

lemma well_formed_append: "well_formed xs \<Longrightarrow> well_formed ys \<Longrightarrow> well_formed (xs @ ys)"
proof (induction xs rule: well_formed.induct)
  case (2 u)
  then show ?case by (cases ys) auto
qed (auto split: if_splits)

lemma well_formed_take:
  assumes "well_formed xs" "0 < n" "n \<le> length xs"
  shows "well_formed (take (if isHighSurrogate (xs ! (n - 1)) then n - 1 else n) xs)"
  using assms
proof (induction xs arbitrary: n rule: well_formed.induct)
  case (2 u)
  then have "n = 1" by simp
  with 2 show ?case by auto
next
  case (3 u v us)
  consider "n = 1" | "n = 2" | m where "n = m + 2" "0 < m" by (metis 3(4) One_nat_def Suc_1 Suc_eq_plus1 add_2_eq_Suc' gr0_conv_Suc not0_implies_Suc zero_less_Suc)
  then show ?case
  proof cases
    case 1
    then show ?thesis using 3 by auto
  next
    case 2
    then show ?thesis using 3(3) 3(2) [of 1] by (auto dest: surrogates_disjoint)
  next
    case (3 m)
    then obtain k where "m = Suc k" by (cases m) auto
    then show ?thesis
      using "3.IH"(1) [of m] "3.IH"(2) [of "m + 1"] "3.prems" 3
      by (auto split: if_splits simp: nth_Cons')
  qed
qed simp

lemma well_formed_drop:
  assumes "well_formed xs" "n < length xs"
  shows "well_formed (drop (if isLowSurrogate (xs ! n) then n + 1 else n) xs)"
  using assms
proof (induction xs arbitrary: n rule: well_formed.induct)
  case (3 u v us)
  consider "n = 0" | "n = 1" | m where "n = m + 2"
    by (metis One_nat_def Suc_1 add_2_eq_Suc' not0_implies_Suc)
  then show ?case
  proof cases
    case 1
    then show ?thesis using "3.prems" by (auto split: if_splits dest: surrogates_disjoint)
  next
    case 2
    then show ?thesis using "3.prems" "3.IH"(2) [of 0] by (auto split: if_splits)
  next
    case (3 m)
    then show ?thesis
      using "3.IH"(1) [of m] "3.IH"(2) [of "m + 1"] "3.prems" by (auto split: if_splits)
  qed
qed (auto split: if_splits)

section \<open>Properties\<close>

text \<open>Clipping keeps the bound and never splits a character: the result has at most \<open>limit\<close>
  code units, a text that fits is unchanged, and a well-formed text with a well-formed suffix
  stays well formed, from either end.\<close>

theorem clip_bounded_well_formed:
  "length (clipUtf16 value limit suffix) \<le> limit \<and> length (clipUtf16Tail value limit suffix) \<le> limit
   \<and> (length value \<le> limit \<longrightarrow> clipUtf16 value limit suffix = value \<and> clipUtf16Tail value limit suffix = value)
   \<and> (well_formed value \<longrightarrow> well_formed suffix \<longrightarrow>
        well_formed (clipUtf16 value limit suffix) \<and> well_formed (clipUtf16Tail value limit suffix))"
proof -
  have plain: "length (clip_plain v n) \<le> n \<and> (well_formed v \<longrightarrow> well_formed (clip_plain v n))" for v n
    using well_formed_take [of v n] by (auto simp: clip_plain_def)
  have clip: "length (clipUtf16 v n s) \<le> n \<and> (well_formed v \<longrightarrow> well_formed s \<longrightarrow> well_formed (clipUtf16 v n s))" for v n s
  proof (cases "n = 0 \<or> length v \<le> n \<or> n \<le> length s")
    case True
    then show ?thesis using plain [of s n] by (auto simp: clipUtf16_def)
  next
    case False
    then show ?thesis
      using well_formed_take [of v "n - length s"]
      by (auto simp: clipUtf16_def Let_def intro: well_formed_append)
  qed
  have tail: "length (clipUtf16Tail v n s) \<le> n
     \<and> (well_formed v \<longrightarrow> well_formed s \<longrightarrow> well_formed (clipUtf16Tail v n s))" for v n s
  proof (cases "n = 0 \<or> length v \<le> n \<or> n \<le> length s")
    case True
    then show ?thesis using clip [of s n "[]"] by (auto simp: clipUtf16Tail_def)
  next
    case False
    then show ?thesis
      using well_formed_drop [of v "length v - (n - length s)"]
      by (auto simp: clipUtf16Tail_def Let_def intro: well_formed_append)
  qed
  show ?thesis using clip tail by (auto simp: clipUtf16_def clipUtf16Tail_def)
qed

text \<open>A surrogate pair at the cut is dropped whole.\<close>

lemma clip_bounded_well_formed_witness:
  "clipUtf16 [65, 0xD83D, 0xDE00, 66] 2 [] = [65] \<and> well_formed (clipUtf16 [65, 0xD83D, 0xDE00, 66] 2 [])
   \<and> clipUtf16 [65] 2 [] = [65]"
  using clip_bounded_well_formed [of "[65, 0xD83D, 0xDE00, 66]" 2 "[]"] clip_bounded_well_formed [of "[65]" 2 "[]"]
  by (simp add: clipUtf16_def isHighSurrogate_def isLowSurrogate_def)

end
