(* ===== verification/Scope_Manager.thy ===== *)
theory Scope_Manager
  imports Execution_Registry Session_Reconciler Profile_Resolver Clip_Utf16
begin

text \<open>
  The scope manager of the Runtime Host, \<open>runtime-host/scopes/scope-manager.ts\<close>: Execution
  Scopes, their participants, the controller lease, the quotas, and the way executions run
  through the registry and the session reconciler.

  An \<open>async\<close> function is cut at its awaits: what runs up to an await is one operation, what runs
  when a promise settles is another, and the promises in flight are part of the state
  (\<open>sm_prewarms\<close>, \<open>sm_closing\<close>, \<open>sm_flights\<close>).  A timer is the deadline at which it fires.  Drivers
  are outside: the operations take what a driver answers (the handshake, its session epoch and
  window, the events it emits) as arguments, and the only demand is that it emits while its
  \<open>execute\<close> promise is pending.  The environment \<open>host_env\<close> holds the installation registry, the
  driver factories, SHA-256 and the configured deadlines.  Logging is left out.
\<close>

section \<open>State\<close>

record ParticipantEntry =
  pe_spec :: ParticipantSpec
  pe_binding :: "ResolvedBinding option"
  pe_runtime :: ParticipantRuntimeState
  pe_readiness :: "ProfileReadiness option"
  pe_busyExecutionId :: "string option"

record Scope =
  sc_scopeId :: string
  sc_scopeRequestId :: string
  sc_state :: ScopeState
  sc_controllerId :: string
  sc_leaseEpoch :: nat
  sc_participants :: "(string, ParticipantEntry) jsmap"
  sc_createdAt :: string
  sc_activatedAt :: "string option"
  sc_creatingTimer :: "nat option"
  sc_idleTimer :: "nat option"

text \<open>The closure of an execution whose driver promise is pending.\<close>

record flight =
  fl_executionId :: string
  fl_snapshot :: ContextSnapshot

record ScopeManager =
  sm_scopes :: "(string, Scope) jsmap"
  sm_scopeRequestIndex :: "(string, string) jsmap"
  sm_scopeCreateTimestamps :: "nat list"
  sm_executions :: Registry
  sm_reconciler :: reconciler_state
  sm_prewarms :: "(string \<times> string, InstallationRecord) jsmap"
  sm_flights :: "(string \<times> string, flight) jsmap"
  sm_closing :: "(string, string list) jsmap"

definition createScopeManager :: ScopeManager where
  "createScopeManager =
     \<lparr> sm_scopes = [], sm_scopeRequestIndex = [], sm_scopeCreateTimestamps = [],
       sm_executions = createExecutionRegistry, sm_reconciler = [], sm_prewarms = [],
       sm_flights = [], sm_closing = [] \<rparr>"

text \<open>What a rejected promise or a thrown error carries: \<open>runtimeCode\<close>, and \<open>message\<close> if it is an \<open>Error\<close>.\<close>

record js_error =
  je_runtimeCode :: "string option"
  je_message :: "string option"

record host_env =
  he_sha :: "string \<Rightarrow> string"
  he_lookup :: "string \<Rightarrow> InstallationDto option"
  he_assertExecutable :: "string \<Rightarrow> js_error + InstallationRecord"
  he_hasFactory :: "DriverId \<Rightarrow> bool"
  he_hostInstanceId :: string
  he_creatingScopeTtlMs :: nat
  he_idleScopeTtlMs :: nat

record clock =
  ck_ms :: nat
  ck_iso :: string

text \<open>A failure is an HTTP error; the registry's own failure is kept apart (it never happens).\<close>

datatype scope_error = HttpFailure HttpError | RegistryFailure registry_error

definition err :: "nat \<Rightarrow> RuntimeError \<Rightarrow> scope_error" where
  "err status e = HttpFailure (httpError status e)"

section \<open>Quotas and views\<close>

definition recent_timestamps :: "nat \<Rightarrow> nat list \<Rightarrow> nat list" where
  "recent_timestamps now ts = dropWhile (\<lambda>t. t + 60000 < now) ts"

definition rate_limited :: scope_error where
  "rate_limited = err 429 (makeError RATE_LIMITED ph_quota ''Scope create rate exceeded (10/min).''
     (no_extra\<lparr>xt_retryable := Some True, xt_retryAfterMs := Some 60000\<rparr>))"

definition checkScopeCreateRate :: "nat \<Rightarrow> ScopeManager \<Rightarrow> ScopeManager \<times> scope_error option" where
  "checkScopeCreateRate now m =
     (let ts = recent_timestamps now (sm_scopeCreateTimestamps m); m' = m\<lparr>sm_scopeCreateTimestamps := ts\<rparr>
      in if scopeCreatesPerMinute QUOTAS \<le> length ts then (m', Some rate_limited) else (m', None))"

abbreviation open_scope :: "Scope \<Rightarrow> bool" where
  "open_scope s \<equiv> sc_state s = scope_creating \<or> sc_state s = scope_active"

definition activeScopeCount :: "ScopeManager \<Rightarrow> nat" where
  "activeScopeCount m = count_values open_scope (sm_scopes m)"

definition live_entry :: "ParticipantEntry \<Rightarrow> bool" where
  "live_entry e \<longleftrightarrow> pe_runtime e = rt_ready \<or> pe_runtime e = rt_busy \<or> pe_runtime e = rt_prewarming"

definition live_entries :: "Scope \<Rightarrow> nat" where
  "live_entries s =
     (if sc_state s = scope_closed \<or> sc_state s = scope_closing then 0
      else count_values live_entry (sc_participants s))"

definition liveDriverProcessCount :: "ScopeManager \<Rightarrow> nat" where
  "liveDriverProcessCount m = sum_list (map (\<lambda>(_, s). live_entries s) (sm_scopes m))"

record ParticipantStatus =
  pt_participantId :: string
  pt_runtime :: ParticipantRuntimeState
  pt_binding :: "ResolvedBinding option"
  pt_readiness :: "ProfileReadiness option"

record ScopeStatus =
  ss_scopeId :: string
  ss_state :: ScopeState
  ss_hostInstanceId :: string
  ss_leaseEpoch :: nat
  ss_participants :: "ParticipantStatus list"

definition toStatus :: "host_env \<Rightarrow> Scope \<Rightarrow> ScopeStatus" where
  "toStatus env s =
     \<lparr> ss_scopeId = sc_scopeId s, ss_state = sc_state s, ss_hostInstanceId = he_hostInstanceId env,
       ss_leaseEpoch = sc_leaseEpoch s,
       ss_participants = map (\<lambda>(_, e). \<lparr> pt_participantId = ps_participantId (pe_spec e),
           pt_runtime = pe_runtime e, pt_binding = pe_binding e, pt_readiness = pe_readiness e \<rparr>)
         (sc_participants s) \<rparr>"

text \<open>\<open>fenced\<close>: the error it throws, if any.\<close>

definition fenced :: "Scope \<Rightarrow> string \<Rightarrow> nat \<Rightarrow> scope_error option" where
  "fenced s controllerId leaseEpoch =
     (if sc_state s = scope_closed \<or> sc_state s = scope_closing then
        Some (err 409 (makeError SCOPE_CLOSED ph_close ''Scope is closing or closed.'' no_extra))
      else if sc_controllerId s \<noteq> controllerId \<or> sc_leaseEpoch s \<noteq> leaseEpoch then
        Some (err 409 (makeError STALE_CONTROLLER ph_security ''controllerId/leaseEpoch is not current.''
          (no_extra\<lparr>xt_retryable := Some False\<rparr>)))
      else None)"

section \<open>Updating the state\<close>

text \<open>A field of a scope object, or of an entry object in it, is assigned.\<close>

definition put_scope :: "string \<Rightarrow> (Scope \<Rightarrow> Scope) \<Rightarrow> ScopeManager \<Rightarrow> ScopeManager" where
  "put_scope scopeId f m =
     (case jm_get (sm_scopes m) scopeId of
        None \<Rightarrow> m
      | Some s \<Rightarrow> m\<lparr>sm_scopes := jm_set scopeId (f s) (sm_scopes m)\<rparr>)"

definition map_entry :: "string \<Rightarrow> (ParticipantEntry \<Rightarrow> ParticipantEntry) \<Rightarrow> Scope \<Rightarrow> Scope" where
  "map_entry p f s =
     (case jm_get (sc_participants s) p of
        None \<Rightarrow> s
      | Some e \<Rightarrow> s\<lparr>sc_participants := jm_set p (f e) (sc_participants s)\<rparr>)"

definition getScope :: "string \<Rightarrow> ScopeManager \<Rightarrow> scope_error + Scope" where
  "getScope scopeId m =
     (case jm_get (sm_scopes m) scopeId of
        None \<Rightarrow> Inl (err 404 (makeError SCOPE_NOT_FOUND ph_dispatch ''Unknown scope.'' no_extra))
      | Some s \<Rightarrow> Inr s)"

definition scheduleCreatingSweep :: "host_env \<Rightarrow> nat \<Rightarrow> Scope \<Rightarrow> Scope" where
  "scheduleCreatingSweep env now s = s\<lparr>sc_creatingTimer := Some (now + he_creatingScopeTtlMs env)\<rparr>"

definition scheduleIdleSweep :: "host_env \<Rightarrow> nat \<Rightarrow> Scope \<Rightarrow> Scope" where
  "scheduleIdleSweep env now s =
     (if sc_state s \<noteq> scope_active then s else s\<lparr>sc_idleTimer := Some (now + he_idleScopeTtlMs env)\<rparr>)"

definition emitAndSweep ::
  "host_env \<Rightarrow> clock \<Rightarrow> string \<Rightarrow> string \<Rightarrow> DriverEvent \<Rightarrow> ScopeManager
    \<Rightarrow> registry_error + ScopeManager \<times> RuntimeEvent option" where
  "emitAndSweep env now scopeId executionId proto m =
     (case emit (ck_iso now) executionId proto (sm_executions m) of
        Inl e \<Rightarrow> Inl e
      | Inr (g, event) \<Rightarrow>
          (let m' = m\<lparr>sm_executions := g\<rparr>
           in case event of
                None \<Rightarrow> Inr (m', None)
              | Some ev \<Rightarrow>
                  if isTerminalEvent ev then Inr (put_scope scopeId (scheduleIdleSweep env (ck_ms now)) m', Some ev)
                  else Inr (m', Some ev)))"

section \<open>Closing a scope\<close>

text \<open>\<open>closeScopeInternal\<close> up to its await: the drivers are asked to close.\<close>

definition close_begin :: "string \<Rightarrow> ScopeManager \<Rightarrow> ScopeManager" where
  "close_begin scopeId m =
     (case jm_get (sm_scopes m) scopeId of
        None \<Rightarrow> m
      | Some s \<Rightarrow>
          if sc_state s = scope_closed \<or> sc_state s = scope_closing then m
          else (put_scope scopeId
                  (\<lambda>s. s\<lparr>sc_state := scope_closing, sc_creatingTimer := None, sc_idleTimer := None\<rparr>) m)
                 \<lparr>sm_closing := jm_set scopeId (map fst (sc_participants s)) (sm_closing m)\<rparr>)"

text \<open>One \<open>driver.close()\<close> settles.\<close>

definition close_settled :: "string \<Rightarrow> string \<Rightarrow> ScopeManager \<Rightarrow> ScopeManager" where
  "close_settled scopeId p m =
     (case jm_get (sm_closing m) scopeId of
        None \<Rightarrow> m
      | Some ps \<Rightarrow>
          if p \<notin> set ps then m
          else (put_scope scopeId (map_entry p (\<lambda>e. e\<lparr>pe_runtime := rt_cold\<rparr>)) m)
                 \<lparr>sm_reconciler := invalidate p (sm_reconciler m),
                  sm_closing := jm_set scopeId (removeAll p ps) (sm_closing m)\<rparr>)"

text \<open>All have settled.\<close>

definition close_finish :: "string \<Rightarrow> ScopeManager \<Rightarrow> ScopeManager" where
  "close_finish scopeId m =
     (case jm_get (sm_closing m) scopeId of
        Some [] \<Rightarrow>
          (let m' = put_scope scopeId (\<lambda>s. s\<lparr>sc_state := scope_closed\<rparr>) m
           in m'\<lparr>sm_executions := releaseScope scopeId (sm_executions m),
                 sm_scopeRequestIndex :=
                   (case jm_get (sm_scopes m) scopeId of
                      None \<Rightarrow> sm_scopeRequestIndex m
                    | Some s \<Rightarrow> jm_delete (sc_scopeRequestId s) (sm_scopeRequestIndex m)),
                 sm_closing := jm_delete scopeId (sm_closing m)\<rparr>)
      | _ \<Rightarrow> m)"

definition closeScope :: "string \<Rightarrow> string \<Rightarrow> nat \<Rightarrow> ScopeManager \<Rightarrow> scope_error + ScopeManager" where
  "closeScope scopeId controllerId leaseEpoch m =
     (case getScope scopeId m of
        Inl e \<Rightarrow> Inl e
      | Inr s \<Rightarrow> (case fenced s controllerId leaseEpoch of
                   Some e \<Rightarrow> Inl e
                 | None \<Rightarrow> Inr (close_begin scopeId m)))"

definition closeAll :: "ScopeManager \<Rightarrow> ScopeManager" where
  "closeAll m = fold close_begin (map fst (sm_scopes m)) m"

section \<open>Timers\<close>

definition creating_timer_fires :: "nat \<Rightarrow> string \<Rightarrow> ScopeManager \<Rightarrow> ScopeManager" where
  "creating_timer_fires now scopeId m =
     (case jm_get (sm_scopes m) scopeId of
        None \<Rightarrow> m
      | Some s \<Rightarrow>
          (case sc_creatingTimer s of
             None \<Rightarrow> m
           | Some t \<Rightarrow>
               if now < t then m
               else if sc_state s = scope_creating then
                 close_begin scopeId (put_scope scopeId (\<lambda>s. s\<lparr>sc_creatingTimer := None\<rparr>) m)
               else put_scope scopeId (\<lambda>s. s\<lparr>sc_creatingTimer := None\<rparr>) m))"

definition busy_entry :: "ParticipantEntry \<Rightarrow> bool" where
  "busy_entry e \<longleftrightarrow> pe_busyExecutionId e \<noteq> None \<or> pe_runtime e = rt_busy"

definition idle_timer_fires :: "host_env \<Rightarrow> nat \<Rightarrow> string \<Rightarrow> ScopeManager \<Rightarrow> ScopeManager" where
  "idle_timer_fires env now scopeId m =
     (case jm_get (sm_scopes m) scopeId of
        None \<Rightarrow> m
      | Some s \<Rightarrow>
          (case sc_idleTimer s of
             None \<Rightarrow> m
           | Some t \<Rightarrow>
               if now < t then m
               else
                 (let m' = put_scope scopeId (\<lambda>s. s\<lparr>sc_idleTimer := None\<rparr>) m
                  in if sc_state s \<noteq> scope_active then m'
                     else if list_ex (\<lambda>(_, e). busy_entry e) (sc_participants s) then
                       put_scope scopeId (scheduleIdleSweep env now) m'
                     else close_begin scopeId m')))"

section \<open>Prewarming\<close>

text \<open>The \<open>catch\<close> of \<open>prewarmParticipant\<close>.\<close>

definition prewarm_rejected :: "js_error \<Rightarrow> ParticipantEntry \<Rightarrow> ParticipantEntry" where
  "prewarm_rejected e entry =
     (if je_runtimeCode e = Some ''CANCELLED'' then
        entry\<lparr>pe_runtime := rt_cold, pe_binding := None, pe_readiness := None\<rparr>
      else
        entry\<lparr>pe_runtime := rt_failed,
              pe_readiness := Some
                \<lparr> rd_state = (if je_runtimeCode e = Some ''MODEL_UNAVAILABLE'' then readiness_model_unavailable
                             else readiness_runtime_unavailable),
                  rd_detail = Some (case je_message e of Some msg \<Rightarrow> clip_string msg 256
                                    | None \<Rightarrow> ''prewarm failed'') \<rparr>\<rparr>)"

text \<open>Up to \<open>await driver.prewarm\<close>: the entry, and the installation if the driver is called.\<close>

definition prewarm_begin :: "host_env \<Rightarrow> ParticipantEntry \<Rightarrow> ParticipantEntry \<times> InstallationRecord option" where
  "prewarm_begin env entry =
     (let entry = entry\<lparr>pe_runtime := rt_prewarming\<rparr>;
          (rd, installation) = resolveStatic (he_lookup env) (ps_profile (pe_spec entry))
      in case installation of
           None \<Rightarrow> (entry\<lparr>pe_runtime := rt_failed, pe_readiness := Some rd\<rparr>, None)
         | Some i \<Rightarrow>
             if rd_state rd \<noteq> readiness_ready then
               (entry\<lparr>pe_runtime := rt_failed, pe_readiness := Some rd\<rparr>, None)
             else (case he_assertExecutable env (id_installationId i) of
                     Inl e \<Rightarrow> (prewarm_rejected e entry, None)
                   | Inr record \<Rightarrow> (entry, Some record)))"

text \<open>The rest, when the driver's promise settles.\<close>

definition prewarm_entry ::
  "host_env \<Rightarrow> ScopeState \<Rightarrow> InstallationRecord \<Rightarrow> js_error + PrewarmResult \<Rightarrow> ParticipantEntry \<Rightarrow> ParticipantEntry" where
  "prewarm_entry env st installation result entry =
     (case result of
        Inl e \<Rightarrow> prewarm_rejected e entry
      | Inr prewarm \<Rightarrow>
          if st \<noteq> scope_creating \<and> st \<noteq> scope_active then
            entry\<lparr>pe_runtime := rt_cold, pe_binding := None, pe_readiness := None\<rparr>
          else (case buildBinding (he_sha env) (pe_spec entry) installation prewarm of
                  Inl MaximumDepthExceeded \<Rightarrow>
                    prewarm_rejected \<lparr> je_runtimeCode = None,
                      je_message = Some ''canonicalJson: maximum nesting depth exceeded'' \<rparr> entry
                | Inr resolved \<Rightarrow>
                    entry\<lparr>pe_binding := rr_binding resolved, pe_readiness := Some (rr_readiness resolved),
                          pe_runtime := (if rr_binding resolved \<noteq> None then rt_ready else rt_failed)\<rparr>))"

definition prewarm_settled ::
  "host_env \<Rightarrow> string \<Rightarrow> string \<Rightarrow> js_error + PrewarmResult \<Rightarrow> ScopeManager \<Rightarrow> ScopeManager" where
  "prewarm_settled env scopeId p result m =
     (case jm_get (sm_prewarms m) (scopeId, p) of
        None \<Rightarrow> m
      | Some installation \<Rightarrow>
          (put_scope scopeId (\<lambda>s. map_entry p (prewarm_entry env (sc_state s) installation result) s) m)
            \<lparr>sm_prewarms := jm_delete (scopeId, p) (sm_prewarms m)\<rparr>)"

section \<open>Creating a scope\<close>

record create_request =
  cr_scopeRequestId :: string
  cr_participants :: "ParticipantSpec list"

record create_response =
  cp_scopeId :: string
  cp_controllerId :: string
  cp_leaseEpoch :: nat
  cp_scope :: ScopeStatus

definition create_response_of :: "host_env \<Rightarrow> Scope \<Rightarrow> create_response" where
  "create_response_of env s =
     \<lparr> cp_scopeId = sc_scopeId s, cp_controllerId = sc_controllerId s, cp_leaseEpoch = sc_leaseEpoch s,
       cp_scope = toStatus env s \<rparr>"

definition fresh_entry :: "ParticipantSpec \<Rightarrow> ParticipantEntry" where
  "fresh_entry spec =
     \<lparr> pe_spec = spec, pe_binding = None, pe_runtime = rt_cold, pe_readiness = None, pe_busyExecutionId = None \<rparr>"

definition fresh_participants :: "ParticipantSpec list \<Rightarrow> (string, ParticipantEntry) jsmap" where
  "fresh_participants specs = fold (\<lambda>spec. jm_set (ps_participantId spec) (fresh_entry spec)) specs []"

definition new_scope :: "string \<Rightarrow> string \<Rightarrow> string \<Rightarrow> create_request \<Rightarrow> Scope" where
  "new_scope at scopeId controllerId request =
     \<lparr> sc_scopeId = scopeId, sc_scopeRequestId = cr_scopeRequestId request, sc_state = scope_creating,
       sc_controllerId = controllerId, sc_leaseEpoch = 1,
       sc_participants = fresh_participants (cr_participants request), sc_createdAt = at,
       sc_activatedAt = None, sc_creatingTimer = None, sc_idleTimer = None \<rparr>"

text \<open>\<open>prewarmParticipant\<close> is called for each entry and runs to its await.\<close>

definition prewarm_all :: "host_env \<Rightarrow> Scope \<Rightarrow> Scope" where
  "prewarm_all env s = s\<lparr>sc_participants := map (\<lambda>(p, e). (p, fst (prewarm_begin env e))) (sc_participants s)\<rparr>"

definition pending_prewarms :: "host_env \<Rightarrow> Scope \<Rightarrow> ((string \<times> string) \<times> InstallationRecord) list" where
  "pending_prewarms env s =
     concat (map (\<lambda>(p, e). case snd (prewarm_begin env e) of None \<Rightarrow> [] | Some i \<Rightarrow> [((sc_scopeId s, p), i)])
       (sc_participants s))"

datatype create_outcome = ExistingScope create_response | PrewarmingScope string

definition reusable_scope :: "string \<Rightarrow> ScopeManager \<Rightarrow> Scope option" where
  "reusable_scope scopeRequestId m =
     (case jm_get (sm_scopeRequestIndex m) scopeRequestId of
        None \<Rightarrow> None
      | Some scopeId \<Rightarrow>
          (case jm_get (sm_scopes m) scopeId of
             None \<Rightarrow> None
           | Some s \<Rightarrow> if sc_state s \<noteq> scope_closed then Some s else None))"

definition resource_limit :: "string \<Rightarrow> scope_error" where
  "resource_limit message = err 429 (makeError RESOURCE_LIMIT ph_quota message no_extra)"

text \<open>
  \<open>createScope\<close> up to \<open>await Promise.all\<close>; \<open>scopeId\<close> and \<open>controllerId\<close> are the random
  identifiers.  An unknown driver is found before the scope is stored.
\<close>

definition createScope ::
  "host_env \<Rightarrow> clock \<Rightarrow> string \<Rightarrow> string \<Rightarrow> create_request \<Rightarrow> ScopeManager
    \<Rightarrow> ScopeManager \<times> (scope_error + create_outcome)" where
  "createScope env now scopeId controllerId request m =
     (case reusable_scope (cr_scopeRequestId request) m of
        Some s \<Rightarrow> (m, Inr (ExistingScope (create_response_of env s)))
      | None \<Rightarrow>
          (case checkScopeCreateRate (ck_ms now) m of
             (m', Some e) \<Rightarrow> (m', Inl e)
           | (m', None) \<Rightarrow>
               if maxActiveScopes QUOTAS \<le> activeScopeCount m' then
                 (m', Inl (resource_limit ''Maximum active scopes reached.''))
               else if maxParticipantsPerScope QUOTAS < length (cr_participants request) then
                 (m', Inl (resource_limit ''Too many participants in one scope.''))
               else if maxDriverProcesses QUOTAS < liveDriverProcessCount m' + length (cr_participants request) then
                 (m', Inl (resource_limit ''Global driver process quota reached.''))
               else if \<not> list_all (\<lambda>spec. he_hasFactory env (ep_driverId (ps_profile spec))) (cr_participants request) then
                 (m', Inl (err 400 (makeError PROFILE_INVALID ph_prewarm ''unknown driverId in profile'' no_extra)))
               else
                 (let s = scheduleCreatingSweep env (ck_ms now) (new_scope (ck_iso now) scopeId controllerId request)
                  in (m'\<lparr>sm_scopes := jm_set scopeId (prewarm_all env s) (sm_scopes m'),
                         sm_scopeRequestIndex := jm_set (cr_scopeRequestId request) scopeId (sm_scopeRequestIndex m'),
                         sm_scopeCreateTimestamps := sm_scopeCreateTimestamps m' @ [ck_ms now],
                         sm_prewarms := pending_prewarms env s @ sm_prewarms m'\<rparr>,
                      Inr (PrewarmingScope scopeId)))))"

text \<open>The rest of \<open>createScope\<close>, when every prewarm has settled.\<close>

definition teardown_entry :: "ParticipantEntry \<Rightarrow> ParticipantEntry" where
  "teardown_entry e =
     (if pe_runtime e = rt_ready \<or> pe_runtime e = rt_prewarming
      then e\<lparr>pe_runtime := rt_cold, pe_binding := None, pe_readiness := None\<rparr> else e)"

definition create_finish :: "string \<Rightarrow> ScopeManager \<Rightarrow> ScopeManager" where
  "create_finish scopeId m =
     put_scope scopeId
       (\<lambda>s. if sc_state s = scope_closed \<or> sc_state s = scope_closing
            then s\<lparr>sc_participants := map (\<lambda>(p, e). (p, teardown_entry e)) (sc_participants s)\<rparr> else s) m"

section \<open>Activation and takeover\<close>

definition activate :: "host_env \<Rightarrow> clock \<Rightarrow> Scope \<Rightarrow> Scope" where
  "activate env now s =
     (if sc_state s = scope_creating then
        scheduleIdleSweep env (ck_ms now)
          (s\<lparr>sc_state := scope_active, sc_activatedAt := Some (ck_iso now), sc_creatingTimer := None\<rparr>)
      else s)"

definition activateScope ::
  "host_env \<Rightarrow> clock \<Rightarrow> string \<Rightarrow> string \<Rightarrow> nat \<Rightarrow> ScopeManager \<Rightarrow> scope_error + ScopeManager \<times> ScopeStatus" where
  "activateScope env now scopeId controllerId leaseEpoch m =
     (case getScope scopeId m of
        Inl e \<Rightarrow> Inl e
      | Inr s \<Rightarrow> (case fenced s controllerId leaseEpoch of
                   Some e \<Rightarrow> Inl e
                 | None \<Rightarrow> Inr (put_scope scopeId (activate env now) m, toStatus env (activate env now s))))"

definition takeover :: "string \<Rightarrow> string \<Rightarrow> ScopeManager \<Rightarrow> scope_error + ScopeManager \<times> nat" where
  "takeover scopeId newControllerId m =
     (case getScope scopeId m of
        Inl e \<Rightarrow> Inl e
      | Inr s \<Rightarrow>
          if sc_state s = scope_closed \<or> sc_state s = scope_closing then
            Inl (err 409 (makeError SCOPE_CLOSED ph_close ''Scope is closing or closed.'' no_extra))
          else
            Inr (put_scope scopeId
                   (\<lambda>s. s\<lparr>sc_controllerId := newControllerId, sc_leaseEpoch := sc_leaseEpoch s + 1\<rparr>) m,
                 sc_leaseEpoch s + 1))"

section \<open>Executions\<close>

record execute_request =
  xr_controllerId :: string
  xr_leaseEpoch :: nat
  xr_executionId :: string
  xr_participantId :: string
  xr_snapshot :: ContextSnapshot

record ExecuteOutcome =
  xo_executionId :: string
  xo_state :: ExecutionState
  xo_lastSeq :: nat

fun runtime_state_text :: "ParticipantRuntimeState \<Rightarrow> string" where
  "runtime_state_text rt_cold = ''cold''"
| "runtime_state_text rt_prewarming = ''prewarming''"
| "runtime_state_text rt_ready = ''ready''"
| "runtime_state_text rt_busy = ''busy''"
| "runtime_state_text rt_failed = ''failed''"

fun rebase_reason_text :: "rebase_reason \<Rightarrow> string" where
  "rebase_reason_text digest_version_changed = ''digest_version_changed''"
| "rebase_reason_text history_replaced = ''history_replaced''"
| "rebase_reason_text shared_context_changed = ''shared_context_changed''"
| "rebase_reason_text participant_changed = ''participant_changed''"
| "rebase_reason_text revision_regressed = ''revision_regressed''"
| "rebase_reason_text session_execution_limit = ''session_execution_limit''"
| "rebase_reason_text context_window_threshold = ''context_window_threshold''"

text \<open>The checks at the start of \<open>execute\<close>: the entry it goes on with, or the error.\<close>

definition execute_guard :: "string \<Rightarrow> execute_request \<Rightarrow> ScopeManager \<Rightarrow> scope_error + ParticipantEntry" where
  "execute_guard scopeId request m =
     (case getScope scopeId m of
        Inl e \<Rightarrow> Inl e
      | Inr s \<Rightarrow>
          (case fenced s (xr_controllerId request) (xr_leaseEpoch request) of
             Some e \<Rightarrow> Inl e
           | None \<Rightarrow>
               if sc_state s \<noteq> scope_active then
                 Inl (err 409 (makeError SCOPE_CLOSED ph_dispatch ''Scope is not active.'' no_extra))
               else
                 (case jm_get (sc_participants s) (xr_participantId request) of
                    None \<Rightarrow> Inl (err 404 (makeError PARTICIPANT_NOT_FOUND ph_dispatch ''Unknown participant.'' no_extra))
                  | Some entry \<Rightarrow>
                      if pe_runtime entry \<noteq> rt_ready then
                        Inl (err 409 (makeError PARTICIPANT_BUSY ph_dispatch
                               (''participant is '' @ runtime_state_text (pe_runtime entry) @ '', not ready.'') no_extra))
                      else if pe_busyExecutionId entry \<noteq> None then
                        Inl (err 409 (makeError PARTICIPANT_BUSY ph_dispatch
                               ''participant has a running execution.'' no_extra))
                      else if maxConcurrentExecutions QUOTAS \<le> runningCount (sm_executions m) then
                        Inl (resource_limit ''Concurrent execution quota reached.'')
                      else Inr entry)))"

text \<open>What the driver is asked to run.\<close>

record ExecuteInput =
  xi_executionId :: string
  xi_prompt :: string
  xi_modelId :: string
  xi_coldStart :: bool

definition failed_early :: "RuntimeError \<Rightarrow> DriverEvent" where
  "failed_early e = Failed e not_dispatched tool_none False"

definition execute ::
  "host_env \<Rightarrow> clock \<Rightarrow> string \<Rightarrow> execute_request \<Rightarrow> nat \<Rightarrow> nat option \<Rightarrow> ScopeManager
    \<Rightarrow> scope_error + ScopeManager \<times> ExecuteOutcome \<times> ExecuteInput option" where
  "execute env now scopeId request driverSessionEpoch window m =
     (case execute_guard scopeId request m of
        Inl e \<Rightarrow> Inl e
      | Inr entry \<Rightarrow>
          (let x = xr_executionId request; p = xr_participantId request;
               (g, record, created) = begin_execution (ck_iso now) x p scopeId (sm_executions m);
               m1 = m\<lparr>sm_executions := g\<rparr>
           in if \<not> created then
                Inr (m1, \<lparr> xo_executionId = er_executionId record, xo_state = er_state record,
                           xo_lastSeq = er_lastSeq record \<rparr>, None)
              else
                (case pe_binding entry of
                   None \<Rightarrow>
                     (case emitAndSweep env now scopeId x
                             (failed_early (makeError PROFILE_INVALID ph_prewarm
                                ''participant has no resolved binding'' no_extra)) m1 of
                        Inl e \<Rightarrow> Inl (RegistryFailure e)
                      | Inr (m2, _) \<Rightarrow>
                          Inr (m2, \<lparr> xo_executionId = x, xo_state = exec_failed, xo_lastSeq = 1 \<rparr>, None))
                 | Some binding \<Rightarrow>
                     (case reconcile (he_sha env) p (xr_snapshot request) driverSessionEpoch window (sm_reconciler m1) of
                        NeedsRebase reason \<Rightarrow>
                          (case emitAndSweep env now scopeId x (Started (rb_requestedModel binding)) m1 of
                             Inl e \<Rightarrow> Inl (RegistryFailure e)
                           | Inr (m2, _) \<Rightarrow>
                               (case emitAndSweep env now scopeId x
                                       (failed_early (makeError NEEDS_REBASE ph_dispatch
                                          (''session reconciliation: '' @ rebase_reason_text reason)
                                          (no_extra\<lparr>xt_executionId := Some x, xt_participantId := Some p,
                                                   xt_driverId := Some (rb_driverId binding)\<rparr>))) m2 of
                                  Inl e \<Rightarrow> Inl (RegistryFailure e)
                                | Inr (m3, _) \<Rightarrow>
                                    Inr (m3, \<lparr> xo_executionId = x, xo_state = exec_failed,
                                              xo_lastSeq = (case get_execution x (sm_executions m3) of
                                                              None \<Rightarrow> 2 | Some r \<Rightarrow> er_lastSeq r) \<rparr>, None)))
                      | Reconciled basis prompt _ \<Rightarrow>
                          Inr ((put_scope scopeId
                                  (map_entry p (\<lambda>e. e\<lparr>pe_busyExecutionId := Some x, pe_runtime := rt_busy\<rparr>)) m1)
                                 \<lparr>sm_flights := jm_set (scopeId, p)
                                    \<lparr> fl_executionId = x, fl_snapshot = xr_snapshot request \<rparr> (sm_flights m1)\<rparr>,
                               \<lparr> xo_executionId = x, xo_state = exec_running, xo_lastSeq = 0 \<rparr>,
                               Some \<lparr> xi_executionId = x, xi_prompt = prompt,
                                      xi_modelId = rb_canonicalModelId binding,
                                      xi_coldStart = (basis = basis_full) \<rparr>)))))"

text \<open>The closure \<open>emit\<close> the driver calls while its promise is pending.\<close>

definition driver_emits ::
  "host_env \<Rightarrow> clock \<Rightarrow> string \<Rightarrow> string \<Rightarrow> DriverEvent \<Rightarrow> nat \<Rightarrow> ScopeManager \<Rightarrow> registry_error + ScopeManager" where
  "driver_emits env now scopeId p proto driverSessionEpoch m =
     (case jm_get (sm_flights m) (scopeId, p) of
        None \<Rightarrow> Inr m
      | Some fl \<Rightarrow>
          (case emitAndSweep env now scopeId (fl_executionId fl) proto m of
             Inl e \<Rightarrow> Inl e
           | Inr (m', None) \<Rightarrow> Inr m'
           | Inr (m', Some event) \<Rightarrow>
               (case ev_body event of
                  Completed _ _ _ _ _ _ usage _ \<Rightarrow>
                    Inr (m'\<lparr>sm_reconciler := recordApplied (he_sha env) p (fl_snapshot fl) (fl_executionId fl)
                            driverSessionEpoch usage (sm_reconciler m')\<rparr>)
                | _ \<Rightarrow> Inr m')))"

text \<open>The \<open>catch\<close> and the \<open>finally\<close> on the driver's promise.\<close>

definition driver_rejects ::
  "host_env \<Rightarrow> clock \<Rightarrow> string \<Rightarrow> string \<Rightarrow> string option \<Rightarrow> ScopeManager \<Rightarrow> registry_error + ScopeManager" where
  "driver_rejects env now scopeId p message m =
     (case jm_get (sm_flights m) (scopeId, p) of
        None \<Rightarrow> Inr m
      | Some fl \<Rightarrow>
          (case emitAndSweep env now scopeId (fl_executionId fl)
                  (Failed (makeError INTERNAL ph_dispatch
                             (case message of Some msg \<Rightarrow> clip_string msg 256 | None \<Rightarrow> ''execute failed'')
                             (no_extra\<lparr>xt_executionId := Some (fl_executionId fl), xt_participantId := Some p\<rparr>))
                     dispatch_unknown tool_unknown False) m of
             Inl e \<Rightarrow> Inl e
           | Inr (m', _) \<Rightarrow> Inr m'))"

definition driver_finally :: "string \<Rightarrow> string \<Rightarrow> ScopeManager \<Rightarrow> ScopeManager" where
  "driver_finally scopeId p m =
     (case jm_get (sm_flights m) (scopeId, p) of
        None \<Rightarrow> m
      | Some _ \<Rightarrow>
          (put_scope scopeId
             (map_entry p (\<lambda>e. (e\<lparr>pe_busyExecutionId := None\<rparr>)
                \<lparr>pe_runtime := (if pe_runtime e = rt_busy then rt_ready else pe_runtime e)\<rparr>)) m)
            \<lparr>sm_flights := jm_delete (scopeId, p) (sm_flights m)\<rparr>)"

section \<open>Cancel and acknowledge\<close>

text \<open>
  \<open>cancel\<close> changes nothing here: up to \<open>await driver.cancel\<close> it checks (\<open>cancel_begin\<close>, which
  returns whether the execution had finished and its state); then it reports.
\<close>

definition cancel_begin ::
  "string \<Rightarrow> string \<Rightarrow> string \<Rightarrow> nat \<Rightarrow> ScopeManager \<Rightarrow> scope_error + bool \<times> ExecutionState" where
  "cancel_begin scopeId executionId controllerId leaseEpoch m =
     (case getScope scopeId m of
        Inl e \<Rightarrow> Inl e
      | Inr s \<Rightarrow>
          (case fenced s controllerId leaseEpoch of
             Some e \<Rightarrow> Inl e
           | None \<Rightarrow>
               (case get_execution executionId (sm_executions m) of
                  None \<Rightarrow> Inl (err 404 (makeError EXECUTION_NOT_FOUND ph_cancel ''Unknown execution.'' no_extra))
                | Some r \<Rightarrow>
                    if er_scopeId r \<noteq> scopeId then
                      Inl (err 404 (makeError EXECUTION_NOT_FOUND ph_cancel ''Unknown execution.'' no_extra))
                    else if jm_get (sc_participants s) (er_participantId r) = None then
                      Inl (err 404 (makeError PARTICIPANT_NOT_FOUND ph_cancel ''Unknown participant.'' no_extra))
                    else Inr (er_state r \<noteq> exec_running, er_state r))))"

text \<open>\<open>None\<close> is the answer "cancelling".\<close>

definition cancel_result :: "string \<Rightarrow> bool \<times> ExecutionState \<Rightarrow> ScopeManager \<Rightarrow> ExecutionState option" where
  "cancel_result executionId before m =
     (if \<not> fst before then None
      else (case get_execution executionId (sm_executions m) of
              None \<Rightarrow> Some (snd before) | Some r \<Rightarrow> Some (er_state r)))"

definition scope_ack ::
  "string \<Rightarrow> string \<Rightarrow> nat \<Rightarrow> AckDisposition \<Rightarrow> string \<Rightarrow> nat \<Rightarrow> ScopeManager
    \<Rightarrow> scope_error + ScopeManager \<times> AckState \<times> AckDisposition option" where
  "scope_ack scopeId executionId finalSeq disposition controllerId leaseEpoch m =
     (case getScope scopeId m of
        Inl e \<Rightarrow> Inl e
      | Inr s \<Rightarrow>
          (case fenced s controllerId leaseEpoch of
             Some e \<Rightarrow> Inl e
           | None \<Rightarrow>
               if (case get_execution executionId (sm_executions m) of
                     None \<Rightarrow> False | Some r \<Rightarrow> er_scopeId r \<noteq> scopeId) then
                 Inl (err 404 (makeError EXECUTION_NOT_FOUND ph_commit ''Unknown execution.'' no_extra))
               else
                 (case ack executionId finalSeq disposition (sm_executions m) of
                    (g, AckConflict _ e) \<Rightarrow> Inl (err 409 e)
                  | (g, Acknowledged d) \<Rightarrow> Inr (m\<lparr>sm_executions := g\<rparr>, ack_acknowledged, d)
                  | (g, AckExpired) \<Rightarrow> Inr (m\<lparr>sm_executions := g\<rparr>, ack_expired, None))))"

record host_counts =
  hc_activeScopes :: nat
  hc_liveDriverProcesses :: nat
  hc_runningExecutions :: nat
  hc_eventConnections :: nat

definition counts :: "ScopeManager \<Rightarrow> host_counts" where
  "counts m =
     \<lparr> hc_activeScopes = activeScopeCount m, hc_liveDriverProcesses = liveDriverProcessCount m,
       hc_runningExecutions = runningCount (sm_executions m),
       hc_eventConnections = eventConnectionCount (sm_executions m) \<rparr>"

definition getScopeStatus :: "host_env \<Rightarrow> string \<Rightarrow> ScopeManager \<Rightarrow> scope_error + ScopeStatus" where
  "getScopeStatus env scopeId m =
     (case getScope scopeId m of Inl e \<Rightarrow> Inl e | Inr s \<Rightarrow> Inr (toStatus env s))"

section \<open>Steps\<close>

text \<open>
  Every call and every settling promise is one step, in any order.  A follower of the event
  stream changes only the registry's listeners.  New identifiers are fresh.
\<close>

inductive manager_step :: "ScopeManager \<Rightarrow> ScopeManager \<Rightarrow> bool" where
  ms_create: "jm_get (sm_scopes m) scopeId = None \<Longrightarrow>
    manager_step m (fst (createScope env now scopeId controllerId request m))"
| ms_create_finish: "manager_step m (create_finish scopeId m)"
| ms_prewarm: "manager_step m (prewarm_settled env scopeId p result m)"
| ms_activate: "activateScope env now scopeId c l m = Inr (m', st) \<Longrightarrow> manager_step m m'"
| ms_takeover: "takeover scopeId c m = Inr (m', l) \<Longrightarrow> manager_step m m'"
| ms_execute: "execute env now scopeId request ep win m = Inr (m', out) \<Longrightarrow> manager_step m m'"
| ms_emit: "driver_emits env now scopeId p proto ep m = Inr m' \<Longrightarrow> manager_step m m'"
| ms_reject: "driver_rejects env now scopeId p msg m = Inr m' \<Longrightarrow> manager_step m m'"
| ms_finally: "manager_step m (driver_finally scopeId p m)"
| ms_ack: "scope_ack scopeId x q d c l m = Inr (m', r) \<Longrightarrow> manager_step m m'"
| ms_follow: "fresh_listener l (sm_executions m) \<Longrightarrow> follow x a l (sm_executions m) = Some g \<Longrightarrow>
    manager_step m (m\<lparr>sm_executions := g\<rparr>)"
| ms_unfollow: "manager_step m (m\<lparr>sm_executions := unfollow x l (sm_executions m)\<rparr>)"
| ms_close: "closeScope scopeId c l m = Inr m' \<Longrightarrow> manager_step m m'"
| ms_close_settled: "manager_step m (close_settled scopeId p m)"
| ms_close_finish: "manager_step m (close_finish scopeId m)"
| ms_close_all: "manager_step m (closeAll m)"
| ms_creating_timer: "manager_step m (creating_timer_fires t scopeId m)"
| ms_idle_timer: "manager_step m (idle_timer_fires env t scopeId m)"

inductive manager_reachable :: "ScopeManager \<Rightarrow> bool" where
  mr_init: "manager_reachable createScopeManager"
| mr_step: "manager_reachable m \<Longrightarrow> manager_step m m' \<Longrightarrow> manager_reachable m'"

section \<open>The invariant\<close>

text \<open>The driver of participant \<open>p\<close> has been closed.\<close>

definition driver_down :: "ScopeState \<Rightarrow> string list option \<Rightarrow> string \<Rightarrow> bool" where
  "driver_down st closing p \<longleftrightarrow>
     st = scope_closed \<or> (case closing of None \<Rightarrow> False | Some ps \<Rightarrow> p \<notin> set ps)"

text \<open>
  One entry: its busy marker is the execution in flight; while the scope is open, busy and
  prewarming say exactly what is pending and a usable participant has a binding; once its driver
  is down it never counts as a live process again.
\<close>

definition entry_ok ::
  "ScopeState \<Rightarrow> string list option \<Rightarrow> bool \<Rightarrow> flight option \<Rightarrow> string \<Rightarrow> ParticipantEntry \<Rightarrow> bool" where
  "entry_ok st closing pending fl p e \<longleftrightarrow>
     ps_participantId (pe_spec e) = p
   \<and> pe_busyExecutionId e = map_option fl_executionId fl
   \<and> (pe_runtime e = rt_busy \<longrightarrow> fl \<noteq> None)
   \<and> (pending \<longrightarrow> fl = None)
   \<and> (st = scope_creating \<or> st = scope_active \<longrightarrow>
        (fl \<noteq> None \<longrightarrow> pe_runtime e = rt_busy)
      \<and> (pending \<longleftrightarrow> pe_runtime e = rt_prewarming)
      \<and> (pe_runtime e = rt_ready \<or> pe_runtime e = rt_busy \<longrightarrow> pe_binding e \<noteq> None))
   \<and> (driver_down st closing p \<longrightarrow> \<not> live_entry e)"

text \<open>The closing list matters only through \<open>driver_down\<close>.\<close>

lemma entry_ok_closing:
  "driver_down st cl' p = driver_down st cl p \<Longrightarrow> entry_ok st cl' pending fl p e = entry_ok st cl pending fl p e"
  by (simp only: entry_ok_def)

definition scope_ok :: "ScopeManager \<Rightarrow> string \<Rightarrow> Scope \<Rightarrow> bool" where
  "scope_ok m k s \<longleftrightarrow>
     sc_scopeId s = k \<and> jm_ok (sc_participants s) \<and> 0 < sc_leaseEpoch s
   \<and> (sc_idleTimer s \<noteq> None \<longrightarrow> sc_state s = scope_active)
   \<and> (sc_creatingTimer s \<noteq> None \<longrightarrow> sc_state s = scope_creating)
   \<and> (jm_get (sm_closing m) k \<noteq> None \<longleftrightarrow> sc_state s = scope_closing)
   \<and> (\<forall>p e. jm_get (sc_participants s) p = Some e \<longrightarrow>
        entry_ok (sc_state s) (jm_get (sm_closing m) k) (jm_get (sm_prewarms m) (k, p) \<noteq> None)
          (jm_get (sm_flights m) (k, p)) p e)"

definition has_entry :: "ScopeManager \<Rightarrow> string \<Rightarrow> string \<Rightarrow> bool" where
  "has_entry m k p \<longleftrightarrow>
     (\<exists>s e. jm_get (sm_scopes m) k = Some s \<and> jm_get (sc_participants s) p = Some e)"

definition shape_ok :: "ScopeManager \<Rightarrow> bool" where
  "shape_ok m \<longleftrightarrow>
     jm_ok (sm_scopes m)
   \<and> (\<forall>k s. jm_get (sm_scopes m) k = Some s \<longrightarrow> scope_ok m k s)
   \<and> (\<forall>k p. jm_get (sm_prewarms m) (k, p) \<noteq> None \<or> jm_get (sm_flights m) (k, p) \<noteq> None \<longrightarrow> has_entry m k p)
   \<and> (\<forall>k. jm_get (sm_closing m) k \<noteq> None \<longrightarrow> jm_get (sm_scopes m) k \<noteq> None)"

lemma shape_okD:
  assumes "shape_ok m"
  shows shape_keys: "jm_ok (sm_scopes m)"
    and shape_scope: "jm_get (sm_scopes m) k = Some s \<Longrightarrow> scope_ok m k s"
    and shape_pending: "jm_get (sm_prewarms m) (k, p) \<noteq> None \<or> jm_get (sm_flights m) (k, p) \<noteq> None \<Longrightarrow> has_entry m k p"
    and shape_closing: "jm_get (sm_closing m) k \<noteq> None \<Longrightarrow> jm_get (sm_scopes m) k \<noteq> None"
  using assms by (auto simp: shape_ok_def)

lemma scope_okD:
  assumes "scope_ok m k s"
  shows scope_ok_id: "sc_scopeId s = k" and scope_ok_keys: "jm_ok (sc_participants s)"
    and scope_ok_lease: "0 < sc_leaseEpoch s"
    and scope_ok_idle: "sc_idleTimer s \<noteq> None \<Longrightarrow> sc_state s = scope_active"
    and scope_ok_creating: "sc_creatingTimer s \<noteq> None \<Longrightarrow> sc_state s = scope_creating"
    and scope_ok_closing: "jm_get (sm_closing m) k \<noteq> None \<longleftrightarrow> sc_state s = scope_closing"
    and scope_ok_entry: "jm_get (sc_participants s) p = Some e \<Longrightarrow>
        entry_ok (sc_state s) (jm_get (sm_closing m) k) (jm_get (sm_prewarms m) (k, p) \<noteq> None)
          (jm_get (sm_flights m) (k, p)) p e"
  using assms by (auto simp: scope_ok_def)

text \<open>To show it for a scope that was changed: the fields, then each entry.\<close>

lemma scope_okI:
  assumes "scope_ok m k s" "sc_scopeId s' = sc_scopeId s" "jm_ok (sc_participants s')"
    and "0 < sc_leaseEpoch s'" "sc_idleTimer s' \<noteq> None \<longrightarrow> sc_state s' = scope_active"
    and "sc_creatingTimer s' \<noteq> None \<longrightarrow> sc_state s' = scope_creating"
    and "jm_get (sm_closing m') k \<noteq> None \<longleftrightarrow> sc_state s' = scope_closing"
    and "\<And>p e. jm_get (sc_participants s') p = Some e \<Longrightarrow>
        entry_ok (sc_state s') (jm_get (sm_closing m') k) (jm_get (sm_prewarms m') (k, p) \<noteq> None)
          (jm_get (sm_flights m') (k, p)) p e"
  shows "scope_ok m' k s'"
  unfolding scope_ok_def using assms(2-) scope_ok_id [OF assms(1)] by blast

lemma scope_ok_no_timers:
  assumes "scope_ok m k s" "\<not> open_scope s"
  shows "sc_idleTimer s = None" "sc_creatingTimer s = None"
  using scope_ok_idle [OF assms(1)] scope_ok_creating [OF assms(1)] assms(2) by blast+

section \<open>Updating one scope\<close>

lemma put_scope_simps [simp]:
  "sm_prewarms (put_scope k f m) = sm_prewarms m" "sm_flights (put_scope k f m) = sm_flights m"
  "sm_closing (put_scope k f m) = sm_closing m" "sm_executions (put_scope k f m) = sm_executions m"
  "sm_reconciler (put_scope k f m) = sm_reconciler m"
  "sm_scopeRequestIndex (put_scope k f m) = sm_scopeRequestIndex m"
  "sm_scopeCreateTimestamps (put_scope k f m) = sm_scopeCreateTimestamps m"
  by (simp_all add: put_scope_def split: option.splits)

lemma get_put_scope:
  "jm_get (sm_scopes (put_scope k f m)) k' =
     (if k' = k then map_option f (jm_get (sm_scopes m) k) else jm_get (sm_scopes m) k')"
  by (auto simp: put_scope_def update_conv' split: option.splits)

lemma get_map_entry:
  "jm_get (sc_participants (map_entry p f s)) p' =
     (if p' = p then map_option f (jm_get (sc_participants s) p) else jm_get (sc_participants s) p')"
  by (auto simp: map_entry_def update_conv' split: option.splits)

lemma map_entry_simps [simp]:
  "sc_scopeId (map_entry p f s) = sc_scopeId s" "sc_state (map_entry p f s) = sc_state s"
  "sc_leaseEpoch (map_entry p f s) = sc_leaseEpoch s" "sc_idleTimer (map_entry p f s) = sc_idleTimer s"
  "sc_creatingTimer (map_entry p f s) = sc_creatingTimer s"
  "sc_controllerId (map_entry p f s) = sc_controllerId s"
  "sc_scopeRequestId (map_entry p f s) = sc_scopeRequestId s"
  by (simp_all add: map_entry_def split: option.splits)

lemma jm_ok_map_entry: "jm_ok (sc_participants s) \<Longrightarrow> jm_ok (sc_participants (map_entry p f s))"
  by (auto simp: map_entry_def distinct_update split: option.splits)

lemma jm_ok_put_scope: "jm_ok (sm_scopes m) \<Longrightarrow> jm_ok (sm_scopes (put_scope k f m))"
  by (auto simp: put_scope_def distinct_update split: option.splits)

text \<open>
  The general step: scope \<open>k\<close> becomes \<open>s'\<close> and the pending promises of \<open>k\<close> change.  What is
  left to show concerns that one scope.
\<close>

lemma shape_update:
  assumes ok: "shape_ok m" and s: "jm_get (sm_scopes m) k = Some s"
    and scopes: "sm_scopes m' = jm_set k s' (sm_scopes m)"
    and others: "\<And>k' p. k' \<noteq> k \<Longrightarrow> jm_get (sm_prewarms m') (k', p) = jm_get (sm_prewarms m) (k', p)"
      "\<And>k' p. k' \<noteq> k \<Longrightarrow> jm_get (sm_flights m') (k', p) = jm_get (sm_flights m) (k', p)"
      "\<And>k'. k' \<noteq> k \<Longrightarrow> jm_get (sm_closing m') k' = jm_get (sm_closing m) k'"
    and dom: "\<And>p. jm_get (sm_prewarms m') (k, p) \<noteq> None \<or> jm_get (sm_flights m') (k, p) \<noteq> None
        \<Longrightarrow> jm_get (sc_participants s') p \<noteq> None"
    and this_scope: "scope_ok m' k s'"
  shows "shape_ok m'"
proof -
  have get: "jm_get (sm_scopes m') k' = (if k' = k then Some s' else jm_get (sm_scopes m) k')" for k'
    by (simp add: scopes update_conv')
  have "scope_ok m' k' t" if "jm_get (sm_scopes m') k' = Some t" for k' t
  proof (cases "k' = k")
    case True
    then show ?thesis using this_scope that by (simp add: get)
  next
    case False
    then show ?thesis
      using shape_scope [OF ok, of k' t] that by (simp add: get scope_ok_def others)
  qed
  moreover have "has_entry m' k' p"
    if "jm_get (sm_prewarms m') (k', p) \<noteq> None \<or> jm_get (sm_flights m') (k', p) \<noteq> None" for k' p
  proof (cases "k' = k")
    case True
    then show ?thesis using dom [of p] that by (auto simp: has_entry_def get)
  next
    case False
    then show ?thesis
      using shape_pending [OF ok, of k' p] that by (auto simp: has_entry_def get others)
  qed
  moreover have "jm_get (sm_scopes m') k' \<noteq> None" if "jm_get (sm_closing m') k' \<noteq> None" for k'
  proof (cases "k' = k")
    case False
    then show ?thesis using shape_closing [OF ok, of k'] that by (simp add: get others)
  qed (simp add: get)
  ultimately show ?thesis
    using distinct_update [OF shape_keys [OF ok]] unfolding shape_ok_def scopes by blast
qed

lemma pending_entry:
  "shape_ok m \<Longrightarrow> jm_get (sm_scopes m) k = Some s \<Longrightarrow>
     jm_get (sm_prewarms m) (k, p) \<noteq> None \<or> jm_get (sm_flights m) (k, p) \<noteq> None
     \<Longrightarrow> jm_get (sc_participants s) p \<noteq> None"
  using shape_pending [of m k p] by (auto simp: has_entry_def)

text \<open>When nothing but the executions, the sessions or the request index changes.\<close>

lemma shape_same:
  "\<lbrakk>shape_ok m; sm_scopes m' = sm_scopes m; sm_prewarms m' = sm_prewarms m; sm_flights m' = sm_flights m;
    sm_closing m' = sm_closing m\<rbrakk> \<Longrightarrow> shape_ok m'"
  by (simp add: shape_ok_def scope_ok_def has_entry_def)

lemma pendingD:
  assumes "shape_ok m" "jm_get (sm_scopes m) k = Some s"
  shows "jm_get (sm_prewarms m) (k, p) = Some i \<Longrightarrow> \<exists>e. jm_get (sc_participants s) p = Some e"
    and "jm_get (sm_flights m) (k, p) = Some fl \<Longrightarrow> \<exists>e. jm_get (sc_participants s) p = Some e"
  using pending_entry [OF assms, of p] by auto

lemma shape_fields [simp]:
  "shape_ok (m\<lparr>sm_executions := g\<rparr>) = shape_ok m" "shape_ok (m\<lparr>sm_reconciler := rs\<rparr>) = shape_ok m"
  "shape_ok (m\<lparr>sm_scopeCreateTimestamps := ts\<rparr>) = shape_ok m"
  "shape_ok (m\<lparr>sm_scopeRequestIndex := ix\<rparr>) = shape_ok m"
  by (simp_all add: shape_ok_def scope_ok_def has_entry_def)

lemma put_scope_missing: "jm_get (sm_scopes m) k = None \<Longrightarrow> put_scope k f m = m"
  by (simp add: put_scope_def)

lemma sm_scopes_put: "jm_get (sm_scopes m) k = Some s \<Longrightarrow> sm_scopes (put_scope k f m) = jm_set k (f s) (sm_scopes m)"
  by (simp add: put_scope_def)

section \<open>Each operation keeps the shape\<close>

text \<open>An operation on scope fields other than its state and participants.\<close>

lemma shape_put_scope:
  assumes ok: "shape_ok m"
    and f: "\<And>s. scope_ok m k s \<Longrightarrow>
        sc_scopeId (f s) = sc_scopeId s \<and> sc_participants (f s) = sc_participants s
      \<and> sc_state (f s) = sc_state s \<and> 0 < sc_leaseEpoch (f s)
      \<and> (sc_idleTimer (f s) \<noteq> None \<longrightarrow> sc_state s = scope_active)
      \<and> (sc_creatingTimer (f s) \<noteq> None \<longrightarrow> sc_state s = scope_creating)"
  shows "shape_ok (put_scope k f m)"
proof (cases "jm_get (sm_scopes m) k")
  case None
  then show ?thesis using ok by (simp add: put_scope_missing)
next
  case (Some s)
  note sok = shape_scope [OF ok Some] and fs = f [OF shape_scope [OF ok Some]]
  show ?thesis
  proof (rule shape_update [OF ok Some sm_scopes_put [OF Some]])
    show "scope_ok (put_scope k f m) k (f s)"
      using sok fs unfolding scope_ok_def by simp
  qed (use fs pending_entry [OF ok Some] in simp_all)
qed

lemma shape_scheduleIdleSweep: "shape_ok m \<Longrightarrow> shape_ok (put_scope k (scheduleIdleSweep env t) m)"
  by (rule shape_put_scope) (auto simp: scheduleIdleSweep_def scope_ok_def)

lemma shape_emitAndSweep:
  assumes "shape_ok m" "emitAndSweep env now k x proto m = Inr (m', ev)"
  shows "shape_ok m'"
  using assms
  by (auto simp: emitAndSweep_def Let_def intro!: shape_scheduleIdleSweep
      split: sum.splits option.splits if_splits)

lemma shape_close_begin:
  assumes ok: "shape_ok m" shows "shape_ok (close_begin k m)"
proof (cases "\<exists>s. jm_get (sm_scopes m) k = Some s \<and> open_scope s")
  case True
  then obtain s where s: "jm_get (sm_scopes m) k = Some s" and opn: "open_scope s" by blast
  let ?f = "\<lambda>s. s\<lparr>sc_state := scope_closing, sc_creatingTimer := None, sc_idleTimer := None\<rparr>"
  let ?c = "jm_set k (map fst (sc_participants s)) (sm_closing m)"
  have eq: "close_begin k m = (put_scope k ?f m)\<lparr>sm_closing := ?c\<rparr>"
    using opn by (auto simp: close_begin_def s)
  have keys: "p \<in> set (map fst (sc_participants s))" if "jm_get (sc_participants s) p = Some e" for p e
    using that by (force dest: map_of_SomeD)
  note sok = shape_scope [OF ok s]
  show ?thesis
    unfolding eq
  proof (rule shape_update [OF ok s])
    show "sm_scopes ((put_scope k ?f m)\<lparr>sm_closing := ?c\<rparr>) = jm_set k (?f s) (sm_scopes m)"
      by (simp add: sm_scopes_put [OF s])
    have "entry_ok scope_closing (Some (map fst (sc_participants s))) (jm_get (sm_prewarms m) (k, p) \<noteq> None)
        (jm_get (sm_flights m) (k, p)) p e" if "jm_get (sc_participants s) p = Some e" for p e
      using scope_ok_entry [OF sok that] keys [OF that] by (auto simp: entry_ok_def driver_down_def)
    then show "scope_ok ((put_scope k ?f m)\<lparr>sm_closing := ?c\<rparr>) k (?f s)"
      using sok by (simp add: scope_ok_def update_conv')
  qed (use pending_entry [OF ok s] in \<open>simp_all add: update_conv'\<close>)
next
  case False
  then have "close_begin k m = m"
    by (cases "jm_get (sm_scopes m) k"; cases "sc_state (the (jm_get (sm_scopes m) k))")
      (auto simp: close_begin_def)
  then show ?thesis using ok by simp
qed

text \<open>An operation on one entry of one scope, with its pending promises.\<close>

lemma shape_entry:
  assumes ok: "shape_ok m" and s: "jm_get (sm_scopes m) k = Some s"
    and e: "jm_get (sc_participants s) p = Some e"
    and scopes: "sm_scopes m' = jm_set k (map_entry p f s) (sm_scopes m)"
    and pend: "\<And>q. q \<noteq> (k, p) \<Longrightarrow> jm_get (sm_prewarms m') q = jm_get (sm_prewarms m) q"
    and fl: "\<And>q. q \<noteq> (k, p) \<Longrightarrow> jm_get (sm_flights m') q = jm_get (sm_flights m) q"
    and closing: "\<And>k'. k' \<noteq> k \<Longrightarrow> jm_get (sm_closing m') k' = jm_get (sm_closing m) k'"
      "jm_get (sm_closing m') k = None \<longleftrightarrow> jm_get (sm_closing m) k = None"
      "\<And>p'. p' \<noteq> p \<Longrightarrow> driver_down (sc_state s) (jm_get (sm_closing m') k) p'
          = driver_down (sc_state s) (jm_get (sm_closing m) k) p'"
    and new: "entry_ok (sc_state s) (jm_get (sm_closing m) k) (jm_get (sm_prewarms m) (k, p) \<noteq> None)
        (jm_get (sm_flights m) (k, p)) p e \<Longrightarrow>
      entry_ok (sc_state s) (jm_get (sm_closing m') k) (jm_get (sm_prewarms m') (k, p) \<noteq> None)
        (jm_get (sm_flights m') (k, p)) p (f e)"
  shows "shape_ok m'"
proof (rule shape_update [OF ok s scopes])
  note sok = shape_scope [OF ok s]
  have "entry_ok (sc_state s) (jm_get (sm_closing m') k) (jm_get (sm_prewarms m') (k, p') \<noteq> None)
        (jm_get (sm_flights m') (k, p')) p' e'"
    if "jm_get (sc_participants (map_entry p f s)) p' = Some e'" for p' e'
  proof (cases "p' = p")
    case True
    then show ?thesis using that new [OF scope_ok_entry [OF sok e]] by (simp add: get_map_entry e)
  next
    case False
    then have "(k, p') \<noteq> (k, p)" and "jm_get (sc_participants s) p' = Some e'"
      using that by (simp_all add: get_map_entry)
    from scope_ok_entry [OF sok this(2)] show ?thesis
      unfolding pend [OF \<open>(k, p') \<noteq> (k, p)\<close>] fl [OF \<open>(k, p') \<noteq> (k, p)\<close>]
        entry_ok_closing [OF closing(3) [OF False]] .
  qed
  then have entries: "entry_ok (sc_state (map_entry p f s)) (jm_get (sm_closing m') k)
      (jm_get (sm_prewarms m') (k, p') \<noteq> None) (jm_get (sm_flights m') (k, p')) p' e'"
    if "jm_get (sc_participants (map_entry p f s)) p' = Some e'" for p' e'
    using that by (simp only: map_entry_simps)
  have closing_iff: "jm_get (sm_closing m') k \<noteq> None \<longleftrightarrow> sc_state (map_entry p f s) = scope_closing"
    unfolding map_entry_simps closing(2) by (rule scope_ok_closing [OF sok])
  show "scope_ok m' k (map_entry p f s)"
    by (rule scope_okI [OF sok _ jm_ok_map_entry [OF scope_ok_keys [OF sok]] _ _ _ closing_iff entries])
      (use scope_okD [OF sok] in simp_all)
  show "jm_get (sc_participants (map_entry p f s)) p' \<noteq> None"
    if "jm_get (sm_prewarms m') (k, p') \<noteq> None \<or> jm_get (sm_flights m') (k, p') \<noteq> None" for p'
    using that pending_entry [OF ok s, of p'] pend [of "(k, p')"] fl [of "(k, p')"]
    by (cases "p' = p") (simp_all add: get_map_entry e)
  show "jm_get (sm_prewarms m') (k', p') = jm_get (sm_prewarms m) (k', p')" if "k' \<noteq> k" for k' p'
    using that by (intro pend) simp
  show "jm_get (sm_flights m') (k', p') = jm_get (sm_flights m) (k', p')" if "k' \<noteq> k" for k' p'
    using that by (intro fl) simp
  show "jm_get (sm_closing m') k' = jm_get (sm_closing m) k'" if "k' \<noteq> k" for k'
    using that by (rule closing(1))
qed

lemma shape_close_settled:
  assumes ok: "shape_ok m" shows "shape_ok (close_settled k p m)"
proof (cases "\<exists>ps. jm_get (sm_closing m) k = Some ps \<and> p \<in> set ps")
  case True
  then obtain ps where ps: "jm_get (sm_closing m) k = Some ps" and p: "p \<in> set ps" by blast
  obtain s where s: "jm_get (sm_scopes m) k = Some s" using shape_closing [OF ok, of k] ps by auto
  have st: "sc_state s = scope_closing" using scope_ok_closing [OF shape_scope [OF ok s]] ps by simp
  show ?thesis
  proof (cases "jm_get (sc_participants s) p")
    case (Some e)
    show ?thesis
      by (rule shape_entry [OF ok s Some, where f = "\<lambda>e. e\<lparr>pe_runtime := rt_cold\<rparr>"])
        (auto simp: close_settled_def ps p sm_scopes_put [OF s] update_conv' st driver_down_def
          entry_ok_def live_entry_def)
  next
    case None
    note sok = shape_scope [OF ok s]
    have same: "map_entry p (\<lambda>e. e\<lparr>pe_runtime := rt_cold\<rparr>) s = s" by (simp add: map_entry_def None)
    have "entry_ok (sc_state s) (Some (removeAll p ps)) (jm_get (sm_prewarms m) (k, p') \<noteq> None)
        (jm_get (sm_flights m) (k, p')) p' e'" if "jm_get (sc_participants s) p' = Some e'" for p' e'
    proof -
      have "p' \<noteq> p" using that None by auto
      then have same_down: "driver_down (sc_state s) (Some (removeAll p ps)) p'
          = driver_down (sc_state s) (jm_get (sm_closing m) k) p'"
        by (simp add: driver_down_def ps)
      from scope_ok_entry [OF sok that] show ?thesis unfolding entry_ok_closing [OF same_down] .
    qed
    then have "scope_ok (close_settled k p m) k s"
      by (intro scope_okI [OF sok]) (use scope_ok_no_timers [OF sok] scope_ok_keys [OF sok] scope_ok_lease [OF sok] st
           in \<open>simp_all add: close_settled_def ps p update_conv'\<close>)
    then show ?thesis
      by (rule shape_update [OF ok s, rotated -1])
        (auto simp: close_settled_def ps p sm_scopes_put [OF s] same update_conv'
          intro: pendingD [OF ok s])
  qed
next
  case False
  then have "close_settled k p m = m" by (auto simp: close_settled_def split: option.splits)
  then show ?thesis using ok by simp
qed

lemma shape_close_finish:
  assumes ok: "shape_ok m" shows "shape_ok (close_finish k m)"
proof (cases "jm_get (sm_closing m) k = Some []")
  case True
  obtain s where s: "jm_get (sm_scopes m) k = Some s" using shape_closing [OF ok, of k] True by auto
  note sok = shape_scope [OF ok s]
  have st: "sc_state s = scope_closing" using scope_ok_closing [OF sok] True by simp
  have "entry_ok scope_closed None (jm_get (sm_prewarms m) (k, p') \<noteq> None)
        (jm_get (sm_flights m) (k, p')) p' e'" if "jm_get (sc_participants s) p' = Some e'" for p' e'
    using scope_ok_entry [OF sok that] by (auto simp: entry_ok_def driver_down_def True)
  then have "scope_ok (close_finish k m) k (s\<lparr>sc_state := scope_closed\<rparr>)"
    using sok st by (auto simp: scope_ok_def close_finish_def True Let_def delete_conv')
  then show ?thesis
    by (rule shape_update [OF ok s, rotated -1])
      (auto simp: close_finish_def True Let_def sm_scopes_put [OF s] delete_conv'
        intro: pendingD [OF ok s])
next
  case False
  then have "close_finish k m = m" by (auto simp: close_finish_def split: option.splits list.splits)
  then show ?thesis using ok by simp
qed

lemma shape_closeAll: "shape_ok m \<Longrightarrow> shape_ok (closeAll m)"
proof -
  have "shape_ok m \<Longrightarrow> shape_ok (fold close_begin ks m)" for ks
    by (induction ks arbitrary: m) (auto intro: shape_close_begin)
  then show "shape_ok m \<Longrightarrow> ?thesis" by (simp add: closeAll_def)
qed

lemma shape_creating_timer: "shape_ok m \<Longrightarrow> shape_ok (creating_timer_fires t k m)"
  unfolding creating_timer_fires_def
  by (auto intro!: shape_close_begin shape_put_scope simp: scope_ok_def split: option.splits)

lemma shape_idle_timer: "shape_ok m \<Longrightarrow> shape_ok (idle_timer_fires env t k m)"
  unfolding idle_timer_fires_def Let_def
  by (auto intro!: shape_close_begin shape_put_scope shape_scheduleIdleSweep simp: scope_ok_def
      split: option.splits)

lemma prewarm_rejected_simps [simp]:
  "pe_spec (prewarm_rejected er e) = pe_spec e"
  "pe_busyExecutionId (prewarm_rejected er e) = pe_busyExecutionId e"
  "pe_runtime (prewarm_rejected er e) = (if je_runtimeCode er = Some ''CANCELLED'' then rt_cold else rt_failed)"
  by (auto simp: prewarm_rejected_def)

text \<open>A settled prewarm never leaves the entry prewarming or busy, and only an open scope gets a
  ready participant, with a binding.\<close>

lemma prewarm_entry_facts:
  "pe_spec (prewarm_entry env st i r e) = pe_spec e"
  "pe_busyExecutionId (prewarm_entry env st i r e) = pe_busyExecutionId e"
  "pe_runtime (prewarm_entry env st i r e) \<in> {rt_cold, rt_failed, rt_ready}"
  "pe_runtime (prewarm_entry env st i r e) = rt_ready \<Longrightarrow>
     (st = scope_creating \<or> st = scope_active) \<and> pe_binding (prewarm_entry env st i r e) \<noteq> None"
  by (auto simp: prewarm_entry_def split: sum.splits canonical_error.splits if_splits)

lemma entry_ok_prewarmed:
  assumes "entry_ok st cl True fl p e"
  shows "entry_ok st cl False fl p (prewarm_entry env st i r e)"
proof -
  note facts = prewarm_entry_facts [of env st i r e]
  have "fl = None" using assms by (simp add: entry_ok_def)
  moreover have "\<not> open_scope s'" if "driver_down (sc_state s') cl p" "sc_state s' = st" for s'
    using assms that by (auto simp: entry_ok_def live_entry_def)
  ultimately show ?thesis
    using assms facts by (auto simp: entry_ok_def live_entry_def)
qed

lemma shape_prewarm_settled:
  assumes ok: "shape_ok m" shows "shape_ok (prewarm_settled env k p r m)"
proof (cases "jm_get (sm_prewarms m) (k, p)")
  case None
  then show ?thesis using ok by (simp add: prewarm_settled_def)
next
  case (Some i)
  obtain s e where s: "jm_get (sm_scopes m) k = Some s" and e: "jm_get (sc_participants s) p = Some e"
    using shape_pending [OF ok, of k p] Some by (auto simp: has_entry_def)
  show ?thesis
  proof (rule shape_entry [OF ok s e, where f = "prewarm_entry env (sc_state s) i r"])
    show "sm_scopes (prewarm_settled env k p r m) = jm_set k (map_entry p (prewarm_entry env (sc_state s) i r) s) (sm_scopes m)"
      by (simp add: prewarm_settled_def Some sm_scopes_put [OF s])
    assume "entry_ok (sc_state s) (jm_get (sm_closing m) k) (jm_get (sm_prewarms m) (k, p) \<noteq> None)
        (jm_get (sm_flights m) (k, p)) p e"
    then show "entry_ok (sc_state s) (jm_get (sm_closing (prewarm_settled env k p r m)) k)
        (jm_get (sm_prewarms (prewarm_settled env k p r m)) (k, p) \<noteq> None)
        (jm_get (sm_flights (prewarm_settled env k p r m)) (k, p)) p (prewarm_entry env (sc_state s) i r e)"
      using entry_ok_prewarmed by (simp add: prewarm_settled_def Some delete_conv')
  qed (simp_all add: prewarm_settled_def Some delete_conv')
qed

lemma get_map_values: "jm_get (map (\<lambda>(p, e). (p, f e)) ps) p = map_option f (jm_get ps p)"
  by (induction ps) auto

lemma keys_map_values: "jm_ok ps \<Longrightarrow> jm_ok (map (\<lambda>(p, e). (p, f e)) ps)"
  by (simp add: case_prod_beta' comp_def)

lemma shape_create_finish:
  assumes ok: "shape_ok m" shows "shape_ok (create_finish k m)"
proof (cases "\<exists>s. jm_get (sm_scopes m) k = Some s \<and> \<not> open_scope s")
  case True
  then obtain s where s: "jm_get (sm_scopes m) k = Some s" and st: "\<not> open_scope s" by blast
  note sok = shape_scope [OF ok s]
  let ?s = "s\<lparr>sc_participants := map (\<lambda>(p, e). (p, teardown_entry e)) (sc_participants s)\<rparr>"
  have st': "sc_state s = scope_closed \<or> sc_state s = scope_closing" using st by (cases "sc_state s") auto
  have entries: "entry_ok (sc_state ?s) (jm_get (sm_closing (create_finish k m)) k)
      (jm_get (sm_prewarms (create_finish k m)) (k, p) \<noteq> None) (jm_get (sm_flights (create_finish k m)) (k, p)) p e"
    if ent: "jm_get (sc_participants ?s) p = Some e" for p e
  proof -
    obtain e0 where e0: "jm_get (sc_participants s) p = Some e0" and e: "e = teardown_entry e0"
      using ent get_map_values [of teardown_entry "sc_participants s" p]
      by (cases "jm_get (sc_participants s) p") auto
    show ?thesis
      using scope_ok_entry [OF sok e0] st
      by (auto simp: entry_ok_def e teardown_entry_def create_finish_def live_entry_def)
  qed
  have keys: "jm_ok (sc_participants ?s)"
    using keys_map_values [OF scope_ok_keys [OF sok], of teardown_entry] by simp
  have "scope_ok (create_finish k m) k ?s"
    by (rule scope_okI [OF sok _ keys _ _ _ _ entries])
      (use scope_ok_lease [OF sok] scope_ok_no_timers [OF sok st] scope_ok_closing [OF sok]
       in \<open>simp_all add: create_finish_def\<close>)
  then show ?thesis
    by (rule shape_update [OF ok s, rotated -1])
      (use st' in \<open>auto simp: create_finish_def sm_scopes_put [OF s] get_map_values intro: pendingD [OF ok s]\<close>)
next
  case False
  then have "create_finish k m = put_scope k id m"
    by (auto simp: create_finish_def put_scope_def split: option.splits)
  then show ?thesis using shape_put_scope [OF ok, of k id] by (auto simp: scope_ok_def)
qed

lemma entry_ok_activated: "entry_ok scope_active cl pd fl p e = entry_ok scope_creating cl pd fl p e"
  by (simp add: entry_ok_def driver_down_def)

lemma shape_activate:
  assumes "shape_ok m" "activateScope env now k c l m = Inr (m', st)"
  shows "shape_ok m'"
proof -
  obtain s where s: "jm_get (sm_scopes m) k = Some s" and m': "m' = put_scope k (activate env now) m"
    using assms(2) by (auto simp: activateScope_def getScope_def split: sum.splits option.splits)
  note ok = assms(1) and sok = shape_scope [OF assms(1) s]
  have fields: "sc_participants (activate env now s) = sc_participants s" "sc_scopeId (activate env now s) = sc_scopeId s"
    "sc_leaseEpoch (activate env now s) = sc_leaseEpoch s"
    by (simp_all add: activate_def scheduleIdleSweep_def)
  have entries: "entry_ok (sc_state (activate env now s)) (jm_get (sm_closing m') k)
      (jm_get (sm_prewarms m') (k, p) \<noteq> None) (jm_get (sm_flights m') (k, p)) p e"
    if "jm_get (sc_participants (activate env now s)) p = Some e" for p e
  proof -
    have "entry_ok (sc_state s) (jm_get (sm_closing m) k) (jm_get (sm_prewarms m) (k, p) \<noteq> None)
        (jm_get (sm_flights m) (k, p)) p e"
      using scope_ok_entry [OF sok] that unfolding fields by blast
    moreover have "sc_state (activate env now s) = sc_state s
        \<or> sc_state s = scope_creating \<and> sc_state (activate env now s) = scope_active"
      by (simp add: activate_def scheduleIdleSweep_def)
    ultimately show ?thesis
      unfolding m' put_scope_simps using entry_ok_activated by metis
  qed
  have closing: "jm_get (sm_closing m') k \<noteq> None \<longleftrightarrow> sc_state (activate env now s) = scope_closing"
    unfolding m' put_scope_simps scope_ok_closing [OF sok] by (simp add: activate_def scheduleIdleSweep_def)
  have timers: "sc_idleTimer (activate env now s) \<noteq> None \<longrightarrow> sc_state (activate env now s) = scope_active"
    "sc_creatingTimer (activate env now s) \<noteq> None \<longrightarrow> sc_state (activate env now s) = scope_creating"
  proof -
    consider "sc_state s = scope_creating" | "activate env now s = s" unfolding activate_def by presburger
    then have "(sc_idleTimer (activate env now s) \<noteq> None \<longrightarrow> sc_state (activate env now s) = scope_active)
      \<and> (sc_creatingTimer (activate env now s) \<noteq> None \<longrightarrow> sc_state (activate env now s) = scope_creating)"
    proof cases
      case 1
      then show ?thesis by (simp add: activate_def scheduleIdleSweep_def)
    next
      case 2
      then show ?thesis using scope_ok_idle [OF sok] scope_ok_creating [OF sok] by metis
    qed
    then show "sc_idleTimer (activate env now s) \<noteq> None \<longrightarrow> sc_state (activate env now s) = scope_active"
      "sc_creatingTimer (activate env now s) \<noteq> None \<longrightarrow> sc_state (activate env now s) = scope_creating"
      by blast+
  qed
  have "scope_ok m' k (activate env now s)"
    by (rule scope_okI [OF sok fields(2) _ _ timers closing entries])
      (simp_all add: fields scope_ok_keys [OF sok] scope_ok_lease [OF sok])
  then show ?thesis
    by (rule shape_update [OF ok s, rotated -1])
      (auto simp: m' sm_scopes_put [OF s] fields intro: pendingD [OF ok s])
qed

lemma shape_takeover: "shape_ok m \<Longrightarrow> takeover k c m = Inr (m', l) \<Longrightarrow> shape_ok m'"
  by (auto simp: takeover_def scope_ok_def intro!: shape_put_scope split: sum.splits if_splits)

text \<open>A new scope: every entry is prewarming with its promise pending, or failed at once.\<close>

lemma fresh_participants_keys: "jm_ok (fresh_participants specs)"
proof -
  have "jm_ok m \<Longrightarrow> jm_ok (fold (\<lambda>spec. jm_set (ps_participantId spec) (fresh_entry spec)) specs m)" for m
    by (induction specs arbitrary: m) (auto simp: distinct_update)
  then show ?thesis by (simp add: fresh_participants_def)
qed

lemma fresh_participants_get:
  assumes "jm_get (fresh_participants specs) p = Some e"
  shows "\<exists>spec. e = fresh_entry spec \<and> ps_participantId spec = p"
proof -
  have "jm_get (fold (\<lambda>spec. jm_set (ps_participantId spec) (fresh_entry spec)) specs m) p = Some e \<Longrightarrow>
      jm_get m p = Some e \<or> (\<exists>spec. e = fresh_entry spec \<and> ps_participantId spec = p)" for m
  proof (induction specs arbitrary: m)
    case (Cons spec specs)
    show ?case using Cons.IH [of "jm_set (ps_participantId spec) (fresh_entry spec) m"] Cons.prems
      by (auto simp: update_conv' split: if_splits)
  qed simp
  from this [of "[]"] show ?thesis using assms by (simp add: fresh_participants_def)
qed

lemma pending_prewarms_get:
  assumes "jm_ok (sc_participants s)"
  shows "jm_get (pending_prewarms env s) (k, p) =
     (if k = sc_scopeId s then (case jm_get (sc_participants s) p of None \<Rightarrow> None
        | Some e \<Rightarrow> snd (prewarm_begin env e)) else None)"
proof -
  have "jm_ok ps \<Longrightarrow> map_of (concat (map (\<lambda>(p, e). case snd (prewarm_begin env e) of None \<Rightarrow> []
        | Some i \<Rightarrow> [((sc_scopeId s, p), i)]) ps)) (k, p) =
     (if k = sc_scopeId s then (case jm_get ps p of None \<Rightarrow> None
        | Some e \<Rightarrow> snd (prewarm_begin env e)) else None)" for ps
  proof (induction ps)
    case (Cons pe ps)
    obtain p' e' where pe: "pe = (p', e')" by (cases pe)
    show ?case
    proof (cases "p = p'")
      case True
      then have "jm_get ps p = None" using Cons.prems by (simp add: pe map_of_eq_None_iff)
      then show ?thesis using Cons True by (auto simp: pe split: option.splits)
    next
      case False
      then show ?thesis using Cons by (auto simp: pe split: option.splits)
    qed
  qed simp
  then show ?thesis using assms by (simp add: pending_prewarms_def)
qed

lemma prewarm_begin_facts:
  "pe_spec (fst (prewarm_begin env e)) = pe_spec e"
  "pe_busyExecutionId (fst (prewarm_begin env e)) = pe_busyExecutionId e"
  "snd (prewarm_begin env e) = None \<Longrightarrow> pe_runtime (fst (prewarm_begin env e)) \<in> {rt_cold, rt_failed}"
  "snd (prewarm_begin env e) = Some i \<Longrightarrow> pe_runtime (fst (prewarm_begin env e)) = rt_prewarming"
  by (auto simp: prewarm_begin_def Let_def split: prod.splits option.splits sum.splits if_splits)

lemma entry_ok_fresh:
  "entry_ok scope_creating None (snd (prewarm_begin env (fresh_entry spec)) \<noteq> None) None
     (ps_participantId spec) (fst (prewarm_begin env (fresh_entry spec)))"
  using prewarm_begin_facts [of env "fresh_entry spec"]
  by (cases "snd (prewarm_begin env (fresh_entry spec))")
    (auto simp: entry_ok_def driver_down_def fresh_entry_def [THEN arg_cong, of pe_spec]
      fresh_entry_def [THEN arg_cong, of pe_busyExecutionId])

lemma createScope_cases:
  obtains (refused) ts where "fst (createScope env now k c request m) = m\<lparr>sm_scopeCreateTimestamps := ts\<rparr>"
  | (created) ts where
      "activeScopeCount m < maxActiveScopes QUOTAS"
      "liveDriverProcessCount m + length (cr_participants request) \<le> maxDriverProcesses QUOTAS"
      "fst (createScope env now k c request m) =
        (let s = scheduleCreatingSweep env (ck_ms now) (new_scope (ck_iso now) k c request)
         in m\<lparr>sm_scopes := jm_set k (prewarm_all env s) (sm_scopes m),
              sm_scopeRequestIndex := jm_set (cr_scopeRequestId request) k (sm_scopeRequestIndex m),
              sm_scopeCreateTimestamps := ts, sm_prewarms := pending_prewarms env s @ sm_prewarms m\<rparr>)"
proof (cases "reusable_scope (cr_scopeRequestId request) m")
  case (Some s)
  then show ?thesis using refused [of "sm_scopeCreateTimestamps m"] by (simp add: createScope_def)
next
  case None
  let ?ts = "recent_timestamps (ck_ms now) (sm_scopeCreateTimestamps m)"
  have counts: "activeScopeCount (m\<lparr>sm_scopeCreateTimestamps := ?ts\<rparr>) = activeScopeCount m"
    "liveDriverProcessCount (m\<lparr>sm_scopeCreateTimestamps := ?ts\<rparr>) = liveDriverProcessCount m"
    by (simp_all add: activeScopeCount_def liveDriverProcessCount_def)
  let ?go = "\<not> scopeCreatesPerMinute QUOTAS \<le> length ?ts \<and> \<not> maxActiveScopes QUOTAS \<le> activeScopeCount m
    \<and> \<not> maxParticipantsPerScope QUOTAS < length (cr_participants request)
    \<and> \<not> maxDriverProcesses QUOTAS < liveDriverProcessCount m + length (cr_participants request)
    \<and> list_all (\<lambda>spec. he_hasFactory env (ep_driverId (ps_profile spec))) (cr_participants request)"
  show ?thesis
  proof (cases ?go)
    case True
    show ?thesis
      by (rule created [of "?ts @ [ck_ms now]"])
        (use True in \<open>simp_all add: createScope_def None checkScopeCreateRate_def counts Let_def\<close>)
  next
    case False
    show ?thesis
      by (rule refused [of ?ts])
        (use False in \<open>auto simp: createScope_def None checkScopeCreateRate_def counts Let_def\<close>)
  qed
qed

lemma shape_createScope:
  assumes ok: "shape_ok m" and fresh: "jm_get (sm_scopes m) k = None"
  shows "shape_ok (fst (createScope env now k c request m))"
proof (cases rule: createScope_cases [of env now k c request m])
  case (refused ts)
  then show ?thesis using ok by simp
next
  case (created ts)
  let ?s = "scheduleCreatingSweep env (ck_ms now) (new_scope (ck_iso now) k c request)"
  let ?m = "fst (createScope env now k c request m)"
  have fields: "sc_scopeId ?s = k" "sc_state ?s = scope_creating" "sc_leaseEpoch ?s = 1" "sc_idleTimer ?s = None"
    "sc_participants ?s = fresh_participants (cr_participants request)"
    by (simp_all add: scheduleCreatingSweep_def new_scope_def)
  have m: "sm_scopes ?m = jm_set k (prewarm_all env ?s) (sm_scopes m)" "sm_flights ?m = sm_flights m"
    "sm_closing ?m = sm_closing m" "sm_prewarms ?m = pending_prewarms env ?s @ sm_prewarms m"
    by (simp_all add: created(3) Let_def)
  have none: "jm_get (sm_prewarms m) (k, p) = None" "jm_get (sm_flights m) (k, p) = None"
    "jm_get (sm_closing m) k = None" for p
  proof -
    have "\<not> has_entry m k p" using fresh by (simp add: has_entry_def)
    then show "jm_get (sm_prewarms m) (k, p) = None" "jm_get (sm_flights m) (k, p) = None"
      "jm_get (sm_closing m) k = None"
      using shape_pending [OF ok, of k p] shape_closing [OF ok, of k] fresh by blast+
  qed
  have pend: "jm_get (sm_prewarms ?m) (k', p) =
      (if k' = k then (case jm_get (fresh_participants (cr_participants request)) p of None \<Rightarrow> None
         | Some e \<Rightarrow> snd (prewarm_begin env e)) else jm_get (sm_prewarms m) (k', p))" for k' p
    unfolding m(4) map_of_append map_add_def
    using pending_prewarms_get [of ?s env k' p] fresh_participants_keys none(1) [of p]
    by (auto simp: fields split: option.splits)
  have entries: "jm_get (sc_participants (prewarm_all env ?s)) p =
      map_option (\<lambda>e. fst (prewarm_begin env e)) (jm_get (fresh_participants (cr_participants request)) p)" for p
    using get_map_values [of "\<lambda>e. fst (prewarm_begin env e)" "fresh_participants (cr_participants request)" p]
    by (simp add: prewarm_all_def fields)
  have others: "scope_ok ?m k' t" if "k' \<noteq> k" "scope_ok m k' t" for k' t
    using that by (simp add: scope_ok_def m(2,3) pend)
  have "entry_ok scope_creating None (jm_get (sm_prewarms ?m) (k, p) \<noteq> None) None p e"
    if e: "jm_get (sc_participants (prewarm_all env ?s)) p = Some e" for p e
  proof -
    obtain e0 where e0: "jm_get (fresh_participants (cr_participants request)) p = Some e0"
      and ee: "e = fst (prewarm_begin env e0)" using e by (auto simp: entries)
    obtain spec where "e0 = fresh_entry spec" "ps_participantId spec = p"
      using fresh_participants_get [OF e0] by blast
    then show ?thesis using entry_ok_fresh [of env spec] by (simp add: pend e0 ee)
  qed
  then have this_scope: "scope_ok ?m k (prewarm_all env ?s)"
    using keys_map_values [OF fresh_participants_keys, of "\<lambda>e. fst (prewarm_begin env e)" "cr_participants request"]
    by (simp add: scope_ok_def m(2,3) none) (simp add: prewarm_all_def fields scheduleCreatingSweep_def new_scope_def)
  have get: "jm_get (sm_scopes ?m) k' = (if k' = k then Some (prewarm_all env ?s) else jm_get (sm_scopes m) k')" for k'
    by (simp add: m(1) update_conv')
  have "scope_ok ?m k' t" if "jm_get (sm_scopes ?m) k' = Some t" for k' t
    using that others [of k' t] shape_scope [OF ok, of k' t] this_scope by (auto simp: get split: if_splits)
  moreover have "has_entry ?m k' p"
    if pn: "jm_get (sm_prewarms ?m) (k', p) \<noteq> None \<or> jm_get (sm_flights ?m) (k', p) \<noteq> None" for k' p
  proof (cases "k' = k")
    case True
    then show ?thesis using pn entries [of p]
      by (auto simp: pend has_entry_def get m(2) none split: option.splits)
  next
    case False
    then show ?thesis using pn shape_pending [OF ok, of k' p] by (auto simp: pend has_entry_def get m(2))
  qed
  moreover have "jm_get (sm_scopes ?m) k' \<noteq> None" if "jm_get (sm_closing ?m) k' \<noteq> None" for k'
    using that shape_closing [OF ok, of k'] by (auto simp: get m(3))
  moreover have "jm_ok (sm_scopes ?m)" by (simp add: m(1) distinct_update shape_keys [OF ok])
  ultimately show ?thesis unfolding shape_ok_def by blast
qed

text \<open>What \<open>execute\<close> does: it fails, or it only touches the executions, or it starts the driver.\<close>

lemma execute_guard_Inr:
  assumes "execute_guard k request m = Inr e"
  obtains s where "jm_get (sm_scopes m) k = Some s" "sc_state s = scope_active"
    "sc_controllerId s = xr_controllerId request" "sc_leaseEpoch s = xr_leaseEpoch request"
    "jm_get (sc_participants s) (xr_participantId request) = Some e"
    "pe_runtime e = rt_ready" "pe_busyExecutionId e = None"
    "runningCount (sm_executions m) < maxConcurrentExecutions QUOTAS"
  using assms
  by (auto simp: execute_guard_def getScope_def fenced_def not_le split: option.splits if_splits)

lemma execute_cases:
  assumes "execute env now k request ep win m = Inr (m', out, input)"
  obtains (same) e g r where "execute_guard k request m = Inr e"
      "begin_execution (ck_iso now) (xr_executionId request) (xr_participantId request) k
        (sm_executions m) = (g, r, False)" "m' = m\<lparr>sm_executions := g\<rparr>" "input = None"
  | (failed_unbound) e g r ev where "execute_guard k request m = Inr e" "pe_binding e = None"
      "begin_execution (ck_iso now) (xr_executionId request) (xr_participantId request) k
        (sm_executions m) = (g, r, True)"
      "emitAndSweep env now k (xr_executionId request) (failed_early (makeError PROFILE_INVALID ph_prewarm
          ''participant has no resolved binding'' no_extra)) (m\<lparr>sm_executions := g\<rparr>) = Inr (m', ev)"
      "input = None"
  | (rebase) e g r p1 ev1 m1 p2 ev2 where "execute_guard k request m = Inr e"
      "begin_execution (ck_iso now) (xr_executionId request) (xr_participantId request) k
        (sm_executions m) = (g, r, True)"
      "emitAndSweep env now k (xr_executionId request) p1 (m\<lparr>sm_executions := g\<rparr>) = Inr (m1, ev1)"
      "emitAndSweep env now k (xr_executionId request) p2 m1 = Inr (m', ev2)" "input = None"
  | (started) e g r binding basis prompt n where "execute_guard k request m = Inr e" "pe_binding e = Some binding"
      "begin_execution (ck_iso now) (xr_executionId request) (xr_participantId request) k
        (sm_executions m) = (g, r, True)"
      "reconcile (he_sha env) (xr_participantId request) (xr_snapshot request) ep win (sm_reconciler m)
         = Reconciled basis prompt n"
      "m' = (put_scope k (map_entry (xr_participantId request)
              (\<lambda>e. e\<lparr>pe_busyExecutionId := Some (xr_executionId request), pe_runtime := rt_busy\<rparr>))
              (m\<lparr>sm_executions := g\<rparr>))
            \<lparr>sm_flights := jm_set (k, xr_participantId request)
               \<lparr> fl_executionId = xr_executionId request, fl_snapshot = xr_snapshot request \<rparr> (sm_flights m)\<rparr>"
      "input = Some \<lparr> xi_executionId = xr_executionId request, xi_prompt = prompt,
                     xi_modelId = rb_canonicalModelId binding, xi_coldStart = (basis = basis_full) \<rparr>"
proof -
  obtain e where e: "execute_guard k request m = Inr e"
    using assms by (auto simp: execute_def split: sum.splits)
  obtain g r created where b: "begin_execution (ck_iso now) (xr_executionId request) (xr_participantId request) k
        (sm_executions m) = (g, r, created)" by (metis prod.exhaust)
  show ?thesis
  proof (cases created)
    case False
    then show ?thesis using assms e b same by (simp add: execute_def Let_def)
  next
    case True
    then have b': "begin_execution (ck_iso now) (xr_executionId request) (xr_participantId request) k
        (sm_executions m) = (g, r, True)" using b by simp
    show ?thesis
    proof (cases "pe_binding e")
      case None
      then show ?thesis using assms e b' failed_unbound
        by (auto simp: execute_def Let_def split: sum.splits prod.splits)
    next
      case (Some binding)
      show ?thesis
      proof (cases "reconcile (he_sha env) (xr_participantId request) (xr_snapshot request) ep win (sm_reconciler m)")
        case (Reconciled basis prompt n)
        then show ?thesis using assms e b' Some started
          by (simp add: execute_def Let_def)
      next
        case (NeedsRebase reason)
        then show ?thesis using assms e b' Some rebase
          by (auto simp: execute_def Let_def split: sum.splits prod.splits)
      qed
    qed
  qed
qed

lemma entry_ok_started:
  assumes "entry_ok scope_active cl pd fl p e" "pe_runtime e = rt_ready" "pe_busyExecutionId e = None"
    and "pe_binding e = Some b"
  shows "entry_ok scope_active cl pd (Some f) p (e\<lparr>pe_busyExecutionId := Some (fl_executionId f), pe_runtime := rt_busy\<rparr>)"
  using assms by (auto simp: entry_ok_def live_entry_def)

lemma entry_ok_settled:
  assumes "entry_ok st cl pd (Some f) p e"
  shows "entry_ok st cl pd None p ((e\<lparr>pe_busyExecutionId := None\<rparr>)
      \<lparr>pe_runtime := (if pe_runtime e = rt_busy then rt_ready else pe_runtime e)\<rparr>)"
  using assms by (auto simp: entry_ok_def live_entry_def)

lemma shape_execute:
  assumes ok: "shape_ok m" and ex: "execute env now k request ep win m = Inr (m', out, input)"
  shows "shape_ok m'"
  using ex
proof (cases rule: execute_cases)
  case (started e g r binding basis prompt n)
  let ?p = "xr_participantId request"
  let ?f = "\<lparr> fl_executionId = xr_executionId request, fl_snapshot = xr_snapshot request \<rparr>"
  obtain s where s: "jm_get (sm_scopes m) k = Some s" "sc_state s = scope_active"
    and e: "jm_get (sc_participants s) ?p = Some e" "pe_runtime e = rt_ready" "pe_busyExecutionId e = None"
    by (rule execute_guard_Inr [OF started(1)])
  have s1: "jm_get (sm_scopes (m\<lparr>sm_executions := g\<rparr>)) k = Some s" by (simp add: s)
  have ok1: "shape_ok (m\<lparr>sm_executions := g\<rparr>)" using ok by simp
  show ?thesis
  proof (rule shape_entry [OF ok1 s1 e(1)])
    show "sm_scopes m' = jm_set k (map_entry ?p
        (\<lambda>e. e\<lparr>pe_busyExecutionId := Some (xr_executionId request), pe_runtime := rt_busy\<rparr>) s)
        (sm_scopes (m\<lparr>sm_executions := g\<rparr>))"
      by (simp add: started(5) sm_scopes_put [OF s1])
    assume "entry_ok (sc_state s) (jm_get (sm_closing (m\<lparr>sm_executions := g\<rparr>)) k)
        (jm_get (sm_prewarms (m\<lparr>sm_executions := g\<rparr>)) (k, ?p) \<noteq> None)
        (jm_get (sm_flights (m\<lparr>sm_executions := g\<rparr>)) (k, ?p)) ?p e"
    from entry_ok_started [OF this [unfolded s(2)] e(2,3) started(2), of ?f]
    show "entry_ok (sc_state s) (jm_get (sm_closing m') k) (jm_get (sm_prewarms m') (k, ?p) \<noteq> None)
        (jm_get (sm_flights m') (k, ?p)) ?p
        (e\<lparr>pe_busyExecutionId := Some (xr_executionId request), pe_runtime := rt_busy\<rparr>)"
      by (simp add: started(5) s(2) update_conv')
  qed (simp_all add: started(5) update_conv')
next
  case same
  then show ?thesis using ok by simp
next
  case (failed_unbound e g r ev)
  show ?thesis by (rule shape_emitAndSweep [OF _ failed_unbound(4)]) (simp add: ok)
next
  case (rebase e g r p1 ev1 m1 p2 ev2)
  have "shape_ok m1" by (rule shape_emitAndSweep [OF _ rebase(3)]) (simp add: ok)
  then show ?thesis by (rule shape_emitAndSweep [OF _ rebase(4)])
qed

text \<open>An emission goes through \<open>emitAndSweep\<close>; a completed turn is also recorded.\<close>

lemma driver_emits_cases:
  assumes "driver_emits env now k p proto ep m = Inr m'"
  obtains (idle) "jm_get (sm_flights m) (k, p) = None" "m' = m"
  | (sent) fl m1 ev rs where "jm_get (sm_flights m) (k, p) = Some fl"
      "emitAndSweep env now k (fl_executionId fl) proto m = Inr (m1, ev)" "m' = m1\<lparr>sm_reconciler := rs\<rparr>"
proof (cases "jm_get (sm_flights m) (k, p)")
  case None
  then have "m' = m" using assms by (simp add: driver_emits_def)
  with None show ?thesis by (rule idle)
next
  case (Some fl)
  then obtain m1 ev where e: "emitAndSweep env now k (fl_executionId fl) proto m = Inr (m1, ev)"
    using assms by (auto simp: driver_emits_def split: sum.splits)
  have same: "m1 = m1\<lparr>sm_reconciler := sm_reconciler m1\<rparr>" by simp
  have "\<exists>rs. m' = m1\<lparr>sm_reconciler := rs\<rparr>"
  proof (cases ev)
    case None
    then have "m' = m1" using assms by (simp add: driver_emits_def Some e)
    then show ?thesis using same by blast
  next
    case event: (Some event)
    consider "m' = m1" | rs where "m' = m1\<lparr>sm_reconciler := rs\<rparr>"
      using assms e [unfolded event] by (cases "ev_body event") (simp_all add: driver_emits_def Some, metis)
    then show ?thesis using same by cases blast+
  qed
  then show ?thesis using sent [OF Some e] by blast
qed

lemma driver_rejects_cases:
  assumes "driver_rejects env now k p msg m = Inr m'"
  obtains (idle) "m' = m" | (sent) x proto ev where "emitAndSweep env now k x proto m = Inr (m', ev)"
  using assms by (auto simp: driver_rejects_def split: option.splits sum.splits)

lemma shape_driver_emits:
  assumes "shape_ok m" "driver_emits env now k p proto ep m = Inr m'" shows "shape_ok m'"
  using assms(2)
proof (cases rule: driver_emits_cases)
  case (sent fl m1 ev rs)
  then show ?thesis using shape_emitAndSweep [OF assms(1) sent(2)] by simp
qed (use assms in simp)

lemma shape_driver_rejects:
  assumes "shape_ok m" "driver_rejects env now k p msg m = Inr m'" shows "shape_ok m'"
  using assms(2)
proof (cases rule: driver_rejects_cases)
  case (sent x proto ev)
  then show ?thesis by (rule shape_emitAndSweep [OF assms(1)])
qed (use assms in simp)

lemma shape_driver_finally:
  assumes ok: "shape_ok m" shows "shape_ok (driver_finally k p m)"
proof (cases "jm_get (sm_flights m) (k, p)")
  case None
  then show ?thesis using ok by (simp add: driver_finally_def)
next
  case (Some fl)
  obtain s e where s: "jm_get (sm_scopes m) k = Some s" and e: "jm_get (sc_participants s) p = Some e"
    using shape_pending [OF ok, of k p] Some by (auto simp: has_entry_def)
  let ?f = "\<lambda>e. (e\<lparr>pe_busyExecutionId := None\<rparr>)
      \<lparr>pe_runtime := (if pe_runtime e = rt_busy then rt_ready else pe_runtime e)\<rparr>"
  show ?thesis
  proof (rule shape_entry [OF ok s e, where f = ?f])
    show "sm_scopes (driver_finally k p m) = jm_set k (map_entry p ?f s) (sm_scopes m)"
      by (simp add: driver_finally_def Some sm_scopes_put [OF s])
    assume "entry_ok (sc_state s) (jm_get (sm_closing m) k) (jm_get (sm_prewarms m) (k, p) \<noteq> None)
        (jm_get (sm_flights m) (k, p)) p e"
    note settled = entry_ok_settled [OF this [unfolded Some]]
    have fields: "sm_closing (driver_finally k p m) = sm_closing m"
      "sm_prewarms (driver_finally k p m) = sm_prewarms m"
      "jm_get (sm_flights (driver_finally k p m)) (k, p) = None"
      by (simp_all add: driver_finally_def Some delete_conv')
    show "entry_ok (sc_state s) (jm_get (sm_closing (driver_finally k p m)) k)
        (jm_get (sm_prewarms (driver_finally k p m)) (k, p) \<noteq> None)
        (jm_get (sm_flights (driver_finally k p m)) (k, p)) p (?f e)"
      unfolding fields by (rule settled)
  qed (simp_all add: driver_finally_def Some delete_conv')
qed

lemma shape_scope_ack: "shape_ok m \<Longrightarrow> scope_ack k x q d c l m = Inr (m', r) \<Longrightarrow> shape_ok m'"
  by (auto simp: scope_ack_def split: sum.splits option.splits if_splits prod.splits ack_outcome.splits)

lemma shape_closeScope: "shape_ok m \<Longrightarrow> closeScope k c l m = Inr m' \<Longrightarrow> shape_ok m'"
  by (auto simp: closeScope_def intro: shape_close_begin split: sum.splits option.splits)

lemma shape_init: "shape_ok createScopeManager"
  by (simp add: shape_ok_def createScopeManager_def)

lemma shape_step:
  assumes "manager_step m m'" "shape_ok m" shows "shape_ok m'"
  using assms
proof (induction rule: manager_step.induct)
  case (ms_execute env now scopeId request ep win m m' out)
  then show ?case by (cases out) (auto intro: shape_execute)
qed (auto intro: shape_createScope shape_create_finish shape_prewarm_settled shape_activate shape_takeover
    shape_driver_emits shape_driver_rejects shape_driver_finally shape_scope_ack shape_closeScope
    shape_close_settled shape_close_finish shape_closeAll shape_creating_timer shape_idle_timer)

section \<open>Quotas\<close>

lemma sum_values_set:
  "sum_list (map (\<lambda>(_, v). f v) (jm_set k v m)) + (case jm_get m k of None \<Rightarrow> 0 | Some w \<Rightarrow> f w)
     = sum_list (map (\<lambda>(_, v). f v) m) + (f v :: nat)"
  by (induction m) auto

lemma count_values_sum: "count_values P kvs = sum_list (map (\<lambda>(_, v). of_bool (P v)) kvs)"
  by (induction kvs) (auto simp: count_values_def)

text \<open>A scope that does not become open and does not gain live entries keeps both counts.\<close>

lemma put_scope_counts:
  assumes "\<And>s. jm_get (sm_scopes m) k = Some s \<Longrightarrow>
      (open_scope (f s) \<longrightarrow> open_scope s) \<and> live_entries (f s) \<le> live_entries s"
  shows "activeScopeCount (put_scope k f m) \<le> activeScopeCount m"
    and "liveDriverProcessCount (put_scope k f m) \<le> liveDriverProcessCount m"
proof -
  have "activeScopeCount (put_scope k f m) \<le> activeScopeCount m
      \<and> liveDriverProcessCount (put_scope k f m) \<le> liveDriverProcessCount m"
  proof (cases "jm_get (sm_scopes m) k")
    case None
    then show ?thesis by (simp add: put_scope_missing)
  next
    case (Some s)
    have "of_bool (open_scope (f s)) \<le> (of_bool (open_scope s) :: nat)"
      using assms [OF Some] by (auto simp: of_bool_def)
    then show ?thesis
      using assms [OF Some] sum_values_set [of "\<lambda>s. of_bool (open_scope s)" k "f s" "sm_scopes m"]
        sum_values_set [of live_entries k "f s" "sm_scopes m"]
      unfolding activeScopeCount_def liveDriverProcessCount_def count_values_sum sm_scopes_put [OF Some] Some
        option.case by linarith
  qed
  then show "activeScopeCount (put_scope k f m) \<le> activeScopeCount m"
    "liveDriverProcessCount (put_scope k f m) \<le> liveDriverProcessCount m" by blast+
qed

lemma live_entries_map_entry:
  assumes "\<And>e. jm_get (sc_participants s) p = Some e \<Longrightarrow> live_entry (f e) \<Longrightarrow> live_entry e"
  shows "live_entries (map_entry p f s) \<le> live_entries s"
proof (cases "jm_get (sc_participants s) p")
  case None
  then show ?thesis by (simp add: map_entry_def)
next
  case (Some e)
  have "of_bool (live_entry (f e)) \<le> (of_bool (live_entry e) :: nat)"
    using assms [OF Some] by (auto simp: of_bool_def)
  then have "count_values live_entry (jm_set p (f e) (sc_participants s)) \<le> count_values live_entry (sc_participants s)"
    using sum_values_set [of "\<lambda>e. of_bool (live_entry e)" p "f e" "sc_participants s"]
    unfolding count_values_sum Some option.case by linarith
  then show ?thesis by (simp add: live_entries_def map_entry_def Some)
qed

text \<open>The counts and the executions within the Host's quotas.\<close>

definition quota_ok :: "ScopeManager \<Rightarrow> bool" where
  "quota_ok m \<longleftrightarrow>
     activeScopeCount m \<le> maxActiveScopes QUOTAS
   \<and> liveDriverProcessCount m \<le> maxDriverProcesses QUOTAS
   \<and> registry_ok (sm_executions m)
   \<and> runningCount (sm_executions m) \<le> maxConcurrentExecutions QUOTAS"

text \<open>An operation that lowers the counts and leaves the executions within the quota.\<close>

lemma quota_mono:
  "\<lbrakk>quota_ok m; activeScopeCount m' \<le> activeScopeCount m; liveDriverProcessCount m' \<le> liveDriverProcessCount m;
    registry_ok (sm_executions m') \<and> runningCount (sm_executions m') \<le> maxConcurrentExecutions QUOTAS\<rbrakk>
   \<Longrightarrow> quota_ok m'"
  by (simp add: quota_ok_def)

lemma count_fields [simp]:
  "activeScopeCount (m\<lparr>sm_executions := g\<rparr>) = activeScopeCount m"
  "activeScopeCount (m\<lparr>sm_reconciler := rs\<rparr>) = activeScopeCount m"
  "activeScopeCount (m\<lparr>sm_flights := fs\<rparr>) = activeScopeCount m"
  "activeScopeCount (m\<lparr>sm_prewarms := ps\<rparr>) = activeScopeCount m"
  "activeScopeCount (m\<lparr>sm_closing := cs\<rparr>) = activeScopeCount m"
  "activeScopeCount (m\<lparr>sm_scopeRequestIndex := ix\<rparr>) = activeScopeCount m"
  "activeScopeCount (m\<lparr>sm_scopeCreateTimestamps := ts\<rparr>) = activeScopeCount m"
  "liveDriverProcessCount (m\<lparr>sm_executions := g\<rparr>) = liveDriverProcessCount m"
  "liveDriverProcessCount (m\<lparr>sm_reconciler := rs\<rparr>) = liveDriverProcessCount m"
  "liveDriverProcessCount (m\<lparr>sm_flights := fs\<rparr>) = liveDriverProcessCount m"
  "liveDriverProcessCount (m\<lparr>sm_prewarms := ps\<rparr>) = liveDriverProcessCount m"
  "liveDriverProcessCount (m\<lparr>sm_closing := cs\<rparr>) = liveDriverProcessCount m"
  "liveDriverProcessCount (m\<lparr>sm_scopeRequestIndex := ix\<rparr>) = liveDriverProcessCount m"
  "liveDriverProcessCount (m\<lparr>sm_scopeCreateTimestamps := ts\<rparr>) = liveDriverProcessCount m"
  by (simp_all add: activeScopeCount_def liveDriverProcessCount_def)

lemma quota_fields [simp]:
  "quota_ok (m\<lparr>sm_reconciler := rs\<rparr>) = quota_ok m" "quota_ok (m\<lparr>sm_flights := fs\<rparr>) = quota_ok m"
  "quota_ok (m\<lparr>sm_prewarms := ps\<rparr>) = quota_ok m" "quota_ok (m\<lparr>sm_closing := cs\<rparr>) = quota_ok m"
  "quota_ok (m\<lparr>sm_scopeRequestIndex := ix\<rparr>) = quota_ok m"
  "quota_ok (m\<lparr>sm_scopeCreateTimestamps := ts\<rparr>) = quota_ok m"
  by (simp_all add: quota_ok_def)

lemma quota_executions:
  "quota_ok m \<Longrightarrow> registry_ok g \<and> runningCount g \<le> maxConcurrentExecutions QUOTAS \<Longrightarrow> quota_ok (m\<lparr>sm_executions := g\<rparr>)"
  by (simp add: quota_ok_def)

lemma quota_executionsD:
  "quota_ok m \<Longrightarrow> registry_ok (sm_executions m)"
  "quota_ok m \<Longrightarrow> runningCount (sm_executions m) \<le> maxConcurrentExecutions QUOTAS"
  by (simp_all add: quota_ok_def)

lemma quota_put_scope:
  assumes "quota_ok m" and "\<And>s. jm_get (sm_scopes m) k = Some s \<Longrightarrow>
      (open_scope (f s) \<longrightarrow> open_scope s) \<and> live_entries (f s) \<le> live_entries s"
  shows "quota_ok (put_scope k f m)"
  using put_scope_counts [of m k f, OF assms(2)] assms(1)
  by (auto simp: quota_ok_def intro: order_trans)

lemma quota_scheduleIdleSweep: "quota_ok m \<Longrightarrow> quota_ok (put_scope k (scheduleIdleSweep env t) m)"
  by (rule quota_put_scope) (auto simp: scheduleIdleSweep_def live_entries_def)

lemma quota_emitAndSweep:
  assumes "quota_ok m" "emitAndSweep env now k x proto m = Inr (m', ev)"
  shows "quota_ok m'"
proof -
  obtain g e where g: "emit (ck_iso now) x proto (sm_executions m) = Inr (g, e)"
    using assms(2) by (auto simp: emitAndSweep_def split: sum.splits)
  have "registry_ok g \<and> runningCount g \<le> maxConcurrentExecutions QUOTAS"
    using xs.send_within [OF quota_executionsD [OF assms(1)] g] by simp
  then have q: "quota_ok (m\<lparr>sm_executions := g\<rparr>)" using quota_executions assms(1) by blast
  show ?thesis
  proof (cases e)
    case None
    then show ?thesis using assms(2) q by (simp add: emitAndSweep_def g)
  next
    case (Some event)
    then show ?thesis using assms(2) q quota_scheduleIdleSweep [OF q]
      by (auto simp: emitAndSweep_def g Let_def split: if_splits)
  qed
qed

lemma quota_close_begin: "quota_ok m \<Longrightarrow> quota_ok (close_begin k m)"
  by (auto simp: close_begin_def live_entries_def intro!: quota_put_scope split: option.splits)

lemma quota_close_settled: "quota_ok m \<Longrightarrow> quota_ok (close_settled k p m)"
  by (auto simp: close_settled_def live_entry_def intro!: quota_put_scope live_entries_map_entry
      split: option.splits)

lemma quota_close_finish:
  assumes "quota_ok m" shows "quota_ok (close_finish k m)"
proof -
  have q: "quota_ok (put_scope k (\<lambda>s. s\<lparr>sc_state := scope_closed\<rparr>) m)"
    by (rule quota_put_scope [OF assms]) (simp add: live_entries_def)
  have r: "registry_ok (releaseScope k (sm_executions m))
      \<and> runningCount (releaseScope k (sm_executions m)) \<le> maxConcurrentExecutions QUOTAS"
    by (rule xs.drop_within [OF quota_executionsD [OF assms]])
  show ?thesis
    using assms quota_executions [OF q r] by (auto simp: close_finish_def Let_def split: option.splits list.splits)
qed

lemma quota_closeAll: "quota_ok m \<Longrightarrow> quota_ok (closeAll m)"
proof -
  have "quota_ok m \<Longrightarrow> quota_ok (fold close_begin ks m)" for ks
    by (induction ks arbitrary: m) (auto intro: quota_close_begin)
  then show "quota_ok m \<Longrightarrow> ?thesis" by (simp add: closeAll_def)
qed

lemma quota_creating_timer: "quota_ok m \<Longrightarrow> quota_ok (creating_timer_fires t k m)"
  unfolding creating_timer_fires_def
  by (auto intro!: quota_close_begin quota_put_scope simp: live_entries_def split: option.splits)

lemma quota_idle_timer: "quota_ok m \<Longrightarrow> quota_ok (idle_timer_fires env t k m)"
  unfolding idle_timer_fires_def Let_def
  by (auto intro!: quota_close_begin quota_scheduleIdleSweep quota_put_scope simp: live_entries_def
      split: option.splits)

lemma quota_prewarm_settled:
  assumes ok: "shape_ok m" and q: "quota_ok m" shows "quota_ok (prewarm_settled env k p r m)"
proof (cases "jm_get (sm_prewarms m) (k, p)")
  case None
  then show ?thesis using q by (simp add: prewarm_settled_def)
next
  case (Some i)
  have "live_entries (map_entry p (prewarm_entry env (sc_state s) i r) s) \<le> live_entries s"
    if s: "jm_get (sm_scopes m) k = Some s" for s
  proof (cases "open_scope s")
    case True
    have "live_entry e" if "jm_get (sc_participants s) p = Some e" for e
      using scope_ok_entry [OF shape_scope [OF ok s] that] True Some by (auto simp: entry_ok_def live_entry_def)
    then show ?thesis by (intro live_entries_map_entry)
  next
    case False
    then have "sc_state s = scope_closed \<or> sc_state s = scope_closing" by (cases "sc_state s") auto
    then show ?thesis by (simp add: live_entries_def)
  qed
  then have "quota_ok (put_scope k (\<lambda>s. map_entry p (prewarm_entry env (sc_state s) i r) s) m)"
    using q by (intro quota_put_scope) simp_all
  then show ?thesis by (simp add: prewarm_settled_def Some)
qed

lemma quota_create_finish: "quota_ok m \<Longrightarrow> quota_ok (create_finish k m)"
  unfolding create_finish_def
  by (rule quota_put_scope) (auto simp: live_entries_def split: if_splits)

lemma quota_activate:
  assumes "quota_ok m" "activateScope env now k c l m = Inr (m', st)" shows "quota_ok m'"
proof -
  have "quota_ok (put_scope k (activate env now) m)"
    by (rule quota_put_scope [OF assms(1)]) (auto simp: activate_def scheduleIdleSweep_def live_entries_def split: if_splits)
  then show ?thesis using assms(2) by (auto simp: activateScope_def split: sum.splits option.splits)
qed

lemma quota_takeover: "quota_ok m \<Longrightarrow> takeover k c m = Inr (m', l) \<Longrightarrow> quota_ok m'"
  by (auto simp: takeover_def live_entries_def intro!: quota_put_scope split: sum.splits if_splits)

text \<open>Creating a scope adds at most one open scope and one live process per participant.\<close>

lemma length_fresh_participants: "length (fresh_participants specs) \<le> length specs"
proof -
  have upd: "length (jm_set k v m) \<le> Suc (length m)" for k :: string and v :: ParticipantEntry and m
    by (induction m) auto
  have "length (fold (\<lambda>spec. jm_set (ps_participantId spec) (fresh_entry spec)) specs m) \<le> length m + length specs" for m
  proof (induction specs arbitrary: m)
    case (Cons spec specs)
    show ?case
      using Cons.IH [of "jm_set (ps_participantId spec) (fresh_entry spec) m"]
        upd [of "ps_participantId spec" "fresh_entry spec" m] by simp
  qed simp
  from this [of "[]"] show ?thesis by (simp add: fresh_participants_def)
qed

lemma quota_createScope:
  assumes q: "quota_ok m" and fresh: "jm_get (sm_scopes m) k = None"
  shows "quota_ok (fst (createScope env now k c request m))"
proof (cases rule: createScope_cases [of env now k c request m])
  case (refused ts)
  then show ?thesis using q by simp
next
  case (created ts)
  let ?s = "prewarm_all env (scheduleCreatingSweep env (ck_ms now) (new_scope (ck_iso now) k c request))"
  let ?m = "fst (createScope env now k c request m)"
  have scopes: "sm_scopes ?m = jm_set k ?s (sm_scopes m)" and ex: "sm_executions ?m = sm_executions m"
    by (simp_all add: created(3) Let_def)
  have "length (sc_participants ?s) \<le> length (cr_participants request)"
    using length_fresh_participants [of "cr_participants request"]
    by (simp add: prewarm_all_def scheduleCreatingSweep_def new_scope_def)
  moreover have "live_entries ?s \<le> length (sc_participants ?s)"
    by (auto simp: live_entries_def count_values_def)
  moreover have "activeScopeCount ?m \<le> activeScopeCount m + 1"
    using sum_values_set [of "\<lambda>s. of_bool (open_scope s)" k ?s "sm_scopes m"]
    by (simp add: activeScopeCount_def count_values_sum scopes fresh of_bool_def)
  moreover have "liveDriverProcessCount ?m = liveDriverProcessCount m + live_entries ?s"
    using sum_values_set [of live_entries k ?s "sm_scopes m"] by (simp add: liveDriverProcessCount_def scopes fresh)
  ultimately show ?thesis using q created(1,2) by (simp add: quota_ok_def ex)
qed

lemma quota_execute:
  assumes ok: "shape_ok m" and q: "quota_ok m" and ex: "execute env now k request ep win m = Inr (m', out, input)"
  shows "quota_ok m'"
proof -
  have begun: "quota_ok (m\<lparr>sm_executions := g\<rparr>)"
    if "execute_guard k request m = Inr e" "begin_execution (ck_iso now) (xr_executionId request)
        (xr_participantId request) k (sm_executions m) = (g, r, b)" for e g r b
  proof -
    have "runningCount (sm_executions m) < maxConcurrentExecutions QUOTAS"
      by (rule execute_guard_Inr [OF that(1)])
    from xs.start_within [OF quota_executionsD(1) [OF q] this, of "ck_iso now" "xr_executionId request"
        "xr_participantId request" k]
    show ?thesis using quota_executions [OF q] that(2) by simp
  qed
  show ?thesis
    using ex
  proof (cases rule: execute_cases)
    case (same e g r)
    then show ?thesis using begun [OF same(1,2)] by simp
  next
    case (failed_unbound e g r ev)
    show ?thesis by (rule quota_emitAndSweep [OF begun [OF failed_unbound(1,3)] failed_unbound(4)])
  next
    case (rebase e g r p1 ev1 m1 p2 ev2)
    have "quota_ok m1" by (rule quota_emitAndSweep [OF begun [OF rebase(1,2)] rebase(3)])
    then show ?thesis by (rule quota_emitAndSweep [OF _ rebase(4)])
  next
    case (started e g r binding basis prompt n)
    note startedq = begun [OF started(1,3)]
    obtain s where s: "jm_get (sm_scopes m) k = Some s"
      and e: "jm_get (sc_participants s) (xr_participantId request) = Some e" "pe_runtime e = rt_ready"
      by (rule execute_guard_Inr [OF started(1)])
    have "quota_ok (put_scope k (map_entry (xr_participantId request)
        (\<lambda>e. e\<lparr>pe_busyExecutionId := Some (xr_executionId request), pe_runtime := rt_busy\<rparr>)) (m\<lparr>sm_executions := g\<rparr>))"
      by (rule quota_put_scope [OF startedq]) (use s e in \<open>auto simp: live_entry_def intro!: live_entries_map_entry\<close>)
    then show ?thesis by (simp add: started(5))
  qed
qed

lemma quota_scope_ack:
  assumes "quota_ok m" "scope_ack k x q d c l m = Inr (m', r)" shows "quota_ok m'"
proof -
  obtain g out where g: "ack x q d (sm_executions m) = (g, out)" by fastforce
  have "registry_ok g \<and> runningCount g \<le> maxConcurrentExecutions QUOTAS"
    using xs.settle_within [OF quota_executionsD [OF assms(1)], of x q d] by (simp add: g)
  then have "quota_ok (m\<lparr>sm_executions := g\<rparr>)" using quota_executions assms(1) by blast
  moreover have "m' = m\<lparr>sm_executions := g\<rparr>"
    using assms(2) by (auto simp: scope_ack_def g split: sum.splits option.splits if_splits ack_outcome.splits)
  ultimately show ?thesis by simp
qed

lemma quota_driver_emits:
  assumes "quota_ok m" "driver_emits env now k p proto ep m = Inr m'" shows "quota_ok m'"
  using assms(2)
proof (cases rule: driver_emits_cases)
  case (sent fl m1 ev rs)
  then show ?thesis using quota_emitAndSweep [OF assms(1) sent(2)] by simp
qed (use assms in simp)

lemma quota_driver_rejects:
  assumes "quota_ok m" "driver_rejects env now k p msg m = Inr m'" shows "quota_ok m'"
  using assms(2)
proof (cases rule: driver_rejects_cases)
  case (sent x proto ev)
  then show ?thesis by (rule quota_emitAndSweep [OF assms(1)])
qed (use assms in simp)

lemma quota_driver_finally:
  assumes "quota_ok m" shows "quota_ok (driver_finally k p m)"
proof -
  have "quota_ok (put_scope k (map_entry p (\<lambda>e. (e\<lparr>pe_busyExecutionId := None\<rparr>)
      \<lparr>pe_runtime := (if pe_runtime e = rt_busy then rt_ready else pe_runtime e)\<rparr>)) m)"
    by (rule quota_put_scope [OF assms])
      (auto simp: live_entry_def intro!: live_entries_map_entry split: if_splits)
  then show ?thesis using assms by (auto simp: driver_finally_def split: option.splits)
qed

lemma quota_closeScope: "quota_ok m \<Longrightarrow> closeScope k c l m = Inr m' \<Longrightarrow> quota_ok m'"
  by (auto simp: closeScope_def intro: quota_close_begin split: sum.splits option.splits)

lemma runningCount_unfollow: "runningCount (unfollow x l g) = runningCount g"
  by (auto simp: unfollow_def runningCount_def split: option.splits)

lemma quota_init: "quota_ok createScopeManager"
  by (simp add: quota_ok_def createScopeManager_def activeScopeCount_def liveDriverProcessCount_def
      registry_ok_init count_values_def runningCount_def createExecutionRegistry_def)
    (simp add: registry_ok_init [unfolded createExecutionRegistry_def])

lemma quota_step:
  assumes "manager_step m m'" "shape_ok m" "quota_ok m" shows "quota_ok m'"
  using assms
proof (induction rule: manager_step.induct)
  case (ms_execute env now scopeId request ep win m m' out)
  then show ?case by (cases out) (auto intro: quota_execute)
next
  case (ms_follow l m x a g)
  then show ?case
    using follow_ok [OF quota_executionsD(1) ms_follow(1,2)] runningCount_follow [OF ms_follow(2)]
      quota_executionsD(2) [OF ms_follow(4)] by (intro quota_executions) simp_all
next
  case (ms_unfollow m x l)
  then show ?case
    using unfollow_ok [OF quota_executionsD(1)] quota_executionsD(2) [OF ms_unfollow(2)]
    by (intro quota_executions) (simp_all add: runningCount_unfollow)
qed (auto intro: quota_createScope quota_create_finish quota_prewarm_settled quota_activate quota_takeover
    quota_driver_emits quota_driver_rejects quota_driver_finally quota_scope_ack quota_closeScope
    quota_close_settled quota_close_finish quota_closeAll quota_creating_timer quota_idle_timer)

lemma manager_invariant: "manager_reachable m \<Longrightarrow> shape_ok m \<and> quota_ok m"
  by (induction rule: manager_reachable.induct) (auto intro: shape_init quota_init shape_step quota_step)

end
