(* ===== verification/Scope_Properties.thy ===== *)
theory Scope_Properties
  imports Scope_Manager
begin

text \<open>
  What holds of the scope manager in every reachable state, whatever the order of calls and of
  settling promises: the quotas, the controller lease, one execution per participant, the reapers,
  and that a closed scope keeps nothing alive.
\<close>

section \<open>Relations every step keeps\<close>

text \<open>
  The interface of the steps to a proof about single scopes: a preorder on scopes that contains
  what each operation does to a scope object relates every scope before a step to itself after it.
  Marking a scope closed is left apart (\<open>step\<close>), for relations that do not allow it.
\<close>

locale scope_relation =
  fixes R :: "Scope \<Rightarrow> Scope \<Rightarrow> bool"
  assumes refl: "R s s"
    and trans: "R s t \<Longrightarrow> R t u \<Longrightarrow> R s u"
    and on_entry: "R s (map_entry p f s)"
    and on_sweep: "R s (scheduleIdleSweep env now s)"
    and on_creating_clear: "R s (s\<lparr>sc_creatingTimer := None\<rparr>)"
    and on_idle_clear: "R s (s\<lparr>sc_idleTimer := None\<rparr>)"
    and on_closing: "sc_state s \<noteq> scope_closed \<Longrightarrow> sc_state s \<noteq> scope_closing \<Longrightarrow>
        R s (s\<lparr>sc_state := scope_closing, sc_creatingTimer := None, sc_idleTimer := None\<rparr>)"
    and on_activate: "R s (activate env clk s)"
    and on_takeover: "R s (s\<lparr>sc_controllerId := c, sc_leaseEpoch := sc_leaseEpoch s + 1\<rparr>)"
    and on_teardown: "R s (s\<lparr>sc_participants := map (\<lambda>(p, e). (p, teardown_entry e)) (sc_participants s)\<rparr>)"
begin

definition all_related :: "ScopeManager \<Rightarrow> ScopeManager \<Rightarrow> bool" where
  "all_related m m' \<longleftrightarrow>
     (\<forall>k s. jm_get (sm_scopes m) k = Some s \<longrightarrow> (\<exists>s'. jm_get (sm_scopes m') k = Some s' \<and> R s s'))"

lemma same: "sm_scopes m' = sm_scopes m \<Longrightarrow> all_related m m'"
  by (simp add: all_related_def refl)

lemma all_trans: "all_related m m1 \<Longrightarrow> all_related m1 m2 \<Longrightarrow> all_related m m2"
  by (meson all_related_def trans)

lemma put: "(\<And>s. jm_get (sm_scopes m) k = Some s \<Longrightarrow> R s (f s)) \<Longrightarrow> all_related m (put_scope k f m)"
  by (auto simp: all_related_def get_put_scope refl)

lemma fields [simp]:
  "all_related (m\<lparr>sm_executions := g\<rparr>) m' = all_related m m'"
  "all_related m (m'\<lparr>sm_executions := g\<rparr>) = all_related m m'"
  "all_related m (m'\<lparr>sm_reconciler := rs\<rparr>) = all_related m m'"
  "all_related m (m'\<lparr>sm_flights := fs\<rparr>) = all_related m m'"
  "all_related m (m'\<lparr>sm_prewarms := ps\<rparr>) = all_related m m'"
  "all_related m (m'\<lparr>sm_closing := cs\<rparr>) = all_related m m'"
  "all_related m (m'\<lparr>sm_scopeRequestIndex := ix\<rparr>) = all_related m m'"
  "all_related m (m'\<lparr>sm_scopeCreateTimestamps := ts\<rparr>) = all_related m m'"
  by (simp_all add: all_related_def)

lemma emits:
  assumes "emitAndSweep env now k x proto m = Inr (m', ev)" shows "all_related m m'"
proof -
  have "all_related m (put_scope k (scheduleIdleSweep env t) (m\<lparr>sm_executions := g\<rparr>))" for t g
    using put [of "m\<lparr>sm_executions := g\<rparr>" k "scheduleIdleSweep env t"] on_sweep by simp
  then show ?thesis
    using assms by (auto simp: emitAndSweep_def Let_def same split: sum.splits option.splits if_splits)
qed

lemma closing: "all_related m (close_begin k m)"
  by (auto simp: close_begin_def same on_closing intro!: put split: option.splits)

lemma closing_all: "all_related m (closeAll m)"
proof -
  have "all_related m (fold close_begin ks m)" for ks
  proof (induction ks arbitrary: m)
    case (Cons k ks)
    then show ?case using all_trans [OF closing Cons.IH] by simp
  qed (simp add: same)
  then show ?thesis by (simp add: closeAll_def)
qed

lemma timers: "all_related m (creating_timer_fires t k m)" "all_related m (idle_timer_fires env t k m)"
proof -
  have one: "all_related m (put_scope k f m)" if "\<And>s. R s (f s)" for f
    using that by (intro put)
  have clear: "all_related m (close_begin k (put_scope k f m))" if "\<And>s. R s (f s)" for f
    using all_trans [OF one [OF that] closing] .
  have twice: "all_related m (put_scope k g (put_scope k f m))"
    if "\<And>s. R s (f s)" "\<And>s. R s (g s)" for f g
    using that by (intro all_trans [OF one put]) simp_all
  show "all_related m (creating_timer_fires t k m)"
    by (auto simp: creating_timer_fires_def same on_creating_clear intro!: one clear split: option.splits)
  show "all_related m (idle_timer_fires env t k m)"
    by (auto simp: idle_timer_fires_def Let_def same on_idle_clear on_sweep intro!: one clear twice
        split: option.splits)
qed

lemma executes:
  assumes "execute env now k request ep win m = Inr (m', out, input)"
  shows "all_related m m'"
  using assms
proof (cases rule: execute_cases)
  case (failed_unbound e g r ev)
  then show ?thesis using emits [OF failed_unbound(4)] by simp
next
  case (rebase e g r p1 ev1 m1 p2 ev2)
  then show ?thesis using all_trans [OF emits [OF rebase(3)] emits [OF rebase(4)]] by simp
next
  case (started e g r binding basis prompt n)
  show ?thesis
    using put [of "m\<lparr>sm_executions := g\<rparr>" k "map_entry (xr_participantId request)
        (\<lambda>e. e\<lparr>pe_busyExecutionId := Some (xr_executionId request), pe_runtime := rt_busy\<rparr>)"] on_entry
    by (simp add: started(5))
qed (simp add: same)

lemma step: "manager_step m m' \<Longrightarrow> all_related m m' \<or> (\<exists>k. m' = close_finish k m)"
proof (induction rule: manager_step.induct)
  case (ms_create m scopeId env now controllerId request)
  then show ?case
    by (cases rule: createScope_cases [of env now scopeId controllerId request m])
      (auto simp: all_related_def Let_def update_conv' refl)
next
  case (ms_activate env now scopeId c l m m' st)
  have "all_related m (put_scope scopeId (activate env now) m)" by (intro put on_activate)
  then show ?case using ms_activate by (auto simp: activateScope_def split: sum.splits option.splits)
next
  case (ms_takeover scopeId c m m' l)
  then show ?case by (auto simp: takeover_def on_takeover [simplified] intro!: put split: sum.splits if_splits)
next
  case (ms_execute env now scopeId request ep win m m' out)
  then show ?case by (cases out) (auto intro: executes)
next
  case (ms_emit env now scopeId p proto ep m m')
  then show ?case
  proof (cases rule: driver_emits_cases)
    case (sent fl m1 ev rs)
    then show ?thesis using emits [OF sent(2)] by simp
  qed (simp add: same)
next
  case (ms_reject env now scopeId p msg m m')
  then show ?case by (cases rule: driver_rejects_cases) (auto intro: emits same)
next
  case (ms_ack scopeId x q d c l m m' r)
  then show ?case
    by (auto simp: scope_ack_def same split: sum.splits option.splits if_splits prod.splits ack_outcome.splits)
next
  case (ms_close scopeId c l m m')
  then show ?case by (auto simp: closeScope_def intro: closing split: sum.splits option.splits)
next
  case (ms_create_finish m scopeId)
  show ?case unfolding create_finish_def by (intro disjI1 put) (simp add: refl on_teardown)
next
  case (ms_prewarm m env scopeId p result)
  show ?case by (auto simp: prewarm_settled_def same on_entry split: option.splits intro!: put)
next
  case (ms_finally m scopeId p)
  show ?case unfolding driver_finally_def by (auto simp: same on_entry split: option.splits intro!: put)
next
  case (ms_close_settled m scopeId p)
  show ?case unfolding close_settled_def by (auto simp: same on_entry split: option.splits intro!: put)
qed (auto simp: closing_all timers same)

end

section \<open>How a scope evolves\<close>

fun state_rank :: "ScopeState \<Rightarrow> nat" where
  "state_rank scope_creating = 0"
| "state_rank scope_active = 1"
| "state_rank scope_closing = 2"
| "state_rank scope_closed = 3"

lemma state_rank_le_closed: "state_rank st \<le> 3"
  by (cases st) simp_all

text \<open>The lease never goes back, keeps its controller while it stands, and states only advance.\<close>

definition evolves :: "Scope \<Rightarrow> Scope \<Rightarrow> bool" where
  "evolves s s' \<longleftrightarrow> state_rank (sc_state s) \<le> state_rank (sc_state s')
     \<and> sc_leaseEpoch s \<le> sc_leaseEpoch s'
     \<and> (sc_leaseEpoch s' = sc_leaseEpoch s \<longrightarrow> sc_controllerId s' = sc_controllerId s)"

text \<open>A scope keeps its participants and does not become closed.\<close>

definition stays :: "Scope \<Rightarrow> Scope \<Rightarrow> bool" where
  "stays s s' \<longleftrightarrow> (sc_state s' = scope_closed \<longrightarrow> sc_state s = scope_closed)
     \<and> (\<forall>p. jm_get (sc_participants s) p \<noteq> None \<longrightarrow> jm_get (sc_participants s') p \<noteq> None)"

interpretation ev: scope_relation evolves
proof
  fix s :: Scope
  show "sc_state s \<noteq> scope_closed \<Longrightarrow> sc_state s \<noteq> scope_closing \<Longrightarrow>
      evolves s (s\<lparr>sc_state := scope_closing, sc_creatingTimer := None, sc_idleTimer := None\<rparr>)"
    by (cases "sc_state s") (simp_all add: evolves_def)
  show "evolves s t \<Longrightarrow> evolves t u \<Longrightarrow> evolves s u" for t u
    by (auto simp: evolves_def)
qed (simp_all add: evolves_def scheduleIdleSweep_def activate_def)

interpretation st: scope_relation stays
proof
  fix s :: Scope
  show "stays s (s\<lparr>sc_participants := map (\<lambda>(p, e). (p, teardown_entry e)) (sc_participants s)\<rparr>)"
    by (simp add: stays_def get_map_values)
  show "stays s t \<Longrightarrow> stays t u \<Longrightarrow> stays s u" for t u
    by (auto simp: stays_def)
qed (simp_all add: stays_def get_map_entry scheduleIdleSweep_def activate_def)

lemma evolves_step: "manager_step m m' \<Longrightarrow> ev.all_related m m'"
proof (drule ev.step, elim disjE exE)
  fix k assume m': "m' = close_finish k m"
  have "evolves s (s\<lparr>sc_state := scope_closed\<rparr>)" for s
    by (simp add: evolves_def state_rank_le_closed)
  then show "ev.all_related m m'"
    unfolding m' close_finish_def Let_def
    by (auto simp: ev.same intro!: ev.put split: option.splits list.splits)
qed

lemma evolves_steps: "manager_step\<^sup>*\<^sup>* m m' \<Longrightarrow> ev.all_related m m'"
  by (induction rule: rtranclp_induct) (auto intro: ev.same ev.all_trans evolves_step)

section \<open>Executions belong to scopes that are not closed\<close>

definition records_ok :: "ScopeManager \<Rightarrow> bool" where
  "records_ok m \<longleftrightarrow>
     (\<forall>x r. jm_get (rg_records (sm_executions m)) x = Some r \<longrightarrow>
        (\<exists>s. jm_get (sm_scopes m) (er_scopeId r) = Some s \<and> sc_state s \<noteq> scope_closed
           \<and> jm_get (sc_participants s) (er_participantId r) \<noteq> None))"

text \<open>Every record of \<open>g'\<close> belongs to the scope and participant of a record of \<open>g\<close>.\<close>

definition same_owners :: "Registry \<Rightarrow> Registry \<Rightarrow> bool" where
  "same_owners g g' \<longleftrightarrow>
     (\<forall>x r'. jm_get (rg_records g') x = Some r' \<longrightarrow>
        (\<exists>y r. jm_get (rg_records g) y = Some r \<and> er_scopeId r = er_scopeId r' \<and> er_participantId r = er_participantId r'))"

lemma same_owners_refl [simp]: "same_owners g g"
  by (auto simp: same_owners_def)

lemma same_owners_put:
  "jm_get (rg_records g) x = Some r \<Longrightarrow> er_scopeId r' = er_scopeId r \<Longrightarrow> er_participantId r' = er_participantId r
     \<Longrightarrow> rg_records g' = jm_set x r' (rg_records g) \<Longrightarrow> same_owners g g'"
  by (auto simp: same_owners_def update_conv' split: if_splits)

lemma same_owners_emit:
  assumes "registry_ok g" "emit now x proto g = Inr (g', ev)" shows "same_owners g g'"
proof (cases "\<exists>r. jm_get (rg_records g) x = Some r \<and> er_terminal r = None \<and> \<not> er_tombstone r")
  case False
  then have "g' = g"
    using emit_closed [of g x now proto] assms(2) by (cases "jm_get (rg_records g) x") auto
  then show ?thesis by simp
next
  case True
  then obtain r where r: "jm_get (rg_records g) x = Some r" "er_terminal r = None" by blast
  obtain r' where "emit now x proto g = Inr (notify x (emitted_event now r x proto) (put_record x r' g),
      Some (emitted_event now r x proto))" "er_scopeId r' = er_scopeId r" "er_participantId r' = er_participantId r"
    by (rule emit_open [OF r(1) registry_ok_record [OF assms(1) r(1)] r(2)])
  then show ?thesis
    using assms(2) by (intro same_owners_put [OF r(1)]) (auto simp: notify_def put_record_def split: option.splits)
qed

lemma same_owners_ack: "registry_ok g \<Longrightarrow> same_owners g (fst (ack x q d g))"
proof (cases rule: ack_cases [of x q d g])
  case (released r t)
  show ?thesis unfolding released(6) by (rule same_owners_put [OF released(1)]) (simp_all add: put_record_def)
qed simp

lemma records_ok_transfer:
  assumes "records_ok m" "st.all_related m m'" "same_owners (sm_executions m) (sm_executions m')"
  shows "records_ok m'"
  unfolding records_ok_def
proof (intro allI impI)
  fix x r' assume "jm_get (rg_records (sm_executions m')) x = Some r'"
  then obtain y r where "jm_get (rg_records (sm_executions m)) y = Some r" and own: "er_scopeId r = er_scopeId r'"
      "er_participantId r = er_participantId r'"
    using assms(3) unfolding same_owners_def by blast
  then obtain s where s: "jm_get (sm_scopes m) (er_scopeId r) = Some s" "sc_state s \<noteq> scope_closed"
      "jm_get (sc_participants s) (er_participantId r) \<noteq> None"
    using assms(1) unfolding records_ok_def by blast
  obtain s' where "jm_get (sm_scopes m') (er_scopeId r) = Some s'" "stays s s'"
    using assms(2) s(1) unfolding st.all_related_def by blast
  then show "\<exists>s. jm_get (sm_scopes m') (er_scopeId r') = Some s \<and> sc_state s \<noteq> scope_closed
      \<and> jm_get (sc_participants s) (er_participantId r') \<noteq> None"
    using s unfolding own stays_def by blast
qed

lemma emitAndSweep_emit:
  assumes "emitAndSweep env now k x proto m = Inr (m', ev)"
  shows "emit (ck_iso now) x proto (sm_executions m) = Inr (sm_executions m', ev)"
  using assms by (auto simp: emitAndSweep_def Let_def split: sum.splits option.splits if_splits)

lemma sm_executions_emit:
  assumes "registry_ok (sm_executions m)" "emitAndSweep env now k x proto m = Inr (m', ev)"
  shows "same_owners (sm_executions m) (sm_executions m')" "registry_ok (sm_executions m')"
  using same_owners_emit [OF assms(1) emitAndSweep_emit [OF assms(2)]]
    emit_ok [OF assms(1) emitAndSweep_emit [OF assms(2)]] by blast+

lemma sm_executions_close [simp]:
  "sm_executions (close_begin k m) = sm_executions m" "sm_executions (closeAll m) = sm_executions m"
proof -
  show one: "sm_executions (close_begin k m) = sm_executions m" for k m
    by (auto simp: close_begin_def split: option.splits)
  have "sm_executions (fold close_begin ks m) = sm_executions m" for ks
    by (induction ks arbitrary: m) (simp_all add: one)
  then show "sm_executions (closeAll m) = sm_executions m" by (simp add: closeAll_def)
qed

lemma sm_executions_createScope [simp]: "sm_executions (fst (createScope env now k c request m)) = sm_executions m"
  by (cases rule: createScope_cases [of env now k c request m]) (simp_all add: Let_def)

lemma sm_executions_timers [simp]:
  "sm_executions (creating_timer_fires t k m) = sm_executions m"
  "sm_executions (idle_timer_fires env t k m) = sm_executions m"
  by (simp_all add: creating_timer_fires_def idle_timer_fires_def Let_def split: option.splits)

lemma sm_executions_others [simp]:
  "sm_executions (prewarm_settled env k p r m) = sm_executions m"
  "sm_executions (driver_finally k p m) = sm_executions m"
  "sm_executions (close_settled k p m) = sm_executions m"
  "sm_executions (create_finish k m) = sm_executions m"
  by (simp_all add: prewarm_settled_def driver_finally_def close_settled_def create_finish_def split: option.splits)

text \<open>\<open>execute\<close> may add one record, of its own scope and participant.\<close>

lemma records_ok_execute:
  assumes rec: "records_ok m" and q: "quota_ok m"
    and ex: "execute env now k request ep win m = Inr (m', out, input)"
  shows "records_ok m'"
proof -
  have begun: "records_ok (m\<lparr>sm_executions := g\<rparr>) \<and> registry_ok g"
    if guard: "execute_guard k request m = Inr e"
      and b: "begin_execution (ck_iso now) (xr_executionId request) (xr_participantId request) k (sm_executions m) = (g, r, b)"
    for e g r b
  proof -
    obtain s where s: "jm_get (sm_scopes m) k = Some s" "sc_state s = scope_active"
      "jm_get (sc_participants s) (xr_participantId request) = Some e"
      by (rule execute_guard_Inr [OF guard])
    show ?thesis
      using rec s b begin_execution_ok [OF quota_executionsD(1) [OF q], of "ck_iso now" "xr_executionId request"
          "xr_participantId request" k]
      by (auto simp: records_ok_def begin_execution_def put_record_def update_conv' Let_def split: option.splits if_splits)
  qed
  have sent: "records_ok m2 \<and> registry_ok (sm_executions m2)"
    if "records_ok m1" "registry_ok (sm_executions m1)" "emitAndSweep env now k x proto m1 = Inr (m2, ev)" for m1 m2 x proto ev
    using records_ok_transfer [OF that(1) st.emits [OF that(3)] sm_executions_emit(1) [OF that(2,3)]]
      sm_executions_emit(2) [OF that(2,3)] by blast
  show ?thesis
    using ex
  proof (cases rule: execute_cases)
    case (same e g r)
    then show ?thesis using begun [OF same(1,2)] by simp
  next
    case (failed_unbound e g r ev)
    then show ?thesis using sent [of "m\<lparr>sm_executions := g\<rparr>"] begun [OF failed_unbound(1,3)] by simp
  next
    case (rebase e g r p1 ev1 m1 p2 ev2)
    then show ?thesis
      using sent [of "m\<lparr>sm_executions := g\<rparr>" _ p1 m1 ev1] begun [OF rebase(1,2)] sent [of m1 _ p2 m' ev2] by simp
  next
    case (started e g r binding basis prompt n)
    have "st.all_related (m\<lparr>sm_executions := g\<rparr>) m'"
      using st.put [of "m\<lparr>sm_executions := g\<rparr>" k "map_entry (xr_participantId request)
        (\<lambda>e. e\<lparr>pe_busyExecutionId := Some (xr_executionId request), pe_runtime := rt_busy\<rparr>)"] st.on_entry
      by (simp add: started(5))
    moreover have "sm_executions m' = g" by (simp add: started(5))
    ultimately show ?thesis
      using records_ok_transfer [of "m\<lparr>sm_executions := g\<rparr>" m'] begun [OF started(1,3)] by simp
  qed
qed

lemma records_ok_close_finish:
  assumes rec: "records_ok m" and ok: "shape_ok m" and q: "quota_ok m"
  shows "records_ok (close_finish k m)"
proof (cases "jm_get (sm_closing m) k = Some []")
  case True
  have ex: "sm_executions (close_finish k m) = releaseScope k (sm_executions m)"
    and sc: "sm_scopes (close_finish k m) = sm_scopes (put_scope k (\<lambda>s. s\<lparr>sc_state := scope_closed\<rparr>) m)"
    by (simp_all add: close_finish_def True Let_def)
  show ?thesis
    using rec unfolding records_ok_def ex sc
    by (auto simp: releaseScope_records [OF quota_executionsD(1) [OF q]] get_put_scope split: option.splits if_splits)
next
  case False
  then have "close_finish k m = m" by (auto simp: close_finish_def split: option.splits list.splits)
  then show ?thesis using rec by simp
qed

text \<open>Apart from \<open>execute\<close>, no step adds a record.\<close>

lemma owners_step:
  assumes "manager_step m m'" "quota_ok m"
  shows "same_owners (sm_executions m) (sm_executions m')
     \<or> (\<exists>env now k request ep win out. execute env now k request ep win m = Inr (m', out))"
  using assms
proof (induction rule: manager_step.induct)
  case (ms_close_finish m scopeId)
  have "same_owners (sm_executions m) (releaseScope scopeId (sm_executions m))"
    by (auto simp: same_owners_def releaseScope_records [OF quota_executionsD(1) [OF ms_close_finish]]
        split: option.splits if_splits)
  then show ?case by (auto simp: close_finish_def Let_def split: option.splits list.splits)
next
  case (ms_emit env now scopeId p proto ep m m')
  from ms_emit(1) show ?case
  proof (cases rule: driver_emits_cases)
    case (sent fl m1 ev rs)
    then show ?thesis using sm_executions_emit(1) [OF quota_executionsD(1) [OF ms_emit(2)] sent(2)] by simp
  qed simp
next
  case (ms_reject env now scopeId p msg m m')
  from ms_reject(1) show ?case
  proof (cases rule: driver_rejects_cases)
    case (sent x proto ev)
    then show ?thesis using sm_executions_emit(1) [OF quota_executionsD(1) [OF ms_reject(2)] sent] by simp
  qed simp
next
  case (ms_ack scopeId x q d c l m m' r)
  have "m' = m\<lparr>sm_executions := fst (ack x q d (sm_executions m))\<rparr>"
    using ms_ack(1) by (auto simp: scope_ack_def split: sum.splits option.splits if_splits prod.splits ack_outcome.splits)
  then show ?case using same_owners_ack [OF quota_executionsD(1) [OF ms_ack(2)]] by simp
next
  case (ms_follow l m x a g)
  have "rg_records g = rg_records (sm_executions m)"
    using ms_follow(2) by (auto simp: follow_def Let_def split: option.splits if_splits)
  then show ?case by (auto simp: same_owners_def)
next
  case (ms_unfollow m x l)
  have "rg_records (unfollow x l (sm_executions m)) = rg_records (sm_executions m)"
    by (auto simp: unfollow_def split: option.splits)
  then show ?case by (auto simp: same_owners_def)
next
  case (ms_activate env now scopeId c l m m' st)
  then show ?case by (auto simp: activateScope_def split: sum.splits option.splits)
next
  case (ms_takeover scopeId c m m' l)
  then show ?case by (auto simp: takeover_def split: sum.splits if_splits)
next
  case (ms_close scopeId c l m m')
  then show ?case by (auto simp: closeScope_def split: sum.splits option.splits)
qed auto

lemma records_ok_step:
  assumes "manager_step m m'" "records_ok m" "shape_ok m" "quota_ok m" shows "records_ok m'"
  using owners_step [OF assms(1,4)]
proof (elim disjE exE)
  assume own: "same_owners (sm_executions m) (sm_executions m')"
  from st.step [OF assms(1)] show ?thesis
  proof (elim disjE exE)
    assume "st.all_related m m'"
    then show ?thesis using records_ok_transfer [OF assms(2) _ own] by blast
  next
    fix k assume "m' = close_finish k m"
    then show ?thesis using records_ok_close_finish [OF assms(2-4)] by simp
  qed
next
  fix env now k request ep win out
  assume "execute env now k request ep win m = Inr (m', out)"
  then show ?thesis using records_ok_execute [OF assms(2,4)] by (cases out) auto
qed

section \<open>Every open scope has its reaper\<close>

definition armed :: "Scope \<Rightarrow> bool" where
  "armed s \<longleftrightarrow> (sc_state s = scope_active \<longrightarrow> sc_idleTimer s \<noteq> None)
     \<and> (sc_state s = scope_creating \<longrightarrow> sc_creatingTimer s \<noteq> None)"

definition all_armed :: "ScopeManager \<Rightarrow> bool" where
  "all_armed m \<longleftrightarrow> (\<forall>k s. jm_get (sm_scopes m) k = Some s \<longrightarrow> armed s)"

lemma armed_put:
  "all_armed m \<Longrightarrow> (\<And>s. jm_get (sm_scopes m) k = Some s \<Longrightarrow> armed s \<Longrightarrow> armed (f s)) \<Longrightarrow> all_armed (put_scope k f m)"
  by (auto simp: all_armed_def get_put_scope)

lemma armed_fields [simp]:
  "all_armed (m\<lparr>sm_executions := g\<rparr>) = all_armed m" "all_armed (m\<lparr>sm_reconciler := rs\<rparr>) = all_armed m"
  "all_armed (m\<lparr>sm_flights := fs\<rparr>) = all_armed m" "all_armed (m\<lparr>sm_prewarms := ps\<rparr>) = all_armed m"
  "all_armed (m\<lparr>sm_closing := cs\<rparr>) = all_armed m" "all_armed (m\<lparr>sm_scopeRequestIndex := ix\<rparr>) = all_armed m"
  "all_armed (m\<lparr>sm_scopeCreateTimestamps := ts\<rparr>) = all_armed m"
  by (simp_all add: all_armed_def)

lemma armed_simps [simp]:
  "armed (map_entry p f s) = armed s" "armed s \<Longrightarrow> armed (scheduleIdleSweep env t s)"
  by (auto simp: armed_def scheduleIdleSweep_def)

lemma armed_sweep: "armed (scheduleIdleSweep env t s) \<longleftrightarrow> (sc_state s = scope_creating \<longrightarrow> sc_creatingTimer s \<noteq> None)"
  by (auto simp: armed_def scheduleIdleSweep_def)

lemma armed_emits: "all_armed m \<Longrightarrow> emitAndSweep env now k x proto m = Inr (m', ev) \<Longrightarrow> all_armed m'"
  by (auto simp: emitAndSweep_def Let_def intro!: armed_put split: sum.splits option.splits if_splits)

text \<open>Closing needs nothing of the scope it closes.\<close>

lemma armed_close_begin:
  assumes "\<And>k' s. k' \<noteq> k \<Longrightarrow> jm_get (sm_scopes m) k' = Some s \<Longrightarrow> armed s"
    and "\<And>s. jm_get (sm_scopes m) k = Some s \<Longrightarrow> \<not> open_scope s \<Longrightarrow> armed s"
  shows "all_armed (close_begin k m)"
proof (cases "jm_get (sm_scopes m) k")
  case (Some s)
  show ?thesis
    unfolding all_armed_def
  proof (intro allI impI)
    fix k' s' assume s': "jm_get (sm_scopes (close_begin k m)) k' = Some s'"
    show "armed s'"
    proof (cases "k' = k")
      case True
      then show ?thesis using s' assms(2) [OF Some] Some
        by (auto simp: close_begin_def get_put_scope armed_def split: if_splits)
    next
      case False
      then have "jm_get (sm_scopes m) k' = Some s'"
        using s' by (simp add: close_begin_def Some get_put_scope split: if_splits)
      then show ?thesis by (rule assms(1) [OF False])
    qed
  qed
next
  case None
  then have "close_begin k m = m" by (simp add: close_begin_def)
  moreover have "armed s" if "jm_get (sm_scopes m) k' = Some s" for k' s
    using assms(1) [of k' s] that None by (cases "k' = k") simp_all
  ultimately show ?thesis by (simp add: all_armed_def)
qed

lemma armed_close: "all_armed m \<Longrightarrow> all_armed (close_begin k m)"
  by (rule armed_close_begin) (auto simp: all_armed_def)

lemma armed_closeAll: "all_armed m \<Longrightarrow> all_armed (closeAll m)"
proof -
  have "all_armed m \<Longrightarrow> all_armed (fold close_begin ks m)" for ks
    by (induction ks arbitrary: m) (auto intro: armed_close)
  then show "all_armed m \<Longrightarrow> ?thesis" by (simp add: closeAll_def)
qed

lemma armed_timers:
  assumes "all_armed m" "shape_ok m"
  shows "all_armed (creating_timer_fires t k m)" "all_armed (idle_timer_fires env t k m)"
proof -
  have clear: "all_armed (close_begin k (put_scope k f m))" if "\<And>s. armed s \<Longrightarrow> \<not> open_scope (f s) \<Longrightarrow> armed (f s)" for f
    using assms(1) that by (intro armed_close_begin) (auto simp: all_armed_def get_put_scope)
  show "all_armed (creating_timer_fires t k m)"
  proof (cases "jm_get (sm_scopes m) k")
    case (Some s)
    have "sc_creatingTimer s \<noteq> None \<Longrightarrow> sc_state s = scope_creating"
      using scope_ok_creating [OF shape_scope [OF assms(2) Some]] .
    then show ?thesis using assms(1)
      by (auto simp: creating_timer_fires_def Some armed_def intro!: clear split: option.splits)
  qed (simp add: creating_timer_fires_def assms)
  show "all_armed (idle_timer_fires env t k m)"
  proof (cases "jm_get (sm_scopes m) k")
    case (Some s)
    have active: "sc_idleTimer s \<noteq> None \<Longrightarrow> sc_state s = scope_active"
      using scope_ok_idle [OF shape_scope [OF assms(2) Some]] .
    have rearm: "all_armed (put_scope k (scheduleIdleSweep env t) (put_scope k (\<lambda>s. s\<lparr>sc_idleTimer := None\<rparr>) m))"
      using assms(1) by (auto simp: all_armed_def get_put_scope armed_sweep) (auto simp: armed_def)
    show ?thesis using assms(1) active rearm
      by (auto simp: idle_timer_fires_def Some Let_def armed_def intro!: clear split: option.splits)
  qed (simp add: idle_timer_fires_def assms)
qed

lemma armed_execute:
  assumes "all_armed m" "execute env now k request ep win m = Inr (m', out, input)"
  shows "all_armed m'"
  using assms(2)
proof (cases rule: execute_cases)
  case (failed_unbound e g r ev)
  then show ?thesis using armed_emits [OF _ failed_unbound(4)] assms(1) by simp
next
  case (rebase e g r p1 ev1 m1 p2 ev2)
  then show ?thesis using armed_emits [OF armed_emits [OF _ rebase(3)] rebase(4)] assms(1) by simp
next
  case (started e g r binding basis prompt n)
  have "all_armed (put_scope k (map_entry (xr_participantId request)
      (\<lambda>e. e\<lparr>pe_busyExecutionId := Some (xr_executionId request), pe_runtime := rt_busy\<rparr>)) (m\<lparr>sm_executions := g\<rparr>))"
    by (rule armed_put) (use assms(1) in simp_all)
  then show ?thesis by (simp add: started(5))
qed (use assms(1) in simp)

lemma armed_step:
  assumes "manager_step m m'" "all_armed m" "shape_ok m" shows "all_armed m'"
  using assms
proof (induction rule: manager_step.induct)
  case (ms_create m scopeId env now controllerId request)
  have "armed (prewarm_all env (scheduleCreatingSweep env (ck_ms now) (new_scope (ck_iso now) scopeId controllerId request)))"
    by (simp add: armed_def prewarm_all_def scheduleCreatingSweep_def new_scope_def)
  then show ?case using ms_create(2)
    by (cases rule: createScope_cases [of env now scopeId controllerId request m])
      (auto simp: all_armed_def Let_def update_conv' split: if_splits)
next
  case (ms_activate env now scopeId c l m m' st)
  have "all_armed (put_scope scopeId (activate env now) m)"
    by (rule armed_put [OF ms_activate(2)]) (auto simp: activate_def scheduleIdleSweep_def armed_def)
  then show ?case using ms_activate(1) by (auto simp: activateScope_def split: sum.splits option.splits)
next
  case (ms_takeover scopeId c m m' l)
  have "all_armed (put_scope scopeId
      (\<lambda>s. s\<lparr>sc_controllerId := c, sc_leaseEpoch := sc_leaseEpoch s + 1\<rparr>) m)"
    by (rule armed_put [OF ms_takeover(2)]) (auto simp: armed_def)
  then show ?case using ms_takeover(1) by (auto simp: takeover_def split: sum.splits if_splits)
next
  case (ms_execute env now scopeId request ep win m m' out)
  then show ?case by (cases out) (auto intro: armed_execute)
next
  case (ms_emit env now scopeId p proto ep m m')
  from ms_emit(1) show ?case
  proof (cases rule: driver_emits_cases)
    case (sent fl m1 ev rs)
    then show ?thesis using armed_emits [OF ms_emit(2) sent(2)] by simp
  qed (use ms_emit in simp)
next
  case (ms_reject env now scopeId p msg m m')
  from ms_reject(1) show ?case
  proof (cases rule: driver_rejects_cases)
    case (sent x proto ev)
    then show ?thesis using armed_emits [OF ms_reject(2) sent] by simp
  qed (use ms_reject in simp)
next
  case (ms_ack scopeId x q d c l m m' r)
  then show ?case
    by (auto simp: scope_ack_def split: sum.splits option.splits if_splits prod.splits ack_outcome.splits)
next
  case (ms_close scopeId c l m m')
  then show ?case by (auto simp: closeScope_def intro: armed_close split: sum.splits option.splits)
next
  case (ms_create_finish m scopeId)
  show ?case unfolding create_finish_def
    by (rule armed_put [OF ms_create_finish(1)]) (auto simp: armed_def)
next
  case (ms_prewarm m env scopeId p result)
  then show ?case by (auto simp: prewarm_settled_def split: option.splits intro!: armed_put)
next
  case (ms_finally m scopeId p)
  then show ?case unfolding driver_finally_def by (auto split: option.splits intro!: armed_put)
next
  case (ms_close_settled m scopeId p)
  then show ?case unfolding close_settled_def by (auto split: option.splits intro!: armed_put)
next
  case (ms_close_finish m scopeId)
  have "all_armed (put_scope scopeId (\<lambda>s. s\<lparr>sc_state := scope_closed\<rparr>) m)"
    by (rule armed_put [OF ms_close_finish(1)]) (simp add: armed_def)
  then show ?case using ms_close_finish by (auto simp: close_finish_def Let_def split: option.splits list.splits)
qed (auto simp: armed_closeAll armed_timers)

lemma manager_invariants:
  "manager_reachable m \<Longrightarrow> shape_ok m \<and> quota_ok m \<and> records_ok m \<and> all_armed m"
proof (induction rule: manager_reachable.induct)
  case mr_init
  show ?case
    using shape_init quota_init
    by (simp add: records_ok_def all_armed_def createScopeManager_def createExecutionRegistry_def)
next
  case (mr_step m m')
  then show ?case by (blast intro: shape_step quota_step records_ok_step armed_step)
qed

section \<open>Properties\<close>


text \<open>The two errors of \<open>fenced\<close>.\<close>

definition fence_error :: "scope_error \<Rightarrow> bool" where
  "fence_error e \<longleftrightarrow> (\<exists>r. e = HttpFailure (httpError 409 r) \<and> (err_code r = SCOPE_CLOSED \<or> err_code r = STALE_CONTROLLER))"

lemma fenced_stale:
  assumes "sc_leaseEpoch s \<noteq> l \<or> sc_controllerId s \<noteq> c"
  shows "\<exists>e. fenced s c l = Some e \<and> fence_error e"
  using assms by (auto simp: fenced_def fence_error_def err_def makeError_def)

text \<open>C7: Controller fencing.  After a takeover that returned epoch \<open>l\<close>, in every later state every
  request of a controller with an older epoch (activate, execute, cancel, acknowledge, close) is
  refused with STALE_CONTROLLER or SCOPE_CLOSED.\<close>

theorem takeover_fences_out:
  assumes "takeover k c m = Inr (m1, l)" and "manager_step\<^sup>*\<^sup>* m1 m2" and "l0 < l"
  shows "(\<exists>e. activateScope env now k c0 l0 m2 = Inl e \<and> fence_error e)
    \<and> (\<exists>e. closeScope k c0 l0 m2 = Inl e \<and> fence_error e)
    \<and> (\<exists>e. cancel_begin k x c0 l0 m2 = Inl e \<and> fence_error e)
    \<and> (\<exists>e. scope_ack k x q d c0 l0 m2 = Inl e \<and> fence_error e)
    \<and> (xr_leaseEpoch request = l0 \<longrightarrow> (\<exists>e. execute env now k request ep win m2 = Inl e \<and> fence_error e))"
proof -
  obtain s1 where s1: "jm_get (sm_scopes m1) k = Some s1" "sc_leaseEpoch s1 = l"
    using assms(1) by (auto simp: takeover_def getScope_def get_put_scope split: option.splits if_splits)
  obtain s2 where s2: "jm_get (sm_scopes m2) k = Some s2" "l \<le> sc_leaseEpoch s2"
    using evolves_steps [OF assms(2)] s1 unfolding ev.all_related_def evolves_def by blast
  obtain e where e: "fenced s2 c0 l0 = Some e" "fence_error e"
    using fenced_stale [of s2 l0 c0] s2(2) assms(3) by auto
  obtain e' where e': "fenced s2 (xr_controllerId request) l0 = Some e'" "fence_error e'"
    using fenced_stale [of s2 l0 "xr_controllerId request"] s2(2) assms(3) by auto
  have g: "getScope k m2 = Inr s2" by (simp add: getScope_def s2(1))
  show ?thesis
    using e e'
    by (auto simp: activateScope_def closeScope_def cancel_begin_def scope_ack_def execute_def execute_guard_def g)
qed

text \<open>One execution at a time.  While a driver's \<open>execute\<close> is pending for a participant of an
  open scope, the participant is busy with exactly that execution, and every further execution on
  it is refused.\<close>

theorem one_execution_per_participant:
  assumes "manager_reachable m" and "jm_get (sm_flights m) (k, xr_participantId request) = Some fl"
  shows "(\<exists>e. execute env now k request ep win m = Inl e)
    \<and> (\<exists>s e. jm_get (sm_scopes m) k = Some s \<and> jm_get (sc_participants s) (xr_participantId request) = Some e
          \<and> pe_busyExecutionId e = Some (fl_executionId fl)
          \<and> (sc_state s = scope_creating \<or> sc_state s = scope_active \<longrightarrow> pe_runtime e = rt_busy))"
proof -
  have ok: "shape_ok m" using manager_invariants [OF assms(1)] by blast
  obtain s e where s: "jm_get (sm_scopes m) k = Some s"
    and e: "jm_get (sc_participants s) (xr_participantId request) = Some e"
    using shape_pending [OF ok, of k "xr_participantId request"] assms(2) by (auto simp: has_entry_def)
  have eok: "pe_busyExecutionId e = Some (fl_executionId fl)
      \<and> (sc_state s = scope_creating \<or> sc_state s = scope_active \<longrightarrow> pe_runtime e = rt_busy)"
    using scope_ok_entry [OF shape_scope [OF ok s] e] assms(2) by (simp add: entry_ok_def)
  have "\<exists>er. execute_guard k request m = Inl er"
  proof (rule ccontr)
    assume "\<not> (\<exists>er. execute_guard k request m = Inl er)"
    then obtain e2 where g: "execute_guard k request m = Inr e2" by (cases "execute_guard k request m") auto
    show False by (rule execute_guard_Inr [OF g]) (use s e eok in simp)
  qed
  then show ?thesis using s e eok by (auto simp: execute_def)
qed

text \<open>Closed is final and empty.  Once a scope is closed it stays closed through every later
  step; it has no live participant, no timer armed, and no execution record.\<close>

theorem closed_scope_is_inert:
  assumes "manager_reachable m" and "jm_get (sm_scopes m) k = Some s" and "sc_state s = scope_closed"
    and "manager_step\<^sup>*\<^sup>* m m'"
  shows "\<exists>s'. jm_get (sm_scopes m') k = Some s' \<and> sc_state s' = scope_closed
    \<and> sc_idleTimer s' = None \<and> sc_creatingTimer s' = None
    \<and> (\<forall>p e. jm_get (sc_participants s') p = Some e \<longrightarrow> \<not> live_entry e)
    \<and> (\<forall>x r. jm_get (rg_records (sm_executions m')) x = Some r \<longrightarrow> er_scopeId r \<noteq> k)"
proof -
  have "manager_reachable m'"
    using assms(4,1) by (induction rule: rtranclp_induct) (auto intro: mr_step)
  from manager_invariants [OF this] have inv: "shape_ok m'" "records_ok m'" by blast+
  obtain s' where s': "jm_get (sm_scopes m') k = Some s'" "evolves s s'"
    using evolves_steps [OF assms(4)] assms(2) unfolding ev.all_related_def by blast
  have closed: "sc_state s' = scope_closed"
    using s'(2) assms(3) by (cases "sc_state s'") (simp_all add: evolves_def)
  note sok = shape_scope [OF inv(1) s'(1)]
  have "\<not> live_entry e" if "jm_get (sc_participants s') p = Some e" for p e
    using scope_ok_entry [OF sok that] closed by (simp add: entry_ok_def driver_down_def)
  moreover have "er_scopeId r \<noteq> k" if "jm_get (rg_records (sm_executions m')) x = Some r" for x r
    using inv(2) that s'(1) closed unfolding records_ok_def by fastforce
  ultimately show ?thesis
    using s'(1) closed scope_ok_no_timers [OF sok] by auto
qed

text \<open>Participants of an open scope.  A ready or busy participant has a resolved binding (so
  \<open>execute\<close> never takes its "no resolved binding" path), and a participant is prewarming exactly
  while its prewarm promise is pending: none is stuck.\<close>

lemma open_scope_participants:
  assumes "manager_reachable m" and "jm_get (sm_scopes m) k = Some s"
    and "sc_state s = scope_creating \<or> sc_state s = scope_active"
    and "jm_get (sc_participants s) p = Some e"
  shows "(pe_runtime e = rt_ready \<or> pe_runtime e = rt_busy \<longrightarrow> pe_binding e \<noteq> None)
    \<and> (pe_runtime e = rt_prewarming \<longleftrightarrow> jm_get (sm_prewarms m) (k, p) \<noteq> None)
    \<and> (pe_runtime e = rt_busy \<longleftrightarrow> jm_get (sm_flights m) (k, p) \<noteq> None)"
proof -
  have ok: "shape_ok m" using manager_invariants [OF assms(1)] by blast
  show ?thesis
    using scope_ok_entry [OF shape_scope [OF ok assms(2)] assms(4)] assms(3) unfolding entry_ok_def by blast
qed

text \<open>Every active scope is reaped.  Its idle timer is always armed; when it fires, either an
  execution is in flight and the timer is armed again, or the scope starts closing.\<close>

theorem active_scope_has_reaper:
  assumes "manager_reachable m" and "jm_get (sm_scopes m) k = Some s" and "sc_state s = scope_active"
  shows "\<exists>t. sc_idleTimer s = Some t
    \<and> (\<forall>env now. t \<le> now \<longrightarrow>
        (\<exists>s'. jm_get (sm_scopes (idle_timer_fires env now k m)) k = Some s'
          \<and> (if list_ex (\<lambda>(_, e). busy_entry e) (sc_participants s)
             then sc_state s' = scope_active \<and> sc_idleTimer s' = Some (now + he_idleScopeTtlMs env)
             else sc_state s' = scope_closing)))"
proof -
  have "armed s" using manager_invariants [OF assms(1)] assms(2) by (auto simp: all_armed_def)
  then obtain t where t: "sc_idleTimer s = Some t" using assms(3) by (auto simp: armed_def)
  then show ?thesis
    using assms(2,3)
    by (auto simp: idle_timer_fires_def Let_def get_put_scope scheduleIdleSweep_def close_begin_def)
qed

lemma emitAndSweep_total:
  assumes "registry_ok (sm_executions m1)"
  shows "\<exists>m2 ev. emitAndSweep env now k x proto m1 = Inr (m2, ev) \<and> registry_ok (sm_executions m2)"
proof -
  obtain g' ev where e: "emit (ck_iso now) x proto (sm_executions m1) = Inr (g', ev)"
    using emit_total [OF assms] by blast
  have "\<exists>m2. emitAndSweep env now k x proto m1 = Inr (m2, ev)"
    by (cases ev) (simp_all add: emitAndSweep_def e Let_def)
  then show ?thesis using sm_executions_emit(2) [OF assms] by blast
qed

text \<open>No internal failure.  In every reachable state starting an execution, an emission of a
  driver and a driver's rejection never hit the registry's internal consistency error: they
  succeed or fail with an HTTP error.\<close>

lemma executions_never_fail_internally:
  assumes "manager_reachable m"
  shows "execute env now k request ep win m \<noteq> Inl (RegistryFailure er)
    \<and> (\<exists>m'. driver_emits env now k p proto ep m = Inr m')
    \<and> (\<exists>m'. driver_rejects env now k p msg m = Inr m')"
proof -
  have reg: "registry_ok (sm_executions m)"
    using manager_invariants [OF assms] quota_executionsD(1) by blast
  note sends = emitAndSweep_total
  have guard: "execute_guard k request m \<noteq> Inl (RegistryFailure er)"
    by (auto simp: execute_guard_def getScope_def fenced_def err_def resource_limit_def split: option.splits)
  have begun: "registry_ok g" if "begin_execution (ck_iso now) x pp kk (sm_executions m) = (g, r, b)" for x pp kk g r b
    using begin_execution_ok [OF reg, of "ck_iso now" x pp kk] that by simp
  have "execute env now k request ep win m \<noteq> Inl (RegistryFailure er)"
  proof (cases "execute_guard k request m")
    case (Inr entry)
    obtain g r b where b: "begin_execution (ck_iso now) (xr_executionId request) (xr_participantId request) k
        (sm_executions m) = (g, r, b)" by (metis prod.exhaust)
    have one: "emitAndSweep env now k x proto (m\<lparr>sm_executions := g\<rparr>) \<noteq> Inl e" for x proto e
      using sends [of "m\<lparr>sm_executions := g\<rparr>" env now k x proto] begun [OF b] by auto
    have two: "emitAndSweep env now k x proto m2 \<noteq> Inl e"
      if "emitAndSweep env now k x' proto' (m\<lparr>sm_executions := g\<rparr>) = Inr (m2, ev)" for x x' proto proto' m2 ev e
      using sends [of m2 env now k x proto] sends [of "m\<lparr>sm_executions := g\<rparr>" env now k x' proto'] begun [OF b] that by auto
    show ?thesis
      using one two
      by (auto simp: execute_def Inr b Let_def split: option.splits sum.splits ReconcileOutcome.splits)
  qed (use guard in \<open>simp add: execute_def\<close>)
  moreover have "\<exists>m'. driver_emits env now k p proto ep m = Inr m'"
  proof (cases "jm_get (sm_flights m) (k, p)")
    case (Some fl)
    obtain m2 ev where "emitAndSweep env now k (fl_executionId fl) proto m = Inr (m2, ev)"
      using sends [OF reg] by blast
    then show ?thesis
      by (cases ev; cases "ev_body (the ev)") (auto simp: driver_emits_def Some)
  qed (simp add: driver_emits_def)
  moreover have "\<exists>m'. driver_rejects env now k p msg m = Inr m'"
  proof (cases "jm_get (sm_flights m) (k, p)")
    case (Some fl)
    have "emitAndSweep env now k x proto m \<noteq> Inl e" for x proto e
      using sends [OF reg, of env now k x proto] by auto
    then show ?thesis by (auto simp: driver_rejects_def Some split: sum.splits)
  qed (simp add: driver_rejects_def)
  ultimately show ?thesis by blast
qed

section \<open>A concrete run\<close>

text \<open>One scope with participant \<open>p\<close> is created, prewarmed and activated, and starts an execution.\<close>

definition sample_env :: host_env where
  "sample_env =
     \<lparr> he_sha = (\<lambda>_. ''h''),
       he_lookup = (\<lambda>_. Some \<lparr> id_installationId = ''inst-1'', id_driverId = claude_stream_json,
          id_state = inst_trusted, id_executablePath = None, id_fingerprint = None, id_components = [],
          id_detail = None \<rparr>),
       he_assertExecutable = (\<lambda>_. Inr sample_installation), he_hasFactory = (\<lambda>_. True),
       he_hostInstanceId = ''host'', he_creatingScopeTtlMs = 30000, he_idleScopeTtlMs = 1800000 \<rparr>"

definition sample_clock :: clock where
  "sample_clock = \<lparr> ck_ms = 1000, ck_iso = ''2026-01-01T00:00:00.000Z'' \<rparr>"

definition sample_request :: create_request where
  "sample_request = \<lparr> cr_scopeRequestId = ''request-1'', cr_participants = [sample_spec ''p''] \<rparr>"

definition sample_execute :: "nat \<Rightarrow> execute_request" where
  "sample_execute l =
     \<lparr> xr_controllerId = ''c1'', xr_leaseEpoch = l, xr_executionId = ''x1'', xr_participantId = ''p'',
       xr_snapshot = sample_before \<rparr>"

definition m_created :: ScopeManager where
  "m_created = fst (createScope sample_env sample_clock ''s1'' ''c1'' sample_request createScopeManager)"

definition m_warm :: ScopeManager where
  "m_warm = prewarm_settled sample_env ''s1'' ''p'' (Inr sample_prewarm) m_created"

definition m_active :: ScopeManager where
  "m_active = put_scope ''s1'' (activate sample_env sample_clock) m_warm"

definition m_closing :: ScopeManager where
  "m_closing = close_begin ''s1'' m_active"

definition m_closed :: ScopeManager where
  "m_closed = close_finish ''s1'' (close_settled ''s1'' ''p'' m_closing)"

lemma sample_digests:
  "digestOf (\<lambda>_. ''h'') (capability_json sample_prewarm) = Inr ''h''"
  "digestOf (\<lambda>_. ''h'') (installation_json sample_installation) = Inr ''h''"
  "digestOf (\<lambda>_. ''h'') (binding_json d i f c m opts) = Inr ''h''"
  by (simp_all add: digestOf_def canonicalJson_text sample_depth)

lemma sample_build:
  "\<exists>r b. buildBinding (\<lambda>_. ''h'') (sample_spec p) sample_installation sample_prewarm = Inr r \<and> rr_binding r = Some b"
  by (simp add: buildBinding_def Let_def sample_spec_def sample_profile_def sample_digests
      sample_prewarm_def [THEN arg_cong, of pw_canonicalModelId])

definition entry_created :: ParticipantEntry where
  "entry_created = (fresh_entry (sample_spec ''p''))\<lparr>pe_runtime := rt_prewarming\<rparr>"

lemma m_created_scope:
  "sm_scopes m_created = [(''s1'', (new_scope (ck_iso sample_clock) ''s1'' ''c1'' sample_request)
      \<lparr>sc_participants := [(''p'', entry_created)], sc_creatingTimer := Some 31000\<rparr>)]"
  "sm_prewarms m_created = [((''s1'', ''p''), sample_installation)]"
  "sm_executions m_created = createExecutionRegistry" "sm_flights m_created = []" "sm_closing m_created = []"
  by (simp_all add: m_created_def createScope_def reusable_scope_def createScopeManager_def checkScopeCreateRate_def
      recent_timestamps_def QUOTAS_def activeScopeCount_def liveDriverProcessCount_def count_values_def Let_def
      sample_request_def sample_env_def prewarm_all_def scheduleCreatingSweep_def new_scope_def
      fresh_participants_def prewarm_begin_def resolveStatic_def fresh_entry_def sample_spec_def sample_profile_def
      ep_driverId_def route_of_def CLAUDE_ROUTES_def readiness_def entry_created_def sample_clock_def
      pending_prewarms_def)

lemma m_active_entry:
  obtains s e b where "jm_get (sm_scopes m_active) ''s1'' = Some s" "sc_state s = scope_active"
    "sc_participants s = [(''p'', e)]" "pe_runtime e = rt_ready" "pe_busyExecutionId e = None" "pe_binding e = Some b"
    "sc_controllerId s = ''c1''" "sc_leaseEpoch s = 1" "sc_idleTimer s = Some 1801000"
proof -
  obtain r b where r: "buildBinding (\<lambda>_. ''h'') (sample_spec ''p'') sample_installation sample_prewarm = Inr r"
    "rr_binding r = Some b" using sample_build by blast
  have sha: "he_sha sample_env = (\<lambda>_. ''h'')" "he_idleScopeTtlMs sample_env = 1800000" by (simp_all add: sample_env_def)
  have spec: "pe_spec entry_created = sample_spec ''p''" "pe_busyExecutionId entry_created = None"
    by (simp_all add: entry_created_def fresh_entry_def)
  show ?thesis
    by (rule that [of "activate sample_env sample_clock
          (map_entry ''p'' (prewarm_entry sample_env scope_creating sample_installation (Inr sample_prewarm))
            ((new_scope (ck_iso sample_clock) ''s1'' ''c1'' sample_request)
              \<lparr>sc_participants := [(''p'', entry_created)], sc_creatingTimer := Some 31000\<rparr>))"
        "prewarm_entry sample_env scope_creating sample_installation (Inr sample_prewarm) entry_created" b])
      (simp_all add: m_active_def m_warm_def prewarm_settled_def m_created_scope put_scope_def new_scope_def
        activate_def scheduleIdleSweep_def map_entry_def prewarm_entry_def sha spec r sample_clock_def)
qed

lemma m_created_reachable: "manager_reachable m_created"
  unfolding m_created_def by (rule mr_step [OF mr_init ms_create]) (simp add: createScopeManager_def)

lemma m_active_reachable: "manager_reachable m_active"
proof -
  have warm: "manager_reachable m_warm"
    unfolding m_warm_def by (rule mr_step [OF m_created_reachable ms_prewarm])
  obtain s where s: "jm_get (sm_scopes m_warm) ''s1'' = Some s" "fenced s ''c1'' 1 = None"
    by (simp add: m_warm_def prewarm_settled_def m_created_scope put_scope_def new_scope_def fenced_def map_entry_def)
  have "activateScope sample_env sample_clock ''s1'' ''c1'' 1 m_warm
      = Inr (m_active, toStatus sample_env (activate sample_env sample_clock s))"
    by (simp add: activateScope_def getScope_def s s(2) [unfolded One_nat_def] m_active_def)
  from mr_step [OF warm ms_activate [OF this]] show ?thesis .
qed

lemma m_active_none: "sm_flights m_active = []" "sm_executions m_active = createExecutionRegistry" "sm_closing m_active = []"
  by (simp_all add: m_active_def m_warm_def prewarm_settled_def m_created_scope put_scope_def)

lemma sample_started:
  obtains m out i where "execute sample_env sample_clock ''s1'' (sample_execute 1) 1 None m_active = Inr (m, out, Some i)"
    "jm_get (sm_flights m) (''s1'', ''p'') = Some \<lparr> fl_executionId = ''x1'', fl_snapshot = sample_before \<rparr>"
proof -
  obtain s e b where s: "jm_get (sm_scopes m_active) ''s1'' = Some s" "sc_state s = scope_active"
    "sc_participants s = [(''p'', e)]" "pe_runtime e = rt_ready" "pe_busyExecutionId e = None" "pe_binding e = Some b"
    "sc_controllerId s = ''c1''" "sc_leaseEpoch s = 1" by (rule m_active_entry)
  have guard: "execute_guard ''s1'' (sample_execute 1) m_active = Inr e"
    by (simp add: execute_guard_def getScope_def fenced_def s sample_execute_def QUOTAS_def m_active_none
        runningCount_def createExecutionRegistry_def count_values_def)
  have "sm_reconciler m_active = []"
    by (simp add: m_active_def m_warm_def prewarm_settled_def put_scope_def m_created_def createScope_def
        reusable_scope_def createScopeManager_def checkScopeCreateRate_def Let_def split: option.splits)
  then have rec: "reconcile sha p snap ep win (sm_reconciler m_active)
      = Reconciled basis_full (fst (renderTurn snap 0)) (snd (renderTurn snap 0))" for sha p snap ep win
    by (simp add: reconcile_def case_prod_beta')
  have x: "xr_executionId (sample_execute 1) = ''x1''" "xr_participantId (sample_execute 1) = ''p''"
    "xr_snapshot (sample_execute 1) = sample_before" by (simp_all add: sample_execute_def)
  have guard': "execute_guard ''s1'' (sample_execute (Suc 0)) m_active = Inr e" using guard by simp
  have x': "xr_executionId (sample_execute (Suc 0)) = ''x1''" "xr_participantId (sample_execute (Suc 0)) = ''p''"
    "xr_snapshot (sample_execute (Suc 0)) = sample_before" using x by simp_all
  show ?thesis
    by (rule that, simp add: execute_def guard' x' m_active_none begin_execution_def createExecutionRegistry_def
        Let_def s rec put_scope_def, simp)
qed


theorem takeover_fences_out_witness:
  "\<exists>m l e. takeover ''s1'' ''c2'' m_active = Inr (m, l)
     \<and> execute sample_env sample_clock ''s1'' (sample_execute 1) 1 None m = Inl e \<and> fence_error e"
proof -
  obtain s where "jm_get (sm_scopes m_active) ''s1'' = Some s" "sc_state s = scope_active" "sc_leaseEpoch s = 1"
    by (rule m_active_entry)
  then obtain m where t: "takeover ''s1'' ''c2'' m_active = Inr (m, 2)"
    by (auto simp: takeover_def getScope_def)
  have l: "xr_leaseEpoch (sample_execute 1) = 1" by (simp add: sample_execute_def)
  from takeover_fences_out [OF t rtranclp.rtrancl_refl, of 1] l t show ?thesis by (metis one_less_numeral_iff semiring_norm(76))
qed

theorem one_execution_per_participant_witness:
  "\<exists>m out e. execute sample_env sample_clock ''s1'' (sample_execute 1) 1 None m_active = Inr (m, out)
     \<and> execute sample_env sample_clock ''s1'' (sample_execute 1) 1 None m = Inl e"
proof -
  obtain m out i where m: "execute sample_env sample_clock ''s1'' (sample_execute 1) 1 None m_active = Inr (m, out, Some i)"
    "jm_get (sm_flights m) (''s1'', ''p'') = Some \<lparr> fl_executionId = ''x1'', fl_snapshot = sample_before \<rparr>"
    by (rule sample_started)
  have p: "xr_participantId (sample_execute 1) = ''p''" by (simp add: sample_execute_def)
  have "manager_reachable m" by (rule mr_step [OF m_active_reachable ms_execute [OF m(1)]])
  from one_execution_per_participant [OF this, of "''s1''" "sample_execute 1"] m p show ?thesis by auto
qed

lemma m_closed_scope:
  obtains s where "jm_get (sm_scopes m_closed) ''s1'' = Some s" "sc_state s = scope_closed" "manager_reachable m_closed"
proof -
  obtain s e b where s: "jm_get (sm_scopes m_active) ''s1'' = Some s" "sc_state s = scope_active"
    "sc_participants s = [(''p'', e)]" "sc_controllerId s = ''c1''" "sc_leaseEpoch s = 1" by (rule m_active_entry)
  have "closeScope ''s1'' ''c1'' 1 m_active = Inr m_closing"
    by (simp add: closeScope_def getScope_def fenced_def s m_closing_def)
  from mr_step [OF m_active_reachable ms_close [OF this]] have "manager_reachable m_closing" .
  then have "manager_reachable m_closed"
    unfolding m_closed_def by (blast intro: mr_step ms_close_settled ms_close_finish)
  have c: "jm_get (sm_closing m_closing) ''s1'' = Some [''p'']"
    by (simp add: m_closing_def close_begin_def s m_active_none)
  obtain s2 where "jm_get (sm_scopes m_closing) ''s1'' = Some s2"
    by (simp add: m_closing_def close_begin_def s get_put_scope)
  then obtain s3 where s3: "jm_get (sm_scopes (close_settled ''s1'' ''p'' m_closing)) ''s1'' = Some s3"
    by (simp add: close_settled_def c get_put_scope)
  have c3: "jm_get (sm_closing (close_settled ''s1'' ''p'' m_closing)) ''s1'' = Some []"
    by (simp add: close_settled_def c update_conv')
  have "jm_get (sm_scopes m_closed) ''s1'' = Some (s3\<lparr>sc_state := scope_closed\<rparr>)"
    by (simp add: m_closed_def close_finish_def c3 s3 Let_def get_put_scope)
  then show ?thesis
    by (rule that) (simp_all add: \<open>manager_reachable m_closed\<close>)
qed

theorem closed_scope_is_inert_witness:
  "\<exists>s. jm_get (sm_scopes m_closed) ''s1'' = Some s \<and> sc_state s = scope_closed \<and> sc_idleTimer s = None"
proof -
  obtain s where "jm_get (sm_scopes m_closed) ''s1'' = Some s" "sc_state s = scope_closed" "manager_reachable m_closed"
    by (rule m_closed_scope)
  from closed_scope_is_inert [OF this(3,1,2) rtranclp.rtrancl_refl] show ?thesis by blast
qed

theorem open_scope_participants_witness:
  "\<exists>s e. jm_get (sm_scopes m_active) ''s1'' = Some s \<and> jm_get (sc_participants s) ''p'' = Some e
     \<and> pe_runtime e = rt_ready \<and> pe_binding e \<noteq> None"
proof -
  obtain s e b where s: "jm_get (sm_scopes m_active) ''s1'' = Some s" "sc_state s = scope_active"
    "sc_participants s = [(''p'', e)]" "pe_runtime e = rt_ready" by (rule m_active_entry)
  then have e: "jm_get (sc_participants s) ''p'' = Some e" by simp
  from open_scope_participants [OF m_active_reachable s(1) disjI2 [OF s(2)] e] s e show ?thesis by blast
qed

theorem active_scope_has_reaper_witness:
  "\<exists>s t. jm_get (sm_scopes m_active) ''s1'' = Some s \<and> sc_state s = scope_active \<and> sc_idleTimer s = Some t"
proof -
  obtain s where s: "jm_get (sm_scopes m_active) ''s1'' = Some s" "sc_state s = scope_active" by (rule m_active_entry)
  from active_scope_has_reaper [OF m_active_reachable s] s show ?thesis by blast
qed

theorem executions_never_fail_internally_witness:
  "\<exists>m'. driver_emits sample_env sample_clock ''s1'' ''p'' (OutputDelta ''hi'') 1 m_active = Inr m'"
  using executions_never_fail_internally [OF m_active_reachable] by blast

end
