(* ===== verification/Discussion_Model.thy ===== *)
theory Discussion_Model
  imports Session_Reconciler Event_Json Clip_Utf16 "HOL-Library.Product_Lexorder"
begin

text \<open>
  The browser's discussion model: the entities of \<open>models/discussion\<close>, their factories, and the
  context snapshot of \<open>orchestrator/context-snapshot.ts\<close> with the digest material of
  \<open>shared/runtime/snapshot-digest.ts\<close>.  Numbers that only count are natural numbers, times are
  ISO strings, \<open>sha\<close> stands for SHA-256 in hexadecimal, and \<open>uuid\<close> and the time arguments are what
  \<open>crypto.randomUUID()\<close> and \<open>new Date().toISOString()\<close> answered.  The code's camel-case fields
  carry a two-letter prefix of their record.
\<close>

section \<open>Entities\<close>

record DiscussionAgent =
  ag_id :: string
  ag_name :: string
  ag_personaPrompt :: string
  ag_executionProfileId :: string
  ag_modelId :: string
  ag_color :: string
  ag_revision :: nat
  ag_enabled :: bool
  ag_createdAt :: string
  ag_updatedAt :: string

datatype ParticipantState = participant_active | participant_ended

record Participant =
  pa_id :: string
  pa_roomId :: string
  pa_agentId :: string
  pa_personaPrompt :: string
  pa_executionProfileId :: string
  pa_profileRevision :: nat
  pa_profileDigest :: string
  pa_modelId :: string
  pa_snapshotDigest :: string
  pa_state :: ParticipantState
  pa_createdAt :: string
  pa_endedAt :: "string option"

datatype RoomRunState = room_idle | room_running | room_paused

datatype DiscussionMode = mode_brainstorm | mode_planning | mode_review

datatype RoomStatus = room_open | room_concluded

record DiscussionRoom =
  rm_id :: string
  rm_topic :: string
  rm_background :: string
  rm_facilitator :: string
  rm_runState :: RoomRunState
  rm_activeRoundId :: "string option"
  rm_contextRevision :: nat
  rm_contextDigest :: string
  rm_mode :: DiscussionMode
  rm_targetOutput :: string
  rm_maxRounds :: "nat option"
  rm_status :: RoomStatus
  rm_createdAt :: string
  rm_lastActiveAt :: string

text \<open>\<open>RoundPausedFrom\<close> is the subset of the phases a round can be paused in.\<close>

datatype RoundPhase =
    phase_pending | phase_prewarming | phase_running | phase_summarizing | phase_paused
  | phase_completed | phase_aborted

fun round_phase_text :: "RoundPhase \<Rightarrow> string" where
  "round_phase_text phase_pending = ''pending''"
| "round_phase_text phase_prewarming = ''prewarming''"
| "round_phase_text phase_running = ''running''"
| "round_phase_text phase_summarizing = ''summarizing''"
| "round_phase_text phase_paused = ''paused''"
| "round_phase_text phase_completed = ''completed''"
| "round_phase_text phase_aborted = ''aborted''"

datatype PauseCode =
    pause_prewarm_failed | pause_facilitator_unavailable | pause_model_mismatch
  | pause_tool_state_unknown | pause_stale_context | pause_empty_output | pause_needs_rebase
  | pause_execution_failed | pause_user_cancelled

record RoundPauseReason =
  pr_code :: PauseCode
  pr_participantId :: "string option"
  pr_executionId :: "string option"
  pr_detail :: "string option"

text \<open>\<open>focusMessageId\<close> has three states: \<open>Undefined\<close> on a legacy round, \<open>Null\<close> while the round
  awaits its focus, and the message.\<close>

record DiscussionRound =
  rd_id :: string
  rd_roomId :: string
  rd_roundNumber :: nat
  rd_participantOrder :: "string list"
  rd_phase :: RoundPhase
  rd_pausedFrom :: "RoundPhase option"
  rd_pauseReason :: "RoundPauseReason option"
  rd_nextParticipantIndex :: nat
  rd_activeExecutionId :: "string option"
  rd_focusMessageId :: "string nullable"
  rd_createdAt :: string
  rd_completedAt :: "string option"

datatype MessageRole = message_user | message_participant

record DiscussionMessage =
  mg_id :: string
  mg_roomId :: string
  mg_roundId :: string
  mg_role :: MessageRole
  mg_participantId :: "string option"
  mg_content :: string
  mg_sourceExecutionId :: "string option"
  mg_createdAt :: string

record DiscussionSummary =
  su_id :: string
  su_roomId :: string
  su_roundId :: string
  su_content :: string
  su_sourceExecutionId :: string
  su_generatedAt :: string

record DecisionReport =
  rp_id :: string
  rp_roomId :: string
  rp_content :: string
  rp_sourceExecutionId :: string
  rp_createdAt :: string

section \<open>Model executions and runtime bindings\<close>

datatype ModelExecutionState =
    mx_prepared | mx_running | mx_succeeded_uncommitted | mx_committed | mx_discarded
  | mx_failed | mx_interrupted

fun execution_state_text :: "ModelExecutionState \<Rightarrow> string" where
  "execution_state_text mx_prepared = ''prepared''"
| "execution_state_text mx_running = ''running''"
| "execution_state_text mx_succeeded_uncommitted = ''succeeded_uncommitted''"
| "execution_state_text mx_committed = ''committed''"
| "execution_state_text mx_discarded = ''discarded''"
| "execution_state_text mx_failed = ''failed''"
| "execution_state_text mx_interrupted = ''interrupted''"

datatype ResultKind = kind_message | kind_summary | kind_focus | kind_report

fun result_kind_text :: "ResultKind \<Rightarrow> string" where
  "result_kind_text kind_message = ''message''"
| "result_kind_text kind_summary = ''summary''"
| "result_kind_text kind_focus = ''focus''"
| "result_kind_text kind_report = ''report''"

datatype CommittedEntityType = entity_message | entity_summary | entity_report

datatype RuntimeOutcome =
    outcome_model_mismatch | outcome_tool_state_unknown | outcome_stale_context
  | outcome_empty_output | outcome_needs_rebase | outcome_user_cancelled

text \<open>An outcome used as the code of a pause reason.\<close>

fun pause_code :: "RuntimeOutcome \<Rightarrow> PauseCode" where
  "pause_code outcome_model_mismatch = pause_model_mismatch"
| "pause_code outcome_tool_state_unknown = pause_tool_state_unknown"
| "pause_code outcome_stale_context = pause_stale_context"
| "pause_code outcome_empty_output = pause_empty_output"
| "pause_code outcome_needs_rebase = pause_needs_rebase"
| "pause_code outcome_user_cancelled = pause_user_cancelled"

record ModelExecutionError =
  xe_code :: string
  xe_phase :: string
  xe_message :: string
  xe_retryable :: bool
  xe_driverId :: "string option"
  xe_limitMs :: "nat option"

record ModelExecution =
  mx_executionId :: string
  mx_roomId :: string
  mx_roundId :: string
  mx_participantId :: string
  mx_resultKind :: ResultKind
  mx_state :: ModelExecutionState
  mx_hostInstanceId :: "string option"
  mx_executionScopeId :: "string option"
  mx_requestedModel :: string
  mx_effectiveModel :: "string option"
  mx_dispatchState :: DispatchState
  mx_toolState :: ToolState
  mx_contextRevision :: nat
  mx_expectedRoomDigest :: string
  mx_participantSnapshotDigest :: string
  mx_instructionDigest :: string
  mx_contentDigest :: "string option"
  mx_committedEntityType :: "CommittedEntityType option"
  mx_committedEntityId :: "string option"
  mx_runtimeOutcome :: "RuntimeOutcome option"
  mx_usage :: "Usage option"
  mx_error :: "ModelExecutionError option"
  mx_finalEventSeq :: "nat option"
  mx_ackState :: "AckState option"
  mx_retryOfExecutionId :: "string option"
  mx_createdAt :: string
  mx_updatedAt :: string

datatype RuntimeBindingState = binding_creating | binding_active | binding_closing | binding_closed

fun binding_state_text :: "RuntimeBindingState \<Rightarrow> string" where
  "binding_state_text binding_creating = ''creating''"
| "binding_state_text binding_active = ''active''"
| "binding_state_text binding_closing = ''closing''"
| "binding_state_text binding_closed = ''closed''"

record RuntimeBinding =
  bi_id :: string
  bi_roomId :: string
  bi_scopeRequestId :: string
  bi_state :: RuntimeBindingState
  bi_hostInstanceId :: "string option"
  bi_executionScopeId :: "string option"
  bi_controllerId :: "string option"
  bi_leaseEpoch :: "nat option"
  bi_createdAt :: string
  bi_updatedAt :: string

section \<open>Errors\<close>

text \<open>
  What a transaction throws: a \<open>TransactionError\<close> with its code and message, or the
  \<open>ConstraintError\<close> of the store when a key or a unique index is already taken.  \<open>require\<close> is
  \<open>if (!test) throw ...\<close> and \<open>found\<close> is the check that a lookup found a row; both take the rest
  of the function as their last argument.
\<close>

datatype tx_error = TransactionError (te_code: string) (te_message: string) | ConstraintError

definition require :: "bool \<Rightarrow> string \<Rightarrow> string \<Rightarrow> (tx_error + 'a) \<Rightarrow> tx_error + 'a" where
  "require test code message rest = (if test then rest else Inl (TransactionError code message))"

definition found :: "'a option \<Rightarrow> string \<Rightarrow> string \<Rightarrow> ('a \<Rightarrow> tx_error + 'b) \<Rightarrow> tx_error + 'b" where
  "found row code message rest =
     (case row of None \<Rightarrow> Inl (TransactionError code message) | Some a \<Rightarrow> rest a)"

text \<open>A row that may be missing and that passes a test (\<open>row?.field === v\<close>).\<close>

definition row_with :: "('a \<Rightarrow> bool) \<Rightarrow> 'a option \<Rightarrow> bool" where
  "row_with P row = (case row of None \<Rightarrow> False | Some a \<Rightarrow> P a)"

definition and_then :: "tx_error + 'a \<Rightarrow> ('a \<Rightarrow> tx_error + 'b) \<Rightarrow> tx_error + 'b" where
  "and_then r rest = (case r of Inl e \<Rightarrow> Inl e | Inr a \<Rightarrow> rest a)"

named_theorems tx_success "when a chain of checks succeeds"

lemma require_Inr [tx_success]: "require b c m k = Inr r \<longleftrightarrow> b \<and> k = Inr r"
  by (simp add: require_def)

lemma found_Inr [tx_success]: "found x c m k = Inr r \<longleftrightarrow> (\<exists>a. x = Some a \<and> k a = Inr r)"
  by (simp add: found_def split: option.splits)

lemma and_then_Inr [tx_success]: "and_then x k = Inr r \<longleftrightarrow> (\<exists>a. x = Inr a \<and> k a = Inr r)"
  by (simp add: and_then_def split: sum.splits)

lemma row_with_iff [tx_success]: "row_with P row \<longleftrightarrow> (\<exists>a. row = Some a \<and> P a)"
  by (simp add: row_with_def split: option.splits)

lemma check_simps [simp]:
  "require True c m k = k" "require False c m k = Inl (TransactionError c m)"
  "found (Some a) c m f = f a" "found None c m f = Inl (TransactionError c m)"
  "and_then (Inr a) f = f a" "and_then (Inl e) f = Inl e"
  by (simp_all add: require_def found_def and_then_def)

section \<open>Factories\<close>

definition digest_of :: "(string \<Rightarrow> string) \<Rightarrow> json \<Rightarrow> string" where
  "digest_of sha v = sha (canonical_text v)"

abbreviation json_nat :: "nat \<Rightarrow> json" where
  "json_nat n \<equiv> JNum (show_nat n)"

text \<open>\<open>/^#[0-9a-fA-F]{6}$/\<close>.\<close>

definition HEX_COLOR :: "string \<Rightarrow> bool" where
  "HEX_COLOR s \<longleftrightarrow> length s = 7 \<and> hd s = CHR ''#'' \<and> list_all is_hex (tl s)"

definition createDiscussionAgent ::
  "string \<Rightarrow> string \<Rightarrow> string \<Rightarrow> string \<Rightarrow> string \<Rightarrow> string \<Rightarrow> string \<Rightarrow> tx_error + DiscussionAgent" where
  "createDiscussionAgent now uuid name personaPrompt executionProfileId modelId color =
     require (\<not> blank name) ''INVALID'' ''name is required''
     (require (\<not> blank personaPrompt) ''INVALID'' ''personaPrompt is required''
     (require (executionProfileId \<noteq> []) ''INVALID'' ''executionProfileId is required''
     (require (\<not> blank modelId) ''INVALID'' ''modelId required''
     (require (HEX_COLOR color) ''INVALID'' ''color must be a 6-digit hex''
     (Inr \<lparr> ag_id = uuid, ag_name = name, ag_personaPrompt = personaPrompt,
        ag_executionProfileId = executionProfileId, ag_modelId = modelId, ag_color = color,
        ag_revision = 1, ag_enabled = True, ag_createdAt = now, ag_updatedAt = now \<rparr>)))))"

definition participant_snapshot_json :: "string \<Rightarrow> string \<Rightarrow> nat \<Rightarrow> string \<Rightarrow> string \<Rightarrow> json" where
  "participant_snapshot_json personaPrompt executionProfileId profileRevision profileDigest modelId =
     JObj [(''digestVersion'', json_nat 1), (''personaPrompt'', JStr personaPrompt),
       (''executionProfileId'', JStr executionProfileId), (''profileRevision'', json_nat profileRevision),
       (''profileDigest'', JStr profileDigest), (''modelId'', JStr modelId)]"

definition createParticipant ::
  "(string \<Rightarrow> string) \<Rightarrow> string \<Rightarrow> string \<Rightarrow> string \<Rightarrow> DiscussionAgent \<Rightarrow> string \<Rightarrow> Participant" where
  "createParticipant sha now uuid roomId agent profileDigest =
     \<lparr> pa_id = uuid, pa_roomId = roomId, pa_agentId = ag_id agent,
       pa_personaPrompt = ag_personaPrompt agent, pa_executionProfileId = ag_executionProfileId agent,
       pa_profileRevision = ag_revision agent, pa_profileDigest = profileDigest,
       pa_modelId = ag_modelId agent,
       pa_snapshotDigest = digest_of sha
         (participant_snapshot_json (ag_personaPrompt agent) (ag_executionProfileId agent)
            (ag_revision agent) profileDigest (ag_modelId agent)),
       pa_state = participant_active, pa_createdAt = now, pa_endedAt = None \<rparr>"

definition createDiscussionRoom ::
  "string \<Rightarrow> string \<Rightarrow> string \<Rightarrow> string \<Rightarrow> string \<Rightarrow> DiscussionMode \<Rightarrow> string \<Rightarrow> nat option
   \<Rightarrow> tx_error + DiscussionRoom" where
  "createDiscussionRoom now uuid topic background facilitator mode targetOutput maxRounds =
     require (\<not> blank topic) ''INVALID'' ''topic required''
     (require (facilitator \<noteq> []) ''INVALID'' ''facilitatorParticipantId required''
     (Inr \<lparr> rm_id = uuid, rm_topic = topic, rm_background = background, rm_facilitator = facilitator,
        rm_runState = room_idle, rm_activeRoundId = None, rm_contextRevision = 0,
        rm_contextDigest = [], rm_mode = mode, rm_targetOutput = targetOutput,
        rm_maxRounds = maxRounds, rm_status = room_open, rm_createdAt = now, rm_lastActiveAt = now \<rparr>))"

text \<open>The arguments of \<open>createModelExecution\<close>, which the dispatcher fills from the room, the round
  and the participant.\<close>

record execution_facts =
  xf_executionId :: string
  xf_roomId :: string
  xf_roundId :: string
  xf_participantId :: string
  xf_resultKind :: ResultKind
  xf_requestedModel :: string
  xf_contextRevision :: nat
  xf_expectedRoomDigest :: string
  xf_participantSnapshotDigest :: string
  xf_instructionDigest :: string
  xf_retryOfExecutionId :: "string option"

definition createModelExecution :: "string \<Rightarrow> execution_facts \<Rightarrow> ModelExecution" where
  "createModelExecution now f =
     \<lparr> mx_executionId = xf_executionId f, mx_roomId = xf_roomId f, mx_roundId = xf_roundId f,
       mx_participantId = xf_participantId f, mx_resultKind = xf_resultKind f, mx_state = mx_prepared,
       mx_hostInstanceId = None, mx_executionScopeId = None, mx_requestedModel = xf_requestedModel f,
       mx_effectiveModel = None, mx_dispatchState = not_dispatched, mx_toolState = tool_none,
       mx_contextRevision = xf_contextRevision f, mx_expectedRoomDigest = xf_expectedRoomDigest f,
       mx_participantSnapshotDigest = xf_participantSnapshotDigest f,
       mx_instructionDigest = xf_instructionDigest f, mx_contentDigest = None,
       mx_committedEntityType = None, mx_committedEntityId = None, mx_runtimeOutcome = None,
       mx_usage = None, mx_error = None, mx_finalEventSeq = None, mx_ackState = None,
       mx_retryOfExecutionId = xf_retryOfExecutionId f, mx_createdAt = now, mx_updatedAt = now \<rparr>"

definition createRuntimeBinding :: "string \<Rightarrow> string \<Rightarrow> string \<Rightarrow> string \<Rightarrow> tx_error + RuntimeBinding" where
  "createRuntimeBinding now uuid roomId scopeRequestId =
     require (scopeRequestId \<noteq> []) ''INVALID'' ''scopeRequestId required''
     (Inr \<lparr> bi_id = uuid, bi_roomId = roomId, bi_scopeRequestId = scopeRequestId,
        bi_state = binding_creating, bi_hostInstanceId = None, bi_executionScopeId = None,
        bi_controllerId = None, bi_leaseEpoch = None, bi_createdAt = now, bi_updatedAt = now \<rparr>)"

definition createDecisionReport ::
  "string \<Rightarrow> string \<Rightarrow> string \<Rightarrow> string \<Rightarrow> string \<Rightarrow> tx_error + DecisionReport" where
  "createDecisionReport now uuid roomId content sourceExecutionId =
     require (roomId \<noteq> []) ''INVALID'' ''roomId required''
     (require (\<not> blank content) ''INVALID'' ''content is required''
     (require (sourceExecutionId \<noteq> []) ''INVALID'' ''sourceExecutionId required''
     (Inr \<lparr> rp_id = uuid, rp_roomId = roomId, rp_content = content,
        rp_sourceExecutionId = sourceExecutionId, rp_createdAt = now \<rparr>)))"

section \<open>Shared projection and context snapshots\<close>

definition SNAPSHOT_DIGEST_VERSION :: nat where
  "SNAPSHOT_DIGEST_VERSION = 1"

record SharedProjection =
  sj_topic :: string
  sj_background :: string
  sj_items :: "SnapshotItem list"

definition contextDigestMaterial :: "SharedProjection \<Rightarrow> json" where
  "contextDigestMaterial p =
     JObj [(''digestVersion'', json_nat SNAPSHOT_DIGEST_VERSION), (''topic'', JStr (sj_topic p)),
       (''background'', JStr (sj_background p)), (''items'', JArr (map item_json (sj_items p)))]"

definition instructionDigestMaterial :: "InstructionKind \<Rightarrow> string \<Rightarrow> json" where
  "instructionDigestMaterial kind txt =
     JObj [(''digestVersion'', json_nat SNAPSHOT_DIGEST_VERSION),
       (''kind'', JStr (instruction_kind_text kind)), (''text'', JStr txt)]"

definition computeContextDigest :: "(string \<Rightarrow> string) \<Rightarrow> SharedProjection \<Rightarrow> string" where
  "computeContextDigest sha p = digest_of sha (contextDigestMaterial p)"

definition computeInstructionDigest :: "(string \<Rightarrow> string) \<Rightarrow> InstructionKind \<Rightarrow> string \<Rightarrow> string" where
  "computeInstructionDigest sha kind txt = digest_of sha (instructionDigestMaterial kind txt)"

text \<open>\<open>canonicalJson\<close> throws only beyond its depth bound, which these materials stay below.\<close>

lemma nesting_item: "nesting (item_json i) = 1"
  by (simp add: item_json_def opt_member_def split: option.splits)

lemma digest_material_total:
  "nesting (contextDigestMaterial p) \<le> MAX_DEPTH"
  "nesting (instructionDigestMaterial k t) \<le> MAX_DEPTH"
  "nesting (participant_snapshot_json a b c d e) \<le> MAX_DEPTH"
proof -
  have "nesting (JArr (map item_json (sj_items p))) \<le> 2"
    using nesting_items_le [of 0 "map item_json (sj_items p)" 2] by (simp add: nesting_item)
  then show "nesting (contextDigestMaterial p) \<le> MAX_DEPTH"
    by (simp add: contextDigestMaterial_def MAX_DEPTH_def)
qed (simp_all add: instructionDigestMaterial_def participant_snapshot_json_def MAX_DEPTH_def)

fun message_role :: "MessageRole \<Rightarrow> SnapshotRole" where
  "message_role message_user = role_user"
| "message_role message_participant = role_participant"

definition messageToItem :: "DiscussionMessage \<Rightarrow> SnapshotItem" where
  "messageToItem m =
     \<lparr> si_id = mg_id m, si_role = message_role (mg_role m), si_participantId = mg_participantId m,
       si_content = mg_content m, si_sourceExecutionId = mg_sourceExecutionId m \<rparr>"

definition summaryToItem :: "DiscussionSummary \<Rightarrow> SnapshotItem" where
  "summaryToItem s =
     \<lparr> si_id = su_id s, si_role = role_summary, si_participantId = None,
       si_content = su_content s, si_sourceExecutionId = Some (su_sourceExecutionId s) \<rparr>"

text \<open>The comparator orders by time, then by id; ids are unique, so this is a total order and the
  sort is the one by the pair.\<close>

definition timed_items ::
  "DiscussionMessage list \<Rightarrow> DiscussionSummary list \<Rightarrow> (string \<times> SnapshotItem) list" where
  "timed_items messages summaries =
     map (\<lambda>m. (mg_createdAt m, messageToItem m)) messages
     @ map (\<lambda>s. (su_generatedAt s, summaryToItem s)) summaries"

definition projectSharedContext ::
  "string \<Rightarrow> string \<Rightarrow> DiscussionMessage list \<Rightarrow> DiscussionSummary list \<Rightarrow> SharedProjection" where
  "projectSharedContext topic background messages summaries =
     \<lparr> sj_topic = topic, sj_background = background,
       sj_items = map snd (sort_key (\<lambda>(at, item). (at, si_id item)) (timed_items messages summaries)) \<rparr>"

definition initializeRoomDigest :: "(string \<Rightarrow> string) \<Rightarrow> DiscussionRoom \<Rightarrow> DiscussionRoom" where
  "initializeRoomDigest sha room =
     room\<lparr>rm_contextRevision := 0,
          rm_contextDigest := computeContextDigest sha (projectSharedContext (rm_topic room) (rm_background room) [] [])\<rparr>"

text \<open>What \<open>contextSnapshotSchema\<close> demands beyond the types.\<close>

definition contextSnapshotSchema :: "ContextSnapshot \<Rightarrow> bool" where
  "contextSnapshotSchema s \<longleftrightarrow>
     cx_digestVersion s = 1
   \<and> rc_contextDigest (cx_roomContext s) \<noteq> []
   \<and> list_all (\<lambda>i. si_id i \<noteq> []) (rc_items (cx_roomContext s))
   \<and> sp_participantId (cx_participant s) \<noteq> []
   \<and> sp_participantSnapshotDigest (cx_participant s) \<noteq> []
   \<and> in_digest (cx_instruction s) \<noteq> []"

text \<open>\<open>None\<close> is the schema's exception.\<close>

definition buildContextSnapshot ::
  "(string \<Rightarrow> string) \<Rightarrow> DiscussionRoom \<Rightarrow> Participant \<Rightarrow> InstructionKind \<Rightarrow> string \<Rightarrow> SnapshotItem list
   \<Rightarrow> ContextSnapshot option" where
  "buildContextSnapshot sha room participant kind txt items =
     (let s = \<lparr> cx_digestVersion = SNAPSHOT_DIGEST_VERSION,
                cx_roomContext =
                  \<lparr> rc_contextRevision = rm_contextRevision room, rc_contextDigest = rm_contextDigest room,
                    rc_topic = (if rm_topic room = [] then None else Some (rm_topic room)),
                    rc_background = (if blank (rm_background room) then None else Some (rm_background room)),
                    rc_items = items \<rparr>,
                cx_participant =
                  \<lparr> sp_participantId = pa_id participant,
                    sp_participantSnapshotDigest = pa_snapshotDigest participant,
                    sp_personaPrompt = Some (pa_personaPrompt participant) \<rparr>,
                cx_instruction =
                  \<lparr> in_kind = kind, in_digest = computeInstructionDigest sha kind txt, in_text = txt \<rparr> \<rparr>
      in if contextSnapshotSchema s then Some s else None)"

end
