(* ===== verification/Discussion_Tx.thy ===== *)
theory Discussion_Tx
  imports Discussion_Model
begin

text \<open>
  The transactions on the browser's discussion database, \<open>lib/discussion-transactions.ts\<close>, with
  the other transactions that write its tables: joining an Agent, releasing the runtime and
  correcting a retry sentence in \<open>orchestrator/discussion-orchestrator.ts\<close>, and deleting, creating and
  renaming a room in \<open>lib/room-admin.ts\<close>.

  The database is a record of tables.  A transaction is atomic: it returns the new database and
  its result, or the error, in which case nothing is written.  A row object that the code
  fetches, mutates and puts back is a record updated and put.  \<open>where(index).equals(v)\<close> visits
  the rows in primary-key order.  \<open>tx_env\<close> holds SHA-256, the id the transaction draws and the
  answers of its clock, numbered by the calls of \<open>ts()\<close> in the text of the transaction.
\<close>

section \<open>The database\<close>

record db =
  db_agents :: "(string, DiscussionAgent) table"
  db_participants :: "(string, Participant) table"
  db_rooms :: "(string, DiscussionRoom) table"
  db_rounds :: "(string, DiscussionRound) table"
  db_messages :: "(string, DiscussionMessage) table"
  db_summaries :: "(string, DiscussionSummary) table"
  db_executions :: "(string, ModelExecution) table"
  db_bindings :: "(string, RuntimeBinding) table"
  db_reports :: "(string, DecisionReport) table"

definition empty_db :: db where
  "empty_db = \<lparr> db_agents = [], db_participants = [], db_rooms = [], db_rounds = [], db_messages = [],
     db_summaries = [], db_executions = [], db_bindings = [], db_reports = [] \<rparr>"

record tx_env =
  tv_sha :: "string \<Rightarrow> string"
  tv_uuid :: string
  tv_ts :: "nat \<Rightarrow> string"

text \<open>Rows of a table that satisfy a test, in primary-key order; \<open>first()\<close> of them.\<close>

definition rows_where :: "('v \<Rightarrow> bool) \<Rightarrow> (string, 'v) table \<Rightarrow> 'v list" where
  "rows_where P t = filter P (map snd t)"

definition first_where :: "('v \<Rightarrow> bool) \<Rightarrow> (string, 'v) table \<Rightarrow> 'v option" where
  "first_where P t = find P (map snd t)"

definition put_room :: "DiscussionRoom \<Rightarrow> db \<Rightarrow> db" where
  "put_room r d = d\<lparr>db_rooms := tb_put (rm_id r) r (db_rooms d)\<rparr>"

definition put_round :: "DiscussionRound \<Rightarrow> db \<Rightarrow> db" where
  "put_round r d = d\<lparr>db_rounds := tb_put (rd_id r) r (db_rounds d)\<rparr>"

definition put_execution :: "ModelExecution \<Rightarrow> db \<Rightarrow> db" where
  "put_execution x d = d\<lparr>db_executions := tb_put (mx_executionId x) x (db_executions d)\<rparr>"

definition put_binding :: "RuntimeBinding \<Rightarrow> db \<Rightarrow> db" where
  "put_binding b d = d\<lparr>db_bindings := tb_put (bi_id b) b (db_bindings d)\<rparr>"

text \<open>\<open>add\<close> fails when the primary key or a unique index (marked \<open>&\<close> in \<open>runtime-db.ts\<close>) is
  taken; \<open>null\<close> is not in an index.\<close>

definition add_row :: "(string, 'v) table \<Rightarrow> string \<Rightarrow> ('v \<Rightarrow> bool) \<Rightarrow> 'v \<Rightarrow> tx_error + (string, 'v) table" where
  "add_row t key clash v =
     (if tb_get t key \<noteq> None \<or> rows_where clash t \<noteq> [] then Inl ConstraintError else Inr (tb_put key v t))"

definition add_round :: "DiscussionRound \<Rightarrow> db \<Rightarrow> tx_error + db" where
  "add_round r d =
     and_then (add_row (db_rounds d) (rd_id r) (\<lambda>_. False) r) (\<lambda>t. Inr (d\<lparr>db_rounds := t\<rparr>))"

definition add_message :: "DiscussionMessage \<Rightarrow> db \<Rightarrow> tx_error + db" where
  "add_message m d =
     and_then (add_row (db_messages d) (mg_id m)
         (\<lambda>row. mg_sourceExecutionId m \<noteq> None \<and> mg_sourceExecutionId row = mg_sourceExecutionId m) m)
       (\<lambda>t. Inr (d\<lparr>db_messages := t\<rparr>))"

definition add_summary :: "DiscussionSummary \<Rightarrow> db \<Rightarrow> tx_error + db" where
  "add_summary s d =
     and_then (add_row (db_summaries d) (su_id s)
         (\<lambda>row. su_roundId row = su_roundId s \<or> su_sourceExecutionId row = su_sourceExecutionId s) s)
       (\<lambda>t. Inr (d\<lparr>db_summaries := t\<rparr>))"

definition add_report :: "DecisionReport \<Rightarrow> db \<Rightarrow> tx_error + db" where
  "add_report r d =
     and_then (add_row (db_reports d) (rp_id r) (\<lambda>row. rp_sourceExecutionId row = rp_sourceExecutionId r) r)
       (\<lambda>t. Inr (d\<lparr>db_reports := t\<rparr>))"

definition add_execution :: "ModelExecution \<Rightarrow> db \<Rightarrow> tx_error + db" where
  "add_execution x d =
     and_then (add_row (db_executions d) (mx_executionId x) (\<lambda>_. False) x) (\<lambda>t. Inr (d\<lparr>db_executions := t\<rparr>))"

definition add_binding :: "RuntimeBinding \<Rightarrow> db \<Rightarrow> tx_error + db" where
  "add_binding b d =
     and_then (add_row (db_bindings d) (bi_id b) (\<lambda>row. bi_scopeRequestId row = bi_scopeRequestId b) b)
       (\<lambda>t. Inr (d\<lparr>db_bindings := t\<rparr>))"

definition add_room :: "DiscussionRoom \<Rightarrow> db \<Rightarrow> tx_error + db" where
  "add_room r d =
     and_then (add_row (db_rooms d) (rm_id r) (\<lambda>_. False) r) (\<lambda>t. Inr (d\<lparr>db_rooms := t\<rparr>))"

definition add_participant :: "Participant \<Rightarrow> db \<Rightarrow> tx_error + db" where
  "add_participant p d =
     and_then (add_row (db_participants d) (pa_id p) (\<lambda>_. False) p) (\<lambda>t. Inr (d\<lparr>db_participants := t\<rparr>))"

section \<open>Common steps\<close>

record ControllerToken =
  ct_controllerId :: string
  ct_leaseEpoch :: nat

definition requireRoom :: "db \<Rightarrow> string \<Rightarrow> (DiscussionRoom \<Rightarrow> tx_error + 'a) \<Rightarrow> tx_error + 'a" where
  "requireRoom d roomId rest = found (tb_get (db_rooms d) roomId) ''ROOM_NOT_FOUND'' (''unknown room '' @ roomId) rest"

definition activeBindingOf :: "db \<Rightarrow> string \<Rightarrow> RuntimeBinding option" where
  "activeBindingOf d roomId =
     first_where (\<lambda>b. bi_roomId b = roomId \<and> bi_state b = binding_active) (db_bindings d)"

definition holds_lease :: "db \<Rightarrow> string \<Rightarrow> ControllerToken \<Rightarrow> bool" where
  "holds_lease d roomId token =
     (case activeBindingOf d roomId of
        None \<Rightarrow> False
      | Some b \<Rightarrow> bi_controllerId b = Some (ct_controllerId token) \<and> bi_leaseEpoch b = Some (ct_leaseEpoch token))"

definition requireController :: "db \<Rightarrow> string \<Rightarrow> ControllerToken \<Rightarrow> (tx_error + 'a) \<Rightarrow> tx_error + 'a" where
  "requireController d roomId token rest =
     require (holds_lease d roomId token) ''STALE_CONTROLLER''
       ''controllerId/leaseEpoch does not match the active runtime binding'' rest"

definition room_messages :: "db \<Rightarrow> string \<Rightarrow> DiscussionMessage list" where
  "room_messages d roomId = rows_where (\<lambda>m. mg_roomId m = roomId) (db_messages d)"

definition room_summaries :: "db \<Rightarrow> string \<Rightarrow> DiscussionSummary list" where
  "room_summaries d roomId = rows_where (\<lambda>s. su_roomId s = roomId) (db_summaries d)"

text \<open>The projection of a room's shared context, as the transaction reads it.\<close>

definition shared_context :: "db \<Rightarrow> DiscussionRoom \<Rightarrow> SharedProjection" where
  "shared_context d room =
     projectSharedContext (rm_topic room) (rm_background room)
       (room_messages d (rm_id room)) (room_summaries d (rm_id room))"

definition bumped :: "(string \<Rightarrow> string) \<Rightarrow> string \<Rightarrow> db \<Rightarrow> DiscussionRoom \<Rightarrow> DiscussionRoom" where
  "bumped sha now d room =
     room\<lparr>rm_contextRevision := rm_contextRevision room + 1,
          rm_contextDigest := computeContextDigest sha (shared_context d room),
          rm_lastActiveAt := now\<rparr>"

definition bumpRoomContext :: "(string \<Rightarrow> string) \<Rightarrow> string \<Rightarrow> DiscussionRoom \<Rightarrow> db \<Rightarrow> db" where
  "bumpRoomContext sha now room d = put_room (bumped sha now d room) d"

definition withConflictTranslation :: "tx_error + 'a \<Rightarrow> tx_error + 'a" where
  "withConflictTranslation work =
     (case work of
        Inl ConstraintError \<Rightarrow>
          Inl (TransactionError ''IDEMPOTENCY_CONFLICT'' ''a committed entity already exists for this executionId'')
      | _ \<Rightarrow> work)"

lemma withConflictTranslation_Inr [tx_success]: "withConflictTranslation w = Inr r \<longleftrightarrow> w = Inr r"
  by (auto simp: withConflictTranslation_def split: sum.splits tx_error.splits)

definition live_state :: "ModelExecutionState \<Rightarrow> bool" where
  "live_state s \<longleftrightarrow> s = mx_prepared \<or> s = mx_running \<or> s = mx_succeeded_uncommitted"

definition liveReport :: "db \<Rightarrow> string \<Rightarrow> ModelExecution option" where
  "liveReport d roomId =
     first_where (\<lambda>x. mx_roomId x = roomId \<and> mx_resultKind x = kind_report \<and> live_state (mx_state x)) (db_executions d)"

section \<open>Shared-context writes\<close>

definition appendUserMessage ::
  "tx_env \<Rightarrow> string \<Rightarrow> string \<Rightarrow> ControllerToken \<Rightarrow> string \<Rightarrow> db \<Rightarrow> tx_error + db \<times> DiscussionMessage" where
  "appendUserMessage env roomId roundId token content d =
     requireRoom d roomId (\<lambda>room.
     requireController d roomId token
     (require (row_with (\<lambda>r. rd_roomId r = roomId) (tb_get (db_rounds d) roundId))
        ''ROUND_NOT_FOUND'' ''unknown round for this room''
     (require (\<not> blank content) ''INVALID'' ''content must be non-empty''
     (let message = \<lparr> mg_id = tv_uuid env, mg_roomId = roomId, mg_roundId = roundId,
            mg_role = message_user, mg_participantId = None, mg_content = content,
            mg_sourceExecutionId = None, mg_createdAt = tv_ts env 0 \<rparr>
      in and_then (add_message message d) (\<lambda>d1.
         Inr (bumpRoomContext (tv_sha env) (tv_ts env 1) room d1, message))))))"

definition updateRoomSharedConfig ::
  "tx_env \<Rightarrow> string \<Rightarrow> ControllerToken \<Rightarrow> string option \<Rightarrow> string option \<Rightarrow> db \<Rightarrow> tx_error + db \<times> bool" where
  "updateRoomSharedConfig env roomId token topic background d =
     requireRoom d roomId (\<lambda>room.
     requireController d roomId token
     (let nextTopic = (case topic of None \<Rightarrow> rm_topic room | Some t \<Rightarrow> t);
          nextBackground = (case background of None \<Rightarrow> rm_background room | Some b \<Rightarrow> b)
      in if nextTopic = rm_topic room \<and> nextBackground = rm_background room then Inr (d, False)
         else Inr (bumpRoomContext (tv_sha env) (tv_ts env 0)
                     (room\<lparr>rm_topic := nextTopic, rm_background := nextBackground\<rparr>) d, True)))"

definition setRoomRunState ::
  "tx_env \<Rightarrow> string \<Rightarrow> ControllerToken \<Rightarrow> RoomRunState \<Rightarrow> db \<Rightarrow> tx_error + db" where
  "setRoomRunState env roomId token runState d =
     requireRoom d roomId (\<lambda>room.
     requireController d roomId token
     (Inr (put_room (room\<lparr>rm_runState := runState, rm_lastActiveAt := tv_ts env 0\<rparr>) d)))"

section \<open>Round lifecycle\<close>

definition new_round :: "tx_env \<Rightarrow> string \<Rightarrow> string list \<Rightarrow> db \<Rightarrow> DiscussionRound" where
  "new_round env roomId participantOrder d =
     \<lparr> rd_id = tv_uuid env, rd_roomId = roomId,
       rd_roundNumber = foldl max 0 (map rd_roundNumber (rows_where (\<lambda>r. rd_roomId r = roomId) (db_rounds d))) + 1,
       rd_participantOrder = participantOrder, rd_phase = phase_pending, rd_pausedFrom = None,
       rd_pauseReason = None, rd_nextParticipantIndex = 0, rd_activeExecutionId = None,
       rd_focusMessageId = Null, rd_createdAt = tv_ts env 0, rd_completedAt = None \<rparr>"

definition createRound ::
  "tx_env \<Rightarrow> string \<Rightarrow> ControllerToken \<Rightarrow> string list \<Rightarrow> db \<Rightarrow> tx_error + db \<times> DiscussionRound" where
  "createRound env roomId token participantOrder d =
     requireRoom d roomId (\<lambda>room.
     requireController d roomId token
     (require (rm_runState room \<noteq> room_paused) ''ROOM_PAUSED'' ''room is paused by the user''
     (require (rm_status room \<noteq> room_concluded) ''ROOM_CONCLUDED'' ''room is concluded; duplicate the room to continue''
     (require (rm_activeRoundId room = None) ''ROUND_ACTIVE_EXISTS'' ''room already has an unfinalized round''
     (require (liveReport d (rm_id room) = None) ''REPORT_IN_PROGRESS''
        ''a report execution is in flight; cannot start a new round''
     (let round = new_round env roomId participantOrder d
      in and_then (add_round round d) (\<lambda>d1.
         Inr (put_room (room\<lparr>rm_activeRoundId := Some (rd_id round), rm_runState := room_running,
                             rm_lastActiveAt := tv_ts env 1\<rparr>) d1, round))))))))"

definition transitionRound ::
  "string \<Rightarrow> string \<Rightarrow> ControllerToken \<Rightarrow> RoundPhase \<Rightarrow> db \<Rightarrow> tx_error + db" where
  "transitionRound roomId roundId token target d =
     requireRoom d roomId (\<lambda>room.
     requireController d roomId token
     (found (tb_get (db_rounds d) roundId) ''ROUND_NOT_FOUND'' (''unknown round '' @ roundId) (\<lambda>round.
      require (rd_phase round = (if target = phase_prewarming then phase_pending else phase_prewarming))
        ''ROUND_PHASE'' (''cannot enter '' @ round_phase_text target @ '' from phase '' @ round_phase_text (rd_phase round))
      (Inr (put_round (round\<lparr>rd_phase := target\<rparr>) d)))))"

definition pauseRound ::
  "string \<Rightarrow> string \<Rightarrow> ControllerToken \<Rightarrow> RoundPauseReason \<Rightarrow> db \<Rightarrow> tx_error + db" where
  "pauseRound roomId roundId token reason d =
     requireRoom d roomId (\<lambda>room.
     requireController d roomId token
     (found (tb_get (db_rounds d) roundId) ''ROUND_NOT_FOUND'' (''unknown round '' @ roundId) (\<lambda>round.
      require (rd_phase round = phase_prewarming \<or> rd_phase round = phase_running \<or> rd_phase round = phase_summarizing)
        ''ROUND_PHASE'' (''cannot pause from phase '' @ round_phase_text (rd_phase round))
      (Inr (put_round (round\<lparr>rd_pausedFrom := Some (rd_phase round), rd_phase := phase_paused,
                             rd_pauseReason := Some reason\<rparr>) d)))))"

definition resumeRound :: "string \<Rightarrow> string \<Rightarrow> ControllerToken \<Rightarrow> db \<Rightarrow> tx_error + db" where
  "resumeRound roomId roundId token d =
     requireRoom d roomId (\<lambda>room.
     requireController d roomId token
     (found (tb_get (db_rounds d) roundId) ''ROUND_NOT_FOUND'' (''unknown round '' @ roundId) (\<lambda>round.
      require (rd_phase round = phase_paused \<and> rd_pausedFrom round \<noteq> None)
        ''ROUND_PHASE'' (''cannot resume from phase '' @ round_phase_text (rd_phase round))
      (Inr (put_round (round\<lparr>rd_phase := the (rd_pausedFrom round), rd_pausedFrom := None,
                             rd_pauseReason := None\<rparr>) d)))))"

definition aborted_round :: "string \<Rightarrow> DiscussionRound \<Rightarrow> DiscussionRound" where
  "aborted_round now round =
     round\<lparr>rd_phase := phase_aborted, rd_pausedFrom := None, rd_pauseReason := None,
           rd_activeExecutionId := None, rd_completedAt := Some now\<rparr>"

definition user_cancelled_error :: ModelExecutionError where
  "user_cancelled_error = \<lparr> xe_code = ''USER_CANCELLED'', xe_phase = ''dispatch'',
     xe_message = ''round aborted by user'', xe_retryable = False, xe_driverId = None, xe_limitMs = None \<rparr>"

text \<open>The live execution of an aborted round, if it has one, becomes interrupted.\<close>

definition interrupt_active :: "string \<Rightarrow> DiscussionRound \<Rightarrow> db \<Rightarrow> db" where
  "interrupt_active now round d =
     (case rd_activeExecutionId round of
        None \<Rightarrow> d
      | Some x \<Rightarrow>
          (case tb_get (db_executions d) x of
             None \<Rightarrow> d
           | Some execution \<Rightarrow>
               if live_state (mx_state execution)
               then put_execution (execution\<lparr>mx_state := mx_interrupted, mx_error := Some user_cancelled_error,
                                              mx_ackState := None, mx_updatedAt := now\<rparr>) d
               else d))"

definition abortRound :: "tx_env \<Rightarrow> string \<Rightarrow> string \<Rightarrow> ControllerToken \<Rightarrow> db \<Rightarrow> tx_error + db" where
  "abortRound env roomId roundId token d =
     requireRoom d roomId (\<lambda>room.
     requireController d roomId token
     (found (tb_get (db_rounds d) roundId) ''ROUND_NOT_FOUND'' (''unknown round '' @ roundId) (\<lambda>round.
      require (rd_phase round \<noteq> phase_completed) ''ROUND_FINAL'' ''a completed round cannot be aborted''
      (if rd_phase round = phase_aborted then Inr d
       else Inr (put_room (room\<lparr>rm_activeRoundId := None, rm_runState := room_idle,
                                rm_lastActiveAt := tv_ts env 2\<rparr>)
                  (put_round (aborted_round (tv_ts env 1) round)
                     (interrupt_active (tv_ts env 0) round d)))))))"

text \<open>\<open>participantOrder[index]\<close>, \<open>undefined\<close> out of range.\<close>

definition at_cursor :: "DiscussionRound \<Rightarrow> string option" where
  "at_cursor round =
     (if rd_nextParticipantIndex round < length (rd_participantOrder round)
      then Some (rd_participantOrder round ! rd_nextParticipantIndex round) else None)"

text \<open>The phase after the cursor has moved.\<close>

definition phase_at_cursor :: "DiscussionRound \<Rightarrow> RoundPhase" where
  "phase_at_cursor round =
     (if length (rd_participantOrder round) \<le> rd_nextParticipantIndex round then phase_summarizing else phase_running)"

definition skipParticipant ::
  "tx_env \<Rightarrow> string \<Rightarrow> string \<Rightarrow> ControllerToken \<Rightarrow> db \<Rightarrow> tx_error + db \<times> string \<times> RoundPhase" where
  "skipParticipant env roomId roundId token d =
     requireRoom d roomId (\<lambda>room.
     requireController d roomId token
     (found (case tb_get (db_rounds d) roundId of None \<Rightarrow> None
              | Some r \<Rightarrow> if rd_roomId r = roomId then Some r else None)
        ''ROUND_NOT_FOUND'' ''unknown round for this room'' (\<lambda>round.
      require (rm_activeRoundId room = Some (rd_id round)) ''STALE_EXECUTION'' ''round is not the room's active round''
     (require (rd_phase round = phase_paused) ''ROUND_PHASE'' (''cannot skip from phase '' @ round_phase_text (rd_phase round))
     (found (case rd_pauseReason round of None \<Rightarrow> None
              | Some reason \<Rightarrow> if pr_participantId reason = Some [] then None else pr_participantId reason)
        ''SKIP_NOT_APPLICABLE'' ''pause has no participant at the cursor (e.g. prewarm)'' (\<lambda>skipParticipantId.
      require (skipParticipantId \<noteq> rm_facilitator room) ''FACILITATOR_NOT_SKIPPABLE''
        ''the facilitator cannot be skipped; repair or terminate instead''
     (require (rd_pausedFrom round = Some phase_running) ''ROUND_PHASE'' ''only a speaker cursor can be skipped''
     (require (at_cursor round = Some skipParticipantId) ''STALE_EXECUTION''
        ''the pause reason does not point at the round cursor''
     (let moved = round\<lparr>rd_nextParticipantIndex := rd_nextParticipantIndex round + 1,
                        rd_activeExecutionId := None, rd_pausedFrom := None, rd_pauseReason := None\<rparr>;
          round' = moved\<lparr>rd_phase := phase_at_cursor moved\<rparr>
      in Inr (put_room (room\<lparr>rm_lastActiveAt := tv_ts env 0\<rparr>) (put_round round' d),
              skipParticipantId, rd_phase round'))))))))))"

section \<open>Execution persistence\<close>

definition beginExecution :: "ModelExecution \<Rightarrow> ControllerToken \<Rightarrow> db \<Rightarrow> tx_error + db" where
  "beginExecution execution token d =
     withConflictTranslation
     (found (tb_get (db_rounds d) (mx_roundId execution)) ''ROUND_NOT_FOUND'' ''unknown round'' (\<lambda>round.
      requireRoom d (rd_roomId round) (\<lambda>room.
      requireController d (rd_roomId round) token
     (require (rm_activeRoundId room = Some (rd_id round)) ''STALE_EXECUTION'' ''round is not the room's active round''
     (require (rd_phase round = (if mx_resultKind execution = kind_summary then phase_summarizing else phase_running))
        ''ROUND_PHASE'' (''cannot start a '' @ result_kind_text (mx_resultKind execution)
           @ '' execution in phase '' @ round_phase_text (rd_phase round))
     (require (rd_activeExecutionId round = None) ''EXECUTION_ACTIVE'' ''round already has an active execution''
     (require (row_with (\<lambda>p. pa_state p = participant_active) (tb_get (db_participants d) (mx_participantId execution)))
        ''PARTICIPANT_INACTIVE'' ''participant is not active''
     (let rest = require (\<not> ((mx_resultKind execution = kind_message \<or> mx_resultKind execution = kind_summary)
                              \<and> rd_focusMessageId round = Null))
            ''FOCUS_REQUIRED'' ''round awaits its facilitator focus before any participant may speak''
           (and_then (add_execution execution d) (\<lambda>d1.
            Inr (put_round (round\<lparr>rd_activeExecutionId := Some (mx_executionId execution)\<rparr>) d1)))
      in if mx_resultKind execution = kind_summary
         then require (mx_participantId execution = rm_facilitator room) ''FACILITATOR_MISMATCH''
                ''summary execution must belong to the room facilitator'' rest
         else require (at_cursor round = Some (mx_participantId execution)) ''STALE_EXECUTION''
                ''participant is not at the round cursor'' rest))))))))"

definition markExecutionDispatched ::
  "tx_env \<Rightarrow> string \<Rightarrow> string \<Rightarrow> string \<Rightarrow> DispatchState \<Rightarrow> db \<Rightarrow> tx_error + db" where
  "markExecutionDispatched env executionId hostInstanceId executionScopeId dispatchState d =
     found (tb_get (db_executions d) executionId) ''EXECUTION_NOT_FOUND'' ''unknown execution'' (\<lambda>execution.
     require (mx_state execution = mx_prepared) ''EXECUTION_STATE''
       (''cannot mark dispatched from state '' @ execution_state_text (mx_state execution))
     (Inr (put_execution (execution\<lparr>mx_state := mx_running, mx_hostInstanceId := Some hostInstanceId,
             mx_executionScopeId := Some executionScopeId, mx_dispatchState := dispatchState,
             mx_updatedAt := tv_ts env 0\<rparr>) d)))"

definition markExecutionSucceededUncommitted ::
  "tx_env \<Rightarrow> string \<Rightarrow> string option \<Rightarrow> Usage option \<Rightarrow> nat \<Rightarrow> DispatchState \<Rightarrow> ToolState \<Rightarrow> db \<Rightarrow> tx_error + db" where
  "markExecutionSucceededUncommitted env executionId effectiveModel usage finalEventSeq dispatchState toolState d =
     found (tb_get (db_executions d) executionId) ''EXECUTION_NOT_FOUND'' ''unknown execution'' (\<lambda>execution.
     require (mx_state execution = mx_running) ''EXECUTION_STATE''
       (''cannot mark succeeded from state '' @ execution_state_text (mx_state execution))
     (Inr (put_execution (execution\<lparr>mx_state := mx_succeeded_uncommitted, mx_effectiveModel := effectiveModel,
             mx_usage := usage, mx_finalEventSeq := Some finalEventSeq, mx_dispatchState := dispatchState,
             mx_toolState := toolState, mx_updatedAt := tv_ts env 0\<rparr>) d)))"

section \<open>Commit and discard\<close>

datatype CommitOutcome =
    CommitCommitted (co_entityId: string) (co_roundPhase: RoundPhase)
  | CommitReplayed (co_entityId: string)
  | CommitDiscarded (co_runtimeOutcome: RuntimeOutcome)

record CommitInput =
  ci_executionId :: string
  ci_token :: ControllerToken
  ci_content :: string
  ci_effectiveModel :: "string option"
  ci_usage :: "Usage option"
  ci_finalEventSeq :: nat
  ci_dispatchState :: DispatchState
  ci_toolState :: ToolState

definition contentDigestOf :: "(string \<Rightarrow> string) \<Rightarrow> string \<Rightarrow> string" where
  "contentDigestOf sha content = digest_of sha (JObj [(''digestVersion'', json_nat 1), (''content'', JStr content)])"

definition committed_execution ::
  "(string \<Rightarrow> string) \<Rightarrow> string \<Rightarrow> CommitInput \<Rightarrow> CommittedEntityType \<Rightarrow> string \<Rightarrow> ModelExecution \<Rightarrow> ModelExecution" where
  "committed_execution sha now input entityType entityId execution =
     execution\<lparr>mx_state := mx_committed, mx_contentDigest := Some (contentDigestOf sha (ci_content input)),
       mx_committedEntityType := Some entityType, mx_committedEntityId := Some entityId,
       mx_effectiveModel := ci_effectiveModel input, mx_usage := ci_usage input,
       mx_finalEventSeq := Some (ci_finalEventSeq input), mx_dispatchState := ci_dispatchState input,
       mx_toolState := ci_toolState input, mx_ackState := Some ack_pending, mx_updatedAt := now\<rparr>"

definition persistCommittedExecution ::
  "(string \<Rightarrow> string) \<Rightarrow> string \<Rightarrow> CommitInput \<Rightarrow> CommittedEntityType \<Rightarrow> string \<Rightarrow> ModelExecution \<Rightarrow> db \<Rightarrow> db" where
  "persistCommittedExecution sha now input entityType entityId execution d =
     put_execution (committed_execution sha now input entityType entityId execution) d"

definition loadCommitContext ::
  "db \<Rightarrow> string \<Rightarrow> ControllerToken
   \<Rightarrow> (ModelExecution \<Rightarrow> DiscussionRound \<Rightarrow> DiscussionRoom \<Rightarrow> Participant \<Rightarrow> tx_error + 'a) \<Rightarrow> tx_error + 'a" where
  "loadCommitContext d executionId token rest =
     found (tb_get (db_executions d) executionId) ''EXECUTION_NOT_FOUND'' ''unknown execution'' (\<lambda>execution.
     found (tb_get (db_rounds d) (mx_roundId execution)) ''ROUND_NOT_FOUND'' ''unknown round'' (\<lambda>round.
     requireRoom d (rd_roomId round) (\<lambda>room.
     requireController d (rd_roomId round) token
     (found (tb_get (db_participants d) (mx_participantId execution)) ''PARTICIPANT_NOT_FOUND'' ''unknown participant''
       (\<lambda>participant. rest execution round room participant)))))"

definition replayOrThrow ::
  "(string \<Rightarrow> string) \<Rightarrow> ModelExecution \<Rightarrow> ResultKind \<Rightarrow> string \<Rightarrow> nat \<Rightarrow> tx_error + CommitOutcome" where
  "replayOrThrow sha execution expectedKind content finalEventSeq =
     require (mx_resultKind execution = expectedKind \<and> mx_finalEventSeq execution = Some finalEventSeq
              \<and> mx_contentDigest execution = Some (contentDigestOf sha content))
       ''IDEMPOTENCY_CONFLICT'' ''same executionId replayed with different facts''
     (Inr (CommitReplayed (the (mx_committedEntityId execution))))"

definition assertCommittable :: "ModelExecution \<Rightarrow> ResultKind \<Rightarrow> (tx_error + 'a) \<Rightarrow> tx_error + 'a" where
  "assertCommittable execution expectedKind rest =
     require (mx_resultKind execution = expectedKind) ''IDEMPOTENCY_CONFLICT''
       (''execution resultKind is '' @ result_kind_text (mx_resultKind execution) @ '', not '' @ result_kind_text expectedKind)
    (require (mx_state execution = mx_running \<or> mx_state execution = mx_succeeded_uncommitted)
       ''EXECUTION_NOT_COMMITTABLE'' (''cannot commit from state '' @ execution_state_text (mx_state execution))
     rest)"

definition discarded_execution ::
  "string \<Rightarrow> RuntimeOutcome \<Rightarrow> nat \<Rightarrow> ModelExecutionError option \<Rightarrow> ModelExecution \<Rightarrow> ModelExecution" where
  "discarded_execution now outcome finalEventSeq error execution =
     execution\<lparr>mx_state := mx_discarded, mx_runtimeOutcome := Some outcome,
       mx_finalEventSeq := Some finalEventSeq, mx_ackState := Some ack_pending,
       mx_error := (case error of None \<Rightarrow> mx_error execution | Some e \<Rightarrow> Some e), mx_updatedAt := now\<rparr>"

text \<open>A round whose active execution ended without a commit: the slot is freed and, while it was
  running or summarizing, it is paused with the reason.\<close>

definition released_round :: "bool \<Rightarrow> RoundPauseReason \<Rightarrow> DiscussionRound \<Rightarrow> DiscussionRound" where
  "released_round pause reason round =
     (let free = round\<lparr>rd_activeExecutionId := None\<rparr>
      in if pause \<and> (rd_phase round = phase_running \<or> rd_phase round = phase_summarizing)
         then free\<lparr>rd_pausedFrom := Some (rd_phase round), rd_phase := phase_paused, rd_pauseReason := Some reason\<rparr>
         else free)"

definition discardLockedExecution ::
  "string \<Rightarrow> ModelExecution \<Rightarrow> DiscussionRound \<Rightarrow> RuntimeOutcome \<Rightarrow> nat \<Rightarrow> ModelExecutionError option \<Rightarrow> db \<Rightarrow> db" where
  "discardLockedExecution now execution round outcome finalEventSeq error d =
     (let d1 = put_execution (discarded_execution now outcome finalEventSeq error execution) d
      in if rd_activeExecutionId round = Some (mx_executionId execution)
         then put_round (released_round True
                \<lparr> pr_code = pause_code outcome, pr_participantId = Some (mx_participantId execution),
                  pr_executionId = Some (mx_executionId execution), pr_detail = None \<rparr> round) d1
         else d1)"

text \<open>The drift check of a commit.\<close>

definition context_drifted :: "ModelExecution \<Rightarrow> DiscussionRoom \<Rightarrow> Participant \<Rightarrow> bool" where
  "context_drifted execution room participant \<longleftrightarrow>
     mx_expectedRoomDigest execution \<noteq> rm_contextDigest room
   \<or> mx_contextRevision execution \<noteq> rm_contextRevision room
   \<or> mx_participantSnapshotDigest execution \<noteq> pa_snapshotDigest participant"

definition committed_message :: "tx_env \<Rightarrow> CommitInput \<Rightarrow> DiscussionRoom \<Rightarrow> DiscussionRound \<Rightarrow> Participant \<Rightarrow> DiscussionMessage" where
  "committed_message env input room round participant =
     \<lparr> mg_id = tv_uuid env, mg_roomId = rm_id room, mg_roundId = rd_id round, mg_role = message_participant,
       mg_participantId = Some (pa_id participant), mg_content = ci_content input,
       mg_sourceExecutionId = Some (ci_executionId input), mg_createdAt = tv_ts env 0 \<rparr>"

definition commitModelMessage :: "tx_env \<Rightarrow> CommitInput \<Rightarrow> db \<Rightarrow> tx_error + db \<times> CommitOutcome" where
  "commitModelMessage env input d =
     withConflictTranslation
     (loadCommitContext d (ci_executionId input) (ci_token input) (\<lambda>execution round room participant.
      if mx_state execution = mx_committed
      then and_then (replayOrThrow (tv_sha env) execution kind_message (ci_content input) (ci_finalEventSeq input))
             (\<lambda>outcome. Inr (d, outcome))
      else assertCommittable execution kind_message
     (require (rd_focusMessageId round \<noteq> Null) ''FOCUS_REQUIRED'' ''round has no committed focus yet''
     (require (rm_activeRoundId room = Some (rd_id round) \<and> rd_phase round = phase_running)
        ''STALE_EXECUTION'' ''round is not actively running''
     (require (rd_activeExecutionId round = Some (mx_executionId execution))
        ''STALE_EXECUTION'' ''execution is not the round's active one''
     (if context_drifted execution room participant
      then Inr (discardLockedExecution (tv_ts env 0) execution round outcome_stale_context (ci_finalEventSeq input) None d,
                CommitDiscarded outcome_stale_context)
      else let message = committed_message env input room round participant;
               moved = round\<lparr>rd_activeExecutionId := None,
                             rd_nextParticipantIndex := rd_nextParticipantIndex round + 1\<rparr>;
               round' = moved\<lparr>rd_phase := phase_at_cursor moved\<rparr>
           in and_then (add_message message d) (\<lambda>d1.
              Inr (put_round round'
                     (bumpRoomContext (tv_sha env) (tv_ts env 2) room
                       (persistCommittedExecution (tv_sha env) (tv_ts env 1) input entity_message (mg_id message) execution d1)),
                   CommitCommitted (mg_id message) (rd_phase round')))))))))"

definition commitSummary :: "tx_env \<Rightarrow> CommitInput \<Rightarrow> db \<Rightarrow> tx_error + db \<times> CommitOutcome" where
  "commitSummary env input d =
     withConflictTranslation
     (loadCommitContext d (ci_executionId input) (ci_token input) (\<lambda>execution round room participant.
      if mx_state execution = mx_committed
      then and_then (replayOrThrow (tv_sha env) execution kind_summary (ci_content input) (ci_finalEventSeq input))
             (\<lambda>outcome. Inr (d, outcome))
      else assertCommittable execution kind_summary
     (require (rm_activeRoundId room = Some (rd_id round) \<and> rd_phase round = phase_summarizing)
        ''STALE_EXECUTION'' ''round is not summarizing''
     (require (rd_activeExecutionId round = Some (mx_executionId execution))
        ''STALE_EXECUTION'' ''execution is not the round's active one''
     (require (length (rd_participantOrder round) \<le> rd_nextParticipantIndex round) ''ROUND_INVARIANT''
        ''completed requires the cursor at the end of the participant order''
     (if context_drifted execution room participant
      then Inr (discardLockedExecution (tv_ts env 0) execution round outcome_stale_context (ci_finalEventSeq input) None d,
                CommitDiscarded outcome_stale_context)
      else let summary = \<lparr> su_id = tv_uuid env, su_roomId = rm_id room, su_roundId = rd_id round,
                 su_content = ci_content input, su_sourceExecutionId = mx_executionId execution,
                 su_generatedAt = tv_ts env 0 \<rparr>
           in and_then (add_summary summary d) (\<lambda>d1.
              let d2 = persistCommittedExecution (tv_sha env) (tv_ts env 1) input entity_summary (su_id summary) execution d1;
                  room' = bumped (tv_sha env) (tv_ts env 2) d2 room
              in Inr (put_room (room'\<lparr>rm_activeRoundId := None, rm_runState := room_idle, rm_lastActiveAt := tv_ts env 4\<rparr>)
                       (put_round (round\<lparr>rd_phase := phase_completed, rd_activeExecutionId := None,
                                         rd_completedAt := Some (tv_ts env 3)\<rparr>)
                         (put_room room' d2)),
                      CommitCommitted (su_id summary) phase_completed))))))))"

section \<open>Focus\<close>

definition beginFocusExecution :: "ModelExecution \<Rightarrow> ControllerToken \<Rightarrow> db \<Rightarrow> tx_error + db" where
  "beginFocusExecution execution token d =
     withConflictTranslation
     (found (tb_get (db_rounds d) (mx_roundId execution)) ''ROUND_NOT_FOUND'' ''unknown round'' (\<lambda>round.
      requireRoom d (rd_roomId round) (\<lambda>room.
      requireController d (rd_roomId round) token
     (require (rm_activeRoundId room = Some (rd_id round)) ''STALE_EXECUTION'' ''round is not the room's active round''
     (require (rd_phase round = phase_running) ''ROUND_PHASE''
        (''cannot start a focus execution in phase '' @ round_phase_text (rd_phase round))
     (require (rd_activeExecutionId round = None) ''EXECUTION_ACTIVE'' ''round already has an active execution''
     (require (row_with (\<lambda>p. pa_state p = participant_active) (tb_get (db_participants d) (mx_participantId execution)))
        ''PARTICIPANT_INACTIVE'' ''participant is not active''
     (require (mx_participantId execution = rm_facilitator room) ''FACILITATOR_MISMATCH''
        ''focus execution must belong to the room facilitator''
     (require (rd_focusMessageId round = Null) ''STALE_EXECUTION'' ''round already has a committed focus''
     (and_then (add_execution execution d) (\<lambda>d1.
      Inr (put_round (round\<lparr>rd_activeExecutionId := Some (mx_executionId execution)\<rparr>) d1))))))))))))"

definition commitFocusMessage :: "tx_env \<Rightarrow> CommitInput \<Rightarrow> db \<Rightarrow> tx_error + db \<times> CommitOutcome" where
  "commitFocusMessage env input d =
     withConflictTranslation
     (loadCommitContext d (ci_executionId input) (ci_token input) (\<lambda>execution round room participant.
      if mx_state execution = mx_committed
      then and_then (replayOrThrow (tv_sha env) execution kind_focus (ci_content input) (ci_finalEventSeq input))
             (\<lambda>outcome. Inr (d, outcome))
      else assertCommittable execution kind_focus
     (require (mx_participantId execution = rm_facilitator room) ''FACILITATOR_MISMATCH''
        ''focus execution must belong to the room facilitator''
     (require (rm_activeRoundId room = Some (rd_id round) \<and> rd_phase round = phase_running)
        ''STALE_EXECUTION'' ''round is not actively running''
     (require (rd_activeExecutionId round = Some (mx_executionId execution))
        ''STALE_EXECUTION'' ''execution is not the round's active one''
     (require (rd_focusMessageId round = Null) ''STALE_EXECUTION'' ''round already has a committed focus''
     (if context_drifted execution room participant
      then Inr (discardLockedExecution (tv_ts env 0) execution round outcome_stale_context (ci_finalEventSeq input) None d,
                CommitDiscarded outcome_stale_context)
      else let message = committed_message env input room round participant;
               round' = round\<lparr>rd_activeExecutionId := None, rd_focusMessageId := Value (mg_id message)\<rparr>
           in and_then (add_message message d) (\<lambda>d1.
              Inr (put_round round'
                     (bumpRoomContext (tv_sha env) (tv_ts env 2) room
                       (persistCommittedExecution (tv_sha env) (tv_ts env 1) input entity_message (mg_id message) execution d1)),
                   CommitCommitted (mg_id message) (rd_phase round'))))))))))"

section \<open>Report\<close>

text \<open>The abort of the unfinalized round, and the room object after it.\<close>

definition conclude_round :: "string \<Rightarrow> DiscussionRoom \<Rightarrow> db \<Rightarrow> db" where
  "conclude_round now room d =
     (case rm_activeRoundId room of
        None \<Rightarrow> d
      | Some r \<Rightarrow>
          (case tb_get (db_rounds d) r of
             None \<Rightarrow> d
           | Some activeRound \<Rightarrow>
               if rd_phase activeRound \<noteq> phase_completed \<and> rd_phase activeRound \<noteq> phase_aborted
               then put_round (aborted_round now activeRound) d else d))"

definition beginReportExecution :: "tx_env \<Rightarrow> ModelExecution \<Rightarrow> ControllerToken \<Rightarrow> db \<Rightarrow> tx_error + db" where
  "beginReportExecution env execution token d =
     withConflictTranslation
     (require (mx_resultKind execution = kind_report) ''INVALID'' ''expected a report execution''
     (requireRoom d (mx_roomId execution) (\<lambda>room.
      requireController d (mx_roomId execution) token
     (require (rm_status room \<noteq> room_concluded) ''ROOM_CONCLUDED'' ''room is already concluded''
     (require (\<not> row_with (\<lambda>r. row_with (\<lambda>ar. rd_activeExecutionId ar \<noteq> None) (tb_get (db_rounds d) r))
                       (rm_activeRoundId room))
        ''ROUND_ACTIVE_EXISTS'' ''cannot conclude while an execution is running''
     (let d1 = conclude_round (tv_ts env 0) room d;
          room1 = (if rm_activeRoundId room = None then room
                   else room\<lparr>rm_activeRoundId := None, rm_runState := room_idle\<rparr>)
      in found (case tb_get (db_rounds d1) (mx_roundId execution) of None \<Rightarrow> None
                | Some r \<Rightarrow> if rd_roomId r = rm_id room then Some r else None)
          ''ROUND_NOT_FOUND'' ''unknown anchor round for this room'' (\<lambda>anchorRound.
         require (rd_phase anchorRound = phase_completed) ''ROUND_PHASE'' ''report must anchor on a completed round''
        (require (mx_participantId execution = rm_facilitator room) ''FACILITATOR_MISMATCH''
           ''report execution must belong to the room facilitator''
        (require (row_with (\<lambda>p. pa_state p = participant_active) (tb_get (db_participants d1) (mx_participantId execution)))
           ''PARTICIPANT_INACTIVE'' ''facilitator is not active''
        (require (liveReport d1 (rm_id room) = None) ''EXECUTION_ACTIVE'' ''a report execution is already in flight''
        (add_execution execution (put_room (room1\<lparr>rm_lastActiveAt := tv_ts env 1\<rparr>) d1))))))))))))"

definition commitReport :: "tx_env \<Rightarrow> CommitInput \<Rightarrow> db \<Rightarrow> tx_error + db \<times> CommitOutcome" where
  "commitReport env input d =
     withConflictTranslation
     (found (tb_get (db_executions d) (ci_executionId input)) ''EXECUTION_NOT_FOUND'' ''unknown execution'' (\<lambda>execution.
      requireRoom d (mx_roomId execution) (\<lambda>room.
      requireController d (mx_roomId execution) (ci_token input)
     (found (tb_get (db_participants d) (mx_participantId execution)) ''PARTICIPANT_NOT_FOUND'' ''unknown participant''
       (\<lambda>participant.
      if mx_state execution = mx_committed
      then and_then (replayOrThrow (tv_sha env) execution kind_report (ci_content input) (ci_finalEventSeq input))
             (\<lambda>outcome. Inr (d, outcome))
      else assertCommittable execution kind_report
     (require (first_where (\<lambda>r. rp_roomId r = rm_id room) (db_reports d) = None) ''IDEMPOTENCY_CONFLICT''
        ''a report already exists for this room''
     (require (rm_status room \<noteq> room_concluded) ''ROOM_CONCLUDED'' ''room is already concluded''
     (if context_drifted execution room participant
      then Inr (put_execution (discarded_execution (tv_ts env 0) outcome_stale_context (ci_finalEventSeq input) None execution) d,
                CommitDiscarded outcome_stale_context)
      else and_then (createDecisionReport (tv_ts env 0) (tv_uuid env) (rm_id room) (ci_content input) (mx_executionId execution))
        (\<lambda>report. and_then (add_report report d) (\<lambda>d1.
           Inr (put_room (room\<lparr>rm_status := room_concluded, rm_runState := room_idle, rm_lastActiveAt := tv_ts env 2\<rparr>)
                  (persistCommittedExecution (tv_sha env) (tv_ts env 1) input entity_report (rp_id report) execution d1),
                CommitCommitted (rp_id report) phase_completed)))))))))))"

section \<open>Discard and failure\<close>

datatype DiscardResult = DiscardedAs RuntimeOutcome | DiscardReplayed

definition discardExecution ::
  "tx_env \<Rightarrow> string \<Rightarrow> ControllerToken \<Rightarrow> RuntimeOutcome \<Rightarrow> nat \<Rightarrow> ModelExecutionError option \<Rightarrow> db
   \<Rightarrow> tx_error + db \<times> DiscardResult" where
  "discardExecution env executionId token outcome finalEventSeq error d =
     loadCommitContext d executionId token (\<lambda>execution round room participant.
     require (mx_state execution \<noteq> mx_committed) ''IDEMPOTENCY_CONFLICT'' ''a committed execution cannot become discarded''
     (if mx_state execution = mx_discarded
      then require (mx_runtimeOutcome execution = Some outcome \<and> mx_finalEventSeq execution = Some finalEventSeq)
             ''IDEMPOTENCY_CONFLICT'' ''same executionId discarded with different facts''
           (Inr (d, DiscardReplayed))
      else require (mx_state execution = mx_running \<or> mx_state execution = mx_succeeded_uncommitted)
             ''EXECUTION_STATE'' (''cannot discard from state '' @ execution_state_text (mx_state execution))
           (Inr (discardLockedExecution (tv_ts env 0) execution round outcome finalEventSeq error d, DiscardedAs outcome))))"

definition failed_execution :: "string \<Rightarrow> ModelExecutionState \<Rightarrow> ModelExecutionError \<Rightarrow> ModelExecution \<Rightarrow> ModelExecution" where
  "failed_execution now kind error execution =
     execution\<lparr>mx_state := kind, mx_error := Some error, mx_ackState := None, mx_updatedAt := now\<rparr>"

text \<open>\<open>recordExecutionFailure\<close> with the puts of its callers; \<open>kind\<close> is failed or interrupted.\<close>

definition recordExecutionFailure ::
  "string \<Rightarrow> ModelExecution \<Rightarrow> DiscussionRound \<Rightarrow> ModelExecutionState \<Rightarrow> ModelExecutionError \<Rightarrow> bool \<Rightarrow> db \<Rightarrow> db" where
  "recordExecutionFailure now execution round kind error pause d =
     (let d1 = put_execution (failed_execution now kind error execution) d
      in if rd_activeExecutionId round = Some (mx_executionId execution)
         then put_round (released_round pause
                \<lparr> pr_code = (if xe_code error = ''USER_CANCELLED'' then pause_user_cancelled else pause_execution_failed),
                  pr_participantId = Some (mx_participantId execution),
                  pr_executionId = Some (mx_executionId execution),
                  pr_detail = Some (clip_string (xe_message error) 256) \<rparr> round) d1
         else d1)"

definition failExecution ::
  "tx_env \<Rightarrow> string \<Rightarrow> ControllerToken \<Rightarrow> (DiscussionRoom \<Rightarrow> ModelExecutionError) \<Rightarrow> ModelExecutionState \<Rightarrow> bool \<Rightarrow> db
   \<Rightarrow> tx_error + db \<times> DiscussionRoom" where
  "failExecution env executionId token error kind pause d =
     loadCommitContext d executionId token (\<lambda>execution round room participant.
     require (mx_state execution \<noteq> mx_committed \<and> mx_state execution \<noteq> mx_discarded) ''IDEMPOTENCY_CONFLICT''
       (''a '' @ execution_state_text (mx_state execution) @ '' execution cannot become '' @ execution_state_text kind)
     (if mx_state execution = mx_failed \<or> mx_state execution = mx_interrupted then Inr (d, room)
      else Inr (recordExecutionFailure (tv_ts env 0) execution round kind (error room) pause d, room)))"

datatype UnboundFailureResult = settled | owned_by_controller

definition failUnboundExecution ::
  "tx_env \<Rightarrow> string \<Rightarrow> ModelExecutionError \<Rightarrow> ModelExecutionState \<Rightarrow> bool \<Rightarrow> db \<Rightarrow> tx_error + db \<times> UnboundFailureResult" where
  "failUnboundExecution env executionId error kind pause d =
     found (tb_get (db_executions d) executionId) ''EXECUTION_NOT_FOUND'' ''unknown execution'' (\<lambda>execution.
     if activeBindingOf d (mx_roomId execution) \<noteq> None then Inr (d, owned_by_controller)
     else require (mx_state execution \<noteq> mx_committed \<and> mx_state execution \<noteq> mx_discarded) ''IDEMPOTENCY_CONFLICT''
       (''a '' @ execution_state_text (mx_state execution) @ '' execution cannot become '' @ execution_state_text kind)
     (if mx_state execution = mx_failed \<or> mx_state execution = mx_interrupted then Inr (d, settled)
      else found (tb_get (db_rounds d) (mx_roundId execution)) ''ROUND_NOT_FOUND'' ''unknown round'' (\<lambda>round.
           Inr (recordExecutionFailure (tv_ts env 0) execution round kind error pause d, settled))))"

section \<open>Acknowledgement\<close>

definition settle_ack :: "AckState \<Rightarrow> tx_env \<Rightarrow> string \<Rightarrow> db \<Rightarrow> tx_error + db" where
  "settle_ack target env executionId d =
     found (tb_get (db_executions d) executionId) ''EXECUTION_NOT_FOUND'' ''unknown execution'' (\<lambda>execution.
     if mx_ackState execution = Some ack_pending
     then Inr (put_execution (execution\<lparr>mx_ackState := Some target, mx_updatedAt := tv_ts env 0\<rparr>) d)
     else Inr d)"

definition markAcknowledged :: "tx_env \<Rightarrow> string \<Rightarrow> db \<Rightarrow> tx_error + db" where
  "markAcknowledged = settle_ack ack_acknowledged"

definition markAckExpired :: "tx_env \<Rightarrow> string \<Rightarrow> db \<Rightarrow> tx_error + db" where
  "markAckExpired = settle_ack ack_expired"

section \<open>Runtime bindings\<close>

definition createRuntimeBindingTx :: "tx_env \<Rightarrow> string \<Rightarrow> string \<Rightarrow> db \<Rightarrow> tx_error + db \<times> RuntimeBinding" where
  "createRuntimeBindingTx env roomId scopeRequestId d =
     requireRoom d roomId (\<lambda>room.
     case first_where (\<lambda>b. bi_scopeRequestId b = scopeRequestId) (db_bindings d) of
       Some existing \<Rightarrow>
         require (bi_roomId existing = roomId) ''IDEMPOTENCY_CONFLICT'' ''scopeRequestId already used for another room''
           (Inr (d, existing))
     | None \<Rightarrow>
         require (first_where (\<lambda>b. bi_roomId b = roomId \<and> (bi_state b = binding_creating \<or> bi_state b = binding_active))
                    (db_bindings d) = None)
           ''BINDING_ACTIVE_EXISTS'' ''room already has a live runtime binding''
         (and_then (createRuntimeBinding (tv_ts env 0) (tv_uuid env) roomId scopeRequestId) (\<lambda>binding.
          and_then (add_binding binding d) (\<lambda>d1. Inr (d1, binding)))))"

definition activateRuntimeBinding ::
  "tx_env \<Rightarrow> string \<Rightarrow> string \<Rightarrow> string \<Rightarrow> string \<Rightarrow> nat \<Rightarrow> db \<Rightarrow> tx_error + db \<times> RuntimeBinding" where
  "activateRuntimeBinding env bid hostInstanceId executionScopeId controllerId leaseEpoch d =
     found (tb_get (db_bindings d) bid) ''BINDING_NOT_FOUND'' ''unknown binding'' (\<lambda>binding.
     requireRoom d (bi_roomId binding) (\<lambda>room.
     require (bi_state binding = binding_creating) ''BINDING_STALE''
       (''cannot activate a binding in state '' @ binding_state_text (bi_state binding))
     (let b = binding\<lparr>bi_state := binding_active, bi_hostInstanceId := Some hostInstanceId,
                     bi_executionScopeId := Some executionScopeId, bi_controllerId := Some controllerId,
                     bi_leaseEpoch := Some leaseEpoch, bi_updatedAt := tv_ts env 0\<rparr>
      in Inr (put_binding b d, b))))"

definition takeoverRuntimeBinding :: "tx_env \<Rightarrow> string \<Rightarrow> string \<Rightarrow> nat \<Rightarrow> db \<Rightarrow> tx_error + db" where
  "takeoverRuntimeBinding env bid controllerId leaseEpoch d =
     found (tb_get (db_bindings d) bid) ''BINDING_NOT_FOUND'' ''unknown binding'' (\<lambda>binding.
     require (bi_state binding = binding_active) ''BINDING_STALE''
       (''cannot take over a '' @ binding_state_text (bi_state binding) @ '' binding'')
     (Inr (put_binding (binding\<lparr>bi_controllerId := Some controllerId, bi_leaseEpoch := Some leaseEpoch,
                                bi_updatedAt := tv_ts env 0\<rparr>) d)))"

definition markBindingClosing :: "tx_env \<Rightarrow> string \<Rightarrow> db \<Rightarrow> tx_error + db" where
  "markBindingClosing env bid d =
     found (tb_get (db_bindings d) bid) ''BINDING_NOT_FOUND'' ''unknown binding'' (\<lambda>binding.
     if bi_state binding = binding_creating \<or> bi_state binding = binding_active
     then Inr (put_binding (binding\<lparr>bi_state := binding_closing, bi_updatedAt := tv_ts env 0\<rparr>) d)
     else Inr d)"

definition markBindingClosed :: "tx_env \<Rightarrow> string \<Rightarrow> db \<Rightarrow> tx_error + db" where
  "markBindingClosed env bid d =
     found (tb_get (db_bindings d) bid) ''BINDING_NOT_FOUND'' ''unknown binding'' (\<lambda>binding.
     if bi_state binding \<noteq> binding_closed
     then Inr (put_binding (binding\<lparr>bi_state := binding_closed, bi_updatedAt := tv_ts env 0\<rparr>) d)
     else Inr d)"

section \<open>Rooms and participants\<close>

text \<open>What \<open>db.rooms.add\<close> inserts for a new room, and the put that names its facilitator once the
  Agents have joined (\<open>room\<close> is the object inserted).\<close>

definition createRoom ::
  "tx_env \<Rightarrow> string \<Rightarrow> string \<Rightarrow> DiscussionMode \<Rightarrow> string \<Rightarrow> nat option \<Rightarrow> db \<Rightarrow> tx_error + db \<times> DiscussionRoom" where
  "createRoom env topic background mode targetOutput maxRounds d =
     and_then (createDiscussionRoom (tv_ts env 0) (tv_uuid env) topic background ''pending'' mode targetOutput maxRounds)
       (\<lambda>fresh. let room = initializeRoomDigest (tv_sha env) fresh
                in and_then (add_room room d) (\<lambda>d1. Inr (d1, room)))"

definition nameFacilitator :: "DiscussionRoom \<Rightarrow> string \<Rightarrow> db \<Rightarrow> db" where
  "nameFacilitator room participantId d = put_room (room\<lparr>rm_facilitator := participantId\<rparr>) d"

text \<open>\<open>None\<close> is the plain \<open>Error\<close> for an unknown Agent.\<close>

definition joinAgent :: "tx_env \<Rightarrow> string \<Rightarrow> string \<Rightarrow> string \<Rightarrow> db \<Rightarrow> (tx_error + db \<times> Participant) option" where
  "joinAgent env roomId agentId profileDigest d =
     (case tb_get (db_agents d) agentId of
        None \<Rightarrow> None
      | Some agent \<Rightarrow>
          (case first_where (\<lambda>p. pa_roomId p = roomId \<and> pa_agentId p = agentId \<and> pa_state p = participant_active)
                  (db_participants d) of
             Some existing \<Rightarrow> Some (Inr (d, existing))
           | None \<Rightarrow>
               let p = createParticipant (tv_sha env) (tv_ts env 0) (tv_uuid env) roomId agent profileDigest
               in Some (and_then (add_participant p d) (\<lambda>d1. Inr (d1, p)))))"

definition live_executions :: "db \<Rightarrow> string \<Rightarrow> ModelExecution list" where
  "live_executions d roomId = rows_where (\<lambda>x. mx_roomId x = roomId \<and> live_state (mx_state x)) (db_executions d)"

definition unresolved_round :: "db \<Rightarrow> DiscussionRoom \<Rightarrow> bool" where
  "unresolved_round d room \<longleftrightarrow>
     row_with (\<lambda>r. r \<noteq> [] \<and> row_with (\<lambda>round. rd_phase round \<noteq> phase_completed \<and> rd_phase round \<noteq> phase_aborted)
                  (tb_get (db_rounds d) r)) (rm_activeRoundId room)"

text \<open>
  The transaction of \<open>releaseRuntime\<close>.  \<open>None\<close> is its plain \<open>Error\<close>.  The binding it closes is the
  active one with a scope; the newest open one, the fallback, is closed only if it is active with
  a scope, and then the first search has found one.
\<close>

definition releaseRuntime_tx :: "tx_env \<Rightarrow> string \<Rightarrow> db \<Rightarrow> db option" where
  "releaseRuntime_tx env roomId d =
     (if live_executions d roomId \<noteq> [] then None
      else if row_with (unresolved_round d) (tb_get (db_rooms d) roomId) then None
      else case first_where (\<lambda>b. bi_roomId b = roomId \<and> bi_state b = binding_active
                               \<and> bi_executionScopeId b \<noteq> None \<and> bi_executionScopeId b \<noteq> Some []) (db_bindings d) of
             None \<Rightarrow> Some d
           | Some b \<Rightarrow> Some (put_binding (b\<lparr>bi_state := binding_closed, bi_updatedAt := tv_ts env 0\<rparr>) d))"

definition dropUnstartedRetryClaim :: "tx_env \<Rightarrow> string \<Rightarrow> db \<Rightarrow> db" where
  "dropUnstartedRetryClaim env executionId d =
     (case tb_get (db_executions d) executionId of
        None \<Rightarrow> d
      | Some stored \<Rightarrow>
          (case mx_error stored of
             None \<Rightarrow> d
           | Some e \<Rightarrow>
               if xe_message e \<noteq> ''pre-dispatch failure; retrying once with a new executionId'' then d
               else put_execution (stored\<lparr>mx_error := Some (e\<lparr>xe_message :=
                        ''pre-dispatch failure; room scheduling paused before retry''\<rparr>),
                        mx_updatedAt := tv_ts env 0\<rparr>) d))"

definition drop_rows :: "('v \<Rightarrow> bool) \<Rightarrow> (string, 'v) table \<Rightarrow> (string, 'v) table" where
  "drop_rows P t = filter (\<lambda>(_, v). \<not> P v) t"

definition delete_room_rows :: "string \<Rightarrow> db \<Rightarrow> db" where
  "delete_room_rows roomId d =
     d\<lparr>db_participants := drop_rows (\<lambda>p. pa_roomId p = roomId) (db_participants d),
       db_rounds := drop_rows (\<lambda>r. rd_roomId r = roomId) (db_rounds d),
       db_messages := drop_rows (\<lambda>m. mg_roomId m = roomId) (db_messages d),
       db_summaries := drop_rows (\<lambda>s. su_roomId s = roomId) (db_summaries d),
       db_executions := drop_rows (\<lambda>x. mx_roomId x = roomId) (db_executions d),
       db_bindings := drop_rows (\<lambda>b. bi_roomId b = roomId) (db_bindings d),
       db_reports := drop_rows (\<lambda>r. rp_roomId r = roomId) (db_reports d),
       db_rooms := AList.delete roomId (db_rooms d)\<rparr>"

text \<open>The transaction of \<open>deleteRoomCascade\<close>, after the runtime was released.\<close>

definition deleteRoom_tx :: "string \<Rightarrow> db \<Rightarrow> tx_error + db" where
  "deleteRoom_tx roomId d =
     (case tb_get (db_rooms d) roomId of
        None \<Rightarrow> Inr d
      | Some room \<Rightarrow>
          require (live_executions d roomId = []) ''ROOM_LIVE'' ''cannot delete while an execution is running''
         (require (\<not> unresolved_round d room) ''ROOM_LIVE'' ''cannot delete: an unresolved round remains''
         (require (rows_where (\<lambda>b. bi_roomId b = roomId \<and> bi_state b \<noteq> binding_closed) (db_bindings d) = [])
            ''ROOM_LIVE'' ''cannot delete: a runtime binding is active or being created''
         (Inr (delete_room_rows roomId d)))))"

text \<open>Renaming a cold room; a warm one goes through \<open>updateRoomSharedConfig\<close>.\<close>

definition renameRoom_cold :: "tx_env \<Rightarrow> string \<Rightarrow> string \<Rightarrow> db \<Rightarrow> tx_error + db \<times> bool" where
  "renameRoom_cold env roomId topic d =
     require (\<not> blank topic) ''INVALID'' ''topic required''
     (found (tb_get (db_rooms d) roomId) ''ROOM_NOT_FOUND'' (''unknown room '' @ roomId) (\<lambda>room.
      require (activeBindingOf d roomId = None) ''STALE_CONTROLLER'' ''the runtime is warm; retry''
     (if rm_topic room = topic then Inr (d, False)
      else Inr (bumpRoomContext (tv_sha env) (tv_ts env 0) (room\<lparr>rm_topic := topic\<rparr>) d, True))))"

end
