(* ===== verification/Discussion_Spec.thy ===== *)
theory Discussion_Spec
  imports Discussion_Tx
begin

text \<open>
  What the discussion database promises, as a list of guarded events on its tables, and the
  invariant of the database.  A transaction of \<open>Discussion_Tx\<close> performs a sequence of these events
  (shown in \<open>Discussion_Refinement\<close>); the invariant is preserved by each event (shown in
  \<open>Discussion_Invariant\<close>).  The invariant is stated per group of tables, over their lookup
  functions, so that an event concerns only the groups whose tables it writes.
\<close>

named_theorems db_lookup "lookups and tables after a row is put"

section \<open>Lookups\<close>

lemma tb_get_put [simp]: "tb_get (tb_put k v t) = (tb_get t)(k \<mapsto> v)"
  by (induction k v t rule: tb_put.induct) (auto simp: fun_eq_iff)

abbreviation "rooms d \<equiv> tb_get (db_rooms d)"
abbreviation "rounds d \<equiv> tb_get (db_rounds d)"
abbreviation "participants d \<equiv> tb_get (db_participants d)"
abbreviation "messages d \<equiv> tb_get (db_messages d)"
abbreviation "summaries d \<equiv> tb_get (db_summaries d)"
abbreviation "executions d \<equiv> tb_get (db_executions d)"
abbreviation "bindings d \<equiv> tb_get (db_bindings d)"
abbreviation "reports d \<equiv> tb_get (db_reports d)"

definition put_message :: "DiscussionMessage \<Rightarrow> db \<Rightarrow> db" where
  "put_message m d = d\<lparr>db_messages := tb_put (mg_id m) m (db_messages d)\<rparr>"

definition put_summary :: "DiscussionSummary \<Rightarrow> db \<Rightarrow> db" where
  "put_summary s d = d\<lparr>db_summaries := tb_put (su_id s) s (db_summaries d)\<rparr>"

definition put_report :: "DecisionReport \<Rightarrow> db \<Rightarrow> db" where
  "put_report r d = d\<lparr>db_reports := tb_put (rp_id r) r (db_reports d)\<rparr>"

definition put_participant :: "Participant \<Rightarrow> db \<Rightarrow> db" where
  "put_participant p d = d\<lparr>db_participants := tb_put (pa_id p) p (db_participants d)\<rparr>"

lemmas put_defs = put_room_def put_round_def put_execution_def put_binding_def put_message_def
  put_summary_def put_report_def put_participant_def

lemma put_tables [db_lookup]:
  "db_rooms (put_room r d) = tb_put (rm_id r) r (db_rooms d)"
  "db_rooms (put_round rd d) = db_rooms d" "db_rooms (put_execution e d) = db_rooms d"
  "db_rooms (put_binding b d) = db_rooms d" "db_rooms (put_message m d) = db_rooms d"
  "db_rooms (put_summary s d) = db_rooms d" "db_rooms (put_report p d) = db_rooms d"
  "db_rooms (put_participant q d) = db_rooms d"
  "db_rounds (put_round rd d) = tb_put (rd_id rd) rd (db_rounds d)"
  "db_rounds (put_room r d) = db_rounds d" "db_rounds (put_execution e d) = db_rounds d"
  "db_rounds (put_binding b d) = db_rounds d" "db_rounds (put_message m d) = db_rounds d"
  "db_rounds (put_summary s d) = db_rounds d" "db_rounds (put_report p d) = db_rounds d"
  "db_rounds (put_participant q d) = db_rounds d"
  "db_executions (put_execution e d) = tb_put (mx_executionId e) e (db_executions d)"
  "db_executions (put_room r d) = db_executions d" "db_executions (put_round rd d) = db_executions d"
  "db_executions (put_binding b d) = db_executions d" "db_executions (put_message m d) = db_executions d"
  "db_executions (put_summary s d) = db_executions d" "db_executions (put_report p d) = db_executions d"
  "db_executions (put_participant q d) = db_executions d"
  "db_messages (put_message m d) = tb_put (mg_id m) m (db_messages d)"
  "db_messages (put_room r d) = db_messages d" "db_messages (put_round rd d) = db_messages d"
  "db_messages (put_execution e d) = db_messages d" "db_messages (put_binding b d) = db_messages d"
  "db_messages (put_summary s d) = db_messages d" "db_messages (put_report p d) = db_messages d"
  "db_messages (put_participant q d) = db_messages d"
  "db_summaries (put_summary s d) = tb_put (su_id s) s (db_summaries d)"
  "db_summaries (put_room r d) = db_summaries d" "db_summaries (put_round rd d) = db_summaries d"
  "db_summaries (put_execution e d) = db_summaries d" "db_summaries (put_binding b d) = db_summaries d"
  "db_summaries (put_message m d) = db_summaries d" "db_summaries (put_report p d) = db_summaries d"
  "db_summaries (put_participant q d) = db_summaries d"
  "db_reports (put_report p d) = tb_put (rp_id p) p (db_reports d)"
  "db_reports (put_room r d) = db_reports d" "db_reports (put_round rd d) = db_reports d"
  "db_reports (put_execution e d) = db_reports d" "db_reports (put_binding b d) = db_reports d"
  "db_reports (put_message m d) = db_reports d" "db_reports (put_summary s d) = db_reports d"
  "db_reports (put_participant q d) = db_reports d"
  "db_bindings (put_binding b d) = tb_put (bi_id b) b (db_bindings d)"
  "db_bindings (put_room r d) = db_bindings d" "db_bindings (put_round rd d) = db_bindings d"
  "db_bindings (put_execution e d) = db_bindings d" "db_bindings (put_message m d) = db_bindings d"
  "db_bindings (put_summary s d) = db_bindings d" "db_bindings (put_report p d) = db_bindings d"
  "db_bindings (put_participant q d) = db_bindings d"
  "db_participants (put_participant q d) = tb_put (pa_id q) q (db_participants d)"
  "db_participants (put_room r d) = db_participants d" "db_participants (put_round rd d) = db_participants d"
  "db_participants (put_execution e d) = db_participants d" "db_participants (put_binding b d) = db_participants d"
  "db_participants (put_message m d) = db_participants d" "db_participants (put_summary s d) = db_participants d"
  "db_participants (put_report p d) = db_participants d"
  by (simp_all add: put_defs)

lemma rows_where_iff: "tb_ok t \<Longrightarrow> v \<in> set (rows_where P t) \<longleftrightarrow> P v \<and> (\<exists>k. tb_get t k = Some v)"
  by (force simp: rows_where_def tb.in_entries [symmetric])

lemma rows_where_empty: "tb_ok t \<Longrightarrow> rows_where P t = [] \<longleftrightarrow> (\<forall>k v. tb_get t k = Some v \<longrightarrow> \<not> P v)"
  using rows_where_iff [of t _ P] by (metis list.set_intros(1) neq_Nil_conv empty_iff list.set(1))

lemma first_where_None: "tb_ok t \<Longrightarrow> first_where P t = None \<longleftrightarrow> (\<forall>k v. tb_get t k = Some v \<longrightarrow> \<not> P v)"
  by (force simp: first_where_def find_None_iff tb.in_entries [symmetric])

lemma first_where_Some:
  assumes "tb_ok t" "first_where P t = Some v"
  shows "P v \<and> (\<exists>k. tb_get t k = Some v)"
proof -
  have "P v" "v \<in> set (map snd t)"
    using assms(2) by (metis first_where_def find_Some_iff, metis first_where_def find_Some_iff nth_mem)
  then show ?thesis using assms(1) by (auto simp: tb.in_entries)
qed

lemma drop_rows_get:
  assumes "tb_ok t"
  shows "tb_get (drop_rows P t) k = (case tb_get t k of None \<Rightarrow> None | Some v \<Rightarrow> if P v then None else Some v)"
proof -
  have "distinct (map fst t)" using assms by (rule tb_ok_distinct)
  then show ?thesis
    by (induction t) (force simp: drop_rows_def map_of_eq_None_iff split: option.splits)+
qed

lemma tb_ok_drop_rows: "tb_ok t \<Longrightarrow> tb_ok (drop_rows P t)"
  by (induction t) (auto simp: drop_rows_def)

text \<open>Adding a row that a test excludes does not change the rows the test selects.\<close>

lemma rows_where_put_other:
  assumes "tb_get t k = None" "\<not> P v"
  shows "rows_where P (tb_put k v t) = rows_where P t"
  using assms by (induction k v t rule: tb_put.induct) (auto simp: rows_where_def split: if_splits)

section \<open>Rounds\<close>

definition final_phase :: "RoundPhase \<Rightarrow> bool" where
  "final_phase p \<longleftrightarrow> p = phase_completed \<or> p = phase_aborted"

text \<open>The phase a paused round stands in.\<close>

definition standing :: "DiscussionRound \<Rightarrow> RoundPhase" where
  "standing r = (case rd_pausedFrom r of None \<Rightarrow> rd_phase r | Some p \<Rightarrow> p)"

definition round_shape :: "DiscussionRound \<Rightarrow> bool" where
  "round_shape r \<longleftrightarrow>
     (rd_phase r = phase_paused \<longleftrightarrow> rd_pausedFrom r \<noteq> None)
   \<and> (rd_phase r = phase_paused \<longleftrightarrow> rd_pauseReason r \<noteq> None)
   \<and> rd_pausedFrom r \<in> {None, Some phase_prewarming, Some phase_running, Some phase_summarizing}
   \<and> (final_phase (rd_phase r) \<longleftrightarrow> rd_completedAt r \<noteq> None)
   \<and> rd_nextParticipantIndex r \<le> length (rd_participantOrder r)
   \<and> (standing r = phase_summarizing \<or> standing r = phase_completed \<longrightarrow>
        rd_nextParticipantIndex r = length (rd_participantOrder r))
   \<and> (rd_activeExecutionId r \<noteq> None \<longrightarrow> standing r = phase_running \<or> standing r = phase_summarizing)"

text \<open>Moves of one round that free its slot or leave it alone.\<close>

inductive round_move :: "DiscussionRound \<Rightarrow> DiscussionRound \<Rightarrow> bool" where
  move_prewarm: "rd_phase r = phase_pending \<Longrightarrow> round_move r (r\<lparr>rd_phase := phase_prewarming\<rparr>)"
| move_run: "rd_phase r = phase_prewarming \<Longrightarrow> round_move r (r\<lparr>rd_phase := phase_running\<rparr>)"
| move_pause: "rd_phase r \<in> {phase_prewarming, phase_running, phase_summarizing} \<Longrightarrow>
    round_move r (r\<lparr>rd_pausedFrom := Some (rd_phase r), rd_phase := phase_paused, rd_pauseReason := Some reason\<rparr>)"
| move_resume: "rd_phase r = phase_paused \<Longrightarrow> rd_pausedFrom r = Some p \<Longrightarrow>
    round_move r (r\<lparr>rd_phase := p, rd_pausedFrom := None, rd_pauseReason := None\<rparr>)"
| move_skip: "rd_phase r = phase_paused \<Longrightarrow> rd_pausedFrom r = Some phase_running \<Longrightarrow> at_cursor r \<noteq> None \<Longrightarrow>
    r' = r\<lparr>rd_nextParticipantIndex := rd_nextParticipantIndex r + 1, rd_activeExecutionId := None,
           rd_pausedFrom := None, rd_pauseReason := None\<rparr> \<Longrightarrow>
    round_move r (r'\<lparr>rd_phase := phase_at_cursor r'\<rparr>)"
| move_release: "round_move r (released_round pause reason r)"

section \<open>Executions\<close>

fun entity_type :: "ResultKind \<Rightarrow> CommittedEntityType" where
  "entity_type kind_message = entity_message"
| "entity_type kind_focus = entity_message"
| "entity_type kind_summary = entity_summary"
| "entity_type kind_report = entity_report"

definition no_entity :: "ModelExecution \<Rightarrow> bool" where
  "no_entity e \<longleftrightarrow> mx_contentDigest e = None \<and> mx_committedEntityType e = None \<and> mx_committedEntityId e = None"

fun state_shape :: "ModelExecutionState \<Rightarrow> ModelExecution \<Rightarrow> bool" where
  "state_shape mx_committed e \<longleftrightarrow>
     mx_contentDigest e \<noteq> None \<and> mx_committedEntityType e = Some (entity_type (mx_resultKind e))
   \<and> mx_committedEntityId e \<noteq> None \<and> mx_runtimeOutcome e = None \<and> mx_finalEventSeq e \<noteq> None \<and> mx_ackState e \<noteq> None"
| "state_shape mx_discarded e \<longleftrightarrow>
     no_entity e \<and> mx_runtimeOutcome e \<noteq> None \<and> mx_finalEventSeq e \<noteq> None \<and> mx_ackState e \<noteq> None"
| "state_shape _ e \<longleftrightarrow> no_entity e \<and> mx_runtimeOutcome e = None \<and> mx_ackState e = None"

abbreviation execution_shape :: "ModelExecution \<Rightarrow> bool" where
  "execution_shape e \<equiv> state_shape (mx_state e) e"

text \<open>Which execution may hold the slot of a round.\<close>

fun kind_fits :: "ResultKind \<Rightarrow> DiscussionRound \<Rightarrow> string \<Rightarrow> bool" where
  "kind_fits kind_message r p \<longleftrightarrow> standing r = phase_running \<and> at_cursor r = Some p"
| "kind_fits kind_focus r p \<longleftrightarrow> standing r = phase_running \<and> rd_focusMessageId r = Null"
| "kind_fits kind_summary r p \<longleftrightarrow> standing r = phase_summarizing"
| "kind_fits kind_report r p \<longleftrightarrow> False"

text \<open>A live execution going on, ending without a commit, or being annotated afterwards.\<close>

inductive execution_progress :: "ModelExecution \<Rightarrow> ModelExecution \<Rightarrow> bool" where
  progress_dispatched: "mx_state e = mx_prepared \<Longrightarrow>
    execution_progress e (e\<lparr>mx_state := mx_running, mx_hostInstanceId := h, mx_executionScopeId := k,
      mx_dispatchState := ds, mx_updatedAt := t\<rparr>)"
| progress_succeeded: "mx_state e = mx_running \<Longrightarrow>
    execution_progress e (e\<lparr>mx_state := mx_succeeded_uncommitted, mx_effectiveModel := em, mx_usage := u,
      mx_finalEventSeq := q, mx_dispatchState := ds, mx_toolState := ts, mx_updatedAt := t\<rparr>)"

inductive execution_end :: "ModelExecution \<Rightarrow> ModelExecution \<Rightarrow> bool" where
  end_failed: "live_state (mx_state e) \<Longrightarrow> kind \<in> {mx_failed, mx_interrupted} \<Longrightarrow>
    execution_end e (failed_execution t kind error e)"
| end_discarded: "live_state (mx_state e) \<Longrightarrow> execution_end e (discarded_execution t outcome q error e)"

inductive execution_note :: "ModelExecution \<Rightarrow> ModelExecution \<Rightarrow> bool" where
  note_ack: "mx_ackState e = Some ack_pending \<Longrightarrow> a \<in> {ack_acknowledged, ack_expired} \<Longrightarrow>
    execution_note e (e\<lparr>mx_ackState := Some a, mx_updatedAt := t\<rparr>)"
| note_error: "execution_note e (e\<lparr>mx_error := x, mx_updatedAt := t\<rparr>)"

section \<open>Bindings\<close>

definition live_binding :: "RuntimeBinding \<Rightarrow> bool" where
  "live_binding b \<longleftrightarrow> bi_state b = binding_creating \<or> bi_state b = binding_active"

definition binding_move :: "RuntimeBinding \<Rightarrow> RuntimeBinding \<Rightarrow> bool" where
  "binding_move b b' \<longleftrightarrow>
     bi_id b' = bi_id b \<and> bi_roomId b' = bi_roomId b \<and> bi_scopeRequestId b' = bi_scopeRequestId b
   \<and> (live_binding b' \<longrightarrow> live_binding b)
   \<and> (bi_state b' = binding_creating \<longrightarrow> bi_state b = binding_creating)
   \<and> (bi_state b' = binding_active \<longrightarrow> bi_controllerId b' \<noteq> None \<and> bi_leaseEpoch b' \<noteq> None)"

section \<open>Events\<close>

text \<open>Taking a user's or a model's text, or new room texts, into the shared context.\<close>

definition fresh_execution :: "ModelExecution \<Rightarrow> db \<Rightarrow> bool" where
  "fresh_execution e d \<longleftrightarrow> (\<exists>t f. e = createModelExecution t f) \<and> executions d (mx_executionId e) = None"

definition awaited :: "db \<Rightarrow> string \<Rightarrow> bool" where
  "awaited d x \<longleftrightarrow> (\<exists>r round. rounds d r = Some round \<and> rd_activeExecutionId round = Some x)"

inductive db_event :: "(string \<Rightarrow> string) \<Rightarrow> db \<Rightarrow> db \<Rightarrow> bool" for sha where
  ev_room: "rooms d k = Some room \<Longrightarrow>
    db_event sha d (put_room (room\<lparr>rm_runState := s, rm_lastActiveAt := t\<rparr>) d)"
| ev_facilitator: "rooms d k = Some room \<Longrightarrow> db_event sha d (nameFacilitator room p d)"
| ev_config: "rooms d k = Some room \<Longrightarrow>
    db_event sha d (bumpRoomContext sha t (room\<lparr>rm_topic := tp, rm_background := bg\<rparr>) d)"
| ev_user_message: "rooms d k = Some room \<Longrightarrow> rounds d (mg_roundId m) = Some round \<Longrightarrow> rd_roomId round = k \<Longrightarrow>
    messages d (mg_id m) = None \<Longrightarrow> mg_roomId m = k \<Longrightarrow> mg_role m = message_user \<Longrightarrow>
    mg_participantId m = None \<Longrightarrow> mg_sourceExecutionId m = None \<Longrightarrow>
    db_event sha d (bumpRoomContext sha t room (put_message m d))"
| ev_open_round: "rooms d k = Some room \<Longrightarrow> rm_status room = room_open \<Longrightarrow> rm_activeRoundId room = None \<Longrightarrow>
    (\<forall>x e. executions d x = Some e \<longrightarrow> \<not> (mx_roomId e = k \<and> mx_resultKind e = kind_report \<and> live_state (mx_state e))) \<Longrightarrow>
    rounds d (tv_uuid env) = None \<Longrightarrow>
    db_event sha d (put_room (room\<lparr>rm_activeRoundId := Some (tv_uuid env), rm_runState := s, rm_lastActiveAt := t\<rparr>)
                      (put_round (new_round env k order d) d))"
| ev_round: "rounds d r = Some round \<Longrightarrow> round_move round round' \<Longrightarrow> db_event sha d (put_round round' d)"
| ev_abort: "rounds d r = Some round \<Longrightarrow> rooms d (rd_roomId round) = Some room \<Longrightarrow>
    \<not> final_phase (rd_phase round) \<Longrightarrow> rd_activeExecutionId round = None \<Longrightarrow>
    db_event sha d (put_room (room\<lparr>rm_activeRoundId := None, rm_runState := s, rm_lastActiveAt := t\<rparr>)
                      (put_round (aborted_round t' round) d))"
| ev_begin: "fresh_execution e d \<Longrightarrow> rounds d (mx_roundId e) = Some round \<Longrightarrow> rd_roomId round = mx_roomId e \<Longrightarrow>
    rd_activeExecutionId round = None \<Longrightarrow> kind_fits (mx_resultKind e) round (mx_participantId e) \<Longrightarrow>
    (mx_resultKind e \<in> {kind_message, kind_summary} \<longrightarrow> rd_focusMessageId round \<noteq> Null) \<Longrightarrow>
    db_event sha d (put_round (round\<lparr>rd_activeExecutionId := Some (mx_executionId e)\<rparr>) (put_execution e d))"
| ev_begin_report: "fresh_execution e d \<Longrightarrow> mx_resultKind e = kind_report \<Longrightarrow>
    rounds d (mx_roundId e) = Some round \<Longrightarrow> rd_roomId round = mx_roomId e \<Longrightarrow>
    rooms d (mx_roomId e) = Some room \<Longrightarrow> rm_status room = room_open \<Longrightarrow> rm_activeRoundId room = None \<Longrightarrow>
    (\<forall>x e'. executions d x = Some e' \<longrightarrow>
       \<not> (mx_roomId e' = mx_roomId e \<and> mx_resultKind e' = kind_report \<and> live_state (mx_state e'))) \<Longrightarrow>
    db_event sha d (put_execution e d)"
| ev_progress: "executions d x = Some e \<Longrightarrow> execution_progress e e' \<Longrightarrow> db_event sha d (put_execution e' d)"
| ev_end: "executions d x = Some e \<Longrightarrow> execution_end e e' \<Longrightarrow> \<not> awaited d x \<Longrightarrow> db_event sha d (put_execution e' d)"
| ev_note: "executions d x = Some e \<Longrightarrow> execution_note e e' \<Longrightarrow> db_event sha d (put_execution e' d)"
| ev_commit_message: "executions d x = Some e \<Longrightarrow> rounds d (mx_roundId e) = Some round \<Longrightarrow>
    rooms d (rd_roomId round) = Some room \<Longrightarrow> rd_phase round = phase_running \<Longrightarrow>
    rd_activeExecutionId round = Some x \<Longrightarrow> messages d (mg_id m) = None \<Longrightarrow>
    m = \<lparr> mg_id = i, mg_roomId = rd_roomId round, mg_roundId = mx_roundId e, mg_role = message_participant,
          mg_participantId = Some (mx_participantId e), mg_content = ci_content input,
          mg_sourceExecutionId = Some x, mg_createdAt = t \<rparr> \<Longrightarrow>
    (mx_resultKind e = kind_message \<and> moved = round\<lparr>rd_activeExecutionId := None,
        rd_nextParticipantIndex := rd_nextParticipantIndex round + 1\<rparr> \<and> round' = moved\<lparr>rd_phase := phase_at_cursor moved\<rparr>)
    \<or> (mx_resultKind e = kind_focus \<and> round' = round\<lparr>rd_activeExecutionId := None, rd_focusMessageId := Value i\<rparr>) \<Longrightarrow>
    db_event sha d (put_round round' (bumpRoomContext sha t2 room
      (put_execution (committed_execution sha t1 input entity_message i e) (put_message m d))))"
| ev_commit_summary: "executions d x = Some e \<Longrightarrow> mx_resultKind e = kind_summary \<Longrightarrow>
    rounds d (mx_roundId e) = Some round \<Longrightarrow> rooms d (rd_roomId round) = Some room \<Longrightarrow>
    rd_phase round = phase_summarizing \<Longrightarrow> rd_activeExecutionId round = Some x \<Longrightarrow> summaries d i = None \<Longrightarrow>
    (\<forall>k s. summaries d k = Some s \<longrightarrow> su_roundId s \<noteq> mx_roundId e) \<Longrightarrow>
    sm = \<lparr> su_id = i, su_roomId = rd_roomId round, su_roundId = mx_roundId e, su_content = ci_content input,
          su_sourceExecutionId = x, su_generatedAt = t \<rparr> \<Longrightarrow>
    d2 = put_execution (committed_execution sha t1 input entity_summary i e) (put_summary sm d) \<Longrightarrow>
    db_event sha d
      (put_room ((bumped sha t2 d2 room)\<lparr>rm_activeRoundId := None, rm_runState := room_idle, rm_lastActiveAt := t4\<rparr>)
        (put_round (round\<lparr>rd_phase := phase_completed, rd_activeExecutionId := None, rd_completedAt := Some t3\<rparr>) d2))"
| ev_commit_report: "executions d x = Some e \<Longrightarrow> mx_resultKind e = kind_report \<Longrightarrow> live_state (mx_state e) \<Longrightarrow>
    rooms d (mx_roomId e) = Some room \<Longrightarrow> rm_status room = room_open \<Longrightarrow> reports d (rp_id p) = None \<Longrightarrow>
    rp_roomId p = mx_roomId e \<Longrightarrow> rp_sourceExecutionId p = x \<Longrightarrow> rp_content p = ci_content input \<Longrightarrow>
    (\<forall>k p'. reports d k = Some p' \<longrightarrow> rp_roomId p' \<noteq> mx_roomId e) \<Longrightarrow>
    db_event sha d (put_room (room\<lparr>rm_status := room_concluded, rm_runState := room_idle, rm_lastActiveAt := t2\<rparr>)
      (put_execution (committed_execution sha t1 input entity_report (rp_id p) e) (put_report p d)))"
| ev_bind: "bindings d (bi_id b) = None \<Longrightarrow> bi_state b = binding_creating \<Longrightarrow>
    (\<forall>k b'. bindings d k = Some b' \<longrightarrow> bi_scopeRequestId b' \<noteq> bi_scopeRequestId b
       \<and> \<not> (bi_roomId b' = bi_roomId b \<and> live_binding b')) \<Longrightarrow>
    rooms d (bi_roomId b) \<noteq> None \<Longrightarrow> db_event sha d (put_binding b d)"
| ev_rebind: "bindings d k = Some b \<Longrightarrow> binding_move b b' \<Longrightarrow> db_event sha d (put_binding b' d)"
| ev_join: "participants d (pa_id p) = None \<Longrightarrow> db_event sha d (put_participant p d)"
| ev_agents: "db_event sha d (d\<lparr>db_agents := ags\<rparr>)"
| ev_create: "rooms d (rm_id room) = None \<Longrightarrow> rm_activeRoundId room = None \<Longrightarrow> rm_status room = room_open \<Longrightarrow>
    db_event sha d (put_room (initializeRoomDigest sha room) d)"
| ev_delete: "rooms d k = Some room \<Longrightarrow> live_executions d k = [] \<Longrightarrow>
    (\<forall>i b. bindings d i = Some b \<longrightarrow> bi_roomId b = k \<longrightarrow> bi_state b = binding_closed) \<Longrightarrow>
    db_event sha d (delete_room_rows k d)"

section \<open>The invariant\<close>

definition keyed :: "('v \<Rightarrow> string) \<Rightarrow> (string, 'v) table \<Rightarrow> bool" where
  "keyed key t \<longleftrightarrow> tb_ok t \<and> (\<forall>k v. tb_get t k = Some v \<longrightarrow> key v = k)"

definition tables_ok :: "db \<Rightarrow> bool" where
  "tables_ok d \<longleftrightarrow> keyed rm_id (db_rooms d) \<and> keyed rd_id (db_rounds d) \<and> keyed pa_id (db_participants d)
     \<and> keyed mg_id (db_messages d) \<and> keyed su_id (db_summaries d) \<and> keyed mx_executionId (db_executions d)
     \<and> keyed bi_id (db_bindings d) \<and> keyed rp_id (db_reports d)"

type_synonym 'v lookup = "string \<Rightarrow> 'v option"

text \<open>No two rows that satisfy a test agree on a field.\<close>

definition unique_on :: "('v \<Rightarrow> bool) \<Rightarrow> ('v \<Rightarrow> 'b) \<Rightarrow> 'v lookup \<Rightarrow> bool" where
  "unique_on P f t \<longleftrightarrow>
     (\<forall>k k' v v'. t k = Some v \<longrightarrow> t k' = Some v' \<longrightarrow> P v \<longrightarrow> P v' \<longrightarrow> f v = f v' \<longrightarrow> k = k')"

text \<open>Every round has its room, and the room's pointer is exactly its unfinalized round.\<close>

definition links_ok :: "DiscussionRoom lookup \<Rightarrow> DiscussionRound lookup \<Rightarrow> bool" where
  "links_ok Rm Rd \<longleftrightarrow>
     (\<forall>k room r. Rm k = Some room \<and> rm_activeRoundId room = Some r \<longrightarrow>
        (\<exists>round. Rd r = Some round \<and> rd_roomId round = k \<and> \<not> final_phase (rd_phase round)))
   \<and> (\<forall>r round. Rd r = Some round \<longrightarrow>
        (\<exists>room. Rm (rd_roomId round) = Some room
           \<and> (final_phase (rd_phase round) \<or> rm_activeRoundId room = Some r)))"

definition rounds_ok :: "DiscussionRound lookup \<Rightarrow> bool" where
  "rounds_ok Rd \<longleftrightarrow> (\<forall>r round. Rd r = Some round \<longrightarrow> round_shape round)"

text \<open>Every execution is anchored in a round of its room; a message or a summary is only ever
  begun once the round has its focus.\<close>

definition anchors_ok :: "DiscussionRound lookup \<Rightarrow> ModelExecution lookup \<Rightarrow> bool" where
  "anchors_ok Rd Xs \<longleftrightarrow> (\<forall>x e. Xs x = Some e \<longrightarrow> execution_shape e
     \<and> (\<exists>round. Rd (mx_roundId e) = Some round \<and> rd_roomId round = mx_roomId e
         \<and> (mx_resultKind e \<in> {kind_message, kind_summary} \<longrightarrow> rd_focusMessageId round \<noteq> Null)))"

text \<open>The execution in a round's slot is live, belongs to the round and is the one due.\<close>

definition slots_ok :: "DiscussionRound lookup \<Rightarrow> ModelExecution lookup \<Rightarrow> bool" where
  "slots_ok Rd Xs \<longleftrightarrow> (\<forall>r round x. Rd r = Some round \<and> rd_activeExecutionId round = Some x \<longrightarrow>
     (\<exists>e. Xs x = Some e \<and> mx_roundId e = r \<and> live_state (mx_state e)
        \<and> kind_fits (mx_resultKind e) round (mx_participantId e)))"

definition committed_as :: "(string \<Rightarrow> string) \<Rightarrow> ModelExecution \<Rightarrow> CommittedEntityType \<Rightarrow> string \<Rightarrow> string \<Rightarrow> bool" where
  "committed_as sha e ty i content \<longleftrightarrow> mx_state e = mx_committed \<and> mx_committedEntityType e = Some ty
     \<and> mx_committedEntityId e = Some i \<and> mx_contentDigest e = Some (contentDigestOf sha content)"

definition message_ok ::
  "(string \<Rightarrow> string) \<Rightarrow> DiscussionRound lookup \<Rightarrow> ModelExecution lookup \<Rightarrow> string \<Rightarrow> DiscussionMessage \<Rightarrow> bool" where
  "message_ok sha Rd Xs k m \<longleftrightarrow>
     (\<exists>round. Rd (mg_roundId m) = Some round \<and> rd_roomId round = mg_roomId m)
   \<and> (case mg_sourceExecutionId m of
        None \<Rightarrow> mg_role m = message_user \<and> mg_participantId m = None
      | Some x \<Rightarrow> mg_role m = message_participant
          \<and> (\<exists>e. Xs x = Some e \<and> committed_as sha e entity_message k (mg_content m)
              \<and> mg_participantId m = Some (mx_participantId e) \<and> mg_roundId m = mx_roundId e))"

definition messages_ok ::
  "(string \<Rightarrow> string) \<Rightarrow> DiscussionRound lookup \<Rightarrow> ModelExecution lookup \<Rightarrow> DiscussionMessage lookup \<Rightarrow> bool" where
  "messages_ok sha Rd Xs Mg \<longleftrightarrow> (\<forall>k m. Mg k = Some m \<longrightarrow> message_ok sha Rd Xs k m)"

definition focus_ok :: "DiscussionRound lookup \<Rightarrow> DiscussionMessage lookup \<Rightarrow> bool" where
  "focus_ok Rd Mg \<longleftrightarrow> (\<forall>r round f. Rd r = Some round \<and> rd_focusMessageId round = Value f \<longrightarrow>
     (\<exists>m. Mg f = Some m \<and> mg_roundId m = r))"

definition summaries_ok ::
  "(string \<Rightarrow> string) \<Rightarrow> DiscussionRound lookup \<Rightarrow> ModelExecution lookup \<Rightarrow> DiscussionSummary lookup \<Rightarrow> bool" where
  "summaries_ok sha Rd Xs Su \<longleftrightarrow>
     (\<forall>k s. Su k = Some s \<longrightarrow>
        (\<exists>round. Rd (su_roundId s) = Some round \<and> rd_roomId round = su_roomId s \<and> rd_phase round = phase_completed)
      \<and> (\<exists>e. Xs (su_sourceExecutionId s) = Some e \<and> committed_as sha e entity_summary k (su_content s)
           \<and> mx_roundId e = su_roundId s))
   \<and> (\<forall>r round. Rd r = Some round \<and> rd_phase round = phase_completed \<longrightarrow> (\<exists>k s. Su k = Some s \<and> su_roundId s = r))
   \<and> unique_on (\<lambda>_. True) su_roundId Su"

definition reports_ok ::
  "(string \<Rightarrow> string) \<Rightarrow> DiscussionRoom lookup \<Rightarrow> ModelExecution lookup \<Rightarrow> DecisionReport lookup \<Rightarrow> bool" where
  "reports_ok sha Rm Xs Rp \<longleftrightarrow>
     (\<forall>k p. Rp k = Some p \<longrightarrow>
        (\<exists>room. Rm (rp_roomId p) = Some room \<and> rm_status room = room_concluded)
      \<and> (\<exists>e. Xs (rp_sourceExecutionId p) = Some e \<and> committed_as sha e entity_report k (rp_content p)
           \<and> mx_roomId e = rp_roomId p))
   \<and> (\<forall>k room. Rm k = Some room \<and> rm_status room = room_concluded \<longrightarrow> (\<exists>i p. Rp i = Some p \<and> rp_roomId p = k))
   \<and> unique_on (\<lambda>_. True) rp_roomId Rp"

definition live_report :: "ModelExecution \<Rightarrow> bool" where
  "live_report e \<longleftrightarrow> mx_resultKind e = kind_report \<and> live_state (mx_state e)"

text \<open>A room that is being concluded or is concluded has no unfinalized round.\<close>

definition concluding_ok :: "DiscussionRoom lookup \<Rightarrow> ModelExecution lookup \<Rightarrow> bool" where
  "concluding_ok Rm Xs \<longleftrightarrow>
     (\<forall>x e. Xs x = Some e \<and> live_report e \<longrightarrow>
        (\<exists>room. Rm (mx_roomId e) = Some room \<and> rm_activeRoundId room = None \<and> rm_status room = room_open))
   \<and> unique_on live_report mx_roomId Xs
   \<and> (\<forall>k room. Rm k = Some room \<and> rm_status room = room_concluded \<longrightarrow> rm_activeRoundId room = None)"

text \<open>A committed execution has its entity.\<close>

definition commits_ok ::
  "ModelExecution lookup \<Rightarrow> DiscussionMessage lookup \<Rightarrow> DiscussionSummary lookup \<Rightarrow> DecisionReport lookup \<Rightarrow> bool" where
  "commits_ok Xs Mg Su Rp \<longleftrightarrow> (\<forall>x e i. Xs x = Some e \<and> mx_state e = mx_committed \<and> mx_committedEntityId e = Some i \<longrightarrow>
     (case entity_type (mx_resultKind e) of
        entity_message \<Rightarrow> (\<exists>m. Mg i = Some m \<and> mg_sourceExecutionId m = Some x)
      | entity_summary \<Rightarrow> (\<exists>s. Su i = Some s \<and> su_sourceExecutionId s = x)
      | entity_report \<Rightarrow> (\<exists>p. Rp i = Some p \<and> rp_sourceExecutionId p = x)))"

definition digests_ok :: "(string \<Rightarrow> string) \<Rightarrow> db \<Rightarrow> bool" where
  "digests_ok sha d \<longleftrightarrow>
     (\<forall>k room. rooms d k = Some room \<longrightarrow> rm_contextDigest room = computeContextDigest sha (shared_context d room))"

definition bindings_ok :: "RuntimeBinding lookup \<Rightarrow> bool" where
  "bindings_ok Bi \<longleftrightarrow>
     unique_on live_binding bi_roomId Bi \<and> unique_on (\<lambda>_. True) bi_scopeRequestId Bi
   \<and> (\<forall>k b. Bi k = Some b \<and> bi_state b = binding_active \<longrightarrow> bi_controllerId b \<noteq> None \<and> bi_leaseEpoch b \<noteq> None)"

definition db_ok :: "(string \<Rightarrow> string) \<Rightarrow> db \<Rightarrow> bool" where
  "db_ok sha d \<longleftrightarrow> tables_ok d
     \<and> links_ok (rooms d) (rounds d) \<and> rounds_ok (rounds d)
     \<and> anchors_ok (rounds d) (executions d) \<and> slots_ok (rounds d) (executions d)
     \<and> messages_ok sha (rounds d) (executions d) (messages d) \<and> focus_ok (rounds d) (messages d)
     \<and> summaries_ok sha (rounds d) (executions d) (summaries d)
     \<and> reports_ok sha (rooms d) (executions d) (reports d) \<and> concluding_ok (rooms d) (executions d)
     \<and> commits_ok (executions d) (messages d) (summaries d) (reports d)
     \<and> digests_ok sha d \<and> bindings_ok (bindings d)"

end
