(* ===== verification/Discussion_Invariant.thy ===== *)
theory Discussion_Invariant
  imports Discussion_Spec
begin

text \<open>
  Every event of \<open>Discussion_Spec\<close> preserves the invariant \<open>db_ok\<close>: one lemma per group of tables,
  each by cases on the event.
\<close>

section \<open>Rows\<close>

lemma bump_tables [db_lookup]: "bumpRoomContext sha t room d = put_room (bumped sha t d room) d"
  by (simp add: bumpRoomContext_def)

lemma bumped_simps [simp]:
  "rm_id (bumped sha t d room) = rm_id room" "rm_activeRoundId (bumped sha t d room) = rm_activeRoundId room"
  "rm_status (bumped sha t d room) = rm_status room" "rm_topic (bumped sha t d room) = rm_topic room"
  "rm_background (bumped sha t d room) = rm_background room"
  "rm_facilitator (bumped sha t d room) = rm_facilitator room" "rm_runState (bumped sha t d room) = rm_runState room"
  "rm_contextRevision (bumped sha t d room) = rm_contextRevision room + 1"
  by (simp_all add: bumped_def)

lemma initializeRoomDigest_simps [simp]:
  "rm_id (initializeRoomDigest sha room) = rm_id room"
  "rm_activeRoundId (initializeRoomDigest sha room) = rm_activeRoundId room"
  "rm_status (initializeRoomDigest sha room) = rm_status room"
  by (simp_all add: initializeRoomDigest_def)

declare nameFacilitator_def [db_lookup]

lemma final_phase_simps [simp]:
  "final_phase phase_completed" "final_phase phase_aborted" "\<not> final_phase phase_pending"
  "\<not> final_phase phase_prewarming" "\<not> final_phase phase_running" "\<not> final_phase phase_summarizing"
  "\<not> final_phase phase_paused"
  by (simp_all add: final_phase_def)

lemma live_state_simps [simp]:
  "live_state mx_prepared" "live_state mx_running" "live_state mx_succeeded_uncommitted"
  "\<not> live_state mx_committed" "\<not> live_state mx_discarded" "\<not> live_state mx_failed" "\<not> live_state mx_interrupted"
  by (simp_all add: live_state_def)

lemma released_round_simps [simp]:
  "rd_id (released_round p w r) = rd_id r" "rd_roomId (released_round p w r) = rd_roomId r"
  "rd_focusMessageId (released_round p w r) = rd_focusMessageId r"
  "rd_participantOrder (released_round p w r) = rd_participantOrder r"
  "rd_roundNumber (released_round p w r) = rd_roundNumber r"
  "rd_nextParticipantIndex (released_round p w r) = rd_nextParticipantIndex r"
  "rd_activeExecutionId (released_round p w r) = None"
  "rd_completedAt (released_round p w r) = rd_completedAt r"
  "final_phase (rd_phase (released_round p w r)) = final_phase (rd_phase r)"
  "rd_phase (released_round p w r) = phase_completed \<longleftrightarrow> rd_phase r = phase_completed"
  by (auto simp: released_round_def Let_def)

lemma round_shapeD:
  assumes "round_shape r"
  shows "rd_phase r = phase_paused \<longleftrightarrow> rd_pausedFrom r \<noteq> None" "rd_phase r = phase_paused \<longleftrightarrow> rd_pauseReason r \<noteq> None"
    "rd_pausedFrom r = Some p \<Longrightarrow> p = phase_prewarming \<or> p = phase_running \<or> p = phase_summarizing"
    "final_phase (rd_phase r) \<longleftrightarrow> rd_completedAt r \<noteq> None"
    "rd_nextParticipantIndex r \<le> length (rd_participantOrder r)"
    "standing r = phase_summarizing \<or> standing r = phase_completed \<Longrightarrow>
       rd_nextParticipantIndex r = length (rd_participantOrder r)"
    "rd_activeExecutionId r = Some x \<Longrightarrow> standing r = phase_running \<or> standing r = phase_summarizing"
  using assms by (simp_all add: round_shape_def) blast

lemma standing_unpaused: "round_shape r \<Longrightarrow> rd_phase r \<noteq> phase_paused \<Longrightarrow> standing r = rd_phase r"
  by (simp add: round_shape_def standing_def)

lemma standing_released: "round_shape r \<Longrightarrow> standing (released_round p w r) = standing r"
  by (auto simp: round_shape_def standing_def released_round_def Let_def split: option.splits)

lemma phase_at_cursor_final [simp]: "\<not> final_phase (phase_at_cursor r)"
  by (simp add: phase_at_cursor_def)

lemma round_move_same:
  assumes "round_move r r'" "round_shape r"
  shows "rd_id r' = rd_id r" "rd_roomId r' = rd_roomId r" "rd_focusMessageId r' = rd_focusMessageId r"
    "rd_participantOrder r' = rd_participantOrder r" "rd_roundNumber r' = rd_roundNumber r"
    "final_phase (rd_phase r') = final_phase (rd_phase r)"
    "rd_phase r' = phase_completed \<longleftrightarrow> rd_phase r = phase_completed"
proof -
  have all: "rd_id r' = rd_id r \<and> rd_roomId r' = rd_roomId r \<and> rd_focusMessageId r' = rd_focusMessageId r
    \<and> rd_participantOrder r' = rd_participantOrder r \<and> rd_roundNumber r' = rd_roundNumber r
    \<and> final_phase (rd_phase r') = final_phase (rd_phase r)
    \<and> (rd_phase r' = phase_completed \<longleftrightarrow> rd_phase r = phase_completed)"
    using assms(1)
  proof cases
    case (move_resume p)
    then show ?thesis using round_shapeD(3) [OF assms(2), of p] by auto
  qed (auto simp: phase_at_cursor_def)
  show "rd_id r' = rd_id r" "rd_roomId r' = rd_roomId r" "rd_focusMessageId r' = rd_focusMessageId r"
    "rd_participantOrder r' = rd_participantOrder r" "rd_roundNumber r' = rd_roundNumber r"
    "final_phase (rd_phase r') = final_phase (rd_phase r)"
    "rd_phase r' = phase_completed \<longleftrightarrow> rd_phase r = phase_completed"
    using all by blast+
qed

lemma round_shape_released:
  assumes "round_shape r"
  shows "round_shape (released_round p w r)"
proof (cases "p \<and> (rd_phase r = phase_running \<or> rd_phase r = phase_summarizing)")
  case True
  then have eq: "released_round p w r
      = r\<lparr>rd_activeExecutionId := None, rd_pausedFrom := Some (rd_phase r), rd_phase := phase_paused, rd_pauseReason := Some w\<rparr>"
    by (simp add: released_round_def Let_def)
  have st: "standing r = rd_phase r" "rd_completedAt r = None"
    using standing_unpaused [OF assms] round_shapeD(4) [OF assms] True by auto
  have "rd_phase r = phase_summarizing \<Longrightarrow> rd_nextParticipantIndex r = length (rd_participantOrder r)"
    using round_shapeD(6) [OF assms] st by simp
  then show ?thesis
    unfolding eq using round_shapeD(5) [OF assms] True st(2) by (auto simp: round_shape_def standing_def)
next
  case False
  then have eq: "released_round p w r = r\<lparr>rd_activeExecutionId := None\<rparr>" by (auto simp: released_round_def Let_def)
  have "standing (r\<lparr>rd_activeExecutionId := None\<rparr>) = standing r"
    by (simp add: standing_def split: option.splits)
  with assms show ?thesis unfolding eq round_shape_def by auto
qed

lemma round_move_shape:
  assumes "round_move r r'" "round_shape r"
  shows "round_shape r'"
  using assms(1)
proof cases
  case move_prewarm
  with assms(2) show ?thesis by (auto simp: round_shape_def standing_def)
next
  case move_run
  with assms(2) show ?thesis by (auto simp: round_shape_def standing_def)
next
  case (move_pause reason)
  with assms(2) show ?thesis by (elim insertE) (auto simp: round_shape_def standing_def)
next
  case (move_resume p)
  have "p = phase_prewarming \<or> p = phase_running \<or> p = phase_summarizing"
    using round_shapeD(3) [OF assms(2)] move_resume(3) by blast
  with move_resume assms(2) show ?thesis by (elim disjE) (auto simp: round_shape_def standing_def)
next
  case (move_skip rx)
  with assms(2) show ?thesis
    by (simp add: round_shape_def standing_def phase_at_cursor_def at_cursor_def split: if_splits)
next
  case (move_release pause reason)
  with assms(2) show ?thesis by (simp add: round_shape_released)
qed

lemma round_move_slot:
  assumes "round_move r r'" "round_shape r" "rd_activeExecutionId r' = Some x"
  shows "rd_activeExecutionId r = Some x" "kind_fits k r' p = kind_fits k r p"
proof -
  have "rd_activeExecutionId r = Some x \<and> standing r' = standing r \<and> at_cursor r' = at_cursor r"
    using assms(1)
  proof cases
    case move_prewarm
    with assms(2,3) show ?thesis by (auto simp: round_shape_def standing_def)
  next
    case move_run
    with assms(2,3) show ?thesis by (auto simp: round_shape_def standing_def)
  next
    case (move_pause reason)
    with assms(2,3) show ?thesis by (elim insertE) (auto simp: round_shape_def standing_def at_cursor_def)
  next
    case (move_resume p)
    with assms(2,3) show ?thesis by (simp add: standing_def at_cursor_def)
  qed (use assms(3) in simp_all)
  then show "rd_activeExecutionId r = Some x" "kind_fits k r' p = kind_fits k r p"
    using round_move_same(3) [OF assms(1,2)] by (simp_all, cases k) simp_all
qed

lemma new_round_simps [simp]:
  "rd_id (new_round env k order d) = tv_uuid env" "rd_roomId (new_round env k order d) = k"
  "rd_phase (new_round env k order d) = phase_pending" "rd_activeExecutionId (new_round env k order d) = None"
  "rd_focusMessageId (new_round env k order d) = Null" "rd_participantOrder (new_round env k order d) = order"
  "rd_nextParticipantIndex (new_round env k order d) = 0"
  by (simp_all add: new_round_def)

lemma new_round_shape: "round_shape (new_round env k order d)"
  by (simp add: round_shape_def standing_def new_round_def)

lemma aborted_round_simps [simp]:
  "rd_id (aborted_round t r) = rd_id r" "rd_roomId (aborted_round t r) = rd_roomId r"
  "rd_phase (aborted_round t r) = phase_aborted" "rd_activeExecutionId (aborted_round t r) = None"
  "rd_focusMessageId (aborted_round t r) = rd_focusMessageId r"
  by (simp_all add: aborted_round_def)

lemma aborted_round_shape: "round_shape r \<Longrightarrow> round_shape (aborted_round t r)"
  by (simp add: round_shape_def standing_def aborted_round_def)

text \<open>The fields an execution keeps for ever.\<close>

definition same_anchor :: "ModelExecution \<Rightarrow> ModelExecution \<Rightarrow> bool" where
  "same_anchor e e' \<longleftrightarrow> mx_executionId e' = mx_executionId e \<and> mx_roomId e' = mx_roomId e
     \<and> mx_roundId e' = mx_roundId e \<and> mx_participantId e' = mx_participantId e
     \<and> mx_resultKind e' = mx_resultKind e \<and> mx_retryOfExecutionId e' = mx_retryOfExecutionId e"

lemma execution_progress_facts:
  assumes "execution_progress e e'" "execution_shape e"
  shows "same_anchor e e'" "execution_shape e'" "live_state (mx_state e)" "live_state (mx_state e')"
  using assms by (cases, auto simp: same_anchor_def no_entity_def)+

lemma execution_end_facts:
  assumes "execution_end e e'" "execution_shape e"
  shows "same_anchor e e'" "execution_shape e'" "live_state (mx_state e)" "\<not> live_state (mx_state e')"
    "mx_state e' \<noteq> mx_committed"
  using assms by (cases, auto simp: same_anchor_def no_entity_def failed_execution_def discarded_execution_def
      live_state_def)+

lemma execution_note_facts:
  assumes "execution_note e e'" "execution_shape e"
  shows "same_anchor e e'" "execution_shape e'" "mx_state e' = mx_state e"
    "mx_committedEntityId e' = mx_committedEntityId e" "mx_committedEntityType e' = mx_committedEntityType e"
    "mx_contentDigest e' = mx_contentDigest e"
proof -
  have all: "same_anchor e e' \<and> mx_state e' = mx_state e \<and> mx_committedEntityId e' = mx_committedEntityId e
    \<and> mx_committedEntityType e' = mx_committedEntityType e \<and> mx_contentDigest e' = mx_contentDigest e
    \<and> state_shape (mx_state e) e'"
    using assms(1)
  proof cases
    case (note_ack a t)
    then show ?thesis using assms(2) by (cases "mx_state e") (simp_all add: same_anchor_def no_entity_def)
  next
    case (note_error x t)
    then show ?thesis using assms(2) by (cases "mx_state e") (simp_all add: same_anchor_def no_entity_def)
  qed
  show "same_anchor e e'" "execution_shape e'" "mx_state e' = mx_state e"
    "mx_committedEntityId e' = mx_committedEntityId e" "mx_committedEntityType e' = mx_committedEntityType e"
    "mx_contentDigest e' = mx_contentDigest e"
    using all by simp_all
qed

lemma committed_execution_simps [simp]:
  "mx_executionId (committed_execution sha t input ty i e) = mx_executionId e"
  "mx_roomId (committed_execution sha t input ty i e) = mx_roomId e"
  "mx_roundId (committed_execution sha t input ty i e) = mx_roundId e"
  "mx_participantId (committed_execution sha t input ty i e) = mx_participantId e"
  "mx_resultKind (committed_execution sha t input ty i e) = mx_resultKind e"
  "mx_state (committed_execution sha t input ty i e) = mx_committed"
  "mx_committedEntityId (committed_execution sha t input ty i e) = Some i"
  by (simp_all add: committed_execution_def)

lemma committed_same_anchor: "same_anchor e (committed_execution sha t input ty i e)"
  by (simp add: same_anchor_def committed_execution_def)

lemma committed_execution_as:
  "committed_as sha (committed_execution sha t input ty i e) ty i (ci_content input)"
  by (simp add: committed_as_def committed_execution_def)

lemma committed_execution_shape:
  "execution_shape e \<Longrightarrow> live_state (mx_state e) \<Longrightarrow> ty = entity_type (mx_resultKind e) \<Longrightarrow>
   execution_shape (committed_execution sha t input ty i e)"
  by (cases "mx_state e") (simp_all add: committed_execution_def)

lemma fresh_execution_facts:
  assumes "fresh_execution e d"
  shows "execution_shape e" "live_state (mx_state e)" "mx_state e = mx_prepared" "executions d (mx_executionId e) = None"
  using assms by (auto simp: fresh_execution_def createModelExecution_def no_entity_def)

lemma db_okD:
  assumes "db_ok sha d"
  shows "tables_ok d" "links_ok (rooms d) (rounds d)" "rounds_ok (rounds d)"
    "anchors_ok (rounds d) (executions d)" "slots_ok (rounds d) (executions d)"
    "messages_ok sha (rounds d) (executions d) (messages d)" "focus_ok (rounds d) (messages d)"
    "summaries_ok sha (rounds d) (executions d) (summaries d)"
    "reports_ok sha (rooms d) (executions d) (reports d)" "concluding_ok (rooms d) (executions d)"
    "commits_ok (executions d) (messages d) (summaries d) (reports d)" "digests_ok sha d"
    "bindings_ok (bindings d)"
  using assms by (simp_all add: db_ok_def)

lemma keyedD: "keyed key t \<Longrightarrow> tb_get t k = Some v \<Longrightarrow> key v = k" "keyed key t \<Longrightarrow> tb_ok t"
  by (auto simp: keyed_def)

lemma keyed_put: "keyed key t \<Longrightarrow> key v = k \<Longrightarrow> keyed key (tb_put k v t)"
  by (simp add: keyed_def tb_ok_put)

lemma keyed_drop: "keyed key t \<Longrightarrow> keyed key (drop_rows P t)"
  by (auto simp: keyed_def tb_ok_drop_rows drop_rows_get split: option.splits if_splits)

lemma keyed_delete: "keyed key t \<Longrightarrow> keyed key (AList.delete k t)"
  by (auto simp: keyed_def tb_ok_delete delete_conv' split: if_splits)

lemma tables_okD:
  assumes "tables_ok d"
  shows "keyed rm_id (db_rooms d)" "keyed rd_id (db_rounds d)" "keyed pa_id (db_participants d)"
    "keyed mg_id (db_messages d)" "keyed su_id (db_summaries d)" "keyed mx_executionId (db_executions d)"
    "keyed bi_id (db_bindings d)" "keyed rp_id (db_reports d)"
  using assms by (simp_all add: tables_ok_def)

lemma ids:
  assumes "db_ok sha d"
  shows "rooms d k = Some room \<Longrightarrow> rm_id room = k" "rounds d r = Some round \<Longrightarrow> rd_id round = r"
    "executions d x = Some e \<Longrightarrow> mx_executionId e = x" "messages d i = Some m \<Longrightarrow> mg_id m = i"
    "bindings d j = Some b \<Longrightarrow> bi_id b = j" "participants d q = Some p \<Longrightarrow> pa_id p = q"
  using tables_okD [OF db_okD(1) [OF assms]] keyedD(1) by metis+

lemma unique_on_put:
  assumes "unique_on P f t"
    and "\<And>k v'. t k = Some v' \<Longrightarrow> k \<noteq> i \<Longrightarrow> P v' \<Longrightarrow> P v \<Longrightarrow> f v' \<noteq> f v"
  shows "unique_on P f (t(i \<mapsto> v))"
  unfolding unique_on_def
proof (intro allI impI)
  fix k k' a b
  assume k: "(t(i \<mapsto> v)) k = Some a" "(t(i \<mapsto> v)) k' = Some b" "P a" "P b" "f a = f b"
  consider "k = i" "k' = i" | "k = i" "k' \<noteq> i" | "k \<noteq> i" "k' = i" | "k \<noteq> i" "k' \<noteq> i" by blast
  then show "k = k'"
  proof cases
    case 2
    with k assms(2) [of k' b] show ?thesis by auto
  next
    case 3
    with k assms(2) [of k a] show ?thesis by auto
  next
    case 4
    with k assms(1) show ?thesis unfolding unique_on_def by auto
  qed simp
qed

lemma unique_on_sub:
  "unique_on P f t \<Longrightarrow> (\<And>k v. t' k = Some v \<Longrightarrow> t k = Some v) \<Longrightarrow> unique_on P f t'"
  unfolding unique_on_def by blast

lemma unique_on_move:
  assumes "unique_on P f t" "t i = Some v" "f v' = f v" "P v' \<Longrightarrow> P v"
  shows "unique_on P f (t(i \<mapsto> v'))"
proof (rule unique_on_put [OF assms(1)])
  fix k w
  assume "t k = Some w" "k \<noteq> i" "P w" "P v'"
  with assms show "f w \<noteq> f v'" unfolding unique_on_def by metis
qed

lemma deleted_lookup [db_lookup]:
  assumes "tables_ok d"
  shows "rooms (delete_room_rows k d) = (rooms d)(k := None)"
    "rounds (delete_room_rows k d) = (\<lambda>i. case rounds d i of None \<Rightarrow> None | Some v \<Rightarrow> if rd_roomId v = k then None else Some v)"
    "executions (delete_room_rows k d)
       = (\<lambda>i. case executions d i of None \<Rightarrow> None | Some v \<Rightarrow> if mx_roomId v = k then None else Some v)"
    "messages (delete_room_rows k d)
       = (\<lambda>i. case messages d i of None \<Rightarrow> None | Some v \<Rightarrow> if mg_roomId v = k then None else Some v)"
    "summaries (delete_room_rows k d)
       = (\<lambda>i. case summaries d i of None \<Rightarrow> None | Some v \<Rightarrow> if su_roomId v = k then None else Some v)"
    "reports (delete_room_rows k d)
       = (\<lambda>i. case reports d i of None \<Rightarrow> None | Some v \<Rightarrow> if rp_roomId v = k then None else Some v)"
    "bindings (delete_room_rows k d)
       = (\<lambda>i. case bindings d i of None \<Rightarrow> None | Some v \<Rightarrow> if bi_roomId v = k then None else Some v)"
  using tables_okD [OF assms] by (auto simp: delete_room_rows_def drop_rows_get keyed_def delete_conv')

section \<open>One lemma per group of tables\<close>

lemma tables_event:
  assumes "db_event sha d d'" "tables_ok d"
  shows "tables_ok d'"
proof -
  note k = tables_okD [OF assms(2)]
  show ?thesis
    using assms(1)
  proof cases
    case (ev_delete k room)
    with k show ?thesis by (simp add: tables_ok_def delete_room_rows_def keyed_drop keyed_delete)
  next
    case (ev_agents ags)
    with assms(2) show ?thesis by (simp add: tables_ok_def)
  qed (use k in \<open>simp_all add: tables_ok_def db_lookup keyed_put\<close>)
qed

lemma links_okD:
  assumes "links_ok Rm Rd"
  shows "Rm k = Some room \<Longrightarrow> rm_activeRoundId room = Some r \<Longrightarrow>
      \<exists>round. Rd r = Some round \<and> rd_roomId round = k \<and> \<not> final_phase (rd_phase round)"
    "Rd r = Some round \<Longrightarrow>
      \<exists>room. Rm (rd_roomId round) = Some room \<and> (final_phase (rd_phase round) \<or> rm_activeRoundId room = Some r)"
  using assms unfolding links_ok_def by blast+

lemma links_okI:
  assumes "\<And>k room r. Rm k = Some room \<Longrightarrow> rm_activeRoundId room = Some r \<Longrightarrow>
      \<exists>round. Rd r = Some round \<and> rd_roomId round = k \<and> \<not> final_phase (rd_phase round)"
    and "\<And>r round. Rd r = Some round \<Longrightarrow>
      \<exists>room. Rm (rd_roomId round) = Some room \<and> (final_phase (rd_phase round) \<or> rm_activeRoundId room = Some r)"
  shows "links_ok Rm Rd"
  using assms unfolding links_ok_def by blast

lemma links_room:
  assumes "links_ok Rm Rd" "Rm k = Some room" "rm_activeRoundId room' = rm_activeRoundId room"
  shows "links_ok (Rm(k \<mapsto> room')) Rd"
proof (rule links_okI)
  fix k' rm r
  assume "(Rm(k \<mapsto> room')) k' = Some rm" "rm_activeRoundId rm = Some r"
  then show "\<exists>round. Rd r = Some round \<and> rd_roomId round = k' \<and> \<not> final_phase (rd_phase round)"
    using links_okD(1) [OF assms(1), of k' _ r] assms(2,3) by (cases "k' = k") auto
next
  fix r round
  assume "Rd r = Some round"
  from links_okD(2) [OF assms(1) this] assms(2,3)
  show "\<exists>rm. (Rm(k \<mapsto> room')) (rd_roomId round) = Some rm \<and> (final_phase (rd_phase round) \<or> rm_activeRoundId rm = Some r)"
    by auto
qed

lemma links_round:
  assumes "links_ok Rm Rd" "Rd r = Some round" "rd_roomId round' = rd_roomId round"
    "final_phase (rd_phase round') = final_phase (rd_phase round)"
  shows "links_ok Rm (Rd(r \<mapsto> round'))"
proof (rule links_okI)
  fix k rm i
  assume "Rm k = Some rm" "rm_activeRoundId rm = Some i"
  from links_okD(1) [OF assms(1) this] assms(2-4)
  show "\<exists>rd. (Rd(r \<mapsto> round')) i = Some rd \<and> rd_roomId rd = k \<and> \<not> final_phase (rd_phase rd)"
    by auto
next
  fix i rd
  assume "(Rd(r \<mapsto> round')) i = Some rd"
  then show "\<exists>rm. Rm (rd_roomId rd) = Some rm \<and> (final_phase (rd_phase rd) \<or> rm_activeRoundId rm = Some i)"
    using links_okD(2) [OF assms(1), of i] assms(2-4) by (cases "i = r") auto
qed

lemma links_close:
  assumes "links_ok Rm Rd" "Rd r = Some round" "Rm (rd_roomId round) = Some room"
    "rd_roomId round' = rd_roomId round" "final_phase (rd_phase round')" "\<not> final_phase (rd_phase round)"
    "rm_activeRoundId room' = None"
  shows "links_ok (Rm(rd_roomId round \<mapsto> room')) (Rd(r \<mapsto> round'))"
proof -
  have "rm_activeRoundId room = Some r" using assms(1,2,3,6) unfolding links_ok_def by force
  then have other: "r' \<noteq> r \<Longrightarrow> Rd r' = Some rd \<Longrightarrow> rd_roomId rd = rd_roomId round \<Longrightarrow> final_phase (rd_phase rd)" for r' rd
    using assms(1,3) unfolding links_ok_def by force
  show ?thesis
    unfolding links_ok_def
  proof (intro conjI allI impI)
    fix k rm i
    assume k: "(Rm(rd_roomId round \<mapsto> room')) k = Some rm \<and> rm_activeRoundId rm = Some i"
    then have "k \<noteq> rd_roomId round" using assms(7) by auto
    moreover from this k obtain rd where "Rd i = Some rd" "rd_roomId rd = k" "\<not> final_phase (rd_phase rd)"
      using assms(1) unfolding links_ok_def by force
    ultimately show "\<exists>rd. (Rd(r \<mapsto> round')) i = Some rd \<and> rd_roomId rd = k \<and> \<not> final_phase (rd_phase rd)"
      using assms(2) by auto
  next
    fix i rd
    assume i: "(Rd(r \<mapsto> round')) i = Some rd"
    show "\<exists>rm. (Rm(rd_roomId round \<mapsto> room')) (rd_roomId rd) = Some rm
        \<and> (final_phase (rd_phase rd) \<or> rm_activeRoundId rm = Some i)"
    proof (cases "i = r")
      case True
      then show ?thesis using i assms(4,5) by auto
    next
      case False
      then show ?thesis
        using i other assms(1) unfolding links_ok_def by (cases "rd_roomId rd = rd_roomId round") auto
    qed
  qed
qed

lemma links_open:
  assumes "links_ok Rm Rd" "Rm k = Some room" "rm_activeRoundId room = None" "Rd r = None"
    "rd_roomId round = k" "\<not> final_phase (rd_phase round)" "rm_activeRoundId room' = Some r"
  shows "links_ok (Rm(k \<mapsto> room')) (Rd(r \<mapsto> round))"
proof -
  have closed: "Rd i = Some rd \<Longrightarrow> rd_roomId rd = k \<Longrightarrow> final_phase (rd_phase rd)" for i rd
    using assms(1-3) unfolding links_ok_def by force
  show ?thesis
    unfolding links_ok_def
  proof (intro conjI allI impI)
    fix k' rm i
    assume k: "(Rm(k \<mapsto> room')) k' = Some rm \<and> rm_activeRoundId rm = Some i"
    show "\<exists>rd. (Rd(r \<mapsto> round)) i = Some rd \<and> rd_roomId rd = k' \<and> \<not> final_phase (rd_phase rd)"
    proof (cases "k' = k")
      case True
      then show ?thesis using k assms by auto
    next
      case False
      with k obtain rd where rd: "Rd i = Some rd" "rd_roomId rd = k'" "\<not> final_phase (rd_phase rd)"
        using assms(1) unfolding links_ok_def by force
      moreover have "i \<noteq> r" using rd assms(4) by auto
      ultimately show ?thesis by auto
    qed
  next
    fix i rd
    assume "(Rd(r \<mapsto> round)) i = Some rd"
    then show "\<exists>rm. (Rm(k \<mapsto> room')) (rd_roomId rd) = Some rm \<and> (final_phase (rd_phase rd) \<or> rm_activeRoundId rm = Some i)"
      using assms(1,5,7) closed unfolding links_ok_def by (cases "i = r"; cases "rd_roomId rd = k") auto
  qed
qed

lemma links_event:
  assumes "db_event sha d d'" "db_ok sha d"
  shows "links_ok (rooms d') (rounds d')"
proof -
  note L = db_okD(2) [OF assms(2)] and id = ids(1,2) [OF assms(2)]
  from assms(1) show ?thesis
  proof cases
    case (ev_round r round round')
    have "round_shape round" using db_okD(3) [OF assms(2)] ev_round(2) by (auto simp: rounds_ok_def)
    note same = round_move_same [OF ev_round(3) this]
    show ?thesis
      using links_round [OF L ev_round(2)] id(2) [OF ev_round(2)] by (simp add: ev_round(1) db_lookup same)
  next
    case (ev_delete k room)
    show ?thesis
      unfolding ev_delete(1) deleted_lookup [OF db_okD(1) [OF assms(2)]]
      using L unfolding links_ok_def by (auto split: option.splits if_splits) force+
  next
    case (ev_open_round k room env s t order)
    with id show ?thesis by (simp add: db_lookup links_open [OF L])
  next
    case (ev_abort r round room s t t')
    with id show ?thesis by (simp add: db_lookup links_close [OF L])
  next
    case (ev_commit_summary x e round room i sm input t d2 t1 t4 t2 t3)
    with id show ?thesis by (simp add: db_lookup links_close [OF L])
  next
    case (ev_begin e round)
    with id L show ?thesis by (simp add: db_lookup links_round [OF L])
  next
    case (ev_commit_message x e round room m i input t moved round' t2 t1)
    have "rd_id round' = rd_id round \<and> rd_roomId round' = rd_roomId round
        \<and> final_phase (rd_phase round') = final_phase (rd_phase round)"
      using ev_commit_message(9) ev_commit_message(5) by auto
    with id ev_commit_message show ?thesis
      by (simp add: db_lookup links_room links_round [OF links_room [OF L]])
  next
    case (ev_create room)
    then show ?thesis using L unfolding links_ok_def by (auto simp: db_lookup) force+
  qed (use L id in \<open>simp_all add: db_lookup links_room\<close>)
qed

text \<open>Shapes of the rounds.\<close>

lemma rounds_put: "rounds_ok Rd \<Longrightarrow> round_shape round' \<Longrightarrow> rounds_ok (Rd(r \<mapsto> round'))"
  by (auto simp: rounds_ok_def)

lemma kind_fits_standing: "kind_fits k r p \<Longrightarrow> standing r = phase_running \<or> standing r = phase_summarizing"
  by (cases k) simp_all

lemma round_shape_slot:
  assumes "round_shape r" "standing r = phase_running \<or> standing r = phase_summarizing"
  shows "round_shape (r\<lparr>rd_activeExecutionId := Some x\<rparr>)"
proof -
  have "standing (r\<lparr>rd_activeExecutionId := Some x\<rparr>) = standing r" by (simp add: standing_def split: option.splits)
  with assms show ?thesis unfolding round_shape_def by auto
qed

lemma round_shape_moved:
  assumes "round_shape r" "rd_phase r = phase_running" "at_cursor r \<noteq> None"
    and "m = r\<lparr>rd_activeExecutionId := None, rd_nextParticipantIndex := rd_nextParticipantIndex r + 1\<rparr>"
  shows "round_shape (m\<lparr>rd_phase := phase_at_cursor m\<rparr>)"
  using assms(1-3) unfolding assms(4)
  by (simp add: round_shape_def standing_def phase_at_cursor_def at_cursor_def split: if_splits)

lemma slotD:
  assumes "slots_ok Rd Xs" "Rd r = Some round" "rd_activeExecutionId round = Some x" "Xs x = Some e"
  shows "mx_roundId e = r" "live_state (mx_state e)" "kind_fits (mx_resultKind e) round (mx_participantId e)"
  using assms unfolding slots_ok_def by force+

lemma rounds_event:
  assumes "db_event sha d d'" "db_ok sha d"
  shows "rounds_ok (rounds d')"
proof -
  note R = db_okD(3) [OF assms(2)] and id = ids(1,2) [OF assms(2)] and S = db_okD(5) [OF assms(2)]
  have shape: "rounds d r = Some round \<Longrightarrow> round_shape round" for r round
    using R by (simp add: rounds_ok_def)
  from assms(1) show ?thesis
  proof cases
    case (ev_round r round round')
    with round_move_shape [OF ev_round(3) shape [OF ev_round(2)]] show ?thesis
      by (simp add: db_lookup rounds_put [OF R])
  next
    case (ev_delete k room)
    show ?thesis
      unfolding ev_delete(1) deleted_lookup [OF db_okD(1) [OF assms(2)]]
      using R by (auto simp: rounds_ok_def split: option.splits if_splits)
  next
    case (ev_open_round k room env s t order)
    show ?thesis by (simp add: ev_open_round db_lookup rounds_put [OF R] new_round_shape)
  next
    case (ev_abort r round room s t t')
    with shape show ?thesis by (simp add: db_lookup rounds_put [OF R] aborted_round_shape)
  next
    case (ev_commit_summary x e round room i sm input t d2 t1 t4 t2 t3)
    have "round_shape (round\<lparr>rd_phase := phase_completed, rd_activeExecutionId := None, rd_completedAt := Some t3\<rparr>)"
      using shape [OF ev_commit_summary(4)] ev_commit_summary(6)
      by (auto simp: round_shape_def standing_def)
    then show ?thesis by (simp add: ev_commit_summary db_lookup rounds_put [OF R])
  next
    case (ev_begin e round)
    with shape show ?thesis
      by (simp add: db_lookup rounds_put [OF R] round_shape_slot kind_fits_standing)
  next
    case (ev_commit_message x e round room m i input t moved round' t2 t1)
    note sh = shape [OF ev_commit_message(3)] and fits = slotD(3) [OF S ev_commit_message(3,6,2)]
    have "round_shape round'"
      using ev_commit_message(9)
    proof (elim disjE conjE)
      assume k: "mx_resultKind e = kind_message"
        and m: "moved = round\<lparr>rd_activeExecutionId := None, rd_nextParticipantIndex := rd_nextParticipantIndex round + 1\<rparr>"
        and r: "round' = moved\<lparr>rd_phase := phase_at_cursor moved\<rparr>"
      from fits k have "at_cursor round \<noteq> None" by simp
      from round_shape_moved [OF sh ev_commit_message(5) this m] show ?thesis unfolding r .
    next
      assume "round' = round\<lparr>rd_activeExecutionId := None, rd_focusMessageId := Value i\<rparr>"
      with sh ev_commit_message(5) show ?thesis by (simp add: round_shape_def standing_def)
    qed
    then show ?thesis by (simp add: ev_commit_message(1) db_lookup rounds_put [OF R])
  qed (use R in \<open>simp_all add: db_lookup\<close>)
qed

text \<open>Anchors.\<close>

definition anchored :: "DiscussionRound lookup \<Rightarrow> ModelExecution \<Rightarrow> bool" where
  "anchored Rd e \<longleftrightarrow> (\<exists>round. Rd (mx_roundId e) = Some round \<and> rd_roomId round = mx_roomId e
     \<and> (mx_resultKind e \<in> {kind_message, kind_summary} \<longrightarrow> rd_focusMessageId round \<noteq> Null))"

lemma anchors_iff: "anchors_ok Rd Xs \<longleftrightarrow> (\<forall>x e. Xs x = Some e \<longrightarrow> execution_shape e \<and> anchored Rd e)"
  by (simp add: anchors_ok_def anchored_def)

lemma anchors_round:
  assumes "anchors_ok Rd Xs"
    and "\<And>old. Rd r = Some old \<Longrightarrow> rd_roomId round = rd_roomId old \<and> (rd_focusMessageId round = Null \<longrightarrow> rd_focusMessageId old = Null)"
  shows "anchors_ok (Rd(r \<mapsto> round)) Xs"
  using assms unfolding anchors_iff anchored_def by (metis (full_types) fun_upd_apply)

lemma anchors_put:
  assumes "anchors_ok Rd Xs" "execution_shape e" "anchored Rd e"
  shows "anchors_ok Rd (Xs(x \<mapsto> e))"
  using assms by (auto simp: anchors_iff)

lemma anchored_same: "same_anchor e e' \<Longrightarrow> anchored Rd e' = anchored Rd e"
  by (simp add: same_anchor_def anchored_def)

lemma anchors_event:
  assumes "db_event sha d d'" "db_ok sha d"
  shows "anchors_ok (rounds d') (executions d')"
proof -
  note A = db_okD(4) [OF assms(2)] and id = ids(1,2,3) [OF assms(2)] and S = db_okD(5) [OF assms(2)]
  have shape: "rounds d r = Some round \<Longrightarrow> round_shape round" for r round
    using db_okD(3) [OF assms(2)] by (simp add: rounds_ok_def)
  have anch: "executions d x = Some e \<Longrightarrow> execution_shape e \<and> anchored (rounds d) e" for x e
    using A by (simp add: anchors_iff)
  from assms(1) show ?thesis
  proof cases
    case (ev_round r round round')
    with round_move_same [OF ev_round(3) shape [OF ev_round(2)]] id show ?thesis
      by (auto simp: db_lookup intro: anchors_round [OF A])
  next
    case (ev_delete k room)
    show ?thesis
      unfolding ev_delete(1) deleted_lookup [OF db_okD(1) [OF assms(2)]]
      using A by (fastforce simp: anchors_iff anchored_def split: option.splits if_splits)
  next
    case (ev_open_round k room env s t order)
    then show ?thesis by (auto simp: db_lookup intro: anchors_round [OF A])
  next
    case (ev_abort r round room s t t')
    with id show ?thesis by (auto simp: db_lookup intro: anchors_round [OF A])
  next
    case (ev_commit_summary x e round room i sm input t d2 t1 t4 t2 t3)
    with slotD(2) [OF S ev_commit_summary(4,7,2)] anch [OF ev_commit_summary(2)] id
    have "anchors_ok (rounds d) ((executions d)(x \<mapsto> committed_execution sha t1 input entity_summary i e))"
      by (intro anchors_put [OF A] committed_execution_shape) (simp_all add: anchored_def)
    then show ?thesis
      using ev_commit_summary id by (auto simp: db_lookup intro: anchors_round)
  next
    case (ev_begin e round)
    have "anchors_ok (rounds d) ((executions d)(mx_executionId e \<mapsto> e))"
      using ev_begin by (intro anchors_put [OF A]) (simp_all add: fresh_execution_facts(1) anchored_def)
    then show ?thesis using ev_begin id by (auto simp: db_lookup intro: anchors_round)
  next
    case (ev_begin_report e round room)
    then show ?thesis
      by (simp add: db_lookup anchors_put [OF A] fresh_execution_facts(1) anchored_def)
  next
    case (ev_commit_message x e round room m i input t moved round' t2 t1)
    with slotD(2) [OF S ev_commit_message(3,6,2)] anch [OF ev_commit_message(2)] id
    have "anchors_ok (rounds d) ((executions d)(x \<mapsto> committed_execution sha t1 input entity_message i e))"
      by (intro anchors_put [OF A] committed_execution_shape) (auto simp: anchored_def)
    moreover have "rd_id round' = rd_id round \<and> rd_roomId round' = rd_roomId round
        \<and> (rd_focusMessageId round' = Null \<longrightarrow> rd_focusMessageId round = Null)"
      using ev_commit_message(9) by auto
    ultimately show ?thesis
      using ev_commit_message(1-4,7,8) id by (auto simp: db_lookup intro: anchors_round)
  next
    case (ev_progress x e e')
    with anch [OF ev_progress(2)] execution_progress_facts [OF ev_progress(3)] id show ?thesis
      by (simp add: db_lookup anchors_put [OF A] anchored_same)
  next
    case (ev_end x e e')
    with anch [OF ev_end(2)] execution_end_facts [OF ev_end(3)] id show ?thesis
      by (simp add: db_lookup anchors_put [OF A] anchored_same)
  next
    case (ev_note x e e')
    with anch [OF ev_note(2)] execution_note_facts [OF ev_note(3)] id show ?thesis
      by (simp add: db_lookup anchors_put [OF A] anchored_same)
  next
    case (ev_commit_report x e room p input t2 t1)
    with anch [OF ev_commit_report(2)] id
    have "anchors_ok (rounds d) ((executions d)(x \<mapsto> committed_execution sha t1 input entity_report (rp_id p) e))"
      by (intro anchors_put [OF A] committed_execution_shape) (simp_all add: anchored_def)
    with ev_commit_report id show ?thesis by (simp add: db_lookup)
  qed (use A in \<open>simp_all add: db_lookup\<close>)
qed

text \<open>Slots.\<close>

definition slot_ok :: "ModelExecution lookup \<Rightarrow> string \<Rightarrow> DiscussionRound \<Rightarrow> bool" where
  "slot_ok Xs r round \<longleftrightarrow> (\<forall>x. rd_activeExecutionId round = Some x \<longrightarrow>
     (\<exists>e. Xs x = Some e \<and> mx_roundId e = r \<and> live_state (mx_state e)
        \<and> kind_fits (mx_resultKind e) round (mx_participantId e)))"

lemma slots_iff: "slots_ok Rd Xs \<longleftrightarrow> (\<forall>r round. Rd r = Some round \<longrightarrow> slot_ok Xs r round)"
  by (auto simp: slots_ok_def slot_ok_def)

lemma slots_round: "slots_ok Rd Xs \<Longrightarrow> slot_ok Xs r round' \<Longrightarrow> slots_ok (Rd(r \<mapsto> round')) Xs"
  by (simp add: slots_iff)

lemma slot_free: "rd_activeExecutionId round = None \<Longrightarrow> slot_ok Xs r round"
  by (simp add: slot_ok_def)

text \<open>An execution that no other round awaits, or that stays live, may be overwritten.\<close>

lemma slots_put:
  assumes "slots_ok Rd Xs" "Xs x = Some e" "same_anchor e e'"
    and "live_state (mx_state e') \<or> (\<forall>r round. Rd r = Some round \<longrightarrow> rd_activeExecutionId round \<noteq> Some x)"
  shows "slots_ok Rd (Xs(x \<mapsto> e'))"
  using assms unfolding slots_iff slot_ok_def same_anchor_def by (metis fun_upd_apply option.inject)

lemma slots_new:
  assumes "slots_ok Rd Xs" "Xs x = None"
  shows "slots_ok Rd (Xs(x \<mapsto> e))"
  using assms unfolding slots_iff slot_ok_def by (metis fun_upd_apply option.distinct(1))

text \<open>Freeing the slot of the execution that is being committed.\<close>

lemma slots_commit:
  assumes "slots_ok Rd Xs" "Rd r = Some round" "rd_activeExecutionId round = Some x"
    and "rd_activeExecutionId round' = None" "Xs x = Some e" "same_anchor e e'"
  shows "slots_ok (Rd(r \<mapsto> round')) (Xs(x \<mapsto> e'))"
proof -
  have "slots_ok (Rd(r \<mapsto> round')) Xs" using assms by (simp add: slots_round slot_free)
  moreover have "rd_activeExecutionId rd \<noteq> Some x" if "(Rd(r \<mapsto> round')) i = Some rd" for i rd
  proof
    assume "rd_activeExecutionId rd = Some x"
    with that have i: "i \<noteq> r" "Rd i = Some rd" using assms(4) by (auto split: if_splits)
    with slotD(1) [OF assms(1)] assms(2,3,5) \<open>rd_activeExecutionId rd = Some x\<close> show False by metis
  qed
  ultimately show ?thesis using assms(5,6) by (blast intro: slots_put)
qed

lemma slots_event:
  assumes "db_event sha d d'" "db_ok sha d"
  shows "slots_ok (rounds d') (executions d')"
proof -
  note A = db_okD(4) [OF assms(2)] and id = ids(1,2,3) [OF assms(2)] and S = db_okD(5) [OF assms(2)]
  have shape: "rounds d r = Some round \<Longrightarrow> round_shape round" for r round
    using db_okD(3) [OF assms(2)] by (simp add: rounds_ok_def)
  have anch: "executions d x = Some e \<Longrightarrow> execution_shape e \<and> anchored (rounds d) e" for x e
    using A by (simp add: anchors_iff)
  from assms(1) show ?thesis
  proof cases
    case (ev_round r round round')
    have "slot_ok (executions d) r round'"
      unfolding slot_ok_def
    proof (intro allI impI)
      fix x
      assume x: "rd_activeExecutionId round' = Some x"
      note move = round_move_slot [OF ev_round(3) shape [OF ev_round(2)] x]
      with S ev_round(2) show "\<exists>e. executions d x = Some e \<and> mx_roundId e = r \<and> live_state (mx_state e)
          \<and> kind_fits (mx_resultKind e) round' (mx_participantId e)"
        unfolding slots_ok_def by fastforce
    qed
    with round_move_same(1) [OF ev_round(3) shape [OF ev_round(2)]] ev_round id show ?thesis
      by (simp add: db_lookup slots_round [OF S])
  next
    case (ev_delete k room)
    have sub: "slot_ok (\<lambda>i. case executions d i of None \<Rightarrow> None | Some v \<Rightarrow> if mx_roomId v = k then None else Some v) r rd"
      if rd: "rounds d r = Some rd" "rd_roomId rd \<noteq> k" for r rd
      unfolding slot_ok_def
    proof (intro allI impI)
      fix x
      assume "rd_activeExecutionId rd = Some x"
      with S rd(1) obtain e where e: "executions d x = Some e" "mx_roundId e = r" "live_state (mx_state e)"
        "kind_fits (mx_resultKind e) rd (mx_participantId e)" unfolding slots_ok_def by blast
      with anch [OF e(1)] rd have "mx_roomId e \<noteq> k" by (auto simp: anchored_def)
      with e show "\<exists>e. (case executions d x of None \<Rightarrow> None | Some v \<Rightarrow> if mx_roomId v = k then None else Some v) = Some e
          \<and> mx_roundId e = r \<and> live_state (mx_state e) \<and> kind_fits (mx_resultKind e) rd (mx_participantId e)" by simp
    qed
    show ?thesis
      unfolding ev_delete(1) deleted_lookup [OF db_okD(1) [OF assms(2)]] slots_iff
      using sub by (auto split: option.splits if_splits)
  next
    case (ev_open_round k room env s t order)
    then show ?thesis by (simp add: db_lookup slots_round [OF S] slot_free)
  next
    case (ev_abort r round room s t t')
    with id show ?thesis by (simp add: db_lookup slots_round [OF S] slot_free)
  next
    case (ev_commit_summary x e round room i sm input t d2 t1 t4 t2 t3)
    have "slots_ok ((rounds d)(mx_roundId e \<mapsto> round\<lparr>rd_phase := phase_completed, rd_activeExecutionId := None,
        rd_completedAt := Some t3\<rparr>)) ((executions d)(x \<mapsto> committed_execution sha t1 input entity_summary i e))"
      by (rule slots_commit [OF S ev_commit_summary(4,7) _ ev_commit_summary(2) committed_same_anchor]) simp
    with ev_commit_summary id show ?thesis by (simp add: db_lookup)
  next
    case (ev_begin e round)
    note fresh = fresh_execution_facts [OF ev_begin(2)]
    have "slots_ok (rounds d) ((executions d)(mx_executionId e \<mapsto> e))" using slots_new [OF S fresh(4)] .
    moreover have "standing (round\<lparr>rd_activeExecutionId := Some (mx_executionId e)\<rparr>) = standing round"
      "at_cursor (round\<lparr>rd_activeExecutionId := Some (mx_executionId e)\<rparr>) = at_cursor round"
      by (auto simp: standing_def at_cursor_def split: option.splits)
    then have "kind_fits (mx_resultKind e) (round\<lparr>rd_activeExecutionId := Some (mx_executionId e)\<rparr>) (mx_participantId e)"
      using ev_begin(6) by (cases "mx_resultKind e") simp_all
    ultimately show ?thesis
      using ev_begin(1,3) id fresh(2) by (simp add: db_lookup slots_round slot_ok_def)
  next
    case (ev_begin_report e round room)
    with fresh_execution_facts(4) [OF ev_begin_report(2)] show ?thesis by (simp add: db_lookup slots_new [OF S])
  next
    case (ev_commit_message x e round room m i input t moved round' t2 t1)
    have same: "rd_id round' = rd_id round" "rd_activeExecutionId round' = None" using ev_commit_message(9) by auto
    have "slots_ok ((rounds d)(mx_roundId e \<mapsto> round'))
        ((executions d)(x \<mapsto> committed_execution sha t1 input entity_message i e))"
      by (rule slots_commit [OF S ev_commit_message(3,6) same(2) ev_commit_message(2) committed_same_anchor])
    with same ev_commit_message(1-4) id show ?thesis by (simp add: db_lookup)
  next
    case (ev_progress x e e')
    with execution_progress_facts(1,4) [OF ev_progress(3)] anch [OF ev_progress(2)] id show ?thesis
      by (simp add: db_lookup slots_put [OF S ev_progress(2)]) (simp add: same_anchor_def slots_put [OF S ev_progress(2)])
  next
    case (ev_end x e e')
    have "mx_executionId e' = x" using execution_end_facts(1) [OF ev_end(3)] anch [OF ev_end(2)] id(3) [OF ev_end(2)]
      by (simp add: same_anchor_def)
    moreover have "slots_ok (rounds d) ((executions d)(x \<mapsto> e'))"
      using execution_end_facts(1) [OF ev_end(3)] anch [OF ev_end(2)] ev_end(4)
      by (intro slots_put [OF S ev_end(2)]) (auto simp: awaited_def)
    ultimately show ?thesis by (simp add: ev_end(1) db_lookup)
  next
    case (ev_note x e e')
    note facts = execution_note_facts [OF ev_note(3) anch [OF ev_note(2), THEN conjunct1]]
    have "mx_executionId e' = x" using facts(1) id(3) [OF ev_note(2)] by (simp add: same_anchor_def)
    moreover have "slots_ok (rounds d) ((executions d)(x \<mapsto> e'))"
    proof (rule slots_put [OF S ev_note(2) facts(1)])
      show "live_state (mx_state e') \<or> (\<forall>r round. rounds d r = Some round \<longrightarrow> rd_activeExecutionId round \<noteq> Some x)"
        using S ev_note(2) facts(3) unfolding slots_ok_def by fastforce
    qed
    ultimately show ?thesis by (simp add: ev_note(1) db_lookup)
  next
    case (ev_commit_report x e room p input t2 t1)
    have "slots_ok (rounds d) ((executions d)(x \<mapsto> committed_execution sha t1 input entity_report (rp_id p) e))"
    proof (rule slots_put [OF S ev_commit_report(2)])
      show "live_state (mx_state (committed_execution sha t1 input entity_report (rp_id p) e))
          \<or> (\<forall>r round. rounds d r = Some round \<longrightarrow> rd_activeExecutionId round \<noteq> Some x)"
        using slotD(3) [OF S] ev_commit_report(2,3) by force
    qed (rule committed_same_anchor)
    with ev_commit_report id show ?thesis by (simp add: db_lookup)
  qed (use S in \<open>simp_all add: db_lookup\<close>)
qed

end
