(* ===== verification/Discussion_Entities.thy ===== *)
theory Discussion_Entities
  imports Discussion_Invariant
begin

text \<open>
  The second half of the preservation of \<open>db_ok\<close>: messages, summaries, reports, the digest of the
  shared context and the runtime bindings; and the whole: every event preserves the invariant.
\<close>

section \<open>Executions that keep what they committed\<close>

definition keeps_commit :: "ModelExecution \<Rightarrow> ModelExecution \<Rightarrow> bool" where
  "keeps_commit e e' \<longleftrightarrow> same_anchor e e'
   \<and> (mx_state e = mx_committed \<longrightarrow> mx_state e' = mx_committed \<and> mx_contentDigest e' = mx_contentDigest e
        \<and> mx_committedEntityType e' = mx_committedEntityType e \<and> mx_committedEntityId e' = mx_committedEntityId e)"

lemma keeps_committed_as: "keeps_commit e e' \<Longrightarrow> committed_as sha e ty i c \<Longrightarrow> committed_as sha e' ty i c"
  by (simp add: keeps_commit_def committed_as_def)

lemma keeps_commit_live: "same_anchor e e' \<Longrightarrow> live_state (mx_state e) \<Longrightarrow> keeps_commit e e'"
  by (auto simp: keeps_commit_def)

lemma keeps_progress: "execution_progress e e' \<Longrightarrow> execution_shape e \<Longrightarrow> keeps_commit e e'"
  using execution_progress_facts by (blast intro: keeps_commit_live)

lemma keeps_end: "execution_end e e' \<Longrightarrow> execution_shape e \<Longrightarrow> keeps_commit e e'"
  using execution_end_facts by (blast intro: keeps_commit_live)

lemma keeps_note: "execution_note e e' \<Longrightarrow> execution_shape e \<Longrightarrow> keeps_commit e e'"
  using execution_note_facts by (auto simp: keeps_commit_def)

text \<open>The lookup function of the executions never forgets a commitment.\<close>

definition keeps :: "ModelExecution lookup \<Rightarrow> ModelExecution lookup \<Rightarrow> bool" where
  "keeps Xs Xs' \<longleftrightarrow> (\<forall>x e. Xs x = Some e \<longrightarrow> (\<exists>e'. Xs' x = Some e' \<and> keeps_commit e e'))"

lemma keeps_commit_refl: "keeps_commit e e"
  by (simp add: keeps_commit_def same_anchor_def)

lemma keeps_refl: "keeps Xs Xs"
  by (auto simp: keeps_def intro: keeps_commit_refl)

lemma keeps_put: "Xs x = Some e \<Longrightarrow> keeps_commit e e' \<Longrightarrow> keeps Xs (Xs(x \<mapsto> e'))"
  by (auto simp: keeps_def intro: keeps_commit_refl)

lemma keeps_new: "Xs x = None \<Longrightarrow> keeps Xs (Xs(x \<mapsto> e))"
  by (auto simp: keeps_def intro: keeps_commit_refl)

lemma keeps_committed:
  assumes "keeps Xs Xs'" "Xs x = Some e" "committed_as sha e ty i c"
  shows "\<exists>e'. Xs' x = Some e' \<and> committed_as sha e' ty i c \<and> mx_participantId e' = mx_participantId e
    \<and> mx_roundId e' = mx_roundId e \<and> mx_roomId e' = mx_roomId e \<and> mx_resultKind e' = mx_resultKind e"
proof -
  obtain e' where "Xs' x = Some e'" "keeps_commit e e'" using assms(1,2) unfolding keeps_def by blast
  with keeps_committed_as [OF this(2) assms(3)] show ?thesis by (auto simp: keeps_commit_def same_anchor_def)
qed

text \<open>Rounds that keep their room, their completion and a focus once set.\<close>

definition stays :: "DiscussionRound lookup \<Rightarrow> DiscussionRound lookup \<Rightarrow> bool" where
  "stays Rd Rd' \<longleftrightarrow> (\<forall>r round. Rd r = Some round \<longrightarrow> (\<exists>round'. Rd' r = Some round' \<and> rd_roomId round' = rd_roomId round
     \<and> (rd_phase round = phase_completed \<longrightarrow> rd_phase round' = phase_completed)))"

lemma stays_refl: "stays Rd Rd"
  by (simp add: stays_def)

lemma staysD:
  "stays Rd Rd' \<Longrightarrow> Rd r = Some round \<Longrightarrow> \<exists>round'. Rd' r = Some round' \<and> rd_roomId round' = rd_roomId round
     \<and> (rd_phase round = phase_completed \<longrightarrow> rd_phase round' = phase_completed)"
  unfolding stays_def by blast

lemma stays_put:
  "Rd r = Some round \<Longrightarrow> rd_roomId round' = rd_roomId round \<Longrightarrow>
   (rd_phase round = phase_completed \<longrightarrow> rd_phase round' = phase_completed) \<Longrightarrow> stays Rd (Rd(r \<mapsto> round'))"
  by (simp add: stays_def)

lemma stays_new: "Rd r = None \<Longrightarrow> stays Rd (Rd(r \<mapsto> round'))"
  by (auto simp: stays_def)

text \<open>Every event but the deletion of a room keeps both.\<close>

lemma event_keeps:
  assumes "db_event sha d d'" "db_ok sha d"
  shows "(\<exists>k. d' = delete_room_rows k d) \<or> (keeps (executions d) (executions d') \<and> stays (rounds d) (rounds d'))"
proof -
  note id = ids(1,2,3) [OF assms(2)] and S = db_okD(5) [OF assms(2)]
  have shape: "rounds d r = Some round \<Longrightarrow> round_shape round" for r round
    using db_okD(3) [OF assms(2)] by (simp add: rounds_ok_def)
  have anch: "executions d x = Some e \<Longrightarrow> execution_shape e" for x e
    using db_okD(4) [OF assms(2)] by (simp add: anchors_iff)
  from assms(1) show ?thesis
  proof cases
    case (ev_round r round round')
    with round_move_same [OF ev_round(3) shape [OF ev_round(2)]] id show ?thesis
      by (simp add: db_lookup keeps_refl stays_put)
  next
    case (ev_delete k room)
    then show ?thesis by blast
  next
    case (ev_open_round k room env s t order)
    then show ?thesis by (simp add: db_lookup keeps_refl stays_new)
  next
    case (ev_abort r round room s t t')
    with id show ?thesis by (auto simp: db_lookup intro: keeps_refl stays_put)
  next
    case (ev_commit_summary x e round room i sm input t d2 t1 t4 t2 t3)
    with id slotD(2) [OF S ev_commit_summary(4,7,2)]
    show ?thesis by (simp add: db_lookup stays_put keeps_put keeps_commit_live [OF committed_same_anchor])
  next
    case (ev_begin e round)
    with id fresh_execution_facts(4) [OF ev_begin(2)] show ?thesis by (simp add: db_lookup keeps_new stays_put)
  next
    case (ev_begin_report e round room)
    with fresh_execution_facts(4) [OF ev_begin_report(2)] show ?thesis by (simp add: db_lookup keeps_new stays_refl)
  next
    case (ev_commit_message x e round room m i input t moved round' t2 t1)
    have "rd_id round' = rd_id round" "rd_roomId round' = rd_roomId round" using ev_commit_message(9) by auto
    with id slotD(2) [OF S ev_commit_message(3,6,2)] ev_commit_message(1-5) show ?thesis
      by (simp add: db_lookup stays_put keeps_put keeps_commit_live [OF committed_same_anchor])
  next
    case (ev_progress x e e')
    note k = keeps_progress [OF ev_progress(3) anch [OF ev_progress(2)]]
    then have "mx_executionId e' = x" using id(3) [OF ev_progress(2)] by (simp add: keeps_commit_def same_anchor_def)
    with keeps_put [of "executions d", OF ev_progress(2) k] show ?thesis by (simp add: ev_progress(1) db_lookup stays_refl)
  next
    case (ev_end x e e')
    note k = keeps_end [OF ev_end(3) anch [OF ev_end(2)]]
    then have "mx_executionId e' = x" using id(3) [OF ev_end(2)] by (simp add: keeps_commit_def same_anchor_def)
    with keeps_put [of "executions d", OF ev_end(2) k] show ?thesis by (simp add: ev_end(1) db_lookup stays_refl)
  next
    case (ev_note x e e')
    note k = keeps_note [OF ev_note(3) anch [OF ev_note(2)]]
    then have "mx_executionId e' = x" using id(3) [OF ev_note(2)] by (simp add: keeps_commit_def same_anchor_def)
    with keeps_put [of "executions d", OF ev_note(2) k] show ?thesis by (simp add: ev_note(1) db_lookup stays_refl)
  next
    case (ev_commit_report x e room p input t2 t1)
    with id show ?thesis
      by (simp add: db_lookup stays_refl keeps_put keeps_commit_live [OF committed_same_anchor])
  qed (simp_all add: db_lookup keeps_refl stays_refl)
qed

section \<open>Messages\<close>

lemma message_ok_keeps:
  assumes "message_ok sha Rd Xs k m" "keeps Xs Xs'" "stays Rd Rd'"
  shows "message_ok sha Rd' Xs' k m"
proof -
  have home: "\<exists>round. Rd' (mg_roundId m) = Some round \<and> rd_roomId round = mg_roomId m"
    using assms(1) staysD [OF assms(3)] unfolding message_ok_def by metis
  show ?thesis
  proof (cases "mg_sourceExecutionId m")
    case None
    then show ?thesis using assms(1) home by (simp add: message_ok_def)
  next
    case (Some x)
    then obtain e where "Xs x = Some e" "committed_as sha e entity_message k (mg_content m)"
      "mg_participantId m = Some (mx_participantId e)" "mg_roundId m = mx_roundId e"
      using assms(1) by (auto simp: message_ok_def)
    from keeps_committed [OF assms(2) this(1,2)] this(3,4) show ?thesis
      using assms(1) home Some by (auto simp: message_ok_def)
  qed
qed

lemma messages_keeps:
  "messages_ok sha Rd Xs Mg \<Longrightarrow> keeps Xs Xs' \<Longrightarrow> stays Rd Rd' \<Longrightarrow> messages_ok sha Rd' Xs' Mg"
  by (auto simp: messages_ok_def intro: message_ok_keeps)

lemma messages_put: "messages_ok sha Rd Xs Mg \<Longrightarrow> message_ok sha Rd Xs k m \<Longrightarrow> messages_ok sha Rd Xs (Mg(k \<mapsto> m))"
  by (simp add: messages_ok_def)

lemma messages_delete:
  assumes "tables_ok d" "messages_ok sha (rounds d) (executions d) (messages d)" "anchors_ok (rounds d) (executions d)"
  shows "messages_ok sha (rounds (delete_room_rows k d)) (executions (delete_room_rows k d)) (messages (delete_room_rows k d))"
  unfolding messages_ok_def
proof (intro allI impI)
  fix i m
  assume "messages (delete_room_rows k d) i = Some m"
  then have m: "messages d i = Some m" "mg_roomId m \<noteq> k"
    by (auto simp: deleted_lookup [OF assms(1)] split: option.splits if_splits)
  then have ok: "message_ok sha (rounds d) (executions d) i m" using assms(2) by (simp add: messages_ok_def)
  then obtain round where r: "rounds d (mg_roundId m) = Some round" "rd_roomId round = mg_roomId m"
    by (auto simp: message_ok_def)
  with m(2) have home: "\<exists>round. rounds (delete_room_rows k d) (mg_roundId m) = Some round \<and> rd_roomId round = mg_roomId m"
    by (simp add: deleted_lookup [OF assms(1)])
  show "message_ok sha (rounds (delete_room_rows k d)) (executions (delete_room_rows k d)) i m"
  proof (cases "mg_sourceExecutionId m")
    case None
    then show ?thesis using ok home by (simp add: message_ok_def)
  next
    case (Some x)
    then obtain e where e: "executions d x = Some e" "committed_as sha e entity_message i (mg_content m)"
      "mg_participantId m = Some (mx_participantId e)" "mg_roundId m = mx_roundId e"
      using ok by (auto simp: message_ok_def)
    moreover have "anchored (rounds d) e" using assms(3) e(1) by (simp add: anchors_iff)
    ultimately have "mx_roomId e \<noteq> k" using r m(2) by (auto simp: anchored_def)
    with e have "executions (delete_room_rows k d) x = Some e" by (simp add: deleted_lookup [OF assms(1)])
    with e ok home Some show ?thesis by (auto simp: message_ok_def)
  qed
qed

lemma messages_event:
  assumes "db_event sha d d'" "db_ok sha d"
  shows "messages_ok sha (rounds d') (executions d') (messages d')"
proof -
  note M = db_okD(6) [OF assms(2)] and id = ids(1-4) [OF assms(2)]
  have anch: "executions d x = Some e \<Longrightarrow> anchored (rounds d) e" for x e
    using db_okD(4) [OF assms(2)] by (simp add: anchors_iff)
  consider (deleted) k where "d' = delete_room_rows k d"
    | (kept) "keeps (executions d) (executions d')" "stays (rounds d) (rounds d')"
    using event_keeps [OF assms] by blast
  then show ?thesis
  proof cases
    case deleted
    then show ?thesis using messages_delete [OF db_okD(1) [OF assms(2)] M db_okD(4) [OF assms(2)]] by simp
  next
    case kept
    note M' = messages_keeps [OF M kept]
    from assms(1) show ?thesis
    proof cases
      case (ev_user_message k room m round t)
      from M' have "messages_ok sha (rounds d') (executions d') ((messages d)(mg_id m \<mapsto> m))"
        by (rule messages_put) (simp add: message_ok_def ev_user_message db_lookup)
      with ev_user_message show ?thesis by (simp add: db_lookup)
    next
      case (ev_commit_message x e round room m i input t moved round' t2 t1)
      have same: "rd_id round' = rd_id round" "rd_roomId round' = rd_roomId round" using ev_commit_message(9) by auto
      from M' have "messages_ok sha (rounds d') (executions d') ((messages d)(mg_id m \<mapsto> m))"
        by (rule messages_put)
          (use same ev_commit_message(1-8) id committed_execution_as [of sha t1 input entity_message i e]
            in \<open>simp add: message_ok_def db_lookup\<close>)
      with ev_commit_message show ?thesis by (simp add: db_lookup)
    next
      case (ev_delete k room)
      then show ?thesis using messages_delete [OF db_okD(1) [OF assms(2)] M db_okD(4) [OF assms(2)]] by simp
    qed (use M' in \<open>simp_all add: db_lookup\<close>)
  qed
qed

lemma focus_event:
  assumes "db_event sha d d'" "db_ok sha d"
  shows "focus_ok (rounds d') (messages d')"
proof -
  note F = db_okD(7) [OF assms(2)] and id = ids(1-4) [OF assms(2)]
  have shape: "rounds d r = Some round \<Longrightarrow> round_shape round" for r round
    using db_okD(3) [OF assms(2)] by (simp add: rounds_ok_def)
  have put: "focus_ok ((rounds d)(r \<mapsto> round')) (messages d)"
    if "rounds d r = Some round" "rd_focusMessageId round' = rd_focusMessageId round" for r round round'
    using F that by (auto simp: focus_ok_def)
  have new: "focus_ok Rd ((messages d)(i \<mapsto> m))" if "focus_ok Rd (messages d)" "messages d i = None" for Rd i m
    using that by (force simp: focus_ok_def)
  from assms(1) show ?thesis
  proof cases
    case (ev_round r round round')
    with round_move_same [OF ev_round(3) shape [OF ev_round(2)]] id show ?thesis by (simp add: db_lookup put)
  next
    case (ev_delete k room)
    show ?thesis
      unfolding focus_ok_def
    proof (intro allI impI)
      fix r round f
      assume "rounds d' r = Some round \<and> rd_focusMessageId round = Value f"
      then have r: "rounds d r = Some round" "rd_roomId round \<noteq> k" "rd_focusMessageId round = Value f"
        by (auto simp: ev_delete(1) deleted_lookup [OF db_okD(1) [OF assms(2)]] split: option.splits if_splits)
      then obtain m where m: "messages d f = Some m" "mg_roundId m = r" using F unfolding focus_ok_def by blast
      then have "message_ok sha (rounds d) (executions d) f m"
        using db_okD(6) [OF assms(2)] by (simp add: messages_ok_def)
      with m(2) r(1) have "mg_roomId m = rd_roomId round" by (auto simp: message_ok_def)
      with m r show "\<exists>m. messages d' f = Some m \<and> mg_roundId m = r"
        by (simp add: ev_delete(1) deleted_lookup [OF db_okD(1) [OF assms(2)]])
    qed
  next
    case (ev_open_round k room env s t order)
    then show ?thesis using F by (auto simp: db_lookup focus_ok_def)
  next
    case (ev_user_message k room m round t)
    then show ?thesis using F by (simp add: db_lookup new)
  next
    case (ev_commit_message x e round room m i input t moved round' t2 t1)
    have "focus_ok ((rounds d)(mx_roundId e \<mapsto> round')) ((messages d)(i \<mapsto> m))"
      using ev_commit_message(9)
    proof (elim disjE conjE)
      assume "moved = round\<lparr>rd_activeExecutionId := None, rd_nextParticipantIndex := rd_nextParticipantIndex round + 1\<rparr>"
        "round' = moved\<lparr>rd_phase := phase_at_cursor moved\<rparr>"
      with ev_commit_message(3,7,8) show ?thesis by (intro new put) simp_all
    next
      assume r: "round' = round\<lparr>rd_activeExecutionId := None, rd_focusMessageId := Value i\<rparr>"
      have i: "messages d i = None" "mg_roundId m = mx_roundId e" using ev_commit_message(7,8) by simp_all
      show ?thesis
        unfolding focus_ok_def
      proof (intro allI impI)
        fix r0 rd f
        assume a: "((rounds d)(mx_roundId e \<mapsto> round')) r0 = Some rd \<and> rd_focusMessageId rd = Value f"
        show "\<exists>m'. ((messages d)(i \<mapsto> m)) f = Some m' \<and> mg_roundId m' = r0"
        proof (cases "r0 = mx_roundId e")
          case True
          with a r i show ?thesis by auto
        next
          case False
          with a F obtain m' where "messages d f = Some m'" "mg_roundId m' = r0"
            unfolding focus_ok_def by (metis fun_upd_other)
          with i show ?thesis by auto
        qed
      qed
    qed
    moreover have "rd_id round' = rd_id round" using ev_commit_message(9) by auto
    ultimately show ?thesis using ev_commit_message(1-8) id by (simp add: db_lookup)
  qed (use F id in \<open>simp_all add: db_lookup put\<close>)
qed

section \<open>Summaries\<close>

definition summary_ok ::
  "(string \<Rightarrow> string) \<Rightarrow> DiscussionRound lookup \<Rightarrow> ModelExecution lookup \<Rightarrow> string \<Rightarrow> DiscussionSummary \<Rightarrow> bool" where
  "summary_ok sha Rd Xs k s \<longleftrightarrow>
     (\<exists>round. Rd (su_roundId s) = Some round \<and> rd_roomId round = su_roomId s \<and> rd_phase round = phase_completed)
   \<and> (\<exists>e. Xs (su_sourceExecutionId s) = Some e \<and> committed_as sha e entity_summary k (su_content s)
        \<and> mx_roundId e = su_roundId s)"

definition summarized :: "DiscussionRound lookup \<Rightarrow> DiscussionSummary lookup \<Rightarrow> bool" where
  "summarized Rd Su \<longleftrightarrow>
     (\<forall>r round. Rd r = Some round \<and> rd_phase round = phase_completed \<longrightarrow> (\<exists>k s. Su k = Some s \<and> su_roundId s = r))"

abbreviation one_summary :: "DiscussionSummary lookup \<Rightarrow> bool" where
  "one_summary Su \<equiv> unique_on (\<lambda>_. True) su_roundId Su"

lemma summaries_iff:
  "summaries_ok sha Rd Xs Su \<longleftrightarrow> (\<forall>k s. Su k = Some s \<longrightarrow> summary_ok sha Rd Xs k s) \<and> summarized Rd Su \<and> one_summary Su"
  by (simp add: summaries_ok_def summary_ok_def summarized_def)

lemma summary_ok_keeps:
  assumes "summary_ok sha Rd Xs k s" "keeps Xs Xs'" "stays Rd Rd'"
  shows "summary_ok sha Rd' Xs' k s"
proof -
  have "\<exists>round. Rd' (su_roundId s) = Some round \<and> rd_roomId round = su_roomId s \<and> rd_phase round = phase_completed"
    using assms(1) staysD [OF assms(3)] unfolding summary_ok_def by metis
  moreover obtain e where "Xs (su_sourceExecutionId s) = Some e" "committed_as sha e entity_summary k (su_content s)"
    "mx_roundId e = su_roundId s" using assms(1) by (auto simp: summary_ok_def)
  moreover from keeps_committed [OF assms(2) this(1,2)] this(3)
  have "\<exists>e. Xs' (su_sourceExecutionId s) = Some e \<and> committed_as sha e entity_summary k (su_content s)
      \<and> mx_roundId e = su_roundId s" by auto
  ultimately show ?thesis by (simp add: summary_ok_def)
qed

lemma summary_delete:
  assumes "tables_ok d" "summary_ok sha (rounds d) (executions d) i s" "anchors_ok (rounds d) (executions d)" "su_roomId s \<noteq> k"
  shows "summary_ok sha (rounds (delete_room_rows k d)) (executions (delete_room_rows k d)) i s"
proof -
  obtain round e where r: "rounds d (su_roundId s) = Some round" "rd_roomId round = su_roomId s" "rd_phase round = phase_completed"
    and e: "executions d (su_sourceExecutionId s) = Some e" "committed_as sha e entity_summary i (su_content s)"
      "mx_roundId e = su_roundId s" using assms(2) by (auto simp: summary_ok_def)
  have "anchored (rounds d) e" using assms(3) e(1) by (simp add: anchors_iff)
  with r e(3) assms(4) have "mx_roomId e \<noteq> k" by (auto simp: anchored_def)
  with r e assms(4) show ?thesis by (simp add: summary_ok_def deleted_lookup [OF assms(1)])
qed

text \<open>A round becomes completed only with its summary.\<close>

definition completed_in :: "DiscussionRound lookup \<Rightarrow> DiscussionRound lookup \<Rightarrow> bool" where
  "completed_in Rd Rd' \<longleftrightarrow> (\<forall>r round'. Rd' r = Some round' \<and> rd_phase round' = phase_completed \<longrightarrow>
     (\<exists>round. Rd r = Some round \<and> rd_phase round = phase_completed))"

lemma completed_refl: "completed_in Rd Rd"
  by (simp add: completed_in_def)

lemma completed_put:
  "Rd r = Some round \<Longrightarrow> (rd_phase round' = phase_completed \<longrightarrow> rd_phase round = phase_completed) \<Longrightarrow>
   completed_in Rd (Rd(r \<mapsto> round'))"
  "rd_phase round' \<noteq> phase_completed \<Longrightarrow> completed_in Rd (Rd(r \<mapsto> round'))"
  by (auto simp: completed_in_def)

lemma summarized_in: "summarized Rd Su \<Longrightarrow> completed_in Rd Rd' \<Longrightarrow> summarized Rd' Su"
  unfolding summarized_def completed_in_def by blast

lemma phase_at_cursor_open [simp]: "phase_at_cursor r \<noteq> phase_completed"
  by (simp add: phase_at_cursor_def)

lemma event_summaries:
  assumes "db_event sha d d'" "db_ok sha d"
  shows "(\<exists>k. d' = delete_room_rows k d)
    \<or> (db_summaries d' = db_summaries d \<and> completed_in (rounds d) (rounds d'))
    \<or> (\<exists>e round' s. db_summaries d' = tb_put (su_id s) s (db_summaries d) \<and> summaries d (su_id s) = None
        \<and> (\<forall>k s'. summaries d k = Some s' \<longrightarrow> su_roundId s' \<noteq> su_roundId s)
        \<and> rounds d' = (rounds d)(su_roundId s \<mapsto> round') \<and> rd_roomId round' = su_roomId s
        \<and> rd_phase round' = phase_completed \<and> executions d' (su_sourceExecutionId s) = Some e
        \<and> committed_as sha e entity_summary (su_id s) (su_content s) \<and> mx_roundId e = su_roundId s)"
proof -
  note id = ids(1,2,3) [OF assms(2)]
  have shape: "rounds d r = Some round \<Longrightarrow> round_shape round" for r round
    using db_okD(3) [OF assms(2)] by (simp add: rounds_ok_def)
  from assms(1) show ?thesis
  proof cases
    case (ev_round r round round')
    with round_move_same [OF ev_round(3) shape [OF ev_round(2)]] id show ?thesis
      by (simp add: db_lookup completed_put)
  next
    case (ev_delete k room)
    then show ?thesis by blast
  next
    case (ev_commit_summary x e round room i sm input t d2 t1 t4 t2 t3)
    with id committed_execution_as [of sha t1 input entity_summary i e] show ?thesis
      by (intro disjI2 exI [of _ "committed_execution sha t1 input entity_summary i e"]
          exI [of _ "round\<lparr>rd_phase := phase_completed, rd_activeExecutionId := None, rd_completedAt := Some t3\<rparr>"]
          exI [of _ sm]) (simp add: db_lookup)
  next
    case (ev_commit_message x e round room m i input t moved round' t2 t1)
    have "rd_phase round' \<noteq> phase_completed" using ev_commit_message(5,9) by auto
    then show ?thesis using ev_commit_message by (simp add: db_lookup completed_put)
  next
    case (ev_begin e round)
    with id show ?thesis by (simp add: db_lookup completed_put)
  qed (simp_all add: db_lookup completed_refl completed_put)
qed

lemma summaries_delete:
  assumes "db_ok sha d" and "d' = delete_room_rows k d"
  shows "summaries_ok sha (rounds d') (executions d') (summaries d')"
proof -
  note U = db_okD(8) [OF assms(1)] and T = db_okD(1) [OF assms(1)]
  have ok: "summary_ok sha (rounds d) (executions d) i s" if "summaries d i = Some s" for i s
    using U that by (simp add: summaries_iff)
  have "summarized (rounds d') (summaries d')"
    unfolding summarized_def
  proof (intro allI impI)
    fix r round
    assume "rounds d' r = Some round \<and> rd_phase round = phase_completed"
    then have r: "rounds d r = Some round" "rd_roomId round \<noteq> k" "rd_phase round = phase_completed"
      by (auto simp: assms(2) deleted_lookup [OF T] split: option.splits if_splits)
    then obtain i s where s: "summaries d i = Some s" "su_roundId s = r"
      using U unfolding summaries_iff summarized_def by blast
    then have "su_roomId s \<noteq> k" using ok [OF s(1)] r by (auto simp: summary_ok_def)
    with s show "\<exists>i s. summaries d' i = Some s \<and> su_roundId s = r"
      by (intro exI [of _ i] exI [of _ s]) (simp add: assms(2) deleted_lookup [OF T])
  qed
  moreover have "one_summary (summaries d')"
    using U unfolding summaries_iff
    by (auto intro: unique_on_sub simp: assms(2) deleted_lookup [OF T] split: option.splits if_splits)
  moreover have "summary_ok sha (rounds d') (executions d') i s" if "summaries d' i = Some s" for i s
  proof -
    from that have "summaries d i = Some s" "su_roomId s \<noteq> k"
      by (auto simp: assms(2) deleted_lookup(5) [OF T] split: option.splits if_splits)
    with ok show ?thesis unfolding assms(2) by (blast intro: summary_delete [OF T _ db_okD(4) [OF assms(1)]])
  qed
  ultimately show ?thesis by (simp add: summaries_iff)
qed

lemma summaries_event:
  assumes "db_event sha d d'" "db_ok sha d"
  shows "summaries_ok sha (rounds d') (executions d') (summaries d')"
proof (cases "\<exists>k. d' = delete_room_rows k d")
  case True
  then show ?thesis using summaries_delete [OF assms(2)] by blast
next
  case False
  note U = db_okD(8) [OF assms(2)]
  from False event_keeps [OF assms]
  have kept: "keeps (executions d) (executions d')" "stays (rounds d) (rounds d')" by blast+
  have ok: "summary_ok sha (rounds d') (executions d') k s" if "summaries d k = Some s" for k s
    using U that by (auto simp: summaries_iff intro: summary_ok_keeps [OF _ kept])
  from False event_summaries [OF assms] consider
      (same) "db_summaries d' = db_summaries d" "completed_in (rounds d) (rounds d')"
    | (new) e round' s where "db_summaries d' = tb_put (su_id s) s (db_summaries d)" "summaries d (su_id s) = None"
        "\<forall>k s'. summaries d k = Some s' \<longrightarrow> su_roundId s' \<noteq> su_roundId s"
        "rounds d' = (rounds d)(su_roundId s \<mapsto> round')" "rd_roomId round' = su_roomId s"
        "rd_phase round' = phase_completed" "executions d' (su_sourceExecutionId s) = Some e"
        "committed_as sha e entity_summary (su_id s) (su_content s)" "mx_roundId e = su_roundId s"
    by blast
  then show ?thesis
  proof cases
    case same
    with U ok show ?thesis by (auto simp: summaries_iff intro: summarized_in)
  next
    case (new e round' s)
    have "summary_ok sha (rounds d') (executions d') (su_id s) s" using new by (simp add: summary_ok_def)
    moreover have "one_summary (summaries d')"
      using U new(1,3) by (simp add: summaries_iff unique_on_put)
    moreover have "summarized (rounds d') (summaries d')"
      unfolding summarized_def
    proof (intro allI impI)
      fix r round
      assume r: "rounds d' r = Some round \<and> rd_phase round = phase_completed"
      show "\<exists>k s. summaries d' k = Some s \<and> su_roundId s = r"
      proof (cases "r = su_roundId s")
        case True
        then show ?thesis using new(1) by auto
      next
        case False
        then obtain k s' where "summaries d k = Some s'" "su_roundId s' = r"
          using r new(4) U unfolding summaries_iff summarized_def by auto
        moreover from this new(2) have "k \<noteq> su_id s" by auto
        ultimately show ?thesis using new(1) by auto
      qed
    qed
    ultimately show ?thesis using ok new(1) by (simp add: summaries_iff)
  qed
qed

section \<open>Concluding a room\<close>

lemma concludingD:
  assumes "concluding_ok Rm Xs"
  shows "Xs x = Some e \<Longrightarrow> live_report e \<Longrightarrow>
      \<exists>room. Rm (mx_roomId e) = Some room \<and> rm_activeRoundId room = None \<and> rm_status room = room_open"
    "unique_on live_report mx_roomId Xs"
    "Rm k = Some room \<Longrightarrow> rm_status room = room_concluded \<Longrightarrow> rm_activeRoundId room = None"
  using assms unfolding concluding_ok_def by blast+

lemma concludingI:
  assumes "\<And>x e. Xs x = Some e \<Longrightarrow> live_report e \<Longrightarrow>
      \<exists>room. Rm (mx_roomId e) = Some room \<and> rm_activeRoundId room = None \<and> rm_status room = room_open"
    and "unique_on live_report mx_roomId Xs"
    and "\<And>k room. Rm k = Some room \<Longrightarrow> rm_status room = room_concluded \<Longrightarrow> rm_activeRoundId room = None"
  shows "concluding_ok Rm Xs"
  using assms unfolding concluding_ok_def by blast

lemma concluding_room:
  assumes "concluding_ok Rm Xs" "Rm k = Some room"
    and "rm_activeRoundId room' = rm_activeRoundId room \<or> rm_activeRoundId room' = None"
    and "rm_status room' = rm_status room"
  shows "concluding_ok (Rm(k \<mapsto> room')) Xs"
proof (rule concludingI)
  fix x e
  assume "Xs x = Some e" "live_report e"
  from concludingD(1) [OF assms(1) this] assms(2-4)
  show "\<exists>rm. (Rm(k \<mapsto> room')) (mx_roomId e) = Some rm \<and> rm_activeRoundId rm = None \<and> rm_status rm = room_open"
    by auto
next
  fix k' rm
  assume "(Rm(k \<mapsto> room')) k' = Some rm" "rm_status rm = room_concluded"
  then show "rm_activeRoundId rm = None"
    using concludingD(3) [OF assms(1), of k'] assms(2-4) by (cases "k' = k") auto
qed (rule concludingD(2) [OF assms(1)])

lemma concluding_execution:
  assumes "concluding_ok Rm Xs" "Xs x = Some e" "same_anchor e e'" "live_state (mx_state e') \<Longrightarrow> live_state (mx_state e)"
  shows "concluding_ok Rm (Xs(x \<mapsto> e'))"
proof (rule concludingI)
  fix y f
  assume "(Xs(x \<mapsto> e')) y = Some f" "live_report f"
  then show "\<exists>room. Rm (mx_roomId f) = Some room \<and> rm_activeRoundId room = None \<and> rm_status room = room_open"
    using concludingD(1) [OF assms(1), of y] assms(2-4)
    by (cases "y = x") (auto simp: live_report_def same_anchor_def)
next
  show "unique_on live_report mx_roomId (Xs(x \<mapsto> e'))"
    using assms(3,4) by (intro unique_on_move [OF concludingD(2) [OF assms(1)] assms(2)])
      (auto simp: live_report_def same_anchor_def)
qed (rule concludingD(3) [OF assms(1)])

lemma concluding_new:
  assumes "concluding_ok Rm Xs" "\<not> live_report e"
  shows "concluding_ok Rm (Xs(x \<mapsto> e))"
proof (rule concludingI)
  show "unique_on live_report mx_roomId (Xs(x \<mapsto> e))"
    using assms(2) by (intro unique_on_put [OF concludingD(2) [OF assms(1)]]) auto
qed (use concludingD(1,3) [OF assms(1)] assms(2) in \<open>auto split: if_splits\<close>)

lemma concluding_event:
  assumes "db_event sha d d'" "db_ok sha d"
  shows "concluding_ok (rooms d') (executions d')"
proof -
  note C = db_okD(10) [OF assms(2)] and id = ids(1-3) [OF assms(2)] and S = db_okD(5) [OF assms(2)]
  have shape: "executions d x = Some e \<Longrightarrow> execution_shape e" for x e
    using db_okD(4) [OF assms(2)] by (simp add: anchors_iff)
  from assms(1) show ?thesis
  proof cases
    case (ev_open_round k room env t s order)
    have "concluding_ok ((rooms d)(k \<mapsto> room\<lparr>rm_activeRoundId := Some (tv_uuid env), rm_runState := s, rm_lastActiveAt := t\<rparr>)) (executions d)"
    proof (rule concludingI)
      fix x e
      assume e: "executions d x = Some e" "live_report e"
      with ev_open_round(5) have "mx_roomId e \<noteq> k" by (auto simp: live_report_def)
      with concludingD(1) [OF C e]
      show "\<exists>rm. ((rooms d)(k \<mapsto> room\<lparr>rm_activeRoundId := Some (tv_uuid env), rm_runState := s, rm_lastActiveAt := t\<rparr>)) (mx_roomId e) = Some rm
          \<and> rm_activeRoundId rm = None \<and> rm_status rm = room_open" by simp
    qed (use concludingD(2,3) [OF C] ev_open_round(3) in \<open>auto split: if_splits\<close>)
    with id ev_open_round show ?thesis by (simp add: db_lookup)
  next
    case (ev_abort r round room s t t')
    with id show ?thesis by (simp add: db_lookup concluding_room [OF C])
  next
    case (ev_begin e round)
    have "\<not> live_report e" using ev_begin(6) by (cases "mx_resultKind e") (simp_all add: live_report_def)
    with id ev_begin show ?thesis by (simp add: db_lookup concluding_new [OF C])
  next
    case (ev_begin_report e round room)
    have "concluding_ok (rooms d) ((executions d)(mx_executionId e \<mapsto> e))"
    proof (rule concludingI)
      show "unique_on live_report mx_roomId ((executions d)(mx_executionId e \<mapsto> e))"
        using ev_begin_report(9)
        by (intro unique_on_put [OF concludingD(2) [OF C]]) (auto simp: live_report_def)
    qed (use concludingD(1,3) [OF C] ev_begin_report(5-8) in \<open>auto split: if_splits\<close>)
    then show ?thesis by (simp add: ev_begin_report(1) db_lookup)
  next
    case (ev_progress x e e')
    note facts = execution_progress_facts [OF ev_progress(3) shape [OF ev_progress(2)]]
    with id(3) [OF ev_progress(2)] concluding_execution [OF C ev_progress(2) facts(1)] show ?thesis
      by (simp add: ev_progress(1) db_lookup same_anchor_def)
  next
    case (ev_end x e e')
    note facts = execution_end_facts [OF ev_end(3) shape [OF ev_end(2)]]
    with id(3) [OF ev_end(2)] concluding_execution [OF C ev_end(2) facts(1)] show ?thesis
      by (simp add: ev_end(1) db_lookup same_anchor_def)
  next
    case (ev_note x e e')
    note facts = execution_note_facts [OF ev_note(3) shape [OF ev_note(2)]]
    with id(3) [OF ev_note(2)] concluding_execution [OF C ev_note(2) facts(1)] show ?thesis
      by (simp add: ev_note(1) db_lookup same_anchor_def)
  next
    case (ev_commit_message x e round room m i input t moved round' t2 t1)
    have "rd_id round' = rd_id round" using ev_commit_message(9) by auto
    with concluding_room [OF concluding_execution [OF C ev_commit_message(2) committed_same_anchor] ev_commit_message(4)]
      ev_commit_message(1-4) id show ?thesis by (simp add: db_lookup)
  next
    case (ev_commit_summary x e round room i sm input t d2 t1 t4 t2 t3)
    with concluding_room [OF concluding_execution [OF C ev_commit_summary(2) committed_same_anchor] ev_commit_summary(5)] id
    show ?thesis by (simp add: db_lookup)
  next
    case (ev_commit_report x e room p input t2 t1)
    have live: "live_report e" using ev_commit_report(3,4) by (simp add: live_report_def)
    define e' where "e' = committed_execution sha t1 input entity_report (rp_id p) e"
    define room' where "room' = room\<lparr>rm_status := room_concluded, rm_runState := room_idle, rm_lastActiveAt := t2\<rparr>"
    have C': "concluding_ok (rooms d) ((executions d)(x \<mapsto> e'))"
      unfolding e'_def by (rule concluding_execution [OF C ev_commit_report(2) committed_same_anchor]) simp
    have none: "rm_activeRoundId room = None"
      using concludingD(1) [OF C ev_commit_report(2) live] ev_commit_report(5) by simp
    have "concluding_ok ((rooms d)(mx_roomId e \<mapsto> room')) ((executions d)(x \<mapsto> e'))"
    proof (rule concludingI)
      fix y f
      assume f: "((executions d)(x \<mapsto> e')) y = Some f" "live_report f"
      then have y: "y \<noteq> x" "executions d y = Some f" by (auto simp: e'_def live_report_def split: if_splits)
      with concludingD(2) [OF C] ev_commit_report(2) live f(2) have "mx_roomId f \<noteq> mx_roomId e"
        unfolding unique_on_def by metis
      with concludingD(1) [OF C y(2) f(2)]
      show "\<exists>rm. ((rooms d)(mx_roomId e \<mapsto> room')) (mx_roomId f) = Some rm \<and> rm_activeRoundId rm = None \<and> rm_status rm = room_open"
        by simp
    qed (use concludingD(2,3) [OF C'] none in \<open>auto simp: room'_def split: if_splits\<close>)
    then show ?thesis using ev_commit_report id by (simp add: db_lookup e'_def room'_def)
  next
    case (ev_create room)
    have "rm_id room \<noteq> mx_roomId e" if "executions d x = Some e" "live_report e" for x e
      using concludingD(1) [OF C that] ev_create(2) by auto
    then have "concluding_ok ((rooms d)(rm_id room \<mapsto> initializeRoomDigest sha room)) (executions d)"
      using concludingD [OF C] ev_create by (intro concludingI) (auto split: if_splits)
    with ev_create show ?thesis by (simp add: db_lookup)
  next
    case (ev_delete k room)
    note del = deleted_lookup [OF db_okD(1) [OF assms(2)]]
    show ?thesis
    proof (rule concludingI)
      show "unique_on live_report mx_roomId (executions d')"
        by (rule unique_on_sub [OF concludingD(2) [OF C]]) (auto simp: ev_delete(1) del split: option.splits if_splits)
    next
      fix x e
      assume x: "executions d' x = Some e" "live_report e"
      then have "executions d x = Some e" "mx_roomId e \<noteq> k"
        by (auto simp: ev_delete(1) del split: option.splits if_splits)
      with concludingD(1) [OF C this(1) x(2)]
      show "\<exists>room. rooms d' (mx_roomId e) = Some room \<and> rm_activeRoundId room = None \<and> rm_status room = room_open"
        by (auto simp: ev_delete(1) del)
    next
      fix k' rm
      assume "rooms d' k' = Some rm" "rm_status rm = room_concluded"
      then show "rm_activeRoundId rm = None"
        using concludingD(3) [OF C, of k'] by (auto simp: ev_delete(1) del split: if_splits)
    qed
  qed (use C id in \<open>simp_all add: db_lookup concluding_room [OF C]\<close>)
qed

section \<open>Reports\<close>

definition report_ok ::
  "(string \<Rightarrow> string) \<Rightarrow> DiscussionRoom lookup \<Rightarrow> ModelExecution lookup \<Rightarrow> string \<Rightarrow> DecisionReport \<Rightarrow> bool" where
  "report_ok sha Rm Xs k p \<longleftrightarrow>
     (\<exists>room. Rm (rp_roomId p) = Some room \<and> rm_status room = room_concluded)
   \<and> (\<exists>e. Xs (rp_sourceExecutionId p) = Some e \<and> committed_as sha e entity_report k (rp_content p)
        \<and> mx_roomId e = rp_roomId p)"

definition concluded_by :: "DiscussionRoom lookup \<Rightarrow> DecisionReport lookup \<Rightarrow> bool" where
  "concluded_by Rm Rp \<longleftrightarrow>
     (\<forall>k room. Rm k = Some room \<and> rm_status room = room_concluded \<longrightarrow> (\<exists>i p. Rp i = Some p \<and> rp_roomId p = k))"

lemma reports_iff:
  "reports_ok sha Rm Xs Rp \<longleftrightarrow> (\<forall>k p. Rp k = Some p \<longrightarrow> report_ok sha Rm Xs k p) \<and> concluded_by Rm Rp
     \<and> unique_on (\<lambda>_. True) rp_roomId Rp"
  by (simp add: reports_ok_def report_ok_def concluded_by_def)

text \<open>What the events other than deleting a room and committing a report do to the rooms.\<close>

definition same_status :: "DiscussionRoom lookup \<Rightarrow> DiscussionRoom lookup \<Rightarrow> bool" where
  "same_status Rm Rm' \<longleftrightarrow>
     (\<forall>k room. Rm k = Some room \<longrightarrow> (\<exists>room'. Rm' k = Some room' \<and> rm_status room' = rm_status room))
   \<and> (\<forall>k room'. Rm' k = Some room' \<longrightarrow> rm_status room' = room_concluded \<longrightarrow>
        (\<exists>room. Rm k = Some room \<and> rm_status room = room_concluded))"

lemma same_status_refl: "same_status Rm Rm"
  by (simp add: same_status_def)

lemma same_status_put: "Rm k = Some room \<Longrightarrow> rm_status room' = rm_status room \<Longrightarrow> same_status Rm (Rm(k \<mapsto> room'))"
  by (simp add: same_status_def)

lemma same_status_new: "Rm k = None \<Longrightarrow> rm_status room' = room_open \<Longrightarrow> same_status Rm (Rm(k \<mapsto> room'))"
  by (auto simp: same_status_def)

lemma report_ok_keeps:
  assumes "report_ok sha Rm Xs k p" "keeps Xs Xs'"
    and "\<And>k room. Rm k = Some room \<Longrightarrow> rm_status room = room_concluded \<Longrightarrow>
      \<exists>room'. Rm' k = Some room' \<and> rm_status room' = room_concluded"
  shows "report_ok sha Rm' Xs' k p"
proof -
  obtain e where "Xs (rp_sourceExecutionId p) = Some e" "committed_as sha e entity_report k (rp_content p)"
    "mx_roomId e = rp_roomId p" using assms(1) by (auto simp: report_ok_def)
  from keeps_committed [OF assms(2) this(1,2)] this(3)
  have "\<exists>e. Xs' (rp_sourceExecutionId p) = Some e \<and> committed_as sha e entity_report k (rp_content p)
      \<and> mx_roomId e = rp_roomId p" by auto
  then show ?thesis using assms(1,3) by (auto simp: report_ok_def)
qed

lemma event_reports:
  assumes "db_event sha d d'" "db_ok sha d"
  shows "(\<exists>k. d' = delete_room_rows k d)
    \<or> (db_reports d' = db_reports d \<and> same_status (rooms d) (rooms d'))
    \<or> (\<exists>e room' p. db_reports d' = tb_put (rp_id p) p (db_reports d) \<and> reports d (rp_id p) = None
        \<and> (\<forall>k p'. reports d k = Some p' \<longrightarrow> rp_roomId p' \<noteq> rp_roomId p)
        \<and> rooms d' = (rooms d)(rp_roomId p \<mapsto> room') \<and> rm_status room' = room_concluded
        \<and> executions d' (rp_sourceExecutionId p) = Some e
        \<and> committed_as sha e entity_report (rp_id p) (rp_content p) \<and> mx_roomId e = rp_roomId p)"
proof -
  note id = ids(1,2,3) [OF assms(2)]
  from assms(1) show ?thesis
  proof cases
    case (ev_delete k room)
    then show ?thesis by blast
  next
    case (ev_commit_report x e room p input t2 t1)
    with id committed_execution_as [of sha t1 input entity_report "rp_id p" e] show ?thesis
      by (intro disjI2 exI [of _ "committed_execution sha t1 input entity_report (rp_id p) e"]
          exI [of _ "room\<lparr>rm_status := room_concluded, rm_runState := room_idle, rm_lastActiveAt := t2\<rparr>"]
          exI [of _ p]) (simp add: db_lookup)
  qed (use id in \<open>simp_all add: db_lookup same_status_refl same_status_put same_status_new\<close>)
qed

lemma reports_delete:
  assumes "db_ok sha d" and "d' = delete_room_rows k d"
  shows "reports_ok sha (rooms d') (executions d') (reports d')"
proof -
  note P = db_okD(9) [OF assms(1)] and T = db_okD(1) [OF assms(1)]
  note del = deleted_lookup [OF T]
  have ok: "report_ok sha (rooms d) (executions d) i p" if "reports d i = Some p" for i p
    using P that by (simp add: reports_iff)
  have "report_ok sha (rooms d') (executions d') i p" if "reports d' i = Some p" for i p
    using that ok by (force simp: assms(2) del report_ok_def split: option.splits if_splits)
  moreover have "concluded_by (rooms d') (reports d')"
    unfolding concluded_by_def
  proof (intro allI impI)
    fix k' room
    assume "rooms d' k' = Some room \<and> rm_status room = room_concluded"
    then have "rooms d k' = Some room" "k' \<noteq> k" "rm_status room = room_concluded"
      by (auto simp: assms(2) del split: if_splits)
    with P obtain i p where "reports d i = Some p" "rp_roomId p = k'" unfolding reports_iff concluded_by_def by blast
    with \<open>k' \<noteq> k\<close> show "\<exists>i p. reports d' i = Some p \<and> rp_roomId p = k'"
      by (intro exI [of _ i] exI [of _ p]) (simp add: assms(2) del)
  qed
  moreover have "unique_on (\<lambda>_. True) rp_roomId (reports d')"
    using P unfolding reports_iff
    by (auto intro: unique_on_sub simp: assms(2) del split: option.splits if_splits)
  ultimately show ?thesis by (simp add: reports_iff)
qed

lemma reports_event:
  assumes "db_event sha d d'" "db_ok sha d"
  shows "reports_ok sha (rooms d') (executions d') (reports d')"
proof (cases "\<exists>k. d' = delete_room_rows k d")
  case True
  then show ?thesis using reports_delete [OF assms(2)] by blast
next
  case False
  note P = db_okD(9) [OF assms(2)]
  from False event_keeps [OF assms] have kept: "keeps (executions d) (executions d')" by blast
  from False event_reports [OF assms] consider
      (same) "db_reports d' = db_reports d" "same_status (rooms d) (rooms d')"
    | (new) e room' p where "db_reports d' = tb_put (rp_id p) p (db_reports d)" "reports d (rp_id p) = None"
        "\<forall>k p'. reports d k = Some p' \<longrightarrow> rp_roomId p' \<noteq> rp_roomId p"
        "rooms d' = (rooms d)(rp_roomId p \<mapsto> room')" "rm_status room' = room_concluded"
        "executions d' (rp_sourceExecutionId p) = Some e"
        "committed_as sha e entity_report (rp_id p) (rp_content p)" "mx_roomId e = rp_roomId p"
    by blast
  then show ?thesis
  proof cases
    case same
    have "report_ok sha (rooms d') (executions d') k p" if "reports d k = Some p" for k p
      using P that same(2) unfolding same_status_def
      by (auto simp: reports_iff intro!: report_ok_keeps [OF _ kept]) metis
    moreover have "concluded_by (rooms d') (reports d)"
      using P same(2) unfolding reports_iff concluded_by_def same_status_def by metis
    ultimately show ?thesis using P same(1) by (simp add: reports_iff)
  next
    case (new e room' p)
    have "report_ok sha (rooms d') (executions d') k p'" if "reports d k = Some p'" for k p'
      using P that new(4,5) by (auto simp: reports_iff intro!: report_ok_keeps [OF _ kept])
    moreover have "report_ok sha (rooms d') (executions d') (rp_id p) p" using new by (simp add: report_ok_def)
    moreover have "unique_on (\<lambda>_. True) rp_roomId (reports d')"
      using P new(1,3) by (simp add: reports_iff unique_on_put)
    moreover have "concluded_by (rooms d') (reports d')"
      unfolding concluded_by_def
    proof (intro allI impI)
      fix k room
      assume k: "rooms d' k = Some room \<and> rm_status room = room_concluded"
      show "\<exists>i p. reports d' i = Some p \<and> rp_roomId p = k"
      proof (cases "k = rp_roomId p")
        case True
        then show ?thesis using new(1) by auto
      next
        case False
        then obtain i q where "reports d i = Some q" "rp_roomId q = k"
          using k new(4) P unfolding reports_iff concluded_by_def by auto
        moreover from this new(2) have "i \<noteq> rp_id p" by auto
        ultimately show ?thesis using new(1) by auto
      qed
    qed
    ultimately show ?thesis using new(1) by (simp add: reports_iff)
  qed
qed

end
