(* ===== verification/Discussion_Preservation.thy ===== *)
theory Discussion_Preservation
  imports Discussion_Entities
begin

text \<open>
  The last groups of the invariant: a committed execution has its entity, the stored context digest
  is the digest of the shared context, and the runtime bindings; and the whole: every event of
  \<open>Discussion_Spec\<close> preserves \<open>db_ok\<close>.
\<close>

section \<open>Committed executions\<close>

definition has_entity ::
  "DiscussionMessage lookup \<Rightarrow> DiscussionSummary lookup \<Rightarrow> DecisionReport lookup \<Rightarrow> string \<Rightarrow> ModelExecution \<Rightarrow> bool" where
  "has_entity Mg Su Rp x e \<longleftrightarrow> (\<forall>i. mx_state e = mx_committed \<and> mx_committedEntityId e = Some i \<longrightarrow>
     (case entity_type (mx_resultKind e) of
        entity_message \<Rightarrow> (\<exists>m. Mg i = Some m \<and> mg_sourceExecutionId m = Some x)
      | entity_summary \<Rightarrow> (\<exists>s. Su i = Some s \<and> su_sourceExecutionId s = x)
      | entity_report \<Rightarrow> (\<exists>p. Rp i = Some p \<and> rp_sourceExecutionId p = x)))"

lemma commits_iff: "commits_ok Xs Mg Su Rp \<longleftrightarrow> (\<forall>x e. Xs x = Some e \<longrightarrow> has_entity Mg Su Rp x e)"
  by (auto simp: commits_ok_def has_entity_def)

lemma has_entity_uncommitted: "mx_state e \<noteq> mx_committed \<Longrightarrow> has_entity Mg Su Rp x e"
  by (simp add: has_entity_def)

lemma has_entity_keeps:
  "has_entity Mg Su Rp x e \<Longrightarrow> keeps_commit e e' \<Longrightarrow> (mx_state e' = mx_committed \<Longrightarrow> mx_state e = mx_committed) \<Longrightarrow>
   has_entity Mg Su Rp x e'"
  by (cases "mx_state e' = mx_committed") (simp_all add: has_entity_def keeps_commit_def same_anchor_def)

lemma has_entity_grows:
  assumes "has_entity Mg Su Rp x e" "Mg \<subseteq>\<^sub>m Mg'" "Su \<subseteq>\<^sub>m Su'" "Rp \<subseteq>\<^sub>m Rp'"
  shows "has_entity Mg' Su' Rp' x e"
  unfolding has_entity_def
proof (intro allI impI)
  fix i
  assume "mx_state e = mx_committed \<and> mx_committedEntityId e = Some i"
  with assms show "case entity_type (mx_resultKind e) of
        entity_message \<Rightarrow> (\<exists>m. Mg' i = Some m \<and> mg_sourceExecutionId m = Some x)
      | entity_summary \<Rightarrow> (\<exists>s. Su' i = Some s \<and> su_sourceExecutionId s = x)
      | entity_report \<Rightarrow> (\<exists>p. Rp' i = Some p \<and> rp_sourceExecutionId p = x)"
    by (cases "entity_type (mx_resultKind e)") (force simp: has_entity_def map_le_def dom_def)+
qed

lemma commits_grow:
  "commits_ok Xs Mg Su Rp \<Longrightarrow> Mg \<subseteq>\<^sub>m Mg' \<Longrightarrow> Su \<subseteq>\<^sub>m Su' \<Longrightarrow> Rp \<subseteq>\<^sub>m Rp' \<Longrightarrow> commits_ok Xs Mg' Su' Rp'"
  unfolding commits_iff by (blast intro: has_entity_grows)

lemma commits_put:
  "commits_ok Xs Mg Su Rp \<Longrightarrow> has_entity Mg Su Rp x e \<Longrightarrow> commits_ok (Xs(x \<mapsto> e)) Mg Su Rp"
  by (simp add: commits_iff)

lemma map_le_put: "t k = None \<Longrightarrow> t \<subseteq>\<^sub>m t(k \<mapsto> v)"
  by (simp add: map_le_def dom_def)

lemma commits_delete:
  assumes "db_ok sha d" and d': "d' = delete_room_rows k d"
  shows "commits_ok (executions d') (messages d') (summaries d') (reports d')"
  unfolding commits_iff
proof (intro allI impI)
  fix x e
  assume "executions d' x = Some e"
  note T = db_okD(1) [OF assms(1)] and M = db_okD(6) [OF assms(1)] and S = db_okD(8) [OF assms(1)]
    and P = db_okD(9) [OF assms(1)]
  note del = deleted_lookup [OF T]
  from \<open>executions d' x = Some e\<close> have x: "executions d x = Some e" "mx_roomId e \<noteq> k"
    by (auto simp: d' del split: option.splits if_splits)
  with db_okD(4) [OF assms(1)] obtain round where rd: "rounds d (mx_roundId e) = Some round" "rd_roomId round = mx_roomId e"
    by (auto simp: anchors_ok_def)
  have he: "has_entity (messages d) (summaries d) (reports d) x e"
    using db_okD(11) [OF assms(1)] x(1) by (simp add: commits_iff)
  show "has_entity (messages d') (summaries d') (reports d') x e"
    unfolding has_entity_def
  proof (intro allI impI)
    fix i
    assume i: "mx_state e = mx_committed \<and> mx_committedEntityId e = Some i"
    show "case entity_type (mx_resultKind e) of
        entity_message \<Rightarrow> (\<exists>m. messages d' i = Some m \<and> mg_sourceExecutionId m = Some x)
      | entity_summary \<Rightarrow> (\<exists>s. summaries d' i = Some s \<and> su_sourceExecutionId s = x)
      | entity_report \<Rightarrow> (\<exists>p. reports d' i = Some p \<and> rp_sourceExecutionId p = x)"
    proof (cases "entity_type (mx_resultKind e)")
      case entity_message
      with he i obtain m where m: "messages d i = Some m" "mg_sourceExecutionId m = Some x" by (auto simp: has_entity_def)
      with M have "message_ok sha (rounds d) (executions d) i m" by (simp add: messages_ok_def)
      with m(2) x(1) rd have "mg_roomId m = mx_roomId e" by (auto simp: message_ok_def)
      with m x(2) entity_message show ?thesis by (simp add: d' del)
    next
      case entity_summary
      with he i obtain s where s: "summaries d i = Some s" "su_sourceExecutionId s = x" by (auto simp: has_entity_def)
      with S x(1) rd have "su_roomId s = mx_roomId e" unfolding summaries_ok_def by fastforce
      with s x(2) entity_summary show ?thesis by (simp add: d' del)
    next
      case entity_report
      with he i obtain p where p: "reports d i = Some p" "rp_sourceExecutionId p = x" by (auto simp: has_entity_def)
      with P x(1) have "rp_roomId p = mx_roomId e" unfolding reports_ok_def by fastforce
      with p x(2) entity_report show ?thesis by (simp add: d' del)
    qed
  qed
qed

text \<open>An execution put back without being committed by it.\<close>

lemma commits_move:
  assumes "commits_ok Xs Mg Su Rp" "Xs x = Some e" "keeps_commit e e'" "mx_state e' = mx_committed \<Longrightarrow> mx_state e = mx_committed"
  shows "commits_ok (Xs(x \<mapsto> e')) Mg Su Rp"
  using assms by (auto intro!: commits_put [OF assms(1)] has_entity_keeps [OF _ assms(3)] simp: commits_iff)

lemma commits_event:
  assumes "db_event sha d d'" "db_ok sha d"
  shows "commits_ok (executions d') (messages d') (summaries d') (reports d')"
proof -
  note C = db_okD(11) [OF assms(2)] and id = ids(3) [OF assms(2)]
  have shape: "executions d x = Some e \<Longrightarrow> execution_shape e" for x e
    using db_okD(4) [OF assms(2)] by (simp add: anchors_iff)
  from assms(1) show ?thesis
  proof cases
    case (ev_user_message k room m round t)
    then show ?thesis by (simp add: db_lookup commits_grow [OF C] map_le_put)
  next
    case (ev_begin e round)
    with fresh_execution_facts(3) [OF ev_begin(2)] show ?thesis
      by (simp add: db_lookup commits_put [OF C] has_entity_uncommitted)
  next
    case (ev_begin_report e round room)
    with fresh_execution_facts(3) [OF ev_begin_report(2)] show ?thesis
      by (simp add: db_lookup commits_put [OF C] has_entity_uncommitted)
  next
    case (ev_progress x e e')
    note facts = execution_progress_facts [OF ev_progress(3) shape [OF ev_progress(2)]]
    from ev_progress(3) have "mx_state e' \<noteq> mx_committed" by cases simp_all
    with commits_move [OF C ev_progress(2) keeps_progress [OF ev_progress(3) shape [OF ev_progress(2)]]]
      id [OF ev_progress(2)] facts(1) show ?thesis by (simp add: ev_progress(1) db_lookup same_anchor_def)
  next
    case (ev_end x e e')
    note facts = execution_end_facts [OF ev_end(3) shape [OF ev_end(2)]]
    with commits_move [OF C ev_end(2) keeps_end [OF ev_end(3) shape [OF ev_end(2)]]] id [OF ev_end(2)]
    show ?thesis by (simp add: ev_end(1) db_lookup same_anchor_def)
  next
    case (ev_note x e e')
    note facts = execution_note_facts [OF ev_note(3) shape [OF ev_note(2)]]
    with commits_move [OF C ev_note(2) keeps_note [OF ev_note(3) shape [OF ev_note(2)]]] id [OF ev_note(2)]
    show ?thesis by (simp add: ev_note(1) db_lookup same_anchor_def)
  next
    case (ev_commit_message x e round room m i input t moved round' t2 t1)
    have kind: "entity_type (mx_resultKind e) = entity_message" using ev_commit_message(9) by auto
    have "commits_ok (executions d) ((messages d)(mg_id m \<mapsto> m)) (summaries d) (reports d)"
      using ev_commit_message(7) by (simp add: commits_grow [OF C] map_le_put)
    from commits_put [OF this, of x "committed_execution sha t1 input entity_message i e"] kind ev_commit_message(8)
    have "commits_ok ((executions d)(x \<mapsto> committed_execution sha t1 input entity_message i e))
        ((messages d)(mg_id m \<mapsto> m)) (summaries d) (reports d)"
      by (simp add: has_entity_def)
    with ev_commit_message(1) id [OF ev_commit_message(2)] show ?thesis by (simp add: db_lookup)
  next
    case (ev_commit_summary x e round room i sm input t d2 t1 t4 t2 t3)
    have "commits_ok (executions d) (messages d) ((summaries d)(su_id sm \<mapsto> sm)) (reports d)"
      using ev_commit_summary(8,10) by (simp add: commits_grow [OF C] map_le_put)
    from commits_put [OF this, of x "committed_execution sha t1 input entity_summary i e"] ev_commit_summary(3,10)
    have "commits_ok ((executions d)(x \<mapsto> committed_execution sha t1 input entity_summary i e))
        (messages d) ((summaries d)(su_id sm \<mapsto> sm)) (reports d)"
      by (simp add: has_entity_def)
    with ev_commit_summary(1,11) id [OF ev_commit_summary(2)] show ?thesis by (simp add: db_lookup)
  next
    case (ev_commit_report x e room p input t2 t1)
    have "commits_ok (executions d) (messages d) (summaries d) ((reports d)(rp_id p \<mapsto> p))"
      using ev_commit_report(7) by (simp add: commits_grow [OF C] map_le_put)
    from commits_put [OF this, of x "committed_execution sha t1 input entity_report (rp_id p) e"] ev_commit_report(3,9)
    have "commits_ok ((executions d)(x \<mapsto> committed_execution sha t1 input entity_report (rp_id p) e))
        (messages d) (summaries d) ((reports d)(rp_id p \<mapsto> p))"
      by (simp add: has_entity_def)
    with ev_commit_report(1) id [OF ev_commit_report(2)] show ?thesis by (simp add: db_lookup)
  next
    case (ev_delete k room)
    then show ?thesis using commits_delete [OF assms(2)] by blast
  qed (simp_all add: db_lookup C)
qed

section \<open>The digest of the shared context\<close>

definition digest_ok :: "(string \<Rightarrow> string) \<Rightarrow> db \<Rightarrow> DiscussionRoom \<Rightarrow> bool" where
  "digest_ok sha d room \<longleftrightarrow> rm_contextDigest room = computeContextDigest sha (shared_context d room)"

text \<open>The digests of the rooms other than \<open>k\<close>.\<close>

definition digests_but :: "string \<Rightarrow> (string \<Rightarrow> string) \<Rightarrow> db \<Rightarrow> bool" where
  "digests_but k sha d \<longleftrightarrow> (\<forall>i room. rooms d i = Some room \<longrightarrow> i \<noteq> k \<longrightarrow> digest_ok sha d room)"

lemma digests_iff: "digests_ok sha d \<longleftrightarrow> (\<forall>i room. rooms d i = Some room \<longrightarrow> digest_ok sha d room)"
  by (simp add: digests_ok_def digest_ok_def)

lemma digests_all_but: "digests_ok sha d \<Longrightarrow> digests_but k sha d"
  by (simp add: digests_iff digests_but_def)

lemma shared_context_same:
  "db_messages d' = db_messages d \<Longrightarrow> db_summaries d' = db_summaries d \<Longrightarrow> shared_context d' room = shared_context d room"
  by (simp add: shared_context_def room_messages_def room_summaries_def)

lemma digest_ok_same:
  "db_messages d' = db_messages d \<Longrightarrow> db_summaries d' = db_summaries d \<Longrightarrow> digest_ok sha d' room = digest_ok sha d room"
  by (simp add: digest_ok_def shared_context_same [of d' d])

lemma digests_frame:
  "digests_ok sha d \<Longrightarrow> db_rooms d' = db_rooms d \<Longrightarrow> db_messages d' = db_messages d \<Longrightarrow> db_summaries d' = db_summaries d \<Longrightarrow>
   digests_ok sha d'"
  by (simp add: digests_iff digest_ok_same [of d' d])

lemma digests_but_frame:
  "digests_but k sha d \<Longrightarrow> db_rooms d' = db_rooms d \<Longrightarrow> db_messages d' = db_messages d \<Longrightarrow> db_summaries d' = db_summaries d \<Longrightarrow>
   digests_but k sha d'"
  by (simp add: digests_but_def digest_ok_same [of d' d])

lemma digests_room:
  assumes "digests_but (rm_id room) sha d" "digest_ok sha d room"
  shows "digests_ok sha (put_room room d)"
  using assms by (simp add: digests_iff digests_but_def digest_ok_same [of "put_room room d" d] db_lookup)

text \<open>A row put in place of one with the same texts.\<close>

lemma digests_update:
  assumes "digests_ok sha d" "rooms d (rm_id room) = Some room"
    and "rm_id room' = rm_id room" "rm_topic room' = rm_topic room" "rm_background room' = rm_background room"
      "rm_contextDigest room' = rm_contextDigest room"
  shows "digests_ok sha (put_room room' d)"
proof (rule digests_room)
  have "digest_ok sha d room" using assms(1,2) by (auto simp: digests_iff)
  with assms(3-6) show "digest_ok sha d room'" by (simp add: digest_ok_def shared_context_def)
qed (rule digests_all_but [OF assms(1)])

lemma digest_bumped: "digest_ok sha d (bumped sha t d room)"
  by (simp add: digest_ok_def bumped_def shared_context_def)

lemma digests_bumped: "digests_but (rm_id room) sha d \<Longrightarrow> digests_ok sha (put_room (bumped sha t d room) d)"
  by (rule digests_room) (simp_all add: digest_bumped)

text \<open>A message or a summary of a room leaves the other rooms' contexts alone.\<close>

lemma digests_message:
  assumes "digests_ok sha d" "db_ok sha d" "messages d (mg_id m) = None"
  shows "digests_but (mg_roomId m) sha (put_message m d)"
  unfolding digests_but_def
proof (intro allI impI)
  fix i room
  assume "rooms (put_message m d) i = Some room" "i \<noteq> mg_roomId m"
  then have room: "rooms d i = Some room" "mg_roomId m \<noteq> rm_id room"
    using ids(1) [OF assms(2)] by (auto simp: db_lookup)
  with assms(1) have "digest_ok sha d room" by (simp add: digests_iff)
  with room(2) assms(3) show "digest_ok sha (put_message m d) room"
    by (simp add: digest_ok_def shared_context_def room_messages_def room_summaries_def db_lookup rows_where_put_other)
qed

lemma digests_summary:
  assumes "digests_ok sha d" "db_ok sha d" "summaries d (su_id s) = None"
  shows "digests_but (su_roomId s) sha (put_summary s d)"
  unfolding digests_but_def
proof (intro allI impI)
  fix i room
  assume "rooms (put_summary s d) i = Some room" "i \<noteq> su_roomId s"
  then have room: "rooms d i = Some room" "su_roomId s \<noteq> rm_id room"
    using ids(1) [OF assms(2)] by (auto simp: db_lookup)
  with assms(1) have "digest_ok sha d room" by (simp add: digests_iff)
  with room(2) assms(3) show "digest_ok sha (put_summary s d) room"
    by (simp add: digest_ok_def shared_context_def room_messages_def room_summaries_def db_lookup rows_where_put_other)
qed

lemma digests_create:
  assumes "db_ok sha d" "rooms d (rm_id room) = None"
  shows "digest_ok sha d (initializeRoomDigest sha room)"
proof -
  have T: "tb_ok (db_messages d)" "tb_ok (db_summaries d)"
    using tables_okD(4,5) [OF db_okD(1) [OF assms(1)]] by (simp_all add: keyed_def)
  have rounds: "\<exists>rm. rooms d (rd_roomId round) = Some rm" if "rounds d r = Some round" for r round
    using links_okD(2) [OF db_okD(2) [OF assms(1)] that] by blast
  have m: "mg_roomId m \<noteq> rm_id room" if "messages d i = Some m" for i m
  proof -
    from db_okD(6) [OF assms(1)] that obtain round where "rounds d (mg_roundId m) = Some round" "rd_roomId round = mg_roomId m"
      by (auto simp: messages_ok_def message_ok_def)
    with rounds assms(2) show ?thesis by fastforce
  qed
  have s: "su_roomId s \<noteq> rm_id room" if "summaries d i = Some s" for i s
  proof -
    from db_okD(8) [OF assms(1)] that obtain round where "rounds d (su_roundId s) = Some round" "rd_roomId round = su_roomId s"
      unfolding summaries_ok_def by blast
    with rounds assms(2) show ?thesis by fastforce
  qed
  have "room_messages d (rm_id room) = []" "room_summaries d (rm_id room) = []"
    unfolding room_messages_def room_summaries_def using m s by (simp_all add: rows_where_empty T)
  then show ?thesis by (simp add: digest_ok_def shared_context_def initializeRoomDigest_def)
qed

lemma digests_delete:
  assumes "digests_ok sha d" "db_ok sha d" "d' = delete_room_rows k d"
  shows "digests_ok sha d'"
  unfolding digests_iff
proof (intro allI impI)
  fix i room
  assume "rooms d' i = Some room"
  then have room: "rooms d i = Some room" "rm_id room \<noteq> k"
    using ids(1) [OF assms(2)] by (auto simp: assms(3) deleted_lookup [OF db_okD(1) [OF assms(2)]] split: if_splits)
  have drop: "rows_where P (drop_rows Q t) = rows_where P t" if "\<And>v. P v \<Longrightarrow> \<not> Q v" for P Q and t :: "(string, 'v) table"
    using that by (induction t) (auto simp: rows_where_def drop_rows_def)
  have "room_messages d' (rm_id room) = room_messages d (rm_id room)"
    "room_summaries d' (rm_id room) = room_summaries d (rm_id room)"
    using room(2) by (simp_all add: assms(3) room_messages_def room_summaries_def delete_room_rows_def drop)
  with room(1) assms(1) show "digest_ok sha d' room"
    by (simp add: digests_iff digest_ok_def shared_context_def)
qed

lemma digests_event:
  assumes "db_event sha d d'" "db_ok sha d"
  shows "digests_ok sha d'"
proof -
  note D = db_okD(12) [OF assms(2)] and id = ids(1,2) [OF assms(2)]
  from assms(1) show ?thesis
  proof cases
    case (ev_room k room t s)
    with id(1) [OF ev_room(2)] show ?thesis by (simp add: digests_update [OF D, of room])
  next
    case (ev_facilitator k room p)
    with id(1) [OF ev_facilitator(2)] show ?thesis by (simp add: db_lookup digests_update [OF D, of room])
  next
    case (ev_config k room t bg tp)
    then show ?thesis by (simp add: db_lookup digests_bumped digests_all_but [OF D])
  next
    case (ev_user_message k room m round t)
    with digests_message [OF D assms(2), of m] id(1) [OF ev_user_message(2)] show ?thesis
      by (simp add: db_lookup digests_bumped)
  next
    case (ev_open_round k room env t s order)
    have "digests_ok sha (put_round (new_round env k order d) d)" by (rule digests_frame [OF D]) (simp_all add: db_lookup)
    with ev_open_round id(1) [OF ev_open_round(2)] show ?thesis by (simp add: digests_update [of _ _ room] db_lookup)
  next
    case (ev_abort r round room t s t')
    have "digests_ok sha (put_round (aborted_round t' round) d)" by (rule digests_frame [OF D]) (simp_all add: db_lookup)
    with ev_abort id(1) [OF ev_abort(3)] show ?thesis by (simp add: digests_update [of _ _ room] db_lookup)
  next
    case (ev_commit_message x e round room m i input t moved round' t2 t1)
    let ?d = "put_execution (committed_execution sha t1 input entity_message i e) (put_message m d)"
    have "digests_but (mg_roomId m) sha ?d"
      by (rule digests_but_frame [OF digests_message [OF D assms(2) ev_commit_message(7)]]) (simp_all add: db_lookup)
    with ev_commit_message(8) id(1) [OF ev_commit_message(4)] have "digests_but (rm_id room) sha ?d" by simp
    from digests_bumped [OF this] have "digests_ok sha (bumpRoomContext sha t2 room ?d)" by (simp add: db_lookup)
    from digests_frame [OF this] show ?thesis by (simp add: ev_commit_message(1) db_lookup)
  next
    case (ev_commit_summary x e round room i sm input t d2 t1 t4 t2 t3)
    let ?round = "round\<lparr>rd_phase := phase_completed, rd_activeExecutionId := None, rd_completedAt := Some t3\<rparr>"
    let ?room = "(bumped sha t2 d2 room)\<lparr>rm_activeRoundId := None, rm_runState := room_idle, rm_lastActiveAt := t4\<rparr>"
    have "digests_but (su_roomId sm) sha (put_summary sm d)"
      using ev_commit_summary(8,10) by (intro digests_summary [OF D assms(2)]) simp
    from digests_but_frame [OF this, of "put_round ?round d2"] ev_commit_summary(10,11) id(1) [OF ev_commit_summary(5)]
    have "digests_but (rm_id ?room) sha (put_round ?round d2)" by (simp add: db_lookup)
    moreover have "digest_ok sha (put_round ?round d2) ?room"
      by (simp add: digest_ok_def bumped_def shared_context_def room_messages_def room_summaries_def db_lookup)
    ultimately show ?thesis unfolding ev_commit_summary(1) by (rule digests_room)
  next
    case (ev_commit_report x e room p input t2 t1)
    have "digests_ok sha (put_execution (committed_execution sha t1 input entity_report (rp_id p) e) (put_report p d))"
      by (rule digests_frame [OF D]) (simp_all add: db_lookup)
    with ev_commit_report id(1) [OF ev_commit_report(5)] show ?thesis by (simp add: digests_update [of _ _ room] db_lookup)
  next
    case (ev_create room)
    have "digests_but (rm_id (initializeRoomDigest sha room)) sha d" by (rule digests_all_but [OF D])
    from digests_room [OF this digests_create [OF assms(2) ev_create(2)]] show ?thesis by (simp add: ev_create(1))
  next
    case (ev_delete k room)
    then show ?thesis using digests_delete [OF D assms(2)] by blast
  qed (rule digests_frame [OF D]; simp add: db_lookup)+
qed

section \<open>Runtime bindings\<close>

lemma bindings_event:
  assumes "db_event sha d d'" "db_ok sha d"
  shows "bindings_ok (bindings d')"
proof -
  note B = db_okD(13) [OF assms(2)] and id = ids(5) [OF assms(2)]
  then have U: "unique_on live_binding bi_roomId (bindings d)" "unique_on (\<lambda>_. True) bi_scopeRequestId (bindings d)"
    and A: "\<And>k b. bindings d k = Some b \<Longrightarrow> bi_state b = binding_active \<Longrightarrow> bi_controllerId b \<noteq> None \<and> bi_leaseEpoch b \<noteq> None"
    by (auto simp: bindings_ok_def)
  from assms(1) show ?thesis
  proof cases
    case (ev_bind b)
    have "unique_on live_binding bi_roomId ((bindings d)(bi_id b \<mapsto> b))"
      using ev_bind(4) by (intro unique_on_put [OF U(1)]) auto
    moreover have "unique_on (\<lambda>_. True) bi_scopeRequestId ((bindings d)(bi_id b \<mapsto> b))"
      using ev_bind(4) by (intro unique_on_put [OF U(2)]) auto
    ultimately show ?thesis
      using A ev_bind(3) by (auto simp: ev_bind(1) db_lookup bindings_ok_def)
  next
    case (ev_rebind k b b')
    have b': "bi_id b' = k" "bi_roomId b' = bi_roomId b" "bi_scopeRequestId b' = bi_scopeRequestId b"
      "live_binding b' \<Longrightarrow> live_binding b"
      using ev_rebind(3) id [OF ev_rebind(2)] by (simp_all add: binding_move_def)
    have "unique_on live_binding bi_roomId ((bindings d)(k \<mapsto> b'))"
      by (rule unique_on_move [OF U(1) ev_rebind(2) b'(2,4)])
    moreover have "unique_on (\<lambda>_. True) bi_scopeRequestId ((bindings d)(k \<mapsto> b'))"
      by (rule unique_on_move [OF U(2) ev_rebind(2) b'(3)]) simp
    ultimately show ?thesis
      using A ev_rebind(3) b'(1) by (auto simp: ev_rebind(1) db_lookup bindings_ok_def binding_move_def)
  next
    case (ev_delete k room)
    have sub: "bindings d' i = Some b \<Longrightarrow> bindings d i = Some b" for i b
      by (auto simp: ev_delete(1) deleted_lookup [OF db_okD(1) [OF assms(2)]] split: option.splits if_splits)
    show ?thesis
      unfolding bindings_ok_def using unique_on_sub [OF U(1) sub] unique_on_sub [OF U(2) sub] A sub by blast
  qed (simp_all add: db_lookup B)
qed

section \<open>The whole\<close>

theorem db_ok_event:
  assumes "db_event sha d d'" "db_ok sha d"
  shows "db_ok sha d'"
  unfolding db_ok_def
  using tables_event [OF assms(1) db_okD(1) [OF assms(2)]] links_event [OF assms] rounds_event [OF assms]
    anchors_event [OF assms] slots_event [OF assms] messages_event [OF assms] focus_event [OF assms]
    summaries_event [OF assms] reports_event [OF assms] concluding_event [OF assms] commits_event [OF assms]
    digests_event [OF assms] bindings_event [OF assms] by blast

lemma db_ok_events: "(db_event sha)\<^sup>*\<^sup>* d d' \<Longrightarrow> db_ok sha d \<Longrightarrow> db_ok sha d'"
  by (induction rule: rtranclp_induct) (blast intro: db_ok_event)+

lemma db_ok_empty: "db_ok sha empty_db"
  by (simp add: db_ok_def empty_db_def tables_ok_def keyed_def links_ok_def rounds_ok_def anchors_ok_def slots_ok_def
      messages_ok_def focus_ok_def summaries_ok_def reports_ok_def concluding_ok_def commits_ok_def digests_ok_def
      bindings_ok_def unique_on_def)

end
