(* ===== verification/Discussion_Refinement.thy ===== *)
theory Discussion_Refinement
  imports Discussion_Preservation
begin

text \<open>
  Every transaction that succeeds performs a sequence of the events of \<open>Discussion_Spec\<close>: the code
  refines the abstract specification, one lemma per transaction.
\<close>

section \<open>Adding rows\<close>

lemma add_message_Inr [tx_success]:
  "add_message m d = Inr d' \<longleftrightarrow> messages d (mg_id m) = None
     \<and> rows_where (\<lambda>row. mg_sourceExecutionId m \<noteq> None \<and> mg_sourceExecutionId row = mg_sourceExecutionId m) (db_messages d) = []
     \<and> d' = put_message m d"
  by (auto simp: add_message_def add_row_def put_message_def tx_success split: if_splits)

lemma add_summary_Inr [tx_success]:
  "add_summary s d = Inr d' \<longleftrightarrow> summaries d (su_id s) = None
     \<and> rows_where (\<lambda>row. su_roundId row = su_roundId s \<or> su_sourceExecutionId row = su_sourceExecutionId s) (db_summaries d) = []
     \<and> d' = put_summary s d"
  by (auto simp: add_summary_def add_row_def put_summary_def tx_success split: if_splits)

lemma add_report_Inr [tx_success]:
  "add_report p d = Inr d' \<longleftrightarrow> reports d (rp_id p) = None
     \<and> rows_where (\<lambda>row. rp_sourceExecutionId row = rp_sourceExecutionId p) (db_reports d) = [] \<and> d' = put_report p d"
  by (auto simp: add_report_def add_row_def put_report_def tx_success split: if_splits)

lemma add_binding_Inr [tx_success]:
  "add_binding b d = Inr d' \<longleftrightarrow> bindings d (bi_id b) = None
     \<and> rows_where (\<lambda>row. bi_scopeRequestId row = bi_scopeRequestId b) (db_bindings d) = [] \<and> d' = put_binding b d"
  by (auto simp: add_binding_def add_row_def put_binding_def tx_success split: if_splits)

lemma rows_where_False [simp]: "rows_where (\<lambda>_. False) t = []"
  by (simp add: rows_where_def)

lemma add_execution_Inr [tx_success]:
  "add_execution e d = Inr d' \<longleftrightarrow> executions d (mx_executionId e) = None \<and> d' = put_execution e d"
  by (auto simp: add_execution_def add_row_def put_execution_def tx_success split: if_splits)

lemma add_round_Inr [tx_success]:
  "add_round r d = Inr d' \<longleftrightarrow> rounds d (rd_id r) = None \<and> d' = put_round r d"
  by (auto simp: add_round_def add_row_def put_round_def tx_success split: if_splits)

lemma add_room_Inr [tx_success]:
  "add_room r d = Inr d' \<longleftrightarrow> rooms d (rm_id r) = None \<and> d' = put_room r d"
  by (auto simp: add_room_def add_row_def put_room_def tx_success split: if_splits)

lemma add_participant_Inr [tx_success]:
  "add_participant p d = Inr d' \<longleftrightarrow> participants d (pa_id p) = None \<and> d' = put_participant p d"
  by (auto simp: add_participant_def add_row_def put_participant_def tx_success split: if_splits)

lemma requireRoom_Inr [tx_success]: "requireRoom d k f = Inr r \<longleftrightarrow> (\<exists>room. rooms d k = Some room \<and> f room = Inr r)"
  by (simp add: requireRoom_def tx_success)

lemma requireController_Inr [tx_success]: "requireController d k token f = Inr r \<longleftrightarrow> holds_lease d k token \<and> f = Inr r"
  by (simp add: requireController_def tx_success)

lemma loadCommitContext_Inr [tx_success]:
  "loadCommitContext d x token f = Inr r \<longleftrightarrow>
     (\<exists>e round room p. executions d x = Some e \<and> rounds d (mx_roundId e) = Some round
        \<and> rooms d (rd_roomId round) = Some room \<and> holds_lease d (rd_roomId round) token
        \<and> participants d (mx_participantId e) = Some p \<and> f e round room p = Inr r)"
  by (auto simp: loadCommitContext_def tx_success)

section \<open>Puts\<close>

lemma tb_put_put: "tb_put k v (tb_put k w t) = tb_put k v t"
  by (induction k w t rule: tb_put.induct) auto

lemma put_put [simp]:
  "rd_id r = rd_id r' \<Longrightarrow> put_round r (put_round r' d) = put_round r d"
  "rm_id m = rm_id m' \<Longrightarrow> put_room m (put_room m' d) = put_room m d"
  by (simp_all add: put_defs tb_put_put)

lemma put_swap:
  "put_execution e (put_round r d) = put_round r (put_execution e d)"
  "put_room m (put_round r d) = put_round r (put_room m d)"
  "put_room m (put_execution e d) = put_execution e (put_room m d)"
  by (simp_all add: put_defs)

text \<open>The events other than the deletion of a room: no room disappears.\<close>

definition keeps_rooms :: "db \<Rightarrow> db \<Rightarrow> bool" where
  "keeps_rooms d d' \<longleftrightarrow> (\<forall>k. rooms d k \<noteq> None \<longrightarrow> rooms d' k \<noteq> None)"

definition db_write :: "(string \<Rightarrow> string) \<Rightarrow> db \<Rightarrow> db \<Rightarrow> bool" where
  "db_write sha d d' \<longleftrightarrow> db_event sha d d' \<and> keeps_rooms d d'"

abbreviation db_events :: "(string \<Rightarrow> string) \<Rightarrow> db \<Rightarrow> db \<Rightarrow> bool" where
  "db_events sha \<equiv> (db_write sha)\<^sup>*\<^sup>*"

lemma keeps_rooms_refl [simp]: "keeps_rooms d d"
  by (simp add: keeps_rooms_def)

lemma keeps_rooms_put [simp]:
  "keeps_rooms d d' \<Longrightarrow> keeps_rooms d (put_room r d')" "keeps_rooms d d' \<Longrightarrow> keeps_rooms d (put_round rd d')"
  "keeps_rooms d d' \<Longrightarrow> keeps_rooms d (put_execution e d')" "keeps_rooms d d' \<Longrightarrow> keeps_rooms d (put_binding b d')"
  "keeps_rooms d d' \<Longrightarrow> keeps_rooms d (put_message m d')" "keeps_rooms d d' \<Longrightarrow> keeps_rooms d (put_summary s d')"
  "keeps_rooms d d' \<Longrightarrow> keeps_rooms d (put_report p d')" "keeps_rooms d d' \<Longrightarrow> keeps_rooms d (put_participant q d')"
  "keeps_rooms d d' \<Longrightarrow> keeps_rooms d (d'\<lparr>db_agents := ags\<rparr>)"
  "keeps_rooms d d' \<Longrightarrow> keeps_rooms d (bumpRoomContext sha t r d')" "keeps_rooms d d' \<Longrightarrow> keeps_rooms d (nameFacilitator r n d')"
  by (simp_all add: keeps_rooms_def db_lookup)

lemma write_event: "db_event sha d d' \<Longrightarrow> keeps_rooms d d' \<Longrightarrow> db_write sha d d'"
  by (simp add: db_write_def)

lemma write1: "db_event sha d d' \<Longrightarrow> keeps_rooms d d' \<Longrightarrow> db_events sha d d'"
  by (blast intro: write_event)

lemmas writes = write1 keeps_rooms_refl keeps_rooms_put

lemma shape_of: "db_ok sha d \<Longrightarrow> rounds d r = Some round \<Longrightarrow> round_shape round"
  using db_okD(3) by (auto simp: rounds_ok_def)

lemma tb_ok_tables:
  assumes "db_ok sha d"
  shows "tb_ok (db_rooms d)" "tb_ok (db_rounds d)" "tb_ok (db_executions d)" "tb_ok (db_messages d)"
    "tb_ok (db_summaries d)" "tb_ok (db_reports d)" "tb_ok (db_bindings d)" "tb_ok (db_participants d)"
  using tables_okD [OF db_okD(1) [OF assms]] by (simp_all add: keyed_def)

section \<open>An execution that ends without a commit\<close>

lemma not_awaited:
  assumes "db_ok sha d" "executions d x = Some e" "rounds d (mx_roundId e) = Some round" "rd_activeExecutionId round \<noteq> Some x"
  shows "\<not> awaited d x"
proof
  assume "awaited d x"
  then obtain r rd where "rounds d r = Some rd" "rd_activeExecutionId rd = Some x" by (auto simp: awaited_def)
  moreover from this have "mx_roundId e = r" using slotD(1) [OF db_okD(5) [OF assms(1)]] assms(2) by blast
  ultimately show False using assms(3,4) by simp
qed

lemma end_events:
  assumes "db_ok sha d" "executions d x = Some e" "rounds d (mx_roundId e) = Some round" "execution_end e e'"
  shows "db_events sha d (if rd_activeExecutionId round = Some x
           then put_round (released_round pause reason round) (put_execution e' d) else put_execution e' d)"
proof (cases "rd_activeExecutionId round = Some x")
  case False
  from write1 [OF ev_end [OF assms(2,4) not_awaited [OF assms(1-3) this]]] False
  show ?thesis by simp
next
  case True
  define d1 where "d1 = put_round (released_round pause reason round) d"
  have id: "rd_id round = mx_roundId e" using ids(2) [OF assms(1,3)] .
  have step: "db_event sha d d1" unfolding d1_def by (rule ev_round [OF assms(3) move_release])
  then have "db_write sha d d1" by (rule write_event) (simp add: d1_def)
  have "executions d1 x = Some e" "rounds d1 (mx_roundId e) = Some (released_round pause reason round)"
    using assms(2) id by (simp_all add: d1_def db_lookup)
  from ev_end [OF this(1) assms(4) not_awaited [OF db_ok_event [OF step assms(1)] this]]
  have "db_write sha d1 (put_execution e' d1)" by (simp add: write_event)
  with \<open>db_write sha d d1\<close> have "db_events sha d (put_execution e' d1)" by simp
  with True show ?thesis by (simp add: d1_def put_swap)
qed

lemma discard_events:
  assumes "db_ok sha d" "executions d x = Some e" "rounds d (mx_roundId e) = Some round" "live_state (mx_state e)"
  shows "db_events sha d (discardLockedExecution t e round outcome q error d)"
  unfolding discardLockedExecution_def Let_def ids(3) [OF assms(1,2)]
  by (rule end_events [OF assms(1-3) end_discarded [OF assms(4)]])

lemma failure_events:
  assumes "db_ok sha d" "executions d x = Some e" "rounds d (mx_roundId e) = Some round" "live_state (mx_state e)"
    and "kind \<in> {mx_failed, mx_interrupted}"
  shows "db_events sha d (recordExecutionFailure t e round kind error pause d)"
  unfolding recordExecutionFailure_def Let_def ids(3) [OF assms(1,2)]
  by (rule end_events [OF assms(1-3) end_failed [OF assms(4,5)]])

section \<open>Room transactions\<close>

lemma appendUserMessage_events:
  assumes "appendUserMessage env k r token content d = Inr (d', m)" "db_ok (tv_sha env) d"
  shows "db_events (tv_sha env) d d'"
proof -
  from assms(1) obtain room round where c: "rooms d k = Some room" "rounds d r = Some round" "rd_roomId round = k"
    "messages d (mg_id m) = None" "d' = bumpRoomContext (tv_sha env) (tv_ts env 1) room (put_message m d)"
    "mg_roundId m = r" "mg_roomId m = k" "mg_role m = message_user" "mg_participantId m = None" "mg_sourceExecutionId m = None"
    by (auto simp: appendUserMessage_def Let_def tx_success)
  have "db_event (tv_sha env) d d'"
    unfolding c(5) using c by (intro ev_user_message [of d k room m round]) simp_all
  then show ?thesis by (rule write1) (simp add: c)
qed

lemma updateRoomSharedConfig_events:
  assumes "updateRoomSharedConfig env k token topic background d = Inr (d', changed)"
  shows "db_events (tv_sha env) d d'"
  using assms by (auto simp: updateRoomSharedConfig_def Let_def tx_success split: if_splits intro: write1 ev_config)

lemma renameRoom_cold_events:
  assumes "renameRoom_cold env k topic d = Inr (d', changed)"
  shows "db_events (tv_sha env) d d'"
proof (cases changed)
  case True
  with assms obtain room where c: "rooms d k = Some room"
    "d' = bumpRoomContext (tv_sha env) (tv_ts env 0) (room\<lparr>rm_topic := topic\<rparr>) d"
    by (auto simp: renameRoom_cold_def tx_success split: if_splits)
  from write1 [OF ev_config [OF c(1), where tp = topic and bg = "rm_background room"]]
  show ?thesis by (simp add: c(2))
next
  case False
  with assms show ?thesis by (auto simp: renameRoom_cold_def tx_success split: if_splits)
qed

lemma setRoomRunState_events:
  assumes "setRoomRunState env k token s d = Inr d'"
  shows "db_events sha d d'"
  using assms by (auto simp: setRoomRunState_def tx_success intro!: write1 ev_room)

lemma no_live_report:
  assumes "tb_ok (db_executions d)" "liveReport d k = None"
  shows "\<forall>x e. executions d x = Some e \<longrightarrow>
    \<not> (mx_roomId e = k \<and> mx_resultKind e = kind_report \<and> live_state (mx_state e))"
  using assms by (simp add: liveReport_def first_where_None)

lemma not_concluded: "rm_status room \<noteq> room_concluded \<longleftrightarrow> rm_status room = room_open"
  by (cases "rm_status room") simp_all

lemma createRound_events:
  assumes "createRound env k token order d = Inr (d', round)" "db_ok sha d"
  shows "db_events sha d d'"
proof -
  from assms(1) obtain room where c: "rooms d k = Some room" "rm_status room = room_open" "rm_activeRoundId room = None"
    "liveReport d (rm_id room) = None" "rounds d (tv_uuid env) = None"
    "d' = put_room (room\<lparr>rm_activeRoundId := Some (tv_uuid env), rm_runState := room_running,
             rm_lastActiveAt := tv_ts env 1\<rparr>) (put_round (new_round env k order d) d)"
    by (auto simp: createRound_def Let_def tx_success not_concluded)
  have "db_event sha d d'"
    unfolding c(6) using c no_live_report [OF tb_ok_tables(3) [OF assms(2)] c(4)] ids(1) [OF assms(2) c(1)]
    by (intro ev_open_round) simp_all
  then show ?thesis by (rule write1) (simp add: c)
qed

lemma createRoom_events:
  assumes "createRoom env topic background mode out maxRounds d = Inr (d', room)"
  shows "db_events (tv_sha env) d d'"
  using assms
  by (auto simp: createRoom_def createDiscussionRoom_def Let_def tx_success intro!: write1 ev_create)

lemma deleteRoom_event:
  assumes "deleteRoom_tx k d = Inr d'" "db_ok sha d"
  shows "d' = d \<or> db_event sha d d' \<and> d' = delete_room_rows k d"
proof (cases "rooms d k")
  case None
  with assms(1) show ?thesis by (simp add: deleteRoom_tx_def)
next
  case (Some room)
  with assms(1) have c: "live_executions d k = []" "d' = delete_room_rows k d"
    "rows_where (\<lambda>b. bi_roomId b = k \<and> bi_state b \<noteq> binding_closed) (db_bindings d) = []"
    by (simp_all add: deleteRoom_tx_def tx_success)
  have "\<forall>i b. bindings d i = Some b \<longrightarrow> bi_roomId b = k \<longrightarrow> bi_state b = binding_closed"
    using c(3) by (simp add: rows_where_empty tb_ok_tables [OF assms(2)])
  from ev_delete [OF Some c(1) this] c(2) show ?thesis by simp
qed

lemma joinAgent_events:
  assumes "joinAgent env k agent digest d = Some (Inr (d', p))"
  shows "db_events sha d d'"
  using assms
  by (auto simp: joinAgent_def Let_def tx_success split: option.splits intro!: write1 ev_join)

lemma agents_events: "db_events sha d (d\<lparr>db_agents := ags\<rparr>)"
  by (rule write1 [OF ev_agents]) simp

lemma nameFacilitator_events: "rooms d k = Some room \<Longrightarrow> db_events sha d (nameFacilitator room p d)"
  by (simp add: write1 [OF ev_facilitator])

section \<open>Round transactions\<close>

lemma transitionRound_events:
  assumes "transitionRound k r token target d = Inr d'" "target = phase_prewarming \<or> target = phase_running"
  shows "db_events sha d d'"
proof -
  from assms(1) obtain round where c: "rounds d r = Some round" "d' = put_round (round\<lparr>rd_phase := target\<rparr>) d"
    "rd_phase round = (if target = phase_prewarming then phase_pending else phase_prewarming)"
    by (auto simp: transitionRound_def tx_success)
  with assms(2) have "round_move round (round\<lparr>rd_phase := target\<rparr>)" by (auto intro: move_prewarm move_run)
  from ev_round [OF c(1) this] c(2) show ?thesis by (blast intro: writes)
qed

lemma pauseRound_events:
  assumes "pauseRound k r token reason d = Inr d'"
  shows "db_events sha d d'"
  using assms by (auto simp: pauseRound_def tx_success intro!: write1 ev_round move_pause)

lemma resumeRound_events:
  assumes "resumeRound k r token d = Inr d'"
  shows "db_events sha d d'"
  using assms by (auto simp: resumeRound_def tx_success intro!: write1 ev_round move_resume)

lemma skipParticipant_events:
  assumes "skipParticipant env k r token d = Inr (d', p, phase)" "db_ok sha d"
  shows "db_events sha d d'"
proof -
  from assms(1) obtain room round round' moved where c: "rooms d k = Some room" "rounds d r = Some round"
    "rd_phase round = phase_paused" "rd_pausedFrom round = Some phase_running" "at_cursor round \<noteq> None"
    "moved = round\<lparr>rd_nextParticipantIndex := rd_nextParticipantIndex round + 1, rd_activeExecutionId := None,
       rd_pausedFrom := None, rd_pauseReason := None\<rparr>"
    "round' = moved\<lparr>rd_phase := phase_at_cursor moved\<rparr>"
    "d' = put_room (room\<lparr>rm_lastActiveAt := tv_ts env 0\<rparr>) (put_round round' d)"
    by (auto simp: skipParticipant_def Let_def tx_success split: option.splits if_splits)
  have "db_write sha d (put_round round' d)"
    unfolding c(7) by (rule write_event [OF ev_round [OF c(2) move_skip [OF c(3-6)]]]) simp
  moreover have "rooms (put_round round' d) k = Some room" using c(1) by (simp add: db_lookup)
  from ev_room [OF this, where sha = sha and s = "rm_runState room" and t = "tv_ts env 0"] have "db_write sha (put_round round' d) d'"
    by (simp add: c(8) write_event)
  ultimately show ?thesis by simp
qed

lemma interrupt_active_events:
  assumes "db_ok sha d" "rounds d r = Some round"
  shows "db_events sha d (put_round (round\<lparr>rd_activeExecutionId := None\<rparr>) (interrupt_active t round d))"
proof (cases "rd_activeExecutionId round")
  case None
  from write1 [OF ev_round [OF assms(2) move_release [of round False undefined]]] None
  show ?thesis by (simp add: interrupt_active_def released_round_def)
next
  case (Some x)
  have eq: "released_round False reason round = round\<lparr>rd_activeExecutionId := None\<rparr>" for reason
    by (simp add: released_round_def)
  obtain e where e: "executions d x = Some e" "mx_roundId e = r" "live_state (mx_state e)"
    using db_okD(5) [OF assms(1)] assms(2) Some by (force simp: slots_ok_def)
  have "rounds d (mx_roundId e) = Some round" using assms(2) e(2) by simp
  from end_events [OF assms(1) e(1) this end_failed [OF e(3), of mx_interrupted t user_cancelled_error], of False] Some
  have "db_events sha d (put_round (round\<lparr>rd_activeExecutionId := None\<rparr>)
      (put_execution (failed_execution t mx_interrupted user_cancelled_error e) d))" by (simp add: eq)
  with Some e show ?thesis by (simp add: interrupt_active_def failed_execution_def)
qed

text \<open>The caller aborts a round of the room it names.\<close>

lemma abortRound_events:
  assumes "abortRound env k r token d = Inr d'" "db_ok sha d" "\<And>round. rounds d r = Some round \<Longrightarrow> rd_roomId round = k"
  shows "db_events sha d d'"
proof -
  from assms(1) obtain room round where c: "rooms d k = Some room" "rounds d r = Some round" "rd_phase round \<noteq> phase_completed"
    "d' = (if rd_phase round = phase_aborted then d
           else put_room (room\<lparr>rm_activeRoundId := None, rm_runState := room_idle, rm_lastActiveAt := tv_ts env 2\<rparr>)
                  (put_round (aborted_round (tv_ts env 1) round) (interrupt_active (tv_ts env 0) round d)))"
    by (auto simp: abortRound_def tx_success split: if_splits)
  show ?thesis
  proof (cases "rd_phase round = phase_aborted")
    case False
    let ?round = "round\<lparr>rd_activeExecutionId := None\<rparr>"
    define d1 where "d1 = put_round ?round (interrupt_active (tv_ts env 0) round d)"
    have rooms: "db_rooms (interrupt_active t round d) = db_rooms d" for t
      by (simp add: interrupt_active_def put_execution_def split: option.splits)
    have "db_events sha d d1" unfolding d1_def by (rule interrupt_active_events [OF assms(2) c(2)])
    moreover have "rounds d1 r = Some ?round" "rooms d1 (rd_roomId ?round) = Some room"
      using c(1) assms(3) [OF c(2)] ids(2) [OF assms(2) c(2)] rooms by (simp_all add: d1_def db_lookup)
    from ev_abort [OF this, where sha = sha and s = room_idle and t = "tv_ts env 2" and t' = "tv_ts env 1"] c(3) False
    have "db_write sha d1 (put_room (room\<lparr>rm_activeRoundId := None, rm_runState := room_idle, rm_lastActiveAt := tv_ts env 2\<rparr>)
        (put_round (aborted_round (tv_ts env 1) ?round) d1))"
      by (simp add: final_phase_def write_event)
    moreover have "put_round (aborted_round (tv_ts env 1) ?round) d1
        = put_round (aborted_round (tv_ts env 1) round) (interrupt_active (tv_ts env 0) round d)"
      by (simp add: d1_def aborted_round_def)
    ultimately show ?thesis using c(4) False by simp
  qed (use c in simp)
qed

section \<open>Execution transactions\<close>

text \<open>The caller dispatches a fresh execution of the room its round belongs to.\<close>

definition dispatched_for :: "db \<Rightarrow> ModelExecution \<Rightarrow> bool" where
  "dispatched_for d e \<longleftrightarrow> (\<exists>now f. e = createModelExecution now f)
     \<and> (\<forall>round. rounds d (mx_roundId e) = Some round \<longrightarrow> mx_roomId e = rd_roomId round)"

lemma begin_event:
  assumes "dispatched_for d e" "executions d (mx_executionId e) = None" "rounds d (mx_roundId e) = Some round"
    and "rd_activeExecutionId round = None" "kind_fits (mx_resultKind e) round (mx_participantId e)"
    and "mx_resultKind e \<in> {kind_message, kind_summary} \<longrightarrow> rd_focusMessageId round \<noteq> Null"
  shows "db_events sha d (put_round (round\<lparr>rd_activeExecutionId := Some (mx_executionId e)\<rparr>) (put_execution e d))"
proof -
  have "fresh_execution e d" "rd_roomId round = mx_roomId e"
    using assms(1-3) by (auto simp: dispatched_for_def fresh_execution_def)
  from ev_begin [OF this(1) assms(3) this(2) assms(4-6)] show ?thesis by (blast intro: writes)
qed

lemma beginExecution_events:
  assumes "beginExecution e token d = Inr d'" "db_ok sha d" "dispatched_for d e"
    and "mx_resultKind e = kind_message \<or> mx_resultKind e = kind_summary"
  shows "db_events sha d d'"
proof -
  from assms(1,4) obtain round where c: "rounds d (mx_roundId e) = Some round" "rd_activeExecutionId round = None"
    "rd_phase round = (if mx_resultKind e = kind_summary then phase_summarizing else phase_running)"
    "rd_focusMessageId round \<noteq> Null" "executions d (mx_executionId e) = None"
    "mx_resultKind e = kind_message \<longrightarrow> at_cursor round = Some (mx_participantId e)"
    "d' = put_round (round\<lparr>rd_activeExecutionId := Some (mx_executionId e)\<rparr>) (put_execution e d)"
    by (auto simp: beginExecution_def Let_def tx_success split: if_splits)
  have "standing round = rd_phase round"
    using standing_unpaused [OF shape_of [OF assms(2) c(1)]] c(3) by (simp split: if_splits)
  with assms(4) c(3,6) have "kind_fits (mx_resultKind e) round (mx_participantId e)" by auto
  from begin_event [OF assms(3) c(5,1,2) this] c(4,7) show ?thesis by simp
qed

lemma beginFocusExecution_events:
  assumes "beginFocusExecution e token d = Inr d'" "db_ok sha d" "dispatched_for d e" "mx_resultKind e = kind_focus"
  shows "db_events sha d d'"
proof -
  from assms(1) obtain round where c: "rounds d (mx_roundId e) = Some round" "rd_activeExecutionId round = None"
    "rd_phase round = phase_running" "rd_focusMessageId round = Null" "executions d (mx_executionId e) = None"
    "d' = put_round (round\<lparr>rd_activeExecutionId := Some (mx_executionId e)\<rparr>) (put_execution e d)"
    by (auto simp: beginFocusExecution_def tx_success)
  have "standing round = phase_running"
    using standing_unpaused [OF shape_of [OF assms(2) c(1)]] c(3) by simp
  with assms(4) c(4) have "kind_fits (mx_resultKind e) round (mx_participantId e)" by simp
  from begin_event [OF assms(3) c(5,1,2) this] assms(4) c(6) show ?thesis by simp
qed

lemma markExecutionDispatched_events:
  assumes "markExecutionDispatched env x h k ds d = Inr d'"
  shows "db_events sha d d'"
  using assms by (auto simp: markExecutionDispatched_def tx_success intro!: write1 ev_progress progress_dispatched)

lemma markExecutionSucceededUncommitted_events:
  assumes "markExecutionSucceededUncommitted env x em u q ds ts d = Inr d'"
  shows "db_events sha d d'"
  using assms
  by (auto simp: markExecutionSucceededUncommitted_def tx_success intro!: write1 ev_progress progress_succeeded)

lemma settle_ack_events:
  assumes "settle_ack a env x d = Inr d'" "a \<in> {ack_acknowledged, ack_expired}"
  shows "db_events sha d d'"
proof -
  from assms(1) obtain e where c: "executions d x = Some e"
    "d' = (if mx_ackState e = Some ack_pending
           then put_execution (e\<lparr>mx_ackState := Some a, mx_updatedAt := tv_ts env 0\<rparr>) d else d)"
    by (auto simp: settle_ack_def tx_success split: if_splits)
  from write1 [OF ev_note [OF c(1) note_ack [OF _ assms(2)]]] c(2) show ?thesis by auto
qed

lemma dropUnstartedRetryClaim_events: "db_events sha d (dropUnstartedRetryClaim env x d)"
  by (auto simp: dropUnstartedRetryClaim_def split: option.splits intro!: write1 ev_note note_error)

lemma discardExecution_events:
  assumes "discardExecution env x token outcome q error d = Inr (d', r)" "db_ok sha d"
  shows "db_events sha d d'"
proof -
  from assms(1) obtain e round where c: "executions d x = Some e" "rounds d (mx_roundId e) = Some round"
    "d' = d \<or> live_state (mx_state e) \<and> d' = discardLockedExecution (tv_ts env 0) e round outcome q error d"
    by (auto simp: discardExecution_def tx_success split: if_splits)
  from c(3) discard_events [OF assms(2) c(1,2)] show ?thesis by auto
qed

lemma not_final_live:
  "s \<noteq> mx_committed \<Longrightarrow> s \<noteq> mx_discarded \<Longrightarrow> s \<noteq> mx_failed \<Longrightarrow> s \<noteq> mx_interrupted \<Longrightarrow> live_state s"
  by (cases s) simp_all

lemma failExecution_events:
  assumes "failExecution env x token error kind pause d = Inr (d', room)" "db_ok sha d" "kind \<in> {mx_failed, mx_interrupted}"
  shows "db_events sha d d'"
proof (cases "d' = d")
  case False
  with assms(1) obtain e round where c: "executions d x = Some e" "rounds d (mx_roundId e) = Some round"
    "live_state (mx_state e)" "d' = recordExecutionFailure (tv_ts env 0) e round kind (error room) pause d"
    by (auto simp: failExecution_def tx_success not_final_live split: if_splits)
  from failure_events [OF assms(2) c(1-3) assms(3)] c(4) show ?thesis by simp
qed simp

lemma failUnboundExecution_events:
  assumes "failUnboundExecution env x error kind pause d = Inr (d', r)" "db_ok sha d" "kind \<in> {mx_failed, mx_interrupted}"
  shows "db_events sha d d'"
proof (cases "d' = d")
  case False
  with assms(1) obtain e round where c: "executions d x = Some e" "rounds d (mx_roundId e) = Some round"
    "live_state (mx_state e)" "d' = recordExecutionFailure (tv_ts env 0) e round kind error pause d"
    by (auto simp: failUnboundExecution_def tx_success not_final_live split: if_splits)
  from failure_events [OF assms(2) c(1-3) assms(3)] c(4) show ?thesis by simp
qed simp

section \<open>Commits\<close>

abbreviation spoken_round :: "DiscussionRound \<Rightarrow> DiscussionRound" where
  "spoken_round round \<equiv> (let moved = round\<lparr>rd_activeExecutionId := None,
     rd_nextParticipantIndex := rd_nextParticipantIndex round + 1\<rparr> in moved\<lparr>rd_phase := phase_at_cursor moved\<rparr>)"

text \<open>Both commits of a message end in this.\<close>

lemma message_event:
  assumes "db_ok (tv_sha env) d" "executions d x = Some e" "rounds d (mx_roundId e) = Some round"
    "rooms d (rd_roomId round) = Some room" "participants d (mx_participantId e) = Some p" "rd_phase round = phase_running"
    "rd_activeExecutionId round = Some x" "x = ci_executionId input" "m = committed_message env input room round p"
    "messages d (mg_id m) = None"
    and "mx_resultKind e = kind_message \<and> round' = spoken_round round
      \<or> mx_resultKind e = kind_focus \<and> round' = round\<lparr>rd_activeExecutionId := None, rd_focusMessageId := Value (mg_id m)\<rparr>"
  shows "db_event (tv_sha env) d (put_round round' (bumpRoomContext (tv_sha env) (tv_ts env 2) room
      (put_execution (committed_execution (tv_sha env) (tv_ts env 1) input entity_message (mg_id m) e) (put_message m d))))"
proof -
  note id = ids [OF assms(1)]
  have "m = \<lparr> mg_id = mg_id m, mg_roomId = rd_roomId round, mg_roundId = mx_roundId e, mg_role = message_participant,
          mg_participantId = Some (mx_participantId e), mg_content = ci_content input,
          mg_sourceExecutionId = Some x, mg_createdAt = tv_ts env 0 \<rparr>"
    using assms(8,9) id(1) [OF assms(4)] id(2) [OF assms(3)] id(6) [OF assms(5)] by (simp add: committed_message_def)
  from ev_commit_message [OF assms(2-4,6,7,10) this] assms(11) show ?thesis by (auto simp: Let_def)
qed

lemma commitModelMessage_events:
  assumes "commitModelMessage env input d = Inr (d', r)" "db_ok (tv_sha env) d"
  shows "db_events (tv_sha env) d d'"
proof (cases "d' = d")
  case False
  from False assms(1) obtain e round room p m where c: "executions d (ci_executionId input) = Some e"
    "rounds d (mx_roundId e) = Some round" "rooms d (rd_roomId round) = Some room"
    "participants d (mx_participantId e) = Some p" "mx_resultKind e = kind_message" "live_state (mx_state e)"
    "rd_phase round = phase_running" "rd_activeExecutionId round = Some (mx_executionId e)"
    "m = committed_message env input room round p"
    and d': "d' = discardLockedExecution (tv_ts env 0) e round outcome_stale_context (ci_finalEventSeq input) None d
      \<or> messages d (mg_id m) = None \<and>
        d' = put_round (spoken_round round) (bumpRoomContext (tv_sha env) (tv_ts env 2) room
               (put_execution (committed_execution (tv_sha env) (tv_ts env 1) input entity_message (mg_id m) e) (put_message m d)))"
    by (auto simp: commitModelMessage_def assertCommittable_def persistCommittedExecution_def
        Let_def tx_success split: if_splits)
  from c(8) ids(3) [OF assms(2) c(1)] have slot: "rd_activeExecutionId round = Some (ci_executionId input)" by simp
  from d' show ?thesis
    using discard_events [OF assms(2) c(1,2,6)] message_event [OF assms(2) c(1-4,7) slot refl c(9)] c(5) by (blast intro: writes)
qed simp

lemma commitFocusMessage_events:
  assumes "commitFocusMessage env input d = Inr (d', r)" "db_ok (tv_sha env) d"
  shows "db_events (tv_sha env) d d'"
proof (cases "d' = d")
  case False
  from False assms(1) obtain e round room p m where c: "executions d (ci_executionId input) = Some e"
    "rounds d (mx_roundId e) = Some round" "rooms d (rd_roomId round) = Some room"
    "participants d (mx_participantId e) = Some p" "mx_resultKind e = kind_focus" "live_state (mx_state e)"
    "rd_phase round = phase_running" "rd_activeExecutionId round = Some (mx_executionId e)"
    "m = committed_message env input room round p"
    and d': "d' = discardLockedExecution (tv_ts env 0) e round outcome_stale_context (ci_finalEventSeq input) None d
      \<or> messages d (mg_id m) = None \<and>
        d' = put_round (round\<lparr>rd_activeExecutionId := None, rd_focusMessageId := Value (mg_id m)\<rparr>)
               (bumpRoomContext (tv_sha env) (tv_ts env 2) room
               (put_execution (committed_execution (tv_sha env) (tv_ts env 1) input entity_message (mg_id m) e) (put_message m d)))"
    by (auto simp: commitFocusMessage_def assertCommittable_def persistCommittedExecution_def
        Let_def tx_success split: if_splits)
  from c(8) ids(3) [OF assms(2) c(1)] have slot: "rd_activeExecutionId round = Some (ci_executionId input)" by simp
  from d' show ?thesis
    using discard_events [OF assms(2) c(1,2,6)] message_event [OF assms(2) c(1-4,7) slot refl c(9)] c(5) by (blast intro: writes)
qed simp

lemma commitSummary_events:
  assumes "commitSummary env input d = Inr (d', r)" "db_ok (tv_sha env) d"
  shows "db_events (tv_sha env) d d'"
proof (cases "d' = d")
  case False
  from False assms(1) obtain e round room s d2 where c: "executions d (ci_executionId input) = Some e"
    "rounds d (mx_roundId e) = Some round" "rooms d (rd_roomId round) = Some room"
    "mx_resultKind e = kind_summary" "live_state (mx_state e)"
    "rd_phase round = phase_summarizing" "rd_activeExecutionId round = Some (mx_executionId e)"
    "s = \<lparr> su_id = tv_uuid env, su_roomId = rm_id room, su_roundId = rd_id round,
           su_content = ci_content input, su_sourceExecutionId = mx_executionId e, su_generatedAt = tv_ts env 0 \<rparr>"
    "d2 = put_execution (committed_execution (tv_sha env) (tv_ts env 1) input entity_summary (tv_uuid env) e) (put_summary s d)"
    and d': "d' = discardLockedExecution (tv_ts env 0) e round outcome_stale_context (ci_finalEventSeq input) None d
      \<or> summaries d (tv_uuid env) = None
        \<and> rows_where (\<lambda>row. su_roundId row = rd_id round \<or> su_sourceExecutionId row = mx_executionId e) (db_summaries d) = []
        \<and> d' = put_room ((bumped (tv_sha env) (tv_ts env 2) d2 room)
                \<lparr>rm_activeRoundId := None, rm_runState := room_idle, rm_lastActiveAt := tv_ts env 4\<rparr>)
              (put_round (round\<lparr>rd_phase := phase_completed, rd_activeExecutionId := None,
                 rd_completedAt := Some (tv_ts env 3)\<rparr>) d2)"
    by (auto simp: commitSummary_def assertCommittable_def persistCommittedExecution_def
        Let_def tx_success put_swap split: if_splits)
  note id = ids [OF assms(2)]
  from c(7) id(3) [OF c(1)] have slot: "rd_activeExecutionId round = Some (ci_executionId input)" by simp
  have s: "s = \<lparr> su_id = tv_uuid env, su_roomId = rd_roomId round, su_roundId = mx_roundId e,
           su_content = ci_content input, su_sourceExecutionId = ci_executionId input, su_generatedAt = tv_ts env 0 \<rparr>"
    using c(8) id(1) [OF c(3)] id(2) [OF c(2)] id(3) [OF c(1)] by simp
  from d' show ?thesis
  proof (elim disjE conjE)
    assume new: "summaries d (tv_uuid env) = None"
      "rows_where (\<lambda>row. su_roundId row = rd_id round \<or> su_sourceExecutionId row = mx_executionId e) (db_summaries d) = []"
    then have "\<forall>k s. summaries d k = Some s \<longrightarrow> su_roundId s \<noteq> mx_roundId e"
      using id(2) [OF c(2)] by (simp add: rows_where_empty tb_ok_tables [OF assms(2)])
    note ev = ev_commit_summary [OF c(1,4,2,3,6) slot new(1) this s c(9), of "tv_ts env 4" "tv_ts env 2" "tv_ts env 3"]
    assume "d' = put_room ((bumped (tv_sha env) (tv_ts env 2) d2 room)
                \<lparr>rm_activeRoundId := None, rm_runState := room_idle, rm_lastActiveAt := tv_ts env 4\<rparr>)
              (put_round (round\<lparr>rd_phase := phase_completed, rd_activeExecutionId := None,
                 rd_completedAt := Some (tv_ts env 3)\<rparr>) d2)"
    then show ?thesis using ev c(9) by (simp add: write1)
  qed (use discard_events [OF assms(2) c(1,2,5)] in blast)
qed simp

lemma slot_not_report:
  assumes "db_ok sha d" "executions d x = Some e" "mx_resultKind e = kind_report"
  shows "\<not> awaited d x"
  using slotD(3) [OF db_okD(5) [OF assms(1)] _ _ assms(2)] assms(3) by (fastforce simp: awaited_def)

lemma commitReport_events:
  assumes "commitReport env input d = Inr (d', r)" "db_ok (tv_sha env) d"
  shows "db_events (tv_sha env) d d'"
proof (cases "d' = d")
  case False
  from False assms(1) obtain e room p where c: "executions d (ci_executionId input) = Some e"
    "rooms d (mx_roomId e) = Some room" "mx_resultKind e = kind_report" "live_state (mx_state e)"
    "rm_status room = room_open" "first_where (\<lambda>r. rp_roomId r = rm_id room) (db_reports d) = None"
    "p = \<lparr> rp_id = tv_uuid env, rp_roomId = rm_id room, rp_content = ci_content input,
        rp_sourceExecutionId = mx_executionId e, rp_createdAt = tv_ts env 0 \<rparr>"
    and d': "d' = put_execution (discarded_execution (tv_ts env 0) outcome_stale_context (ci_finalEventSeq input) None e) d
      \<or> reports d (rp_id p) = None
        \<and> d' = put_room (room\<lparr>rm_status := room_concluded, rm_runState := room_idle, rm_lastActiveAt := tv_ts env 2\<rparr>)
             (put_execution (committed_execution (tv_sha env) (tv_ts env 1) input entity_report (rp_id p) e) (put_report p d))"
    by (auto simp: commitReport_def assertCommittable_def persistCommittedExecution_def createDecisionReport_def
        Let_def tx_success not_concluded split: if_splits)
  note id = ids [OF assms(2)]
  have p: "rp_roomId p = mx_roomId e" "rp_sourceExecutionId p = ci_executionId input" "rp_content p = ci_content input"
    using c(7) id(1) [OF c(2)] id(3) [OF c(1)] by simp_all
  have "\<forall>k p'. reports d k = Some p' \<longrightarrow> rp_roomId p' \<noteq> mx_roomId e"
    using c(6) id(1) [OF c(2)] by (simp add: first_where_None tb_ok_tables [OF assms(2)])
  note commit = ev_commit_report [OF c(1,3,4,2,5) _ p this]
  note fin = ev_end [OF c(1) end_discarded [OF c(4)] slot_not_report [OF assms(2) c(1,3)]]
  from d' show ?thesis using commit fin by (blast intro: writes)
qed simp

lemma conclude_events:
  assumes "db_ok sha d" "rooms d k = Some room"
    and "\<not> (\<exists>r ar. rm_activeRoundId room = Some r \<and> rounds d r = Some ar \<and> rd_activeExecutionId ar \<noteq> None)"
    and "room1 = (if rm_activeRoundId room = None then room else room\<lparr>rm_activeRoundId := None, rm_runState := room_idle\<rparr>)"
  shows "db_events sha d (put_room (room1\<lparr>rm_lastActiveAt := t\<rparr>) (conclude_round t' room d))"
proof (cases "rm_activeRoundId room")
  case None
  from write1 [OF ev_room [OF assms(2), where s = "rm_runState room" and t = t]] None assms(4)
  show ?thesis by (simp add: conclude_round_def)
next
  case (Some r)
  with links_okD(1) [OF db_okD(2) [OF assms(1)] assms(2)] obtain round where
    round: "rounds d r = Some round" "rd_roomId round = k" "\<not> final_phase (rd_phase round)" by blast
  with Some assms(3) have free: "rd_activeExecutionId round = None" by auto
  from round(2) assms(2) have "rooms d (rd_roomId round) = Some room" by simp
  from write1 [OF ev_abort [OF round(1) this round(3) free, where s = room_idle and t = t and t' = t']]
    Some assms(4) round(1,3)
  show ?thesis by (simp add: conclude_round_def final_phase_def)
qed

lemma if_found: "(case x of None \<Rightarrow> None | Some r \<Rightarrow> if P r then Some r else None) = Some a \<longleftrightarrow> x = Some a \<and> P a"
  by (auto split: option.splits if_splits)

lemma beginReportExecution_events:
  assumes "beginReportExecution env e token d = Inr d'" "db_ok sha d" "\<exists>now f. e = createModelExecution now f"
  shows "db_events sha d d'"
proof -
  from assms(1) obtain room round d1 room1 where c: "mx_resultKind e = kind_report" "rooms d (mx_roomId e) = Some room"
    "rm_status room = room_open"
    "\<not> (\<exists>r ar. rm_activeRoundId room = Some r \<and> rounds d r = Some ar \<and> rd_activeExecutionId ar \<noteq> None)"
    "rounds d1 (mx_roundId e) = Some round" "rd_roomId round = rm_id room" "liveReport d1 (rm_id room) = None"
    "add_execution e (put_room (room1\<lparr>rm_lastActiveAt := tv_ts env 1\<rparr>) d1) = Inr d'"
    and d1: "d1 = conclude_round (tv_ts env 0) room d"
    and room1: "room1 = (if rm_activeRoundId room = None then room
      else room\<lparr>rm_activeRoundId := None, rm_runState := room_idle\<rparr>)"
    unfolding beginReportExecution_def Let_def tx_success not_concluded if_found by blast
  define d2 where "d2 = put_room (room1\<lparr>rm_lastActiveAt := tv_ts env 1\<rparr>) d1"
  note id = ids(1) [OF assms(2) c(2)]
  have same: "db_executions d1 = db_executions d" "db_rooms d1 = db_rooms d"
    by (simp_all add: d1 conclude_round_def put_round_def split: option.splits)
  have room2: "rm_id room1 = mx_roomId e" "rm_activeRoundId room1 = None" "rm_status room1 = room_open"
    using id c(3) by (simp_all add: room1)
  have conclude: "db_events sha d d2"
    unfolding d2_def d1 by (rule conclude_events [OF assms(2) c(2) c(4)]) (simp add: room1)
  from c(8) have new: "executions d2 (mx_executionId e) = None" "d' = put_execution e d2" by (simp_all add: d2_def tx_success)
  have "fresh_execution e d2" using assms(3) new(1) by (simp add: fresh_execution_def)
  moreover have "rounds d2 (mx_roundId e) = Some round" using c(5) by (simp add: d2_def db_lookup)
  moreover have "rd_roomId round = mx_roomId e" using c(6) id by simp
  moreover have "rooms d2 (mx_roomId e) = Some (room1\<lparr>rm_lastActiveAt := tv_ts env 1\<rparr>)"
    using room2(1) by (simp add: d2_def db_lookup)
  moreover have "\<forall>x e'. executions d2 x = Some e' \<longrightarrow>
      \<not> (mx_roomId e' = mx_roomId e \<and> mx_resultKind e' = kind_report \<and> live_state (mx_state e'))"
    using no_live_report [of d1, OF _ c(7)] tb_ok_tables(3) [OF assms(2)] id by (simp add: d2_def db_lookup same)
  ultimately have "db_write sha d2 d'"
    unfolding new(2) using c(1) room2(2,3) by (intro write_event ev_begin_report [where room = "room1\<lparr>rm_lastActiveAt := tv_ts env 1\<rparr>"]) simp_all
  with conclude show ?thesis by simp
qed

section \<open>Bindings\<close>

lemma createRuntimeBindingTx_events:
  assumes "createRuntimeBindingTx env k req d = Inr (d', b)" "db_ok sha d"
  shows "db_events sha d d'"
proof (cases "d' = d")
  case False
  with assms(1) have c: "rooms d k \<noteq> None" "bindings d (bi_id b) = None" "bi_state b = binding_creating"
    "bi_scopeRequestId b = req" "bi_roomId b = k" "d' = put_binding b d"
    "first_where (\<lambda>b. bi_scopeRequestId b = req) (db_bindings d) = None"
    "first_where (\<lambda>b. bi_roomId b = k \<and> (bi_state b = binding_creating \<or> bi_state b = binding_active)) (db_bindings d) = None"
    by (auto simp: createRuntimeBindingTx_def createRuntimeBinding_def tx_success split: option.splits)
  have "\<forall>k b'. bindings d k = Some b' \<longrightarrow> bi_scopeRequestId b' \<noteq> bi_scopeRequestId b
       \<and> \<not> (bi_roomId b' = bi_roomId b \<and> live_binding b')"
    using c(4,5,7,8) by (simp add: first_where_None tb_ok_tables [OF assms(2)] live_binding_def)
  from ev_bind [OF c(2,3) this] c(1,5,6) show ?thesis by (blast intro: writes)
qed simp

lemma rebind_events:
  assumes "bindings d k = Some b" "binding_move b b'"
  shows "db_events sha d (put_binding b' d)"
  using ev_rebind [OF assms] by (blast intro: writes)

lemma activateRuntimeBinding_events:
  assumes "activateRuntimeBinding env k h s c l d = Inr (d', b)"
  shows "db_events sha d d'"
  using assms
  by (auto simp: activateRuntimeBinding_def Let_def tx_success binding_move_def live_binding_def intro!: rebind_events)

lemma takeoverRuntimeBinding_events:
  assumes "takeoverRuntimeBinding env k c l d = Inr d'"
  shows "db_events sha d d'"
  using assms by (auto simp: takeoverRuntimeBinding_def tx_success binding_move_def live_binding_def intro!: rebind_events)

lemma markBindingClosing_events:
  assumes "markBindingClosing env k d = Inr d'"
  shows "db_events sha d d'"
  using assms
  by (auto simp: markBindingClosing_def tx_success binding_move_def live_binding_def intro!: rebind_events split: if_splits)

lemma markBindingClosed_events:
  assumes "markBindingClosed env k d = Inr d'"
  shows "db_events sha d d'"
  using assms
  by (auto simp: markBindingClosed_def tx_success binding_move_def live_binding_def intro!: rebind_events split: if_splits)

lemma releaseRuntime_events:
  assumes "releaseRuntime_tx env k d = Some d'" "db_ok sha d"
  shows "db_events sha d d'"
proof (cases "d' = d")
  case False
  with assms(1) obtain b where b: "first_where (\<lambda>b. bi_roomId b = k \<and> bi_state b = binding_active
      \<and> bi_executionScopeId b \<noteq> None \<and> bi_executionScopeId b \<noteq> Some []) (db_bindings d) = Some b"
    "d' = put_binding (b\<lparr>bi_state := binding_closed, bi_updatedAt := tv_ts env 0\<rparr>) d"
    by (auto simp: releaseRuntime_tx_def split: if_splits option.splits)
  with first_where_Some [OF tb_ok_tables(7) [OF assms(2)] b(1)] show ?thesis
    by (auto simp: binding_move_def live_binding_def intro!: rebind_events)
qed simp

section \<open>The transactions as steps\<close>

text \<open>
  One successful transaction.  Besides success a step states what the callers in the orchestrator
  provide: a phase transition goes to prewarming or running, an aborted round is a round of the
  room it is aborted in, executions are fresh and carry the kind that the transaction is for, and a
  failure is recorded as failed or interrupted.  The Agents table is written by the settings page
  alone, in any way.
\<close>

inductive discussion_step :: "(string \<Rightarrow> string) \<Rightarrow> db \<Rightarrow> db \<Rightarrow> bool" for sha where
  step_createRoom: "createRoom env topic background mode out maxRounds d = Inr (d', room) \<Longrightarrow> tv_sha env = sha \<Longrightarrow>
    discussion_step sha d d'"
| step_nameFacilitator: "rooms d k = Some room \<Longrightarrow> discussion_step sha d (nameFacilitator room p d)"
| step_agents: "discussion_step sha d (d\<lparr>db_agents := ags\<rparr>)"
| step_joinAgent: "joinAgent env k agent digest d = Some (Inr (d', participant)) \<Longrightarrow> discussion_step sha d d'"
| step_renameRoom: "renameRoom_cold env k topic d = Inr (d', changed) \<Longrightarrow> tv_sha env = sha \<Longrightarrow> discussion_step sha d d'"
| step_deleteRoom: "deleteRoom_tx k d = Inr d' \<Longrightarrow> discussion_step sha d d'"
| step_appendUserMessage: "appendUserMessage env k r token content d = Inr (d', m) \<Longrightarrow> tv_sha env = sha \<Longrightarrow>
    discussion_step sha d d'"
| step_updateRoomSharedConfig: "updateRoomSharedConfig env k token topic' background' d = Inr (d', changed) \<Longrightarrow>
    tv_sha env = sha \<Longrightarrow> discussion_step sha d d'"
| step_setRoomRunState: "setRoomRunState env k token s d = Inr d' \<Longrightarrow> discussion_step sha d d'"
| step_createRound: "createRound env k token order d = Inr (d', round) \<Longrightarrow> discussion_step sha d d'"
| step_transitionRound: "transitionRound k r token target d = Inr d' \<Longrightarrow> target = phase_prewarming \<or> target = phase_running \<Longrightarrow>
    discussion_step sha d d'"
| step_pauseRound: "pauseRound k r token reason d = Inr d' \<Longrightarrow> discussion_step sha d d'"
| step_resumeRound: "resumeRound k r token d = Inr d' \<Longrightarrow> discussion_step sha d d'"
| step_abortRound: "abortRound env k r token d = Inr d' \<Longrightarrow> (\<And>round. rounds d r = Some round \<Longrightarrow> rd_roomId round = k) \<Longrightarrow>
    discussion_step sha d d'"
| step_skipParticipant: "skipParticipant env k r token d = Inr (d', p, phase) \<Longrightarrow> discussion_step sha d d'"
| step_beginExecution: "beginExecution e token d = Inr d' \<Longrightarrow> dispatched_for d e \<Longrightarrow>
    mx_resultKind e = kind_message \<or> mx_resultKind e = kind_summary \<Longrightarrow> discussion_step sha d d'"
| step_beginFocusExecution: "beginFocusExecution e token d = Inr d' \<Longrightarrow> dispatched_for d e \<Longrightarrow>
    mx_resultKind e = kind_focus \<Longrightarrow> discussion_step sha d d'"
| step_beginReportExecution: "beginReportExecution env e token d = Inr d' \<Longrightarrow> \<exists>now f. e = createModelExecution now f \<Longrightarrow>
    discussion_step sha d d'"
| step_markExecutionDispatched: "markExecutionDispatched env x h k ds d = Inr d' \<Longrightarrow> discussion_step sha d d'"
| step_markExecutionSucceeded: "markExecutionSucceededUncommitted env x em u q ds ts d = Inr d' \<Longrightarrow> discussion_step sha d d'"
| step_commitModelMessage: "commitModelMessage env input d = Inr (d', r') \<Longrightarrow> tv_sha env = sha \<Longrightarrow> discussion_step sha d d'"
| step_commitFocusMessage: "commitFocusMessage env input d = Inr (d', r') \<Longrightarrow> tv_sha env = sha \<Longrightarrow> discussion_step sha d d'"
| step_commitSummary: "commitSummary env input d = Inr (d', r') \<Longrightarrow> tv_sha env = sha \<Longrightarrow> discussion_step sha d d'"
| step_commitReport: "commitReport env input d = Inr (d', r') \<Longrightarrow> tv_sha env = sha \<Longrightarrow> discussion_step sha d d'"
| step_discardExecution: "discardExecution env x token outcome q error d = Inr (d', result) \<Longrightarrow> discussion_step sha d d'"
| step_failExecution: "failExecution env x token error' kind pause d = Inr (d', room) \<Longrightarrow> kind \<in> {mx_failed, mx_interrupted} \<Longrightarrow>
    discussion_step sha d d'"
| step_failUnboundExecution: "failUnboundExecution env x error'' kind pause d = Inr (d', unbound) \<Longrightarrow>
    kind \<in> {mx_failed, mx_interrupted} \<Longrightarrow> discussion_step sha d d'"
| step_markAcknowledged: "markAcknowledged env x d = Inr d' \<Longrightarrow> discussion_step sha d d'"
| step_markAckExpired: "markAckExpired env x d = Inr d' \<Longrightarrow> discussion_step sha d d'"
| step_dropRetryClaim: "discussion_step sha d (dropUnstartedRetryClaim env x d)"
| step_createBinding: "createRuntimeBindingTx env k req d = Inr (d', b) \<Longrightarrow> discussion_step sha d d'"
| step_activateBinding: "activateRuntimeBinding env bid h s c l d = Inr (d', b) \<Longrightarrow> discussion_step sha d d'"
| step_takeoverBinding: "takeoverRuntimeBinding env bid c l d = Inr d' \<Longrightarrow> discussion_step sha d d'"
| step_closingBinding: "markBindingClosing env bid d = Inr d' \<Longrightarrow> discussion_step sha d d'"
| step_closedBinding: "markBindingClosed env bid d = Inr d' \<Longrightarrow> discussion_step sha d d'"
| step_releaseRuntime: "releaseRuntime_tx env k d = Some d' \<Longrightarrow> discussion_step sha d d'"

lemmas transaction_events = createRoom_events agents_events nameFacilitator_events joinAgent_events renameRoom_cold_events
  appendUserMessage_events updateRoomSharedConfig_events setRoomRunState_events createRound_events
  transitionRound_events pauseRound_events resumeRound_events abortRound_events skipParticipant_events
  beginExecution_events beginFocusExecution_events beginReportExecution_events markExecutionDispatched_events
  markExecutionSucceededUncommitted_events commitModelMessage_events commitFocusMessage_events commitSummary_events
  commitReport_events discardExecution_events failExecution_events failUnboundExecution_events
  dropUnstartedRetryClaim_events createRuntimeBindingTx_events activateRuntimeBinding_events
  takeoverRuntimeBinding_events markBindingClosing_events markBindingClosed_events releaseRuntime_events

lemma step_events:
  assumes "discussion_step sha d d'" "db_ok sha d"
  shows "db_events sha d d' \<or> (\<exists>k. db_event sha d d' \<and> d' = delete_room_rows k d)"
proof (cases "\<exists>k. deleteRoom_tx k d = Inr d'")
  case True
  with deleteRoom_event [OF _ assms(2)] show ?thesis by blast
next
  case False
  from assms(1) have "db_events sha d d'"
  proof cases
    case (step_deleteRoom k)
    with False show ?thesis by blast
  next
    case (step_markAcknowledged env x)
    then show ?thesis unfolding markAcknowledged_def by (rule settle_ack_events) simp
  next
    case (step_markAckExpired env x)
    then show ?thesis unfolding markAckExpired_def by (rule settle_ack_events) simp
  qed (use assms(2) in \<open>auto intro: transaction_events\<close>)
  then show ?thesis ..
qed

lemma db_ok_writes: "db_events sha d d' \<Longrightarrow> db_ok sha d \<Longrightarrow> db_ok sha d'"
  by (induction rule: rtranclp_induct) (auto simp: db_write_def intro: db_ok_event)

lemma db_ok_step: "discussion_step sha d d' \<Longrightarrow> db_ok sha d \<Longrightarrow> db_ok sha d'"
  using step_events db_ok_writes db_ok_event by blast

definition discussion_reachable :: "(string \<Rightarrow> string) \<Rightarrow> db \<Rightarrow> bool" where
  "discussion_reachable sha d \<longleftrightarrow> (discussion_step sha)\<^sup>*\<^sup>* empty_db d"

lemma reachable_ok: "discussion_reachable sha d \<Longrightarrow> db_ok sha d"
  unfolding discussion_reachable_def
  by (induction rule: rtranclp_induct) (blast intro: db_ok_empty db_ok_step)+

end
