(* ===== verification/Discussion_Properties.thy ===== *)
theory Discussion_Properties
  imports Discussion_Refinement
begin

text \<open>
  What the discussion database guarantees, from the refinement of \<open>Discussion_Refinement\<close>: lemmas
  about a chain of events, then the properties of the transactions, each with a concrete run.
\<close>

section \<open>Executions that have ended\<close>

text \<open>An ended execution keeps its state, its entity and its outcome.\<close>

definition settled_same :: "ModelExecution \<Rightarrow> ModelExecution \<Rightarrow> bool" where
  "settled_same e e' \<longleftrightarrow> same_anchor e e' \<and> mx_state e' = mx_state e \<and> mx_contentDigest e' = mx_contentDigest e
     \<and> mx_committedEntityType e' = mx_committedEntityType e \<and> mx_committedEntityId e' = mx_committedEntityId e
     \<and> mx_runtimeOutcome e' = mx_runtimeOutcome e \<and> mx_finalEventSeq e' = mx_finalEventSeq e"

lemma settled_same_refl [simp]: "settled_same e e"
  by (simp add: settled_same_def same_anchor_def)

lemma settled_same_trans: "settled_same e f \<Longrightarrow> settled_same f g \<Longrightarrow> settled_same e g"
  by (simp add: settled_same_def same_anchor_def)

lemma settled_note: "execution_note e e' \<Longrightarrow> settled_same e e'"
  by (cases rule: execution_note.cases) (auto simp: settled_same_def same_anchor_def)

lemma put_elsewhere:
  assumes "Xs x = Some e" "\<not> live_state (mx_state e)" "Xs y = Some f" "live_state (mx_state f)"
  shows "(Xs(y \<mapsto> f')) x = Some e"
  using assms by auto

lemma settled_event:
  assumes "db_event sha d d'" "db_ok sha d" "executions d x = Some e" "\<not> live_state (mx_state e)"
  shows "(\<exists>e'. executions d' x = Some e' \<and> settled_same e e') \<or> d' = delete_room_rows (mx_roomId e) d"
proof -
  note id = ids(2,3) [OF assms(2)] and S = db_okD(5) [OF assms(2)]
  have anch: "executions d x = Some e \<Longrightarrow> execution_shape e" for x e
    using db_okD(4) [OF assms(2)] by (simp add: anchors_iff)
  have put: "executions d y = Some f \<Longrightarrow> live_state (mx_state f) \<Longrightarrow> ((executions d)(y \<mapsto> f')) x = Some e" for y f f'
    using put_elsewhere [of "executions d" x e y f, OF assms(3,4)] by simp
  from assms(1) show ?thesis
  proof cases
    case (ev_delete k room)
    then show ?thesis
      using assms(3) by (cases "mx_roomId e = k") (auto simp: deleted_lookup [OF db_okD(1) [OF assms(2)]])
  next
    case (ev_begin f round)
    with fresh_execution_facts(4) [OF ev_begin(2)] assms(3) show ?thesis by (auto simp: db_lookup)
  next
    case (ev_begin_report f round room)
    with fresh_execution_facts(4) [OF ev_begin_report(2)] assms(3) show ?thesis by (auto simp: db_lookup)
  next
    case (ev_progress y f f')
    note facts = execution_progress_facts [OF ev_progress(3) anch [OF ev_progress(2)]]
    with put [OF ev_progress(2), of f'] id(2) [OF ev_progress(2)] show ?thesis
      by (simp add: ev_progress(1) db_lookup same_anchor_def)
  next
    case (ev_end y f f')
    note facts = execution_end_facts [OF ev_end(3) anch [OF ev_end(2)]]
    with put [OF ev_end(2), of f'] id(2) [OF ev_end(2)] show ?thesis
      by (simp add: ev_end(1) db_lookup same_anchor_def)
  next
    case (ev_note y f f')
    with settled_note [OF ev_note(3)] id(2) [OF ev_note(2)] assms(3) show ?thesis
      by (cases "x = y") (auto simp: ev_note(1) db_lookup settled_same_def same_anchor_def)
  next
    case (ev_commit_message y f round room m i input t moved round' t2 t1)
    with slotD(2) [OF S ev_commit_message(3,6,2)] id(2) [OF ev_commit_message(2)] put [OF ev_commit_message(2)]
    show ?thesis by (simp add: db_lookup)
  next
    case (ev_commit_summary y f round room i sm input t d2 t1 t4 t2 t3)
    with slotD(2) [OF S ev_commit_summary(4,7,2)] id(2) [OF ev_commit_summary(2)] put [OF ev_commit_summary(2)]
    show ?thesis by (simp add: db_lookup)
  next
    case (ev_commit_report y f room p input t2 t1)
    with id(2) [OF ev_commit_report(2)] put [OF ev_commit_report(2)]
    show ?thesis by (simp add: db_lookup)
  qed (use assms(3) in \<open>simp_all add: db_lookup\<close>)
qed

lemma settled_writes:
  assumes "db_events sha d d'" "db_ok sha d" "executions d x = Some e" "\<not> live_state (mx_state e)"
  shows "\<exists>e'. executions d' x = Some e' \<and> settled_same e e'"
  using assms(1)
proof (induction rule: rtranclp_induct)
  case (step c d')
  then obtain f where f: "executions c x = Some f" "settled_same e f" by blast
  have c: "db_ok sha c" using db_ok_writes [OF step(1) assms(2)] .
  from f assms(4) have fin: "\<not> live_state (mx_state f)" by (simp add: settled_same_def)
  have "rooms c (mx_roomId f) \<noteq> None"
  proof -
    from db_okD(4) [OF c] f(1) obtain round where "rounds c (mx_roundId f) = Some round" "rd_roomId round = mx_roomId f"
      by (auto simp: anchors_ok_def)
    with links_okD(2) [OF db_okD(2) [OF c]] show ?thesis by fastforce
  qed
  with step(2) have "d' \<noteq> delete_room_rows (mx_roomId f) c"
    by (auto simp: db_write_def keeps_rooms_def deleted_lookup [OF db_okD(1) [OF c]])
  with settled_event [OF _ c f(1) fin] step(2) obtain g where "executions d' x = Some g" "settled_same f g"
    by (auto simp: db_write_def)
  with settled_same_trans [OF f(2)] show ?case by blast
qed (use assms(3) in simp)

lemma settled_step:
  assumes "discussion_step sha d d'" "db_ok sha d" "executions d x = Some e" "\<not> live_state (mx_state e)"
  shows "(\<exists>e'. executions d' x = Some e' \<and> settled_same e e') \<or> d' = delete_room_rows (mx_roomId e) d"
  using step_events [OF assms(1,2)] settled_writes [OF _ assms(2-4)] settled_event [OF _ assms(2-4)] by blast

section \<open>The digest of a context\<close>

lemma digest_version_ok: "number_text (show_nat SNAPSHOT_DIGEST_VERSION)"
  by (simp add: SNAPSHOT_DIGEST_VERSION_def show_nat.simps number_text_def number_char_def is_digit_def Let_def)

lemma numbers_ok_context: "numbers_ok (contextDigestMaterial p)"
  by (auto simp: contextDigestMaterial_def numbers_ok_all item_json_shape digest_version_ok)

lemma key_sorted_items_each: "key_sorted_items xs = map key_sorted xs"
  by (induction xs) simp_all

lemma context_key_order:
  "''background'' < ''digestVersion''" "''background'' < ''items''" "''background'' < ''topic''"
  "''digestVersion'' < ''items''" "''digestVersion'' < ''topic''" "''items'' < ''topic''"
  by code_simp+

lemmas context_key_less = context_key_order [THEN less_imp_le] context_key_order [THEN not_le [THEN iffD2]]

lemma key_sorted_context:
  "key_sorted (contextDigestMaterial p) =
     JObj [(''background'', JStr (sj_background p)), (''digestVersion'', json_nat SNAPSHOT_DIGEST_VERSION),
       (''items'', JArr (map (key_sorted \<circ> item_json) (sj_items p))), (''topic'', JStr (sj_topic p))]"
  by (simp add: contextDigestMaterial_def key_sorted_items_each context_key_less)

lemma key_sorted_item_inj: "key_sorted (item_json a) = key_sorted (item_json b) \<longleftrightarrow> a = b"
  by (cases a; cases b) (auto simp: key_sorted_item opt_member_def text_or_role_inj split: option.splits)

text \<open>The canonical text of a context determines the context.\<close>

lemma context_text_inj: "canonical_text (contextDigestMaterial p) = canonical_text (contextDigestMaterial q) \<longleftrightarrow> p = q"
proof
  assume eq: "canonical_text (contextDigestMaterial p) = canonical_text (contextDigestMaterial q)"
  from canonicalJson_text [OF digest_material_total(1) [of q]]
  have "canonicalJson (contextDigestMaterial q) = Inr (canonical_text (contextDigestMaterial p))" by (simp add: eq)
  from canonical_text_inj [OF canonicalJson_text [OF digest_material_total(1)] this]
  have "key_sorted (contextDigestMaterial p) = key_sorted (contextDigestMaterial q)" by (simp add: numbers_ok_context)
  then have "sj_topic p = sj_topic q" "sj_background p = sj_background q"
    "map (key_sorted \<circ> item_json) (sj_items p) = map (key_sorted \<circ> item_json) (sj_items q)"
    by (simp_all add: key_sorted_context)
  moreover have "inj (key_sorted \<circ> item_json)" by (simp add: inj_on_def key_sorted_item_inj)
  ultimately show "p = q" by (cases p; cases q) (simp add: inj_map_eq_map)
qed simp

section \<open>A concrete run\<close>

text \<open>
  A room is created, an Agent joins it and becomes its facilitator, a runtime is bound, a round is
  opened and started, and its focus execution is dispatched.  \<open>sample_run\<close> is the list of the
  databases after each transaction, newest first.
\<close>

definition sample_sha :: "string \<Rightarrow> string" where
  "sample_sha s = s"

definition sample_tx :: "string \<Rightarrow> tx_env" where
  "sample_tx uuid = \<lparr> tv_sha = sample_sha, tv_uuid = uuid, tv_ts = (\<lambda>_. ''t'') \<rparr>"

definition sample_token :: ControllerToken where
  "sample_token = \<lparr> ct_controllerId = ''c'', ct_leaseEpoch = 1 \<rparr>"

definition sample_agent :: DiscussionAgent where
  "sample_agent = \<lparr> ag_id = ''a'', ag_name = ''A'', ag_personaPrompt = ''p'', ag_executionProfileId = ''e'',
     ag_modelId = ''m'', ag_color = ''#000000'', ag_revision = 1, ag_enabled = True, ag_createdAt = ''t'', ag_updatedAt = ''t'' \<rparr>"

definition sample_facts :: "string \<Rightarrow> ResultKind \<Rightarrow> DiscussionRoom \<Rightarrow> Participant \<Rightarrow> execution_facts" where
  "sample_facts x kind room p =
     \<lparr> xf_executionId = x, xf_roomId = ''r'', xf_roundId = ''n'', xf_participantId = ''p'', xf_resultKind = kind,
       xf_requestedModel = ''m'', xf_contextRevision = rm_contextRevision room,
       xf_expectedRoomDigest = rm_contextDigest room, xf_participantSnapshotDigest = pa_snapshotDigest p,
       xf_instructionDigest = ''i'', xf_retryOfExecutionId = None \<rparr>"

definition sample_execution :: "string \<Rightarrow> ResultKind \<Rightarrow> db \<Rightarrow> ModelExecution" where
  "sample_execution x kind d =
     createModelExecution ''t'' (sample_facts x kind (the (rooms d ''r'')) (the (participants d ''p'')))"

definition sample_room :: "tx_error + db" where
  "sample_room =
     and_then (createRoom (sample_tx ''r'') ''T'' [] mode_planning [] None empty_db) (\<lambda>(d1, room).
     (case joinAgent (sample_tx ''p'') ''r'' ''a'' ''dg'' (d1\<lparr>db_agents := [(''a'', sample_agent)]\<rparr>) of
        None \<Rightarrow> Inl ConstraintError
      | Some joined \<Rightarrow> and_then joined (\<lambda>(d2, p). Inr (nameFacilitator room ''p'' d2))))"

definition sample_bound :: "tx_error + db" where
  "sample_bound =
     and_then sample_room (\<lambda>d3.
     and_then (createRuntimeBindingTx (sample_tx ''b'') ''r'' ''q'' d3) (\<lambda>(d4, _).
     and_then (activateRuntimeBinding (sample_tx []) ''b'' ''h'' ''s'' ''c'' 1 d4) (\<lambda>(d5, _). Inr d5)))"

definition sample_started :: "tx_error + db" where
  "sample_started =
     and_then sample_bound (\<lambda>d5.
     and_then (createRound (sample_tx ''n'') ''r'' sample_token [''p''] d5) (\<lambda>(d6, _).
     and_then (transitionRound ''r'' ''n'' sample_token phase_prewarming d6) (\<lambda>d7.
     and_then (transitionRound ''r'' ''n'' sample_token phase_running d7) (\<lambda>d8.
     and_then (beginFocusExecution (sample_execution ''x'' kind_focus d8) sample_token d8) (\<lambda>d9.
     markExecutionDispatched (sample_tx []) ''x'' ''h'' ''s'' dispatch_accepted d9)))))"

definition sample_room_db :: db where "sample_room_db = (case sample_room of Inr d \<Rightarrow> d | Inl _ \<Rightarrow> empty_db)"
definition sample_bound_db :: db where "sample_bound_db = (case sample_bound of Inr d \<Rightarrow> d | Inl _ \<Rightarrow> empty_db)"
definition sample_db :: db where "sample_db = (case sample_started of Inr d \<Rightarrow> d | Inl _ \<Rightarrow> empty_db)"

lemma run_result:
  "(case r of Inr d \<Rightarrow> True | Inl _ \<Rightarrow> False) \<Longrightarrow> r = Inr (case r of Inr d \<Rightarrow> d | Inl _ \<Rightarrow> empty_db)"
  by (cases r) simp_all

lemma sample_results:
  "sample_room = Inr sample_room_db" "sample_bound = Inr sample_bound_db" "sample_started = Inr sample_db"
proof -
  have "(case sample_room of Inr d \<Rightarrow> True | Inl _ \<Rightarrow> False)" "(case sample_bound of Inr d \<Rightarrow> True | Inl _ \<Rightarrow> False)"
    "(case sample_started of Inr d \<Rightarrow> True | Inl _ \<Rightarrow> False)" by code_simp+
  then show "sample_room = Inr sample_room_db" "sample_bound = Inr sample_bound_db" "sample_started = Inr sample_db"
    unfolding sample_room_db_def sample_bound_db_def sample_db_def by - (rule run_result; assumption)+
qed

lemma reachable_step: "discussion_reachable sha d \<Longrightarrow> discussion_step sha d d' \<Longrightarrow> discussion_reachable sha d'"
  unfolding discussion_reachable_def by simp

lemma sample_sha_of [simp]: "tv_sha (sample_tx u) = sample_sha" "tv_uuid (sample_tx u) = u" "tv_ts (sample_tx u) n = ''t''"
  by (simp_all add: sample_tx_def)

lemma sample_room_reachable: "discussion_reachable sample_sha sample_room_db"
proof -
  from sample_results(1) obtain d1 room d2 p where c: "createRoom (sample_tx ''r'') ''T'' [] mode_planning [] None empty_db = Inr (d1, room)"
    "joinAgent (sample_tx ''p'') ''r'' ''a'' ''dg'' (d1\<lparr>db_agents := [(''a'', sample_agent)]\<rparr>) = Some (Inr (d2, p))"
    "sample_room_db = nameFacilitator room ''p'' d2"
    unfolding sample_room_def by (auto simp: tx_success split: option.splits prod.splits)
  have 0: "discussion_reachable sample_sha empty_db" by (simp add: discussion_reachable_def)
  from c(1) have "rooms d1 (rm_id room) = Some room"
    by (auto simp: createRoom_def Let_def tx_success db_lookup)
  moreover from c(2) have "db_rooms d2 = db_rooms d1"
    by (auto simp: joinAgent_def Let_def tx_success db_lookup split: option.splits)
  ultimately have r: "rooms d2 (rm_id room) = Some room" by simp
  note 1 = reachable_step [OF 0 step_createRoom [OF c(1)]]
  from reachable_step [OF reachable_step [OF 1 step_agents] step_joinAgent [OF c(2)]]
  have "discussion_reachable sample_sha d2" by simp
  from reachable_step [OF this step_nameFacilitator [OF r]] show ?thesis by (simp add: c(3))
qed

lemma sample_bound_reachable: "discussion_reachable sample_sha sample_bound_db"
proof -
  from sample_results(2) obtain d4 b b' where c: "createRuntimeBindingTx (sample_tx ''b'') ''r'' ''q'' sample_room_db = Inr (d4, b)"
    "activateRuntimeBinding (sample_tx []) ''b'' ''h'' ''s'' ''c'' 1 d4 = Inr (sample_bound_db, b')"
    unfolding sample_bound_def by (auto simp: sample_results(1) tx_success split: prod.splits)
  show ?thesis
    by (rule reachable_step [OF reachable_step [OF sample_room_reachable step_createBinding [OF c(1)]] step_activateBinding [OF c(2)]])
qed

lemma sample_reachable: "discussion_reachable sample_sha sample_db"
proof -
  from sample_results(3) obtain d6 n d7 d8 d9 where c: "createRound (sample_tx ''n'') ''r'' sample_token [''p''] sample_bound_db = Inr (d6, n)"
    "transitionRound ''r'' ''n'' sample_token phase_prewarming d6 = Inr d7"
    "transitionRound ''r'' ''n'' sample_token phase_running d7 = Inr d8"
    "beginFocusExecution (sample_execution ''x'' kind_focus d8) sample_token d8 = Inr d9"
    "markExecutionDispatched (sample_tx []) ''x'' ''h'' ''s'' dispatch_accepted d9 = Inr sample_db"
    unfolding sample_started_def by (auto simp: sample_results(2) tx_success split: prod.splits)
  note 6 = reachable_step [OF sample_bound_reachable step_createRound [OF c(1)]]
  from reachable_step [OF reachable_step [OF 6 step_transitionRound [OF c(2)]] step_transitionRound [OF c(3)]]
  have 8: "discussion_reachable sample_sha d8" by simp
  have rd: "rd_roomId rd = ''r''" if "rounds d8 ''n'' = Some rd" for rd
  proof -
    from c(1) have "rounds d6 ''n'' = Some (new_round (sample_tx ''n'') ''r'' [''p''] sample_bound_db)"
      by (auto simp: createRound_def Let_def tx_success db_lookup)
    with c(2,3) that show ?thesis by (auto simp: transitionRound_def tx_success db_lookup new_round_def)
  qed
  have "\<exists>now f. sample_execution ''x'' kind_focus d8 = createModelExecution now f"
    unfolding sample_execution_def by blast
  then have "dispatched_for d8 (sample_execution ''x'' kind_focus d8)"
    using rd by (simp add: dispatched_for_def) (simp add: sample_execution_def createModelExecution_def sample_facts_def)
  moreover have "mx_resultKind (sample_execution ''x'' kind_focus d8) = kind_focus"
    by (simp add: sample_execution_def createModelExecution_def sample_facts_def)
  ultimately have "discussion_reachable sample_sha d9"
    by (intro reachable_step [OF 8 step_beginFocusExecution [OF c(4)]])
  from reachable_step [OF this step_markExecutionDispatched [OF c(5)]] show ?thesis .
qed

section \<open>Properties\<close>


text \<open>C8: The transactions refine the abstract events of the specification: a transaction that
  succeeds is a sequence of guarded events, none of which removes a room, or it deletes exactly one
  room with all its rows.\<close>

theorem transactions_refine_events:
  assumes "discussion_reachable sha d" "discussion_step sha d d'"
  shows "(db_write sha)\<^sup>*\<^sup>* d d' \<or> (\<exists>k. db_event sha d d' \<and> d' = delete_room_rows k d)"
  using step_events [OF assms(2) reachable_ok [OF assms(1)]] .


text \<open>C12: An execution that has ended stays as it ended.  Whatever transaction runs, a committed,
  discarded, failed or interrupted execution keeps its state, its entity, its digest and its
  outcome, unless its room is deleted.\<close>

theorem ended_execution_is_final:
  assumes "discussion_reachable sha d" "discussion_step sha d d'" "executions d x = Some e" "\<not> live_state (mx_state e)"
  shows "(\<exists>e'. executions d' x = Some e' \<and> settled_same e e') \<or> d' = delete_room_rows (mx_roomId e) d"
  using settled_step [OF assms(2) reachable_ok [OF assms(1)] assms(3,4)] .

definition stored_entity :: "db \<Rightarrow> string \<Rightarrow> string \<Rightarrow> string \<Rightarrow> bool" where
  "stored_entity d x i content \<longleftrightarrow>
     (\<exists>m. messages d i = Some m \<and> mg_sourceExecutionId m = Some x \<and> mg_content m = content)
   \<or> (\<exists>s. summaries d i = Some s \<and> su_sourceExecutionId s = x \<and> su_content s = content)
   \<or> (\<exists>p. reports d i = Some p \<and> rp_sourceExecutionId p = x \<and> rp_content p = content)"

lemma stored_entity_committed:
  assumes "db_ok sha d" "executions d x = Some e" "stored_entity d x i content"
  shows "mx_state e = mx_committed \<and> mx_committedEntityId e = Some i \<and> mx_contentDigest e = Some (contentDigestOf sha content)"
proof -
  note M = db_okD(6) [OF assms(1)] and S = db_okD(8) [OF assms(1)] and P = db_okD(9) [OF assms(1)]
  from assms(3) consider
      (m) m where "messages d i = Some m" "mg_sourceExecutionId m = Some x" "mg_content m = content"
    | (s) s where "summaries d i = Some s" "su_sourceExecutionId s = x" "su_content s = content"
    | (p) p where "reports d i = Some p" "rp_sourceExecutionId p = x" "rp_content p = content"
    unfolding stored_entity_def by blast
  then show ?thesis
  proof cases
    case (m m)
    with M have "message_ok sha (rounds d) (executions d) i m" by (simp add: messages_ok_def)
    with m assms(2) show ?thesis by (auto simp: message_ok_def committed_as_def)
  next
    case (s s)
    with S have "summary_ok sha (rounds d) (executions d) i s" by (simp add: summaries_iff)
    with s assms(2) show ?thesis by (auto simp: summary_ok_def committed_as_def)
  next
    case (p p)
    with P have "report_ok sha (rooms d) (executions d) i p" by (simp add: reports_iff)
    with p assms(2) show ?thesis by (auto simp: report_ok_def committed_as_def)
  qed
qed

text \<open>C9: Output is stored exactly once.  An execution is committed exactly when an entity with its
  id as source is stored, and then there is only that one entity, whose id and whose content digest
  are the ones recorded in the execution.\<close>

theorem committed_exactly_once:
  assumes "discussion_reachable sha d" "executions d x = Some e"
  shows "(mx_state e = mx_committed \<longleftrightarrow> (\<exists>i content. stored_entity d x i content))
    \<and> (\<forall>i content. stored_entity d x i content \<longrightarrow>
         mx_committedEntityId e = Some i \<and> mx_contentDigest e = Some (contentDigestOf sha content))"
proof -
  note ok = reachable_ok [OF assms(1)]
  have "\<exists>i content. stored_entity d x i content" if c: "mx_state e = mx_committed"
  proof -
    from db_okD(4) [OF ok] assms(2) have "execution_shape e" by (simp add: anchors_iff)
    with c obtain i where i: "mx_committedEntityId e = Some i" by auto
    from db_okD(11) [OF ok] assms(2) have "has_entity (messages d) (summaries d) (reports d) x e" by (simp add: commits_iff)
    with c i have "case entity_type (mx_resultKind e) of
        entity_message \<Rightarrow> (\<exists>m. messages d i = Some m \<and> mg_sourceExecutionId m = Some x)
      | entity_summary \<Rightarrow> (\<exists>s. summaries d i = Some s \<and> su_sourceExecutionId s = x)
      | entity_report \<Rightarrow> (\<exists>p. reports d i = Some p \<and> rp_sourceExecutionId p = x)"
      by (simp add: has_entity_def)
    then show ?thesis
      unfolding stored_entity_def by (cases "entity_type (mx_resultKind e)") (simp, blast)+
  qed
  with stored_entity_committed [OF ok assms(2)] show ?thesis by blast
qed

text \<open>A round is completed exactly when a summary of it is stored, and then there is only one;
  a room is concluded exactly when a report of it is stored, and then there is only one.\<close>

theorem finished_iff_stored:
  assumes "discussion_reachable sha d"
  shows "(\<forall>r round. rounds d r = Some round \<longrightarrow>
      (rd_phase round = phase_completed \<longleftrightarrow> (\<exists>!i. \<exists>s. summaries d i = Some s \<and> su_roundId s = r)))
    \<and> (\<forall>k room. rooms d k = Some room \<longrightarrow>
      (rm_status room = room_concluded \<longleftrightarrow> (\<exists>!i. \<exists>p. reports d i = Some p \<and> rp_roomId p = k)))"
proof -
  note S = db_okD(8) [OF reachable_ok [OF assms]] and P = db_okD(9) [OF reachable_ok [OF assms]]
  have "rd_phase round = phase_completed \<longleftrightarrow> (\<exists>!i. \<exists>s. summaries d i = Some s \<and> su_roundId s = r)"
    if r: "rounds d r = Some round" for r round
  proof
    assume "rd_phase round = phase_completed"
    with S r obtain i s where i: "summaries d i = Some s" "su_roundId s = r" unfolding summaries_iff summarized_def by blast
    then show "\<exists>!i. \<exists>s. summaries d i = Some s \<and> su_roundId s = r"
      using S unfolding summaries_iff unique_on_def by (intro ex1I [of _ i]) blast+
  next
    assume "\<exists>!i. \<exists>s. summaries d i = Some s \<and> su_roundId s = r"
    then obtain i s where i: "summaries d i = Some s" "su_roundId s = r" by blast
    with S have "summary_ok sha (rounds d) (executions d) i s" by (simp add: summaries_iff)
    with i r show "rd_phase round = phase_completed" by (simp add: summary_ok_def)
  qed
  moreover have "rm_status room = room_concluded \<longleftrightarrow> (\<exists>!i. \<exists>p. reports d i = Some p \<and> rp_roomId p = k)"
    if k: "rooms d k = Some room" for k room
  proof
    assume "rm_status room = room_concluded"
    with P k obtain i p where i: "reports d i = Some p" "rp_roomId p = k" unfolding reports_iff concluded_by_def by blast
    then show "\<exists>!i. \<exists>p. reports d i = Some p \<and> rp_roomId p = k"
      using P unfolding reports_iff unique_on_def by (intro ex1I [of _ i]) blast+
  next
    assume "\<exists>!i. \<exists>p. reports d i = Some p \<and> rp_roomId p = k"
    then obtain i p where i: "reports d i = Some p" "rp_roomId p = k" by blast
    with P have "report_ok sha (rooms d) (executions d) i p" by (simp add: reports_iff)
    with i k show "rm_status room = room_concluded" by (simp add: report_ok_def)
  qed
  ultimately show ?thesis by blast
qed

definition stale_error :: tx_error where
  "stale_error = TransactionError ''STALE_CONTROLLER'' ''controllerId/leaseEpoch does not match the active runtime binding''"

lemma requireController_stale: "\<not> holds_lease d k token \<Longrightarrow> requireController d k token rest = Inl stale_error"
  by (simp add: requireController_def stale_error_def)

lemma withConflictTranslation_stale [simp]: "withConflictTranslation (Inl stale_error) = Inl stale_error"
  by (simp add: withConflictTranslation_def stale_error_def)

text \<open>C23: A page that lost the lease can write nothing.  Every operation that takes a controller
  token, given one that is not the controller and lease of the room's active binding, answers
  \<open>STALE_CONTROLLER\<close>, whatever else is wrong with the call: first for the operations on a room,
  then for those on an execution that is to begin or that exists in a round of the room.\<close>

theorem stale_controller_rejected:
  assumes "\<not> holds_lease d k token" "rooms d k = Some room"
  shows "appendUserMessage env k r token content d = Inl stale_error
    \<and> updateRoomSharedConfig env k token topic background d = Inl stale_error
    \<and> setRoomRunState env k token s d = Inl stale_error
    \<and> createRound env k token order d = Inl stale_error
    \<and> transitionRound k r token target d = Inl stale_error
    \<and> pauseRound k r token reason d = Inl stale_error
    \<and> resumeRound k r token d = Inl stale_error
    \<and> abortRound env k r token d = Inl stale_error
    \<and> skipParticipant env k r token d = Inl stale_error
    \<and> (rounds d (mx_roundId e) = Some round \<and> rd_roomId round = k \<longrightarrow>
         beginExecution e token d = Inl stale_error \<and> beginFocusExecution e token d = Inl stale_error)
    \<and> (mx_roomId e = k \<and> mx_resultKind e = kind_report \<longrightarrow> beginReportExecution env e token d = Inl stale_error)
    \<and> (executions d x = Some e \<and> rounds d (mx_roundId e) = Some round \<and> rd_roomId round = k
         \<and> ci_executionId input = x \<and> ci_token input = token \<longrightarrow>
         commitModelMessage env input d = Inl stale_error \<and> commitFocusMessage env input d = Inl stale_error
       \<and> commitSummary env input d = Inl stale_error \<and> discardExecution env x token outcome q err d = Inl stale_error
       \<and> failExecution env x token err' kind pause d = Inl stale_error
       \<and> (mx_roomId e = k \<longrightarrow> commitReport env input d = Inl stale_error))"
  unfolding appendUserMessage_def updateRoomSharedConfig_def setRoomRunState_def createRound_def transitionRound_def
    pauseRound_def resumeRound_def abortRound_def skipParticipant_def beginExecution_def beginFocusExecution_def
    beginReportExecution_def commitModelMessage_def commitFocusMessage_def commitSummary_def commitReport_def
    discardExecution_def failExecution_def loadCommitContext_def requireRoom_def
  using assms by (simp add: requireController_stale)

lemma active_binding_unique:
  assumes "db_ok sha d" "bindings d i = Some b" "bi_state b = binding_active"
  shows "activeBindingOf d (bi_roomId b) = Some b"
proof (cases "activeBindingOf d (bi_roomId b)")
  case None
  with assms(2,3) show ?thesis
    by (auto simp: activeBindingOf_def first_where_None tb_ok_tables [OF assms(1)])
next
  case (Some c)
  with first_where_Some [OF tb_ok_tables(7) [OF assms(1)]] obtain j where
    "bindings d j = Some c" "bi_roomId c = bi_roomId b" "bi_state c = binding_active"
    unfolding activeBindingOf_def by blast
  with db_okD(13) [OF assms(1)] assms(2,3) have "j = i" unfolding bindings_ok_def unique_on_def live_binding_def by metis
  with \<open>bindings d j = Some c\<close> assms(2) Some show ?thesis by simp
qed

text \<open>A takeover hands the room to exactly one page: afterwards the new controller with the new
  lease epoch holds the room's lease and no other token does.\<close>

theorem takeover_moves_lease:
  assumes "discussion_reachable sha d" "bindings d i = Some b" "takeoverRuntimeBinding env i c l d = Inr d'"
  shows "holds_lease d' (bi_roomId b) token \<longleftrightarrow> token = \<lparr> ct_controllerId = c, ct_leaseEpoch = l \<rparr>"
proof -
  have ok: "db_ok sha d'"
    using db_ok_step [OF step_takeoverBinding [OF assms(3)] reachable_ok [OF assms(1)]] .
  obtain b' where b': "bindings d' i = Some b'" "bi_state b' = binding_active" "bi_roomId b' = bi_roomId b"
    "bi_controllerId b' = Some c" "bi_leaseEpoch b' = Some l"
    using assms(2,3) ids(5) [OF reachable_ok [OF assms(1)] assms(2)]
    by (auto simp: takeoverRuntimeBinding_def tx_success db_lookup)
  have "activeBindingOf d' (bi_roomId b) = Some b'" using active_binding_unique [OF ok b'(1,2)] b'(3) by simp
  with b'(4,5) show ?thesis by (cases token) (auto simp: holds_lease_def)
qed

section \<open>Witnesses\<close>

lemma sample_facts_db:
  "(case rooms sample_db ''r'' of Some room \<Rightarrow> rm_activeRoundId room = Some ''n'' | None \<Rightarrow> False)"
  "(case rounds sample_db ''n'' of Some n \<Rightarrow> rd_phase n = phase_running \<and> rd_roomId n = ''r'' | None \<Rightarrow> False)"
  "(case executions sample_db ''x'' of Some e \<Rightarrow> mx_state e = mx_running | None \<Rightarrow> False)"
  "(case bindings sample_db ''b'' of Some b \<Rightarrow> bi_roomId b = ''r'' | None \<Rightarrow> False)"
  "holds_lease sample_db ''r'' sample_token" "\<not> holds_lease sample_db ''r'' (sample_token\<lparr>ct_leaseEpoch := 2\<rparr>)"
  by code_simp+


lemma transactions_refine_events_witness:
  "(db_write sample_sha)\<^sup>*\<^sup>* sample_db (sample_db\<lparr>db_agents := []\<rparr>)
   \<or> (\<exists>k. db_event sample_sha sample_db (sample_db\<lparr>db_agents := []\<rparr>) \<and> sample_db\<lparr>db_agents := []\<rparr> = delete_room_rows k sample_db)"
  by (rule transactions_refine_events [OF sample_reachable step_agents])


text \<open>The focus execution fails, and the room goes on.\<close>

definition sample_failure :: ModelExecutionError where
  "sample_failure = \<lparr> xe_code = ''X'', xe_phase = ''stream'', xe_message = ''m'', xe_retryable = False, xe_driverId = None,
     xe_limitMs = None \<rparr>"

definition sample_failed :: "tx_error + db" where
  "sample_failed = and_then (failExecution (sample_tx []) ''x'' sample_token (\<lambda>_. sample_failure) mx_failed True sample_db)
     (\<lambda>(d, _). Inr d)"

definition sample_failed_db :: db where "sample_failed_db = (case sample_failed of Inr d \<Rightarrow> d | Inl _ \<Rightarrow> empty_db)"

lemma sample_failed_facts:
  "discussion_reachable sample_sha sample_failed_db"
  "\<exists>e. executions sample_failed_db ''x'' = Some e \<and> mx_state e = mx_failed"
proof -
  have "(case sample_failed of Inr d \<Rightarrow> True | Inl _ \<Rightarrow> False)" by code_simp
  from run_result [OF this] obtain room where
    "failExecution (sample_tx []) ''x'' sample_token (\<lambda>_. sample_failure) mx_failed True sample_db = Inr (sample_failed_db, room)"
    by (auto simp: sample_failed_db_def sample_failed_def tx_success split: prod.splits sum.splits)
  from reachable_step [OF sample_reachable step_failExecution [OF this]]
  show "discussion_reachable sample_sha sample_failed_db" by simp
  have "(case executions sample_failed_db ''x'' of Some e \<Rightarrow> mx_state e = mx_failed | None \<Rightarrow> False)" by code_simp
  then show "\<exists>e. executions sample_failed_db ''x'' = Some e \<and> mx_state e = mx_failed" by (auto split: option.splits)
qed

lemma ended_execution_is_final_witness:
  "\<exists>e. executions sample_failed_db ''x'' = Some e \<and> ((\<exists>e'. executions (sample_failed_db\<lparr>db_agents := []\<rparr>) ''x'' = Some e'
     \<and> settled_same e e') \<or> sample_failed_db\<lparr>db_agents := []\<rparr> = delete_room_rows (mx_roomId e) sample_failed_db)"
proof -
  obtain e where e: "executions sample_failed_db ''x'' = Some e" "\<not> live_state (mx_state e)"
    using sample_failed_facts(2) by (auto simp: live_state_def)
  from ended_execution_is_final [OF sample_failed_facts(1) step_agents this] e show ?thesis by blast
qed

lemma committed_exactly_once_witness: "\<exists>e. executions sample_db ''x'' = Some e \<and> (\<forall>i c. \<not> stored_entity sample_db ''x'' i c)"
proof -
  from sample_facts_db(3) obtain e where e: "executions sample_db ''x'' = Some e" "mx_state e = mx_running"
    by (auto split: option.splits)
  from committed_exactly_once [OF sample_reachable e(1)] e show ?thesis by auto
qed

lemma finished_iff_stored_witness:
  "\<exists>n. rounds sample_db ''n'' = Some n \<and> \<not> (\<exists>!i. \<exists>s. summaries sample_db i = Some s \<and> su_roundId s = ''n'')"
proof -
  from sample_facts_db(2) obtain n where n: "rounds sample_db ''n'' = Some n" "rd_phase n \<noteq> phase_completed"
    by (auto split: option.splits)
  from finished_iff_stored [OF sample_reachable, THEN conjunct1, rule_format, OF n(1)] n show ?thesis by blast
qed

lemma stale_controller_rejected_witness:
  "createRound (sample_tx ''u'') ''r'' (sample_token\<lparr>ct_leaseEpoch := 2\<rparr>) [] sample_db = Inl stale_error"
proof -
  from sample_facts_db(1) obtain room where "rooms sample_db ''r'' = Some room" by (auto split: option.splits)
  from stale_controller_rejected [OF sample_facts_db(6) this] show ?thesis by blast
qed

lemma takeover_moves_lease_witness:
  "\<exists>d'. takeoverRuntimeBinding (sample_tx []) ''b'' ''c2'' 2 sample_db = Inr d' \<and> \<not> holds_lease d' ''r'' sample_token"
proof -
  from sample_facts_db(4) obtain b where b: "bindings sample_db ''b'' = Some b" "bi_roomId b = ''r''" by (auto split: option.splits)
  have "(case takeoverRuntimeBinding (sample_tx []) ''b'' ''c2'' 2 sample_db of Inr d \<Rightarrow> True | Inl _ \<Rightarrow> False)" by code_simp
  then obtain d' where d': "takeoverRuntimeBinding (sample_tx []) ''b'' ''c2'' 2 sample_db = Inr d'" by (auto split: sum.splits)
  from takeover_moves_lease [OF sample_reachable b(1) d', of sample_token] b(2) d' show ?thesis by (simp add: sample_token_def)
qed

end
