(* ===== verification/Commit_Pipeline.thy ===== *)
theory Commit_Pipeline
  imports Discussion_Properties
begin

text \<open>
  The commit pipeline, \<open>orchestrator/commit-execution.ts\<close>: a completed execution is classified, its
  output is committed (or discarded) in one transaction, and only then the Host is sent the ACK.

  A run of \<open>handleCompletedExecution\<close> awaits several times; \<open>world n\<close> is what other transactions do
  to the database at its n-th await, and each of its own transactions has its own \<open>tx_env\<close>.  The
  Host's answer to an ACK is a parameter.  The result holds the ACKs sent, each with the database
  at the moment of sending.
\<close>

section \<open>Classification\<close>

datatype verdict = CommitOutput | DiscardOutput RuntimeOutcome ModelExecutionError

definition structuredError :: "string \<Rightarrow> string \<Rightarrow> ModelExecutionError" where
  "structuredError code message = \<lparr> xe_code = code, xe_phase = ''stream'', xe_message = message, xe_retryable = False,
     xe_driverId = None, xe_limitMs = None \<rparr>"

text \<open>\<open>event\<close> is a \<open>Completed\<close> event.\<close>

definition classifyCompleted :: "ModelExecution \<Rightarrow> DriverEvent \<Rightarrow> verdict" where
  "classifyCompleted execution event =
     (if ev_effectiveModel event = None \<or> ev_modelVerdict event \<noteq> verdict_match
      then DiscardOutput outcome_model_mismatch (structuredError ''MODEL_MISMATCH''
             (''requested '' @ mx_requestedModel execution @ '', effective ''
               @ (case ev_effectiveModel event of None \<Rightarrow> ''unknown'' | Some m \<Rightarrow> m)
               @ '', verdict '' @ verdict_text (ev_modelVerdict event)))
      else if ev_toolState event = tool_unknown
      then DiscardOutput outcome_tool_state_unknown (structuredError ''TOOL_STATE_UNKNOWN''
             ''tool activity can no longer be proven; preview dropped'')
      else if blank (ev_output event)
      then DiscardOutput outcome_empty_output (structuredError ''EMPTY_OUTPUT'' ''completed with empty normalized output'')
      else CommitOutput)"

section \<open>Acknowledgement\<close>

record CommitPipelineDeps =
  dp_scopeId :: string
  dp_token :: ControllerToken
  dp_currentHostInstanceId :: string

record AckRequest =
  aq_scopeId :: string
  aq_executionId :: string
  aq_token :: ControllerToken
  aq_finalSeq :: nat
  aq_disposition :: AckDisposition

text \<open>What \<open>client.ack\<close> does: it answers, throws a \<open>RuntimeClientError\<close> with a status, or throws
  anything else.\<close>

datatype AckReply = AckAnswered AckState | AckHttpError nat | AckUnreachable

type_synonym ack_log = "(AckRequest \<times> db) list"

text \<open>A transaction inside the \<open>try\<close> whose error is swallowed.\<close>

definition try_tx :: "(db \<Rightarrow> tx_error + db) \<Rightarrow> db \<Rightarrow> db" where
  "try_tx tx d = (case tx d of Inl _ \<Rightarrow> d | Inr d' \<Rightarrow> d')"

definition throwing_tx :: "(db \<Rightarrow> tx_error + db) \<Rightarrow> db \<Rightarrow> tx_error option \<times> db" where
  "throwing_tx tx d = (case tx d of Inl e \<Rightarrow> (Some e, d) | Inr d' \<Rightarrow> (None, d'))"

definition ackAfterPersist ::
  "tx_env \<Rightarrow> (db \<Rightarrow> db) \<Rightarrow> (AckRequest \<Rightarrow> AckReply) \<Rightarrow> CommitPipelineDeps \<Rightarrow> ModelExecution \<Rightarrow> AckDisposition \<Rightarrow> db
   \<Rightarrow> (tx_error option \<times> db) \<times> ack_log" where
  "ackAfterPersist env world client_ack deps execution disposition d =
     (case mx_finalEventSeq execution of
        None \<Rightarrow> ((None, d), [])
      | Some finalSeq \<Rightarrow>
          if mx_hostInstanceId execution \<noteq> Some (dp_currentHostInstanceId deps)
          then (throwing_tx (markAckExpired env (mx_executionId execution)) d, [])
          else let request = \<lparr> aq_scopeId = dp_scopeId deps, aq_executionId = mx_executionId execution,
                     aq_token = dp_token deps, aq_finalSeq = finalSeq, aq_disposition = disposition \<rparr>;
                   d1 = world d
               in ((case client_ack request of
                      AckAnswered ack_acknowledged \<Rightarrow> (None, try_tx (markAcknowledged env (mx_executionId execution)) d1)
                    | AckAnswered ack_expired \<Rightarrow> (None, try_tx (markAckExpired env (mx_executionId execution)) d1)
                    | AckAnswered ack_pending \<Rightarrow> (None, d1)
                    | AckHttpError status \<Rightarrow>
                        if status = 404 then throwing_tx (markAckExpired env (mx_executionId execution)) d1 else (None, d1)
                    | AckUnreachable \<Rightarrow> (None, d1)),
                   [(request, d)]))"

section \<open>The pipeline\<close>

datatype CompletedHandling =
    HandledCommitted string RoundPhase
  | HandledDiscarded RuntimeOutcome
  | HandledReplayed string

text \<open>What the pipeline throws: its own error, or a transaction's.  An execution that vanishes while
  the pipeline waits makes it throw too (\<open>undefined\<close> is used as an execution).\<close>

datatype pipeline_error = UnknownExecution | VanishedExecution | Thrown tx_error

definition commit_dispatch :: "tx_env \<Rightarrow> ResultKind \<Rightarrow> CommitInput \<Rightarrow> db \<Rightarrow> tx_error + db \<times> CommitOutcome" where
  "commit_dispatch env kind input d =
     (case kind of
        kind_summary \<Rightarrow> commitSummary env input d
      | kind_focus \<Rightarrow> commitFocusMessage env input d
      | kind_report \<Rightarrow> commitReport env input d
      | kind_message \<Rightarrow> commitModelMessage env input d)"

text \<open>The ACK and the return, in the database the transaction left.\<close>

definition ack_and_return ::
  "tx_env \<Rightarrow> (db \<Rightarrow> db) \<Rightarrow> (AckRequest \<Rightarrow> AckReply) \<Rightarrow> CommitPipelineDeps \<Rightarrow> ModelExecution \<Rightarrow> AckDisposition
   \<Rightarrow> CompletedHandling \<Rightarrow> db \<Rightarrow> (pipeline_error + CompletedHandling) \<times> db \<times> ack_log" where
  "ack_and_return env world client_ack deps execution disposition handling d =
     (case ackAfterPersist env world client_ack deps execution disposition d of
        ((Some e, d'), acks) \<Rightarrow> (Inl (Thrown e), d', acks)
      | ((None, d'), acks) \<Rightarrow> (Inr handling, d', acks))"

definition commit_input :: "CommitPipelineDeps \<Rightarrow> string \<Rightarrow> DriverEvent \<Rightarrow> CommitInput" where
  "commit_input deps executionId event =
     \<lparr> ci_executionId = executionId, ci_token = dp_token deps, ci_content = ev_output event,
       ci_effectiveModel = ev_effectiveModel event, ci_usage = ev_usage event,
       ci_finalEventSeq = ev_finalSeq event, ci_dispatchState = ev_dispatchState event,
       ci_toolState = ev_toolState event \<rparr>"

definition persist_and_ack ::
  "(nat \<Rightarrow> tx_env) \<Rightarrow> (nat \<Rightarrow> db \<Rightarrow> db) \<Rightarrow> (AckRequest \<Rightarrow> AckReply) \<Rightarrow> CommitPipelineDeps \<Rightarrow> string \<Rightarrow> DriverEvent
   \<Rightarrow> ModelExecution \<Rightarrow> db \<Rightarrow> (pipeline_error + CompletedHandling) \<times> db \<times> ack_log" where
  "persist_and_ack env world client_ack deps executionId event execution d =
     (let finish = ack_and_return (env 2) (world 3) client_ack deps execution in
      case classifyCompleted execution event of
        DiscardOutput outcome error \<Rightarrow>
          (case discardExecution (env 1) executionId (dp_token deps) outcome (ev_finalSeq event) (Some error) d of
             Inl e \<Rightarrow> (Inl (Thrown e), d, [])
           | Inr (d', DiscardedAs _) \<Rightarrow> finish disp_discarded (HandledDiscarded outcome) d'
           | Inr (d', DiscardReplayed) \<Rightarrow>
               finish disp_discarded
                 (HandledReplayed (case mx_committedEntityId execution of None \<Rightarrow> executionId | Some i \<Rightarrow> i)) d')
      | CommitOutput \<Rightarrow>
          (case commit_dispatch (env 1) (mx_resultKind execution) (commit_input deps executionId event) d of
             Inl e \<Rightarrow> (Inl (Thrown e), d, [])
           | Inr (d', CommitDiscarded outcome) \<Rightarrow> finish disp_discarded (HandledDiscarded outcome) d'
           | Inr (d', CommitReplayed i) \<Rightarrow> finish disp_committed (HandledReplayed i) d'
           | Inr (d', CommitCommitted i phase) \<Rightarrow> finish disp_committed (HandledCommitted i phase) d'))"

definition handleCompletedExecution ::
  "(nat \<Rightarrow> tx_env) \<Rightarrow> (nat \<Rightarrow> db \<Rightarrow> db) \<Rightarrow> (AckRequest \<Rightarrow> AckReply) \<Rightarrow> CommitPipelineDeps \<Rightarrow> string \<Rightarrow> DriverEvent
   \<Rightarrow> db \<Rightarrow> (pipeline_error + CompletedHandling) \<times> db \<times> ack_log" where
  "handleCompletedExecution env world client_ack deps executionId event d =
     (case tb_get (db_executions d) executionId of
        None \<Rightarrow> (Inl UnknownExecution, d, [])
      | Some current \<Rightarrow>
          let d0 = world 0 d in
          case (if mx_state current = mx_running
                then markExecutionSucceededUncommitted (env 0) executionId (ev_effectiveModel event) (ev_usage event)
                       (ev_finalSeq event) (ev_dispatchState event) (ev_toolState event) d0
                else Inr d0) of
            Inl e \<Rightarrow> (Inl (Thrown e), d0, [])
          | Inr d1 \<Rightarrow>
              let d2 = world 1 d1 in
              (case tb_get (db_executions d2) executionId of
                 None \<Rightarrow> (Inl VanishedExecution, d2, [])
               | Some execution \<Rightarrow>
                   persist_and_ack env world client_ack deps executionId event execution (world 2 d2)))"

section \<open>What a commit leaves\<close>

text \<open>The execution of a commit, with everything a replay looks up, after the commit.\<close>

definition commit_left :: "(string \<Rightarrow> string) \<Rightarrow> ResultKind \<Rightarrow> CommitInput \<Rightarrow> string \<Rightarrow> db \<Rightarrow> bool" where
  "commit_left sha kind input i c \<longleftrightarrow>
     (\<exists>e round room p. executions c (ci_executionId input) = Some e \<and> mx_state e = mx_committed \<and> mx_resultKind e = kind
        \<and> mx_finalEventSeq e = Some (ci_finalEventSeq input) \<and> mx_contentDigest e = Some (contentDigestOf sha (ci_content input))
        \<and> mx_committedEntityId e = Some i \<and> rounds c (mx_roundId e) = Some round \<and> rd_roomId round = mx_roomId e
        \<and> rooms c (mx_roomId e) = Some room \<and> holds_lease c (mx_roomId e) (ci_token input)
        \<and> participants c (mx_participantId e) = Some p)"

lemma holds_lease_same: "db_bindings c = db_bindings d \<Longrightarrow> holds_lease c k token = holds_lease d k token"
  by (simp add: holds_lease_def activeBindingOf_def)

lemma anchored:
  assumes "db_ok sha d" "executions d x = Some e"
  shows "\<exists>round. rounds d (mx_roundId e) = Some round \<and> rd_roomId round = mx_roomId e"
  using db_okD(4) [OF assms(1)] assms(2) unfolding anchors_ok_def by blast

lemma commit_leftI:
  assumes "db_ok sha' d" "executions d (ci_executionId input) = Some e" "rounds d (mx_roundId e) = Some round"
    "rooms d (rd_roomId round) \<noteq> None" "holds_lease d (rd_roomId round) (ci_token input)"
    "participants d (mx_participantId e) = Some p" "mx_resultKind e = kind"
    and c: "executions c = (executions d)(ci_executionId input \<mapsto> committed_execution sha t input ty i e)"
      "rounds c = rounds d \<or> (\<exists>round'. rounds c = (rounds d)(mx_roundId e \<mapsto> round') \<and> rd_roomId round' = rd_roomId round)"
      "keeps_rooms d c" "db_bindings c = db_bindings d" "participants c = participants d"
  shows "commit_left sha kind input i c"
proof -
  have anchor: "rd_roomId round = mx_roomId e"
    using anchored [OF assms(1,2)] assms(3) by simp
  obtain rd where "rounds c (mx_roundId e) = Some rd" "rd_roomId rd = mx_roomId e" using c(2) assms(3) anchor by auto
  moreover obtain room where "rooms c (mx_roomId e) = Some room" using c(3) assms(4) anchor by (auto simp: keeps_rooms_def)
  moreover have "holds_lease c (mx_roomId e) (ci_token input)" using assms(5) anchor by (simp add: holds_lease_same [OF c(4)])
  ultimately show ?thesis
    unfolding commit_left_def using assms(6,7) c(1,5) by (simp add: committed_execution_def)
qed

lemma committed_left:
  assumes "commit_dispatch env kind input d = Inr (c, CommitCommitted i phase)" "db_ok sha d"
  shows "commit_left (tv_sha env) kind input i c"
proof -
  note id = ids [OF assms(2)]
  show ?thesis
  proof (cases kind)
    case kind_message
    with assms(1) obtain e round room p m where c: "executions d (ci_executionId input) = Some e" "rounds d (mx_roundId e) = Some round"
      "rooms d (rd_roomId round) = Some room" "holds_lease d (rd_roomId round) (ci_token input)"
      "participants d (mx_participantId e) = Some p" "mx_resultKind e = kind_message" "m = committed_message env input room round p"
      "i = mg_id m"
      "c = put_round (spoken_round round) (bumpRoomContext (tv_sha env) (tv_ts env 2) room
             (put_execution (committed_execution (tv_sha env) (tv_ts env 1) input entity_message i e) (put_message m d)))"
      by (auto simp: commit_dispatch_def commitModelMessage_def assertCommittable_def persistCommittedExecution_def
          replayOrThrow_def Let_def tx_success split: if_splits)
    with id(2) [OF c(2)] id(3) [OF c(1)] show ?thesis
      using kind_message by (intro commit_leftI [OF assms(2) c(1,2) _ c(4,5)]) (auto simp: db_lookup Let_def)
  next
    case kind_focus
    with assms(1) obtain e round room p m where c: "executions d (ci_executionId input) = Some e" "rounds d (mx_roundId e) = Some round"
      "rooms d (rd_roomId round) = Some room" "holds_lease d (rd_roomId round) (ci_token input)"
      "participants d (mx_participantId e) = Some p" "mx_resultKind e = kind_focus" "m = committed_message env input room round p"
      "i = mg_id m"
      "c = put_round (round\<lparr>rd_activeExecutionId := None, rd_focusMessageId := Value (mg_id m)\<rparr>) (bumpRoomContext (tv_sha env) (tv_ts env 2) room
             (put_execution (committed_execution (tv_sha env) (tv_ts env 1) input entity_message i e) (put_message m d)))"
      by (auto simp: commit_dispatch_def commitFocusMessage_def assertCommittable_def persistCommittedExecution_def
          replayOrThrow_def Let_def tx_success split: if_splits)
    with id(2) [OF c(2)] id(3) [OF c(1)] show ?thesis
      using kind_focus by (intro commit_leftI [OF assms(2) c(1,2) _ c(4,5)]) (auto simp: db_lookup)
  next
    case kind_summary
    define done_round where "done_round round
      = round\<lparr>rd_phase := phase_completed, rd_activeExecutionId := None, rd_completedAt := Some (tv_ts env 3)\<rparr>" for round :: DiscussionRound
    from kind_summary assms(1) obtain e round room p s room' where c: "executions d (ci_executionId input) = Some e" "rounds d (mx_roundId e) = Some round"
      "rooms d (rd_roomId round) = Some room" "holds_lease d (rd_roomId round) (ci_token input)"
      "participants d (mx_participantId e) = Some p" "mx_resultKind e = kind_summary"
      "c = put_room room' (put_round (done_round round)
             (put_execution (committed_execution (tv_sha env) (tv_ts env 1) input entity_summary i e) (put_summary s d)))"
      unfolding done_round_def
      by (auto simp: commit_dispatch_def commitSummary_def assertCommittable_def persistCommittedExecution_def
          replayOrThrow_def Let_def tx_success put_swap split: if_splits)
    with id(2) [OF c(2)] id(3) [OF c(1)] show ?thesis
      using kind_summary by (intro commit_leftI [OF assms(2) c(1,2) _ c(4,5)]) (auto simp: db_lookup done_round_def)
  next
    case kind_report
    with assms(1) obtain e room p r room' where c: "executions d (ci_executionId input) = Some e" "rooms d (mx_roomId e) = Some room"
      "holds_lease d (mx_roomId e) (ci_token input)" "participants d (mx_participantId e) = Some p" "mx_resultKind e = kind_report"
      "c = put_room room'
             (put_execution (committed_execution (tv_sha env) (tv_ts env 1) input entity_report i e) (put_report r d))"
      by (auto simp: commit_dispatch_def commitReport_def assertCommittable_def persistCommittedExecution_def
          replayOrThrow_def Let_def tx_success split: if_splits)
    from db_okD(4) [OF assms(2)] c(1) obtain round where "rounds d (mx_roundId e) = Some round" "rd_roomId round = mx_roomId e"
      by (auto simp: anchors_ok_def)
    with c id(3) [OF c(1)] show ?thesis
      using kind_report by (intro commit_leftI [OF assms(2) c(1) _ _ _ c(4)]) (auto simp: db_lookup)
  qed
qed

lemma committed_replays:
  assumes "commit_left (tv_sha env) kind input i c"
  shows "commit_dispatch env kind input c = Inr (c, CommitReplayed i)"
  using assms unfolding commit_left_def
  by (cases kind) (auto simp: commit_dispatch_def commitModelMessage_def commitFocusMessage_def commitSummary_def
      commitReport_def loadCommitContext_def requireRoom_def requireController_def replayOrThrow_def withConflictTranslation_def)

section \<open>Where the pipeline's transactions lead\<close>

lemma commit_dispatch_step:
  "commit_dispatch env kind input d = Inr (c, r) \<Longrightarrow> tv_sha env = sha \<Longrightarrow> discussion_step sha d c"
  by (cases kind) (auto simp: commit_dispatch_def intro: discussion_step.intros)

lemma discarded_state [simp]: "mx_state (discarded_execution t outcome q err e) = mx_discarded"
  "mx_executionId (discarded_execution t outcome q err e) = mx_executionId e"
  by (simp_all add: discarded_execution_def)

lemma discardLocked_state:
  assumes "db_ok sha d" "executions d x = Some e"
  shows "\<exists>e'. executions (discardLockedExecution t e round outcome q err d) x = Some e' \<and> mx_state e' = mx_discarded"
  using ids(3) [OF assms] by (simp add: discardLockedExecution_def Let_def db_lookup)

lemma discardExecution_state:
  assumes "discardExecution env x token outcome q err d = Inr (c, r)" "db_ok sha d"
  shows "\<exists>e. executions c x = Some e \<and> mx_state e = mx_discarded"
proof (cases r)
  case DiscardReplayed
  with assms(1) show ?thesis by (auto simp: discardExecution_def tx_success split: if_splits)
next
  case (DiscardedAs outcome')
  with assms(1) obtain e round where "executions d x = Some e"
    "c = discardLockedExecution (tv_ts env 0) e round outcome q err d"
    by (auto simp: discardExecution_def tx_success split: if_splits)
  with discardLocked_state [OF assms(2)] show ?thesis by blast
qed

lemma commit_discarded_from:
  assumes "commit_dispatch env kind input d = Inr (c, CommitDiscarded outcome)" "db_ok sha d"
  shows "\<exists>e round p. executions d (ci_executionId input) = Some e \<and> mx_resultKind e = kind
      \<and> rounds d (mx_roundId e) = Some round \<and> rd_roomId round = mx_roomId e \<and> rooms d (mx_roomId e) \<noteq> None
      \<and> holds_lease d (mx_roomId e) (ci_token input) \<and> participants d (mx_participantId e) = Some p
      \<and> (c = discardLockedExecution (tv_ts env 0) e round outcome_stale_context (ci_finalEventSeq input) None d
       \<or> c = put_execution (discarded_execution (tv_ts env 0) outcome_stale_context (ci_finalEventSeq input) None e) d)"
proof -
  from assms(1) obtain e where e: "executions d (ci_executionId input) = Some e"
    by (cases kind) (auto simp: commit_dispatch_def commitModelMessage_def commitFocusMessage_def commitSummary_def
        commitReport_def tx_success)
  from anchored [OF assms(2) e] obtain round where "rounds d (mx_roundId e) = Some round" "rd_roomId round = mx_roomId e" by blast
  with assms(1) e show ?thesis
    by (cases kind) (auto simp: commit_dispatch_def commitModelMessage_def commitFocusMessage_def commitSummary_def
        commitReport_def assertCommittable_def replayOrThrow_def Let_def tx_success split: if_splits)
qed

lemma commit_discarded_state:
  assumes "commit_dispatch env kind input d = Inr (c, CommitDiscarded outcome)" "db_ok sha d"
  shows "\<exists>e. executions c (ci_executionId input) = Some e \<and> mx_state e = mx_discarded"
proof -
  from commit_discarded_from [OF assms] obtain e round where e: "executions d (ci_executionId input) = Some e"
    "c = discardLockedExecution (tv_ts env 0) e round outcome_stale_context (ci_finalEventSeq input) None d
     \<or> c = put_execution (discarded_execution (tv_ts env 0) outcome_stale_context (ci_finalEventSeq input) None e) d"
    by blast
  from e(2) discardLocked_state [OF assms(2) e(1)] ids(3) [OF assms(2) e(1)] show ?thesis by (elim disjE) (simp_all add: db_lookup)
qed

lemma commit_replayed_state:
  assumes "commit_dispatch env kind input d = Inr (c, CommitReplayed i)"
  shows "c = d \<and> (\<exists>e. executions d (ci_executionId input) = Some e \<and> mx_state e = mx_committed)"
  using assms
  by (cases kind) (auto simp: commit_dispatch_def commitModelMessage_def commitFocusMessage_def commitSummary_def
      commitReport_def assertCommittable_def Let_def tx_success split: if_splits)

lemma commit_state:
  assumes "commit_dispatch env kind input d = Inr (c, r)" "db_ok sha d"
  shows "\<exists>e. executions c (ci_executionId input) = Some e
    \<and> mx_state e = (case r of CommitDiscarded _ \<Rightarrow> mx_discarded | _ \<Rightarrow> mx_committed)"
proof (cases r)
  case (CommitCommitted i phase)
  with committed_left [OF assms(1) [unfolded CommitCommitted] assms(2)] show ?thesis by (auto simp: commit_left_def)
qed (use assms commit_discarded_state commit_replayed_state in fastforce)+

fun disposition_state :: "AckDisposition \<Rightarrow> ModelExecutionState" where
  "disposition_state disp_committed = mx_committed"
| "disposition_state disp_discarded = mx_discarded"

lemma settle_reachable:
  assumes "discussion_reachable sha c"
  shows "discussion_reachable sha (try_tx (markAcknowledged env x) c)" "discussion_reachable sha (try_tx (markAckExpired env x) c)"
    "throwing_tx (markAckExpired env x) c = (err, d) \<Longrightarrow> discussion_reachable sha d"
  using reachable_step [OF assms step_markAcknowledged] reachable_step [OF assms step_markAckExpired] assms
  by (auto simp: try_tx_def throwing_tx_def split: sum.splits)

text \<open>What an ACK log must show: at most one ACK, of this execution, sent when the database held it
  in the state that the disposition names.\<close>

definition acks_ok :: "(string \<Rightarrow> string) \<Rightarrow> string \<Rightarrow> ack_log \<Rightarrow> bool" where
  "acks_ok sha x acks \<longleftrightarrow> length acks \<le> 1 \<and> (\<forall>(q, c) \<in> set acks. discussion_reachable sha c \<and> aq_executionId q = x
     \<and> (\<exists>e. executions c x = Some e \<and> mx_state e = disposition_state (aq_disposition q)))"

lemma acks_ok_none [simp]: "acks_ok sha x []"
  by (simp add: acks_ok_def)

lemma ack_returns: "ack_and_return env world client_ack deps e disp h c = (Inr h', d', acks) \<Longrightarrow> h' = h"
  by (auto simp: ack_and_return_def split: prod.splits option.splits)

lemma ack_and_return_ok:
  assumes "discussion_reachable sha c" "\<And>c. discussion_reachable sha c \<Longrightarrow> discussion_reachable sha (world c)"
    "mx_executionId e = x" "executions c x = Some e'" "mx_state e' = disposition_state disp"
    and run: "ack_and_return env world client_ack deps e disp h c = (r, d', acks)"
  shows "discussion_reachable sha d' \<and> acks_ok sha x acks"
proof -
  obtain err d1 acks1 where a: "ackAfterPersist env world client_ack deps e disp c = ((err, d1), acks1)" by (metis surj_pair)
  with run have "d' = d1" "acks = acks1" by (auto simp: ack_and_return_def split: option.splits)
  moreover have "discussion_reachable sha d1"
    using a assms(1) settle_reachable(1,2) [OF assms(2) [OF assms(1)]] assms(2) [OF assms(1)]
    by (auto simp: ackAfterPersist_def Let_def split: option.splits if_splits AckReply.splits AckState.splits
        dest: settle_reachable(3) [OF assms(1)] settle_reachable(3) [OF assms(2) [OF assms(1)]])
  moreover have "acks_ok sha x acks1"
    using a assms(1,3-5) by (auto simp: ackAfterPersist_def Let_def acks_ok_def split: option.splits if_splits)
  ultimately show ?thesis by simp
qed

lemma persist_and_ack_ok:
  assumes "discussion_reachable sha c" "\<And>n c. discussion_reachable sha c \<Longrightarrow> discussion_reachable sha (world n c)"
    "\<And>n. tv_sha (env n) = sha" "mx_executionId e = x"
    and run: "persist_and_ack env world client_ack deps x event e c = (r, d', acks)"
  shows "discussion_reachable sha d' \<and> acks_ok sha x acks"
proof -
  note ok = reachable_ok [OF assms(1)]
  have x: "ci_executionId (commit_input deps x event) = x" by (simp add: commit_input_def)
  have fin: "discussion_reachable sha d' \<and> acks_ok sha x acks"
    if "discussion_reachable sha c'" "executions c' x = Some e'" "mx_state e' = disposition_state disp"
      "ack_and_return (env 2) (world 3) client_ack deps e disp h c' = (r, d', acks)" for disp h c' e'
    by (rule ack_and_return_ok [OF that(1) assms(2) assms(4) that(2-4)])
  show ?thesis
  proof (cases "classifyCompleted e event")
    case CommitOutput
    show ?thesis
    proof (cases "commit_dispatch (env 1) (mx_resultKind e) (commit_input deps x event) c")
      case (Inl err)
      with run CommitOutput assms(1) show ?thesis by (simp add: persist_and_ack_def)
    next
      case (Inr p)
      then obtain c' res where p: "commit_dispatch (env 1) (mx_resultKind e) (commit_input deps x event) c = Inr (c', res)"
        by (cases p) simp
      note reach = reachable_step [OF assms(1) commit_dispatch_step [OF p assms(3)]]
      from commit_state [OF p ok] x obtain e' where
        e': "executions c' x = Some e'" "mx_state e' = (case res of CommitDiscarded _ \<Rightarrow> mx_discarded | _ \<Rightarrow> mx_committed)"
        by auto
      from run CommitOutput p fin [OF reach e'(1), of disp_committed] fin [OF reach e'(1), of disp_discarded] e'(2) show ?thesis
        by (cases res) (simp_all add: persist_and_ack_def)
    qed
  next
    case (DiscardOutput outcome error)
    show ?thesis
    proof (cases "discardExecution (env 1) x (dp_token deps) outcome (ev_finalSeq event) (Some error) c")
      case (Inl err)
      with run DiscardOutput assms(1) show ?thesis by (simp add: persist_and_ack_def)
    next
      case (Inr p)
      then obtain c' res where
        p: "discardExecution (env 1) x (dp_token deps) outcome (ev_finalSeq event) (Some error) c = Inr (c', res)"
        by (cases p) simp
      note reach = reachable_step [OF assms(1) step_discardExecution [OF p]]
      from discardExecution_state [OF p ok] obtain e' where e': "executions c' x = Some e'" "mx_state e' = mx_discarded" by blast
      from run DiscardOutput p fin [OF reach e'(1), of disp_discarded] e'(2) show ?thesis
        by (cases res) (simp_all add: persist_and_ack_def)
    qed
  qed
qed

lemma handle_ok:
  assumes "discussion_reachable sha d" "\<And>n c. discussion_reachable sha c \<Longrightarrow> discussion_reachable sha (world n c)"
    "\<And>n. tv_sha (env n) = sha"
    and run: "handleCompletedExecution env world client_ack deps x event d = (r, d', acks)"
  shows "discussion_reachable sha d' \<and> acks_ok sha x acks"
proof (cases "executions d x")
  case None
  with run assms(1) show ?thesis by (simp add: handleCompletedExecution_def)
next
  case (Some current)
  note r0 = assms(2) [OF assms(1), of 0]
  have rest: "discussion_reachable sha d' \<and> acks_ok sha x acks"
    if r1: "discussion_reachable sha d1" and go: "(case executions (world 1 d1) x of None \<Rightarrow> (Inl VanishedExecution, world 1 d1, [])
      | Some e \<Rightarrow> persist_and_ack env world client_ack deps x event e (world 2 (world 1 d1))) = (r, d', acks)" for d1
  proof (cases "executions (world 1 d1) x")
    case None
    with go assms(2) [OF r1, of 1] show ?thesis by auto
  next
    case e: (Some e)
    note r2 = assms(2) [OF r1, of 1]
    from go e have "persist_and_ack env world client_ack deps x event e (world 2 (world 1 d1)) = (r, d', acks)" by simp
    from persist_and_ack_ok [OF assms(2) [OF r2] assms(2,3) ids(3) [OF reachable_ok [OF r2] e] this] show ?thesis .
  qed
  show ?thesis
  proof (cases "mx_state current = mx_running")
    case False
    with run Some show ?thesis by (intro rest [OF r0]) (simp add: handleCompletedExecution_def Let_def del: One_nat_def)
  next
    case running: True
    show ?thesis
    proof (cases "markExecutionSucceededUncommitted (env 0) x (ev_effectiveModel event) (ev_usage event)
             (ev_finalSeq event) (ev_dispatchState event) (ev_toolState event) (world 0 d)")
      case (Inl err)
      with run Some running r0 show ?thesis by (simp add: handleCompletedExecution_def Let_def)
    next
      case (Inr d1)
      from run Some running Inr show ?thesis
        by (intro rest [OF reachable_step [OF r0 step_markExecutionSucceeded [OF Inr]]])
          (simp add: handleCompletedExecution_def Let_def del: One_nat_def)
    qed
  qed
qed

section \<open>Properties\<close>


text \<open>C5: A result is committed only against the context it was produced from.  If SHA-256 does not
  collide, then a commit of an execution whose expected digest is the digest of some room at some
  earlier moment finds the room's shared context (topic, background, messages and summaries in
  order) equal to the one at that moment.\<close>

theorem commit_sees_dispatched_context:
  assumes "inj sha" "discussion_reachable sha d0" "rooms d0 k0 = Some room0"
    and "discussion_reachable sha d" "executions d (ci_executionId input) = Some e" "rooms d (mx_roomId e) = Some room"
    and "mx_expectedRoomDigest e = rm_contextDigest room0"
    and "commit_dispatch env kind input d = Inr (d', CommitCommitted i phase)"
  shows "shared_context d room = shared_context d0 room0 \<and> mx_contextRevision e = rm_contextRevision room"
proof -
  note ok0 = reachable_ok [OF assms(2)] and ok = reachable_ok [OF assms(4)]
  obtain round where a: "rounds d (mx_roundId e) = Some round" "rd_roomId round = mx_roomId e"
    using anchored [OF ok assms(5)] by blast
  have "\<exists>p. \<not> context_drifted e room p"
    using assms(5,6,8) a
    by (cases kind) (auto simp: commit_dispatch_def commitModelMessage_def commitFocusMessage_def commitSummary_def
        commitReport_def assertCommittable_def replayOrThrow_def Let_def tx_success split: if_splits)
  then have same: "mx_expectedRoomDigest e = rm_contextDigest room" "mx_contextRevision e = rm_contextRevision room"
    by (auto simp: context_drifted_def)
  have "rm_contextDigest room = computeContextDigest sha (shared_context d room)"
    "rm_contextDigest room0 = computeContextDigest sha (shared_context d0 room0)"
    using db_okD(12) [OF ok] db_okD(12) [OF ok0] assms(3,6) by (auto simp: digests_ok_def)
  with same(1) assms(7) have "computeContextDigest sha (shared_context d room) = computeContextDigest sha (shared_context d0 room0)"
    by simp
  with assms(1) same(2) show ?thesis
    by (simp add: computeContextDigest_def digest_of_def inj_eq context_text_inj)
qed

text \<open>What the acknowledgement writes: at most the acknowledgement of the execution.\<close>

definition acked :: "string \<Rightarrow> db \<Rightarrow> db \<Rightarrow> bool" where
  "acked x c c' \<longleftrightarrow> c' = c \<or> (\<exists>e a t. executions c x = Some e
     \<and> c' = c\<lparr>db_executions := tb_put x (e\<lparr>mx_ackState := a, mx_updatedAt := t\<rparr>) (db_executions c)\<rparr>)"

lemma settle_acked:
  assumes "db_ok sha c" "settle_ack a env x c = Inr c'"
  shows "acked x c c'"
proof (cases "c' = c")
  case False
  with assms(2) obtain e where "executions c x = Some e"
    "c' = put_execution (e\<lparr>mx_ackState := Some a, mx_updatedAt := tv_ts env 0\<rparr>) c"
    by (auto simp: settle_ack_def tx_success split: if_splits)
  moreover from this(1) have "mx_executionId e = x" using ids(3) [OF assms(1)] by blast
  ultimately show ?thesis unfolding acked_def put_execution_def by auto
qed (simp add: acked_def)

lemma settle_total: "executions c x = Some e \<Longrightarrow> \<exists>c'. settle_ack a env x c = Inr c'"
  by (simp add: settle_ack_def)

lemma tx_acked:
  assumes "db_ok sha c" "executions c x = Some e"
  shows "acked x c (try_tx (settle_ack a env x) c)"
    "\<exists>c'. throwing_tx (settle_ack a env x) c = (None, c') \<and> acked x c c'"
proof -
  from settle_total [OF assms(2)] obtain c' where c': "settle_ack a env x c = Inr c'" by blast
  from settle_acked [OF assms(1) c'] c' show "acked x c (try_tx (settle_ack a env x) c)"
    "\<exists>c'. throwing_tx (settle_ack a env x) c = (None, c') \<and> acked x c c'"
    by (simp_all add: try_tx_def throwing_tx_def)
qed

lemma ack_and_return_acked:
  assumes "db_ok sha c" "executions c x = Some e'" "mx_executionId e = x"
  shows "\<exists>c' acks. ack_and_return env (\<lambda>c. c) client_ack deps e disp h c = (Inr h, c', acks) \<and> acked x c c'"
proof -
  note t = tx_acked [OF assms(1,2)]
  from t(2) [of ack_expired env] obtain c1 where
    c1: "throwing_tx (settle_ack ack_expired env x) c = (None, c1)" "acked x c c1" by blast
  have "acked x c c" by (simp add: acked_def)
  with t(1) c1 show ?thesis
    by (simp add: ack_and_return_def ackAfterPersist_def assms(3) markAcknowledged_def markAckExpired_def Let_def
        split: option.split AckReply.split AckState.split)
qed

lemma commit_left_acked:
  assumes "commit_left sha kind input i c" "acked (ci_executionId input) c c'"
  shows "commit_left sha kind input i c'"
  using assms unfolding commit_left_def acked_def
  by (auto simp: holds_lease_def activeBindingOf_def)

text \<open>A run that commits, seen from its end: the commit is in the database, and at most acknowledged.\<close>

lemma committing_run:
  assumes "discussion_reachable sha d" "\<And>n. tv_sha (env n) = sha"
    and "handleCompletedExecution env (\<lambda>_ c. c) client_ack deps x event d = (Inr (HandledCommitted i phase), d', acks)"
  obtains e kind where "classifyCompleted e event = CommitOutput" "commit_left sha kind (commit_input deps x event) i d'"
proof -
  let ?input = "commit_input deps x event"
  obtain d1 e where r1: "discussion_reachable sha d1" and e: "executions d1 x = Some e"
    and run: "persist_and_ack env (\<lambda>_ c. c) client_ack deps x event e d1 = (Inr (HandledCommitted i phase), d', acks)"
  proof -
    from assms(3) obtain current where cur: "executions d x = Some current"
      by (auto simp: handleCompletedExecution_def split: option.splits)
    have "\<exists>d1. (d1 = d \<or> markExecutionSucceededUncommitted (env 0) x (ev_effectiveModel event) (ev_usage event)
        (ev_finalSeq event) (ev_dispatchState event) (ev_toolState event) d = Inr d1)
      \<and> (case executions d1 x of None \<Rightarrow> (Inl VanishedExecution, d1, [])
        | Some e \<Rightarrow> persist_and_ack env (\<lambda>_ c. c) client_ack deps x event e d1) = (Inr (HandledCommitted i phase), d', acks)"
    proof (cases "mx_state current = mx_running")
      case False
      with assms(3) cur show ?thesis by (intro exI [of _ d]) (simp add: handleCompletedExecution_def)
    next
      case True
      with assms(3) cur show ?thesis
        by (simp add: handleCompletedExecution_def Let_def split: sum.splits) blast
    qed
    then obtain d1 where "d1 = d \<or> markExecutionSucceededUncommitted (env 0) x (ev_effectiveModel event) (ev_usage event)
        (ev_finalSeq event) (ev_dispatchState event) (ev_toolState event) d = Inr d1"
      and go: "(case executions d1 x of None \<Rightarrow> (Inl VanishedExecution, d1, [])
        | Some e \<Rightarrow> persist_and_ack env (\<lambda>_ c. c) client_ack deps x event e d1) = (Inr (HandledCommitted i phase), d', acks)"
      by blast
    with assms(1) have "discussion_reachable sha d1" by (auto intro: reachable_step step_markExecutionSucceeded)
    with go that show ?thesis by (auto split: option.splits)
  qed
  have idx: "mx_executionId e = x" using ids(3) [OF reachable_ok [OF r1] e] .
  from run have cl: "classifyCompleted e event = CommitOutput"
    by (auto simp: persist_and_ack_def Let_def split: verdict.splits sum.splits prod.splits DiscardResult.splits
        dest: ack_returns)
  from run cl obtain c where c: "commit_dispatch (env 1) (mx_resultKind e) ?input d1 = Inr (c, CommitCommitted i phase)"
    and fin: "ack_and_return (env 2) (\<lambda>c. c) client_ack deps e disp_committed (HandledCommitted i phase) c
        = (Inr (HandledCommitted i phase), d', acks)"
    by (auto simp: persist_and_ack_def Let_def split: sum.splits prod.splits CommitOutcome.splits dest: ack_returns)
  have left: "commit_left sha (mx_resultKind e) ?input i c"
    using committed_left [OF c reachable_ok [OF r1]] assms(2) by simp
  then obtain e1 where "executions c x = Some e1" by (auto simp: commit_left_def commit_input_def)
  have "\<exists>c' acks. ack_and_return (env 2) (\<lambda>c. c) client_ack deps e disp_committed (HandledCommitted i phase) c
      = (Inr (HandledCommitted i phase), c', acks) \<and> acked x c c'"
    by (rule ack_and_return_acked [OF reachable_ok [OF reachable_step [OF r1 commit_dispatch_step [OF c assms(2)]]]
          \<open>executions c x = Some e1\<close> idx])
  with fin have "acked x c d'" by auto
  with left have left': "commit_left sha (mx_resultKind e) ?input i d'"
    by (intro commit_left_acked [OF left]) (simp add: commit_input_def)
  with cl that show ?thesis by blast
qed

text \<open>C10: A replayed terminal commits nothing twice.  After a run that committed, a second run for the
  same event by the same controller, whatever the Host answers, reports the entity of the first run
  as replayed and changes nothing but the acknowledgement of the execution.\<close>

theorem second_run_replays:
  assumes "discussion_reachable sha d" "\<And>n. tv_sha (env n) = sha" "\<And>n. tv_sha (env' n) = sha"
    and "handleCompletedExecution env (\<lambda>_ c. c) client_ack deps x event d = (Inr (HandledCommitted i phase), d', acks)"
  shows "\<exists>d'' acks'. handleCompletedExecution env' (\<lambda>_ c. c) client_ack' deps x event d' = (Inr (HandledReplayed i), d'', acks')
    \<and> acked x d' d''"
proof -
  let ?input = "commit_input deps x event"
  have reach': "discussion_reachable sha d'" using handle_ok [OF assms(1) _ assms(2,4)] by simp
  obtain e kind where cl: "classifyCompleted e event = CommitOutput" and left': "commit_left sha kind ?input i d'"
    by (rule committing_run [OF assms(1,2,4)])
  then obtain e' where e': "executions d' x = Some e'" "mx_state e' = mx_committed" "mx_resultKind e' = kind"
    by (auto simp: commit_left_def commit_input_def)
  have idx': "mx_executionId e' = x" using ids(3) [OF reachable_ok [OF reach'] e'(1)] .
  have cl': "classifyCompleted e' event = CommitOutput"
    using cl by (auto simp: classifyCompleted_def split: if_splits)
  have "commit_dispatch (env' 1) (mx_resultKind e') ?input d' = Inr (d', CommitReplayed i)"
    using left' assms(3) e'(3) by (intro committed_replays) simp
  with e' cl' have "handleCompletedExecution env' (\<lambda>_ c. c) client_ack' deps x event d'
      = ack_and_return (env' 2) (\<lambda>c. c) client_ack' deps e' disp_committed (HandledReplayed i) d'"
    by (simp add: handleCompletedExecution_def persist_and_ack_def Let_def)
  with ack_and_return_acked [OF reachable_ok [OF reach'] e'(1) idx'] show ?thesis by metis
qed

text \<open>A commit that was discarded because its context had changed cannot be replayed: committing
  again with the same facts throws \<open>EXECUTION_NOT_COMMITTABLE\<close>, although the pipeline describes
  itself as idempotent end to end.\<close>

theorem stale_discard_not_replayable:
  assumes "discussion_reachable sha d" "tv_sha env = sha"
    and "commit_dispatch env kind input d = Inr (c, CommitDiscarded outcome)"
  shows "commit_dispatch env' kind input c
    = Inl (TransactionError ''EXECUTION_NOT_COMMITTABLE'' ''cannot commit from state discarded'')"
proof -
  note ok = reachable_ok [OF assms(1)]
  from commit_discarded_from [OF assms(3) ok] obtain e round p where e: "executions d (ci_executionId input) = Some e"
    "mx_resultKind e = kind" "rounds d (mx_roundId e) = Some round" "rd_roomId round = mx_roomId e" "rooms d (mx_roomId e) \<noteq> None"
    "holds_lease d (mx_roomId e) (ci_token input)" "participants d (mx_participantId e) = Some p"
    and c: "c = discardLockedExecution (tv_ts env 0) e round outcome_stale_context (ci_finalEventSeq input) None d
       \<or> c = put_execution (discarded_execution (tv_ts env 0) outcome_stale_context (ci_finalEventSeq input) None e) d"
    by blast
  let ?e = "discarded_execution (tv_ts env 0) outcome_stale_context (ci_finalEventSeq input) None e"
  note id = ids(3) [OF ok e(1)] ids(2) [OF ok e(3)]
  have same: "db_rooms c = db_rooms d" "db_bindings c = db_bindings d" "participants c = participants d"
    using c by (auto simp: discardLockedExecution_def Let_def db_lookup)
  have "executions c (ci_executionId input) = Some ?e" using c id by (auto simp: discardLockedExecution_def Let_def db_lookup)
  moreover have "\<exists>round'. rounds c (mx_roundId e) = Some round' \<and> rd_roomId round' = mx_roomId e"
    using c e(3,4) id by (elim disjE) (simp_all add: discardLockedExecution_def Let_def db_lookup)
  then obtain round' where "rounds c (mx_roundId e) = Some round'" "rd_roomId round' = mx_roomId e" by blast
  moreover obtain room where "rooms c (mx_roomId e) = Some room" using e(5) same(1) by auto
  moreover have "holds_lease c (mx_roomId e) (ci_token input)" using e(6) by (simp add: holds_lease_same [OF same(2)])
  moreover have "mx_state ?e = mx_discarded" "mx_resultKind ?e = kind" "mx_roundId ?e = mx_roundId e"
    "mx_roomId ?e = mx_roomId e" "mx_participantId ?e = mx_participantId e" "participants c (mx_participantId e) = Some p"
    using e(2,7) same(3) by (simp_all add: discarded_execution_def)
  ultimately show ?thesis
    by (cases kind) (simp_all add: commit_dispatch_def commitModelMessage_def commitFocusMessage_def commitSummary_def
        commitReport_def loadCommitContext_def requireRoom_def requireController_def assertCommittable_def
        withConflictTranslation_def)
qed

section \<open>Witnesses\<close>

definition sample_event :: DriverEvent where
  "sample_event = Completed ''hello'' ''m'' (Some ''m'') verdict_match tool_none dispatch_accepted None 7"

definition sample_deps :: CommitPipelineDeps where
  "sample_deps = \<lparr> dp_scopeId = ''s'', dp_token = sample_token, dp_currentHostInstanceId = ''h'' \<rparr>"

definition sample_answer :: "AckRequest \<Rightarrow> AckReply" where
  "sample_answer q = AckAnswered ack_acknowledged"

definition sample_world :: "nat \<Rightarrow> db \<Rightarrow> db" where
  "sample_world n d = d\<lparr>db_agents := []\<rparr>"

abbreviation sample_handle :: "(nat \<Rightarrow> db \<Rightarrow> db) \<Rightarrow> db \<Rightarrow> (pipeline_error + CompletedHandling) \<times> db \<times> ack_log" where
  "sample_handle world d \<equiv> handleCompletedExecution (\<lambda>_. sample_tx ''f'') world sample_answer sample_deps ''x'' sample_event d"

lemma sample_handle_runs:
  "(case sample_handle sample_world sample_db of
      (Inr (HandledCommitted i phase), d', acks) \<Rightarrow> i = ''f'' \<and> length acks = 1 | _ \<Rightarrow> False)"
  "(case sample_handle (\<lambda>_ d. d) sample_db of
      (Inr (HandledCommitted i phase), d', acks) \<Rightarrow> i = ''f'' | _ \<Rightarrow> False)"
  by code_simp+


lemma inj_sample_sha: "inj sample_sha"
  by (simp add: inj_def sample_sha_def)

theorem commit_sees_dispatched_context_witness:
  "\<exists>d' i phase e room. commit_dispatch (sample_tx ''f'') kind_focus (commit_input sample_deps ''x'' sample_event) sample_db
       = Inr (d', CommitCommitted i phase)
     \<and> executions sample_db ''x'' = Some e \<and> rooms sample_db ''r'' = Some room \<and> mx_contextRevision e = rm_contextRevision room"
proof -
  have "(case commit_dispatch (sample_tx ''f'') kind_focus (commit_input sample_deps ''x'' sample_event) sample_db of
      Inr (d', CommitCommitted i phase) \<Rightarrow> True | _ \<Rightarrow> False)" by code_simp
  then obtain d' i phase where run: "commit_dispatch (sample_tx ''f'') kind_focus (commit_input sample_deps ''x'' sample_event) sample_db
      = Inr (d', CommitCommitted i phase)" by (auto split: sum.splits prod.splits CommitOutcome.splits)
  have "(case (executions sample_db ''x'', rooms sample_db ''r'') of
      (Some e, Some room) \<Rightarrow> mx_roomId e = ''r'' \<and> mx_expectedRoomDigest e = rm_contextDigest room | _ \<Rightarrow> False)" by code_simp
  then obtain e room where e: "executions sample_db ''x'' = Some e" "rooms sample_db ''r'' = Some room" "mx_roomId e = ''r''"
    "mx_expectedRoomDigest e = rm_contextDigest room" by (auto split: option.splits)
  have x: "executions sample_db (ci_executionId (commit_input sample_deps ''x'' sample_event)) = Some e"
    "rooms sample_db (mx_roomId e) = Some room" using e by (simp_all add: commit_input_def)
  from commit_sees_dispatched_context [OF inj_sample_sha sample_reachable e(2) sample_reachable x e(4) run] run e
  show ?thesis by blast
qed

theorem second_run_replays_witness:
  "\<exists>d' acks phase d'' acks'. sample_handle (\<lambda>_ d. d) sample_db = (Inr (HandledCommitted ''f'' phase), d', acks)
     \<and> sample_handle (\<lambda>_ d. d) d' = (Inr (HandledReplayed ''f''), d'', acks')"
proof -
  obtain d' acks phase where run: "sample_handle (\<lambda>_ d. d) sample_db = (Inr (HandledCommitted ''f'' phase), d', acks)"
    using sample_handle_runs(2) by (auto split: prod.splits sum.splits CompletedHandling.splits)
  have "\<exists>d'' acks'. sample_handle (\<lambda>_ c. c) d' = (Inr (HandledReplayed ''f''), d'', acks') \<and> acked ''x'' d' d''"
    by (rule second_run_replays [OF sample_reachable _ _ run]) simp_all
  with run show ?thesis by blast
qed

text \<open>The user writes while the focus execution is running.\<close>

definition sample_drifted :: "tx_error + db" where
  "sample_drifted = and_then (appendUserMessage (sample_tx ''u'') ''r'' ''n'' sample_token ''hi'' sample_db) (\<lambda>(d, _). Inr d)"

definition sample_drifted_db :: db where "sample_drifted_db = (case sample_drifted of Inr d \<Rightarrow> d | Inl _ \<Rightarrow> empty_db)"

theorem stale_discard_not_replayable_witness:
  "\<exists>c. commit_dispatch (sample_tx ''f'') kind_focus (commit_input sample_deps ''x'' sample_event) sample_drifted_db
       = Inr (c, CommitDiscarded outcome_stale_context)
     \<and> commit_dispatch (sample_tx ''g'') kind_focus (commit_input sample_deps ''x'' sample_event) c
       = Inl (TransactionError ''EXECUTION_NOT_COMMITTABLE'' ''cannot commit from state discarded'')"
proof -
  have "(case sample_drifted of Inr d \<Rightarrow> True | Inl _ \<Rightarrow> False)" by code_simp
  from run_result [OF this] obtain m where "appendUserMessage (sample_tx ''u'') ''r'' ''n'' sample_token ''hi'' sample_db
      = Inr (sample_drifted_db, m)"
    by (auto simp: sample_drifted_db_def sample_drifted_def tx_success split: prod.splits sum.splits)
  from reachable_step [OF sample_reachable step_appendUserMessage [OF this sample_sha_of(1)]]
  have reach: "discussion_reachable sample_sha sample_drifted_db" .
  have "(case commit_dispatch (sample_tx ''f'') kind_focus (commit_input sample_deps ''x'' sample_event) sample_drifted_db of
      Inr (c, CommitDiscarded outcome) \<Rightarrow> outcome = outcome_stale_context | _ \<Rightarrow> False)" by code_simp
  then obtain c where run: "commit_dispatch (sample_tx ''f'') kind_focus (commit_input sample_deps ''x'' sample_event) sample_drifted_db
      = Inr (c, CommitDiscarded outcome_stale_context)" by (auto split: sum.splits prod.splits CommitOutcome.splits)
  from stale_discard_not_replayable [OF reach sample_sha_of(1) run] run show ?thesis by blast
qed

end
