(* ===== verification/Decimal_Int.thy ===== *)
theory Decimal_Int
  imports CK_Prelude
begin

text \<open>
  \<open>src/shared/runtime/decimal-int.ts\<close>: canonical decimal integers.  \<open>Number(raw)\<close> on a string of
  digits is the IEEE double nearest to its decimal value (ties to an even significand), or
  Infinity; both are written out, so that the results about safe integers are about rounding
  too.  The theory shows that parsing and printing are inverse to each other exactly on the
  safe integers, and that the textual comparison compares the values.
\<close>

section \<open>Decimal text and doubles\<close>

definition digit_value :: "char \<Rightarrow> nat" where
  "digit_value c = of_char c - 48"

fun dec_value_from :: "nat \<Rightarrow> string \<Rightarrow> nat" where
  "dec_value_from a [] = a"
| "dec_value_from a (c # s) = dec_value_from (10 * a + digit_value c) s"

abbreviation dec_value :: "string \<Rightarrow> nat" where
  "dec_value \<equiv> dec_value_from 0"

text \<open>\<open>Number.MAX_SAFE_INTEGER\<close> and \<open>Number.isSafeInteger\<close> on an integer.\<close>

definition MAX_SAFE_INTEGER :: nat where
  "MAX_SAFE_INTEGER = 2 ^ 53 - 1"

definition safe_int :: "int \<Rightarrow> bool" where
  "safe_int i \<longleftrightarrow> \<bar>i\<bar> \<le> int MAX_SAFE_INTEGER"

text \<open>The number of bits of a natural number, and rounding to 53 of them.\<close>

fun bit_length :: "nat \<Rightarrow> nat" where
  "bit_length n = (if n = 0 then 0 else Suc (bit_length (n div 2)))"

declare bit_length.simps [simp del]

definition round_half_even :: "nat \<Rightarrow> nat \<Rightarrow> nat" where
  "round_half_even unit n =
     (let q = n div unit; r = n mod unit
      in if 2 * r < unit \<or> (2 * r = unit \<and> even q) then q * unit else (q + 1) * unit)"

datatype js_number = Finite nat | Infinity

definition double_of :: "nat \<Rightarrow> js_number" where
  "double_of n =
     (let d = (if n < 2 ^ 53 then n else round_half_even (2 ^ (bit_length n - 53)) n)
      in if d < 2 ^ 1024 then Finite d else Infinity)"

section \<open>The operations\<close>

text \<open>\<open>/^(0|[1-9][0-9]*)$/\<close> and \<open>/^[0-9]+$/\<close>.\<close>

definition CANONICAL_INT :: "string \<Rightarrow> bool" where
  "CANONICAL_INT s \<longleftrightarrow>
     s = ''0'' \<or> (s \<noteq> [] \<and> list_all is_digit s \<and> hd s \<noteq> CHR ''0'')"

definition all_digits :: "string \<Rightarrow> bool" where
  "all_digits s \<longleftrightarrow> s \<noteq> [] \<and> list_all is_digit s"

definition parseCanonicalInt :: "string \<Rightarrow> nat option" where
  "parseCanonicalInt raw =
     (if \<not> CANONICAL_INT raw then None
      else case double_of (dec_value raw) of
             Infinity \<Rightarrow> None
           | Finite n \<Rightarrow> if safe_int (int n) then Some n else None)"

definition parseCanonicalPositiveInt :: "string \<Rightarrow> nat option" where
  "parseCanonicalPositiveInt raw =
     (case parseCanonicalInt raw of None \<Rightarrow> None | Some n \<Rightarrow> if 0 < n then Some n else None)"

text \<open>\<open>raw.replace(/^0+/, "") || "0"\<close>; strings compare by code unit.\<close>

definition strip_zeros :: "string \<Rightarrow> string" where
  "strip_zeros raw = (let s = dropWhile (\<lambda>c. c = CHR ''0'') raw in if s = [] then ''0'' else s)"

definition decimalIntExceeds :: "string \<Rightarrow> int \<Rightarrow> bool" where
  "decimalIntExceeds raw limit =
     (if \<not> all_digits raw then False
      else let digits = strip_zeros raw
      in if \<not> safe_int limit \<or> limit < 0 then False
         else let cap = show_int limit
         in if length digits \<noteq> length cap then length cap < length digits
            else cap < digits)"

section \<open>Digits and values\<close>

lemma digit_range: "is_digit c \<longleftrightarrow> 48 \<le> (of_char c :: nat) \<and> (of_char c :: nat) \<le> 57"
  by (simp add: is_digit_def Let_def)

lemma digit_value_less: "is_digit c \<Longrightarrow> digit_value c < 10"
  by (auto simp: digit_range digit_value_def)

lemma digit_char [simp]: "n < 10 \<Longrightarrow> is_digit (char_of (48 + n :: nat))"
  by (simp add: digit_range)

lemma digit_value_char [simp]: "n < 10 \<Longrightarrow> digit_value (char_of (48 + n :: nat)) = n"
  by (simp add: digit_value_def)

lemma digit_value_zero: "digit_value CHR ''0'' = 0"
  by (simp add: digit_value_def)

lemma char_zero: "char_of (48 :: nat) = CHR ''0''"
  by code_simp

lemma char_of_digit: "is_digit c \<Longrightarrow> char_of (48 + digit_value c) = c"
  by (auto simp: digit_range digit_value_def)

lemma dec_value_append: "dec_value_from a (s @ t) = dec_value_from (dec_value_from a s) t"
  by (induction s arbitrary: a) auto

lemma show_nat_digits: "list_all is_digit (show_nat n)" "show_nat n \<noteq> []"
  by (induction n rule: show_nat.induct) (subst show_nat.simps; simp)+

lemma dec_value_show [simp]: "dec_value (show_nat n) = n"
proof (induction n rule: show_nat.induct)
  case (1 n)
  then show ?case by (subst show_nat.simps) (simp add: dec_value_append)
qed

lemma show_nat_canonical: "CANONICAL_INT (show_nat n)"
proof -
  have "hd (show_nat n) \<noteq> CHR ''0''" if "n \<noteq> 0"
    using that
  proof (induction n rule: show_nat.induct)
    case (1 n)
    show ?case
    proof (cases "n < 10")
      case True
      then have "digit_value (hd (show_nat n)) \<noteq> digit_value CHR ''0''"
        using 1(2) by (subst show_nat.simps) (simp add: digit_value_def)
      then show ?thesis by auto
    next
      case False
      then show ?thesis using 1 show_nat_digits(2) [of "n div 10"] by (subst show_nat.simps) simp
    qed
  qed
  moreover have "show_nat 0 = ''0''" by (subst show_nat.simps) (simp add: char_zero)
  ultimately show ?thesis
    using show_nat_digits [of n] by (cases "n = 0") (auto simp: CANONICAL_INT_def)
qed

lemma dec_value_bounds:
  "list_all is_digit s \<Longrightarrow> a * 10 ^ length s \<le> dec_value_from a s \<and> dec_value_from a s < (a + 1) * 10 ^ length s"
proof (induction s arbitrary: a)
  case (Cons c s)
  then have d: "digit_value c < 10" by (simp add: digit_value_less)
  let ?b = "10 * a + digit_value c"
  have "10 * a * 10 ^ length s \<le> ?b * 10 ^ length s" "(?b + 1) * 10 ^ length s \<le> (10 * a + 10) * 10 ^ length s"
    using d by (intro mult_right_mono; simp)+
  moreover have "?b * 10 ^ length s \<le> dec_value_from ?b s" "dec_value_from ?b s < (?b + 1) * 10 ^ length s"
    using Cons by simp_all
  ultimately have "10 * a * 10 ^ length s \<le> dec_value_from ?b s" "dec_value_from ?b s < (10 * a + 10) * 10 ^ length s"
    by linarith+
  then show ?case by (simp add: algebra_simps)
qed simp

lemma dec_value_less_iff:
  assumes "length s = length t" "list_all is_digit s" "list_all is_digit t"
  shows "dec_value_from a s < dec_value_from a t \<longleftrightarrow> s < t"
  using assms
proof (induction s t arbitrary: a rule: list_induct2)
  case (Cons c s e t)
  then have dig: "list_all is_digit s" "list_all is_digit t" "is_digit c" "is_digit e" by auto
  have less: "dec_value_from a (x # u) < dec_value_from a (y # v)"
    if "digit_value x < digit_value y" "list_all is_digit u" "list_all is_digit v" "length u = length v" for x y u v
  proof -
    have "dec_value_from a (x # u) < (10 * a + digit_value x + 1) * 10 ^ length u"
      using dec_value_bounds [OF that(2)] by simp
    also have "\<dots> \<le> (10 * a + digit_value y) * 10 ^ length v"
      unfolding that(4) using that(1) by (intro mult_right_mono) auto
    also have "\<dots> \<le> dec_value_from a (y # v)"
      using dec_value_bounds [OF that(3)] by simp
    finally show ?thesis .
  qed
  have ord: "c < e \<longleftrightarrow> digit_value c < digit_value e" "c = e \<longleftrightarrow> digit_value c = digit_value e"
    using dig(3,4) by (auto simp: less_char_def digit_range digit_value_def) (metis dig(3,4) char_of_digit digit_value_def)
  consider "digit_value c < digit_value e" | "digit_value c = digit_value e" | "digit_value e < digit_value c" by linarith
  then show ?case
  proof cases
    case 1
    with less [of c e s t] dig Cons.hyps ord show ?thesis by simp
  next
    case 2
    with Cons.IH [OF dig(1,2)] ord show ?thesis by simp
  next
    case 3
    with less [of e c t s] dig Cons.hyps ord show ?thesis by auto
  qed
qed simp

text \<open>A canonical text is the printed form of its value.\<close>

lemma canonical_digits: "CANONICAL_INT u \<Longrightarrow> list_all is_digit u" "CANONICAL_INT u \<Longrightarrow> u \<noteq> []"
  by (auto simp: CANONICAL_INT_def digit_range)

lemma canonical_ge: "CANONICAL_INT u \<Longrightarrow> u \<noteq> ''0'' \<Longrightarrow> 10 ^ (length u - 1) \<le> dec_value u"
proof -
  assume "CANONICAL_INT u" "u \<noteq> ''0''"
  then obtain c v where u: "u = c # v" "is_digit c" "c \<noteq> CHR ''0''" "list_all is_digit v"
    by (cases u) (auto simp: CANONICAL_INT_def)
  then have "1 \<le> digit_value c" using char_of_digit [of c] by (cases "digit_value c") (auto simp: char_zero)
  then have "10 ^ length v \<le> digit_value c * 10 ^ length v" by simp
  also have "\<dots> \<le> dec_value u" using dec_value_bounds [OF u(4), of "digit_value c"] u(1) by simp
  finally show ?thesis using u(1) by simp
qed

lemma canonical_shorter:
  assumes "CANONICAL_INT s" "CANONICAL_INT t" "length s < length t"
  shows "dec_value s < dec_value t"
proof -
  have "dec_value s < 10 ^ length s" using dec_value_bounds [OF canonical_digits(1) [OF assms(1)], of 0] by simp
  also have "\<dots> \<le> 10 ^ (length t - 1)" using assms(3) by (intro power_increasing) auto
  also have "\<dots> \<le> dec_value t"
    using canonical_digits(2) [OF assms(1)] assms(3) by (intro canonical_ge [OF assms(2)]) auto
  finally show ?thesis .
qed

lemma canonical_inj:
  assumes "CANONICAL_INT s" "CANONICAL_INT t" "dec_value s = dec_value t"
  shows "s = t"
proof -
  have "length s = length t"
    using canonical_shorter [OF assms(1,2)] canonical_shorter [OF assms(2,1)] assms(3) by (metis less_irrefl linorder_less_linear)
  from dec_value_less_iff [OF this canonical_digits(1) [OF assms(1)] canonical_digits(1) [OF assms(2)], of 0]
    dec_value_less_iff [OF this [symmetric] canonical_digits(1) [OF assms(2)] canonical_digits(1) [OF assms(1)], of 0] assms(3)
  show ?thesis by (metis less_irrefl linorder_less_linear)
qed

lemma canonical_show: "CANONICAL_INT s \<Longrightarrow> show_nat (dec_value s) = s"
  by (rule canonical_inj) (simp_all add: show_nat_canonical)

section \<open>Rounding does not produce safe integers\<close>

lemma bit_length_bounds: "0 < n \<Longrightarrow> 2 ^ (bit_length n - 1) \<le> n \<and> n < 2 ^ bit_length n \<and> 0 < bit_length n"
proof (induction n rule: bit_length.induct)
  case (1 n)
  show ?case
  proof (cases "n = 1")
    case True
    then show ?thesis by (simp add: bit_length.simps [of "Suc 0"] bit_length.simps [of 0])
  next
    case False
    with 1 have IH: "2 ^ (bit_length (n div 2) - 1) \<le> n div 2" "n div 2 < 2 ^ bit_length (n div 2)" "0 < bit_length (n div 2)"
      by auto
    then have "2 ^ bit_length (n div 2) = 2 * (2 :: nat) ^ (bit_length (n div 2) - 1)"
      by (cases "bit_length (n div 2)") auto
    moreover have "bit_length n = Suc (bit_length (n div 2))" using 1(2) by (simp add: bit_length.simps [of n])
    moreover have "2 * (n div 2) \<le> n" "n < 2 * (n div 2) + 2" by auto
    then have "2 * 2 ^ (bit_length (n div 2) - 1) \<le> n" "n < 4 * 2 ^ (bit_length (n div 2) - 1)"
      using IH(1,2) calculation(1) by linarith+
    ultimately show ?thesis using IH by simp
  qed
qed

lemma round_half_even_ge: "(n div u) * u \<le> round_half_even u n"
  by (simp add: round_half_even_def Let_def)

lemma double_of_safe: "n \<le> MAX_SAFE_INTEGER \<Longrightarrow> double_of n = Finite n"
proof -
  assume "n \<le> MAX_SAFE_INTEGER"
  then have "n < 2 ^ 53" by (simp add: MAX_SAFE_INTEGER_def)
  moreover have "(2::nat) ^ 53 \<le> 2 ^ 1024" by (rule power_increasing) auto
  ultimately show ?thesis unfolding double_of_def Let_def by (simp only: if_True order_less_le_trans)
qed

lemma double_of_unsafe:
  assumes "MAX_SAFE_INTEGER < n" "double_of n = Finite d"
  shows "MAX_SAFE_INTEGER < d"
proof -
  have big: "2 ^ 53 \<le> n" using assms(1) by (simp add: MAX_SAFE_INTEGER_def)
  let ?b = "bit_length n" and ?u = "(2::nat) ^ (bit_length n - 53)"
  have b: "2 ^ (?b - 1) \<le> n" "n < 2 ^ ?b" using bit_length_bounds [of n] big by auto
  have "(2::nat) ^ 53 < 2 ^ ?b" using big b(2) by (rule order_le_less_trans)
  then have "53 < ?b" by (rule power_less_imp_less_exp [rotated]) simp
  then have s: "(2::nat) \<le> ?u" using power_increasing [of 1 "?b - 53" "2::nat"] by simp
  from \<open>53 < ?b\<close> have "?b - 1 = 52 + (?b - 53)" by simp
  then have p: "(2::nat) ^ (?b - 1) = 2 ^ 52 * ?u" by (simp only: power_add)
  have "2 ^ 52 * ?u div ?u \<le> n div ?u" using b(1) unfolding p by (rule div_le_mono)
  then have "2 ^ 52 \<le> n div ?u" by simp
  then have "2 ^ 52 * 2 \<le> n div ?u * ?u" using s by (rule mult_le_mono)
  also have "\<dots> \<le> round_half_even ?u n" by (rule round_half_even_ge)
  also have "\<dots> = d" using assms(2) big by (auto simp: double_of_def Let_def split: if_splits)
  finally show ?thesis by (simp add: MAX_SAFE_INTEGER_def)
qed

section \<open>Properties\<close>

lemma canonical_int_iff: "parseCanonicalInt s = Some n \<longleftrightarrow> CANONICAL_INT s \<and> n = dec_value s \<and> n \<le> MAX_SAFE_INTEGER"
  using double_of_safe [of "dec_value s"] double_of_unsafe [of "dec_value s"]
  by (cases "dec_value s \<le> MAX_SAFE_INTEGER") (auto simp: parseCanonicalInt_def safe_int_def split: js_number.splits)

lemma canonical_printed: "parseCanonicalInt s = Some n \<longleftrightarrow> s = show_nat n \<and> n \<le> MAX_SAFE_INTEGER"
  using canonical_show show_nat_canonical by (auto simp: canonical_int_iff)

text \<open>C28: Parsing a canonical decimal integer and printing it are inverse to each other: the texts accepted
  are exactly the printed forms of the safe integers, each read as the number it prints, so that a text
  above the safe range is rejected rather than rounded.\<close>

theorem canonical_int_roundtrip:
  "parseCanonicalInt s = Some n \<longleftrightarrow> s = show_nat n \<and> n \<le> MAX_SAFE_INTEGER"
  by (rule canonical_printed)

lemma canonical_positive: "parseCanonicalPositiveInt s = Some n \<longleftrightarrow> s = show_nat n \<and> 0 < n \<and> n \<le> MAX_SAFE_INTEGER"
proof (cases "parseCanonicalInt s")
  case None
  then show ?thesis using canonical_printed [of s n] by (simp add: parseCanonicalPositiveInt_def)
next
  case (Some m)
  then have "s = show_nat m" "m \<le> MAX_SAFE_INTEGER" using canonical_printed [of s m] by auto
  moreover have "show_nat m = show_nat n \<longleftrightarrow> m = n" by (metis dec_value_show)
  ultimately show ?thesis using Some by (auto simp: parseCanonicalPositiveInt_def)
qed

text \<open>The textual comparison compares the values, leading zeros included.\<close>

lemma strip_zeros_value: "dec_value (strip_zeros s) = dec_value s"
proof -
  have "dec_value (dropWhile (\<lambda>c. c = CHR ''0'') s) = dec_value s"
    by (induction s) (simp_all add: digit_value_zero)
  then show ?thesis by (cases "dropWhile (\<lambda>c. c = CHR ''0'') s") (simp_all add: strip_zeros_def Let_def digit_value_zero)
qed

lemma strip_zeros_canonical: "all_digits s \<Longrightarrow> CANONICAL_INT (strip_zeros s)"
proof -
  let ?t = "dropWhile (\<lambda>c. c = CHR ''0'') s"
  assume "all_digits s"
  then have "list_all is_digit ?t" unfolding all_digits_def list_all_iff by (meson set_dropWhileD)
  moreover have "?t \<noteq> [] \<Longrightarrow> hd ?t \<noteq> CHR ''0''" by (rule hd_dropWhile)
  ultimately show ?thesis unfolding strip_zeros_def Let_def CANONICAL_INT_def by presburger
qed

lemma canonical_less_iff:
  assumes "CANONICAL_INT s" "CANONICAL_INT t"
  shows "dec_value s < dec_value t \<longleftrightarrow> (if length s = length t then s < t else length s < length t)"
proof (cases "length s = length t")
  case True
  with dec_value_less_iff [OF True, of 0] canonical_digits [OF assms(1)] canonical_digits [OF assms(2)] show ?thesis by simp
next
  case False
  from canonical_shorter [OF assms] canonical_shorter [OF assms(2,1)] False show ?thesis
    by (cases "length s < length t") (auto simp: not_less)
qed

lemma decimalIntExceeds_iff:
  assumes "all_digits s" "0 \<le> limit" "safe_int limit"
  shows "decimalIntExceeds s limit \<longleftrightarrow> limit < int (dec_value s)"
proof -
  have cap: "show_int limit = show_nat (nat limit)" using assms(2) by (simp add: show_int_def)
  have "decimalIntExceeds s limit \<longleftrightarrow> dec_value (show_nat (nat limit)) < dec_value (strip_zeros s)"
    using assms by (simp add: decimalIntExceeds_def cap canonical_less_iff show_nat_canonical strip_zeros_canonical del: dec_value_show)
  then show ?thesis using assms(2) by (simp add: strip_zeros_value nat_less_iff)
qed

end
