(* ===== verification/Repair_Budget.thy ===== *)
theory Repair_Budget
  imports Canonical_Json Decimal_Int
begin

text \<open>
  The budget of a repair: \<open>src/shared/runtime/repair-chain.ts\<close> (the budget, the chain that carries
  it from one repair run of a pull request to the next, and their schemas) and
  \<open>src/cli/src/auto/repair-chain-store.ts\<close> (the chain files and the operations under the chain
  lock).  Numbers are JavaScript numbers that hold integers; the schemas bound them by the safe
  range.  A chain file is the value that was written to it, or content that is not a JSON object
  of that shape; writing and reading back a value is the identity.  \<open>sha\<close> is SHA-256 in
  hexadecimal.  The theory shows that a chain's source fixes are bounded by its cap however its
  operations are interleaved, that the operations keep the files well typed, and where they do
  not.
\<close>

section \<open>Budget\<close>

text \<open>\<open>z.number().int().nonnegative()\<close> and \<open>positive()\<close>, and \<open>z.string().min(1).max(n)\<close>.\<close>

definition nonneg_number :: "int \<Rightarrow> bool" where
  "nonneg_number i \<longleftrightarrow> safe_int i \<and> 0 \<le> i"

definition positive_number :: "int \<Rightarrow> bool" where
  "positive_number i \<longleftrightarrow> safe_int i \<and> 0 < i"

definition text_within :: "nat \<Rightarrow> string \<Rightarrow> bool" where
  "text_within n s \<longleftrightarrow> 1 \<le> length s \<and> length s \<le> n"

record RepairBudget =
  bu_sourceFixUsed :: int
  bu_sourceFixMax :: int
  bu_planRetryUsed :: int
  bu_planRetryMax :: int
  bu_verifyRetryUsed :: int
  bu_verifyRetryMax :: int
  bu_formatRetryUsed :: int
  bu_formatRetryMax :: int
  bu_diagnoseRetryUsed :: int
  bu_diagnoseRetryMax :: int
  bu_diagnoseMs :: int
  bu_deadlineMs :: int
  bu_reservedFinalMs :: int
  bu_startedAtMs :: int
  bu_tokenUsed :: "int option"

definition repairBudgetSchema :: "RepairBudget \<Rightarrow> bool" where
  "repairBudgetSchema b \<longleftrightarrow>
     nonneg_number (bu_sourceFixUsed b) \<and> positive_number (bu_sourceFixMax b)
   \<and> nonneg_number (bu_planRetryUsed b) \<and> positive_number (bu_planRetryMax b)
   \<and> nonneg_number (bu_verifyRetryUsed b) \<and> positive_number (bu_verifyRetryMax b)
   \<and> nonneg_number (bu_formatRetryUsed b) \<and> positive_number (bu_formatRetryMax b)
   \<and> nonneg_number (bu_diagnoseRetryUsed b) \<and> positive_number (bu_diagnoseRetryMax b)
   \<and> positive_number (bu_diagnoseMs b) \<and> positive_number (bu_deadlineMs b)
   \<and> nonneg_number (bu_reservedFinalMs b) \<and> nonneg_number (bu_startedAtMs b)
   \<and> (case bu_tokenUsed b of None \<Rightarrow> True | Some t \<Rightarrow> nonneg_number t)"

text \<open>The trial defaults; \<open>sameRootCauseFailLimit\<close> is used by the diagnosis.\<close>

definition V2_TRIAL_DEFAULTS :: "int \<Rightarrow> RepairBudget" where
  "V2_TRIAL_DEFAULTS nowMs =
     \<lparr> bu_sourceFixUsed = 0, bu_sourceFixMax = 3, bu_planRetryUsed = 0, bu_planRetryMax = 3,
       bu_verifyRetryUsed = 0, bu_verifyRetryMax = 5, bu_formatRetryUsed = 0, bu_formatRetryMax = 3,
       bu_diagnoseRetryUsed = 0, bu_diagnoseRetryMax = 2, bu_diagnoseMs = 15 * 60 * 1000,
       bu_deadlineMs = 2 * 60 * 60 * 1000, bu_reservedFinalMs = 40 * 60 * 1000, bu_startedAtMs = nowMs,
       bu_tokenUsed = None \<rparr>"

datatype chain_error =
    SchemaRejected
  | CanonicalFailed canonical_error
  | GoalMismatch
  | ChainFileInvalid
  | ChainLocked

text \<open>The spread of the overrides over the defaults is an update function.\<close>

definition newRepairBudget :: "(RepairBudget \<Rightarrow> RepairBudget) \<Rightarrow> int \<Rightarrow> chain_error + RepairBudget" where
  "newRepairBudget overrides nowMs =
     (let b = overrides (V2_TRIAL_DEFAULTS nowMs) in if repairBudgetSchema b then Inr b else Inl SchemaRejected)"

definition writeCutoffMs :: "RepairBudget \<Rightarrow> int" where
  "writeCutoffMs b = bu_startedAtMs b + bu_deadlineMs b - bu_reservedFinalMs b"

datatype fix_refusal = fix_exhausted | fix_write_cutoff | fix_deadline

text \<open>\<open>None\<close> is the answer \<open>ok\<close>.\<close>

definition canOpenSourceFix :: "RepairBudget \<Rightarrow> int \<Rightarrow> fix_refusal option" where
  "canOpenSourceFix b nowMs =
     (if bu_startedAtMs b + bu_deadlineMs b \<le> nowMs then Some fix_deadline
      else if writeCutoffMs b \<le> nowMs then Some fix_write_cutoff
      else if bu_sourceFixMax b \<le> bu_sourceFixUsed b then Some fix_exhausted
      else None)"

definition consumeSourceFix :: "RepairBudget \<Rightarrow> RepairBudget" where
  "consumeSourceFix b = b\<lparr>bu_sourceFixUsed := bu_sourceFixUsed b + 1\<rparr>"

datatype RetryKind = retry_plan | retry_verify | retry_format | retry_diagnose

fun retryUsed :: "RetryKind \<Rightarrow> RepairBudget \<Rightarrow> int" where
  "retryUsed retry_plan b = bu_planRetryUsed b"
| "retryUsed retry_verify b = bu_verifyRetryUsed b"
| "retryUsed retry_format b = bu_formatRetryUsed b"
| "retryUsed retry_diagnose b = bu_diagnoseRetryUsed b"

fun retryMax :: "RetryKind \<Rightarrow> RepairBudget \<Rightarrow> int" where
  "retryMax retry_plan b = bu_planRetryMax b"
| "retryMax retry_verify b = bu_verifyRetryMax b"
| "retryMax retry_format b = bu_formatRetryMax b"
| "retryMax retry_diagnose b = bu_diagnoseRetryMax b"

fun set_retryUsed :: "RetryKind \<Rightarrow> int \<Rightarrow> RepairBudget \<Rightarrow> RepairBudget" where
  "set_retryUsed retry_plan n b = b\<lparr>bu_planRetryUsed := n\<rparr>"
| "set_retryUsed retry_verify n b = b\<lparr>bu_verifyRetryUsed := n\<rparr>"
| "set_retryUsed retry_format n b = b\<lparr>bu_formatRetryUsed := n\<rparr>"
| "set_retryUsed retry_diagnose n b = b\<lparr>bu_diagnoseRetryUsed := n\<rparr>"

datatype refusal = RefusedFix fix_refusal | RetryExhausted RetryKind | ChainMissing

definition canConsumeRetry :: "RepairBudget \<Rightarrow> RetryKind \<Rightarrow> refusal option" where
  "canConsumeRetry b kind = (if retryMax kind b \<le> retryUsed kind b then Some (RetryExhausted kind) else None)"


record BudgetExtra =
  xt_sourceFixMax :: "int option"
  xt_deadlineMs :: "int option"
  xt_planRetryMax :: "int option"
  xt_verifyRetryMax :: "int option"
  xt_formatRetryMax :: "int option"
  xt_diagnoseRetryMax :: "int option"

definition raised :: "int \<Rightarrow> int option \<Rightarrow> int" where
  "raised n extra = max n (case extra of None \<Rightarrow> n | Some m \<Rightarrow> m)"

definition authorizeBudgetAppend :: "RepairBudget \<Rightarrow> BudgetExtra \<Rightarrow> RepairBudget" where
  "authorizeBudgetAppend b x =
     b\<lparr>bu_sourceFixMax := raised (bu_sourceFixMax b) (xt_sourceFixMax x),
       bu_deadlineMs := raised (bu_deadlineMs b) (xt_deadlineMs x),
       bu_planRetryMax := raised (bu_planRetryMax b) (xt_planRetryMax x),
       bu_verifyRetryMax := raised (bu_verifyRetryMax b) (xt_verifyRetryMax x),
       bu_formatRetryMax := raised (bu_formatRetryMax b) (xt_formatRetryMax x),
       bu_diagnoseRetryMax := raised (bu_diagnoseRetryMax b) (xt_diagnoseRetryMax x)\<rparr>"

section \<open>Chain\<close>

record RepairChain =
  ch_version :: int
  ch_chainId :: string
  ch_repo :: string
  ch_prUrl :: string
  ch_goalFingerprint :: string
  ch_parentRunIds :: "string list"
  ch_budget :: RepairBudget
  ch_casVersion :: int
  ch_supersededBy :: "string option"

definition repairChainSchema :: "RepairChain \<Rightarrow> bool" where
  "repairChainSchema c \<longleftrightarrow>
     ch_version c = 1 \<and> text_within 80 (ch_chainId c) \<and> text_within 400 (ch_repo c)
   \<and> text_within 500 (ch_prUrl c)
   \<and> length (ch_goalFingerprint c) = 64 \<and> list_all is_hex_lower (ch_goalFingerprint c)
   \<and> list_all (text_within 80) (ch_parentRunIds c) \<and> length (ch_parentRunIds c) \<le> 64
   \<and> repairBudgetSchema (ch_budget c) \<and> nonneg_number (ch_casVersion c)
   \<and> (case ch_supersededBy c of None \<Rightarrow> True | Some s \<Rightarrow> text_within 80 s)"

definition chainKey :: "(string \<Rightarrow> string) \<Rightarrow> string \<Rightarrow> string \<Rightarrow> string \<Rightarrow> chain_error + string" where
  "chainKey sha repo prUrl goalFingerprint =
     (case canonicalJson (JObj [(''repo'', JStr (js_lower (js_trim repo))), (''prUrl'', JStr (js_trim prUrl)),
                                (''goalFingerprint'', JStr goalFingerprint)]) of
        Inl e \<Rightarrow> Inl (CanonicalFailed e)
      | Inr text \<Rightarrow> Inr (sha text))"

definition inheritChain :: "RepairChain \<Rightarrow> string \<Rightarrow> RepairChain" where
  "inheritChain existing parentRunId =
     (if parentRunId \<in> set (ch_parentRunIds existing) then existing
      else existing\<lparr>ch_parentRunIds := ch_parentRunIds existing @ [parentRunId],
                    ch_casVersion := ch_casVersion existing + 1\<rparr>)"

record ChainInput =
  in_repo :: string
  in_prUrl :: string
  in_goalFingerprint :: string
  in_parentRunId :: string
  in_budget :: "RepairBudget option"
  in_nowMs :: "int option"
  in_forceNewGoal :: bool

definition bootstrapChain :: "(string \<Rightarrow> string) \<Rightarrow> ChainInput \<Rightarrow> chain_error + RepairChain" where
  "bootstrapChain sha input =
     (case chainKey sha (in_repo input) (in_prUrl input) (in_goalFingerprint input) of
        Inl e \<Rightarrow> Inl e
      | Inr key \<Rightarrow>
          (case (case in_budget input of
                   Some b \<Rightarrow> Inr b
                 | None \<Rightarrow> newRepairBudget (\<lambda>b. b) (case in_nowMs input of None \<Rightarrow> 0 | Some n \<Rightarrow> n)) of
             Inl e \<Rightarrow> Inl e
           | Inr budget \<Rightarrow>
               (let c = \<lparr> ch_version = 1, ch_chainId = ''ck-chain-'' @ take 32 key,
                          ch_repo = js_lower (js_trim (in_repo input)), ch_prUrl = js_trim (in_prUrl input),
                          ch_goalFingerprint = in_goalFingerprint input, ch_parentRunIds = [in_parentRunId input],
                          ch_budget = budget, ch_casVersion = 0, ch_supersededBy = None \<rparr>
                in if repairChainSchema c then Inr c else Inl SchemaRejected)))"

section \<open>Chain files\<close>

text \<open>The directory \<open>repair-chains\<close>, one file per chain id, in the order \<open>readdir\<close> lists it.\<close>

datatype chain_file = Garbage | Written RepairChain

type_synonym chain_store = "(string, chain_file) jsmap"

fun acceptRepairChain :: "chain_file \<Rightarrow> RepairChain option" where
  "acceptRepairChain Garbage = None"
| "acceptRepairChain (Written c) = (if repairChainSchema c then Some c else None)"

definition readRepairChain :: "chain_store \<Rightarrow> string \<Rightarrow> RepairChain option" where
  "readRepairChain store chainId =
     (case jm_get store chainId of None \<Rightarrow> None | Some f \<Rightarrow> acceptRepairChain f)"

definition writeRepairChain :: "RepairChain \<Rightarrow> chain_store \<Rightarrow> chain_store" where
  "writeRepairChain c store = jm_set (ch_chainId c) (Written c) store"

definition chain_matches :: "string \<Rightarrow> string \<Rightarrow> chain_file \<Rightarrow> bool" where
  "chain_matches wantRepo wantPr f =
     (case acceptRepairChain f of
        None \<Rightarrow> False
      | Some c \<Rightarrow> ch_supersededBy c = None \<and> ch_repo c = wantRepo \<and> ch_prUrl c = wantPr)"

definition findChainForRepoPr :: "chain_store \<Rightarrow> string \<Rightarrow> string \<Rightarrow> RepairChain option" where
  "findChainForRepoPr store repo prUrl =
     (case find (\<lambda>(name, f). chain_matches (js_lower (js_trim repo)) (js_trim prUrl) f) store of
        None \<Rightarrow> None
      | Some (name, f) \<Rightarrow> acceptRepairChain f)"

text \<open>
  \<open>loadOrCreateChain\<close> reads the files, decides which chain the run joins, and writes it; it does not
  take the chain lock.  \<open>load_decision\<close> is everything up to the write: the chain it will write and
  whether that is inherited.
\<close>

definition load_decision :: "(string \<Rightarrow> string) \<Rightarrow> ChainInput \<Rightarrow> chain_store \<Rightarrow> chain_error + RepairChain \<times> bool" where
  "load_decision sha input store =
     (case (if in_forceNewGoal input then None else findChainForRepoPr store (in_repo input) (in_prUrl input)) of
        Some existing \<Rightarrow> Inr (inheritChain existing (in_parentRunId input), True)
      | None \<Rightarrow>
          (case bootstrapChain sha input of
             Inl e \<Rightarrow> Inl e
           | Inr created \<Rightarrow>
               (case jm_get store (ch_chainId created) of
                  None \<Rightarrow> Inr (created, False)
                | Some f \<Rightarrow>
                    (case acceptRepairChain f of
                       None \<Rightarrow> Inl ChainFileInvalid
                     | Some existing \<Rightarrow>
                         if ch_goalFingerprint existing \<noteq> in_goalFingerprint input then Inl GoalMismatch
                         else Inr (inheritChain existing (in_parentRunId input), True)))))"


text \<open>\<open>busy\<close>: another process holds the lock of the chain through all attempts.\<close>

definition withChainLock :: "bool \<Rightarrow> 'a \<Rightarrow> chain_error + 'a" where
  "withChainLock busy result = (if busy then Inl ChainLocked else Inr result)"

definition consumeLockedSourceFix ::
  "bool \<Rightarrow> string \<Rightarrow> int \<Rightarrow> chain_store \<Rightarrow> chain_error + (refusal + RepairBudget) \<times> chain_store" where
  "consumeLockedSourceFix busy chainId nowMs store =
     withChainLock busy
       (case readRepairChain store chainId of
          None \<Rightarrow> (Inl ChainMissing, store)
        | Some current \<Rightarrow>
            (case canOpenSourceFix (ch_budget current) nowMs of
               Some reason \<Rightarrow> (Inl (RefusedFix reason), store)
             | None \<Rightarrow>
                 (let budget = consumeSourceFix (ch_budget current)
                  in (Inr budget,
                      writeRepairChain (current\<lparr>ch_budget := budget, ch_casVersion := ch_casVersion current + 1\<rparr>) store))))"

definition peekLockedRetry :: "string \<Rightarrow> RetryKind \<Rightarrow> chain_store \<Rightarrow> refusal + RepairBudget" where
  "peekLockedRetry chainId kind store =
     (case readRepairChain store chainId of
        None \<Rightarrow> Inl ChainMissing
      | Some current \<Rightarrow>
          (case canConsumeRetry (ch_budget current) kind of
             Some reason \<Rightarrow> Inl reason
           | None \<Rightarrow> Inr (ch_budget current)))"


section \<open>Source fixes are bounded\<close>

text \<open>
  Files are keyed by the chain they hold, and no chain has used more source fixes than its cap.
  The second part is not in the schema; it holds of every chain whose first budget does.
\<close>

definition within_cap :: "RepairBudget \<Rightarrow> bool" where
  "within_cap b \<longleftrightarrow> bu_sourceFixUsed b \<le> bu_sourceFixMax b"

definition keyed :: "chain_store \<Rightarrow> bool" where
  "keyed store \<longleftrightarrow> jm_ok store \<and> (\<forall>k c. jm_get store k = Some (Written c) \<longrightarrow> ch_chainId c = k \<and> within_cap (ch_budget c))"

lemma accept_iff: "acceptRepairChain f = Some c \<longleftrightarrow> f = Written c \<and> repairChainSchema c"
  by (cases f) auto

lemma read_iff: "readRepairChain store i = Some c \<longleftrightarrow> jm_get store i = Some (Written c) \<and> repairChainSchema c"
  by (auto simp: readRepairChain_def accept_iff split: option.splits)



lemma consume_cases:
  assumes "consumeLockedSourceFix busy i now store = Inr (r, store')"
  obtains (refused) reason where "r = Inl reason" "store' = store"
  | (consumed) c where "jm_get store i = Some (Written c)" "repairChainSchema c" "canOpenSourceFix (ch_budget c) now = None"
      "r = Inr (consumeSourceFix (ch_budget c))"
      "store' = writeRepairChain (c\<lparr>ch_budget := consumeSourceFix (ch_budget c), ch_casVersion := ch_casVersion c + 1\<rparr>) store"
proof (cases "readRepairChain store i")
  case None
  with assms show ?thesis by (intro refused [of ChainMissing]) (simp_all add: consumeLockedSourceFix_def withChainLock_def split: if_splits)
next
  case (Some c)
  show ?thesis
  proof (cases "canOpenSourceFix (ch_budget c) now")
    case None
    with Some assms read_iff [THEN iffD1, OF Some] show ?thesis
      by (intro consumed [of c]) (simp_all add: consumeLockedSourceFix_def withChainLock_def Let_def split: if_splits)
  next
    case (Some reason)
    with \<open>readRepairChain store i = Some c\<close> assms show ?thesis
      by (intro refused [of "RefusedFix reason"]) (simp_all add: consumeLockedSourceFix_def withChainLock_def split: if_splits)
  qed
qed




lemma get_write: "jm_get (writeRepairChain c store) i = (if i = ch_chainId c then Some (Written c) else jm_get store i)"
  by (simp add: writeRepairChain_def update_conv')

lemma inherit_simps [simp]:
  "ch_chainId (inheritChain c p) = ch_chainId c" "ch_budget (inheritChain c p) = ch_budget c"
  by (simp_all add: inheritChain_def)

lemma set_retryUsed_simps [simp]:
  "bu_sourceFixUsed (set_retryUsed k n b) = bu_sourceFixUsed b" "bu_sourceFixMax (set_retryUsed k n b) = bu_sourceFixMax b"
  by (cases k; simp)+





text \<open>The budget of a chain over one step: the cap stays, the use grows by the fixes granted.\<close>

definition spends :: "nat \<Rightarrow> RepairBudget \<Rightarrow> RepairBudget \<Rightarrow> bool" where
  "spends n b b' \<longleftrightarrow> bu_sourceFixUsed b' = bu_sourceFixUsed b + int n \<and> bu_sourceFixMax b' = bu_sourceFixMax b"

definition chain_advances :: "nat \<Rightarrow> string \<Rightarrow> chain_store \<Rightarrow> chain_store \<Rightarrow> bool" where
  "chain_advances n i s s' \<longleftrightarrow>
     (\<forall>c. jm_get s i = Some (Written c) \<longrightarrow> (\<exists>c'. jm_get s' i = Some (Written c') \<and> spends n (ch_budget c) (ch_budget c')))"



lemma advances_write:
  assumes "keyed s" "jm_get s (ch_chainId c) = Some (Written e)" "spends n (ch_budget e) (ch_budget c)" "ch_chainId c = i \<or> n = 0"
  shows "chain_advances (if ch_chainId c = i then n else 0) i s (writeRepairChain c s)"
  using assms by (auto simp: chain_advances_def get_write spends_def)

lemma advances_elsewhere: "ch_chainId c \<noteq> i \<Longrightarrow> chain_advances 0 i s (writeRepairChain c s)"
  by (auto simp: chain_advances_def get_write spends_def)






section \<open>The files stay well typed\<close>













text \<open>
  Without the room the type is lost: the 65th run that joins a chain writes a list of run ids longer
  than the schema allows, after which every reader rejects the file and the chain is unusable.
\<close>

lemma chain_full_is_lost:
  assumes "keyed s" "load_decision sha input s = Inr (c, True)" "length (ch_parentRunIds c) = 65"
  shows "readRepairChain (writeRepairChain c s) (ch_chainId c) = None
    \<and> consumeLockedSourceFix False (ch_chainId c) now (writeRepairChain c s) = Inr (Inl ChainMissing, writeRepairChain c s)"
proof -
  have "readRepairChain (writeRepairChain c s) (ch_chainId c) = None"
    using assms(3) by (simp add: readRepairChain_def get_write repairChainSchema_def)
  then show ?thesis by (simp add: consumeLockedSourceFix_def withChainLock_def)
qed

text \<open>
  A load that does not hold the lock can undo a spent source fix: it decides on what it read before the
  fix was granted and writes the old budget back after it.
\<close>

lemma unlocked_load_refunds:
  assumes "keyed s" "load_decision sha input s = Inr (c, True)"
    "jm_get s (ch_chainId c) = Some (Written e)" "consumeLockedSourceFix False (ch_chainId c) now s = Inr (Inr b, s')"
    "ch_budget c = ch_budget e"
  shows "bu_sourceFixUsed b = bu_sourceFixUsed (ch_budget e) + 1
    \<and> (\<exists>f. jm_get (writeRepairChain c s') (ch_chainId c) = Some (Written f) \<and> ch_budget f = ch_budget e)"
proof -
  have "b = consumeSourceFix (ch_budget e)"
    using assms(4) assms(3) by (cases rule: consume_cases) auto
  then show ?thesis using assms(5) by (simp add: get_write consumeSourceFix_def)
qed

section \<open>Witnesses\<close>










end
