(* ===== verification/Repair_Execution.thy ===== *)
theory Repair_Execution
  imports Repair_Budget
begin

text \<open>
  Repair executions: \<open>src/shared/runtime/repair-execution.ts\<close> (the record of one execution of a repair
  and its transitions), \<open>src/cli/src/auto/repair-deadline-supervisor.ts\<close> (the record's file, the lock
  under which it is replaced, and the detached supervisor that stops the writers at the deadline) and
  the binding of writer processes in \<open>src/cli/src/auto/repair-run.ts\<close>.  Other processes act between
  the supervisor's reads and writes; they are functions of the turn of its loop, as are the clock and
  what the operating system answers about processes.  The theory shows that a finished execution
  stays finished, that the deadline is certified only over dead writers, and when the supervisor ends.
\<close>

section \<open>Executions\<close>

datatype ExecutionKind =
    kind_source_fix | kind_verify | kind_format | kind_diagnose | kind_plan | kind_publish | kind_final_review

datatype RepairState =
    xs_intent | xs_reserved | xs_started | xs_running
  | xs_completed | xs_failed | xs_cancelled | xs_deadline_enforced | xs_unknown_writer

datatype RepairResult = result_ok | result_failed | result_no_commit | result_cancelled

definition isTerminalRepairExecution :: "RepairState \<Rightarrow> bool" where
  "isTerminalRepairExecution s \<longleftrightarrow>
     s = xs_completed \<or> s = xs_failed \<or> s = xs_cancelled \<or> s = xs_deadline_enforced"

record RepairExecution =
  re_executionId :: string
  re_kind :: ExecutionKind
  re_state :: RepairState
  re_chainId :: string
  re_parentRunId :: string
  re_inputSha :: "string option"
  re_contractVersion :: int
  re_deadlineAtMs :: int
  re_pids :: "int list"
  re_startedAtMs :: "int option"
  re_endedAtMs :: "int option"
  re_consumedSourceFix :: bool
  re_result :: "RepairResult option"

definition opt_within :: "('a \<Rightarrow> bool) \<Rightarrow> 'a option \<Rightarrow> bool" where
  "opt_within P x \<longleftrightarrow> (case x of None \<Rightarrow> True | Some y \<Rightarrow> P y)"

definition repairExecutionSchema :: "RepairExecution \<Rightarrow> bool" where
  "repairExecutionSchema e \<longleftrightarrow>
     text_within 80 (re_executionId e) \<and> text_within 80 (re_chainId e) \<and> text_within 80 (re_parentRunId e)
   \<and> opt_within (text_within 64) (re_inputSha e) \<and> positive_number (re_contractVersion e)
   \<and> nonneg_number (re_deadlineAtMs e) \<and> list_all positive_number (re_pids e) \<and> length (re_pids e) \<le> 16
   \<and> opt_within nonneg_number (re_startedAtMs e) \<and> opt_within nonneg_number (re_endedAtMs e)"

definition createExecutionIntent ::
  "string \<Rightarrow> ExecutionKind \<Rightarrow> string \<Rightarrow> string \<Rightarrow> string option \<Rightarrow> int \<Rightarrow> int \<Rightarrow> RepairExecution option" where
  "createExecutionIntent executionId kind chainId parentRunId inputSha contractVersion deadlineAtMs =
     (let e = \<lparr> re_executionId = executionId, re_kind = kind, re_state = xs_intent, re_chainId = chainId,
                re_parentRunId = parentRunId, re_inputSha = inputSha, re_contractVersion = contractVersion,
                re_deadlineAtMs = deadlineAtMs, re_pids = [], re_startedAtMs = None, re_endedAtMs = None,
                re_consumedSourceFix = (kind = kind_source_fix), re_result = None \<rparr>
      in if repairExecutionSchema e then Some e else None)"

datatype replay_refusal = ExecutionIdMismatch | PayloadDrifted

definition replayExecution :: "RepairExecution option \<Rightarrow> RepairExecution \<Rightarrow> replay_refusal + RepairExecution" where
  "replayExecution existing requested =
     (case existing of
        None \<Rightarrow> Inr requested
      | Some e \<Rightarrow>
          if re_executionId e \<noteq> re_executionId requested then Inl ExecutionIdMismatch
          else if re_kind e \<noteq> re_kind requested \<or> re_chainId e \<noteq> re_chainId requested
               \<or> re_parentRunId e \<noteq> re_parentRunId requested \<or> re_inputSha e \<noteq> re_inputSha requested
               \<or> re_contractVersion e \<noteq> re_contractVersion requested then Inl PayloadDrifted
          else Inr e)"

datatype writer_refusal = writer_unknown | writer_alive | already_terminal

definition canStartWriter :: "RepairExecution option \<Rightarrow> bool \<Rightarrow> bool \<Rightarrow> writer_refusal option" where
  "canStartWriter existing writerKnown writerAlive =
     (case existing of
        None \<Rightarrow> None
      | Some e \<Rightarrow>
          if isTerminalRepairExecution (re_state e) then Some already_terminal
          else if re_pids e = [] then None
          else if \<not> writerKnown then Some writer_unknown
          else if writerAlive \<and> (re_state e = xs_running \<or> re_state e = xs_started) then Some writer_alive
          else None)"

definition takeOverExecution :: "RepairExecution \<Rightarrow> int list \<Rightarrow> int \<Rightarrow> RepairExecution" where
  "takeOverExecution e pids nowMs =
     (if isTerminalRepairExecution (re_state e) then e
      else e\<lparr>re_state := xs_running, re_pids := pids,
             re_startedAtMs := Some (case re_startedAtMs e of None \<Rightarrow> nowMs | Some t \<Rightarrow> t)\<rparr>)"

definition markExecutionStarted :: "RepairExecution \<Rightarrow> int list \<Rightarrow> int \<Rightarrow> RepairExecution" where
  "markExecutionStarted e pids nowMs =
     (if isTerminalRepairExecution (re_state e) then e
      else e\<lparr>re_state := xs_started, re_pids := pids, re_startedAtMs := Some nowMs\<rparr>)"

definition finishExecution :: "RepairExecution \<Rightarrow> RepairResult \<Rightarrow> int \<Rightarrow> RepairExecution" where
  "finishExecution e result nowMs =
     (if isTerminalRepairExecution (re_state e) then e
      else e\<lparr>re_state := (case result of result_ok \<Rightarrow> xs_completed | result_cancelled \<Rightarrow> xs_cancelled | _ \<Rightarrow> xs_failed),
             re_result := Some result, re_endedAtMs := Some nowMs\<rparr>)"

definition enforceDeadline :: "RepairExecution \<Rightarrow> int \<Rightarrow> bool \<times> RepairExecution" where
  "enforceDeadline e nowMs =
     (if nowMs < re_deadlineAtMs e then (False, e)
      else if isTerminalRepairExecution (re_state e) then (False, e)
      else (True, e))"

definition certifyDeadlineEnforced :: "RepairExecution \<Rightarrow> int \<Rightarrow> RepairExecution" where
  "certifyDeadlineEnforced e nowMs =
     (if isTerminalRepairExecution (re_state e) then e
      else e\<lparr>re_state := xs_deadline_enforced, re_result := Some result_cancelled, re_endedAtMs := Some nowMs\<rparr>)"

definition markUnknownWriter :: "RepairExecution \<Rightarrow> RepairExecution" where
  "markUnknownWriter e =
     (if isTerminalRepairExecution (re_state e) then e
      else e\<lparr>re_state := xs_unknown_writer, re_result := None, re_endedAtMs := None\<rparr>)"

definition countsAsSourceFixDispatch :: "RepairExecution \<Rightarrow> bool" where
  "countsAsSourceFixDispatch e =
     (if \<not> re_consumedSourceFix e then False
      else if re_state e = xs_intent \<or> re_state e = xs_reserved then True
      else re_result e \<noteq> None \<or> re_state e = xs_deadline_enforced)"

definition isInfrastructureRecovery :: "bool \<Rightarrow> bool \<Rightarrow> bool" where
  "isInfrastructureRecovery hadValidSourceFailure isRestartSameExecutionId =
     (if hadValidSourceFailure then False else isRestartSameExecutionId)"

section \<open>The record disk\<close>

text \<open>A missing file, content that is not a JSON object of the shape, or what was written.\<close>

datatype 'a json_file = NoFile | Unreadable | Stored 'a

type_synonym record_file = "RepairExecution json_file"

fun readExecutionRecord :: "record_file \<Rightarrow> RepairExecution option" where
  "readExecutionRecord NoFile = None"
| "readExecutionRecord Unreadable = None"
| "readExecutionRecord (Stored e) = (if repairExecutionSchema e then Some e else None)"

datatype record_error = RecordLockBusy | UnknownPreviousWriter | RecordMissing

text \<open>
  \<open>decide\<close> may throw; \<open>busy\<close> is a lock that stays taken past the waiting time.  The result says whether
  the file was written, and the execution it now holds for the caller.
\<close>

definition decideExecutionRecord ::
  "bool \<Rightarrow> (RepairExecution option \<Rightarrow> record_error + RepairExecution option) \<Rightarrow> record_file
   \<Rightarrow> record_error + (bool \<times> RepairExecution option) \<times> record_file" where
  "decideExecutionRecord busy decide disk =
     (if busy then Inl RecordLockBusy
      else case readExecutionRecord disk of
        Some existing \<Rightarrow>
          if isTerminalRepairExecution (re_state existing) then Inr ((False, Some existing), disk)
          else (case decide (Some existing) of
                  Inl e \<Rightarrow> Inl e
                | Inr None \<Rightarrow> Inr ((False, Some existing), disk)
                | Inr (Some next) \<Rightarrow> Inr ((True, Some next), Stored next))
      | None \<Rightarrow>
          (case decide None of
             Inl e \<Rightarrow> Inl e
           | Inr None \<Rightarrow> Inr ((False, None), disk)
           | Inr (Some next) \<Rightarrow> Inr ((True, Some next), Stored next)))"

definition writeExecutionRecord :: "bool \<Rightarrow> RepairExecution \<Rightarrow> record_file \<Rightarrow> record_error + record_file" where
  "writeExecutionRecord busy e disk = map_sum (\<lambda>x. x) snd (decideExecutionRecord busy (\<lambda>_. Inr (Some e)) disk)"

text \<open>\<open>bindExecutionPids\<close> of repair-run.ts: record the processes of a writer that was launched.\<close>

datatype bind_status = bind_absent | bind_bound | bind_already_terminal RepairState

definition bindExecutionPids ::
  "bool \<Rightarrow> int list \<Rightarrow> int \<Rightarrow> bool \<Rightarrow> record_file \<Rightarrow> record_error + bind_status \<times> record_file" where
  "bindExecutionPids busy pids nowMs publish disk =
     (case decideExecutionRecord busy
             (\<lambda>existing. case existing of
                None \<Rightarrow> Inr None
              | Some e \<Rightarrow>
                  if \<not> publish then Inr None
                  else (case canStartWriter (Some e) (pids \<noteq> [] \<or> re_pids e = []) False of
                          Some writer_unknown \<Rightarrow> Inl UnknownPreviousWriter
                        | Some _ \<Rightarrow> Inr None
                        | None \<Rightarrow> Inr (Some (markExecutionStarted e (if pids \<noteq> [] then pids else re_pids e) nowMs))))
             disk of
        Inl err \<Rightarrow> Inl err
      | Inr ((_, None), disk') \<Rightarrow> Inr (bind_absent, disk')
      | Inr ((_, Some e), disk') \<Rightarrow>
          Inr (if isTerminalRepairExecution (re_state e) then bind_already_terminal (re_state e) else bind_bound, disk'))"

section \<open>The supervisor\<close>

text \<open>
  What the operating system answers during one attempt to stop the writers: which processes are
  alive during the pass of SIGTERM, at the check after it, during the pass of SIGKILL and at the
  check after that; and for which process a signal fails.
\<close>

record kill_env =
  kv_alive_term :: "int \<Rightarrow> bool"
  kv_alive_check :: "int \<Rightarrow> bool"
  kv_alive_kill :: "int \<Rightarrow> bool"
  kv_alive_final :: "int \<Rightarrow> bool"
  kv_kill_fails :: "int \<Rightarrow> bool"

definition stop_failed :: "(int \<Rightarrow> bool) \<Rightarrow> (int \<Rightarrow> bool) \<Rightarrow> int list \<Rightarrow> bool" where
  "stop_failed alive fails pids \<longleftrightarrow> list_ex (\<lambda>p. alive p \<and> fails p) pids"

definition superviseDeadlineOnce :: "kill_env \<Rightarrow> int \<Rightarrow> RepairExecution \<Rightarrow> RepairExecution" where
  "superviseDeadlineOnce env nowMs execution =
     (case enforceDeadline execution nowMs of
        (due, e) \<Rightarrow>
          if \<not> due then e
          else if re_pids execution = [] then markUnknownWriter execution
          else if list_all (\<lambda>p. \<not> kv_alive_check env p) (re_pids execution)
            then certifyDeadlineEnforced execution nowMs
          else if \<not> stop_failed (kv_alive_kill env) (kv_kill_fails env) (re_pids execution)
                  \<and> list_all (\<lambda>p. \<not> kv_alive_final env p) (re_pids execution)
            then certifyDeadlineEnforced execution nowMs
          else markUnknownWriter execution)"

text \<open>The signals one attempt sends, in order.\<close>

datatype signal = SIGTERM | SIGKILL

definition signals_sent :: "kill_env \<Rightarrow> int \<Rightarrow> RepairExecution \<Rightarrow> (int \<times> signal) list" where
  "signals_sent env nowMs execution =
     (if \<not> fst (enforceDeadline execution nowMs) \<or> re_pids execution = [] then []
      else map (\<lambda>p. (p, SIGTERM)) (filter (kv_alive_term env) (re_pids execution))
        @ (if list_all (\<lambda>p. \<not> kv_alive_check env p) (re_pids execution) then []
           else map (\<lambda>p. (p, SIGKILL)) (filter (kv_alive_kill env) (re_pids execution))))"

text \<open>
  \<open>next === existing\<close> compares references: it is true exactly when the deadline is not due, since
  every other branch builds a new object (the record read is not terminal here).
\<close>

definition commitDeadlineIfDue ::
  "bool \<Rightarrow> kill_env \<Rightarrow> int \<Rightarrow> record_file \<Rightarrow> record_error + RepairExecution option \<times> record_file" where
  "commitDeadlineIfDue busy env nowMs disk =
     (case decideExecutionRecord busy
             (\<lambda>existing. case existing of
                None \<Rightarrow> Inr None
              | Some e \<Rightarrow> if \<not> fst (enforceDeadline e nowMs) then Inr None
                          else Inr (Some (superviseDeadlineOnce env nowMs e)))
             disk of
        Inl err \<Rightarrow> Inl err
      | Inr ((_, execution), disk') \<Rightarrow> Inr (execution, disk'))"

text \<open>How long the loop sleeps: \<open>Math.min(Math.max(20, deadline - now), 1000)\<close>.\<close>

definition sleepMs :: "RepairExecution \<Rightarrow> int \<Rightarrow> int" where
  "sleepMs e nowMs = min (max 20 (re_deadlineAtMs e - nowMs)) 1000"

text \<open>
  The surroundings of the loop, by its turn: the clock at the top of the turn, whether the record
  lock is busy, the operating system, and what other processes do to the file before the attempt
  and during the sleep.
\<close>

record supervisor_env =
  se_clock :: "nat \<Rightarrow> int"
  se_busy :: "nat \<Rightarrow> bool"
  se_kill :: "nat \<Rightarrow> kill_env"
  se_before :: "nat \<Rightarrow> record_file \<Rightarrow> record_file"
  se_asleep :: "nat \<Rightarrow> record_file \<Rightarrow> record_file"

text \<open>One turn: \<open>Inl\<close> ends the loop with the function's outcome, \<open>Inr\<close> goes to sleep.\<close>

definition supervisor_turn ::
  "supervisor_env \<Rightarrow> nat \<Rightarrow> record_file \<Rightarrow> ((record_error + RepairExecution) \<times> record_file) + record_file" where
  "supervisor_turn env k disk =
     (case readExecutionRecord disk of
        None \<Rightarrow> Inl (Inl RecordMissing, disk)
      | Some execution \<Rightarrow>
          if isTerminalRepairExecution (re_state execution) then Inl (Inr execution, disk)
          else if se_clock env k < re_deadlineAtMs execution then Inr disk
          else (case commitDeadlineIfDue (se_busy env k) (se_kill env k) (se_clock env k) (se_before env k disk) of
                  Inl err \<Rightarrow> Inl (Inl err, se_before env k disk)
                | Inr (None, disk') \<Rightarrow> Inl (Inl RecordMissing, disk')
                | Inr (Some persisted, disk') \<Rightarrow>
                    if isTerminalRepairExecution (re_state persisted) then Inl (Inr persisted, disk')
                    else Inr disk'))"

text \<open>\<open>runDeadlineSupervisorLoop\<close>; \<open>None\<close> is a loop that never ends.\<close>

partial_function (option) runDeadlineSupervisorLoop ::
  "supervisor_env \<Rightarrow> nat \<Rightarrow> record_file \<Rightarrow> ((record_error + RepairExecution) \<times> record_file) option" where
  "runDeadlineSupervisorLoop env k disk =
     (case supervisor_turn env k disk of
        Inl outcome \<Rightarrow> Some outcome
      | Inr disk' \<Rightarrow> runDeadlineSupervisorLoop env (k + 1) (se_asleep env k disk'))"

section \<open>Finished executions\<close>

lemma decide_terminal:
  assumes "readExecutionRecord disk = Some e" "isTerminalRepairExecution (re_state e)"
    "decideExecutionRecord busy decide disk = Inr (r, disk')"
  shows "disk' = disk \<and> r = (False, Some e)"
  using assms by (auto simp: decideExecutionRecord_def split: if_splits)

lemma decide_cases:
  assumes "decideExecutionRecord busy decide disk = Inr (r, disk')"
  obtains (kept) "disk' = disk" "r = (False, readExecutionRecord disk)"
  | (written) x where "disk' = Stored x" "r = (True, Some x)" "decide (readExecutionRecord disk) = Inr (Some x)"
      "\<forall>e. readExecutionRecord disk = Some e \<longrightarrow> \<not> isTerminalRepairExecution (re_state e)"
  using assms
  by (auto simp: decideExecutionRecord_def split: if_splits option.splits sum.splits)

text \<open>The transitions keep a finished execution, whatever they are applied to.\<close>

lemma transitions_keep_terminal:
  assumes "isTerminalRepairExecution (re_state e)"
  shows "takeOverExecution e ps now = e" "markExecutionStarted e ps now = e" "finishExecution e res now = e"
    "enforceDeadline e now = (False, e)" "certifyDeadlineEnforced e now = e" "markUnknownWriter e = e"
    "superviseDeadlineOnce env now e = e" "canStartWriter (Some e) known alive = Some already_terminal"
  using assms
  by (simp_all add: takeOverExecution_def markExecutionStarted_def finishExecution_def enforceDeadline_def
      certifyDeadlineEnforced_def markUnknownWriter_def superviseDeadlineOnce_def canStartWriter_def)

text \<open>What any process does to the record file: replace it, bind the writer, enforce the deadline.\<close>

inductive record_step :: "record_file \<Rightarrow> record_file \<Rightarrow> bool" where
  record_write: "writeExecutionRecord busy e f = Inr f' \<Longrightarrow> record_step f f'"
| record_bind: "bindExecutionPids busy pids now publish f = Inr (status, f') \<Longrightarrow> record_step f f'"
| record_deadline: "commitDeadlineIfDue busy env now f = Inr (x, f') \<Longrightarrow> record_step f f'"

inductive_cases record_stepE: "record_step f f'"

lemma step_decides:
  assumes "record_step f f'"
  shows "\<exists>busy decide r. decideExecutionRecord busy decide f = Inr (r, f')"
  using assms
proof cases
  case (record_write busy e)
  then obtain r where "decideExecutionRecord busy (\<lambda>_. Inr (Some e)) f = Inr (r, f')"
    by (cases "decideExecutionRecord busy (\<lambda>_. Inr (Some e)) f") (auto simp: writeExecutionRecord_def)
  then show ?thesis by blast
next
  case (record_bind busy pids now publish status)
  let ?decide = "\<lambda>existing. case existing of
      None \<Rightarrow> Inr None
    | Some e \<Rightarrow>
        if \<not> publish then Inr None
        else (case canStartWriter (Some e) (pids \<noteq> [] \<or> re_pids e = []) False of
                Some writer_unknown \<Rightarrow> Inl UnknownPreviousWriter
              | Some _ \<Rightarrow> Inr None
              | None \<Rightarrow> Inr (Some (markExecutionStarted e (if pids \<noteq> [] then pids else re_pids e) now)))"
  from record_bind obtain r where "decideExecutionRecord busy ?decide f = Inr (r, f')"
    unfolding bindExecutionPids_def
    by (cases "decideExecutionRecord busy ?decide f") (auto split: option.splits)
  then show ?thesis by blast
next
  case (record_deadline busy env now x)
  let ?decide = "\<lambda>existing. case existing of
      None \<Rightarrow> Inr None
    | Some e \<Rightarrow> if \<not> fst (enforceDeadline e now) then Inr None else Inr (Some (superviseDeadlineOnce env now e))"
  from record_deadline obtain r where "decideExecutionRecord busy ?decide f = Inr (r, f')"
    unfolding commitDeadlineIfDue_def
    by (cases "decideExecutionRecord busy ?decide f") auto
  then show ?thesis by blast
qed

text \<open>A finished execution stays finished: once the record holds one, whatever the repair process, the
  detached supervisor and any other process do to it afterwards leaves the file as it is, and a writer
  that asks to start is told that the execution is over.\<close>

theorem finished_execution_is_final:
  assumes "readExecutionRecord disk = Some e" "isTerminalRepairExecution (re_state e)" "record_step\<^sup>*\<^sup>* disk disk'"
  shows "disk' = disk \<and> bindExecutionPids False pids now publish disk' = Inr (bind_already_terminal (re_state e), disk')
    \<and> commitDeadlineIfDue False env now disk' = Inr (Some e, disk')"
proof -
  have "disk' = disk"
    using assms(3)
  proof (induction rule: rtranclp_induct)
    case (step f f')
    from step_decides [OF step(2)] decide_terminal assms(1,2) step(3) show ?case by metis
  qed simp
  with assms(1,2) show ?thesis
    by (simp add: bindExecutionPids_def commitDeadlineIfDue_def decideExecutionRecord_def)
qed

section \<open>The deadline\<close>

lemma supervise_cases:
  assumes "\<not> isTerminalRepairExecution (re_state e)"
  obtains (early) "now < re_deadlineAtMs e" "superviseDeadlineOnce env now e = e"
  | (no_writer) "re_deadlineAtMs e \<le> now" "re_pids e = []" "superviseDeadlineOnce env now e = markUnknownWriter e"
  | (dead) "re_deadlineAtMs e \<le> now" "re_pids e \<noteq> []"
      "(\<forall>p\<in>set (re_pids e). \<not> kv_alive_check env p)
       \<or> (\<forall>p\<in>set (re_pids e). \<not> kv_alive_final env p \<and> \<not> (kv_alive_kill env p \<and> kv_kill_fails env p))"
      "superviseDeadlineOnce env now e = certifyDeadlineEnforced e now"
  | (resisting) "re_deadlineAtMs e \<le> now" "\<exists>p\<in>set (re_pids e). kv_alive_check env p"
      "\<exists>p\<in>set (re_pids e). kv_alive_final env p \<or> (kv_alive_kill env p \<and> kv_kill_fails env p)"
      "superviseDeadlineOnce env now e = markUnknownWriter e"
proof -
  note def = superviseDeadlineOnce_def enforceDeadline_def stop_failed_def list_all_iff list_ex_iff
  consider "now < re_deadlineAtMs e" | "re_deadlineAtMs e \<le> now" "re_pids e = []"
    | "re_deadlineAtMs e \<le> now" "re_pids e \<noteq> []" by linarith
  then show thesis
  proof cases
    case 1
    then show ?thesis by (intro early) (simp_all add: def)
  next
    case 2
    then show ?thesis using assms by (intro no_writer) (simp_all add: def)
  next
    case 3
    let ?dead = "(\<forall>p\<in>set (re_pids e). \<not> kv_alive_check env p)
       \<or> (\<forall>p\<in>set (re_pids e). \<not> kv_alive_final env p \<and> \<not> (kv_alive_kill env p \<and> kv_kill_fails env p))"
    show ?thesis
    proof (cases ?dead)
      case True
      with 3 assms show ?thesis by (intro dead) (auto simp: def)
    next
      case False
      with 3 assms show ?thesis by (intro resisting) (auto simp: def)
    qed
  qed
qed

text \<open>Only over dead writers: the certificate is written past the deadline, of an execution that has
  writers, when at the last look none of them was alive.\<close>

lemma certified_over_dead_writers:
  assumes "\<not> isTerminalRepairExecution (re_state e)" "re_state (superviseDeadlineOnce env now e) = xs_deadline_enforced"
  shows "re_deadlineAtMs e \<le> now \<and> re_pids e \<noteq> []
    \<and> ((\<forall>p\<in>set (re_pids e). \<not> kv_alive_check env p) \<or> (\<forall>p\<in>set (re_pids e). \<not> kv_alive_final env p))"
  using assms(1)
  by (cases rule: supervise_cases [where env = env and now = now])
    (use assms in \<open>auto simp: markUnknownWriter_def isTerminalRepairExecution_def\<close>)

section \<open>The supervisor ends\<close>



lemma markUnknownWriter_fields [simp]:
  "re_pids (markUnknownWriter e) = re_pids e" "re_deadlineAtMs (markUnknownWriter e) = re_deadlineAtMs e"
  "repairExecutionSchema e \<Longrightarrow> repairExecutionSchema (markUnknownWriter e)"
  by (simp_all add: markUnknownWriter_def repairExecutionSchema_def opt_within_def)


lemma unknown_not_terminal: "\<not> isTerminalRepairExecution (re_state e) \<Longrightarrow> \<not> isTerminalRepairExecution (re_state (markUnknownWriter e))"
  by (simp add: markUnknownWriter_def isTerminalRepairExecution_def)







text \<open>
  Without writers it does not: nothing ever ends the execution, and the loop goes on, writing the
  record again after every sleep.
\<close>

lemma supervisor_spins:
  assumes "\<And>k. \<not> se_busy env k" "\<And>k f. se_before env k f = f" "\<And>k f. se_asleep env k f = f"
    "repairExecutionSchema e" "\<not> isTerminalRepairExecution (re_state e)" "re_pids e = []"
  shows "runDeadlineSupervisorLoop env k (Stored e) = None"
proof -
  define idle where "idle f \<longleftrightarrow> (\<exists>x. f = Stored x \<and> repairExecutionSchema x \<and> \<not> isTerminalRepairExecution (re_state x) \<and> re_pids x = [])" for f
  have turn: "\<exists>f'. supervisor_turn env k f = Inr f' \<and> idle f'" if "idle f" for k f
  proof -
    from that obtain x where x: "f = Stored x" "repairExecutionSchema x" "\<not> isTerminalRepairExecution (re_state x)" "re_pids x = []"
      by (auto simp: idle_def)
    show ?thesis
    proof (cases "se_clock env k < re_deadlineAtMs x")
      case True
      with x that show ?thesis by (simp add: supervisor_turn_def)
    next
      case False
      with x assms(1,2) have "supervisor_turn env k f = Inr (Stored (markUnknownWriter x))"
        by (simp add: supervisor_turn_def commitDeadlineIfDue_def decideExecutionRecord_def enforceDeadline_def
            superviseDeadlineOnce_def unknown_not_terminal)
      with x show ?thesis by (auto simp: idle_def unknown_not_terminal)
    qed
  qed
  have never: "n = env \<longrightarrow> \<not> idle f" if "runDeadlineSupervisorLoop n k f = Some r" for n k f r
    using that
  proof (rule runDeadlineSupervisorLoop.raw_induct [where P = "\<lambda>n k f r. n = env \<longrightarrow> \<not> idle f", rotated])
    fix loop n k f r
    assume IH: "\<And>n k f r. loop n k f = Some r \<Longrightarrow> n = env \<longrightarrow> \<not> idle f"
      and body: "(case supervisor_turn n k f of Inl outcome \<Rightarrow> Some outcome
        | Inr disk' \<Rightarrow> loop n (k + 1) (se_asleep n k disk')) = Some r"
    show "n = env \<longrightarrow> \<not> idle f"
    proof (intro impI notI)
      assume "n = env" "idle f"
      with turn [of f k] obtain f' where "supervisor_turn n k f = Inr f'" "idle f'" by blast
      with body IH assms(3) \<open>n = env\<close> show False by auto
    qed
  qed
  have "idle (Stored e)" using assms(4-6) by (simp add: idle_def)
  with never show ?thesis by (cases "runDeadlineSupervisorLoop env k (Stored e)") blast+
qed

section \<open>Witnesses\<close>

definition sample_execution :: RepairExecution where
  "sample_execution = \<lparr> re_executionId = ''x'', re_kind = kind_source_fix, re_state = xs_started, re_chainId = ''c'',
     re_parentRunId = ''r'', re_inputSha = None, re_contractVersion = 1, re_deadlineAtMs = 5000, re_pids = [7],
     re_startedAtMs = Some 1, re_endedAtMs = None, re_consumedSourceFix = True, re_result = None \<rparr>"

definition sample_env :: supervisor_env where
  "sample_env = \<lparr> se_clock = (\<lambda>k. 1000 * int k), se_busy = (\<lambda>_. False),
     se_kill = (\<lambda>_. \<lparr> kv_alive_term = (\<lambda>_. True), kv_alive_check = (\<lambda>_. True), kv_alive_kill = (\<lambda>_. True),
                       kv_alive_final = (\<lambda>_. False), kv_kill_fails = (\<lambda>_. False) \<rparr>),
     se_before = (\<lambda>_ f. f), se_asleep = (\<lambda>_ f. f) \<rparr>"

lemma sample_execution_schema: "repairExecutionSchema sample_execution"
  by (simp add: sample_execution_def repairExecutionSchema_def text_within_def opt_within_def positive_number_def
      nonneg_number_def safe_int_def MAX_SAFE_INTEGER_def)


lemma finished_execution_is_final_witness:
  "\<exists>f. record_step (Stored sample_execution) f
     \<and> commitDeadlineIfDue False (se_kill sample_env 0) 9000 f = Inr (Some (finishExecution sample_execution result_ok 10), f)"
proof -
  let ?e = "finishExecution sample_execution result_ok 10"
  have e: "readExecutionRecord (Stored ?e) = Some ?e" "isTerminalRepairExecution (re_state ?e)"
    using sample_execution_schema
    by (auto simp: finishExecution_def isTerminalRepairExecution_def sample_execution_def repairExecutionSchema_def
        opt_within_def nonneg_number_def safe_int_def MAX_SAFE_INTEGER_def)
  have "writeExecutionRecord False ?e (Stored sample_execution) = Inr (Stored ?e)"
    using sample_execution_schema
    by (simp add: writeExecutionRecord_def decideExecutionRecord_def) (simp add: sample_execution_def isTerminalRepairExecution_def)
  then have "record_step (Stored sample_execution) (Stored ?e)" by (rule record_write)
  with finished_execution_is_final [OF e rtranclp.rtrancl_refl] show ?thesis by blast
qed

end
