(* ===== verification/Writer_Lease.thy ===== *)
theory Writer_Lease
  imports Repair_Execution
begin

text \<open>
  The writer lease of a branch: \<open>src/shared/runtime/repair-lease.ts\<close> and
  \<open>src/cli/src/auto/repair-lease.ts\<close>.  One file per repository and branch names the run that may
  write there.  An operation reads the file, decides, and writes; the decision is a function of
  what was read, so that two operations may also be interleaved.  Which processes are alive, and
  whether a holder's repair is settled, are answers of the surroundings.
\<close>

section \<open>Leases\<close>

datatype HolderKind = holder_repair | holder_fix | holder_apply

record WriterLease =
  wl_version :: int
  wl_key :: string
  wl_holderKind :: HolderKind
  wl_holderRunId :: string
  wl_pid :: int
  wl_writerPids :: "int list option"
  wl_epoch :: int
  wl_grantedAt :: string

definition writerLeaseSchema :: "WriterLease \<Rightarrow> bool" where
  "writerLeaseSchema l \<longleftrightarrow>
     wl_version l = 1 \<and> text_within 400 (wl_key l) \<and> text_within 80 (wl_holderRunId l) \<and> positive_number (wl_pid l)
   \<and> opt_within (\<lambda>ps. list_all positive_number ps \<and> length ps \<le> 16) (wl_writerPids l)
   \<and> nonneg_number (wl_epoch l) \<and> text_within 40 (wl_grantedAt l)"

definition writerLeaseKey :: "string \<Rightarrow> string \<Rightarrow> string" where
  "writerLeaseKey repo sourceBranch = js_lower (js_trim repo) @ ''#'' @ js_trim sourceBranch"

definition writerLeaseFileName :: "(string \<Rightarrow> string) \<Rightarrow> string \<Rightarrow> string" where
  "writerLeaseFileName sha key = ''writer-'' @ take 32 (sha key) @ ''.json''"

fun parseWriterLease :: "WriterLease json_file \<Rightarrow> WriterLease option" where
  "parseWriterLease NoFile = None"
| "parseWriterLease Unreadable = None"
| "parseWriterLease (Stored l) = (if writerLeaseSchema l then Some l else None)"

datatype BusinessResult = approved | needs_attention | stopped

definition isActiveRepairHolder :: "string \<Rightarrow> string \<Rightarrow> BusinessResult option \<Rightarrow> WriterLease option \<Rightarrow> bool \<Rightarrow> bool" where
  "isActiveRepairHolder kind status businessResult lease pidAlive =
     (if kind \<noteq> ''repair'' \<or> lease = None then False
      else if businessResult \<noteq> None then False
      else if status = ''running'' then pidAlive
      else status = ''interrupted'')"

section \<open>Operations\<close>

record Reclaim =
  rl_journalChecked :: bool
  rl_remoteChecked :: bool

record LeaseRequest =
  lq_key :: string
  lq_holderKind :: HolderKind
  lq_holderRunId :: string
  lq_pid :: int
  lq_writerPids :: "int list option"
  lq_reclaim :: "Reclaim option"
  lq_now :: string

datatype lease_error =
    WriterHolds string string
  | ReclaimUnchecked string string
  | LeaseFileInvalid
  | CannotCreateLease
  | OwnedByAnotherRun
  | WriterPidAlive

text \<open>The lease a request asks for; an empty list of writers is left out.\<close>

definition requested_lease :: "LeaseRequest \<Rightarrow> WriterLease" where
  "requested_lease q =
     \<lparr> wl_version = 1, wl_key = lq_key q, wl_holderKind = lq_holderKind q, wl_holderRunId = lq_holderRunId q,
       wl_pid = lq_pid q, wl_writerPids = (case lq_writerPids q of Some (p # ps) \<Rightarrow> Some (p # ps) | _ \<Rightarrow> None),
       wl_epoch = 1, wl_grantedAt = lq_now q \<rparr>"

text \<open>\<open>repairHolderFinished\<close>: the business result of the holder's run, if its state can be read.\<close>

definition repairHolderFinished :: "(string \<Rightarrow> BusinessResult option) \<Rightarrow> WriterLease \<Rightarrow> bool" where
  "repairHolderFinished runResult l = (if wl_holderKind l \<noteq> holder_repair then False else runResult (wl_holderRunId l) \<noteq> None)"

definition extra_writers :: "WriterLease \<Rightarrow> int list" where
  "extra_writers l = (case wl_writerPids l of None \<Rightarrow> [] | Some ps \<Rightarrow> ps)"

definition lease_alive :: "(int \<Rightarrow> bool) \<Rightarrow> WriterLease \<Rightarrow> bool" where
  "lease_alive alive l \<longleftrightarrow> alive (wl_pid l) \<or> list_ex alive (extra_writers l)"

definition reclaim_checked :: "Reclaim option \<Rightarrow> bool" where
  "reclaim_checked r \<longleftrightarrow> (case r of None \<Rightarrow> False | Some c \<Rightarrow> rl_journalChecked c \<and> rl_remoteChecked c)"

text \<open>\<open>takeExisting\<close>: the lease it writes over the existing one.\<close>

definition takeExisting ::
  "(int \<Rightarrow> bool) \<Rightarrow> (WriterLease \<Rightarrow> bool) \<Rightarrow> Reclaim option \<Rightarrow> WriterLease \<Rightarrow> WriterLease \<Rightarrow> lease_error + WriterLease" where
  "takeExisting alive settled reclaim next existing =
     (if wl_holderRunId existing = wl_holderRunId next then
        Inr (existing\<lparr>wl_pid := wl_pid next,
                      wl_writerPids := (case wl_writerPids next of None \<Rightarrow> wl_writerPids existing | Some ps \<Rightarrow> Some ps)\<rparr>)
      else if lease_alive alive existing then Inl (WriterHolds (wl_holderRunId existing) (wl_key existing))
      else if \<not> settled existing \<and> \<not> reclaim_checked reclaim
        then Inl (ReclaimUnchecked (wl_holderRunId existing) (wl_key existing))
      else Inr (next\<lparr>wl_epoch := wl_epoch existing + 1\<rparr>))"

text \<open>
  What an acquisition writes when it first read \<open>seen\<close> and, having found no file, met \<open>raced\<close> at the
  moment of the exclusive creation.
\<close>

definition acquire_decision ::
  "(int \<Rightarrow> bool) \<Rightarrow> (WriterLease \<Rightarrow> bool) \<Rightarrow> LeaseRequest \<Rightarrow> WriterLease json_file \<Rightarrow> WriterLease json_file
   \<Rightarrow> lease_error + WriterLease" where
  "acquire_decision alive settled q seen raced =
     (let next = requested_lease q; take_over = takeExisting alive settled (lq_reclaim q) next in
      if seen = NoFile then
        (if raced = NoFile then Inr next
         else case parseWriterLease raced of None \<Rightarrow> Inl CannotCreateLease | Some l \<Rightarrow> take_over l)
      else case parseWriterLease seen of None \<Rightarrow> Inl LeaseFileInvalid | Some l \<Rightarrow> take_over l)"

text \<open>An acquisition that is not interleaved with another operation on the file.\<close>

definition acquireWriterLease ::
  "(int \<Rightarrow> bool) \<Rightarrow> (WriterLease \<Rightarrow> bool) \<Rightarrow> LeaseRequest \<Rightarrow> WriterLease json_file
   \<Rightarrow> lease_error + WriterLease \<times> WriterLease json_file" where
  "acquireWriterLease alive settled q f =
     (case acquire_decision alive settled q f f of Inl e \<Rightarrow> Inl e | Inr l \<Rightarrow> Inr (l, Stored l))"

text \<open>\<open>Array.from(new Set(xs))\<close>: the first occurrence of each element.\<close>

definition unique :: "'a list \<Rightarrow> 'a list" where
  "unique xs = rev (remdups (rev xs))"

definition updateWriterPids :: "string \<Rightarrow> int list \<Rightarrow> WriterLease json_file \<Rightarrow> bool \<times> WriterLease json_file" where
  "updateWriterPids holderRunId writerPids f =
     (let pids = filter (\<lambda>p. 0 < p) writerPids in
      if pids = [] then (False, f)
      else case parseWriterLease f of
             None \<Rightarrow> (False, f)
           | Some l \<Rightarrow>
               if wl_holderRunId l \<noteq> holderRunId then (False, f)
               else (True, Stored (l\<lparr>wl_writerPids := Some (unique (extra_writers l @ pids))\<rparr>)))"

definition releaseWriterLease ::
  "(int \<Rightarrow> bool) \<Rightarrow> string \<Rightarrow> WriterLease json_file \<Rightarrow> lease_error + WriterLease json_file" where
  "releaseWriterLease alive holderRunId f =
     (if f = NoFile then Inr f
      else case parseWriterLease f of
             None \<Rightarrow> Inl LeaseFileInvalid
           | Some l \<Rightarrow>
               if wl_holderRunId l \<noteq> holderRunId then Inl OwnedByAnotherRun
               else if list_ex alive (extra_writers l) then Inl WriterPidAlive
               else Inr NoFile)"

definition releaseWriterLeaseQuietly ::
  "(int \<Rightarrow> bool) \<Rightarrow> string \<Rightarrow> WriterLease json_file \<Rightarrow> bool \<times> WriterLease json_file" where
  "releaseWriterLeaseQuietly alive holderRunId f =
     (case releaseWriterLease alive holderRunId f of Inr f' \<Rightarrow> (True, f') | Inl _ \<Rightarrow> (f = NoFile, f))"

section \<open>Exclusive writing\<close>

text \<open>The operations on one lease file by a run, each to its end.\<close>

inductive lease_step :: "string \<Rightarrow> (int \<Rightarrow> bool) \<Rightarrow> WriterLease json_file \<Rightarrow> WriterLease json_file \<Rightarrow> bool" where
  lease_acquire: "acquireWriterLease alive settled q f = Inr (l, f') \<Longrightarrow> lq_holderRunId q = run \<Longrightarrow> lease_step run alive f f'"
| lease_update: "updateWriterPids run pids f = (r, f') \<Longrightarrow> lease_step run alive f f'"
| lease_release: "releaseWriterLease alive run f = Inr f' \<Longrightarrow> lease_step run alive f f'"
| lease_release_quietly: "releaseWriterLeaseQuietly alive run f = (r, f') \<Longrightarrow> lease_step run alive f f'"

inductive_cases lease_stepE: "lease_step run alive f f'"


lemma parse_Stored: "parseWriterLease f = Some l \<longleftrightarrow> f = Stored l \<and> writerLeaseSchema l"
  by (cases f) auto

lemma requested_fields [simp]:
  "wl_holderRunId (requested_lease q) = lq_holderRunId q" "wl_pid (requested_lease q) = lq_pid q"
  "wl_epoch (requested_lease q) = 1" "wl_key (requested_lease q) = lq_key q"
  by (simp_all add: requested_lease_def)

lemma acquire_Stored:
  "writerLeaseSchema l \<Longrightarrow> acquire_decision alive settled q (Stored l) raced
     = takeExisting alive settled (lq_reclaim q) (requested_lease q) l"
  by (simp add: acquire_decision_def)




text \<open>
  The operations are not atomic, though: two runs that both read a dead lease both replace it, and the
  first believes it holds the branch while the file names the second.
\<close>

lemma reclaim_race:
  assumes "writerLeaseSchema l" "\<not> lease_alive alive l" "settled l"
    "lq_holderRunId q \<noteq> wl_holderRunId l" "lq_holderRunId q' \<noteq> wl_holderRunId l"
  shows "\<exists>a b. acquire_decision alive settled q (Stored l) f = Inr a \<and> acquire_decision alive settled q' (Stored l) f' = Inr b
    \<and> wl_holderRunId a = lq_holderRunId q \<and> wl_holderRunId b = lq_holderRunId q' \<and> wl_epoch a = wl_epoch b"
  using assms by (simp add: acquire_Stored takeExisting_def)

text \<open>
  Adding writers can make the file unreadable: the schema allows 16, the update does not count them.
  The holder itself cannot release such a lease.
\<close>

lemma too_many_writers:
  assumes "updateWriterPids run pids f = (True, Stored l)" "16 < length (extra_writers l)"
  shows "parseWriterLease (Stored l) = None \<and> releaseWriterLease alive run (Stored l) = Inl LeaseFileInvalid
    \<and> acquireWriterLease alive settled q (Stored l) = Inl LeaseFileInvalid"
proof -
  have "\<not> writerLeaseSchema l"
    using assms(2) by (auto simp: writerLeaseSchema_def opt_within_def extra_writers_def split: option.splits)
  then show ?thesis by (simp add: releaseWriterLease_def acquireWriterLease_def acquire_decision_def)
qed

section \<open>Witness\<close>




end
