(* ===== verification/Repair_Ledger.thy ===== *)
theory Repair_Ledger
  imports Decimal_Int
begin

text \<open>
  The findings ledger: \<open>src/shared/runtime/cli-ledger.ts\<close> (findings, their verification, what blocks
  a merge, the landings of a plan) with the citation syntax of \<open>src/shared/runtime/source-locus.ts\<close>.
  Absent and \<open>null\<close> members are both \<open>None\<close>; the code treats them alike.  Status labels are
  constructors, since their texts are not of the model's alphabet.
\<close>

section \<open>Citations and commits\<close>

text \<open>\<open>[0-9a-f]{n}\<close> as a whole string.\<close>

definition hex_text :: "nat \<Rightarrow> string \<Rightarrow> bool" where
  "hex_text n s \<longleftrightarrow> length s = n \<and> list_all is_hex_lower s"

abbreviation full_commit :: "string \<Rightarrow> bool" where
  "full_commit \<equiv> hex_text 40"

definition is_letter :: "char \<Rightarrow> bool" where
  "is_letter c \<longleftrightarrow> (let n = (of_char c :: nat) in (65 \<le> n \<and> n \<le> 90) \<or> (97 \<le> n \<and> n \<le> 122))"

text \<open>\<open>[\w.-]\<close>\<close>

definition path_char :: "char \<Rightarrow> bool" where
  "path_char c \<longleftrightarrow> is_letter c \<or> is_digit c \<or> c \<in> set ''_.-''"

text \<open>The parts of a string between the occurrences of a character.\<close>

fun split_at :: "char \<Rightarrow> string \<Rightarrow> string list" where
  "split_at c [] = [[]]"
| "split_at c (x # s) =
     (if x = c then [] # split_at c s
      else case split_at c s of [] \<Rightarrow> [[x]] | t # ts \<Rightarrow> (x # t) # ts)"

text \<open>\<open>[\w.-]+\.[A-Za-z][A-Za-z0-9]{0,7}\<close>: the extension has no dot, so it is the part after the last one.\<close>

definition source_file_name :: "string \<Rightarrow> bool" where
  "source_file_name s \<longleftrightarrow>
     (let parts = split_at CHR ''.'' s; ext = last parts; stem = join ''.'' (butlast parts)
      in 2 \<le> length parts \<and> stem \<noteq> [] \<and> list_all path_char stem
       \<and> ext \<noteq> [] \<and> length ext \<le> 8 \<and> is_letter (hd ext) \<and> list_all (\<lambda>c. is_letter c \<or> is_digit c) (tl ext))"

text \<open>\<open>^((?:[\w.-]+\/)*FILE):(\d+)(?:-(\d+))?$\<close>; neither side of the colon contains another.\<close>

definition assessment_location :: "string \<Rightarrow> bool" where
  "assessment_location s \<longleftrightarrow>
     (case split_at CHR '':'' s of
        [path, lines] \<Rightarrow>
          (let dirs = split_at CHR ''/'' path; nums = split_at CHR ''-'' lines
           in list_all (\<lambda>d. d \<noteq> [] \<and> list_all path_char d) (butlast dirs) \<and> source_file_name (last dirs)
            \<and> length nums \<le> 2 \<and> list_all all_digits nums)
      | _ \<Rightarrow> False)"

section \<open>Findings\<close>

datatype FindingStatus = finding_open | finding_closed | finding_accepted | finding_regress
datatype FindingSeverity = sev_critical | sev_major | sev_minor | sev_nit
datatype FindingSource = src_consensus | src_unique | src_unknown
datatype FindingContractClass = in_contract | out_of_spec

datatype VerificationOutcome = vo_verified_closed | vo_still_open | vo_not_evaluated
datatype VerificationMethod = vm_regression_test | vm_code_trace | vm_not_evaluated

record FindingVerification =
  fv_outcome :: VerificationOutcome
  fv_candidateSha :: string
  fv_runId :: string
  fv_attemptId :: string
  fv_reviewer :: string
  fv_method :: VerificationMethod
  fv_reason :: string
  fv_evidence :: string
  fv_command :: "string option"
  fv_locations :: "string list option"
  fv_runComplete :: bool

text \<open>\<open>z.string().trim().min(1).max(n)\<close>: the bounds are of the trimmed text.\<close>

definition trimmed_within :: "nat \<Rightarrow> string \<Rightarrow> bool" where
  "trimmed_within n s \<longleftrightarrow> 1 \<le> length (js_trim s) \<and> length (js_trim s) \<le> n"

definition findingVerificationSchema :: "FindingVerification \<Rightarrow> bool" where
  "findingVerificationSchema v \<longleftrightarrow>
     full_commit (fv_candidateSha v) \<and> fv_runId v \<noteq> [] \<and> fv_attemptId v \<noteq> []
   \<and> 1 \<le> length (fv_reviewer v) \<and> length (fv_reviewer v) \<le> 120
   \<and> trimmed_within 2000 (fv_reason v) \<and> trimmed_within 4000 (fv_evidence v)
   \<and> (case fv_command v of None \<Rightarrow> True | Some c \<Rightarrow> trimmed_within 2000 c)
   \<and> (case fv_locations v of None \<Rightarrow> True
      | Some ls \<Rightarrow> list_all assessment_location ls \<and> 1 \<le> length ls \<and> length ls \<le> 32)"

record FindingRepairClaim =
  cl_candidateSha :: "string option"
  cl_runId :: string
  cl_at :: string

record LedgerFinding =
  fi_id :: string
  fi_severity :: FindingSeverity
  fi_status :: FindingStatus
  fi_title :: string
  fi_text :: string
  fi_source :: FindingSource
  fi_reviewer :: "string option"
  fi_files :: "string list"
  fi_contractClass :: "FindingContractClass option"
  fi_invariantId :: "string option"
  fi_counterexample :: "string option"
  fi_repairClaim :: "FindingRepairClaim option"
  fi_verification :: "FindingVerification option"
  fi_acceptedReason :: "string option"
  fi_acceptedAt :: "string option"

text \<open>The commit a caller asks about: not given, given as \<open>null\<close>, or a text.\<close>

datatype asked_sha = AnySha | NullSha | Sha string

definition isFindingVerifiedClosed :: "LedgerFinding \<Rightarrow> asked_sha \<Rightarrow> bool" where
  "isFindingVerifiedClosed row sha =
     (case fi_verification row of
        None \<Rightarrow> False
      | Some v \<Rightarrow>
          if \<not> findingVerificationSchema v \<or> fi_status row \<noteq> finding_closed then False
          else fv_outcome v = vo_verified_closed
             \<and> fv_runComplete v
             \<and> fv_method v \<noteq> vm_not_evaluated
             \<and> (if fv_method v = vm_regression_test then fv_command v \<noteq> None else fv_locations v \<noteq> None)
             \<and> (case fi_repairClaim row of None \<Rightarrow> True | Some c \<Rightarrow> cl_candidateSha c = Some (fv_candidateSha v))
             \<and> (case sha of AnySha \<Rightarrow> True | NullSha \<Rightarrow> False | Sha s \<Rightarrow> s = fv_candidateSha v))"

definition hasActOnFooting :: "LedgerFinding \<Rightarrow> bool" where
  "hasActOnFooting row \<longleftrightarrow> present_text (fi_invariantId row) \<and> present_text (fi_counterexample row)"

definition isFindingBlocking :: "LedgerFinding \<Rightarrow> asked_sha \<Rightarrow> bool" where
  "isFindingBlocking row sha =
     (if fi_severity row \<noteq> sev_critical \<and> fi_severity row \<noteq> sev_major then False
      else if fi_status row = finding_accepted then False
      else if isFindingVerifiedClosed row sha then False
      else if fi_contractClass row = Some out_of_spec then False
      else if fi_contractClass row = Some in_contract then hasActOnFooting row
      else True)"

datatype FindingLabel =
    AcceptedLabel "string option" | VerifiedLabel | AwaitsVerification | HistoricallyUnverified
  | StillOpenLabel | ClaimedLabel | RegressLabel | OutOfSpecLabel | NoFootingLabel | OpenLabel

definition non_empty :: "string option \<Rightarrow> string option" where
  "non_empty s = (case s of Some (c # cs) \<Rightarrow> Some (c # cs) | _ \<Rightarrow> None)"

definition findingStatusLabel :: "LedgerFinding \<Rightarrow> asked_sha \<Rightarrow> FindingLabel" where
  "findingStatusLabel row sha =
     (if fi_status row = finding_accepted then AcceptedLabel (non_empty (fi_acceptedReason row))
      else if isFindingVerifiedClosed row sha then VerifiedLabel
      else if fi_status row = finding_closed
        then (if fi_verification row \<noteq> None then AwaitsVerification else HistoricallyUnverified)
      else if (case fi_verification row of None \<Rightarrow> False | Some v \<Rightarrow> fv_outcome v = vo_still_open) then StillOpenLabel
      else if fi_repairClaim row \<noteq> None then ClaimedLabel
      else if fi_status row = finding_regress then RegressLabel
      else if fi_contractClass row = Some out_of_spec then OutOfSpecLabel
      else if fi_contractClass row = Some in_contract \<and> \<not> hasActOnFooting row then NoFootingLabel
      else OpenLabel)"

section \<open>Plan and landings\<close>

record PlanCluster =
  pc_id :: string
  pc_closes :: "string list"

record LandingRecord =
  ln_clusterId :: string
  ln_parentSha :: "string option"
  ln_candidateSha :: "string option"

definition nextUnlandedCluster :: "PlanCluster list option \<Rightarrow> LandingRecord list \<Rightarrow> PlanCluster option" where
  "nextUnlandedCluster clusters landings =
     (case clusters of
        None \<Rightarrow> None
      | Some cs \<Rightarrow> (let landed = map ln_clusterId landings in find (\<lambda>c. pc_id c \<notin> set landed) cs))"

definition lastLandingRange :: "LandingRecord list \<Rightarrow> string option" where
  "lastLandingRange landings =
     (if landings = [] then None
      else let row = last landings
      in case (non_empty (ln_parentSha row), non_empty (ln_candidateSha row)) of
           (Some p, Some c) \<Rightarrow> Some (p @ ''...'' @ c)
         | _ \<Rightarrow> None)"

section \<open>Order and counts\<close>

fun SEVERITY_RANK :: "FindingSeverity \<Rightarrow> int" where
  "SEVERITY_RANK sev_critical = 0" | "SEVERITY_RANK sev_major = 1" | "SEVERITY_RANK sev_minor = 2" | "SEVERITY_RANK sev_nit = 3"

fun STATUS_RANK :: "FindingStatus \<Rightarrow> int" where
  "STATUS_RANK finding_regress = 0" | "STATUS_RANK finding_open = 1" | "STATUS_RANK finding_accepted = 2"
| "STATUS_RANK finding_closed = 3"

fun SOURCE_RANK :: "FindingSource \<Rightarrow> int" where
  "SOURCE_RANK src_consensus = 0" | "SOURCE_RANK src_unique = 1" | "SOURCE_RANK src_unknown = 2"

definition compareFindingSeverity :: "FindingSeverity option \<Rightarrow> FindingSeverity option \<Rightarrow> int" where
  "compareFindingSeverity a b =
     (let rank = (\<lambda>s. case s of None \<Rightarrow> 4 | Some v \<Rightarrow> SEVERITY_RANK v) in rank a - rank b)"

record LedgerFindingCounts =
  lc_total :: nat
  lc_byStatus :: "FindingStatus \<Rightarrow> nat"
  lc_bySeverity :: "FindingSeverity \<Rightarrow> nat"

definition count_finding :: "LedgerFindingCounts \<Rightarrow> LedgerFinding \<Rightarrow> LedgerFindingCounts" where
  "count_finding c row =
     c\<lparr>lc_byStatus := (lc_byStatus c)(fi_status row := lc_byStatus c (fi_status row) + 1),
       lc_bySeverity := (lc_bySeverity c)(fi_severity row := lc_bySeverity c (fi_severity row) + 1)\<rparr>"

definition countLedgerFindings :: "LedgerFinding list \<Rightarrow> LedgerFindingCounts" where
  "countLedgerFindings findings =
     foldl count_finding \<lparr> lc_total = length findings, lc_byStatus = (\<lambda>_. 0), lc_bySeverity = (\<lambda>_. 0) \<rparr> findings"

text \<open>
  The comparison of \<open>sortLedgerFindings\<close>; \<open>collate\<close> is \<open>localeCompare\<close>.  Ties go to the original
  position, so the sort is stable insertion by this order.
\<close>

definition compareFindings :: "(string \<Rightarrow> string \<Rightarrow> int) \<Rightarrow> LedgerFinding \<Rightarrow> LedgerFinding \<Rightarrow> int" where
  "compareFindings collate a b =
     (let severity = compareFindingSeverity (Some (fi_severity a)) (Some (fi_severity b));
          status = STATUS_RANK (fi_status a) - STATUS_RANK (fi_status b);
          source = SOURCE_RANK (fi_source a) - SOURCE_RANK (fi_source b);
          title = collate (fi_title a) (fi_title b)
      in if severity \<noteq> 0 then severity else if status \<noteq> 0 then status else if source \<noteq> 0 then source
         else if title \<noteq> 0 then title else collate (fi_id a) (fi_id b))"

fun insert_finding :: "(string \<Rightarrow> string \<Rightarrow> int) \<Rightarrow> LedgerFinding \<Rightarrow> LedgerFinding list \<Rightarrow> LedgerFinding list" where
  "insert_finding collate x [] = [x]"
| "insert_finding collate x (y # ys) =
     (if compareFindings collate x y \<le> 0 then x # y # ys else y # insert_finding collate x ys)"

definition sortLedgerFindings :: "(string \<Rightarrow> string \<Rightarrow> int) \<Rightarrow> LedgerFinding list \<Rightarrow> LedgerFinding list" where
  "sortLedgerFindings collate findings = foldr (insert_finding collate) findings []"

section \<open>Lemmas\<close>

lemma verified_closed_needs:
  "isFindingVerifiedClosed row sha \<Longrightarrow> fi_status row = finding_closed
     \<and> (\<exists>v. fi_verification row = Some v \<and> fv_outcome v = vo_verified_closed \<and> fv_runComplete v
          \<and> (\<forall>s. sha = Sha s \<longrightarrow> fv_candidateSha v = s))"
  by (auto simp: isFindingVerifiedClosed_def split: option.splits if_splits asked_sha.splits)

text \<open>Closing a finding for one commit never closes it for another.\<close>

lemma verified_closed_unique: "isFindingVerifiedClosed row (Sha s) \<Longrightarrow> isFindingVerifiedClosed row (Sha t) \<Longrightarrow> s = t"
  by (auto dest!: verified_closed_needs)

lemma count_findings:
  "lc_byStatus (foldl count_finding c fs) s = lc_byStatus c s + length (filter (\<lambda>r. fi_status r = s) fs)"
  "lc_bySeverity (foldl count_finding c fs) v = lc_bySeverity c v + length (filter (\<lambda>r. fi_severity r = v) fs)"
  by (induction fs arbitrary: c) (auto simp: count_finding_def)

lemma counts_total:
  "lc_byStatus (countLedgerFindings fs) s = length (filter (\<lambda>r. fi_status r = s) fs)"
  "lc_bySeverity (countLedgerFindings fs) v = length (filter (\<lambda>r. fi_severity r = v) fs)"
  by (simp_all add: countLedgerFindings_def count_findings)

lemma sort_findings_mset: "mset (sortLedgerFindings collate fs) = mset fs"
proof -
  have insert: "mset (insert_finding collate x ys) = add_mset x (mset ys)" for x ys
    by (induction ys) auto
  show ?thesis by (induction fs) (auto simp: sortLedgerFindings_def insert)
qed

lemma next_unlanded:
  "nextUnlandedCluster (Some cs) ls = None \<longleftrightarrow> pc_id ` set cs \<subseteq> ln_clusterId ` set ls"
  by (auto simp: nextUnlandedCluster_def find_None_iff)

end
