(* ===== verification/Finding_Groups.thy ===== *)
theory Finding_Groups
  imports Repair_Ledger
begin

text \<open>
  Finding groups: \<open>src/shared/runtime/finding-groups.ts\<close> (the sidecar that maps findings to root
  causes, its validation and the resolution of a finding) and \<open>src/cli/src/auto/finding-groups.ts\<close>
  (building the sidecar of a review and loading it against the review's ledger).  JavaScript \<open>Map\<close>s
  and \<open>Set\<close>s keep insertion order, as \<open>jsmap\<close> and lists without repetition do here.
\<close>

section \<open>Groups\<close>

datatype AdjudicatedAs = group_duplicate | group_unsupported | group_dismissed | group_still_open_disagreement

record FindingGroup =
  fg_rootCauseId :: string
  fg_findingIds :: "string list"
  fg_aliases :: "string list"
  fg_basis :: string
  fg_adjudication :: "(AdjudicatedAs \<times> string) option"

record FindingGroupsFile =
  gf_runId :: string
  gf_sha :: string
  gf_findingsSha256 :: string
  gf_againstRunId :: "string option"
  gf_groups :: "FindingGroup list"

text \<open>The text of the sidecar: not blank and without NUL; every character of the model is one code unit
  below U+0100, so no surrogate occurs.\<close>

definition plainText :: "nat \<Rightarrow> string \<Rightarrow> bool" where
  "plainText n s \<longleftrightarrow> s \<noteq> [] \<and> length s \<le> n \<and> \<not> blank s \<and> list_all (\<lambda>c. (of_char c :: nat) \<noteq> 0) s"

definition findingGroupSchema :: "FindingGroup \<Rightarrow> bool" where
  "findingGroupSchema g \<longleftrightarrow>
     plainText 400 (fg_rootCauseId g)
   \<and> list_all (plainText 160) (fg_findingIds g) \<and> 1 \<le> length (fg_findingIds g) \<and> length (fg_findingIds g) \<le> 64
   \<and> list_all (plainText 160) (fg_aliases g) \<and> length (fg_aliases g) \<le> 64
   \<and> plainText 2000 (fg_basis g)
   \<and> (case fg_adjudication g of None \<Rightarrow> True | Some (k, reason) \<Rightarrow> plainText 4000 reason)"

definition findingGroupsFileSchema :: "FindingGroupsFile \<Rightarrow> bool" where
  "findingGroupsFileSchema f \<longleftrightarrow>
     plainText 160 (gf_runId f) \<and> hex_text 40 (gf_sha f) \<and> hex_text 64 (gf_findingsSha256 f)
   \<and> (case gf_againstRunId f of None \<Rightarrow> True | Some a \<Rightarrow> length a \<le> 160)
   \<and> list_all findingGroupSchema (gf_groups f) \<and> length (gf_groups f) \<le> 200"

section \<open>Resolution\<close>

text \<open>Set every finding of a group; set an alias only when nothing is set for it yet.\<close>

definition map_group :: "FindingGroup \<Rightarrow> (string, string) jsmap \<Rightarrow> (string, string) jsmap" where
  "map_group g m =
     foldl (\<lambda>m a. if jm_get m a = None then jm_set a (fg_rootCauseId g) m else m)
       (foldl (\<lambda>m i. jm_set i (fg_rootCauseId g) m) m (fg_findingIds g)) (fg_aliases g)"

definition rootCauseByFindingId :: "FindingGroupsFile option \<Rightarrow> (string, string) jsmap" where
  "rootCauseByFindingId groups =
     (case groups of None \<Rightarrow> [] | Some f \<Rightarrow> foldl (\<lambda>m g. map_group g m) [] (gf_groups f))"

definition resolveRootCause :: "string \<Rightarrow> FindingGroupsFile option \<Rightarrow> string" where
  "resolveRootCause findingId groups =
     (case jm_get (rootCauseByFindingId groups) findingId of None \<Rightarrow> findingId | Some r \<Rightarrow> r)"

section \<open>Validation\<close>

datatype groups_error =
    GroupConflict string string string
  | UnknownMember string
  | NoFindingIds nat
  | GroupCycle string string
  | GroupsInvalid
  | RunMismatch
  | AgainstMismatch
  | HashUnverifiable
  | HashMismatch
  | SidecarMissing
  | SidecarUnreadable

text \<open>The inner loop over the members of one group.\<close>

fun claim_members ::
  "FindingGroup \<Rightarrow> string list option \<Rightarrow> string list \<Rightarrow> (string, string) jsmap \<Rightarrow> groups_error + (string, string) jsmap" where
  "claim_members g knownIds [] claimed = Inr claimed"
| "claim_members g knownIds (i # is) claimed =
     (case jm_get claimed i of
        Some previous \<Rightarrow>
          if previous \<noteq> fg_rootCauseId g then Inl (GroupConflict i previous (fg_rootCauseId g))
          else if (case knownIds of None \<Rightarrow> False | Some k \<Rightarrow> i \<in> set (fg_findingIds g) \<and> i \<notin> set k) then Inl (UnknownMember i)
          else claim_members g knownIds is (jm_set i (fg_rootCauseId g) claimed)
      | None \<Rightarrow>
          if (case knownIds of None \<Rightarrow> False | Some k \<Rightarrow> i \<in> set (fg_findingIds g) \<and> i \<notin> set k) then Inl (UnknownMember i)
          else claim_members g knownIds is (jm_set i (fg_rootCauseId g) claimed))"

text \<open>\<open>set.add(x)\<close> on a set kept as the list of its elements in insertion order.\<close>

definition set_add :: "'a \<Rightarrow> 'a list \<Rightarrow> 'a list" where
  "set_add x xs = (if x \<in> set xs then xs else xs @ [x])"

definition set_add_all :: "'a list \<Rightarrow> 'a list \<Rightarrow> 'a list" where
  "set_add_all ys xs = foldl (\<lambda>s y. set_add y s) xs ys"

fun validate_each ::
  "string list option \<Rightarrow> nat \<Rightarrow> FindingGroup list \<Rightarrow> (string, string) jsmap \<Rightarrow> (string, string list) jsmap
   \<Rightarrow> groups_error + (string, string) jsmap \<times> (string, string list) jsmap" where
  "validate_each knownIds n [] claimed members = Inr (claimed, members)"
| "validate_each knownIds n (g # gs) claimed members =
     (case claim_members g knownIds (fg_findingIds g @ fg_aliases g) claimed of
        Inl e \<Rightarrow> Inl e
      | Inr claimed' \<Rightarrow>
          if fg_findingIds g = [] then Inl (NoFindingIds n)
          else validate_each knownIds (n + 1) gs claimed'
                 (jm_set (fg_rootCauseId g)
                    (set_add_all (fg_findingIds g) (case jm_get members (fg_rootCauseId g) of None \<Rightarrow> [] | Some b \<Rightarrow> b)) members))"

fun check_roots :: "(string, string) jsmap \<Rightarrow> (string \<times> string list) list \<Rightarrow> groups_error + unit" where
  "check_roots claimed [] = Inr ()"
| "check_roots claimed ((root, members) # rest) =
     (case jm_get claimed root of
        Some pointed \<Rightarrow>
          if pointed \<noteq> root \<and> root \<notin> set members then Inl (GroupCycle root pointed) else check_roots claimed rest
      | None \<Rightarrow> check_roots claimed rest)"

definition validateFindingGroups :: "FindingGroupsFile \<Rightarrow> string list option \<Rightarrow> groups_error + unit" where
  "validateFindingGroups groups knownIds =
     (case validate_each knownIds 0 (gf_groups groups) [] [] of
        Inl e \<Rightarrow> Inl e
      | Inr (claimed, members) \<Rightarrow> check_roots claimed members)"

section \<open>Building\<close>

record group_bucket =
  gb_findingIds :: "string list"
  gb_aliases :: "string list"
  gb_basis :: string

record GroupMatch =
  gm_originalId :: string
  gm_aliasId :: string
  gm_basis :: string

type_synonym build_state = "(string, group_bucket) jsmap \<times> (string, string) jsmap"

definition bucket_of :: "(string, group_bucket) jsmap \<Rightarrow> string \<Rightarrow> string \<Rightarrow> group_bucket" where
  "bucket_of byRoot root basis =
     (case jm_get byRoot root of None \<Rightarrow> \<lparr> gb_findingIds = [], gb_aliases = [], gb_basis = basis \<rparr> | Some b \<Rightarrow> b)"

definition carry_group :: "string list \<Rightarrow> build_state \<Rightarrow> FindingGroup \<Rightarrow> build_state" where
  "carry_group known s g =
     (case s of (byRoot, idToRoot) \<Rightarrow>
      let findingIds = filter (\<lambda>i. i \<in> set known) (fg_findingIds g); root = fg_rootCauseId g in
      if findingIds = [] then s
      else let bucket = bucket_of byRoot root (fg_basis g);
               idToRoot1 = foldl (\<lambda>m i. jm_set i root m) idToRoot findingIds;
               idToRoot2 = foldl (\<lambda>m a. if jm_get m a = None then jm_set a root m else m) idToRoot1 (fg_aliases g)
           in (jm_set root \<lparr> gb_findingIds = set_add_all findingIds (gb_findingIds bucket),
                             gb_aliases = set_add_all (fg_aliases g) (gb_aliases bucket), gb_basis = fg_basis g \<rparr> byRoot,
               idToRoot2))"

definition add_match :: "string list \<Rightarrow> build_state \<Rightarrow> GroupMatch \<Rightarrow> build_state" where
  "add_match known s m =
     (case s of (byRoot, idToRoot) \<Rightarrow>
      let root = (case jm_get idToRoot (gm_originalId m) of None \<Rightarrow> gm_originalId m | Some r \<Rightarrow> r);
          bucket = bucket_of byRoot root (gm_basis m);
          ids1 = (if gm_originalId m \<in> set known then set_add (gm_originalId m) (gb_findingIds bucket) else gb_findingIds bucket);
          ids2 = (if gm_aliasId m \<in> set known then set_add (gm_aliasId m) ids1 else ids1)
      in (jm_set root \<lparr> gb_findingIds = ids2, gb_aliases = set_add (gm_aliasId m) (gb_aliases bucket), gb_basis = gm_basis m \<rparr> byRoot,
          jm_set (gm_aliasId m) root (jm_set (gm_originalId m) root idToRoot)))"

definition buildFindingGroups ::
  "string \<Rightarrow> string \<Rightarrow> string list \<Rightarrow> string option \<Rightarrow> string \<Rightarrow> GroupMatch list \<Rightarrow> FindingGroupsFile option
   \<Rightarrow> groups_error + FindingGroupsFile" where
  "buildFindingGroups runId sha known againstRunId findingsSha256 matches priorGroups =
     (let carried = foldl (carry_group known) ([], []) (case priorGroups of None \<Rightarrow> [] | Some f \<Rightarrow> gf_groups f);
          (byRoot, idToRoot) = foldl (add_match known) carried matches;
          groups = filter (\<lambda>g. fg_findingIds g \<noteq> [])
            (map (\<lambda>(root, b). \<lparr> fg_rootCauseId = root, fg_findingIds = gb_findingIds b, fg_aliases = gb_aliases b,
                                  fg_basis = gb_basis b, fg_adjudication = None \<rparr>) byRoot);
          file = \<lparr> gf_runId = runId, gf_sha = js_lower sha, gf_findingsSha256 = findingsSha256,
                   gf_againstRunId = againstRunId, gf_groups = groups \<rparr>
      in case validateFindingGroups file (Some known) of
           Inl e \<Rightarrow> Inl e
         | Inr _ \<Rightarrow> if findingGroupsFileSchema file then Inr file else Inl GroupsInvalid)"

section \<open>Loading\<close>

text \<open>What is at the sidecar's path: nothing, something that is neither a file nor a link, a file that is
  refused (a link, outside the run's directory, not readable, not JSON, another version, against the
  schema), or the groups.\<close>

datatype sidecar = NoSidecar | OtherNode | RefusedSidecar | Sidecar FindingGroupsFile

record LedgerView =
  lv_runId :: string
  lv_sha :: "string option"
  lv_findingIds :: "string list"
  lv_againstRunId :: "string option"

definition loadFindingGroups ::
  "(string \<Rightarrow> string) \<Rightarrow> sidecar \<Rightarrow> LedgerView \<Rightarrow> string option \<Rightarrow> groups_error + FindingGroupsFile option" where
  "loadFindingGroups hashFindingsBytes at_path ledger findingsBytes =
     (case at_path of
        NoSidecar \<Rightarrow> Inr None
      | OtherNode \<Rightarrow> Inr None
      | RefusedSidecar \<Rightarrow> Inl SidecarUnreadable
      | Sidecar groups \<Rightarrow>
          if gf_runId groups \<noteq> lv_runId ledger
             \<or> gf_sha groups \<noteq> js_lower (case lv_sha ledger of None \<Rightarrow> [] | Some s \<Rightarrow> s) then Inl RunMismatch
          else if non_empty (lv_againstRunId ledger) \<noteq> None \<and> non_empty (gf_againstRunId groups) \<noteq> None
                  \<and> gf_againstRunId groups \<noteq> lv_againstRunId ledger then Inl AgainstMismatch
          else case findingsBytes of
                 None \<Rightarrow> Inl HashUnverifiable
               | Some bytes \<Rightarrow>
                   if hashFindingsBytes bytes \<noteq> gf_findingsSha256 groups then Inl HashMismatch
                   else (case validateFindingGroups groups (Some (lv_findingIds ledger)) of
                           Inl e \<Rightarrow> Inl e
                         | Inr _ \<Rightarrow> Inr (Some groups)))"

section \<open>Validated groups are a function\<close>

abbreviation members :: "FindingGroup \<Rightarrow> string set" where
  "members g \<equiv> set (fg_findingIds g) \<union> set (fg_aliases g)"

lemma claim_members_ok:
  assumes "claim_members g known is claimed = Inr claimed'"
  shows "(\<forall>i r. jm_get claimed i = Some r \<longrightarrow> jm_get claimed' i = Some r) \<and> (\<forall>i\<in>set is. jm_get claimed' i = Some (fg_rootCauseId g))"
  using assms
proof (induction g known "is" claimed rule: claim_members.induct)
  case (2 g known i "is" claimed)
  let ?c = "jm_set i (fg_rootCauseId g) claimed"
  have c: "jm_get claimed i = None \<or> jm_get claimed i = Some (fg_rootCauseId g)" "claim_members g known is ?c = Inr claimed'"
    using 2(3) by (auto split: option.splits if_splits)
  have "(\<forall>j r. jm_get ?c j = Some r \<longrightarrow> jm_get claimed' j = Some r) \<and> (\<forall>j\<in>set is. jm_get claimed' j = Some (fg_rootCauseId g))"
  proof (cases "jm_get claimed i")
    case None
    then show ?thesis using 2(1) [OF None] 2(3) by (auto split: if_splits)
  next
    case (Some p)
    then show ?thesis using 2(2) [OF Some] 2(3) by (auto split: if_splits)
  qed
  then have later: "\<And>j r. jm_get ?c j = Some r \<Longrightarrow> jm_get claimed' j = Some r"
    "\<And>j. j \<in> set is \<Longrightarrow> jm_get claimed' j = Some (fg_rootCauseId g)" by blast+
  have "jm_get ?c j = Some r" if "jm_get claimed j = Some r" for j r
    using that c(1) by (cases "j = i") (auto simp: update_conv')
  with later(1) have "\<forall>j r. jm_get claimed j = Some r \<longrightarrow> jm_get claimed' j = Some r" by blast
  moreover have "jm_get claimed' i = Some (fg_rootCauseId g)" by (rule later(1)) (simp add: update_conv')
  ultimately show ?case using later(2) by simp
qed simp

lemma validate_each_ok:
  assumes "validate_each known n gs claimed ms = Inr (claimed', ms')"
  shows "(\<forall>i r. jm_get claimed i = Some r \<longrightarrow> jm_get claimed' i = Some r)
    \<and> (\<forall>g\<in>set gs. \<forall>i\<in>members g. jm_get claimed' i = Some (fg_rootCauseId g))"
  using assms
proof (induction known n gs claimed ms rule: validate_each.induct)
  case (2 known n g gs claimed ms)
  obtain c where c: "claim_members g known (fg_findingIds g @ fg_aliases g) claimed = Inr c" "fg_findingIds g \<noteq> []"
    using 2(2) by (auto split: sum.splits if_splits)
  from 2(1) [OF c] 2(2) c have
    "(\<forall>i r. jm_get c i = Some r \<longrightarrow> jm_get claimed' i = Some r)
    \<and> (\<forall>g\<in>set gs. \<forall>i\<in>members g. jm_get claimed' i = Some (fg_rootCauseId g))" by simp
  with claim_members_ok [OF c(1)] show ?case by auto
qed simp

text \<open>Building the map of consistent groups: what is set is right, and every member is set.\<close>

lemma fold_set_all:
  "jm_get (foldl (\<lambda>m i. jm_set i r m) m is) j = (if j \<in> set is then Some r else jm_get m j)"
  by (induction "is" arbitrary: m) (auto simp: update_conv')

lemma fold_set_absent:
  "jm_get (foldl (\<lambda>m a. if jm_get m a = None then jm_set a r m else m) m as) j
   = (case jm_get m j of Some x \<Rightarrow> Some x | None \<Rightarrow> if j \<in> set as then Some r else None)"
  by (induction as arbitrary: m) (auto simp: update_conv' split: option.splits)

lemma map_group_lookup:
  "jm_get (map_group g m) i =
     (if i \<in> set (fg_findingIds g) then Some (fg_rootCauseId g)
      else case jm_get m i of Some x \<Rightarrow> Some x | None \<Rightarrow> if i \<in> set (fg_aliases g) then Some (fg_rootCauseId g) else None)"
  by (simp add: map_group_def fold_set_absent fold_set_all)

lemma fold_groups:
  assumes "\<forall>g\<in>set gs. \<forall>i\<in>members g. R i = fg_rootCauseId g" "\<forall>i r. jm_get m i = Some r \<longrightarrow> r = R i"
  shows "(\<forall>i r. jm_get (foldl (\<lambda>m g. map_group g m) m gs) i = Some r \<longrightarrow> r = R i)
    \<and> (\<forall>i. jm_get m i \<noteq> None \<or> (\<exists>g\<in>set gs. i \<in> members g) \<longrightarrow> jm_get (foldl (\<lambda>m g. map_group g m) m gs) i \<noteq> None)"
  using assms
proof (induction gs arbitrary: m)
  case (Cons g gs)
  have "\<forall>i r. jm_get (map_group g m) i = Some r \<longrightarrow> r = R i"
    using Cons(2,3) by (auto simp: map_group_lookup split: if_splits option.splits)
  from Cons(1) [OF _ this] Cons(2) have IH:
    "(\<forall>i r. jm_get (foldl (\<lambda>m g. map_group g m) (map_group g m) gs) i = Some r \<longrightarrow> r = R i)
    \<and> (\<forall>i. jm_get (map_group g m) i \<noteq> None \<or> (\<exists>g\<in>set gs. i \<in> members g)
          \<longrightarrow> jm_get (foldl (\<lambda>m g. map_group g m) (map_group g m) gs) i \<noteq> None)" by simp
  moreover have "jm_get (map_group g m) i \<noteq> None" if "jm_get m i \<noteq> None \<or> i \<in> members g" for i
    using that by (auto simp: map_group_lookup split: option.splits)
  ultimately show ?case by auto
qed simp

lemma validated_resolve:
  assumes "validateFindingGroups f known = Inr ()" "g \<in> set (gf_groups f)" "i \<in> members g"
  shows "resolveRootCause i (Some f) = fg_rootCauseId g"
proof -
  from assms(1) obtain claimed ms where "validate_each known 0 (gf_groups f) [] [] = Inr (claimed, ms)"
    by (auto simp: validateFindingGroups_def split: sum.splits)
  from validate_each_ok [OF this] have c: "\<forall>g\<in>set (gf_groups f). \<forall>i\<in>members g. jm_get claimed i = Some (fg_rootCauseId g)" by simp
  then have "\<forall>g\<in>set (gf_groups f). \<forall>i\<in>members g. the (jm_get claimed i) = fg_rootCauseId g" by auto
  from fold_groups [OF this, of "[]"] assms(2,3) obtain r where
    r: "jm_get (foldl (\<lambda>m g. map_group g m) [] (gf_groups f)) i = Some r" "r = the (jm_get claimed i)" by fastforce
  with c assms(2,3) show ?thesis by (simp add: resolveRootCause_def rootCauseByFindingId_def)
qed

text \<open>A finding in no group is its own root.\<close>

lemma ungrouped_resolve:
  assumes "\<forall>g\<in>set (gf_groups f). i \<notin> members g"
  shows "resolveRootCause i (Some f) = i"
proof -
  have "jm_get (foldl (\<lambda>m g. map_group g m) m gs) i = jm_get m i" if "\<forall>g\<in>set gs. i \<notin> members g" for m gs
    using that by (induction gs arbitrary: m) (auto simp: map_group_lookup split: option.splits)
  with assms show ?thesis by (simp add: resolveRootCause_def rootCauseByFindingId_def)
qed

text \<open>A sidecar that is there cannot be loaded without the bytes of the findings file.\<close>

lemma unhashed_load_fails: "\<exists>e. loadFindingGroups sha (Sidecar g) ledger None = Inl e"
  by (simp add: loadFindingGroups_def)

end
