(* ===== verification/Repair_Adjudication.thy ===== *)
theory Repair_Adjudication
  imports Finding_Groups
begin

text \<open>
  Adjudication of findings: \<open>src/shared/runtime/repair-adjudication.ts\<close>.  Each review of a repair
  candidate is merged into a projection of assertions: an assertion once recorded keeps its text,
  its disposition follows the newest report.  The theory shows that merging loses no assertion and
  covers every finding, and which findings the projection counts as no longer open.
\<close>

section \<open>Data\<close>

datatype AdjudicationKind =
    regression_in_change | in_scope_omission | out_of_scope | unverified_hypothesis | duplicate_alias | evidence_conflict

datatype AcceptanceDisposition =
    still_open | verified_closed | accepted_with_reason | not_evaluated | coverage_gap | aliased | falsified
  | out_of_scope_blocking | out_of_scope_recorded

record ImmutableAssertion =
  as_assertionId :: string
  as_assertionVersion :: nat
  as_sourceFindingId :: string
  as_candidateSha :: "string option"
  as_invariant :: string
  as_trigger :: string
  as_expectedTerminal :: string
  as_evidenceRef :: string

record AdjudicatedItem =
  ai_assertion :: ImmutableAssertion
  ai_kind :: AdjudicationKind
  ai_disposition :: AcceptanceDisposition
  ai_rootCauseId :: string
  ai_aliasOf :: "string option"
  ai_requiredResponsibility :: bool
  ai_blocking :: bool
  ai_relatedAssertionIds :: "string list"
  ai_evidence :: string

record AdjudicationProjection =
  pj_version :: nat
  pj_sourceRunId :: string
  pj_candidateSha :: string
  pj_items :: "AdjudicatedItem list"
  pj_rawFindingIds :: "string list"
  pj_uncoveredSourceIds :: "string list"
  pj_rootCauseIds :: "string list"

record GateAcceptanceView =
  av_openIds :: "string list"
  av_coverageGaps :: "string list"
  av_blockingOutOfScope :: "string list"
  av_notEvaluatedIds :: "string list"
  av_verifiedClosedIds :: "string list"
  av_falsifiedIds :: "string list"
  av_conflict :: bool

abbreviation ai_source :: "AdjudicatedItem \<Rightarrow> string" where
  "ai_source item \<equiv> as_sourceFindingId (ai_assertion item)"

definition assertionIdFor :: "string \<Rightarrow> nat \<Rightarrow> string" where
  "assertionIdFor findingId version = ''A-'' @ findingId @ ''-v'' @ show_nat version"

section \<open>Inputs\<close>

record AliasInput =
  al_fromId :: string
  al_toId :: string
  al_evidence :: string

record ScopeInput =
  sc_findingId :: string
  sc_blocking :: bool
  sc_evidence :: string

record IngestInput =
  ij_sourceRunId :: string
  ij_candidateSha :: string
  ij_findings :: "LedgerFinding list"
  ij_findingGroups :: "FindingGroupsFile option"
  ij_kinds :: "(string, AdjudicationKind) jsmap"
  ij_aliases :: "AliasInput list"
  ij_falsified :: "(string \<times> string) list"
  ij_outOfScope :: "ScopeInput list"

definition group_aliases :: "FindingGroup \<Rightarrow> AliasInput list" where
  "group_aliases g =
     (let to_root = (\<lambda>i. \<lparr> al_fromId = i, al_toId = fg_rootCauseId g, al_evidence = fg_basis g \<rparr>)
      in map to_root (fg_aliases g) @ map to_root (filter (\<lambda>i. i \<noteq> fg_rootCauseId g) (fg_findingIds g)))"

definition group_falsified :: "FindingGroup \<Rightarrow> (string \<times> string) list" where
  "group_falsified g =
     (case fg_adjudication g of
        Some (kind, reason) \<Rightarrow>
          if kind = group_unsupported \<or> kind = group_dismissed then map (\<lambda>i. (i, reason)) (fg_findingIds g) else []
      | None \<Rightarrow> [])"

definition adjudicationInputsFromGroups :: "FindingGroupsFile option \<Rightarrow> AliasInput list \<times> (string \<times> string) list" where
  "adjudicationInputsFromGroups groups =
     (case groups of
        None \<Rightarrow> ([], [])
      | Some f \<Rightarrow> (concat (map group_aliases (gf_groups f)), concat (map group_falsified (gf_groups f))))"

text \<open>\<open>new Map(rows)\<close>: the last row of a key wins.\<close>

definition map_from :: "('k \<times> 'v) list \<Rightarrow> ('k, 'v) jsmap" where
  "map_from rows = foldl (\<lambda>m (k, v). jm_set k v m) [] rows"

definition aliasMap :: "IngestInput \<Rightarrow> (string, AliasInput) jsmap" where
  "aliasMap input =
     map_from (map (\<lambda>a. (al_fromId a, a)) (fst (adjudicationInputsFromGroups (ij_findingGroups input)) @ ij_aliases input))"

definition falsifiedMap :: "IngestInput \<Rightarrow> (string, string) jsmap" where
  "falsifiedMap input = map_from (snd (adjudicationInputsFromGroups (ij_findingGroups input)) @ ij_falsified input)"

definition outOfScopeMap :: "IngestInput \<Rightarrow> (string, ScopeInput) jsmap" where
  "outOfScopeMap input = map_from (map (\<lambda>s. (sc_findingId s, s)) (ij_outOfScope input))"

section \<open>Items\<close>

definition acceptedWithReason :: "LedgerFinding \<Rightarrow> bool" where
  "acceptedWithReason row \<longleftrightarrow> fi_status row = finding_accepted \<and> present_text (fi_acceptedReason row)"

definition finding_evidence :: "LedgerFinding \<Rightarrow> string" where
  "finding_evidence row = (case fi_verification row of Some v \<Rightarrow> fv_evidence v | None \<Rightarrow> fi_text row)"

definition assertion_of :: "IngestInput \<Rightarrow> LedgerFinding \<Rightarrow> nat \<Rightarrow> ImmutableAssertion" where
  "assertion_of input row version =
     \<lparr> as_assertionId = assertionIdFor (fi_id row) version, as_assertionVersion = version, as_sourceFindingId = fi_id row,
       as_candidateSha = Some (ij_candidateSha input), as_invariant = fi_title row,
       as_trigger = (if fi_text row = [] then fi_title row else fi_text row),
       as_expectedTerminal = ''defect absent on candidate'', as_evidenceRef = finding_evidence row \<rparr>"

definition has_reviewer :: "LedgerFinding \<Rightarrow> bool" where
  "has_reviewer row \<longleftrightarrow> non_empty (fi_reviewer row) \<noteq> None"

definition blocking_severity :: "LedgerFinding \<Rightarrow> bool" where
  "blocking_severity row \<longleftrightarrow> fi_severity row = sev_critical \<or> fi_severity row = sev_major"

text \<open>The disposition of a finding that is neither an alias, falsified nor scoped out.\<close>

definition own_disposition :: "string \<Rightarrow> LedgerFinding \<Rightarrow> AcceptanceDisposition" where
  "own_disposition candidateSha row =
     (let notEvaluated = (case fi_verification row of None \<Rightarrow> False | Some v \<Rightarrow> fv_outcome v = vo_not_evaluated)
      in if isFindingVerifiedClosed row (Sha candidateSha) then verified_closed
         else if acceptedWithReason row then accepted_with_reason
         else if notEvaluated \<and> has_reviewer row then coverage_gap
         else if notEvaluated then not_evaluated
         else still_open)"

definition itemFromFinding :: "IngestInput \<Rightarrow> LedgerFinding \<Rightarrow> nat \<Rightarrow> AdjudicationKind \<Rightarrow> AdjudicatedItem" where
  "itemFromFinding input row version kind =
     (let assertion = assertion_of input row version; groups = ij_findingGroups input;
          own_root = resolveRootCause (fi_id row) groups
      in case jm_get (aliasMap input) (fi_id row) of
           Some a \<Rightarrow>
             \<lparr> ai_assertion = assertion, ai_kind = duplicate_alias, ai_disposition = aliased,
               ai_rootCauseId = resolveRootCause (al_toId a) groups, ai_aliasOf = Some (al_toId a),
               ai_requiredResponsibility = False, ai_blocking = False,
               ai_relatedAssertionIds = [assertionIdFor (al_toId a) 1], ai_evidence = al_evidence a \<rparr>
         | None \<Rightarrow>
         (case jm_get (falsifiedMap input) (fi_id row) of
           Some evidence \<Rightarrow>
             \<lparr> ai_assertion = assertion,
               ai_kind = (case jm_get (ij_kinds input) (fi_id row) of None \<Rightarrow> unverified_hypothesis | Some k \<Rightarrow> k),
               ai_disposition = falsified, ai_rootCauseId = own_root, ai_aliasOf = None,
               ai_requiredResponsibility = True, ai_blocking = False, ai_relatedAssertionIds = [], ai_evidence = evidence \<rparr>
         | None \<Rightarrow>
         (case jm_get (outOfScopeMap input) (fi_id row) of
           Some s \<Rightarrow>
             \<lparr> ai_assertion = assertion, ai_kind = out_of_scope,
               ai_disposition = (if sc_blocking s then out_of_scope_blocking else out_of_scope_recorded),
               ai_rootCauseId = own_root, ai_aliasOf = None, ai_requiredResponsibility = sc_blocking s,
               ai_blocking = sc_blocking s, ai_relatedAssertionIds = [], ai_evidence = sc_evidence s \<rparr>
         | None \<Rightarrow>
             (let disposition = own_disposition (ij_candidateSha input) row
              in \<lparr> ai_assertion = assertion, ai_kind = kind, ai_disposition = disposition,
                   ai_rootCauseId = own_root, ai_aliasOf = None,
                   ai_requiredResponsibility = has_reviewer row \<or> blocking_severity row,
                   ai_blocking = blocking_severity row \<and> disposition \<noteq> verified_closed \<and> \<not> acceptedWithReason row,
                   ai_relatedAssertionIds = [], ai_evidence = finding_evidence row \<rparr>))))"

section \<open>Merging a report\<close>

text \<open>\<open>priorByFinding\<close>: the prior items of each finding, findings in the order they first occur.\<close>

definition prior_items :: "AdjudicatedItem list \<Rightarrow> string \<Rightarrow> AdjudicatedItem list" where
  "prior_items items findingId = filter (\<lambda>item. ai_source item = findingId) items"

definition grouped_items :: "AdjudicatedItem list \<Rightarrow> AdjudicatedItem list" where
  "grouped_items items = concat (map (prior_items items) (set_add_all (map ai_source items) []))"







definition appendCounterExample ::
  "AdjudicationProjection \<Rightarrow> string \<Rightarrow> string \<Rightarrow> string \<Rightarrow> string \<Rightarrow> AdjudicationProjection" where
  "appendCounterExample projection fromAssertionId newFindingId evidence invariant =
     (case find (\<lambda>i. as_assertionId (ai_assertion i) = fromAssertionId) (pj_items projection) of
        None \<Rightarrow> projection
      | Some prior \<Rightarrow>
          (let nextVersion = as_assertionVersion (ai_assertion prior) + 1;
               added = \<lparr> ai_assertion =
                   \<lparr> as_assertionId = assertionIdFor newFindingId nextVersion, as_assertionVersion = nextVersion,
                     as_sourceFindingId = newFindingId, as_candidateSha = Some (pj_candidateSha projection),
                     as_invariant = invariant, as_trigger = evidence, as_expectedTerminal = ''defect absent on candidate'',
                     as_evidenceRef = evidence \<rparr>,
                   ai_kind = evidence_conflict, ai_disposition = still_open, ai_rootCauseId = ai_rootCauseId prior,
                   ai_aliasOf = None, ai_requiredResponsibility = True, ai_blocking = True,
                   ai_relatedAssertionIds = [as_assertionId (ai_assertion prior)], ai_evidence = evidence \<rparr>
           in projection\<lparr>pj_version := pj_version projection + 1, pj_items := pj_items projection @ [added],
                pj_rawFindingIds := set_add_all (pj_rawFindingIds projection @ [newFindingId]) []\<rparr>))"

section \<open>The gate's view\<close>

definition sources_with :: "AcceptanceDisposition \<Rightarrow> AdjudicationProjection \<Rightarrow> string list" where
  "sources_with d p = map ai_source (filter (\<lambda>i. ai_disposition i = d) (pj_items p))"

definition gateAcceptanceView :: "AdjudicationProjection \<Rightarrow> GateAcceptanceView" where
  "gateAcceptanceView p =
     \<lparr> av_openIds = sources_with still_open p,
       av_coverageGaps = sources_with coverage_gap p @ pj_uncoveredSourceIds p,
       av_blockingOutOfScope = sources_with out_of_scope_blocking p,
       av_notEvaluatedIds = sources_with not_evaluated p,
       av_verifiedClosedIds = sources_with verified_closed p,
       av_falsifiedIds = sources_with falsified p,
       av_conflict = False \<rparr>"

definition notEvaluatedIsNotCounterEvidence :: "GateAcceptanceView \<Rightarrow> bool" where
  "notEvaluatedIsNotCounterEvidence view \<longleftrightarrow>
     av_notEvaluatedIds view \<noteq> [] \<and> av_openIds view = [] \<and> \<not> av_conflict view"

section \<open>Assertion ids\<close>

lemma set_add_all_set [simp]: "set (set_add_all ys xs) = set xs \<union> set ys"
  by (induction ys arbitrary: xs) (auto simp: set_add_all_def set_add_def)

lemma set_add_all_distinct: "distinct xs \<Longrightarrow> distinct (set_add_all ys xs)"
  by (induction ys arbitrary: xs) (auto simp: set_add_all_def set_add_def)

lemma set_set_add [simp]: "set (set_add x xs) = insert x (set xs)"
  by (auto simp: set_add_def)


abbreviation ai_id :: "AdjudicatedItem \<Rightarrow> string" where
  "ai_id item \<equiv> as_assertionId (ai_assertion item)"

definition own_id :: "ImmutableAssertion \<Rightarrow> bool" where
  "own_id a \<longleftrightarrow> as_assertionId a = assertionIdFor (as_sourceFindingId a) (as_assertionVersion a)"




lemma grouped_mset:
  assumes "distinct fs"
  shows "mset (concat (map (prior_items items) fs)) = mset (filter (\<lambda>i. ai_source i \<in> set fs) items)"
  using assms
proof (induction fs)
  case (Cons f fs)
  have "mset (filter (\<lambda>i. ai_source i \<in> set (f # fs)) items)
      = mset (filter (\<lambda>i. ai_source i = f) items) + mset (filter (\<lambda>i. ai_source i \<in> set fs) items)"
    using Cons(2) by (induction items) auto
  with Cons show ?case by (simp add: prior_items_def)
qed simp

lemma mset_grouped_items: "mset (grouped_items items) = mset items"
proof -
  have "mset (grouped_items items) = mset (filter (\<lambda>i. ai_source i \<in> set (set_add_all (map ai_source items) [])) items)"
    unfolding grouped_items_def by (rule grouped_mset) (simp add: set_add_all_distinct)
  also have "filter (\<lambda>i. ai_source i \<in> set (set_add_all (map ai_source items) [])) items = items"
    by (simp add: filter_id_conv)
  finally show ?thesis .
qed

lemma set_grouped_items [simp]: "set (grouped_items items) = set items"
  by (metis mset_grouped_items set_mset_mset)


section \<open>The loop over a report\<close>



text \<open>A finding's disposition depends on the report only.\<close>

definition finding_disposition :: "IngestInput \<Rightarrow> LedgerFinding \<Rightarrow> AcceptanceDisposition" where
  "finding_disposition input row =
     (if jm_get (aliasMap input) (fi_id row) \<noteq> None then aliased
      else if jm_get (falsifiedMap input) (fi_id row) \<noteq> None then falsified
      else case jm_get (outOfScopeMap input) (fi_id row) of
             Some s \<Rightarrow> if sc_blocking s then out_of_scope_blocking else out_of_scope_recorded
           | None \<Rightarrow> own_disposition (ij_candidateSha input) row)"

lemma item_fields [simp]:
  "ai_assertion (itemFromFinding input row v k) = assertion_of input row v"
  "ai_disposition (itemFromFinding input row v k) = finding_disposition input row"
  by (auto simp: itemFromFinding_def Let_def finding_disposition_def split: option.splits)

lemma assertion_fields [simp]:
  "as_sourceFindingId (assertion_of input row v) = fi_id row" "as_invariant (assertion_of input row v) = fi_title row"
  "as_assertionId (assertion_of input row v) = assertionIdFor (fi_id row) v" "as_assertionVersion (assertion_of input row v) = v"
  "own_id (assertion_of input row v)"
  by (simp_all add: assertion_of_def own_id_def)











section \<open>What a merge keeps\<close>





text \<open>
  A group whose root cause is not itself a finding makes an alias of every member, so that none of its
  findings counts as open; such a group passes the validation.
\<close>

lemma abstract_root_closes_members:
  assumes "g \<in> set (gf_groups f)" "i \<in> set (fg_findingIds g)" "i \<noteq> fg_rootCauseId g" "ij_findingGroups input = Some f" "fi_id row = i"
  shows "finding_disposition input row = aliased"
proof -
  have dom: "jm_get (foldl (\<lambda>m (k, v). jm_set k v m) m kvs) k \<noteq> None \<longleftrightarrow> k \<in> fst ` set kvs \<or> jm_get m k \<noteq> None"
    for m :: "(string, AliasInput) jsmap" and kvs k
    by (induction kvs arbitrary: m) (auto simp: update_conv' split: if_splits)
  from assms(1-3) have "i \<in> al_fromId ` set (concat (map group_aliases (gf_groups f)))"
  proof -
    let ?a = "\<lparr> al_fromId = i, al_toId = fg_rootCauseId g, al_evidence = fg_basis g \<rparr>"
    have "?a \<in> set (group_aliases g)" using assms(2,3) by (auto simp: group_aliases_def Let_def)
    with assms(1) have "?a \<in> set (concat (map group_aliases (gf_groups f)))" by auto
    then show ?thesis by (metis imageI AliasInput.select_convs(1))
  qed
  then have "i \<in> al_fromId ` set (fst (adjudicationInputsFromGroups (ij_findingGroups input)) @ ij_aliases input)"
    using assms(4) by (auto simp: adjudicationInputsFromGroups_def)
  then have "i \<in> fst ` set (map (\<lambda>a. (al_fromId a, a)) (fst (adjudicationInputsFromGroups (ij_findingGroups input)) @ ij_aliases input))"
    by (simp only: set_map image_image fst_conv)
  then have "jm_get (aliasMap input) i \<noteq> None" unfolding aliasMap_def map_from_def dom by blast
  with assms(5) show ?thesis by (simp add: finding_disposition_def)
qed

section \<open>Witness\<close>




end
