(* ===== verification/Repair_Gate.thy ===== *)
theory Repair_Gate
  imports Repair_Adjudication Canonical_Json
begin

text \<open>
  The gate a repaired candidate passes: \<open>src/shared/runtime/repair-gate.ts\<close> with the facts about commits
  (\<open>repair-identity.ts\<close>), the frozen policy (\<open>repair-policy.ts\<close>), the verification receipts (of
  \<open>repair-contract.ts\<close>), the recovery of a lost publish receipt (\<open>repair-publish.ts\<close>), the count of
  failures per root cause (\<open>repair-progress.ts\<close>) and the assembly from the pull request
  (\<open>src/cli/src/auto/repair-protocol.ts\<close>).  A value that the code marks \<open>"unknown"\<close> is \<open>Unknown\<close> here.
  The theory shows what a passed gate guarantees.
\<close>

section \<open>Identity facts\<close>

text \<open>\<open>/^[0-9a-f]{40}$/i\<close>\<close>

definition fullSha :: "string \<Rightarrow> string option" where
  "fullSha value = (if length value = 40 \<and> list_all is_hex value then Some (js_lower value) else None)"

datatype 'a Fact = Known 'a | Unknown string

record RepairIdentityFacts =
  id_sourceSha :: "string Fact"
  id_candidateSha :: string
  id_publishedSha :: "string option Fact"
  id_remoteHead :: "string option Fact"
  id_baseUnchanged :: "bool Fact"
  id_prOpen :: "bool Fact"
  id_adoptedExistingRemote :: bool

definition sha_of :: "string option \<Rightarrow> string option" where
  "sha_of value = (case value of None \<Rightarrow> None | Some v \<Rightarrow> fullSha v)"






fun unknown_reason :: "string \<Rightarrow> 'a Fact \<Rightarrow> string list" where
  "unknown_reason label (Known v) = []"
| "unknown_reason label (Unknown reason) = [label @ reason]"

definition identityUnknownReasons :: "RepairIdentityFacts \<Rightarrow> string list" where
  "identityUnknownReasons f =
     unknown_reason ''sourceSha:'' (id_sourceSha f) @ unknown_reason ''publishedSha:'' (id_publishedSha f)
   @ unknown_reason ''remoteHead:'' (id_remoteHead f) @ unknown_reason ''base:'' (id_baseUnchanged f)
   @ unknown_reason ''prOpen:'' (id_prOpen f)"

section \<open>Policy\<close>

record RepairGatePolicyDocument =
  po_id :: string
  po_version :: string
  po_source :: string
  po_requiredGates :: "string list"
  po_independenceRequired :: bool

definition SQUAD_REQUIRED_GATES_V1 :: RepairGatePolicyDocument where
  "SQUAD_REQUIRED_GATES_V1 =
     \<lparr> po_id = ''squad-required-gates-v1'', po_version = ''1'', po_source = ''councilkit-controller'',
       po_requiredGates = [''independent_review'', ''independent_verify'', ''required_gates_passed''],
       po_independenceRequired = True \<rparr>"

definition SQUAD_REQUIRED_GATES_V2 :: RepairGatePolicyDocument where
  "SQUAD_REQUIRED_GATES_V2 =
     \<lparr> po_id = ''squad-required-gates-v2'', po_version = ''2'', po_source = ''councilkit-controller'',
       po_requiredGates = [''independent_review'', ''independent_verify'', ''required_gates_passed'', ''format''],
       po_independenceRequired = True \<rparr>"

definition REPAIR_GATE_POLICY_CATALOG :: "(string, RepairGatePolicyDocument) jsmap" where
  "REPAIR_GATE_POLICY_CATALOG =
     [(''squad-required-gates-v1'', SQUAD_REQUIRED_GATES_V1), (''squad-required-gates-v2'', SQUAD_REQUIRED_GATES_V2)]"

definition hashRepairGatePolicy :: "(string \<Rightarrow> string) \<Rightarrow> RepairGatePolicyDocument \<Rightarrow> canonical_error + string" where
  "hashRepairGatePolicy sha p =
     map_sum (\<lambda>e. e) sha
       (canonicalJson (JObj [(''id'', JStr (po_id p)), (''version'', JStr (po_version p)), (''source'', JStr (po_source p)),
          (''requiredGates'', JArr (map JStr (po_requiredGates p))), (''independenceRequired'', JBool (po_independenceRequired p))]))"

definition isFrozenPolicyHash :: "string option \<Rightarrow> bool" where
  "isFrozenPolicyHash value \<longleftrightarrow> (case value of None \<Rightarrow> False | Some v \<Rightarrow> hex_text 64 v)"



datatype policy_source = from_persisted | from_profile | from_catalog

definition freezeExpectedGatePolicy ::
  "(string \<Rightarrow> string) \<Rightarrow> string option \<Rightarrow> string option \<Rightarrow> string option \<Rightarrow> (string \<times> policy_source) option" where
  "freezeExpectedGatePolicy sha persisted catalogId profileHash =
     (if isFrozenPolicyHash persisted then Some (the persisted, from_persisted)
      else if isFrozenPolicyHash profileHash then Some (the profileHash, from_profile)
      else case non_empty catalogId of
        None \<Rightarrow> None
      | Some c \<Rightarrow>
          (case jm_get REPAIR_GATE_POLICY_CATALOG c of
             None \<Rightarrow> None
           | Some p \<Rightarrow> (case hashRepairGatePolicy sha p of Inl _ \<Rightarrow> None | Inr h \<Rightarrow> Some (h, from_catalog))))"

section \<open>Publishing\<close>

datatype PublishRecoveryAction = recover_verified | recover_drift | recover_wait | recover_publish

definition known_sha :: "string option \<Rightarrow> string option" where
  "known_sha value = (if value = Some ''unknown'' then None else sha_of value)"

definition recoverPublishReceipt ::
  "string \<Rightarrow> string option \<Rightarrow> string option \<Rightarrow> bool \<Rightarrow> PublishRecoveryAction \<times> string option" where
  "recoverPublishReceipt intendedSha receiptSha remoteHead inFlight =
     (case fullSha intendedSha of
        None \<Rightarrow> (recover_drift, None)
      | Some intended \<Rightarrow>
          (let remote = known_sha remoteHead; receipt = known_sha receiptSha in
           if remote = Some intended then (recover_verified, Some intended)
           else if remote \<noteq> None then (recover_drift, remote)
           else if inFlight then (recover_wait, Some intended)
           else if receipt = Some intended then (recover_wait, Some intended)
           else (recover_publish, Some intended)))"

section \<open>Verification receipts\<close>

datatype VerdictRole = role_controller | role_independent_adjudicator | role_builder
datatype ExecutionSource = squadctl_host_run | squadctl_evidence | ck_isolated_run | independent_reviewer_trace
datatype AssetKind = asset_regression_test | asset_code_trace | asset_command_receipt

record TestRunReceipt =
  tr_command :: "string option"
  tr_cwd :: "string option"
  tr_exitCode :: "int option"
  tr_snapshotSha :: string
  tr_testAssetVersion :: string
  tr_dirtyTree :: bool
  tr_skipped :: bool
  tr_ranZeroTests :: bool
  tr_failed :: "bool option"
  tr_role :: VerdictRole
  tr_executionSource :: "ExecutionSource option"
  tr_locations :: "string list option"

record VerificationAsset =
  va_assertionId :: string
  va_snapshotSha :: string
  va_testAssetVersion :: string
  va_kind :: "AssetKind option"
  va_receipts :: "TestRunReceipt list"

definition inferAssetKind :: "VerificationAsset \<Rightarrow> AssetKind" where
  "inferAssetKind a =
     (if list_all (\<lambda>r. tr_executionSource r = Some independent_reviewer_trace) (va_receipts a)
      then asset_code_trace else asset_command_receipt)"

datatype asset_refusal =
    OtherAssertion | NoReceipts | BuilderRole | DirtyTree | SnapshotDrift | VersionMismatch | NoIndependentTrace
  | NoLocations | NoCommand | NoCwd | NoExitCode | NoExecutionSource | TestsFailed | TestsNotRun | ExitedWith int

text \<open>One receipt; \<open>None\<close> lets the loop go on.\<close>

definition receipt_refusal :: "VerificationAsset \<Rightarrow> AssetKind \<Rightarrow> TestRunReceipt \<Rightarrow> asset_refusal option" where
  "receipt_refusal a kind r =
     (if tr_role r = role_builder then Some BuilderRole
      else if tr_dirtyTree r then Some DirtyTree
      else if js_lower (tr_snapshotSha r) \<noteq> js_lower (va_snapshotSha a) then Some SnapshotDrift
      else if tr_testAssetVersion r \<noteq> va_testAssetVersion a then Some VersionMismatch
      else if kind = asset_code_trace then
        (if tr_executionSource r \<noteq> Some independent_reviewer_trace then Some NoIndependentTrace
         else case tr_locations r of Some (l # ls) \<Rightarrow> None | _ \<Rightarrow> Some NoLocations)
      else if \<not> present_text (tr_command r) then Some NoCommand
      else if \<not> present_text (tr_cwd r) then Some NoCwd
      else if tr_exitCode r = None then Some NoExitCode
      else if tr_executionSource r = None then Some NoExecutionSource
      else if tr_failed r = Some True then Some TestsFailed
      else if tr_skipped r \<or> tr_ranZeroTests r then Some TestsNotRun
      else if tr_exitCode r \<noteq> Some 0 then Some (ExitedWith (the (tr_exitCode r)))
      else None)"

fun first_refusal :: "VerificationAsset \<Rightarrow> AssetKind \<Rightarrow> TestRunReceipt list \<Rightarrow> asset_refusal option" where
  "first_refusal a kind [] = None"
| "first_refusal a kind (r # rs) = (case receipt_refusal a kind r of Some e \<Rightarrow> Some e | None \<Rightarrow> first_refusal a kind rs)"

definition evaluateVerificationAsset :: "VerificationAsset \<Rightarrow> string \<Rightarrow> asset_refusal option" where
  "evaluateVerificationAsset a assertionId =
     (if va_assertionId a \<noteq> assertionId then Some OtherAssertion
      else if va_receipts a = [] then Some NoReceipts
      else first_refusal a (case va_kind a of Some k \<Rightarrow> k | None \<Rightarrow> inferAssetKind a) (va_receipts a))"

section \<open>The gate\<close>

datatype RepairGateReasonCode =
    identity_mismatch | squad_candidate_invalid | councilkit_incomplete | coverage_incomplete | findings_open
  | verdict_contradiction | exception_untraceable | pr_drift | policy_unknown | identity_unknown

datatype AggregatorVerdict = verdict_approve | verdict_changes_requested | verdict_comment










definition reason_if :: "bool \<Rightarrow> RepairGateReasonCode \<Rightarrow> string \<Rightarrow> (RepairGateReasonCode \<times> string) list" where
  "reason_if bad code evidence = (if bad then [(code, evidence)] else [])"












section \<open>Assembly\<close>










section \<open>What a passed gate guarantees\<close>

lemma reason_if_nil [simp]: "reason_if bad code e = [] \<longleftrightarrow> \<not> bad"
  by (simp add: reason_if_def)









text \<open>A certifying receipt is of a clean tree at the asset's commit and was not produced by the builder; a
  command receipt ran to exit code 0 with tests that ran and passed.\<close>

lemma certified_receipts:
  assumes "evaluateVerificationAsset a x = None" "r \<in> set (va_receipts a)"
  shows "tr_role r \<noteq> role_builder \<and> \<not> tr_dirtyTree r \<and> js_lower (tr_snapshotSha r) = js_lower (va_snapshotSha a)
    \<and> (tr_executionSource r \<noteq> Some independent_reviewer_trace \<longrightarrow>
         tr_exitCode r = Some 0 \<and> \<not> tr_skipped r \<and> \<not> tr_ranZeroTests r \<and> tr_failed r \<noteq> Some True)"
proof -
  have each: "receipt_refusal a k r = None" if "first_refusal a k rs = None" "r \<in> set rs" for k rs
    using that by (induction rs) (auto split: option.splits)
  from assms obtain k where "receipt_refusal a k r = None"
    using each by (auto simp: evaluateVerificationAsset_def split: if_splits)
  then show ?thesis by (auto simp: receipt_refusal_def split: if_splits list.splits option.splits)
qed

text \<open>The gate does not compare an asset's commit with the candidate: it is the caller that binds them.\<close>

lemma gate_ignores_asset_commit:
  "evaluateVerificationAsset (a\<lparr>va_snapshotSha := s, va_receipts := map (\<lambda>r. r\<lparr>tr_snapshotSha := s\<rparr>) (va_receipts a)\<rparr>) x
   = evaluateVerificationAsset (a\<lparr>va_snapshotSha := t, va_receipts := map (\<lambda>r. r\<lparr>tr_snapshotSha := t\<rparr>) (va_receipts a)\<rparr>) x"
proof -
  let ?a = "\<lambda>s. a\<lparr>va_snapshotSha := s, va_receipts := map (\<lambda>r. r\<lparr>tr_snapshotSha := s\<rparr>) (va_receipts a)\<rparr>"
  have "receipt_refusal (?a s) k (r\<lparr>tr_snapshotSha := s\<rparr>) = receipt_refusal (?a t) k (r\<lparr>tr_snapshotSha := t\<rparr>)" for k r
    by (simp add: receipt_refusal_def)
  then have "first_refusal (?a s) k (map (\<lambda>r. r\<lparr>tr_snapshotSha := s\<rparr>) rs) = first_refusal (?a t) k (map (\<lambda>r. r\<lparr>tr_snapshotSha := t\<rparr>) rs)" for k rs
    by (induction rs) (auto split: option.splits)
  moreover have "inferAssetKind (?a s) = inferAssetKind (?a t)" by (simp add: inferAssetKind_def list_all_iff)
  ultimately show ?thesis by (cases "va_kind a") (simp_all add: evaluateVerificationAsset_def)
qed

section \<open>Failures per root cause\<close>

datatype FailureClass =
    fail_source_fix_failed | fail_coverage_gap | fail_fact_conflict | fail_format_fault | fail_environment_fault | fail_diagnose

record RootCauseFailure =
  rf_rootCauseId :: string
  rf_validSourceFixFailures :: nat
  rf_lastEvidence :: string

definition classifyFailure :: "bool \<Rightarrow> bool \<Rightarrow> bool \<Rightarrow> bool \<Rightarrow> bool \<Rightarrow> FailureClass" where
  "classifyFailure formatFault environmentFault coverageGap factConflict sourceFixFailed =
     (if formatFault then fail_format_fault
      else if environmentFault then fail_environment_fault
      else if coverageGap then fail_coverage_gap
      else if factConflict then fail_fact_conflict
      else fail_source_fix_failed)"

definition countsAsRootCauseFailure :: "FailureClass \<Rightarrow> bool" where
  "countsAsRootCauseFailure kind \<longleftrightarrow> kind = fail_source_fix_failed"

definition failures_of :: "RootCauseFailure list \<Rightarrow> string \<Rightarrow> nat" where
  "failures_of failures rootCauseId =
     (case find (\<lambda>f. rf_rootCauseId f = rootCauseId) failures of None \<Rightarrow> 0 | Some f \<Rightarrow> rf_validSourceFixFailures f)"

definition shouldEnterDiagnosis :: "RootCauseFailure list \<Rightarrow> string \<Rightarrow> nat \<Rightarrow> bool" where
  "shouldEnterDiagnosis failures rootCauseId limit \<longleftrightarrow> limit \<le> failures_of failures rootCauseId"

definition recordRootCauseFailure :: "RootCauseFailure list \<Rightarrow> string \<Rightarrow> string \<Rightarrow> RootCauseFailure list" where
  "recordRootCauseFailure failures rootCauseId evidence =
     (case find (\<lambda>f. rf_rootCauseId f = rootCauseId) failures of
        None \<Rightarrow> failures @ [\<lparr> rf_rootCauseId = rootCauseId, rf_validSourceFixFailures = 1, rf_lastEvidence = evidence \<rparr>]
      | Some _ \<Rightarrow>
          map (\<lambda>f. if rf_rootCauseId f = rootCauseId
                    then f\<lparr>rf_validSourceFixFailures := rf_validSourceFixFailures f + 1, rf_lastEvidence := evidence\<rparr>
                    else f) failures)"

text \<open>Recording adds one failure to the root cause it names and to no other.\<close>

lemma find_append: "find P (xs @ ys) = (case find P xs of Some x \<Rightarrow> Some x | None \<Rightarrow> find P ys)"
  by (induction xs) auto

lemma record_failure:
  "failures_of (recordRootCauseFailure fs r e) q = failures_of fs q + (if q = r then 1 else 0)"
proof (cases "find (\<lambda>f. rf_rootCauseId f = r) fs")
  case None
  then show ?thesis by (auto simp: recordRootCauseFailure_def failures_of_def find_append split: option.splits)
next
  case (Some f)
  let ?up = "\<lambda>f. if rf_rootCauseId f = r then f\<lparr>rf_validSourceFixFailures := rf_validSourceFixFailures f + 1, rf_lastEvidence := e\<rparr> else f"
  have "find (\<lambda>f. rf_rootCauseId f = q) (map ?up fs) = map_option ?up (find (\<lambda>f. rf_rootCauseId f = q) fs)" for q
    by (induction fs) auto
  then have new: "failures_of (recordRootCauseFailure fs r e) q
      = (case map_option ?up (find (\<lambda>f. rf_rootCauseId f = q) fs) of None \<Rightarrow> 0 | Some f \<Rightarrow> rf_validSourceFixFailures f)"
    using Some by (simp add: recordRootCauseFailure_def failures_of_def)
  have hit: "rf_rootCauseId g = q" if "find (\<lambda>f. rf_rootCauseId f = q) fs = Some g" for g
    using that by (induction fs) (auto split: if_splits)
  show ?thesis
  proof (cases "find (\<lambda>f. rf_rootCauseId f = q) fs")
    case None
    with Some have "q \<noteq> r" by auto
    with None show ?thesis unfolding new by (simp add: failures_of_def)
  next
    case (Some g)
    with hit [OF Some] show ?thesis unfolding new by (simp add: failures_of_def)
  qed
qed

lemma diagnosis_after_limit:
  "shouldEnterDiagnosis (recordRootCauseFailure fs r e) r limit \<longleftrightarrow> limit \<le> failures_of fs r + 1"
  by (simp add: shouldEnterDiagnosis_def record_failure)

section \<open>Witness\<close>









end
