(* ===== verification/Event_Stream.thy ===== *)
theory Event_Stream
  imports Event_Json
begin

text \<open>
  How a client follows an execution: \<open>src/src/runtime/event-stream.ts\<close> (one connection: framing of
  the event stream, delivery, outcome), \<open>src/shared/runtime/follow-reconnect.ts\<close> (whether another
  connection can still bring the terminal event), \<open>src/shared/runtime/generation-timeouts.ts\<close> (the
  limit of a turn and its watchdog) and \<open>src/shared/runtime/cleanup-budget.ts\<close>.  The text of a
  connection is what \<open>TextDecoder\<close> makes of its bytes, \<open>JSON.parse\<close> and the event schema are the
  parameter \<open>decode\<close>.  The theory shows that the framing does not depend on how the text is cut
  into chunks, and that reconnecting to an ended execution comes to an end.
\<close>

section \<open>Blocks\<close>

text \<open>The text before and after the first empty line, if there is one.\<close>

fun cut_block :: "string \<Rightarrow> (string \<times> string) option" where
  "cut_block (c # d # s) =
     (if c = line_feed \<and> d = line_feed then Some ([], s)
      else map_option (\<lambda>(a, b). (c # a, b)) (cut_block (d # s)))"
| "cut_block s = None"

lemma cut_block_length: "cut_block s = Some (a, b) \<Longrightarrow> length b < length s"
  by (induction s arbitrary: a b rule: cut_block.induct) (auto split: if_splits)

function blocks :: "string \<Rightarrow> string list \<times> string" where
  "blocks s = (case cut_block s of
       None \<Rightarrow> ([], s)
     | Some (block, rest) \<Rightarrow> (let (bs, r) = blocks rest in (block # bs, r)))"
  by auto
termination
  by (relation "measure length") (auto dest: cut_block_length)

declare blocks.simps [simp del]

section \<open>One connection\<close>

text \<open>
  What the connection delivers: the decoded text of its chunks, then its end or a failed read.
  \<open>AbortError\<close> is the rejection of an aborted fetch or read.
\<close>

datatype stream_read = Chunk string | ReadAborted | ReadFails string

datatype fetch_reply = FetchAborted | FetchFails string | HttpStatus nat | HttpBody "stream_read list"

datatype stream_failure = StreamAborted | EventStreamError nat string | EventRejected

datatype FollowOutcome = follow_terminal RuntimeEvent | follow_closed nat | follow_aborted nat

record follow_state =
  fw_buffer :: string
  fw_lastSeq :: nat
  fw_terminal :: "RuntimeEvent option"
  fw_delivered :: "RuntimeEvent list"

type_synonym decoder = "string \<Rightarrow> RuntimeEvent option"

definition deliver :: "RuntimeEvent \<Rightarrow> follow_state \<Rightarrow> follow_state" where
  "deliver event st = st\<lparr> fw_lastSeq := max (fw_lastSeq st) (ev_seq event),
     fw_delivered := fw_delivered st @ [event],
     fw_terminal := (if isTerminalEvent event then Some event else fw_terminal st)\<rparr>"

text \<open>\<open>None\<close>: the schema or the JSON parser throws.\<close>

definition block_data :: "string \<Rightarrow> string option" where
  "block_data block =
     (if str_includes block ''event: runtime'' then find (\<lambda>line. starts_with line ''data: '') (split_lines block)
      else None)"

definition dispatchBlock :: "decoder \<Rightarrow> string \<Rightarrow> follow_state \<Rightarrow> follow_state option" where
  "dispatchBlock decode block st =
     (case block_data block of
        None \<Rightarrow> Some st
      | Some line \<Rightarrow> map_option (\<lambda>event. deliver event st) (decode (drop 6 line)))"

fun dispatch_all :: "decoder \<Rightarrow> string list \<Rightarrow> follow_state \<Rightarrow> follow_state option" where
  "dispatch_all decode [] st = Some st"
| "dispatch_all decode (block # rest) st = Option.bind (dispatchBlock decode block st) (dispatch_all decode rest)"

definition feed_chunk :: "decoder \<Rightarrow> string \<Rightarrow> follow_state \<Rightarrow> follow_state option" where
  "feed_chunk decode text st =
     (let (bs, rest) = blocks (fw_buffer st @ text)
      in dispatch_all decode bs (st\<lparr>fw_buffer := rest\<rparr>))"

fun read_stream :: "decoder \<Rightarrow> stream_read list \<Rightarrow> follow_state \<Rightarrow> stream_failure + follow_state" where
  "read_stream decode [] st = Inr st"
| "read_stream decode (ReadAborted # rest) st = Inl StreamAborted"
| "read_stream decode (ReadFails message # rest) st =
     Inl (EventStreamError 0 (if message \<noteq> [] then message else ''event stream read failed''))"
| "read_stream decode (Chunk text # rest) st =
     (case feed_chunk decode text st of
        None \<Rightarrow> Inl EventRejected
      | Some st' \<Rightarrow> if fw_terminal st' \<noteq> None then Inr st' else read_stream decode rest st')"

definition follow_start :: "nat \<Rightarrow> follow_state" where
  "follow_start afterSeq = \<lparr>fw_buffer = [], fw_lastSeq = afterSeq, fw_terminal = None, fw_delivered = []\<rparr>"

definition follow_outcome :: "bool \<Rightarrow> follow_state \<Rightarrow> FollowOutcome" where
  "follow_outcome signalAborted st =
     (case fw_terminal st of
        Some event \<Rightarrow> follow_terminal event
      | None \<Rightarrow> if signalAborted then follow_aborted (fw_lastSeq st) else follow_closed (fw_lastSeq st))"

definition followExecutionEvents ::
  "decoder \<Rightarrow> nat \<Rightarrow> fetch_reply \<Rightarrow> bool \<Rightarrow> stream_failure + FollowOutcome" where
  "followExecutionEvents decode afterSeq reply signalAborted =
     (case reply of
        FetchAborted \<Rightarrow> Inl StreamAborted
      | FetchFails message \<Rightarrow> Inl (EventStreamError 0 (if message \<noteq> [] then message else ''event stream fetch failed''))
      | HttpStatus n \<Rightarrow> Inl (EventStreamError n (''event stream HTTP '' @ show_nat n))
      | HttpBody reads \<Rightarrow> map_sum id (follow_outcome signalAborted) (read_stream decode reads (follow_start afterSeq)))"

section \<open>Reconnecting\<close>

record FollowCloseSnapshot =
  fc_state :: ExecutionState
  fc_lastSeq :: int

datatype FollowAfterClose = follow_reconnect bool | stop_lost | stop_exhausted

definition decideFollowAfterClose ::
  "FollowCloseSnapshot option \<Rightarrow> nat \<Rightarrow> bool \<Rightarrow> bool \<Rightarrow> FollowAfterClose" where
  "decideFollowAfterClose snapshot consumedSeq progressed catchUpSpent =
     (case snapshot of
        None \<Rightarrow> stop_lost
      | Some s \<Rightarrow>
          if fc_state s = exec_running then follow_reconnect False
          else if \<not> int consumedSeq < fc_lastSeq s then stop_exhausted
          else if progressed then follow_reconnect False
          else if \<not> catchUpSpent then follow_reconnect True
          else stop_exhausted)"

section \<open>The limit of a turn\<close>

datatype DriverOutputMode = mode_streaming | mode_oneshot

fun DRIVER_OUTPUT_MODE :: "DriverId \<Rightarrow> DriverOutputMode" where
  "DRIVER_OUTPUT_MODE claude_stream_json = mode_streaming"
| "DRIVER_OUTPUT_MODE codex_app_server = mode_streaming"
| "DRIVER_OUTPUT_MODE kimi_stream_json = mode_oneshot"
| "DRIVER_OUTPUT_MODE grok_stream_json = mode_oneshot"
| "DRIVER_OUTPUT_MODE cursor_stream_json = mode_oneshot"

fun DRIVER_TOOL_NAMES :: "DriverId \<Rightarrow> string" where
  "DRIVER_TOOL_NAMES claude_stream_json = ''Claude''"
| "DRIVER_TOOL_NAMES codex_app_server = ''Codex''"
| "DRIVER_TOOL_NAMES kimi_stream_json = ''Kimi''"
| "DRIVER_TOOL_NAMES grok_stream_json = ''Grok''"
| "DRIVER_TOOL_NAMES cursor_stream_json = ''Cursor''"

definition isOneShotDriver :: "DriverId option \<Rightarrow> bool" where
  "isOneShotDriver driverId = (case driverId of None \<Rightarrow> False | Some d \<Rightarrow> DRIVER_OUTPUT_MODE d = mode_oneshot)"

definition driverToolName :: "DriverId option \<Rightarrow> string option" where
  "driverToolName driverId = map_option DRIVER_TOOL_NAMES driverId"

record GenerationTimeouts =
  gt_streamIdleMs :: nat
  gt_oneshotMs :: nat

definition GENERATION_TIMEOUTS :: GenerationTimeouts where
  "GENERATION_TIMEOUTS = \<lparr>gt_streamIdleMs = 120000, gt_oneshotMs = 600000\<rparr>"

definition GENERATION_CLIENT_GRACE_MS :: nat where
  "GENERATION_CLIENT_GRACE_MS = 30000"

record GenerationRule =
  gr_mode :: DriverOutputMode
  gr_limitMs :: nat
  gr_code :: RuntimeErrorCode
  gr_message :: string

definition generationRule :: "DriverId \<Rightarrow> GenerationTimeouts \<Rightarrow> GenerationRule" where
  "generationRule driverId timeouts =
     (if DRIVER_OUTPUT_MODE driverId = mode_oneshot
      then \<lparr>gr_mode = mode_oneshot, gr_limitMs = gt_oneshotMs timeouts, gr_code = ONESHOT_TIMEOUT,
            gr_message = ''One-shot model did not finish within the limit.''\<rparr>
      else \<lparr>gr_mode = mode_streaming, gr_limitMs = gt_streamIdleMs timeouts, gr_code = STREAM_IDLE_TIMEOUT,
            gr_message = ''No model output within the idle limit.''\<rparr>)"

text \<open>
  The watchdog with its timer: the time at which the armed timer is due.  A timer that is due
  runs its callback, which is \<open>watchdog_due\<close>; the result says whether \<open>onTimeout\<close> is called.
\<close>

record watchdog =
  wd_timer :: "nat option"
  wd_cleared :: bool

definition arm :: "nat \<Rightarrow> nat \<Rightarrow> watchdog \<Rightarrow> watchdog" where
  "arm limitMs now w = w\<lparr>wd_timer := Some (now + limitMs)\<rparr>"

definition startGenerationWatchdog :: "nat \<Rightarrow> nat \<Rightarrow> watchdog" where
  "startGenerationWatchdog limitMs now = arm limitMs now \<lparr>wd_timer = None, wd_cleared = False\<rparr>"

definition watchdog_output :: "DriverOutputMode \<Rightarrow> nat \<Rightarrow> nat \<Rightarrow> watchdog \<Rightarrow> watchdog" where
  "watchdog_output mode limitMs now w =
     (if \<not> wd_cleared w \<and> mode = mode_streaming then arm limitMs now w else w)"

definition watchdog_clear :: "watchdog \<Rightarrow> watchdog" where
  "watchdog_clear w = w\<lparr>wd_cleared := True, wd_timer := None\<rparr>"

definition watchdog_due :: "watchdog \<Rightarrow> bool \<times> watchdog" where
  "watchdog_due w =
     (let w' = w\<lparr>wd_timer := None\<rparr>
      in if wd_cleared w' then (False, w') else (True, w'\<lparr>wd_cleared := True\<rparr>))"

section \<open>The cleanup budget\<close>

datatype cleanup_reason = cleanup_deadline | cleanup_disposed

record cleanup_budget =
  cb_timer :: bool
  cb_aborted :: "cleanup_reason option"

definition prepareCleanupBudget :: cleanup_budget where
  "prepareCleanupBudget = \<lparr>cb_timer = False, cb_aborted = None\<rparr>"

definition cleanup_abort :: "cleanup_reason \<Rightarrow> cleanup_budget \<Rightarrow> cleanup_budget" where
  "cleanup_abort reason b = (case cb_aborted b of None \<Rightarrow> b\<lparr>cb_aborted := Some reason\<rparr> | Some _ \<Rightarrow> b)"

definition arm_cleanup :: "cleanup_budget \<Rightarrow> cleanup_budget" where
  "arm_cleanup b = b\<lparr>cb_timer := True\<rparr>"

definition dispose_cleanup :: "cleanup_budget \<Rightarrow> cleanup_budget" where
  "dispose_cleanup b =
     (if cb_aborted b = None then cleanup_abort cleanup_disposed (b\<lparr>cb_timer := False\<rparr>) else b\<lparr>cb_timer := False\<rparr>)"

text \<open>The timer fires only where one is armed.\<close>

definition cleanup_fires :: "cleanup_budget \<Rightarrow> cleanup_budget" where
  "cleanup_fires b = (if cb_timer b then cleanup_abort cleanup_deadline b else b)"

definition startCleanupBudget :: cleanup_budget where
  "startCleanupBudget = arm_cleanup prepareCleanupBudget"

section \<open>Framing does not depend on the chunks\<close>

lemma cut_block_append: "cut_block a = Some (x, y) \<Longrightarrow> cut_block (a @ b) = Some (x, y @ b)"
  by (induction a arbitrary: x y rule: cut_block.induct) (auto split: if_splits)

lemma blocks_append:
  "blocks (a @ b) = (fst (blocks a) @ fst (blocks (snd (blocks a) @ b)), snd (blocks (snd (blocks a) @ b)))"
proof (induction a rule: blocks.induct)
  case (1 s)
  show ?case
  proof (cases "cut_block s")
    case None
    then have "blocks s = ([], s)" by (subst blocks.simps) simp
    then show ?thesis by simp
  next
    case (Some p)
    obtain block rest where p: "p = (block, rest)" by (cases p)
    from Some p have c: "cut_block s = Some (block, rest)" "cut_block (s @ b) = Some (block, rest @ b)"
      by (auto intro: cut_block_append)
    have s: "blocks s = (block # fst (blocks rest), snd (blocks rest))"
      by (subst blocks.simps) (simp add: c split_beta Let_def)
    have sb: "blocks (s @ b) = (block # fst (blocks (rest @ b)), snd (blocks (rest @ b)))"
      by (subst blocks.simps) (simp add: c split_beta Let_def)
    from 1 [OF Some p [symmetric]] show ?thesis by (simp add: s sb)
  qed
qed

lemma blocks_rest: "blocks (snd (blocks s)) = ([], snd (blocks s))"
proof (induction s rule: blocks.induct)
  case (1 s)
  show ?case
  proof (cases "cut_block s")
    case None
    then have "blocks s = ([], s)" by (subst blocks.simps) simp
    then show ?thesis by simp
  next
    case (Some p)
    obtain block rest where p: "p = (block, rest)" by (cases p)
    have s: "snd (blocks s) = snd (blocks rest)"
      by (subst blocks.simps) (simp add: Some p split_beta Let_def)
    from 1 [OF Some p [symmetric]] show ?thesis by (simp add: s)
  qed
qed

lemma deliver_buffer: "deliver e (st\<lparr>fw_buffer := r\<rparr>) = (deliver e st)\<lparr>fw_buffer := r\<rparr>"
  by (simp add: deliver_def)

lemma dispatch_buffer:
  "dispatchBlock decode b (st\<lparr>fw_buffer := r\<rparr>) = map_option (\<lambda>s. s\<lparr>fw_buffer := r\<rparr>) (dispatchBlock decode b st)"
  by (auto simp: dispatchBlock_def deliver_buffer option.map_comp comp_def split: option.splits)

lemma dispatch_all_buffer:
  "dispatch_all decode bs (st\<lparr>fw_buffer := r\<rparr>) = map_option (\<lambda>s. s\<lparr>fw_buffer := r\<rparr>) (dispatch_all decode bs st)"
proof (induction bs arbitrary: st)
  case (Cons b bs)
  then show ?case by (cases "dispatchBlock decode b st") (simp_all add: dispatch_buffer)
qed simp

lemma dispatch_all_append:
  "dispatch_all decode (bs @ cs) st = Option.bind (dispatch_all decode bs st) (dispatch_all decode cs)"
proof (induction bs arbitrary: st)
  case (Cons b bs)
  then show ?case by (cases "dispatchBlock decode b st") simp_all
qed simp

lemma feed_append: "feed_chunk decode (a @ b) st = Option.bind (feed_chunk decode a st) (feed_chunk decode b)"
proof -
  let ?a = "blocks (fw_buffer st @ a)"
  let ?b = "blocks (snd ?a @ b)"
  have all: "blocks (fw_buffer st @ a @ b) = (fst ?a @ fst ?b, snd ?b)"
    using blocks_append [of "fw_buffer st @ a" b] by simp
  show ?thesis
    by (cases "dispatch_all decode (fst ?a) st")
      (simp_all add: feed_chunk_def split_beta Let_def all dispatch_all_buffer dispatch_all_append
        option.map_comp comp_def)
qed

lemma feed_buffer: "feed_chunk decode a st = Some st' \<Longrightarrow> blocks (fw_buffer st') = ([], fw_buffer st')"
  by (auto simp: feed_chunk_def split_beta Let_def dispatch_all_buffer blocks_rest)

text \<open>What a chunk does to the state besides the buffer: it delivers some events.\<close>

definition same_follow :: "follow_state \<Rightarrow> follow_state \<Rightarrow> bool" where
  "same_follow a b \<longleftrightarrow> fw_delivered a = fw_delivered b \<and> fw_lastSeq a = fw_lastSeq b \<and> fw_terminal a = fw_terminal b"

lemma dispatch_delivers:
  "dispatch_all decode bs st = Some st' \<Longrightarrow> \<exists>es. st' = fold deliver es st"
proof (induction bs arbitrary: st)
  case Nil
  then show ?case by (intro exI [of _ "[]"]) simp
next
  case (Cons b bs)
  then obtain st1 where 1: "dispatchBlock decode b st = Some st1" "dispatch_all decode bs st1 = Some st'"
    by (cases "dispatchBlock decode b st") auto
  from Cons.IH [OF 1(2)] obtain es where es: "st' = fold deliver es st1" ..
  show ?case
  proof (cases "block_data b")
    case None
    with 1(1) es show ?thesis by (auto simp: dispatchBlock_def)
  next
    case (Some line)
    with 1(1) obtain e where "st1 = deliver e st" by (auto simp: dispatchBlock_def)
    with es have "st' = fold deliver (e # es) st" by simp
    then show ?thesis ..
  qed
qed

lemma fold_deliver_buffer: "fold deliver es (st\<lparr>fw_buffer := r\<rparr>) = (fold deliver es st)\<lparr>fw_buffer := r\<rparr>"
  by (induction es arbitrary: st) (simp_all add: deliver_buffer)

lemma fold_deliver_delivered: "fw_delivered (fold deliver es st) = fw_delivered st @ es"
  by (induction es arbitrary: st) (simp_all add: deliver_def)

lemma fold_deliver_terminal:
  "(\<And>e. e \<in> set es \<Longrightarrow> \<not> isTerminalEvent e) \<Longrightarrow> fw_terminal (fold deliver es st) = fw_terminal st"
  by (induction es arbitrary: st) (simp_all add: deliver_def)

lemma feed_delivers:
  assumes "feed_chunk decode text st = Some st'"
  obtains es where "same_follow st' (fold deliver es st)" "fw_delivered st' = fw_delivered st @ es"
proof -
  from assms obtain bs r where "dispatch_all decode bs (st\<lparr>fw_buffer := r\<rparr>) = Some st'"
    by (auto simp: feed_chunk_def Let_def split_beta)
  from dispatch_delivers [OF this] obtain es where "st' = (fold deliver es st)\<lparr>fw_buffer := r\<rparr>"
    by (auto simp: fold_deliver_buffer)
  then show ?thesis by (intro that [of es]) (simp_all add: same_follow_def fold_deliver_delivered)
qed

definition terminal_last :: "RuntimeEvent list \<Rightarrow> bool" where
  "terminal_last es \<longleftrightarrow> (\<forall>e\<in>set (butlast es). \<not> isTerminalEvent e)"

lemma terminal_last_split:
  "terminal_last (es @ es') \<Longrightarrow> e \<in> set es \<Longrightarrow> isTerminalEvent e \<Longrightarrow> es' = []"
  by (cases es' rule: rev_cases) (auto simp: terminal_last_def butlast_append)

lemma read_chunks:
  assumes "fw_terminal st = None" "blocks (fw_buffer st) = ([], fw_buffer st)"
    "feed_chunk decode (concat cs) st = Some w" "fw_delivered w = fw_delivered st @ new" "terminal_last new"
  shows "\<exists>st'. read_stream decode (map Chunk cs) st = Inr st' \<and> same_follow st' w"
  using assms
proof (induction cs arbitrary: st new)
  case Nil
  then have "w = st" by (simp add: feed_chunk_def)
  then show ?case by (simp add: same_follow_def)
next
  case (Cons c cs)
  from Cons.prems(3) obtain st1 where f: "feed_chunk decode c st = Some st1"
      "feed_chunk decode (concat cs) st1 = Some w"
    by (auto simp: feed_append bind_eq_Some_conv)
  obtain es where es: "same_follow st1 (fold deliver es st)" "fw_delivered st1 = fw_delivered st @ es"
    by (rule feed_delivers [OF f(1)])
  obtain es' where es': "same_follow w (fold deliver es' st1)" "fw_delivered w = fw_delivered st1 @ es'"
    by (rule feed_delivers [OF f(2)])
  have new: "new = es @ es'" using es(2) es'(2) Cons.prems(4) by simp
  show ?case
  proof (cases "fw_terminal st1")
    case None
    have "terminal_last es'" using Cons.prems(5) by (cases "es' = []") (auto simp: new terminal_last_def butlast_append)
    from Cons.IH [OF None feed_buffer [OF f(1)] f(2) es'(2) this] show ?thesis
      by (simp add: f(1) None)
  next
    case (Some t)
    then have "\<exists>e\<in>set es. isTerminalEvent e"
      using es(1) Cons.prems(1) fold_deliver_terminal [of es st] unfolding same_follow_def by force
    then have "es' = []" using Cons.prems(5) terminal_last_split by (auto simp: new)
    with es' have "same_follow st1 w" by (simp add: same_follow_def)
    then show ?thesis by (simp add: f(1) Some)
  qed
qed

text \<open>However the text of a connection is cut into chunks, following it has the outcome of
  reading it at once, as long as every event is accepted and nothing follows the terminal event.\<close>

lemma chunking_is_irrelevant:
  assumes "feed_chunk decode (concat cs) (follow_start afterSeq) = Some w" "terminal_last (fw_delivered w)"
  shows "followExecutionEvents decode afterSeq (HttpBody (map Chunk cs)) signalAborted
    = followExecutionEvents decode afterSeq (HttpBody [Chunk (concat cs)]) signalAborted"
proof -
  have start: "fw_terminal (follow_start afterSeq) = None" "blocks (fw_buffer (follow_start afterSeq)) = ([], fw_buffer (follow_start afterSeq))"
    "fw_delivered w = fw_delivered (follow_start afterSeq) @ fw_delivered w"
    by (simp_all add: follow_start_def blocks.simps)
  from read_chunks [OF start(1,2) assms(1) start(3) assms(2)]
  show ?thesis
    by (auto simp: followExecutionEvents_def assms(1) same_follow_def follow_outcome_def)
qed

section \<open>Reconnecting comes to an end\<close>

text \<open>
  Once the execution has ended its last sequence number is fixed: every further connection
  brings the cursor nearer to it or spends the one empty catch-up.
\<close>

definition reconnects_left :: "nat \<Rightarrow> nat \<Rightarrow> bool \<Rightarrow> nat" where
  "reconnects_left lastSeq consumedSeq catchUpSpent = 2 * (lastSeq - consumedSeq) + (if catchUpSpent then 0 else 1)"

lemma reconnects_decrease:
  assumes "decideFollowAfterClose (Some s) consumed' (consumed < consumed') spent = follow_reconnect spent'"
    "fc_state s \<noteq> exec_running" "fc_lastSeq s \<le> int lastSeq" "consumed \<le> consumed'"
  shows "reconnects_left lastSeq consumed' spent' < reconnects_left lastSeq consumed spent"
  using assms by (auto simp: decideFollowAfterClose_def reconnects_left_def split: if_splits)

section \<open>The watchdog\<close>

text \<open>When the watchdog fires, for outputs at the given times; a timer that is due runs first.\<close>

fun fires_at :: "DriverOutputMode \<Rightarrow> nat \<Rightarrow> watchdog \<Rightarrow> nat list \<Rightarrow> nat option" where
  "fires_at mode limitMs w [] = (if fst (watchdog_due w) then wd_timer w else None)"
| "fires_at mode limitMs w (t # ts) =
     (case wd_timer w of
        Some due \<Rightarrow> if due \<le> t \<and> fst (watchdog_due w) then Some due
          else fires_at mode limitMs (watchdog_output mode limitMs t w) ts
      | None \<Rightarrow> fires_at mode limitMs (watchdog_output mode limitMs t w) ts)"

lemma armed_watchdog [simp]: "arm limitMs t \<lparr>wd_timer = x, wd_cleared = c\<rparr> = \<lparr>wd_timer = Some (t + limitMs), wd_cleared = c\<rparr>"
  by (simp add: arm_def)

lemma oneshot_fires_at_limit:
  "fires_at mode_oneshot limitMs (startGenerationWatchdog limitMs now) ts = Some (now + limitMs)"
proof -
  have "fires_at mode_oneshot limitMs \<lparr>wd_timer = Some due, wd_cleared = False\<rparr> ts = Some due" for due
    by (induction ts) (simp_all add: watchdog_output_def watchdog_due_def Let_def)
  then show ?thesis by (simp add: startGenerationWatchdog_def)
qed

text \<open>A streaming turn is cut only after a silence of the whole limit, counted from its last output.\<close>

lemma streaming_fires_after_silence:
  assumes "fires_at mode_streaming limitMs (startGenerationWatchdog limitMs now) ts = Some due" "sorted (now # ts)"
  shows "\<exists>last\<in>set (now # ts). due = last + limitMs \<and> (\<forall>t\<in>set ts. t \<le> last \<or> due \<le> t)"
  using assms
proof (induction ts arbitrary: now)
  case Nil
  then show ?case by (simp add: startGenerationWatchdog_def watchdog_due_def Let_def)
next
  case (Cons t ts)
  show ?case
  proof (cases "now + limitMs \<le> t")
    case True
    with Cons.prems show ?thesis
      by (auto simp: startGenerationWatchdog_def watchdog_due_def Let_def intro: order_trans)
  next
    case False
    with Cons.prems(1) have "fires_at mode_streaming limitMs (startGenerationWatchdog limitMs t) ts = Some due"
      by (simp add: startGenerationWatchdog_def watchdog_due_def watchdog_output_def arm_def Let_def)
    from Cons.IH [OF this] Cons.prems(2) obtain last where
      last: "last \<in> set (t # ts)" "due = last + limitMs" "\<forall>t\<in>set ts. t \<le> last \<or> due \<le> t" by auto
    moreover from last(1) Cons.prems(2) have "t \<le> last" by auto
    ultimately show ?thesis by (intro bexI [of _ last]) auto
  qed
qed

lemma watchdog_fires_once: "fst (watchdog_due w) \<Longrightarrow> \<not> fst (watchdog_due (watchdog_output mode limitMs t (snd (watchdog_due w))))"
  by (auto simp: watchdog_due_def watchdog_output_def Let_def)

end
