(* ===== verification/Execute_Turn.thy ===== *)
theory Execute_Turn
  imports Event_Stream Discussion_Model
begin

text \<open>
  \<open>src/cli/src/host/execute-turn.ts\<close>: one turn of a council run against the Host, from dispatch
  to the acknowledged terminal event, with \<open>src/cli/src/errors.ts\<close>.  The environment answers
  every call from the calls made so far, together with the signals (external abort, deadline,
  cleanup budget) that fire while the call is pending; a theorem about every environment is
  about every behaviour of the Host and every moment of an interrupt.  The caller's \<open>persist\<close>
  acts on a store of its own.  The theory shows that execute is sent once, that the committed
  acknowledgement follows the successful persist, what a completed turn means, and when a turn
  returns.
\<close>

section \<open>Errors\<close>

datatype ExitCode =
    EXIT_ok | EXIT_usage | EXIT_hostUnavailable | EXIT_runFailed | EXIT_io | EXIT_quota | EXIT_interrupted

fun exit_number :: "ExitCode \<Rightarrow> nat" where
  "exit_number EXIT_ok = 0"
| "exit_number EXIT_usage = 2"
| "exit_number EXIT_hostUnavailable = 3"
| "exit_number EXIT_runFailed = 4"
| "exit_number EXIT_io = 5"
| "exit_number EXIT_quota = 7"
| "exit_number EXIT_interrupted = 130"

text \<open>What a call can throw, by the classes the code tells apart; \<open>SystemError\<close> has an errno code.\<close>

datatype thrown =
    RuntimeClientError nat string string
  | AbortError string
  | EventStreamFailure nat string
  | CliError ExitCode string
  | TypeError string
  | SystemError string string
  | OtherError string

fun thrown_message :: "thrown \<Rightarrow> string" where
  "thrown_message (RuntimeClientError _ _ m) = m"
| "thrown_message (AbortError m) = m"
| "thrown_message (EventStreamFailure _ m) = m"
| "thrown_message (CliError _ m) = m"
| "thrown_message (TypeError m) = m"
| "thrown_message (SystemError _ m) = m"
| "thrown_message (OtherError m) = m"

fun isAbortError :: "thrown \<Rightarrow> bool" where
  "isAbortError (AbortError _) = True"
| "isAbortError _ = False"

fun isEventStreamAuthError :: "thrown \<Rightarrow> bool" where
  "isEventStreamAuthError (EventStreamFailure status _) \<longleftrightarrow> status = 401 \<or> status = 403"
| "isEventStreamAuthError _ = False"

datatype run_phase = pre_run | in_run

definition exitCodeForHostCode :: "string \<Rightarrow> run_phase \<Rightarrow> ExitCode" where
  "exitCodeForHostCode hostCode phase =
     (if hostCode \<in> {''RESOURCE_LIMIT'', ''RATE_LIMITED''} then EXIT_quota
      else if hostCode \<in> {''UNAUTHENTICATED'', ''FORBIDDEN'', ''CSRF_MISMATCH'', ''AUTH_REQUIRED'',
          ''STALE_CONTROLLER'', ''INSTALLATION_NOT_FOUND'', ''INSTALLATION_INVALID'', ''INSTALLATION_UNTRUSTED'',
          ''INSTALLATION_CHANGED'', ''INCOMPATIBLE_DRIVER'', ''PROFILE_INVALID''}
        then (if phase = pre_run then EXIT_hostUnavailable else EXIT_runFailed)
      else if hostCode \<in> {''PORT_IN_USE'', ''UNSUPPORTED_NODE''} then EXIT_hostUnavailable
      else if phase = pre_run then EXIT_hostUnavailable else EXIT_runFailed)"

section \<open>The result of a turn\<close>

datatype TurnVerdict = turn_completed | turn_failed | turn_interrupted | turn_timeout | turn_cancelled

datatype TurnPhase =
    tp_dispatch | tp_stream | tp_commit | tp_ack | tp_cleanup | tp_deadline | tp_terminal | tp_io

record TurnError =
  tx_phase :: TurnPhase
  tx_code :: string
  tx_message :: string
  tx_retryable :: bool
  tx_limitMs :: "nat option"

record TerminalEvidence =
  ve_output :: string
  ve_requestedModel :: string
  ve_effectiveModel :: "string option"
  ve_modelVerdict :: ModelVerdict
  ve_toolState :: ToolState
  ve_usage :: "Usage option"
  ve_finalSeq :: nat

datatype turn_ack = turn_acknowledged | turn_conflict | turn_skipped

record TurnResult =
  tr_verdict :: TurnVerdict
  tr_executionId :: string
  tr_participantId :: string
  tr_dispatchState :: DispatchState
  tr_terminal :: "TerminalEvidence option"
  tr_durationMs :: int
  tr_ack :: turn_ack
  tr_error :: "TurnError option"

definition turn_error :: "TurnPhase \<Rightarrow> string \<Rightarrow> string \<Rightarrow> bool \<Rightarrow> TurnError" where
  "turn_error phase code message retryable =
     \<lparr>tx_phase = phase, tx_code = code, tx_message = message, tx_retryable = retryable, tx_limitMs = None\<rparr>"

definition ACK_FAILED_ERROR :: TurnError where
  "ACK_FAILED_ERROR = turn_error tp_ack ''ACK_FAILED'' ''ACK did not reach the acknowledged state'' True"

definition hostErrorToTurn :: "string \<Rightarrow> string \<Rightarrow> TurnPhase \<Rightarrow> bool \<Rightarrow> TurnError" where
  "hostErrorToTurn code message phase retryable =
     turn_error phase (if code \<noteq> [] then code else ''CRASH'') message retryable"

definition classifyClientError :: "thrown \<Rightarrow> TurnPhase \<Rightarrow> TurnError" where
  "classifyClientError error phase =
     (case error of
        RuntimeClientError status code message \<Rightarrow> hostErrorToTurn code message phase False
      | AbortError message \<Rightarrow>
          turn_error tp_deadline ''ABORT'' (if message \<noteq> [] then message else ''request aborted'') True
      | _ \<Rightarrow> turn_error phase (if phase = tp_dispatch then ''DISPATCH_FAILED'' else ''RUNTIME_UNAVAILABLE'')
               (thrown_message error) False)"

definition classifyTerminalError :: "RuntimeError \<Rightarrow> TurnError" where
  "classifyTerminalError e =
     (let t = hostErrorToTurn (code_text (err_code e)) (err_message e) tp_terminal (err_retryable e)
      in case err_limitMs e of
           Some n \<Rightarrow> if n \<noteq> 0 then t\<lparr>tx_limitMs := Some n\<rparr> else t
         | None \<Rightarrow> t)"

fun classifyInterrupt :: "InterruptReason \<Rightarrow> TurnError" where
  "classifyInterrupt int_timeout = turn_error tp_deadline ''TURN_TIMEOUT'' ''turn timed out'' True"
| "classifyInterrupt int_host_shutdown = turn_error tp_terminal ''HOST_SHUTDOWN'' ''host shutdown'' False"
| "classifyInterrupt int_supervisor_lost = turn_error tp_terminal ''SUPERVISOR_LOST'' ''supervisor lost'' False"
| "classifyInterrupt int_driver_crash = turn_error tp_terminal ''DRIVER_CRASH'' ''driver crashed'' False"
| "classifyInterrupt int_user_cancelled = turn_error tp_terminal ''USER_CANCELLED'' ''cancelled by user'' False"
| "classifyInterrupt int_unknown = turn_error tp_terminal ''INTERRUPTED'' ''interrupted'' False"

section \<open>The environment\<close>

text \<open>The calls a run makes; \<open>call_persist\<close> is the caller's own and carries its success.\<close>

datatype host_call =
    call_rawClient
  | call_execute string ContextSnapshot
  | call_getExecution string
  | call_cancelExecution string
  | call_ack string AckDisposition nat
  | call_connect string nat
  | call_refreshAuth
  | call_pause
  | call_persist string TerminalEvidence bool
  | call_createScope string
  | call_activateScope string
  | call_closeScope string
  | call_scopeStatus string

datatype signal = sig_external | sig_deadline | sig_cleanup

record host_env =
  he_rawClient :: "host_call list \<Rightarrow> thrown option \<times> signal list"
  he_execute :: "host_call list \<Rightarrow> thrown option \<times> signal list"
  he_getExecution :: "host_call list \<Rightarrow> (thrown + ExecutionState \<times> nat option) \<times> signal list"
  he_cancelExecution :: "host_call list \<Rightarrow> thrown option \<times> signal list"
  he_ack :: "host_call list \<Rightarrow> (thrown + AckState) \<times> signal list"
  he_connect :: "host_call list \<Rightarrow> fetch_reply \<times> signal list"
  he_refreshAuth :: "host_call list \<Rightarrow> thrown option \<times> signal list"
  he_pause :: "host_call list \<Rightarrow> unit \<times> signal list"
  he_now :: "host_call list \<Rightarrow> int"
  he_decode :: decoder
  he_abortMessage :: string
  he_badEventMessage :: string

datatype abort_source = source_deadline | source_external

record 's turn_state =
  tn_calls :: "host_call list"
  tn_source :: "abort_source option"
  tn_external :: bool
  tn_cleanup :: cleanup_budget
  tn_dispatch :: DispatchState
  tn_ack :: turn_ack
  tn_conflict :: bool
  tn_ackAborted :: bool
  tn_store :: 's

definition deadline_aborted :: "'s turn_state \<Rightarrow> bool" where
  "deadline_aborted st \<longleftrightarrow> tn_source st \<noteq> None"

definition cleanup_aborted :: "'s turn_state \<Rightarrow> bool" where
  "cleanup_aborted st \<longleftrightarrow> cb_aborted (tn_cleanup st) \<noteq> None"

text \<open>\<open>onExternalAbort\<close>, \<open>fireDeadline\<close> and the timer of the cleanup budget.\<close>

definition abort_from :: "abort_source \<Rightarrow> 's turn_state \<Rightarrow> 's turn_state" where
  "abort_from source st = (if tn_source st = None then st\<lparr>tn_source := Some source\<rparr> else st)"

fun fire :: "signal \<Rightarrow> 's turn_state \<Rightarrow> 's turn_state" where
  "fire sig_external st = abort_from source_external (st\<lparr>tn_external := True\<rparr>)"
| "fire sig_deadline st = abort_from source_deadline st"
| "fire sig_cleanup st = st\<lparr>tn_cleanup := cleanup_fires (tn_cleanup st)\<rparr>"

definition await :: "host_call \<Rightarrow> (host_call list \<Rightarrow> 'r \<times> signal list) \<Rightarrow> 's turn_state \<Rightarrow> 'r \<times> 's turn_state" where
  "await call reply st =
     (fst (reply (tn_calls st)),
      fold fire (snd (reply (tn_calls st))) (st\<lparr>tn_calls := tn_calls st @ [call]\<rparr>))"

definition cleanupOf :: "'s turn_state \<Rightarrow> 's turn_state" where
  "cleanupOf st = st\<lparr>tn_cleanup := arm_cleanup (tn_cleanup st)\<rparr>"

section \<open>Parameters of a turn\<close>

record turn_input =
  ti_executionId :: string
  ti_participantId :: string
  ti_snapshot :: ContextSnapshot
  ti_generation :: "GenerationRule option"
  ti_startedAt :: int

definition make_result :: "host_env \<Rightarrow> turn_input \<Rightarrow> TurnVerdict \<Rightarrow> TurnError option \<Rightarrow> TerminalEvidence option
    \<Rightarrow> 's turn_state \<Rightarrow> TurnResult" where
  "make_result env i verdict error terminal st =
     \<lparr>tr_verdict = verdict, tr_executionId = ti_executionId i, tr_participantId = ti_participantId i,
      tr_dispatchState = tn_dispatch st, tr_terminal = terminal,
      tr_durationMs = he_now env (tn_calls st) - ti_startedAt i, tr_ack = tn_ack st, tr_error = error\<rparr>"

definition abortVerdict :: "'s turn_state \<Rightarrow> TurnVerdict" where
  "abortVerdict st = (if tn_source st = Some source_deadline then turn_timeout else turn_cancelled)"

definition abortError :: "turn_input \<Rightarrow> 's turn_state \<Rightarrow> TurnError" where
  "abortError i st =
     (if tn_source st = Some source_deadline
      then (case ti_generation i of
              Some g \<Rightarrow> (turn_error tp_deadline (code_text (gr_code g)) ''generation limit exceeded (client backstop)'' False)
                  \<lparr>tx_limitMs := Some (gr_limitMs g)\<rparr>
            | None \<Rightarrow> turn_error tp_deadline ''TURN_TIMEOUT'' ''turn deadline exceeded'' True)
      else turn_error tp_cleanup ''CANCELLED'' ''cancelled by caller'' False)"

definition remapIfAborted :: "host_env \<Rightarrow> turn_input \<Rightarrow> TurnResult \<Rightarrow> 's turn_state \<Rightarrow> TurnResult" where
  "remapIfAborted env i r st =
     (if \<not> tn_conflict st \<and> (deadline_aborted st \<or> tn_ackAborted st)
      then make_result env i (abortVerdict st) (Some (abortError i st)) (tr_terminal r) st else r)"

section \<open>Acknowledging, probing and cleaning up\<close>

record ack_result =
  ak_ok :: bool
  ak_aborted :: bool

definition ackOnce :: "host_env \<Rightarrow> turn_input \<Rightarrow> AckDisposition \<Rightarrow> nat \<Rightarrow> bool \<Rightarrow> 's turn_state
    \<Rightarrow> ack_result \<times> 's turn_state" where
  "ackOnce env i disposition finalSeq override st =
     (let onCleanup = (override \<or> deadline_aborted st);
          st1 = (if \<not> override \<and> deadline_aborted st then cleanupOf st else st);
          (reply, st2) = await (call_ack (ti_executionId i) disposition (max 1 finalSeq)) (he_ack env) st1
      in case reply of
           Inr s \<Rightarrow>
             (\<lparr>ak_ok = (s = ack_acknowledged), ak_aborted = False\<rparr>,
              st2\<lparr>tn_conflict := tn_conflict st2 \<or> s \<noteq> ack_acknowledged,
                  tn_ack := (if s = ack_acknowledged then turn_acknowledged else turn_conflict)\<rparr>)
         | Inl e \<Rightarrow>
             if deadline_aborted st2 \<or> (onCleanup \<and> cleanup_aborted st2) \<or> isAbortError e
             then (\<lparr>ak_ok = False, ak_aborted = True\<rparr>, st2\<lparr>tn_ackAborted := True\<rparr>)
             else (\<lparr>ak_ok = False, ak_aborted = False\<rparr>, st2\<lparr>tn_conflict := True, tn_ack := turn_conflict\<rparr>))"

datatype DispatchProbe = probe_dispatched | probe_notDispatched | probe_unknown

definition checkAmbiguousDispatch :: "host_env \<Rightarrow> turn_input \<Rightarrow> 's turn_state \<Rightarrow> DispatchProbe \<times> 's turn_state" where
  "checkAmbiguousDispatch env i st =
     (let (reply, st') = await (call_getExecution (ti_executionId i)) (he_getExecution env) st
      in (case reply of
            Inr _ \<Rightarrow> probe_dispatched
          | Inl (RuntimeClientError status code _) \<Rightarrow>
              if status = 404 \<and> code = ''EXECUTION_NOT_FOUND'' then probe_notDispatched else probe_unknown
          | Inl _ \<Rightarrow> probe_unknown, st'))"

text \<open>Up to five reads of the execution, 20 ms apart.\<close>

fun observe :: "host_env \<Rightarrow> turn_input \<Rightarrow> nat \<Rightarrow> 's turn_state \<Rightarrow> nat option \<times> 's turn_state" where
  "observe env i 0 st = (None, st)"
| "observe env i (Suc n) st =
     (if cleanup_aborted st then (None, st)
      else case await (call_getExecution (ti_executionId i)) (he_getExecution env) st of
        (Inl _, st') \<Rightarrow> (None, st')
      | (Inr (s, lastSeq), st') \<Rightarrow>
          if s \<noteq> exec_running then (Some (case lastSeq of None \<Rightarrow> 0 | Some k \<Rightarrow> k), st')
          else observe env i n (snd (await call_pause (he_pause env) st')))"

definition handleAbort :: "host_env \<Rightarrow> turn_input \<Rightarrow> ('s turn_state \<Rightarrow> TurnVerdict) \<Rightarrow> ('s turn_state \<Rightarrow> TurnError)
    \<Rightarrow> 's turn_state \<Rightarrow> TurnResult \<times> 's turn_state" where
  "handleAbort env i verdict verdictError st =
     (let st1 = snd (await (call_cancelExecution (ti_executionId i)) (he_cancelExecution env) st)
      in case observe env i 5 st1 of
           (None, st2) \<Rightarrow> (make_result env i (verdict st2) (Some (verdictError st2)) None st2, st2)
         | (Some observedSeq, st2) \<Rightarrow>
             (let (ack, st3) = ackOnce env i disp_discarded observedSeq True st2
              in if \<not> ak_ok ack \<and> \<not> ak_aborted ack
                 then (make_result env i turn_failed (Some ACK_FAILED_ERROR) None st3, st3)
                 else (make_result env i (verdict st3) (Some (verdictError st3)) None st3, st3)))"

section \<open>Following to the terminal event\<close>

datatype TerminalOutcome = outcome_terminal RuntimeEvent | outcome_closed nat | outcome_aborted

fun stream_thrown :: "host_env \<Rightarrow> stream_failure \<Rightarrow> thrown" where
  "stream_thrown env StreamAborted = AbortError (he_abortMessage env)"
| "stream_thrown env (EventStreamError status message) = EventStreamFailure status message"
| "stream_thrown env EventRejected = OtherError (he_badEventMessage env)"

definition connect :: "host_env \<Rightarrow> turn_input \<Rightarrow> nat \<Rightarrow> 's turn_state \<Rightarrow> (thrown + FollowOutcome) \<times> 's turn_state" where
  "connect env i resumeAt st =
     (let (reply, st') = await (call_connect (ti_executionId i) resumeAt) (he_connect env) st
      in (map_sum (stream_thrown env) id
            (followExecutionEvents (he_decode env) resumeAt reply (deadline_aborted st')), st'))"

text \<open>One follow with its single re-authentication; \<open>None\<close> is the early \<open>aborted\<close>.\<close>

definition follow_turn :: "host_env \<Rightarrow> turn_input \<Rightarrow> nat \<Rightarrow> 's turn_state
    \<Rightarrow> (thrown + FollowOutcome option) \<times> 's turn_state" where
  "follow_turn env i resumeAt st =
     (case connect env i resumeAt st of
        (Inr outcome, st1) \<Rightarrow> (Inr (Some outcome), st1)
      | (Inl e, st1) \<Rightarrow>
          if isEventStreamAuthError e \<and> \<not> deadline_aborted st1 then
            (case await call_refreshAuth (he_refreshAuth env) st1 of
               (Some refreshError, st2) \<Rightarrow>
                 if deadline_aborted st2 \<and> isAbortError refreshError then (Inr None, st2) else (Inl refreshError, st2)
             | (None, st2) \<Rightarrow>
                 if deadline_aborted st2 then (Inr None, st2)
                 else (case await call_rawClient (he_rawClient env) st2 of
                         (Some e2, st3) \<Rightarrow> (Inl e2, st3)
                       | (None, st3) \<Rightarrow>
                           (case connect env i resumeAt st3 of
                              (Inr outcome, st4) \<Rightarrow> (Inr (Some outcome), st4)
                            | (Inl e3, st4) \<Rightarrow>
                                if deadline_aborted st4 \<and> isAbortError e3 then (Inr None, st4) else (Inl e3, st4))))
          else if deadline_aborted st1 \<and> isAbortError e then (Inr None, st1)
          else (Inl e, st1))"

definition close_snapshot :: "thrown + ExecutionState \<times> nat option \<Rightarrow> FollowCloseSnapshot option" where
  "close_snapshot reply =
     (case reply of
        Inl _ \<Rightarrow> None
      | Inr (s, lastSeq) \<Rightarrow>
          Some \<lparr>fc_state = s, fc_lastSeq = (case lastSeq of None \<Rightarrow> -1 | Some k \<Rightarrow> int k)\<rparr>)"

partial_function (option) driveToTerminal :: "host_env \<Rightarrow> turn_input \<Rightarrow> nat \<Rightarrow> bool \<Rightarrow> 's turn_state
    \<Rightarrow> ((thrown + TerminalOutcome) \<times> 's turn_state) option" where
  "driveToTerminal env i resumeAt catchUpSpent st =
     (case follow_turn env i resumeAt st of
        (Inl e, st1) \<Rightarrow> Some (Inl e, st1)
      | (Inr None, st1) \<Rightarrow> Some (Inr outcome_aborted, st1)
      | (Inr (Some (follow_terminal event)), st1) \<Rightarrow> Some (Inr (outcome_terminal event), st1)
      | (Inr (Some (follow_aborted lastSeq)), st1) \<Rightarrow> Some (Inr outcome_aborted, st1)
      | (Inr (Some (follow_closed lastSeq)), st1) \<Rightarrow>
          (case await (call_getExecution (ti_executionId i)) (he_getExecution env) st1 of
             (reply, st2) \<Rightarrow>
               if deadline_aborted st2 then Some (Inr outcome_aborted, st2)
               else (case decideFollowAfterClose (close_snapshot reply) lastSeq (resumeAt < lastSeq) catchUpSpent of
                       follow_reconnect spent \<Rightarrow> driveToTerminal env i lastSeq spent st2
                     | _ \<Rightarrow> Some (Inr (outcome_closed lastSeq), st2))))"

declare driveToTerminal.simps [code]

section \<open>A whole turn\<close>

definition evidence_of :: "RuntimeEvent \<Rightarrow> TerminalEvidence option" where
  "evidence_of event =
     (case ev_body event of
        Completed output requestedModel effectiveModel modelVerdict toolState dispatchState usage finalSeq \<Rightarrow>
          Some \<lparr>ve_output = output, ve_requestedModel = requestedModel, ve_effectiveModel = effectiveModel,
            ve_modelVerdict = modelVerdict, ve_toolState = toolState, ve_usage = usage, ve_finalSeq = ev_seq event\<rparr>
      | _ \<Rightarrow> None)"

text \<open>The acknowledgement of a terminal event and the result it leads to.\<close>

definition ack_then :: "host_env \<Rightarrow> turn_input \<Rightarrow> AckDisposition \<Rightarrow> nat \<Rightarrow> TurnError \<Rightarrow> TurnVerdict \<Rightarrow> TurnError option
    \<Rightarrow> TerminalEvidence option \<Rightarrow> 's turn_state \<Rightarrow> TurnResult \<times> 's turn_state" where
  "ack_then env i disposition finalSeq conflictError verdict error terminal st =
     (let (ack, st1) = ackOnce env i disposition finalSeq False st
      in if \<not> ak_ok ack \<and> \<not> ak_aborted ack
         then (remapIfAborted env i (make_result env i turn_failed (Some conflictError) terminal st1) st1, st1)
         else (remapIfAborted env i (make_result env i verdict error terminal st1) st1, st1))"

type_synonym 's persist = "TerminalEvidence \<Rightarrow> 's \<Rightarrow> thrown option \<times> 's"

definition call_persist_on :: "'s persist \<Rightarrow> turn_input \<Rightarrow> TerminalEvidence \<Rightarrow> 's turn_state \<Rightarrow> thrown option \<times> 's turn_state" where
  "call_persist_on persist i evidence st =
     (let (failed, store) = persist evidence (tn_store st)
      in (failed, st\<lparr>tn_store := store,
            tn_calls := tn_calls st @ [call_persist (ti_executionId i) evidence (failed = None)]\<rparr>))"

definition on_completed :: "host_env \<Rightarrow> turn_input \<Rightarrow> 's persist \<Rightarrow> TerminalEvidence \<Rightarrow> 's turn_state
    \<Rightarrow> TurnResult \<times> 's turn_state" where
  "on_completed env i persist evidence st =
     (if blank (ve_output evidence)
      then ack_then env i disp_discarded (ve_finalSeq evidence)
        (ACK_FAILED_ERROR\<lparr>tx_message := ''EMPTY_OUTPUT + ACK not acknowledged''\<rparr>)
        turn_failed (Some (turn_error tp_terminal ''EMPTY_OUTPUT'' ''model returned an empty output'' False))
        (Some evidence) st
      else (case call_persist_on persist i evidence st of
              (Some e, st1) \<Rightarrow>
                ack_then env i disp_discarded (ve_finalSeq evidence)
                  (ACK_FAILED_ERROR\<lparr>tx_message := ''commit failed + ACK not acknowledged: '' @ thrown_message e\<rparr>)
                  turn_failed
                  (Some (case e of
                           CliError EXIT_io m \<Rightarrow> turn_error tp_io ''TRANSCRIPT_IO'' m False
                         | _ \<Rightarrow> turn_error tp_commit ''PERSIST_FAILED'' (thrown_message e) False))
                  (Some evidence) st1
            | (None, st1) \<Rightarrow>
                ack_then env i disp_committed (ve_finalSeq evidence) ACK_FAILED_ERROR turn_completed None
                  (Some evidence) st1))"

definition on_terminal :: "host_env \<Rightarrow> turn_input \<Rightarrow> 's persist \<Rightarrow> RuntimeEvent \<Rightarrow> 's turn_state
    \<Rightarrow> TurnResult \<times> 's turn_state" where
  "on_terminal env i persist event st =
     (case evidence_of event of
        Some evidence \<Rightarrow> on_completed env i persist evidence st
      | None \<Rightarrow>
          (case ev_body event of
             Failed error dispatchState toolState sideEffects \<Rightarrow>
               ack_then env i disp_discarded (ev_seq event) ACK_FAILED_ERROR turn_failed
                 (Some (classifyTerminalError error)) None (st\<lparr>tn_dispatch := dispatchState\<rparr>)
           | Interrupted reason dispatchState toolState \<Rightarrow>
               ack_then env i disp_discarded (ev_seq event) ACK_FAILED_ERROR turn_interrupted
                 (Some (classifyInterrupt reason)) None (st\<lparr>tn_dispatch := dispatchState\<rparr>)
           | _ \<Rightarrow>
               ack_then env i disp_discarded (ev_seq event) ACK_FAILED_ERROR turn_interrupted
                 (Some (classifyInterrupt int_unknown)) None st))"

definition on_dispatch_error :: "host_env \<Rightarrow> turn_input \<Rightarrow> thrown \<Rightarrow> 's turn_state \<Rightarrow> TurnResult \<times> 's turn_state" where
  "on_dispatch_error env i error st =
     (let baseVerdict = (\<lambda>s. if deadline_aborted s then abortVerdict s else turn_failed);
          baseError = (\<lambda>s. if deadline_aborted s then abortError i s else classifyClientError error tp_dispatch)
      in case checkAmbiguousDispatch env i (cleanupOf st) of
           (probe_notDispatched, st1) \<Rightarrow> (make_result env i (baseVerdict st1) (Some (baseError st1)) None st1, st1)
         | (probe, st1) \<Rightarrow>
             handleAbort env i baseVerdict baseError
               (cleanupOf (st1\<lparr>tn_dispatch := (if probe = probe_dispatched then dispatch_accepted else dispatch_unknown)\<rparr>)))"

definition on_stream :: "host_env \<Rightarrow> turn_input \<Rightarrow> 's persist \<Rightarrow> thrown + TerminalOutcome \<Rightarrow> 's turn_state
    \<Rightarrow> TurnResult \<times> 's turn_state" where
  "on_stream env i persist outcome st =
     (case outcome of
        Inl error \<Rightarrow>
          ((if isAbortError error \<and> (deadline_aborted st \<or> tn_external st)
            then make_result env i (abortVerdict st) (Some (abortError i st)) None st
            else make_result env i turn_failed (Some (classifyClientError error tp_stream)) None st), st)
      | Inr outcome_aborted \<Rightarrow> handleAbort env i abortVerdict (abortError i) (cleanupOf st)
      | Inr (outcome_closed _) \<Rightarrow>
          (make_result env i turn_failed (Some (turn_error tp_stream ''STREAM_CLOSED''
             ''event stream closed before a terminal arrived and the execution was lost'' False)) None st, st)
      | Inr (outcome_terminal event) \<Rightarrow> on_terminal env i persist event st)"

text \<open>A turn starts with a fresh deadline; the calls, the interrupt and the cleanup budget are the run's.\<close>

definition begin_turn :: "'s turn_state \<Rightarrow> 's turn_state" where
  "begin_turn st = st\<lparr>tn_source := (if tn_external st then Some source_external else None),
     tn_dispatch := not_dispatched, tn_ack := turn_skipped, tn_conflict := False, tn_ackAborted := False\<rparr>"

definition executeTurn :: "host_env \<Rightarrow> turn_input \<Rightarrow> 's persist \<Rightarrow> 's turn_state
    \<Rightarrow> ((thrown + TurnResult) \<times> 's turn_state) option" where
  "executeTurn env i persist st =
     (case await call_rawClient (he_rawClient env) (begin_turn st) of
        (Some e, st1) \<Rightarrow> Some (Inl e, st1)
      | (None, st1) \<Rightarrow>
          (case await (call_execute (ti_executionId i) (ti_snapshot i)) (he_execute env) st1 of
             (Some e, st2) \<Rightarrow> Some (apfst Inr (on_dispatch_error env i e st2))
           | (None, st2) \<Rightarrow>
               (case driveToTerminal env i 0 False (st2\<lparr>tn_dispatch := dispatch_accepted\<rparr>) of
                  None \<Rightarrow> None
                | Some (outcome, st3) \<Rightarrow> Some (apfst Inr (on_stream env i persist outcome st3)))))"

section \<open>What the parts of a turn do\<close>

text \<open>Calls that neither dispatch, persist nor acknowledge anything.\<close>

fun neutral :: "host_call \<Rightarrow> bool" where
  "neutral call_rawClient = True"
| "neutral (call_getExecution _) = True"
| "neutral (call_cancelExecution _) = True"
| "neutral (call_connect _ _) = True"
| "neutral call_refreshAuth = True"
| "neutral call_pause = True"
| "neutral _ = False"

text \<open>The bookkeeping of a turn that only the acknowledgement and the caller's persist touch.\<close>

definition same_books :: "'s turn_state \<Rightarrow> 's turn_state \<Rightarrow> bool" where
  "same_books st st' \<longleftrightarrow> tn_store st' = tn_store st \<and> tn_dispatch st' = tn_dispatch st
   \<and> tn_ack st' = tn_ack st \<and> tn_conflict st' = tn_conflict st \<and> tn_ackAborted st' = tn_ackAborted st"

definition quiet :: "'s turn_state \<Rightarrow> 's turn_state \<Rightarrow> bool" where
  "quiet st st' \<longleftrightarrow> same_books st st' \<and> (\<exists>new. tn_calls st' = tn_calls st @ new \<and> list_all neutral new)"

named_theorems quiet_intros "steps of a turn that leave its bookkeeping alone"

lemma fire_books [simp]:
  "tn_calls (fire s st) = tn_calls st" "tn_store (fire s st) = tn_store st" "tn_dispatch (fire s st) = tn_dispatch st"
  "tn_ack (fire s st) = tn_ack st" "tn_conflict (fire s st) = tn_conflict st" "tn_ackAborted (fire s st) = tn_ackAborted st"
  by (cases s; simp add: abort_from_def)+

lemma fire_all_books [simp]:
  "tn_calls (fold fire ss st) = tn_calls st" "tn_store (fold fire ss st) = tn_store st" "tn_dispatch (fold fire ss st) = tn_dispatch st"
  "tn_ack (fold fire ss st) = tn_ack st" "tn_conflict (fold fire ss st) = tn_conflict st" "tn_ackAborted (fold fire ss st) = tn_ackAborted st"
  by (induction ss arbitrary: st; simp)+

lemma await_books [simp]:
  "tn_calls (snd (await c f st)) = tn_calls st @ [c]" "tn_store (snd (await c f st)) = tn_store st"
  "tn_dispatch (snd (await c f st)) = tn_dispatch st" "tn_ack (snd (await c f st)) = tn_ack st"
  "tn_conflict (snd (await c f st)) = tn_conflict st" "tn_ackAborted (snd (await c f st)) = tn_ackAborted st"
  by (simp_all add: await_def)

lemma await_result: "await c f st = (r, st') \<Longrightarrow> st' = snd (await c f st) \<and> r = fst (f (tn_calls st))"
  by (auto simp: await_def)

lemma cleanupOf_books [simp]:
  "tn_calls (cleanupOf st) = tn_calls st" "tn_store (cleanupOf st) = tn_store st" "tn_dispatch (cleanupOf st) = tn_dispatch st"
  "tn_ack (cleanupOf st) = tn_ack st" "tn_conflict (cleanupOf st) = tn_conflict st" "tn_ackAborted (cleanupOf st) = tn_ackAborted st"
  "tn_source (cleanupOf st) = tn_source st" "tn_external (cleanupOf st) = tn_external st"
  by (simp_all add: cleanupOf_def)

lemma quiet_refl [quiet_intros]: "quiet st st"
  by (simp add: quiet_def same_books_def)

lemma quiet_trans [trans]:
  assumes "quiet a b" "quiet b c" shows "quiet a c"
proof -
  from assms obtain x y where "tn_calls b = tn_calls a @ x" "tn_calls c = tn_calls b @ y" "list_all neutral (x @ y)"
    by (auto simp: quiet_def)
  then have "\<exists>new. tn_calls c = tn_calls a @ new \<and> list_all neutral new" by (intro exI [of _ "x @ y"]) simp
  with assms show ?thesis by (simp add: quiet_def same_books_def)
qed

lemma quiet_await [quiet_intros]: "neutral c \<Longrightarrow> quiet st (snd (await c f st))"
  by (simp add: quiet_def same_books_def)

lemma quiet_await': "await c f st = (r, st') \<Longrightarrow> neutral c \<Longrightarrow> quiet st st'"
  by (metis quiet_await snd_conv)

lemma quiet_cleanupOf [quiet_intros]: "quiet st (cleanupOf st)"
  by (simp add: quiet_def same_books_def)

lemma quiet_observe: "quiet st (snd (observe env i n st))"
proof (induction n arbitrary: st)
  case 0
  then show ?case by (simp add: quiet_intros)
next
  case (Suc n)
  let ?p = "await (call_getExecution (ti_executionId i)) (he_getExecution env) st"
  obtain reply st' where p: "?p = (reply, st')" by (cases ?p)
  have 1: "quiet st st'" using p by (rule quiet_await') simp
  have 2: "quiet st (snd (observe env i n (snd (await call_pause (he_pause env) st'))))"
    by (rule quiet_trans [OF quiet_trans [OF 1 quiet_await] Suc.IH]) simp
  show ?case
  proof (cases "cleanup_aborted st")
    case True
    then show ?thesis by (simp add: quiet_intros)
  next
    case False
    show ?thesis
    proof (cases reply)
      case (Inl e)
      with False 1 show ?thesis by (simp add: p)
    next
      case (Inr x)
      obtain s k where "x = (s, k)" by (cases x)
      with Inr False 1 2 show ?thesis by (simp add: p)
    qed
  qed
qed

lemma quiet_probe: "quiet st (snd (checkAmbiguousDispatch env i st))"
  by (simp add: checkAmbiguousDispatch_def split_beta Let_def quiet_intros)

lemma quiet_connect: "quiet st (snd (connect env i n st))"
  by (simp add: connect_def split_beta Let_def quiet_intros)

lemma quiet_follow: "follow_turn env i n st = (r, st') \<Longrightarrow> quiet st st'"
proof -
  assume f: "follow_turn env i n st = (r, st')"
  obtain r1 st1 where 1: "connect env i n st = (r1, st1)" by fastforce
  obtain r2 st2 where 2: "await call_refreshAuth (he_refreshAuth env) st1 = (r2, st2)" by fastforce
  obtain r3 st3 where 3: "await call_rawClient (he_rawClient env) st2 = (r3, st3)" by fastforce
  obtain r4 st4 where 4: "connect env i n st3 = (r4, st4)" by fastforce
  have q1: "quiet st st1" by (metis 1 quiet_connect snd_conv)
  have q2: "quiet st st2" using q1 quiet_await' [OF 2] by (auto intro: quiet_trans)
  have q3: "quiet st st3" using q2 quiet_await' [OF 3] by (auto intro: quiet_trans)
  have "quiet st3 st4" by (metis 4 quiet_connect snd_conv)
  with q3 have q4: "quiet st st4" by (rule quiet_trans)
  show ?thesis using f q1 q2 q3 q4
    by (auto simp: follow_turn_def 1 2 3 4 split: sum.splits option.splits if_splits)
qed

lemma quiet_drive:
  assumes "driveToTerminal env i n spent st = Some res" shows "quiet st (snd res)"
proof (rule driveToTerminal.raw_induct [OF _ assms])
  fix drive :: "host_env \<Rightarrow> turn_input \<Rightarrow> nat \<Rightarrow> bool \<Rightarrow> 'a turn_state \<Rightarrow> ((thrown + TerminalOutcome) \<times> 'a turn_state) option"
    and env i n spent st res
  assume IH: "\<And>env i n spent st res. drive env i n spent st = Some res \<Longrightarrow> quiet st (snd res)"
    and step: "(case follow_turn env i n st of
        (Inl e, st1) \<Rightarrow> Some (Inl e, st1)
      | (Inr None, st1) \<Rightarrow> Some (Inr outcome_aborted, st1)
      | (Inr (Some (follow_terminal event)), st1) \<Rightarrow> Some (Inr (outcome_terminal event), st1)
      | (Inr (Some (follow_aborted lastSeq)), st1) \<Rightarrow> Some (Inr outcome_aborted, st1)
      | (Inr (Some (follow_closed lastSeq)), st1) \<Rightarrow>
          (case await (call_getExecution (ti_executionId i)) (he_getExecution env) st1 of
             (reply, st2) \<Rightarrow>
               if deadline_aborted st2 then Some (Inr outcome_aborted, st2)
               else (case decideFollowAfterClose (close_snapshot reply) lastSeq (n < lastSeq) spent of
                       follow_reconnect spent \<Rightarrow> drive env i lastSeq spent st2
                     | _ \<Rightarrow> Some (Inr (outcome_closed lastSeq), st2)))) = Some res"
  obtain r1 st1 where f: "follow_turn env i n st = (r1, st1)" by fastforce
  obtain reply st2 where g: "await (call_getExecution (ti_executionId i)) (he_getExecution env) st1 = (reply, st2)"
    by fastforce
  have q1: "quiet st st1" by (rule quiet_follow [OF f])
  have q2: "quiet st st2" using q1 quiet_await' [OF g] by (auto intro: quiet_trans)
  have again: "quiet st (snd res)" if "drive env i k s st2 = Some res" for k s
    using quiet_trans [OF q2 IH [OF that]] .
  show "quiet st (snd res)" using step q1 q2
    by (auto simp: f g split: sum.splits option.splits FollowOutcome.splits FollowAfterClose.splits if_splits dest: again)
qed

section \<open>What a turn does\<close>

lemma abortVerdict_not_completed [simp]: "abortVerdict st \<noteq> turn_completed"
  by (simp add: abortVerdict_def)

lemma ackOnce_spec:
  assumes "ackOnce env i d n override st = (a, st')"
  shows "tn_calls st' = tn_calls st @ [call_ack (ti_executionId i) d (max 1 n)]" "tn_store st' = tn_store st"
    "tn_dispatch st' = tn_dispatch st"
    "ak_ok a \<Longrightarrow> tn_ack st' = turn_acknowledged \<and> tn_conflict st' = tn_conflict st"
    "\<not> ak_ok a \<Longrightarrow> \<not> ak_aborted a \<Longrightarrow> tn_conflict st'"
    "ak_aborted a \<Longrightarrow> tn_ackAborted st' \<and> tn_conflict st' = tn_conflict st"
  using assms
  by (auto simp: ackOnce_def Let_def split_beta split: sum.splits if_splits)

lemma make_result_simps [simp]:
  "tr_verdict (make_result env i v e t st) = v" "tr_terminal (make_result env i v e t st) = t"
  "tr_error (make_result env i v e t st) = e" "tr_ack (make_result env i v e t st) = tn_ack st"
  "tr_dispatchState (make_result env i v e t st) = tn_dispatch st"
  "tr_executionId (make_result env i v e t st) = ti_executionId i"
  by (simp_all add: make_result_def)

lemma remapIfAborted_simps [simp]:
  "tr_terminal (remapIfAborted env i r st) = tr_terminal r"
  "tr_verdict (remapIfAborted env i r st) = turn_completed \<longleftrightarrow>
     tr_verdict r = turn_completed \<and> (tn_conflict st \<or> \<not> deadline_aborted st \<and> \<not> tn_ackAborted st)"
  by (auto simp: remapIfAborted_def)

lemma ack_then_spec:
  assumes "ack_then env i d n ce v e t st = (r, st')"
  shows "tn_calls st' = tn_calls st @ [call_ack (ti_executionId i) d (max 1 n)]" "tn_store st' = tn_store st"
    "tr_terminal r = t"
    "tr_verdict r = turn_completed \<Longrightarrow> v = turn_completed"
    "tr_verdict r = turn_completed \<Longrightarrow> \<not> tn_conflict st \<Longrightarrow>
       tr_ack r = turn_acknowledged \<and> tr_error r = e \<and> tr_dispatchState r = tn_dispatch st \<and> \<not> deadline_aborted st'"
proof -
  obtain a st1 where a: "ackOnce env i d n False st = (a, st1)" by fastforce
  note spec = ackOnce_spec [OF a]
  have st': "st' = st1" and r: "r = (if \<not> ak_ok a \<and> \<not> ak_aborted a
      then remapIfAborted env i (make_result env i turn_failed (Some ce) t st1) st1
      else remapIfAborted env i (make_result env i v e t st1) st1)"
    using assms by (auto simp: ack_then_def a split: if_splits)
  show "tn_calls st' = tn_calls st @ [call_ack (ti_executionId i) d (max 1 n)]" "tn_store st' = tn_store st"
    by (simp_all add: st' spec)
  show "tr_terminal r = t" by (simp add: r)
  show "v = turn_completed" if "tr_verdict r = turn_completed" using that by (auto simp: r split: if_splits)
  assume c: "tr_verdict r = turn_completed" "\<not> tn_conflict st"
  then have ok: "ak_ok a \<or> ak_aborted a" by (auto simp: r split: if_splits)
  with c have live: "\<not> deadline_aborted st1 \<and> \<not> tn_ackAborted st1" using spec(4,6) by (auto simp: r split: if_splits)
  with ok have "ak_ok a" using spec(6) by blast
  with spec(4) ok live show "tr_ack r = turn_acknowledged \<and> tr_error r = e \<and> tr_dispatchState r = tn_dispatch st
      \<and> \<not> deadline_aborted st'"
    by (simp add: r st' remapIfAborted_def spec(3))
qed

definition cleanup_tail :: "string \<Rightarrow> host_call list \<Rightarrow> bool" where
  "cleanup_tail exec tail \<longleftrightarrow> tail = [] \<or> (\<exists>n. tail = [call_ack exec disp_discarded n])"

lemma handleAbort_spec:
  assumes "handleAbort env i v e st = (r, st')" "\<And>s. v s \<noteq> turn_completed"
  shows "\<exists>pre tail. tn_calls st' = tn_calls st @ pre @ tail \<and> list_all neutral pre \<and> cleanup_tail (ti_executionId i) tail"
    "tn_store st' = tn_store st" "tr_verdict r \<noteq> turn_completed"
proof -
  let ?st1 = "snd (await (call_cancelExecution (ti_executionId i)) (he_cancelExecution env) st)"
  obtain seen st2 where o: "observe env i 5 ?st1 = (seen, st2)" by fastforce
  have q: "quiet st st2"
    by (rule quiet_trans [OF quiet_await quiet_observe [of ?st1 env i 5, unfolded o snd_conv]]) simp
  then obtain pre where pre: "tn_calls st2 = tn_calls st @ pre" "list_all neutral pre" "tn_store st2 = tn_store st"
    by (auto simp: quiet_def same_books_def)
  have "(\<exists>tail. tn_calls st' = tn_calls st2 @ tail \<and> cleanup_tail (ti_executionId i) tail)
      \<and> tn_store st' = tn_store st2 \<and> tr_verdict r \<noteq> turn_completed"
  proof (cases seen)
    case None
    with assms show ?thesis by (auto simp: handleAbort_def o cleanup_tail_def)
  next
    case (Some k)
    obtain a st3 where a: "ackOnce env i disp_discarded k True st2 = (a, st3)" by fastforce
    show ?thesis using assms ackOnce_spec [OF a]
      by (auto simp: handleAbort_def o Some a cleanup_tail_def split: if_splits)
  qed
  with pre show "\<exists>pre tail. tn_calls st' = tn_calls st @ pre @ tail \<and> list_all neutral pre \<and> cleanup_tail (ti_executionId i) tail"
    "tn_store st' = tn_store st" "tr_verdict r \<noteq> turn_completed" by auto
qed

text \<open>
  What a turn adds to the calls: neutral calls around at most one dispatch, then how it ends.
\<close>

datatype turn_end =
    left_open | discarded | persist_failed TerminalEvidence | persisted TerminalEvidence

fun end_calls :: "string \<Rightarrow> nat \<Rightarrow> turn_end \<Rightarrow> host_call list" where
  "end_calls exec n left_open = []"
| "end_calls exec n discarded = [call_ack exec disp_discarded n]"
| "end_calls exec n (persist_failed ev) = [call_persist exec ev False, call_ack exec disp_discarded n]"
| "end_calls exec n (persisted ev) = [call_persist exec ev True, call_ack exec disp_committed n]"

fun end_store :: "'s persist \<Rightarrow> turn_end \<Rightarrow> 's \<Rightarrow> 's \<Rightarrow> bool" where
  "end_store persist (persist_failed ev) a b \<longleftrightarrow> fst (persist ev a) \<noteq> None \<and> b = snd (persist ev a)"
| "end_store persist (persisted ev) a b \<longleftrightarrow> persist ev a = (None, b)"
| "end_store persist _ a b \<longleftrightarrow> b = a"

fun end_seq :: "turn_end \<Rightarrow> nat \<Rightarrow> bool" where
  "end_seq (persisted ev) n \<longleftrightarrow> n = max 1 (ve_finalSeq ev) \<and> \<not> blank (ve_output ev)"
| "end_seq _ n \<longleftrightarrow> True"

definition ends_as :: "turn_input \<Rightarrow> 's persist \<Rightarrow> 's turn_state \<Rightarrow> TurnResult \<Rightarrow> 's turn_state \<Rightarrow> turn_end \<Rightarrow> bool" where
  "ends_as i persist st r st' how \<longleftrightarrow>
     (\<exists>pre n. tn_calls st' = tn_calls st @ pre @ end_calls (ti_executionId i) n how \<and> list_all neutral pre \<and> end_seq how n)
   \<and> end_store persist how (tn_store st) (tn_store st')
   \<and> (tr_verdict r = turn_completed \<longrightarrow> (\<exists>ev. how = persisted ev \<and> tr_terminal r = Some ev
        \<and> tr_ack r = turn_acknowledged \<and> tr_error r = None \<and> tr_dispatchState r = tn_dispatch st))"

lemma handleAbort_ends:
  assumes "handleAbort env i v e st = (r, st')" "\<And>s. v s \<noteq> turn_completed"
  shows "\<exists>how. ends_as i persist st r st' how"
proof -
  obtain pre tail where 1: "tn_calls st' = tn_calls st @ pre @ tail" "list_all neutral pre"
      "cleanup_tail (ti_executionId i) tail"
    using handleAbort_spec(1) [OF assms] by blast
  note 2 = handleAbort_spec(2,3) [OF assms]
  from 1(3) consider "tail = []" | n where "tail = [call_ack (ti_executionId i) disp_discarded n]"
    by (auto simp: cleanup_tail_def)
  then show ?thesis
  proof cases
    case 1
    with \<open>list_all neutral pre\<close> \<open>tn_calls st' = _\<close> 2 have "ends_as i persist st r st' left_open"
      by (auto simp: ends_as_def)
    then show ?thesis ..
  next
    case 2
    with \<open>list_all neutral pre\<close> \<open>tn_calls st' = _\<close> \<open>tn_store st' = _\<close> \<open>tr_verdict r \<noteq> _\<close>
    have "ends_as i persist st r st' discarded" by (auto simp: ends_as_def)
    then show ?thesis ..
  qed
qed

lemma ack_ends:
  assumes "ack_then env i d n ce v e t st1 = (r, st')" "\<not> tn_conflict st1" "tn_dispatch st1 = tn_dispatch st"
    "tn_calls st1 @ [call_ack (ti_executionId i) d (max 1 n)] = tn_calls st @ end_calls (ti_executionId i) (max 1 n) how"
    "end_store persist how (tn_store st) (tn_store st1)" "end_seq how (max 1 n)"
    "v = turn_completed \<Longrightarrow> \<exists>ev. how = persisted ev \<and> t = Some ev \<and> e = None"
  shows "ends_as i persist st r st' how"
  using ack_then_spec [OF assms(1)] assms(2-)
  unfolding ends_as_def by (auto intro!: exI [of _ "[]"])

lemma on_completed_ends:
  assumes "on_completed env i persist ev st = (r, st')" "\<not> tn_conflict st"
  shows "\<exists>how. ends_as i persist st r st' how"
proof (cases "blank (ve_output ev)")
  case True
  with assms(1) have a: "ack_then env i disp_discarded (ve_finalSeq ev) (ACK_FAILED_ERROR\<lparr>tx_message := ''EMPTY_OUTPUT + ACK not acknowledged''\<rparr>)
        turn_failed (Some (turn_error tp_terminal ''EMPTY_OUTPUT'' ''model returned an empty output'' False)) (Some ev) st = (r, st')"
    by (simp add: on_completed_def)
  have "ends_as i persist st r st' discarded" by (rule ack_ends [OF a assms(2)]) simp_all
  then show ?thesis ..
next
  case False
  obtain failed store where p: "persist ev (tn_store st) = (failed, store)" by fastforce
  let ?st1 = "st\<lparr>tn_store := store, tn_calls := tn_calls st @ [call_persist (ti_executionId i) ev (failed = None)]\<rparr>"
  have c: "call_persist_on persist i ev st = (failed, ?st1)" by (simp add: call_persist_on_def p)
  have k: "\<not> tn_conflict ?st1" using assms(2) by simp
  show ?thesis
  proof (cases failed)
    case None
    with assms(1) False c have a: "ack_then env i disp_committed (ve_finalSeq ev) ACK_FAILED_ERROR turn_completed None (Some ev) ?st1 = (r, st')"
      by (simp add: on_completed_def)
    have "ends_as i persist st r st' (persisted ev)"
      by (rule ack_ends [OF a k]) (use False None p in simp_all)
    then show ?thesis ..
  next
    case (Some e)
    with assms(1) False c obtain ce er where a: "ack_then env i disp_discarded (ve_finalSeq ev) ce turn_failed er (Some ev) ?st1 = (r, st')"
      by (auto simp: on_completed_def)
    have "ends_as i persist st r st' (persist_failed ev)"
      by (rule ack_ends [OF a k]) (use Some p in simp_all)
    then show ?thesis ..
  qed
qed

lemma on_terminal_other:
  assumes "evidence_of event = None"
  shows "\<exists>v er dispatch. v \<noteq> turn_completed \<and> on_terminal env i persist event st
     = ack_then env i disp_discarded (ev_seq event) ACK_FAILED_ERROR v er None (st\<lparr>tn_dispatch := dispatch\<rparr>)"
proof -
  have same: "st\<lparr>tn_dispatch := tn_dispatch st\<rparr> = st" by simp
  show ?thesis
  proof (cases "ev_body event")
    case (Failed error dispatch tool side)
    then show ?thesis
      by (intro exI [of _ turn_failed] exI [of _ "Some (classifyTerminalError error)"] exI [of _ dispatch])
        (simp add: on_terminal_def assms)
  next
    case (Interrupted reason dispatch tool)
    then show ?thesis
      by (intro exI [of _ turn_interrupted] exI [of _ "Some (classifyInterrupt reason)"] exI [of _ dispatch])
        (simp add: on_terminal_def assms)
  qed (use assms same in \<open>auto simp: on_terminal_def evidence_of_def
      intro!: exI [of _ turn_interrupted] exI [of _ "Some (classifyInterrupt int_unknown)"] exI [of _ "tn_dispatch st"]\<close>)
qed

lemma on_terminal_ends:
  assumes "on_terminal env i persist event st = (r, st')" "\<not> tn_conflict st"
  shows "\<exists>how. ends_as i persist st r st' how"
proof (cases "evidence_of event")
  case (Some ev)
  with assms show ?thesis by (auto simp: on_terminal_def intro: on_completed_ends)
next
  case None
  from on_terminal_other [OF None] assms(1) obtain dispatch v er where
    a: "ack_then env i disp_discarded (ev_seq event) ACK_FAILED_ERROR v er None (st\<lparr>tn_dispatch := dispatch\<rparr>) = (r, st')"
      "v \<noteq> turn_completed" by metis
  have "ends_as i persist (st\<lparr>tn_dispatch := dispatch\<rparr>) r st' discarded"
    by (rule ack_ends [OF a(1)]) (use a(2) assms(2) in simp_all)
  moreover have "tr_verdict r \<noteq> turn_completed" using ack_then_spec(4) [OF a(1)] a(2) by blast
  ultimately have "ends_as i persist st r st' discarded" by (simp add: ends_as_def)
  then show ?thesis ..
qed

lemma ends_quiet:
  assumes "quiet st st1" "ends_as i persist st1 r st' how"
  shows "ends_as i persist st r st' how"
proof -
  from assms(1) obtain new where new: "tn_calls st1 = tn_calls st @ new" "list_all neutral new"
      "tn_store st1 = tn_store st" "tn_dispatch st1 = tn_dispatch st"
    by (auto simp: quiet_def same_books_def)
  from assms(2) obtain pre n where "tn_calls st' = tn_calls st1 @ pre @ end_calls (ti_executionId i) n how"
      "list_all neutral pre" "end_seq how n"
    by (auto simp: ends_as_def)
  with new have "tn_calls st' = tn_calls st @ (new @ pre) @ end_calls (ti_executionId i) n how"
      "list_all neutral (new @ pre)" "end_seq how n" by simp_all
  then have calls: "\<exists>pre n. tn_calls st' = tn_calls st @ pre @ end_calls (ti_executionId i) n how
      \<and> list_all neutral pre \<and> end_seq how n" by blast
  from assms(2) have "end_store persist how (tn_store st1) (tn_store st')
      \<and> (tr_verdict r = turn_completed \<longrightarrow> (\<exists>ev. how = persisted ev \<and> tr_terminal r = Some ev
        \<and> tr_ack r = turn_acknowledged \<and> tr_error r = None \<and> tr_dispatchState r = tn_dispatch st1))"
    unfolding ends_as_def by (rule conjunct2)
  with calls show ?thesis unfolding ends_as_def new(3,4) by (rule conjI)
qed

lemma on_stream_ends:
  assumes "on_stream env i persist outcome st = (r, st')" "\<not> tn_conflict st"
  shows "\<exists>how. ends_as i persist st r st' how"
proof (cases outcome)
  case (Inl e)
  with assms(1) have "ends_as i persist st r st' left_open" by (auto simp: on_stream_def ends_as_def split: if_splits)
  then show ?thesis ..
next
  case (Inr out)
  show ?thesis
  proof (cases out)
    case (outcome_terminal event)
    with Inr assms show ?thesis by (auto simp: on_stream_def intro: on_terminal_ends)
  next
    case (outcome_closed n)
    with Inr assms(1) have "ends_as i persist st r st' left_open" by (auto simp: on_stream_def ends_as_def)
    then show ?thesis ..
  next
    case outcome_aborted
    with Inr assms(1) have "handleAbort env i abortVerdict (abortError i) (cleanupOf st) = (r, st')"
      by (simp add: on_stream_def)
    then obtain how where "ends_as i persist (cleanupOf st) r st' how" using handleAbort_ends by fastforce
    from ends_quiet [OF quiet_cleanupOf this] show ?thesis ..
  qed
qed


lemma dispatch_error_ends:
  assumes "on_dispatch_error env i e st = (r, st')"
  shows "\<exists>how k. ends_as i persist k r st' how \<and> tr_verdict r \<noteq> turn_completed
    \<and> tn_calls k = tn_calls st \<and> tn_store k = tn_store st"
proof -
  let ?v = "\<lambda>s. if deadline_aborted s then abortVerdict s else turn_failed"
  have v: "?v s \<noteq> turn_completed" for s by simp
  obtain probe st1 where p: "checkAmbiguousDispatch env i (cleanupOf st) = (probe, st1)" by fastforce
  have q: "quiet st st1"
    by (rule quiet_trans [OF quiet_cleanupOf quiet_probe [of "cleanupOf st" env i, unfolded p snd_conv]])
  show ?thesis
  proof (cases "probe = probe_notDispatched")
    case True
    with assms have "st' = st1" "tr_verdict r \<noteq> turn_completed"
      by (auto simp: on_dispatch_error_def p Let_def split: if_splits)
    moreover from this have "ends_as i persist st1 r st' left_open" by (auto simp: ends_as_def)
    from ends_quiet [OF q this] have "ends_as i persist st r st' left_open" .
    ultimately show ?thesis by blast
  next
    case False
    let ?d = "if probe = probe_dispatched then dispatch_accepted else dispatch_unknown"
    let ?k = "cleanupOf (st1\<lparr>tn_dispatch := ?d\<rparr>)"
    from False assms obtain er where h: "handleAbort env i ?v er ?k = (r, st')"
      by (cases probe) (auto simp: on_dispatch_error_def p Let_def)
    from handleAbort_spec(3) [OF h v] have r: "tr_verdict r \<noteq> turn_completed" .
    from handleAbort_ends [OF h v] obtain how where e: "ends_as i persist ?k r st' how" by blast
    have "quiet (st\<lparr>tn_dispatch := ?d\<rparr>) ?k" using q by (auto simp: quiet_def same_books_def)
    from ends_quiet [OF this e] r show ?thesis by (intro exI [of _ how] exI [of _ "st\<lparr>tn_dispatch := ?d\<rparr>"]) simp
  qed
qed

text \<open>The whole turn: what it adds to the calls and what it does to the caller's store.\<close>

definition turn_calls :: "string \<Rightarrow> ContextSnapshot \<Rightarrow> nat \<Rightarrow> turn_end \<Rightarrow> host_call list \<Rightarrow> bool" where
  "turn_calls exec snap n how new \<longleftrightarrow>
     (\<exists>pre. new = pre @ end_calls exec n how \<and> list_all (\<lambda>c. neutral c \<or> c = call_execute exec snap) pre
        \<and> length (filter (\<lambda>c. c = call_execute exec snap) pre) \<le> 1 \<and> end_seq how n)"

lemma neutral_not_execute: "list_all neutral pre \<Longrightarrow> filter (\<lambda>c. c = call_execute exec snap) pre = []"
  by (induction pre) auto

lemma turn_calls_execute:
  assumes "list_all neutral pre" "end_seq how n"
  shows "turn_calls exec snap n how (call_rawClient # call_execute exec snap # pre @ end_calls exec n how)"
  unfolding turn_calls_def
  using assms neutral_not_execute [OF assms(1), of exec snap]
  by (intro exI [of _ "call_rawClient # call_execute exec snap # pre"]) (auto elim: list.pred_mono_strong)

lemma executeTurn_ends:
  assumes "executeTurn env i persist st = Some (r, st')"
  shows "\<exists>how n new. tn_calls st' = tn_calls st @ new \<and> turn_calls (ti_executionId i) (ti_snapshot i) n how new
    \<and> end_store persist how (tn_store st) (tn_store st')
    \<and> (case r of Inl e \<Rightarrow> how = left_open
       | Inr res \<Rightarrow> tr_verdict res = turn_completed \<longrightarrow> (\<exists>ev. how = persisted ev \<and> tr_terminal res = Some ev
            \<and> tr_ack res = turn_acknowledged \<and> tr_error res = None \<and> tr_dispatchState res = dispatch_accepted))"
proof -
  let ?e = "ti_executionId i"
  obtain r1 st1 where 1: "await call_rawClient (he_rawClient env) (begin_turn st) = (r1, st1)" by fastforce
  obtain r2 st2 where 2: "await (call_execute ?e (ti_snapshot i)) (he_execute env) st1 = (r2, st2)" by fastforce
  have s1: "tn_calls st1 = tn_calls st @ [call_rawClient]" "tn_store st1 = tn_store st" "\<not> tn_conflict st1"
    using await_result [OF 1] by (simp_all add: begin_turn_def)
  have s2: "tn_calls st2 = tn_calls st @ [call_rawClient, call_execute ?e (ti_snapshot i)]" "tn_store st2 = tn_store st" "\<not> tn_conflict st2"
    using await_result [OF 2] s1 by simp_all
  have whole: ?thesis if k: "tn_calls k = tn_calls st2" "tn_store k = tn_store st2" and r: "r = Inr res"
    and e: "ends_as i persist k res st' how" and d: "tr_verdict res = turn_completed \<Longrightarrow> tn_dispatch k = dispatch_accepted" for k res how
  proof -
    from e obtain pre n where pre: "tn_calls st' = tn_calls k @ pre @ end_calls ?e n how" "list_all neutral pre" "end_seq how n"
      by (auto simp: ends_as_def)
    have "tn_calls st' = tn_calls st @ call_rawClient # call_execute ?e (ti_snapshot i) # pre @ end_calls ?e n how"
      using pre(1) k s2 by simp
    with turn_calls_execute [OF pre(2,3), of ?e "ti_snapshot i"] e d k(2) s2(2) r show ?thesis
      unfolding ends_as_def by (intro exI conjI) auto
  qed
  show ?thesis
  proof (cases r1)
    case (Some e)
    with assms have "r = Inl e" "st' = st1" by (auto simp: executeTurn_def 1)
    with s1 show ?thesis
      by (intro exI [of _ left_open] exI [of _ 0] exI [of _ "[call_rawClient]"])
        (auto simp: turn_calls_def)
  next
    case None
    show ?thesis
    proof (cases r2)
      case (Some e)
      with None assms obtain res where d: "on_dispatch_error env i e st2 = (res, st')" "r = Inr res"
        by (cases "on_dispatch_error env i e st2") (auto simp: executeTurn_def 1 2)
      have "\<exists>how k. ends_as i persist k res st' how \<and> tr_verdict res \<noteq> turn_completed
          \<and> tn_calls k = tn_calls st2 \<and> tn_store k = tn_store st2"
        by (rule dispatch_error_ends [OF d(1)])
      then show ?thesis using whole [OF _ _ d(2)] by blast
    next
      case None2: None
      let ?k = "st2\<lparr>tn_dispatch := dispatch_accepted\<rparr>"
      from None None2 assms obtain outcome st3 where d: "driveToTerminal env i 0 False ?k = Some (outcome, st3)"
        by (auto simp: executeTurn_def 1 2 split: option.splits)
      with None None2 assms obtain res where o: "on_stream env i persist outcome st3 = (res, st')" "r = Inr res"
        by (cases "on_stream env i persist outcome st3") (auto simp: executeTurn_def 1 2)
      have q: "quiet ?k st3" using quiet_drive [OF d] by simp
      then have "\<not> tn_conflict st3" using s2(3) by (simp add: quiet_def same_books_def)
      from on_stream_ends [OF o(1) this] obtain how where "ends_as i persist st3 res st' how" ..
      from whole [OF _ _ o(2) ends_quiet [OF q this]] show ?thesis by simp
    qed
  qed
qed


section \<open>When a turn returns\<close>

text \<open>
  From some number of calls on, whenever the execution is read it has ended with a last sequence
  number of at most \<open>bound\<close>, or it cannot be read, or the deadline fires.
\<close>

definition settles :: "host_env \<Rightarrow> nat \<Rightarrow> nat \<Rightarrow> bool" where
  "settles env calls bound \<longleftrightarrow>
     (\<forall>h. calls \<le> length h \<longrightarrow>
        sig_deadline \<in> set (snd (he_getExecution env h))
      \<or> (case fst (he_getExecution env h) of
           Inl _ \<Rightarrow> True
         | Inr (s, lastSeq) \<Rightarrow> s \<noteq> exec_running \<and> (case lastSeq of None \<Rightarrow> True | Some k \<Rightarrow> k \<le> bound)))"

lemma fire_keeps_source: "tn_source st \<noteq> None \<Longrightarrow> tn_source (fold fire ss st) \<noteq> None"
proof (induction ss arbitrary: st)
  case (Cons s ss)
  then show ?case by (cases s) (auto simp: abort_from_def)
qed simp

lemma deadline_fires: "sig_deadline \<in> set ss \<Longrightarrow> deadline_aborted (fold fire ss st)"
proof (induction ss arbitrary: st)
  case (Cons s ss)
  show ?case
  proof (cases "s = sig_deadline")
    case True
    have "tn_source (fire sig_deadline st) \<noteq> None" by (simp add: abort_from_def)
    from fire_keeps_source [OF this] True show ?thesis by (simp add: deadline_aborted_def)
  next
    case False
    with Cons show ?thesis by simp
  qed
qed simp

lemma deliver_lastSeq: "fw_lastSeq st \<le> fw_lastSeq (fold deliver es st)"
proof (induction es arbitrary: st)
  case (Cons e es)
  have "fw_lastSeq st \<le> fw_lastSeq (deliver e st)" by (simp add: deliver_def)
  also have "\<dots> \<le> fw_lastSeq (fold deliver es (deliver e st))" by (rule Cons.IH)
  finally show ?case by simp
qed simp

lemma feed_lastSeq: "feed_chunk decode chunk st = Some st1 \<Longrightarrow> fw_lastSeq st \<le> fw_lastSeq st1"
  by (erule feed_delivers) (simp add: same_follow_def deliver_lastSeq)

lemma read_lastSeq: "read_stream decode reads st = Inr st' \<Longrightarrow> fw_lastSeq st \<le> fw_lastSeq st'"
proof (induction decode reads st rule: read_stream.induct)
  case (4 decode chunk rest st)
  then obtain st1 where f: "feed_chunk decode chunk st = Some st1" by (auto split: option.splits)
  show ?case
  proof (cases "fw_terminal st1 = None")
    case True
    with 4(1) [OF f] 4(2) feed_lastSeq [OF f] show ?thesis by (simp add: f)
  next
    case False
    with 4(2) feed_lastSeq [OF f] show ?thesis by (simp add: f)
  qed
qed auto

lemma follow_lastSeq:
  assumes "followExecutionEvents decode n reply ab = Inr (follow_closed k)" shows "n \<le> k"
proof (cases reply)
  case (HttpBody reads)
  with assms obtain st where "read_stream decode reads (follow_start n) = Inr st" "follow_outcome ab st = follow_closed k"
    by (cases "read_stream decode reads (follow_start n)") (auto simp: followExecutionEvents_def)
  then show ?thesis using read_lastSeq [of decode reads "follow_start n" st]
    by (auto simp: follow_outcome_def follow_start_def split: option.splits if_splits)
qed (use assms in \<open>simp_all add: followExecutionEvents_def\<close>)

lemma connect_step:
  assumes "connect env i n st = (r, st')"
  shows "tn_calls st' = tn_calls st @ [call_connect (ti_executionId i) n]" "r = Inr (follow_closed k) \<Longrightarrow> n \<le> k"
proof -
  show "tn_calls st' = tn_calls st @ [call_connect (ti_executionId i) n]"
    using assms by (auto simp: connect_def Let_def split_beta)
  assume "r = Inr (follow_closed k)"
  with assms obtain reply ab where "map_sum (stream_thrown env) id (followExecutionEvents (he_decode env) n reply ab) = Inr (follow_closed k)"
    by (auto simp: connect_def Let_def split_beta)
  then have "followExecutionEvents (he_decode env) n reply ab = Inr (follow_closed k)"
    by (cases "followExecutionEvents (he_decode env) n reply ab") simp_all
  then show "n \<le> k" by (rule follow_lastSeq)
qed

lemma follow_turn_closed:
  assumes "follow_turn env i n st = (Inr (Some (follow_closed k)), st')"
  shows "n \<le> k \<and> length (tn_calls st) < length (tn_calls st')"
proof -
  obtain r1 st1 where 1: "connect env i n st = (r1, st1)" by fastforce
  note s1 = connect_step [OF 1]
  show ?thesis
  proof (cases r1)
    case (Inr x)
    with assms 1 have "x = follow_closed k" "st' = st1" by (auto simp: follow_turn_def)
    with s1 Inr show ?thesis by simp
  next
    case (Inl e)
    obtain r2 st2 where 2: "await call_refreshAuth (he_refreshAuth env) st1 = (r2, st2)" by fastforce
    obtain r3 st3 where 3: "await call_rawClient (he_rawClient env) st2 = (r3, st3)" by fastforce
    obtain r4 st4 where 4: "connect env i n st3 = (r4, st4)" by fastforce
    from Inl assms have "r4 = Inr (follow_closed k)" "st' = st4"
      by (auto simp: follow_turn_def 1 2 3 4 split: if_splits option.splits sum.splits)
    with connect_step [OF 4] await_result [OF 2] await_result [OF 3] s1 show ?thesis by simp
  qed
qed

lemma drive_returns:
  assumes "settles env N bound"
  shows "\<exists>res. driveToTerminal env i n spent st = Some res"
proof (induction "(N - length (tn_calls st), reconnects_left bound n spent)" arbitrary: n spent st
    rule: wf_induct [OF wf_lex_prod [OF wf_less_than wf_less_than]])
  case 1
  obtain r1 st1 where f: "follow_turn env i n st = (r1, st1)" by fastforce
  obtain reply st2 where g: "await (call_getExecution (ti_executionId i)) (he_getExecution env) st1 = (reply, st2)"
    by fastforce
  show ?case
  proof (cases "\<exists>k sp. r1 = Inr (Some (follow_closed k)) \<and> \<not> deadline_aborted st2
      \<and> decideFollowAfterClose (close_snapshot reply) k (n < k) spent = follow_reconnect sp")
    case False
    then show ?thesis
      by (subst driveToTerminal.simps)
        (auto simp: f g split: sum.splits option.splits FollowOutcome.splits FollowAfterClose.splits)
  next
    case True
    then obtain k sp where k: "r1 = Inr (Some (follow_closed k))" "\<not> deadline_aborted st2"
        "decideFollowAfterClose (close_snapshot reply) k (n < k) spent = follow_reconnect sp" by blast
    have n: "n \<le> k" "length (tn_calls st) < length (tn_calls st1)" using follow_turn_closed f k(1) by blast+
    have l: "length (tn_calls st2) = Suc (length (tn_calls st1))" using await_result [OF g] by simp
    have "((N - length (tn_calls st2), reconnects_left bound k sp), (N - length (tn_calls st), reconnects_left bound n spent))
        \<in> less_than <*lex*> less_than"
    proof (cases "N \<le> length (tn_calls st1)")
      case False
      with n l have "N - length (tn_calls st2) < N - length (tn_calls st)" by linarith
      then show ?thesis by simp
    next
      case True
      have reply: "reply = fst (he_getExecution env (tn_calls st1))"
        and "\<not> deadline_aborted st2 \<longrightarrow> sig_deadline \<notin> set (snd (he_getExecution env (tn_calls st1)))"
        using g deadline_fires by (auto simp: await_def)
      with k(2) True assms have s: "case reply of Inl _ \<Rightarrow> True
          | Inr (s, lastSeq) \<Rightarrow> s \<noteq> exec_running \<and> (case lastSeq of None \<Rightarrow> True | Some k \<Rightarrow> k \<le> bound)"
        unfolding settles_def by blast
      obtain s last where r: "reply = Inr (s, last)"
        using k(3) by (cases reply) (auto simp: close_snapshot_def decideFollowAfterClose_def)
      have "reconnects_left bound k sp < reconnects_left bound n spent"
        by (rule reconnects_decrease [OF _ _ _ n(1)])
          (use k(3) s in \<open>auto simp: r close_snapshot_def split: option.splits\<close>)
      with True n l show ?thesis by (simp, arith)
    qed
    from 1(1) [rule_format, OF this refl] obtain res where "driveToTerminal env i k sp st2 = Some res" by blast
    with k show ?thesis by (subst driveToTerminal.simps) (simp add: f g)
  qed
qed


section \<open>Properties\<close>

definition is_execute :: "host_call \<Rightarrow> bool" where
  "is_execute c \<longleftrightarrow> (case c of call_execute _ _ \<Rightarrow> True | _ \<Rightarrow> False)"

definition is_ack :: "host_call \<Rightarrow> bool" where
  "is_ack c \<longleftrightarrow> (case c of call_ack _ _ _ \<Rightarrow> True | _ \<Rightarrow> False)"

lemma turn_calls_counts:
  assumes "turn_calls exec snap n how new"
  shows "length (filter is_execute new) \<le> 1" "length (filter is_ack new) \<le> 1"
proof -
  from assms obtain pre where pre: "new = pre @ end_calls exec n how"
      "list_all (\<lambda>c. neutral c \<or> c = call_execute exec snap) pre" "length (filter (\<lambda>c. c = call_execute exec snap) pre) \<le> 1"
    by (auto simp: turn_calls_def)
  have e: "filter is_execute pre = filter (\<lambda>c. c = call_execute exec snap) pre"
    using pre(2) by (intro filter_cong refl) (auto simp: list_all_iff is_execute_def split: host_call.splits)
  have a: "filter is_ack pre = []"
    using pre(2) by (induction pre) (auto simp: is_ack_def split: host_call.splits)
  show "length (filter is_execute new) \<le> 1" "length (filter is_ack new) \<le> 1"
    using pre(3) e a by (cases how; simp add: pre(1) is_execute_def is_ack_def)+
qed

lemma turn_calls_committed:
  assumes "turn_calls exec snap n how new" "call_ack exec disp_committed k \<in> set new"
  shows "\<exists>pre ev. how = persisted ev \<and> new = pre @ [call_persist exec ev True, call_ack exec disp_committed k]
    \<and> k = max 1 (ve_finalSeq ev) \<and> \<not> blank (ve_output ev)"
proof -
  from assms(1) obtain pre where pre: "new = pre @ end_calls exec n how"
      "list_all (\<lambda>c. neutral c \<or> c = call_execute exec snap) pre" "end_seq how n"
    by (auto simp: turn_calls_def)
  from pre(2) have "call_ack exec disp_committed k \<notin> set pre" by (induction pre) auto
  with assms(2) pre show ?thesis by (cases how) auto
qed

text \<open>C16: A turn sends execute at most once and acknowledges at most once; when it acknowledges as
  committed, or reports completion, the caller has stored the non-empty output of that terminal event
  immediately before, and a completed turn has been acknowledged.\<close>

theorem turn_persists_before_ack:
  assumes "executeTurn env i persist st = Some (r, st')"
  shows "\<exists>new. tn_calls st' = tn_calls st @ new
    \<and> length (filter is_execute new) \<le> 1 \<and> length (filter is_ack new) \<le> 1
    \<and> (\<forall>n. call_ack (ti_executionId i) disp_committed n \<in> set new \<longrightarrow>
         (\<exists>pre ev. new = pre @ [call_persist (ti_executionId i) ev True, call_ack (ti_executionId i) disp_committed n]
            \<and> persist ev (tn_store st) = (None, tn_store st') \<and> n = max 1 (ve_finalSeq ev) \<and> \<not> blank (ve_output ev)))
    \<and> (\<forall>res. r = Inr res \<and> tr_verdict res = turn_completed \<longrightarrow>
         (\<exists>ev. tr_terminal res = Some ev \<and> tr_ack res = turn_acknowledged \<and> tr_error res = None
            \<and> call_ack (ti_executionId i) disp_committed (max 1 (ve_finalSeq ev)) \<in> set new))"
proof -
  from executeTurn_ends [OF assms] obtain how n new where new: "tn_calls st' = tn_calls st @ new"
      and t: "turn_calls (ti_executionId i) (ti_snapshot i) n how new" and e: "end_store persist how (tn_store st) (tn_store st')"
      and c0: "case r of Inl e \<Rightarrow> how = left_open
       | Inr res \<Rightarrow> tr_verdict res = turn_completed \<longrightarrow> (\<exists>ev. how = persisted ev \<and> tr_terminal res = Some ev
            \<and> tr_ack res = turn_acknowledged \<and> tr_error res = None \<and> tr_dispatchState res = dispatch_accepted)" by blast
  have c: "\<exists>ev. how = persisted ev \<and> tr_terminal res = Some ev \<and> tr_ack res = turn_acknowledged \<and> tr_error res = None"
    if "r = Inr res" "tr_verdict res = turn_completed" for res
    using c0 that by auto
  have ack: "call_ack (ti_executionId i) disp_committed (max 1 (ve_finalSeq ev)) \<in> set new" if "how = persisted ev" for ev
    using t that by (auto simp: turn_calls_def)
  show ?thesis
  proof (rule exI [of _ new], intro conjI allI impI)
    show "tn_calls st' = tn_calls st @ new" by (rule new)
    show "length (filter is_execute new) \<le> 1" "length (filter is_ack new) \<le> 1"
      by (rule turn_calls_counts [OF t])+
  next
    fix k assume "call_ack (ti_executionId i) disp_committed k \<in> set new"
    from turn_calls_committed [OF t this] e
    show "\<exists>pre ev. new = pre @ [call_persist (ti_executionId i) ev True, call_ack (ti_executionId i) disp_committed k]
      \<and> persist ev (tn_store st) = (None, tn_store st') \<and> k = max 1 (ve_finalSeq ev) \<and> \<not> blank (ve_output ev)" by auto
  next
    fix res assume "r = Inr res \<and> tr_verdict res = turn_completed"
    then obtain ev where "how = persisted ev" "tr_terminal res = Some ev" "tr_ack res = turn_acknowledged" "tr_error res = None"
      using c [of res] by auto
    with ack [of ev] show "\<exists>ev. tr_terminal res = Some ev \<and> tr_ack res = turn_acknowledged \<and> tr_error res = None
      \<and> call_ack (ti_executionId i) disp_committed (max 1 (ve_finalSeq ev)) \<in> set new" by blast
  qed
qed

text \<open>A turn returns whenever its execution eventually settles: from some point on the Host no
  longer reports it running, or cannot be asked, or the deadline fires.\<close>

lemma turn_returns:
  assumes "settles env calls bound"
  shows "\<exists>r st'. executeTurn env i persist st = Some (r, st')"
proof -
  obtain r1 st1 where 1: "await call_rawClient (he_rawClient env) (begin_turn st) = (r1, st1)" by fastforce
  obtain r2 st2 where 2: "await (call_execute (ti_executionId i) (ti_snapshot i)) (he_execute env) st1 = (r2, st2)" by fastforce
  from drive_returns [OF assms] obtain res where
    "driveToTerminal env i 0 False (st2\<lparr>tn_dispatch := dispatch_accepted\<rparr>) = Some res" by blast
  then show ?thesis
    by (cases r1; cases r2; cases res) (auto simp: executeTurn_def 1 2 split_paired_Ex intro: prod.exhaust)
qed

section \<open>A concrete turn\<close>

definition sample_completed :: RuntimeEvent where
  "sample_completed = \<lparr>ev_executionId = ''e1'', ev_seq = 2, ev_at = ''t'',
     ev_body = Completed ''yes'' ''m'' None verdict_match tool_none dispatch_accepted None 2\<rparr>"

text \<open>A Host that accepts the turn and streams its terminal event in two chunks.\<close>

definition sample_host :: host_env where
  "sample_host = \<lparr>he_rawClient = (\<lambda>_. (None, [])), he_execute = (\<lambda>_. (None, [])),
     he_getExecution = (\<lambda>_. (Inr (exec_completed, Some 2), [])), he_cancelExecution = (\<lambda>_. (None, [])),
     he_ack = (\<lambda>_. (Inr ack_acknowledged, [])),
     he_connect = (\<lambda>_. (HttpBody [Chunk (''event: runtime'' @ [line_feed] @ ''da''), Chunk (''ta: 2'' @ [line_feed, line_feed])], [])),
     he_refreshAuth = (\<lambda>_. (None, [])), he_pause = (\<lambda>_. ((), [])), he_now = (\<lambda>h. int (length h)),
     he_decode = (\<lambda>s. if s = ''2'' then Some sample_completed else None),
     he_abortMessage = [], he_badEventMessage = []\<rparr>"

definition sample_context :: ContextSnapshot where
  "sample_context = \<lparr>cx_digestVersion = 1, cx_roomContext = \<lparr>rc_contextRevision = 0, rc_contextDigest = ''d'',
       rc_topic = Some ''t'', rc_background = None, rc_items = []\<rparr>,
     cx_participant = \<lparr>sp_participantId = ''p1'', sp_participantSnapshotDigest = ''d'', sp_personaPrompt = None\<rparr>,
     cx_instruction = \<lparr>in_kind = instruction_message, in_digest = ''d'', in_text = ''go''\<rparr>\<rparr>"

definition sample_input :: turn_input where
  "sample_input = \<lparr>ti_executionId = ''e1'', ti_participantId = ''p1'', ti_snapshot = sample_context, ti_generation = None, ti_startedAt = 0\<rparr>"

definition sample_turn_state :: "string list turn_state" where
  "sample_turn_state = \<lparr>tn_calls = [], tn_source = None, tn_external = False, tn_cleanup = prepareCleanupBudget,
     tn_dispatch = not_dispatched, tn_ack = turn_skipped, tn_conflict = False, tn_ackAborted = False, tn_store = []\<rparr>"

definition keep_output :: "string list persist" where
  "keep_output ev outputs = (None, outputs @ [ve_output ev])"

text \<open>Verdict, store and number of calls of a turn.\<close>

definition turn_summary :: "((thrown + TurnResult) \<times> 's turn_state) option \<Rightarrow> ((thrown + TurnVerdict) \<times> 's \<times> nat) option" where
  "turn_summary = map_option (\<lambda>(r, st). (map_sum id tr_verdict r, tn_store st, length (tn_calls st)))"

lemma sample_turn_completes:
  "turn_summary (executeTurn sample_host sample_input keep_output sample_turn_state)
   = Some (Inr turn_completed, [''yes''], 5)"
  by code_simp

lemma turn_persists_before_ack_witness:
  "\<exists>r st' n. executeTurn sample_host sample_input keep_output sample_turn_state = Some (r, st')
     \<and> call_ack ''e1'' disp_committed n \<in> set (tn_calls st') \<and> tn_store st' = [''yes'']"
proof -
  from sample_turn_completes obtain r st' where run: "executeTurn sample_host sample_input keep_output sample_turn_state = Some (r, st')"
      "map_sum id tr_verdict r = Inr turn_completed" "tn_store st' = [''yes'']"
    by (auto simp: turn_summary_def)
  then obtain res where res: "r = Inr res" "tr_verdict res = turn_completed" by (cases r) auto
  from turn_persists_before_ack [OF run(1)] res obtain new n where "tn_calls st' = tn_calls sample_turn_state @ new"
      "call_ack (ti_executionId sample_input) disp_committed n \<in> set new" by blast
  then have "call_ack ''e1'' disp_committed n \<in> set (tn_calls st')" by (simp add: sample_input_def)
  with run show ?thesis by blast
qed

end
