(* ===== verification/Council_Run.thy ===== *)
theory Council_Run
  imports Execute_Turn Profile_Resolver Clip_Utf16
begin

text \<open>
  One council run of the command line tool: \<open>src/cli/src/run/orchestrator.ts\<close> with its types
  (\<open>run/types.ts\<close>), context snapshots (\<open>run/context-snapshot.ts\<close>), transcript records
  (\<open>store/schemas.ts\<close>) and report (\<open>report/render.ts\<close>).  A run creates a scope, drives every agent through every round, lets
  the reporter summarise, closes the scope and writes report and transcript.  Its turns are
  \<open>executeTurn\<close> with the orchestrator's own persist callbacks.  Files are written whole or not at
  all (a temporary file and a rename); whether the n-th write fails is a parameter, as are the
  clock, the ids, the hash and the two instruction texts, which contain characters beyond U+00FF.
  A report is kept as the data it is rendered from.
\<close>

section \<open>Councils, agents and records\<close>

record AgentSnapshot =
  ag_id :: string
  ag_name :: string
  ag_personaPrompt :: string
  ag_modelId :: string
  ag_color :: string
  ag_enabled :: bool
  ag_options :: DriverOptions

record ResolvedAgent =
  ra_snapshot :: AgentSnapshot
  ra_profile :: ExecutionProfileDto
  ra_installationId :: string
  ra_participantId :: string
  ra_participantSnapshotDigest :: string

record CouncilSnapshot =
  co_id :: string
  co_name :: string
  co_topic :: string
  co_background :: string
  co_targetOutput :: string
  co_rounds :: nat
  co_reporterAgentId :: string
  co_agentIds :: "string list"

record CompletedTurn =
  ct_agentId :: string
  ct_agentName :: string
  ct_participantId :: string
  ct_executionId :: string
  ct_output :: string
  ct_round :: nat
  ct_turnIndex :: nat

datatype RunStatus = run_completed | run_failed | run_interrupted

datatype TurnRole = role_message | role_report

record RunFailure =
  rf_phase :: string
  rf_code :: string
  rf_message :: string
  rf_role :: "TurnRole option"
  rf_driverId :: "DriverId option"
  rf_limitMs :: "nat option"

record TurnSummary =
  ts_role :: TurnRole
  ts_round :: nat
  ts_turnIndex :: nat
  ts_agentId :: string
  ts_agentName :: string
  ts_verdict :: TurnVerdict
  ts_effectiveModel :: "string option"
  ts_durationMs :: int

record RunStartedRecord =
  st_runId :: string
  st_startedAt :: string
  st_council :: CouncilSnapshot
  st_agents :: "AgentSnapshot list"
  st_installationId :: string
  st_installations :: "(string \<times> string) list"

record TurnCompletedRecord =
  tc_seq :: nat
  tc_completedAt :: string
  tc_round :: nat
  tc_turnIndex :: nat
  tc_role :: TurnRole
  tc_agentId :: string
  tc_agentName :: string
  tc_participantId :: string
  tc_executionId :: string
  tc_evidence :: TerminalEvidence
  tc_durationMs :: int

record RunFinishedRecord =
  fn_status :: RunStatus
  fn_endedAt :: string
  fn_failure :: "(string \<times> string \<times> string) option"
  fn_incomplete :: bool

datatype TranscriptRecord =
    run_started RunStartedRecord
  | turn_record TurnCompletedRecord
  | run_finished RunFinishedRecord

text \<open>The header of a report and its two forms, with the data each is rendered from.\<close>

record report_header =
  rh_runId :: string
  rh_council :: CouncilSnapshot
  rh_reporterName :: string
  rh_participantNames :: "string list"
  rh_startedAt :: string
  rh_endedAt :: string
  rh_demo :: bool

datatype Report =
    SuccessReport report_header string
  | PartialReport report_header "CompletedTurn list" RunFailure

definition renderSuccessReport :: "report_header \<Rightarrow> string \<Rightarrow> Report" where
  "renderSuccessReport header reporterOutput =
     SuccessReport header (let body = js_trim reporterOutput
       in if body \<noteq> [] then body else ''_(Reporter produced no body.)_'')"

definition renderPartialReport :: "report_header \<Rightarrow> CompletedTurn list \<Rightarrow> RunFailure \<Rightarrow> Report" where
  "renderPartialReport = PartialReport"

record RunInput =
  ru_runId :: string
  ru_council :: CouncilSnapshot
  ru_agents :: "ResolvedAgent list"
  ru_reporter :: ResolvedAgent
  ru_rounds :: nat
  ru_outPath :: "string option"
  ru_demo :: bool

record RunOutcome =
  ro_status :: RunStatus
  ro_exitCode :: ExitCode
  ro_runId :: string
  ro_startedAt :: string
  ro_endedAt :: string
  ro_turns :: "TurnSummary list"
  ro_installations :: "(string \<times> string) list"
  ro_failure :: "RunFailure option"
  ro_artifactIoFailure :: "RunFailure option"
  ro_incomplete :: bool

section \<open>Context snapshots\<close>

definition contextItem :: "string \<Rightarrow> CouncilSnapshot \<Rightarrow> (string \<times> string) list \<Rightarrow> SnapshotItem" where
  "contextItem runId council agents =
     (let roster = join newline (map (\<lambda>(name, participantId). ''- '' @ name @ '' (participant '' @ participantId @ '')'') agents);
          parts = [''Topic: '' @ co_topic council]
            @ (if \<not> blank (co_background council) then [''Background:'' @ newline @ co_background council] else [])
            @ (if \<not> blank (co_targetOutput council) then [''Target output:'' @ newline @ co_targetOutput council] else [])
            @ [''Participating agents:'' @ newline @ roster]
      in \<lparr>si_id = runId @ '':context'', si_role = role_user, si_participantId = None,
          si_content = join blank_line parts, si_sourceExecutionId = None\<rparr>)"

definition turnItem :: "string \<Rightarrow> nat \<Rightarrow> CompletedTurn \<Rightarrow> SnapshotItem" where
  "turnItem runId seq t =
     \<lparr>si_id = runId @ '':turn:'' @ show_nat seq, si_role = role_participant, si_participantId = Some (ct_participantId t),
      si_content = ct_output t, si_sourceExecutionId = Some (ct_executionId t)\<rparr>"

definition sharedItems :: "string \<Rightarrow> CouncilSnapshot \<Rightarrow> ResolvedAgent list \<Rightarrow> CompletedTurn list \<Rightarrow> SnapshotItem list" where
  "sharedItems runId council agents completedTurns =
     contextItem runId council (map (\<lambda>a. (ag_name (ra_snapshot a), ra_participantId a)) agents)
     # map (\<lambda>(i, t). turnItem runId (i + 1) t) (List.enumerate 0 completedTurns)"

definition buildContextSnapshot :: "(string \<Rightarrow> string) \<Rightarrow> CouncilSnapshot \<Rightarrow> SnapshotItem list \<Rightarrow> ResolvedAgent
    \<Rightarrow> InstructionKind \<Rightarrow> string \<Rightarrow> ContextSnapshot" where
  "buildContextSnapshot sha council items agent kind txt =
     \<lparr>cx_digestVersion = SNAPSHOT_DIGEST_VERSION,
      cx_roomContext =
        \<lparr>rc_contextRevision = length items - 1,
         rc_contextDigest = computeContextDigest sha
           \<lparr>sj_topic = co_topic council, sj_background = co_background council, sj_items = items\<rparr>,
         rc_topic = (if co_topic council \<noteq> [] then Some (co_topic council) else None),
         rc_background = None, rc_items = items\<rparr>,
      cx_participant =
        \<lparr>sp_participantId = ra_participantId agent, sp_participantSnapshotDigest = ra_participantSnapshotDigest agent,
         sp_personaPrompt = (if ag_personaPrompt (ra_snapshot agent) \<noteq> [] then Some (ag_personaPrompt (ra_snapshot agent)) else None)\<rparr>,
      cx_instruction = \<lparr>in_kind = kind, in_digest = computeInstructionDigest sha kind txt, in_text = txt\<rparr>\<rparr>"

text \<open>What \<open>contextSnapshotSchema.parse\<close> can reject in such a snapshot; otherwise it throws.\<close>

definition contextSnapshotSchema :: "ContextSnapshot \<Rightarrow> bool" where
  "contextSnapshotSchema s \<longleftrightarrow>
     cx_digestVersion s = 1 \<and> rc_contextDigest (cx_roomContext s) \<noteq> []
   \<and> list_all (\<lambda>item. si_id item \<noteq> []) (rc_items (cx_roomContext s))
   \<and> sp_participantId (cx_participant s) \<noteq> [] \<and> sp_participantSnapshotDigest (cx_participant s) \<noteq> []
   \<and> in_digest (cx_instruction s) \<noteq> []"

section \<open>The environment and the state of a run\<close>

record CreateScopeResponse =
  cs_scopeId :: string
  cs_controllerId :: string
  cs_leaseEpoch :: nat

record run_env =
  ve_host :: host_env
  ve_ensureRunDir :: "thrown option"
  ve_demoMarker :: "thrown option"
  ve_createScope :: "host_call list \<Rightarrow> (thrown + CreateScopeResponse) \<times> signal list"
  ve_activateScope :: "host_call list \<Rightarrow> thrown option \<times> signal list"
  ve_closeScope :: "host_call list \<Rightarrow> thrown option \<times> signal list"
  ve_scopeStatus :: "host_call list \<Rightarrow> (thrown + ScopeState) \<times> signal list"
  ve_writeFails :: "nat \<Rightarrow> string option"
  ve_date :: "nat \<Rightarrow> string"
  ve_uuid :: "nat \<Rightarrow> string"
  ve_sha :: "string \<Rightarrow> string"
  ve_messageText :: "string \<Rightarrow> string \<Rightarrow> nat \<Rightarrow> nat \<Rightarrow> string \<Rightarrow> string"
  ve_reportText :: "CouncilSnapshot \<Rightarrow> string list \<Rightarrow> string \<Rightarrow> string"
  ve_schemaMessage :: string
  ve_timeouts :: GenerationTimeouts

record run_store =
  rs_transcript :: "TranscriptRecord list"
  rs_completedTurns :: "CompletedTurn list"
  rs_turns :: "TurnSummary list"
  rs_scope :: "CreateScopeResponse option"
  rs_status :: RunStatus
  rs_failure :: "RunFailure option"
  rs_artifactIoFailure :: "RunFailure option"
  rs_reporterOutput :: "string option"
  rs_successReport :: "Report option"
  rs_diskTranscript :: "TranscriptRecord list option"
  rs_diskReport :: "Report option"
  rs_diskCopy :: "Report option"
  rs_writes :: nat
  rs_dates :: nat
  rs_ids :: nat

type_synonym run_state = "run_store turn_state"

definition on_store :: "(run_store \<Rightarrow> run_store) \<Rightarrow> run_state \<Rightarrow> run_state" where
  "on_store f st = st\<lparr>tn_store := f (tn_store st)\<rparr>"

text \<open>The clock and the ids are read one after the other.\<close>

definition now_date :: "run_env \<Rightarrow> run_store \<Rightarrow> string \<times> run_store" where
  "now_date env s = (ve_date env (rs_dates s), s\<lparr>rs_dates := rs_dates s + 1\<rparr>)"

definition next_id :: "run_env \<Rightarrow> run_store \<Rightarrow> string \<times> run_store" where
  "next_id env s = (ve_uuid env (rs_ids s), s\<lparr>rs_ids := rs_ids s + 1\<rparr>)"

section \<open>Failures and exit codes\<close>

definition clipFailureMessage :: "thrown \<Rightarrow> string" where
  "clipFailureMessage error = clip_string (thrown_message error) 512"

fun thrown_code :: "thrown \<Rightarrow> string option" where
  "thrown_code (RuntimeClientError _ code _) = Some code"
| "thrown_code (SystemError code _) = Some code"
| "thrown_code _ = None"

definition run_failure :: "string \<Rightarrow> string \<Rightarrow> string \<Rightarrow> RunFailure" where
  "run_failure phase code message =
     \<lparr>rf_phase = phase, rf_code = code, rf_message = message, rf_role = None, rf_driverId = None, rf_limitMs = None\<rparr>"

definition toFailure :: "string \<Rightarrow> string \<Rightarrow> thrown \<Rightarrow> RunFailure" where
  "toFailure phase code error =
     run_failure phase (case thrown_code error of Some c \<Rightarrow> c | None \<Rightarrow> code) (clipFailureMessage error)"

definition abortedFailure :: RunFailure where
  "abortedFailure = run_failure ''signal'' ''INTERRUPTED'' ''interrupted by signal (SIGINT/SIGTERM)''"

definition abortedBySignal :: thrown where
  "abortedBySignal = AbortError ''interrupted by signal''"

fun turn_phase_text :: "TurnPhase \<Rightarrow> string" where
  "turn_phase_text tp_dispatch = ''dispatch''"
| "turn_phase_text tp_stream = ''stream''"
| "turn_phase_text tp_commit = ''commit''"
| "turn_phase_text tp_ack = ''ack''"
| "turn_phase_text tp_cleanup = ''cleanup''"
| "turn_phase_text tp_deadline = ''deadline''"
| "turn_phase_text tp_terminal = ''terminal''"
| "turn_phase_text tp_io = ''io''"

fun turn_verdict_text :: "TurnVerdict \<Rightarrow> string" where
  "turn_verdict_text turn_completed = ''completed''"
| "turn_verdict_text turn_failed = ''failed''"
| "turn_verdict_text turn_interrupted = ''interrupted''"
| "turn_verdict_text turn_timeout = ''timeout''"
| "turn_verdict_text turn_cancelled = ''cancelled''"

definition turnFailure :: "TurnError \<Rightarrow> ResolvedAgent \<Rightarrow> TurnRole \<Rightarrow> RunFailure" where
  "turnFailure error agent role =
     \<lparr>rf_phase = turn_phase_text (tx_phase error), rf_code = tx_code error, rf_message = tx_message error,
      rf_role = Some role, rf_driverId = Some (ep_driverId (ra_profile agent)),
      rf_limitMs = (case tx_limitMs error of Some n \<Rightarrow> if n \<noteq> 0 then Some n else None | None \<Rightarrow> None)\<rparr>"

definition exitCodeForRun :: "RunStatus \<Rightarrow> RunFailure option \<Rightarrow> bool \<Rightarrow> RunFailure option \<Rightarrow> ExitCode" where
  "exitCodeForRun status failure aborted artifactIoFailure =
     (if aborted \<and> status = run_interrupted then EXIT_interrupted
      else if artifactIoFailure \<noteq> None then EXIT_io
      else if status = run_completed then EXIT_ok
      else case failure of
        Some f \<Rightarrow>
          if rf_phase f = ''io'' \<or> rf_phase f = ''report'' then EXIT_io
          else if rf_phase f = ''cleanup'' then EXIT_runFailed
          else if rf_code f = ''RESOURCE_LIMIT'' \<or> rf_code f = ''RATE_LIMITED'' then EXIT_quota
          else if exitCodeForHostCode (rf_code f) in_run = EXIT_quota then EXIT_quota
          else EXIT_runFailed
      | None \<Rightarrow> EXIT_runFailed)"

section \<open>Files\<close>

text \<open>\<open>rewriteTranscript\<close> writes the records kept in memory.\<close>

definition rewriteTranscript :: "run_env \<Rightarrow> run_store \<Rightarrow> thrown option \<times> run_store" where
  "rewriteTranscript env s =
     (let s' = s\<lparr>rs_writes := rs_writes s + 1\<rparr>
      in case ve_writeFails env (rs_writes s) of
           Some name \<Rightarrow> (Some (CliError EXIT_io (''failed to write transcript: '' @ name)), s')
         | None \<Rightarrow> (None, s'\<lparr>rs_diskTranscript := Some (rs_transcript s)\<rparr>))"

definition writeCanonicalReport :: "run_env \<Rightarrow> Report \<Rightarrow> run_store \<Rightarrow> thrown option \<times> run_store" where
  "writeCanonicalReport env markdown s =
     (let s' = s\<lparr>rs_writes := rs_writes s + 1\<rparr>
      in case ve_writeFails env (rs_writes s) of
           Some name \<Rightarrow> (Some (CliError EXIT_io (''failed to write canonical report: '' @ name)), s')
         | None \<Rightarrow> (None, s'\<lparr>rs_diskReport := Some markdown\<rparr>))"

definition writeReportCopy :: "run_env \<Rightarrow> Report \<Rightarrow> run_store \<Rightarrow> thrown option \<times> run_store" where
  "writeReportCopy env markdown s =
     (let s' = s\<lparr>rs_writes := rs_writes s + 1\<rparr>
      in case ve_writeFails env (rs_writes s) of
           Some name \<Rightarrow> (Some (CliError EXIT_io (''failed to write --out report copy: '' @ name)), s')
         | None \<Rightarrow> (None, s'\<lparr>rs_diskCopy := Some markdown\<rparr>))"

definition run_header :: "RunInput \<Rightarrow> string \<Rightarrow> string \<Rightarrow> report_header" where
  "run_header input startedAt endedAt =
     \<lparr>rh_runId = ru_runId input, rh_council = ru_council input, rh_reporterName = ag_name (ra_snapshot (ru_reporter input)),
      rh_participantNames = map (ag_name \<circ> ra_snapshot) (ru_agents input), rh_startedAt = startedAt,
      rh_endedAt = endedAt, rh_demo = ru_demo input\<rparr>"

section \<open>Persisting a turn\<close>

record turn_meta =
  tm_round :: nat
  tm_turnIndex :: nat
  tm_agent :: ResolvedAgent
  tm_executionId :: string

definition completed_record :: "turn_meta \<Rightarrow> TurnRole \<Rightarrow> nat \<Rightarrow> string \<Rightarrow> TerminalEvidence \<Rightarrow> TurnCompletedRecord" where
  "completed_record m role seq date evidence =
     \<lparr>tc_seq = seq, tc_completedAt = date, tc_round = tm_round m, tc_turnIndex = tm_turnIndex m, tc_role = role,
      tc_agentId = ag_id (ra_snapshot (tm_agent m)), tc_agentName = ag_name (ra_snapshot (tm_agent m)),
      tc_participantId = ra_participantId (tm_agent m), tc_executionId = tm_executionId m,
      tc_evidence = evidence, tc_durationMs = 0\<rparr>"

definition completed_turn :: "turn_meta \<Rightarrow> TerminalEvidence \<Rightarrow> CompletedTurn" where
  "completed_turn m evidence =
     \<lparr>ct_agentId = ag_id (ra_snapshot (tm_agent m)), ct_agentName = ag_name (ra_snapshot (tm_agent m)),
      ct_participantId = ra_participantId (tm_agent m), ct_executionId = tm_executionId m,
      ct_output = ve_output evidence, ct_round = tm_round m, ct_turnIndex = tm_turnIndex m\<rparr>"

definition makePersist :: "run_env \<Rightarrow> turn_meta \<Rightarrow> run_store persist" where
  "makePersist env m evidence s =
     (let (date, s1) = now_date env s
      in rewriteTranscript env
           (s1\<lparr>rs_transcript := rs_transcript s1
                 @ [turn_record (completed_record m role_message (length (rs_completedTurns s1)) date evidence)],
               rs_completedTurns := rs_completedTurns s1 @ [completed_turn m evidence]\<rparr>))"

fun message_record :: "TranscriptRecord \<Rightarrow> bool" where
  "message_record (turn_record r) \<longleftrightarrow> tc_role r = role_message"
| "message_record _ \<longleftrightarrow> False"

definition completedMessageCount :: "TranscriptRecord list \<Rightarrow> nat" where
  "completedMessageCount transcript = length (filter message_record transcript)"

definition makeReporterPersist :: "run_env \<Rightarrow> RunInput \<Rightarrow> string \<Rightarrow> turn_meta \<Rightarrow> run_store persist" where
  "makeReporterPersist env input startedAt m evidence s =
     (let (date, s1) = now_date env s;
          s2 = s1\<lparr>rs_transcript := rs_transcript s1
                 @ [turn_record (completed_record m role_report (completedMessageCount (rs_transcript s1)) date evidence)]\<rparr>
      in case rewriteTranscript env s2 of
           (Some e, s3) \<Rightarrow> (Some e, s3)
         | (None, s3) \<Rightarrow>
             (let (endedAt, s4) = now_date env s3;
                  markdown = renderSuccessReport (run_header input startedAt endedAt) (ve_output evidence)
              in case writeCanonicalReport env markdown s4 of
                   (Some e, s5) \<Rightarrow> (Some e, s5)
                 | (None, s5) \<Rightarrow> (None, s5\<lparr>rs_successReport := Some markdown\<rparr>)))"

text \<open>The last record of the execution gets its duration; \<open>None\<close> when there is none.\<close>

fun patch_first :: "string \<Rightarrow> int \<Rightarrow> TranscriptRecord list \<Rightarrow> TranscriptRecord list option" where
  "patch_first executionId durationMs [] = None"
| "patch_first executionId durationMs (rec # rest) =
     (case rec of
        turn_record r \<Rightarrow>
          if tc_executionId r = executionId then Some (turn_record (r\<lparr>tc_durationMs := durationMs\<rparr>) # rest)
          else map_option (Cons rec) (patch_first executionId durationMs rest)
      | _ \<Rightarrow> map_option (Cons rec) (patch_first executionId durationMs rest))"

definition patchLastTurnDuration :: "run_env \<Rightarrow> int \<Rightarrow> string \<Rightarrow> run_store \<Rightarrow> thrown option \<times> run_store" where
  "patchLastTurnDuration env durationMs executionId s =
     (case patch_first executionId durationMs (rev (rs_transcript s)) of
        None \<Rightarrow> (None, s)
      | Some patched \<Rightarrow> rewriteTranscript env (s\<lparr>rs_transcript := rev patched\<rparr>))"

section \<open>The scope\<close>

text \<open>\<open>raceAbort\<close>: an interrupt before or during the call rejects it, whatever it answers.\<close>

definition race :: "host_call \<Rightarrow> (host_call list \<Rightarrow> (thrown + 'r) \<times> signal list) \<Rightarrow> run_state \<Rightarrow> (thrown + 'r) \<times> run_state" where
  "race call reply st =
     (let (r, st') = await call reply st
      in (if tn_external st' then Inl abortedBySignal else r, st'))"

fun no_result :: "thrown option \<times> signal list \<Rightarrow> (thrown + unit) \<times> signal list" where
  "no_result (Some e, ss) = (Inl e, ss)"
| "no_result (None, ss) = (Inr (), ss)"

fun isRetryableTransport :: "thrown \<Rightarrow> bool" where
  "isRetryableTransport (TypeError _) = True"
| "isRetryableTransport _ = False"

definition recoverAndCloseCreate :: "run_env \<Rightarrow> string \<Rightarrow> run_state \<Rightarrow> run_state" where
  "recoverAndCloseCreate env scopeRequestId st =
     (case await (call_createScope scopeRequestId) (ve_createScope env) (cleanupOf st) of
        (Inl _, st1) \<Rightarrow> st1
      | (Inr recovered, st1) \<Rightarrow> snd (await (call_closeScope (cs_scopeId recovered)) (ve_closeScope env) st1))"

definition createScopeIdempotent :: "run_env \<Rightarrow> string \<Rightarrow> run_state \<Rightarrow> (thrown + CreateScopeResponse) \<times> run_state" where
  "createScopeIdempotent env scopeRequestId st =
     (case race (call_createScope scopeRequestId) (ve_createScope env) st of
        (Inr created, st1) \<Rightarrow> (Inr created, st1)
      | (Inl error, st1) \<Rightarrow>
          if tn_external st1 then (Inl error, recoverAndCloseCreate env scopeRequestId st1)
          else if isRetryableTransport error then
            (case race (call_createScope scopeRequestId) (ve_createScope env) st1 of
               (Inr created, st2) \<Rightarrow> (Inr created, st2)
             | (Inl retryError, st2) \<Rightarrow> (Inl retryError, recoverAndCloseCreate env scopeRequestId st2))
          else (Inl error, st1))"

fun scope_state_text :: "ScopeState \<Rightarrow> string" where
  "scope_state_text scope_creating = ''creating''"
| "scope_state_text scope_active = ''active''"
| "scope_state_text scope_closing = ''closing''"
| "scope_state_text scope_closed = ''closed''"

definition closeScopeBounded :: "run_env \<Rightarrow> string \<Rightarrow> run_state \<Rightarrow> thrown option \<times> run_state" where
  "closeScopeBounded env scopeId st =
     (case await (call_closeScope scopeId) (ve_closeScope env) st of
        (Some e, st1) \<Rightarrow> (Some e, st1)
      | (None, st1) \<Rightarrow>
          (case await (call_scopeStatus scopeId) (ve_scopeStatus env) st1 of
             (Inl _, st2) \<Rightarrow> (None, st2)
           | (Inr s, st2) \<Rightarrow>
               (if s \<noteq> scope_closed
                then Some (OtherError (''scope did not reach closed (state='' @ scope_state_text s @ '')'')) else None, st2)))"

section \<open>The turns of a run\<close>

text \<open>How a phase ends: \<open>stopped\<close> is a \<open>StopRun\<close> or a loop left with status and failure set.\<close>

datatype run_exit = go_on | stopped | thrown_out thrown

definition set_status :: "RunStatus \<Rightarrow> RunFailure \<Rightarrow> run_state \<Rightarrow> run_state" where
  "set_status status failure = on_store (\<lambda>s. s\<lparr>rs_status := status, rs_failure := Some failure\<rparr>)"

definition assertRunReferences :: "RunInput \<Rightarrow> thrown option" where
  "assertRunReferences input =
     (let usage = (\<lambda>m. Some (CliError EXIT_usage m)); agents = ru_agents input
      in if agents = [] then usage ''run has no agents''
         else if maxParticipantsPerScope QUOTAS < length agents
           then usage (''run has '' @ show_nat (length agents) @ '' agents; max is ''
             @ show_nat (maxParticipantsPerScope QUOTAS) @ '' (incl. reporter)'')
         else if \<not> list_ex (\<lambda>a. ag_id (ra_snapshot a) = ag_id (ra_snapshot (ru_reporter input))) agents
           then usage ''reporter must be among the participating agents''
         else if ru_rounds input < 1 then usage ''rounds must be a positive integer''
         else if length (remdups (map (ag_id \<circ> ra_snapshot) agents)) \<noteq> length agents
           then usage ''run agents contains duplicates''
         else case find (\<lambda>a. \<not> ag_enabled (ra_snapshot a)) agents of
           Some a \<Rightarrow> usage (''agent \"'' @ ag_name (ra_snapshot a) @ ''\" is disabled; cannot participate in a run'')
         | None \<Rightarrow> None)"

definition recordSummary :: "TurnRole \<Rightarrow> nat \<Rightarrow> nat \<Rightarrow> ResolvedAgent \<Rightarrow> TurnResult \<Rightarrow> run_store \<Rightarrow> run_store" where
  "recordSummary role round turnIndex agent result s =
     s\<lparr>rs_turns := rs_turns s @ [\<lparr>ts_role = role, ts_round = round, ts_turnIndex = turnIndex,
         ts_agentId = ag_id (ra_snapshot agent), ts_agentName = ag_name (ra_snapshot agent),
         ts_verdict = tr_verdict result,
         ts_effectiveModel = (case tr_terminal result of None \<Rightarrow> None | Some t \<Rightarrow> ve_effectiveModel t),
         ts_durationMs = tr_durationMs result\<rparr>]\<rparr>"

text \<open>The execution's id, its snapshot and \<open>driveTurn\<close> with the real driver.\<close>

definition drive_turn :: "run_env \<Rightarrow> RunInput \<Rightarrow> ResolvedAgent \<Rightarrow> InstructionKind \<Rightarrow> string
    \<Rightarrow> (string \<Rightarrow> run_store persist) \<Rightarrow> run_state \<Rightarrow> (string \<times> (thrown + TurnResult) \<times> run_state) option" where
  "drive_turn env input agent kind txt persist st =
     (let (uuid, s1) = next_id env (tn_store st);
          st1 = st\<lparr>tn_store := s1\<rparr>;
          executionId = ''ck-exec-'' @ uuid;
          snapshot = buildContextSnapshot (ve_sha env) (ru_council input)
            (sharedItems (ru_runId input) (ru_council input) (ru_agents input) (rs_completedTurns s1)) agent kind txt
      in if \<not> contextSnapshotSchema snapshot then Some (executionId, Inl (OtherError (ve_schemaMessage env)), st1)
         else map_option (\<lambda>(r, st2). (executionId, r, st2))
           (executeTurn (ve_host env)
              \<lparr>ti_executionId = executionId, ti_participantId = ra_participantId agent, ti_snapshot = snapshot,
               ti_generation = Some (generationRule (ep_driverId (ra_profile agent)) (ve_timeouts env)),
               ti_startedAt = he_now (ve_host env) (tn_calls st1)\<rparr>
              (persist executionId) st1))"

definition turn_done :: "TurnResult \<Rightarrow> bool" where
  "turn_done r \<longleftrightarrow> tr_verdict r = turn_completed \<and> tr_terminal r \<noteq> None"

text \<open>After a turn that did not complete.\<close>

definition stop_turn :: "RunStatus \<Rightarrow> string \<Rightarrow> string \<Rightarrow> string \<Rightarrow> ResolvedAgent \<Rightarrow> TurnRole \<Rightarrow> TurnResult \<Rightarrow> run_state \<Rightarrow> run_state" where
  "stop_turn status phase code prefix agent role result st =
     (if tn_external st then set_status run_interrupted abortedFailure st
      else set_status status
        (case tr_error result of
           Some e \<Rightarrow> turnFailure e agent role
         | None \<Rightarrow> run_failure phase code (prefix @ turn_verdict_text (tr_verdict result))) st)"

definition ordinary_turn :: "run_env \<Rightarrow> RunInput \<Rightarrow> nat \<times> nat \<times> ResolvedAgent \<Rightarrow> run_state \<Rightarrow> (run_exit \<times> run_state) option" where
  "ordinary_turn env input slot st =
     (case slot of (round, turnIndex, agent) \<Rightarrow>
        if tn_external st then Some (stopped, set_status run_interrupted abortedFailure st)
        else
          (case drive_turn env input agent instruction_message
              (ve_messageText env (ag_name (ra_snapshot agent)) (ag_personaPrompt (ra_snapshot agent)) round
                 (ru_rounds input) (co_topic (ru_council input)))
              (\<lambda>executionId. makePersist env \<lparr>tm_round = round, tm_turnIndex = turnIndex, tm_agent = agent,
                 tm_executionId = executionId\<rparr>) st of
             None \<Rightarrow> None
           | Some (executionId, Inl e, st1) \<Rightarrow> Some (thrown_out e, st1)
           | Some (executionId, Inr result, st1) \<Rightarrow>
               (let st2 = on_store (recordSummary role_message round turnIndex agent result) st1
                in if turn_done result then
                     (case patchLastTurnDuration env (tr_durationMs result) executionId (tn_store st2) of
                        (Some e, s3) \<Rightarrow>
                          Some (stopped, set_status run_failed (toFailure ''io'' ''TRANSCRIPT_DURATION'' e) (st2\<lparr>tn_store := s3\<rparr>))
                      | (None, s3) \<Rightarrow> Some (go_on, st2\<lparr>tn_store := s3\<rparr>))
                   else Some (stopped, stop_turn
                     (if tr_verdict result = turn_interrupted \<or> tr_verdict result = turn_cancelled then run_interrupted else run_failed)
                     ''turn'' ''TURN_NOT_COMPLETED'' ''turn verdict '' agent role_message result st2))))"

fun run_turns :: "run_env \<Rightarrow> RunInput \<Rightarrow> (nat \<times> nat \<times> ResolvedAgent) list \<Rightarrow> run_state \<Rightarrow> (run_exit \<times> run_state) option" where
  "run_turns env input [] st = Some (go_on, st)"
| "run_turns env input (slot # rest) st =
     (case ordinary_turn env input slot st of
        None \<Rightarrow> None
      | Some (go_on, st1) \<Rightarrow> run_turns env input rest st1
      | Some (x, st1) \<Rightarrow> Some (x, st1))"

text \<open>Every round from 1, in each every agent in its order.\<close>

definition turn_slots :: "RunInput \<Rightarrow> (nat \<times> nat \<times> ResolvedAgent) list" where
  "turn_slots input =
     concat (map (\<lambda>round. map (\<lambda>(turnIndex, agent). (round, turnIndex, agent)) (List.enumerate 0 (ru_agents input)))
       [1..<ru_rounds input + 1])"

definition reporter_turn :: "run_env \<Rightarrow> RunInput \<Rightarrow> string \<Rightarrow> run_state \<Rightarrow> (run_exit \<times> run_state) option" where
  "reporter_turn env input startedAt st =
     (let reporter = ru_reporter input; round = ru_rounds input; turnIndex = length (ru_agents input)
      in case drive_turn env input reporter instruction_summary
           (ve_reportText env (ru_council input) (map (ag_name \<circ> ra_snapshot) (ru_agents input)) (ag_name (ra_snapshot reporter)))
           (\<lambda>executionId. makeReporterPersist env input startedAt
              \<lparr>tm_round = round, tm_turnIndex = turnIndex, tm_agent = reporter, tm_executionId = executionId\<rparr>) st of
         None \<Rightarrow> None
       | Some (executionId, Inl e, st1) \<Rightarrow> Some (thrown_out e, st1)
       | Some (executionId, Inr result, st1) \<Rightarrow>
           (let st2 = on_store (recordSummary role_report round turnIndex reporter result) st1
            in if turn_done result then
                 (case patchLastTurnDuration env (tr_durationMs result) executionId (tn_store st2) of
                    (failed, s3) \<Rightarrow>
                      (let st3 = st2\<lparr>tn_store := s3\<rparr>;
                           st4 = (case failed of
                                    Some e \<Rightarrow> set_status run_failed (toFailure ''io'' ''TRANSCRIPT_DURATION'' e) st3
                                  | None \<Rightarrow> st3)
                       in Some (go_on, on_store (\<lambda>s. s\<lparr>rs_reporterOutput := map_option ve_output (tr_terminal result)\<rparr>) st4)))
               else Some (go_on, stop_turn run_failed ''reporter'' ''REPORTER_NOT_COMPLETED'' ''reporter verdict ''
                      reporter role_report result st2)))"

section \<open>A whole run\<close>

definition scope_failed :: "thrown \<Rightarrow> run_state \<Rightarrow> run_exit \<times> run_state" where
  "scope_failed error st =
     (if tn_external st then (thrown_out abortedBySignal, st)
      else (stopped, set_status run_failed (toFailure ''scope'' ''SCOPE_CREATE_FAILED'' error) st))"

definition open_scope :: "run_env \<Rightarrow> RunInput \<Rightarrow> run_state \<Rightarrow> run_exit \<times> run_state" where
  "open_scope env input st =
     (let (uuid, s1) = next_id env (tn_store st);
          scopeRequestId = ''ck-run-'' @ ru_runId input @ ''-'' @ take 8 uuid
      in case createScopeIdempotent env scopeRequestId (st\<lparr>tn_store := s1\<rparr>) of
           (Inl e, st1) \<Rightarrow> scope_failed e st1
         | (Inr created, st1) \<Rightarrow>
             (case race (call_activateScope (cs_scopeId created)) (no_result \<circ> ve_activateScope env)
                     (on_store (\<lambda>s. s\<lparr>rs_scope := Some created\<rparr>) st1) of
                (Inl e, st2) \<Rightarrow> scope_failed e st2
              | (Inr _, st2) \<Rightarrow> if tn_external st2 then scope_failed abortedBySignal st2 else (go_on, st2)))"

definition started_record :: "RunInput \<Rightarrow> string \<Rightarrow> TranscriptRecord" where
  "started_record input startedAt = run_started
     \<lparr>st_runId = ru_runId input, st_startedAt = startedAt, st_council = (ru_council input)\<lparr>co_rounds := ru_rounds input\<rparr>,
      st_agents = map ra_snapshot (ru_agents input), st_installationId = ra_installationId (hd (ru_agents input)),
      st_installations = map (\<lambda>a. (ag_id (ra_snapshot a), ra_installationId a)) (ru_agents input)\<rparr>"

definition run_body :: "run_env \<Rightarrow> RunInput \<Rightarrow> string \<Rightarrow> run_state \<Rightarrow> (run_exit \<times> run_state) option" where
  "run_body env input startedAt st =
     (case ve_ensureRunDir env of
        Some e \<Rightarrow> Some (thrown_out e, st)
      | None \<Rightarrow>
          (case if ru_demo input then ve_demoMarker env else None of
             Some e \<Rightarrow> Some (thrown_out e, st)
           | None \<Rightarrow>
               (case rewriteTranscript env ((tn_store st)\<lparr>rs_transcript := [started_record input startedAt]\<rparr>) of
                  (Some e, s1) \<Rightarrow>
                    Some (stopped, set_status run_failed (toFailure ''io'' ''TRANSCRIPT_INIT'' e) (st\<lparr>tn_store := s1\<rparr>))
                | (None, s1) \<Rightarrow>
                    (case open_scope env input (st\<lparr>tn_store := s1\<rparr>) of
                       (go_on, st2) \<Rightarrow>
                         (case run_turns env input (turn_slots input) st2 of
                            None \<Rightarrow> None
                          | Some (thrown_out e, st3) \<Rightarrow> Some (thrown_out e, st3)
                          | Some (x, st3) \<Rightarrow>
                              if rs_status (tn_store st3) = run_completed \<and> \<not> tn_external st3
                                then reporter_turn env input startedAt st3
                              else if rs_status (tn_store st3) = run_completed
                                then Some (go_on, set_status run_interrupted abortedFailure st3)
                              else Some (x, st3))
                     | (x, st2) \<Rightarrow> Some (x, st2)))))"

text \<open>The \<open>catch\<close> of the run: a \<open>StopRun\<close> carries the status and failure already set.\<close>

definition catch_run :: "run_exit \<Rightarrow> run_state \<Rightarrow> run_state" where
  "catch_run x st =
     (case x of
        thrown_out e \<Rightarrow>
          if tn_external st then set_status run_interrupted abortedFailure st
          else set_status run_failed (toFailure ''run'' ''RUN_ERROR'' e) st
      | _ \<Rightarrow> st)"

text \<open>The \<open>finally\<close>: the scope is closed once, then the interrupt is looked at again.\<close>

definition dispose_run :: "run_state \<Rightarrow> run_state" where
  "dispose_run st = st\<lparr>tn_cleanup := dispose_cleanup (tn_cleanup st)\<rparr>"

definition close_run :: "run_env \<Rightarrow> run_state \<Rightarrow> run_state" where
  "close_run env st =
     (let (closeError, st1) = (case rs_scope (tn_store st) of
              Some c \<Rightarrow> closeScopeBounded env (cs_scopeId c) (cleanupOf st)
            | None \<Rightarrow> (None, st));
          st2 = dispose_run st1;
          keep = (\<lambda>f s. s\<lparr>rs_failure := Some (case rs_failure s of Some g \<Rightarrow> g | None \<Rightarrow> f)\<rparr>)
      in if tn_external st2
           then on_store (\<lambda>s. (keep abortedFailure s)\<lparr>rs_status := run_interrupted\<rparr>) st2
         else case closeError of
           None \<Rightarrow> st2
         | Some e \<Rightarrow>
             (let f = toFailure ''cleanup'' ''CLOSE_FAILED'' e
              in if rs_status (tn_store st2) = run_completed then set_status run_failed f st2
                 else on_store (keep f) st2))"

section \<open>Report, transcript and outcome\<close>

definition unknown_failure :: RunFailure where
  "unknown_failure = run_failure ''run'' ''UNKNOWN'' ''run did not complete''"

definition partial_report :: "RunInput \<Rightarrow> string \<Rightarrow> string \<Rightarrow> run_store \<Rightarrow> Report" where
  "partial_report input startedAt endedAt s =
     renderPartialReport (run_header input startedAt endedAt) (rs_completedTurns s)
       (case rs_failure s of Some f \<Rightarrow> f | None \<Rightarrow> unknown_failure)"

definition success_report :: "RunInput \<Rightarrow> string \<Rightarrow> string \<Rightarrow> run_store \<Rightarrow> Report" where
  "success_report input startedAt endedAt s =
     renderSuccessReport (run_header input startedAt endedAt) (case rs_reporterOutput s of Some r \<Rightarrow> r | None \<Rightarrow> [])"

definition keep_failure :: "RunFailure \<Rightarrow> run_store \<Rightarrow> run_store" where
  "keep_failure f s = s\<lparr>rs_failure := Some (case rs_failure s of Some g \<Rightarrow> g | None \<Rightarrow> f)\<rparr>"

definition keep_artifact :: "RunFailure \<Rightarrow> run_store \<Rightarrow> run_store" where
  "keep_artifact f s = s\<lparr>rs_artifactIoFailure := Some (case rs_artifactIoFailure s of Some g \<Rightarrow> g | None \<Rightarrow> f)\<rparr>"

definition fail_completed :: "run_store \<Rightarrow> run_store" where
  "fail_completed s = s\<lparr>rs_status := (if rs_status s = run_completed then run_failed else rs_status s)\<rparr>"

text \<open>The report phase gives the text to copy, if it succeeded, and whether the canonical report is a success report.\<close>

definition write_report :: "run_env \<Rightarrow> RunInput \<Rightarrow> string \<Rightarrow> string \<Rightarrow> run_store \<Rightarrow> Report option \<times> bool \<times> run_store" where
  "write_report env input startedAt endedAt s =
     (let success = rs_status s = run_completed; before = rs_successReport s \<noteq> None
      in if success \<and> before \<and> rs_reporterOutput s = None then (rs_successReport s, True, s)
         else
           (let markdown = (if success then success_report input startedAt endedAt s else partial_report input startedAt endedAt s)
            in case writeCanonicalReport env markdown s of
                 (None, s1) \<Rightarrow> (Some markdown, success, s1)
               | (Some e, s1) \<Rightarrow>
                   (let f = toFailure ''report'' ''REPORT_IO'' e
                    in (None, before, keep_failure f (fail_completed (keep_artifact f s1))))))"

definition copy_report :: "run_env \<Rightarrow> RunInput \<Rightarrow> Report option \<Rightarrow> run_store \<Rightarrow> run_store" where
  "copy_report env input markdown s =
     (case (ru_outPath input, markdown) of
        (Some path, Some m) \<Rightarrow>
          if path = [] then s
          else (case writeReportCopy env m s of
                  (None, s1) \<Rightarrow> s1
                | (Some e, s1) \<Rightarrow>
                    (let f = toFailure ''report'' ''REPORT_OUT_COPY'' e
                     in keep_failure f ((keep_artifact f s1)\<lparr>rs_status := run_failed\<rparr>)))
      | _ \<Rightarrow> s)"

definition finished_record :: "string \<Rightarrow> run_store \<Rightarrow> TranscriptRecord" where
  "finished_record endedAt s = run_finished
     \<lparr>fn_status = rs_status s, fn_endedAt = endedAt,
      fn_failure = map_option (\<lambda>f. (rf_phase f, rf_code f, rf_message f)) (rs_failure s),
      fn_incomplete = (rs_status s \<noteq> run_completed)\<rparr>"

definition finish_transcript :: "run_env \<Rightarrow> string \<Rightarrow> run_store \<Rightarrow> run_store" where
  "finish_transcript env endedAt s =
     (case rewriteTranscript env (s\<lparr>rs_transcript := rs_transcript s @ [finished_record endedAt s]\<rparr>) of
        (None, s1) \<Rightarrow> s1
      | (Some e, s1) \<Rightarrow>
          (let f = toFailure ''io'' ''TRANSCRIPT_FINAL'' e
           in fail_completed (keep_failure f (keep_artifact f s1))))"

definition reconcile_report :: "run_env \<Rightarrow> RunInput \<Rightarrow> string \<Rightarrow> string \<Rightarrow> bool \<Rightarrow> run_store \<Rightarrow> run_store" where
  "reconcile_report env input startedAt endedAt canonicalIsSuccess s =
     (if rs_status s \<noteq> run_completed \<and> canonicalIsSuccess
      then (case writeCanonicalReport env (partial_report input startedAt endedAt s) s of
              (None, s1) \<Rightarrow> s1
            | (Some e, s1) \<Rightarrow> keep_artifact (toFailure ''report'' ''REPORT_INCOMPLETE_RECONCILE'' e) s1)
      else s)"

definition outcome_of :: "RunInput \<Rightarrow> string \<Rightarrow> string \<Rightarrow> bool \<Rightarrow> run_store \<Rightarrow> RunOutcome" where
  "outcome_of input startedAt endedAt aborted s =
     \<lparr>ro_status = rs_status s,
      ro_exitCode = exitCodeForRun (rs_status s) (rs_failure s) aborted (rs_artifactIoFailure s),
      ro_runId = ru_runId input, ro_startedAt = startedAt, ro_endedAt = endedAt, ro_turns = rs_turns s,
      ro_installations = map (\<lambda>a. (ag_id (ra_snapshot a), ra_installationId a)) (ru_agents input),
      ro_failure = rs_failure s, ro_artifactIoFailure = rs_artifactIoFailure s,
      ro_incomplete = (rs_status s \<noteq> run_completed)\<rparr>"

definition finish_run :: "run_env \<Rightarrow> RunInput \<Rightarrow> string \<Rightarrow> bool \<Rightarrow> run_store \<Rightarrow> RunOutcome \<times> run_store" where
  "finish_run env input startedAt aborted s =
     (let (endedAt, s1) = now_date env s;
          (markdown, canonicalIsSuccess, s2) = write_report env input startedAt endedAt s1;
          s3 = finish_transcript env endedAt (copy_report env input markdown s2);
          s4 = reconcile_report env input startedAt endedAt canonicalIsSuccess s3
      in (outcome_of input startedAt endedAt aborted s4, s4))"

definition new_run :: "bool \<Rightarrow> run_store option \<Rightarrow> run_state" where
  "new_run aborted disk =
     \<lparr>tn_calls = [], tn_source = None, tn_external = aborted, tn_cleanup = prepareCleanupBudget,
      tn_dispatch = not_dispatched, tn_ack = turn_skipped, tn_conflict = False, tn_ackAborted = False,
      tn_store = \<lparr>rs_transcript = [], rs_completedTurns = [], rs_turns = [], rs_scope = None,
        rs_status = run_completed, rs_failure = None, rs_artifactIoFailure = None, rs_reporterOutput = None,
        rs_successReport = None,
        rs_diskTranscript = (case disk of None \<Rightarrow> None | Some d \<Rightarrow> rs_diskTranscript d),
        rs_diskReport = (case disk of None \<Rightarrow> None | Some d \<Rightarrow> rs_diskReport d),
        rs_diskCopy = (case disk of None \<Rightarrow> None | Some d \<Rightarrow> rs_diskCopy d),
        rs_writes = 0, rs_dates = 0, rs_ids = 0\<rparr>\<rparr>"

text \<open>A run, from what is on disk before it; \<open>None\<close> is a run that does not return.\<close>

definition runCouncil :: "run_env \<Rightarrow> RunInput \<Rightarrow> bool \<Rightarrow> run_store option \<Rightarrow> ((thrown + RunOutcome) \<times> run_state) option" where
  "runCouncil env input aborted disk =
     (let st0 = new_run aborted disk; (startedAt, s0) = now_date env (tn_store st0); st = st0\<lparr>tn_store := s0\<rparr>
      in case assertRunReferences input of
           Some e \<Rightarrow> Some (Inl e, st)
         | None \<Rightarrow>
             (case run_body env input startedAt st of
                None \<Rightarrow> None
              | Some (x, st1) \<Rightarrow>
                  (let st2 = close_run env (catch_run x st1);
                       (outcome, s3) = finish_run env input startedAt (tn_external st2) (tn_store st2)
                   in Some (Inr outcome, st2\<lparr>tn_store := s3\<rparr>))))"

end
