(* ===== verification/Council_Steps.thy ===== *)
theory Council_Steps
  imports Council_Run
begin

text \<open>
  What a council run does to its store and to the snapshots it dispatches, as a relation of single
  steps, and the invariants that follow by induction over them: the participants' sessions are
  only ever extended, and the bookkeeping of status, failure and report fits together.
\<close>

section \<open>Steps\<close>

text \<open>The snapshots dispatched so far.\<close>

fun snapshot_of :: "host_call \<Rightarrow> ContextSnapshot list" where
  "snapshot_of (call_execute _ s) = [s]"
| "snapshot_of _ = []"

definition sent :: "'s turn_state \<Rightarrow> ContextSnapshot list" where
  "sent st = concat (map snapshot_of (tn_calls st))"

definition turn_snapshot :: "run_env \<Rightarrow> RunInput \<Rightarrow> CompletedTurn list \<Rightarrow> ResolvedAgent \<Rightarrow> InstructionKind \<Rightarrow> string \<Rightarrow> ContextSnapshot" where
  "turn_snapshot env input turns agent kind prompt =
     buildContextSnapshot (ve_sha env) (ru_council input)
       (sharedItems (ru_runId input) (ru_council input) (ru_agents input) turns) agent kind prompt"

definition speakers :: "RunInput \<Rightarrow> ResolvedAgent set" where
  "speakers input = insert (ru_reporter input) (set (ru_agents input))"

inductive run_step :: "run_env \<Rightarrow> RunInput \<Rightarrow> string \<Rightarrow> ContextSnapshot list \<times> run_store \<Rightarrow> ContextSnapshot list \<times> run_store \<Rightarrow> bool"
  for env input startedAt where
  start: "run_step env input startedAt (ss, s) (ss, snd (rewriteTranscript env (s\<lparr>rs_transcript := [started_record input startedAt]\<rparr>)))"
| ids: "run_step env input startedAt (ss, s) (ss, snd (next_id env s))"
| scope: "run_step env input startedAt (ss, s) (ss, s\<lparr>rs_scope := Some c\<rparr>)"
| dispatched: "agent \<in> speakers input \<Longrightarrow>
    run_step env input startedAt (ss, s) (ss @ [turn_snapshot env input (rs_completedTurns s) agent kind prompt], s)"
| message: "run_step env input startedAt (ss, s) (ss, snd (makePersist env m ev s))"
| report: "run_step env input startedAt (ss, s) (ss, snd (makeReporterPersist env input startedAt m ev s))"
| summary: "run_step env input startedAt (ss, s) (ss, recordSummary role round idx agent result s)"
| patch: "run_step env input startedAt (ss, s) (ss, snd (patchLastTurnDuration env d executionId s))"
| stop: "status \<noteq> run_completed \<Longrightarrow>
    run_step env input startedAt (ss, s) (ss, s\<lparr>rs_status := status, rs_failure := Some f\<rparr>)"
| answer: "run_step env input startedAt (ss, s) (ss, s\<lparr>rs_reporterOutput := x\<rparr>)"

abbreviation run_steps :: "run_env \<Rightarrow> RunInput \<Rightarrow> string \<Rightarrow> ContextSnapshot list \<times> run_store \<Rightarrow> ContextSnapshot list \<times> run_store \<Rightarrow> bool" where
  "run_steps env input startedAt \<equiv> (run_step env input startedAt)\<^sup>*\<^sup>*"

definition books :: "'s turn_state \<Rightarrow> ContextSnapshot list \<times> 's" where
  "books st = (sent st, tn_store st)"

section \<open>A run is made of steps\<close>

lemma sent_append: "tn_calls st' = tn_calls st @ new \<Longrightarrow> sent st' = sent st @ concat (map snapshot_of new)"
  by (simp add: sent_def)

lemma neutral_sends_nothing: "list_all neutral new \<Longrightarrow> concat (map snapshot_of new) = []"
proof (induction new)
  case (Cons c new)
  then show ?case by (cases c) simp_all
qed simp

lemma end_sends_nothing: "concat (map snapshot_of (end_calls exec n how)) = []"
  by (cases how) simp_all

lemma turn_sends:
  assumes "turn_calls exec snap n how new"
  shows "concat (map snapshot_of new) \<in> {[], [snap]}"
proof -
  from assms obtain pre where pre: "new = pre @ end_calls exec n how"
      "list_all (\<lambda>c. neutral c \<or> c = call_execute exec snap) pre"
      "length (filter (\<lambda>c. c = call_execute exec snap) pre) \<le> 1"
    by (auto simp: turn_calls_def)
  have "concat (map snapshot_of pre) = map (\<lambda>_. snap) (filter (\<lambda>c. c = call_execute exec snap) pre)"
    using pre(2)
  proof (induction pre)
    case (Cons c pre)
    then show ?case by (cases c) auto
  qed simp
  with pre(1,3) show ?thesis
    by (cases "filter (\<lambda>c. c = call_execute exec snap) pre") (auto simp: end_sends_nothing)
qed

lemma books_on_store [simp]: "books (on_store f st) = (sent st, f (tn_store st))"
  by (simp add: books_def on_store_def sent_def)

lemma books_store [simp]: "books (st\<lparr>tn_store := s\<rparr>) = (sent st, s)"
  by (simp add: books_def sent_def)

lemma sent_store [simp]: "sent (st\<lparr>tn_store := s\<rparr>) = sent st"
  by (simp add: sent_def)

lemma books_await: "snapshot_of c = [] \<Longrightarrow> books (snd (await c f st)) = books st"
  by (simp add: books_def sent_def)

lemma books_cleanupOf [simp]: "books (cleanupOf st) = books st"
  by (simp add: books_def sent_def)

lemma books_race: "race c f st = (r, st') \<Longrightarrow> snapshot_of c = [] \<Longrightarrow> books st' = books st"
  using books_await [of c f st] by (auto simp: race_def split_beta Let_def)

lemma steps_turn:
  assumes run: "executeTurn henv i persist st = Some (r, st')"
    and snap: "ti_snapshot i = turn_snapshot env input (rs_completedTurns (tn_store st)) agent kind prompt" "agent \<in> speakers input"
    and persist: "\<And>ss ev s. run_step env input startedAt (ss, s) (ss, snd (persist ev s))"
  shows "run_steps env input startedAt (books st) (books st')"
proof -
  from executeTurn_ends [OF run] obtain how n new where new: "tn_calls st' = tn_calls st @ new"
      "turn_calls (ti_executionId i) (ti_snapshot i) n how new" "end_store persist how (tn_store st) (tn_store st')" by blast
  have "sent st' = sent st \<or> sent st' = sent st @ [ti_snapshot i]"
    using turn_sends [OF new(2)] sent_append [OF new(1)] by auto
  then have 1: "run_steps env input startedAt (sent st, tn_store st) (sent st', tn_store st)"
  proof
    assume "sent st' = sent st @ [ti_snapshot i]"
    then show ?thesis by (auto simp: snap(1) intro!: r_into_rtranclp run_step.dispatched snap(2))
  qed simp
  have 2: "run_steps env input startedAt (sent st', tn_store st) (sent st', tn_store st')"
  proof (cases how)
    case (persist_failed ev)
    with new(3) persist [of "sent st'" "tn_store st" ev] show ?thesis by auto
  next
    case (persisted ev)
    with new(3) persist [of "sent st'" "tn_store st" ev] show ?thesis by auto
  qed (use new(3) in simp_all)
  from 1 2 show ?thesis unfolding books_def by (rule rtranclp_trans)
qed

lemmas step_into = r_into_rtranclp [of "run_step env input startedAt" for env input startedAt]

lemma steps_drive:
  assumes drive: "drive_turn env input agent kind prompt persist st = Some (executionId, r, st')" and "agent \<in> speakers input"
    and persist: "\<And>e ss ev s. run_step env input startedAt (ss, s) (ss, snd (persist e ev s))"
  shows "run_steps env input startedAt (books st) (books st')"
proof -
  let ?s1 = "snd (next_id env (tn_store st))"
  let ?st1 = "st\<lparr>tn_store := ?s1\<rparr>"
  have id: "run_steps env input startedAt (books st) (books ?st1)"
    using run_step.ids [of env input startedAt "sent st" "tn_store st"] by (auto simp: books_def [of st])
  have s1: "rs_completedTurns ?s1 = rs_completedTurns (tn_store st)" by (simp add: next_id_def)
  show ?thesis
  proof (cases "\<exists>m. (executionId, r, st') = (executionId, Inl (OtherError m), ?st1)")
    case True
    with id show ?thesis by auto
  next
    case False
    with drive obtain i p where "executeTurn (ve_host env) i p ?st1 = Some (r, st')"
      and "ti_snapshot i = turn_snapshot env input (rs_completedTurns (tn_store ?st1)) agent kind prompt"
      and "p = persist executionId"
      by (auto simp: drive_turn_def split_beta Let_def turn_snapshot_def split: if_splits)
    from steps_turn [OF this(1,2) assms(2)] persist this(3)
    have "run_steps env input startedAt (books ?st1) (books st')" by auto
    with id show ?thesis by (rule rtranclp_trans)
  qed
qed

lemma steps_set_status: "status \<noteq> run_completed \<Longrightarrow> run_steps env input startedAt (books st) (books (set_status status f st))"
  unfolding books_def [of st] by (auto simp: set_status_def intro: run_step.stop)

lemma steps_stop_turn:
  "status \<noteq> run_completed \<Longrightarrow> run_steps env input startedAt (books st) (books (stop_turn status phase code prefix agent role result st))"
  by (simp add: stop_turn_def steps_set_status)

lemma steps_store:
  "run_step env input startedAt (sent st, tn_store st) (sent st, s') \<Longrightarrow> run_steps env input startedAt (books st) (books (st\<lparr>tn_store := s'\<rparr>))"
  by (simp add: books_def [of st] r_into_rtranclp)

lemma steps_summary: "run_steps env input startedAt (books st) (books (on_store (recordSummary role round idx agent result) st))"
  unfolding books_def [of st] by (auto intro: run_step.summary)

lemma steps_patch:
  assumes "patchLastTurnDuration env d e (tn_store st) = (x, s')"
  shows "run_steps env input startedAt (books st) (books (st\<lparr>tn_store := s'\<rparr>))"
proof -
  have "run_step env input startedAt (sent st, tn_store st) (sent st, s')"
    using run_step.patch [of env input startedAt "sent st" "tn_store st" d e] assms by simp
  then show ?thesis by (rule steps_store)
qed

lemma steps_ordinary:
  assumes "ordinary_turn env input (round, idx, agent) st = Some (x, st')" "agent \<in> speakers input"
  shows "run_steps env input startedAt (books st) (books st')"
proof (cases "tn_external st")
  case True
  with assms(1) show ?thesis by (auto simp: ordinary_turn_def intro: steps_set_status)
next
  case False
  let ?p = "\<lambda>executionId. makePersist env \<lparr>tm_round = round, tm_turnIndex = idx, tm_agent = agent, tm_executionId = executionId\<rparr>"
  let ?prompt = "ve_messageText env (ag_name (ra_snapshot agent)) (ag_personaPrompt (ra_snapshot agent)) round
                 (ru_rounds input) (co_topic (ru_council input))"
  from assms(1) False obtain e r st1 where d: "drive_turn env input agent instruction_message ?prompt ?p st = Some (e, r, st1)"
    by (auto simp: ordinary_turn_def split: option.splits)
  have 1: "run_steps env input startedAt (books st) (books st1)"
    by (rule steps_drive [OF d assms(2)]) (rule run_step.message)
  show ?thesis
  proof (cases r)
    case (Inl err)
    with assms(1) False d 1 show ?thesis by (auto simp: ordinary_turn_def)
  next
    case (Inr result)
    let ?st2 = "on_store (recordSummary role_message round idx agent result) st1"
    have 2: "run_steps env input startedAt (books st) (books ?st2)" by (rule rtranclp_trans [OF 1 steps_summary])
    obtain failed s3 where p: "patchLastTurnDuration env (tr_durationMs result) e (tn_store ?st2) = (failed, s3)" by fastforce
    have 3: "run_steps env input startedAt (books st) (books (?st2\<lparr>tn_store := s3\<rparr>))"
      by (rule rtranclp_trans [OF 2 steps_patch [OF p]])
    show ?thesis using assms(1) False d Inr p rtranclp_trans [OF 2 steps_stop_turn] 3 rtranclp_trans [OF 3 steps_set_status]
      by (auto simp: ordinary_turn_def Let_def split: if_splits option.splits)
  qed
qed

lemma steps_turns:
  assumes "run_turns env input slots st = Some (x, st')" "\<And>round idx agent. (round, idx, agent) \<in> set slots \<Longrightarrow> agent \<in> speakers input"
  shows "run_steps env input startedAt (books st) (books st')"
  using assms
proof (induction slots arbitrary: st)
  case (Cons slot slots)
  obtain round idx agent where slot: "slot = (round, idx, agent)" by (cases slot)
  from Cons.prems(1) obtain y st1 where o: "ordinary_turn env input (round, idx, agent) st = Some (y, st1)"
    by (auto simp: slot split: option.splits)
  have 1: "run_steps env input startedAt (books st) (books st1)"
    by (rule steps_ordinary [OF o]) (use Cons.prems(2) slot in auto)
  show ?case
  proof (cases y)
    case go_on
    with Cons.prems(1) o have "run_turns env input slots st1 = Some (x, st')" by (simp add: slot)
    from Cons.IH [OF this] Cons.prems(2) 1 show ?thesis by (auto intro: rtranclp_trans)
  qed (use Cons.prems(1) o 1 slot in auto)
qed simp

lemma turn_slots_speakers: "(round, idx, agent) \<in> set (turn_slots input) \<Longrightarrow> agent \<in> speakers input"
  by (auto simp: turn_slots_def speakers_def in_set_enumerate_eq)


lemma steps_reporter:
  assumes "reporter_turn env input startedAt st = Some (x, st')"
  shows "run_steps env input startedAt (books st) (books st')"
proof -
  let ?a = "ru_reporter input"
  let ?p = "\<lambda>executionId. makeReporterPersist env input startedAt
      \<lparr>tm_round = ru_rounds input, tm_turnIndex = length (ru_agents input), tm_agent = ?a, tm_executionId = executionId\<rparr>"
  let ?prompt = "ve_reportText env (ru_council input) (map (ag_name \<circ> ra_snapshot) (ru_agents input)) (ag_name (ra_snapshot ?a))"
  from assms obtain e r st1 where d: "drive_turn env input ?a instruction_summary ?prompt ?p st = Some (e, r, st1)"
    by (auto simp: reporter_turn_def Let_def split: option.splits)
  have 1: "run_steps env input startedAt (books st) (books st1)"
    by (rule steps_drive [OF d]) (simp_all add: speakers_def run_step.report)
  show ?thesis
  proof (cases r)
    case (Inl err)
    with assms d 1 show ?thesis by (auto simp: reporter_turn_def Let_def)
  next
    case (Inr result)
    let ?st2 = "on_store (recordSummary role_report (ru_rounds input) (length (ru_agents input)) ?a result) st1"
    have 2: "run_steps env input startedAt (books st) (books ?st2)" by (rule rtranclp_trans [OF 1 steps_summary])
    obtain failed s3 where p: "patchLastTurnDuration env (tr_durationMs result) e (tn_store ?st2) = (failed, s3)" by fastforce
    let ?st3 = "?st2\<lparr>tn_store := s3\<rparr>"
    let ?st4 = "case failed of Some e \<Rightarrow> set_status run_failed (toFailure ''io'' ''TRANSCRIPT_DURATION'' e) ?st3 | None \<Rightarrow> ?st3"
    have 3: "run_steps env input startedAt (books st) (books ?st3)"
      by (rule rtranclp_trans [OF 2 steps_patch [OF p]])
    have 4: "run_steps env input startedAt (books st) (books ?st4)"
      using 3 rtranclp_trans [OF 3 steps_set_status] by (auto split: option.splits)
    have 5: "run_steps env input startedAt (books st) (books (on_store (\<lambda>s. s\<lparr>rs_reporterOutput := y\<rparr>) ?st4))" for y
      by (rule rtranclp.rtrancl_into_rtrancl [OF 4]) (simp add: books_def [of ?st4] run_step.answer)
    show ?thesis using assms d Inr p rtranclp_trans [OF 2 steps_stop_turn] 5
      by (auto simp: reporter_turn_def Let_def split: if_splits)
  qed
qed

lemma books_recover: "books (recoverAndCloseCreate env req st) = books st"
proof -
  obtain r st1 where 1: "await (call_createScope req) (ve_createScope env) (cleanupOf st) = (r, st1)" by fastforce
  have "books st1 = books st" using books_await [of "call_createScope req" "ve_createScope env" "cleanupOf st"] 1 by simp
  then show ?thesis
    by (cases r) (simp_all add: recoverAndCloseCreate_def 1 books_await)
qed

lemma books_create: "createScopeIdempotent env req st = (r, st') \<Longrightarrow> books st' = books st"
proof -
  assume c: "createScopeIdempotent env req st = (r, st')"
  obtain r1 st1 where 1: "race (call_createScope req) (ve_createScope env) st = (r1, st1)" by fastforce
  obtain r2 st2 where 2: "race (call_createScope req) (ve_createScope env) st1 = (r2, st2)" by fastforce
  have b1: "books st1 = books st" by (rule books_race [OF 1]) simp
  have b2: "books st2 = books st" using books_race [OF 2] b1 by simp
  show ?thesis using c b1 b2
    by (auto simp: createScopeIdempotent_def 1 2 books_recover split: sum.splits if_splits)
qed

lemma steps_scope_failed: "scope_failed e st = (x, st') \<Longrightarrow> run_steps env input startedAt (books st) (books st')"
  by (auto simp: scope_failed_def steps_set_status split: if_splits)

lemma steps_open:
  assumes "open_scope env input st = (x, st')"
  shows "run_steps env input startedAt (books st) (books st')"
proof -
  let ?req = "''ck-run-'' @ ru_runId input @ ''-'' @ take 8 (fst (next_id env (tn_store st)))"
  let ?st0 = "st\<lparr>tn_store := snd (next_id env (tn_store st))\<rparr>"
  obtain r1 st1 where 1: "createScopeIdempotent env ?req ?st0 = (r1, st1)" by fastforce
  have s0: "run_steps env input startedAt (books st) (books ?st0)" by (rule steps_store) (rule run_step.ids)
  have s1: "run_steps env input startedAt (books st) (books st1)" using s0 books_create [OF 1] by simp
  show ?thesis
  proof (cases r1)
    case (Inl e)
    with assms 1 have "scope_failed e st1 = (x, st')" by (simp add: open_scope_def split_beta Let_def)
    from rtranclp_trans [OF s1 steps_scope_failed [OF this]] show ?thesis .
  next
    case (Inr c)
    let ?k = "on_store (\<lambda>s. s\<lparr>rs_scope := Some c\<rparr>) st1"
    obtain r2 st2 where 2: "race (call_activateScope (cs_scopeId c)) (no_result \<circ> ve_activateScope env) ?k = (r2, st2)" by fastforce
    have "run_steps env input startedAt (books st1) (books ?k)"
      by (simp add: books_def [of st1] r_into_rtranclp run_step.scope)
    with s1 have "run_steps env input startedAt (books st) (books ?k)" by (rule rtranclp_trans)
    then have s2: "run_steps env input startedAt (books st) (books st2)" using books_race [OF 2] by simp
    show ?thesis
    proof (cases "x = go_on")
      case True
      with assms 1 2 Inr s2 show ?thesis
        by (auto simp: open_scope_def split_beta Let_def scope_failed_def split: sum.splits if_splits)
    next
      case False
      with assms 1 2 Inr obtain e where "scope_failed e st2 = (x, st')"
        by (auto simp: open_scope_def split_beta Let_def split: sum.splits if_splits)
      from rtranclp_trans [OF s2 steps_scope_failed [OF this]] show ?thesis .
    qed
  qed
qed

lemma steps_body:
  assumes "run_body env input startedAt st = Some (x, st')"
  shows "run_steps env input startedAt (books st) (books st')"
proof (cases "ve_ensureRunDir env = None \<and> (ru_demo input \<longrightarrow> ve_demoMarker env = None)")
  case False
  with assms show ?thesis by (auto simp: run_body_def split: option.splits if_splits)
next
  case True
  obtain failed s1 where w: "rewriteTranscript env ((tn_store st)\<lparr>rs_transcript := [started_record input startedAt]\<rparr>) = (failed, s1)"
    by fastforce
  let ?st1 = "st\<lparr>tn_store := s1\<rparr>"
  have "run_step env input startedAt (sent st, tn_store st) (sent st, s1)"
    using run_step.start [of env input startedAt "sent st" "tn_store st"] w by simp
  then have s1: "run_steps env input startedAt (books st) (books ?st1)" by (rule steps_store)
  have b: "run_body env input startedAt st = (case failed of
      Some e \<Rightarrow> Some (stopped, set_status run_failed (toFailure ''io'' ''TRANSCRIPT_INIT'' e) ?st1)
    | None \<Rightarrow> (case open_scope env input ?st1 of
                       (go_on, st2) \<Rightarrow>
                         (case run_turns env input (turn_slots input) st2 of
                            None \<Rightarrow> None
                          | Some (thrown_out e, st3) \<Rightarrow> Some (thrown_out e, st3)
                          | Some (x, st3) \<Rightarrow>
                              if rs_status (tn_store st3) = run_completed \<and> \<not> tn_external st3
                                then reporter_turn env input startedAt st3
                              else if rs_status (tn_store st3) = run_completed
                                then Some (go_on, set_status run_interrupted abortedFailure st3)
                              else Some (x, st3))
                     | (x, st2) \<Rightarrow> Some (x, st2)))"
    using True by (auto simp: run_body_def w split: option.splits)
  show ?thesis
  proof (cases failed)
    case (Some e)
    with assms b rtranclp_trans [OF s1 steps_set_status] show ?thesis by auto
  next
    case None
    obtain y st2 where o: "open_scope env input ?st1 = (y, st2)" by fastforce
    have s2: "run_steps env input startedAt (books st) (books st2)" by (rule rtranclp_trans [OF s1 steps_open [OF o]])
    show ?thesis
    proof (cases y)
      case go_on
      with assms b None o obtain z st3 where t: "run_turns env input (turn_slots input) st2 = Some (z, st3)"
        by (auto split: option.splits)
      have s3: "run_steps env input startedAt (books st) (books st3)"
        by (rule rtranclp_trans [OF s2 steps_turns [OF t]]) (rule turn_slots_speakers)
      show ?thesis using assms b None o go_on t s3 rtranclp_trans [OF s3 steps_reporter] rtranclp_trans [OF s3 steps_set_status]
        by (auto split: run_exit.splits if_splits)
    qed (use assms b None o s2 in auto)
  qed
qed


section \<open>Invariants\<close>

text \<open>Every dispatched snapshot was built from a prefix of the turns completed by now.\<close>

definition built_from :: "run_env \<Rightarrow> RunInput \<Rightarrow> CompletedTurn list \<Rightarrow> ContextSnapshot \<Rightarrow> bool" where
  "built_from env input turns snap \<longleftrightarrow>
     (\<exists>n agent kind prompt. n \<le> length turns \<and> agent \<in> speakers input
        \<and> snap = turn_snapshot env input (take n turns) agent kind prompt)"

definition same_participant :: "ContextSnapshot \<Rightarrow> ContextSnapshot \<Rightarrow> bool" where
  "same_participant a b \<longleftrightarrow> sp_participantId (cx_participant a) = sp_participantId (cx_participant b)"

definition sessions_extended :: "ContextSnapshot list \<Rightarrow> bool" where
  "sessions_extended = sorted_wrt (\<lambda>a b. same_participant a b \<longrightarrow> extends_context a b)"

lemma sharedItems_append: "\<exists>more. sharedItems r c as (xs @ ys) = sharedItems r c as xs @ more"
  by (simp add: sharedItems_def enumerate_append_eq)

lemma sharedItems_length: "length (sharedItems r c as xs) = Suc (length xs)"
  by (simp add: sharedItems_def)

lemma snapshot_extends:
  assumes "ra_participantSnapshotDigest a = ra_participantSnapshotDigest b" "n \<le> length turns"
  shows "extends_context (turn_snapshot env input (take n turns) a kind prompt) (turn_snapshot env input turns b kind' prompt')"
proof -
  obtain more where "sharedItems (ru_runId input) (ru_council input) (ru_agents input) turns
      = sharedItems (ru_runId input) (ru_council input) (ru_agents input) (take n turns) @ more"
    using sharedItems_append [of "ru_runId input" "ru_council input" "ru_agents input" "take n turns" "drop n turns"] by auto
  with assms show ?thesis
    by (simp add: extends_context_def turn_snapshot_def buildContextSnapshot_def Let_def sharedItems_length)
qed

lemma step_grows:
  assumes "run_step env input startedAt (ss, s) (ss', s')"
  shows "\<exists>new. rs_completedTurns s' = rs_completedTurns s @ new"
  using assms
  by (cases rule: run_step.cases)
    (auto simp: rewriteTranscript_def next_id_def makePersist_def makeReporterPersist_def now_date_def recordSummary_def
      writeCanonicalReport_def patchLastTurnDuration_def Let_def split_beta split: option.splits)

lemma step_sends:
  assumes "run_step env input startedAt (ss, s) (ss', s')"
  shows "ss' = ss \<or> (\<exists>agent kind prompt. agent \<in> speakers input \<and> s' = s
    \<and> ss' = ss @ [turn_snapshot env input (rs_completedTurns s) agent kind prompt])"
  using assms by (cases rule: run_step.cases) auto

lemma built_from_grows: "built_from env input turns snap \<Longrightarrow> built_from env input (turns @ new) snap"
  unfolding built_from_def by (metis le_add1 length_append order_trans take_append append_Nil2 diff_is_0_eq take0)

definition unique_sessions :: "RunInput \<Rightarrow> bool" where
  "unique_sessions input \<longleftrightarrow>
     distinct (map ra_participantId (ru_agents input)) \<and> ru_reporter input \<in> set (ru_agents input)"

lemma unique_speaker:
  "unique_sessions input \<Longrightarrow> a \<in> speakers input \<Longrightarrow> b \<in> speakers input \<Longrightarrow> ra_participantId a = ra_participantId b \<Longrightarrow> a = b"
  by (auto simp: unique_sessions_def speakers_def distinct_map inj_on_def)

lemma steps_extend:
  assumes "run_steps env input startedAt x y" "unique_sessions input"
    "list_all (built_from env input (rs_completedTurns (snd x))) (fst x)" "sessions_extended (fst x)"
  shows "list_all (built_from env input (rs_completedTurns (snd y))) (fst y) \<and> sessions_extended (fst y)"
  using assms
proof (induction rule: rtranclp_induct)
  case (step y z)
  obtain ss s where y: "y = (ss, s)" by (cases y)
  obtain ss' s' where z: "z = (ss', s')" by (cases z)
  from step.IH step.prems y have IH: "list_all (built_from env input (rs_completedTurns s)) ss" "sessions_extended ss" by auto
  obtain new where new: "rs_completedTurns s' = rs_completedTurns s @ new" using step_grows step.hyps(2) y z by blast
  have old: "list_all (built_from env input (rs_completedTurns s')) ss"
    using IH(1) by (auto simp: list_all_iff new intro: built_from_grows)
  show ?case
  proof (cases "ss' = ss")
    case True
    with old IH z show ?thesis by simp
  next
    case False
    with step.hyps(2) y z obtain agent kind prompt where d: "agent \<in> speakers input" "s' = s"
        "ss' = ss @ [turn_snapshot env input (rs_completedTurns s) agent kind prompt]"
      using step_sends by blast
    have b: "built_from env input (rs_completedTurns s) (turn_snapshot env input (rs_completedTurns s) agent kind prompt)"
      unfolding built_from_def using d(1) by (metis order_refl take_all_iff)
    have "extends_context a (turn_snapshot env input (rs_completedTurns s) agent kind prompt)"
      if a: "a \<in> set ss" "same_participant a (turn_snapshot env input (rs_completedTurns s) agent kind prompt)" for a
    proof -
      from IH(1) a(1) obtain n g k t where g: "n \<le> length (rs_completedTurns s)" "g \<in> speakers input"
          "a = turn_snapshot env input (take n (rs_completedTurns s)) g k t"
        by (auto simp: list_all_iff built_from_def)
      from a(2) g(3) have "ra_participantId g = ra_participantId agent"
        by (simp add: same_participant_def turn_snapshot_def buildContextSnapshot_def)
      with unique_speaker [OF step.prems(1) g(2) d(1)] have "g = agent" by simp
      then show ?thesis unfolding g(3) by (intro snapshot_extends) (use g(1) in simp_all)
    qed
    with IH d b z show ?thesis by (simp add: sessions_extended_def sorted_wrt_append)
  qed
qed simp

text \<open>Status, failure and report fit together.\<close>

fun is_success :: "Report \<Rightarrow> bool" where
  "is_success (SuccessReport _ _) = True"
| "is_success (PartialReport _ _ _) = False"

definition run_ok :: "run_store \<Rightarrow> bool" where
  "run_ok s \<longleftrightarrow> (rs_status s = run_completed \<longleftrightarrow> rs_failure s = None) \<and> rs_artifactIoFailure s = None
   \<and> (\<forall>m. rs_successReport s = Some m \<longrightarrow> rs_diskReport s = Some m \<and> is_success m)"

lemma renderSuccess_is_success [simp]: "is_success (renderSuccessReport h out)"
  by (simp add: renderSuccessReport_def)

lemma step_ok: "run_step env input startedAt x y \<Longrightarrow> run_ok (snd x) \<Longrightarrow> run_ok (snd y)"
  by (induction rule: run_step.induct)
    (auto simp: run_ok_def rewriteTranscript_def next_id_def makePersist_def makeReporterPersist_def now_date_def
      recordSummary_def writeCanonicalReport_def patchLastTurnDuration_def Let_def split_beta split: option.splits)

lemma steps_ok: "run_steps env input startedAt x y \<Longrightarrow> run_ok (snd x) \<Longrightarrow> run_ok (snd y)"
  by (induction rule: rtranclp_induct) (auto intro: step_ok)

end
