(* ===== verification/Council_Properties.thy ===== *)
theory Council_Properties
  imports Council_Steps
begin

text \<open>
  The properties of a council run: what a completed run has said, stored and acknowledged, that
  report and transcript on disk agree with the outcome unless a write failed, that the Host's
  sessions are only ever extended, and that a run returns.
\<close>

section \<open>The end of a run\<close>

lemma sent_cleanup [simp]: "sent (st\<lparr>tn_cleanup := x\<rparr>) = sent st"
  by (simp add: sent_def)

lemma closeScope_books: "books (snd (closeScopeBounded env c k)) = books k"
proof -
  obtain r st1 where 1: "await (call_closeScope c) (ve_closeScope env) k = (r, st1)" by fastforce
  obtain r2 st2 where 2: "await (call_scopeStatus c) (ve_scopeStatus env) st1 = (r2, st2)" by fastforce
  have "books st1 = books k" using books_await [of "call_closeScope c" "ve_closeScope env" k] 1 by simp
  moreover have "books st2 = books st1" using books_await [of "call_scopeStatus c" "ve_scopeStatus env" st1] 2 by simp
  ultimately show ?thesis by (cases r; cases r2) (simp_all add: closeScopeBounded_def 1 2)
qed

lemma close_store:
  "sent (close_run env st) = sent st"
  "\<exists>status failure. tn_store (close_run env st) = (tn_store st)\<lparr>rs_status := status, rs_failure := failure\<rparr>
     \<and> (status = run_completed \<longrightarrow> rs_status (tn_store st) = run_completed \<and> failure = rs_failure (tn_store st)
          \<and> \<not> tn_external (close_run env st))
     \<and> (rs_status (tn_store st) \<noteq> run_completed \<longrightarrow> rs_failure (tn_store st) \<noteq> None \<longrightarrow> failure \<noteq> None)
     \<and> (status \<noteq> run_completed \<longrightarrow> rs_status (tn_store st) = run_completed \<longrightarrow> failure \<noteq> None)"
proof -
  obtain e st1 where c: "(case rs_scope (tn_store st) of
              Some c \<Rightarrow> closeScopeBounded env (cs_scopeId c) (cleanupOf st) | None \<Rightarrow> (None, st)) = (e, st1)" by fastforce
  have b: "books st1 = books st"
  proof (cases "rs_scope (tn_store st)")
    case (Some k)
    with c closeScope_books [of env "cs_scopeId k" "cleanupOf st"] show ?thesis by simp
  qed (use c in simp)
  then have s: "sent st1 = sent st" "tn_store st1 = tn_store st" by (simp_all add: books_def)
  show "sent (close_run env st) = sent st"
    using s by (auto simp: close_run_def c Let_def dispose_run_def on_store_def set_status_def sent_def split: option.splits)
  have id: "tn_store st = (tn_store st)\<lparr>rs_status := rs_status (tn_store st), rs_failure := rs_failure (tn_store st)\<rparr>"
    by simp
  show "\<exists>status failure. tn_store (close_run env st) = (tn_store st)\<lparr>rs_status := status, rs_failure := failure\<rparr>
     \<and> (status = run_completed \<longrightarrow> rs_status (tn_store st) = run_completed \<and> failure = rs_failure (tn_store st)
          \<and> \<not> tn_external (close_run env st))
     \<and> (rs_status (tn_store st) \<noteq> run_completed \<longrightarrow> rs_failure (tn_store st) \<noteq> None \<longrightarrow> failure \<noteq> None)
     \<and> (status \<noteq> run_completed \<longrightarrow> rs_status (tn_store st) = run_completed \<longrightarrow> failure \<noteq> None)"
  proof (cases "tn_external st1")
    case True
    then show ?thesis
      by (intro exI [of _ run_interrupted] exI [of _ "Some (case rs_failure (tn_store st) of Some g \<Rightarrow> g | None \<Rightarrow> abortedFailure)"])
        (simp add: close_run_def c Let_def dispose_run_def on_store_def s)
  next
    case False
    show ?thesis
    proof (cases e)
      case None
      with False show ?thesis
        by (intro exI [of _ "rs_status (tn_store st)"] exI [of _ "rs_failure (tn_store st)"])
          (simp add: close_run_def c Let_def dispose_run_def s)
    next
      case (Some err)
      let ?f = "toFailure ''cleanup'' ''CLOSE_FAILED'' err"
      show ?thesis
      proof (cases "rs_status (tn_store st) = run_completed")
        case True
        with False Some show ?thesis
          by (intro exI [of _ run_failed] exI [of _ "Some ?f"])
            (simp add: close_run_def c Let_def dispose_run_def set_status_def on_store_def s)
      next
        case not: False
        with False Some show ?thesis
          by (intro exI [of _ "rs_status (tn_store st)"] exI [of _ "Some (case rs_failure (tn_store st) of Some g \<Rightarrow> g | None \<Rightarrow> ?f)"])
            (simp add: close_run_def c Let_def dispose_run_def on_store_def s)
      qed
    qed
  qed
qed

lemma await_keeps: "set (tn_calls st) \<subseteq> set (tn_calls (snd (await c f st)))"
  by (auto simp: await_def split_beta Let_def)

lemma closeScope_calls: "set (tn_calls k) \<subseteq> set (tn_calls (snd (closeScopeBounded env c k)))"
proof -
  obtain r st1 where 1: "await (call_closeScope c) (ve_closeScope env) k = (r, st1)" by fastforce
  obtain r2 st2 where 2: "await (call_scopeStatus c) (ve_scopeStatus env) st1 = (r2, st2)" by fastforce
  have "set (tn_calls k) \<subseteq> set (tn_calls st1)" using await_keeps [of k "call_closeScope c" "ve_closeScope env"] 1 by simp
  moreover have "set (tn_calls st1) \<subseteq> set (tn_calls st2)" using await_keeps [of st1 "call_scopeStatus c" "ve_scopeStatus env"] 2 by simp
  ultimately show ?thesis by (cases r; cases r2) (simp_all add: closeScopeBounded_def 1 2)
qed

lemma close_calls: "set (tn_calls st) \<subseteq> set (tn_calls (close_run env st))"
proof (cases "rs_scope (tn_store st)")
  case (Some c)
  have "set (tn_calls st) \<subseteq> set (tn_calls (snd (closeScopeBounded env (cs_scopeId c) (cleanupOf st))))"
    using closeScope_calls [of "cleanupOf st"] by simp
  with Some show ?thesis
    by (auto simp: close_run_def split_beta Let_def dispose_run_def on_store_def set_status_def split: option.splits)
qed (simp add: close_run_def Let_def dispose_run_def on_store_def)

lemma close_ok: "run_ok (tn_store st) \<Longrightarrow> run_ok (tn_store (close_run env st))"
  using close_store(2) [of env st] by (auto simp: run_ok_def)

lemma catch_steps: "run_steps env input startedAt (books st) (books (catch_run x st))"
  by (cases x) (auto simp: catch_run_def steps_set_status)

section \<open>Report and transcript\<close>

lemma write_cases:
  "writeCanonicalReport env m s = (None, s\<lparr>rs_writes := rs_writes s + 1, rs_diskReport := Some m\<rparr>)
   \<or> (\<exists>e. writeCanonicalReport env m s = (Some e, s\<lparr>rs_writes := rs_writes s + 1\<rparr>))"
  by (auto simp: writeCanonicalReport_def Let_def split: option.splits)

lemma copy_cases:
  "writeReportCopy env m s = (None, s\<lparr>rs_writes := rs_writes s + 1, rs_diskCopy := Some m\<rparr>)
   \<or> (\<exists>e. writeReportCopy env m s = (Some e, s\<lparr>rs_writes := rs_writes s + 1\<rparr>))"
  by (auto simp: writeReportCopy_def Let_def split: option.splits)

lemma rewrite_cases:
  "rewriteTranscript env s = (None, s\<lparr>rs_writes := rs_writes s + 1, rs_diskTranscript := Some (rs_transcript s)\<rparr>)
   \<or> (\<exists>e. rewriteTranscript env s = (Some e, s\<lparr>rs_writes := rs_writes s + 1\<rparr>))"
  by (auto simp: rewriteTranscript_def Let_def split: option.splits)

text \<open>What the report on disk should be for a status.\<close>

definition report_for :: "RunInput \<Rightarrow> string \<Rightarrow> string \<Rightarrow> run_store \<Rightarrow> Report \<Rightarrow> bool" where
  "report_for input startedAt endedAt s m \<longleftrightarrow>
     (if rs_status s = run_completed
      then is_success m \<and> (rs_reporterOutput s \<noteq> None \<longrightarrow> m = success_report input startedAt endedAt s)
      else m = partial_report input startedAt endedAt s)"

text \<open>A store after a phase: either some write has failed, and the run does not count as completed, or nothing but files changed.\<close>

definition phase_ok :: "run_store \<Rightarrow> run_store \<Rightarrow> bool" where
  "phase_ok s s' \<longleftrightarrow>
     (rs_artifactIoFailure s' \<noteq> None \<longrightarrow> rs_status s' \<noteq> run_completed \<and> rs_failure s' \<noteq> None)
   \<and> (rs_artifactIoFailure s' = None \<longrightarrow> rs_artifactIoFailure s = None \<and> rs_status s' = rs_status s \<and> rs_failure s' = rs_failure s
        \<and> rs_reporterOutput s' = rs_reporterOutput s \<and> rs_completedTurns s' = rs_completedTurns s)"

lemma phase_ok_trans: "phase_ok a b \<Longrightarrow> phase_ok b c \<Longrightarrow> phase_ok a c"
  unfolding phase_ok_def by auto

lemma write_report_ok:
  assumes "write_report env input startedAt endedAt s = (m, canon, s')" "run_ok s"
  shows "phase_ok s s'" "rs_transcript s' = rs_transcript s"
    "rs_artifactIoFailure s' = None \<Longrightarrow> canon = (rs_status s = run_completed)
       \<and> (\<exists>r. rs_diskReport s' = Some r \<and> report_for input startedAt endedAt s' r)"
proof -
  let ?keep = "rs_status s = run_completed \<and> rs_successReport s \<noteq> None \<and> rs_reporterOutput s = None"
  let ?m = "if rs_status s = run_completed then success_report input startedAt endedAt s else partial_report input startedAt endedAt s"
  have "phase_ok s s' \<and> rs_transcript s' = rs_transcript s \<and> (rs_artifactIoFailure s' = None \<longrightarrow>
      canon = (rs_status s = run_completed) \<and> (\<exists>r. rs_diskReport s' = Some r \<and> report_for input startedAt endedAt s' r))"
  proof (cases ?keep)
    case True
    with assms show ?thesis by (auto simp: write_report_def Let_def phase_ok_def report_for_def run_ok_def)
  next
    case False
    from write_cases [of env ?m s] show ?thesis
    proof
      assume w: "writeCanonicalReport env ?m s = (None, s\<lparr>rs_writes := rs_writes s + 1, rs_diskReport := Some ?m\<rparr>)"
      with False assms have "canon = (rs_status s = run_completed)" "s' = s\<lparr>rs_writes := rs_writes s + 1, rs_diskReport := Some ?m\<rparr>"
        by (auto simp: write_report_def Let_def split: if_splits)
      with assms(2) show ?thesis
        by (auto simp: phase_ok_def report_for_def run_ok_def success_report_def partial_report_def)
    next
      assume "\<exists>e. writeCanonicalReport env ?m s = (Some e, s\<lparr>rs_writes := rs_writes s + 1\<rparr>)"
      then obtain e where w: "writeCanonicalReport env ?m s = (Some e, s\<lparr>rs_writes := rs_writes s + 1\<rparr>)" ..
      let ?f = "toFailure ''report'' ''REPORT_IO'' e"
      from w False assms have "s' = keep_failure ?f (fail_completed (keep_artifact ?f (s\<lparr>rs_writes := rs_writes s + 1\<rparr>)))"
        by (auto simp: write_report_def Let_def split: if_splits)
      then show ?thesis by (simp add: phase_ok_def keep_failure_def keep_artifact_def fail_completed_def)
    qed
  qed
  then show "phase_ok s s'" "rs_transcript s' = rs_transcript s"
    "rs_artifactIoFailure s' = None \<Longrightarrow> canon = (rs_status s = run_completed)
       \<and> (\<exists>r. rs_diskReport s' = Some r \<and> report_for input startedAt endedAt s' r)" by auto
qed

lemma copy_report_ok:
  "phase_ok s (copy_report env input m s)" if "rs_artifactIoFailure s \<noteq> None \<longrightarrow> rs_status s \<noteq> run_completed \<and> rs_failure s \<noteq> None"
proof (cases "\<exists>p r. ru_outPath input = Some p \<and> p \<noteq> [] \<and> m = Some r")
  case True
  then obtain p r where p: "ru_outPath input = Some p" "p \<noteq> []" "m = Some r" by blast
  from copy_cases [of env r s] that show ?thesis
    by (auto simp: copy_report_def p phase_ok_def keep_failure_def keep_artifact_def Let_def)
next
  case False
  with that show ?thesis by (auto simp: copy_report_def phase_ok_def split: option.splits)
qed

lemma copy_report_keeps:
  "rs_transcript (copy_report env input m s) = rs_transcript s" "rs_diskReport (copy_report env input m s) = rs_diskReport s"
  using copy_cases [of env _ s]
  by (auto simp: copy_report_def keep_failure_def keep_artifact_def Let_def writeReportCopy_def split: option.splits)

lemma finish_transcript_ok:
  assumes "rs_artifactIoFailure s \<noteq> None \<longrightarrow> rs_status s \<noteq> run_completed \<and> rs_failure s \<noteq> None"
  shows "phase_ok s (finish_transcript env endedAt s)"
    "rs_transcript (finish_transcript env endedAt s) = rs_transcript s @ [finished_record endedAt s]"
    "rs_diskReport (finish_transcript env endedAt s) = rs_diskReport s"
    "rs_artifactIoFailure (finish_transcript env endedAt s) = None \<Longrightarrow>
       rs_diskTranscript (finish_transcript env endedAt s) = Some (rs_transcript s @ [finished_record endedAt s])"
  using assms rewrite_cases [of env "s\<lparr>rs_transcript := rs_transcript s @ [finished_record endedAt s]\<rparr>"]
  by (auto simp: finish_transcript_def phase_ok_def keep_failure_def keep_artifact_def fail_completed_def Let_def split: if_splits)

lemma reconcile_ok:
  assumes "rs_artifactIoFailure s \<noteq> None \<longrightarrow> rs_status s \<noteq> run_completed \<and> rs_failure s \<noteq> None"
    "rs_status s \<noteq> run_completed \<longrightarrow> rs_failure s \<noteq> None"
  shows "phase_ok s (reconcile_report env input startedAt endedAt canon s)"
    "rs_transcript (reconcile_report env input startedAt endedAt canon s) = rs_transcript s"
    "rs_diskTranscript (reconcile_report env input startedAt endedAt canon s) = rs_diskTranscript s"
    "rs_status (reconcile_report env input startedAt endedAt canon s) = rs_status s"
    "\<not> (rs_status s \<noteq> run_completed \<and> canon) \<Longrightarrow> reconcile_report env input startedAt endedAt canon s = s"
  using assms write_cases [of env "partial_report input startedAt endedAt s" s]
  by (auto simp: reconcile_report_def phase_ok_def keep_artifact_def)


lemma finish_ok:
  assumes "finish_run env input startedAt aborted s = (out, s')" "run_ok s"
  shows "\<exists>endedAt. out = outcome_of input startedAt endedAt aborted s'
     \<and> (if rs_artifactIoFailure s' = None
        then rs_status s' = rs_status s \<and> rs_failure s' = rs_failure s \<and> rs_reporterOutput s' = rs_reporterOutput s
          \<and> rs_diskTranscript s' = Some (rs_transcript s @ [finished_record endedAt s'])
          \<and> (\<exists>r. rs_diskReport s' = Some r \<and> report_for input startedAt endedAt s' r)
        else rs_status s' \<noteq> run_completed)"
proof -
  obtain endedAt s1 where d: "now_date env s = (endedAt, s1)" by fastforce
  then have s1: "s1 = s\<lparr>rs_dates := rs_dates s + 1\<rparr>" by (simp add: now_date_def)
  with assms(2) have ok1: "run_ok s1" by (simp add: run_ok_def)
  obtain m canon s2 where w: "write_report env input startedAt endedAt s1 = (m, canon, s2)" by (metis prod_cases3)
  note W = write_report_ok [OF w ok1]
  have f1: "rs_artifactIoFailure s1 = None" using ok1 by (simp add: run_ok_def)
  let ?s3 = "copy_report env input m s2"
  have a2: "rs_artifactIoFailure s2 \<noteq> None \<longrightarrow> rs_status s2 \<noteq> run_completed \<and> rs_failure s2 \<noteq> None"
    using W(1) by (simp add: phase_ok_def)
  note C = copy_report_ok [OF a2, of env input m]
  have p3: "phase_ok s1 ?s3" by (rule phase_ok_trans [OF W(1) C])
  then have a3: "rs_artifactIoFailure ?s3 \<noteq> None \<longrightarrow> rs_status ?s3 \<noteq> run_completed \<and> rs_failure ?s3 \<noteq> None"
    by (simp add: phase_ok_def)
  let ?s4 = "finish_transcript env endedAt ?s3"
  note F = finish_transcript_ok [OF a3, of env endedAt]
  have p4: "phase_ok s1 ?s4" by (rule phase_ok_trans [OF p3 F(1)])
  have a4: "rs_artifactIoFailure ?s4 \<noteq> None \<longrightarrow> rs_status ?s4 \<noteq> run_completed \<and> rs_failure ?s4 \<noteq> None"
    using p4 by (simp add: phase_ok_def)
  have b4: "rs_status ?s4 \<noteq> run_completed \<longrightarrow> rs_failure ?s4 \<noteq> None"
  proof (cases "rs_artifactIoFailure ?s4 = None")
    case True
    with p4 ok1 show ?thesis by (simp add: phase_ok_def run_ok_def)
  qed (use a4 in simp)
  note R = reconcile_ok [OF a4 b4, where env = env and input = input and startedAt = startedAt and endedAt = endedAt and canon = canon]
  have out: "out = outcome_of input startedAt endedAt aborted s'" "s' = reconcile_report env input startedAt endedAt canon ?s4"
    using assms(1) by (auto simp: finish_run_def d w Let_def)
  have p5: "phase_ok s1 s'" using phase_ok_trans [OF p4 R(1)] out(2) by simp
  show ?thesis
  proof (intro exI [of _ endedAt] conjI out(1), cases "rs_artifactIoFailure s' = None")
    case False
    with p5 show "if rs_artifactIoFailure s' = None
        then rs_status s' = rs_status s \<and> rs_failure s' = rs_failure s \<and> rs_reporterOutput s' = rs_reporterOutput s
          \<and> rs_diskTranscript s' = Some (rs_transcript s @ [finished_record endedAt s'])
          \<and> (\<exists>r. rs_diskReport s' = Some r \<and> report_for input startedAt endedAt s' r)
        else rs_status s' \<noteq> run_completed" by (auto simp: phase_ok_def)
  next
    case True
    have n4: "rs_artifactIoFailure ?s4 = None" using R(1) True out(2) by (simp add: phase_ok_def)
    have n3: "rs_artifactIoFailure ?s3 = None" using F(1) n4 by (simp add: phase_ok_def)
    have n2: "rs_artifactIoFailure s2 = None" using C n3 by (simp add: phase_ok_def)
    from W(3) [OF n2] obtain r where r: "canon = (rs_status s1 = run_completed)" "rs_diskReport s2 = Some r"
        "report_for input startedAt endedAt s2 r" by blast
    have same: "rs_status x = rs_status s1 \<and> rs_failure x = rs_failure s1 \<and> rs_reporterOutput x = rs_reporterOutput s1
        \<and> rs_completedTurns x = rs_completedTurns s1" if "phase_ok s1 x" "rs_artifactIoFailure x = None" for x
      using that by (simp add: phase_ok_def)
    note e2 = same [OF W(1) n2] and e3 = same [OF p3 n3] and e4 = same [OF p4 n4] and e5 = same [OF p5 True]
    have "\<not> (rs_status ?s4 \<noteq> run_completed \<and> canon)" using r(1) e4 by simp
    then have s': "s' = ?s4" using R(5) out(2) by simp
    have "finished_record endedAt ?s3 = finished_record endedAt s'"
      using e3 e5 by (simp add: finished_record_def)
    then have t: "rs_diskTranscript s' = Some (rs_transcript s @ [finished_record endedAt s'])"
      using F(4) [OF n4] W(2) by (simp add: s' copy_report_keeps s1)
    have "rs_diskReport s' = Some r" using r(2) F(3) by (simp add: s' copy_report_keeps)
    moreover have "report_for input startedAt endedAt s' r"
      using r(3) e2 e5 by (simp add: report_for_def success_report_def partial_report_def)
    ultimately show "if rs_artifactIoFailure s' = None
        then rs_status s' = rs_status s \<and> rs_failure s' = rs_failure s \<and> rs_reporterOutput s' = rs_reporterOutput s
          \<and> rs_diskTranscript s' = Some (rs_transcript s @ [finished_record endedAt s'])
          \<and> (\<exists>r. rs_diskReport s' = Some r \<and> report_for input startedAt endedAt s' r)
        else rs_status s' \<noteq> run_completed"
      using True t e5 by (auto simp: s1)
  qed
qed

lemma finish_keeps_turns:
  assumes "finish_run env input startedAt aborted s = (out, s')"
  shows "rs_completedTurns s' = rs_completedTurns s"
proof -
  have w: "rs_completedTurns (snd (writeCanonicalReport env m s)) = rs_completedTurns s" for m s
    using write_cases [of env m s] by auto
  have c: "rs_completedTurns (snd (writeReportCopy env m s)) = rs_completedTurns s" for m s
    using copy_cases [of env m s] by auto
  have r: "rs_completedTurns (snd (rewriteTranscript env s)) = rs_completedTurns s" for s
    using rewrite_cases [of env s] by auto
  have 1: "rs_completedTurns (snd (snd (write_report env input startedAt e s))) = rs_completedTurns s" for e s
    using w [of _ s]
    by (auto simp: write_report_def Let_def keep_failure_def fail_completed_def keep_artifact_def split_beta split: option.splits)
  have 2: "rs_completedTurns (copy_report env input m s) = rs_completedTurns s" for m s
    using c [of _ s]
    by (auto simp: copy_report_def Let_def keep_failure_def keep_artifact_def split_beta split: option.splits)
  have 3: "rs_completedTurns (finish_transcript env e s) = rs_completedTurns s" for e s
    using r [of "s\<lparr>rs_transcript := rs_transcript s @ [finished_record e s]\<rparr>"]
    by (auto simp: finish_transcript_def Let_def keep_failure_def fail_completed_def keep_artifact_def split_beta split: option.splits)
  have 4: "rs_completedTurns (reconcile_report env input startedAt e canon s) = rs_completedTurns s" for e canon s
    using w [of _ s] by (auto simp: reconcile_report_def keep_artifact_def split_beta split: option.splits)
  have 5: "rs_completedTurns (snd (now_date env s)) = rs_completedTurns s" for s by (simp add: now_date_def)
  from assms show ?thesis by (auto simp: finish_run_def split_beta Let_def 1 2 3 4 5)
qed

lemma exit_ok_iff: "exitCodeForRun status failure aborted artifact = EXIT_ok \<longleftrightarrow> status = run_completed \<and> artifact = None"
  by (auto simp: exitCodeForRun_def exitCodeForHostCode_def split: option.splits)

lemma exit_interrupted_iff:
  "exitCodeForRun status failure aborted artifact = EXIT_interrupted \<longleftrightarrow> aborted \<and> status = run_interrupted"
  by (auto simp: exitCodeForRun_def exitCodeForHostCode_def split: option.splits)

section \<open>Whole runs\<close>

lemma runCouncil_parts:
  assumes "runCouncil env input aborted disk = Some (Inr out, st)"
  obtains startedAt s0 x st1 where
    "startedAt = ve_date env 0" "assertRunReferences input = None"
    "s0 = snd (now_date env (tn_store (new_run aborted disk)))"
    "run_body env input startedAt ((new_run aborted disk)\<lparr>tn_store := s0\<rparr>) = Some (x, st1)"
    "finish_run env input startedAt (tn_external (close_run env (catch_run x st1)))
       (tn_store (close_run env (catch_run x st1))) = (out, tn_store st)"
    "st = (close_run env (catch_run x st1))\<lparr>tn_store := tn_store st\<rparr>"
proof -
  from assms obtain x st1 where "assertRunReferences input = None"
      "run_body env input (ve_date env 0) ((new_run aborted disk)\<lparr>tn_store := snd (now_date env (tn_store (new_run aborted disk)))\<rparr>) = Some (x, st1)"
      "finish_run env input (ve_date env 0) (tn_external (close_run env (catch_run x st1)))
         (tn_store (close_run env (catch_run x st1))) = (out, tn_store st)"
      "st = (close_run env (catch_run x st1))\<lparr>tn_store := tn_store st\<rparr>"
    by (auto simp: runCouncil_def Let_def split_beta now_date_def new_run_def split: option.splits prod.splits)
  from that [OF refl this(1) refl this(2,3,4)] show thesis .
qed

lemma new_run_ok: "run_ok (snd (now_date env (tn_store (new_run aborted disk))))"
  by (simp add: run_ok_def now_date_def new_run_def)

lemma body_ok:
  assumes "run_body env input startedAt (st\<lparr>tn_store := s0\<rparr>) = Some (x, st1)" "run_ok s0"
  shows "run_ok (tn_store (close_run env (catch_run x st1)))"
proof -
  have "run_ok (tn_store st1)" using steps_ok [OF steps_body [OF assms(1)]] assms(2) by (simp add: books_def)
  then have "run_ok (tn_store (catch_run x st1))"
    using steps_ok [OF catch_steps [of env input startedAt st1 x]] by (simp add: books_def)
  then show ?thesis by (rule close_ok)
qed

text \<open>C18: When a run reports its outcome and no write of its artifacts failed, the transcript on disk
  ends with that outcome and the report on disk is the report for that status; a failed write makes the
  run not completed.  The exit code is 0 exactly for a completed run.\<close>

theorem disk_agrees_with_outcome:
  assumes "runCouncil env input aborted disk = Some (Inr out, st)"
  shows "ro_status out = rs_status (tn_store st) \<and> (ro_exitCode out = EXIT_ok \<longleftrightarrow> ro_status out = run_completed)
    \<and> (if ro_artifactIoFailure out = None
       then \<exists>earlier r. rs_diskTranscript (tn_store st) = Some (earlier @ [finished_record (ro_endedAt out) (tn_store st)])
         \<and> rs_diskReport (tn_store st) = Some r \<and> report_for input (ro_startedAt out) (ro_endedAt out) (tn_store st) r
       else ro_status out \<noteq> run_completed)"
proof -
  from runCouncil_parts [OF assms] obtain startedAt x st1 where
    b: "run_body env input startedAt ((new_run aborted disk)\<lparr>tn_store := snd (now_date env (tn_store (new_run aborted disk)))\<rparr>) = Some (x, st1)"
    and f: "finish_run env input startedAt (tn_external (close_run env (catch_run x st1)))
       (tn_store (close_run env (catch_run x st1))) = (out, tn_store st)" by metis
  from finish_ok [OF f body_ok [OF b new_run_ok]] obtain endedAt where
    o: "out = outcome_of input startedAt endedAt (tn_external (close_run env (catch_run x st1))) (tn_store st)"
    and d: "if rs_artifactIoFailure (tn_store st) = None
        then rs_diskTranscript (tn_store st) = Some (rs_transcript (tn_store (close_run env (catch_run x st1))) @ [finished_record endedAt (tn_store st)])
          \<and> (\<exists>r. rs_diskReport (tn_store st) = Some r \<and> report_for input startedAt endedAt (tn_store st) r)
        else rs_status (tn_store st) \<noteq> run_completed"
    by (auto split: if_splits)
  have "ro_exitCode out = EXIT_ok \<longleftrightarrow> ro_status out = run_completed"
    using d by (auto simp: o outcome_of_def exit_ok_iff split: if_splits)
  then show ?thesis using d by (auto simp: o outcome_of_def split: if_splits)
qed


section \<open>Completed runs\<close>

text \<open>A completed turn has stored its output and acknowledged it as committed.\<close>

lemma turn_done_persists:
  assumes drive: "drive_turn env input agent kind prompt persist st = Some (e, Inr result, st1)" and d: "turn_done result"
  shows "\<exists>ev k. persist e ev (snd (next_id env (tn_store st))) = (None, tn_store st1) \<and> tr_terminal result = Some ev
    \<and> \<not> blank (ve_output ev) \<and> call_ack e disp_committed k \<in> set (tn_calls st1) \<and> set (tn_calls st) \<subseteq> set (tn_calls st1)"
proof -
  let ?st0 = "st\<lparr>tn_store := snd (next_id env (tn_store st))\<rparr>"
  from drive obtain i where t: "executeTurn (ve_host env) i (persist e) ?st0 = Some (Inr result, st1)" "ti_executionId i = e"
    by (auto simp: drive_turn_def split_beta Let_def split: if_splits)
  from executeTurn_ends [OF t(1)] obtain how n new where new: "tn_calls st1 = tn_calls ?st0 @ new"
      "turn_calls e (ti_snapshot i) n how new" "end_store (persist e) how (tn_store ?st0) (tn_store st1)"
      and c: "tr_verdict result = turn_completed \<longrightarrow> (\<exists>ev. how = persisted ev \<and> tr_terminal result = Some ev
            \<and> tr_ack result = turn_acknowledged \<and> tr_error result = None \<and> tr_dispatchState result = dispatch_accepted)"
    by (auto simp: t(2))
  from c d obtain ev where ev: "how = persisted ev" "tr_terminal result = Some ev" by (auto simp: turn_done_def)
  from new(2) have "call_ack e disp_committed n \<in> set new" "\<not> blank (ve_output ev)"
    by (auto simp: ev turn_calls_def)
  with new ev show ?thesis by auto
qed

text \<open>A record of the transcript for a slot of the schedule.\<close>

definition spoke :: "run_state \<Rightarrow> TurnRole \<Rightarrow> nat \<times> nat \<times> ResolvedAgent \<Rightarrow> TurnCompletedRecord \<Rightarrow> bool" where
  "spoke st role slot rec \<longleftrightarrow>
     (case slot of (round, turnIndex, agent) \<Rightarrow>
        tc_role rec = role \<and> tc_round rec = round \<and> tc_turnIndex rec = turnIndex
      \<and> tc_agentId rec = ag_id (ra_snapshot agent) \<and> tc_participantId rec = ra_participantId agent
      \<and> \<not> blank (ve_output (tc_evidence rec))
      \<and> (\<exists>k. call_ack (tc_executionId rec) disp_committed k \<in> set (tn_calls st)))"

lemma spoke_later: "spoke st role slot rec \<Longrightarrow> set (tn_calls st) \<subseteq> set (tn_calls st') \<Longrightarrow> spoke st' role slot rec"
  by (auto simp: spoke_def split: prod.splits)

lemma patch_appended:
  assumes "tc_executionId rec = e" "patchLastTurnDuration env d e (s\<lparr>rs_transcript := earlier @ [turn_record rec]\<rparr>) = (None, s')"
  shows "rs_transcript s' = earlier @ [turn_record (rec\<lparr>tc_durationMs := d\<rparr>)]"
    "rs_completedTurns s' = rs_completedTurns s" "rs_status s' = rs_status s" "rs_successReport s' = rs_successReport s"
    "rs_diskTranscript s' = Some (rs_transcript s')"
  using assms by (auto simp: patchLastTurnDuration_def rewriteTranscript_def Let_def split: option.splits)

lemma makePersist_stores:
  assumes "makePersist env m ev s = (None, s')"
  shows "\<exists>rec. rs_transcript s' = rs_transcript s @ [turn_record rec]
    \<and> rec = completed_record m role_message (length (rs_completedTurns s)) (tc_completedAt rec) ev
    \<and> rs_completedTurns s' = rs_completedTurns s @ [completed_turn m ev] \<and> rs_status s' = rs_status s
    \<and> rs_successReport s' = rs_successReport s"
  using assms
  by (auto simp: makePersist_def rewriteTranscript_def now_date_def Let_def completed_record_def split: option.splits)

lemma ordinary_done:
  assumes "ordinary_turn env input slot st = Some (go_on, st')"
  shows "\<exists>rec. rs_transcript (tn_store st') = rs_transcript (tn_store st) @ [turn_record rec] \<and> spoke st' role_message slot rec
    \<and> tc_seq rec = length (rs_completedTurns (tn_store st))
    \<and> length (rs_completedTurns (tn_store st')) = Suc (length (rs_completedTurns (tn_store st)))
    \<and> rs_status (tn_store st') = rs_status (tn_store st) \<and> set (tn_calls st) \<subseteq> set (tn_calls st')"
proof -
  obtain round idx agent where slot: "slot = (round, idx, agent)" by (cases slot)
  let ?m = "\<lambda>e. \<lparr>tm_round = round, tm_turnIndex = idx, tm_agent = agent, tm_executionId = e\<rparr>"
  let ?p = "\<lambda>e. makePersist env (?m e)"
  let ?prompt = "ve_messageText env (ag_name (ra_snapshot agent)) (ag_personaPrompt (ra_snapshot agent)) round
                 (ru_rounds input) (co_topic (ru_council input))"
  let ?s0 = "snd (next_id env (tn_store st))"
  from assms obtain e result st1 s3 where d: "drive_turn env input agent instruction_message ?prompt ?p st = Some (e, Inr result, st1)"
      "turn_done result"
      "patchLastTurnDuration env (tr_durationMs result) e (recordSummary role_message round idx agent result (tn_store st1)) = (None, s3)"
      "tn_store st' = s3" "tn_calls st' = tn_calls st1"
    by (auto simp: ordinary_turn_def slot Let_def on_store_def split: option.splits sum.splits if_splits prod.splits)
  from turn_done_persists [OF d(1,2)] obtain ev k where ev: "makePersist env (?m e) ev ?s0 = (None, tn_store st1)"
      "\<not> blank (ve_output ev)" "call_ack e disp_committed k \<in> set (tn_calls st1)" "set (tn_calls st) \<subseteq> set (tn_calls st1)" by blast
  from makePersist_stores [OF ev(1)] obtain rec where rec: "rs_transcript (tn_store st1) = rs_transcript ?s0 @ [turn_record rec]"
      "rec = completed_record (?m e) role_message (length (rs_completedTurns ?s0)) (tc_completedAt rec) ev"
      "rs_completedTurns (tn_store st1) = rs_completedTurns ?s0 @ [completed_turn (?m e) ev]" "rs_status (tn_store st1) = rs_status ?s0" by blast
  have s0: "rs_transcript ?s0 = rs_transcript (tn_store st)" "rs_completedTurns ?s0 = rs_completedTurns (tn_store st)"
      "rs_status ?s0 = rs_status (tn_store st)" by (simp_all add: next_id_def)
  let ?k = "recordSummary role_message round idx agent result (tn_store st1)"
  have k: "?k = ?k\<lparr>rs_transcript := rs_transcript ?s0 @ [turn_record rec]\<rparr>" using rec(1) by (simp add: recordSummary_def)
  have "tc_executionId rec = e" by (subst rec(2)) (simp add: completed_record_def)
  from patch_appended [OF this d(3) [unfolded arg_cong [OF k, of "patchLastTurnDuration env (tr_durationMs result) e"]]]
  have p: "rs_transcript s3 = rs_transcript ?s0 @ [turn_record (rec\<lparr>tc_durationMs := tr_durationMs result\<rparr>)]"
      "rs_completedTurns s3 = rs_completedTurns (tn_store st1)" "rs_status s3 = rs_status (tn_store st1)"
    by (simp_all add: recordSummary_def)
  let ?r = "rec\<lparr>tc_durationMs := tr_durationMs result\<rparr>"
  have "spoke st' role_message slot ?r" "tc_seq ?r = length (rs_completedTurns (tn_store st))"
    using ev(2,3) d(5) s0 by (subst rec(2), auto simp: spoke_def slot completed_record_def)+
  then show ?thesis using p rec(3,4) s0 d(4,5) ev(4) by (intro exI [of _ ?r]) simp
qed


lemma turns_done:
  assumes "run_turns env input slots st = Some (go_on, st')"
  shows "\<exists>recs. rs_transcript (tn_store st') = rs_transcript (tn_store st) @ map turn_record recs
    \<and> list_all2 (spoke st' role_message) slots recs
    \<and> map tc_seq recs = [length (rs_completedTurns (tn_store st))..<length (rs_completedTurns (tn_store st)) + length slots]
    \<and> rs_status (tn_store st') = rs_status (tn_store st) \<and> set (tn_calls st) \<subseteq> set (tn_calls st')"
  using assms
proof (induction slots arbitrary: st)
  case Nil
  then show ?case by simp
next
  case (Cons slot slots)
  from Cons.prems obtain st1 where o: "ordinary_turn env input slot st = Some (go_on, st1)"
      and t: "run_turns env input slots st1 = Some (go_on, st')"
    by (auto split: option.splits run_exit.splits)
  from ordinary_done [OF o] obtain rec where r: "rs_transcript (tn_store st1) = rs_transcript (tn_store st) @ [turn_record rec]"
      "spoke st1 role_message slot rec" "tc_seq rec = length (rs_completedTurns (tn_store st))"
      "length (rs_completedTurns (tn_store st1)) = Suc (length (rs_completedTurns (tn_store st)))"
      "rs_status (tn_store st1) = rs_status (tn_store st)" "set (tn_calls st) \<subseteq> set (tn_calls st1)" by blast
  from Cons.IH [OF t] obtain recs where rs: "rs_transcript (tn_store st') = rs_transcript (tn_store st1) @ map turn_record recs"
      "list_all2 (spoke st' role_message) slots recs"
      "map tc_seq recs = [length (rs_completedTurns (tn_store st1))..<length (rs_completedTurns (tn_store st1)) + length slots]"
      "rs_status (tn_store st') = rs_status (tn_store st1)" "set (tn_calls st1) \<subseteq> set (tn_calls st')" by blast
  have "map tc_seq (rec # recs) = [length (rs_completedTurns (tn_store st))..<length (rs_completedTurns (tn_store st)) + length (slot # slots)]"
    using r(3,4) rs(3) by (simp add: upt_conv_Cons del: upt_Suc)
  with r rs spoke_later [OF r(2) rs(5)] show ?case by (intro exI [of _ "rec # recs"]) auto
qed

lemma set_status_simps [simp]:
  "rs_status (tn_store (set_status status f st)) = status" "tn_calls (set_status status f st) = tn_calls st"
  by (simp_all add: set_status_def on_store_def)

lemma stop_turn_status: "status \<noteq> run_completed \<Longrightarrow> rs_status (tn_store (stop_turn status phase code prefix agent role result st)) \<noteq> run_completed"
  by (simp add: stop_turn_def)

lemma ordinary_stopped:
  assumes "ordinary_turn env input slot st = Some (stopped, st')"
  shows "rs_status (tn_store st') \<noteq> run_completed"
  using assms by (auto simp: ordinary_turn_def Let_def stop_turn_status split: option.splits prod.splits sum.splits if_splits)

lemma turns_stopped:
  assumes "run_turns env input slots st = Some (stopped, st')"
  shows "rs_status (tn_store st') \<noteq> run_completed"
  using assms
proof (induction slots arbitrary: st)
  case (Cons slot slots)
  then obtain y st1 where o: "ordinary_turn env input slot st = Some (y, st1)" by (auto split: option.splits)
  show ?case
  proof (cases y)
    case go_on
    with Cons o show ?thesis by simp
  next
    case stopped
    with Cons.prems o ordinary_stopped [of env input slot st st1] show ?thesis by simp
  qed (use Cons.prems o in simp)
qed simp

lemma makeReporterPersist_stores:
  assumes "makeReporterPersist env input startedAt m ev s = (None, s')"
  shows "\<exists>rec. rs_transcript s' = rs_transcript s @ [turn_record rec]
    \<and> rec = completed_record m role_report (completedMessageCount (rs_transcript s)) (tc_completedAt rec) ev
    \<and> rs_status s' = rs_status s"
  using assms
  by (auto simp: makeReporterPersist_def rewriteTranscript_def writeCanonicalReport_def now_date_def Let_def completed_record_def
      split: option.splits)

fun threw :: "run_exit \<Rightarrow> bool" where
  "threw (thrown_out _) = True"
| "threw _ = False"

lemma catch_live: "rs_status (tn_store (catch_run x st)) = run_completed \<Longrightarrow> \<not> threw x"
  by (cases x) (auto simp: catch_run_def split: if_splits)

lemma catch_run_live: "\<not> threw x \<Longrightarrow> catch_run x st = st"
  by (cases x) (auto simp: catch_run_def)

lemma reporter_done:
  assumes "reporter_turn env input startedAt st = Some (x, st')" "rs_status (tn_store (catch_run x st')) = run_completed"
  shows "\<exists>rec. rs_transcript (tn_store st') = rs_transcript (tn_store st) @ [turn_record rec]
    \<and> spoke st' role_report (ru_rounds input, length (ru_agents input), ru_reporter input) rec
    \<and> rs_reporterOutput (tn_store st') = Some (ve_output (tc_evidence rec)) \<and> set (tn_calls st) \<subseteq> set (tn_calls st') \<and> x = go_on"
proof -
  let ?a = "ru_reporter input"
  let ?m = "\<lambda>e. \<lparr>tm_round = ru_rounds input, tm_turnIndex = length (ru_agents input), tm_agent = ?a, tm_executionId = e\<rparr>"
  let ?p = "\<lambda>e. makeReporterPersist env input startedAt (?m e)"
  let ?prompt = "ve_reportText env (ru_council input) (map (ag_name \<circ> ra_snapshot) (ru_agents input)) (ag_name (ra_snapshot ?a))"
  let ?sum = "recordSummary role_report (ru_rounds input) (length (ru_agents input)) ?a"
  let ?s0 = "snd (next_id env (tn_store st))"
  have live: "\<not> threw x" using assms(2) by (rule catch_live)
  then have c: "catch_run x st' = st'" by (rule catch_run_live)
  from assms(1) obtain e r st1 where d0: "drive_turn env input ?a instruction_summary ?prompt ?p st = Some (e, r, st1)"
    by (auto simp: reporter_turn_def Let_def split: option.splits)
  have "\<exists>result. r = Inr result"
  proof (cases r)
    case (Inl err)
    with d0 assms(1) have "x = thrown_out err" by (simp add: reporter_turn_def Let_def)
    with live show ?thesis by simp
  qed simp
  then obtain result where d: "drive_turn env input ?a instruction_summary ?prompt ?p st = Some (e, Inr result, st1)"
    using d0 by blast
  obtain failed s3 where p: "patchLastTurnDuration env (tr_durationMs result) e (?sum result (tn_store st1)) = (failed, s3)" by fastforce
  have fin: "turn_done result"
  proof (rule ccontr)
    assume "\<not> turn_done result"
    with assms(1) d have "st' = stop_turn run_failed ''reporter'' ''REPORTER_NOT_COMPLETED'' ''reporter verdict '' ?a role_report result
        (on_store (?sum result) st1)"
      by (simp add: reporter_turn_def Let_def)
    then have "rs_status (tn_store st') \<noteq> run_completed" by (simp add: stop_turn_status)
    with assms(2) c show False by simp
  qed
  have "failed = None"
  proof (rule ccontr)
    assume "failed \<noteq> None"
    with assms(1) d fin p have "rs_status (tn_store st') = run_failed"
      by (auto simp: reporter_turn_def Let_def on_store_def set_status_def)
    with assms(2) c show False by simp
  qed
  with assms(1) d fin p have st': "tn_store st' = s3\<lparr>rs_reporterOutput := map_option ve_output (tr_terminal result)\<rparr>"
      "tn_calls st' = tn_calls st1" "x = go_on"
    by (auto simp: reporter_turn_def Let_def on_store_def)
  from turn_done_persists [OF d fin] obtain ev k where ev: "makeReporterPersist env input startedAt (?m e) ev ?s0 = (None, tn_store st1)"
      "tr_terminal result = Some ev" "\<not> blank (ve_output ev)" "call_ack e disp_committed k \<in> set (tn_calls st1)"
      "set (tn_calls st) \<subseteq> set (tn_calls st1)" by blast
  from makeReporterPersist_stores [OF ev(1)] obtain rec where rec: "rs_transcript (tn_store st1) = rs_transcript ?s0 @ [turn_record rec]"
      "rec = completed_record (?m e) role_report (completedMessageCount (rs_transcript ?s0)) (tc_completedAt rec) ev" by blast
  have s0: "rs_transcript ?s0 = rs_transcript (tn_store st)" by (simp add: next_id_def)
  let ?k = "?sum result (tn_store st1)"
  have k: "?k = ?k\<lparr>rs_transcript := rs_transcript ?s0 @ [turn_record rec]\<rparr>" using rec(1) by (simp add: recordSummary_def)
  have "tc_executionId rec = e" by (subst rec(2)) (simp add: completed_record_def)
  from patch_appended [OF this p [unfolded \<open>failed = None\<close> arg_cong [OF k, of "patchLastTurnDuration env (tr_durationMs result) e"]]]
  have t: "rs_transcript s3 = rs_transcript ?s0 @ [turn_record (rec\<lparr>tc_durationMs := tr_durationMs result\<rparr>)]" by simp
  let ?r = "rec\<lparr>tc_durationMs := tr_durationMs result\<rparr>"
  have "spoke st' role_report (ru_rounds input, length (ru_agents input), ?a) ?r" "tc_evidence ?r = ev"
    using ev(3,4) st'(2) by (subst rec(2), auto simp: spoke_def completed_record_def)+
  then show ?thesis using t s0 st' ev(2,5) by (intro exI [of _ ?r]) simp
qed


lemma open_go_on:
  assumes "open_scope env input st = (go_on, st')"
  shows "rs_transcript (tn_store st') = rs_transcript (tn_store st) \<and> rs_completedTurns (tn_store st') = rs_completedTurns (tn_store st)
    \<and> rs_status (tn_store st') = rs_status (tn_store st)"
proof -
  let ?req = "''ck-run-'' @ ru_runId input @ ''-'' @ take 8 (fst (next_id env (tn_store st)))"
  let ?st0 = "st\<lparr>tn_store := snd (next_id env (tn_store st))\<rparr>"
  obtain r1 st1 where 1: "createScopeIdempotent env ?req ?st0 = (r1, st1)" by fastforce
  have s1: "tn_store st1 = snd (next_id env (tn_store st))" using books_create [OF 1] by (simp add: books_def)
  from assms 1 obtain c where c: "r1 = Inr c"
    by (cases r1) (auto simp: open_scope_def split_beta Let_def scope_failed_def split: if_splits)
  let ?k = "on_store (\<lambda>s. s\<lparr>rs_scope := Some c\<rparr>) st1"
  obtain r2 st2 where 2: "race (call_activateScope (cs_scopeId c)) (no_result \<circ> ve_activateScope env) ?k = (r2, st2)" by fastforce
  have "tn_store st2 = (tn_store st1)\<lparr>rs_scope := Some c\<rparr>" using books_race [OF 2] by (simp add: books_def on_store_def)
  moreover have "st' = st2" using assms 1 2 c
    by (auto simp: open_scope_def split_beta Let_def scope_failed_def split: if_splits sum.splits)
  ultimately show ?thesis by (simp add: s1 next_id_def)
qed

lemma body_done:
  assumes "run_body env input startedAt st = Some (x, st')" "rs_status (tn_store (catch_run x st')) = run_completed"
    "rs_completedTurns (tn_store st) = []"
  shows "\<exists>recs rep. rs_transcript (tn_store st') = started_record input startedAt # map turn_record recs @ [turn_record rep]
    \<and> list_all2 (spoke st' role_message) (turn_slots input) recs \<and> map tc_seq recs = [0..<length recs]
    \<and> spoke st' role_report (ru_rounds input, length (ru_agents input), ru_reporter input) rep
    \<and> rs_reporterOutput (tn_store st') = Some (ve_output (tc_evidence rep)) \<and> x = go_on"
proof -
  have live: "\<not> threw x" using assms(2) by (rule catch_live)
  then have c: "catch_run x st' = st'" by (rule catch_run_live)
  have status: "rs_status (tn_store st') = run_completed" using assms(2) c by simp
  let ?s1 = "(tn_store st)\<lparr>rs_transcript := [started_record input startedAt]\<rparr>"
  obtain failed s1 where w: "rewriteTranscript env ?s1 = (failed, s1)" by fastforce
  from assms(1) live status w have w0: "failed = None" "ve_ensureRunDir env = None" "(if ru_demo input then ve_demoMarker env else None) = None"
    by (auto simp: run_body_def split: option.splits)
  obtain y st2 where o: "open_scope env input (st\<lparr>tn_store := s1\<rparr>) = (y, st2)" by fastforce
  have y: "y = go_on"
  proof (cases y)
    case stopped
    with assms(1) w w0 o have "x = stopped" "st' = st2" by (auto simp: run_body_def)
    with o stopped have "rs_status (tn_store st') = run_failed"
      by (auto simp: open_scope_def scope_failed_def split_beta Let_def split: sum.splits if_splits)
    with status show ?thesis by simp
  next
    case (thrown_out e)
    with assms(1) w w0 o have "x = thrown_out e" by (auto simp: run_body_def)
    with live show ?thesis by simp
  qed
  from assms(1) w w0 o y obtain z st3 where t: "run_turns env input (turn_slots input) st2 = Some (z, st3)"
    by (auto simp: run_body_def split: option.splits)
  have z: "z = go_on"
  proof (cases z)
    case stopped
    have n: "rs_status (tn_store st3) \<noteq> run_completed" using t stopped turns_stopped by blast
    with assms(1) w w0 o y t stopped have "st' = st3" by (auto simp: run_body_def)
    with n status show ?thesis by simp
  next
    case (thrown_out e)
    with assms(1) w w0 o y t have "x = thrown_out e" by (auto simp: run_body_def)
    with live show ?thesis by simp
  qed
  have r: "reporter_turn env input startedAt st3 = Some (x, st')"
    using assms(1) w w0 o y t z status
    by (auto simp: run_body_def split: if_splits)
  from reporter_done [OF r assms(2)] obtain rep where rep: "rs_transcript (tn_store st') = rs_transcript (tn_store st3) @ [turn_record rep]"
      "spoke st' role_report (ru_rounds input, length (ru_agents input), ru_reporter input) rep"
      "rs_reporterOutput (tn_store st') = Some (ve_output (tc_evidence rep))" "set (tn_calls st3) \<subseteq> set (tn_calls st')" "x = go_on" by blast
  from t z have "run_turns env input (turn_slots input) st2 = Some (go_on, st3)" by simp
  from turns_done [OF this] obtain recs where recs: "rs_transcript (tn_store st3) = rs_transcript (tn_store st2) @ map turn_record recs"
      "list_all2 (spoke st3 role_message) (turn_slots input) recs"
      "map tc_seq recs = [length (rs_completedTurns (tn_store st2))..<length (rs_completedTurns (tn_store st2)) + length (turn_slots input)]" by blast
  have s2: "rs_transcript (tn_store st2) = [started_record input startedAt]" "rs_completedTurns (tn_store st2) = []"
    using open_go_on [OF o [unfolded y]] w w0(1) assms(3)
    by (auto simp: rewriteTranscript_def Let_def split: option.splits)
  have "list_all2 (spoke st' role_message) (turn_slots input) recs"
    using recs(2) by (rule list_all2_mono) (rule spoke_later [OF _ rep(4)])
  then show ?thesis using rep recs(1,3) s2 list_all2_lengthD [OF recs(2)]
    by (intro exI [of _ recs] exI [of _ rep]) simp
qed

text \<open>C13: A run that reports completion was not interrupted and has on disk: the transcript with the
  start, one speech of every agent in every round in order, the reporter's turn and the completed end, each
  speech non-empty and acknowledged to the Host as committed; and the report made from the reporter's words.\<close>

theorem completed_run_is_whole:
  assumes "runCouncil env input aborted disk = Some (Inr out, st)" "ro_status out = run_completed"
  shows "\<exists>recs rep. rs_diskTranscript (tn_store st)
      = Some (started_record input (ro_startedAt out) # map turn_record recs @ [turn_record rep, finished_record (ro_endedAt out) (tn_store st)])
    \<and> list_all2 (spoke st role_message) (turn_slots input) recs \<and> map tc_seq recs = [0..<length recs]
    \<and> spoke st role_report (ru_rounds input, length (ru_agents input), ru_reporter input) rep
    \<and> rs_diskReport (tn_store st)
      = Some (renderSuccessReport (run_header input (ro_startedAt out) (ro_endedAt out)) (ve_output (tc_evidence rep)))
    \<and> \<not> tn_external st \<and> ro_failure out = None"
proof -
  from runCouncil_parts [OF assms(1)] obtain startedAt x st1 where
    b: "run_body env input startedAt ((new_run aborted disk)\<lparr>tn_store := snd (now_date env (tn_store (new_run aborted disk)))\<rparr>) = Some (x, st1)"
    and f: "finish_run env input startedAt (tn_external (close_run env (catch_run x st1)))
       (tn_store (close_run env (catch_run x st1))) = (out, tn_store st)"
    and st: "st = (close_run env (catch_run x st1))\<lparr>tn_store := tn_store st\<rparr>" by metis
  let ?c = "close_run env (catch_run x st1)"
  have ok: "run_ok (tn_store ?c)" by (rule body_ok [OF b new_run_ok])
  from finish_ok [OF f ok] obtain endedAt where
    o: "out = outcome_of input startedAt endedAt (tn_external ?c) (tn_store st)"
    and d: "if rs_artifactIoFailure (tn_store st) = None
        then rs_status (tn_store st) = rs_status (tn_store ?c) \<and> rs_failure (tn_store st) = rs_failure (tn_store ?c)
          \<and> rs_reporterOutput (tn_store st) = rs_reporterOutput (tn_store ?c)
          \<and> rs_diskTranscript (tn_store st) = Some (rs_transcript (tn_store ?c) @ [finished_record endedAt (tn_store st)])
          \<and> (\<exists>r. rs_diskReport (tn_store st) = Some r \<and> report_for input startedAt endedAt (tn_store st) r)
        else rs_status (tn_store st) \<noteq> run_completed"
    by metis
  have fin: "rs_status (tn_store st) = run_completed" using assms(2) by (simp add: o outcome_of_def)
  with d obtain r where e: "rs_status (tn_store ?c) = run_completed" "rs_failure (tn_store st) = rs_failure (tn_store ?c)"
      "rs_reporterOutput (tn_store st) = rs_reporterOutput (tn_store ?c)"
      "rs_diskTranscript (tn_store st) = Some (rs_transcript (tn_store ?c) @ [finished_record endedAt (tn_store st)])"
      "rs_diskReport (tn_store st) = Some r" "report_for input startedAt endedAt (tn_store st) r"
    by (auto split: if_splits)
  from close_store(2) [of env "catch_run x st1"] e(1) have cl: "rs_status (tn_store (catch_run x st1)) = run_completed"
      "rs_transcript (tn_store ?c) = rs_transcript (tn_store (catch_run x st1))"
      "rs_reporterOutput (tn_store ?c) = rs_reporterOutput (tn_store (catch_run x st1))" "\<not> tn_external ?c" by auto
  from body_done [OF b cl(1)] obtain recs rep where
    t: "rs_transcript (tn_store st1) = started_record input startedAt # map turn_record recs @ [turn_record rep]"
      "list_all2 (spoke st1 role_message) (turn_slots input) recs" "map tc_seq recs = [0..<length recs]"
      "spoke st1 role_report (ru_rounds input, length (ru_agents input), ru_reporter input) rep"
      "rs_reporterOutput (tn_store st1) = Some (ve_output (tc_evidence rep))" "x = go_on"
    by (auto simp: now_date_def new_run_def)
  have calls: "set (tn_calls st1) \<subseteq> set (tn_calls st)"
    using close_calls [of st1 env] by (subst st) (simp add: t(6) catch_run_def)
  have "list_all2 (spoke st role_message) (turn_slots input) recs"
    using t(2) by (rule list_all2_mono) (rule spoke_later [OF _ calls])
  moreover have "spoke st role_report (ru_rounds input, length (ru_agents input), ru_reporter input) rep"
    by (rule spoke_later [OF t(4) calls])
  moreover have "r = renderSuccessReport (run_header input startedAt endedAt) (ve_output (tc_evidence rep))"
    using e(3,6) cl(3) t(5,6) fin by (simp add: report_for_def success_report_def catch_run_def)
  moreover have "\<not> tn_external st" using cl(4) by (subst st) simp
  moreover have "rs_failure (tn_store st) = None" using ok e(1,2) by (simp add: run_ok_def)
  ultimately show ?thesis using e(4,5) cl(2) t(1,3,6)
    by (intro exI [of _ recs] exI [of _ rep]) (simp add: o outcome_of_def catch_run_def)
qed

section \<open>Sessions\<close>

text \<open>C17: When no two agents share a participant and the reporter is one of them, every snapshot a run
  dispatches for a participant extends the snapshots dispatched for it before, so a session of the Host is
  only ever added to; and every snapshot is built from the turns stored before it.\<close>

theorem sessions_are_extended:
  assumes "runCouncil env input aborted disk = Some (Inr out, st)" "unique_sessions input"
  shows "sessions_extended (sent st) \<and> list_all (built_from env input (rs_completedTurns (tn_store st))) (sent st)"
proof -
  from runCouncil_parts [OF assms(1)] obtain startedAt x st1 where
    b: "run_body env input startedAt ((new_run aborted disk)\<lparr>tn_store := snd (now_date env (tn_store (new_run aborted disk)))\<rparr>) = Some (x, st1)"
    and f: "finish_run env input startedAt (tn_external (close_run env (catch_run x st1)))
       (tn_store (close_run env (catch_run x st1))) = (out, tn_store st)"
    and st: "st = (close_run env (catch_run x st1))\<lparr>tn_store := tn_store st\<rparr>" by metis
  let ?c = "catch_run x st1"
  have steps: "run_steps env input startedAt
      (books ((new_run aborted disk)\<lparr>tn_store := snd (now_date env (tn_store (new_run aborted disk)))\<rparr>)) (books ?c)"
    using steps_body [OF b] catch_steps [of env input startedAt st1 x] by (rule rtranclp_trans)
  have start: "sent (new_run aborted disk) = []" by (simp add: sent_def new_run_def)
  from steps_extend [OF steps assms(2)] have
    "list_all (built_from env input (rs_completedTurns (tn_store ?c))) (sent ?c) \<and> sessions_extended (sent ?c)"
    by (simp add: books_def start sessions_extended_def)
  moreover have "sent st = sent ?c" by (subst st) (simp add: close_store(1))
  moreover have "rs_completedTurns (tn_store st) = rs_completedTurns (tn_store ?c)"
    using finish_keeps_turns [OF f] close_store(2) [of env ?c] by auto
  ultimately show ?thesis by simp
qed

section \<open>Runs return\<close>

lemma drive_turn_returns:
  assumes "settles (ve_host env) calls bound"
  obtains res where "drive_turn env input agent kind prompt persist st = Some res"
proof -
  have "\<exists>res. executeTurn (ve_host env) i p k = Some res" for i p and k :: run_state
    using turn_returns [OF assms, of i p k] by blast
  then have "\<exists>res. drive_turn env input agent kind prompt persist st = Some res"
    by (simp add: drive_turn_def split_beta Let_def)
  with that show thesis by blast
qed

lemma ordinary_returns:
  assumes "settles (ve_host env) calls bound"
  shows "\<exists>res. ordinary_turn env input slot st = Some res"
proof (cases slot)
  case (fields round idx agent)
  let ?p = "\<lambda>executionId. makePersist env \<lparr>tm_round = round, tm_turnIndex = idx, tm_agent = agent, tm_executionId = executionId\<rparr>"
  obtain e r st1 where "drive_turn env input agent instruction_message
      (ve_messageText env (ag_name (ra_snapshot agent)) (ag_personaPrompt (ra_snapshot agent)) round
        (ru_rounds input) (co_topic (ru_council input))) ?p st = Some (e, r, st1)"
    using drive_turn_returns [OF assms, where persist = ?p] by (metis prod_cases3)
  then show ?thesis
    by (cases r) (simp_all add: ordinary_turn_def fields Let_def split: prod.splits option.splits)
qed

lemma turns_return:
  assumes "settles (ve_host env) calls bound"
  shows "\<exists>res. run_turns env input slots st = Some res"
proof (induction slots arbitrary: st)
  case (Cons slot slots)
  from ordinary_returns [OF assms] obtain x st1 where "ordinary_turn env input slot st = Some (x, st1)" by fastforce
  then show ?case using Cons.IH [of st1] by (cases x) simp_all
qed simp

lemma reporter_returns:
  assumes "settles (ve_host env) calls bound"
  shows "\<exists>res. reporter_turn env input startedAt st = Some res"
proof -
  let ?p = "\<lambda>executionId. makeReporterPersist env input startedAt \<lparr>tm_round = ru_rounds input,
    tm_turnIndex = length (ru_agents input), tm_agent = ru_reporter input, tm_executionId = executionId\<rparr>"
  obtain e r st1 where "drive_turn env input (ru_reporter input) instruction_summary
      (ve_reportText env (ru_council input) (map (ag_name \<circ> ra_snapshot) (ru_agents input)) (ag_name (ra_snapshot (ru_reporter input))))
      ?p st = Some (e, r, st1)"
    using drive_turn_returns [OF assms, where persist = ?p] by (metis prod_cases3)
  then show ?thesis by (cases r) (simp_all add: reporter_turn_def Let_def split: prod.splits)
qed

lemma body_returns:
  assumes "settles (ve_host env) calls bound"
  shows "\<exists>res. run_body env input startedAt st = Some res"
proof -
  obtain e s1 where w: "rewriteTranscript env ((tn_store st)\<lparr>rs_transcript := [started_record input startedAt]\<rparr>) = (e, s1)" by fastforce
  obtain x st2 where o: "open_scope env input (st\<lparr>tn_store := s1\<rparr>) = (x, st2)" by fastforce
  from turns_return [OF assms] obtain y st3 where t: "run_turns env input (turn_slots input) st2 = Some (y, st3)" by fastforce
  from reporter_returns [OF assms] obtain res where r: "reporter_turn env input startedAt st3 = Some res" by blast
  show ?thesis
    by (cases e; cases x; cases y) (simp_all add: run_body_def w o t r split: option.split)
qed

text \<open>C19: A run returns whenever the executions of its turns eventually settle: from some call on the
  Host no longer reports them running, or cannot be asked, or the turn's deadline fires.\<close>

theorem run_returns:
  assumes "settles (ve_host env) calls bound"
  shows "\<exists>r st. runCouncil env input aborted disk = Some (r, st)"
proof -
  let ?st = "(new_run aborted disk)\<lparr>tn_store := snd (now_date env (tn_store (new_run aborted disk)))\<rparr>"
  from body_returns [OF assms] obtain x st1 where "run_body env input (fst (now_date env (tn_store (new_run aborted disk)))) ?st = Some (x, st1)"
    by fastforce
  then show ?thesis
    by (simp add: runCouncil_def Let_def split_beta split: option.split)
qed

end
