(* ===== verification/Council_Sample.thy ===== *)
theory Council_Sample
  imports Council_Properties
begin

text \<open>
  A concrete run: the Host of the sample turn, one agent that is its own reporter, one round and
  files that can be written.  Its turns are evaluated once for any state, and the properties of
  \<open>Council_Properties\<close> are applied to it.
\<close>

section \<open>The run\<close>

text \<open>One agent, one round, on the Host of the sample turn.\<close>

definition sample_agent :: ResolvedAgent where
  "sample_agent = \<lparr>ra_snapshot = \<lparr>ag_id = ''a1'', ag_name = ''A'', ag_personaPrompt = [], ag_modelId = ''m'', ag_color = [],
      ag_enabled = True, ag_options = KimiOptions\<rparr>,
     ra_profile = \<lparr>ep_installationId = ''i'', ep_options = KimiOptions\<rparr>,
     ra_installationId = ''i'', ra_participantId = ''p1'', ra_participantSnapshotDigest = ''d''\<rparr>"

definition sample_run_input :: RunInput where
  "sample_run_input = \<lparr>ru_runId = ''r'',
     ru_council = \<lparr>co_id = ''c'', co_name = ''C'', co_topic = ''t'', co_background = [], co_targetOutput = [], co_rounds = 1,
       co_reporterAgentId = ''a1'', co_agentIds = [''a1'']\<rparr>,
     ru_agents = [sample_agent], ru_reporter = sample_agent, ru_rounds = 1, ru_outPath = None, ru_demo = False\<rparr>"

definition sample_run_env :: run_env where
  "sample_run_env = \<lparr>ve_host = sample_host, ve_ensureRunDir = None, ve_demoMarker = None,
     ve_createScope = (\<lambda>_. (Inr \<lparr>cs_scopeId = ''s'', cs_controllerId = ''k'', cs_leaseEpoch = 1\<rparr>, [])),
     ve_activateScope = (\<lambda>_. (None, [])), ve_closeScope = (\<lambda>_. (None, [])),
     ve_scopeStatus = (\<lambda>_. (Inr scope_closed, [])), ve_writeFails = (\<lambda>_. None), ve_date = (\<lambda>_. ''t''),
     ve_uuid = show_nat, ve_sha = (\<lambda>_. ''d''), ve_messageText = (\<lambda>_ _ _ _ _. ''speak''),
     ve_reportText = (\<lambda>_ _ _. ''report''), ve_schemaMessage = ''bad'', ve_timeouts = \<lparr>gt_streamIdleMs = 2, gt_oneshotMs = 3\<rparr>\<rparr>"

definition sample_evidence :: TerminalEvidence where
  "sample_evidence = \<lparr>ve_output = ''yes'', ve_requestedModel = ''m'', ve_effectiveModel = None,
     ve_modelVerdict = verdict_match, ve_toolState = tool_none, ve_usage = None, ve_finalSeq = 2\<rparr>"

lemma sample_stream:
  "followExecutionEvents (he_decode sample_host) 0 (fst (he_connect sample_host h)) False = Inr (follow_terminal sample_completed)"
proof -
  have "followExecutionEvents (he_decode sample_host) 0 (fst (he_connect sample_host [])) False = Inr (follow_terminal sample_completed)"
    by code_simp
  then show ?thesis by (simp add: sample_host_def)
qed

lemma sample_turn:
  assumes "\<not> tn_external st" "persist sample_evidence (tn_store st) = (None, s')"
  shows "\<exists>st'. executeTurn sample_host i persist st = Some (Inr \<lparr>tr_verdict = turn_completed, tr_executionId = ti_executionId i,
      tr_participantId = ti_participantId i, tr_dispatchState = dispatch_accepted, tr_terminal = Some sample_evidence,
      tr_durationMs = int (length (tn_calls st)) + 5 - ti_startedAt i, tr_ack = turn_acknowledged, tr_error = None\<rparr>, st')
    \<and> tn_store st' = s' \<and> \<not> tn_external st' \<and> sent st' = sent st @ [ti_snapshot i]"
proof -
  have "he_rawClient sample_host h = (None, [])" "he_execute sample_host h = (None, [])" 
     "snd (he_connect sample_host h) = []" "he_ack sample_host h = (Inr ack_acknowledged, [])" "he_now sample_host h = int (length h)" for h
    by (simp_all add: sample_host_def)
  moreover have "evidence_of sample_completed = Some sample_evidence" "\<not> blank (ve_output sample_evidence)" "ve_finalSeq sample_evidence = 2"
    by (simp_all add: evidence_of_def sample_completed_def sample_evidence_def blank_def js_trim_def js_space_def)
  ultimately show ?thesis using assms
    by (simp add: executeTurn_def await_def begin_turn_def driveToTerminal.simps follow_turn_def connect_def sample_stream
       deadline_aborted_def on_stream_def on_terminal_def on_completed_def call_persist_on_def ack_then_def ackOnce_def
       Let_def remapIfAborted_def make_result_def sent_def cleanup_aborted_def)
qed

lemma sample_run_schema: "contextSnapshotSchema (buildContextSnapshot (ve_sha sample_run_env) (ru_council sample_run_input)
            (sharedItems (ru_runId sample_run_input) (ru_council sample_run_input) (ru_agents sample_run_input) turns) sample_agent kind txt)"
  by (auto simp: contextSnapshotSchema_def buildContextSnapshot_def sample_run_env_def computeContextDigest_def
      computeInstructionDigest_def sharedItems_def contextItem_def turnItem_def sample_agent_def sample_run_input_def
      SNAPSHOT_DIGEST_VERSION_def digest_of_def list_all_iff Let_def)

lemma sample_drive:
  assumes "\<not> tn_external st" "\<And>e. persist e sample_evidence (snd (next_id sample_run_env (tn_store st))) = (None, s' e)"
  shows "\<exists>e result st'. drive_turn sample_run_env sample_run_input sample_agent kind txt persist st = Some (e, Inr result, st')
    \<and> turn_done result \<and> tr_terminal result = Some sample_evidence \<and> tn_store st' = s' e \<and> \<not> tn_external st'
    \<and> length (sent st') = Suc (length (sent st))"
proof -
  have h: "ve_host sample_run_env = sample_host" by (simp add: sample_run_env_def)
  obtain u s1 where n: "next_id sample_run_env (tn_store st) = (u, s1)" by fastforce
  let ?i = "\<lparr>ti_executionId = ''ck-exec-'' @ u, ti_participantId = ra_participantId sample_agent,
      ti_snapshot = buildContextSnapshot (ve_sha sample_run_env) (ru_council sample_run_input)
        (sharedItems (ru_runId sample_run_input) (ru_council sample_run_input) (ru_agents sample_run_input) (rs_completedTurns s1))
        sample_agent kind txt,
      ti_generation = Some (generationRule (ep_driverId (ra_profile sample_agent)) (ve_timeouts sample_run_env)),
      ti_startedAt = he_now sample_host (tn_calls st)\<rparr>"
  from sample_turn [of "st\<lparr>tn_store := s1\<rparr>" "persist (''ck-exec-'' @ u)" "s' (''ck-exec-'' @ u)" ?i] assms n
  obtain st' where "executeTurn sample_host ?i (persist (''ck-exec-'' @ u)) (st\<lparr>tn_store := s1\<rparr>) = Some (Inr \<lparr>tr_verdict = turn_completed, tr_executionId = ti_executionId ?i,
      tr_participantId = ti_participantId ?i, tr_dispatchState = dispatch_accepted, tr_terminal = Some sample_evidence,
      tr_durationMs = int (length (tn_calls st)) + 5 - ti_startedAt ?i, tr_ack = turn_acknowledged, tr_error = None\<rparr>, st')"
      "tn_store st' = s' (''ck-exec-'' @ u)" "\<not> tn_external st'" "length (sent st') = Suc (length (sent st))" by (auto simp: sent_def)
  then show ?thesis using sample_run_schema
    by (simp add: drive_turn_def n Let_def h turn_done_def)
qed

lemma sample_writes [simp]: "ve_writeFails sample_run_env n = None" "ve_host sample_run_env = sample_host" 
  "ve_ensureRunDir sample_run_env = None" "ve_createScope sample_run_env h = (Inr \<lparr>cs_scopeId = ''s'', cs_controllerId = ''k'', cs_leaseEpoch = 1\<rparr>, [])"
  "ve_activateScope sample_run_env h = (None, [])" "ve_closeScope sample_run_env h = (None, [])" "ve_scopeStatus sample_run_env h = (Inr scope_closed, [])"
  by (simp_all add: sample_run_env_def)

lemma sample_input_simps [simp]: "ru_agents sample_run_input = [sample_agent]" "ru_reporter sample_run_input = sample_agent" 
  "ru_rounds sample_run_input = 1" "ru_demo sample_run_input = False" "ru_outPath sample_run_input = None" "turn_slots sample_run_input = [(1, 0, sample_agent)]"
  by (simp_all add: sample_run_input_def turn_slots_def)

lemma sample_ordinary:
  assumes "\<not> tn_external st"
  shows "\<exists>st'. ordinary_turn sample_run_env sample_run_input (1, 0, sample_agent) st = Some (go_on, st') \<and> \<not> tn_external st'
    \<and> rs_status (tn_store st') = rs_status (tn_store st) \<and> rs_scope (tn_store st') = rs_scope (tn_store st)
    \<and> rs_artifactIoFailure (tn_store st') = rs_artifactIoFailure (tn_store st)
    \<and> length (sent st') = Suc (length (sent st))"
proof -
  let ?p = "\<lambda>e. makePersist sample_run_env \<lparr>tm_round = 1, tm_turnIndex = 0, tm_agent = sample_agent, tm_executionId = e\<rparr>"
  let ?s = "snd (next_id sample_run_env (tn_store st))"
  have "?p e sample_evidence ?s = (None, snd (?p e sample_evidence ?s))" for e
    by (simp add: makePersist_def now_date_def rewriteTranscript_def Let_def)
  from sample_drive [where persist = ?p and s' = "\<lambda>e. snd (?p e sample_evidence ?s)", OF assms this, of instruction_message "ve_messageText sample_run_env (ag_name (ra_snapshot sample_agent)) (ag_personaPrompt (ra_snapshot sample_agent)) 1
                 (ru_rounds sample_run_input) (co_topic (ru_council sample_run_input))"]
  obtain e result st' where "drive_turn sample_run_env sample_run_input sample_agent instruction_message
      (ve_messageText sample_run_env (ag_name (ra_snapshot sample_agent)) (ag_personaPrompt (ra_snapshot sample_agent)) 1
                 (ru_rounds sample_run_input) (co_topic (ru_council sample_run_input))) ?p st = Some (e, Inr result, st')"
    "turn_done result" "tn_store st' = snd (?p e sample_evidence ?s)" "\<not> tn_external st'" "length (sent st') = Suc (length (sent st))" by blast
  then show ?thesis using assms
    by (simp add: ordinary_turn_def patchLastTurnDuration_def rewriteTranscript_def Let_def on_store_def recordSummary_def
       makePersist_def now_date_def next_id_def completed_record_def sent_def split: option.splits)
qed

lemma sample_reporter:
  assumes "\<not> tn_external st"
  shows "\<exists>st'. reporter_turn sample_run_env sample_run_input startedAt st = Some (go_on, st') \<and> \<not> tn_external st'
    \<and> rs_status (tn_store st') = rs_status (tn_store st) \<and> rs_scope (tn_store st') = rs_scope (tn_store st)
    \<and> rs_artifactIoFailure (tn_store st') = rs_artifactIoFailure (tn_store st)
    \<and> length (sent st') = Suc (length (sent st))"
proof -
  let ?p = "\<lambda>e. makeReporterPersist sample_run_env sample_run_input startedAt
    \<lparr>tm_round = 1, tm_turnIndex = 1, tm_agent = sample_agent, tm_executionId = e\<rparr>"
  let ?s = "snd (next_id sample_run_env (tn_store st))"
  let ?txt = "ve_reportText sample_run_env (ru_council sample_run_input) (map (ag_name \<circ> ra_snapshot) (ru_agents sample_run_input))
    (ag_name (ra_snapshot (ru_reporter sample_run_input)))"
  have "?p e sample_evidence ?s = (None, snd (?p e sample_evidence ?s))" for e
    by (simp add: makeReporterPersist_def now_date_def rewriteTranscript_def writeCanonicalReport_def Let_def)
  from sample_drive [where persist = ?p and s' = "\<lambda>e. snd (?p e sample_evidence ?s)", OF assms this, of instruction_summary ?txt]
  obtain e result st' where "drive_turn sample_run_env sample_run_input sample_agent instruction_summary ?txt ?p st = Some (e, Inr result, st')"
    "turn_done result" "tn_store st' = snd (?p e sample_evidence ?s)" "\<not> tn_external st'" "length (sent st') = Suc (length (sent st))" by blast
  then show ?thesis using assms
    by (simp add: reporter_turn_def patchLastTurnDuration_def rewriteTranscript_def writeCanonicalReport_def Let_def on_store_def
       recordSummary_def makeReporterPersist_def now_date_def next_id_def completed_record_def sent_def split: option.splits)
qed

lemma sample_body:
  obtains st' where "run_body sample_run_env sample_run_input startedAt ((new_run False None)\<lparr>tn_store := snd (now_date sample_run_env (tn_store (new_run False None)))\<rparr>) = Some (go_on, st')"
    "\<not> tn_external st'" "rs_status (tn_store st') = run_completed" "rs_scope (tn_store st') \<noteq> None"
    "rs_artifactIoFailure (tn_store st') = None" "length (sent st') = 2"
proof -
  let ?st = "(new_run False None)\<lparr>tn_store := snd (now_date sample_run_env (tn_store (new_run False None)))\<rparr>"
  obtain s1 where w: "rewriteTranscript sample_run_env ((tn_store ?st)\<lparr>rs_transcript := [started_record sample_run_input startedAt]\<rparr>) = (None, s1)"
      "rs_status s1 = run_completed" "rs_artifactIoFailure s1 = None"
    by (simp add: rewriteTranscript_def now_date_def new_run_def Let_def)
  obtain st2 where o: "open_scope sample_run_env sample_run_input (?st\<lparr>tn_store := s1\<rparr>) = (go_on, st2)" "\<not> tn_external st2"
      "rs_status (tn_store st2) = run_completed" "rs_scope (tn_store st2) \<noteq> None" "rs_artifactIoFailure (tn_store st2) = None" "sent st2 = []"
    using w(2,3) by (simp add: open_scope_def createScopeIdempotent_def race_def await_def on_store_def Let_def next_id_def new_run_def sent_def split_beta)
  from sample_ordinary [OF o(2)] obtain st3 where t: "run_turns sample_run_env sample_run_input [(1, 0, sample_agent)] st2 = Some (go_on, st3)"
      "\<not> tn_external st3" "rs_status (tn_store st3) = run_completed" "rs_scope (tn_store st3) \<noteq> None"
      "rs_artifactIoFailure (tn_store st3) = None" "length (sent st3) = 1" using o by auto
  from sample_reporter [OF t(2), of startedAt] obtain st4 where r: "reporter_turn sample_run_env sample_run_input startedAt st3 = Some (go_on, st4)"
      "\<not> tn_external st4" "rs_status (tn_store st4) = run_completed" "rs_scope (tn_store st4) \<noteq> None"
      "rs_artifactIoFailure (tn_store st4) = None" "length (sent st4) = 2" using t by auto
  have "run_body sample_run_env sample_run_input startedAt ?st = Some (go_on, st4)"
    using w o(1) t(1-3) r(1) by (simp add: run_body_def)
  from that [OF this r(2-6)] show thesis .
qed

lemma sample_run_outcome:
  obtains out st where "runCouncil sample_run_env sample_run_input False None = Some (Inr out, st)"
    "ro_status out = run_completed" "length (sent st) = 2"
proof -
  obtain st1 where b: "run_body sample_run_env sample_run_input (ve_date sample_run_env 0) ((new_run False None)\<lparr>tn_store := snd (now_date sample_run_env (tn_store (new_run False None)))\<rparr>) = Some (go_on, st1)"
    "\<not> tn_external st1" "rs_status (tn_store st1) = run_completed" "rs_scope (tn_store st1) \<noteq> None"
    "rs_artifactIoFailure (tn_store st1) = None" "length (sent st1) = 2" by (rule sample_body)
  let ?c = "close_run sample_run_env st1"
  from b(4) obtain c where "rs_scope (tn_store st1) = Some c" by blast
  then have c: "tn_store ?c = tn_store st1" "\<not> tn_external ?c" "sent ?c = sent st1"
    using b(2) close_store(1) [of sample_run_env st1]
    by (simp_all add: close_run_def closeScopeBounded_def await_def cleanupOf_def dispose_run_def Let_def)
  have a: "assertRunReferences sample_run_input = None"
    by (simp add: assertRunReferences_def QUOTAS_def sample_agent_def Let_def)
  obtain out s' where f: "finish_run sample_run_env sample_run_input (ve_date sample_run_env 0) False (tn_store st1) = (out, s')"
    by fastforce
  then have o: "ro_status out = run_completed"
    using b(3) by (auto simp: finish_run_def now_date_def write_report_def writeCanonicalReport_def copy_report_def finish_transcript_def
      rewriteTranscript_def reconcile_report_def outcome_of_def Let_def split: if_splits)
  have "runCouncil sample_run_env sample_run_input False None = Some (Inr out, ?c\<lparr>tn_store := s'\<rparr>)"
    using b(1) c f a by (simp add: runCouncil_def now_date_def new_run_def catch_run_def Let_def)
  from that [OF this o] c b(6) show thesis by simp
qed
section \<open>The properties at this run\<close>

lemma completed_run_is_whole_witness:
  "\<exists>out st recs rep. runCouncil sample_run_env sample_run_input False None = Some (Inr out, st)
     \<and> list_all2 (spoke st role_message) [(1, 0, sample_agent)] recs \<and> spoke st role_report (1, 1, sample_agent) rep
     \<and> ro_failure out = None"
proof -
  obtain out st where run: "runCouncil sample_run_env sample_run_input False None = Some (Inr out, st)"
    "ro_status out = run_completed" by (rule sample_run_outcome)
  have "turn_slots sample_run_input = [(1, 0, sample_agent)]" by (simp add: turn_slots_def sample_run_input_def)
  moreover have "ru_rounds sample_run_input = 1" "length (ru_agents sample_run_input) = 1" "ru_reporter sample_run_input = sample_agent"
    by (simp_all add: sample_run_input_def)
  ultimately show ?thesis using completed_run_is_whole [OF run] run(1) by metis
qed

lemma disk_agrees_with_outcome_witness:
  "\<exists>out st. runCouncil sample_run_env sample_run_input False None = Some (Inr out, st) \<and> ro_exitCode out = EXIT_ok"
proof -
  obtain out st where run: "runCouncil sample_run_env sample_run_input False None = Some (Inr out, st)"
    "ro_status out = run_completed" by (rule sample_run_outcome)
  with disk_agrees_with_outcome [OF run(1)] show ?thesis by blast
qed

lemma sessions_are_extended_witness:
  "\<exists>out st. runCouncil sample_run_env sample_run_input False None = Some (Inr out, st)
     \<and> length (sent st) = 2 \<and> sessions_extended (sent st)"
proof -
  obtain out st where run: "runCouncil sample_run_env sample_run_input False None = Some (Inr out, st)"
    "length (sent st) = 2" by (rule sample_run_outcome)
  have "unique_sessions sample_run_input" by (simp add: unique_sessions_def sample_run_input_def)
  from sessions_are_extended [OF run(1) this] run show ?thesis by blast
qed

lemma run_returns_witness: "\<exists>r st. runCouncil sample_run_env sample_run_input False None = Some (r, st)"
  by (rule run_returns [of _ 0 2]) (simp add: settles_def sample_run_env_def sample_host_def)

end
