(* ===== verification/Round_Driver.thy ===== *)
theory Round_Driver
  imports Commit_Pipeline Execute_Turn
begin

text \<open>
  The round driver of the browser, \<open>src/src/orchestrator/discussion-orchestrator.ts\<close>: dispatching one
  turn, following it to its terminal event, handling the terminal, the single automatic retry,
  concluding a room, and the loop over a round.

  The state is the database, a log of what the driver did and the number of operations so far.
  Before each of its database operations \<open>oe_world\<close> lets other pages run transactions; the Host
  answers a call from the log.  A result is an exception or a value; \<open>None\<close> is a run that does not
  return.  The log also records each reading of the room's scheduling gate and each execution row
  written.  The instruction texts, the convergence vote and the skip note, which are written in
  Chinese, are parameters.
\<close>

section \<open>State and environment\<close>

datatype orch_error = TxError tx_error | JsError thrown

datatype orch_event =
    sent_execute string string string ContextSnapshot
  | sent_cancel string string
  | sent_follow string string nat
  | sent_getExecution string string
  | sent_ack AckRequest db
  | sent_health
  | sent_createScope string
  | sent_activateScope string
  | sent_closeScope string
  | sent_scopeStatus string
  | sent_takeover string string
  | read_gate string bool
  | wrote_anchor ModelExecution
  | asked_lock string

record drv =
  dv_db :: db
  dv_log :: "orch_event list"
  dv_tick :: nat
  dv_host :: "string option"
  dv_locked :: "string list"

type_synonym 'r host_reply = "orch_event list \<Rightarrow> thrown + 'r"

record CreatedScope =
  cr_scopeId :: string
  cr_controllerId :: string
  cr_leaseEpoch :: nat
  cr_hostInstanceId :: string

record orch_env =
  oe_world :: "nat \<Rightarrow> db \<Rightarrow> db"
  oe_tx :: "nat \<Rightarrow> tx_env"
  oe_uuid :: "nat \<Rightarrow> string"
  oe_now :: "nat \<Rightarrow> string"
  oe_sha :: "string \<Rightarrow> string"
  oe_execute :: "unit host_reply"
  oe_cancel :: "unit host_reply"
  oe_getExecution :: "(ExecutionState \<times> nat) host_reply"
  oe_connect :: "orch_event list \<Rightarrow> fetch_reply"
  oe_ack :: "orch_event list \<Rightarrow> AckRequest \<Rightarrow> AckReply"
  oe_health :: "string host_reply"
  oe_createScope :: "CreatedScope host_reply"
  oe_activateScope :: "unit host_reply"
  oe_closeScope :: "unit host_reply"
  oe_scopeStatus :: "(ScopeState \<times> (string \<times> ParticipantRuntimeState) list) host_reply"
  oe_takeover :: "nat host_reply"
  oe_tryLock :: "orch_event list \<Rightarrow> bool"
  oe_waitLock :: "orch_event list \<Rightarrow> bool"
  oe_hasLocks :: bool
  oe_profile :: "string \<Rightarrow> bool option"
  oe_decode :: decoder
  oe_instructionText :: "DiscussionMode \<Rightarrow> ResultKind \<Rightarrow> string \<Rightarrow> string"
  oe_suggests :: "string \<Rightarrow> bool"
  oe_skipText :: "nat \<Rightarrow> string \<Rightarrow> string"
  oe_message :: string

type_synonym 'a orch = "drv \<Rightarrow> ((orch_error + 'a) \<times> drv) option"

definition ret :: "'a \<Rightarrow> 'a orch" where
  "ret x st = Some (Inr x, st)"

definition throw :: "orch_error \<Rightarrow> 'a orch" where
  "throw e st = Some (Inl e, st)"

definition after :: "'a orch \<Rightarrow> ('a \<Rightarrow> 'b orch) \<Rightarrow> 'b orch" where
  "after m k st = Option.bind (m st) (\<lambda>(r, st'). case r of Inl e \<Rightarrow> Some (Inl e, st') | Inr x \<Rightarrow> k x st')"

text \<open>\<open>try { ... } catch\<close>: the exception as a value.\<close>

definition attempt :: "'a orch \<Rightarrow> (orch_error + 'a) orch" where
  "attempt m st = map_option (\<lambda>(r, st'). (Inr r, st')) (m st)"

lemma after_mono [partial_function_mono]:
  assumes "\<And>s. mono_option (\<lambda>f. B f s)" "\<And>x s. mono_option (\<lambda>f. C f x s)"
  shows "mono_option (\<lambda>f. after (B f) (C f) st)"
  unfolding after_def
proof (rule bind_mono [OF assms(1)])
  fix y
  show "mono_option (\<lambda>f. (\<lambda>(r, st'). case r of Inl e \<Rightarrow> Some (Inl e, st') | Inr x \<Rightarrow> C f x st') y)"
    using assms(2) by (cases y; cases "fst y") (simp_all add: monotoneI option.leq_refl)
qed

section \<open>Operations\<close>

text \<open>Other code runs before each operation on the database.\<close>

definition others :: "orch_env \<Rightarrow> drv \<Rightarrow> drv" where
  "others env st = st\<lparr>dv_db := oe_world env (dv_tick st) (dv_db st), dv_tick := Suc (dv_tick st)\<rparr>"

definition look :: "orch_env \<Rightarrow> (db \<Rightarrow> 'a) \<Rightarrow> 'a orch" where
  "look env f st = (let st' = others env st in Some (Inr (f (dv_db st')), st'))"

definition transact :: "orch_env \<Rightarrow> (tx_env \<Rightarrow> db \<Rightarrow> tx_error + db \<times> 'a) \<Rightarrow> 'a orch" where
  "transact env f st =
     (let st' = others env st
      in case f (oe_tx env (dv_tick st)) (dv_db st') of
           Inl e \<Rightarrow> Some (Inl (TxError e), st')
         | Inr (d, x) \<Rightarrow> Some (Inr x, st'\<lparr>dv_db := d\<rparr>))"

definition no_value :: "(tx_env \<Rightarrow> db \<Rightarrow> tx_error + db) \<Rightarrow> tx_env \<Rightarrow> db \<Rightarrow> tx_error + db \<times> unit" where
  "no_value f te d = map_sum id (\<lambda>d'. (d', ())) (f te d)"

definition jot :: "orch_event \<Rightarrow> unit orch" where
  "jot ev st = Some (Inr (), st\<lparr>dv_log := dv_log st @ [ev]\<rparr>)"

definition ask :: "'r host_reply \<Rightarrow> orch_event \<Rightarrow> 'r orch" where
  "ask reply ev st =
     Some (case reply (dv_log st) of Inl e \<Rightarrow> Inl (JsError e) | Inr x \<Rightarrow> Inr x, st\<lparr>dv_log := dv_log st @ [ev]\<rparr>)"

definition fresh_uuid :: "orch_env \<Rightarrow> string orch" where
  "fresh_uuid env st = Some (Inr (oe_uuid env (dv_tick st)), st\<lparr>dv_tick := Suc (dv_tick st)\<rparr>)"

definition fail_with :: "string \<Rightarrow> 'a orch" where
  "fail_with message = throw (JsError (OtherError message))"

fun error_message :: "orch_env \<Rightarrow> orch_error \<Rightarrow> string" where
  "error_message env (JsError e) = thrown_message e"
| "error_message env (TxError (TransactionError _ m)) = m"
| "error_message env (TxError ConstraintError) = oe_message env"

fun http_status :: "orch_error \<Rightarrow> nat option" where
  "http_status (JsError (RuntimeClientError s _ _)) = Some s"
| "http_status _ = None"

definition hostUnreachable :: "orch_error \<Rightarrow> bool" where
  "hostUnreachable error =
     (case error of
        JsError (RuntimeClientError s _ _) \<Rightarrow> s = 401
      | JsError (TypeError _) \<Rightarrow> True
      | _ \<Rightarrow> False)"

definition hostInstanceId :: "orch_env \<Rightarrow> string orch" where
  "hostInstanceId env st =
     (case dv_host st of
        Some h \<Rightarrow> ret h st
      | None \<Rightarrow> after (ask (oe_health env) sent_health) (\<lambda>h st'. ret h (st'\<lparr>dv_host := Some h\<rparr>)) st)"

definition errorOf :: "string \<Rightarrow> string \<Rightarrow> bool \<Rightarrow> ModelExecutionError" where
  "errorOf code message retryable =
     \<lparr>xe_code = code, xe_phase = ''stream'', xe_message = message, xe_retryable = retryable,
      xe_driverId = None, xe_limitMs = None\<rparr>"

definition PRE_DISPATCH_RETRY_MESSAGE :: string where
  "PRE_DISPATCH_RETRY_MESSAGE = ''pre-dispatch failure; retrying once with a new executionId''"

definition PRE_DISPATCH_PAUSED_MESSAGE :: string where
  "PRE_DISPATCH_PAUSED_MESSAGE = ''pre-dispatch failure; room scheduling paused before retry''"

section \<open>The controller's token\<close>

definition binding_token :: "RuntimeBinding \<Rightarrow> ControllerToken option" where
  "binding_token b =
     (case (bi_controllerId b, bi_leaseEpoch b) of
        (Some c, Some l) \<Rightarrow> if c = [] then None else Some \<lparr>ct_controllerId = c, ct_leaseEpoch = l\<rparr>
      | _ \<Rightarrow> None)"

definition tokenForRoom :: "orch_env \<Rightarrow> string \<Rightarrow> ControllerToken option orch" where
  "tokenForRoom env roomId = look env (\<lambda>d. Option.bind (activeBindingOf d roomId) binding_token)"

definition currentToken :: "orch_env \<Rightarrow> string \<Rightarrow> ControllerToken orch" where
  "currentToken env roomId =
     after (tokenForRoom env roomId) (\<lambda>token.
       case token of
         None \<Rightarrow> fail_with (''no active controller for room '' @ roomId)
       | Some t \<Rightarrow> ret t)"

text \<open>The text \<open>null\<close> is what an absent scope id becomes in a path.\<close>

definition scope_text :: "string option \<Rightarrow> string" where
  "scope_text s = (case s of None \<Rightarrow> ''null'' | Some t \<Rightarrow> t)"

definition cancelAbandonedExecution :: "orch_env \<Rightarrow> string \<Rightarrow> string \<Rightarrow> unit orch" where
  "cancelAbandonedExecution env scopeId executionId =
     after (attempt (ask (oe_cancel env) (sent_cancel scopeId executionId))) (\<lambda>_. ret ())"

definition fail_turn ::
  "orch_env \<Rightarrow> string \<Rightarrow> ControllerToken \<Rightarrow> ModelExecutionError \<Rightarrow> ModelExecutionState \<Rightarrow> bool \<Rightarrow> unit orch" where
  "fail_turn env executionId token error kind pause =
     after (transact env (\<lambda>te. failExecution te executionId token (\<lambda>_. error) kind pause)) (\<lambda>_. ret ())"

definition schedulingPaused :: "orch_env \<Rightarrow> string \<Rightarrow> bool orch" where
  "schedulingPaused env roomId =
     after (look env (\<lambda>d. case rooms d roomId of None \<Rightarrow> True | Some room \<Rightarrow> rm_runState room = room_paused)) (\<lambda>paused.
     after (jot (read_gate roomId paused)) (\<lambda>_. ret paused))"

section \<open>Notes on skipped participants\<close>

record TimedSkipAnnotation =
  sk_at :: string
  sk_item :: SnapshotItem

definition terminalExecutionStates :: "ModelExecution \<Rightarrow> bool" where
  "terminalExecutionStates e \<longleftrightarrow> mx_state e = mx_failed \<or> mx_state e = mx_discarded \<or> mx_state e = mx_interrupted"

text \<open>\<open>reduce\<close> to the latest execution, the first of several.\<close>

definition latest_execution :: "ModelExecution \<Rightarrow> ModelExecution list \<Rightarrow> ModelExecution" where
  "latest_execution = foldl (\<lambda>latest e. if mx_createdAt latest < mx_createdAt e then e else latest)"

definition slot_annotation ::
  "orch_env \<Rightarrow> DiscussionRound \<Rightarrow> ModelExecution list \<Rightarrow> Participant list \<Rightarrow> string \<Rightarrow> TimedSkipAnnotation list" where
  "slot_annotation env round execs parts participantId =
     (let slotExecutions = filter (\<lambda>e. mx_roundId e = rd_id round \<and> mx_participantId e = participantId
            \<and> mx_resultKind e = kind_message) execs
      in if list_ex (\<lambda>e. mx_state e = mx_committed) slotExecutions then []
         else case filter terminalExecutionStates slotExecutions of
           [] \<Rightarrow> []
         | e # rest \<Rightarrow>
             [\<lparr>sk_at = mx_createdAt (latest_execution e rest),
               sk_item = \<lparr>si_id = ''skip-'' @ rd_id round @ ''-'' @ participantId, si_role = role_user,
                 si_participantId = None,
                 si_content = oe_skipText env (rd_roundNumber round)
                   (case find (\<lambda>p. pa_id p = participantId) parts of Some p \<Rightarrow> pa_modelId p | None \<Rightarrow> ''unknown''),
                 si_sourceExecutionId = None\<rparr>\<rparr>])"

definition deriveSkipAnnotations ::
  "orch_env \<Rightarrow> DiscussionRound list \<Rightarrow> ModelExecution list \<Rightarrow> Participant list \<Rightarrow> TimedSkipAnnotation list" where
  "deriveSkipAnnotations env rds execs parts =
     concat (map (\<lambda>round. concat (map (slot_annotation env round execs parts)
       (take (rd_nextParticipantIndex round) (rd_participantOrder round)))) rds)"

definition timestampById :: "DiscussionMessage list \<Rightarrow> DiscussionSummary list \<Rightarrow> string \<Rightarrow> string option" where
  "timestampById ms ss =
     map_of (rev (map (\<lambda>m. (mg_id m, mg_createdAt m)) ms @ map (\<lambda>s. (su_id s, su_generatedAt s)) ss))"

fun weave :: "(string \<times> SnapshotItem) list \<Rightarrow> TimedSkipAnnotation list \<Rightarrow> SnapshotItem list" where
  "weave [] notes = map sk_item notes"
| "weave items [] = map snd items"
| "weave ((at, item) # items) (n # notes) =
     (if at < sk_at n \<or> (at = sk_at n \<and> si_id item \<le> si_id (sk_item n))
      then item # weave items (n # notes)
      else sk_item n # weave ((at, item) # items) notes)"

definition weaveSkipAnnotations ::
  "SnapshotItem list \<Rightarrow> (string \<Rightarrow> string option) \<Rightarrow> TimedSkipAnnotation list \<Rightarrow> SnapshotItem list" where
  "weaveSkipAnnotations projectionItems atById notes =
     weave (map (\<lambda>item. (case atById (si_id item) of Some at \<Rightarrow> at | None \<Rightarrow> [], item)) projectionItems)
       (sort_key (\<lambda>n. (sk_at n, si_id (sk_item n))) notes)"

section \<open>Dispatching a turn\<close>

datatype scheduling = honor_pause | explicit_conclude

text \<open>What \<open>handleTerminal\<close> leads to: the answer whether the loop goes on, or another turn, whose
  answer counts only for a retry.\<close>

datatype next_turn =
    finished bool
  | redispatch DiscussionRoom DiscussionRound string ResultKind "string option" bool

fun wireKindOf :: "ResultKind \<Rightarrow> InstructionKind" where
  "wireKindOf kind_focus = instruction_message"
| "wireKindOf kind_report = instruction_summary"
| "wireKindOf kind_message = instruction_message"
| "wireKindOf kind_summary = instruction_summary"

definition begin_tx :: "ModelExecution \<Rightarrow> ControllerToken \<Rightarrow> tx_env \<Rightarrow> db \<Rightarrow> tx_error + db" where
  "begin_tx execution token te d =
     (case mx_resultKind execution of
        kind_focus \<Rightarrow> beginFocusExecution execution token d
      | kind_report \<Rightarrow> beginReportExecution te execution token d
      | _ \<Rightarrow> beginExecution execution token d)"

text \<open>The items of the turn's snapshot: the shared projection with the notes on skipped participants.\<close>

definition turn_items :: "orch_env \<Rightarrow> DiscussionRoom \<Rightarrow> SnapshotItem list orch" where
  "turn_items env room =
     after (look env (\<lambda>d. room_messages d (rm_id room))) (\<lambda>messages.
     after (look env (\<lambda>d. room_summaries d (rm_id room))) (\<lambda>summaries.
     after (look env (\<lambda>d. rows_where (\<lambda>e. mx_roomId e = rm_id room) (db_executions d))) (\<lambda>roomExecutions.
       let projectionItems = sj_items (projectSharedContext (rm_topic room) (rm_background room) messages summaries)
       in if list_ex terminalExecutionStates roomExecutions then
            after (look env (\<lambda>d. rows_where (\<lambda>r. rd_roomId r = rm_id room) (db_rounds d))) (\<lambda>rounds.
            after (look env (\<lambda>d. rows_where (\<lambda>p. pa_roomId p = rm_id room) (db_participants d))) (\<lambda>roomParticipants.
              ret (weaveSkipAnnotations projectionItems (timestampById messages summaries)
                     (deriveSkipAnnotations env rounds roomExecutions roomParticipants))))
          else ret projectionItems)))"

definition new_execution ::
  "orch_env \<Rightarrow> DiscussionRoom \<Rightarrow> DiscussionRound \<Rightarrow> Participant \<Rightarrow> ResultKind \<Rightarrow> string \<Rightarrow> string option
   \<Rightarrow> ModelExecution orch" where
  "new_execution env room round participant resultKind txt retryOf =
     after (fresh_uuid env) (\<lambda>uuid st.
       ret (createModelExecution (oe_now env (dv_tick st))
         \<lparr>xf_executionId = uuid, xf_roomId = rm_id room, xf_roundId = rd_id round,
          xf_participantId = pa_id participant, xf_resultKind = resultKind,
          xf_requestedModel = pa_modelId participant, xf_contextRevision = rm_contextRevision room,
          xf_expectedRoomDigest = rm_contextDigest room,
          xf_participantSnapshotDigest = pa_snapshotDigest participant,
          xf_instructionDigest = computeInstructionDigest (oe_sha env) (wireKindOf resultKind) txt,
          xf_retryOfExecutionId = retryOf\<rparr>) st)"

text \<open>A pause that came in while the row was written: a report goes out all the same when it was asked
  for, or when its begin aborted the round.\<close>

definition paused_during_begin ::
  "orch_env \<Rightarrow> ModelExecution \<Rightarrow> ControllerToken \<Rightarrow> scheduling \<Rightarrow> string option \<Rightarrow> bool orch" where
  "paused_during_begin env execution token scheduling activeRoundBeforeBegin =
     after (case activeRoundBeforeBegin of
              Some r \<Rightarrow> if mx_resultKind execution = kind_report
                then look env (\<lambda>d. row_with (\<lambda>round. rd_phase round = phase_aborted) (rounds d r))
                else ret False
            | None \<Rightarrow> ret False) (\<lambda>abortedUnfinalizedRound.
     if mx_resultKind execution = kind_report \<and> (scheduling = explicit_conclude \<or> abortedUnfinalizedRound)
     then ret True
     else
       after (fail_turn env (mx_executionId execution) token
                (errorOf ''USER_CANCELLED'' ''room scheduling paused before dispatch'' False) mx_interrupted False) (\<lambda>_.
       ret False))"

text \<open>The begin transaction and the gate read after it; the answer is whether the turn may go out.\<close>

definition begin_turn_execution ::
  "orch_env \<Rightarrow> DiscussionRoom \<Rightarrow> ModelExecution \<Rightarrow> ControllerToken \<Rightarrow> scheduling \<Rightarrow> bool orch" where
  "begin_turn_execution env room execution token scheduling =
     after (look env (\<lambda>d. Option.bind (rooms d (rm_id room)) rm_activeRoundId)) (\<lambda>activeRoundBeforeBegin.
     after (transact env (no_value (begin_tx execution token))) (\<lambda>_.
     after (jot (wrote_anchor execution)) (\<lambda>_.
     after (schedulingPaused env (rm_id room)) (\<lambda>pausedDuringBegin.
     if \<not> pausedDuringBegin then ret True
     else paused_during_begin env execution token scheduling activeRoundBeforeBegin))))"

text \<open>The POST and the mark; the answer is whether the turn is running.\<close>

definition send_turn ::
  "orch_env \<Rightarrow> string \<Rightarrow> ModelExecution \<Rightarrow> ContextSnapshot \<Rightarrow> ControllerToken \<Rightarrow> bool orch" where
  "send_turn env scopeId execution snapshot token =
     after (attempt
       (after (ask (oe_execute env) (sent_execute scopeId (mx_executionId execution) (mx_participantId execution) snapshot)) (\<lambda>_.
        after (hostInstanceId env) (\<lambda>host.
        transact env (no_value (\<lambda>te. markExecutionDispatched te (mx_executionId execution) host scopeId dispatch_unknown))))))
     (\<lambda>sent. case sent of
         Inr _ \<Rightarrow> ret True
       | Inl error \<Rightarrow>
           after (cancelAbandonedExecution env scopeId (mx_executionId execution)) (\<lambda>_.
           after (fail_turn env (mx_executionId execution) token
                    (errorOf ''DISPATCH_FAILED'' (clip_string (error_message env error) 256) False) mx_failed True) (\<lambda>_.
           ret False)))"

section \<open>Following a turn\<close>

text \<open>One connection: \<open>EventStreamError\<close> counts as closed, other exceptions leave the driver.\<close>

definition follow_once :: "orch_env \<Rightarrow> string \<Rightarrow> string \<Rightarrow> nat \<Rightarrow> (FollowOutcome option) orch" where
  "follow_once env scopeId executionId resumeAt st =
     (let reply = oe_connect env (dv_log st)
      in after (jot (sent_follow scopeId executionId resumeAt)) (\<lambda>_.
         case followExecutionEvents (oe_decode env) resumeAt reply False of
           Inr outcome \<Rightarrow> ret (Some outcome)
         | Inl (EventStreamError _ _) \<Rightarrow> ret None
         | Inl StreamAborted \<Rightarrow> throw (JsError (AbortError (oe_message env)))
         | Inl EventRejected \<Rightarrow> fail_with (oe_message env)) st)"

text \<open>After a connection that brought no terminal: reconnect with the catch-up flag, or stop.\<close>

datatype close_step = go_reconnect bool | go_stop

definition check_status ::
  "orch_env \<Rightarrow> string \<Rightarrow> string \<Rightarrow> ControllerToken \<Rightarrow> ExecutionState \<times> nat \<Rightarrow> nat \<Rightarrow> bool \<Rightarrow> bool \<Rightarrow> nat \<Rightarrow> close_step orch" where
  "check_status env scopeId executionId token status consumed progressed catchUpSpent streamFailures =
     (if 2 \<le> streamFailures then
        after (if fst status = exec_running then cancelAbandonedExecution env scopeId executionId else ret ()) (\<lambda>_.
        after (fail_turn env executionId token (errorOf ''INTERRUPTED_UNKNOWN'' ''event stream failed before a terminal'' False)
                 mx_interrupted True) (\<lambda>_. ret go_stop))
      else case decideFollowAfterClose (Some \<lparr>fc_state = fst status, fc_lastSeq = int (snd status)\<rparr>)
             consumed progressed catchUpSpent of
          follow_reconnect spent \<Rightarrow> ret (go_reconnect spent)
        | _ \<Rightarrow>
            after (fail_turn env executionId token (errorOf ''INTERRUPTED_UNKNOWN''
                     ''event stream ended after the host reached a terminal state'' False) mx_interrupted True) (\<lambda>_. ret go_stop))"

text \<open>The \<open>catch\<close> around the status check, which also catches what a failing transaction throws;
  \<open>None\<close> is \<open>continue\<close> with the number of failures.\<close>

definition status_failed ::
  "orch_env \<Rightarrow> string \<Rightarrow> string \<Rightarrow> ControllerToken \<Rightarrow> orch_error \<Rightarrow> nat \<Rightarrow> nat option orch" where
  "status_failed env scopeId executionId token error failuresBefore =
     (if http_status error = Some 404 then
        after (fail_turn env executionId token (errorOf ''SAFE_INTERRUPTION'' ''host lost the execution before its terminal'' False)
                 mx_interrupted True) (\<lambda>_. ret None)
      else if failuresBefore + 1 < 2 then ret (Some (failuresBefore + 1))
      else
        after (cancelAbandonedExecution env scopeId executionId) (\<lambda>_.
        after (fail_turn env executionId token
                 (if hostUnreachable error then errorOf ''SAFE_INTERRUPTION'' ''host unreachable before its terminal'' False
                  else errorOf ''INTERRUPTED_UNKNOWN'' ''execution status failed before a terminal'' False)
                 mx_interrupted True) (\<lambda>_. ret None)))"

text \<open>After one connection: the loop's next counters, or \<open>None\<close> when the turn has been given up.\<close>

record follow_counters =
  fl_resumeAt :: nat
  fl_streamFailures :: nat
  fl_statusFailures :: nat
  fl_catchUpSpent :: bool

definition after_close ::
  "orch_env \<Rightarrow> string \<Rightarrow> string \<Rightarrow> ControllerToken \<Rightarrow> nat \<Rightarrow> bool \<Rightarrow> follow_counters \<Rightarrow> follow_counters option orch" where
  "after_close env scopeId executionId token lastSeq progressed c =
     (let c1 = c\<lparr>fl_resumeAt := lastSeq\<rparr>;
          continue = (\<lambda>c n. after n (\<lambda>failures. ret (map_option (\<lambda>k. c\<lparr>fl_statusFailures := k\<rparr>) failures)))
      in after (attempt (ask (oe_getExecution env) (sent_getExecution scopeId executionId))) (\<lambda>reply.
         case reply of
           Inl error \<Rightarrow> continue c1 (status_failed env scopeId executionId token error (fl_statusFailures c))
         | Inr status \<Rightarrow>
             after (attempt (check_status env scopeId executionId token status lastSeq progressed (fl_catchUpSpent c)
                      (fl_streamFailures c))) (\<lambda>step.
             case step of
               Inr (go_reconnect spent) \<Rightarrow> ret (Some (c1\<lparr>fl_catchUpSpent := spent, fl_statusFailures := 0\<rparr>))
             | Inr go_stop \<Rightarrow> ret None
             | Inl error \<Rightarrow> continue c1 (status_failed env scopeId executionId token error 0))))"

partial_function (option) driveTurnToTerminal ::
  "orch_env \<Rightarrow> string \<Rightarrow> string \<Rightarrow> ControllerToken \<Rightarrow> follow_counters \<Rightarrow> drv
   \<Rightarrow> ((orch_error + RuntimeEvent option) \<times> drv) option" where
  "driveTurnToTerminal env scopeId executionId token c st =
     after (follow_once env scopeId executionId (fl_resumeAt c)) (\<lambda>outcome.
       case outcome of
         Some (follow_terminal event) \<Rightarrow> ret (Some event)
       | None \<Rightarrow>
           after (after_close env scopeId executionId token (fl_resumeAt c) False
                    (c\<lparr>fl_streamFailures := fl_streamFailures c + 1\<rparr>)) (\<lambda>more.
           case more of None \<Rightarrow> ret None | Some c' \<Rightarrow> driveTurnToTerminal env scopeId executionId token c')
       | Some (follow_closed lastSeq) \<Rightarrow>
           after (after_close env scopeId executionId token lastSeq (fl_resumeAt c < lastSeq)
                    (c\<lparr>fl_streamFailures := 0\<rparr>)) (\<lambda>more.
           case more of None \<Rightarrow> ret None | Some c' \<Rightarrow> driveTurnToTerminal env scopeId executionId token c')
       | Some (follow_aborted lastSeq) \<Rightarrow>
           after (after_close env scopeId executionId token lastSeq (fl_resumeAt c < lastSeq)
                    (c\<lparr>fl_streamFailures := 0\<rparr>)) (\<lambda>more.
           case more of None \<Rightarrow> ret None | Some c' \<Rightarrow> driveTurnToTerminal env scopeId executionId token c')) st"

declare driveTurnToTerminal.simps [code]

section \<open>Handling a terminal event\<close>

definition pipeline_exception :: "pipeline_error \<Rightarrow> orch_error" where
  "pipeline_exception e =
     (case e of
        Thrown t \<Rightarrow> TxError t
      | UnknownExecution \<Rightarrow> JsError (OtherError ''unknown execution'')
      | VanishedExecution \<Rightarrow> JsError (TypeError ''execution is undefined''))"

text \<open>The commit pipeline with its four awaits.\<close>

definition run_pipeline ::
  "orch_env \<Rightarrow> CommitPipelineDeps \<Rightarrow> string \<Rightarrow> DriverEvent \<Rightarrow> CompletedHandling orch" where
  "run_pipeline env deps executionId event st =
     (case handleCompletedExecution (\<lambda>k. oe_tx env (dv_tick st + k)) (\<lambda>k. oe_world env (dv_tick st + k))
             (oe_ack env (dv_log st)) deps executionId event (dv_db st) of
        (r, d, acks) \<Rightarrow>
          Some (map_sum pipeline_exception id r,
            st\<lparr>dv_db := d, dv_tick := dv_tick st + 4, dv_log := dv_log st @ map (\<lambda>(q, seen). sent_ack q seen) acks\<rparr>))"

definition maybeStartConcluding :: "orch_env \<Rightarrow> string \<Rightarrow> string \<Rightarrow> string \<Rightarrow> next_turn orch" where
  "maybeStartConcluding env roomId roundId summary =
     after (look env (\<lambda>d. rooms d roomId)) (\<lambda>room.
       case room of
         None \<Rightarrow> ret (finished False)
       | Some freshRoom \<Rightarrow>
           if rm_status freshRoom = room_concluded then ret (finished False)
           else
             after (look env (\<lambda>d. rounds d roundId)) (\<lambda>anchor.
             case anchor of
               None \<Rightarrow> ret (finished False)
             | Some anchorRound \<Rightarrow>
                 if rd_phase anchorRound \<noteq> phase_completed then ret (finished False)
                 else
                   after (look env (\<lambda>d. length (rows_where (\<lambda>r. rd_roomId r = roomId \<and> rd_phase r = phase_completed) (db_rounds d)))) (\<lambda>completedRounds.
                   if completedRounds \<ge> 1 \<and> (oe_suggests env summary
                        \<or> (case rm_maxRounds freshRoom of None \<Rightarrow> False | Some m \<Rightarrow> m \<le> completedRounds))
                   then ret (redispatch freshRoom anchorRound (rm_facilitator freshRoom) kind_report None False)
                   else ret (finished False))))"

definition handle_completed ::
  "orch_env \<Rightarrow> DiscussionRoom \<Rightarrow> DiscussionRound \<Rightarrow> string \<Rightarrow> DriverEvent \<Rightarrow> ControllerToken \<Rightarrow> next_turn orch" where
  "handle_completed env room round executionId event token =
     after (look env (\<lambda>d. executions d executionId)) (\<lambda>row.
       case row of
         None \<Rightarrow> throw (JsError (TypeError ''execution is undefined''))
       | Some current \<Rightarrow>
           after (hostInstanceId env) (\<lambda>host.
           after (run_pipeline env \<lparr>dp_scopeId = scope_text (mx_executionScopeId current), dp_token = token,
                    dp_currentHostInstanceId = host\<rparr> executionId event) (\<lambda>result.
           case result of
             HandledDiscarded _ \<Rightarrow> ret (finished False)
           | _ \<Rightarrow>
               (case mx_resultKind current of
                  kind_report \<Rightarrow> ret (finished False)
                | kind_focus \<Rightarrow> ret (finished True)
                | kind_summary \<Rightarrow> maybeStartConcluding env (rm_id room) (rd_id round) (ev_output event)
                | kind_message \<Rightarrow> ret (finished True)))))"

fun expected_phase :: "ResultKind \<Rightarrow> RoundPhase" where
  "expected_phase kind_report = phase_completed"
| "expected_phase kind_summary = phase_summarizing"
| "expected_phase kind_message = phase_running"
| "expected_phase kind_focus = phase_running"

text \<open>The failure of a turn that never reached the driver: recorded, and then tried once more.\<close>

definition retry_turn ::
  "orch_env \<Rightarrow> DiscussionRoom \<Rightarrow> DiscussionRound \<Rightarrow> ModelExecution \<Rightarrow> string \<Rightarrow> ModelExecutionState \<Rightarrow> ControllerToken
   \<Rightarrow> next_turn orch" where
  "retry_turn env room round execution code kind token =
     after (transact env (\<lambda>te. failExecution te (mx_executionId execution) token
              (\<lambda>recordedRoom. errorOf code (if rm_runState recordedRoom = room_paused then PRE_DISPATCH_PAUSED_MESSAGE
                 else PRE_DISPATCH_RETRY_MESSAGE) True) kind False)) (\<lambda>recordedRoom.
     after (schedulingPaused env (rm_id room)) (\<lambda>blocked.
       if blocked then
         after (if rm_runState recordedRoom = room_paused then ret ()
                else transact env (no_value (\<lambda>te d. Inr (dropUnstartedRetryClaim te (mx_executionId execution) d)))) (\<lambda>_.
         ret (finished False))
       else
         after (look env (\<lambda>d. rounds d (rd_id round))) (\<lambda>retried.
         case retried of
           None \<Rightarrow> ret (finished False)
         | Some r \<Rightarrow>
             if rd_phase r \<noteq> expected_phase (mx_resultKind execution) then ret (finished False)
             else ret (redispatch room r (mx_participantId execution) (mx_resultKind execution)
                         (Some (mx_executionId execution)) True))))"

definition runtime_error :: "RuntimeError \<Rightarrow> bool \<Rightarrow> ModelExecutionError" where
  "runtime_error e retryable =
     \<lparr>xe_code = code_text (err_code e), xe_phase = phase_text (err_phase e), xe_message = err_message e,
      xe_retryable = retryable, xe_driverId = map_option driverId_text (err_driverId e),
      xe_limitMs = (case err_limitMs e of Some n \<Rightarrow> if n \<noteq> 0 then Some n else None | None \<Rightarrow> None)\<rparr>"

definition handle_ended ::
  "orch_env \<Rightarrow> DiscussionRoom \<Rightarrow> DiscussionRound \<Rightarrow> string \<Rightarrow> RuntimeEvent \<Rightarrow> ControllerToken \<Rightarrow> next_turn orch" where
  "handle_ended env room round executionId event token =
     after (look env (\<lambda>d. executions d executionId)) (\<lambda>row.
       case ev_body event of
         Interrupted reason dispatched tool \<Rightarrow>
           if reason = int_user_cancelled then
             after (transact env (\<lambda>te. discardExecution te executionId token outcome_user_cancelled (ev_seq event)
                      (Some (errorOf ''USER_CANCELLED'' ''cancelled by user'' False)))) (\<lambda>_. ret (finished False))
           else (case row of
               None \<Rightarrow> if dispatched = not_dispatched then throw (JsError (TypeError ''execution is undefined''))
                 else after (fail_turn env executionId token
                        (errorOf ''INTERRUPTED'' (''interrupted ('' @ interrupt_text reason @ '')'') False) mx_interrupted True)
                        (\<lambda>_. ret (finished False))
             | Some execution \<Rightarrow>
                 if dispatched = not_dispatched \<and> mx_retryOfExecutionId execution = None
                 then retry_turn env room round execution ''INTERRUPTED'' mx_interrupted token
                 else after (fail_turn env executionId token
                        (errorOf ''INTERRUPTED'' (''interrupted ('' @ interrupt_text reason @ '')'') False) mx_interrupted True)
                        (\<lambda>_. ret (finished False)))
       | Failed error dispatched tool retryable \<Rightarrow>
           (case row of
              None \<Rightarrow> if dispatched = not_dispatched \<and> retryable then throw (JsError (TypeError ''execution is undefined''))
                else after (fail_turn env executionId token (runtime_error error retryable) mx_failed True)
                       (\<lambda>_. ret (finished False))
            | Some execution \<Rightarrow>
                if dispatched = not_dispatched \<and> retryable \<and> mx_retryOfExecutionId execution = None
                then retry_turn env room round execution (code_text (err_code error)) mx_failed token
                else after (fail_turn env executionId token (runtime_error error retryable) mx_failed True)
                       (\<lambda>_. ret (finished False)))
       | _ \<Rightarrow> fail_with (''handleTerminal: unexpected non-terminal event ''))"

definition handleTerminal ::
  "orch_env \<Rightarrow> DiscussionRoom \<Rightarrow> DiscussionRound \<Rightarrow> string \<Rightarrow> RuntimeEvent \<Rightarrow> ControllerToken \<Rightarrow> next_turn orch" where
  "handleTerminal env room round executionId event token =
     (case ev_body event of
        Completed a b c e f g h i \<Rightarrow> handle_completed env room round executionId (ev_body event) token
      | _ \<Rightarrow> handle_ended env room round executionId event token)"

section \<open>A whole turn and the loop\<close>

text \<open>A fresh execution: begun here, sent to the Host; its id when it is running.\<close>

definition post_turn ::
  "orch_env \<Rightarrow> DiscussionRoom \<Rightarrow> DiscussionRound \<Rightarrow> Participant \<Rightarrow> ResultKind \<Rightarrow> string \<Rightarrow> string option \<Rightarrow> scheduling
   \<Rightarrow> ContextSnapshot \<Rightarrow> string \<Rightarrow> ControllerToken \<Rightarrow> string option orch" where
  "post_turn env room round participant resultKind txt retryOf scheduling snapshot scope token =
     after (new_execution env room round participant resultKind txt retryOf) (\<lambda>execution.
     after (begin_turn_execution env room execution token scheduling) (\<lambda>go.
     if \<not> go then ret None
     else
       after (send_turn env scope execution snapshot token) (\<lambda>running.
       ret (if running then Some (mx_executionId execution) else None))))"

definition gate_closed :: "orch_env \<Rightarrow> string \<Rightarrow> scheduling \<Rightarrow> bool orch" where
  "gate_closed env roomId scheduling = (if scheduling = explicit_conclude then ret False else schedulingPaused env roomId)"

definition dispatch_once ::
  "orch_env \<Rightarrow> DiscussionRoom \<Rightarrow> DiscussionRound \<Rightarrow> string \<Rightarrow> ResultKind \<Rightarrow> string option \<Rightarrow> scheduling \<Rightarrow> next_turn orch" where
  "dispatch_once env room round participantId resultKind retryOf scheduling =
     after (gate_closed env (rm_id room) scheduling) (\<lambda>paused.
     if paused then ret (finished False)
     else
       after (currentToken env (rm_id room)) (\<lambda>token.
       after (look env (\<lambda>d. participants d participantId)) (\<lambda>row.
       case row of
         None \<Rightarrow> fail_with (''unknown participant '' @ participantId)
       | Some participant \<Rightarrow>
           after (look env (\<lambda>d. Option.bind (activeBindingOf d (rm_id room)) bi_executionScopeId)) (\<lambda>scope.
           if scope = None \<or> scope = Some [] then fail_with ''no active scope''
           else
             after (turn_items env room) (\<lambda>items.
             let txt = oe_instructionText env (rm_mode room) resultKind (rm_targetOutput room)
             in case buildContextSnapshot (oe_sha env) room participant (wireKindOf resultKind) txt items of
                  None \<Rightarrow> fail_with (oe_message env)
                | Some snapshot \<Rightarrow>
                    after (gate_closed env (rm_id room) scheduling) (\<lambda>pausedAgain.
                    if pausedAgain then ret (finished False)
                    else
                      after (post_turn env room round participant resultKind txt retryOf scheduling snapshot (the scope) token) (\<lambda>posted.
                      case posted of
                        None \<Rightarrow> ret (finished False)
                      | Some executionId \<Rightarrow>
                          after (driveTurnToTerminal env (the scope) executionId token
                                   \<lparr>fl_resumeAt = 0, fl_streamFailures = 0, fl_statusFailures = 0, fl_catchUpSpent = False\<rparr>) (\<lambda>event.
                          case event of
                            None \<Rightarrow> ret (finished False)
                          | Some e \<Rightarrow> handleTerminal env room round executionId e token))))))))"

partial_function (option) dispatchTurn ::
  "orch_env \<Rightarrow> DiscussionRoom \<Rightarrow> DiscussionRound \<Rightarrow> string \<Rightarrow> ResultKind \<Rightarrow> string option \<Rightarrow> scheduling \<Rightarrow> drv
   \<Rightarrow> ((orch_error + bool) \<times> drv) option" where
  "dispatchTurn env room round participantId resultKind retryOf scheduling st =
     after (dispatch_once env room round participantId resultKind retryOf scheduling) (\<lambda>step.
       case step of
         finished proceed \<Rightarrow> ret proceed
       | redispatch room' round' participantId' kind' retryOf' counts \<Rightarrow>
           after (dispatchTurn env room' round' participantId' kind' retryOf' honor_pause)
             (\<lambda>proceed. ret (counts \<and> proceed))) st"

declare dispatchTurn.simps [code]

text \<open>What the loop does next, from the room and the round it reads.\<close>

datatype loop_step = loop_ends | loop_turn DiscussionRoom DiscussionRound "string option" ResultKind

definition loop_next :: "orch_env \<Rightarrow> string \<Rightarrow> loop_step orch" where
  "loop_next env roomId =
     after (look env (\<lambda>d. rooms d roomId)) (\<lambda>row.
       case row of
         None \<Rightarrow> ret loop_ends
       | Some room \<Rightarrow>
           (case (if rm_runState room = room_paused then None else rm_activeRoundId room) of
              None \<Rightarrow> ret loop_ends
            | Some r \<Rightarrow>
                if r = [] then ret loop_ends
                else
                  after (look env (\<lambda>d. rounds d r)) (\<lambda>found.
                  case found of
                    None \<Rightarrow> ret loop_ends
                  | Some round \<Rightarrow>
                      if rd_phase round = phase_running then
                        (if rd_focusMessageId round = Null
                         then ret (loop_turn room round (Some (rm_facilitator room)) kind_focus)
                         else ret (loop_turn room round (at_cursor round) kind_message))
                      else if rd_phase round = phase_summarizing
                        then ret (loop_turn room round (Some (rm_facilitator room)) kind_summary)
                      else ret loop_ends)))"

text \<open>A cursor behind the last slot names nobody: the turn gets past the gate and the token, and then
  the lookup of the participant is refused.\<close>

definition dispatch_nobody :: "orch_env \<Rightarrow> DiscussionRoom \<Rightarrow> unit orch" where
  "dispatch_nobody env room =
     after (schedulingPaused env (rm_id room)) (\<lambda>paused.
     if paused then ret ()
     else after (currentToken env (rm_id room)) (\<lambda>_. fail_with (oe_message env)))"

partial_function (option) runLoop :: "orch_env \<Rightarrow> string \<Rightarrow> drv \<Rightarrow> ((orch_error + unit) \<times> drv) option" where
  "runLoop env roomId st =
     after (loop_next env roomId) (\<lambda>step.
       case step of
         loop_ends \<Rightarrow> ret ()
       | loop_turn room round participant kind \<Rightarrow>
           (case participant of
              None \<Rightarrow> dispatch_nobody env room
            | Some p \<Rightarrow>
                after (dispatchTurn env room round p kind None honor_pause) (\<lambda>proceed st'.
                if proceed \<and> kind \<noteq> kind_summary then runLoop env roomId st' else ret () st'))) st"

declare runLoop.simps [code]

end
