(* ===== verification/Room_Control.thy ===== *)
theory Room_Control
  imports Round_Driver
begin

text \<open>
  The rest of \<open>src/src/orchestrator/discussion-orchestrator.ts\<close> on the state of \<open>Round_Driver\<close>:
  control of a room (the page's lock, the Host's fencing), the runtime scope with its compensation,
  starting a round, the user's actions and the startup audit.  \<open>perform\<close> is the interface the
  orchestrator returns to the page.  One call runs at a time, so the per-room chains that order two
  of them (\<open>serialRoom\<close>) are not modelled, nor are the display callbacks.
\<close>

section \<open>Reading the room\<close>

definition latestBinding :: "db \<Rightarrow> string \<Rightarrow> RuntimeBinding option" where
  "latestBinding d roomId =
     foldl (\<lambda>best b. case best of None \<Rightarrow> Some b | Some c \<Rightarrow> if bi_createdAt b < bi_createdAt c then best else Some b) None
       (rows_where (\<lambda>b. bi_roomId b = roomId \<and> bi_state b \<noteq> binding_closed) (db_bindings d))"

definition has_scope :: "RuntimeBinding \<Rightarrow> bool" where
  "has_scope b \<longleftrightarrow> bi_executionScopeId b \<noteq> None \<and> bi_executionScopeId b \<noteq> Some []"

definition scoped_binding :: "db \<Rightarrow> string \<Rightarrow> RuntimeBinding option" where
  "scoped_binding d roomId =
     first_where (\<lambda>b. bi_roomId b = roomId \<and> bi_state b = binding_active \<and> has_scope b) (db_bindings d)"

text \<open>The active binding with a scope, or else the latest one.\<close>

definition preferred_binding :: "orch_env \<Rightarrow> string \<Rightarrow> (RuntimeBinding option \<times> RuntimeBinding option) orch" where
  "preferred_binding env roomId =
     after (look env (\<lambda>d. latestBinding d roomId)) (\<lambda>latest.
     after (look env (\<lambda>d. scoped_binding d roomId)) (\<lambda>active.
     ret (latest, case active of Some b \<Rightarrow> Some b | None \<Rightarrow> latest)))"

definition activeParticipants :: "orch_env \<Rightarrow> string \<Rightarrow> Participant list orch" where
  "activeParticipants env roomId =
     look env (\<lambda>d. sort_key pa_createdAt
       (rows_where (\<lambda>p. pa_roomId p = roomId \<and> pa_state p = participant_active) (db_participants d)))"

definition unfinished_in :: "string \<Rightarrow> db \<Rightarrow> ModelExecution list" where
  "unfinished_in roomId d = rows_where (\<lambda>e. mx_roomId e = roomId \<and> live_state (mx_state e)) (db_executions d)"

text \<open>A \<open>for\<close> loop over rows.\<close>

fun each :: "('a \<Rightarrow> unit orch) \<Rightarrow> 'a list \<Rightarrow> unit orch" where
  "each f [] = ret ()"
| "each f (x # xs) = after (f x) (\<lambda>_. each f xs)"

section \<open>Executions lost with the Host\<close>

definition lost_kind :: "ModelExecution \<Rightarrow> ModelExecutionState" where
  "lost_kind execution = (if mx_state execution = mx_prepared then mx_failed else mx_interrupted)"

definition stale_controller :: "orch_error \<Rightarrow> bool" where
  "stale_controller e \<longleftrightarrow> (case e of TxError (TransactionError code m) \<Rightarrow> code = ''STALE_CONTROLLER'' | _ \<Rightarrow> False)"

definition fail_unbound ::
  "orch_env \<Rightarrow> ModelExecution \<Rightarrow> ModelExecutionError \<Rightarrow> UnboundFailureResult orch" where
  "fail_unbound env execution error =
     transact env (\<lambda>te. failUnboundExecution te (mx_executionId execution) error (lost_kind execution) True)"

definition failLostExecution ::
  "orch_env \<Rightarrow> ModelExecution \<Rightarrow> ControllerToken option \<Rightarrow> ModelExecutionError \<Rightarrow> UnboundFailureResult orch" where
  "failLostExecution env execution token error =
     (case token of
        None \<Rightarrow> fail_unbound env execution error
      | Some tok \<Rightarrow>
          after (attempt (fail_turn env (mx_executionId execution) tok error (lost_kind execution) True)) (\<lambda>first.
          case first of
            Inr _ \<Rightarrow> ret settled
          | Inl caught \<Rightarrow>
              if \<not> stale_controller caught then throw caught
              else
                after (tokenForRoom env (mx_roomId execution)) (\<lambda>fresh.
                case fresh of
                  None \<Rightarrow> fail_unbound env execution error
                | Some now \<Rightarrow>
                    if now = tok then fail_unbound env execution error
                    else
                      after (attempt (fail_turn env (mx_executionId execution) now error (lost_kind execution) True)) (\<lambda>second.
                      case second of
                        Inr _ \<Rightarrow> ret settled
                      | Inl again \<Rightarrow>
                          if \<not> stale_controller again then throw again else fail_unbound env execution error))))"

definition lostHostError :: ModelExecutionError where
  "lostHostError = errorOf ''SAFE_INTERRUPTION'' ''host restarted or terminal lost before commit'' False"

definition interruptRoomLostWithHost :: "orch_env \<Rightarrow> string \<Rightarrow> ControllerToken \<Rightarrow> unit orch" where
  "interruptRoomLostWithHost env roomId token =
     after (look env (unfinished_in roomId)) (\<lambda>unfinished.
     each (\<lambda>execution. after (failLostExecution env execution (Some token) lostHostError) (\<lambda>_. ret ())) unfinished)"

section \<open>Control of a room\<close>

definition close_binding :: "orch_env \<Rightarrow> string \<Rightarrow> unit orch" where
  "close_binding env bindingId = transact env (no_value (\<lambda>te. markBindingClosed te bindingId))"

definition takeOverBinding :: "orch_env \<Rightarrow> string \<Rightarrow> RuntimeBinding \<Rightarrow> unit orch" where
  "takeOverBinding env roomId binding =
     (if \<not> has_scope binding then ret ()
      else
        after (attempt
          (after (fresh_uuid env) (\<lambda>controllerId.
           after (ask (oe_takeover env) (sent_takeover (scope_text (bi_executionScopeId binding)) controllerId)) (\<lambda>epoch.
           transact env (no_value (\<lambda>te. takeoverRuntimeBinding te (bi_id binding) controllerId epoch)))))) (\<lambda>taken.
        case taken of
          Inr _ \<Rightarrow> ret ()
        | Inl error \<Rightarrow>
            if http_status error = Some 404 then
              after (case binding_token binding of
                       Some token \<Rightarrow> interruptRoomLostWithHost env roomId token
                     | None \<Rightarrow> ret ()) (\<lambda>_.
              close_binding env (bi_id binding))
            else throw error))"

text \<open>The room's lock; \<open>False\<close> is waiting given up.\<close>

definition acquire_lock :: "orch_env \<Rightarrow> string \<Rightarrow> bool orch" where
  "acquire_lock env roomId st =
     (if \<not> oe_hasLocks env then ret True st
      else if oe_tryLock env (dv_log st) then after (jot (asked_lock roomId)) (\<lambda>_. ret True) st
      else after (jot (asked_lock roomId)) (\<lambda>_. ret (oe_waitLock env (dv_log st))) st)"

text \<open>The handle the page gets is the entry of the room in \<open>dv_locked\<close>; \<open>False\<close> is \<open>null\<close>.\<close>

definition hold_lock :: "string \<Rightarrow> unit orch" where
  "hold_lock roomId st = ret () (st\<lparr>dv_locked := roomId # dv_locked st\<rparr>)"

definition controlRoom :: "orch_env \<Rightarrow> string \<Rightarrow> bool orch" where
  "controlRoom env roomId st =
     (if roomId \<in> set (dv_locked st) then ret True st
      else
        after (acquire_lock env roomId) (\<lambda>handle.
        if \<not> handle then ret False
        else
          after (hold_lock roomId) (\<lambda>_.
          after (preferred_binding env roomId) (\<lambda>(latest, preferred).
          case preferred of
            Some binding \<Rightarrow>
              if bi_state binding = binding_active \<and> has_scope binding
              then after (takeOverBinding env roomId binding) (\<lambda>_. ret True)
              else ret True
          | None \<Rightarrow> ret True))) st)"

section \<open>The runtime scope of a room\<close>

text \<open>An active binding always has both parts of its token.\<close>

definition cast_token :: "RuntimeBinding \<Rightarrow> ControllerToken" where
  "cast_token b =
     \<lparr>ct_controllerId = scope_text (bi_controllerId b),
      ct_leaseEpoch = (case bi_leaseEpoch b of Some l \<Rightarrow> l | None \<Rightarrow> 0)\<rparr>"

text \<open>The scope that is still active on the Host, if the binding has one.\<close>

definition reuse_scope :: "orch_env \<Rightarrow> RuntimeBinding \<Rightarrow> bool orch" where
  "reuse_scope env existing =
     after (attempt
       (after (ask (oe_scopeStatus env) (sent_scopeStatus (scope_text (bi_executionScopeId existing)))) (\<lambda>status.
        if fst status = scope_active then ret True
        else after (close_binding env (bi_id existing)) (\<lambda>_. ret False)))) (\<lambda>answer.
     case answer of
       Inr reuse \<Rightarrow> ret reuse
     | Inl error \<Rightarrow>
         if http_status error = Some 404 then after (close_binding env (bi_id existing)) (\<lambda>_. ret False)
         else throw error)"

text \<open>The profiles of the participants, which the Host gets with the scope: one may be missing or
  malformed.\<close>

definition participant_specs :: "orch_env \<Rightarrow> Participant list \<Rightarrow> unit orch" where
  "participant_specs env ps =
     each (\<lambda>p. case oe_profile env (pa_executionProfileId p) of
                None \<Rightarrow> fail_with (''missing execution profile '' @ pa_executionProfileId p)
              | Some ok \<Rightarrow> if ok then ret () else fail_with (oe_message env)) ps"

text \<open>Create on the Host, activate there, then here; a scope that was created is closed again when
  one of the later steps fails.\<close>

definition create_scope :: "orch_env \<Rightarrow> string \<Rightarrow> string \<Rightarrow> RuntimeBinding orch" where
  "create_scope env bindingId scopeRequestId =
     after (ask (oe_createScope env) (sent_createScope scopeRequestId)) (\<lambda>created.
     after (attempt
       (after (ask (oe_activateScope env) (sent_activateScope (cr_scopeId created))) (\<lambda>_.
        transact env (\<lambda>te. activateRuntimeBinding te bindingId (cr_hostInstanceId created) (cr_scopeId created)
                       (cr_controllerId created) (cr_leaseEpoch created))))) (\<lambda>result.
     case result of
       Inr binding \<Rightarrow> ret binding
     | Inl error \<Rightarrow>
         after (attempt (ask (oe_closeScope env) (sent_closeScope (cr_scopeId created)))) (\<lambda>_. throw error)))"

definition build_scope :: "orch_env \<Rightarrow> string \<Rightarrow> Participant list \<Rightarrow> RuntimeBinding option \<Rightarrow> (RuntimeBinding \<times> ControllerToken) orch" where
  "build_scope env roomId ps latest =
     after (case latest of
              Some b \<Rightarrow> if bi_state b = binding_creating then ret b
                else after (fresh_uuid env) (\<lambda>request. transact env (\<lambda>te. createRuntimeBindingTx te roomId request))
            | None \<Rightarrow> after (fresh_uuid env) (\<lambda>request. transact env (\<lambda>te. createRuntimeBindingTx te roomId request))) (\<lambda>binding.
     after (participant_specs env ps) (\<lambda>_.
     after (create_scope env (bi_id binding) (bi_scopeRequestId binding)) (\<lambda>activated.
     ret (activated, cast_token activated))))"

definition ensureScope :: "orch_env \<Rightarrow> string \<Rightarrow> Participant list \<Rightarrow> (RuntimeBinding \<times> ControllerToken) orch" where
  "ensureScope env roomId ps =
     after (preferred_binding env roomId) (\<lambda>(latest, existing).
     case existing of
       None \<Rightarrow> build_scope env roomId ps latest
     | Some b \<Rightarrow>
         if bi_state b = binding_active \<and> has_scope b then
           after (reuse_scope env b) (\<lambda>reuse.
           if reuse then ret (b, cast_token b) else build_scope env roomId ps latest)
         else build_scope env roomId ps latest)"

section \<open>Starting a round\<close>

definition pause_prewarm ::
  "orch_env \<Rightarrow> string \<Rightarrow> string \<Rightarrow> ControllerToken \<Rightarrow> string option \<Rightarrow> string \<Rightarrow> unit orch" where
  "pause_prewarm env roomId roundId token participantId detail =
     transact env (no_value (\<lambda>te. pauseRound roomId roundId token
       \<lparr>pr_code = pause_prewarm_failed, pr_participantId = participantId, pr_executionId = None, pr_detail = Some detail\<rparr>))"

definition probe_ready :: "orch_env \<Rightarrow> string \<Rightarrow> string \<Rightarrow> RuntimeBinding \<Rightarrow> ControllerToken \<Rightarrow> bool orch" where
  "probe_ready env roomId roundId binding token =
     after (ask (oe_scopeStatus env) (sent_scopeStatus (scope_text (bi_executionScopeId binding)))) (\<lambda>status.
       case filter (\<lambda>p. snd p \<noteq> rt_ready) (snd status) of
         [] \<Rightarrow> ret True
       | p # rest \<Rightarrow>
           after (pause_prewarm env roomId roundId token (Some (fst p))
                    (show_nat (length (p # rest)) @ '' participant(s) not ready'')) (\<lambda>_. ret False))"

text \<open>The token to go on with, or \<open>None\<close> when the round was paused.\<close>

definition prewarm ::
  "orch_env \<Rightarrow> string \<Rightarrow> string \<Rightarrow> Participant list \<Rightarrow> ControllerToken \<Rightarrow> ControllerToken option orch" where
  "prewarm env roomId roundId ps token =
     (let paused = (\<lambda>t error. after (pause_prewarm env roomId roundId t None (clip_string (error_message env error) 256))
                                (\<lambda>_. ret None))
      in after (attempt (ensureScope env roomId ps)) (\<lambda>scope.
         case scope of
           Inl error \<Rightarrow> paused token error
         | Inr (binding, t) \<Rightarrow>
             after (attempt (probe_ready env roomId roundId binding t)) (\<lambda>answer.
             case answer of
               Inl error \<Rightarrow> paused t error
             | Inr ready \<Rightarrow> ret (if ready then Some t else None))))"

definition unknown_room :: "string \<Rightarrow> 'a orch" where
  "unknown_room roomId = fail_with (''unknown room '' @ roomId)"

text \<open>The token for a new round: that of the active binding, or of the scope that is made now.\<close>

definition starting_token :: "orch_env \<Rightarrow> string \<Rightarrow> Participant list \<Rightarrow> ControllerToken orch" where
  "starting_token env roomId ps =
     after (tokenForRoom env roomId) (\<lambda>token.
     case token of
       Some t \<Rightarrow> ret t
     | None \<Rightarrow>
         after (controlRoom env roomId) (\<lambda>handle.
         if \<not> handle then currentToken env roomId
         else after (ensureScope env roomId ps) (\<lambda>scope. ret (snd scope))))"

definition startRoundPrepared :: "orch_env \<Rightarrow> string \<Rightarrow> string option \<Rightarrow> DiscussionRound option orch" where
  "startRoundPrepared env roomId seedContent =
     after (look env (\<lambda>d. rooms d roomId)) (\<lambda>row.
     case row of
       None \<Rightarrow> unknown_room roomId
     | Some room \<Rightarrow>
         if rm_status room = room_concluded
         then throw (TxError (TransactionError ''ROOM_CONCLUDED'' ''room is concluded; duplicate the room to continue''))
         else
           after (activeParticipants env roomId) (\<lambda>ps.
           if ps = [] then fail_with ''room has no active participants''
           else
             after (starting_token env roomId ps) (\<lambda>token.
             after (transact env (\<lambda>te. createRound te roomId token (map pa_id ps))) (\<lambda>round.
             after (case seedContent of
                      None \<Rightarrow> ret ()
                    | Some content \<Rightarrow>
                        after (transact env (\<lambda>te. appendUserMessage te roomId (rd_id round) token content)) (\<lambda>_. ret ())) (\<lambda>_.
             after (transact env (no_value (\<lambda>te. transitionRound roomId (rd_id round) token phase_prewarming))) (\<lambda>_.
             after (prewarm env roomId (rd_id round) ps token) (\<lambda>warm.
             case warm of
               None \<Rightarrow> look env (\<lambda>d. rounds d (rd_id round))
             | Some t \<Rightarrow>
                 after (transact env (no_value (\<lambda>te. transitionRound roomId (rd_id round) t phase_running))) (\<lambda>_.
                 after (runLoop env roomId) (\<lambda>_.
                 look env (\<lambda>d. rounds d (rd_id round)))))))))))"

definition startRoundWithUserMessage :: "orch_env \<Rightarrow> string \<Rightarrow> string \<Rightarrow> DiscussionRound option orch" where
  "startRoundWithUserMessage env roomId content =
     (if js_trim content = [] then fail_with ''startRoundWithUserMessage: content must be non-empty''
      else startRoundPrepared env roomId (Some content))"

section \<open>The user's actions\<close>

text \<open>\<open>null\<close> and the empty string name no round.\<close>

definition named :: "string option \<Rightarrow> string option" where
  "named x = (case x of Some r \<Rightarrow> if r = [] then None else Some r | None \<Rightarrow> None)"

definition cancel_target :: "db \<Rightarrow> string \<Rightarrow> string \<Rightarrow> RuntimeBinding option" where
  "cancel_target d roomId scopeId =
     first_where (\<lambda>b. bi_roomId b = roomId \<and> bi_executionScopeId b = Some scopeId \<and> bi_controllerId b \<noteq> None
       \<and> bi_leaseEpoch b \<noteq> None) (db_bindings d)"

text \<open>The scope to cancel in; the token the request carries is that of the scope's owner.\<close>

definition cancelTargetForActiveExecution :: "orch_env \<Rightarrow> string \<Rightarrow> string \<Rightarrow> (string \<times> ControllerToken) option orch" where
  "cancelTargetForActiveExecution env roomId executionId =
     after (look env (\<lambda>d. named (Option.bind (executions d executionId) mx_executionScopeId))) (\<lambda>scope.
     case scope of
       None \<Rightarrow> ret None
     | Some scopeId \<Rightarrow>
         after (look env (\<lambda>d. cancel_target d roomId scopeId)) (\<lambda>owner.
         ret (map_option (\<lambda>token. (scopeId, token)) (Option.bind owner binding_token))))"

text \<open>The execution in flight in the room's active round.\<close>

definition execution_in_flight :: "orch_env \<Rightarrow> string \<Rightarrow> string option orch" where
  "execution_in_flight env roomId =
     after (look env (\<lambda>d. named (Option.bind (rooms d roomId) rm_activeRoundId))) (\<lambda>active.
     case active of
       None \<Rightarrow> ret None
     | Some r \<Rightarrow> look env (\<lambda>d. named (Option.bind (rounds d r) rd_activeExecutionId)))"

definition pauseRoom :: "orch_env \<Rightarrow> string \<Rightarrow> unit orch" where
  "pauseRoom env roomId =
     after (currentToken env roomId) (\<lambda>token.
     after (transact env (no_value (\<lambda>te. setRoomRunState te roomId token room_paused))) (\<lambda>_.
     after (execution_in_flight env roomId) (\<lambda>inflight.
     case inflight of
       None \<Rightarrow> ret ()
     | Some x \<Rightarrow>
         after (cancelTargetForActiveExecution env roomId x) (\<lambda>target.
         case target of
           None \<Rightarrow> ret ()
         | Some (scopeId, t) \<Rightarrow> cancelAbandonedExecution env scopeId x))))"

definition resumeRoom :: "orch_env \<Rightarrow> string \<Rightarrow> unit orch" where
  "resumeRoom env roomId =
     after (currentToken env roomId) (\<lambda>token.
     after (transact env (no_value (\<lambda>te. setRoomRunState te roomId token room_running))) (\<lambda>_.
     runLoop env roomId))"

definition cancelActiveExecution :: "orch_env \<Rightarrow> string \<Rightarrow> unit orch" where
  "cancelActiveExecution env roomId =
     after (currentToken env roomId) (\<lambda>_.
     after (execution_in_flight env roomId) (\<lambda>inflight.
     case inflight of
       None \<Rightarrow> ret ()
     | Some x \<Rightarrow>
         after (cancelTargetForActiveExecution env roomId x) (\<lambda>target.
         case target of
           None \<Rightarrow> ret ()
         | Some (scopeId, t) \<Rightarrow> ask (oe_cancel env) (sent_cancel scopeId x))))"

definition sendUserMessage :: "orch_env \<Rightarrow> string \<Rightarrow> string \<Rightarrow> DiscussionMessage orch" where
  "sendUserMessage env roomId content =
     after (currentToken env roomId) (\<lambda>token.
     after (look env (\<lambda>d. named (Option.bind (rooms d roomId) rm_activeRoundId))) (\<lambda>active.
     case active of
       None \<Rightarrow> fail_with (''room '' @ roomId @ '' has no active round for a user message'')
     | Some r \<Rightarrow> transact env (\<lambda>te. appendUserMessage te roomId r token content)))"

definition abortPausedRound :: "orch_env \<Rightarrow> string \<Rightarrow> unit orch" where
  "abortPausedRound env roomId =
     after (currentToken env roomId) (\<lambda>token.
     after (look env (\<lambda>d. named (Option.bind (rooms d roomId) rm_activeRoundId))) (\<lambda>active.
     case active of
       None \<Rightarrow> ret ()
     | Some r \<Rightarrow>
         after (look env (\<lambda>d. rounds d r)) (\<lambda>found.
         case found of
           None \<Rightarrow> fail_with ''only a paused round can be ended''
         | Some round \<Rightarrow>
             if rd_phase round \<noteq> phase_paused then fail_with ''only a paused round can be ended''
             else transact env (no_value (\<lambda>te. abortRound te roomId (rd_id round) token)))))"

text \<open>The room that is open for scheduling and its paused round, or the refusal.\<close>

definition paused_round :: "orch_env \<Rightarrow> string \<Rightarrow> string \<Rightarrow> (DiscussionRoom \<times> DiscussionRound) orch" where
  "paused_round env roomId refusal =
     after (look env (\<lambda>d. rooms d roomId)) (\<lambda>row.
     case row of
       None \<Rightarrow> unknown_room roomId
     | Some room \<Rightarrow>
         if rm_runState room = room_paused then fail_with ''room scheduling is paused; resume first''
         else
           after (case named (rm_activeRoundId room) of
                    None \<Rightarrow> ret None
                  | Some r \<Rightarrow> look env (\<lambda>d. rounds d r)) (\<lambda>found.
           case found of
             None \<Rightarrow> fail_with refusal
           | Some round \<Rightarrow> if rd_phase round \<noteq> phase_paused then fail_with refusal else ret (room, round)))"

definition retryFailedParticipant :: "orch_env \<Rightarrow> string \<Rightarrow> unit orch" where
  "retryFailedParticipant env roomId =
     after (currentToken env roomId) (\<lambda>token.
     after (paused_round env roomId ''only a paused round can be retried'') (\<lambda>(room, round).
     case named (Option.bind (rd_pauseReason round) pr_executionId) of
       None \<Rightarrow> fail_with ''pause has no failed execution to retry''
     | Some x \<Rightarrow>
         after (look env (\<lambda>d. executions d x)) (\<lambda>row.
         case row of
           None \<Rightarrow> fail_with ''pause reason does not point at a terminal failure''
         | Some failed \<Rightarrow>
             if \<not> terminalExecutionStates failed then fail_with ''pause reason does not point at a terminal failure''
             else
               after (transact env (no_value (\<lambda>te. resumeRound roomId (rd_id round) token))) (\<lambda>_.
               after (look env (\<lambda>d. rounds d (rd_id round))) (\<lambda>freshRound.
               after (look env (\<lambda>d. rooms d roomId)) (\<lambda>freshRoom.
               case (freshRoom, freshRound) of
                 (Some rm, Some rd) \<Rightarrow>
                   after (dispatchTurn env rm rd (mx_participantId failed) (mx_resultKind failed)
                            (Some (mx_executionId failed)) honor_pause) (\<lambda>proceed.
                   if proceed then runLoop env roomId else ret ())
               | _ \<Rightarrow> throw (JsError (TypeError (oe_message env)))))))))"

definition skipFailedParticipant :: "orch_env \<Rightarrow> string \<Rightarrow> unit orch" where
  "skipFailedParticipant env roomId =
     after (currentToken env roomId) (\<lambda>token.
     after (paused_round env roomId ''only a paused round can skip a participant'') (\<lambda>(room, round).
     after (transact env (\<lambda>te d. map_sum id (\<lambda>(d', r). (d', ())) (skipParticipant te roomId (rd_id round) token d))) (\<lambda>_.
     runLoop env roomId)))"

definition is_rebase :: "RoundPauseReason option \<Rightarrow> bool" where
  "is_rebase reason \<longleftrightarrow> (case reason of
      None \<Rightarrow> False
    | Some r \<Rightarrow> pr_code r = pause_needs_rebase
        \<or> (case pr_detail r of None \<Rightarrow> False | Some detail \<Rightarrow> str_includes detail ''session reconciliation:''))"

definition rotateScope :: "orch_env \<Rightarrow> string \<Rightarrow> DiscussionRound option orch" where
  "rotateScope env roomId =
     after (paused_round env roomId ''rotateScope: no paused round'') (\<lambda>(room, round).
     if \<not> is_rebase (rd_pauseReason round) then fail_with ''rotateScope: pause is not a needs_rebase rotation''
     else
       after (abortPausedRound env roomId) (\<lambda>_.
       after (preferred_binding env roomId) (\<lambda>(latest, preferred).
       after (case preferred of
                None \<Rightarrow> ret ()
              | Some b \<Rightarrow>
                  if has_scope b \<and> binding_token b \<noteq> None then
                    after (attempt (ask (oe_closeScope env) (sent_closeScope (scope_text (bi_executionScopeId b))))) (\<lambda>_.
                    close_binding env (bi_id b))
                  else ret ()) (\<lambda>_.
       startRoundPrepared env roomId None))))"

text \<open>Guards and closing in one transaction; the Host is told after it.\<close>

definition release_refusal :: "string \<Rightarrow> db \<Rightarrow> string" where
  "release_refusal roomId d =
     (if live_executions d roomId \<noteq> [] then ''cannot release while an execution is running''
      else case Option.bind (Option.bind (rooms d roomId) rm_activeRoundId) (rounds d) of
             Some round \<Rightarrow>
               if rd_phase round = phase_prewarming \<or> rd_phase round = phase_running \<or> rd_phase round = phase_summarizing
               then ''cannot release while a round is in flight''
               else ''cannot release: an unresolved round remains - recover or end it first''
           | None \<Rightarrow> [])"

definition release_guarded :: "orch_env \<Rightarrow> string \<Rightarrow> string option orch" where
  "release_guarded env roomId st =
     (let st' = others env st; d = dv_db st'
      in case releaseRuntime_tx (oe_tx env (dv_tick st)) roomId d of
           None \<Rightarrow> Some (Inl (JsError (OtherError (release_refusal roomId d))), st')
         | Some d' \<Rightarrow> Some (Inr (Option.bind (scoped_binding d roomId) bi_executionScopeId), st'\<lparr>dv_db := d'\<rparr>))"

definition releaseRuntime :: "orch_env \<Rightarrow> string \<Rightarrow> unit orch" where
  "releaseRuntime env roomId =
     after (look env (\<lambda>d. rooms d roomId)) (\<lambda>row.
     case row of
       None \<Rightarrow> unknown_room roomId
     | Some room \<Rightarrow>
         after (release_guarded env roomId) (\<lambda>scopeClose.
         case scopeClose of
           None \<Rightarrow> ret ()
         | Some scopeId \<Rightarrow> after (attempt (ask (oe_closeScope env) (sent_closeScope scopeId))) (\<lambda>_. ret ())))"

section \<open>Concluding a room\<close>

text \<open>The completed round with the largest number, the first of several.\<close>

definition report_anchor :: "DiscussionRound list \<Rightarrow> DiscussionRound option" where
  "report_anchor =
     foldl (\<lambda>best r. case best of None \<Rightarrow> Some r
                     | Some b \<Rightarrow> if rd_roundNumber b < rd_roundNumber r then Some r else best) None"

text \<open>A token on a cold room comes from a scope made now.\<close>

definition warm_up :: "orch_env \<Rightarrow> string \<Rightarrow> unit orch" where
  "warm_up env roomId =
     after (tokenForRoom env roomId) (\<lambda>token.
     if token \<noteq> None then ret ()
     else
       after (controlRoom env roomId) (\<lambda>handle.
       if \<not> handle then after (currentToken env roomId) (\<lambda>_. ret ())
       else
         after (activeParticipants env roomId) (\<lambda>ps.
         if ps = [] then fail_with ''room has no active participants''
         else after (ensureScope env roomId ps) (\<lambda>_. ret ()))))"

definition concludeRoom :: "orch_env \<Rightarrow> string \<Rightarrow> unit orch" where
  "concludeRoom env roomId =
     after (look env (\<lambda>d. rooms d roomId)) (\<lambda>row.
     case row of
       None \<Rightarrow> unknown_room roomId
     | Some room \<Rightarrow>
         if rm_status room = room_concluded then ret ()
         else
           after (warm_up env roomId) (\<lambda>_.
           after (case named (rm_activeRoundId room) of
                    None \<Rightarrow> ret None
                  | Some r \<Rightarrow> look env (\<lambda>d. named (Option.bind (rounds d r) rd_activeExecutionId))) (\<lambda>inflight.
           if inflight \<noteq> None then fail_with ''cannot conclude while an execution is running''
           else
             after (look env (\<lambda>d. report_anchor (rows_where (\<lambda>r. rd_roomId r = roomId \<and> rd_phase r = phase_completed) (db_rounds d)))) (\<lambda>anchor.
             case anchor of
               None \<Rightarrow> fail_with ''no completed round to summarize''
             | Some round \<Rightarrow>
                 after (look env (\<lambda>d. rooms d roomId)) (\<lambda>fresh.
                 case fresh of
                   None \<Rightarrow> throw (JsError (TypeError (oe_message env)))
                 | Some freshRoom \<Rightarrow>
                     after (dispatchTurn env freshRoom round (rm_facilitator freshRoom) kind_report None explicit_conclude)
                       (\<lambda>_. ret ()))))))"

section \<open>The startup audit\<close>

text \<open>The audit works on a room under its lock; \<open>locks\<close> are those it took itself.\<close>

definition auditLock :: "orch_env \<Rightarrow> string \<Rightarrow> string list \<Rightarrow> (bool \<times> string list) orch" where
  "auditLock env roomId locks st =
     (if \<not> oe_hasLocks env \<or> roomId \<in> set (dv_locked st) \<or> roomId \<in> set locks then ret (True, locks) st
      else after (jot (asked_lock roomId))
             (\<lambda>_. ret (if oe_tryLock env (dv_log st) then (True, roomId # locks) else (False, locks))) st)"

fun audit_each :: "orch_env \<Rightarrow> ('a \<Rightarrow> string) \<Rightarrow> ('a \<Rightarrow> unit orch) \<Rightarrow> 'a list \<Rightarrow> string list \<Rightarrow> string list orch" where
  "audit_each env roomOf f [] locks = ret locks"
| "audit_each env roomOf f (x # xs) locks =
     after (auditLock env (roomOf x) locks) (\<lambda>(held, locks').
     after (if held then f x else ret ()) (\<lambda>_.
     audit_each env roomOf f xs locks'))"

definition converge_binding :: "orch_env \<Rightarrow> string \<Rightarrow> RuntimeBinding \<Rightarrow> unit orch" where
  "converge_binding env hostId b =
     (if named (bi_hostInstanceId b) \<noteq> None \<and> bi_hostInstanceId b \<noteq> Some hostId then close_binding env (bi_id b)
      else
        after (if bi_state b = binding_closing \<and> has_scope b \<and> named (bi_controllerId b) \<noteq> None
               then after (attempt (ask (oe_closeScope env) (sent_closeScope (scope_text (bi_executionScopeId b))))) (\<lambda>_. ret ())
               else ret ()) (\<lambda>_.
        close_binding env (bi_id b)))"

text \<open>How the audit names the loss of a turn whose host is still there.\<close>

definition audit_error :: "orch_env \<Rightarrow> string \<Rightarrow> ModelExecution \<Rightarrow> ModelExecutionError orch" where
  "audit_error env hostId execution =
     (if mx_hostInstanceId execution = Some hostId \<and> named (mx_executionScopeId execution) \<noteq> None then
        after (attempt (ask (oe_getExecution env)
                 (sent_getExecution (scope_text (mx_executionScopeId execution)) (mx_executionId execution)))) (\<lambda>answer.
        case answer of
          Inr status \<Rightarrow>
            after (if fst status = exec_running
                   then cancelAbandonedExecution env (scope_text (mx_executionScopeId execution)) (mx_executionId execution)
                   else ret ()) (\<lambda>_.
            ret (errorOf ''INTERRUPTED_UNKNOWN'' ''execution still exists but its outcome is unknown after reload'' False))
        | Inl error \<Rightarrow> if http_status error = Some 404 then ret lostHostError else throw error)
      else ret lostHostError)"

definition auditUnfinished :: "orch_env \<Rightarrow> string \<Rightarrow> ModelExecution \<Rightarrow> unit orch" where
  "auditUnfinished env hostId listed =
     after (look env (\<lambda>d. executions d (mx_executionId listed))) (\<lambda>row.
     case row of
       None \<Rightarrow> ret ()
     | Some execution \<Rightarrow>
         if \<not> live_state (mx_state execution) then ret ()
         else
           after (tokenForRoom env (mx_roomId execution)) (\<lambda>token.
           case token of
             None \<Rightarrow> after (failLostExecution env execution None lostHostError) (\<lambda>_. ret ())
           | Some t \<Rightarrow>
               after (audit_error env hostId execution) (\<lambda>error.
               after (failLostExecution env execution (Some t) error) (\<lambda>_. ret ()))))"

text \<open>An ACK that is sent again; what the \<open>catch\<close> does not turn into expiry is left pending.\<close>

definition send_ack :: "orch_env \<Rightarrow> AckRequest \<Rightarrow> AckReply orch" where
  "send_ack env request st = after (jot (sent_ack request (dv_db st))) (\<lambda>_. ret (oe_ack env (dv_log st) request)) st"

definition resendAck :: "orch_env \<Rightarrow> string \<Rightarrow> ModelExecution \<Rightarrow> unit orch" where
  "resendAck env hostId execution =
     (let expire = transact env (no_value (\<lambda>te. markAckExpired te (mx_executionId execution)))
      in if mx_hostInstanceId execution \<noteq> Some hostId \<or> mx_finalEventSeq execution = None then expire
         else
           after (tokenForRoom env (mx_roomId execution)) (\<lambda>token.
           case token of
             None \<Rightarrow> ret ()
           | Some t \<Rightarrow>
               after (send_ack env \<lparr> aq_scopeId = scope_text (mx_executionScopeId execution),
                        aq_executionId = mx_executionId execution, aq_token = t,
                        aq_finalSeq = the (mx_finalEventSeq execution),
                        aq_disposition = (if mx_state execution = mx_committed then disp_committed else disp_discarded) \<rparr>) (\<lambda>reply.
               case reply of
                 AckAnswered ack_acknowledged \<Rightarrow>
                   after (attempt (transact env (no_value (\<lambda>te. markAcknowledged te (mx_executionId execution))))) (\<lambda>_. ret ())
               | AckAnswered ack_expired \<Rightarrow> after (attempt expire) (\<lambda>_. ret ())
               | AckAnswered ack_pending \<Rightarrow> ret ()
               | AckHttpError status \<Rightarrow> if status = 404 then expire else ret ()
               | AckUnreachable \<Rightarrow> ret ())))"

definition startupAudit :: "orch_env \<Rightarrow> unit orch" where
  "startupAudit env =
     after (hostInstanceId env) (\<lambda>hostId.
     after (look env (\<lambda>d. rows_where (\<lambda>b. bi_state b = binding_creating \<or> bi_state b = binding_closing) (db_bindings d))) (\<lambda>stale.
     after (audit_each env bi_roomId (converge_binding env hostId) stale []) (\<lambda>locks1.
     after (look env (\<lambda>d. rows_where (\<lambda>e. live_state (mx_state e)) (db_executions d))) (\<lambda>unfinished.
     after (audit_each env mx_roomId (auditUnfinished env hostId) unfinished locks1) (\<lambda>locks2.
     after (look env (\<lambda>d. rows_where (\<lambda>e. mx_ackState e = Some ack_pending
                \<and> (mx_state e = mx_committed \<or> mx_state e = mx_discarded)) (db_executions d))) (\<lambda>pendingAcks.
     after (audit_each env mx_roomId (resendAck env hostId) pendingAcks locks2) (\<lambda>_. ret ())))))))"

section \<open>The interface\<close>

text \<open>What the page can ask of the orchestrator; \<open>joinAgent\<close> is in \<open>Discussion_Tx\<close>.\<close>

datatype intent =
    want_control
  | want_scope
  | want_start
  | want_start_with string
  | want_conclude
  | want_loop
  | want_pause
  | want_resume
  | want_cancel
  | want_abort
  | want_retry
  | want_skip
  | want_rotate
  | want_release
  | want_message string
  | want_audit

definition ignoring :: "'a orch \<Rightarrow> unit orch" where
  "ignoring m = after m (\<lambda>_. ret ())"

fun perform :: "orch_env \<Rightarrow> string \<Rightarrow> intent \<Rightarrow> unit orch" where
  "perform env roomId want_control = ignoring (controlRoom env roomId)"
| "perform env roomId want_scope = ignoring (after (activeParticipants env roomId) (ensureScope env roomId))"
| "perform env roomId want_start = ignoring (startRoundPrepared env roomId None)"
| "perform env roomId (want_start_with content) = ignoring (startRoundWithUserMessage env roomId content)"
| "perform env roomId want_conclude = concludeRoom env roomId"
| "perform env roomId want_loop = runLoop env roomId"
| "perform env roomId want_pause = pauseRoom env roomId"
| "perform env roomId want_resume = resumeRoom env roomId"
| "perform env roomId want_cancel = cancelActiveExecution env roomId"
| "perform env roomId want_abort = abortPausedRound env roomId"
| "perform env roomId want_retry = retryFailedParticipant env roomId"
| "perform env roomId want_skip = skipFailedParticipant env roomId"
| "perform env roomId want_rotate = ignoring (rotateScope env roomId)"
| "perform env roomId want_release = releaseRuntime env roomId"
| "perform env roomId (want_message content) = ignoring (sendUserMessage env roomId content)"
| "perform env roomId want_audit = startupAudit env"

end
