(* ===== verification/Driver_Invariant.thy ===== *)
theory Driver_Invariant
  imports Room_Control
begin

text \<open>
  The interface of the round driver to a proof of an invariant.  The driver's own transactions are
  \<open>driver_tx\<close>; what else an operation does is to read, to ask the Host and to write the log.  A
  locale collects what an invariant needs (\<open>driver_invariant\<close>), another what it needs when turns are
  dispatched (\<open>round_invariant\<close>); the operations keep it then, up to the interface \<open>perform\<close>.
\<close>

section \<open>Runs that keep an invariant\<close>

definition sound :: "(drv \<Rightarrow> bool) \<Rightarrow> 'a orch \<Rightarrow> ('a \<Rightarrow> bool) \<Rightarrow> bool" where
  "sound I m Q \<longleftrightarrow> (\<forall>st r st'. I st \<and> m st = Some (r, st') \<longrightarrow> I st' \<and> (\<forall>x. r = Inr x \<longrightarrow> Q x))"

abbreviation keeps :: "(drv \<Rightarrow> bool) \<Rightarrow> 'a orch \<Rightarrow> bool" where
  "keeps I m \<equiv> sound I m (\<lambda>_. True)"

lemma soundI:
  assumes "\<And>st r st'. I st \<Longrightarrow> m st = Some (r, st') \<Longrightarrow> I st' \<and> (\<forall>x. r = Inr x \<longrightarrow> Q x)"
  shows "sound I m Q"
  using assms by (auto simp: sound_def)

lemma soundD:
  assumes "sound I m Q" "I st" "m st = Some (r, st')"
  shows "I st'" "r = Inr x \<Longrightarrow> Q x"
  using assms by (auto simp: sound_def)

lemma sound_weaken: "sound I m P \<Longrightarrow> (\<And>x. P x \<Longrightarrow> Q x) \<Longrightarrow> sound I m Q"
  unfolding sound_def by blast

lemma keeps_of: "sound I m P \<Longrightarrow> keeps I m"
  by (rule sound_weaken) simp_all

lemma sound_ret: "Q x \<Longrightarrow> sound I (ret x) Q"
  by (auto simp: sound_def ret_def)

lemma sound_throw: "sound I (throw e) Q"
  by (auto simp: sound_def throw_def)

lemma sound_fail: "sound I (fail_with t) Q"
  by (simp add: fail_with_def sound_throw)

lemma sound_after:
  assumes "sound I m P" "\<And>x. P x \<Longrightarrow> sound I (k x) Q"
  shows "sound I (after m k) Q"
proof (rule soundI)
  fix st r st'
  assume "I st" and run: "after m k st = Some (r, st')"
  then obtain q s where m: "m st = Some (q, s)" by (cases "m st") (auto simp: after_def)
  note s = soundD [OF assms(1) \<open>I st\<close> m]
  show "I st' \<and> (\<forall>x. r = Inr x \<longrightarrow> Q x)"
  proof (cases q)
    case (Inl e)
    with run m s(1) show ?thesis by (auto simp: after_def)
  next
    case (Inr x)
    with run m have "k x s = Some (r, st')" by (simp add: after_def)
    with soundD [OF assms(2) [OF s(2) [OF Inr]] s(1)] show ?thesis by blast
  qed
qed

lemma keeps_after: "keeps I m \<Longrightarrow> (\<And>x. sound I (k x) Q) \<Longrightarrow> sound I (after m k) Q"
  by (rule sound_after)

lemma sound_attempt: "sound I m P \<Longrightarrow> sound I (attempt m) (\<lambda>r. \<forall>x. r = Inr x \<longrightarrow> P x)"
  unfolding sound_def attempt_def by fastforce

lemma keeps_attempt: "keeps I m \<Longrightarrow> keeps I (attempt m)"
  unfolding sound_def attempt_def by fastforce

lemma keeps_each: "(\<And>x. keeps I (f x)) \<Longrightarrow> keeps I (each f xs)"
  by (induction xs) (auto intro: sound_ret keeps_after)

lemmas keeps_rules = sound_ret sound_throw sound_fail keeps_after keeps_attempt keeps_each

section \<open>The driver's transactions\<close>

text \<open>All but those that open, abort or dispatch.\<close>

inductive driver_tx :: "tx_env \<Rightarrow> db \<Rightarrow> db \<Rightarrow> bool" for te where
  tx_fail: "failExecution te x token error kind pause d = Inr (d', room) \<Longrightarrow> kind \<in> {mx_failed, mx_interrupted} \<Longrightarrow>
    driver_tx te d d'"
| tx_fail_unbound: "failUnboundExecution te x err kind pause d = Inr (d', result) \<Longrightarrow> kind \<in> {mx_failed, mx_interrupted} \<Longrightarrow>
    driver_tx te d d'"
| tx_discard: "discardExecution te x token outcome q er d = Inr (d', res) \<Longrightarrow> driver_tx te d d'"
| tx_dispatched: "markExecutionDispatched te x h k ds d = Inr d' \<Longrightarrow> driver_tx te d d'"
| tx_claim: "driver_tx te d (dropUnstartedRetryClaim te x d)"
| tx_message: "appendUserMessage te k r token content d = Inr (d', m) \<Longrightarrow> driver_tx te d d'"
| tx_run_state: "setRoomRunState te k token s d = Inr d' \<Longrightarrow> driver_tx te d d'"
| tx_transition: "transitionRound k r token target d = Inr d' \<Longrightarrow> target = phase_prewarming \<or> target = phase_running \<Longrightarrow>
    driver_tx te d d'"
| tx_pause: "pauseRound k r token reason d = Inr d' \<Longrightarrow> driver_tx te d d'"
| tx_resume: "resumeRound k r token d = Inr d' \<Longrightarrow> driver_tx te d d'"
| tx_skip: "skipParticipant te k r token d = Inr (d', p, phase) \<Longrightarrow> driver_tx te d d'"
| tx_acknowledged: "markAcknowledged te x d = Inr d' \<Longrightarrow> driver_tx te d d'"
| tx_expired: "markAckExpired te x d = Inr d' \<Longrightarrow> driver_tx te d d'"
| tx_bind: "createRuntimeBindingTx te k request d = Inr (d', b) \<Longrightarrow> driver_tx te d d'"
| tx_activate: "activateRuntimeBinding te i h s c l d = Inr (d', b) \<Longrightarrow> driver_tx te d d'"
| tx_takeover: "takeoverRuntimeBinding te i c l d = Inr d' \<Longrightarrow> driver_tx te d d'"
| tx_close: "markBindingClosed te i d = Inr d' \<Longrightarrow> driver_tx te d d'"
| tx_release: "releaseRuntime_tx te k d = Some d' \<Longrightarrow> driver_tx te d d'"

lemma driver_tx_step: "driver_tx te d d' \<Longrightarrow> tv_sha te = sha \<Longrightarrow> discussion_step sha d d'"
  by (cases rule: driver_tx.cases, assumption) (blast intro: discussion_step.intros)+

definition quiet :: "orch_event \<Rightarrow> bool" where
  "quiet ev \<longleftrightarrow> (\<forall>s x p snapshot e. ev \<noteq> sent_execute s x p snapshot \<and> ev \<noteq> wrote_anchor e)"

lemma quiet_simps [simp]:
  "quiet (sent_cancel s x)" "quiet (sent_follow s x n)" "quiet (sent_getExecution s x)" "quiet (sent_ack q d)" "quiet sent_health"
  "quiet (sent_createScope r)" "quiet (sent_activateScope s)" "quiet (sent_closeScope s)" "quiet (sent_scopeStatus s)"
  "quiet (sent_takeover s c)" "quiet (read_gate k b)" "quiet (asked_lock k)"
  by (simp_all add: quiet_def)

section \<open>An invariant of the driver\<close>

locale driver_invariant =
  fixes env :: orch_env and I :: "drv \<Rightarrow> bool" and T :: "DiscussionRoom \<Rightarrow> DiscussionRound \<Rightarrow> bool"
  assumes world: "I st \<Longrightarrow> I (others env st)"
    and ticks: "I st \<Longrightarrow> I (st\<lparr>dv_tick := dv_tick st + n\<rparr>)"
    and jots: "I st \<Longrightarrow> quiet ev \<Longrightarrow> I (st\<lparr>dv_log := dv_log st @ [ev]\<rparr>)"
    and hosts: "I st \<Longrightarrow> I (st\<lparr>dv_host := h\<rparr>)"
    and holds: "I st \<Longrightarrow> I (st\<lparr>dv_locked := l # dv_locked st\<rparr>)"
    and writes: "I st \<Longrightarrow> driver_tx (oe_tx env n) (dv_db st) d \<Longrightarrow> I (st\<lparr>dv_db := d\<rparr>)"
    and pipeline: "I st \<Longrightarrow> run_pipeline env deps x event st = Some (r, st') \<Longrightarrow> I st'"
    and same_room: "T room round \<Longrightarrow> I st \<Longrightarrow> rooms (dv_db st) (rm_id room) = Some room' \<Longrightarrow> T room' round"
    and same_round: "T room round \<Longrightarrow> I st \<Longrightarrow> rounds (dv_db st) (rd_id round) = Some round' \<Longrightarrow> T room round'"
begin

lemma look_read: "sound I (look env f) (\<lambda>x. \<exists>st. I st \<and> x = f (dv_db st))"
  by (auto intro!: soundI exI [of _ "others env st" for st] world simp: look_def Let_def)

lemma look_keeps: "keeps I (look env f)"
  using look_read by (rule keeps_of)

lemma transact_keeps:
  assumes "\<And>te d d' x. f te d = Inr (d', x) \<Longrightarrow> driver_tx te d d'"
  shows "keeps I (transact env f)"
proof (rule soundI)
  fix st r st'
  assume "I st" "transact env f st = Some (r, st')"
  then show "I st' \<and> (\<forall>x. r = Inr x \<longrightarrow> True)"
    using writes [OF world [OF \<open>I st\<close>] assms] world [OF \<open>I st\<close>]
    by (auto simp: transact_def Let_def split: sum.splits)
qed

lemma no_value_keeps:
  assumes "\<And>te d d'. f te d = Inr d' \<Longrightarrow> driver_tx te d d'"
  shows "keeps I (transact env (no_value f))"
proof (rule transact_keeps)
  fix te d d' x
  assume "no_value f te d = Inr (d', x)"
  then show "driver_tx te d d'" by (cases "f te d") (auto simp: no_value_def intro: assms)
qed

lemma jot_keeps: "quiet ev \<Longrightarrow> keeps I (jot ev)"
  using jots by (auto intro!: soundI simp: jot_def)

lemma ask_keeps: "quiet ev \<Longrightarrow> keeps I (ask reply ev)"
  using jots by (auto intro!: soundI simp: ask_def)

lemma uuid_keeps: "keeps I (fresh_uuid env)"
proof (rule soundI)
  fix st r st'
  assume "I st" "fresh_uuid env st = Some (r, st')"
  with ticks [OF \<open>I st\<close>, of 1] show "I st' \<and> (\<forall>x. r = Inr x \<longrightarrow> True)" by (auto simp: fresh_uuid_def)
qed

lemma host_keeps: "keeps I (hostInstanceId env)"
proof (rule soundI)
  fix st r st'
  assume "I st" "hostInstanceId env st = Some (r, st')"
  with jots [OF \<open>I st\<close>, of sent_health] hosts show "I st' \<and> (\<forall>x. r = Inr x \<longrightarrow> True)"
    by (auto simp: hostInstanceId_def after_def ask_def ret_def split: option.splits sum.splits)
qed

lemmas basics = keeps_rules look_keeps jot_keeps ask_keeps uuid_keeps host_keeps

end

section \<open>A turn\<close>

fun next_ok :: "(DiscussionRoom \<Rightarrow> DiscussionRound \<Rightarrow> bool) \<Rightarrow> next_turn \<Rightarrow> bool" where
  "next_ok T (finished proceed) = True"
| "next_ok T (redispatch room round p kind retryOf counts) = T room round"

context driver_invariant
begin

lemma token_keeps: "keeps I (tokenForRoom env k)" "keeps I (currentToken env k)"
proof -
  show t: "keeps I (tokenForRoom env k)" by (simp add: tokenForRoom_def look_keeps)
  show "keeps I (currentToken env k)"
    unfolding currentToken_def by (auto intro!: basics t split: option.splits)
qed

lemma cancel_keeps: "keeps I (cancelAbandonedExecution env s x)"
  unfolding cancelAbandonedExecution_def by (auto intro!: basics)

lemma fail_keeps: "kind \<in> {mx_failed, mx_interrupted} \<Longrightarrow> keeps I (fail_turn env x token error kind pause)"
  unfolding fail_turn_def by (intro basics transact_keeps) (auto intro: tx_fail)

lemma gate_keeps: "keeps I (schedulingPaused env k)" "keeps I (gate_closed env k scheduling)"
proof -
  show g: "keeps I (schedulingPaused env k)" unfolding schedulingPaused_def by (auto intro!: basics)
  show "keeps I (gate_closed env k scheduling)" unfolding gate_closed_def by (auto intro!: basics g)
qed

lemma items_keeps: "keeps I (turn_items env room)"
  unfolding turn_items_def Let_def by (auto intro!: basics)

lemma check_keeps: "keeps I (check_status env s x token status n progressed spent failures)"
  unfolding check_status_def by (auto intro!: basics cancel_keeps fail_keeps split: FollowAfterClose.splits)

lemma status_failed_keeps: "keeps I (status_failed env s x token error n)"
  unfolding status_failed_def by (auto intro!: basics cancel_keeps fail_keeps)

lemma follow_keeps: "keeps I (follow_once env s x n)"
proof (rule soundI)
  fix st r st'
  assume "I st" "follow_once env s x n st = Some (r, st')"
  with jots [OF \<open>I st\<close>, of "sent_follow s x n"] show "I st' \<and> (\<forall>x. r = Inr x \<longrightarrow> True)"
    by (auto simp: follow_once_def Let_def after_def jot_def ret_def throw_def fail_with_def
        split: sum.splits stream_failure.splits)
qed

lemma close_keeps: "keeps I (after_close env s x token n progressed c)"
  unfolding after_close_def Let_def
  by (auto intro!: basics check_keeps status_failed_keeps split: sum.splits close_step.splits)

lemma drive_keeps: "keeps I (driveTurnToTerminal env s x token c)"
proof (rule soundI, intro conjI)
  fix st r st'
  assume "I st" "driveTurnToTerminal env s x token c st = Some (r, st')"
  have "env = env \<longrightarrow> I st \<longrightarrow> I (snd (r, st'))"
  proof (rule driveTurnToTerminal.raw_induct [of "\<lambda>e s x token c st y. e = env \<longrightarrow> I st \<longrightarrow> I (snd y)", rotated])
    show "driveTurnToTerminal env s x token c st = Some (r, st')" by fact
  next
    fix f e s x token c st y
    assume IH: "\<And>e s x token c st y. f e s x token c st = Some y \<Longrightarrow> e = env \<longrightarrow> I st \<longrightarrow> I (snd y)"
      and run: "after (follow_once e s x (fl_resumeAt c)) (\<lambda>outcome. case outcome of
         Some (follow_terminal event) \<Rightarrow> ret (Some event)
       | None \<Rightarrow>
           after (after_close e s x token (fl_resumeAt c) False (c\<lparr>fl_streamFailures := fl_streamFailures c + 1\<rparr>)) (\<lambda>more.
           case more of None \<Rightarrow> ret None | Some c' \<Rightarrow> f e s x token c')
       | Some (follow_closed lastSeq) \<Rightarrow>
           after (after_close e s x token lastSeq (fl_resumeAt c < lastSeq) (c\<lparr>fl_streamFailures := 0\<rparr>)) (\<lambda>more.
           case more of None \<Rightarrow> ret None | Some c' \<Rightarrow> f e s x token c')
       | Some (follow_aborted lastSeq) \<Rightarrow>
           after (after_close e s x token lastSeq (fl_resumeAt c < lastSeq) (c\<lparr>fl_streamFailures := 0\<rparr>)) (\<lambda>more.
           case more of None \<Rightarrow> ret None | Some c' \<Rightarrow> f e s x token c')) st = Some y"
    have f: "keeps I (f env s x token c')" for c' by (rule soundI) (use IH in fastforce)
    show "e = env \<longrightarrow> I st \<longrightarrow> I (snd y)"
    proof (intro impI)
      assume "e = env" "I st"
      have "keeps I (after (follow_once env s x (fl_resumeAt c)) (\<lambda>outcome. case outcome of
         Some (follow_terminal event) \<Rightarrow> ret (Some event)
       | None \<Rightarrow>
           after (after_close env s x token (fl_resumeAt c) False (c\<lparr>fl_streamFailures := fl_streamFailures c + 1\<rparr>)) (\<lambda>more.
           case more of None \<Rightarrow> ret None | Some c' \<Rightarrow> f env s x token c')
       | Some (follow_closed lastSeq) \<Rightarrow>
           after (after_close env s x token lastSeq (fl_resumeAt c < lastSeq) (c\<lparr>fl_streamFailures := 0\<rparr>)) (\<lambda>more.
           case more of None \<Rightarrow> ret None | Some c' \<Rightarrow> f env s x token c')
       | Some (follow_aborted lastSeq) \<Rightarrow>
           after (after_close env s x token lastSeq (fl_resumeAt c < lastSeq) (c\<lparr>fl_streamFailures := 0\<rparr>)) (\<lambda>more.
           case more of None \<Rightarrow> ret None | Some c' \<Rightarrow> f env s x token c')))"
        by (auto intro!: keeps_rules follow_keeps close_keeps f split: option.splits FollowOutcome.splits)
      from soundD(1) [OF this \<open>I st\<close>] run \<open>e = env\<close> show "I (snd y)" by (cases y) auto
    qed
  qed
  with \<open>I st\<close> show "I st'" by simp
qed simp

lemma pipeline_keeps: "keeps I (run_pipeline env deps x event)"
  using pipeline by (auto intro!: soundI)

lemma conclude_keeps:
  assumes "T room round"
  shows "sound I (maybeStartConcluding env (rm_id room) (rd_id round) summary) (next_ok T)"
  unfolding maybeStartConcluding_def
proof (rule sound_after [OF look_read])
  fix row
  assume row: "\<exists>st. I st \<and> row = rooms (dv_db st) (rm_id room)"
  show "sound I (case row of None \<Rightarrow> ret (finished False)
       | Some freshRoom \<Rightarrow>
           if rm_status freshRoom = room_concluded then ret (finished False)
           else
             after (look env (\<lambda>d. rounds d (rd_id round))) (\<lambda>anchor.
             case anchor of
               None \<Rightarrow> ret (finished False)
             | Some anchorRound \<Rightarrow>
                 if rd_phase anchorRound \<noteq> phase_completed then ret (finished False)
                 else
                   after (look env (\<lambda>d. length (rows_where (\<lambda>r. rd_roomId r = rm_id room \<and> rd_phase r = phase_completed) (db_rounds d)))) (\<lambda>completedRounds.
                   if completedRounds \<ge> 1 \<and> (oe_suggests env summary
                        \<or> (case rm_maxRounds freshRoom of None \<Rightarrow> False | Some m \<Rightarrow> m \<le> completedRounds))
                   then ret (redispatch freshRoom anchorRound (rm_facilitator freshRoom) kind_report None False)
                   else ret (finished False)))) (next_ok T)"
  proof (cases row)
    case None
    then show ?thesis by (simp add: sound_ret)
  next
    case (Some freshRoom)
    with row same_room [OF assms] have fresh: "T freshRoom round" by auto
    have "sound I (look env (\<lambda>d. rounds d (rd_id round))) (\<lambda>anchor. \<forall>a. anchor = Some a \<longrightarrow> T freshRoom a)"
      by (rule sound_weaken [OF look_read]) (auto intro: same_round [OF fresh])
    note anchor = sound_after [OF this]
    have count: "keeps I (look env (\<lambda>d. length (rs d)))" for rs :: "db \<Rightarrow> DiscussionRound list" by (rule look_keeps)
    show ?thesis
      by (auto simp: Some intro!: sound_ret anchor keeps_after [OF count] split: option.splits)
  qed
qed

lemma completed_keeps: "T room round \<Longrightarrow> sound I (handle_completed env room round x event token) (next_ok T)"
  unfolding handle_completed_def
  by (auto intro!: basics pipeline_keeps conclude_keeps split: option.splits CompletedHandling.splits ResultKind.splits)

lemma retry_keeps:
  assumes "T room round" "kind \<in> {mx_failed, mx_interrupted}"
  shows "sound I (retry_turn env room round execution code kind token) (next_ok T)"
proof -
  have recorded: "keeps I (transact env (\<lambda>te. failExecution te (mx_executionId execution) token err kind False))" for err
    using assms(2) by (intro transact_keeps) (auto intro: tx_fail)
  have dropped: "keeps I (transact env (no_value (\<lambda>te d. Inr (dropUnstartedRetryClaim te x d))))" for x
    by (rule no_value_keeps) (auto intro: tx_claim)
  have "sound I (look env (\<lambda>d. rounds d (rd_id round))) (\<lambda>retried. \<forall>r. retried = Some r \<longrightarrow> T room r)"
    by (rule sound_weaken [OF look_read]) (auto intro: same_round [OF assms(1)])
  note again = sound_after [OF this]
  show ?thesis
    unfolding retry_turn_def by (auto intro!: sound_ret again keeps_after [OF recorded] keeps_after [OF dropped]
        keeps_after [OF gate_keeps(1)] keeps_after [OF sound_ret] split: option.splits)
qed

lemma discard_keeps: "keeps I (transact env (\<lambda>te. discardExecution te x token outcome q err))"
  by (rule transact_keeps) (auto intro: tx_discard)

lemma ended_keeps:
  assumes "T room round"
  shows "sound I (handle_ended env room round x event token) (next_ok T)"
  unfolding handle_ended_def
  by (auto intro!: basics keeps_after [OF discard_keeps] keeps_after [OF fail_keeps] retry_keeps [OF assms]
      split: option.splits DriverEvent.splits if_splits)

lemma terminal_keeps: "T room round \<Longrightarrow> sound I (handleTerminal env room round x event token) (next_ok T)"
  unfolding handleTerminal_def by (auto intro!: completed_keeps ended_keeps split: DriverEvent.splits)

section \<open>Control, scope and audit\<close>

lemma preferred_keeps: "keeps I (preferred_binding env k)"
  unfolding preferred_binding_def by (auto intro!: basics)

lemma participants_keeps: "keeps I (activeParticipants env k)"
  by (simp add: activeParticipants_def look_keeps)

lemma close_binding_keeps: "keeps I (close_binding env i)"
  unfolding close_binding_def by (rule no_value_keeps) (rule tx_close)

lemma unbound_keeps: "keeps I (fail_unbound env execution error)"
  unfolding fail_unbound_def
  by (rule transact_keeps) (erule tx_fail_unbound, simp add: lost_kind_def)

lemma lost_keeps: "keeps I (failLostExecution env execution token error)"
proof -
  have kind: "lost_kind execution \<in> {mx_failed, mx_interrupted}" by (simp add: lost_kind_def)
  show ?thesis unfolding failLostExecution_def
    by (auto intro!: basics unbound_keeps token_keeps keeps_attempt fail_keeps [OF kind] split: option.splits sum.splits)
qed

lemma interrupt_keeps: "keeps I (interruptRoomLostWithHost env k token)"
  unfolding interruptRoomLostWithHost_def by (auto intro!: basics lost_keeps)

lemma takeover_keeps: "keeps I (takeOverBinding env k b)"
proof -
  have tx: "keeps I (transact env (no_value (\<lambda>te. takeoverRuntimeBinding te i c l)))" for i c l
    by (rule no_value_keeps) (rule tx_takeover)
  show ?thesis unfolding takeOverBinding_def
    by (auto intro!: basics tx interrupt_keeps close_binding_keeps split: option.splits sum.splits)
qed

lemma acquire_keeps: "keeps I (acquire_lock env k)"
proof (rule soundI)
  fix st r st'
  assume "I st" "acquire_lock env k st = Some (r, st')"
  with jots [OF \<open>I st\<close>, of "asked_lock k"] show "I st' \<and> (\<forall>x. r = Inr x \<longrightarrow> True)"
    by (auto simp: acquire_lock_def after_def jot_def ret_def split: if_splits)
qed

lemma hold_keeps: "keeps I (hold_lock k)"
  using holds by (auto intro!: soundI simp: hold_lock_def ret_def)

lemma control_keeps: "keeps I (controlRoom env k)"
proof (rule soundI)
  fix st r st'
  assume "I st" and run: "controlRoom env k st = Some (r, st')"
  have free: "keeps I (after (acquire_lock env k) (\<lambda>handle. if \<not> handle then ret False
        else after (hold_lock k) (\<lambda>_. after (preferred_binding env k) (\<lambda>(latest, preferred).
          case preferred of
            Some binding \<Rightarrow>
              if bi_state binding = binding_active \<and> has_scope binding
              then after (takeOverBinding env k binding) (\<lambda>_. ret True)
              else ret True
          | None \<Rightarrow> ret True))))"
    by (auto intro!: basics acquire_keeps hold_keeps preferred_keeps takeover_keeps split: option.splits prod.splits)
  show "I st' \<and> (\<forall>x. r = Inr x \<longrightarrow> True)"
  proof (cases "k \<in> set (dv_locked st)")
    case True
    with run \<open>I st\<close> show ?thesis by (auto simp: controlRoom_def ret_def)
  next
    case False
    with run soundD(1) [OF free \<open>I st\<close>] show ?thesis by (auto simp: controlRoom_def)
  qed
qed

lemma reuse_keeps: "keeps I (reuse_scope env b)"
  unfolding reuse_scope_def by (auto intro!: basics close_binding_keeps split: sum.splits)

lemma create_keeps: "keeps I (create_scope env i q)"
proof -
  have tx: "keeps I (transact env (\<lambda>te. activateRuntimeBinding te i h s c l))" for h s c l
    by (rule transact_keeps) (rule tx_activate)
  show ?thesis unfolding create_scope_def by (auto intro!: basics tx split: sum.splits)
qed

lemma specs_keeps: "keeps I (participant_specs env ps)"
  unfolding participant_specs_def by (auto intro!: basics split: option.splits)

lemma build_keeps: "keeps I (build_scope env k ps latest)"
proof -
  have tx: "keeps I (transact env (\<lambda>te. createRuntimeBindingTx te k q))" for q
    by (rule transact_keeps) (rule tx_bind)
  show ?thesis unfolding build_scope_def
    by (auto intro!: basics tx specs_keeps create_keeps split: option.splits)
qed

lemma ensure_keeps: "keeps I (ensureScope env k ps)"
  unfolding ensureScope_def
  by (auto intro!: basics preferred_keeps reuse_keeps build_keeps split: option.splits prod.splits)

lemma converge_keeps: "keeps I (converge_binding env h b)"
  unfolding converge_binding_def by (auto intro!: basics close_binding_keeps)

lemma audit_error_keeps: "keeps I (audit_error env h e)"
  unfolding audit_error_def by (auto intro!: basics cancel_keeps split: sum.splits)

lemma audit_unfinished_keeps: "keeps I (auditUnfinished env h e)"
  unfolding auditUnfinished_def by (auto intro!: basics token_keeps lost_keeps audit_error_keeps split: option.splits)

lemma send_ack_keeps: "keeps I (send_ack env q)"
proof (rule soundI)
  fix st r st'
  assume "I st" "send_ack env q st = Some (r, st')"
  with jots [OF \<open>I st\<close>, of "sent_ack q (dv_db st)"] show "I st' \<and> (\<forall>x. r = Inr x \<longrightarrow> True)"
    by (auto simp: send_ack_def after_def jot_def ret_def)
qed

lemma resend_keeps: "keeps I (resendAck env h e)"
proof -
  have expire: "keeps I (transact env (no_value (\<lambda>te. markAckExpired te (mx_executionId e))))"
    by (rule no_value_keeps) (rule tx_expired)
  have settle: "keeps I (transact env (no_value (\<lambda>te. markAcknowledged te (mx_executionId e))))"
    by (rule no_value_keeps) (rule tx_acknowledged)
  show ?thesis unfolding resendAck_def Let_def
    by (auto intro!: keeps_rules expire settle token_keeps send_ack_keeps split: option.splits AckReply.splits AckState.splits)
qed

lemma audit_lock_keeps: "keeps I (auditLock env k locks)"
proof (rule soundI)
  fix st r st'
  assume "I st" "auditLock env k locks st = Some (r, st')"
  with jots [OF \<open>I st\<close>, of "asked_lock k"] show "I st' \<and> (\<forall>x. r = Inr x \<longrightarrow> True)"
    by (auto simp: auditLock_def after_def jot_def ret_def split: if_splits)
qed

lemma audit_each_keeps: "(\<And>x. keeps I (f x)) \<Longrightarrow> keeps I (audit_each env roomOf f xs locks)"
  by (induction xs arbitrary: locks) (auto intro!: keeps_rules audit_lock_keeps split: prod.splits)

lemma audit_keeps: "keeps I (startupAudit env)"
  unfolding startupAudit_def
  by (intro basics audit_each_keeps converge_keeps audit_unfinished_keeps resend_keeps) simp_all

end

section \<open>An invariant of the page\<close>

lemma report_anchor_in: "report_anchor rs = Some r \<Longrightarrow> r \<in> set rs"
proof -
  have "foldl (\<lambda>best r. case best of None \<Rightarrow> Some r | Some b \<Rightarrow> if rd_roundNumber b < rd_roundNumber r then Some r else best) acc rs
      = Some r \<Longrightarrow> r \<in> set rs \<or> acc = Some r" for acc
    by (induction rs arbitrary: acc) (fastforce split: option.splits if_splits)+
  then show "report_anchor rs = Some r \<Longrightarrow> r \<in> set rs" unfolding report_anchor_def by blast
qed

text \<open>The pairs \<open>T\<close> of a room and a round are those that turns may be dispatched for; whatever was
  read of the page's room must be such a pair.\<close>

definition loop_ok :: "(DiscussionRoom \<Rightarrow> DiscussionRound \<Rightarrow> bool) \<Rightarrow> loop_step \<Rightarrow> bool" where
  "loop_ok T s \<longleftrightarrow> (\<forall>room round p kind. s = loop_turn room round p kind \<longrightarrow> T room round)"

locale page_invariant = driver_invariant +
  fixes roomId :: string
  assumes posts: "T room round \<Longrightarrow> keeps I (post_turn env room round p kind txt retryOf scheduling snapshot scope token)"
    and opens: "keeps I (transact env (\<lambda>te. createRound te roomId token order))"
    and releases: "keeps I (release_guarded env roomId)"
    and active: "I s \<Longrightarrow> I s' \<Longrightarrow> rooms (dv_db s) roomId = Some room \<Longrightarrow> rm_activeRoundId room = Some r \<Longrightarrow>
      rounds (dv_db s') r = Some round \<Longrightarrow> T room round"
    and rekey: "T room round \<Longrightarrow> I s \<Longrightarrow> I s' \<Longrightarrow> rooms (dv_db s) roomId = Some room \<Longrightarrow>
      rooms (dv_db s') roomId = Some room' \<Longrightarrow> T room' round"
    and anchored: "I s \<Longrightarrow> I s' \<Longrightarrow>
      round \<in> set (rows_where (\<lambda>r. rd_roomId r = roomId \<and> rd_phase r = phase_completed) (db_rounds (dv_db s))) \<Longrightarrow>
      rooms (dv_db s') roomId = Some room \<Longrightarrow> T room round"
    and aborts: "I s \<Longrightarrow> I s' \<Longrightarrow> rooms (dv_db s) roomId = Some room \<Longrightarrow> rm_activeRoundId room = Some r \<Longrightarrow>
      rounds (dv_db s') r = Some round \<Longrightarrow> keeps I (transact env (no_value (\<lambda>te. abortRound te roomId (rd_id round) token)))"
begin

lemma once_keeps:
  assumes "T room round"
  shows "sound I (dispatch_once env room round p kind retryOf scheduling) (next_ok T)"
  unfolding dispatch_once_def Let_def
  by (auto intro!: basics gate_keeps token_keeps items_keeps drive_keeps posts [OF assms] terminal_keeps [OF assms]
      split: option.splits)

lemma dispatch_keeps:
  assumes "T room round"
  shows "keeps I (dispatchTurn env room round p kind retryOf scheduling)"
proof (rule soundI, intro conjI)
  fix st r st'
  assume "I st" "dispatchTurn env room round p kind retryOf scheduling st = Some (r, st')"
  have "env = env \<longrightarrow> T room round \<longrightarrow> I st \<longrightarrow> I (snd (r, st'))"
  proof (rule dispatchTurn.raw_induct
      [of "\<lambda>e room round p kind retryOf scheduling st y. e = env \<longrightarrow> T room round \<longrightarrow> I st \<longrightarrow> I (snd y)", rotated])
    show "dispatchTurn env room round p kind retryOf scheduling st = Some (r, st')" by fact
  next
    fix f e room round p kind retryOf scheduling st y
    assume IH: "\<And>e room round p kind retryOf scheduling st y. f e room round p kind retryOf scheduling st = Some y \<Longrightarrow>
        e = env \<longrightarrow> T room round \<longrightarrow> I st \<longrightarrow> I (snd y)"
      and run: "after (dispatch_once e room round p kind retryOf scheduling) (\<lambda>step. case step of
         finished proceed \<Rightarrow> ret proceed
       | redispatch room' round' p' kind' retryOf' counts \<Rightarrow>
           after (f e room' round' p' kind' retryOf' honor_pause) (\<lambda>proceed. ret (counts \<and> proceed))) st = Some y"
    show "e = env \<longrightarrow> T room round \<longrightarrow> I st \<longrightarrow> I (snd y)"
    proof (intro impI)
      assume "e = env" and T: "T room round" and "I st"
      have f: "keeps I (f env room' round' p' kind' retryOf' scheduling')" if "T room' round'" for room' round' p' kind' retryOf' scheduling'
        by (rule soundI) (use IH that in fastforce)
      have "keeps I (after (dispatch_once env room round p kind retryOf scheduling) (\<lambda>step. case step of
         finished proceed \<Rightarrow> ret proceed
       | redispatch room' round' p' kind' retryOf' counts \<Rightarrow>
           after (f env room' round' p' kind' retryOf' honor_pause) (\<lambda>proceed. ret (counts \<and> proceed))))"
        by (rule sound_after [OF once_keeps [OF T]]) (auto intro!: sound_ret keeps_after [OF f] split: next_turn.splits)
      from soundD(1) [OF this \<open>I st\<close>] run \<open>e = env\<close> show "I (snd y)" by (cases y) auto
    qed
  qed
  with assms \<open>I st\<close> show "I st'" by simp
qed simp

lemma next_keeps: "sound I (loop_next env roomId) (loop_ok T)"
  unfolding loop_next_def
proof (rule sound_after [OF look_read])
  fix row
  assume row: "\<exists>st. I st \<and> row = rooms (dv_db st) roomId"
  show "sound I (case row of None \<Rightarrow> ret loop_ends
       | Some room \<Rightarrow>
           (case (if rm_runState room = room_paused then None else rm_activeRoundId room) of
              None \<Rightarrow> ret loop_ends
            | Some r \<Rightarrow>
                if r = [] then ret loop_ends
                else
                  after (look env (\<lambda>d. rounds d r)) (\<lambda>found.
                  case found of
                    None \<Rightarrow> ret loop_ends
                  | Some round \<Rightarrow>
                      if rd_phase round = phase_running then
                        (if rd_focusMessageId round = Null
                         then ret (loop_turn room round (Some (rm_facilitator room)) kind_focus)
                         else ret (loop_turn room round (at_cursor round) kind_message))
                      else if rd_phase round = phase_summarizing
                        then ret (loop_turn room round (Some (rm_facilitator room)) kind_summary)
                      else ret loop_ends))) (loop_ok T)"
  proof (cases row)
    case None
    then show ?thesis by (simp add: sound_ret loop_ok_def)
  next
    case (Some room)
    with row obtain s where s: "I s" "rooms (dv_db s) roomId = Some room" by auto
    have "sound I (look env (\<lambda>d. rounds d r)) (\<lambda>found. \<forall>round. found = Some round \<longrightarrow> T room round)"
      if "rm_activeRoundId room = Some r" for r
      by (rule sound_weaken [OF look_read]) (auto intro: active [OF s(1) _ s(2) that])
    note found = sound_after [OF this]
    show ?thesis
      by (auto simp: Some loop_ok_def intro!: sound_ret found split: option.splits)
  qed
qed

lemma nobody_keeps: "keeps I (dispatch_nobody env room)"
  unfolding dispatch_nobody_def by (auto intro!: basics gate_keeps token_keeps)

lemma loop_keeps: "keeps I (runLoop env roomId)"
proof (rule soundI, intro conjI)
  fix st r st'
  assume "I st" "runLoop env roomId st = Some (r, st')"
  have "env = env \<longrightarrow> roomId = roomId \<longrightarrow> I st \<longrightarrow> I (snd (r, st'))"
  proof (rule runLoop.raw_induct [of "\<lambda>e k st y. e = env \<longrightarrow> k = roomId \<longrightarrow> I st \<longrightarrow> I (snd y)", rotated])
    show "runLoop env roomId st = Some (r, st')" by fact
  next
    fix f e k st y
    assume IH: "\<And>e k st y. f e k st = Some y \<Longrightarrow> e = env \<longrightarrow> k = roomId \<longrightarrow> I st \<longrightarrow> I (snd y)"
      and run: "after (loop_next e k) (\<lambda>step. case step of
         loop_ends \<Rightarrow> ret ()
       | loop_turn room round participant kind \<Rightarrow>
           (case participant of
              None \<Rightarrow> dispatch_nobody e room
            | Some p \<Rightarrow>
                after (dispatchTurn e room round p kind None honor_pause) (\<lambda>proceed st'.
                if proceed \<and> kind \<noteq> kind_summary then f e k st' else ret () st'))) st = Some y"
    show "e = env \<longrightarrow> k = roomId \<longrightarrow> I st \<longrightarrow> I (snd y)"
    proof (intro impI)
      assume e: "e = env" "k = roomId" and "I st"
      have f: "keeps I (f env roomId)" by (rule soundI) (use IH in fastforce)
      have rest: "keeps I (\<lambda>st'. if b then f env roomId st' else ret () st')" for b
        by (cases b) (simp_all add: f sound_ret)
      have "keeps I (after (loop_next env roomId) (\<lambda>step. case step of
         loop_ends \<Rightarrow> ret ()
       | loop_turn room round participant kind \<Rightarrow>
           (case participant of
              None \<Rightarrow> dispatch_nobody env room
            | Some p \<Rightarrow>
                after (dispatchTurn env room round p kind None honor_pause) (\<lambda>proceed st'.
                if proceed \<and> kind \<noteq> kind_summary then f env roomId st' else ret () st'))))"
        by (rule sound_after [OF next_keeps])
          (auto simp: loop_ok_def intro!: sound_ret nobody_keeps keeps_after [OF dispatch_keeps] rest
            split: loop_step.splits option.splits)
      from soundD(1) [OF this \<open>I st\<close>] run e show "I (snd y)" by (cases y) auto
    qed
  qed
  with \<open>I st\<close> show "I st'" by simp
qed simp

lemma prewarm_keeps: "keeps I (prewarm env roomId r ps token)"
proof -
  have pause: "keeps I (pause_prewarm env roomId r t who detail)" for t who detail
    unfolding pause_prewarm_def by (rule no_value_keeps) (rule tx_pause)
  have probe: "keeps I (probe_ready env roomId r b t)" for b t
    unfolding probe_ready_def by (auto intro!: basics pause split: list.splits)
  show ?thesis unfolding prewarm_def Let_def
    by (auto intro!: keeps_rules pause probe ensure_keeps split: sum.splits)
qed

lemma starting_keeps: "keeps I (starting_token env roomId ps)"
  unfolding starting_token_def by (auto intro!: keeps_rules token_keeps control_keeps ensure_keeps split: option.splits)

lemma message_keeps: "keeps I (transact env (\<lambda>te. appendUserMessage te k r token content))"
  by (rule transact_keeps) (rule tx_message)

lemma start_keeps: "keeps I (startRoundPrepared env roomId seed)"
proof -
  have warm: "keeps I (transact env (no_value (\<lambda>te. transitionRound roomId r token phase_prewarming)))"
    and go: "keeps I (transact env (no_value (\<lambda>te. transitionRound roomId r token phase_running)))" for r token
    by (rule no_value_keeps, erule tx_transition, simp)+
  show ?thesis unfolding startRoundPrepared_def unknown_room_def
    by (auto intro!: keeps_rules look_keeps participants_keeps starting_keeps opens message_keeps warm go prewarm_keeps loop_keeps
        split: option.splits)
qed

lemma start_with_keeps: "keeps I (startRoundWithUserMessage env roomId content)"
  unfolding startRoundWithUserMessage_def by (auto intro: start_keeps sound_fail)

lemma target_keeps: "keeps I (cancelTargetForActiveExecution env k x)"
  unfolding cancelTargetForActiveExecution_def by (auto intro!: basics split: option.splits)

lemma in_flight_keeps: "keeps I (execution_in_flight env k)"
  unfolding execution_in_flight_def by (auto intro!: basics split: option.splits)

lemma run_state_keeps: "keeps I (transact env (no_value (\<lambda>te. setRoomRunState te k token state)))"
  by (rule no_value_keeps) (rule tx_run_state)

lemma pause_keeps: "keeps I (pauseRoom env roomId)"
  unfolding pauseRoom_def
  by (auto intro!: keeps_rules token_keeps run_state_keeps in_flight_keeps target_keeps cancel_keeps split: option.splits)

lemma resume_keeps: "keeps I (resumeRoom env roomId)"
  unfolding resumeRoom_def by (auto intro!: keeps_rules token_keeps run_state_keeps loop_keeps)

lemma cancel_active_keeps: "keeps I (cancelActiveExecution env roomId)"
  unfolding cancelActiveExecution_def
  by (auto intro!: basics token_keeps in_flight_keeps target_keeps split: option.splits)

lemma send_message_keeps: "keeps I (sendUserMessage env roomId content)"
  unfolding sendUserMessage_def by (auto intro!: basics token_keeps message_keeps split: option.splits)

lemma named_some: "named x = Some r \<longleftrightarrow> x = Some r \<and> r \<noteq> []"
  by (auto simp: named_def split: option.splits)

lemma abort_keeps: "keeps I (abortPausedRound env roomId)"
  unfolding abortPausedRound_def
proof (rule keeps_after [OF token_keeps(2)], rule sound_after [OF look_read])
  fix token row
  assume row: "\<exists>st. I st \<and> row = named (Option.bind (rooms (dv_db st) roomId) rm_activeRoundId)"
  show "keeps I (case row of
       None \<Rightarrow> ret ()
     | Some r \<Rightarrow>
         after (look env (\<lambda>d. rounds d r)) (\<lambda>found.
         case found of
           None \<Rightarrow> fail_with ''only a paused round can be ended''
         | Some round \<Rightarrow>
             if rd_phase round \<noteq> phase_paused then fail_with ''only a paused round can be ended''
             else transact env (no_value (\<lambda>te. abortRound te roomId (rd_id round) token))))"
  proof (cases row)
    case None
    then show ?thesis by (simp add: sound_ret)
  next
    case (Some r)
    with row obtain s room where s: "I s" "rooms (dv_db s) roomId = Some room" "rm_activeRoundId room = Some r"
      by (metis bind_eq_Some_conv named_some)
    have "sound I (look env (\<lambda>d. rounds d r)) (\<lambda>found. \<forall>round. found = Some round \<longrightarrow>
        keeps I (transact env (no_value (\<lambda>te. abortRound te roomId (rd_id round) token))))"
      by (rule sound_weaken [OF look_read]) (auto intro: aborts [OF s(1) _ s(2,3)])
    note found = sound_after [OF this]
    show ?thesis by (auto simp: Some intro!: sound_fail found split: option.splits)
  qed
qed

lemma paused_keeps:
  "sound I (paused_round env roomId refusal) (\<lambda>(room, round). T room round \<and> (\<exists>s. I s \<and> rooms (dv_db s) roomId = Some room))"
  unfolding paused_round_def unknown_room_def
proof (rule sound_after [OF look_read])
  fix row
  assume row: "\<exists>st. I st \<and> row = rooms (dv_db st) roomId"
  show "sound I (case row of
       None \<Rightarrow> fail_with (''unknown room '' @ roomId)
     | Some room \<Rightarrow>
         if rm_runState room = room_paused then fail_with ''room scheduling is paused; resume first''
         else
           after (case named (rm_activeRoundId room) of
                    None \<Rightarrow> ret None
                  | Some r \<Rightarrow> look env (\<lambda>d. rounds d r)) (\<lambda>found.
           case found of
             None \<Rightarrow> fail_with refusal
           | Some round \<Rightarrow> if rd_phase round \<noteq> phase_paused then fail_with refusal else ret (room, round)))
     (\<lambda>(room, round). T room round \<and> (\<exists>s. I s \<and> rooms (dv_db s) roomId = Some room))"
  proof (cases row)
    case None
    then show ?thesis by (simp add: sound_fail)
  next
    case (Some room)
    with row obtain s where s: "I s" "rooms (dv_db s) roomId = Some room" by auto
    have "sound I (case named (rm_activeRoundId room) of None \<Rightarrow> ret None | Some r \<Rightarrow> look env (\<lambda>d. rounds d r))
      (\<lambda>found. \<forall>round. found = Some round \<longrightarrow> T room round)"
    proof (cases "named (rm_activeRoundId room)")
      case None
      then show ?thesis by (simp add: sound_ret)
    next
      case r: (Some r)
      then have "rm_activeRoundId room = Some r" by (simp add: named_some)
      with r show ?thesis by (auto intro!: sound_weaken [OF look_read] active [OF s(1) _ s(2)])
    qed
    then have go: "sound I (after (case named (rm_activeRoundId room) of None \<Rightarrow> ret None | Some r \<Rightarrow> look env (\<lambda>d. rounds d r)) (\<lambda>found.
           case found of
             None \<Rightarrow> fail_with refusal
           | Some round \<Rightarrow> if rd_phase round \<noteq> phase_paused then fail_with refusal else ret (room, round)))
       (\<lambda>(room, round). T room round \<and> (\<exists>s. I s \<and> rooms (dv_db s) roomId = Some room))"
      by (rule sound_after) (use s in \<open>auto intro!: sound_fail sound_ret split: option.splits\<close>)
    show ?thesis
      by (cases "rm_runState room = room_paused") (simp_all only: Some option.case if_True if_False refl go sound_fail)
  qed
qed

lemma skip_keeps: "keeps I (skipFailedParticipant env roomId)"
proof -
  have tx: "keeps I (transact env (\<lambda>te d. map_sum id (\<lambda>(d', r). (d', ())) (skipParticipant te roomId r token d)))" for r token
  proof (rule transact_keeps)
    fix te d d' x
    assume "map_sum id (\<lambda>(d', r). (d', ())) (skipParticipant te roomId r token d) = Inr (d', x)"
    then obtain p phase where "skipParticipant te roomId r token d = Inr (d', p, phase)"
      by (cases "skipParticipant te roomId r token d") auto
    then show "driver_tx te d d'" by (rule tx_skip)
  qed
  show ?thesis unfolding skipFailedParticipant_def
    by (auto intro!: keeps_after [OF token_keeps(2)] sound_after [OF paused_keeps] keeps_after [OF tx] loop_keeps split: prod.splits)
qed

lemma retry_failed_keeps: "keeps I (retryFailedParticipant env roomId)"
proof -
  have tx: "keeps I (transact env (no_value (\<lambda>te. resumeRound roomId r token)))" for r token
    by (rule no_value_keeps) (rule tx_resume)
  have go: "keeps I (after (look env (\<lambda>d. rounds d (rd_id round))) (\<lambda>freshRound.
      after (look env (\<lambda>d. rooms d roomId)) (\<lambda>freshRoom.
      case freshRoom of None \<Rightarrow> throw (JsError (TypeError (oe_message env)))
      | Some rm \<Rightarrow> (case freshRound of None \<Rightarrow> throw (JsError (TypeError (oe_message env)))
        | Some rd \<Rightarrow>
            after (dispatchTurn env rm rd p kind retryOf honor_pause) (\<lambda>proceed. if proceed then runLoop env roomId else ret ())))))"
    if T: "T room round" and s: "I s" "rooms (dv_db s) roomId = Some room" for room round s p kind retryOf
  proof -
    have one: "sound I (look env (\<lambda>d. rounds d (rd_id round))) (\<lambda>found. \<forall>r. found = Some r \<longrightarrow> T room r)"
      by (rule sound_weaken [OF look_read]) (auto intro: same_round [OF T])
    have two: "sound I (look env (\<lambda>d. rooms d roomId)) (\<lambda>found. \<forall>m. found = Some m \<longrightarrow> (\<forall>r. T room r \<longrightarrow> T m r))"
      by (rule sound_weaken [OF look_read]) (auto intro: rekey [OF _ s(1) _ s(2)])
    show ?thesis
      by (rule sound_after [OF one], rule sound_after [OF two])
        (auto intro!: sound_throw sound_ret keeps_after [OF dispatch_keeps] loop_keeps split: option.splits)
  qed
  have row: "keeps I (look env (\<lambda>d. executions d x))" for x by (rule look_keeps)
  show ?thesis unfolding retryFailedParticipant_def
    by (auto intro!: keeps_after [OF token_keeps(2)] sound_after [OF paused_keeps] keeps_after [OF row] sound_fail
        keeps_after [OF tx] go split: prod.splits option.splits)
qed

lemma rotate_keeps: "keeps I (rotateScope env roomId)"
  unfolding rotateScope_def
  by (auto intro!: sound_after [OF paused_keeps] basics abort_keeps preferred_keeps close_binding_keeps start_keeps
      split: prod.splits option.splits)

lemma release_keeps: "keeps I (releaseRuntime env roomId)"
  unfolding releaseRuntime_def unknown_room_def by (auto intro!: basics releases split: option.splits)

lemma warm_up_keeps: "keeps I (warm_up env roomId)"
  unfolding warm_up_def by (auto intro!: keeps_rules token_keeps control_keeps participants_keeps ensure_keeps)

lemma conclude_room_keeps: "keeps I (concludeRoom env roomId)"
proof -
  have go: "keeps I (after (look env (\<lambda>d. report_anchor (rows_where (\<lambda>r. rd_roomId r = roomId \<and> rd_phase r = phase_completed) (db_rounds d)))) (\<lambda>anchor.
      case anchor of
        None \<Rightarrow> fail_with ''no completed round to summarize''
      | Some round \<Rightarrow>
          after (look env (\<lambda>d. rooms d roomId)) (\<lambda>fresh.
          case fresh of
            None \<Rightarrow> throw (JsError (TypeError (oe_message env)))
          | Some freshRoom \<Rightarrow>
              after (dispatchTurn env freshRoom round (rm_facilitator freshRoom) kind_report None explicit_conclude)
                (\<lambda>_. ret ()))))"
  proof (rule sound_after [OF look_read])
    fix anchor
    assume anchor: "\<exists>st. I st \<and> anchor = report_anchor (rows_where (\<lambda>r. rd_roomId r = roomId \<and> rd_phase r = phase_completed) (db_rounds (dv_db st)))"
    show "keeps I (case anchor of
        None \<Rightarrow> fail_with ''no completed round to summarize''
      | Some round \<Rightarrow>
          after (look env (\<lambda>d. rooms d roomId)) (\<lambda>fresh.
          case fresh of
            None \<Rightarrow> throw (JsError (TypeError (oe_message env)))
          | Some freshRoom \<Rightarrow>
              after (dispatchTurn env freshRoom round (rm_facilitator freshRoom) kind_report None explicit_conclude)
                (\<lambda>_. ret ())))"
    proof (cases anchor)
      case None
      then show ?thesis by (simp add: sound_fail)
    next
      case (Some round)
      with anchor obtain s where s: "I s"
        "round \<in> set (rows_where (\<lambda>r. rd_roomId r = roomId \<and> rd_phase r = phase_completed) (db_rounds (dv_db s)))"
        using report_anchor_in by metis
      have "sound I (look env (\<lambda>d. rooms d roomId)) (\<lambda>found. \<forall>m. found = Some m \<longrightarrow> T m round)"
        by (rule sound_weaken [OF look_read]) (auto intro: anchored [OF s(1) _ s(2)])
      note found = sound_after [OF this]
      show ?thesis by (auto simp: Some intro!: found sound_throw keeps_after [OF dispatch_keeps] sound_ret split: option.splits)
    qed
  qed
  show ?thesis unfolding concludeRoom_def unknown_room_def
    by (auto intro!: basics warm_up_keeps go split: option.splits)
qed

lemma perform_keeps: "keeps I (perform env roomId wish)"
  by (cases wish) (auto intro!: keeps_rules control_keeps participants_keeps ensure_keeps start_keeps start_with_keeps
      conclude_room_keeps loop_keeps pause_keeps resume_keeps cancel_active_keeps abort_keeps retry_failed_keeps skip_keeps
      rotate_keeps release_keeps send_message_keeps audit_keeps simp: ignoring_def)

end

end
