(* ===== verification/Driver_Properties.thy ===== *)
theory Driver_Properties
  imports Driver_Invariant
begin

text \<open>
  Three invariants of the round driver, as interpretations of the locales of \<open>Driver_Invariant\<close>: its
  writes are transactions of the discussion model, so the database stays reachable; a turn is posted
  to the Host only for an execution row that was written just before and after a reading of the
  gate, and an id at most once; and the operations that reconnect, recover or audit post nothing.
\<close>

section \<open>Rounds keep their room\<close>

text \<open>\<open>home\<close> tells the room that a round id belongs to; ids are UUIDs.\<close>

definition homed :: "(string \<Rightarrow> string) \<Rightarrow> db \<Rightarrow> bool" where
  "homed home d \<longleftrightarrow> (\<forall>r a. rounds d r = Some a \<longrightarrow> rd_id a = r \<and> rd_roomId a = home r)"

lemma homedD: "homed home d \<Longrightarrow> rounds d r = Some a \<Longrightarrow> rd_id a = r \<and> rd_roomId a = home r"
  by (simp add: homed_def)

lemma homed_puts [simp]:
  "homed home (put_room r d) = homed home d" "homed home (put_execution e d) = homed home d"
  "homed home (put_binding b d) = homed home d" "homed home (put_message m d) = homed home d"
  "homed home (put_summary s d) = homed home d" "homed home (put_report p d) = homed home d"
  "homed home (bumpRoomContext sha t room d) = homed home d"
  by (simp_all add: homed_def db_lookup)

lemma homed_put_round: "homed home d \<Longrightarrow> rd_roomId a = home (rd_id a) \<Longrightarrow> homed home (put_round a d)"
  by (auto simp: homed_def db_lookup)

lemma homed_move:
  "homed home d \<Longrightarrow> rounds d r = Some a \<Longrightarrow> rd_id b = rd_id a \<Longrightarrow> rd_roomId b = rd_roomId a \<Longrightarrow> homed home e \<Longrightarrow>
   homed home (put_round b e)"
  by (rule homed_put_round) (auto dest: homedD)

lemma released_home [simp]: "rd_id (released_round p w r) = rd_id r" "rd_roomId (released_round p w r) = rd_roomId r"
  by (simp_all add: released_round_def Let_def)

lemma aborted_home [simp]: "rd_id (aborted_round t r) = rd_id r" "rd_roomId (aborted_round t r) = rd_roomId r"
  by (simp_all add: aborted_round_def)

lemma homed_failure:
  "homed home d \<Longrightarrow> rounds d r = Some round \<Longrightarrow> homed home (recordExecutionFailure t e round kind error pause d)"
  by (auto simp: recordExecutionFailure_def Let_def intro!: homed_move)

lemma homed_discard:
  "homed home d \<Longrightarrow> rounds d r = Some round \<Longrightarrow> homed home (discardLockedExecution t e round outcome q error d)"
  by (auto simp: discardLockedExecution_def Let_def intro!: homed_move)

lemma homed_interrupt: "homed home d \<Longrightarrow> homed home (interrupt_active t round d)"
  by (auto simp: interrupt_active_def split: option.splits)

lemma homed_driver_tx: "driver_tx te d d' \<Longrightarrow> homed home d \<Longrightarrow> homed home d'"
proof (cases rule: driver_tx.cases, assumption)
  fix k r token target
  assume "transitionRound k r token target d = Inr d'" "homed home d"
  then show "homed home d'" by (auto simp: transitionRound_def tx_success intro!: homed_move)
next
  fix k r token reason
  assume "pauseRound k r token reason d = Inr d'" "homed home d"
  then show "homed home d'" by (auto simp: pauseRound_def tx_success intro!: homed_move)
next
  fix k r token
  assume "resumeRound k r token d = Inr d'" "homed home d"
  then show "homed home d'" by (auto simp: resumeRound_def tx_success intro!: homed_move)
next
  fix k r token p phase
  assume skip: "skipParticipant te k r token d = Inr (d', p, phase)" and home: "homed home d"
  from skip obtain room round moved where "rounds d r = Some round"
    "moved = round\<lparr>rd_nextParticipantIndex := rd_nextParticipantIndex round + 1, rd_activeExecutionId := None,
       rd_pausedFrom := None, rd_pauseReason := None\<rparr>"
    "d' = put_room (room\<lparr>rm_lastActiveAt := tv_ts te 0\<rparr>) (put_round (moved\<lparr>rd_phase := phase_at_cursor moved\<rparr>) d)"
    by (auto simp: skipParticipant_def Let_def tx_success split: option.splits if_splits)
  with home show "homed home d'" by (auto intro: homed_move)
qed (auto simp: failExecution_def failUnboundExecution_def discardExecution_def markExecutionDispatched_def
    dropUnstartedRetryClaim_def appendUserMessage_def setRoomRunState_def markAcknowledged_def markAckExpired_def
    settle_ack_def createRuntimeBindingTx_def activateRuntimeBinding_def takeoverRuntimeBinding_def markBindingClosed_def
    releaseRuntime_tx_def Let_def tx_success homed_failure homed_discard split: option.splits if_splits)

section \<open>The commit pipeline as a sequence of writes\<close>

inductive pipeline_tx :: "tx_env \<Rightarrow> db \<Rightarrow> db \<Rightarrow> bool" for te where
  pipe_succeeded: "markExecutionSucceededUncommitted te x em u q ds ts d = Inr d' \<Longrightarrow> pipeline_tx te d d'"
| pipe_commit: "commit_dispatch te kind input d = Inr (d', r) \<Longrightarrow> pipeline_tx te d d'"
| pipe_discard: "discardExecution te x token outcome q er d = Inr (d', res) \<Longrightarrow> pipeline_tx te d d'"
| pipe_acknowledged: "markAcknowledged te x d = Inr d' \<Longrightarrow> pipeline_tx te d d'"
| pipe_expired: "markAckExpired te x d = Inr d' \<Longrightarrow> pipeline_tx te d d'"

lemma pipeline_tx_step: "pipeline_tx te d d' \<Longrightarrow> tv_sha te = sha \<Longrightarrow> discussion_step sha d d'"
  by (cases rule: pipeline_tx.cases, assumption)
    (auto intro: discussion_step.intros dest: commit_dispatch_step)

text \<open>A commit leaves the rounds alone or moves the round of its execution.\<close>

definition same_rounds :: "db \<Rightarrow> db \<Rightarrow> bool" where
  "same_rounds d d' \<longleftrightarrow> db_rounds d' = db_rounds d
     \<or> (\<exists>r a b. rounds d r = Some a \<and> rd_id b = rd_id a \<and> rd_roomId b = rd_roomId a \<and> db_rounds d' = tb_put (rd_id b) b (db_rounds d))"

lemma homed_same: "same_rounds d d' \<Longrightarrow> homed home d \<Longrightarrow> homed home d'"
  by (auto simp: same_rounds_def homed_def split: if_splits)

lemma same_rounds_puts [simp]:
  "same_rounds d d" "same_rounds d (put_room x e) = same_rounds d e" "same_rounds d (put_execution x2 e) = same_rounds d e"
  "same_rounds d (put_message x3 e) = same_rounds d e" "same_rounds d (put_summary x4 e) = same_rounds d e"
  "same_rounds d (put_report x5 e) = same_rounds d e" "same_rounds d (bumpRoomContext sha t room e) = same_rounds d e"
  by (simp_all add: same_rounds_def db_lookup)

lemma same_rounds_move:
  "rounds d r = Some a \<Longrightarrow> rd_id b = rd_id a \<Longrightarrow> rd_roomId b = rd_roomId a \<Longrightarrow> db_rounds e = db_rounds d \<Longrightarrow>
   same_rounds d (put_round b e)"
  unfolding same_rounds_def by (intro disjI2 exI [of _ r] exI [of _ a] exI [of _ b]) (simp add: db_lookup)

lemma discard_rounds:
  "rounds d r = Some round \<Longrightarrow> same_rounds d (discardLockedExecution t e round outcome q error d)"
  by (auto simp: discardLockedExecution_def Let_def db_lookup intro!: same_rounds_move)

lemma commitModelMessage_rounds: "commitModelMessage te input d = Inr (d', r) \<Longrightarrow> same_rounds d d'"
  by (auto simp: commitModelMessage_def assertCommittable_def replayOrThrow_def persistCommittedExecution_def Let_def
      tx_success discard_rounds db_lookup split: if_splits intro!: same_rounds_move)

lemma commitFocusMessage_rounds: "commitFocusMessage te input d = Inr (d', r) \<Longrightarrow> same_rounds d d'"
  by (auto simp: commitFocusMessage_def assertCommittable_def replayOrThrow_def persistCommittedExecution_def Let_def
      tx_success discard_rounds db_lookup split: if_splits intro!: same_rounds_move)

lemma commitSummary_rounds: "commitSummary te input d = Inr (d', r) \<Longrightarrow> same_rounds d d'"
  by (auto simp: commitSummary_def assertCommittable_def replayOrThrow_def persistCommittedExecution_def Let_def
      tx_success discard_rounds db_lookup split: if_splits intro!: same_rounds_move)

lemma commitReport_rounds: "commitReport te input d = Inr (d', r) \<Longrightarrow> same_rounds d d'"
  by (auto simp: commitReport_def assertCommittable_def replayOrThrow_def persistCommittedExecution_def Let_def
      tx_success discard_rounds db_lookup split: if_splits intro!: same_rounds_move)

lemma homed_pipeline_tx: "pipeline_tx te d d' \<Longrightarrow> homed home d \<Longrightarrow> homed home d'"
proof (cases rule: pipeline_tx.cases, assumption)
  fix kind input r
  assume "commit_dispatch te kind input d = Inr (d', r)" and home: "homed home d"
  then have "same_rounds d d'"
    unfolding commit_dispatch_def
    by (cases kind) (auto dest: commitModelMessage_rounds commitFocusMessage_rounds commitSummary_rounds commitReport_rounds)
  then show "homed home d'" using home by (rule homed_same)
next
  fix x em u q ds ts
  assume "markExecutionSucceededUncommitted te x em u q ds ts d = Inr d'" "homed home d"
  then show "homed home d'" by (auto simp: markExecutionSucceededUncommitted_def tx_success)
next
  fix x token outcome q er res
  assume "discardExecution te x token outcome q er d = Inr (d', res)" "homed home d"
  then show "homed home d'" by (rule homed_driver_tx [OF tx_discard])
next
  fix x
  assume "markAcknowledged te x d = Inr d'" "homed home d"
  then show "homed home d'" by (rule homed_driver_tx [OF tx_acknowledged])
next
  fix x
  assume "markAckExpired te x d = Inr d'" "homed home d"
  then show "homed home d'" by (rule homed_driver_tx [OF tx_expired])
qed

lemma ack_keeps_closed:
  assumes "P d" "\<And>c. P c \<Longrightarrow> P (world c)" "\<And>c c'. P c \<Longrightarrow> pipeline_tx te c c' \<Longrightarrow> P c'"
    and "ack_and_return te world client_ack deps e disp h d = (r, d', acks)"
  shows "P d'"
proof -
  have settle: "P (case markAcknowledged te x c of Inl _ \<Rightarrow> c | Inr c' \<Rightarrow> c')"
    "P (case markAckExpired te x c of Inl _ \<Rightarrow> c | Inr c' \<Rightarrow> c')" if "P c" for c x
    using that assms(3) [OF that pipe_acknowledged, of x] assms(3) [OF that pipe_expired, of x]
    by (simp_all split: sum.split)
  then have quietly: "P c \<Longrightarrow> P (try_tx (markAcknowledged te x) c)" "P c \<Longrightarrow> P (try_tx (markAckExpired te x) c)" for c x
    by (simp_all add: try_tx_def)
  have thrown: "P c'" if "P c" "throwing_tx (markAckExpired te x) c = (err, c')" for c c' x err
    using that(2) settle(2) [OF that(1), of x] by (auto simp: throwing_tx_def split: sum.splits)
  obtain err d1 acks1 where a: "ackAfterPersist te world client_ack deps e disp d = ((err, d1), acks1)" by (metis surj_pair)
  have "P d1"
    using a assms(1) quietly(1,2) [OF assms(2) [OF assms(1)]] assms(2) [OF assms(1)]
    by (auto simp: ackAfterPersist_def Let_def split: option.splits if_splits AckReply.splits AckState.splits
        dest: thrown [OF assms(1)] thrown [OF assms(2) [OF assms(1)]])
  with a assms(4) show ?thesis by (auto simp: ack_and_return_def split: option.splits)
qed

lemma persist_closed:
  assumes "P d" and world: "\<And>n c. P c \<Longrightarrow> P (world n c)" and tx: "\<And>n c c'. P c \<Longrightarrow> pipeline_tx (te n) c c' \<Longrightarrow> P c'"
    and run: "persist_and_ack te world client_ack deps x event e d = (r, d', acks)"
  shows "P d'"
proof -
  have finish: "P d'" if "P c" "ack_and_return (te 2) (world 3) client_ack deps e disp h c = (r, d', acks)" for c disp h
    using that(1) world tx that(2) by (rule ack_keeps_closed)
  show ?thesis
  proof (cases "classifyCompleted e event")
    case CommitOutput
    show ?thesis
    proof (cases "commit_dispatch (te 1) (mx_resultKind e) (commit_input deps x event) d")
      case (Inl err)
      with run CommitOutput assms(1) show ?thesis by (simp add: persist_and_ack_def)
    next
      case (Inr p)
      then obtain c res where p: "commit_dispatch (te 1) (mx_resultKind e) (commit_input deps x event) d = Inr (c, res)"
        by (cases p) simp
      from run CommitOutput p finish [OF tx [OF assms(1) pipe_commit [OF p]]] show ?thesis
        by (cases res) (simp_all add: persist_and_ack_def)
    qed
  next
    case (DiscardOutput outcome error)
    show ?thesis
    proof (cases "discardExecution (te 1) x (dp_token deps) outcome (ev_finalSeq event) (Some error) d")
      case (Inl err)
      with run DiscardOutput assms(1) show ?thesis by (simp add: persist_and_ack_def)
    next
      case (Inr p)
      then obtain c res where
        p: "discardExecution (te 1) x (dp_token deps) outcome (ev_finalSeq event) (Some error) d = Inr (c, res)"
        by (cases p) simp
      from run DiscardOutput p finish [OF tx [OF assms(1) pipe_discard [OF p]]] show ?thesis
        by (cases res) (simp_all add: persist_and_ack_def)
    qed
  qed
qed

text \<open>What the world's moves and the pipeline's transactions keep, the pipeline keeps.\<close>

lemma pipeline_closed:
  assumes "P d" and world: "\<And>n c. P c \<Longrightarrow> P (world n c)" and tx: "\<And>n c c'. P c \<Longrightarrow> pipeline_tx (te n) c c' \<Longrightarrow> P c'"
    and run: "handleCompletedExecution te world client_ack deps x event d = (r, d', acks)"
  shows "P d'"
proof (cases "executions d x")
  case None
  with run assms(1) show ?thesis by (simp add: handleCompletedExecution_def)
next
  case (Some current)
  note P0 = world [OF assms(1), of 0]
  have rest: "P d'" if P1: "P d1" and go: "(case executions (world 1 d1) x of None \<Rightarrow> (Inl VanishedExecution, world 1 d1, [])
      | Some e \<Rightarrow> persist_and_ack te world client_ack deps x event e (world 2 (world 1 d1))) = (r, d', acks)" for d1
  proof -
    note P2 = world [OF P1, of 1] world [OF world [OF P1, of 1], of 2]
    show ?thesis
    proof (cases "executions (world 1 d1) x")
      case None
      with go P2(1) show ?thesis by auto
    next
      case (Some e)
      with go have "persist_and_ack te world client_ack deps x event e (world 2 (world 1 d1)) = (r, d', acks)" by simp
      with P2(2) world tx show ?thesis by (rule persist_closed)
    qed
  qed
  show ?thesis
  proof (cases "mx_state current = mx_running")
    case False
    with run Some show ?thesis by (intro rest [OF P0]) (simp add: handleCompletedExecution_def Let_def del: One_nat_def)
  next
    case running: True
    show ?thesis
    proof (cases "markExecutionSucceededUncommitted (te 0) x (ev_effectiveModel event) (ev_usage event)
             (ev_finalSeq event) (ev_dispatchState event) (ev_toolState event) (world 0 d)")
      case (Inl err)
      with run Some running P0 show ?thesis by (simp add: handleCompletedExecution_def Let_def)
    next
      case (Inr d1)
      from run Some running Inr show ?thesis
        by (intro rest [OF tx [OF P0 pipe_succeeded [OF Inr]]]) (simp add: handleCompletedExecution_def Let_def del: One_nat_def)
    qed
  qed
qed

section \<open>The database under the driver\<close>

text \<open>A page of one room in a fair world: the other pages run transactions too, rounds keep their
  room, and the ids minted on this page are those of its room.\<close>

definition fair_world :: "(string \<Rightarrow> string) \<Rightarrow> (string \<Rightarrow> string) \<Rightarrow> string \<Rightarrow> orch_env \<Rightarrow> bool" where
  "fair_world sha home roomId env \<longleftrightarrow>
     (\<forall>n. tv_sha (oe_tx env n) = sha \<and> home (tv_uuid (oe_tx env n)) = roomId)
   \<and> (\<forall>n d. (discussion_step sha)\<^sup>*\<^sup>* d (oe_world env n d))
   \<and> (\<forall>n d. homed home d \<longrightarrow> homed home (oe_world env n d))"

definition db_page :: "(string \<Rightarrow> string) \<Rightarrow> (string \<Rightarrow> string) \<Rightarrow> string \<Rightarrow> orch_env \<Rightarrow> drv \<Rightarrow> bool" where
  "db_page sha home roomId env st \<longleftrightarrow>
     fair_world sha home roomId env \<and> discussion_reachable sha (dv_db st) \<and> homed home (dv_db st)"

definition round_of :: "(string \<Rightarrow> string) \<Rightarrow> DiscussionRoom \<Rightarrow> DiscussionRound \<Rightarrow> bool" where
  "round_of home room round \<longleftrightarrow> home (rd_id round) = rm_id room"

lemma fairD:
  assumes "fair_world sha home roomId env"
  shows "tv_sha (oe_tx env n) = sha" "home (tv_uuid (oe_tx env n)) = roomId"
    "discussion_reachable sha d \<Longrightarrow> discussion_reachable sha (oe_world env n d)"
    "homed home d \<Longrightarrow> homed home (oe_world env n d)"
  using assms unfolding fair_world_def discussion_reachable_def by (auto intro: rtranclp_trans)

lemma db_page_others: "db_page sha home roomId env st \<Longrightarrow> db_page sha home roomId env (others env st)"
  by (auto simp: db_page_def others_def intro: fairD)

lemma db_page_write:
  assumes "db_page sha home roomId env st" "discussion_step sha (dv_db st) d" "homed home d"
  shows "db_page sha home roomId env (st\<lparr>dv_db := d\<rparr>)"
  using assms by (auto simp: db_page_def intro: reachable_step)

lemma db_transact:
  assumes "\<And>n d d' x. fair_world sha home roomId env \<Longrightarrow> discussion_reachable sha d \<Longrightarrow> homed home d \<Longrightarrow>
      f (oe_tx env n) d = Inr (d', x) \<Longrightarrow> discussion_step sha d d' \<and> homed home d'"
  shows "keeps (db_page sha home roomId env) (transact env f)"
proof (rule soundI)
  fix st r st'
  assume "db_page sha home roomId env st" and run: "transact env f st = Some (r, st')"
  note here = db_page_others [OF this(1)]
  show "db_page sha home roomId env st' \<and> (\<forall>x. r = Inr x \<longrightarrow> True)"
  proof (cases "f (oe_tx env (dv_tick st)) (dv_db (others env st))")
    case (Inl e)
    with run here show ?thesis by (auto simp: transact_def Let_def)
  next
    case (Inr p)
    obtain d x where p: "p = (d, x)" by (cases p)
    from here have "discussion_step sha (dv_db (others env st)) d \<and> homed home d"
      by (intro assms [OF _ _ _ Inr [unfolded p]]) (simp_all add: db_page_def)
    with run Inr p here show ?thesis by (auto simp: transact_def Let_def intro: db_page_write)
  qed
qed

lemma homed_begin:
  assumes "begin_tx execution token te d = Inr d'" "homed home d"
  shows "homed home d'"
proof -
  have concluded: "homed home (conclude_round t room d)" for t room
    using assms(2) by (auto simp: conclude_round_def split: option.splits intro!: homed_move)
  show ?thesis
    using assms
    by (cases "mx_resultKind execution")
      (auto simp: begin_tx_def beginExecution_def beginFocusExecution_def beginReportExecution_def Let_def tx_success
        concluded split: if_splits intro!: homed_move)
qed

lemma begin_step:
  assumes "begin_tx execution token te d = Inr d'" "homed home d" "tv_sha te = sha"
    "execution = createModelExecution now f" "home (mx_roundId execution) = mx_roomId execution"
  shows "discussion_step sha d d'"
proof -
  have "dispatched_for d execution"
    using assms(2,4,5) homedD [OF assms(2)] by (fastforce simp: dispatched_for_def)
  with assms(1,3,4) show ?thesis
    by (cases "mx_resultKind execution")
      (auto simp: begin_tx_def intro: step_beginExecution step_beginFocusExecution step_beginReportExecution)
qed

lemma db_page_log [simp]:
  "db_page sha home roomId env (st\<lparr>dv_log := l\<rparr>) = db_page sha home roomId env st"
  "db_page sha home roomId env (st\<lparr>dv_tick := n\<rparr>) = db_page sha home roomId env st"
  "db_page sha home roomId env (st\<lparr>dv_host := h\<rparr>) = db_page sha home roomId env st"
  "db_page sha home roomId env (st\<lparr>dv_locked := k\<rparr>) = db_page sha home roomId env st"
  by (simp_all add: db_page_def)

lemma db_page_room:
  assumes "db_page sha home k env st"
  shows "rooms (dv_db st) r = Some room \<Longrightarrow> rm_id room = r"
    "rooms (dv_db st) r = Some room \<Longrightarrow> rm_activeRoundId room = Some x \<Longrightarrow> home x = r"
proof -
  from assms have ok: "db_ok sha (dv_db st)" and home: "homed home (dv_db st)" by (simp_all add: db_page_def reachable_ok)
  show "rm_id room = r" if "rooms (dv_db st) r = Some room" using ids(1) [OF ok that] .
  show "home x = r" if "rooms (dv_db st) r = Some room" "rm_activeRoundId room = Some x"
    using links_okD(1) [OF db_okD(2) [OF ok] that] homedD [OF home] by auto
qed

lemma db_page_round: "db_page sha home k env st \<Longrightarrow> rounds (dv_db st) r = Some round \<Longrightarrow> rd_id round = r \<and> rd_roomId round = home r"
  by (auto simp: db_page_def dest: homedD)

lemma db_keeps_jot: "keeps (db_page sha home k env) (jot ev)"
  by (auto intro!: soundI simp: jot_def)

lemma db_keeps_ask: "keeps (db_page sha home k env) (ask reply ev)"
  by (auto intro!: soundI simp: ask_def)

lemma new_execution_value:
  "sound (db_page sha home k env) (new_execution env room round p kind txt retryOf)
     (\<lambda>e. (\<exists>now f. e = createModelExecution now f) \<and> mx_roundId e = rd_id round \<and> mx_roomId e = rm_id room)"
proof (rule soundI)
  fix st r st'
  assume "db_page sha home k env st" "new_execution env room round p kind txt retryOf st = Some (r, st')"
  moreover have "mx_roundId (createModelExecution now f) = xf_roundId f" "mx_roomId (createModelExecution now f) = xf_roomId f" for now f
    by (simp_all add: createModelExecution_def)
  ultimately show "db_page sha home k env st' \<and> (\<forall>e. r = Inr e \<longrightarrow>
      (\<exists>now f. e = createModelExecution now f) \<and> mx_roundId e = rd_id round \<and> mx_roomId e = rm_id room)"
    by (auto simp: new_execution_def after_def fresh_uuid_def ret_def)
qed

text \<open>The facts of the first locale, on the model's database.\<close>

lemma db_driver: "driver_invariant env (db_page sha home k env) (round_of home)"
proof (unfold_locales, goal_cases)
  case (1 st)
  then show ?case by (rule db_page_others)
next
  case (6 st n d)
  from 6(1) have "tv_sha (oe_tx env n) = sha" by (auto simp: db_page_def dest: fairD(1))
  from driver_tx_step [OF 6(2) this] homed_driver_tx [OF 6(2)] 6(1) show ?case
    by (intro db_page_write) (simp_all add: db_page_def)
next
  case (7 st deps x event r st')
  let ?P = "\<lambda>d. discussion_reachable sha d \<and> homed home d"
  from 7(1) have fair: "fair_world sha home k env" and P: "?P (dv_db st)" by (simp_all add: db_page_def)
  obtain r1 d acks where run: "handleCompletedExecution (\<lambda>k. oe_tx env (dv_tick st + k)) (\<lambda>k. oe_world env (dv_tick st + k))
      (oe_ack env (dv_log st)) deps x event (dv_db st) = (r1, d, acks)" by (metis surj_pair)
  have "?P d"
  proof (rule pipeline_closed [where P = ?P, OF P _ _ run])
    fix n c
    assume "?P c"
    then show "?P (oe_world env (dv_tick st + n) c)" by (simp add: fairD [OF fair])
  next
    fix n c c'
    assume "?P c" "pipeline_tx (oe_tx env (dv_tick st + n)) c c'"
    then show "?P c'"
      using reachable_step [OF _ pipeline_tx_step [OF _ fairD(1) [OF fair]]] homed_pipeline_tx by blast
  qed
  with 7 run fair show ?case by (auto simp: run_pipeline_def db_page_def)
next
  case (8 room round st room')
  then show ?case using db_page_room(1) [OF 8(2,3)] by (simp add: round_of_def)
next
  case (9 room round st round')
  then show ?case using db_page_round [OF 9(2,3)] by (simp add: round_of_def)
qed simp_all

interpretation db_drive: driver_invariant env "db_page sha home k env" "round_of home" for env sha home k
  by (rule db_driver)

lemma db_posts:
  assumes "round_of home room round"
  shows "keeps (db_page sha home k env) (post_turn env room round p kind txt retryOf scheduling snapshot scope token)"
proof -
  let ?I = "db_page sha home k env"
  have begun: "keeps ?I (transact env (no_value (begin_tx e token)))"
    if "\<exists>now f. e = createModelExecution now f" "mx_roundId e = rd_id round" "mx_roomId e = rm_id room" for e
  proof (rule db_transact)
    fix n d d' x
    assume fair: "fair_world sha home k env" and home: "homed home d"
      and "no_value (begin_tx e token) (oe_tx env n) d = Inr (d', x)"
    then have tx: "begin_tx e token (oe_tx env n) d = Inr d'"
      by (cases "begin_tx e token (oe_tx env n) d") (auto simp: no_value_def)
    from that assms have "home (mx_roundId e) = mx_roomId e" by (simp add: round_of_def)
    with that(1) begin_step [OF tx home fairD(1) [OF fair]] homed_begin [OF tx home]
    show "discussion_step sha d d' \<and> homed home d'" by blast
  qed
  have turn: "keeps ?I (begin_turn_execution env room e token scheduling)"
    if "(\<exists>now f. e = createModelExecution now f) \<and> mx_roundId e = rd_id round \<and> mx_roomId e = rm_id room" for e
    unfolding begin_turn_execution_def paused_during_begin_def using that
    by (auto intro!: db_drive.basics begun db_keeps_jot db_drive.gate_keeps db_drive.fail_keeps split: option.splits)
  have mark: "keeps ?I (transact env (no_value (\<lambda>te. markExecutionDispatched te x h s ds)))" for x h s ds
    by (rule db_drive.no_value_keeps) (rule tx_dispatched)
  have send: "keeps ?I (send_turn env s e snap t)" for s e snap t
    unfolding send_turn_def
    by (auto intro!: keeps_rules db_keeps_ask db_drive.host_keeps mark db_drive.cancel_keeps db_drive.fail_keeps
        split: sum.splits)
  show ?thesis unfolding post_turn_def
    by (rule sound_after [OF new_execution_value]) (auto intro!: keeps_rules turn send)
qed

lemma db_opens: "keeps (db_page sha home k env) (transact env (\<lambda>te. createRound te k token order))"
proof (rule db_transact)
  fix n d d' round
  assume fair: "fair_world sha home k env" and "homed home d" and tx: "createRound (oe_tx env n) k token order d = Inr (d', round)"
  with fairD(2) [OF fair, of n] show "discussion_step sha d d' \<and> homed home d'"
    by (auto intro!: step_createRound homed_put_round simp: createRound_def Let_def tx_success new_round_def)
qed

lemma db_releases: "keeps (db_page sha home k env) (release_guarded env r)"
proof (rule soundI)
  fix st q st'
  assume "db_page sha home k env st" and run: "release_guarded env r st = Some (q, st')"
  note here = db_page_others [OF this(1)]
  show "db_page sha home k env st' \<and> (\<forall>x. q = Inr x \<longrightarrow> True)"
  proof (cases "releaseRuntime_tx (oe_tx env (dv_tick st)) r (dv_db (others env st))")
    case None
    with run here show ?thesis by (auto simp: release_guarded_def Let_def)
  next
    case (Some d)
    with db_drive.writes [OF here tx_release [OF Some]] run show ?thesis by (auto simp: release_guarded_def Let_def)
  qed
qed

lemma db_aborts:
  assumes "home r = k"
  shows "keeps (db_page sha home k env) (transact env (no_value (\<lambda>te. abortRound te k r token)))"
proof (rule db_transact)
  fix n d d' x
  assume home: "homed home d" and "no_value (\<lambda>te. abortRound te k r token) (oe_tx env n) d = Inr (d', x)"
  then have tx: "abortRound (oe_tx env n) k r token d = Inr d'"
    by (cases "abortRound (oe_tx env n) k r token d") (auto simp: no_value_def)
  have "homed home d'"
    using tx home by (auto simp: abortRound_def tx_success homed_interrupt split: if_splits intro!: homed_move)
  with step_abortRound [OF tx] homedD [OF home] assms show "discussion_step sha d d' \<and> homed home d'" by blast
qed

lemma rows_where_row:
  assumes "db_page sha home k env st" "round \<in> set (rows_where P (db_rounds (dv_db st)))"
  shows "P round \<and> home (rd_id round) = rd_roomId round"
proof -
  from assms(1) have ok: "db_ok sha (dv_db st)" by (simp add: db_page_def reachable_ok)
  from assms(2) obtain r where "P round" "rounds (dv_db st) r = Some round"
    using rows_where_iff [OF tb_ok_tables(2) [OF ok]] by blast
  with db_page_round [OF assms(1)] show ?thesis by auto
qed

lemma db_page_invariant: "page_invariant env (db_page sha home k env) (round_of home) k"
proof (unfold_locales, goal_cases)
  case (1 room round p kind words retryOf scheduling snapshot scope token)
  then show ?case by (rule db_posts)
next
  case (2 token order)
  show ?case by (rule db_opens)
next
  case 3
  show ?case by (rule db_releases)
next
  case (4 s s' room r round)
  with db_page_room [OF 4(1,3)] db_page_round [OF 4(2,5)] show ?case by (simp add: round_of_def)
next
  case (5 room round s s' room')
  with db_page_room(1) [OF 5(2,4)] db_page_room(1) [OF 5(3,5)] show ?case by (simp add: round_of_def)
next
  case (6 s s' round room)
  with rows_where_row [OF 6(1,3)] db_page_room(1) [OF 6(2,4)] show ?case by (simp add: round_of_def)
next
  case (7 s s' room r round token)
  with db_page_room(2) [OF 7(1,3,4)] db_page_round [OF 7(2,5)] show ?case by (intro db_aborts) simp
qed

interpretation db_run: page_invariant env "db_page sha home k env" "round_of home" k for env sha home k
  by (rule db_page_invariant)

section \<open>Before a turn is posted\<close>

text \<open>In the log, a POST comes right after the two events that allow it: the row was written, and then
  the gate was read, open unless the turn is a report.\<close>

definition allowed_post :: "orch_event list \<Rightarrow> string \<Rightarrow> string \<Rightarrow> bool" where
  "allowed_post before x p \<longleftrightarrow>
     (\<exists>earlier e paused. before = earlier @ [wrote_anchor e, read_gate (mx_roomId e) paused]
        \<and> mx_executionId e = x \<and> mx_participantId e = p \<and> (paused \<longrightarrow> mx_resultKind e = kind_report))"

definition posts_allowed :: "orch_event list \<Rightarrow> bool" where
  "posts_allowed log \<longleftrightarrow> (\<forall>before s x p snapshot later.
     log = before @ sent_execute s x p snapshot # later \<longrightarrow> allowed_post before x p)"

fun anchor_id :: "orch_event \<Rightarrow> string list" where
  "anchor_id (wrote_anchor e) = [mx_executionId e]"
| "anchor_id _ = []"

fun posted_id :: "orch_event \<Rightarrow> string list" where
  "posted_id (sent_execute s x p snapshot) = [x]"
| "posted_id _ = []"

definition anchors :: "orch_event list \<Rightarrow> string list" where "anchors log = concat (map anchor_id log)"
definition posted :: "orch_event list \<Rightarrow> string list" where "posted log = concat (map posted_id log)"

lemma log_simps [simp]:
  "anchors [] = []" "anchors (l @ m) = anchors l @ anchors m" "anchors (ev # l) = anchor_id ev @ anchors l"
  "posted [] = []" "posted (l @ m) = posted l @ posted m" "posted (ev # l) = posted_id ev @ posted l"
  by (simp_all add: anchors_def posted_def)

lemma quiet_ids [simp]: "quiet ev \<Longrightarrow> anchor_id ev = []" "quiet ev \<Longrightarrow> posted_id ev = []"
  by (cases ev; simp add: quiet_def)+

lemma allowed_in_anchors: "allowed_post before x p \<Longrightarrow> x \<in> set (anchors before)"
  by (auto simp: allowed_post_def)

lemma posted_after_anchor: "posts_allowed log \<Longrightarrow> set (posted log) \<subseteq> set (anchors log)"
proof
  fix x
  assume "posts_allowed log" "x \<in> set (posted log)"
  then obtain ev where "ev \<in> set log" "x \<in> set (posted_id ev)" by (auto simp: posted_def)
  moreover from this(2) obtain s p snap where "ev = sent_execute s x p snap" by (cases ev) auto
  ultimately have "sent_execute s x p snap \<in> set log" by simp
  then obtain before later where log: "log = before @ sent_execute s x p snap # later" by (metis split_list)
  with \<open>posts_allowed log\<close> have "allowed_post before x p" unfolding posts_allowed_def by blast
  with log show "x \<in> set (anchors log)" by (simp add: allowed_in_anchors)
qed

lemma snoc_split: "l @ [e] = before @ x # later \<longleftrightarrow> (before = l \<and> x = e \<and> later = []) \<or> (\<exists>rest. later = rest @ [e] \<and> l = before @ x # rest)"
  by (cases later rule: rev_cases) auto

lemma posts_allowed_snoc:
  "posts_allowed (log @ [ev]) \<longleftrightarrow> posts_allowed log \<and> (\<forall>s x p snapshot. ev = sent_execute s x p snapshot \<longrightarrow> allowed_post log x p)"
  unfolding posts_allowed_def snoc_split by blast

text \<open>Ids are minted in order, and each is minted once.\<close>

definition log_page :: "orch_env \<Rightarrow> drv \<Rightarrow> bool" where
  "log_page env st \<longleftrightarrow> inj (oe_uuid env) \<and> posts_allowed (dv_log st) \<and> distinct (anchors (dv_log st))
     \<and> distinct (posted (dv_log st)) \<and> set (anchors (dv_log st)) \<subseteq> oe_uuid env ` {..<dv_tick st}"

lemma log_page_quiet:
  "log_page env st \<Longrightarrow> quiet ev \<Longrightarrow> log_page env (st\<lparr>dv_log := dv_log st @ [ev]\<rparr>)"
  by (auto simp: log_page_def posts_allowed_snoc quiet_def)

lemma log_page_ticks: "log_page env st \<Longrightarrow> log_page env (st\<lparr>dv_tick := dv_tick st + n\<rparr>)"
  unfolding log_page_def by (auto simp: lessThan_def)

lemma log_page_db: "log_page env st \<Longrightarrow> log_page env (st\<lparr>dv_db := d\<rparr>)" "log_page env st \<Longrightarrow> log_page env (st\<lparr>dv_host := h\<rparr>)"
  "log_page env st \<Longrightarrow> log_page env (st\<lparr>dv_locked := l\<rparr>)"
  by (simp_all add: log_page_def)

lemma log_page_others: "log_page env st \<Longrightarrow> log_page env (others env st)"
  using log_page_ticks [of env "st\<lparr>dv_db := oe_world env (dv_tick st) (dv_db st)\<rparr>" 1] log_page_db(1) [of env st]
  by (simp add: others_def)

lemma log_page_acks:
  "log_page env st \<Longrightarrow> log_page env (st\<lparr>dv_log := dv_log st @ map (\<lambda>(q, seen). sent_ack q seen) acks\<rparr>)"
proof (induction acks rule: rev_induct)
  case (snoc a acks)
  obtain q seen where "a = (q, seen)" by (cases a)
  with log_page_quiet [OF snoc.IH [OF snoc.prems], of "sent_ack q seen"] show ?case by simp
qed simp

lemma log_driver: "driver_invariant env (log_page env) (\<lambda>_ _. True)"
proof (unfold_locales, goal_cases)
  case (1 st)
  then show ?case by (rule log_page_others)
next
  case (7 st deps x event r st')
  obtain r1 d acks where run: "handleCompletedExecution (\<lambda>k. oe_tx env (dv_tick st + k)) (\<lambda>k. oe_world env (dv_tick st + k))
      (oe_ack env (dv_log st)) deps x event (dv_db st) = (r1, d, acks)" by (metis surj_pair)
  let ?log = "dv_log st @ map (\<lambda>(q, seen). sent_ack q seen) acks"
  from 7(2) run have st': "st' = st\<lparr>dv_db := d, dv_tick := dv_tick st + 4, dv_log := ?log\<rparr>" by (auto simp: run_pipeline_def)
  note a = log_page_acks [OF 7(1), of acks]
  from log_page_ticks [OF a, of 4] have "log_page env (st\<lparr>dv_log := ?log, dv_tick := dv_tick st + 4\<rparr>)" by simp
  moreover have "st' = st\<lparr>dv_log := ?log, dv_tick := dv_tick st + 4\<rparr>\<lparr>dv_db := d\<rparr>" unfolding st' by simp
  ultimately show ?case by (simp only: log_page_db(1))
qed (simp_all add: log_page_quiet log_page_ticks log_page_db)

interpretation log_drive: driver_invariant env "log_page env" "\<lambda>_ _. True" for env
  by (rule log_driver)

lemma afterE:
  assumes "after m k st = Some (r, st')"
  obtains (stopped) e where "m st = Some (Inl e, st')" "r = Inl e" | (went) x s where "m st = Some (Inr x, s)" "k x s = Some (r, st')"
  using assms by (cases "m st") (auto simp: after_def split: sum.splits)

definition unlogged :: "drv \<Rightarrow> drv \<Rightarrow> bool" where
  "unlogged st st' \<longleftrightarrow> dv_log st' = dv_log st \<and> dv_tick st \<le> dv_tick st'"

lemma unlogged_look: "look env f st = Some (r, st') \<Longrightarrow> unlogged st st'"
  by (auto simp: look_def Let_def others_def unlogged_def)

lemma unlogged_transact: "transact env f st = Some (r, st') \<Longrightarrow> unlogged st st'"
  by (auto simp: transact_def Let_def others_def unlogged_def split: sum.splits)

lemma gate_logged:
  assumes "schedulingPaused env k st = Some (r, st')"
  shows "\<exists>paused. r = Inr paused \<and> dv_log st' = dv_log st @ [read_gate k paused]"
proof -
  define paused where "paused = (case rooms (dv_db (others env st)) k of None \<Rightarrow> True | Some room \<Rightarrow> rm_runState room = room_paused)"
  have "schedulingPaused env k st = Some (Inr paused, (others env st)\<lparr>dv_log := dv_log (others env st) @ [read_gate k paused]\<rparr>)"
    by (simp add: schedulingPaused_def after_def look_def Let_def jot_def ret_def paused_def)
  with assms have "r = Inr paused \<and> dv_log st' = dv_log st @ [read_gate k paused]" by (auto simp: others_def)
  then show ?thesis by blast
qed

text \<open>The execution may go out: the log ends with its anchor and the reading of the gate.\<close>

definition ready :: "orch_env \<Rightarrow> ModelExecution \<Rightarrow> drv \<Rightarrow> bool" where
  "ready env e st \<longleftrightarrow> log_page env st \<and> (\<exists>earlier paused.
     dv_log st = earlier @ [wrote_anchor e, read_gate (mx_roomId e) paused] \<and> (paused \<longrightarrow> mx_resultKind e = kind_report))"

lemma log_page_anchor:
  assumes "log_page env st" "mx_executionId e = oe_uuid env t" "t < dv_tick st" "mx_executionId e \<notin> set (anchors (dv_log st))"
  shows "log_page env (st\<lparr>dv_log := dv_log st @ [wrote_anchor e]\<rparr>)"
  using assms by (auto simp: log_page_def posts_allowed_snoc)

lemma readyI:
  assumes "log_page env st" "dv_log st = earlier @ [wrote_anchor e, read_gate (mx_roomId e) paused]"
    "paused \<longrightarrow> mx_resultKind e = kind_report"
  shows "ready env e st"
  using assms unfolding ready_def by blast

lemma paused_ready:
  assumes log: "log_page env st" "dv_log st = earlier @ [wrote_anchor e, read_gate (mx_roomId e) paused]"
    and run: "paused_during_begin env e token scheduling act st = Some (r, st')"
  shows "log_page env st' \<and> (r = Inr True \<longrightarrow> ready env e st')"
  using run unfolding paused_during_begin_def
proof (cases rule: afterE)
  case (stopped err)
  then show ?thesis by (auto simp: look_def Let_def ret_def split: option.splits if_splits)
next
  case (went aborted s)
  from went(1) log have here: "log_page env s" "dv_log s = dv_log st"
    by (auto simp: ret_def look_def Let_def log_page_others split: option.splits if_splits) (simp_all add: others_def)
  show ?thesis
  proof (cases "mx_resultKind e = kind_report \<and> (scheduling = explicit_conclude \<or> aborted)")
    case True
    with went(2) have "st' = s" by (simp add: ret_def)
    with readyI [OF here(1), of earlier e paused] here log(2) True show ?thesis by simp
  next
    case False
    have "sound (log_page env) (after (fail_turn env (mx_executionId e) token
        (errorOf ''USER_CANCELLED'' ''room scheduling paused before dispatch'' False) mx_interrupted False) (\<lambda>_. ret False)) (\<lambda>go. \<not> go)"
      by (auto intro!: keeps_after log_drive.fail_keeps sound_ret)
    note quiet_run = this
    from went(2) False have run: "after (fail_turn env (mx_executionId e) token
        (errorOf ''USER_CANCELLED'' ''room scheduling paused before dispatch'' False) mx_interrupted False) (\<lambda>_. ret False) s
        = Some (r, st')" by (simp split: if_splits)
    from soundD(1) [OF quiet_run here(1) run] soundD(2) [OF quiet_run here(1) run, of True] show ?thesis by blast
  qed
qed

lemma anchored_ready:
  assumes log: "log_page env st" "dv_log st = earlier @ [wrote_anchor e]" and room: "mx_roomId e = k"
    and run: "after (schedulingPaused env k) (\<lambda>paused. if \<not> paused then ret True
      else paused_during_begin env e token scheduling act) st = Some (r, st')"
  shows "log_page env st' \<and> (r = Inr True \<longrightarrow> ready env e st')"
  using run
proof (cases rule: afterE)
  case (stopped err)
  with gate_logged show ?thesis by blast
next
  case (went paused s)
  from soundD(1) [OF log_drive.gate_keeps(1) log(1) went(1)] have here: "log_page env s" .
  from gate_logged [OF went(1)] log(2) room have l: "dv_log s = earlier @ [wrote_anchor e, read_gate (mx_roomId e) paused]" by simp
  show ?thesis
  proof (cases paused)
    case True
    with went(2) paused_ready [OF here l] show ?thesis by simp
  next
    case False
    with went(2) readyI [OF here l] here show ?thesis by (auto simp: ret_def)
  qed
qed

lemma begin_ready:
  assumes log: "log_page env st" and id: "mx_executionId e = oe_uuid env t" "t < dv_tick st"
    and new: "mx_executionId e \<notin> set (anchors (dv_log st))" and room: "mx_roomId e = rm_id room"
    and run: "begin_turn_execution env room e token scheduling st = Some (r, st')"
  shows "log_page env st' \<and> (r = Inr True \<longrightarrow> ready env e st')"
  using run unfolding begin_turn_execution_def
proof (cases rule: afterE)
  case (stopped err)
  then show ?thesis by (simp add: look_def Let_def)
next
  case (went act s1)
  have L1: "log_page env s1" using soundD(1) [OF log_drive.look_keeps log went(1)] .
  from went(2) show ?thesis
  proof (cases rule: afterE)
    case (stopped err)
    with log_page_others [OF L1] show ?thesis by (auto simp: transact_def Let_def split: sum.splits)
  next
    case tx: (went u s2)
    from unlogged_look [OF went(1)] unlogged_transact [OF tx(1)] have U: "dv_log s2 = dv_log st" "dv_tick st \<le> dv_tick s2"
      by (auto simp: unlogged_def)
    have L2: "log_page env s2"
      using tx(1) log_page_others [OF L1] by (auto simp: transact_def Let_def log_page_db split: sum.splits)
    let ?s = "s2\<lparr>dv_log := dv_log s2 @ [wrote_anchor e]\<rparr>"
    have L3: "log_page env ?s"
      by (rule log_page_anchor [OF L2 id(1)]) (use id(2) new U in simp_all)
    have "dv_log ?s = dv_log s2 @ [wrote_anchor e]" by simp
    from anchored_ready [OF L3 this room] tx(2) show ?thesis by (simp add: after_def [of "jot ev" for ev] jot_def)
  qed
qed

lemma ready_post:
  assumes "ready env e st"
  shows "log_page env (st\<lparr>dv_log := dv_log st @ [sent_execute s (mx_executionId e) (mx_participantId e) snapshot]\<rparr>)"
proof -
  from assms obtain earlier paused where page: "log_page env st"
    and log: "dv_log st = earlier @ [wrote_anchor e, read_gate (mx_roomId e) paused]" "paused \<longrightarrow> mx_resultKind e = kind_report"
    unfolding ready_def by blast
  have "allowed_post (dv_log st) (mx_executionId e) (mx_participantId e)"
    unfolding allowed_post_def log(1) using log(2) by blast
  moreover have "mx_executionId e \<notin> set (posted (dv_log st))"
  proof -
    have "posts_allowed earlier"
      using page unfolding log_page_def log(1) posts_allowed_def by (metis append_Cons append_assoc)
    with page log(1) posted_after_anchor show ?thesis by (auto simp: log_page_def)
  qed
  ultimately show ?thesis using page by (auto simp: log_page_def posts_allowed_snoc)
qed

lemma log_sends:
  assumes "ready env e st" "send_turn env s e snapshot token st = Some (r, st')"
  shows "log_page env st'"
proof -
  let ?s = "st\<lparr>dv_log := dv_log st @ [sent_execute s (mx_executionId e) (mx_participantId e) snapshot]\<rparr>"
  have mark: "keeps (log_page env) (transact env (no_value (\<lambda>te. markExecutionDispatched te x h s ds)))" for x h ds
    by (rule log_drive.no_value_keeps) (rule tx_dispatched)
  let ?rest = "after (hostInstanceId env) (\<lambda>host.
      transact env (no_value (\<lambda>te. markExecutionDispatched te (mx_executionId e) host s dispatch_unknown)))"
  have rest: "keeps (log_page env) ?rest" by (intro keeps_rules log_drive.host_keeps mark)
  from assms(2) show ?thesis
    unfolding send_turn_def
  proof (cases rule: afterE)
    case (stopped err)
    then show ?thesis by (auto simp: attempt_def)
  next
    case (went sent s1)
    from went(1) obtain q where q: "after (ask (oe_execute env) (sent_execute s (mx_executionId e) (mx_participantId e) snapshot))
        (\<lambda>_. ?rest) st = Some (q, s1)" "sent = q"
      by (auto simp: attempt_def)
    from q(1) have L1: "log_page env s1"
    proof (cases rule: afterE)
      case (stopped err)
      with ready_post [OF assms(1), of s snapshot] show ?thesis by (auto simp: ask_def)
    next
      case (went u s2)
      with ready_post [OF assms(1), of s snapshot] have "log_page env s2" by (auto simp: ask_def)
      from soundD(1) [OF rest this went(2)] show ?thesis .
    qed
    have "keeps (log_page env) (case sent of
         Inr _ \<Rightarrow> ret True
       | Inl error \<Rightarrow>
           after (cancelAbandonedExecution env s (mx_executionId e)) (\<lambda>_.
           after (fail_turn env (mx_executionId e) token
                    (errorOf ''DISPATCH_FAILED'' (clip_string (error_message env error) 256) False) mx_failed True) (\<lambda>_.
           ret False)))"
      by (auto intro!: keeps_rules log_drive.cancel_keeps log_drive.fail_keeps split: sum.splits)
    from soundD(1) [OF this L1 went(2)] show ?thesis .
  qed
qed

lemma new_execution_facts:
  assumes "new_execution env room round p kind txt retryOf st = Some (r, st')"
  shows "\<exists>e. r = Inr e \<and> st' = st\<lparr>dv_tick := Suc (dv_tick st)\<rparr> \<and> mx_executionId e = oe_uuid env (dv_tick st)
    \<and> mx_roomId e = rm_id room"
  using assms by (auto simp: new_execution_def after_def fresh_uuid_def ret_def createModelExecution_def)

lemma fresh_id: "log_page env st \<Longrightarrow> oe_uuid env (dv_tick st) \<notin> set (anchors (dv_log st))"
  by (auto simp: log_page_def dest!: subsetD inj_onD)

lemma log_posts: "keeps (log_page env) (post_turn env room round p kind txt retryOf scheduling snapshot s token)"
proof (rule soundI)
  fix st r st'
  assume page: "log_page env st" and run: "post_turn env room round p kind txt retryOf scheduling snapshot s token st = Some (r, st')"
  from run have "log_page env st'"
    unfolding post_turn_def
  proof (cases rule: afterE)
    case (stopped err)
    with new_execution_facts show ?thesis by blast
  next
    case (went e s1)
    from new_execution_facts [OF went(1)] have e: "s1 = st\<lparr>dv_tick := Suc (dv_tick st)\<rparr>"
      "mx_executionId e = oe_uuid env (dv_tick st)" "mx_roomId e = rm_id room" by auto
    from log_page_ticks [OF page, of 1] e have L1: "log_page env s1" "dv_tick st < dv_tick s1"
      "mx_executionId e \<notin> set (anchors (dv_log s1))"
      using fresh_id [OF page] by simp_all
    note begun = begin_ready [OF L1(1) e(2) L1(2,3) e(3)]
    from went(2) show ?thesis
    proof (cases rule: afterE)
      case (stopped err)
      with begun show ?thesis by blast
    next
      case turn: (went go s2)
      show ?thesis
      proof (cases go)
        case False
        with turn begun [OF turn(1)] show ?thesis by (auto simp: ret_def)
      next
        case True
        with begun [OF turn(1)] have ready: "ready env e s2" by simp
        from turn(2) True have "after (send_turn env s e snapshot token) (\<lambda>running.
            ret (if running then Some (mx_executionId e) else None)) s2 = Some (r, st')" by simp
        then show ?thesis by (cases rule: afterE) (auto simp: ret_def intro: log_sends [OF ready])
      qed
    qed
  qed
  then show "log_page env st' \<and> (\<forall>x. r = Inr x \<longrightarrow> True)" by simp
qed

lemma log_page_invariant: "page_invariant env (log_page env) (\<lambda>_ _. True) k"
proof (unfold_locales, goal_cases)
  case (1 room round p kind words retryOf scheduling snapshot s token)
  show ?case by (rule log_posts)
next
  case (2 token order)
  show ?case by (auto intro!: soundI simp: transact_def Let_def log_page_others log_page_db split: sum.splits)
next
  case 3
  show ?case by (auto intro!: soundI simp: release_guarded_def Let_def log_page_others log_page_db split: option.splits)
next
  case (7 s s' room r round token)
  show ?case by (auto intro!: soundI simp: transact_def Let_def log_page_others log_page_db split: sum.splits)
qed simp_all

interpretation log_run: page_invariant env "log_page env" "\<lambda>_ _. True" k for env k
  by (rule log_page_invariant)

section \<open>Operations that post nothing\<close>

definition posted_page :: "string list \<Rightarrow> drv \<Rightarrow> bool" where
  "posted_page ids st \<longleftrightarrow> posted (dv_log st) = ids"

lemma posted_acks [simp]: "posted (map (\<lambda>(q, seen). sent_ack q seen) acks) = []"
  by (induction acks) auto

lemma posted_driver: "driver_invariant env (posted_page ids) (\<lambda>_ _. True)"
  by unfold_locales (auto simp: posted_page_def others_def run_pipeline_def split: prod.splits)

interpretation posted_drive: driver_invariant env "posted_page ids" "\<lambda>_ _. True" for env ids
  by (rule posted_driver)

lemma posts_nothing:
  assumes "\<And>ids. keeps (posted_page ids) m" "m st = Some (r, st')"
  shows "posted (dv_log st') = posted (dv_log st)"
  using soundD(1) [OF assms(1) _ assms(2), of "posted (dv_log st)"] by (simp add: posted_page_def)

section \<open>A session of the page\<close>

text \<open>The page's wishes one after another; what a wish throws is shown to the user.\<close>

fun page_session :: "orch_env \<Rightarrow> string \<Rightarrow> intent list \<Rightarrow> drv \<Rightarrow> drv option" where
  "page_session env roomId [] st = Some st"
| "page_session env roomId (wish # wishes) st =
     Option.bind (perform env roomId wish st) (\<lambda>(r, st'). page_session env roomId wishes st')"

lemma session_keeps:
  assumes "\<And>wish. keeps I (perform env roomId wish)" "I st" "page_session env roomId wishes st = Some st'"
  shows "I st'"
  using assms(2,3)
proof (induction wishes arbitrary: st)
  case (Cons wish wishes)
  then obtain r s where "perform env roomId wish st = Some (r, s)" "page_session env roomId wishes s = Some st'"
    by (cases "perform env roomId wish st") auto
  with Cons.IH soundD(1) [OF assms(1) Cons.prems(1)] show ?case by blast
qed simp

end
