(* ===== verification/Page_Properties.thy ===== *)
theory Page_Properties
  imports Driver_Properties
begin

text \<open>
  Properties of the round driver and of a page's session with it, with a sample page as witness:
  where a turn is followed for ever, what a failed takeover leaves behind, the compensation of a
  scope, the stable place of the notes on skipped participants, and the invariants of
  \<open>Driver_Properties\<close> over a whole session.
\<close>

section \<open>A loop without end\<close>

text \<open>What the stream, the Host and the database say again and again.\<close>

definition stuck_turn :: "orch_env \<Rightarrow> (db \<Rightarrow> bool) \<Rightarrow> string \<Rightarrow> ControllerToken \<Rightarrow> nat \<Rightarrow> bool" where
  "stuck_turn env J x token n \<longleftrightarrow>
     (\<forall>log. followExecutionEvents (oe_decode env) n (oe_connect env log) False = Inr (follow_closed n))
   \<and> (\<forall>log. \<exists>state q. oe_getExecution env log = Inr (state, q) \<and> state \<noteq> exec_running \<and> q \<le> n)
   \<and> (\<forall>m d. J d \<longrightarrow> J (oe_world env m d))
   \<and> (\<forall>m d error. J d \<longrightarrow> (\<exists>e. failExecution (oe_tx env m) x token error mx_interrupted True d = Inl e))"

lemma stuck_fail:
  assumes "stuck_turn env J x token n" "J (dv_db st)"
  shows "\<exists>e s. fail_turn env x token error mx_interrupted True st = Some (Inl (TxError e), s) \<and> J (dv_db s)"
proof -
  from assms have J: "J (dv_db (others env st))" by (simp add: stuck_turn_def others_def)
  with assms(1) obtain e where "failExecution (oe_tx env (dv_tick st)) x token (\<lambda>_. error) mx_interrupted True (dv_db (others env st)) = Inl e"
    unfolding stuck_turn_def by meson
  with J show ?thesis by (simp add: fail_turn_def after_def transact_def Let_def)
qed

lemma stuck_check:
  assumes "stuck_turn env J x token n" "J (dv_db st)" "fst status \<noteq> exec_running" "snd status \<le> n" "failures < 2"
  shows "\<exists>e s. check_status env s0 x token status n progressed spent failures st = Some (Inl (TxError e), s) \<and> J (dv_db s)"
proof -
  from assms(3,4) have stop: "decideFollowAfterClose (Some \<lparr>fc_state = fst status, fc_lastSeq = int (snd status)\<rparr>) n progressed spent = stop_exhausted"
    by (simp add: decideFollowAfterClose_def)
  from stuck_fail [OF assms(1,2), of "errorOf ''INTERRUPTED_UNKNOWN'' ''event stream ended after the host reached a terminal state'' False"]
  obtain e s where "fail_turn env x token (errorOf ''INTERRUPTED_UNKNOWN''
      ''event stream ended after the host reached a terminal state'' False) mx_interrupted True st = Some (Inl (TxError e), s)" "J (dv_db s)"
    by blast
  with assms(5) stop show ?thesis by (simp add: check_status_def after_def)
qed

lemma stuck_close:
  assumes "stuck_turn env J x token n" "J (dv_db st)" "fl_streamFailures c < 2"
  shows "\<exists>s. after_close env s0 x token n progressed c st
      = Some (Inr (Some (c\<lparr>fl_resumeAt := n, fl_statusFailures := 1\<rparr>)), s) \<and> J (dv_db s)"
proof -
  let ?st = "st\<lparr>dv_log := dv_log st @ [sent_getExecution s0 x]\<rparr>"
  from assms(1) obtain state q where get: "oe_getExecution env (dv_log st) = Inr (state, q)" "state \<noteq> exec_running" "q \<le> n"
    unfolding stuck_turn_def by meson
  obtain e s where check: "check_status env s0 x token (state, q) n progressed (fl_catchUpSpent c) (fl_streamFailures c) ?st
      = Some (Inl (TxError e), s)" "J (dv_db s)"
    using stuck_check [OF assms(1), of ?st "(state, q)" "fl_streamFailures c" s0 progressed "fl_catchUpSpent c"] assms(2,3) get(2,3) by auto
  with get(1) show ?thesis
    by (simp add: after_close_def Let_def after_def attempt_def ask_def status_failed_def ret_def)
qed

lemma drive_stuck:
  assumes stuck: "stuck_turn env J x token n" and "J (dv_db st)" "fl_resumeAt c = n"
  shows "driveTurnToTerminal env s0 x token c st = None"
proof (rule ccontr)
  assume "driveTurnToTerminal env s0 x token c st \<noteq> None"
  then obtain y where run: "driveTurnToTerminal env s0 x token c st = Some y" by blast
  have "env = env \<and> x = x \<and> token = token \<and> J (dv_db st) \<and> fl_resumeAt c = n \<longrightarrow> False"
  proof (rule driveTurnToTerminal.raw_induct
      [of "\<lambda>e s z t c st y. e = env \<and> z = x \<and> t = token \<and> J (dv_db st) \<and> fl_resumeAt c = n \<longrightarrow> False", OF _ run], intro impI)
    fix f e s z t c st y
    assume IH: "\<And>e s z t c st y. f e s z t c st = Some y \<Longrightarrow> e = env \<and> z = x \<and> t = token \<and> J (dv_db st) \<and> fl_resumeAt c = n \<longrightarrow> False"
      and body: "after (follow_once e s z (fl_resumeAt c)) (\<lambda>outcome. case outcome of
         Some (follow_terminal event) \<Rightarrow> ret (Some event)
       | None \<Rightarrow>
           after (after_close e s z t (fl_resumeAt c) False (c\<lparr>fl_streamFailures := fl_streamFailures c + 1\<rparr>)) (\<lambda>more.
           case more of None \<Rightarrow> ret None | Some c' \<Rightarrow> f e s z t c')
       | Some (follow_closed lastSeq) \<Rightarrow>
           after (after_close e s z t lastSeq (fl_resumeAt c < lastSeq) (c\<lparr>fl_streamFailures := 0\<rparr>)) (\<lambda>more.
           case more of None \<Rightarrow> ret None | Some c' \<Rightarrow> f e s z t c')
       | Some (follow_aborted lastSeq) \<Rightarrow>
           after (after_close e s z t lastSeq (fl_resumeAt c < lastSeq) (c\<lparr>fl_streamFailures := 0\<rparr>)) (\<lambda>more.
           case more of None \<Rightarrow> ret None | Some c' \<Rightarrow> f e s z t c')) st = Some y"
      and here: "e = env \<and> z = x \<and> t = token \<and> J (dv_db st) \<and> fl_resumeAt c = n"
    let ?st = "st\<lparr>dv_log := dv_log st @ [sent_follow s x n]\<rparr>"
    from stuck have "follow_once env s x n st = Some (Inr (Some (follow_closed n)), ?st)"
      by (simp add: stuck_turn_def follow_once_def Let_def after_def jot_def ret_def)
    moreover obtain s1 where "after_close env s x token n False (c\<lparr>fl_streamFailures := 0\<rparr>) ?st
        = Some (Inr (Some (c\<lparr>fl_streamFailures := 0, fl_resumeAt := n, fl_statusFailures := 1\<rparr>)), s1)" "J (dv_db s1)"
      using stuck_close [OF stuck, of ?st "c\<lparr>fl_streamFailures := 0\<rparr>" s False] here by auto
    ultimately have "f env s x token (c\<lparr>fl_streamFailures := 0, fl_resumeAt := n, fl_statusFailures := 1\<rparr>) s1 = Some y"
      using body here by (simp add: after_def)
    with IH \<open>J (dv_db s1)\<close> show False by fastforce
  qed
  with assms(2,3) show False by simp
qed

section \<open>Notes on skipped participants\<close>

text \<open>The item comes before the note.\<close>

definition goes_first :: "string \<times> SnapshotItem \<Rightarrow> TimedSkipAnnotation \<Rightarrow> bool" where
  "goes_first a n \<longleftrightarrow> fst a < sk_at n \<or> (fst a = sk_at n \<and> si_id (snd a) \<le> si_id (sk_item n))"

lemma weave_step: "weave (a # items) (n # notes) = (if goes_first a n then snd a # weave items (n # notes) else sk_item n # weave (a # items) notes)"
  by (cases a) (simp add: goes_first_def)

lemma weave_nil [simp]: "weave items [] = map snd items" "weave [] notes = map sk_item notes"
  by (cases items) simp_all

lemma weave_prefix:
  assumes "\<And>a n. a \<in> set later \<Longrightarrow> n \<in> set ns \<Longrightarrow> \<not> goes_first a n"
    and "\<And>a n. a \<in> set items \<Longrightarrow> n \<in> set fresh \<Longrightarrow> goes_first a n"
  shows "weave (items @ later) (ns @ fresh) = weave items ns @ weave later fresh"
  using assms
proof (induction items ns rule: weave.induct)
  case (1 ns)
  then show ?case
  proof (induction ns)
    case (Cons m ms)
    then show ?case by (cases later) (simp_all add: weave_step)
  qed simp
next
  case (2 a its)
  then have "weave ((a # its) @ later) fresh = map snd (a # its) @ weave later fresh"
  proof (induction "a # its" arbitrary: a its)
    case (Cons b bs)
    show ?case
    proof (cases fresh)
      case (Cons m ms)
      with Cons.prems Cons.hyps show ?thesis by (cases bs) (simp_all add: weave_step)
    qed simp
  qed
  then show ?case by simp
next
  case (3 at i its n ms)
  show ?case
  proof (cases "goes_first (at, i) n")
    case True
    with 3 show ?thesis by (simp add: weave_step goes_first_def)
  next
    case False
    have "weave (((at, i) # its) @ later) (ms @ fresh) = weave ((at, i) # its) ms @ weave later fresh"
      by (rule "3.IH"(2)) (use False "3.prems" in \<open>auto simp: goes_first_def\<close>)
    with False show ?thesis by (simp only: append_Cons weave_step if_False)
  qed
qed

lemma weave_items: "mset (weave items ns) = mset (map snd items) + mset (map sk_item ns)"
  by (induction items ns rule: weave.induct) auto

lemma insort_before: "(\<And>b. b \<in> set bs \<Longrightarrow> f x \<le> f b) \<Longrightarrow> insort_key f x (as @ bs) = insort_key f x as @ bs"
  by (induction as) (cases bs; simp)+

lemma sort_key_before:
  "(\<And>x y. x \<in> set xs \<Longrightarrow> y \<in> set ys \<Longrightarrow> f x \<le> f y) \<Longrightarrow> sort_key f (xs @ ys) = sort_key f xs @ sort_key f ys"
  by (induction xs) (auto intro!: insort_before)

definition timed :: "(string \<Rightarrow> string option) \<Rightarrow> SnapshotItem \<Rightarrow> string \<times> SnapshotItem" where
  "timed atById item = (case atById (si_id item) of Some at \<Rightarrow> at | None \<Rightarrow> [], item)"

definition note_key :: "TimedSkipAnnotation \<Rightarrow> string \<times> string" where
  "note_key n = (sk_at n, si_id (sk_item n))"

lemma weave_timed: "weaveSkipAnnotations items atById ns = weave (map (timed atById) items) (sort_key note_key ns)"
  by (simp add: weaveSkipAnnotations_def timed_def [abs_def] note_key_def [abs_def])

section \<open>Locks that are held\<close>

lemma held_driver: "driver_invariant env (\<lambda>st. k \<in> set (dv_locked st)) (\<lambda>_ _. True)"
  by unfold_locales (auto simp: others_def run_pipeline_def split: prod.splits)

interpretation held_drive: driver_invariant env "\<lambda>st. k \<in> set (dv_locked st)" "\<lambda>_ _. True" for env k
  by (rule held_driver)

lemma acquire_returns: "acquire_lock env k st = Some (r, st') \<Longrightarrow> \<exists>handle. r = Inr handle"
  by (auto simp: acquire_lock_def after_def jot_def ret_def split: if_splits)

section \<open>Properties\<close>


text \<open>C4: In a session of a page, whatever the Host answers and whatever other pages write: a turn is
  posted to the Host only right after its execution row was written and the room's gate was read
  (open, or the turn is a report), for the participant of that row; and no execution id is posted
  twice.\<close>

theorem posts_are_guarded:
  assumes "inj (oe_uuid env)" "dv_log st = []" "page_session env roomId wishes st = Some st'"
  shows "distinct (posted (dv_log st')) \<and> posts_allowed (dv_log st')"
proof -
  from assms(1,2) have "log_page env st" by (simp add: log_page_def posts_allowed_def)
  from session_keeps [OF log_run.perform_keeps this assms(3)] show ?thesis by (simp add: log_page_def)
qed

text \<open>Taking control of a room, ensuring its scope, auditing at startup, following a turn and
  handling its terminal event never invoke the model: none of them posts a turn, however it ends.\<close>

theorem recovery_posts_nothing:
  assumes "startupAudit env st = Some (r0, st') \<or> controlRoom env k st = Some (r1, st') \<or> ensureScope env k ps st = Some (r2, st')
   \<or> driveTurnToTerminal env s x token c st = Some (r3, st') \<or> handleTerminal env room round x event token st = Some (r4, st')"
  shows "posted (dv_log st') = posted (dv_log st)"
  using assms
proof (elim disjE)
  assume "startupAudit env st = Some (r0, st')"
  then show ?thesis by (rule posts_nothing [OF posted_drive.audit_keeps])
next
  assume "controlRoom env k st = Some (r1, st')"
  then show ?thesis by (rule posts_nothing [OF posted_drive.control_keeps])
next
  assume "ensureScope env k ps st = Some (r2, st')"
  then show ?thesis by (rule posts_nothing [OF posted_drive.ensure_keeps])
next
  assume "driveTurnToTerminal env s x token c st = Some (r3, st')"
  then show ?thesis by (rule posts_nothing [OF posted_drive.drive_keeps])
next
  assume "handleTerminal env room round x event token st = Some (r4, st')"
  then show ?thesis by (rule posts_nothing [OF keeps_of [OF posted_drive.terminal_keeps [OF TrueI]]])
qed

text \<open>C20: The driver can follow a turn for ever.  The stream ends without a terminal event, the Host
  says that the turn has ended, and the write that would give the turn up is refused, as it is
  when another page has taken the lease: the refusal is caught as if it were a failed status request, the
  status request before it reset that count, and the loop goes round again without end.\<close>

theorem refused_write_follows_for_ever:
  assumes "stuck_turn env J x token n" "J (dv_db st)" "fl_resumeAt c = n"
  shows "driveTurnToTerminal env scope_id x token c st = None"
  using assms by (rule drive_stuck)

text \<open>When taking control of a room throws, the room's lock stays held, so the next attempt
  reports control at once, without a request to the Host and without the takeover that failed.\<close>

theorem failed_takeover_claims_control:
  assumes "controlRoom env k st = Some (Inl e, st')"
  shows "controlRoom env k st' = Some (Inr True, st')"
proof -
  let ?taken = "after (preferred_binding env k) (\<lambda>(latest, preferred).
          case preferred of
            Some binding \<Rightarrow>
              if bi_state binding = binding_active \<and> has_scope binding
              then after (takeOverBinding env k binding) (\<lambda>_. ret True)
              else ret True
          | None \<Rightarrow> ret True)"
  have keeps: "keeps (\<lambda>s. k \<in> set (dv_locked s)) ?taken"
    by (auto intro!: keeps_rules held_drive.takeover_keeps held_drive.preferred_keeps split: option.splits prod.splits)
  from assms have "after (acquire_lock env k) (\<lambda>handle. if \<not> handle then ret False else after (hold_lock k) (\<lambda>_. ?taken)) st
      = Some (Inl e, st')"
    by (simp add: controlRoom_def ret_def split: if_splits)
  then have "k \<in> set (dv_locked st')"
  proof (cases rule: afterE)
    case (stopped e)
    with acquire_returns show ?thesis by blast
  next
    case (went handle s)
    then have handle: "after (hold_lock k) (\<lambda>_. ?taken) s = Some (Inl e, st')" by (cases handle) (simp_all add: ret_def)
    then have "?taken (s\<lparr>dv_locked := k # dv_locked s\<rparr>) = Some (Inl e, st')" by (simp add: after_def [of "hold_lock k"] hold_lock_def ret_def)
    from soundD(1) [OF keeps _ this] show ?thesis by simp
  qed
  then show ?thesis by (simp add: controlRoom_def ret_def)
qed

text \<open>C15: A scope that the Host created does not stay behind unused: when its activation on the Host or
  here fails, closing it is the last thing asked of the Host.\<close>

theorem created_scope_is_compensated:
  assumes "create_scope env i q st = Some (Inl e, st')" "oe_createScope env (dv_log st) = Inr created"
  shows "dv_log st' = dv_log st @ [sent_createScope q, sent_activateScope (cr_scopeId created), sent_closeScope (cr_scopeId created)]"
proof -
  let ?s = "st\<lparr>dv_log := dv_log st @ [sent_createScope q]\<rparr>"
  let ?work = "after (ask (oe_activateScope env) (sent_activateScope (cr_scopeId created))) (\<lambda>_.
        transact env (\<lambda>te. activateRuntimeBinding te i (cr_hostInstanceId created) (cr_scopeId created)
                       (cr_controllerId created) (cr_leaseEpoch created)))"
  have logged: "dv_log s = dv_log ?s @ [sent_activateScope (cr_scopeId created)]" if "?work ?s = Some (r, s)" for r s
    using that
    by (cases rule: afterE) (auto simp: ask_def dest!: unlogged_transact simp: unlogged_def)
  have "?work ?s \<noteq> None"
    by (auto simp: after_def ask_def transact_def Let_def split: sum.splits)
  then obtain r s where work: "?work ?s = Some (r, s)" by auto
  have asked: "ask (oe_createScope env) (sent_createScope q) st = Some (Inr created, ?s)" by (simp add: ask_def assms(2))
  have tried: "attempt ?work ?s = Some (Inr r, s)" by (simp only: attempt_def work option.map prod.case)
  have "create_scope env i q st = (case r of Inr binding \<Rightarrow> ret binding
     | Inl error \<Rightarrow> after (attempt (ask (oe_closeScope env) (sent_closeScope (cr_scopeId created)))) (\<lambda>_. throw error)) s"
    by (simp only: create_scope_def after_def [of "ask (oe_createScope env) (sent_createScope q)"]
        after_def [of "attempt ?work"] asked tried bind.simps prod.case sum.case)
  with assms(1) logged [OF work] show ?thesis
    by (cases r) (auto simp: ret_def after_def attempt_def ask_def throw_def)
qed

text \<open>C14: A note on a skipped participant never rewrites history.  When everything that is new, items and
  notes, comes after everything that was there, the woven history of a turn is the earlier one with
  something added at its end; and weaving loses nothing and adds nothing.\<close>

theorem woven_history_is_stable:
  assumes "\<forall>i\<in>set items. ats' (si_id i) = ats (si_id i)"
    and "\<forall>n\<in>set ns. \<forall>m\<in>set fresh. note_key n \<le> note_key m"
    and "\<forall>i\<in>set later. \<forall>n\<in>set ns. \<not> goes_first (timed ats' i) n"
    and "\<forall>i\<in>set items. \<forall>n\<in>set fresh. goes_first (timed ats i) n"
  shows "weaveSkipAnnotations (items @ later) ats' (ns @ fresh)
      = weaveSkipAnnotations items ats ns @ weaveSkipAnnotations later ats' fresh
    \<and> mset (weaveSkipAnnotations items ats ns) = mset items + mset (map sk_item ns)"
proof
  have same: "map (timed ats') items = map (timed ats) items" using assms(1) by (simp add: timed_def)
  have sorted: "sort_key note_key (ns @ fresh) = sort_key note_key ns @ sort_key note_key fresh"
    using assms(2) by (intro sort_key_before) blast
  show "weaveSkipAnnotations (items @ later) ats' (ns @ fresh)
      = weaveSkipAnnotations items ats ns @ weaveSkipAnnotations later ats' fresh"
    unfolding weave_timed map_append same sorted using assms(3,4) by (intro weave_prefix) auto
  have "snd \<circ> timed ats = id" by (auto simp: timed_def)
  then show "mset (weaveSkipAnnotations items ats ns) = mset items + mset (map sk_item ns)"
    unfolding weave_timed weave_items by (simp del: mset_map) (simp add: mset_map)
qed

section \<open>A sample page\<close>

text \<open>The room of \<open>Discussion_Properties\<close>, bound to a scope; the Host takes every request, its streams
  end at once and it does not know the execution when asked again.\<close>

definition page_env :: orch_env where
  "page_env = \<lparr>oe_world = (\<lambda>_ d. d), oe_tx = (\<lambda>n. sample_tx (replicate n CHR ''u'')), oe_uuid = (\<lambda>n. replicate n CHR ''u''),
     oe_now = (\<lambda>_. ''t''), oe_sha = sample_sha, oe_execute = (\<lambda>_. Inr ()), oe_cancel = (\<lambda>_. Inr ()),
     oe_getExecution = (\<lambda>_. Inl (RuntimeClientError 404 [] [])), oe_connect = (\<lambda>_. HttpBody []),
     oe_ack = (\<lambda>_ _. AckUnreachable), oe_health = (\<lambda>_. Inr ''h''), oe_createScope = (\<lambda>_. Inl (OtherError [])),
     oe_activateScope = (\<lambda>_. Inr ()), oe_closeScope = (\<lambda>_. Inr ()), oe_scopeStatus = (\<lambda>_. Inr (scope_active, [])),
     oe_takeover = (\<lambda>_. Inr 2), oe_tryLock = (\<lambda>_. True), oe_waitLock = (\<lambda>_. True), oe_hasLocks = False,
     oe_profile = (\<lambda>_. Some True), oe_decode = (\<lambda>_. None), oe_instructionText = (\<lambda>_ _ _. ''i''), oe_suggests = (\<lambda>_. False),
     oe_skipText = (\<lambda>_ _. []), oe_message = ''e''\<rparr>"

definition page_start :: "db \<Rightarrow> drv" where
  "page_start d = \<lparr>dv_db = d, dv_log = [], dv_tick = 0, dv_host = None, dv_locked = []\<rparr>"

lemma page_start_simps [simp]: "dv_db (page_start d) = d" "dv_log (page_start d) = []"
  by (simp_all add: page_start_def)

lemma inj_replicate: "inj (\<lambda>n. replicate n c)"
proof (rule injI)
  fix m n
  assume "replicate m c = replicate n c"
  then have "length (replicate m c) = length (replicate n c)" by (rule arg_cong)
  then show "m = n" by simp
qed

lemma page_fair: "fair_world sample_sha (\<lambda>_. ''r'') ''r'' page_env" "inj (oe_uuid page_env)"
  by (simp_all add: fair_world_def page_env_def inj_replicate)

text \<open>Starting a round posts the facilitator's focus.\<close>

lemma page_posts:
  "\<exists>st'. page_session page_env ''r'' [want_start, want_audit] (page_start sample_bound_db) = Some st' \<and> length (posted (dv_log st')) = 1"
proof -
  have "(case page_session page_env ''r'' [want_start, want_audit] (page_start sample_bound_db) of
      Some st' \<Rightarrow> length (posted (dv_log st')) = 1 | None \<Rightarrow> False)"
    by code_simp
  then show ?thesis by (cases "page_session page_env ''r'' [want_start, want_audit] (page_start sample_bound_db)") simp_all
qed


theorem posts_are_guarded_witness:
  "\<exists>st'. page_session page_env ''r'' [want_start, want_audit] (page_start sample_bound_db) = Some st'
     \<and> length (posted (dv_log st')) = 1 \<and> distinct (posted (dv_log st')) \<and> posts_allowed (dv_log st')"
  using page_posts posts_are_guarded [OF page_fair(2) page_start_simps(2)] by blast

theorem recovery_posts_nothing_witness:
  "\<exists>r st'. startupAudit page_env (page_start sample_db) = Some (r, st') \<and> dv_log st' \<noteq> [] \<and> posted (dv_log st') = []"
proof -
  have "(case startupAudit page_env (page_start sample_db) of Some (r, st') \<Rightarrow> dv_log st' \<noteq> [] | None \<Rightarrow> False)" by code_simp
  then obtain r st' where run: "startupAudit page_env (page_start sample_db) = Some (r, st')" "dv_log st' \<noteq> []"
    by (auto split: option.splits)
  with recovery_posts_nothing [of page_env "page_start sample_db" r st'] show ?thesis by auto
qed

text \<open>The sample execution is followed with a token of a later epoch, the Host says it has completed.\<close>

definition stuck_env :: orch_env where
  "stuck_env = page_env\<lparr>oe_getExecution := (\<lambda>_. Inr (exec_completed, 0))\<rparr>"

lemma stuck_sample: "stuck_turn stuck_env (\<lambda>d. d = sample_db) ''x'' (sample_token\<lparr>ct_leaseEpoch := 2\<rparr>) 0"
proof -
  have "(case executions sample_db ''x'' of None \<Rightarrow> False | Some e \<Rightarrow>
     (case rounds sample_db (mx_roundId e) of None \<Rightarrow> False | Some n \<Rightarrow> rd_roomId n = ''r'' \<and> rooms sample_db ''r'' \<noteq> None))"
    by code_simp
  then obtain e n m where "executions sample_db ''x'' = Some e" "rounds sample_db (mx_roundId e) = Some n" "rd_roomId n = ''r''"
    "rooms sample_db ''r'' = Some m"
    by (auto split: option.splits)
  then have "failExecution te ''x'' (sample_token\<lparr>ct_leaseEpoch := 2\<rparr>) error mx_interrupted True sample_db = Inl stale_error" for te error
    by (simp add: failExecution_def loadCommitContext_def requireRoom_def found_def requireController_stale [OF sample_facts_db(6)])
  moreover have "followExecutionEvents (oe_decode stuck_env) 0 (oe_connect stuck_env log) False = Inr (follow_closed 0)" for log
    by code_simp
  ultimately show ?thesis by (simp add: stuck_turn_def) (simp add: stuck_env_def page_env_def)
qed

theorem refused_write_follows_for_ever_witness:
  "driveTurnToTerminal stuck_env ''s'' ''x'' (sample_token\<lparr>ct_leaseEpoch := 2\<rparr>)
     \<lparr>fl_resumeAt = 0, fl_streamFailures = 0, fl_statusFailures = 0, fl_catchUpSpent = False\<rparr> (page_start sample_db) = None"
  by (rule refused_write_follows_for_ever [OF stuck_sample]) simp_all

theorem failed_takeover_claims_control_witness:
  "\<exists>e st'. controlRoom (page_env\<lparr>oe_takeover := (\<lambda>_. Inl (RuntimeClientError 503 [] []))\<rparr>) ''r'' (page_start sample_bound_db)
       = Some (Inl e, st')
     \<and> controlRoom (page_env\<lparr>oe_takeover := (\<lambda>_. Inl (RuntimeClientError 503 [] []))\<rparr>) ''r'' st' = Some (Inr True, st')"
proof -
  let ?run = "controlRoom (page_env\<lparr>oe_takeover := (\<lambda>_. Inl (RuntimeClientError 503 [] []))\<rparr>) ''r'' (page_start sample_bound_db)"
  have "(case ?run of Some (Inl e, st') \<Rightarrow> True | _ \<Rightarrow> False)" by code_simp
  then obtain e st' where "?run = Some (Inl e, st')" by (auto split: option.splits prod.splits sum.splits)
  with failed_takeover_claims_control [OF this] show ?thesis by blast
qed

definition cold_env :: orch_env where
  "cold_env = page_env\<lparr>oe_createScope := (\<lambda>_. Inr \<lparr>cr_scopeId = ''s2'', cr_controllerId = ''c'', cr_leaseEpoch = 1, cr_hostInstanceId = ''h''\<rparr>),
     oe_activateScope := (\<lambda>_. Inl (OtherError []))\<rparr>"

theorem created_scope_is_compensated_witness:
  "\<exists>e st'. create_scope cold_env ''b'' ''q'' (page_start sample_bound_db) = Some (Inl e, st')
     \<and> dv_log st' = [sent_createScope ''q'', sent_activateScope ''s2'', sent_closeScope ''s2'']"
proof -
  have "(case create_scope cold_env ''b'' ''q'' (page_start sample_bound_db) of Some (Inl e, st') \<Rightarrow> True | _ \<Rightarrow> False)" by code_simp
  then obtain e st' where "create_scope cold_env ''b'' ''q'' (page_start sample_bound_db) = Some (Inl e, st')"
    by (auto split: option.splits prod.splits sum.splits)
  with created_scope_is_compensated [OF this] show ?thesis by (simp add: cold_env_def)
qed

definition sample_item :: "string \<Rightarrow> SnapshotItem" where
  "sample_item i = \<lparr>si_id = i, si_role = role_user, si_participantId = None, si_content = i, si_sourceExecutionId = None\<rparr>"

theorem woven_history_is_stable_witness:
  "weaveSkipAnnotations ([sample_item ''a''] @ [sample_item ''d'']) (\<lambda>i. Some i)
     ([\<lparr>sk_at = ''b'', sk_item = sample_item ''x''\<rparr>] @ [\<lparr>sk_at = ''c'', sk_item = sample_item ''y''\<rparr>])
   = weaveSkipAnnotations [sample_item ''a''] (\<lambda>i. Some i) [\<lparr>sk_at = ''b'', sk_item = sample_item ''x''\<rparr>]
     @ weaveSkipAnnotations [sample_item ''d''] (\<lambda>i. Some i) [\<lparr>sk_at = ''c'', sk_item = sample_item ''y''\<rparr>]"
proof (rule woven_history_is_stable [THEN conjunct1])
  show "\<forall>i\<in>set [sample_item ''a'']. Some (si_id i) = Some (si_id i)" by simp
qed code_simp+

end
