(* ===== verification/Process_Supervisor.thy ===== *)
theory Process_Supervisor
  imports Runtime_Contracts Clip_Utf16
begin

text \<open>
  The supervisor of the driver processes, \<open>runtime-host/process/process-supervisor.ts\<close>.

  Every driver runs under a watchdog process of its own, which reports over a control channel.  A
  driver's record is a value of \<open>DriverRecord\<close>, named by a number; the state keeps every record
  that was ever made, the set of those whose watchdog lives, and the slot of each participant.  The
  log holds what the supervisor did to the outside: control frames, signals, events, and the
  outcome of each promise.  The asynchronous functions are cut at their awaits: a shutdown or a
  \<open>waitSupervised\<close> that is pending is named by a number, and its timer, its event and its
  continuation are steps of their own.  \<open>sup_step\<close> is everything that can happen.

  JSON.parse, the decoding of UTF-8 and the file system's answers about a directory are parameters.
  Bytes are characters; process ids are the texts of their numbers.
\<close>

definition CONTROL_LINE_CAP_BYTES :: nat where
  "CONTROL_LINE_CAP_BYTES = 64 * 1024"

definition WATCHDOG_DIAGNOSTIC_RING_BYTES :: nat where
  "WATCHDOG_DIAGNOSTIC_RING_BYTES = 8 * 1024"

definition SPAWN_ERROR_DETAIL_MAX :: nat where
  "SPAWN_ERROR_DETAIL_MAX = 512"

section \<open>Environment hygiene\<close>

definition ENV_DENY_EXACT :: "string list" where
  "ENV_DENY_EXACT = [''NODE_OPTIONS'', ''BASH_ENV'', ''ENV'']"

definition ENV_DENY_PREFIXES :: "string list" where
  "ENV_DENY_PREFIXES = [''DYLD_'', ''LD_'']"

text \<open>\<open>/TOKEN|SECRET|KEY|PASSWORD|PROXY/i\<close>.\<close>

definition ENV_DENY_PATTERN :: "string \<Rightarrow> bool" where
  "ENV_DENY_PATTERN name \<longleftrightarrow>
     list_ex (str_includes (js_lower name)) [''token'', ''secret'', ''key'', ''password'', ''proxy'']"

definition isDeniedEnvName :: "string \<Rightarrow> bool \<Rightarrow> bool" where
  "isDeniedEnvName name explicitInherit =
     (if name \<in> set ENV_DENY_EXACT then True
      else if list_ex (\<lambda>p. starts_with name p) ENV_DENY_PREFIXES then True
      else if explicitInherit then False
      else ENV_DENY_PATTERN name)"

definition filterDeniedEnv :: "(string, string) jsmap \<Rightarrow> string list \<Rightarrow> (string, string) jsmap" where
  "filterDeniedEnv env exempt = filter (\<lambda>(name, value). \<not> isDeniedEnvName name (name \<in> set exempt)) env"

definition buildSupervisedEnv ::
  "string list \<Rightarrow> (string, string) jsmap \<Rightarrow> (string \<Rightarrow> string option) \<Rightarrow> (string, string) jsmap" where
  "buildSupervisedEnv envInherit envSet sourceEnv =
     (let inherited = fold (\<lambda>name merged. case sourceEnv name of Some v \<Rightarrow> jm_set name v merged | None \<Rightarrow> merged) envInherit [];
          merged = fold (\<lambda>(name, value). jm_set name value) envSet inherited
      in filterDeniedEnv merged envInherit)"

section \<open>The ring of diagnostics\<close>

record BoundedRing =
  br_chunks :: "string list"
  br_total :: nat

definition empty_ring :: BoundedRing where
  "empty_ring = \<lparr>br_chunks = [], br_total = 0\<rparr>"

text \<open>The \<open>while\<close> loop of \<open>append\<close>.\<close>

fun ring_trim :: "nat \<Rightarrow> string list \<Rightarrow> nat \<Rightarrow> string list \<times> nat" where
  "ring_trim limit [] size_now = ([], size_now)"
| "ring_trim limit (head # rest) size_now =
     (if size_now \<le> limit then (head # rest, size_now)
      else
        let excess = size_now - limit
        in if length head \<le> excess then ring_trim limit rest (size_now - length head)
           else (drop excess head # rest, size_now - excess))"

definition ring_append :: "nat \<Rightarrow> string \<Rightarrow> BoundedRing \<Rightarrow> BoundedRing" where
  "ring_append limit chunk ring =
     (if chunk = [] then ring
      else case ring_trim limit (br_chunks ring @ [chunk]) (br_total ring + length chunk) of
             (chunks, size_now) \<Rightarrow> \<lparr>br_chunks = chunks, br_total = size_now\<rparr>)"

definition ring_bytes :: "BoundedRing \<Rightarrow> string" where
  "ring_bytes ring = concat (br_chunks ring)"

section \<open>Directories\<close>

text \<open>The segments of a normalised absolute path.\<close>

definition path_push :: "string list \<Rightarrow> string \<Rightarrow> string list" where
  "path_push acc part =
     (if part = [] \<or> part = ''.'' then acc
      else if part = ''..'' then butlast acc
      else acc @ [part])"

definition path_normalize :: "string \<Rightarrow> string list" where
  "path_normalize path = foldl path_push [] (split_path path)"

definition isAbsolute :: "string \<Rightarrow> bool" where
  "isAbsolute path \<longleftrightarrow> starts_with path ''/''"

text \<open>\<open>relative(from, to)\<close> of two absolute paths, as segments.\<close>

fun path_relative :: "string list \<Rightarrow> string list \<Rightarrow> string list" where
  "path_relative (a # as) (b # bs) = (if a = b then path_relative as bs else map (\<lambda>_. ''..'') (a # as) @ b # bs)"
| "path_relative as bs = map (\<lambda>_. ''..'') as @ bs"

text \<open>What \<open>lstat\<close> and \<open>mkdirPrivate\<close> answer.\<close>

datatype lstat_answer = lstat_missing | lstat_symlink | lstat_directory | lstat_other | lstat_fails string
datatype mkdir_answer = mkdir_ok | mkdir_loop | mkdir_notdir | mkdir_fails string

text \<open>What the supervisor throws: a \<open>RuntimeError\<close>, or what the file system threw.\<close>

datatype sup_error = SupRuntime RuntimeError | SupRethrown string

definition spawnFailed :: "string \<Rightarrow> string option \<Rightarrow> RuntimeError" where
  "spawnFailed message participantId =
     makeError DRIVER_SPAWN_FAILED ph_prewarm (clip_string message SPAWN_ERROR_DETAIL_MAX)
       (no_extra\<lparr>xt_participantId := (case participantId of Some p \<Rightarrow> if p = [] then None else Some p | None \<Rightarrow> None)\<rparr>)"

text \<open>\<open>/^[A-Za-z0-9][A-Za-z0-9._-]{0,127}$/\<close>.\<close>

definition is_alnum :: "char \<Rightarrow> bool" where
  "is_alnum c \<longleftrightarrow> (let n = (of_char c :: nat) in (48 \<le> n \<and> n \<le> 57) \<or> (65 \<le> n \<and> n \<le> 90) \<or> (97 \<le> n \<and> n \<le> 122))"

fun PARTICIPANT_ID_PATTERN :: "string \<Rightarrow> bool" where
  "PARTICIPANT_ID_PATTERN [] = False"
| "PARTICIPANT_ID_PATTERN (c # s) \<longleftrightarrow>
     is_alnum c \<and> length s \<le> 127 \<and> list_all (\<lambda>d. is_alnum d \<or> d = CHR ''.'' \<or> d = CHR ''_'' \<or> d = CHR ''-'') s"

definition mkdir_throws :: "string \<Rightarrow> string \<Rightarrow> string \<Rightarrow> mkdir_answer \<Rightarrow> sup_error option" where
  "mkdir_throws symlink notdir participantId answer =
     (case answer of
        mkdir_ok \<Rightarrow> None
      | mkdir_loop \<Rightarrow> Some (SupRuntime (spawnFailed symlink (Some participantId)))
      | mkdir_notdir \<Rightarrow> Some (SupRuntime (spawnFailed notdir (Some participantId)))
      | mkdir_fails e \<Rightarrow> Some (SupRethrown e))"

text \<open>The path, as segments, with \<open>join(root, participantId)\<close> normalised.\<close>

definition prepareParticipantCwd :: "(string list \<Rightarrow> mkdir_answer) \<Rightarrow> string \<Rightarrow> string \<Rightarrow> sup_error + string list" where
  "prepareParticipantCwd mkdirPrivate root participantId =
     (if \<not> isAbsolute root then Inl (SupRuntime (spawnFailed ''driverWorkRoot must be an absolute path'' (Some participantId)))
      else if \<not> PARTICIPANT_ID_PATTERN participantId
        then Inl (SupRuntime (spawnFailed ''participantId is not safe for a dedicated cwd'' (Some participantId)))
      else
        let target = path_normalize (root @ ''/'' @ participantId)
        in case mkdir_throws ''participant cwd must not be a symlink'' ''participant cwd exists and is not a directory''
                  participantId (mkdirPrivate target) of
             Some e \<Rightarrow> Inl e
           | None \<Rightarrow> Inr target)"

definition ensureCwd :: "lstat_answer \<Rightarrow> mkdir_answer \<Rightarrow> string \<Rightarrow> string \<Rightarrow> string \<Rightarrow> sup_error option" where
  "ensureCwd existing made driverWorkRoot cwd participantId =
     (let throws = (\<lambda>message. Some (SupRuntime (spawnFailed message (Some participantId))));
          rel = path_relative (path_normalize driverWorkRoot) (path_normalize cwd);
          making = mkdir_throws ''driver cwd must not be a symlink'' ''driver cwd is not a directory'' participantId made
      in case existing of
           lstat_fails e \<Rightarrow> Some (SupRethrown e)
         | lstat_symlink \<Rightarrow> throws ''driver cwd must not be a symlink''
         | lstat_other \<Rightarrow> throws ''driver cwd is not a directory''
         | lstat_directory \<Rightarrow> making
         | lstat_missing \<Rightarrow>
             if rel = [] \<or> starts_with (join ''/'' rel) ''..''
             then throws ''driver cwd does not exist and is outside driverWorkRoot''
             else making)"

section \<open>The supervisor's state\<close>

text \<open>The spawn request, and what is kept of a driver.  \<open>dr_waiting\<close> are the pending
  \<open>waitSupervised\<close> promises; \<open>dr_exitWaiters\<close> the shutdowns that wait for the watchdog to exit, with
  whether the wait is the second one.\<close>

record DriverSpawnSpec =
  ds_participantId :: string
  ds_executable :: string
  ds_argv :: "string list"
  ds_cwd :: string
  ds_envInherit :: "string list"
  ds_envSet :: "(string, string) jsmap"

record DriverRecord =
  dr_spec :: DriverSpawnSpec
  dr_pid :: "string option"
  dr_pgid :: "string option"
  dr_supervised :: bool
  dr_driverSettled :: bool
  dr_spawnError :: "string option"
  dr_expectingWatchdogExit :: bool
  dr_watchdogHandled :: bool
  dr_watchdogExit :: "(string option \<times> string option) option"
  dr_controlBuffer :: string
  dr_controlDestroyed :: bool
  dr_diagnostics :: BoundedRing
  dr_exitWaiters :: "(nat \<times> bool) list"
  dr_waiting :: "nat list"

datatype sup_event =
    wrote_control nat json
  | signalled_watchdog nat
  | signalled_group nat string
  | emitted_supervised nat "string option" "string option" "string option"
  | emitted_spawn_error nat string
  | emitted_exit nat "string option" "string option"
  | emitted_watchdog_exit nat
  | wait_settled nat "RuntimeError option"
  | end_asked nat
  | shutdown_done nat nat
  | logged string string
  | crashed

record supervisor =
  su_rec :: "nat \<Rightarrow> DriverRecord"
  su_next :: nat
  su_records :: "nat list"
  su_byParticipant :: "(string, nat) jsmap"
  su_reapedByWatchdog :: nat
  su_reapedAfterDeath :: nat
  su_log :: "sup_event list"
  su_promises :: nat
  su_resuming :: "(nat \<times> nat) list"

record sup_env =
  se_utf8 :: "string \<Rightarrow> string"
  se_parse :: "string \<Rightarrow> json option"
  se_environ :: "string \<Rightarrow> string option"
  se_driverWorkRoot :: string
  se_text :: "json \<Rightarrow> string"

definition log_event :: "sup_event \<Rightarrow> supervisor \<Rightarrow> supervisor" where
  "log_event ev su = su\<lparr>su_log := su_log su @ [ev]\<rparr>"

definition change :: "nat \<Rightarrow> (DriverRecord \<Rightarrow> DriverRecord) \<Rightarrow> supervisor \<Rightarrow> supervisor" where
  "change r f su = su\<lparr>su_rec := (su_rec su)(r := f (su_rec su r))\<rparr>"

definition participant_of :: "supervisor \<Rightarrow> nat \<Rightarrow> string" where
  "participant_of su r = ds_participantId (dr_spec (su_rec su r))"

text \<open>An event of the record settles the promises that listen to it.\<close>

definition settle_waiting :: "nat \<Rightarrow> RuntimeError option \<Rightarrow> supervisor \<Rightarrow> supervisor" where
  "settle_waiting r result su =
     change r (\<lambda>d. d\<lparr>dr_waiting := []\<rparr>)
       (su\<lparr>su_log := su_log su @ map (\<lambda>w. wait_settled w result) (dr_waiting (su_rec su r))\<rparr>)"

text \<open>The slot is freed only when it still belongs to this record.\<close>

definition free_slot :: "nat \<Rightarrow> supervisor \<Rightarrow> supervisor" where
  "free_slot r su =
     (if jm_get (su_byParticipant su) (participant_of su r) = Some r
      then su\<lparr>su_byParticipant := jm_delete (participant_of su r) (su_byParticipant su)\<rparr>
      else su)"

definition crash_error :: "string \<Rightarrow> RuntimeError" where
  "crash_error participantId =
     makeError DRIVER_CRASH ph_prewarm ''driver exited before it was supervised''
       (no_extra\<lparr>xt_participantId := Some participantId\<rparr>)"

section \<open>Operations on one driver\<close>

definition reapGroup :: "nat \<Rightarrow> supervisor \<Rightarrow> supervisor" where
  "reapGroup r su = (case dr_pgid (su_rec su r) of None \<Rightarrow> su | Some g \<Rightarrow> log_event (signalled_group r g) su)"

definition settleDriver :: "nat \<Rightarrow> string option \<Rightarrow> string option \<Rightarrow> supervisor \<Rightarrow> supervisor" where
  "settleDriver r code signal su =
     (if dr_driverSettled (su_rec su r) then su
      else
        let su1 = free_slot r (change r (\<lambda>d. d\<lparr>dr_driverSettled := True\<rparr>) su)
        in settle_waiting r (Some (crash_error (participant_of su r))) (log_event (emitted_exit r code signal) su1))"

text \<open>\<open>reapGroup\<close> and \<open>settleDriver\<close> for a known group that has not been accounted for.\<close>

definition reap_unsettled :: "nat \<Rightarrow> supervisor \<Rightarrow> supervisor" where
  "reap_unsettled r su =
     (if dr_pgid (su_rec su r) \<noteq> None \<and> \<not> dr_driverSettled (su_rec su r)
      then settleDriver r None (Some ''SIGKILL'') (reapGroup r su)
      else su)"

definition closeAfterProtocolViolation :: "nat \<Rightarrow> string \<Rightarrow> supervisor \<Rightarrow> supervisor" where
  "closeAfterProtocolViolation r reason su =
     log_event (signalled_watchdog r)
       (change r (\<lambda>d. d\<lparr>dr_controlDestroyed := True\<rparr>) (log_event (logged ''watchdog-protocol-violation'' reason) su))"

definition sendControl :: "nat \<Rightarrow> json \<Rightarrow> supervisor \<Rightarrow> supervisor" where
  "sendControl r message su =
     (if dr_watchdogHandled (su_rec su r) \<or> dr_controlDestroyed (su_rec su r) then su
      else if CONTROL_LINE_CAP_BYTES < utf8_len (stringify message @ [CHR 0x0A])
        then closeAfterProtocolViolation r ''outgoing control frame exceeds 64 KiB'' su
      else log_event (wrote_control r message) su)"

definition handle_supervised :: "nat \<Rightarrow> json \<Rightarrow> supervisor \<Rightarrow> supervisor" where
  "handle_supervised r message su =
     (let pid = number_field message ''pid''; pgid = number_field message ''pgid'';
          su1 = change r (\<lambda>d. d\<lparr>dr_pid := pid, dr_pgid := pgid, dr_supervised := True\<rparr>) su
      in settle_waiting r None (log_event (emitted_supervised r pid pgid (string_field message ''startedAt'')) su1))"

definition handle_spawn_error :: "sup_env \<Rightarrow> nat \<Rightarrow> json \<Rightarrow> supervisor \<Rightarrow> supervisor" where
  "handle_spawn_error env r message su =
     (let txt = clip_string (case json_field message ''message'' of
              None \<Rightarrow> ''unknown spawn error'' | Some JNull \<Rightarrow> ''unknown spawn error'' | Some (JStr s) \<Rightarrow> s | Some v \<Rightarrow> se_text env v)
              SPAWN_ERROR_DETAIL_MAX;
          su1 = change r (\<lambda>d. d\<lparr>dr_spawnError := Some txt, dr_expectingWatchdogExit := True\<rparr>) su;
          su2 = settle_waiting r (Some (spawnFailed txt (Some (participant_of su r)))) (log_event (emitted_spawn_error r txt) su1)
      in if dr_supervised (su_rec su2 r) \<and> \<not> dr_driverSettled (su_rec su2 r) then settleDriver r None None su2 else su2)"

text \<open>The flag is false when the handler throws: a line whose value is \<open>null\<close> has no \<open>type\<close> to read.\<close>

definition handleControlLine :: "sup_env \<Rightarrow> nat \<Rightarrow> string \<Rightarrow> supervisor \<Rightarrow> bool \<times> supervisor" where
  "handleControlLine env r line su =
     (if js_trim line = [] then (True, su)
      else case se_parse env (js_trim line) of
        None \<Rightarrow> (True, log_event (logged ''watchdog-protocol'' ''ignoring malformed control frame'') su)
      | Some JNull \<Rightarrow> (False, log_event crashed su)
      | Some message \<Rightarrow>
          (True,
           case string_field message ''type'' of
             None \<Rightarrow> su
           | Some t \<Rightarrow>
               if t = ''supervised'' then handle_supervised r message su
               else if t = ''spawn-error'' then handle_spawn_error env r message su
               else if t = ''exit'' then
                 settleDriver r (number_field message ''code'') (string_field message ''signal'')
                   (change r (\<lambda>d. d\<lparr>dr_expectingWatchdogExit := True\<rparr>) su)
               else if t = ''reaped'' then
                 log_event (logged ''watchdog.reaped'' (case string_field message ''reason'' of Some s \<Rightarrow> s | None \<Rightarrow> ''unknown''))
                   (su\<lparr>su_reapedByWatchdog := su_reapedByWatchdog su + 1\<rparr>)
               else su))"

text \<open>The bytes before and after the first line feed.\<close>

fun cut_line :: "string \<Rightarrow> (string \<times> string) option" where
  "cut_line [] = None"
| "cut_line (c # s) =
     (if c = CHR 0x0A then Some ([], s) else map_option (\<lambda>(line, rest). (c # line, rest)) (cut_line s))"

lemma cut_line_shorter: "cut_line s = Some (line, rest) \<Longrightarrow> length rest < length s"
  by (induction s arbitrary: line) (auto split: if_splits)

definition inbound_violation :: string where
  "inbound_violation = ''inbound control frame exceeds 64 KiB''"

text \<open>The loop over the complete lines of the buffer.\<close>

function take_lines :: "sup_env \<Rightarrow> nat \<Rightarrow> string \<Rightarrow> supervisor \<Rightarrow> supervisor" where
  "take_lines env r buffer su =
     (case cut_line buffer of
        None \<Rightarrow> if CONTROL_LINE_CAP_BYTES < length buffer then closeAfterProtocolViolation r inbound_violation su else su
      | Some (line, rest) \<Rightarrow>
          let su1 = change r (\<lambda>d. d\<lparr>dr_controlBuffer := rest\<rparr>) su
          in if CONTROL_LINE_CAP_BYTES < length line then closeAfterProtocolViolation r inbound_violation su1
             else case handleControlLine env r (se_utf8 env line) su1 of
                 (False, su2) \<Rightarrow> su2
               | (True, su2) \<Rightarrow> if dr_watchdogHandled (su_rec su2 r) then su2 else take_lines env r rest su2)"
  by pat_completeness auto
termination
  by (relation "measure (\<lambda>(env, r, buffer, su). length buffer)") (auto dest: cut_line_shorter)

declare take_lines.simps [simp del]

definition handleControlChunk :: "sup_env \<Rightarrow> nat \<Rightarrow> string \<Rightarrow> supervisor \<Rightarrow> supervisor" where
  "handleControlChunk env r chunk su =
     (if dr_watchdogHandled (su_rec su r) then su
      else
        let buffer = dr_controlBuffer (su_rec su r) @ chunk
        in take_lines env r buffer (change r (\<lambda>d. d\<lparr>dr_controlBuffer := buffer\<rparr>) su))"

section \<open>The end of a watchdog, and shutting down\<close>

definition record_of_exit :: "nat \<Rightarrow> string option \<Rightarrow> string option \<Rightarrow> supervisor \<Rightarrow> supervisor" where
  "record_of_exit r code signal =
     change r (\<lambda>d. d\<lparr>dr_watchdogHandled := True, dr_watchdogExit := Some (code, signal)\<rparr>)"

text \<open>A watchdog that nobody expected to end: its driver may live on.\<close>

definition unexpected_exit :: "nat \<Rightarrow> supervisor \<Rightarrow> supervisor" where
  "unexpected_exit r su =
     (let su1 = (if dr_pgid (su_rec su r) \<noteq> None \<and> \<not> dr_driverSettled (su_rec su r)
            then log_event (logged ''watchdog-exit'' ''watchdog died unexpectedly; driver group reaped via pgid'')
                   ((reap_unsettled r su)\<lparr>su_reapedAfterDeath := su_reapedAfterDeath su + 1\<rparr>)
            else log_event (logged ''watchdog-exit'' ''watchdog died before supervision completed'') su)
      in settle_waiting r (Some (spawnFailed ''watchdog exited before reporting supervised'' (Some (participant_of su r))))
           (log_event (emitted_watchdog_exit r) su1))"

text \<open>The shutdowns that waited go on later, each in a continuation of its own.\<close>

definition handleWatchdogExit :: "nat \<Rightarrow> string option \<Rightarrow> string option \<Rightarrow> supervisor \<Rightarrow> supervisor" where
  "handleWatchdogExit r code signal su =
     (if dr_watchdogHandled (su_rec su r) then su
      else
        let su1 = record_of_exit r code signal su;
            d = su_rec su1 r;
            su2 = (if dr_expectingWatchdogExit d \<or> dr_driverSettled d \<or> dr_spawnError d \<noteq> None then su1
                   else unexpected_exit r su1);
            su3 = (if ring_bytes (dr_diagnostics d) = [] then su2
                   else log_event (logged ''watchdog-stderr'' (ring_bytes (dr_diagnostics d))) su2);
            su4 = change r (\<lambda>d. d\<lparr>dr_exitWaiters := []\<rparr>)
                    (su3\<lparr>su_resuming := su_resuming su3 @ map (\<lambda>(s, again). (s, r)) (dr_exitWaiters (su_rec su3 r)),
                         su_records := removeAll r (su_records su3)\<rparr>)
        in free_slot r su4)"

definition watchdog_stderr :: "nat \<Rightarrow> string \<Rightarrow> supervisor \<Rightarrow> supervisor" where
  "watchdog_stderr r chunk =
     change r (\<lambda>d. d\<lparr>dr_diagnostics := ring_append WATCHDOG_DIAGNOSTIC_RING_BYTES chunk (dr_diagnostics d)\<rparr>)"

text \<open>The end of \<open>shutdownRecord\<close>: no known group is left behind.\<close>

definition finish_shutdown :: "nat \<Rightarrow> nat \<Rightarrow> supervisor \<Rightarrow> supervisor" where
  "finish_shutdown s r su = log_event (shutdown_done s r) (reap_unsettled r su)"

definition wait_for_exit :: "nat \<Rightarrow> nat \<Rightarrow> bool \<Rightarrow> supervisor \<Rightarrow> supervisor" where
  "wait_for_exit s r again su =
     (if dr_watchdogHandled (su_rec su r) then su\<lparr>su_resuming := su_resuming su @ [(s, r)]\<rparr>
      else change r (\<lambda>d. d\<lparr>dr_exitWaiters := dr_exitWaiters d @ [(s, again)]\<rparr>) su)"

definition shutdown_frame :: "nat \<Rightarrow> json" where
  "shutdown_frame graceMs = JObj [(''type'', JStr ''shutdown''), (''graceMs'', JNum (show_nat graceMs))]"

text \<open>\<open>shutdownRecord\<close> up to its first wait.\<close>

definition shutdownRecord :: "nat \<Rightarrow> nat \<Rightarrow> nat \<Rightarrow> supervisor \<Rightarrow> supervisor" where
  "shutdownRecord s r graceMs su =
     (let su0 = log_event (end_asked r) su
      in if dr_watchdogHandled (su_rec su r) then finish_shutdown s r su0
         else
           wait_for_exit s r False
             (sendControl r (shutdown_frame graceMs) (change r (\<lambda>d. d\<lparr>dr_expectingWatchdogExit := True\<rparr>) su0)))"

text \<open>The timer of a wait: of the first one the watchdog is killed, of the second one nothing is waited for any more.\<close>

definition shutdown_timer :: "nat \<Rightarrow> nat \<Rightarrow> supervisor \<Rightarrow> supervisor" where
  "shutdown_timer s r su =
     (case map_of (dr_exitWaiters (su_rec su r)) s of
        None \<Rightarrow> su
      | Some again \<Rightarrow>
          let su1 = change r (\<lambda>d. d\<lparr>dr_exitWaiters := filter (\<lambda>w. fst w \<noteq> s) (dr_exitWaiters d)\<rparr>) su
          in if again then finish_shutdown s r su1
             else wait_for_exit s r True (reap_unsettled r (log_event (signalled_watchdog r) su1)))"

definition shutdown_resumes :: "supervisor \<Rightarrow> supervisor" where
  "shutdown_resumes su =
     (case su_resuming su of
        [] \<Rightarrow> su
      | (s, r) # rest \<Rightarrow> finish_shutdown s r (su\<lparr>su_resuming := rest\<rparr>))"

section \<open>What a caller asks\<close>

definition kill_frame :: "string \<Rightarrow> nat option \<Rightarrow> json" where
  "kill_frame signal graceMs =
     JObj ([(''type'', JStr ''kill''), (''signal'', JStr signal)]
       @ (case graceMs of None \<Rightarrow> [] | Some n \<Rightarrow> [(''graceMs'', JNum (show_nat n))]))"

definition kill_driver :: "nat \<Rightarrow> string \<Rightarrow> nat option \<Rightarrow> supervisor \<Rightarrow> supervisor" where
  "kill_driver r signal graceMs su =
     (if dr_driverSettled (su_rec su r) then su
      else
        sendControl r (kill_frame signal graceMs)
          (change r (\<lambda>d. d\<lparr>dr_expectingWatchdogExit := True\<rparr>) (log_event (end_asked r) su)))"

definition closeStdin :: "nat \<Rightarrow> supervisor \<Rightarrow> supervisor" where
  "closeStdin r = sendControl r (JObj [(''type'', JStr ''close-stdin'')])"

definition waitSupervised :: "nat \<Rightarrow> nat \<Rightarrow> supervisor \<Rightarrow> supervisor" where
  "waitSupervised w r su =
     (let d = su_rec su r; p = participant_of su r
      in if dr_supervised d then log_event (wait_settled w None) su
         else case dr_spawnError d of
           Some e \<Rightarrow> log_event (wait_settled w (Some (spawnFailed e (Some p)))) su
         | None \<Rightarrow>
             if dr_driverSettled d then log_event (wait_settled w (Some (crash_error p))) su
             else if dr_watchdogHandled d
               then log_event (wait_settled w (Some (spawnFailed ''watchdog exited before reporting supervised'' (Some p)))) su
             else change r (\<lambda>d. d\<lparr>dr_waiting := dr_waiting d @ [w]\<rparr>) su)"

definition wait_timer :: "nat \<Rightarrow> nat \<Rightarrow> nat \<Rightarrow> supervisor \<Rightarrow> supervisor" where
  "wait_timer w r timeoutMs su =
     (if w \<notin> set (dr_waiting (su_rec su r)) then su
      else
        let su1 = change r (\<lambda>d. d\<lparr>dr_waiting := filter (\<lambda>v. v \<noteq> w) (dr_waiting d), dr_expectingWatchdogExit := True\<rparr>)
                    (log_event (end_asked r) su);
            su2 = log_event (signalled_watchdog r) (sendControl r (kill_frame ''SIGKILL'' None) su1)
        in log_event (wait_settled w (Some (spawnFailed
               (''timed out after '' @ show_nat timeoutMs @ ''ms waiting for watchdog \"supervised\"'') (Some (participant_of su r)))))
             (reap_unsettled r su2))"

text \<open>\<open>validateSpec\<close>, as far as the types leave it something to check.\<close>

definition validateSpec :: "DriverSpawnSpec \<Rightarrow> RuntimeError option" where
  "validateSpec spec =
     (let fails = (\<lambda>message. Some (spawnFailed message (Some (ds_participantId spec))))
      in if ds_participantId spec = [] then fails ''participantId is required''
         else if \<not> isAbsolute (ds_executable spec) then fails ''executable must be an absolute path''
         else if \<not> isAbsolute (ds_cwd spec) then fails ''cwd must be an absolute path''
         else None)"

definition spawn_frame :: "DriverSpawnSpec \<Rightarrow> (string, string) jsmap \<Rightarrow> json" where
  "spawn_frame spec env =
     JObj [(''type'', JStr ''spawn''), (''executable'', JStr (ds_executable spec)), (''argv'', JArr (map JStr (ds_argv spec))),
           (''cwd'', JStr (ds_cwd spec)), (''env'', JObj (map (\<lambda>(n, v). (n, JStr v)) env))]"

definition new_record :: "DriverSpawnSpec \<Rightarrow> DriverRecord" where
  "new_record spec =
     \<lparr>dr_spec = spec, dr_pid = None, dr_pgid = None, dr_supervised = False, dr_driverSettled = False,
      dr_spawnError = None, dr_expectingWatchdogExit = False, dr_watchdogHandled = False, dr_watchdogExit = None,
      dr_controlBuffer = [], dr_controlDestroyed = False, dr_diagnostics = empty_ring, dr_exitWaiters = [], dr_waiting = []\<rparr>"

definition add_record :: "DriverSpawnSpec \<Rightarrow> supervisor \<Rightarrow> supervisor" where
  "add_record spec su =
     su\<lparr>su_rec := (su_rec su)(su_next su := new_record spec), su_next := Suc (su_next su),
        su_records := su_records su @ [su_next su],
        su_byParticipant := jm_set (ds_participantId spec) (su_next su) (su_byParticipant su)\<rparr>"

definition spawn_watchdog :: "sup_env \<Rightarrow> DriverSpawnSpec \<Rightarrow> bool \<Rightarrow> supervisor \<Rightarrow> (sup_error + nat) \<times> supervisor" where
  "spawn_watchdog env spec piped su =
     (if \<not> piped
      then (Inl (SupRuntime (spawnFailed ''watchdog stdio pipes were not established'' (Some (ds_participantId spec)))), su)
      else
        let childEnv = buildSupervisedEnv (ds_envInherit spec) (ds_envSet spec) (se_environ env)
        in (Inr (su_next su), sendControl (su_next su) (spawn_frame spec childEnv) (add_record spec su)))"

text \<open>\<open>spawnDriver\<close> after the await on \<open>lstat\<close>; before it only the spec is checked.  Its answers are
  arguments: the directory's, and whether the five pipes of the watchdog were established.\<close>

definition spawnDriver ::
  "sup_env \<Rightarrow> DriverSpawnSpec \<Rightarrow> lstat_answer \<Rightarrow> mkdir_answer \<Rightarrow> bool \<Rightarrow> supervisor \<Rightarrow> (sup_error + nat) \<times> supervisor" where
  "spawnDriver env spec existing made piped su =
     (case validateSpec spec of
        Some e \<Rightarrow> (Inl (SupRuntime e), su)
      | None \<Rightarrow>
     (case ensureCwd existing made (se_driverWorkRoot env) (ds_cwd spec) (ds_participantId spec) of
        Some e \<Rightarrow> (Inl e, su)
      | None \<Rightarrow>
          let p = ds_participantId spec
          in case jm_get (su_byParticipant su) p of
               Some r \<Rightarrow>
                 if \<not> dr_driverSettled (su_rec su r)
                 then (Inl (SupRuntime (spawnFailed ''participant already has a live driver'' (Some p))), su)
                 else spawn_watchdog env spec piped su
             | None \<Rightarrow> spawn_watchdog env spec piped su))"

definition liveCount :: "supervisor \<Rightarrow> nat" where
  "liveCount su = length (filter (\<lambda>r. dr_supervised (su_rec su r) \<and> \<not> dr_driverSettled (su_rec su r)) (su_records su))"

text \<open>Each call of \<open>shutdownRecord\<close> or \<open>waitSupervised\<close> is named by a fresh number.\<close>

definition fresh_promise :: "(nat \<Rightarrow> supervisor \<Rightarrow> supervisor) \<Rightarrow> supervisor \<Rightarrow> supervisor" where
  "fresh_promise f su = f (su_promises su) (su\<lparr>su_promises := Suc (su_promises su)\<rparr>)"

definition shutdownAll :: "nat \<Rightarrow> supervisor \<Rightarrow> supervisor" where
  "shutdownAll graceMs su = fold (\<lambda>r. fresh_promise (\<lambda>s. shutdownRecord s r graceMs)) (su_records su) su"

definition createProcessSupervisor :: supervisor where
  "createProcessSupervisor =
     \<lparr>su_rec = (\<lambda>_. new_record \<lparr>ds_participantId = [], ds_executable = [], ds_argv = [], ds_cwd = [], ds_envInherit = [], ds_envSet = []\<rparr>),
      su_next = 0, su_records = [], su_byParticipant = [], su_reapedByWatchdog = 0, su_reapedAfterDeath = 0, su_log = [],
      su_promises = 0, su_resuming = []\<rparr>"

section \<open>Everything that can happen\<close>

inductive sup_step :: "sup_env \<Rightarrow> supervisor \<Rightarrow> supervisor \<Rightarrow> bool" for env where
  step_spawn: "sup_step env su (snd (spawnDriver env spec existing made piped su))"
| step_chunk: "r < su_next su \<Longrightarrow> sup_step env su (handleControlChunk env r chunk su)"
| step_exit: "r < su_next su \<Longrightarrow> sup_step env su (handleWatchdogExit r code signal su)"
| step_stderr: "r < su_next su \<Longrightarrow> sup_step env su (watchdog_stderr r chunk su)"
| step_kill: "r < su_next su \<Longrightarrow> sup_step env su (kill_driver r signal graceMs su)"
| step_close: "r < su_next su \<Longrightarrow> sup_step env su (closeStdin r su)"
| step_wait: "r < su_next su \<Longrightarrow> sup_step env su (fresh_promise (\<lambda>w. waitSupervised w r) su)"
| step_wait_timer: "r < su_next su \<Longrightarrow> sup_step env su (wait_timer w r timeoutMs su)"
| step_shutdown: "r < su_next su \<Longrightarrow> sup_step env su (fresh_promise (\<lambda>s. shutdownRecord s r graceMs) su)"
| step_shutdown_timer: "r < su_next su \<Longrightarrow> sup_step env su (shutdown_timer s r su)"
| step_resume: "sup_step env su (shutdown_resumes su)"
| step_shutdown_all: "sup_step env su (shutdownAll graceMs su)"

abbreviation sup_reachable :: "sup_env \<Rightarrow> supervisor \<Rightarrow> bool" where
  "sup_reachable env su \<equiv> (sup_step env)\<^sup>*\<^sup>* createProcessSupervisor su"

end
