(* ===== verification/Supervisor_Properties.thy ===== *)
theory Supervisor_Properties
  imports Process_Supervisor
begin

text \<open>
  What the process supervisor guarantees.  \<open>sup_ok\<close> is its invariant; every operation is a
  composition of a few primitive changes of the state, each of which keeps it.
\<close>

section \<open>Primitive changes\<close>

named_theorems sup_simps "the fields of a state after a primitive change"

lemma log_event_fields [sup_simps, simp]:
  "su_rec (log_event e su) = su_rec su" "su_next (log_event e su) = su_next su"
  "su_records (log_event e su) = su_records su" "su_byParticipant (log_event e su) = su_byParticipant su"
  "su_log (log_event e su) = su_log su @ [e]" "su_resuming (log_event e su) = su_resuming su"
  by (simp_all add: log_event_def)

lemma change_fields [sup_simps, simp]:
  "su_rec (change r f su) = (su_rec su)(r := f (su_rec su r))" "su_next (change r f su) = su_next su"
  "su_records (change r f su) = su_records su" "su_byParticipant (change r f su) = su_byParticipant su"
  "su_log (change r f su) = su_log su" "su_resuming (change r f su) = su_resuming su"
  by (simp_all add: change_def)

lemma settle_waiting_fields [sup_simps, simp]:
  "su_rec (settle_waiting r res su) = (su_rec su)(r := (su_rec su r)\<lparr>dr_waiting := []\<rparr>)"
  "su_next (settle_waiting r res su) = su_next su" "su_records (settle_waiting r res su) = su_records su"
  "su_byParticipant (settle_waiting r res su) = su_byParticipant su"
  "su_resuming (settle_waiting r res su) = su_resuming su"
  by (simp_all add: settle_waiting_def)

lemma free_slot_fields [sup_simps, simp]:
  "su_rec (free_slot r su) = su_rec su" "su_next (free_slot r su) = su_next su"
  "su_records (free_slot r su) = su_records su" "su_log (free_slot r su) = su_log su"
  "su_resuming (free_slot r su) = su_resuming su"
  by (simp_all add: free_slot_def)

text \<open>How often the end of a driver was reported.\<close>

definition exits :: "nat \<Rightarrow> sup_event list \<Rightarrow> nat" where
  "exits r log = length (filter (\<lambda>e. \<exists>c s. e = emitted_exit r c s) log)"

lemma exits_simps [simp]:
  "exits r [] = 0" "exits r (xs @ ys) = exits r xs + exits r ys" "exits r [emitted_exit r' c s] = of_bool (r = r')"
  by (simp_all add: exits_def)

lemma exits_other: "(\<And>c s. e \<noteq> emitted_exit r c s) \<Longrightarrow> exits r [e] = 0"
  by (simp add: exits_def)

lemma exits_settled [simp]: "exits r (map (\<lambda>w. wait_settled w res) ws) = 0"
  by (induction ws) (auto simp: exits_def)

text \<open>Somebody asked the driver to end, or it never started.\<close>

definition excused :: "supervisor \<Rightarrow> nat \<Rightarrow> bool" where
  "excused su r \<longleftrightarrow> end_asked r \<in> set (su_log su) \<or> dr_spawnError (su_rec su r) \<noteq> None"

text \<open>Slots and records fit together.\<close>

definition slots_ok :: "supervisor \<Rightarrow> bool" where
  "slots_ok su \<longleftrightarrow>
     distinct (su_records su) \<and> (\<forall>r\<in>set (su_records su). r < su_next su) \<and> jm_ok (su_byParticipant su)
   \<and> (\<forall>p r. jm_get (su_byParticipant su) p = Some r \<longrightarrow> r \<in> set (su_records su) \<and> participant_of su r = p)
   \<and> (\<forall>r\<in>set (su_records su). \<not> dr_driverSettled (su_rec su r) \<longrightarrow> jm_get (su_byParticipant su) (participant_of su r) = Some r)"

definition record_ok :: "supervisor \<Rightarrow> nat \<Rightarrow> bool" where
  "record_ok su r \<longleftrightarrow>
     (r \<in> set (su_records su) \<longleftrightarrow> \<not> dr_watchdogHandled (su_rec su r))
   \<and> exits r (su_log su) = of_bool (dr_driverSettled (su_rec su r))
   \<and> (\<not> dr_driverSettled (su_rec su r)
        \<and> (dr_watchdogHandled (su_rec su r) \<and> dr_pgid (su_rec su r) \<noteq> None \<or> dr_expectingWatchdogExit (su_rec su r))
      \<longrightarrow> excused su r)"

definition sup_ok :: "supervisor \<Rightarrow> bool" where
  "sup_ok su \<longleftrightarrow> slots_ok su \<and> (\<forall>r < su_next su. record_ok su r) \<and> (\<forall>r \<ge> su_next su. exits r (su_log su) = 0)
   \<and> (\<forall>x\<in>set (su_resuming su). snd x < su_next su)"

lemma sup_okI:
  assumes "slots_ok su" "\<And>r. r < su_next su \<Longrightarrow> record_ok su r" "\<And>r. su_next su \<le> r \<Longrightarrow> exits r (su_log su) = 0"
    "\<And>x. x \<in> set (su_resuming su) \<Longrightarrow> snd x < su_next su"
  shows "sup_ok su"
  using assms by (simp add: sup_ok_def)

section \<open>The primitive changes keep the invariant\<close>

text \<open>A change of one record, with more in the log, that leaves alone what the invariant speaks of.\<close>

lemma ok_change:
  assumes ok: "sup_ok su"
    and same: "su_next su' = su_next su" "su_records su' = su_records su" "su_byParticipant su' = su_byParticipant su" "su_resuming su' = su_resuming su"
    and log: "su_log su' = su_log su @ new" "\<And>r'. exits r' new = 0"
    and rec: "su_rec su' = (su_rec su)(r := d)"
    and keeps: "dr_spec d = dr_spec (su_rec su r)" "dr_driverSettled d = dr_driverSettled (su_rec su r)"
      "dr_watchdogHandled d = dr_watchdogHandled (su_rec su r)"
      "dr_watchdogHandled d \<Longrightarrow> dr_pgid d = dr_pgid (su_rec su r)"
      "dr_spawnError (su_rec su r) \<noteq> None \<Longrightarrow> dr_spawnError d \<noteq> None"
      "dr_expectingWatchdogExit d \<Longrightarrow> dr_expectingWatchdogExit (su_rec su r) \<or> end_asked r \<in> set (su_log su')
         \<or> dr_spawnError d \<noteq> None \<or> dr_driverSettled d"
  shows "sup_ok su'"
proof (rule sup_okI)
  have p: "participant_of su' = participant_of su" by (auto simp: participant_of_def rec keeps(1) fun_eq_iff)
  have settled: "dr_driverSettled (su_rec su' x) = dr_driverSettled (su_rec su x)" for x by (simp add: rec keeps(2))
  show "slots_ok su'" using ok by (simp add: sup_ok_def slots_ok_def same p settled)
  show "exits r' (su_log su') = 0" if "su_next su' \<le> r'" for r'
    using ok that by (simp add: sup_ok_def same log)
  show "snd x < su_next su'" if "x \<in> set (su_resuming su')" for x
    using ok that by (simp add: sup_ok_def same)
  show "record_ok su' r'" if "r' < su_next su'" for r'
  proof -
    have old: "record_ok su r'" using ok that by (simp add: sup_ok_def same)
    show ?thesis
    proof (cases "r' = r")
      case True
      then show ?thesis using old keeps log by (auto simp: record_ok_def same rec excused_def)
    next
      case False
      then show ?thesis using old log by (auto simp: record_ok_def same rec excused_def)
    qed
  qed
qed

lemma ok_log:
  assumes "sup_ok su" "\<And>r. exits r [e] = 0"
  shows "sup_ok (log_event e su)"
  by (rule ok_change [OF assms(1), where r = 0 and d = "su_rec su 0" and new = "[e]"]) (simp_all add: assms(2))

lemma ok_waiting: "sup_ok su \<Longrightarrow> sup_ok (settle_waiting r res su)"
  by (rule ok_change [where r = r and d = "(su_rec su r)\<lparr>dr_waiting := []\<rparr>"
        and new = "map (\<lambda>w. wait_settled w res) (dr_waiting (su_rec su r))"])
    (auto simp: settle_waiting_def change_def)

lemma ok_counters [simp]:
  "sup_ok (su\<lparr>su_reapedByWatchdog := n\<rparr>) = sup_ok su" "sup_ok (su\<lparr>su_reapedAfterDeath := n\<rparr>) = sup_ok su"
  "sup_ok (su\<lparr>su_promises := n\<rparr>) = sup_ok su"
  by (simp_all add: sup_ok_def slots_ok_def record_ok_def excused_def participant_of_def)

lemma ok_resuming:
  assumes "sup_ok su" "\<forall>x\<in>set l. snd x < su_next su"
  shows "sup_ok (su\<lparr>su_resuming := l\<rparr>)"
  using assms by (simp add: sup_ok_def slots_ok_def record_ok_def excused_def participant_of_def)

text \<open>An operation that keeps the invariant and allots no record.\<close>

definition safe :: "nat \<Rightarrow> (supervisor \<Rightarrow> supervisor) \<Rightarrow> bool" where
  "safe r f \<longleftrightarrow> (\<forall>su. sup_ok su \<and> r < su_next su \<longrightarrow> sup_ok (f su) \<and> su_next (f su) = su_next su)"

lemma safeI: "(\<And>su. sup_ok su \<Longrightarrow> r < su_next su \<Longrightarrow> sup_ok (f su) \<and> su_next (f su) = su_next su) \<Longrightarrow> safe r f"
  by (simp add: safe_def)

lemma safeD: "safe r f \<Longrightarrow> sup_ok su \<Longrightarrow> r < su_next su \<Longrightarrow> sup_ok (f su) \<and> su_next (f su) = su_next su"
  by (simp add: safe_def)

lemma slots_log: "slots_ok (log_event e su) = slots_ok su"
  by (simp add: slots_ok_def participant_of_def)

lemma slots_settle:
  assumes "slots_ok su" "dr_driverSettled d" "dr_spec d = dr_spec (su_rec su r)"
    and "su' = free_slot r (change r (\<lambda>_. d) su)"
  shows "slots_ok su'"
proof -
  have p: "participant_of (change r (\<lambda>_. d) su) = participant_of su"
    by (auto simp: participant_of_def assms(3) fun_eq_iff)
  have p': "participant_of su' = participant_of su"
    unfolding assms(4) by (auto simp: participant_of_def assms(3) fun_eq_iff)
  have slot: "jm_get (su_byParticipant su') q
      = (if jm_get (su_byParticipant su) (participant_of su r) = Some r \<and> q = participant_of su r then None
         else jm_get (su_byParticipant su) q)" for q
    unfolding assms(4) by (simp add: free_slot_def p AList.delete_conv')
  have ok: "jm_ok (su_byParticipant su')"
    using assms(1) unfolding assms(4) by (auto simp: free_slot_def slots_ok_def intro: distinct_delete)
  have same: "su_records su' = su_records su" "su_next su' = su_next su" "su_rec su' = (su_rec su)(r := d)"
    by (simp_all add: assms(4))
  have B: "\<forall>q x. jm_get (su_byParticipant su) q = Some x \<longrightarrow> x \<in> set (su_records su) \<and> participant_of su x = q"
    and C: "\<forall>x\<in>set (su_records su). \<not> dr_driverSettled (su_rec su x) \<longrightarrow> jm_get (su_byParticipant su) (participant_of su x) = Some x"
    using assms(1) by (simp_all add: slots_ok_def)
  have "x \<in> set (su_records su') \<and> participant_of su' x = q" if "jm_get (su_byParticipant su') q = Some x" for q x
  proof -
    have "jm_get (su_byParticipant su) q = Some x" using that by (simp add: slot split: if_splits)
    with B show ?thesis unfolding p' same by blast
  qed
  then have "\<forall>q x. jm_get (su_byParticipant su') q = Some x \<longrightarrow> x \<in> set (su_records su') \<and> participant_of su' x = q"
    by blast
  moreover have "jm_get (su_byParticipant su') (participant_of su' x) = Some x"
    if "x \<in> set (su_records su')" "\<not> dr_driverSettled (su_rec su' x)" for x
  proof -
    have "x \<noteq> r" using that(2) assms(2) by (auto simp: same)
    then have "jm_get (su_byParticipant su) (participant_of su x) = Some x"
      using C that by (simp add: same)
    then show ?thesis unfolding slot p' using \<open>x \<noteq> r\<close> by auto
  qed
  then have "\<forall>x\<in>set (su_records su'). \<not> dr_driverSettled (su_rec su' x) \<longrightarrow> jm_get (su_byParticipant su') (participant_of su' x) = Some x"
    by blast
  moreover have "distinct (su_records su') \<and> (\<forall>x\<in>set (su_records su'). x < su_next su')"
    using assms(1) unfolding same slots_ok_def by blast
  ultimately show ?thesis using ok unfolding slots_ok_def by blast
qed

lemma ok_settle:
  assumes "sup_ok su" "r < su_next su"
  shows "sup_ok (settleDriver r code signal su)"
proof (cases "dr_driverSettled (su_rec su r)")
  case True
  then show ?thesis by (simp add: settleDriver_def assms(1))
next
  case False
  let ?d = "(su_rec su r)\<lparr>dr_driverSettled := True\<rparr>"
  let ?su1 = "free_slot r (change r (\<lambda>d. d\<lparr>dr_driverSettled := True\<rparr>) su)"
  let ?su2 = "log_event (emitted_exit r code signal) ?su1"
  have eq: "?su1 = free_slot r (change r (\<lambda>_. ?d) su)" by (simp add: change_def)
  have "slots_ok su" using assms(1) by (simp only: sup_ok_def)
  then have "slots_ok ?su1" by (rule slots_settle [of su ?d r, OF _ _ _ eq]) simp_all
  then have slots: "slots_ok ?su2" by (simp only: slots_log)
  have "record_ok ?su2 x" if "x < su_next su" for x
  proof -
    have "record_ok su x" using assms(1) that by (simp add: sup_ok_def)
    then show ?thesis
    proof (cases "x = r")
      case True
      then show ?thesis using \<open>record_ok su x\<close> False by (simp add: record_ok_def)
    next
      case ne: False
      then show ?thesis using \<open>record_ok su x\<close> by (simp add: record_ok_def excused_def)
    qed
  qed
  moreover have "exits x (su_log ?su2) = 0" if "su_next su \<le> x" for x
    using assms that by (simp add: sup_ok_def)
  moreover have "snd x < su_next su" if "x \<in> set (su_resuming su)" for x
    using assms(1) that by (simp add: sup_ok_def)
  ultimately have "sup_ok ?su2" using slots by (intro sup_okI) simp_all
  then show ?thesis using False by (simp add: settleDriver_def Let_def ok_waiting)
qed

lemma next_settle [simp]: "su_next (settleDriver r code signal su) = su_next su"
  by (simp add: settleDriver_def Let_def)

lemma settled_settle [simp]: "dr_driverSettled (su_rec (settleDriver r code signal su) r)"
  by (simp add: settleDriver_def Let_def)

lemma safe_settle: "safe r (settleDriver r code signal)"
  by (rule safeI) (simp add: ok_settle)

lemma safe_reap: "safe r (reap_unsettled r)"
proof (rule safeI)
  fix su assume a: "sup_ok su" "r < su_next su"
  have "sup_ok (reapGroup r su)" "su_next (reapGroup r su) = su_next su"
    using a(1) by (auto simp: reapGroup_def exits_def intro!: ok_log split: option.split)
  then show "sup_ok (reap_unsettled r su) \<and> su_next (reap_unsettled r su) = su_next su"
    using a by (simp add: reap_unsettled_def ok_settle)
qed

lemma safe_log: "(\<And>r'. exits r' [e] = 0) \<Longrightarrow> safe r (log_event e)"
  by (rule safeI) (simp add: ok_log)

lemma safe_comp: "safe r f \<Longrightarrow> safe r g \<Longrightarrow> safe r (\<lambda>su. f (g su))"
  by (simp add: safe_def)

lemma safe_id: "safe r (\<lambda>su. su)"
  by (simp add: safe_def)

lemma safe_waiting: "safe r (settle_waiting r' res)"
  by (rule safeI) (simp add: ok_waiting)

lemma safe_change:
  assumes "\<And>d. dr_spec (f d) = dr_spec d" "\<And>d. dr_driverSettled (f d) = dr_driverSettled d"
    "\<And>d. dr_watchdogHandled (f d) = dr_watchdogHandled d" "\<And>d. dr_pgid (f d) = dr_pgid d"
    "\<And>d. dr_spawnError (f d) = dr_spawnError d" "\<And>d. dr_expectingWatchdogExit (f d) = dr_expectingWatchdogExit d"
  shows "safe r (change r' f)"
proof (rule safeI)
  fix su assume "sup_ok su"
  then show "sup_ok (change r' f su) \<and> su_next (change r' f su) = su_next su"
    using ok_change [of su "change r' f su" "[]" r' "f (su_rec su r')"] by (simp add: assms)
qed

lemma ok_expect:
  assumes "sup_ok su" "end_asked r \<in> set (su_log su) \<or> dr_driverSettled (su_rec su r)"
    "\<And>d. dr_spec (f d) = dr_spec d" "\<And>d. dr_driverSettled (f d) = dr_driverSettled d"
    "\<And>d. dr_watchdogHandled (f d) = dr_watchdogHandled d" "\<And>d. dr_pgid (f d) = dr_pgid d"
    "\<And>d. dr_spawnError (f d) = dr_spawnError d"
  shows "sup_ok (change r f su)"
  by (rule ok_change [OF assms(1), of _ "[]" r "f (su_rec su r)"]) (use assms(2) in \<open>auto simp: assms(3-7)\<close>)

lemma safe_asked: "safe r (log_event (end_asked r'))"
  by (rule safe_log) (simp add: exits_def)

lemma safe_close_channel: "safe r (closeAfterProtocolViolation r reason)"
  unfolding closeAfterProtocolViolation_def
  by (rule safe_comp [OF safe_log safe_comp [OF safe_change safe_log]]) (simp_all add: exits_def)

lemma safe_send: "safe r (sendControl r message)"
proof (rule safeI)
  fix su assume "sup_ok su" "r < su_next su"
  moreover have "safe r (log_event (wrote_control r message))" by (rule safe_log) (simp add: exits_def)
  ultimately show "sup_ok (sendControl r message su) \<and> su_next (sendControl r message su) = su_next su"
    using safeD [OF safe_close_channel] by (simp add: sendControl_def safe_def)
qed

section \<open>Frames\<close>

lemma handled_settle [simp]:
  "dr_watchdogHandled (su_rec (settleDriver r code signal su) x) = dr_watchdogHandled (su_rec su x)"
  by (simp add: settleDriver_def Let_def)

lemma handled_close [simp]:
  "dr_watchdogHandled (su_rec (closeAfterProtocolViolation r reason su) x) = dr_watchdogHandled (su_rec su x)"
  by (simp add: closeAfterProtocolViolation_def)

lemma settle_expect:
  "settleDriver r code signal (change r (\<lambda>d. d\<lparr>dr_expectingWatchdogExit := True\<rparr>) su)
 = change r (\<lambda>d. d\<lparr>dr_expectingWatchdogExit := True\<rparr>) (settleDriver r code signal su)"
proof -
  have perm: "d\<lparr>dr_driverSettled := a, dr_waiting := b, dr_expectingWatchdogExit := True\<rparr>
      = d\<lparr>dr_expectingWatchdogExit := True, dr_driverSettled := a, dr_waiting := b\<rparr>" for d a b
    by (cases d) simp
  show ?thesis
    by (simp add: settleDriver_def Let_def free_slot_def settle_waiting_def change_def log_event_def participant_of_def perm)
qed

text \<open>A frame of a watchdog that lives.\<close>

definition line_keeps :: "nat \<Rightarrow> (supervisor \<Rightarrow> supervisor) \<Rightarrow> bool" where
  "line_keeps r f \<longleftrightarrow> (\<forall>su. sup_ok su \<and> r < su_next su \<and> \<not> dr_watchdogHandled (su_rec su r) \<longrightarrow>
     sup_ok (f su) \<and> su_next (f su) = su_next su \<and> \<not> dr_watchdogHandled (su_rec (f su) r))"

lemma line_keepsD:
  "line_keeps r f \<Longrightarrow> sup_ok su \<Longrightarrow> r < su_next su \<Longrightarrow> \<not> dr_watchdogHandled (su_rec su r) \<Longrightarrow>
   sup_ok (f su) \<and> su_next (f su) = su_next su \<and> \<not> dr_watchdogHandled (su_rec (f su) r)"
  by (simp add: line_keeps_def)

lemma line_safe:
  "safe r f \<Longrightarrow> (\<And>su. dr_watchdogHandled (su_rec (f su) r) = dr_watchdogHandled (su_rec su r)) \<Longrightarrow> line_keeps r f"
  by (simp add: line_keeps_def safe_def)

lemma line_supervised: "line_keeps r (handle_supervised r message)"
proof -
  have "sup_ok (handle_supervised r message su)" if a: "sup_ok su" "\<not> dr_watchdogHandled (su_rec su r)" for su
  proof -
    let ?f = "\<lambda>d. d\<lparr>dr_pid := number_field message ''pid'', dr_pgid := number_field message ''pgid'', dr_supervised := True\<rparr>"
    have "sup_ok (change r ?f su)"
      using a(2) by (intro ok_change [OF a(1), of _ "[]" r "?f (su_rec su r)"]) auto
    then show ?thesis
      by (auto simp: handle_supervised_def Let_def exits_def intro!: ok_waiting ok_log)
  qed
  then show ?thesis by (simp add: line_keeps_def handle_supervised_def Let_def)
qed

lemma line_spawn_error: "line_keeps r (handle_spawn_error env r message)"
proof -
  have "sup_ok (handle_spawn_error env r message su)" if a: "sup_ok su" "r < su_next su" for su
  proof -
    define detail where "detail = clip_string (case json_field message ''message'' of
              None \<Rightarrow> ''unknown spawn error'' | Some JNull \<Rightarrow> ''unknown spawn error'' | Some (JStr s) \<Rightarrow> s | Some v \<Rightarrow> se_text env v)
              SPAWN_ERROR_DETAIL_MAX"
    let ?f = "\<lambda>d. d\<lparr>dr_spawnError := Some detail, dr_expectingWatchdogExit := True\<rparr>"
    have "sup_ok (change r ?f su)"
      by (intro ok_change [OF a(1), of _ "[]" r "?f (su_rec su r)"]) auto
    then have "sup_ok (settle_waiting r res (log_event (emitted_spawn_error r detail) (change r ?f su)))" for res
      by (auto simp: exits_def intro!: ok_waiting ok_log)
    then show ?thesis
      using a(2) unfolding handle_spawn_error_def Let_def detail_def [symmetric] by (simp add: ok_settle)
  qed
  then show ?thesis by (simp add: line_keeps_def handle_spawn_error_def Let_def)
qed

lemma line_exit:
  "line_keeps r (\<lambda>su. settleDriver r code signal (change r (\<lambda>d. d\<lparr>dr_expectingWatchdogExit := True\<rparr>) su))"
  unfolding settle_expect by (simp add: line_keeps_def ok_settle ok_expect)

lemma line_handled: "line_keeps r (\<lambda>su. snd (handleControlLine env r line su))"
proof -
  have logs: "line_keeps r (log_event (logged a b))" "line_keeps r (log_event crashed)" for a b
    by (auto intro!: line_safe safe_log simp: exits_def)
  have idle: "line_keeps r (\<lambda>su. su)" by (simp add: line_keeps_def)
  have reaped: "line_keeps r (\<lambda>su. log_event (logged a b) (su\<lparr>su_reapedByWatchdog := su_reapedByWatchdog su + 1\<rparr>))" for a b
    using logs(1) [of a b] by (simp add: line_keeps_def)
  show ?thesis
    unfolding handleControlLine_def
    using logs idle reaped line_supervised [of r] line_spawn_error [of r env] line_exit [of r]
    by (auto simp: line_keeps_def split: option.split json.split)
qed

lemma ok_lines:
  assumes "sup_ok su" "r < su_next su" "\<not> dr_watchdogHandled (su_rec su r)"
  shows "sup_ok (take_lines env r buffer su) \<and> su_next (take_lines env r buffer su) = su_next su
       \<and> \<not> dr_watchdogHandled (su_rec (take_lines env r buffer su) r)"
  using assms
proof (induction env r buffer su rule: take_lines.induct)
  case (1 env r buffer su)
  have close: "sup_ok (closeAfterProtocolViolation r reason s) \<and> su_next (closeAfterProtocolViolation r reason s) = su_next s"
    if "sup_ok s" "r < su_next s" for s reason
    using safeD [OF safe_close_channel that] .
  show ?case
  proof (cases "cut_line buffer")
    case None
    then show ?thesis using 1(2,3,4) close by (simp add: take_lines.simps [of env r buffer su])
  next
    case (Some lr)
    obtain line rest where lr: "lr = (line, rest)" by (cases lr)
    define su1 where "su1 = change r (\<lambda>d. d\<lparr>dr_controlBuffer := rest\<rparr>) su"
    have "safe r (change r (\<lambda>d. d\<lparr>dr_controlBuffer := rest\<rparr>))" by (rule safe_change) simp_all
    then have ok1: "sup_ok su1" "su_next su1 = su_next su" "\<not> dr_watchdogHandled (su_rec su1 r)"
      using 1(2,3,4) safeD unfolding su1_def by (blast, blast, simp)
    obtain okay su2 where h: "handleControlLine env r (se_utf8 env line) su1 = (okay, su2)" by (cases "handleControlLine env r (se_utf8 env line) su1")
    have ok2: "sup_ok su2" "su_next su2 = su_next su" "\<not> dr_watchdogHandled (su_rec su2 r)"
      using line_keepsD [OF line_handled ok1(1) _ ok1(3), of env "se_utf8 env line"] 1(3) ok1(2) h by simp_all
    have IH: "sup_ok (take_lines env r rest su2) \<and> su_next (take_lines env r rest su2) = su_next su2
        \<and> \<not> dr_watchdogHandled (su_rec (take_lines env r rest su2) r)"
      if "length line \<le> CONTROL_LINE_CAP_BYTES" "okay"
      using 1(1) [OF Some lr [symmetric] su1_def _ h [symmetric]] that ok2 1(3) by simp
    show ?thesis
      using ok1 ok2 close [OF ok1(1)] 1(3) IH
      by (simp add: take_lines.simps [of env r buffer su] Some lr su1_def [symmetric] h split: bool.split)
  qed
qed

lemma safe_chunk: "safe r (handleControlChunk env r chunk)"
proof (rule safeI)
  fix su assume a: "sup_ok su" "r < su_next su"
  let ?b = "dr_controlBuffer (su_rec su r) @ chunk"
  have "safe r (change r (\<lambda>d. d\<lparr>dr_controlBuffer := ?b\<rparr>))" by (rule safe_change) simp_all
  from safeD [OF this a] a(2)
  show "sup_ok (handleControlChunk env r chunk su) \<and> su_next (handleControlChunk env r chunk su) = su_next su"
    using a ok_lines [of "change r (\<lambda>d. d\<lparr>dr_controlBuffer := ?b\<rparr>) su" r env ?b] by (simp add: handleControlChunk_def Let_def)
qed

section \<open>The end of a watchdog\<close>

text \<open>The exit is handled after what it leads to for the driver: the two commute.\<close>

definition close_out :: "nat \<Rightarrow> string option \<Rightarrow> string option \<Rightarrow> supervisor \<Rightarrow> supervisor" where
  "close_out r code signal su =
     free_slot r (change r (\<lambda>d. d\<lparr>dr_exitWaiters := []\<rparr>)
       ((record_of_exit r code signal su)\<lparr>su_resuming := su_resuming su @ map (\<lambda>(s, again). (s, r)) (dr_exitWaiters (su_rec su r)),
          su_records := removeAll r (su_records su)\<rparr>))"

lemma settle_exit:
  "settleDriver r c s (record_of_exit r code signal su) = record_of_exit r code signal (settleDriver r c s su)"
proof -
  have perm: "d\<lparr>dr_driverSettled := a, dr_waiting := b, dr_watchdogHandled := True, dr_watchdogExit := e\<rparr>
      = d\<lparr>dr_watchdogHandled := True, dr_watchdogExit := e, dr_driverSettled := a, dr_waiting := b\<rparr>" for d a b e
    by (cases d) simp
  show ?thesis
    by (simp add: settleDriver_def Let_def free_slot_def settle_waiting_def change_def log_event_def participant_of_def
        record_of_exit_def perm)
qed

lemma log_exit: "log_event e (record_of_exit r code signal su) = record_of_exit r code signal (log_event e su)"
  by (simp add: log_event_def record_of_exit_def change_def)

lemma waiting_exit: "settle_waiting r res (record_of_exit r code signal su) = record_of_exit r code signal (settle_waiting r res su)"
proof -
  have perm: "d\<lparr>dr_waiting := b, dr_watchdogHandled := True, dr_watchdogExit := e\<rparr>
      = d\<lparr>dr_watchdogHandled := True, dr_watchdogExit := e, dr_waiting := b\<rparr>" for d b e
    by (cases d) simp
  show ?thesis by (simp add: settle_waiting_def record_of_exit_def change_def perm)
qed

lemma exit_fields [simp]:
  "dr_driverSettled (su_rec (record_of_exit r c s su) r) = dr_driverSettled (su_rec su r)"
  "dr_pgid (su_rec (record_of_exit r c s su) r) = dr_pgid (su_rec su r)"
  "dr_expectingWatchdogExit (su_rec (record_of_exit r c s su) r) = dr_expectingWatchdogExit (su_rec su r)"
  "dr_spawnError (su_rec (record_of_exit r c s su) r) = dr_spawnError (su_rec su r)"
  "dr_diagnostics (su_rec (record_of_exit r c s su) r) = dr_diagnostics (su_rec su r)"
  "dr_exitWaiters (su_rec (record_of_exit r c s su) r) = dr_exitWaiters (su_rec su r)"
  "participant_of (record_of_exit r c s su) r = participant_of su r"
  "su_resuming (record_of_exit r c s su) = su_resuming su" "su_records (record_of_exit r c s su) = su_records su"
  "su_reapedAfterDeath (record_of_exit r c s su) = su_reapedAfterDeath su"
  by (simp_all add: record_of_exit_def participant_of_def change_def)

lemma reap_exit: "reap_unsettled r (record_of_exit r code signal su) = record_of_exit r code signal (reap_unsettled r su)"
  by (simp add: reap_unsettled_def reapGroup_def settle_exit log_exit split: option.split)

lemma counter_exit:
  "(record_of_exit r c s su)\<lparr>su_reapedAfterDeath := n\<rparr> = record_of_exit r c s (su\<lparr>su_reapedAfterDeath := n\<rparr>)"
  by (simp add: record_of_exit_def change_def)

lemma unexpected_commutes:
  "unexpected_exit r (record_of_exit r code signal su) = record_of_exit r code signal (unexpected_exit r su)"
  by (simp add: unexpected_exit_def Let_def reap_exit counter_exit log_exit waiting_exit)

text \<open>What the exit leads to before it is recorded.\<close>

definition before_close :: "nat \<Rightarrow> supervisor \<Rightarrow> supervisor" where
  "before_close r su =
     (let d = su_rec su r;
          su2 = (if dr_expectingWatchdogExit d \<or> dr_driverSettled d \<or> dr_spawnError d \<noteq> None then su else unexpected_exit r su)
      in if ring_bytes (dr_diagnostics d) = [] then su2 else log_event (logged ''watchdog-stderr'' (ring_bytes (dr_diagnostics d))) su2)"

lemma handle_exit_as:
  "handleWatchdogExit r code signal su =
     (if dr_watchdogHandled (su_rec su r) then su else close_out r code signal (before_close r su))"
  by (simp add: handleWatchdogExit_def before_close_def close_out_def Let_def unexpected_commutes log_exit)

lemma safe_unexpected: "safe r (unexpected_exit r)"
proof (rule safeI)
  fix su assume a: "sup_ok su" "r < su_next su"
  from safeD [OF safe_reap this]
  show "sup_ok (unexpected_exit r su) \<and> su_next (unexpected_exit r su) = su_next su"
    using a by (auto simp: unexpected_exit_def Let_def exits_def intro!: ok_waiting ok_log)
qed

lemma settled_unexpected: "dr_driverSettled (su_rec (unexpected_exit r su) r) \<or> dr_pgid (su_rec (unexpected_exit r su) r) = None"
  by (simp add: unexpected_exit_def Let_def reap_unsettled_def)

lemma handled_reap [simp]: "dr_watchdogHandled (su_rec (reap_unsettled r su) x) = dr_watchdogHandled (su_rec su x)"
  by (simp add: reap_unsettled_def reapGroup_def split: option.split)

lemma handled_before [simp]: "dr_watchdogHandled (su_rec (before_close r su) r) = dr_watchdogHandled (su_rec su r)"
  by (simp add: before_close_def Let_def unexpected_exit_def)

lemma ok_before:
  assumes "sup_ok su" "r < su_next su"
  defines "t \<equiv> before_close r su"
  shows "sup_ok t" "su_next t = su_next su"
    "dr_pgid (su_rec t r) \<noteq> None \<and> \<not> dr_driverSettled (su_rec t r) \<Longrightarrow> excused t r"
proof -
  let ?d = "su_rec su r"
  define u where "u = (if dr_expectingWatchdogExit ?d \<or> dr_driverSettled ?d \<or> dr_spawnError ?d \<noteq> None then su else unexpected_exit r su)"
  have rec: "record_ok su r" using assms by (simp add: sup_ok_def)
  have u: "sup_ok u" "su_next u = su_next su"
    using safeD [OF safe_unexpected assms(1,2)] assms(1) by (simp_all add: u_def)
  have ex: "excused u r" if "dr_pgid (su_rec u r) \<noteq> None" "\<not> dr_driverSettled (su_rec u r)"
    using that rec settled_unexpected [of r su]
    by (auto simp: u_def record_ok_def excused_def split: if_splits)
  have t: "t = (if ring_bytes (dr_diagnostics ?d) = [] then u else log_event (logged ''watchdog-stderr'' (ring_bytes (dr_diagnostics ?d))) u)"
    by (simp add: t_def before_close_def Let_def u_def)
  show "sup_ok t" unfolding t using u by (auto simp: exits_def intro!: ok_log)
  show "su_next t = su_next su" unfolding t using u by simp
  show "excused t r" if "dr_pgid (su_rec t r) \<noteq> None \<and> \<not> dr_driverSettled (su_rec t r)"
    using that ex unfolding t by (auto simp: excused_def split: if_splits)
qed

lemma ok_close_out:
  assumes ok: "sup_ok su" and r: "r < su_next su" and "\<not> dr_watchdogHandled (su_rec su r)"
    and ex: "dr_pgid (su_rec su r) \<noteq> None \<and> \<not> dr_driverSettled (su_rec su r) \<Longrightarrow> excused su r"
  shows "sup_ok (close_out r code signal su)"
proof -
  define t where "t = close_out r code signal su"
  have rec: "su_rec t = (su_rec su)(r := (su_rec su r)\<lparr>dr_watchdogHandled := True, dr_watchdogExit := Some (code, signal), dr_exitWaiters := []\<rparr>)"
    by (simp add: t_def close_out_def record_of_exit_def)
  have fields: "su_next t = su_next su" "su_records t = removeAll r (su_records su)" "su_log t = su_log su"
    by (simp_all add: t_def close_out_def record_of_exit_def)
  have res: "su_resuming t = su_resuming su @ map (\<lambda>(s, again). (s, r)) (dr_exitWaiters (su_rec su r))"
    by (simp add: t_def close_out_def record_of_exit_def)
  have bound: "snd x < su_next t" if "x \<in> set (su_resuming t)" for x
    using that ok r by (auto simp: res fields sup_ok_def)
  have p: "participant_of t = participant_of su"
    by (auto simp: participant_of_def rec fun_eq_iff)
  have byp: "su_byParticipant t = (if jm_get (su_byParticipant su) (participant_of su r) = Some r
        then jm_delete (participant_of su r) (su_byParticipant su) else su_byParticipant su)"
    by (simp add: t_def close_out_def record_of_exit_def free_slot_def participant_of_def)
  have slots: "slots_ok su" using ok by (simp only: sup_ok_def)
  have B: "jm_get (su_byParticipant su) q = Some x \<Longrightarrow> x \<in> set (su_records su) \<and> participant_of su x = q"
    and C: "x \<in> set (su_records su) \<Longrightarrow> \<not> dr_driverSettled (su_rec su x) \<Longrightarrow> jm_get (su_byParticipant su) (participant_of su x) = Some x"
    for x q using slots unfolding slots_ok_def by blast+
  have get: "jm_get (su_byParticipant t) q
      = (if jm_get (su_byParticipant su) (participant_of su r) = Some r \<and> q = participant_of su r then None
         else jm_get (su_byParticipant su) q)" for q
    by (simp add: byp AList.delete_conv')
  have settled: "dr_driverSettled (su_rec t x) = dr_driverSettled (su_rec su x)" for x by (simp add: rec)
  have "jm_ok (su_byParticipant su)" using slots unfolding slots_ok_def by blast
  then have "jm_ok (su_byParticipant t)" by (simp add: byp distinct_delete)
  moreover have "x \<in> set (su_records t) \<and> participant_of t x = q" if "jm_get (su_byParticipant t) q = Some x" for q x
  proof -
    have x: "jm_get (su_byParticipant su) q = Some x" using that by (simp add: get split: if_splits)
    have "x \<noteq> r"
    proof
      assume "x = r"
      with B [OF x] have "q = participant_of su r" by simp
      with x \<open>x = r\<close> that show False by (simp add: get)
    qed
    with B [OF x] show ?thesis by (simp add: fields p)
  qed
  moreover have "jm_get (su_byParticipant t) (participant_of t x) = Some x"
    if "x \<in> set (su_records t)" "\<not> dr_driverSettled (su_rec t x)" for x
    using that C [of x] by (auto simp: fields p get settled)
  moreover have "distinct (su_records t) \<and> (\<forall>x\<in>set (su_records t). x < su_next t)"
    using slots unfolding slots_ok_def fields by (auto simp: distinct_removeAll)
  ultimately have "slots_ok t" unfolding slots_ok_def by blast
  moreover have "record_ok t x" if "x < su_next t" for x
  proof -
    have old: "record_ok su x" using ok that by (simp add: sup_ok_def fields)
    show ?thesis
    proof (cases "x = r")
      case True
      then show ?thesis using old ex assms(3) by (auto simp: record_ok_def fields rec excused_def)
    next
      case False
      then show ?thesis using old by (simp add: record_ok_def fields rec excused_def)
    qed
  qed
  ultimately show ?thesis
    using ok bound unfolding t_def [symmetric] by (intro sup_okI) (simp_all add: fields sup_ok_def)
qed

lemma safe_exit: "safe r (handleWatchdogExit r code signal)"
proof (rule safeI)
  fix su assume a: "sup_ok su" "r < su_next su"
  note b = ok_before [OF this]
  show "sup_ok (handleWatchdogExit r code signal su) \<and> su_next (handleWatchdogExit r code signal su) = su_next su"
  proof (cases "dr_watchdogHandled (su_rec su r)")
    case False
    with b ok_close_out [OF b(1), of r] a(2) show ?thesis
      by (simp add: handle_exit_as close_out_def record_of_exit_def)
  qed (simp add: handle_exit_as a)
qed

section \<open>Spawning, shutting down, waiting\<close>

lemma ok_add:
  assumes ok: "sup_ok su"
    and free: "\<And>r. jm_get (su_byParticipant su) (ds_participantId spec) = Some r \<Longrightarrow> dr_driverSettled (su_rec su r)"
  shows "sup_ok (add_record spec su)"
proof -
  define t where "t = add_record spec su"
  let ?n = "su_next su"
  have fields: "su_next t = Suc ?n" "su_records t = su_records su @ [?n]" "su_log t = su_log su"
    "su_rec t = (su_rec su)(?n := new_record spec)"
    "su_byParticipant t = jm_set (ds_participantId spec) ?n (su_byParticipant su)"
    by (simp_all add: t_def add_record_def)
  have slots: "slots_ok su" using ok by (simp only: sup_ok_def)
  have B: "jm_get (su_byParticipant su) q = Some x \<Longrightarrow> x \<in> set (su_records su) \<and> participant_of su x = q"
    and C: "x \<in> set (su_records su) \<Longrightarrow> \<not> dr_driverSettled (su_rec su x) \<Longrightarrow> jm_get (su_byParticipant su) (participant_of su x) = Some x"
    and bound: "x \<in> set (su_records su) \<Longrightarrow> x < ?n" and keys: "jm_ok (su_byParticipant su)" and dist: "distinct (su_records su)"
    for x q using slots unfolding slots_ok_def by blast+
  have p: "participant_of t x = (if x = ?n then ds_participantId spec else participant_of su x)" for x
    by (simp add: participant_of_def fields new_record_def)
  have get: "jm_get (su_byParticipant t) q = (if q = ds_participantId spec then Some ?n else jm_get (su_byParticipant su) q)" for q
    by (simp add: fields jm.lookup_put [OF keys])
  have "jm_ok (su_byParticipant t)" by (simp add: fields jm.invar_put [OF keys])
  moreover have "x \<in> set (su_records t) \<and> participant_of t x = q" if "jm_get (su_byParticipant t) q = Some x" for q x
  proof (cases "q = ds_participantId spec")
    case True
    with that have "x = ?n" by (simp add: get)
    with True show ?thesis by (simp add: p fields)
  next
    case False
    with that have x: "jm_get (su_byParticipant su) q = Some x" by (simp add: get)
    with B [OF x] bound [of x] show ?thesis by (simp add: fields p)
  qed
  moreover have "jm_get (su_byParticipant t) (participant_of t x) = Some x"
    if "x \<in> set (su_records t)" "\<not> dr_driverSettled (su_rec t x)" for x
  proof (cases "x = ?n")
    case True
    then show ?thesis by (simp add: p get)
  next
    case False
    with that have x: "x \<in> set (su_records su)" "\<not> dr_driverSettled (su_rec su x)" by (simp_all add: fields)
    from C [OF this] free [of x] x(2) have "participant_of su x \<noteq> ds_participantId spec" by auto
    with C [OF x] False show ?thesis by (simp add: p get)
  qed
  moreover have "distinct (su_records t) \<and> (\<forall>x\<in>set (su_records t). x < su_next t)"
    using dist bound by (auto simp: fields less_Suc_eq)
  ultimately have "slots_ok t" unfolding slots_ok_def by blast
  moreover have "record_ok t x" if "x < su_next t" for x
  proof (cases "x = ?n")
    case True
    then show ?thesis using ok by (simp add: record_ok_def fields new_record_def sup_ok_def)
  next
    case False
    with that have "x < ?n" by (simp add: fields)
    then have "record_ok su x" using ok by (simp add: sup_ok_def)
    with False show ?thesis by (simp add: record_ok_def fields excused_def)
  qed
  moreover have "su_resuming t = su_resuming su" by (simp add: t_def add_record_def)
  then have "snd x < su_next t" if "x \<in> set (su_resuming t)" for x
    using ok that by (auto simp: fields sup_ok_def less_Suc_eq)
  ultimately show ?thesis
    using ok unfolding t_def [symmetric] by (intro sup_okI) (simp_all add: fields sup_ok_def)
qed

lemma ok_spawn:
  assumes "sup_ok su"
  shows "sup_ok (snd (spawnDriver env spec existing made piped su)) \<and> su_next su \<le> su_next (snd (spawnDriver env spec existing made piped su))"
proof -
  let ?p = "ds_participantId spec"
  have watch: "sup_ok (snd (spawn_watchdog env spec piped su)) \<and> su_next su \<le> su_next (snd (spawn_watchdog env spec piped su))"
    if "\<And>r. jm_get (su_byParticipant su) ?p = Some r \<Longrightarrow> dr_driverSettled (su_rec su r)"
  proof -
    have "su_next su < su_next (add_record spec su)" by (simp add: add_record_def)
    from safeD [OF safe_send ok_add [OF assms that] this] assms show ?thesis
      by (auto simp: spawn_watchdog_def Let_def add_record_def)
  qed
  show ?thesis
  proof (cases "jm_get (su_byParticipant su) ?p")
    case None
    then show ?thesis using watch assms by (simp add: spawnDriver_def Let_def split: option.split)
  next
    case (Some r)
    then show ?thesis using watch assms by (auto simp: spawnDriver_def Let_def split: option.split)
  qed
qed

lemma safe_finish: "safe r (finish_shutdown s r)"
  unfolding finish_shutdown_def by (rule safe_comp [OF safe_log safe_reap]) (simp add: exits_def)

lemma safe_wait: "safe r (wait_for_exit s r again)"
proof (rule safeI)
  fix su assume a: "sup_ok su" "r < su_next su"
  have "safe r (change r (\<lambda>d. d\<lparr>dr_exitWaiters := dr_exitWaiters d @ [(s, again)]\<rparr>))" by (rule safe_change) simp_all
  note waits = safeD [OF this a]
  have "\<forall>x\<in>set (su_resuming su). snd x < su_next su" using a(1) by (simp add: sup_ok_def)
  then have "sup_ok (su\<lparr>su_resuming := su_resuming su @ [(s, r)]\<rparr>)" using a by (intro ok_resuming) auto
  with waits show "sup_ok (wait_for_exit s r again su) \<and> su_next (wait_for_exit s r again su) = su_next su"
    by (simp add: wait_for_exit_def)
qed

lemma ok_asked_expect:
  assumes "sup_ok su" "end_asked r \<in> set (su_log su)" "r < su_next su"
  shows "sup_ok (sendControl r m (change r (\<lambda>d. d\<lparr>dr_expectingWatchdogExit := True\<rparr>) su))
       \<and> su_next (sendControl r m (change r (\<lambda>d. d\<lparr>dr_expectingWatchdogExit := True\<rparr>) su)) = su_next su"
proof -
  have "sup_ok (change r (\<lambda>d. d\<lparr>dr_expectingWatchdogExit := True\<rparr>) su)"
    by (rule ok_expect [OF assms(1)]) (simp_all add: assms(2))
  from safeD [OF safe_send this, of r m] assms(3) show ?thesis by simp
qed

lemma safe_shutdown: "safe r (shutdownRecord s r graceMs)"
proof (rule safeI)
  fix su assume a: "sup_ok su" "r < su_next su"
  let ?su0 = "log_event (end_asked r) su"
  have 0: "sup_ok ?su0" "r < su_next ?su0" using safeD [OF safe_asked a] a by simp_all
  note 1 = ok_asked_expect [OF 0(1) _ 0(2), of "shutdown_frame graceMs"]
  show "sup_ok (shutdownRecord s r graceMs su) \<and> su_next (shutdownRecord s r graceMs su) = su_next su"
    using safeD [OF safe_finish 0] safeD [OF safe_wait, of _ r s False] 1 a(2) 
    by (simp add: shutdownRecord_def Let_def)
qed

lemma safe_shutdown_timer: "safe r (shutdown_timer s r)"
proof (rule safeI)
  fix su assume a: "sup_ok su" "r < su_next su"
  let ?su1 = "change r (\<lambda>d. d\<lparr>dr_exitWaiters := filter (\<lambda>w. fst w \<noteq> s) (dr_exitWaiters d)\<rparr>) su"
  have "safe r (change r (\<lambda>d. d\<lparr>dr_exitWaiters := filter (\<lambda>w. fst w \<noteq> s) (dr_exitWaiters d)\<rparr>))" by (rule safe_change) simp_all
  then have 1: "sup_ok ?su1" "r < su_next ?su1" using safeD a by (blast, simp add: a)
  have "safe r (\<lambda>su. wait_for_exit s r True (reap_unsettled r (log_event (signalled_watchdog r) su)))"
    by (rule safe_comp [OF safe_wait safe_comp [OF safe_reap safe_log]]) (simp add: exits_def)
  from safeD [OF this 1] safeD [OF safe_finish 1] a
  show "sup_ok (shutdown_timer s r su) \<and> su_next (shutdown_timer s r su) = su_next su"
    by (simp add: shutdown_timer_def Let_def split: option.split)
qed

lemma safe_kill: "safe r (kill_driver r signal graceMs)"
proof (rule safeI)
  fix su assume a: "sup_ok su" "r < su_next su"
  have 0: "sup_ok (log_event (end_asked r) su)" "r < su_next (log_event (end_asked r) su)"
    using safeD [OF safe_asked a] a by simp_all
  show "sup_ok (kill_driver r signal graceMs su) \<and> su_next (kill_driver r signal graceMs su) = su_next su"
    using ok_asked_expect [OF 0(1) _ 0(2), of "kill_frame signal graceMs"] a by (simp add: kill_driver_def)
qed

lemma safe_wait_supervised: "safe r (waitSupervised w r)"
proof (rule safeI)
  fix su assume a: "sup_ok su" "r < su_next su"
  have "safe r (change r (\<lambda>d. d\<lparr>dr_waiting := dr_waiting d @ [w]\<rparr>))" by (rule safe_change) simp_all
  moreover have "sup_ok (log_event (wait_settled w res) su)" for res by (rule ok_log [OF a(1)]) (simp add: exits_def)
  ultimately show "sup_ok (waitSupervised w r su) \<and> su_next (waitSupervised w r su) = su_next su"
    using safeD a by (simp add: waitSupervised_def Let_def split: option.split)
qed

lemma safe_wait_timer: "safe r (wait_timer w r timeoutMs)"
proof (rule safeI)
  fix su assume a: "sup_ok su" "r < su_next su"
  let ?su0 = "log_event (end_asked r) su"
  let ?f = "\<lambda>d. d\<lparr>dr_waiting := filter (\<lambda>v. v \<noteq> w) (dr_waiting d), dr_expectingWatchdogExit := True\<rparr>"
  have 0: "sup_ok ?su0" "r < su_next ?su0" using safeD [OF safe_asked a] a by simp_all
  have 1: "sup_ok (change r ?f ?su0)" by (rule ok_expect [OF 0(1)]) simp_all
  have 2: "r < su_next (change r ?f ?su0)" using 0(2) by simp
  have "safe r (\<lambda>su. log_event (wait_settled w res) (reap_unsettled r (log_event (signalled_watchdog r) (sendControl r m su))))" for res m
    by (rule safe_comp [OF safe_log safe_comp [OF safe_reap safe_comp [OF safe_log safe_send]]]) (simp_all add: exits_def)
  from safeD [OF this 1 2] a
  show "sup_ok (wait_timer w r timeoutMs su) \<and> su_next (wait_timer w r timeoutMs su) = su_next su"
    by (simp add: wait_timer_def Let_def)
qed

lemma safe_fresh: "(\<And>n. safe r (f n)) \<Longrightarrow> safe r (fresh_promise f)"
  by (simp add: safe_def fresh_promise_def)

lemma ok_shutdown_all:
  assumes "sup_ok su"
  shows "sup_ok (shutdownAll graceMs su)"
proof -
  have "sup_ok (fold (\<lambda>r. fresh_promise (\<lambda>s. shutdownRecord s r graceMs)) rs t)"
    if "sup_ok t" "\<forall>r\<in>set rs. r < su_next t" for rs t
    using that
  proof (induction rs arbitrary: t)
    case (Cons r rs)
    have "safe r (fresh_promise (\<lambda>s. shutdownRecord s r graceMs))" by (rule safe_fresh [OF safe_shutdown])
    from safeD [OF this Cons.prems(1)] Cons.prems(2) Cons.IH show ?case by simp
  qed simp
  moreover have "\<forall>r\<in>set (su_records su). r < su_next su"
    using assms unfolding sup_ok_def slots_ok_def by blast
  ultimately show ?thesis using assms by (simp add: shutdownAll_def)
qed

lemma ok_resumes:
  assumes "sup_ok su"
  shows "sup_ok (shutdown_resumes su)"
proof (cases "su_resuming su")
  case Nil
  then show ?thesis using assms by (simp add: shutdown_resumes_def)
next
  case (Cons x rest)
  have bound: "\<forall>y\<in>set (x # rest). snd y < su_next su" using assms unfolding Cons [symmetric] sup_ok_def by blast
  then have "sup_ok (su\<lparr>su_resuming := rest\<rparr>)" using assms by (intro ok_resuming) simp_all
  from safeD [OF safe_finish this, of "snd x"] bound show ?thesis
    by (cases x) (simp add: shutdown_resumes_def Cons)
qed

text \<open>The invariant holds in every reachable state.\<close>

lemma ok_step: "sup_step env su su' \<Longrightarrow> sup_ok su \<Longrightarrow> sup_ok su'"
proof (induction rule: sup_step.induct)
  case (step_stderr r su chunk)
  have "safe r (watchdog_stderr r chunk)" unfolding watchdog_stderr_def by (rule safe_change) simp_all
  from safeD [OF this step_stderr(2,1)] show ?case by simp
next
  case (step_close r su)
  then show ?case by (simp add: closeStdin_def safeD [OF safe_send])
next
  case (step_wait r su)
  then show ?case by (simp add: safeD [OF safe_fresh [OF safe_wait_supervised]])
next
  case (step_shutdown r su graceMs)
  then show ?case by (simp add: safeD [OF safe_fresh [OF safe_shutdown]])
next
  case (step_spawn su spec existing made piped)
  then show ?case by (simp add: ok_spawn)
next
  case (step_chunk r su chunk)
  then show ?case by (simp add: safeD [OF safe_chunk])
next
  case (step_exit r su code signal)
  then show ?case by (simp add: safeD [OF safe_exit])
next
  case (step_kill r su signal graceMs)
  then show ?case by (simp add: safeD [OF safe_kill])
next
  case (step_wait_timer r su w timeoutMs)
  then show ?case by (simp add: safeD [OF safe_wait_timer])
next
  case (step_shutdown_timer r su s)
  then show ?case by (simp add: safeD [OF safe_shutdown_timer])
qed (simp_all add: ok_resumes ok_shutdown_all)

lemma ok_start: "sup_ok createProcessSupervisor"
  by (simp add: createProcessSupervisor_def sup_ok_def slots_ok_def)

lemma reachable_supervisor_ok: "sup_reachable env su \<Longrightarrow> sup_ok su"
  by (induction rule: rtranclp_induct) (auto intro: ok_start ok_step)

section \<open>The supervisor's promises\<close>



lemma record_ok_excused:
  "record_ok su r \<Longrightarrow> \<not> dr_driverSettled (su_rec su r) \<Longrightarrow>
   dr_watchdogHandled (su_rec su r) \<and> dr_pgid (su_rec su r) \<noteq> None \<or> dr_expectingWatchdogExit (su_rec su r) \<Longrightarrow> excused su r"
  unfolding record_ok_def by blast

lemma surprised_exit:
  assumes "slots_ok su" "record_ok su r" "\<not> dr_watchdogHandled (su_rec su r)" "\<not> dr_driverSettled (su_rec su r)"
    "dr_pgid (su_rec su r) = Some g" "\<not> excused su r"
    and t_def: "t = handleWatchdogExit r code signal su"
  shows "signalled_group r g \<in> set (su_log t) \<and> dr_driverSettled (su_rec t r)
    \<and> jm_get (su_byParticipant t) (participant_of su r) = None"
proof -
  have calm: "\<not> dr_expectingWatchdogExit (su_rec su r)" "dr_spawnError (su_rec su r) = None"
    using record_ok_excused [OF assms(2,4)] assms(6) by (blast, simp add: excused_def)
  have "r \<in> set (su_records su)" using assms(2,3) by (simp add: record_ok_def)
  then have slot: "jm_get (su_byParticipant su) (participant_of su r) = Some r"
    using assms(1,4) unfolding slots_ok_def by blast
  let ?t = "unexpected_exit r su"
  have t: "signalled_group r g \<in> set (su_log ?t)" "dr_driverSettled (su_rec ?t r)"
    "jm_get (su_byParticipant ?t) (participant_of su r) = None"
    using assms(4,5) slot
    by (simp_all add: unexpected_exit_def Let_def reap_unsettled_def settleDriver_def reapGroup_def settle_waiting_def
        free_slot_def participant_of_def AList.delete_conv')
  then have "signalled_group r g \<in> set (su_log (before_close r su))" "dr_driverSettled (su_rec (before_close r su) r)"
    "jm_get (su_byParticipant (before_close r su)) (participant_of su r) = None"
    using assms(4) calm by (simp_all add: before_close_def Let_def)
  then show ?thesis
    using assms(3) by (simp add: t_def handle_exit_as close_out_def record_of_exit_def free_slot_def AList.delete_conv')
qed

text \<open>C32: No driver group is left behind by a watchdog that dies.  When a watchdog dies before anybody
  asked for its end, the known group of its driver is killed, the end is reported and the
  participant's slot is free; and in every reachable state a driver whose watchdog is gone and
  whose group is known has been reported as ended, unless its end had been asked for before or its
  start had failed.\<close>

theorem dead_watchdog_leaves_no_group:
  assumes "sup_reachable env su" "r < su_next su" "\<not> dr_driverSettled (su_rec su r)" "dr_pgid (su_rec su r) = Some g"
    "end_asked r \<notin> set (su_log su)" "dr_spawnError (su_rec su r) = None"
  shows "\<not> dr_watchdogHandled (su_rec su r)
    \<and> signalled_group r g \<in> set (su_log (handleWatchdogExit r code signal su))
    \<and> dr_driverSettled (su_rec (handleWatchdogExit r code signal su) r)
    \<and> jm_get (su_byParticipant (handleWatchdogExit r code signal su)) (participant_of su r) = None"
proof -
  have ok: "slots_ok su" "record_ok su r" using reachable_supervisor_ok [OF assms(1)] assms(2) by (simp_all only: sup_ok_def)
  have calm: "\<not> excused su r" using assms(5,6) by (simp add: excused_def)
  have alive: "\<not> dr_watchdogHandled (su_rec su r)"
    using record_ok_excused [OF ok(2) assms(3)] assms(4) calm by auto
  with surprised_exit [OF ok alive assms(3,4) calm refl] show ?thesis by blast
qed

section \<open>Framing\<close>

definition set_buffer :: "nat \<Rightarrow> string \<Rightarrow> supervisor \<Rightarrow> supervisor" where
  "set_buffer r b = change r (\<lambda>d. d\<lparr>dr_controlBuffer := b\<rparr>)"

lemma set_buffer_twice [simp]: "set_buffer r b (set_buffer r c su) = set_buffer r b su"
  by (simp add: set_buffer_def change_def)

lemma set_buffer_fields [simp]:
  "dr_watchdogHandled (su_rec (set_buffer r b su) x) = dr_watchdogHandled (su_rec su x)"
  "dr_controlDestroyed (su_rec (set_buffer r b su) x) = dr_controlDestroyed (su_rec su x)"
  "dr_controlBuffer (su_rec (set_buffer r b su) r) = b"
  "su_log (set_buffer r b su) = su_log su"
  by (simp_all add: set_buffer_def)

lemma buffer_perm:
  "d\<lparr>dr_driverSettled := x, dr_controlBuffer := b\<rparr> = d\<lparr>dr_controlBuffer := b, dr_driverSettled := x\<rparr>"
  "d\<lparr>dr_waiting := w, dr_controlBuffer := b\<rparr> = d\<lparr>dr_controlBuffer := b, dr_waiting := w\<rparr>"
  "d\<lparr>dr_pid := p, dr_controlBuffer := b\<rparr> = d\<lparr>dr_controlBuffer := b, dr_pid := p\<rparr>"
  "d\<lparr>dr_pgid := p, dr_controlBuffer := b\<rparr> = d\<lparr>dr_controlBuffer := b, dr_pgid := p\<rparr>"
  "d\<lparr>dr_supervised := x, dr_controlBuffer := b\<rparr> = d\<lparr>dr_controlBuffer := b, dr_supervised := x\<rparr>"
  "d\<lparr>dr_spawnError := p, dr_controlBuffer := b\<rparr> = d\<lparr>dr_controlBuffer := b, dr_spawnError := p\<rparr>"
  "d\<lparr>dr_expectingWatchdogExit := x, dr_controlBuffer := b\<rparr> = d\<lparr>dr_controlBuffer := b, dr_expectingWatchdogExit := x\<rparr>"
  by (cases d, simp)+

lemma settle_buffer: "settleDriver r c s (set_buffer r b su) = set_buffer r b (settleDriver r c s su)"
  by (simp add: settleDriver_def Let_def free_slot_def settle_waiting_def change_def log_event_def participant_of_def
      set_buffer_def buffer_perm)

lemma waiting_buffer: "settle_waiting q res (set_buffer r b su) = set_buffer r b (settle_waiting q res su)"
  by (cases "q = r") (simp_all add: settle_waiting_def set_buffer_def change_def buffer_perm fun_upd_twist)

lemma log_buffer: "log_event e (set_buffer r b su) = set_buffer r b (log_event e su)"
  by (simp add: log_event_def set_buffer_def change_def)

lemma expect_buffer:
  "change r (\<lambda>d. d\<lparr>dr_expectingWatchdogExit := True\<rparr>) (set_buffer r b su)
 = set_buffer r b (change r (\<lambda>d. d\<lparr>dr_expectingWatchdogExit := True\<rparr>) su)"
  by (simp add: set_buffer_def change_def buffer_perm)

lemma participant_buffer [simp]: "participant_of (set_buffer r b su) = participant_of su"
  by (simp add: participant_of_def set_buffer_def fun_eq_iff)

lemma supervised_buffer: "handle_supervised r m (set_buffer r b su) = set_buffer r b (handle_supervised r m su)"
  by (simp add: handle_supervised_def Let_def set_buffer_def change_def settle_waiting_def log_event_def buffer_perm)

lemma spawn_error_buffer: "handle_spawn_error env r m (set_buffer r b su) = set_buffer r b (handle_spawn_error env r m su)"
proof -
  have 1: "change r (\<lambda>d. d\<lparr>dr_spawnError := Some e, dr_expectingWatchdogExit := True\<rparr>) (set_buffer r b t)
      = set_buffer r b (change r (\<lambda>d. d\<lparr>dr_spawnError := Some e, dr_expectingWatchdogExit := True\<rparr>) t)" for e t
    by (simp add: set_buffer_def change_def buffer_perm)
  have 2: "dr_supervised (su_rec (set_buffer r b t) r) = dr_supervised (su_rec t r)"
    "dr_driverSettled (su_rec (set_buffer r b t) r) = dr_driverSettled (su_rec t r)" for t
    by (simp_all add: set_buffer_def)
  have 3: "participant_of (change r f t) r = participant_of t r"
    if "\<And>d. dr_spec (f d) = dr_spec d" for f t
    using that by (simp add: participant_of_def)
  show ?thesis
    unfolding handle_spawn_error_def Let_def 1 log_buffer waiting_buffer 2
    by (simp add: settle_buffer 2)
qed

lemma counter_buffer: "(set_buffer r b su)\<lparr>su_reapedByWatchdog := n\<rparr> = set_buffer r b (su\<lparr>su_reapedByWatchdog := n\<rparr>)"
  "su_reapedByWatchdog (set_buffer r b su) = su_reapedByWatchdog su"
  by (simp_all add: set_buffer_def change_def)

lemma line_buffer:
  "handleControlLine env r line (set_buffer r b su) = map_prod id (set_buffer r b) (handleControlLine env r line su)"
  by (simp add: handleControlLine_def log_buffer supervised_buffer spawn_error_buffer expect_buffer settle_buffer counter_buffer
      split: option.split json.split)

text \<open>A channel that was closed stays closed, and an exception stays thrown.\<close>

definition broken :: "nat \<Rightarrow> supervisor \<Rightarrow> bool" where
  "broken r su \<longleftrightarrow> dr_controlDestroyed (su_rec su r) \<or> crashed \<in> set (su_log su)"

lemma broken_settle: "broken r su \<Longrightarrow> broken r (settleDriver q c s su)"
  by (auto simp: broken_def settleDriver_def Let_def settle_waiting_def change_def)

lemma broken_line: "broken r su \<Longrightarrow> broken r (snd (handleControlLine env r line su))"
proof -
  assume a: "broken r su"
  have 1: "broken r (handle_supervised r m su)" for m
    using a by (auto simp: broken_def handle_supervised_def Let_def settle_waiting_def change_def)
  have 2: "broken r (handle_spawn_error env r m su)" for m
  proof -
    have "broken r (settle_waiting r res (log_event e (change r (\<lambda>d. d\<lparr>dr_spawnError := v, dr_expectingWatchdogExit := True\<rparr>) su)))" for res e v
      using a by (auto simp: broken_def settle_waiting_def change_def)
    then show ?thesis by (simp add: handle_spawn_error_def Let_def broken_settle)
  qed
  have 3: "broken r (settleDriver r c s (change r (\<lambda>d. d\<lparr>dr_expectingWatchdogExit := True\<rparr>) su))" for c s
    using a by (intro broken_settle) (auto simp: broken_def change_def)
  have 4: "broken r (log_event e su)" "broken r (log_event e (su\<lparr>su_reapedByWatchdog := n\<rparr>))" for e n
    using a by (auto simp: broken_def)
  show ?thesis using a 1 2 3 4 by (auto simp: handleControlLine_def split: option.split json.split)
qed

lemma thrown_broken: "handleControlLine env r line su = (False, su') \<Longrightarrow> broken r su'"
  by (auto simp: handleControlLine_def broken_def split: option.splits json.splits if_splits)

lemma handled_line: "handleControlLine env r line su = (okay, su') \<Longrightarrow> dr_watchdogHandled (su_rec su' r) = dr_watchdogHandled (su_rec su r)"
  by (auto simp: handleControlLine_def handle_supervised_def handle_spawn_error_def Let_def split: option.splits json.splits if_splits)

lemma broken_lines: "broken r su \<Longrightarrow> broken r (take_lines env r buffer su)"
proof (induction env r buffer su rule: take_lines.induct)
  case (1 env r buffer su)
  have close: "broken r (closeAfterProtocolViolation r reason s)" for s reason
    by (simp add: broken_def closeAfterProtocolViolation_def)
  show ?case
  proof (cases "cut_line buffer")
    case None
    then show ?thesis using 1(2) close by (simp add: take_lines.simps [of env r buffer su])
  next
    case (Some lr)
    obtain line rest where lr: "lr = (line, rest)" by (cases lr)
    let ?su1 = "change r (\<lambda>d. d\<lparr>dr_controlBuffer := rest\<rparr>) su"
    obtain okay su2 where h: "handleControlLine env r (se_utf8 env line) ?su1 = (okay, su2)"
      by (cases "handleControlLine env r (se_utf8 env line) ?su1")
    have "broken r ?su1" using 1(2) by (simp add: broken_def)
    then have b2: "broken r su2" using broken_line [of r ?su1 env "se_utf8 env line"] h by simp
    have "broken r (take_lines env r rest su2)"
      if "length line \<le> CONTROL_LINE_CAP_BYTES" "okay" "\<not> dr_watchdogHandled (su_rec su2 r)"
      using 1(1) [OF Some lr [symmetric] refl _ h [symmetric]] that b2 by simp
    then show ?thesis
      using b2 close by (simp add: take_lines.simps [of env r buffer su] Some lr Let_def h [unfolded Let_def] split: bool.split)
  qed
qed

lemma cut_line_append: "cut_line a = Some (line, rest) \<Longrightarrow> cut_line (a @ b) = Some (line, rest @ b)"
  by (induction a arbitrary: line) (auto split: if_splits)

lemma take_lines_line:
  assumes "cut_line a = Some (line, rest)" "handleControlLine env r (se_utf8 env line) su = (okay, t)"
    "\<not> dr_watchdogHandled (su_rec su r)"
  shows "take_lines env r a (set_buffer r c su) =
    (if CONTROL_LINE_CAP_BYTES < length line then closeAfterProtocolViolation r inbound_violation (set_buffer r rest su)
     else if okay then take_lines env r rest (set_buffer r rest t) else set_buffer r rest t)"
proof -
  have "dr_watchdogHandled (su_rec t r) = False" using handled_line [OF assms(2)] assms(3) by simp
  moreover have "handleControlLine env r (se_utf8 env line) (set_buffer r rest su) = (okay, set_buffer r rest t)"
    by (simp add: line_buffer assms(2))
  moreover have "change r (\<lambda>d. d\<lparr>dr_controlBuffer := rest\<rparr>) (set_buffer r c su) = set_buffer r rest su"
    by (simp add: set_buffer_def change_def)
  ultimately show ?thesis
    by (simp add: take_lines.simps [of env r a "set_buffer r c su"] assms(1) Let_def split: bool.split)
qed

lemma chunk_as: "\<not> dr_watchdogHandled (su_rec su r) \<Longrightarrow>
  handleControlChunk env r b su = take_lines env r (dr_controlBuffer (su_rec su r) @ b) (set_buffer r (dr_controlBuffer (su_rec su r) @ b) su)"
  by (simp add: handleControlChunk_def Let_def set_buffer_def)

lemma lines_split:
  assumes "\<not> dr_watchdogHandled (su_rec su r)" "\<not> broken r (take_lines env r a (set_buffer r a su))"
  shows "take_lines env r (a @ b) (set_buffer r (a @ b) su) = handleControlChunk env r b (take_lines env r a (set_buffer r a su))"
  using assms
proof (induction "length a" arbitrary: a su rule: less_induct)
  case less
  have close: "broken r (closeAfterProtocolViolation r reason s)" for reason s
    by (simp add: broken_def closeAfterProtocolViolation_def)
  show ?case
  proof (cases "cut_line a")
    case None
    have "length a \<le> CONTROL_LINE_CAP_BYTES"
      using less.prems(2) close None by (simp add: take_lines.simps [of env r a "set_buffer r a su"] split: if_splits)
    then have "take_lines env r a (set_buffer r a su) = set_buffer r a su"
      using None by (simp add: take_lines.simps [of env r a "set_buffer r a su"])
    then show ?thesis using less.prems(1) by (simp add: chunk_as)
  next
    case (Some lr)
    obtain line rest where lr: "lr = (line, rest)" by (cases lr)
    obtain okay t where h: "handleControlLine env r (se_utf8 env line) su = (okay, t)"
      by (cases "handleControlLine env r (se_utf8 env line) su")
    note one = take_lines_line [OF Some [unfolded lr] h less.prems(1)]
    have ab: "cut_line (a @ b) = Some (line, rest @ b)" using cut_line_append Some lr by blast
    note two = take_lines_line [OF ab h less.prems(1)]
    have short: "length line \<le> CONTROL_LINE_CAP_BYTES"
      using less.prems(2) close by (simp add: one split: if_splits)
    have okay
    proof (rule ccontr)
      assume "\<not> okay"
      then have "broken r t" using thrown_broken h by simp
      with less.prems(2) short \<open>\<not> okay\<close> show False by (simp add: one broken_def)
    qed
    have "\<not> dr_watchdogHandled (su_rec t r)" using handled_line [OF h] less.prems(1) by simp
    moreover have "\<not> broken r (take_lines env r rest (set_buffer r rest t))"
      using less.prems(2) short \<open>okay\<close> by (simp add: one)
    moreover have "length rest < length a" using cut_line_shorter Some lr by blast
    ultimately have "take_lines env r (rest @ b) (set_buffer r (rest @ b) t)
        = handleControlChunk env r b (take_lines env r rest (set_buffer r rest t))"
      by (intro less.hyps)
    then show ?thesis using short \<open>okay\<close> by (simp add: one two)
  qed
qed

lemma chunk_split:
  assumes "\<not> broken r (handleControlChunk env r a su)"
  shows "handleControlChunk env r (a @ b) su = handleControlChunk env r b (handleControlChunk env r a su)"
proof (cases "dr_watchdogHandled (su_rec su r)")
  case True
  then show ?thesis by (simp add: handleControlChunk_def)
next
  case False
  let ?x = "dr_controlBuffer (su_rec su r)"
  have "\<not> broken r (take_lines env r (?x @ a) (set_buffer r (?x @ a) su))" using assms False by (simp add: chunk_as)
  from lines_split [OF False this, of b] show ?thesis using False by (simp add: chunk_as)
qed

lemma broken_chunk: "broken r su \<Longrightarrow> broken r (handleControlChunk env r b su)"
proof (cases "dr_watchdogHandled (su_rec su r)")
  case False
  assume "broken r su"
  then have "broken r (set_buffer r c su)" for c by (simp add: broken_def)
  with False show ?thesis by (simp add: chunk_as broken_lines)
qed (simp add: handleControlChunk_def)

lemma chunk_nothing:
  assumes "cut_line (dr_controlBuffer (su_rec su r)) = None" "length (dr_controlBuffer (su_rec su r)) \<le> CONTROL_LINE_CAP_BYTES"
  shows "handleControlChunk env r [] su = su"
proof -
  have "su_rec su r\<lparr>dr_controlBuffer := dr_controlBuffer (su_rec su r)\<rparr> = su_rec su r" by simp
  then show ?thesis using assms
    by (simp add: handleControlChunk_def Let_def take_lines.simps [of env r] change_def)
qed

text \<open>The control channel is framed by its bytes alone.  However the bytes of a watchdog arrive in
  pieces, the state after the pieces is that after all of them at once, as long as the channel is
  not closed for a line over the cap and no handler throws.\<close>

theorem framing_ignores_chunks:
  assumes "\<not> broken r (foldl (\<lambda>t c. handleControlChunk env r c t) (handleControlChunk env r first su) chunks)"
  shows "foldl (\<lambda>t c. handleControlChunk env r c t) (handleControlChunk env r first su) chunks
       = handleControlChunk env r (first @ concat chunks) su"
  using assms
proof (induction chunks arbitrary: first)
  case (Cons c chunks)
  let ?fold = "foldl (\<lambda>t c. handleControlChunk env r c t)"
  have mono: "broken r t \<Longrightarrow> broken r (?fold t cs)" for t cs
    by (induction cs arbitrary: t) (simp_all add: broken_chunk)
  have "\<not> broken r (handleControlChunk env r first su)"
    using Cons.prems mono broken_chunk by (metis foldl_Cons)
  then have "?fold (handleControlChunk env r first su) (c # chunks) = ?fold (handleControlChunk env r (first @ c) su) chunks"
    by (simp add: chunk_split)
  with Cons.prems Cons.IH [of "first @ c"] show ?case by (simp del: foldl_Cons)
qed simp

section \<open>The environment of a driver\<close>

lemma inherit_env:
  "jm_ok m \<Longrightarrow> jm_ok (fold (\<lambda>name merged. case src name of Some v \<Rightarrow> jm_set name v merged | None \<Rightarrow> merged) names m)
   \<and> map_of (fold (\<lambda>name merged. case src name of Some v \<Rightarrow> jm_set name v merged | None \<Rightarrow> merged) names m) n
     = (if n \<in> set names \<and> src n \<noteq> None then src n else map_of m n)"
proof (induction names arbitrary: m)
  case (Cons a names)
  let ?m = "case src a of Some v \<Rightarrow> jm_set a v m | None \<Rightarrow> m"
  have "jm_ok ?m" using Cons.prems by (simp add: jm.invar_put split: option.split)
  moreover have "map_of ?m n = (if n = a \<and> src a \<noteq> None then src a else map_of m n)"
    using Cons.prems by (simp add: jm.lookup_put split: option.split)
  ultimately show ?case using Cons.IH [of ?m] by auto
qed simp

lemma overlay_env:
  "jm_ok m \<Longrightarrow> jm_ok new \<Longrightarrow> jm_ok (fold (\<lambda>(name, value). jm_set name value) new m)
   \<and> map_of (fold (\<lambda>(name, value). jm_set name value) new m) n
     = (case map_of new n of Some v \<Rightarrow> Some v | None \<Rightarrow> map_of m n)"
proof (induction new arbitrary: m)
  case (Cons nv new)
  obtain a v where nv: "nv = (a, v)" by (cases nv)
  have "jm_ok (jm_set a v m)" using Cons.prems by (simp add: jm.invar_put)
  from Cons.IH [OF this] Cons.prems(2)
  have IH: "jm_ok (fold (\<lambda>(name, value). jm_set name value) new (jm_set a v m))
    \<and> map_of (fold (\<lambda>(name, value). jm_set name value) new (jm_set a v m)) n
      = (case map_of new n of Some v \<Rightarrow> Some v | None \<Rightarrow> map_of (jm_set a v m) n)"
    by simp
  have "n = a \<Longrightarrow> map_of new n = None" using Cons.prems(2) by (simp add: nv map_of_eq_None_iff)
  then show ?case using IH Cons.prems(1) by (auto simp: nv jm.lookup_put split: option.split)
qed simp

lemma filter_env:
  "map_of (filter (\<lambda>(name, value). P name) m) n = (if P n then map_of m n else None)"
  by (induction m) auto

text \<open>Environment hygiene.  A variable of a supervised process has the value the driver declared, or
  else the one inherited by name, and no other variable of the Host gets through; a name that is
  denied (an injection variable, or a secret that was not inherited by name) is absent whoever set it.\<close>

theorem supervised_environment:
  assumes "jm_ok envSet"
  shows "jm_get (buildSupervisedEnv envInherit envSet sourceEnv) name =
    (if isDeniedEnvName name (name \<in> set envInherit) then None
     else case jm_get envSet name of
            Some v \<Rightarrow> Some v
          | None \<Rightarrow> if name \<in> set envInherit then sourceEnv name else None)"
proof -
  let ?in = "fold (\<lambda>name merged. case sourceEnv name of Some v \<Rightarrow> jm_set name v merged | None \<Rightarrow> merged) envInherit []"
  have inh: "jm_ok ?in" "map_of ?in name = (if name \<in> set envInherit \<and> sourceEnv name \<noteq> None then sourceEnv name else None)"
    using inherit_env [of "[]" sourceEnv envInherit name] by simp_all
  from overlay_env [OF inh(1) assms, of name] inh(2)
  show ?thesis
    by (auto simp: buildSupervisedEnv_def filterDeniedEnv_def Let_def filter_env split: option.split)
qed

section \<open>The diagnostics ring\<close>

lemma ring_trim_suffix:
  "size_now = length (concat chunks) \<Longrightarrow> ring_trim limit chunks size_now = (chunks', n) \<Longrightarrow>
   concat chunks' = drop (size_now - limit) (concat chunks) \<and> n = length (concat chunks')"
proof (induction limit chunks size_now rule: ring_trim.induct)
  case (2 limit head rest size_now)
  show ?case
  proof (cases "size_now \<le> limit")
    case True
    then have "chunks' = head # rest" "n = size_now" using 2(3) by simp_all
    then show ?thesis using True 2(2) by simp
  next
    case False
    show ?thesis
    proof (cases "length head \<le> size_now - limit")
      case True
      then have "concat chunks' = drop (size_now - length head - limit) (concat rest) \<and> n = length (concat chunks')"
        using 2 False by (simp add: Let_def)
      moreover have "size_now - limit - length head = size_now - length head - limit" by simp
      ultimately show ?thesis using True by simp
    next
      case less: False
      then show ?thesis using 2 False by (auto simp: Let_def)
    qed
  qed
qed simp

definition ring_ok :: "nat \<Rightarrow> BoundedRing \<Rightarrow> bool" where
  "ring_ok limit ring \<longleftrightarrow> br_total ring = length (ring_bytes ring) \<and> br_total ring \<le> limit"

lemma ring_append_suffix:
  assumes "br_total ring = length (ring_bytes ring)"
  shows "ring_bytes (ring_append limit c ring) =
      (if c = [] then ring_bytes ring else drop (length (ring_bytes ring @ c) - limit) (ring_bytes ring @ c))
    \<and> br_total (ring_append limit c ring) = length (ring_bytes (ring_append limit c ring))"
proof (cases "c = []")
  case False
  obtain chunks n where t: "ring_trim limit (br_chunks ring @ [c]) (br_total ring + length c) = (chunks, n)"
    by (cases "ring_trim limit (br_chunks ring @ [c]) (br_total ring + length c)")
  have "br_total ring + length c = length (concat (br_chunks ring @ [c]))" using assms by (simp add: ring_bytes_def)
  note suffix = ring_trim_suffix [OF this t]
  have "ring_append limit c ring = \<lparr>br_chunks = chunks, br_total = n\<rparr>" using False by (simp add: ring_append_def t)
  then show ?thesis using False suffix assms by (simp add: ring_bytes_def)
qed (simp add: ring_append_def assms)

text \<open>The diagnostics ring keeps exactly the last bytes of everything that was appended, up to its
  limit, whatever the pieces.\<close>

theorem ring_keeps_suffix:
  "ring_bytes (foldl (\<lambda>ring c. ring_append limit c ring) empty_ring chunks)
     = drop (length (concat chunks) - limit) (concat chunks)
   \<and> br_total (foldl (\<lambda>ring c. ring_append limit c ring) empty_ring chunks)
     = min limit (length (concat chunks))"
proof -
  let ?r = "\<lambda>chunks. foldl (\<lambda>ring c. ring_append limit c ring) empty_ring chunks"
  have "ring_bytes (?r chunks) = drop (length (concat chunks) - limit) (concat chunks)
      \<and> br_total (?r chunks) = length (ring_bytes (?r chunks))"
  proof (induction chunks rule: rev_induct)
    case (snoc c chunks)
    let ?old = "concat chunks"
    have "drop (length (drop (length ?old - limit) ?old @ c) - limit) (drop (length ?old - limit) ?old @ c)
        = drop (length (?old @ c) - limit) (?old @ c)"
      by (cases "length ?old \<le> limit") (simp_all add: add.commute)
    then show ?case using snoc.IH ring_append_suffix [of "?r chunks" limit c] by simp
  qed (simp add: empty_ring_def ring_bytes_def)
  then show ?thesis by (simp add: min_def)
qed

section \<open>Directories of participants\<close>

lemma safe_id_chars: "PARTICIPANT_ID_PATTERN p \<Longrightarrow> CHR ''/'' \<notin> set p \<and> p \<noteq> [] \<and> p \<noteq> ''.'' \<and> p \<noteq> ''..''"
  by (cases p) (auto simp: is_alnum_def list_all_iff)

lemma relative_inside:
  "(\<forall>x. path_relative a b \<noteq> ''..'' # x) \<Longrightarrow> b = a @ path_relative a b"
proof (induction a arbitrary: b)
  case Nil
  then show ?case by (cases b) simp_all
next
  case (Cons x a)
  then show ?case by (cases b) (auto split: if_splits)
qed

lemma join_starts: "starts_with (join ''/'' (''..'' # x)) ''..''"
  by (cases x) (simp_all add: starts_with_def)

text \<open>A driver's directory cannot escape.  The directory prepared for a participant is the child of
  the root with the participant's id as its name, and a missing directory is created for a driver
  only strictly below the work root.\<close>

theorem driver_directories_contained:
  "(\<forall>target. prepareParticipantCwd mkdirPrivate root participantId = Inr target
      \<longrightarrow> target = path_normalize root @ [participantId])
   \<and> (ensureCwd lstat_missing made driverWorkRoot cwd participantId = None
      \<longrightarrow> (\<exists>below. below \<noteq> [] \<and> path_normalize cwd = path_normalize driverWorkRoot @ below))"
proof -
  have "path_normalize (root @ ''/'' @ p) = path_normalize root @ [p]" if "PARTICIPANT_ID_PATTERN p" for p
    using safe_id_chars [OF that] by (simp add: path_normalize_def split_path_append split_path_plain path_push_def)
  then have 1: "\<forall>target. prepareParticipantCwd mkdirPrivate root participantId = Inr target
      \<longrightarrow> target = path_normalize root @ [participantId]"
    by (auto simp: prepareParticipantCwd_def Let_def split: if_splits option.splits)
  have "\<exists>below. below \<noteq> [] \<and> path_normalize cwd = path_normalize driverWorkRoot @ below"
    if "ensureCwd lstat_missing made driverWorkRoot cwd participantId = None"
  proof -
    let ?rel = "path_relative (path_normalize driverWorkRoot) (path_normalize cwd)"
    have rel: "?rel \<noteq> []" "\<not> starts_with (join ''/'' ?rel) ''..''"
      using that by (auto simp: ensureCwd_def Let_def split: if_splits)
    then have "\<forall>x. ?rel \<noteq> ''..'' # x" using join_starts by metis
    from relative_inside [OF this] rel(1) show ?thesis by blast
  qed
  with 1 show ?thesis by blast
qed

section \<open>A driver whose kill was asked for\<close>

definition sup_sample_env :: sup_env where
  "sup_sample_env =
     \<lparr>se_utf8 = id,
      se_parse = (\<lambda>s. if s = ''S'' then Some (JObj [(''type'', JStr ''supervised''), (''pid'', JNum ''7''), (''pgid'', JNum ''7'')]) else None),
      se_environ = (\<lambda>_. None), se_driverWorkRoot = ''/w'', se_text = (\<lambda>_. [])\<rparr>"

definition sup_sample_spec :: DriverSpawnSpec where
  "sup_sample_spec =
     \<lparr>ds_participantId = ''p'', ds_executable = ''/d'', ds_argv = [], ds_cwd = ''/w/p'', ds_envInherit = [], ds_envSet = []\<rparr>"

definition sup_sample :: supervisor where
  "sup_sample =
     handleControlChunk sup_sample_env 0 ''S\<newline>''
       (snd (spawnDriver sup_sample_env sup_sample_spec lstat_directory mkdir_ok True createProcessSupervisor))"

lemma sample_frame_short: "utf8_len (stringify (spawn_frame sup_sample_spec []) @ [CHR 0x0A]) \<le> CONTROL_LINE_CAP_BYTES"
  by (simp add: spawn_frame_def sup_sample_spec_def json_quote_def json_escape_def utf8_width_def CONTROL_LINE_CAP_BYTES_def)

lemma sample_spawn:
  "spawnDriver sup_sample_env sup_sample_spec lstat_directory mkdir_ok True createProcessSupervisor
 = (Inr 0, log_event (wrote_control 0 (spawn_frame sup_sample_spec [])) (add_record sup_sample_spec createProcessSupervisor))"
proof -
  have env: "buildSupervisedEnv (ds_envInherit sup_sample_spec) (ds_envSet sup_sample_spec) f = []" for f
    by (simp add: buildSupervisedEnv_def filterDeniedEnv_def sup_sample_spec_def)
  have valid: "validateSpec sup_sample_spec = None"
    by (simp add: validateSpec_def sup_sample_spec_def isAbsolute_def starts_with_def)
  have made: "ensureCwd lstat_directory mkdir_ok w c p = None" for w c p
    by (simp add: ensureCwd_def mkdir_throws_def)
  have "\<not> dr_watchdogHandled (su_rec (add_record sup_sample_spec createProcessSupervisor) 0)"
    "\<not> dr_controlDestroyed (su_rec (add_record sup_sample_spec createProcessSupervisor) 0)"
    "su_next createProcessSupervisor = 0"
    by (simp_all add: add_record_def createProcessSupervisor_def new_record_def)
  moreover have "jm_get (su_byParticipant createProcessSupervisor) p = None" for p
    by (simp add: createProcessSupervisor_def)
  ultimately show ?thesis
    using sample_frame_short by (simp add: spawnDriver_def valid made env spawn_watchdog_def sendControl_def Let_def)
qed

lemma sample_line:
  "handleControlLine sup_sample_env 0 ''S'' su
 = (True, handle_supervised 0 (JObj [(''type'', JStr ''supervised''), (''pid'', JNum ''7''), (''pgid'', JNum ''7'')]) su)"
  by (simp add: handleControlLine_def sup_sample_env_def js_trim_def js_space_def string_field_def)

lemma sup_sample_state:
  "sup_sample = handle_supervised 0 (JObj [(''type'', JStr ''supervised''), (''pid'', JNum ''7''), (''pgid'', JNum ''7'')])
     (set_buffer 0 [] (log_event (wrote_control 0 (spawn_frame sup_sample_spec [])) (add_record sup_sample_spec createProcessSupervisor)))"
proof -
  let ?t = "log_event (wrote_control 0 (spawn_frame sup_sample_spec [])) (add_record sup_sample_spec createProcessSupervisor)"
  have t: "\<not> dr_watchdogHandled (su_rec ?t 0)" "dr_controlBuffer (su_rec ?t 0) = []"
    by (simp_all add: add_record_def createProcessSupervisor_def new_record_def)
  have cut: "cut_line ''S\<newline>'' = Some (''S'', [])" by simp
  obtain okay u where h: "handleControlLine sup_sample_env 0 (se_utf8 sup_sample_env ''S'') ?t = (okay, u)"
    by (cases "handleControlLine sup_sample_env 0 (se_utf8 sup_sample_env ''S'') ?t")
  have u: "okay" "u = handle_supervised 0 (JObj [(''type'', JStr ''supervised''), (''pid'', JNum ''7''), (''pgid'', JNum ''7'')]) ?t"
    using h sample_line [of ?t] by (simp_all add: sup_sample_env_def)
  have "sup_sample = take_lines sup_sample_env 0 [] (set_buffer 0 [] u)"
    using take_lines_line [OF cut h t(1)] u(1) t
    by (simp add: sup_sample_def sample_spawn chunk_as CONTROL_LINE_CAP_BYTES_def)
  then show ?thesis by (simp add: take_lines.simps [of _ _ "[]"] CONTROL_LINE_CAP_BYTES_def u(2) supervised_buffer)
qed

lemma sup_sample_fields:
  "su_next sup_sample = 1" "dr_pgid (su_rec sup_sample 0) = Some ''7''" "\<not> dr_driverSettled (su_rec sup_sample 0)"
  "dr_spawnError (su_rec sup_sample 0) = None" "end_asked r \<notin> set (su_log sup_sample)" "\<not> broken 0 sup_sample"
  "su_records sup_sample = [0]"
  by (simp_all add: sup_sample_state handle_supervised_def Let_def set_buffer_def add_record_def createProcessSupervisor_def
      new_record_def number_field_def settle_waiting_def log_event_def change_def broken_def)

lemma sup_sample_reachable: "sup_reachable sup_sample_env sup_sample"
proof -
  let ?spawned = "snd (spawnDriver sup_sample_env sup_sample_spec lstat_directory mkdir_ok True createProcessSupervisor)"
  have "0 < su_next ?spawned" by (simp add: sample_spawn add_record_def)
  then have "sup_step sup_sample_env ?spawned sup_sample"
    unfolding sup_sample_def by (rule step_chunk)
  then show ?thesis by (meson step_spawn r_into_rtranclp rtranclp.rtrancl_into_rtrancl)
qed


theorem dead_watchdog_leaves_no_group_witness:
  "signalled_group 0 ''7'' \<in> set (su_log (handleWatchdogExit 0 None (Some ''SIGSEGV'') sup_sample))"
  using dead_watchdog_leaves_no_group [OF sup_sample_reachable, of 0 "''7''"] by (simp add: sup_sample_fields)

abbreviation sup_spawned :: supervisor where
  "sup_spawned \<equiv> log_event (wrote_control 0 (spawn_frame sup_sample_spec [])) (add_record sup_sample_spec createProcessSupervisor)"

theorem framing_ignores_chunks_witness:
  "handleControlChunk sup_sample_env 0 ''\<newline>'' (handleControlChunk sup_sample_env 0 ''S'' sup_spawned) = sup_sample"
proof -
  have t: "\<not> dr_watchdogHandled (su_rec sup_spawned 0)" "dr_controlBuffer (su_rec sup_spawned 0) = []"
    by (simp_all add: add_record_def createProcessSupervisor_def new_record_def)
  have "handleControlChunk sup_sample_env 0 ''S'' sup_spawned = set_buffer 0 ''S'' sup_spawned"
    using t by (simp add: chunk_as take_lines.simps [of _ _ "''S''"] CONTROL_LINE_CAP_BYTES_def)
  moreover have "handleControlChunk sup_sample_env 0 ''\<newline>'' (set_buffer 0 ''S'' sup_spawned) = sup_sample"
    using t by (simp add: sup_sample_def sample_spawn chunk_as)
  ultimately have "\<not> broken 0 (foldl (\<lambda>t c. handleControlChunk sup_sample_env 0 c t)
      (handleControlChunk sup_sample_env 0 ''S'' sup_spawned) [''\<newline>''])"
    by (simp add: sup_sample_fields)
  from framing_ignores_chunks [OF this] show ?thesis by (simp add: sup_sample_def sample_spawn)
qed

theorem supervised_environment_witness:
  "jm_get (buildSupervisedEnv [''PATH''] [(''MY_TOKEN'', ''x'')] (\<lambda>_. Some ''v'')) ''PATH'' = Some ''v''"
  using supervised_environment [of "[(''MY_TOKEN'', ''x'')]" "[''PATH'']" "\<lambda>_. Some ''v''" "''PATH''"]
  by (simp add: isDeniedEnvName_def ENV_DENY_EXACT_def ENV_DENY_PREFIXES_def starts_with_def)

theorem driver_directories_contained_witness:
  "prepareParticipantCwd (\<lambda>_. mkdir_ok) ''/w'' ''p'' = Inr [''w'', ''p'']"
proof -
  have "\<exists>target. prepareParticipantCwd (\<lambda>_. mkdir_ok) ''/w'' ''p'' = Inr target"
    by (simp add: prepareParticipantCwd_def isAbsolute_def starts_with_def is_alnum_def mkdir_throws_def Let_def)
  moreover have "path_normalize ''/w'' = [''w'']" by (simp add: path_normalize_def path_push_def)
  ultimately show ?thesis
    using driver_directories_contained [of "\<lambda>_. mkdir_ok" "''/w''" "''p''"] by auto
qed

text \<open>A driver whose kill was asked for and whose watchdog then dies is not looked after any more: no
  signal reaches its group, its end is never reported and shutting everything down does not touch it.\<close>

lemma killed_driver_is_forgotten:
  "let t = handleWatchdogExit 0 None None (kill_driver 0 ''SIGTERM'' None sup_sample)
   in dr_supervised (su_rec t 0) \<and> \<not> dr_driverSettled (su_rec t 0) \<and> su_records t = []
    \<and> (\<forall>g. signalled_group 0 g \<notin> set (su_log t)) \<and> shutdownAll n t = t"
  by (simp add: Let_def kill_driver_def sendControl_def kill_frame_def json_quote_def json_escape_def utf8_width_def
      CONTROL_LINE_CAP_BYTES_def handle_exit_as before_close_def close_out_def record_of_exit_def shutdownAll_def
      sup_sample_state handle_supervised_def set_buffer_def add_record_def createProcessSupervisor_def
      new_record_def number_field_def settle_waiting_def log_event_def change_def free_slot_def empty_ring_def ring_bytes_def
      participant_of_def)

end
