(* ===== verification/Frozen_Diff.thy ===== *)
theory Frozen_Diff
  imports Decimal_Int Canonical_Json
begin

text \<open>
  The reader of a frozen diff, \<open>shared/runtime/review-explainer/diff.ts\<close>: git's output is cut into files,
  hunks and numbered lines, and every path in it is checked before anybody opens it.

  Decoding the bytes of a quoted name as UTF-8 is the parameter \<open>decode\<close>.  The current hunk is kept
  beside its file until the next one starts; \<open>dp_attached\<close> says whether it is still a hunk of the file,
  which a line about binary content ends.
\<close>

section \<open>Data\<close>

datatype explainer_error = ExplainerError string nat

datatype line_type = line_add | line_delete | line_context

record DiffLine =
  dl_type :: line_type
  dl_text :: string
  dl_oldLine :: "nat option"
  dl_newLine :: "nat option"

record DiffHunk =
  dh_oldStart :: nat
  dh_oldLines :: nat
  dh_newStart :: nat
  dh_newLines :: nat
  dh_header :: string
  dh_lines :: "DiffLine list"

datatype file_status = file_modified | file_added | file_deleted | file_renamed

record DiffFile =
  df_path :: string
  df_oldPath :: "string option"
  df_newPath :: "string option"
  df_status :: file_status
  df_binary :: bool
  df_hunks :: "DiffHunk list"
  df_additions :: nat
  df_deletions :: nat

section \<open>Paths\<close>

abbreviation backslash :: char where
  "backslash \<equiv> CHR 0x5C"

abbreviation quote_mark :: char where
  "quote_mark \<equiv> CHR 0x22"

abbreviation tab :: char where
  "tab \<equiv> CHR 0x09"

definition control_char :: "char \<Rightarrow> bool" where
  "control_char c \<longleftrightarrow> (of_char c :: nat) < 32 \<or> (of_char c :: nat) = 127"

definition unsafe_path :: "string \<Rightarrow> bool" where
  "unsafe_path value \<longleftrightarrow>
     value = [] \<or> length value > 1000 \<or> starts_with value ''/'' \<or> starts_with value ''-''
   \<or> backslash \<in> set value \<or> list_ex control_char value
   \<or> list_ex (\<lambda>part. part \<in> set [[], ''.'', ''..'', ''.git'']) (split_path value)"

definition repoPath :: "string \<Rightarrow> explainer_error + string" where
  "repoPath value =
     (if unsafe_path value then Inl (ExplainerError ''Invalid repository-relative path'' 403) else Inr value)"

definition bad_header :: explainer_error where
  "bad_header = ExplainerError ''Invalid frozen diff file header'' 400"

definition cEscapeByte :: "char \<Rightarrow> nat option" where
  "cEscapeByte c =
     (if c = CHR ''a'' then Some 7 else if c = CHR ''b'' then Some 8 else if c = CHR ''t'' then Some 9
      else if c = CHR ''n'' then Some 10 else if c = CHR ''v'' then Some 11 else if c = CHR ''f'' then Some 12
      else if c = CHR ''r'' then Some 13 else if c = backslash \<or> c = quote_mark then Some (of_char c)
      else None)"

text \<open>The loop of \<open>endOfCQuote\<close> over the rest of the string; \<open>i\<close> is the index of its first character.\<close>

fun end_scan :: "string \<Rightarrow> nat \<Rightarrow> nat option" where
  "end_scan [] i = None"
| "end_scan [c] i = (if c = quote_mark then Some (i + 1) else None)"
| "end_scan (c # d # s) i =
     (if c = backslash then end_scan s (i + 2)
      else if c = quote_mark then Some (i + 1)
      else end_scan (d # s) (i + 1))"

definition endOfCQuote :: "string \<Rightarrow> nat \<Rightarrow> nat option" where
  "endOfCQuote value start = end_scan (drop (start + 1) value) (start + 1)"

text \<open>\<open>Buffer.from(c, 'utf8')\<close>.\<close>

definition utf8_bytes :: "char \<Rightarrow> nat list" where
  "utf8_bytes c = (let n = of_char c in if n < 128 then [n] else [192 + n div 64, 128 + n mod 64])"

definition is_octal :: "char \<Rightarrow> bool" where
  "is_octal c \<longleftrightarrow> (let n = (of_char c :: nat) in 48 \<le> n \<and> n \<le> 55)"

definition octal_code :: "char \<Rightarrow> char \<Rightarrow> char \<Rightarrow> nat" where
  "octal_code a b c = 64 * (of_char a - 48) + 8 * (of_char b - 48) + (of_char c - 48)"

text \<open>The bytes of a quoted name after its opening quote.\<close>

fun unquote_bytes :: "string \<Rightarrow> nat list \<Rightarrow> explainer_error + nat list" where
  "unquote_bytes [] bytes = Inl bad_header"
| "unquote_bytes (c # s) bytes =
     (if c = quote_mark then (if s = [] \<or> starts_with s [tab] then Inr bytes else Inl bad_header)
      else if c \<noteq> backslash then unquote_bytes s (bytes @ utf8_bytes c)
      else case s of
        [] \<Rightarrow> Inl bad_header
      | d # t \<Rightarrow>
          (case cEscapeByte d of
             Some b \<Rightarrow> unquote_bytes t (bytes @ [b])
           | None \<Rightarrow>
               (case t of
                  e # f # u \<Rightarrow>
                    if is_octal d \<and> is_octal e \<and> is_octal f then
                      (if octal_code d e f > 255 then Inl bad_header else unquote_bytes u (bytes @ [octal_code d e f]))
                    else Inl bad_header
                | _ \<Rightarrow> Inl bad_header)))"

definition unquote :: "(nat list \<Rightarrow> string) \<Rightarrow> string \<Rightarrow> explainer_error + string" where
  "unquote decode value =
     (if \<not> starts_with value [quote_mark] then Inr (takeWhile (\<lambda>c. c \<noteq> tab) value)
      else map_sum id decode (unquote_bytes (tl value) []))"

definition strip_side :: "string \<Rightarrow> string" where
  "strip_side value = (if starts_with value ''a/'' \<or> starts_with value ''b/'' then drop 2 value else value)"

definition checked_path :: "(nat list \<Rightarrow> string) \<Rightarrow> string \<Rightarrow> explainer_error + string" where
  "checked_path decode raw = (case unquote decode raw of Inl e \<Rightarrow> Inl e | Inr value \<Rightarrow> repoPath value)"

definition headerPath :: "(nat list \<Rightarrow> string) \<Rightarrow> string \<Rightarrow> explainer_error + string option" where
  "headerPath decode raw =
     (case unquote decode raw of
        Inl e \<Rightarrow> Inl e
      | Inr value \<Rightarrow> if value = ''/dev/null'' then Inr None else map_sum id Some (repoPath (strip_side value)))"

text \<open>\<open>s.indexOf(t)\<close> and \<open>s.indexOf(t, from)\<close>.\<close>

fun index_of :: "string \<Rightarrow> string \<Rightarrow> nat option" where
  "index_of t [] = (if t = [] then Some 0 else None)"
| "index_of t (c # s) = (if starts_with (c # s) t then Some 0 else map_option Suc (index_of t s))"

definition index_from :: "string \<Rightarrow> string \<Rightarrow> nat \<Rightarrow> nat option" where
  "index_from t s i = map_option (\<lambda>k. k + i) (index_of t (drop i s))"

lemma index_from_less: "index_from t s i = Some k \<Longrightarrow> i \<le> k"
  by (auto simp: index_from_def)

text \<open>The loop over the places where an unquoted header can be split.\<close>

function split_scan :: "string \<Rightarrow> nat \<Rightarrow> (string \<times> string) option \<Rightarrow> explainer_error + string \<times> string" where
  "split_scan rest start fallback =
     (let giveUp = (case fallback of None \<Rightarrow> Inl bad_header | Some f \<Rightarrow> Inr f)
      in if start < length rest then
           (case index_from '' b/'' rest start of
              None \<Rightarrow> giveUp
            | Some at \<Rightarrow>
                if at = 0 then giveUp
                else
                  let name = take at rest; rear = drop (at + 3) rest
                  in if rear = name then Inr (''a/'' @ name, ''b/'' @ name)
                     else split_scan rest (at + 1)
                            (case fallback of None \<Rightarrow> Some (''a/'' @ name, ''b/'' @ rear) | Some f \<Rightarrow> Some f))
         else giveUp)"
  by pat_completeness auto
termination
  by (relation "measure (\<lambda>(rest, start, fallback). length rest - start)") (auto dest: index_from_less)

declare split_scan.simps [simp del]

definition splitDiffGitPaths :: "string \<Rightarrow> explainer_error + string \<times> string" where
  "splitDiffGitPaths header =
     (if starts_with header [quote_mark] then
        (case endOfCQuote header 0 of
           None \<Rightarrow> Inl bad_header
         | Some firstEnd \<Rightarrow>
             if \<not> starts_with (drop firstEnd header) '' '' then Inl bad_header
             else
               let second = drop (firstEnd + 1) header
               in if starts_with second [quote_mark] then
                    (if endOfCQuote second 0 \<noteq> Some (length second) then Inl bad_header
                     else Inr (take firstEnd header, second))
                  else if \<not> starts_with second ''b/'' then Inl bad_header
                  else Inr (take firstEnd header, second))
      else if \<not> starts_with header ''a/'' then Inl bad_header
      else
        (case index_of [CHR '' '', quote_mark] header of
           Some q \<Rightarrow>
             if 0 < q \<and> endOfCQuote header (q + 1) = Some (length header)
             then Inr (take q header, drop (q + 1) header)
             else split_scan (drop 2 header) 0 None
         | None \<Rightarrow> split_scan (drop 2 header) 0 None))"

section \<open>Hunk headers\<close>

text \<open>\<open>(\d+)\<close> at the front of a string, and \<open>(?:,(\d+))?\<close> after it.\<close>

definition take_number :: "string \<Rightarrow> (nat \<times> string) option" where
  "take_number s =
     (let ds = takeWhile is_digit s in if ds = [] then None else Some (dec_value ds, dropWhile is_digit s))"

definition take_count :: "string \<Rightarrow> nat \<times> string" where
  "take_count s =
     (if starts_with s '','' then (case take_number (tl s) of Some r \<Rightarrow> r | None \<Rightarrow> (1, s)) else (1, s))"

definition take_range :: "string \<Rightarrow> ((nat \<times> nat) \<times> string) option" where
  "take_range s =
     (case take_number s of
        None \<Rightarrow> None
      | Some (first, s1) \<Rightarrow> (case take_count s1 of (k, s2) \<Rightarrow> Some ((first, k), s2)))"

definition match_hunk :: "string \<Rightarrow> ((nat \<times> nat) \<times> (nat \<times> nat)) option" where
  "match_hunk line =
     (if \<not> starts_with line ''@@ -'' then None
      else case take_range (drop 4 line) of
        None \<Rightarrow> None
      | Some (old, s1) \<Rightarrow>
          if \<not> starts_with s1 '' +'' then None
          else case take_range (drop 2 s1) of
            None \<Rightarrow> None
          | Some (new, s2) \<Rightarrow> if starts_with s2 '' @@'' then Some (old, new) else None)"

section \<open>Parsing\<close>

record diff_parse =
  dp_files :: "DiffFile list"
  dp_warnings :: "string list"
  dp_file :: "DiffFile option"
  dp_hunk :: "DiffHunk option"
  dp_attached :: bool
  dp_oldLine :: nat
  dp_newLine :: nat

definition old_count :: "DiffLine list \<Rightarrow> nat" where
  "old_count ls = length (filter (\<lambda>l. dl_type l \<noteq> line_add) ls)"

definition new_count :: "DiffLine list \<Rightarrow> nat" where
  "new_count ls = length (filter (\<lambda>l. dl_type l \<noteq> line_delete) ls)"

definition incomplete :: "DiffHunk \<Rightarrow> bool" where
  "incomplete h \<longleftrightarrow> old_count (dh_lines h) \<noteq> dh_oldLines h \<or> new_count (dh_lines h) \<noteq> dh_newLines h"

definition finishHunk :: "diff_parse \<Rightarrow> diff_parse" where
  "finishHunk s =
     (case dp_hunk s of
        None \<Rightarrow> s
      | Some h \<Rightarrow>
          s\<lparr>dp_hunk := None, dp_attached := False,
            dp_warnings := dp_warnings s
              @ (if incomplete h then [''Incomplete hunk in '' @ (case dp_file s of Some f \<Rightarrow> df_path f | None \<Rightarrow> ''file'')] else []),
            dp_file := (if dp_attached s then map_option (\<lambda>f. f\<lparr>df_hunks := df_hunks f @ [h]\<rparr>) (dp_file s) else dp_file s)\<rparr>)"

definition close_file :: "diff_parse \<Rightarrow> diff_parse" where
  "close_file s = (case dp_file s of None \<Rightarrow> s | Some f \<Rightarrow> s\<lparr>dp_files := dp_files s @ [f], dp_file := None\<rparr>)"

definition open_file :: "(nat list \<Rightarrow> string) \<Rightarrow> string \<Rightarrow> diff_parse \<Rightarrow> explainer_error + diff_parse" where
  "open_file decode line s =
     (let s1 = close_file (finishHunk s)
      in case splitDiffGitPaths (drop 11 line) of
           Inl e \<Rightarrow> Inl e
         | Inr (oldRaw, newRaw) \<Rightarrow>
             (case headerPath decode oldRaw of
                Inl e \<Rightarrow> Inl e
              | Inr oldPath \<Rightarrow>
                  (case headerPath decode newRaw of
                     Inl e \<Rightarrow> Inl e
                   | Inr newPath \<Rightarrow>
                       Inr (s1\<lparr>dp_file := Some
                         \<lparr>df_path = (case newPath of Some p \<Rightarrow> p | None \<Rightarrow> case oldPath of Some p \<Rightarrow> p | None \<Rightarrow> []),
                          df_oldPath = oldPath, df_newPath = newPath, df_status = file_modified, df_binary = False,
                          df_hunks = [], df_additions = 0, df_deletions = 0\<rparr>\<rparr>))))"

definition open_hunk :: "string \<Rightarrow> (nat \<times> nat) \<times> (nat \<times> nat) \<Rightarrow> diff_parse \<Rightarrow> explainer_error + diff_parse" where
  "open_hunk line ranges s =
     (case ranges of ((oldStart, oldLines), (newStart, newLines)) \<Rightarrow>
        if list_ex (\<lambda>n. n > 10000000) [oldStart, oldLines, newStart, newLines]
        then Inl (ExplainerError ''Invalid diff line range'' 400)
        else
          Inr ((finishHunk s)\<lparr>dp_hunk := Some \<lparr>dh_oldStart = oldStart, dh_oldLines = oldLines, dh_newStart = newStart,
                  dh_newLines = newLines, dh_header = line, dh_lines = []\<rparr>,
                dp_attached := True, dp_oldLine := oldStart, dp_newLine := newStart\<rparr>))"

fun content_type :: "string \<Rightarrow> line_type option" where
  "content_type [] = None"
| "content_type (c # s) =
     (if c = CHR ''+'' then Some line_add else if c = CHR ''-'' then Some line_delete
      else if c = CHR '' '' then Some line_context else None)"

definition push_line :: "line_type \<Rightarrow> string \<Rightarrow> DiffHunk \<Rightarrow> diff_parse \<Rightarrow> diff_parse" where
  "push_line ty body h s =
     (let l = \<lparr>dl_type = ty, dl_text = body,
               dl_oldLine = (if ty = line_add then None else Some (dp_oldLine s)),
               dl_newLine = (if ty = line_delete then None else Some (dp_newLine s))\<rparr>
      in s\<lparr>dp_hunk := Some (h\<lparr>dh_lines := dh_lines h @ [l]\<rparr>),
           dp_oldLine := dp_oldLine s + of_bool (ty \<noteq> line_add), dp_newLine := dp_newLine s + of_bool (ty \<noteq> line_delete),
           dp_file := map_option (\<lambda>f. f\<lparr>df_additions := df_additions f + of_bool (ty = line_add),
             df_deletions := df_deletions f + of_bool (ty = line_delete)\<rparr>) (dp_file s)\<rparr>)"

text \<open>The lines between a file's header and its first hunk.\<close>

definition with_path ::
  "(nat list \<Rightarrow> string) \<Rightarrow> string \<Rightarrow> (string \<Rightarrow> DiffFile \<Rightarrow> DiffFile) \<Rightarrow> DiffFile \<Rightarrow> explainer_error + DiffFile" where
  "with_path decode raw upd f = map_sum id (\<lambda>p. upd p f) (checked_path decode raw)"

definition extended_line :: "(nat list \<Rightarrow> string) \<Rightarrow> string \<Rightarrow> DiffFile \<Rightarrow> explainer_error + DiffFile" where
  "extended_line decode line f =
     (if starts_with line ''new file mode '' then Inr (f\<lparr>df_status := file_added, df_oldPath := None\<rparr>)
      else if starts_with line ''deleted file mode '' then Inr (f\<lparr>df_status := file_deleted, df_newPath := None\<rparr>)
      else if starts_with line ''rename from '' then
        with_path decode (drop 12 line) (\<lambda>p f. f\<lparr>df_status := file_renamed, df_oldPath := Some p\<rparr>) f
      else if starts_with line ''rename to '' then
        with_path decode (drop 10 line) (\<lambda>p f. f\<lparr>df_newPath := Some p, df_path := p\<rparr>) f
      else if starts_with line ''copy from '' then
        with_path decode (drop 10 line) (\<lambda>p f. f\<lparr>df_oldPath := Some p\<rparr>) f
      else if starts_with line ''copy to '' then
        with_path decode (drop 8 line) (\<lambda>p f. f\<lparr>df_newPath := Some p, df_path := p\<rparr>) f
      else Inr f)"

definition binary_line :: "string \<Rightarrow> bool" where
  "binary_line line \<longleftrightarrow> starts_with line ''Binary files '' \<or> line = ''GIT binary patch''"

definition header_line :: "(nat list \<Rightarrow> string) \<Rightarrow> string \<Rightarrow> DiffFile \<Rightarrow> explainer_error + DiffFile" where
  "header_line decode line f =
     (if starts_with line ''--- '' then map_sum id (\<lambda>p. f\<lparr>df_oldPath := p\<rparr>) (headerPath decode (drop 4 line))
      else if starts_with line ''+++ '' then
        map_sum id (\<lambda>p. f\<lparr>df_newPath := p,
            df_path := (case p of Some q \<Rightarrow> q | None \<Rightarrow> case df_oldPath f of Some q \<Rightarrow> q | None \<Rightarrow> df_path f)\<rparr>)
          (headerPath decode (drop 4 line))
      else
        map_sum id (\<lambda>f. if binary_line line then f\<lparr>df_binary := True, df_hunks := []\<rparr> else f) (extended_line decode line f))"

text \<open>One turn of the loop.\<close>

definition diff_step :: "(nat list \<Rightarrow> string) \<Rightarrow> string \<Rightarrow> diff_parse \<Rightarrow> explainer_error + diff_parse" where
  "diff_step decode line s =
     (if starts_with line ''diff --git '' then open_file decode line s
      else case dp_file s of
        None \<Rightarrow> if js_trim line \<noteq> [] then Inl (ExplainerError ''Invalid frozen diff content'' 400) else Inr s
      | Some f \<Rightarrow>
          (case match_hunk line of
             Some ranges \<Rightarrow> open_hunk line ranges s
           | None \<Rightarrow>
               (case (dp_hunk s, content_type line) of
                  (Some h, Some ty) \<Rightarrow> Inr (push_line ty (tl line) h s)
                | _ \<Rightarrow>
                    (case header_line decode line f of
                       Inl e \<Rightarrow> Inl e
                     | Inr f' \<Rightarrow>
                         Inr (s\<lparr>dp_file := Some f',
                           dp_attached := dp_attached s \<and> \<not> (\<not> starts_with line ''--- '' \<and> \<not> starts_with line ''+++ '' \<and> binary_line line)\<rparr>)))))"

fun diff_lines :: "(nat list \<Rightarrow> string) \<Rightarrow> string list \<Rightarrow> diff_parse \<Rightarrow> explainer_error + diff_parse" where
  "diff_lines decode [] s = Inr s"
| "diff_lines decode (line # rest) s =
     (case diff_step decode line s of Inl e \<Rightarrow> Inl e | Inr s' \<Rightarrow> diff_lines decode rest s')"

definition start_parse :: diff_parse where
  "start_parse = \<lparr>dp_files = [], dp_warnings = [], dp_file = None, dp_hunk = None, dp_attached = False, dp_oldLine = 0, dp_newLine = 0\<rparr>"

definition parseFrozenDiff :: "(nat list \<Rightarrow> string) \<Rightarrow> string \<Rightarrow> explainer_error + DiffFile list \<times> string list" where
  "parseFrozenDiff decode diff =
     (if utf8_len diff > 16 * 1024 * 1024 \<or> CHR 0x00 \<in> set diff \<or> CHR 0x1B \<in> set diff
      then Inl (ExplainerError ''Invalid or oversized frozen diff'' 400)
      else case diff_lines decode (split_lines diff) start_parse of
        Inl e \<Rightarrow> Inl e
      | Inr s \<Rightarrow>
          let t = close_file (finishHunk s); files = dp_files t
          in if length files > 5000 \<or> \<not> distinct (map df_path files)
             then Inl (ExplainerError ''Invalid diff file count or duplicate paths'' 400)
             else Inr (files, dp_warnings t))"

record DiffTotals =
  dt_files :: nat
  dt_hunks :: nat
  dt_additions :: nat
  dt_deletions :: nat

definition summarizeDiff :: "DiffFile list \<Rightarrow> DiffTotals" where
  "summarizeDiff files =
     \<lparr>dt_files = length files, dt_hunks = sum_list (map (\<lambda>f. length (df_hunks f)) files),
      dt_additions = sum_list (map df_additions files), dt_deletions = sum_list (map df_deletions files)\<rparr>"

end
