(* ===== verification/Frozen_Diff_Properties.thy ===== *)
theory Frozen_Diff_Properties
  imports Frozen_Diff
begin

text \<open>
  What the reader of a frozen diff promises: every path it hands out has been checked, hunks are
  numbered as their headers say, additions and deletions are counted, a hunk that is not as long as
  announced is reported, and a diff in git's own form is read back as it was written.
\<close>

section \<open>What a parsed file satisfies\<close>

definition path_ok :: "string option \<Rightarrow> bool" where
  "path_ok p \<longleftrightarrow> (case p of None \<Rightarrow> True | Some q \<Rightarrow> \<not> unsafe_path q)"

definition paths_ok :: "DiffFile \<Rightarrow> bool" where
  "paths_ok f \<longleftrightarrow> (df_path f = [] \<or> \<not> unsafe_path (df_path f)) \<and> path_ok (df_oldPath f) \<and> path_ok (df_newPath f)"

text \<open>The \<open>i\<close>-th line has the number that the lines before it leave.\<close>

definition numbered :: "nat \<Rightarrow> nat \<Rightarrow> DiffLine list \<Rightarrow> bool" where
  "numbered old new ls \<longleftrightarrow> (\<forall>i < length ls.
      dl_oldLine (ls ! i) = (if dl_type (ls ! i) = line_add then None else Some (old + old_count (take i ls)))
    \<and> dl_newLine (ls ! i) = (if dl_type (ls ! i) = line_delete then None else Some (new + new_count (take i ls))))"

definition adds :: "DiffHunk \<Rightarrow> nat" where
  "adds h = length (filter (\<lambda>l. dl_type l = line_add) (dh_lines h))"

definition dels :: "DiffHunk \<Rightarrow> nat" where
  "dels h = length (filter (\<lambda>l. dl_type l = line_delete) (dh_lines h))"

definition hunk_numbered :: "DiffHunk \<Rightarrow> bool" where
  "hunk_numbered h \<longleftrightarrow> numbered (dh_oldStart h) (dh_newStart h) (dh_lines h)"

definition counted :: "DiffFile \<Rightarrow> DiffHunk list \<Rightarrow> bool" where
  "counted f hs \<longleftrightarrow> df_additions f = sum_list (map adds hs) \<and> df_deletions f = sum_list (map dels hs)"

definition file_ok :: "bool \<Rightarrow> DiffFile \<Rightarrow> bool" where
  "file_ok quiet f \<longleftrightarrow> paths_ok f \<and> (\<forall>h\<in>set (df_hunks f). hunk_numbered h \<and> (quiet \<longrightarrow> \<not> incomplete h))"

definition current_ok :: "diff_parse \<Rightarrow> DiffFile \<Rightarrow> bool" where
  "current_ok s f \<longleftrightarrow>
     (case dp_hunk s of
        None \<Rightarrow> \<not> df_binary f \<longrightarrow> counted f (df_hunks f)
      | Some h \<Rightarrow> hunk_numbered h \<and> dp_oldLine s = dh_oldStart h + old_count (dh_lines h)
          \<and> dp_newLine s = dh_newStart h + new_count (dh_lines h)
          \<and> (\<not> df_binary f \<longrightarrow> dp_attached s \<and> counted f (df_hunks f @ [h])))"

definition parse_ok :: "diff_parse \<Rightarrow> bool" where
  "parse_ok s \<longleftrightarrow>
     (\<forall>f\<in>set (dp_files s). file_ok (dp_warnings s = []) f \<and> (\<not> df_binary f \<longrightarrow> counted f (df_hunks f)))
   \<and> (case dp_file s of None \<Rightarrow> dp_hunk s = None | Some f \<Rightarrow> file_ok (dp_warnings s = []) f \<and> current_ok s f)"

lemma counts_snoc [simp]:
  "old_count (ls @ [l]) = old_count ls + of_bool (dl_type l \<noteq> line_add)"
  "new_count (ls @ [l]) = new_count ls + of_bool (dl_type l \<noteq> line_delete)"
  by (simp_all add: old_count_def new_count_def)

lemma numbered_snoc:
  "numbered old new (ls @ [l]) \<longleftrightarrow> numbered old new ls
    \<and> dl_oldLine l = (if dl_type l = line_add then None else Some (old + old_count ls))
    \<and> dl_newLine l = (if dl_type l = line_delete then None else Some (new + new_count ls))"
  by (auto simp: numbered_def All_less_Suc nth_append)

section \<open>Every step keeps it\<close>

lemma repoPath_ok: "repoPath p = Inr q \<Longrightarrow> q = p \<and> \<not> unsafe_path p"
  by (simp add: repoPath_def split: if_splits)

lemma map_sum_Inr: "map_sum id g x = Inr y \<longleftrightarrow> (\<exists>z. x = Inr z \<and> y = g z)"
  by (cases x) auto

lemma headerPath_ok:
  assumes "headerPath decode raw = Inr p"
  shows "path_ok p"
proof (cases "unquote decode raw")
  case (Inr v)
  with assms show ?thesis
    by (auto simp: headerPath_def path_ok_def map_sum_Inr split: if_splits dest: repoPath_ok)
qed (use assms in \<open>simp add: headerPath_def\<close>)

lemma checked_path_ok: "checked_path decode raw = Inr p \<Longrightarrow> \<not> unsafe_path p"
  by (auto simp: checked_path_def split: sum.splits dest: repoPath_ok)

lemma finish_none: "dp_hunk s = None \<Longrightarrow> finishHunk s = s"
  by (simp add: finishHunk_def)

lemma parse_hunk_file: "parse_ok s \<Longrightarrow> dp_hunk s = Some h \<Longrightarrow> \<exists>f. dp_file s = Some f"
  by (cases "dp_file s") (simp_all add: parse_ok_def)

text \<open>The file's checks do not get weaker when a warning is added.\<close>

lemma file_ok_loud: "file_ok q f \<Longrightarrow> (q' \<Longrightarrow> q) \<Longrightarrow> file_ok q' f"
  by (auto simp: file_ok_def)

lemma diff_finish_ok:
  assumes "parse_ok s" "dp_file s = Some f"
  obtains g where "dp_file (finishHunk s) = Some g" "parse_ok (finishHunk s)" "dp_hunk (finishHunk s) = None"
proof (cases "dp_hunk s")
  case None
  then show thesis using assms that by (simp add: finish_none)
next
  case (Some h)
  let ?g = "if dp_attached s then f\<lparr>df_hunks := df_hunks f @ [h]\<rparr> else f"
  let ?t = "finishHunk s"
  have t: "dp_hunk ?t = None" "dp_file ?t = Some ?g" "dp_files ?t = dp_files s"
    using Some assms(2) by (simp_all add: finishHunk_def)
  have w: "dp_warnings ?t = [] \<Longrightarrow> dp_warnings s = [] \<and> \<not> incomplete h"
    using Some by (auto simp: finishHunk_def split: if_splits)
  have f: "file_ok (dp_warnings s = []) f" "current_ok s f" using assms by (simp_all add: parse_ok_def)
  have "file_ok (dp_warnings ?t = []) ?g"
    using f w Some by (auto simp: file_ok_def paths_ok_def current_ok_def)
  moreover have "current_ok ?t ?g"
    using f(2) Some by (cases "dp_attached s") (auto simp: current_ok_def t counted_def)
  moreover have "file_ok (dp_warnings ?t = []) a \<and> (\<not> df_binary a \<longrightarrow> counted a (df_hunks a))" if "a \<in> set (dp_files s)" for a
    using assms(1) that w by (auto simp: parse_ok_def intro: file_ok_loud)
  ultimately have "parse_ok ?t" by (simp add: parse_ok_def t)
  with t that show thesis by blast
qed

lemma finish_no_file: "parse_ok s \<Longrightarrow> dp_file s = None \<Longrightarrow> finishHunk s = s"
  by (simp add: parse_ok_def finish_none)

lemma diff_close_ok:
  assumes "parse_ok s" "dp_hunk s = None"
  shows "parse_ok (close_file s) \<and> dp_file (close_file s) = None"
  using assms by (cases "dp_file s") (auto simp: close_file_def parse_ok_def current_ok_def)

lemma finish_close_ok:
  assumes "parse_ok s"
  shows "parse_ok (close_file (finishHunk s)) \<and> dp_file (close_file (finishHunk s)) = None \<and> dp_hunk (close_file (finishHunk s)) = None"
proof (cases "dp_file s")
  case None
  with assms have "finishHunk s = s" by (rule finish_no_file)
  then show ?thesis using None assms by (simp add: close_file_def parse_ok_def)
next
  case (Some f)
  from diff_finish_ok [OF assms this] obtain g where "dp_file (finishHunk s) = Some g" "parse_ok (finishHunk s)" "dp_hunk (finishHunk s) = None"
    by blast
  then show ?thesis using diff_close_ok [of "finishHunk s"] by (simp add: close_file_def)
qed

lemma open_file_ok:
  assumes "parse_ok s" "open_file decode line s = Inr t"
  shows "parse_ok t"
proof -
  let ?u = "close_file (finishHunk s)"
  obtain oldRaw newRaw oldPath newPath where p: "headerPath decode oldRaw = Inr oldPath" "headerPath decode newRaw = Inr newPath"
    and t: "t = ?u\<lparr>dp_file := Some
       \<lparr>df_path = (case newPath of Some p \<Rightarrow> p | None \<Rightarrow> case oldPath of Some p \<Rightarrow> p | None \<Rightarrow> []),
        df_oldPath = oldPath, df_newPath = newPath, df_status = file_modified, df_binary = False,
        df_hunks = [], df_additions = 0, df_deletions = 0\<rparr>\<rparr>"
    using assms(2) by (auto simp: open_file_def Let_def split: sum.splits)
  have "path_ok oldPath" "path_ok newPath" using p headerPath_ok by blast+
  then show ?thesis
    using finish_close_ok [OF assms(1)]
    by (auto simp: t parse_ok_def file_ok_def paths_ok_def current_ok_def counted_def path_ok_def split: option.splits)
qed

lemma open_hunk_ok:
  assumes "parse_ok s" "dp_file s = Some f" "open_hunk line ranges s = Inr t"
  shows "parse_ok t"
proof -
  from diff_finish_ok [OF assms(1,2)] obtain g where
    g: "dp_file (finishHunk s) = Some g" "parse_ok (finishHunk s)" "dp_hunk (finishHunk s) = None" .
  obtain a b c d where r: "ranges = ((a, b), (c, d))" by (metis surj_pair)
  then show ?thesis
    using assms(3) g
    by (auto simp: open_hunk_def parse_ok_def current_ok_def hunk_numbered_def numbered_def counted_def adds_def dels_def
        old_count_def new_count_def split: if_splits)
qed

lemma push_line_ok:
  assumes "parse_ok s" "dp_file s = Some f" "dp_hunk s = Some h"
  shows "parse_ok (push_line ty body h s)"
proof -
  have f: "file_ok (dp_warnings s = []) f" "current_ok s f" using assms by (simp_all add: parse_ok_def)
  show ?thesis
    using assms f
    by (cases ty) (auto simp: push_line_def Let_def parse_ok_def file_ok_def paths_ok_def current_ok_def hunk_numbered_def
        numbered_snoc counted_def adds_def dels_def)
qed

lemma diff_extended_ok:
  assumes "file_ok q f" "extended_line decode line f = Inr g"
  shows "file_ok q g \<and> df_hunks g = df_hunks f \<and> df_binary g = df_binary f \<and> df_additions g = df_additions f \<and> df_deletions g = df_deletions f"
  using assms
  by (auto simp: extended_line_def with_path_def map_sum_Inr file_ok_def paths_ok_def path_ok_def dest: checked_path_ok split: if_splits)

lemma header_line_ok:
  assumes "file_ok q f" "header_line decode line f = Inr g"
  shows "file_ok q g \<and> (df_binary f \<longrightarrow> df_binary g)
    \<and> (\<not> df_binary g \<longrightarrow> df_hunks g = df_hunks f \<and> df_additions g = df_additions f \<and> df_deletions g = df_deletions f
         \<and> \<not> (\<not> starts_with line ''--- '' \<and> \<not> starts_with line ''+++ '' \<and> binary_line line))"
proof -
  consider (old) "starts_with line ''--- ''" | (new) "\<not> starts_with line ''--- ''" "starts_with line ''+++ ''"
    | (other) "\<not> starts_with line ''--- ''" "\<not> starts_with line ''+++ ''" by blast
  then show ?thesis
  proof cases
    case old
    then obtain p where "headerPath decode (drop 4 line) = Inr p" "g = f\<lparr>df_oldPath := p\<rparr>"
      using assms(2) by (auto simp: header_line_def map_sum_Inr)
    with assms(1) old headerPath_ok show ?thesis by (auto simp: file_ok_def paths_ok_def)
  next
    case new
    then obtain p where "headerPath decode (drop 4 line) = Inr p"
      and g: "g = f\<lparr>df_newPath := p, df_path := (case p of Some q \<Rightarrow> q | None \<Rightarrow> case df_oldPath f of Some q \<Rightarrow> q | None \<Rightarrow> df_path f)\<rparr>"
      using assms(2) by (auto simp: header_line_def map_sum_Inr)
    then have "path_ok p" using headerPath_ok by blast
    with assms(1) new g show ?thesis by (auto simp: file_ok_def paths_ok_def path_ok_def split: option.splits)
  next
    case other
    then obtain e where e: "extended_line decode line f = Inr e"
      and g: "g = (if binary_line line then e\<lparr>df_binary := True, df_hunks := []\<rparr> else e)"
      using assms(2) by (auto simp: header_line_def map_sum_Inr)
    from diff_extended_ok [OF assms(1) e] other g show ?thesis by (auto simp: file_ok_def paths_ok_def)
  qed
qed

lemma diff_step_ok:
  assumes "parse_ok s" "diff_step decode line s = Inr t"
  shows "parse_ok t"
proof (cases "starts_with line ''diff --git ''")
  case True
  then show ?thesis using assms open_file_ok by (simp add: diff_step_def)
next
  case False
  show ?thesis
  proof (cases "dp_file s")
    case None
    then show ?thesis using assms False by (auto simp: diff_step_def split: if_splits)
  next
    case (Some f)
    show ?thesis
    proof (cases "match_hunk line")
      case (Some ranges)
      then show ?thesis using assms False \<open>dp_file s = Some f\<close> open_hunk_ok by (simp add: diff_step_def)
    next
      case None
      show ?thesis
      proof (cases "dp_hunk s \<noteq> None \<and> content_type line \<noteq> None")
        case True
        then obtain h ty where "dp_hunk s = Some h" "content_type line = Some ty" by auto
        then show ?thesis using assms False \<open>dp_file s = Some f\<close> None push_line_ok by (auto simp: diff_step_def)
      next
        case header: False
        let ?binary = "\<not> starts_with line ''--- '' \<and> \<not> starts_with line ''+++ '' \<and> binary_line line"
        obtain g where g: "header_line decode line f = Inr g"
          and t: "t = s\<lparr>dp_file := Some g, dp_attached := dp_attached s \<and> \<not> ?binary\<rparr>"
          using assms(2) False \<open>dp_file s = Some f\<close> None header
          by (auto simp: diff_step_def split: option.splits sum.splits)
        have f: "file_ok (dp_warnings s = []) f" "current_ok s f" using assms(1) \<open>dp_file s = Some f\<close> by (simp_all add: parse_ok_def)
        note h = header_line_ok [OF f(1) g]
        have "current_ok t g"
          using f(2) h by (cases "dp_hunk s") (auto simp: current_ok_def t counted_def)
        then show ?thesis using assms(1) h by (simp add: parse_ok_def t)
      qed
    qed
  qed
qed

lemma diff_lines_ok: "parse_ok s \<Longrightarrow> diff_lines decode ls s = Inr t \<Longrightarrow> parse_ok t"
  by (induction ls arbitrary: s) (auto split: sum.splits dest: diff_step_ok)

lemma start_parse_ok: "parse_ok start_parse"
  by (simp add: start_parse_def parse_ok_def)

lemma parsed_files:
  assumes "parseFrozenDiff decode diff = Inr (files, warnings)"
  shows "\<forall>f\<in>set files. file_ok (warnings = []) f \<and> (\<not> df_binary f \<longrightarrow> counted f (df_hunks f))"
    "distinct (map df_path files)" "length files \<le> 5000"
proof -
  obtain s where s: "diff_lines decode (split_lines diff) start_parse = Inr s"
    and f: "files = dp_files (close_file (finishHunk s))" "warnings = dp_warnings (close_file (finishHunk s))"
    using assms by (auto simp: parseFrozenDiff_def Let_def split: if_splits sum.splits)
  have "parse_ok s" using diff_lines_ok [OF start_parse_ok s] .
  from finish_close_ok [OF this] show "\<forall>f\<in>set files. file_ok (warnings = []) f \<and> (\<not> df_binary f \<longrightarrow> counted f (df_hunks f))"
    by (simp add: f parse_ok_def)
  show "distinct (map df_path files)" "length files \<le> 5000"
    using assms by (auto simp: parseFrozenDiff_def Let_def split: if_splits sum.splits)
qed

section \<open>Splitting a header\<close>

lemma starts_with_append [simp]: "starts_with (t @ s) t"
  by (simp add: starts_with_def)

lemma index_of_found: "index_of t s = Some k \<Longrightarrow> starts_with (drop k s) t"
  by (induction s arbitrary: k) (auto simp: starts_with_def split: if_splits)

lemma index_of_first: "j \<le> length s \<Longrightarrow> starts_with (drop j s) t \<Longrightarrow> \<exists>k\<le>j. index_of t s = Some k"
proof (induction s arbitrary: j)
  case Nil
  then show ?case by (simp add: starts_with_def)
next
  case (Cons c s)
  show ?case
  proof (cases "starts_with (c # s) t")
    case False
    with Cons.prems obtain i where "j = Suc i" by (cases j) auto
    with Cons obtain k where "k \<le> i" "index_of t s = Some k" by auto
    with False \<open>j = Suc i\<close> show ?thesis by auto
  qed simp
qed

lemma index_of_none: "c \<in> set t \<Longrightarrow> c \<notin> set s \<Longrightarrow> index_of t s = None"
proof (induction s)
  case (Cons d s)
  have "\<not> starts_with (d # s) t"
  proof
    assume "starts_with (d # s) t"
    then have "t = take (length t) (d # s)" by (simp add: starts_with_def)
    then have "set t \<subseteq> set (d # s)" by (metis set_take_subset)
    with Cons.prems show False by auto
  qed
  with Cons show ?case by simp
qed auto

lemma split_same_name:
  assumes "rest = name @ '' b/'' @ name" "start \<le> length name" "\<not> starts_with rest '' b/''"
  shows "split_scan rest start fallback = Inr (''a/'' @ name, ''b/'' @ name)"
  using assms(2)
proof (induction "length name - start" arbitrary: start fallback rule: less_induct)
  case less
  have "starts_with (drop (length name - start) (drop start rest)) '' b/''"
    using less.prems by (simp add: assms(1) starts_with_def)
  moreover have "length name - start \<le> length (drop start rest)" using less.prems by (simp add: assms(1))
  ultimately obtain k where k: "k \<le> length name - start" "index_of '' b/'' (drop start rest) = Some k"
    using index_of_first by blast
  define at where "at = k + start"
  have at: "index_from '' b/'' rest start = Some at" "at \<le> length name" "start \<le> at"
    using k less.prems by (simp_all add: index_from_def at_def)
  have nonzero: "at \<noteq> 0"
  proof
    assume "at = 0"
    with index_of_found [OF k(2)] have "starts_with rest '' b/''" by (simp add: at_def)
    with assms(3) show False by contradiction
  qed
  have long: "start < length rest" using less.prems by (simp add: assms(1))
  show ?case
  proof (cases "drop (at + 3) rest = take at rest")
    case True
    then have "length (drop (at + 3) rest) = length (take at rest)" by simp
    then have "at = length name" using at(2) by (simp add: assms(1))
    then have "take at rest = name" by (simp add: assms(1))
    with True show ?thesis using at nonzero long by (simp add: split_scan.simps [of rest start])
  next
    case False
    have "at \<noteq> length name" using False by (auto simp: assms(1))
    then have "at + 1 \<le> length name" using at(2) by simp
    moreover have "length name - (at + 1) < length name - start" using at(3) calculation by simp
    ultimately have "split_scan rest (at + 1) fb = Inr (''a/'' @ name, ''b/'' @ name)" for fb
      using less.hyps by simp
    then show ?thesis using at nonzero long False by (simp add: split_scan.simps [of rest start] Let_def)
  qed
qed

lemma header_split_exact_aux:
  assumes "name \<noteq> []" "quote_mark \<notin> set name" "\<not> starts_with name '' b/''"
  shows "splitDiffGitPaths (''a/'' @ name @ '' b/'' @ name) = Inr (''a/'' @ name, ''b/'' @ name)"
proof -
  have "\<not> starts_with (name @ '' b/'' @ name) '' b/''"
  proof
    assume "starts_with (name @ '' b/'' @ name) '' b/''"
    then have a: "take 3 (name @ '' b/'' @ name) = '' b/''" by (simp add: starts_with_def numeral_3_eq_3)
    obtain c cs where name: "name = c # cs" using assms(1) by (cases name) auto
    show False
    proof (cases "length name \<ge> 3")
      case True
      with a assms(3) show False by (simp add: starts_with_def numeral_3_eq_3)
    next
      case False
      then show False using a name by (cases cs) (auto simp: take_Cons')
    qed
  qed
  from split_same_name [OF refl _ this, of 0 None] have "split_scan (name @ '' b/'' @ name) 0 None = Inr (''a/'' @ name, ''b/'' @ name)"
    by simp
  moreover have "index_of [CHR '' '', quote_mark] (''a/'' @ name @ '' b/'' @ name) = None"
    using assms(2) by (intro index_of_none [of quote_mark]) auto
  ultimately show ?thesis by (simp add: splitDiffGitPaths_def starts_with_def)
qed

section \<open>Git's own form\<close>

definition print_range :: "nat \<Rightarrow> nat \<Rightarrow> string" where
  "print_range first k = show_nat first @ '','' @ show_nat k"

definition print_header :: "DiffHunk \<Rightarrow> string" where
  "print_header h = ''@@ -'' @ print_range (dh_oldStart h) (dh_oldLines h) @ '' +'' @ print_range (dh_newStart h) (dh_newLines h) @ '' @@''"

definition print_line :: "DiffLine \<Rightarrow> string" where
  "print_line l = (case dl_type l of line_add \<Rightarrow> CHR ''+'' | line_delete \<Rightarrow> CHR ''-'' | line_context \<Rightarrow> CHR '' '') # dl_text l"

definition print_hunk :: "DiffHunk \<Rightarrow> string list" where
  "print_hunk h = print_header h # map print_line (dh_lines h)"

definition print_file :: "DiffFile \<Rightarrow> string list" where
  "print_file f =
     [''diff --git a/'' @ df_path f @ '' b/'' @ df_path f, ''--- a/'' @ df_path f, ''+++ b/'' @ df_path f]
     @ concat (map print_hunk (df_hunks f))"

definition print_diff :: "DiffFile list \<Rightarrow> string" where
  "print_diff fs = join [line_feed] (concat (map print_file fs))"

definition plain_hunk :: "DiffHunk \<Rightarrow> bool" where
  "plain_hunk h \<longleftrightarrow> dh_header h = print_header h \<and> hunk_numbered h \<and> \<not> incomplete h
    \<and> dh_oldStart h \<le> 10000000 \<and> dh_oldLines h \<le> 10000000 \<and> dh_newStart h \<le> 10000000 \<and> dh_newLines h \<le> 10000000
    \<and> (\<forall>l\<in>set (dh_lines h). line_feed \<notin> set (dl_text l))"

definition plain_file :: "DiffFile \<Rightarrow> bool" where
  "plain_file f \<longleftrightarrow> \<not> unsafe_path (df_path f) \<and> quote_mark \<notin> set (df_path f) \<and> \<not> starts_with (df_path f) '' b/''
    \<and> df_oldPath f = Some (df_path f) \<and> df_newPath f = Some (df_path f) \<and> df_status f = file_modified \<and> \<not> df_binary f
    \<and> counted f (df_hunks f) \<and> (\<forall>h\<in>set (df_hunks f). plain_hunk h)"

lemma take_number_show:
  assumes "\<And>c t. rest = c # t \<Longrightarrow> \<not> is_digit c"
  shows "take_number (show_nat n @ rest) = Some (n, rest)"
proof -
  have "takeWhile is_digit (show_nat n @ rest) = show_nat n" "dropWhile is_digit (show_nat n @ rest) = rest"
    using show_nat_digits [of n] assms by (cases rest; simp add: list_all_iff takeWhile_append dropWhile_append)+
  then show ?thesis by (simp add: take_number_def show_nat_digits)
qed

lemma take_range_print:
  assumes "\<And>c t. rest = c # t \<Longrightarrow> \<not> is_digit c"
  shows "take_range (print_range a b @ rest) = Some ((a, b), rest)"
proof -
  have "take_number (show_nat a @ '','' @ show_nat b @ rest) = Some (a, '','' @ show_nat b @ rest)"
    by (rule take_number_show) (auto simp: is_digit_def)
  moreover have "take_number (show_nat b @ rest) = Some (b, rest)" using assms by (rule take_number_show)
  ultimately show ?thesis by (simp add: take_range_def print_range_def take_count_def starts_with_def)
qed

lemma match_header: "match_hunk (print_header h) = Some ((dh_oldStart h, dh_oldLines h), (dh_newStart h, dh_newLines h))"
proof -
  have "take_range (print_range (dh_newStart h) (dh_newLines h) @ '' @@'') = Some ((dh_newStart h, dh_newLines h), '' @@'')"
    by (rule take_range_print) (auto simp: is_digit_def)
  moreover have "take_range (print_range (dh_oldStart h) (dh_oldLines h) @ '' +'' @ print_range (dh_newStart h) (dh_newLines h) @ '' @@'')
      = Some ((dh_oldStart h, dh_oldLines h), '' +'' @ print_range (dh_newStart h) (dh_newLines h) @ '' @@'')"
    by (rule take_range_print) (auto simp: is_digit_def)
  ultimately show ?thesis by (simp add: match_hunk_def print_header_def starts_with_def)
qed

section \<open>Reading it back\<close>

lemma print_line_step:
  assumes "dp_file s = Some f" "dp_hunk s = Some h"
  shows "diff_step decode (print_line l) s = Inr (push_line (dl_type l) (dl_text l) h s)"
  using assms by (cases "dl_type l") (simp_all add: diff_step_def print_line_def starts_with_def match_hunk_def)

text \<open>The state after the lines of a hunk.\<close>

lemma print_lines_read:
  assumes "dp_file s = Some f" "dp_hunk s = Some h" "numbered (dp_oldLine s) (dp_newLine s) ls"
  shows "\<exists>t. diff_lines decode (map print_line ls @ rest) s = diff_lines decode rest t
    \<and> dp_files t = dp_files s \<and> dp_warnings t = dp_warnings s \<and> dp_attached t = dp_attached s
    \<and> dp_hunk t = Some (h\<lparr>dh_lines := dh_lines h @ ls\<rparr>)
    \<and> dp_file t = Some (f\<lparr>df_additions := df_additions f + length (filter (\<lambda>l. dl_type l = line_add) ls),
        df_deletions := df_deletions f + length (filter (\<lambda>l. dl_type l = line_delete) ls)\<rparr>)"
  using assms
proof (induction ls arbitrary: s f h)
  case Nil
  then show ?case by (intro exI [of _ s]) simp
next
  case (Cons l ls)
  let ?u = "push_line (dl_type l) (dl_text l) h s"
  have first: "dl_oldLine l = (if dl_type l = line_add then None else Some (dp_oldLine s))"
    "dl_newLine l = (if dl_type l = line_delete then None else Some (dp_newLine s))"
    using Cons.prems(3) by (auto simp: numbered_def old_count_def new_count_def)
  have eta: "\<lparr>dl_type = dl_type l, dl_text = dl_text l, dl_oldLine = dl_oldLine l, dl_newLine = dl_newLine l\<rparr> = l" by simp
  have rest: "numbered (dp_oldLine ?u) (dp_newLine ?u) ls"
    unfolding numbered_def
  proof (intro allI impI)
    fix i assume "i < length ls"
    then have "Suc i < length (l # ls)" by simp
    with Cons.prems(3)
    have "dl_oldLine ((l # ls) ! Suc i) = (if dl_type ((l # ls) ! Suc i) = line_add then None else Some (dp_oldLine s + old_count (take (Suc i) (l # ls))))
      \<and> dl_newLine ((l # ls) ! Suc i) = (if dl_type ((l # ls) ! Suc i) = line_delete then None else Some (dp_newLine s + new_count (take (Suc i) (l # ls))))"
      unfolding numbered_def by blast
    then show "dl_oldLine (ls ! i) = (if dl_type (ls ! i) = line_add then None else Some (dp_oldLine ?u + old_count (take i ls)))
      \<and> dl_newLine (ls ! i) = (if dl_type (ls ! i) = line_delete then None else Some (dp_newLine ?u + new_count (take i ls)))"
      by (cases "dl_type l") (simp_all add: push_line_def Let_def old_count_def new_count_def)
  qed
  have u: "dp_hunk ?u = Some (h\<lparr>dh_lines := dh_lines h @ [l]\<rparr>)"
    "dp_file ?u = Some (f\<lparr>df_additions := df_additions f + of_bool (dl_type l = line_add),
       df_deletions := df_deletions f + of_bool (dl_type l = line_delete)\<rparr>)"
    "dp_files ?u = dp_files s" "dp_warnings ?u = dp_warnings s" "dp_attached ?u = dp_attached s"
    using Cons.prems(1) first [symmetric] by (simp_all add: push_line_def Let_def eta)
  from Cons.IH [OF u(2,1) rest] show ?case
    using print_line_step [OF Cons.prems(1,2), of decode l] by (auto simp: u add_ac)
qed

text \<open>What a state amounts to when its hunk is finished.\<close>

definition reads :: "diff_parse \<Rightarrow> DiffFile list \<Rightarrow> DiffFile \<Rightarrow> bool" where
  "reads s fs f \<longleftrightarrow> (let u = finishHunk s in dp_files u = fs \<and> dp_warnings u = [] \<and> dp_file u = Some f)"

lemma reads_file: "reads s fs f \<Longrightarrow> \<exists>g. dp_file s = Some g"
  by (cases "dp_file s") (auto simp: reads_def finishHunk_def Let_def split: option.splits if_splits)

lemma hunk_read:
  assumes "reads s fs f" "plain_hunk h"
  shows "\<exists>t. diff_lines decode (print_hunk h @ rest) s = diff_lines decode rest t
    \<and> reads t fs (f\<lparr>df_hunks := df_hunks f @ [h], df_additions := df_additions f + adds h, df_deletions := df_deletions f + dels h\<rparr>)"
proof -
  let ?u = "finishHunk s"
  let ?h0 = "h\<lparr>dh_lines := []\<rparr>"
  let ?v = "?u\<lparr>dp_hunk := Some ?h0, dp_attached := True, dp_oldLine := dh_oldStart h, dp_newLine := dh_newStart h\<rparr>"
  obtain g where g: "dp_file s = Some g" using reads_file [OF assms(1)] by blast
  have bounds: "\<not> list_ex (\<lambda>n. n > 10000000) [dh_oldStart h, dh_oldLines h, dh_newStart h, dh_newLines h]"
    using assms(2) by (simp add: plain_hunk_def)
  have header: "dh_header h = print_header h" using assms(2) by (simp add: plain_hunk_def)
  have h0: "\<lparr>dh_oldStart = dh_oldStart h, dh_oldLines = dh_oldLines h, dh_newStart = dh_newStart h,
      dh_newLines = dh_newLines h, dh_header = print_header h, dh_lines = []\<rparr> = ?h0"
    by (simp add: header [symmetric])
  have not_diff: "\<not> starts_with (print_header h) ''diff --git ''" by (simp add: print_header_def starts_with_def)
  have opened: "diff_step decode (print_header h) s = Inr ?v"
    using bounds by (simp add: diff_step_def not_diff g match_header open_hunk_def h0)
  have v: "dp_file ?v = Some f" "dp_hunk ?v = Some ?h0" "numbered (dp_oldLine ?v) (dp_newLine ?v) (dh_lines h)"
    using assms by (simp_all add: reads_def Let_def plain_hunk_def hunk_numbered_def)
  from print_lines_read [OF this, of decode rest] obtain t where
    t: "diff_lines decode (map print_line (dh_lines h) @ rest) ?v = diff_lines decode rest t"
      "dp_files t = dp_files ?v" "dp_warnings t = dp_warnings ?v" "dp_attached t = dp_attached ?v"
      "dp_hunk t = Some (?h0\<lparr>dh_lines := dh_lines ?h0 @ dh_lines h\<rparr>)"
      "dp_file t = Some (f\<lparr>df_additions := df_additions f + length (filter (\<lambda>l. dl_type l = line_add) (dh_lines h)),
          df_deletions := df_deletions f + length (filter (\<lambda>l. dl_type l = line_delete) (dh_lines h))\<rparr>)"
    by blast
  have "?h0\<lparr>dh_lines := dh_lines ?h0 @ dh_lines h\<rparr> = h" by simp
  then have "reads t fs (f\<lparr>df_hunks := df_hunks f @ [h], df_additions := df_additions f + adds h, df_deletions := df_deletions f + dels h\<rparr>)"
    using assms t by (simp add: reads_def Let_def finishHunk_def [of t] plain_hunk_def adds_def dels_def)
  moreover have "diff_lines decode (print_hunk h @ rest) s = diff_lines decode rest t"
    using t(1) opened by (simp add: print_hunk_def)
  ultimately show ?thesis by blast
qed

lemma hunks_read:
  assumes "reads s fs f" "\<forall>h\<in>set hs. plain_hunk h"
  shows "\<exists>t. diff_lines decode (concat (map print_hunk hs) @ rest) s = diff_lines decode rest t
    \<and> reads t fs (f\<lparr>df_hunks := df_hunks f @ hs, df_additions := df_additions f + sum_list (map adds hs),
         df_deletions := df_deletions f + sum_list (map dels hs)\<rparr>)"
  using assms
proof (induction hs arbitrary: s f)
  case Nil
  then show ?case by (intro exI [of _ s]) simp
next
  case (Cons h hs)
  from hunk_read [OF Cons.prems(1), of h decode "concat (map print_hunk hs) @ rest"] Cons.prems(2)
  obtain t where t: "diff_lines decode (print_hunk h @ concat (map print_hunk hs) @ rest) s = diff_lines decode (concat (map print_hunk hs) @ rest) t"
    "reads t fs (f\<lparr>df_hunks := df_hunks f @ [h], df_additions := df_additions f + adds h, df_deletions := df_deletions f + dels h\<rparr>)"
    by auto
  from Cons.IH [OF t(2)] Cons.prems(2) t(1) show ?case by (simp add: add.assoc)
qed

lemma safe_no_tab: "\<not> unsafe_path p \<Longrightarrow> tab \<notin> set p \<and> line_feed \<notin> set p \<and> p \<noteq> []"
  by (auto simp: unsafe_path_def list_ex_iff control_char_def)

lemma side_path:
  assumes "\<not> unsafe_path p" "side = ''a/'' \<or> side = ''b/''"
  shows "headerPath decode (side @ p) = Inr (Some p)"
proof -
  have "takeWhile (\<lambda>c. c \<noteq> tab) (side @ p) = side @ p"
    using safe_no_tab [OF assms(1)] assms(2) by (auto simp: takeWhile_eq_all_conv)
  moreover have "\<not> starts_with (side @ p) [quote_mark]"
    using assms(2) by (elim disjE) (simp_all add: starts_with_def)
  ultimately have "unquote decode (side @ p) = Inr (side @ p)" by (simp only: unquote_def if_True not_False_eq_True)
  moreover have "strip_side (side @ p) = p" "side @ p \<noteq> ''/dev/null''"
    using assms(2) by (elim disjE; simp add: strip_side_def starts_with_def)+
  ultimately show ?thesis using assms(1) by (simp add: headerPath_def repoPath_def)
qed

lemma side_line:
  assumes "dp_file s = Some f" "dp_hunk s = None" "\<not> unsafe_path (df_path f)"
    "df_oldPath f = Some (df_path f)" "df_newPath f = Some (df_path f)"
  shows "diff_step decode (''--- a/'' @ df_path f) s = Inr s" "diff_step decode (''+++ b/'' @ df_path f) s = Inr s"
proof -
  have same: "f\<lparr>df_oldPath := Some (df_path f)\<rparr> = f" using assms(4) by (cases f) simp
  have same': "f\<lparr>df_newPath := Some (df_path f), df_path := df_path f\<rparr> = f" using assms(5) by (cases f) simp
  have same_s: "s\<lparr>dp_file := Some f, dp_attached := dp_attached s\<rparr> = s" using assms(1) by (cases s) simp
  have old: "headerPath decode (''a/'' @ df_path f) = Inr (Some (df_path f))" and new: "headerPath decode (''b/'' @ df_path f) = Inr (Some (df_path f))"
    by (rule side_path [OF assms(3)]; simp)+
  show "diff_step decode (''--- a/'' @ df_path f) s = Inr s"
    using assms(1,2) old same same_s by (simp add: diff_step_def starts_with_def match_hunk_def header_line_def)
  show "diff_step decode (''+++ b/'' @ df_path f) s = Inr s"
    using assms(1,2) new same' same_s by (simp add: diff_step_def starts_with_def match_hunk_def header_line_def)
qed

lemma file_read:
  assumes "dp_files (close_file (finishHunk s)) = fs" "dp_warnings (close_file (finishHunk s)) = []" "plain_file f"
  shows "\<exists>t. diff_lines decode (print_file f @ rest) s = diff_lines decode rest t
    \<and> dp_files (close_file (finishHunk t)) = fs @ [f] \<and> dp_warnings (close_file (finishHunk t)) = []"
proof -
  let ?p = "df_path f"
  let ?u = "close_file (finishHunk s)"
  let ?f0 = "\<lparr>df_path = ?p, df_oldPath = Some ?p, df_newPath = Some ?p, df_status = file_modified, df_binary = False,
    df_hunks = [], df_additions = 0, df_deletions = 0\<rparr>"
  let ?t = "?u\<lparr>dp_file := Some ?f0\<rparr>"
  have plain: "\<not> unsafe_path ?p" "quote_mark \<notin> set ?p" "\<not> starts_with ?p '' b/''" using assms(3) by (simp_all add: plain_file_def)
  have split: "splitDiffGitPaths (''a/'' @ ?p @ '' b/'' @ ?p) = Inr (''a/'' @ ?p, ''b/'' @ ?p)"
    using header_split_exact_aux plain safe_no_tab by blast
  have old: "headerPath decode (''a/'' @ ?p) = Inr (Some ?p)" and new: "headerPath decode (''b/'' @ ?p) = Inr (Some ?p)"
    by (rule side_path [OF plain(1)]; simp)+
  have 1: "diff_step decode (''diff --git a/'' @ ?p @ '' b/'' @ ?p) s = Inr ?t"
    using split old new by (simp add: diff_step_def starts_with_def open_file_def Let_def)
  have none: "dp_hunk ?t = None"
    by (simp add: close_file_def finishHunk_def split: option.split)
  have 2: "diff_step decode (''--- a/'' @ ?p) ?t = Inr ?t" "diff_step decode (''+++ b/'' @ ?p) ?t = Inr ?t"
    using side_line [of ?t ?f0 decode] none plain(1) by simp_all
  have "reads ?t fs ?f0" using none assms(1,2) by (simp add: reads_def finish_none)
  from hunks_read [OF this, of "df_hunks f" decode rest] assms(3) obtain t where
    t: "diff_lines decode (concat (map print_hunk (df_hunks f)) @ rest) ?t = diff_lines decode rest t"
      "reads t fs (?f0\<lparr>df_hunks := df_hunks ?f0 @ df_hunks f, df_additions := df_additions ?f0 + sum_list (map adds (df_hunks f)),
         df_deletions := df_deletions ?f0 + sum_list (map dels (df_hunks f))\<rparr>)"
    by (auto simp: plain_file_def)
  have "?f0\<lparr>df_hunks := df_hunks ?f0 @ df_hunks f, df_additions := df_additions ?f0 + sum_list (map adds (df_hunks f)),
         df_deletions := df_deletions ?f0 + sum_list (map dels (df_hunks f))\<rparr> = f"
    using assms(3) by (cases f) (simp add: plain_file_def counted_def)
  with t(2) have "reads t fs f" by simp
  then have "dp_files (close_file (finishHunk t)) = fs @ [f]" "dp_warnings (close_file (finishHunk t)) = []"
    by (simp_all add: reads_def Let_def close_file_def)
  moreover have "diff_lines decode (print_file f @ rest) s = diff_lines decode rest t"
    using 1 2 t(1) by (simp add: print_file_def)
  ultimately show ?thesis by blast
qed

lemma files_read:
  assumes "dp_files (close_file (finishHunk s)) = fs" "dp_warnings (close_file (finishHunk s)) = []" "\<forall>f\<in>set gs. plain_file f"
  shows "\<exists>t. diff_lines decode (concat (map print_file gs)) s = Inr t
    \<and> dp_files (close_file (finishHunk t)) = fs @ gs \<and> dp_warnings (close_file (finishHunk t)) = []"
  using assms
proof (induction gs arbitrary: s fs)
  case (Cons g gs)
  from file_read [OF Cons.prems(1,2), of g decode "concat (map print_file gs)"] Cons.prems(3)
  obtain t where t: "diff_lines decode (print_file g @ concat (map print_file gs)) s = diff_lines decode (concat (map print_file gs)) t"
    "dp_files (close_file (finishHunk t)) = fs @ [g]" "dp_warnings (close_file (finishHunk t)) = []"
    by auto
  from Cons.IH [OF t(2,3)] Cons.prems(3) t(1) show ?case by simp
qed simp

lemma split_lines_plain: "line_feed \<notin> set l \<Longrightarrow> split_lines l = [l]"
  by (induction l) auto

lemma split_lines_append: "line_feed \<notin> set l \<Longrightarrow> split_lines (l @ line_feed # s) = l # split_lines s"
  by (induction l) auto

lemma split_lines_join: "\<forall>l\<in>set ls. line_feed \<notin> set l \<Longrightarrow> ls \<noteq> [] \<Longrightarrow> split_lines (join [line_feed] ls) = ls"
  by (induction "[line_feed]" ls rule: join.induct) (simp_all add: split_lines_plain split_lines_append)

lemma show_nat_plain: "line_feed \<notin> set (show_nat n)"
  using show_nat_digits(1) [of n] by (auto simp: list_all_iff is_digit_def)

lemma line_feed_char: "line_feed = CHR 0x0A"
  by code_simp

lemma print_plain: "plain_file f \<Longrightarrow> l \<in> set (print_file f) \<Longrightarrow> line_feed \<notin> set l"
  using safe_no_tab [of "df_path f"] show_nat_plain unfolding line_feed_char
  by (auto simp: plain_file_def print_file_def print_hunk_def plain_hunk_def print_header_def print_range_def print_line_def
      line_feed_char split: line_type.splits)

lemma plain_diff_read:
  assumes "\<forall>f\<in>set files. plain_file f" "distinct (map df_path files)" "length files \<le> 5000"
    and "utf8_len (print_diff files) \<le> 16 * 1024 * 1024" "CHR 0x00 \<notin> set (print_diff files)" "CHR 0x1B \<notin> set (print_diff files)"
  shows "parseFrozenDiff decode (print_diff files) = Inr (files, [])"
proof -
  have "\<exists>t. diff_lines decode (split_lines (print_diff files)) start_parse = Inr t
    \<and> dp_files (close_file (finishHunk t)) = files \<and> dp_warnings (close_file (finishHunk t)) = []"
  proof (cases "concat (map print_file files) = []")
    case True
    then have "files = []" by (cases files) (simp_all add: print_file_def)
    then show ?thesis
      by (simp add: print_diff_def diff_step_def starts_with_def start_parse_def js_trim_def close_file_def finishHunk_def)
  next
    case False
    have "\<forall>l\<in>set (concat (map print_file files)). line_feed \<notin> set l" using assms(1) print_plain by auto
    with False have lines: "split_lines (print_diff files) = concat (map print_file files)"
      by (simp add: print_diff_def split_lines_join)
    have "dp_files (close_file (finishHunk start_parse)) = []" "dp_warnings (close_file (finishHunk start_parse)) = []"
      by (simp_all add: start_parse_def close_file_def finishHunk_def)
    from files_read [OF this assms(1), of decode] show ?thesis unfolding lines by simp
  qed
  then obtain t where t: "diff_lines decode (split_lines (print_diff files)) start_parse = Inr t"
    "dp_files (close_file (finishHunk t)) = files" "dp_warnings (close_file (finishHunk t)) = []" by blast
  have "\<not> (utf8_len (print_diff files) > 16 * 1024 * 1024 \<or> CHR 0x00 \<in> set (print_diff files) \<or> CHR 0x1B \<in> set (print_diff files))"
    using assms(4-6) by (simp only: not_less) simp
  then show ?thesis using t assms(2,3) unfolding parseFrozenDiff_def by (simp add: Let_def)
qed


definition sample_hunk :: DiffHunk where
  "sample_hunk = \<lparr>dh_oldStart = 7, dh_oldLines = 2, dh_newStart = 7, dh_newLines = 2, dh_header = ''@@ -7,2 +7,2 @@'',
     dh_lines = [\<lparr>dl_type = line_context, dl_text = ''x'', dl_oldLine = Some 7, dl_newLine = Some 7\<rparr>,
                 \<lparr>dl_type = line_delete, dl_text = ''y'', dl_oldLine = Some 8, dl_newLine = None\<rparr>,
                 \<lparr>dl_type = line_add, dl_text = ''z'', dl_oldLine = None, dl_newLine = Some 8\<rparr>]\<rparr>"

definition sample_file :: "string \<Rightarrow> DiffFile" where
  "sample_file path = \<lparr>df_path = path, df_oldPath = Some path, df_newPath = Some path, df_status = file_modified,
     df_binary = False, df_hunks = [sample_hunk], df_additions = 1, df_deletions = 1\<rparr>"

lemma sample_digits: "show_nat 7 = ''7''" "show_nat 2 = ''2''"
  by (code_simp, code_simp)

lemma sample_numbered: "numbered 7 7 (dh_lines sample_hunk)"
  unfolding numbered_def sample_hunk_def DiffHunk.simps list.size add_0_right add_Suc_right All_less_Suc
  by (simp add: old_count_def new_count_def)

lemma sample_hunk_plain: "plain_hunk sample_hunk"
  using sample_numbered
  by (simp add: plain_hunk_def sample_hunk_def print_header_def print_range_def hunk_numbered_def incomplete_def
      old_count_def new_count_def sample_digits line_feed_char)

lemma sample_files_plain: "plain_file (sample_file ''lib/a.ts'')" "plain_file (sample_file ''b'')"
  using sample_hunk_plain
  by (simp_all add: plain_file_def sample_file_def unsafe_path_def starts_with_def control_char_def counted_def adds_def dels_def)
    (simp_all add: sample_hunk_def)

lemmas sample_prints = sample_file_def sample_hunk_def print_diff_def print_file_def print_hunk_def print_header_def
  print_range_def print_line_def sample_digits line_feed_char utf8_width_def


section \<open>Everything that is read\<close>

text \<open>C34: No path escapes the repository.  Whatever text is given as a diff, every path of a file the
  reader returns is a checked repository path (or there is none), no two files share a path, and
  there are at most 5000.\<close>

theorem diff_paths_are_safe:
  assumes "parseFrozenDiff decode diff = Inr (files, warnings)"
  shows "(\<forall>f\<in>set files. (df_path f = [] \<or> \<not> unsafe_path (df_path f))
      \<and> (\<forall>p. df_oldPath f = Some p \<or> df_newPath f = Some p \<longrightarrow> \<not> unsafe_path p))
    \<and> distinct (map df_path files) \<and> length files \<le> 5000"
proof -
  have "(df_path f = [] \<or> \<not> unsafe_path (df_path f)) \<and> (\<forall>p. df_oldPath f = Some p \<or> df_newPath f = Some p \<longrightarrow> \<not> unsafe_path p)"
    if "f \<in> set files" for f
  proof -
    have "paths_ok f" using parsed_files(1) [OF assms] that by (simp add: file_ok_def)
    then show ?thesis by (auto simp: paths_ok_def path_ok_def)
  qed
  with parsed_files(2,3) [OF assms] show ?thesis by blast
qed

text \<open>C35: What the reader says about lines is right, whatever text it is given.  In every hunk the
  lines of the old file and those of the new one are numbered consecutively from the starts its
  header names; a file that is not binary has as many additions and deletions as its hunks show;
  and without a warning every hunk has exactly the lengths its header announces.\<close>

theorem diff_lines_are_right:
  assumes "parseFrozenDiff decode diff = Inr (files, warnings)"
  shows "\<forall>f\<in>set files.
      (\<forall>h\<in>set (df_hunks f). numbered (dh_oldStart h) (dh_newStart h) (dh_lines h)
        \<and> (warnings = [] \<longrightarrow> old_count (dh_lines h) = dh_oldLines h \<and> new_count (dh_lines h) = dh_newLines h))
    \<and> (\<not> df_binary f \<longrightarrow> df_additions f = sum_list (map adds (df_hunks f)) \<and> df_deletions f = sum_list (map dels (df_hunks f)))"
  using parsed_files(1) [OF assms] by (simp add: file_ok_def hunk_numbered_def incomplete_def counted_def)

lemma sample_read: "parseFrozenDiff (\<lambda>_. []) (print_diff [sample_file ''b'']) = Inr ([sample_file ''b''], [])"
proof (rule plain_diff_read)
  show "\<forall>f\<in>set [sample_file ''b'']. plain_file f" using sample_files_plain by simp
qed (simp_all add: sample_prints)

theorem diff_paths_are_safe_witness:
  "distinct (map df_path [sample_file ''b'']) \<and> \<not> unsafe_path (df_path (sample_file ''b''))"
  using diff_paths_are_safe [OF sample_read] by (simp_all add: sample_file_def)

theorem diff_lines_are_right_witness:
  "numbered 7 7 (dh_lines sample_hunk) \<and> df_additions (sample_file ''b'') = sum_list (map adds (df_hunks (sample_file ''b'')))"
  using diff_lines_are_right [OF sample_read] by (simp add: sample_file_def) (simp add: sample_hunk_def)

end
