(* ===== verification/Execution_Ref.thy ===== *)
theory Execution_Ref
  imports Decimal_Int Canonical_Json
begin

text \<open>
  The identity of an execution, \<open>shared/runtime/execution-ref.ts\<close>: a transcript records only how
  executions ended and when a run was resumed, so the reference of an execution is counted from the
  order of the records.  A record is a JSON value; the transcript only ever grows at its end.
\<close>

section \<open>Results\<close>

datatype ExecutionRole = role_attempt | role_aggregator
datatype InflightExecutionStatus = in_pending | in_queued | in_running
datatype TerminalExecutionStatus = done_success | done_failure | done_cancelled
datatype LiveStatus = live_pending | live_queued | live_running | live_success | live_failure | live_cancelled
datatype UnavailableReason = no_started_record | no_execution_record
datatype FinishedStatus = fin_success | fin_failure

record AttemptFailureInfo =
  af_code :: string
  af_message :: string

datatype AttemptExecutionResolution =
    inflight ExecutionRole string InflightExecutionStatus
  | terminal ExecutionRole string TerminalExecutionStatus "string option" "AttemptFailureInfo option" "string option"
  | unavailable "ExecutionRole option" string UnavailableReason
  | unknown_attempt

definition formatExecutionRef :: "string \<Rightarrow> nat \<Rightarrow> nat \<Rightarrow> string" where
  "formatExecutionRef attemptId generation ordinal = attemptId @ ''#'' @ show_nat generation @ ''.'' @ show_nat ordinal"

definition unavailableExecutionRef :: "string \<Rightarrow> string" where
  "unavailableExecutionRef attemptId = attemptId @ ''#0.0''"

section \<open>Reading the records\<close>

definition AGGREGATION_KEY :: string where
  "AGGREGATION_KEY = ''aggregation.finished''"

record FinishedEntry =
  fe_key :: string
  fe_index :: nat
  fe_generation :: nat
  fe_ordinal :: nat
  fe_status :: FinishedStatus
  fe_output :: "string option"
  fe_failure :: "AttemptFailureInfo option"
  fe_willRetry :: bool

text \<open>Of a roster only which ids are in it counts.\<close>

record Roster =
  ro_attemptIds :: "string list"
  ro_aggregatorAttemptId :: "string option"

definition parseFailure :: "json option \<Rightarrow> AttemptFailureInfo option" where
  "parseFailure v =
     (case v of
        Some (JObj kvs) \<Rightarrow>
          (case string_field (JObj kvs) ''code'' of
             None \<Rightarrow> None
           | Some code \<Rightarrow>
               if code = [] then None
               else Some \<lparr>af_code = code,
                 af_message = (case string_field (JObj kvs) ''message'' of Some m \<Rightarrow> m | None \<Rightarrow> [])\<rparr>)
      | _ \<Rightarrow> None)"

definition id_of :: "json \<Rightarrow> string option" where
  "id_of item = (case string_field item ''attemptId'' of Some i \<Rightarrow> if i = [] then None else Some i | None \<Rightarrow> None)"

definition collect_ids :: "json option \<Rightarrow> string list" where
  "collect_ids xs = (case xs of Some (JArr items) \<Rightarrow> List.map_filter id_of items | _ \<Rightarrow> [])"

definition parseRoster :: "json \<Rightarrow> Roster" where
  "parseRoster row =
     \<lparr>ro_attemptIds = collect_ids (json_field row ''attempts'') @ collect_ids (json_field row ''proposals'') @ collect_ids (json_field row ''debates''),
      ro_aggregatorAttemptId = (case json_field row ''aggregator'' of Some a \<Rightarrow> id_of a | None \<Rightarrow> None)\<rparr>"

definition strings_of :: "json option \<Rightarrow> string list" where
  "strings_of xs =
     (case xs of Some (JArr items) \<Rightarrow> List.map_filter (\<lambda>i. case i of JStr s \<Rightarrow> Some s | _ \<Rightarrow> None) items | _ \<Rightarrow> [])"

definition kind_of :: "json \<Rightarrow> string" where
  "kind_of row = (case string_field row ''kind'' of Some k \<Rightarrow> k | None \<Rightarrow> [])"

definition finished_key :: "json \<Rightarrow> string option" where
  "finished_key row =
     (if kind_of row = ''aggregation.finished'' then Some AGGREGATION_KEY
      else if kind_of row = ''attempt.finished'' then string_field row ''attemptId''
      else None)"

definition finished_status :: "json \<Rightarrow> FinishedStatus option" where
  "finished_status row =
     (if string_field row ''status'' = Some ''success'' then Some fin_success
      else if string_field row ''status'' = Some ''failure'' then Some fin_failure
      else None)"

text \<open>The variables of the loop over the records.\<close>

record ref_scan =
  rs_roster :: "Roster option"
  rs_resumes :: nat
  rs_lastResume :: "(nat \<times> string list) option"
  rs_finished :: "FinishedEntry list"
  rs_counters :: "(string, nat \<times> nat) jsmap"

definition next_ordinal :: "ref_scan \<Rightarrow> string \<Rightarrow> nat" where
  "next_ordinal s key =
     (case jm_get (rs_counters s) key of
        Some (generation, n) \<Rightarrow> if generation = rs_resumes s + 1 then n + 1 else 1
      | None \<Rightarrow> 1)"

definition scan_record :: "nat \<Rightarrow> json \<Rightarrow> ref_scan \<Rightarrow> ref_scan" where
  "scan_record index row s =
     (if kind_of row = ''review.started'' \<or> kind_of row = ''ideate.started'' then s\<lparr>rs_roster := Some (parseRoster row)\<rparr>
      else if kind_of row = ''review.resumed''
        then s\<lparr>rs_resumes := rs_resumes s + 1, rs_lastResume := Some (index, strings_of (json_field row ''reusedAttemptIds''))\<rparr>
      else case (finished_key row, finished_status row) of
        (Some key, Some status) \<Rightarrow>
          let generation = rs_resumes s + 1; ordinal = next_ordinal s key
          in s\<lparr>rs_counters := jm_set key (generation, ordinal) (rs_counters s),
               rs_finished := rs_finished s @
                 [\<lparr>fe_key = key, fe_index = index, fe_generation = generation, fe_ordinal = ordinal, fe_status = status,
                   fe_output = string_field row ''output'', fe_failure = parseFailure (json_field row ''failure''),
                   fe_willRetry = (json_field row ''willRetry'' = Some (JBool True))\<rparr>]\<rparr>
      | _ \<Rightarrow> s)"

fun scan_from :: "nat \<Rightarrow> json list \<Rightarrow> ref_scan \<Rightarrow> ref_scan" where
  "scan_from index [] s = s"
| "scan_from index (row # rows) s = scan_from (index + 1) rows (scan_record index row s)"

definition empty_scan :: ref_scan where
  "empty_scan = \<lparr>rs_roster = None, rs_resumes = 0, rs_lastResume = None, rs_finished = [], rs_counters = []\<rparr>"

definition scan_records :: "json list \<Rightarrow> ref_scan" where
  "scan_records records = scan_from 0 records empty_scan"

section \<open>Resolving an attempt\<close>

definition terminalFromEntry :: "string \<Rightarrow> ExecutionRole \<Rightarrow> FinishedEntry \<Rightarrow> string option \<Rightarrow> AttemptExecutionResolution" where
  "terminalFromEntry attemptId role entry reusedExecutionRef =
     (let failure = (if fe_status entry = fin_failure then fe_failure entry else None);
          cancelled = (case failure of Some f \<Rightarrow> af_code f = ''CANCELLED'' \<or> af_code f = ''ABORTED'' | None \<Rightarrow> False)
      in terminal role (formatExecutionRef attemptId (fe_generation entry) (fe_ordinal entry))
           (if fe_status entry = fin_success then done_success else if cancelled then done_cancelled else done_failure)
           (if fe_status entry = fin_success then fe_output entry else None)
           failure reusedExecutionRef)"

definition role_in :: "Roster \<Rightarrow> string \<Rightarrow> ExecutionRole option" where
  "role_in roster attemptId =
     (if ro_aggregatorAttemptId roster = Some attemptId then Some role_aggregator
      else if attemptId \<in> set (ro_attemptIds roster) then Some role_attempt
      else None)"

definition key_of :: "ExecutionRole \<Rightarrow> string \<Rightarrow> string" where
  "key_of role attemptId = (if role = role_aggregator then AGGREGATION_KEY else attemptId)"

definition last_finished :: "ref_scan \<Rightarrow> string \<Rightarrow> FinishedEntry option" where
  "last_finished s key =
     (let mine = filter (\<lambda>e. fe_key e = key) (rs_finished s) in if mine = [] then None else Some (last mine))"

definition explicitly_reused :: "ref_scan \<Rightarrow> ExecutionRole \<Rightarrow> string \<Rightarrow> FinishedEntry option \<Rightarrow> bool" where
  "explicitly_reused s role attemptId lastFinished \<longleftrightarrow>
     role = role_attempt
   \<and> (case rs_lastResume s of
        None \<Rightarrow> False
      | Some (i, ids) \<Rightarrow> attemptId \<in> set ids \<and> (case lastFinished of None \<Rightarrow> True | Some e \<Rightarrow> fe_index e < i))"

definition record_current :: "ref_scan \<Rightarrow> FinishedEntry \<Rightarrow> bool" where
  "record_current s e \<longleftrightarrow> (case rs_lastResume s of None \<Rightarrow> True | Some (i, ids) \<Rightarrow> i < fe_index e)"

definition prospective :: "ref_scan \<Rightarrow> ExecutionRole \<Rightarrow> string \<Rightarrow> LiveStatus option \<Rightarrow> bool \<Rightarrow> AttemptExecutionResolution" where
  "prospective s role attemptId liveStatus runActive =
     (let ref = formatExecutionRef attemptId (rs_resumes s + 1) (next_ordinal s (key_of role attemptId));
          liveTerminal = (liveStatus \<in> set [Some live_success, Some live_failure, Some live_cancelled])
      in if runActive \<and> \<not> liveTerminal then
           inflight role ref
             (if liveStatus = Some live_queued then in_queued else if liveStatus = Some live_running then in_running else in_pending)
         else unavailable (Some role) ref no_execution_record)"

definition resolve_in :: "ref_scan \<Rightarrow> ExecutionRole \<Rightarrow> string \<Rightarrow> LiveStatus option \<Rightarrow> bool \<Rightarrow> AttemptExecutionResolution" where
  "resolve_in s role attemptId liveStatus runActive =
     (case last_finished s (key_of role attemptId) of
        None \<Rightarrow> prospective s role attemptId liveStatus runActive
      | Some e \<Rightarrow>
          if explicitly_reused s role attemptId (Some e) \<and> fe_status e = fin_success
          then terminalFromEntry attemptId role e (Some (formatExecutionRef attemptId (fe_generation e) (fe_ordinal e)))
          else if record_current s e then
            (if runActive \<and> fe_willRetry e
             then inflight role (formatExecutionRef attemptId (fe_generation e) (fe_ordinal e + 1)) in_running
             else terminalFromEntry attemptId role e None)
          else prospective s role attemptId liveStatus runActive)"

definition resolveAttemptExecution :: "json list \<Rightarrow> string \<Rightarrow> LiveStatus option \<Rightarrow> bool \<Rightarrow> AttemptExecutionResolution" where
  "resolveAttemptExecution records attemptId liveStatus runActive =
     (let s = scan_records records
      in case rs_roster s of
           None \<Rightarrow> unavailable None (unavailableExecutionRef attemptId) no_started_record
         | Some roster \<Rightarrow>
             (case role_in roster attemptId of
                None \<Rightarrow> unknown_attempt
              | Some role \<Rightarrow> resolve_in s role attemptId liveStatus runActive))"

end
