(* ===== verification/Execution_Ref_Properties.thy ===== *)
theory Execution_Ref_Properties
  imports Execution_Ref
begin

text \<open>
  What a reference means.  The counters of the scan are those the file describes: the generation is
  one more than the resumes before a record, the ordinal counts the records of the same attempt
  since the last resume.  From this follows that references are unique, that they never change when
  the transcript grows, and that a result is reported only while it is the current one.
\<close>

section \<open>Counting records\<close>

definition is_resume :: "json \<Rightarrow> bool" where
  "is_resume row \<longleftrightarrow> kind_of row = ''review.resumed''"

definition finishes :: "string \<Rightarrow> json \<Rightarrow> bool" where
  "finishes key row \<longleftrightarrow> finished_key row = Some key \<and> finished_status row \<noteq> None"

definition resumes_in :: "json list \<Rightarrow> nat" where
  "resumes_in rows = length (filter is_resume rows)"

definition runs_in :: "string \<Rightarrow> json list \<Rightarrow> nat" where
  "runs_in key rows = length (filter (finishes key) (takeWhile (\<lambda>r. \<not> is_resume r) (rev rows)))"

definition entry_of :: "json list \<Rightarrow> json \<Rightarrow> FinishedEntry list" where
  "entry_of before row =
     (case (finished_key row, finished_status row) of
        (Some key, Some status) \<Rightarrow>
          [\<lparr>fe_key = key, fe_index = length before, fe_generation = resumes_in before + 1, fe_ordinal = runs_in key before + 1,
            fe_status = status, fe_output = string_field row ''output'', fe_failure = parseFailure (json_field row ''failure''),
            fe_willRetry = (json_field row ''willRetry'' = Some (JBool True))\<rparr>]
      | _ \<Rightarrow> [])"

definition entries :: "json list \<Rightarrow> FinishedEntry list" where
  "entries rows = concat (map (\<lambda>i. entry_of (take i rows) (rows ! i)) [0..<length rows])"

lemma entries_snoc: "entries (rows @ [row]) = entries rows @ entry_of rows row"
proof -
  have old: "map (\<lambda>i. entry_of (take i (rows @ [row])) ((rows @ [row]) ! i)) [0..<length rows]
      = map (\<lambda>i. entry_of (take i rows) (rows ! i)) [0..<length rows]"
    by (rule map_cong) (simp_all add: nth_append)
  have "[0..<length (rows @ [row])] = [0..<length rows] @ [length rows]" by simp
  then show ?thesis unfolding entries_def by (simp only: map_append concat_append old) simp
qed

lemma entries_append: "\<exists>later. entries (rows @ extra) = entries rows @ later"
proof (induction extra rule: rev_induct)
  case (snoc x xs)
  then obtain later where "entries (rows @ xs) = entries rows @ later" by blast
  then have "entries (rows @ xs @ [x]) = entries rows @ later @ entry_of (rows @ xs) x"
    using entries_snoc [of "rows @ xs" x] by simp
  then show ?case by blast
qed simp

lemma entry_iff:
  "e \<in> set (entries rows) \<longleftrightarrow> (\<exists>i < length rows. e \<in> set (entry_of (take i rows) (rows ! i)))"
  by (auto simp: entries_def)

lemma resumed_not_finished: "is_resume row \<Longrightarrow> finished_key row = None"
  by (simp add: is_resume_def finished_key_def)

lemma started_not_finished:
  "kind_of row = ''review.started'' \<or> kind_of row = ''ideate.started'' \<Longrightarrow> finished_key row = None \<and> \<not> is_resume row"
  by (auto simp: is_resume_def finished_key_def)

lemma scan_from_append: "scan_from i (xs @ ys) s = scan_from (i + length xs) ys (scan_from i xs s)"
  by (induction xs arbitrary: i s) simp_all

lemma scan_snoc: "scan_records (rows @ [row]) = scan_record (length rows) row (scan_records rows)"
  by (simp add: scan_records_def scan_from_append)

lemma resumes_snoc: "resumes_in (rows @ [row]) = resumes_in rows + of_bool (is_resume row)"
  by (simp add: resumes_in_def)

lemma runs_snoc:
  "runs_in key (rows @ [row]) = (if is_resume row then 0 else runs_in key rows + of_bool (finishes key row))"
  by (simp add: runs_in_def)

section \<open>The scan counts records\<close>

definition last_resume_is :: "(nat \<times> string list) option \<Rightarrow> json list \<Rightarrow> bool" where
  "last_resume_is r rows \<longleftrightarrow>
     (case r of
        None \<Rightarrow> \<forall>row\<in>set rows. \<not> is_resume row
      | Some (i, ids) \<Rightarrow> i < length rows \<and> is_resume (rows ! i) \<and> ids = strings_of (json_field (rows ! i) ''reusedAttemptIds'')
          \<and> (\<forall>j < length rows. i < j \<longrightarrow> \<not> is_resume (rows ! j)))"

lemma last_resume_snoc_other: "last_resume_is r rows \<Longrightarrow> \<not> is_resume row \<Longrightarrow> last_resume_is r (rows @ [row])"
  by (auto simp: last_resume_is_def nth_append less_Suc_eq split: option.splits)

lemma last_resume_snoc_resume:
  "is_resume row \<Longrightarrow> last_resume_is (Some (length rows, strings_of (json_field row ''reusedAttemptIds''))) (rows @ [row])"
  by (simp add: last_resume_is_def nth_append)

definition counters_ok :: "ref_scan \<Rightarrow> bool" where
  "counters_ok s \<longleftrightarrow> (\<forall>key. case jm_get (rs_counters s) key of None \<Rightarrow> True | Some (g, n) \<Rightarrow> g \<le> rs_resumes s + 1)"

lemma counters_later: "counters_ok s \<Longrightarrow> rs_counters t = rs_counters s \<Longrightarrow> rs_resumes s \<le> rs_resumes t \<Longrightarrow> counters_ok t"
  by (force simp: counters_ok_def split: option.splits)

definition scans :: "ref_scan \<Rightarrow> json list \<Rightarrow> bool" where
  "scans s rows \<longleftrightarrow> rs_finished s = entries rows \<and> rs_resumes s = resumes_in rows \<and> last_resume_is (rs_lastResume s) rows
    \<and> (\<forall>key. next_ordinal s key = runs_in key rows + 1) \<and> counters_ok s"

lemma next_ordinal_roster: "next_ordinal (s\<lparr>rs_roster := r\<rparr>) key = next_ordinal s key"
  by (simp add: next_ordinal_def split: option.split)

lemma next_ordinal_finished:
  "next_ordinal (s\<lparr>rs_counters := jm_set key (rs_resumes s + 1, m) (rs_counters s), rs_finished := fs\<rparr>) k
     = (if k = key then m + 1 else next_ordinal s k)"
  by (simp add: next_ordinal_def update_conv split: option.split)

lemma counters_finished:
  "counters_ok s \<Longrightarrow>
   counters_ok (s\<lparr>rs_counters := jm_set key (rs_resumes s + 1, m) (rs_counters s), rs_finished := fs\<rparr>)"
  by (auto simp: counters_ok_def update_conv split: option.splits)

lemma scan_step:
  assumes "scans s rows"
  shows "scans (scan_record (length rows) row s) (rows @ [row])"
proof -
  have s: "rs_finished s = entries rows" "rs_resumes s = resumes_in rows" "last_resume_is (rs_lastResume s) rows"
    "\<And>key. next_ordinal s key = runs_in key rows + 1"
    "counters_ok s"
    using assms by (auto simp: scans_def)
  consider (started) "kind_of row = ''review.started'' \<or> kind_of row = ''ideate.started''"
    | (resumed) "is_resume row" "\<not> (kind_of row = ''review.started'' \<or> kind_of row = ''ideate.started'')"
    | (finished) key status where "finished_key row = Some key" "finished_status row = Some status"
        "\<not> is_resume row" "\<not> (kind_of row = ''review.started'' \<or> kind_of row = ''ideate.started'')"
    | (other) "finished_key row = None \<or> finished_status row = None"
        "\<not> is_resume row" "\<not> (kind_of row = ''review.started'' \<or> kind_of row = ''ideate.started'')"
    by (cases "finished_key row"; cases "finished_status row") auto
  then show ?thesis
  proof cases
    case started
    with started_not_finished [OF started] s counters_later [OF s(5), of "scan_record (length rows) row s"] show ?thesis
      by (simp add: scans_def scan_record_def entries_snoc entry_of_def resumes_snoc runs_snoc finishes_def
          last_resume_snoc_other next_ordinal_roster)
  next
    case resumed
    have "next_ordinal (scan_record (length rows) row s) key = 1" for key
    proof (cases "jm_get (rs_counters s) key")
      case None
      with resumed show ?thesis by (simp add: scan_record_def is_resume_def next_ordinal_def)
    next
      case (Some p)
      then have "fst p \<le> rs_resumes s + 1" using s(5) by (cases p) (auto simp: counters_ok_def dest: spec [of _ key])
      with Some resumed show ?thesis by (cases p) (simp add: scan_record_def is_resume_def next_ordinal_def)
    qed
    with resumed resumed_not_finished [OF resumed(1)] counters_later [OF s(5), of "scan_record (length rows) row s"] last_resume_snoc_resume [OF resumed(1), of rows] s show ?thesis
      by (simp add: scans_def scan_record_def entries_snoc entry_of_def resumes_snoc runs_snoc is_resume_def [of row])
  next
    case finished
    have step: "scan_record (length rows) row s =
        s\<lparr>rs_counters := jm_set key (rs_resumes s + 1, next_ordinal s key) (rs_counters s), rs_finished := rs_finished s @ entry_of rows row\<rparr>"
      using finished s by (auto simp: scan_record_def entry_of_def Let_def is_resume_def)
    have "next_ordinal (scan_record (length rows) row s) k = runs_in k (rows @ [row]) + 1" for k
      using finished s(4) unfolding step next_ordinal_finished by (simp add: runs_snoc finishes_def)
    moreover have "counters_ok (scan_record (length rows) row s)"
      using s(5) unfolding step by (rule counters_finished)
    ultimately show ?thesis using finished s
      by (simp add: scans_def step entries_snoc resumes_snoc last_resume_snoc_other)
  next
    case other
    then have "scan_record (length rows) row s = s" "entry_of rows row = []" "\<And>key. \<not> finishes key row"
      by (auto simp: scan_record_def is_resume_def entry_of_def finishes_def split: option.splits)
    with other s show ?thesis
      by (simp add: scans_def entries_snoc resumes_snoc runs_snoc last_resume_snoc_other)
  qed
qed

lemma scan_counts: "scans (scan_records rows) rows"
proof (induction rows rule: rev_induct)
  case Nil
  show ?case by (simp add: scans_def scan_records_def empty_scan_def entries_def resumes_in_def runs_in_def last_resume_is_def next_ordinal_def counters_ok_def)
next
  case (snoc row rows)
  then show ?case by (simp add: scan_snoc scan_step)
qed

lemmas scan_facts = scan_counts [unfolded scans_def, THEN conjunct1]
  scan_counts [unfolded scans_def, THEN conjunct2, THEN conjunct1]
  scan_counts [unfolded scans_def, THEN conjunct2, THEN conjunct2, THEN conjunct1]
  scan_counts [unfolded scans_def, THEN conjunct2, THEN conjunct2, THEN conjunct2, THEN conjunct1, rule_format]

section \<open>Last entries\<close>

definition last_entry :: "string \<Rightarrow> json list \<Rightarrow> FinishedEntry option" where
  "last_entry key rows = last_finished (scan_records rows) key"

lemma last_entry_snoc:
  "last_entry key (rows @ [row]) = (if finishes key row then Some (hd (entry_of rows row)) else last_entry key rows)"
  by (auto simp: last_entry_def last_finished_def Let_def scan_facts(1) entries_snoc entry_of_def finishes_def split: option.splits)

lemma finishes_entry:
  assumes "finishes key row"
  obtains status where "finished_status row = Some status"
    "hd (entry_of rows row) = \<lparr>fe_key = key, fe_index = length rows, fe_generation = resumes_in rows + 1,
       fe_ordinal = runs_in key rows + 1, fe_status = status, fe_output = string_field row ''output'',
       fe_failure = parseFailure (json_field row ''failure''), fe_willRetry = (json_field row ''willRetry'' = Some (JBool True))\<rparr>"
  using assms by (auto simp: finishes_def entry_of_def)

lemma last_entry_none: "last_entry key rows = None \<longleftrightarrow> (\<forall>row\<in>set rows. \<not> finishes key row)"
proof (induction rows rule: rev_induct)
  case Nil
  show ?case by (simp add: last_entry_def last_finished_def scan_facts(1) entries_def)
next
  case (snoc row rows)
  then show ?case by (auto simp: last_entry_snoc)
qed

text \<open>The last entry stands for the last record that ends an execution of the attempt.\<close>

lemma last_entry_some:
  assumes "last_entry key rows = Some e"
  shows "\<exists>before row after. rows = before @ row # after \<and> finishes key row \<and> e = hd (entry_of before row)
    \<and> (\<forall>r\<in>set after. \<not> finishes key r)"
  using assms
proof (induction rows rule: rev_induct)
  case Nil
  then show ?case by (simp add: last_entry_def last_finished_def scan_facts(1) entries_def)
next
  case (snoc row rows)
  show ?case
  proof (cases "finishes key row")
    case True
    with snoc.prems show ?thesis by (intro exI [of _ rows] exI [of _ row] exI [of _ "[]"]) (simp add: last_entry_snoc)
  next
    case False
    with snoc.prems have "last_entry key rows = Some e" by (simp add: last_entry_snoc)
    from snoc.IH [OF this] obtain before r after where
      "rows = before @ r # after" "finishes key r" "e = hd (entry_of before r)" "\<forall>r\<in>set after. \<not> finishes key r" by blast
    with False show ?thesis by (intro exI [of _ before] exI [of _ r] exI [of _ "after @ [row]"]) simp
  qed
qed

text \<open>A record is current when no resume follows it.\<close>

lemma current_iff:
  assumes "finishes key row"
  shows "record_current (scan_records (before @ row # after)) (hd (entry_of before row)) \<longleftrightarrow> (\<forall>r\<in>set after. \<not> is_resume r)"
proof -
  let ?rows = "before @ row # after"
  have index: "fe_index (hd (entry_of before row)) = length before" by (rule finishes_entry [OF assms, of before]) simp
  have not_resume: "\<not> is_resume row" using assms resumed_not_finished by (auto simp: finishes_def)
  have r: "last_resume_is (rs_lastResume (scan_records ?rows)) ?rows" by (rule scan_facts(3))
  show ?thesis
  proof (cases "rs_lastResume (scan_records ?rows)")
    case None
    with r show ?thesis by (auto simp: record_current_def last_resume_is_def)
  next
    case (Some p)
    then obtain i ids where p: "rs_lastResume (scan_records ?rows) = Some (i, ids)" by (cases p) auto
    with r have i: "i < length ?rows" "is_resume (?rows ! i)" "\<And>j. j < length ?rows \<Longrightarrow> i < j \<Longrightarrow> \<not> is_resume (?rows ! j)"
      by (auto simp: last_resume_is_def)
    have "i \<noteq> length before" using i(2) not_resume by auto
    show ?thesis
    proof (cases "i < length before")
      case True
      have "\<not> is_resume (after ! k)" if "k < length after" for k
        using i(3) [of "Suc (length before + k)"] that True by (simp add: nth_append)
      then show ?thesis using True p index by (auto simp: record_current_def in_set_conv_nth)
    next
      case False
      with \<open>i \<noteq> length before\<close> have "length before < i" by simp
      then have "is_resume (after ! (i - length before - 1))" "i - length before - 1 < length after"
        using i(1,2) by (auto simp: nth_append nth_Cons' split: if_splits)
      then have "\<exists>r\<in>set after. is_resume r" using nth_mem by blast
      then show ?thesis using \<open>length before < i\<close> p index by (auto simp: record_current_def)
    qed
  qed
qed

section \<open>References are unique\<close>

lemma last_separator:
  assumes "xs @ c # ys = xs' @ c # ys'" "c \<notin> set ys" "c \<notin> set ys'"
  shows "xs = xs' \<and> ys = ys'"
proof -
  have "rev ys @ c # rev xs = rev ys' @ c # rev xs'" using arg_cong [OF assms(1), of rev] by simp
  then have "takeWhile (\<lambda>d. d \<noteq> c) (rev ys @ c # rev xs) = takeWhile (\<lambda>d. d \<noteq> c) (rev ys' @ c # rev xs')" by simp
  moreover have "takeWhile (\<lambda>d. d \<noteq> c) (rev ys @ c # rev xs) = rev ys" "takeWhile (\<lambda>d. d \<noteq> c) (rev ys' @ c # rev xs') = rev ys'"
    using assms(2,3) by (subst takeWhile_append2; auto)+
  ultimately have "ys = ys'" by simp
  with assms(1) show ?thesis by simp
qed

lemma show_nat_separators: "CHR ''#'' \<notin> set (show_nat n)" "CHR ''.'' \<notin> set (show_nat n)"
  using show_nat_digits(1) [of n] by (auto simp: list_all_iff is_digit_def)

lemma formatExecutionRef_inject:
  assumes "formatExecutionRef a g n = formatExecutionRef b h m"
  shows "a = b \<and> g = h \<and> n = m"
proof -
  let ?gn = "\<lambda>g n. show_nat g @ CHR ''.'' # show_nat n"
  have "a @ CHR ''#'' # ?gn g n = b @ CHR ''#'' # ?gn h m" using assms by (simp add: formatExecutionRef_def)
  then have a: "a = b \<and> ?gn g n = ?gn h m" by (rule last_separator) (simp_all add: show_nat_separators)
  then have "show_nat g = show_nat h \<and> show_nat n = show_nat m"
    by (intro last_separator [of _ "CHR ''.''"]) (simp_all add: show_nat_separators)
  with a show ?thesis using dec_value_show by metis
qed

lemma runs_append: "\<forall>r\<in>set after. \<not> is_resume r \<Longrightarrow> runs_in key (before @ after) = runs_in key before + length (filter (finishes key) after)"
proof (induction after rule: rev_induct)
  case (snoc r after)
  then show ?case using runs_snoc [of key "before @ after" r] by simp
qed simp

lemma resumes_append: "resumes_in (before @ after) = resumes_in before + resumes_in after"
  by (simp add: resumes_in_def)

lemma later_run_counts:
  assumes "finishes key (rows ! i)" "i < j" "j \<le> length rows"
  shows "resumes_in (take i rows) < resumes_in (take j rows)
    \<or> resumes_in (take i rows) = resumes_in (take j rows) \<and> runs_in key (take i rows) < runs_in key (take j rows)"
proof -
  let ?mid = "take (j - i) (drop i rows)"
  have split: "take j rows = take i rows @ ?mid"
    using assms(2,3) by (metis le_add_diff_inverse less_imp_le_nat take_add)
  have "rows ! i \<in> set ?mid"
    using assms(2,3) by (auto simp: in_set_conv_nth intro!: exI [of _ 0])
  show ?thesis
  proof (cases "\<forall>r\<in>set ?mid. \<not> is_resume r")
    case True
    have "0 < length (filter (finishes key) ?mid)"
      using \<open>rows ! i \<in> set ?mid\<close> assms(1) by (metis filter_empty_conv length_greater_0_conv)
    with True show ?thesis unfolding split resumes_append runs_append [OF True] by (simp add: resumes_in_def filter_empty_conv)
  next
    case False
    then have "0 < resumes_in ?mid" unfolding resumes_in_def by (metis filter_empty_conv length_greater_0_conv)
    then show ?thesis unfolding split resumes_append by simp
  qed
qed

lemma entry_counts:
  assumes "e \<in> set (entries rows)"
  obtains i where "i < length rows" "finishes (fe_key e) (rows ! i)" "[e] = entry_of (take i rows) (rows ! i)"
    "fe_generation e = resumes_in (take i rows) + 1" "fe_ordinal e = runs_in (fe_key e) (take i rows) + 1"
proof -
  from assms obtain i where i: "i < length rows" "e \<in> set (entry_of (take i rows) (rows ! i))"
    by (auto simp: entry_iff)
  then obtain key status where "finished_key (rows ! i) = Some key" "finished_status (rows ! i) = Some status"
    by (cases "finished_key (rows ! i)"; cases "finished_status (rows ! i)") (auto simp: entry_of_def)
  with i show thesis by (intro that [of i]) (simp_all add: entry_of_def finishes_def)
qed

text \<open>A reference names one execution for ever.  When a transcript grows, the executions it had keep
  their generation and ordinal, and two executions, of one attempt or of two, that have the same
  reference are the same.\<close>

theorem execution_refs_are_unique:
  "(\<exists>later. rs_finished (scan_records (records @ extra)) = rs_finished (scan_records records) @ later)
 \<and> (\<forall>e\<in>set (rs_finished (scan_records records)). \<forall>e'\<in>set (rs_finished (scan_records records)).
      fe_key e = fe_key e'
      \<and> formatExecutionRef a (fe_generation e) (fe_ordinal e) = formatExecutionRef b (fe_generation e') (fe_ordinal e')
      \<longrightarrow> a = b \<and> e = e')"
proof (intro conjI ballI impI)
  show "\<exists>later. rs_finished (scan_records (records @ extra)) = rs_finished (scan_records records) @ later"
    unfolding scan_facts(1) by (rule entries_append)
next
  fix e e'
  assume e: "e \<in> set (rs_finished (scan_records records))" "e' \<in> set (rs_finished (scan_records records))"
    and same: "fe_key e = fe_key e' \<and> formatExecutionRef a (fe_generation e) (fe_ordinal e) = formatExecutionRef b (fe_generation e') (fe_ordinal e')"
  then have counts: "a = b" "fe_generation e = fe_generation e'" "fe_ordinal e = fe_ordinal e'"
    using formatExecutionRef_inject by blast+
  then show "a = b" by blast
  from e obtain i where i: "i < length records" "finishes (fe_key e) (records ! i)" "[e] = entry_of (take i records) (records ! i)"
    "fe_generation e = resumes_in (take i records) + 1" "fe_ordinal e = runs_in (fe_key e) (take i records) + 1"
    using entry_counts unfolding scan_facts(1) by blast
  from e obtain j where j: "j < length records" "finishes (fe_key e') (records ! j)" "[e'] = entry_of (take j records) (records ! j)"
    "fe_generation e' = resumes_in (take j records) + 1" "fe_ordinal e' = runs_in (fe_key e') (take j records) + 1"
    using entry_counts unfolding scan_facts(1) by blast
  have "i = j"
    using later_run_counts [of "fe_key e" records i j] later_run_counts [of "fe_key e" records j i] i j counts same
    by (cases i j rule: linorder_cases) auto
  with i(3) j(3) show "e = e'" by (metis list.inject)
qed

section \<open>What is resolved\<close>

text \<open>A row that is neither a start, nor a resume, nor the end of an execution of the attempt.\<close>

definition quiet_row :: "string \<Rightarrow> json \<Rightarrow> bool" where
  "quiet_row key row \<longleftrightarrow> \<not> finishes key row \<and> \<not> is_resume row
     \<and> kind_of row \<noteq> ''review.started'' \<and> kind_of row \<noteq> ''ideate.started''"

lemma finishes_kind:
  "finishes key row \<Longrightarrow> \<not> is_resume row \<and> kind_of row \<noteq> ''review.started'' \<and> kind_of row \<noteq> ''ideate.started''"
  by (auto simp: finishes_def finished_key_def is_resume_def split: if_splits)

lemma steady_row:
  assumes "\<not> is_resume row" "kind_of row \<noteq> ''review.started''" "kind_of row \<noteq> ''ideate.started''"
  shows "rs_roster (scan_records (rows @ [row])) = rs_roster (scan_records rows)"
    "rs_lastResume (scan_records (rows @ [row])) = rs_lastResume (scan_records rows)"
  using assms by (simp_all add: scan_snoc scan_record_def is_resume_def Let_def split: option.split)

lemma resolve_in_cong:
  assumes "last_finished s (key_of role A) = last_finished t (key_of role A)" "rs_lastResume s = rs_lastResume t"
    "rs_resumes s = rs_resumes t" "next_ordinal s (key_of role A) = next_ordinal t (key_of role A)"
  shows "resolve_in s role A live active = resolve_in t role A live active"
  using assms by (simp add: resolve_in_def prospective_def explicitly_reused_def record_current_def split: option.split)

lemma quiet_resolve:
  assumes "\<forall>row\<in>set others. quiet_row (key_of role A) row"
  shows "rs_roster (scan_records (records @ others)) = rs_roster (scan_records records)
    \<and> rs_lastResume (scan_records (records @ others)) = rs_lastResume (scan_records records)
    \<and> last_entry (key_of role A) (records @ others) = last_entry (key_of role A) records
    \<and> resumes_in (records @ others) = resumes_in records
    \<and> runs_in (key_of role A) (records @ others) = runs_in (key_of role A) records"
  using assms
proof (induction others rule: rev_induct)
  case (snoc row others)
  then show ?case
    using steady_row [of row "records @ others"] resumes_snoc [of "records @ others" row] runs_snoc [of _ "records @ others" row]
      last_entry_snoc [of _ "records @ others" row]
    by (simp add: quiet_row_def)
qed simp

lemma quiet_resolves:
  assumes "\<forall>row\<in>set others. quiet_row (key_of role A) row"
  shows "resolve_in (scan_records (records @ others)) role A live active = resolve_in (scan_records records) role A live active"
  using quiet_resolve [OF assms, of records] by (intro resolve_in_cong) (simp_all add: scan_facts last_entry_def)

text \<open>The reference of a running execution is the one its record will have.\<close>

lemma prospective_cases:
  "prospective (scan_records rows) role A live active =
     (let ref = formatExecutionRef A (resumes_in rows + 1) (runs_in (key_of role A) rows + 1)
      in if active \<and> live \<notin> {Some live_success, Some live_failure, Some live_cancelled}
         then inflight role ref (if live = Some live_queued then in_queued else if live = Some live_running then in_running else in_pending)
         else unavailable (Some role) ref no_execution_record)"
  by (simp add: prospective_def Let_def scan_facts)

lemma current_entry:
  assumes "last_entry key rows = Some e" "record_current (scan_records rows) e"
  obtains before row after where "rows = before @ row # after" "finishes key row" "e = hd (entry_of before row)"
    "\<forall>r\<in>set after. \<not> finishes key r \<and> \<not> is_resume r" "resumes_in rows = resumes_in before"
    "runs_in key rows = runs_in key before + 1"
proof -
  from last_entry_some [OF assms(1)] obtain before row after where
    e: "rows = before @ row # after" "finishes key row" "e = hd (entry_of before row)" "\<forall>r\<in>set after. \<not> finishes key r" by blast
  have no: "\<forall>r\<in>set after. \<not> is_resume r" using current_iff [OF e(2)] assms(2) e(1,3) by simp
  then have none: "\<forall>r\<in>set (row # after). \<not> is_resume r" using finishes_kind [OF e(2)] by simp
  have "resumes_in (row # after) = 0" using none by (simp add: resumes_in_def)
  moreover have "filter (finishes key) (row # after) = [row]" using e(2,4) by simp
  ultimately show thesis
    using that [OF e(1-3)] e(4) no resumes_append [of before "row # after"] runs_append [OF none, of key before] e(1) by simp
qed

lemma inflight_ref:
  assumes "resolve_in (scan_records rows) role A live active = inflight role' ref st"
  shows "role' = role \<and> ref = formatExecutionRef A (resumes_in rows + 1) (runs_in (key_of role A) rows + 1)"
proof (cases "last_entry (key_of role A) rows")
  case None
  with assms show ?thesis by (auto simp: resolve_in_def last_entry_def prospective_cases Let_def split: if_splits)
next
  case (Some e)
  show ?thesis
  proof (cases "record_current (scan_records rows) e \<and> active \<and> fe_willRetry e
      \<and> \<not> (explicitly_reused (scan_records rows) role A (Some e) \<and> fe_status e = fin_success)")
    case True
    from current_entry [OF Some] True obtain before row after where
      e: "finishes (key_of role A) row" "e = hd (entry_of before row)" "resumes_in rows = resumes_in before"
        "runs_in (key_of role A) rows = runs_in (key_of role A) before + 1" by metis
    then have "fe_generation e = resumes_in before + 1 \<and> fe_ordinal e = runs_in (key_of role A) before + 1"
      by (metis finishes_entry FinishedEntry.select_convs(3,4))
    with e True assms Some show ?thesis by (auto simp: resolve_in_def last_entry_def)
  next
    case False
    with assms Some show ?thesis
      by (auto simp: resolve_in_def last_entry_def prospective_cases terminalFromEntry_def Let_def split: if_splits)
  qed
qed

lemma resolve_role:
  "resolveAttemptExecution records A live active = inflight role ref st \<Longrightarrow>
   \<exists>roster. rs_roster (scan_records records) = Some roster \<and> role_in roster A = Some role
     \<and> resolve_in (scan_records records) role A live active = inflight role ref st"
  "resolveAttemptExecution records A live active = terminal role ref st2 out failure reused \<Longrightarrow>
   \<exists>roster. rs_roster (scan_records records) = Some roster \<and> role_in roster A = Some role
     \<and> resolve_in (scan_records records) role A live active = terminal role ref st2 out failure reused"
  by (auto simp: resolveAttemptExecution_def resolve_in_def prospective_def terminalFromEntry_def Let_def
      split: option.splits if_splits)

lemma resolve_finished:
  assumes "finishes (key_of role A) row"
  shows "resolve_in (scan_records (rows @ [row])) role A live active =
     (let e = hd (entry_of rows row)
      in if active \<and> fe_willRetry e then inflight role (formatExecutionRef A (fe_generation e) (fe_ordinal e + 1)) in_running
         else terminalFromEntry A role e None)"
proof -
  let ?s = "scan_records (rows @ [row])" and ?e = "hd (entry_of rows row)"
  have last: "last_finished ?s (key_of role A) = Some ?e"
    using assms last_entry_snoc [of "key_of role A" rows row] by (simp add: last_entry_def)
  have current: "record_current ?s ?e" using current_iff [OF assms, of rows "[]"] by simp
  then have "\<not> explicitly_reused ?s role A (Some ?e)"
    by (auto simp: record_current_def explicitly_reused_def split: option.splits)
  with last current show ?thesis by (simp add: resolve_in_def Let_def)
qed

text \<open>C36: The reference shown for a running execution is the one its record gets.  Rows about other
  executions change nothing that is resolved, and when the record of the execution itself is
  appended, the attempt is resolved as ended under the same reference, with the status and
  output of that record; or, when the record says that a retry is starting and the run is active,
  as running under another reference.\<close>

theorem running_ref_is_kept:
  assumes "resolveAttemptExecution records A live True = inflight role ref st"
    and "\<forall>r\<in>set others. quiet_row (key_of role A) r" and "finishes (key_of role A) row"
  shows "(\<forall>live' active. resolveAttemptExecution (records @ others) A live' active = resolveAttemptExecution records A live' active)
    \<and> (\<forall>live' active. if active \<and> json_field row ''willRetry'' = Some (JBool True)
         then \<exists>later. later \<noteq> ref \<and> resolveAttemptExecution (records @ others @ [row]) A live' active = inflight role later in_running
         else \<exists>status failure. resolveAttemptExecution (records @ others @ [row]) A live' active
             = terminal role ref status (if finished_status row = Some fin_success then string_field row ''output'' else None) failure None
           \<and> (status = done_success \<longleftrightarrow> finished_status row = Some fin_success))"
proof -
  obtain roster where roster: "rs_roster (scan_records records) = Some roster" "role_in roster A = Some role"
    and resolved: "resolve_in (scan_records records) role A live True = inflight role ref st"
    using resolve_role(1) [OF assms(1)] by blast
  let ?rows = "records @ others" and ?key = "key_of role A"
  have quiet: "rs_roster (scan_records ?rows) = Some roster" "resumes_in ?rows = resumes_in records" "runs_in ?key ?rows = runs_in ?key records"
    using quiet_resolve [OF assms(2), of records] roster by simp_all
  have ref: "ref = formatExecutionRef A (resumes_in ?rows + 1) (runs_in ?key ?rows + 1)"
    using inflight_ref [OF resolved] quiet by simp
  have kept: "rs_roster (scan_records (?rows @ [row])) = Some roster"
    using steady_row(1) [of row ?rows] finishes_kind [OF assms(3)] quiet(1) by simp
  obtain status where status: "finished_status row = Some status"
    and e: "fe_generation (hd (entry_of ?rows row)) = resumes_in ?rows + 1" "fe_ordinal (hd (entry_of ?rows row)) = runs_in ?key ?rows + 1"
      "fe_status (hd (entry_of ?rows row)) = status" "fe_output (hd (entry_of ?rows row)) = string_field row ''output''"
      "fe_willRetry (hd (entry_of ?rows row)) = (json_field row ''willRetry'' = Some (JBool True))"
    by (rule finishes_entry [OF assms(3), of ?rows]) simp
  have resolves: "resolveAttemptExecution (?rows @ [row]) A live' active =
      (if active \<and> json_field row ''willRetry'' = Some (JBool True)
       then inflight role (formatExecutionRef A (resumes_in ?rows + 1) (runs_in ?key ?rows + 2)) in_running
       else terminalFromEntry A role (hd (entry_of ?rows row)) None)" for live' active
    using kept roster(2) resolve_finished [OF assms(3), of ?rows live' active] e
    by (simp add: resolveAttemptExecution_def Let_def)
  have other: "formatExecutionRef A (resumes_in ?rows + 1) (runs_in ?key ?rows + 2) \<noteq> ref"
    unfolding ref using formatExecutionRef_inject by fastforce
  have ended: "\<exists>st2 failure. terminalFromEntry A role (hd (entry_of ?rows row)) None
      = terminal role ref st2 (if finished_status row = Some fin_success then string_field row ''output'' else None) failure None
      \<and> (st2 = done_success \<longleftrightarrow> finished_status row = Some fin_success)"
    using e status by (simp add: terminalFromEntry_def Let_def ref)
  have "resolveAttemptExecution ?rows A live' active = resolveAttemptExecution records A live' active" for live' active
    using quiet_resolves [OF assms(2), of records live' active] quiet(1) roster
    by (simp add: resolveAttemptExecution_def Let_def)
  moreover have "if active \<and> json_field row ''willRetry'' = Some (JBool True)
         then \<exists>later. later \<noteq> ref \<and> resolveAttemptExecution (records @ others @ [row]) A live' active = inflight role later in_running
         else \<exists>status failure. resolveAttemptExecution (records @ others @ [row]) A live' active
             = terminal role ref status (if finished_status row = Some fin_success then string_field row ''output'' else None) failure None
           \<and> (status = done_success \<longleftrightarrow> finished_status row = Some fin_success)" for live' active
  proof (cases "active \<and> json_field row ''willRetry'' = Some (JBool True)")
    case True
    with resolves [of live' active] other show ?thesis by auto
  next
    case False
    with resolves [of live' active] ended show ?thesis by (simp only: if_False append_assoc)
  qed
  ultimately show ?thesis by blast
qed

text \<open>Whether the last resume among some rows names an attempt as reused.\<close>

definition last_resume_reuses :: "string \<Rightarrow> json list \<Rightarrow> bool" where
  "last_resume_reuses A rows \<longleftrightarrow>
     (\<exists>pre r post. rows = pre @ r # post \<and> is_resume r \<and> (\<forall>x\<in>set post. \<not> is_resume x)
        \<and> A \<in> set (strings_of (json_field r ''reusedAttemptIds'')))"

lemma reused_after:
  assumes "finishes key row" "explicitly_reused (scan_records (before @ row # after)) role A (Some (hd (entry_of before row)))"
  shows "role = role_attempt \<and> last_resume_reuses A after"
proof -
  let ?rows = "before @ row # after"
  have index: "fe_index (hd (entry_of before row)) = length before" by (rule finishes_entry [OF assms(1), of before]) simp
  obtain i ids where i: "rs_lastResume (scan_records ?rows) = Some (i, ids)" "A \<in> set ids" "length before < i" "role = role_attempt"
    using assms(2) index by (auto simp: explicitly_reused_def split: option.splits)
  have r: "i < length ?rows" "is_resume (?rows ! i)" "ids = strings_of (json_field (?rows ! i) ''reusedAttemptIds'')"
    "\<And>j. j < length ?rows \<Longrightarrow> i < j \<Longrightarrow> \<not> is_resume (?rows ! j)"
    using scan_facts(3) [of ?rows] i(1) by (auto simp: last_resume_is_def)
  define k where "k = i - length before - 1"
  have k: "k < length after" "?rows ! i = after ! k" "i = length before + 1 + k"
    using i(3) r(1) by (auto simp: k_def nth_append nth_Cons')
  have "\<not> is_resume x" if "x \<in> set (drop (Suc k) after)" for x
  proof -
    from that obtain j where j: "j < length after - Suc k" "x = after ! (Suc k + j)"
      by (auto simp: in_set_conv_nth)
    then show ?thesis using r(4) [of "i + 1 + j"] k by (simp add: nth_append nth_Cons')
  qed
  moreover have "after = take k after @ after ! k # drop (Suc k) after" using k(1) by (rule id_take_nth_drop)
  ultimately have "last_resume_reuses A after"
    unfolding last_resume_reuses_def using r(2,3) i(2) k(2) by metis
  with i(4) show ?thesis by simp
qed

text \<open>C37: A result is reported only while it is the current one.  What is resolved as ended is the last
  record of the attempt, counted by the documented rule; either no resume follows the record, and
  it is not a try whose retry is starting, or the last resume names the attempt as reused and the
  record was a success.  The output of a failed record is never shown.\<close>

theorem resolved_result_is_current:
  assumes "resolveAttemptExecution records A live active = terminal role ref status out failure reused"
  shows "\<exists>before row after. records = before @ row # after
    \<and> finishes (key_of role A) row \<and> (\<forall>r\<in>set after. \<not> finishes (key_of role A) r)
    \<and> ref = formatExecutionRef A (resumes_in before + 1) (runs_in (key_of role A) before + 1)
    \<and> (status = done_success \<longleftrightarrow> finished_status row = Some fin_success)
    \<and> out = (if status = done_success then string_field row ''output'' else None)
    \<and> (if \<forall>r\<in>set after. \<not> is_resume r
       then reused = None \<and> \<not> (active \<and> json_field row ''willRetry'' = Some (JBool True))
       else reused = Some ref \<and> role = role_attempt \<and> status = done_success \<and> last_resume_reuses A after)"
proof -
  let ?s = "scan_records records" and ?key = "key_of role A"
  have resolved: "resolve_in ?s role A live active = terminal role ref status out failure reused"
    using resolve_role(2) [OF assms] by blast
  then obtain e where last: "last_entry ?key records = Some e"
    by (cases "last_entry ?key records") (auto simp: resolve_in_def last_entry_def prospective_def Let_def split: if_splits)
  from last_entry_some [OF last] obtain before row after where
    at: "records = before @ row # after" "finishes ?key row" "e = hd (entry_of before row)" "\<forall>r\<in>set after. \<not> finishes ?key r" by blast
  obtain st where st: "finished_status row = Some st"
    and e: "fe_generation e = resumes_in before + 1" "fe_ordinal e = runs_in ?key before + 1"
      "fe_status e = st" "fe_output e = string_field row ''output''"
      "fe_willRetry e = (json_field row ''willRetry'' = Some (JBool True))"
    unfolding at(3) by (rule finishes_entry [OF at(2), of before]) simp
  have current: "record_current ?s e \<longleftrightarrow> (\<forall>r\<in>set after. \<not> is_resume r)"
    unfolding at(1,3) by (rule current_iff [OF at(2)])
  have reuse: "explicitly_reused ?s role A (Some e) \<Longrightarrow> role = role_attempt \<and> last_resume_reuses A after"
    unfolding at(1,3) by (rule reused_after [OF at(2)])
  have exclusive: "explicitly_reused ?s role A (Some e) \<Longrightarrow> \<not> record_current ?s e"
    by (auto simp: explicitly_reused_def record_current_def split: option.splits)
  have cases: "(if explicitly_reused ?s role A (Some e) \<and> st = fin_success
        then terminalFromEntry A role e (Some (formatExecutionRef A (fe_generation e) (fe_ordinal e))) = terminal role ref status out failure reused
        else record_current ?s e \<and> \<not> (active \<and> fe_willRetry e) \<and> terminalFromEntry A role e None = terminal role ref status out failure reused)"
    using resolved last e(3) by (auto simp: resolve_in_def last_entry_def prospective_def Let_def split: if_splits)
  have entry: "terminalFromEntry A role e u = terminal role ref status out failure reused \<Longrightarrow>
      ref = formatExecutionRef A (resumes_in before + 1) (runs_in ?key before + 1)
      \<and> (status = done_success \<longleftrightarrow> finished_status row = Some fin_success)
      \<and> out = (if status = done_success then string_field row ''output'' else None) \<and> reused = u" for u
    using e st by (auto simp: terminalFromEntry_def Let_def split: if_splits)
  have "ref = formatExecutionRef A (resumes_in before + 1) (runs_in ?key before + 1)
      \<and> (status = done_success \<longleftrightarrow> finished_status row = Some fin_success)
      \<and> out = (if status = done_success then string_field row ''output'' else None)
      \<and> (if \<forall>r\<in>set after. \<not> is_resume r
       then reused = None \<and> \<not> (active \<and> json_field row ''willRetry'' = Some (JBool True))
       else reused = Some ref \<and> role = role_attempt \<and> status = done_success \<and> last_resume_reuses A after)"
  proof (cases "explicitly_reused ?s role A (Some e) \<and> st = fin_success")
    case True
    with cases have t: "terminalFromEntry A role e (Some (formatExecutionRef A (fe_generation e) (fe_ordinal e))) = terminal role ref status out failure reused"
      by (simp only: if_True simp_thms)
    have "\<not> (\<forall>r\<in>set after. \<not> is_resume r)" using True exclusive current by blast
    with entry [OF t] reuse True st e(1,2) show ?thesis by simp
  next
    case False
    with cases have t: "record_current ?s e" "\<not> (active \<and> fe_willRetry e)"
        "terminalFromEntry A role e None = terminal role ref status out failure reused"
      by (simp_all only: if_False simp_thms)
    then have "\<forall>r\<in>set after. \<not> is_resume r" using current by blast
    with entry [OF t(3)] t(2) e(5) show ?thesis by simp
  qed
  with at show ?thesis by blast
qed

section \<open>A sample transcript\<close>

definition sample_started :: json where
  "sample_started = JObj [(''kind'', JStr ''review.started''), (''attempts'', JArr [JObj [(''attemptId'', JStr ''a1'')], JObj [(''attemptId'', JStr ''a2'')]])]"

definition sample_ended :: "string \<Rightarrow> string \<Rightarrow> json" where
  "sample_ended attemptId status = JObj [(''kind'', JStr ''attempt.finished''), (''attemptId'', JStr attemptId), (''status'', JStr status), (''output'', JStr ''done'')]"

definition sample_resumed :: json where
  "sample_resumed = JObj [(''kind'', JStr ''review.resumed''), (''reusedAttemptIds'', JArr [JStr ''a1''])]"

lemmas sample_rows = sample_started_def sample_ended_def sample_resumed_def

lemma sample_running:
  "resolveAttemptExecution [sample_started, sample_ended ''a1'' ''success'', sample_resumed] ''a2'' (Some live_running) True
     = inflight role_attempt ''a2#2.1'' in_running"
  by code_simp

lemma sample_reused:
  "resolveAttemptExecution [sample_started, sample_ended ''a1'' ''success'', sample_resumed] ''a1'' None True
     = terminal role_attempt ''a1#1.1'' done_success (Some ''done'') None (Some ''a1#1.1'')"
  by code_simp

theorem execution_refs_are_unique_witness:
  "formatExecutionRef ''a1'' 1 1 \<noteq> formatExecutionRef ''a1'' 2 1"
  using execution_refs_are_unique [of "[sample_ended ''a1'' ''success'', sample_resumed, sample_ended ''a1'' ''success'']" "[]" "''a1''" "''a1''"]
  by (simp add: scan_records_def empty_scan_def scan_record_def sample_rows kind_of_def string_field_def finished_key_def
      finished_status_def next_ordinal_def numeral_2_eq_2)

theorem running_ref_is_kept_witness:
  "\<exists>status failure. resolveAttemptExecution ([sample_started, sample_ended ''a1'' ''success'', sample_resumed]
      @ [sample_ended ''a1'' ''failure''] @ [sample_ended ''a2'' ''success'']) ''a2'' None True
     = terminal role_attempt ''a2#2.1'' status (Some ''done'') failure None \<and> status = done_success"
proof -
  have "\<forall>r\<in>set [sample_ended ''a1'' ''failure'']. quiet_row (key_of role_attempt ''a2'') r"
    by code_simp
  moreover have "finishes (key_of role_attempt ''a2'') (sample_ended ''a2'' ''success'')" by code_simp
  moreover have "json_field (sample_ended ''a2'' ''success'') ''willRetry'' = None"
    "finished_status (sample_ended ''a2'' ''success'') = Some fin_success"
    "string_field (sample_ended ''a2'' ''success'') ''output'' = Some ''done''" by code_simp+
  ultimately show ?thesis using running_ref_is_kept [OF sample_running] by fastforce
qed

theorem resolved_result_is_current_witness:
  "\<exists>before row after. [sample_started, sample_ended ''a1'' ''success'', sample_resumed] = before @ row # after
     \<and> finishes ''a1'' row \<and> last_resume_reuses ''a1'' after"
proof -
  obtain before row after where "[sample_started, sample_ended ''a1'' ''success'', sample_resumed] = before @ row # after"
      "finishes (key_of role_attempt ''a1'') row"
      "if \<forall>r\<in>set after. \<not> is_resume r then Some ''a1#1.1'' = None \<and> \<not> (True \<and> json_field row ''willRetry'' = Some (JBool True))
       else Some ''a1#1.1'' = Some ''a1#1.1'' \<and> role_attempt = role_attempt \<and> done_success = done_success \<and> last_resume_reuses ''a1'' after"
    using resolved_result_is_current [OF sample_reused] by blast
  then show ?thesis
    by (intro exI [of _ before] exI [of _ row] exI [of _ after]) (simp add: key_of_def split: if_splits)
qed

end
