(* ===== verification/Claude_Driver.thy ===== *)
theory Claude_Driver
  imports Process_Supervisor Profile_Resolver Scope_Manager
begin

text \<open>
  The driver of the \<open>claude-stream-json\<close> protocol,
  \<open>runtime-host/drivers/claude-stream-json.ts\<close> with \<open>ndjson.ts\<close>, \<open>turn-deadline.ts\<close> and
  \<open>retry-stop.ts\<close>: one long-lived process per participant, its handshake, the turns written to it
  and the frames it answers with.

  Turns, calls of \<open>execute\<close>, processes, control requests and pending spawns are objects with an
  identity; here they are numbered.  An \<open>async\<close> function is cut at its awaits: what goes on after
  an await is a task, which waits in \<open>cd_tasks\<close> until the environment lets it go on.  Frames, exits,
  timers, callbacks of writes and the calls of the scope manager come in any order.

  What is logged for diagnosis and the tail of stderr, which nothing reads, are left out.
\<close>

section \<open>Bounded lines, \<open>ndjson.ts\<close>\<close>

definition LIMITS_ndjsonLineBytes :: nat where
  "LIMITS_ndjsonLineBytes = 8 * 1024 * 1024"

datatype ndjson_call = nd_line string | nd_limit | nd_end

record splitter =
  sp_buffer :: string
  sp_overflow :: bool

definition new_splitter :: splitter where
  "new_splitter = \<lparr>sp_buffer = [], sp_overflow = False\<rparr>"

text \<open>The loop over the complete lines of the buffer; a string is a list of bytes here and \<open>decode\<close>
  reads a line as UTF-8.\<close>

function cut_lines :: "(string \<Rightarrow> string) \<Rightarrow> string \<Rightarrow> ndjson_call list \<times> splitter" where
  "cut_lines decode buffer =
     (case cut_line buffer of
        None \<Rightarrow>
          if LIMITS_ndjsonLineBytes < length buffer then ([nd_limit], \<lparr>sp_buffer = buffer, sp_overflow = True\<rparr>)
          else ([], \<lparr>sp_buffer = buffer, sp_overflow = False\<rparr>)
      | Some (line, rest) \<Rightarrow>
          if LIMITS_ndjsonLineBytes < length line then ([nd_limit], \<lparr>sp_buffer = rest, sp_overflow = True\<rparr>)
          else case cut_lines decode rest of
            (calls, sp) \<Rightarrow> ((if js_trim (decode line) = [] then [] else [nd_line (decode line)]) @ calls, sp))"
  by pat_completeness auto
termination
  by (relation "measure (\<lambda>(decode, buffer). length buffer)") (auto dest: cut_line_shorter)

declare cut_lines.simps [simp del]

definition ndjson_data :: "(string \<Rightarrow> string) \<Rightarrow> string \<Rightarrow> splitter \<Rightarrow> ndjson_call list \<times> splitter" where
  "ndjson_data decode chunk sp = (if sp_overflow sp then ([], sp) else cut_lines decode (sp_buffer sp @ chunk))"

definition ndjson_end :: "(string \<Rightarrow> string) \<Rightarrow> splitter \<Rightarrow> ndjson_call list" where
  "ndjson_end decode sp =
     (if sp_overflow sp then []
      else (if js_trim (decode (sp_buffer sp)) = [] then [] else [nd_line (decode (sp_buffer sp))]) @ [nd_end])"

section \<open>Routes\<close>

record RouteDef =
  rt_argv :: "string list"
  rt_servesModel :: "string option"
  rt_modelAliases :: "string list"
  rt_contextWindowTokens :: "nat option"
  rt_handshakeScale :: nat

text \<open>The routes are those of the schema, \<open>CLAUDE_ROUTES\<close>; the last case is \<open>cfuse\<close>.\<close>

definition ROUTES :: "string \<Rightarrow> RouteDef" where
  "ROUTES route =
     (if route = ''ant-glm5.2'' then
        \<lparr>rt_argv = [''ant'', ''glm5.2''], rt_servesModel = None, rt_modelAliases = [],
         rt_contextWindowTokens = Some 1000000, rt_handshakeScale = 1\<rparr>
      else if route = ''moonshot'' then
        \<lparr>rt_argv = [''moonshot''], rt_servesModel = Some ''k3'', rt_modelAliases = [''k3[1m]'', ''Kimi-K3[1m]'', ''Kimi-K3''],
         rt_contextWindowTokens = Some 1000000, rt_handshakeScale = 1\<rparr>
      else if route = ''deepseek'' then
        \<lparr>rt_argv = [''deepseek''], rt_servesModel = None, rt_modelAliases = [],
         rt_contextWindowTokens = Some 1000000, rt_handshakeScale = 1\<rparr>
      else
        \<lparr>rt_argv = [''cfuse'', ''--skip-update''], rt_servesModel = None, rt_modelAliases = [''GLM-5.2[1m]''],
         rt_contextWindowTokens = Some 1000000, rt_handshakeScale = 4\<rparr>)"

definition ENV_INHERIT :: "string list" where
  "ENV_INHERIT = [''HOME'', ''PATH'', ''LANG'', ''LC_ALL'', ''LC_CTYPE'', ''TERM'', ''TMPDIR'', ''USER'', ''LOGNAME'', ''SHELL'']"

definition DISCUSSION_CONTRACT :: string where
  "DISCUSSION_CONTRACT = join '' ''
     [''You are one Participant in a structured CouncilKit discussion.'',
      ''Stay in the persona given above and answer only the final instruction.'',
      ''Do not use tools; plain reasoned text is the whole deliverable.'']"

definition buildArgv :: "string \<Rightarrow> string option \<Rightarrow> string list" where
  "buildArgv route persona =
     rt_argv (ROUTES route) @
     [''--print'', ''--input-format'', ''stream-json'', ''--output-format'', ''stream-json'', ''--verbose'',
      ''--include-partial-messages'', ''--replay-user-messages'', ''--no-session-persistence'', ''--safe-mode'',
      ''--disable-slash-commands'', ''--no-chrome'', ''--strict-mcp-config'', ''--mcp-config'', ''{\"mcpServers\":{}}'',
      ''--tools'', [], ''--system-prompt'',
      (case persona of
         None \<Rightarrow> DISCUSSION_CONTRACT
       | Some p \<Rightarrow> if p = [] then DISCUSSION_CONTRACT else p @ [CHR 0x0A, CHR 0x0A] @ DISCUSSION_CONTRACT)]"

section \<open>State\<close>

datatype DriverState = drv_cold | drv_starting | drv_ready | drv_busy | drv_closing | drv_closed

text \<open>An error that is thrown: its message and its \<open>runtimeCode\<close>, when it has one.\<close>

record DriverThrow =
  dx_message :: string
  dx_runtimeCode :: "RuntimeErrorCode option"

record ActiveTurn =
  tu_exec :: nat
  tu_executionId :: string
  tu_uuid :: string
  tu_modelId :: string
  tu_dispatchState :: DispatchState
  tu_sawAssistantText :: bool
  tu_cancelling :: bool
  tu_settled :: bool
  tu_idleTimer :: bool
  tu_turnTimer :: bool
  tu_dispatchTimer :: bool
  tu_resolved :: bool

text \<open>The variables of one call of \<open>execute\<close>.\<close>

record ExecuteCall =
  ex_input :: ExecuteInput
  ex_attempt :: nat
  ex_closedAtEntry :: bool
  ex_failedRetryable :: bool

text \<open>Who waits for a respawn: nobody, the retry of an execution, or a cancellation.  Who waits for a
  handshake: a prewarm (with the model its caller asked for) or a respawn.\<close>

datatype respawner = rsp_unwatched string | rsp_retry nat | rsp_cancel nat
datatype handshaker = own_prewarm nat string | own_respawn respawner
datatype control_user = for_init handshaker | for_cancel nat nat | for_close nat

datatype driver_task =
    hs_mkdir handshaker DriverSpawnSpec
  | hs_spawn handshaker nat
  | hs_late handshaker nat nat
  | hs_adopt handshaker nat "DriverThrow + nat"
  | hs_supervised handshaker nat
  | hs_done handshaker "DriverThrow option"
  | on_control nat control_user
  | got_control control_user "DriverThrow + json"
  | rs_shutdown respawner nat
  | ex_turn nat nat
  | ex_after nat
  | ex_gap nat bool
  | cn_poll nat nat
  | close_spawn nat nat
  | close_shutdown nat nat

datatype driver_event =
    drv_emitted nat DriverEvent
  | drv_swallowed nat DriverEvent
  | write_confirmed nat
  | replay_seen nat
  | wrote_user nat nat nat json
  | wrote_request nat nat json
  | spawn_asked DriverSpawnSpec
  | asked_shutdown nat
  | asked_kill nat
  | closed_stdin nat
  | prewarm_settled nat "DriverThrow + PrewarmResult"
  | execute_threw nat DriverThrow
  | execute_returned nat
  | cancel_called string
  | cancel_returned nat
  | close_called nat
  | close_returned nat
  | unhandled_rejection string DriverThrow
  | uncaught_exception

record claude =
  cd_state :: DriverState
  cd_process :: "nat option"
  cd_pendingSpawn :: "nat option"
  cd_sessionEpoch :: nat
  cd_canonicalModel :: "string option"
  cd_catalog :: "string list"
  cd_initVerified :: bool
  cd_lastCumulative :: "nat \<times> nat \<times> string"
  cd_activeTurn :: "nat option"
  cd_cancellingExecutions :: "string list"
  cd_requestCounter :: nat
  cd_pendingControls :: "(string, nat) jsmap"
  cd_route :: string
  cd_persona :: "string option"
  cd_lastInstallation :: "InstallationRecord option"
  cd_turns :: "nat \<Rightarrow> ActiveTurn"
  cd_nextTurn :: nat
  cd_execs :: "nat \<Rightarrow> ExecuteCall"
  cd_nextExec :: nat
  cd_tasks :: "driver_task list"
  cd_nextSpawn :: nat
  cd_settledSpawns :: "nat list"
  cd_splitters :: "nat \<Rightarrow> splitter"
  cd_attached :: "nat list"
  cd_nextCall :: nat
  cd_log :: "driver_event list"

text \<open>What the driver asks of its environment: decoding and parsing lines (with the members of an
  object in the order of \<open>Object.keys\<close>), \<open>Number\<close> of a token count, which is taken to be a natural
  number, the differences of costs (which are doubles; not below zero), fresh uuids, and
  configuration.\<close>

record claude_env =
  ce_participantId :: string
  ce_workRoot :: string
  ce_handshakeMs :: nat
  ce_streamIdleMs :: nat
  ce_utf8 :: "string \<Rightarrow> string"
  ce_parse :: "string \<Rightarrow> json option"
  ce_text :: "json \<Rightarrow> string"
  ce_count :: "json \<Rightarrow> nat"
  ce_costDiff :: "string \<Rightarrow> string \<Rightarrow> string"
  ce_uuid :: "nat \<Rightarrow> string"

definition dlog :: "driver_event \<Rightarrow> claude \<Rightarrow> claude" where
  "dlog ev s = s\<lparr>cd_log := cd_log s @ [ev]\<rparr>"

definition add_task :: "driver_task \<Rightarrow> claude \<Rightarrow> claude" where
  "add_task k s = s\<lparr>cd_tasks := cd_tasks s @ [k]\<rparr>"

definition put_turn :: "nat \<Rightarrow> (ActiveTurn \<Rightarrow> ActiveTurn) \<Rightarrow> claude \<Rightarrow> claude" where
  "put_turn t f s = s\<lparr>cd_turns := (cd_turns s)(t := f (cd_turns s t))\<rparr>"

definition put_exec :: "nat \<Rightarrow> (ExecuteCall \<Rightarrow> ExecuteCall) \<Rightarrow> claude \<Rightarrow> claude" where
  "put_exec x f s = s\<lparr>cd_execs := (cd_execs s)(x := f (cd_execs s x))\<rparr>"

definition isClosingOrClosed :: "claude \<Rightarrow> bool" where
  "isClosingOrClosed s \<longleftrightarrow> cd_state s = drv_closing \<or> cd_state s = drv_closed"

definition js_null :: "string option \<Rightarrow> string" where
  "js_null v = (case v of None \<Rightarrow> ''null'' | Some t \<Rightarrow> t)"

definition plain_throw :: "string \<Rightarrow> DriverThrow" where
  "plain_throw message = \<lparr>dx_message = message, dx_runtimeCode = None\<rparr>"

definition coded_throw :: "string \<Rightarrow> RuntimeErrorCode \<Rightarrow> DriverThrow" where
  "coded_throw message code = \<lparr>dx_message = message, dx_runtimeCode = Some code\<rparr>"

definition closed_during_prewarm :: DriverThrow where
  "closed_during_prewarm = coded_throw ''claude driver closed during prewarm'' CANCELLED"

section \<open>Emitting\<close>

text \<open>\<open>emitWrapper\<close>: the safe failure of a first attempt is swallowed.\<close>

definition swallows :: "DriverEvent \<Rightarrow> ExecuteCall \<Rightarrow> bool" where
  "swallows ev e \<longleftrightarrow>
     (case ev of Failed failure dispatch tool retryable \<Rightarrow> dispatch = not_dispatched \<and> retryable | _ \<Rightarrow> False)
   \<and> ex_attempt e = 1 \<and> \<not> ex_closedAtEntry e"

definition emit_wrapped :: "nat \<Rightarrow> DriverEvent \<Rightarrow> claude \<Rightarrow> claude" where
  "emit_wrapped x ev s =
     (if swallows ev (cd_execs s x) then dlog (drv_swallowed x ev) (put_exec x (\<lambda>e. e\<lparr>ex_failedRetryable := True\<rparr>) s)
      else dlog (drv_emitted x ev) s)"

definition clearTurnTimers :: "nat \<Rightarrow> claude \<Rightarrow> claude" where
  "clearTurnTimers t = put_turn t (\<lambda>u. u\<lparr>tu_idleTimer := False, tu_turnTimer := False, tu_dispatchTimer := False\<rparr>)"

definition armIdleTimer :: "nat \<Rightarrow> claude \<Rightarrow> claude" where
  "armIdleTimer t s =
     (if tu_cancelling (cd_turns s t) \<or> tu_settled (cd_turns s t) then s
      else put_turn t (\<lambda>u. u\<lparr>tu_idleTimer := True\<rparr>) s)"

definition emitTerminal :: "nat \<Rightarrow> DriverEvent \<Rightarrow> claude \<Rightarrow> claude" where
  "emitTerminal t ev s =
     (let s1 = clearTurnTimers t s;
          s2 = (if cd_activeTurn s1 = Some t then s1\<lparr>cd_activeTurn := None\<rparr> else s1)
      in put_turn t (\<lambda>u. u\<lparr>tu_resolved := True\<rparr>) (emit_wrapped (tu_exec (cd_turns s2 t)) ev s2))"

definition idle_again :: "claude \<Rightarrow> claude" where
  "idle_again s = (if cd_state s = drv_busy then s\<lparr>cd_state := drv_ready\<rparr> else s)"

text \<open>A turn is terminated by an error (\<open>failed\<close>) or for a reason (\<open>interrupted\<close>).\<close>

definition terminateTurn :: "nat \<Rightarrow> RuntimeError + InterruptReason \<Rightarrow> claude \<Rightarrow> claude" where
  "terminateTurn t outcome s =
     (if tu_settled (cd_turns s t) \<or> cd_activeTurn s \<noteq> Some t then s
      else
        let d = tu_dispatchState (cd_turns s t);
            ev = (case outcome of Inl failure \<Rightarrow> Failed failure d tool_none (err_retryable failure) | Inr reason \<Rightarrow> Interrupted reason d tool_none)
        in idle_again (emitTerminal t ev (put_turn t (\<lambda>u. u\<lparr>tu_settled := True\<rparr>) s)))"

definition deadlineMaySettle :: "ActiveTurn \<Rightarrow> bool \<Rightarrow> bool" where
  "deadlineMaySettle turn isActive \<longleftrightarrow> isActive \<and> \<not> tu_cancelling turn \<and> \<not> tu_settled turn"

definition may_settle :: "nat \<Rightarrow> claude \<Rightarrow> bool" where
  "may_settle t s \<longleftrightarrow> deadlineMaySettle (cd_turns s t) (cd_activeTurn s = Some t)"

definition turn_error :: "claude_env \<Rightarrow> claude \<Rightarrow> nat \<Rightarrow> RuntimeErrorCode \<Rightarrow> ErrorPhase \<Rightarrow> string \<Rightarrow> bool option \<Rightarrow> RuntimeError" where
  "turn_error env s t code phase message retryable =
     makeError code phase message
       (no_extra\<lparr>xt_driverId := Some claude_stream_json, xt_executionId := Some (tu_executionId (cd_turns s t)),
                 xt_participantId := Some (ce_participantId env), xt_retryable := retryable\<rparr>)"

section \<open>Control requests\<close>

definition handshakeBudgetMs :: "claude_env \<Rightarrow> claude \<Rightarrow> nat" where
  "handshakeBudgetMs env s = ce_handshakeMs env * rt_handshakeScale (ROUTES (cd_route s))"

definition request_id :: "claude_env \<Rightarrow> nat \<Rightarrow> string" where
  "request_id env n = ''ck-'' @ ce_participantId env @ ''-'' @ show_nat n"

definition sendControl :: "claude_env \<Rightarrow> control_user \<Rightarrow> string \<Rightarrow> claude \<Rightarrow> claude" where
  "sendControl env user subtype s =
     (case cd_process s of
        None \<Rightarrow> add_task (got_control user (Inl (plain_throw ''driver process not running''))) s
      | Some p \<Rightarrow>
          let n = cd_requestCounter s + 1; rid = request_id env n;
              frame = JObj [(''type'', JStr ''control_request''), (''request_id'', JStr rid), (''request'', JObj [(''subtype'', JStr subtype)])]
          in add_task (on_control n user)
               (dlog (wrote_request p n frame)
                 (s\<lparr>cd_requestCounter := n, cd_pendingControls := jm_set rid n (cd_pendingControls s)\<rparr>)))"

text \<open>The promise of request \<open>n\<close> is settled, unless its deadline did it before.\<close>

fun control_ready :: "nat \<Rightarrow> DriverThrow + json \<Rightarrow> driver_task \<Rightarrow> driver_task" where
  "control_ready n result (on_control m user) = (if m = n then got_control user result else on_control m user)"
| "control_ready n result k = k"

definition settle_control :: "nat \<Rightarrow> DriverThrow + json \<Rightarrow> claude \<Rightarrow> claude" where
  "settle_control n result s = s\<lparr>cd_tasks := map (control_ready n result) (cd_tasks s)\<rparr>"

definition failAllPendingControls :: "DriverThrow \<Rightarrow> claude \<Rightarrow> claude" where
  "failAllPendingControls failure s =
     (fold (\<lambda>(rid, n). settle_control n (Inl failure)) (cd_pendingControls s) s)\<lparr>cd_pendingControls := []\<rparr>"

text \<open>The callback of the write, when it failed, and the deadline of a request.\<close>

definition control_write_failed :: "claude_env \<Rightarrow> nat \<Rightarrow> string \<Rightarrow> claude \<Rightarrow> claude" where
  "control_write_failed env n message s =
     settle_control n (Inl (plain_throw message)) (s\<lparr>cd_pendingControls := jm_delete (request_id env n) (cd_pendingControls s)\<rparr>)"

definition control_deadline :: "claude_env \<Rightarrow> nat \<Rightarrow> claude \<Rightarrow> claude" where
  "control_deadline env n s =
     settle_control n (Inl (coded_throw (''control request timed out after '' @ show_nat (handshakeBudgetMs env s) @ ''ms'') HANDSHAKE_TIMEOUT)) s"

definition nullish :: "json option \<Rightarrow> bool" where
  "nullish v \<longleftrightarrow> v = None \<or> v = Some JNull"

definition handleControlResponse :: "claude_env \<Rightarrow> json \<Rightarrow> claude \<Rightarrow> bool \<times> claude" where
  "handleControlResponse env message s =
     (if string_field message ''type'' \<noteq> Some ''control_response'' then (False, s)
      else case json_field message ''response'' of
        None \<Rightarrow> (True, s)
      | Some response \<Rightarrow>
          (case string_field response ''request_id'' of
             None \<Rightarrow> (True, s)
           | Some rid \<Rightarrow>
               if rid = [] then (True, s)
               else case jm_get (cd_pendingControls s) rid of
                 None \<Rightarrow> (True, s)
               | Some n \<Rightarrow>
                   let s1 = s\<lparr>cd_pendingControls := jm_delete rid (cd_pendingControls s)\<rparr>
                   in (True,
                       if string_field response ''subtype'' = Some ''success''
                       then settle_control n
                              (Inr (case json_field response ''response'' of None \<Rightarrow> JObj [] | Some JNull \<Rightarrow> JObj [] | Some v \<Rightarrow> v)) s1
                       else settle_control n
                              (Inl (plain_throw (''control request failed: '' @
                                 (case json_field response ''subtype'' of None \<Rightarrow> ''undefined'' | Some v \<Rightarrow> ce_text env v)))) s1)))"

section \<open>Frames\<close>

definition surface_empty :: "json \<Rightarrow> string \<Rightarrow> bool" where
  "surface_empty message key =
     (case json_field message key of
        None \<Rightarrow> True
      | Some JNull \<Rightarrow> True
      | Some (JArr xs) \<Rightarrow> xs = []
      | Some _ \<Rightarrow> False)"

definition verifyInitFrame :: "json \<Rightarrow> bool" where
  "verifyInitFrame message = list_all (surface_empty message) [''tools'', ''mcp_servers'', ''skills'', ''slash_commands'']"

definition handleSystemFrame :: "claude_env \<Rightarrow> nat option \<Rightarrow> json \<Rightarrow> claude \<Rightarrow> claude" where
  "handleSystemFrame env turn message s =
     (if string_field message ''subtype'' \<noteq> Some ''init'' \<or> cd_initVerified s then s
      else if \<not> verifyInitFrame message then
        (case turn of
           None \<Rightarrow> s
         | Some t \<Rightarrow>
             terminateTurn t (Inl (turn_error env s t INCOMPATIBLE_DRIVER ph_stream
               ''system/init reported tools/MCP/skills/slash commands; refusing execution.'' None)) s)
      else s\<lparr>cd_initVerified := True\<rparr>)"

text \<open>\<open>Number(x ?? 0)\<close> of a token count, \<open>Object.keys(modelUsage)[0]\<close>, and \<open>a ?? b\<close>.\<close>

definition count_field :: "claude_env \<Rightarrow> json \<Rightarrow> string \<Rightarrow> nat" where
  "count_field env usage key =
     (case json_field usage key of None \<Rightarrow> 0 | Some JNull \<Rightarrow> 0 | Some v \<Rightarrow> ce_count env v)"

fun first_key :: "json \<Rightarrow> string option" where
  "first_key (JObj ((k, v) # kvs)) = Some k"
| "first_key (JArr (v # vs)) = Some ''0''"
| "first_key (JStr (c # cs)) = Some ''0''"
| "first_key _ = None"

definition or_empty :: "json option \<Rightarrow> json" where
  "or_empty v = (case v of None \<Rightarrow> JObj [] | Some JNull \<Rightarrow> JObj [] | Some u \<Rightarrow> u)"

definition result_usage :: "claude_env \<Rightarrow> json \<Rightarrow> nat \<times> nat \<times> string" where
  "result_usage env message =
     (let usage = or_empty (json_field message ''usage'')
      in (count_field env usage ''input_tokens'' + count_field env usage ''cache_read_input_tokens''
            + count_field env usage ''cache_creation_input_tokens'',
          count_field env usage ''output_tokens'',
          (case json_field message ''total_cost_usd'' of Some (JNum c) \<Rightarrow> c | _ \<Rightarrow> ''0'')))"

definition usage_diff :: "claude_env \<Rightarrow> nat \<times> nat \<times> string \<Rightarrow> nat \<times> nat \<times> string \<Rightarrow> Usage" where
  "usage_diff env now earlier =
     (case (now, earlier) of ((i, ou, c), (i0, ou0, c0)) \<Rightarrow>
        \<lparr>us_inputTokens = Value (i - i0), us_outputTokens = Value (ou - ou0), us_costUsd = Value (ce_costDiff env c c0)\<rparr>)"

definition effective_model :: "json \<Rightarrow> claude \<Rightarrow> string option" where
  "effective_model message s =
     (case first_key (or_empty (json_field message ''modelUsage'')) of
        Some k \<Rightarrow> Some k
      | None \<Rightarrow> cd_canonicalModel s)"

definition model_verdict :: "string option \<Rightarrow> string \<Rightarrow> ModelVerdict" where
  "model_verdict effective modelId =
     (case effective of
        None \<Rightarrow> verdict_unknown
      | Some m \<Rightarrow> if m = [] then verdict_unknown else if m = modelId then verdict_match else verdict_mismatch)"

definition handleResultFrame :: "claude_env \<Rightarrow> nat \<Rightarrow> json \<Rightarrow> claude \<Rightarrow> claude" where
  "handleResultFrame env t message s =
     (if tu_cancelling (cd_turns s t) then terminateTurn t (Inr int_user_cancelled) s
      else
        let subtype = (case string_field message ''subtype'' of Some st \<Rightarrow> st | None \<Rightarrow> []);
            diff = usage_diff env (result_usage env message) (cd_lastCumulative s);
            turn = cd_turns s t;
            s1 = emit_wrapped (tu_exec turn) (UsageReport diff) (s\<lparr>cd_lastCumulative := result_usage env message\<rparr>);
            effective = effective_model message s1;
            output = (case string_field message ''result'' of Some r \<Rightarrow> r | None \<Rightarrow> [])
        in if json_field message ''is_error'' = Some (JBool True) \<or> subtype \<noteq> ''success'' then
             terminateTurn t (Inl (turn_error env s1 t DRIVER_CRASH ph_stream
               (''result subtype='' @ (if subtype = [] then ''unknown'' else subtype) @ '' is_error=true'') None)) s1
           else if js_trim output = [] then
             terminateTurn t (Inl (turn_error env s1 t EMPTY_OUTPUT ph_stream ''Completed with empty normalized output.'' None)) s1
           else
             idle_again (emitTerminal t
               (Completed output (tu_modelId turn) effective (model_verdict effective (tu_modelId turn)) tool_none dispatch_accepted
                 (Some diff) 0) s1))"

definition handleStreamEvent :: "nat \<Rightarrow> json \<Rightarrow> claude \<Rightarrow> claude" where
  "handleStreamEvent t message s =
     (case json_field message ''event'' of
        None \<Rightarrow> s
      | Some event \<Rightarrow>
          if string_field event ''type'' \<noteq> Some ''content_block_delta'' then s
          else case json_field event ''delta'' of
            None \<Rightarrow> s
          | Some delta \<Rightarrow>
              if string_field delta ''type'' \<noteq> Some ''text_delta'' then s
              else case string_field delta ''text'' of
                None \<Rightarrow> s
              | Some body \<Rightarrow>
                  if body = [] then s
                  else emit_wrapped (tu_exec (cd_turns s t)) (OutputDelta body) (put_turn t (\<lambda>u. u\<lparr>tu_sawAssistantText := True\<rparr>) s))"

definition replay_uuid :: "json \<Rightarrow> json option" where
  "replay_uuid message =
     (if nullish (json_field message ''uuid'')
      then (case json_field message ''message'' of None \<Rightarrow> None | Some m \<Rightarrow> json_field m ''uuid'')
      else json_field message ''uuid'')"

definition handleReplayFrame :: "nat \<Rightarrow> json \<Rightarrow> claude \<Rightarrow> claude" where
  "handleReplayFrame t message s =
     (if replay_uuid message = Some (JStr (tu_uuid (cd_turns s t))) \<and> tu_dispatchState (cd_turns s t) \<noteq> dispatch_accepted
      then dlog (replay_seen t) (put_turn t (\<lambda>u. u\<lparr>tu_dispatchState := dispatch_accepted\<rparr>) s)
      else s)"

text \<open>A line that is the value \<open>null\<close> has no \<open>type\<close> to read: the handler throws out of the stream's callback.\<close>

definition onFrame :: "claude_env \<Rightarrow> json \<Rightarrow> claude \<Rightarrow> claude" where
  "onFrame env message s =
     (if message = JNull then dlog uncaught_exception s
      else case handleControlResponse env message s of
        (True, s1) \<Rightarrow> s1
      | (False, s1) \<Rightarrow>
          let turn = cd_activeTurn s1;
              s2 = (case turn of None \<Rightarrow> s1 | Some t \<Rightarrow> armIdleTimer t s1);
              ty = string_field message ''type''
          in if ty = Some ''system'' then handleSystemFrame env turn message s2
             else case turn of
               None \<Rightarrow> s2
             | Some t \<Rightarrow>
                 if ty = Some ''user'' then handleReplayFrame t message s2
                 else if ty = Some ''stream_event'' then handleStreamEvent t message s2
                 else if ty = Some ''result'' then handleResultFrame env t message s2
                 else s2)"

section \<open>Starting a process\<close>

definition component_path :: "ComponentRole \<Rightarrow> InstallationRecord \<Rightarrow> string option" where
  "component_path role ir = map_option ic_path (List.find (\<lambda>c. ic_role c = role) (ir_components ir))"

definition route_env :: "string \<Rightarrow> InstallationRecord \<Rightarrow> DriverThrow + (string, string) jsmap" where
  "route_env route ir =
     (if route = ''cfuse'' then
        (case component_path role_cfuse_binary ir of
           None \<Rightarrow> Inl (coded_throw ''cld installation is missing the cfuse-binary component required by the cfuse route'' INSTALLATION_INVALID)
         | Some p \<Rightarrow> Inr [(''CLD_SKIP_UPDATE_CHECK'', ''1''), (''CLD_CFUSE_BIN'', p)])
      else
        (case component_path role_claude_binary ir of
           None \<Rightarrow> Inl (coded_throw (''cld installation is missing the claude-binary component required by the '' @ route @ '' route'') INSTALLATION_INVALID)
         | Some p \<Rightarrow> Inr [(''CLD_SKIP_UPDATE_CHECK'', ''1''), (''CLD_CLAUDE_BIN'', p)]))"

definition driver_cwd :: "claude_env \<Rightarrow> string" where
  "driver_cwd env = ''/'' @ join ''/'' (path_normalize (ce_workRoot env @ ''/'' @ ce_participantId env))"

text \<open>\<open>installationRecordToSpec\<close>.\<close>

definition installationRecordToSpec :: "InstallationRecord \<Rightarrow> DriverThrow + string" where
  "installationRecordToSpec ir =
     (if ir_realpath ir = [] then Inl (coded_throw ''installation has no validated realpath'' INSTALLATION_INVALID)
      else Inr (ir_realpath ir))"

definition driver_spec :: "claude_env \<Rightarrow> InstallationRecord \<Rightarrow> claude \<Rightarrow> DriverThrow + DriverSpawnSpec" where
  "driver_spec env ir s =
     (case route_env (cd_route s) ir of
        Inl e \<Rightarrow> Inl e
      | Inr envSet \<Rightarrow>
          (case installationRecordToSpec ir of
             Inl e \<Rightarrow> Inl e
           | Inr executable \<Rightarrow>
               Inr \<lparr>ds_participantId = ce_participantId env, ds_executable = executable,
                    ds_argv = buildArgv (cd_route s) (cd_persona s), ds_cwd = driver_cwd env,
                    ds_envInherit = ENV_INHERIT, ds_envSet = envSet\<rparr>))"

text \<open>\<open>spawnAndHandshake\<close> up to the await on \<open>mkdir\<close>.\<close>

definition spawnAndHandshake :: "claude_env \<Rightarrow> handshaker \<Rightarrow> InstallationRecord \<Rightarrow> claude \<Rightarrow> claude" where
  "spawnAndHandshake env owner ir s =
     (case driver_spec env ir s of
        Inl e \<Rightarrow> add_task (hs_done owner (Some e)) s
      | Inr spec \<Rightarrow> add_task (hs_mkdir owner spec) s)"

text \<open>After \<open>mkdir\<close>: the last check before spawning.  The variables of the participant are read again
  for the argument vector; the environment was built before.\<close>

definition after_mkdir :: "claude_env \<Rightarrow> handshaker \<Rightarrow> DriverSpawnSpec \<Rightarrow> DriverThrow option \<Rightarrow> claude \<Rightarrow> claude" where
  "after_mkdir env owner spec failed s =
     (case failed of
        Some e \<Rightarrow> add_task (hs_done owner (Some e)) s
      | None \<Rightarrow>
          if isClosingOrClosed s then add_task (hs_done owner (Some closed_during_prewarm)) s
          else
            let sp = cd_nextSpawn s
            in add_task (hs_spawn owner sp)
                 (dlog (spawn_asked (spec\<lparr>ds_argv := buildArgv (cd_route s) (cd_persona s)\<rparr>))
                   (s\<lparr>cd_pendingSpawn := Some sp, cd_nextSpawn := sp + 1\<rparr>)))"

text \<open>The continuation of the spawn: a process that comes when the driver is closing is shut down,
  not adopted.  \<open>settle_spawn\<close> settles the promise that \<open>pendingSpawn\<close> holds.\<close>

definition settle_spawn :: "handshaker \<Rightarrow> nat \<Rightarrow> DriverThrow + nat \<Rightarrow> claude \<Rightarrow> claude" where
  "settle_spawn owner sp result s =
     add_task (hs_adopt owner sp result) (s\<lparr>cd_settledSpawns := sp # cd_settledSpawns s\<rparr>)"

definition after_spawn :: "handshaker \<Rightarrow> nat \<Rightarrow> DriverThrow + nat \<Rightarrow> claude \<Rightarrow> claude" where
  "after_spawn owner sp result s =
     (case result of
        Inl e \<Rightarrow> settle_spawn owner sp (Inl e) s
      | Inr p \<Rightarrow>
          if isClosingOrClosed s then add_task (hs_late owner sp p) (dlog (asked_shutdown p) s)
          else settle_spawn owner sp (Inr p) s)"

definition after_late_shutdown :: "handshaker \<Rightarrow> nat \<Rightarrow> claude \<Rightarrow> claude" where
  "after_late_shutdown owner sp = settle_spawn owner sp (Inl closed_during_prewarm)"

definition adopt :: "handshaker \<Rightarrow> nat \<Rightarrow> DriverThrow + nat \<Rightarrow> claude \<Rightarrow> claude" where
  "adopt owner sp result s =
     (let s1 = (if cd_pendingSpawn s = Some sp then s\<lparr>cd_pendingSpawn := None\<rparr> else s)
      in case result of
           Inl e \<Rightarrow> add_task (hs_done owner (Some e)) s1
         | Inr p \<Rightarrow>
             add_task (hs_supervised owner p)
               (s1\<lparr>cd_process := Some p, cd_attached := p # cd_attached s1, cd_splitters := (cd_splitters s1)(p := new_splitter)\<rparr>))"

definition after_supervised :: "claude_env \<Rightarrow> handshaker \<Rightarrow> DriverThrow option \<Rightarrow> claude \<Rightarrow> claude" where
  "after_supervised env owner failed s =
     (case failed of
        Some e \<Rightarrow> add_task (hs_done owner (Some (if isClosingOrClosed s then closed_during_prewarm else e))) s
      | None \<Rightarrow> sendControl env (for_init owner) ''initialize'' s)"

text \<open>The models of the reply.  A resolved model that is not a string is read as its text, when it is
  truthy; a \<open>null\<close> among the models before the default one makes the search for it throw.\<close>

definition reply_models :: "json \<Rightarrow> json list" where
  "reply_models init = (case json_field init ''models'' of Some (JArr ms) \<Rightarrow> ms | _ \<Rightarrow> [])"

definition resolved_models :: "json \<Rightarrow> string list" where
  "resolved_models init =
     List.map_filter (\<lambda>m. case string_field m ''resolvedModel'' of Some r \<Rightarrow> if r = [] then None else Some r | None \<Rightarrow> None)
       (reply_models init)"

fun find_default :: "json list \<Rightarrow> DriverThrow + json option" where
  "find_default [] = Inr None"
| "find_default (m # ms) =
     (if m = JNull then Inl (plain_throw ''Cannot read properties of null'')
      else if string_field m ''value'' = Some ''default'' then Inr (Some m)
      else find_default ms)"

fun falsy :: "json \<Rightarrow> bool" where
  "falsy JNull = True"
| "falsy (JBool b) = (\<not> b)"
| "falsy (JStr t) = (t = [])"
| "falsy (JNum n) = (n = ''0'' \<or> n = ''-0'')"
| "falsy _ = False"

definition model_text :: "claude_env \<Rightarrow> json \<Rightarrow> string" where
  "model_text env v = (case v of JStr t \<Rightarrow> t | _ \<Rightarrow> ce_text env v)"

definition default_model :: "claude_env \<Rightarrow> json \<Rightarrow> DriverThrow + string option" where
  "default_model env init =
     (case find_default (reply_models init) of
        Inl e \<Rightarrow> Inl e
      | Inr found \<Rightarrow>
          let direct = (case found of None \<Rightarrow> None | Some m \<Rightarrow> json_field m ''resolvedModel'')
          in Inr (if nullish direct then (case resolved_models init of [] \<Rightarrow> None | r # rs \<Rightarrow> Some r)
                  else if falsy (the direct) then None else Some (model_text env (the direct))))"

text \<open>\<open>[...new Set(resolved)]\<close>.\<close>

definition unique_models :: "string list \<Rightarrow> string list" where
  "unique_models ms = rev (remdups (rev ms))"

definition accept_models :: "claude_env \<Rightarrow> string \<Rightarrow> json \<Rightarrow> DriverThrow + string \<times> string list" where
  "accept_models env route init =
     (case default_model env init of
        Inl e \<Rightarrow> Inl e
      | Inr None \<Rightarrow> Inl (coded_throw ''initialize returned no resolvable model'' INCOMPATIBLE_DRIVER)
      | Inr (Some defaultModel) \<Rightarrow>
          (case rt_servesModel (ROUTES route) of
             None \<Rightarrow> Inr (defaultModel, unique_models (resolved_models init))
           | Some serves \<Rightarrow>
               if serves \<notin> set (resolved_models init)
               then Inl (coded_throw (''route serves '' @ serves @ '' but the handshake catalog lacks it'') INCOMPATIBLE_DRIVER)
               else Inr (serves, unique_models (resolved_models init))))"

definition after_initialize :: "claude_env \<Rightarrow> handshaker \<Rightarrow> DriverThrow + json \<Rightarrow> claude \<Rightarrow> claude" where
  "after_initialize env owner reply s =
     (case reply of
        Inl e \<Rightarrow> add_task (hs_done owner (Some e)) s
      | Inr init \<Rightarrow>
          (case accept_models env (cd_route s) init of
             Inl e \<Rightarrow> add_task (hs_done owner (Some e)) s
           | Inr (model, catalog) \<Rightarrow>
               add_task (hs_done owner None)
                 (s\<lparr>cd_canonicalModel := Some model, cd_catalog := catalog, cd_state := drv_ready\<rparr>)))"

text \<open>\<open>respawn\<close>, cut at the shutdown of the old process.\<close>

definition respawn_start :: "claude_env \<Rightarrow> respawner \<Rightarrow> claude \<Rightarrow> claude" where
  "respawn_start env r s =
     (case cd_lastInstallation s of
        None \<Rightarrow> add_task (hs_done (own_respawn r) None) s
      | Some ir \<Rightarrow>
          if isClosingOrClosed s then add_task (hs_done (own_respawn r) None) s
          else spawnAndHandshake env (own_respawn r) ir (s\<lparr>cd_state := drv_starting\<rparr>))"

definition respawn :: "claude_env \<Rightarrow> respawner \<Rightarrow> claude \<Rightarrow> claude" where
  "respawn env r s =
     (let s1 = s\<lparr>cd_process := None, cd_sessionEpoch := cd_sessionEpoch s + 1, cd_initVerified := False\<rparr>
      in case cd_process s of
           None \<Rightarrow> respawn_start env r s1
         | Some p \<Rightarrow> add_task (rs_shutdown r p) (dlog (asked_shutdown p) s1))"

definition currentModelAliases :: "string \<Rightarrow> string list" where
  "currentModelAliases route = ''default'' # rt_modelAliases (ROUTES route)"

definition prewarm_result :: "string \<Rightarrow> claude \<Rightarrow> PrewarmResult" where
  "prewarm_result modelId s =
     \<lparr>pw_canonicalModelId = (case cd_canonicalModel s of Some m \<Rightarrow> m | None \<Rightarrow> modelId),
      pw_modelAliases = currentModelAliases (cd_route s),
      pw_capability = [(''protocol'', JStr ''claude-stream-json''), (''controlInitialize'', JBool True)],
      pw_catalog = cd_catalog s\<rparr>"

definition respawn_settled :: "respawner \<Rightarrow> DriverThrow option \<Rightarrow> claude \<Rightarrow> claude" where
  "respawn_settled r failed s =
     (case r of
        rsp_unwatched reason \<Rightarrow> (case failed of None \<Rightarrow> s | Some e \<Rightarrow> dlog (unhandled_rejection reason e) s)
      | rsp_retry x \<Rightarrow> add_task (ex_gap x (failed \<noteq> None)) s
      | rsp_cancel c \<Rightarrow> dlog (cancel_returned c) s)"

text \<open>A handshake has succeeded or failed.\<close>

definition handshake_settled :: "handshaker \<Rightarrow> DriverThrow option \<Rightarrow> claude \<Rightarrow> claude" where
  "handshake_settled owner failed s =
     (case owner of
        own_respawn r \<Rightarrow> respawn_settled r failed s
      | own_prewarm k modelId \<Rightarrow>
          (case failed of
             None \<Rightarrow> dlog (prewarm_settled k (Inr (prewarm_result modelId s))) s
           | Some e \<Rightarrow>
               dlog (prewarm_settled k (Inl e)) (if isClosingOrClosed s then s else s\<lparr>cd_state := drv_cold\<rparr>)))"

definition prewarm :: "claude_env \<Rightarrow> nat \<Rightarrow> ParticipantSpec \<Rightarrow> InstallationRecord \<Rightarrow> claude \<Rightarrow> claude" where
  "prewarm env k spec ir s =
     (case ep_options (ps_profile spec) of
        ClaudeOptions route \<Rightarrow>
          let s1 = s\<lparr>cd_route := route, cd_persona := ps_personaPrompt spec, cd_lastInstallation := Some ir\<rparr>
          in if cd_state s1 = drv_ready \<or> cd_state s1 = drv_busy
             then dlog (prewarm_settled k (Inr (prewarm_result (ps_modelId spec) s1))) s1
             else spawnAndHandshake env (own_prewarm k (ps_modelId spec)) ir (s1\<lparr>cd_state := drv_starting\<rparr>)
      | _ \<Rightarrow> dlog (prewarm_settled k (Inl (coded_throw ''profile driver mismatch'' PROFILE_INVALID))) s)"

section \<open>Turns\<close>

definition new_turn :: "claude_env \<Rightarrow> nat \<Rightarrow> claude \<Rightarrow> ActiveTurn" where
  "new_turn env x s =
     \<lparr>tu_exec = x, tu_executionId = xi_executionId (ex_input (cd_execs s x)), tu_uuid = ce_uuid env (cd_nextTurn s),
      tu_modelId = xi_modelId (ex_input (cd_execs s x)), tu_dispatchState = not_dispatched, tu_sawAssistantText = False,
      tu_cancelling = False, tu_settled = False, tu_idleTimer = False, tu_turnTimer = False, tu_dispatchTimer = False,
      tu_resolved = False\<rparr>"

definition user_frame :: "ExecuteInput \<Rightarrow> string \<Rightarrow> json" where
  "user_frame i uuid =
     JObj [(''type'', JStr ''user''), (''message'', JObj [(''role'', JStr ''user''), (''content'', JStr (xi_prompt i))]), (''uuid'', JStr uuid)]"

definition not_running :: "claude_env \<Rightarrow> ExecuteInput \<Rightarrow> DriverEvent" where
  "not_running env i =
     Failed (makeError DRIVER_CRASH ph_dispatch ''driver process is not running''
        (no_extra\<lparr>xt_driverId := Some claude_stream_json, xt_executionId := Some (xi_executionId i),
                  xt_participantId := Some (ce_participantId env), xt_retryable := Some True\<rparr>))
       not_dispatched tool_none True"

definition runTurn :: "claude_env \<Rightarrow> nat \<Rightarrow> claude \<Rightarrow> claude" where
  "runTurn env x s =
     (let i = ex_input (cd_execs s x)
      in case cd_process s of
           None \<Rightarrow> add_task (ex_after x) (emit_wrapped x (not_running env i) s)
         | Some p \<Rightarrow>
             if cd_state s \<noteq> drv_ready then add_task (ex_after x) (emit_wrapped x (not_running env i) s)
             else
               let t = cd_nextTurn s; turn = new_turn env x s;
                   s1 = s\<lparr>cd_state := drv_busy, cd_turns := (cd_turns s)(t := turn), cd_nextTurn := t + 1, cd_activeTurn := Some t\<rparr>;
                   s2 = (if ex_attempt (cd_execs s x) = 1 then emit_wrapped x (Started (xi_modelId i)) s1 else s1)
               in add_task (ex_turn x t)
                    (dlog (wrote_user x t p (user_frame i (tu_uuid turn)))
                      (put_turn t (\<lambda>u. u\<lparr>tu_turnTimer := True\<rparr>) (armIdleTimer t s2))))"

definition stopLatched :: "nat \<Rightarrow> claude \<Rightarrow> bool" where
  "stopLatched x s \<longleftrightarrow>
     xi_executionId (ex_input (cd_execs s x)) \<in> set (cd_cancellingExecutions s) \<or> isClosingOrClosed s"

text \<open>The end of \<open>execute\<close>, with its \<open>finally\<close>.\<close>

definition execute_returns :: "nat \<Rightarrow> claude \<Rightarrow> claude" where
  "execute_returns x s =
     dlog (execute_returned x)
       (s\<lparr>cd_cancellingExecutions := removeAll (xi_executionId (ex_input (cd_execs s x))) (cd_cancellingExecutions s)\<rparr>)"

definition emitStoppedBeforeRetry :: "nat \<Rightarrow> claude \<Rightarrow> claude" where
  "emitStoppedBeforeRetry x = dlog (drv_emitted x (Interrupted int_user_cancelled not_dispatched tool_none))"

text \<open>One round of the loop of \<open>execute\<close> up to the await on the turn.\<close>

definition execute_round :: "claude_env \<Rightarrow> nat \<Rightarrow> claude \<Rightarrow> claude" where
  "execute_round env x s =
     (let s1 = put_exec x (\<lambda>e. e\<lparr>ex_attempt := ex_attempt e + 1\<rparr>) s
      in if ex_attempt (cd_execs s1 x) > 1 \<and> stopLatched x s1 then execute_returns x (emitStoppedBeforeRetry x s1)
         else runTurn env x (put_exec x (\<lambda>e. e\<lparr>ex_failedRetryable := False\<rparr>) s1))"

definition execute :: "claude_env \<Rightarrow> ExecuteInput \<Rightarrow> claude \<Rightarrow> claude" where
  "execute env i s =
     (let x = cd_nextExec s; s1 = s\<lparr>cd_nextExec := x + 1\<rparr>
      in if cd_activeTurn s \<noteq> None then dlog (execute_threw x (coded_throw ''participant busy'' PARTICIPANT_BUSY)) s1
         else
           execute_round env x
             (put_exec x (\<lambda>_. \<lparr>ex_input = i, ex_attempt = 0, ex_closedAtEntry = isClosingOrClosed s, ex_failedRetryable = False\<rparr>) s1))"

text \<open>After the turn: the safe retry, with the gap in which a process is started.\<close>

definition after_turn :: "claude_env \<Rightarrow> nat \<Rightarrow> claude \<Rightarrow> claude" where
  "after_turn env x s =
     (if \<not> ex_failedRetryable (cd_execs s x) \<or> 2 \<le> ex_attempt (cd_execs s x) then execute_returns x s
      else if cd_process s = None then respawn env (rsp_retry x) s
      else add_task (ex_gap x False) s)"

definition respawn_failed_event :: "claude_env \<Rightarrow> ExecuteInput \<Rightarrow> DriverEvent" where
  "respawn_failed_event env i =
     Failed (makeError DRIVER_SPAWN_FAILED ph_dispatch ''respawn failed during safe retry''
        (no_extra\<lparr>xt_driverId := Some claude_stream_json, xt_executionId := Some (xi_executionId i),
                  xt_participantId := Some (ce_participantId env)\<rparr>))
       not_dispatched tool_none False"

definition after_gap :: "claude_env \<Rightarrow> nat \<Rightarrow> bool \<Rightarrow> claude \<Rightarrow> claude" where
  "after_gap env x failed s =
     (if stopLatched x s then execute_returns x (emitStoppedBeforeRetry x s)
      else if failed then execute_returns x (dlog (drv_emitted x (respawn_failed_event env (ex_input (cd_execs s x)))) s)
      else execute_round env x s)"

section \<open>Callbacks and timers of a turn\<close>

definition user_write_done :: "claude_env \<Rightarrow> nat \<Rightarrow> string option \<Rightarrow> claude \<Rightarrow> claude" where
  "user_write_done env t failed s =
     (case failed of
        Some message \<Rightarrow>
          if may_settle t s
          then terminateTurn t (Inl (turn_error env s t DRIVER_CRASH ph_dispatch (''stdin write failed: '' @ message) (Some True))) s
          else s
      | None \<Rightarrow> dlog (write_confirmed t) (put_turn t (\<lambda>u. u\<lparr>tu_dispatchState := dispatch_unknown, tu_dispatchTimer := True\<rparr>) s))"

definition idle_timer :: "claude_env \<Rightarrow> nat \<Rightarrow> claude \<Rightarrow> claude" where
  "idle_timer env t s =
     (let s1 = put_turn t (\<lambda>u. u\<lparr>tu_idleTimer := False\<rparr>) s
      in if may_settle t s1
         then terminateTurn t (Inl ((turn_error env s1 t STREAM_IDLE_TIMEOUT ph_stream ''No protocol frames within the idle limit.'' None)
                \<lparr>err_limitMs := Some (ce_streamIdleMs env)\<rparr>)) s1
         else s1)"

definition turn_timer :: "claude_env \<Rightarrow> nat \<Rightarrow> claude \<Rightarrow> claude" where
  "turn_timer env t s =
     (let s1 = put_turn t (\<lambda>u. u\<lparr>tu_turnTimer := False\<rparr>) s
      in if may_settle t s1 then respawn env (rsp_unwatched ''turn_timeout'') (terminateTurn t (Inr int_timeout) s1)
         else s1)"

definition dispatch_timer :: "claude_env \<Rightarrow> nat \<Rightarrow> claude \<Rightarrow> claude" where
  "dispatch_timer env t s =
     (let s1 = put_turn t (\<lambda>u. u\<lparr>tu_dispatchTimer := False\<rparr>) s
      in if \<not> may_settle t s1 \<or> tu_dispatchState (cd_turns s1 t) \<noteq> dispatch_unknown then s1
         else respawn env (rsp_unwatched ''dispatch_timeout'')
                (terminateTurn t (Inl (turn_error env s1 t DISPATCH_TIMEOUT ph_dispatch ''No enqueue replay within the dispatch window.'' None)) s1))"

section \<open>What a process does\<close>

definition onProcessExit :: "claude_env \<Rightarrow> string option \<Rightarrow> string option \<Rightarrow> claude \<Rightarrow> claude" where
  "onProcessExit env code signal s =
     (let s1 = s\<lparr>cd_process := None\<rparr>;
          s2 = (if isClosingOrClosed s1 then s1 else s1\<lparr>cd_sessionEpoch := cd_sessionEpoch s1 + 1, cd_state := drv_cold\<rparr>);
          s3 = failAllPendingControls (if isClosingOrClosed s2 then closed_during_prewarm else plain_throw ''driver process exited'')
                 (s2\<lparr>cd_initVerified := False\<rparr>)
      in case cd_activeTurn s3 of
           None \<Rightarrow> s3
         | Some t \<Rightarrow>
             if tu_cancelling (cd_turns s3 t) then terminateTurn t (Inr int_user_cancelled) s3
             else
               terminateTurn t (Inl (turn_error env s3 t DRIVER_CRASH ph_stream
                   (''driver process exited (code='' @ js_null code @ '' signal='' @ js_null signal @ '')'')
                   (Some (tu_dispatchState (cd_turns s3 t) = not_dispatched)))) s3)"

definition onLimitExceeded :: "claude_env \<Rightarrow> claude \<Rightarrow> claude" where
  "onLimitExceeded env s =
     (case cd_activeTurn s of
        None \<Rightarrow> respawn env (rsp_unwatched ''protocol_limit'') s
      | Some t \<Rightarrow>
          if tu_cancelling (cd_turns s t) then s
          else respawn env (rsp_unwatched ''protocol_limit'')
                 (terminateTurn t (Inl (turn_error env s t PROTOCOL_LIMIT ph_stream ''NDJSON line exceeded the 8 MiB limit.'' None)) s))"

definition consume :: "claude_env \<Rightarrow> ndjson_call \<Rightarrow> claude \<Rightarrow> claude" where
  "consume env call s =
     (case call of
        nd_line line \<Rightarrow> (case ce_parse env line of None \<Rightarrow> s | Some message \<Rightarrow> onFrame env message s)
      | nd_limit \<Rightarrow> onLimitExceeded env s
      | nd_end \<Rightarrow> s)"

text \<open>When the callback throws, the rest of the chunk is not looked at any more.\<close>

definition callback_throws :: "claude_env \<Rightarrow> ndjson_call \<Rightarrow> bool" where
  "callback_throws env call = (case call of nd_line line \<Rightarrow> ce_parse env line = Some JNull | _ \<Rightarrow> False)"

fun consume_all :: "claude_env \<Rightarrow> ndjson_call list \<Rightarrow> claude \<Rightarrow> claude" where
  "consume_all env [] s = s"
| "consume_all env (call # calls) s =
     (if callback_throws env call then consume env call s else consume_all env calls (consume env call s))"

definition stdout_data :: "claude_env \<Rightarrow> nat \<Rightarrow> string \<Rightarrow> claude \<Rightarrow> claude" where
  "stdout_data env p chunk s =
     (case ndjson_data (ce_utf8 env) chunk (cd_splitters s p) of
        (calls, sp) \<Rightarrow> consume_all env calls (s\<lparr>cd_splitters := (cd_splitters s)(p := sp)\<rparr>))"

definition stdout_end :: "claude_env \<Rightarrow> nat \<Rightarrow> claude \<Rightarrow> claude" where
  "stdout_end env p s = consume_all env (ndjson_end (ce_utf8 env) (cd_splitters s p)) s"

section \<open>Cancelling and closing\<close>

definition cancel :: "claude_env \<Rightarrow> string \<Rightarrow> claude \<Rightarrow> claude" where
  "cancel env executionId s =
     (let c = cd_nextCall s;
          s1 = dlog (cancel_called executionId)
                 (s\<lparr>cd_nextCall := c + 1,
                    cd_cancellingExecutions := (if executionId \<in> set (cd_cancellingExecutions s) then cd_cancellingExecutions s
                       else cd_cancellingExecutions s @ [executionId])\<rparr>)
      in case cd_activeTurn s1 of
           None \<Rightarrow> dlog (cancel_returned c) s1
         | Some t \<Rightarrow>
             if tu_executionId (cd_turns s1 t) \<noteq> executionId then dlog (cancel_returned c) s1
             else sendControl env (for_cancel c t) ''interrupt''
                    (clearTurnTimers t (put_turn t (\<lambda>u. u\<lparr>tu_cancelling := True\<rparr>) s1)))"

text \<open>The loop that waits for the turn to end; \<open>expired\<close> says that its deadline has passed.\<close>

definition cancel_poll :: "claude_env \<Rightarrow> nat \<Rightarrow> nat \<Rightarrow> bool \<Rightarrow> claude \<Rightarrow> claude" where
  "cancel_poll env c t expired s =
     (if cd_activeTurn s \<noteq> Some t then dlog (cancel_returned c) s
      else if \<not> expired then add_task (cn_poll c t) s
      else
        respawn env (rsp_cancel c)
          (terminateTurn t (Inr int_user_cancelled) (case cd_process s of None \<Rightarrow> s | Some p \<Rightarrow> dlog (asked_kill p) s)))"

definition close_done :: "nat \<Rightarrow> claude \<Rightarrow> claude" where
  "close_done k s = dlog (close_returned k) (s\<lparr>cd_sessionEpoch := cd_sessionEpoch s + 1, cd_state := drv_closed\<rparr>)"

definition close_process :: "nat \<Rightarrow> claude \<Rightarrow> claude" where
  "close_process k s =
     (case cd_process s of
        None \<Rightarrow> close_done k s
      | Some p \<Rightarrow> add_task (close_shutdown k p) (dlog (asked_shutdown p) (dlog (closed_stdin p) (s\<lparr>cd_process := None\<rparr>))))"

definition close_after_control :: "nat \<Rightarrow> claude \<Rightarrow> claude" where
  "close_after_control k s =
     (case cd_pendingSpawn s of
        None \<Rightarrow> close_process k s
      | Some sp \<Rightarrow> add_task (close_spawn k sp) s)"

definition close :: "claude_env \<Rightarrow> claude \<Rightarrow> claude" where
  "close env s =
     (let k = cd_nextCall s; s1 = dlog (close_called k) (s\<lparr>cd_nextCall := k + 1, cd_state := drv_closing\<rparr>)
      in case cd_activeTurn s1 of
           None \<Rightarrow> close_after_control k s1
         | Some t \<Rightarrow>
             sendControl env (for_close k) ''interrupt'' (clearTurnTimers t (put_turn t (\<lambda>u. u\<lparr>tu_cancelling := True\<rparr>) s1)))"

section \<open>Everything that can happen\<close>

text \<open>The environment may do more than a process of node can: a request may expire or its write fail
  at any time and more than once, and the callback of a write may come twice.  What holds for all
  of that holds for less.\<close>

definition drop_task :: "driver_task \<Rightarrow> claude \<Rightarrow> claude" where
  "drop_task k s = s\<lparr>cd_tasks := remove1 k (cd_tasks s)\<rparr>"

definition call_prewarm :: "claude_env \<Rightarrow> ParticipantSpec \<Rightarrow> InstallationRecord \<Rightarrow> claude \<Rightarrow> claude" where
  "call_prewarm env spec ir s = prewarm env (cd_nextCall s) spec ir (s\<lparr>cd_nextCall := cd_nextCall s + 1\<rparr>)"

text \<open>What becomes of a task the environment lets go on, with what it awaited: an error, or none, and
  for a spawn the process that was started; a spawn gives its number to its process.\<close>

fun go_on :: "claude_env \<Rightarrow> driver_task \<Rightarrow> DriverThrow option \<Rightarrow> bool \<Rightarrow> claude \<Rightarrow> claude" where
  "go_on env (hs_mkdir owner spec) failed flag s = after_mkdir env owner spec failed s"
| "go_on env (hs_spawn owner sp) failed flag s = after_spawn owner sp (case failed of Some e \<Rightarrow> Inl e | None \<Rightarrow> Inr sp) s"
| "go_on env (hs_late owner sp p) failed flag s = after_late_shutdown owner sp s"
| "go_on env (hs_adopt owner sp result) failed flag s = adopt owner sp result s"
| "go_on env (hs_supervised owner p) failed flag s = after_supervised env owner failed s"
| "go_on env (hs_done owner outcome) failed flag s = handshake_settled owner outcome s"
| "go_on env (on_control n user) failed flag s = add_task (on_control n user) s"
| "go_on env (got_control user result) failed flag s =
     (case user of
        for_init owner \<Rightarrow> after_initialize env owner result s
      | for_cancel c t \<Rightarrow> add_task (cn_poll c t) s
      | for_close k \<Rightarrow> close_after_control k s)"
| "go_on env (rs_shutdown r p) failed flag s = respawn_start env r s"
| "go_on env (ex_turn x t) failed flag s = (if tu_resolved (cd_turns s t) then after_turn env x s else add_task (ex_turn x t) s)"
| "go_on env (ex_after x) failed flag s = after_turn env x s"
| "go_on env (ex_gap x spawn_failed) failed flag s = after_gap env x spawn_failed s"
| "go_on env (cn_poll c t) failed flag s = cancel_poll env c t flag s"
| "go_on env (close_spawn k sp) failed flag s =
     (if sp \<in> set (cd_settledSpawns s) then close_process k (s\<lparr>cd_pendingSpawn := None\<rparr>) else add_task (close_spawn k sp) s)"
| "go_on env (close_shutdown k p) failed flag s = close_done k s"

inductive claude_step :: "claude_env \<Rightarrow> claude \<Rightarrow> claude \<Rightarrow> bool" for env where
  call_prewarm: "claude_step env s (call_prewarm env spec ir s)"
| call_execute: "claude_step env s (execute env i s)"
| call_cancel: "claude_step env s (cancel env executionId s)"
| call_close: "claude_step env s (close env s)"
| task_goes_on: "k \<in> set (cd_tasks s) \<Longrightarrow> claude_step env s (go_on env k failed flag (drop_task k s))"
| control_write: "claude_step env s (control_write_failed env n message s)"
| control_expires: "claude_step env s (control_deadline env n s)"
| write_callback: "t < cd_nextTurn s \<Longrightarrow> claude_step env s (user_write_done env t failed_write s)"
| idle_fires: "tu_idleTimer (cd_turns s t) \<Longrightarrow> claude_step env s (idle_timer env t s)"
| turn_fires: "tu_turnTimer (cd_turns s t) \<Longrightarrow> claude_step env s (turn_timer env t s)"
| dispatch_fires: "tu_dispatchTimer (cd_turns s t) \<Longrightarrow> claude_step env s (dispatch_timer env t s)"
| process_exits: "p \<in> set (cd_attached s) \<Longrightarrow> claude_step env s (onProcessExit env code signal s)"
| process_writes: "p \<in> set (cd_attached s) \<Longrightarrow> claude_step env s (stdout_data env p chunk s)"
| process_ends: "p \<in> set (cd_attached s) \<Longrightarrow> claude_step env s (stdout_end env p s)"

text \<open>A driver as it is created.\<close>

definition createClaudeStreamJsonDriver :: claude where
  "createClaudeStreamJsonDriver =
     \<lparr>cd_state = drv_cold, cd_process = None, cd_pendingSpawn = None, cd_sessionEpoch = 0, cd_canonicalModel = None,
      cd_catalog = [], cd_initVerified = False, cd_lastCumulative = (0, 0, ''0''), cd_activeTurn = None,
      cd_cancellingExecutions = [], cd_requestCounter = 0, cd_pendingControls = [], cd_route = ''ant-glm5.2'', cd_persona = None,
      cd_lastInstallation = None,
      cd_turns = (\<lambda>_. \<lparr>tu_exec = 0, tu_executionId = [], tu_uuid = [], tu_modelId = [], tu_dispatchState = not_dispatched,
        tu_sawAssistantText = False, tu_cancelling = False, tu_settled = False, tu_idleTimer = False, tu_turnTimer = False,
        tu_dispatchTimer = False, tu_resolved = False\<rparr>),
      cd_nextTurn = 0,
      cd_execs = (\<lambda>_. \<lparr>ex_input = \<lparr>xi_executionId = [], xi_prompt = [], xi_modelId = [], xi_coldStart = False\<rparr>, ex_attempt = 0,
        ex_closedAtEntry = False, ex_failedRetryable = False\<rparr>),
      cd_nextExec = 0, cd_tasks = [], cd_nextSpawn = 0, cd_settledSpawns = [], cd_splitters = (\<lambda>_. new_splitter),
      cd_attached = [], cd_nextCall = 0, cd_log = []\<rparr>"

abbreviation claude_reachable :: "claude_env \<Rightarrow> claude \<Rightarrow> bool" where
  "claude_reachable env s \<equiv> (claude_step env)\<^sup>*\<^sup>* createClaudeStreamJsonDriver s"

section \<open>What the scope manager reads\<close>

definition capability_ready :: "claude \<Rightarrow> bool" where
  "capability_ready s \<longleftrightarrow> cd_state s = drv_ready \<or> cd_state s = drv_busy"

definition contextWindowTokens :: "claude \<Rightarrow> nat option" where
  "contextWindowTokens s = rt_contextWindowTokens (ROUTES (cd_route s))"

end
