(* ===== verification/Claude_Properties.thy ===== *)
theory Claude_Properties
  imports Claude_Driver "HOL-Library.Multiset"
begin

text \<open>
  What the driver promises the scope manager.  A call of \<open>execute\<close> that has not ended is carried on
  by exactly one task (a token); the invariant says, for the stage that token stands for, which
  events the call has emitted.  From it follows that a call emits one terminal event, as its last.
\<close>

section \<open>Tokens\<close>

datatype token = tok_turn nat nat | tok_after nat | tok_wait nat

fun token_exec :: "token \<Rightarrow> nat" where
  "token_exec (tok_turn x t) = x"
| "token_exec (tok_after x) = x"
| "token_exec (tok_wait x) = x"

fun respawner_tokens :: "respawner \<Rightarrow> token list" where
  "respawner_tokens (rsp_retry x) = [tok_wait x]"
| "respawner_tokens _ = []"

fun handshaker_tokens :: "handshaker \<Rightarrow> token list" where
  "handshaker_tokens (own_respawn r) = respawner_tokens r"
| "handshaker_tokens _ = []"

fun user_tokens :: "control_user \<Rightarrow> token list" where
  "user_tokens (for_init owner) = handshaker_tokens owner"
| "user_tokens _ = []"

fun task_tokens :: "driver_task \<Rightarrow> token list" where
  "task_tokens (hs_mkdir owner spec) = handshaker_tokens owner"
| "task_tokens (hs_spawn owner sp) = handshaker_tokens owner"
| "task_tokens (hs_late owner sp p) = handshaker_tokens owner"
| "task_tokens (hs_adopt owner sp result) = handshaker_tokens owner"
| "task_tokens (hs_supervised owner p) = handshaker_tokens owner"
| "task_tokens (hs_done owner outcome) = handshaker_tokens owner"
| "task_tokens (on_control n user) = user_tokens user"
| "task_tokens (got_control user result) = user_tokens user"
| "task_tokens (rs_shutdown r p) = respawner_tokens r"
| "task_tokens (ex_turn x t) = [tok_turn x t]"
| "task_tokens (ex_after x) = [tok_after x]"
| "task_tokens (ex_gap x failed) = [tok_wait x]"
| "task_tokens (cn_poll c t) = []"
| "task_tokens (close_spawn k sp) = []"
| "task_tokens (close_shutdown k p) = []"

definition tokens :: "claude \<Rightarrow> token multiset" where
  "tokens s = mset (concat (map task_tokens (cd_tasks s)))"

text \<open>The events that belong to a call of \<open>execute\<close>.\<close>

fun exec_event :: "driver_event \<Rightarrow> bool" where
  "exec_event (drv_emitted x ev) = True"
| "exec_event (execute_threw x e) = True"
| "exec_event (execute_returned x) = True"
| "exec_event _ = False"

definition exec_log :: "claude \<Rightarrow> driver_event list" where
  "exec_log s = filter exec_event (cd_log s)"

text \<open>From \<open>s\<close> to \<open>s'\<close> nothing has changed for the calls of \<open>execute\<close> but that tokens were added.\<close>

definition gives :: "token list \<Rightarrow> claude \<Rightarrow> claude \<Rightarrow> bool" where
  "gives ts s s' \<longleftrightarrow> tokens s' = tokens s + mset ts \<and> exec_log s' = exec_log s \<and> cd_execs s' = cd_execs s
    \<and> cd_nextExec s' = cd_nextExec s \<and> cd_activeTurn s' = cd_activeTurn s \<and> cd_nextTurn s' = cd_nextTurn s
    \<and> (\<forall>t. tu_exec (cd_turns s' t) = tu_exec (cd_turns s t) \<and> tu_resolved (cd_turns s' t) = tu_resolved (cd_turns s t))"

abbreviation keeps_calls :: "claude \<Rightarrow> claude \<Rightarrow> bool" where
  "keeps_calls \<equiv> gives []"

lemma gives_refl [simp]: "gives [] s s"
  by (simp add: gives_def)

lemma gives_trans: "gives ts s s' \<Longrightarrow> gives us s' s'' \<Longrightarrow> gives (ts @ us) s s''"
  by (simp add: gives_def ac_simps)

lemma gives_after: "gives [] s s' \<Longrightarrow> gives us s' s'' \<Longrightarrow> gives us s s''"
  using gives_trans [of "[]"] by simp

lemma gives_then: "gives us s s' \<Longrightarrow> gives [] s' s'' \<Longrightarrow> gives us s s''"
  using gives_trans [of us s s' "[]"] by simp

lemma gives_add_task: "gives (task_tokens k) s (add_task k s)"
  by (simp add: gives_def add_task_def tokens_def exec_log_def)

lemma gives_dlog: "\<not> exec_event ev \<Longrightarrow> gives [] s (dlog ev s)"
  by (simp add: gives_def dlog_def tokens_def exec_log_def)

lemma gives_put_turn:
  "(\<And>u. tu_exec (f u) = tu_exec u \<and> tu_resolved (f u) = tu_resolved u) \<Longrightarrow> gives [] s (put_turn t f s)"
  by (simp add: gives_def put_turn_def tokens_def exec_log_def)

text \<open>Assignments to variables that no token speaks of.\<close>

lemma gives_assign [simp]:
  "gives ts s (s'\<lparr>cd_state := a\<rparr>) = gives ts s s'" "gives ts s (s'\<lparr>cd_process := b\<rparr>) = gives ts s s'"
  "gives ts s (s'\<lparr>cd_pendingSpawn := b\<rparr>) = gives ts s s'" "gives ts s (s'\<lparr>cd_sessionEpoch := n\<rparr>) = gives ts s s'"
  "gives ts s (s'\<lparr>cd_canonicalModel := m\<rparr>) = gives ts s s'" "gives ts s (s'\<lparr>cd_catalog := c\<rparr>) = gives ts s s'"
  "gives ts s (s'\<lparr>cd_initVerified := v\<rparr>) = gives ts s s'" "gives ts s (s'\<lparr>cd_lastCumulative := u\<rparr>) = gives ts s s'"
  "gives ts s (s'\<lparr>cd_cancellingExecutions := ids\<rparr>) = gives ts s s'" "gives ts s (s'\<lparr>cd_requestCounter := n\<rparr>) = gives ts s s'"
  "gives ts s (s'\<lparr>cd_pendingControls := pc\<rparr>) = gives ts s s'" "gives ts s (s'\<lparr>cd_route := r\<rparr>) = gives ts s s'"
  "gives ts s (s'\<lparr>cd_persona := m\<rparr>) = gives ts s s'" "gives ts s (s'\<lparr>cd_lastInstallation := i\<rparr>) = gives ts s s'"
  "gives ts s (s'\<lparr>cd_nextSpawn := n\<rparr>) = gives ts s s'" "gives ts s (s'\<lparr>cd_settledSpawns := ns\<rparr>) = gives ts s s'"
  "gives ts s (s'\<lparr>cd_splitters := sp\<rparr>) = gives ts s s'" "gives ts s (s'\<lparr>cd_attached := ns\<rparr>) = gives ts s s'"
  "gives ts s (s'\<lparr>cd_nextCall := n\<rparr>) = gives ts s s'"
  by (simp_all add: gives_def tokens_def exec_log_def)

lemma gives_from [simp]:
  "gives ts (s\<lparr>cd_state := a\<rparr>) s' = gives ts s s'" "gives ts (s\<lparr>cd_process := b\<rparr>) s' = gives ts s s'"
  "gives ts (s\<lparr>cd_pendingSpawn := b\<rparr>) s' = gives ts s s'" "gives ts (s\<lparr>cd_sessionEpoch := n\<rparr>) s' = gives ts s s'"
  "gives ts (s\<lparr>cd_initVerified := v\<rparr>) s' = gives ts s s'" "gives ts (s\<lparr>cd_lastCumulative := u\<rparr>) s' = gives ts s s'"
  "gives ts (s\<lparr>cd_nextCall := n\<rparr>) s' = gives ts s s'" "gives ts (s\<lparr>cd_splitters := sp\<rparr>) s' = gives ts s s'"
  "gives ts (s\<lparr>cd_pendingControls := pc\<rparr>) s' = gives ts s s'"
  by (simp_all add: gives_def tokens_def exec_log_def)

section \<open>Operations that only pass tokens on\<close>

lemma gives_sendControl: "gives (user_tokens user) s (sendControl env user st s)"
proof (cases "cd_process s")
  case None
  then show ?thesis using gives_add_task [of "got_control user (Inl (plain_throw ''driver process not running''))" s]
    by (simp add: sendControl_def)
next
  case (Some p)
  then show ?thesis
    by (simp add: sendControl_def Let_def) (rule gives_after [OF _ gives_add_task [of "on_control (Suc (cd_requestCounter s)) user", simplified]],
      rule gives_after [OF _ gives_dlog], simp_all)
qed

lemma control_ready_tokens [simp]: "task_tokens (control_ready n result k) = task_tokens k"
  by (cases k) auto

lemma gives_settle_control [simp]: "gives ts s (settle_control n result s') = gives ts s s'"
  by (simp add: gives_def settle_control_def tokens_def exec_log_def comp_def)

lemma gives_settle_all [simp]: "gives ts s (fold (\<lambda>(rid, n). settle_control n (Inl failure)) pcs s') = gives ts s s'"
proof (induction pcs arbitrary: s')
  case (Cons p pcs)
  then show ?case by (cases p) simp
qed simp

lemma gives_failAll [simp]: "gives ts s (failAllPendingControls failure s') = gives ts s s'"
  by (simp add: failAllPendingControls_def)

lemma gives_handleControlResponse [simp]: "gives ts s (snd (handleControlResponse env message s')) = gives ts s s'"
proof -
  have "snd (handleControlResponse env message s') = s'
      \<or> (\<exists>n r pcs. snd (handleControlResponse env message s') = settle_control n r (s'\<lparr>cd_pendingControls := pcs\<rparr>))"
  proof (cases "json_field message ''response''")
    case (Some response)
    show ?thesis
    proof (cases "string_field response ''request_id''")
      case (Some rid)
      with \<open>json_field message ''response'' = Some response\<close> show ?thesis
        by (cases "jm_get (cd_pendingControls s') rid") (auto simp: handleControlResponse_def Let_def)
    qed (use Some in \<open>simp add: handleControlResponse_def\<close>)
  qed (simp add: handleControlResponse_def)
  then show ?thesis by auto
qed

lemma gives_dlog_eq [simp]: "\<not> exec_event ev \<Longrightarrow> gives ts s (dlog ev s') = gives ts s s'"
  by (simp add: gives_def dlog_def tokens_def exec_log_def)

lemma gives_clearTurnTimers [simp]: "gives ts s (clearTurnTimers t s') = gives ts s s'"
  by (auto simp: gives_def clearTurnTimers_def put_turn_def tokens_def exec_log_def)

lemma gives_put_turn_eq:
  "(\<And>u. tu_exec (f u) = tu_exec u \<and> tu_resolved (f u) = tu_resolved u) \<Longrightarrow> gives ts s (put_turn t f s') = gives ts s s'"
  by (auto simp: gives_def put_turn_def tokens_def exec_log_def)

lemma gives_armIdleTimer [simp]: "gives ts s (armIdleTimer t s') = gives ts s s'"
  by (simp add: armIdleTimer_def gives_put_turn_eq)

lemma gives_spawnAndHandshake: "gives (handshaker_tokens owner) s (spawnAndHandshake env owner ir s)"
  using gives_add_task [of "hs_done owner _"] gives_add_task [of "hs_mkdir owner _"]
  by (simp add: spawnAndHandshake_def split: sum.split)

lemma gives_after_mkdir: "gives (handshaker_tokens owner) s (after_mkdir env owner spec failed s)"
  unfolding after_mkdir_def Let_def
  by (auto split: option.split intro!: gives_add_task [of "hs_done owner _", simplified]
      gives_after [OF _ gives_add_task [of "hs_spawn owner _", simplified]])

lemma gives_settle_spawn: "gives (handshaker_tokens owner) s (settle_spawn owner sp result s)"
  unfolding settle_spawn_def
  by (rule gives_after [OF _ gives_add_task [of "hs_adopt owner sp result", simplified]]) simp

lemma gives_after_spawn: "gives (handshaker_tokens owner) s (after_spawn owner sp result s)"
  unfolding after_spawn_def
  by (auto split: sum.split intro: gives_settle_spawn gives_after [OF _ gives_add_task [of "hs_late owner sp _", simplified]])

lemma gives_adopt: "gives (handshaker_tokens owner) s (adopt owner sp result s)"
  unfolding adopt_def Let_def
  by (auto split: sum.split intro!: gives_after [OF _ gives_add_task [of "hs_done owner _", simplified]]
      gives_after [OF _ gives_add_task [of "hs_supervised owner _", simplified]])

lemma gives_after_supervised: "gives (handshaker_tokens owner) s (after_supervised env owner failed s)"
  unfolding after_supervised_def
  by (auto split: option.split intro: gives_sendControl [of "for_init owner", simplified]
      gives_add_task [of "hs_done owner _", simplified])

lemma gives_after_initialize: "gives (handshaker_tokens owner) s (after_initialize env owner reply s)"
  unfolding after_initialize_def
  by (auto split: sum.split intro!: gives_add_task [of "hs_done owner _", simplified]
      gives_after [OF _ gives_add_task [of "hs_done owner None", simplified]])

lemma gives_respawn_start: "gives (respawner_tokens r) s (respawn_start env r s)"
  unfolding respawn_start_def
  by (auto split: option.split intro!: gives_add_task [of "hs_done (own_respawn r) None", simplified]
      gives_after [OF _ gives_spawnAndHandshake [of "own_respawn r", simplified]])

lemma gives_respawn: "gives (respawner_tokens r) s (respawn env r s)"
  unfolding respawn_def Let_def
  by (auto split: option.split intro!: gives_after [OF _ gives_respawn_start]
      gives_after [OF _ gives_add_task [of "rs_shutdown r _", simplified]])

lemma gives_respawn_settled: "gives (respawner_tokens r) s (respawn_settled r failed s)"
  unfolding respawn_settled_def
  by (auto split: respawner.split option.split intro!: gives_add_task [of "ex_gap _ _", simplified])

lemma gives_handshake_settled: "gives (handshaker_tokens owner) s (handshake_settled owner failed s)"
  unfolding handshake_settled_def
  by (auto split: handshaker.split option.split intro: gives_respawn_settled)

lemma gives_prewarm: "gives [] s (call_prewarm env spec ir s)"
  unfolding call_prewarm_def prewarm_def Let_def
  by (auto split: DriverOptions.split intro!: gives_after [OF _ gives_spawnAndHandshake [of "own_prewarm _ _", simplified]])

lemma gives_close: "gives [] s (close env s)" "gives [] s (close_after_control k s)" "gives [] s (close_process k s)"
proof -
  show 1: "gives [] s (close_process k s)" for s
    unfolding close_process_def close_done_def
    by (auto split: option.split intro!: gives_after [OF _ gives_add_task [of "close_shutdown k _", simplified]])
  show 2: "gives [] s (close_after_control k s)" for s k
    unfolding close_after_control_def close_process_def close_done_def
    by (auto split: option.split intro!: gives_after [OF _ gives_add_task [of "close_shutdown k _", simplified]]
        gives_add_task [of "close_spawn k _", simplified])
  show "gives [] s (close env s)"
    unfolding close_def Let_def
    by (auto split: option.split intro!: gives_after [OF _ 2] gives_after [OF _ gives_sendControl [of "for_close _", simplified]]
        simp: gives_put_turn_eq)
qed

lemma gives_cancel: "gives [] s (cancel env executionId s)"
  unfolding cancel_def Let_def
  by (auto split: option.split intro!: gives_after [OF _ gives_sendControl [of "for_cancel _ _", simplified]] simp: gives_put_turn_eq)

section \<open>The invariant of the calls\<close>

fun event_of :: "nat \<Rightarrow> driver_event \<Rightarrow> DriverEvent list" where
  "event_of x (drv_emitted y ev) = (if y = x then [ev] else [])"
| "event_of x _ = []"

definition events :: "nat \<Rightarrow> driver_event list \<Rightarrow> DriverEvent list" where
  "events x l = concat (map (event_of x) l)"

lemma events_simps [simp]: "events x [] = []" "events x (l @ l') = events x l @ events x l'" "events x (e # l) = event_of x e @ events x l"
  by (simp_all add: events_def)

lemma event_of_other: "\<not> exec_event e \<Longrightarrow> event_of x e = []"
  by (cases e) auto

lemma events_exec_log: "events x (filter exec_event l) = events x l"
  by (induction l) (auto simp: event_of_other)

definition no_end :: "nat \<Rightarrow> claude \<Rightarrow> bool" where
  "no_end x s \<longleftrightarrow> (\<forall>e\<in>set (events x (exec_log s)). \<not> terminal_body e)"

definition one_end :: "nat \<Rightarrow> claude \<Rightarrow> bool" where
  "one_end x s \<longleftrightarrow> (\<exists>es e. events x (exec_log s) = es @ [e] \<and> terminal_body e \<and> (\<forall>e\<in>set es. \<not> terminal_body e))"

definition started_first :: "nat \<Rightarrow> claude \<Rightarrow> bool" where
  "started_first x s \<longleftrightarrow> (\<forall>e\<in>set (tl (events x (exec_log s))). \<forall>m. e \<noteq> Started m)"

abbreviation returned :: "nat \<Rightarrow> claude \<Rightarrow> bool" where
  "returned x s \<equiv> execute_returned x \<in> set (exec_log s)"

definition threw :: "nat \<Rightarrow> claude \<Rightarrow> bool" where
  "threw x s \<longleftrightarrow> (\<exists>e. execute_threw x e \<in> set (exec_log s))"

definition finished :: "nat \<Rightarrow> claude \<Rightarrow> bool" where
  "finished x s \<longleftrightarrow>
     (if ex_failedRetryable (cd_execs s x) then no_end x s \<and> ex_attempt (cd_execs s x) = 1 else one_end x s)"

fun token_ok :: "claude \<Rightarrow> token \<Rightarrow> bool" where
  "token_ok s (tok_turn x t) \<longleftrightarrow> t < cd_nextTurn s \<and> tu_exec (cd_turns s t) = x \<and> ex_attempt (cd_execs s x) \<in> {1, 2}
     \<and> (if tu_resolved (cd_turns s t) then finished x s else no_end x s \<and> \<not> ex_failedRetryable (cd_execs s x))"
| "token_ok s (tok_after x) = finished x s"
| "token_ok s (tok_wait x) \<longleftrightarrow> no_end x s \<and> ex_attempt (cd_execs s x) = 1 \<and> ex_failedRetryable (cd_execs s x)"

definition tokens_of :: "nat \<Rightarrow> claude \<Rightarrow> token multiset" where
  "tokens_of x s = filter_mset (\<lambda>k. token_exec k = x) (tokens s)"

definition running :: "nat \<Rightarrow> claude \<Rightarrow> bool" where
  "running x s \<longleftrightarrow> x < cd_nextExec s \<and> \<not> returned x s \<and> \<not> threw x s"

definition call_ok :: "claude \<Rightarrow> nat \<Rightarrow> bool" where
  "call_ok s x \<longleftrightarrow>
     (if running x s then \<exists>k. tokens_of x s = {#k#} \<and> token_ok s k else tokens_of x s = {#})"

definition call_log_ok :: "claude \<Rightarrow> nat \<Rightarrow> bool" where
  "call_log_ok s x \<longleftrightarrow> started_first x s
     \<and> (if x < cd_nextExec s then (returned x s \<longrightarrow> one_end x s) \<and> (threw x s \<longrightarrow> events x (exec_log s) = [])
        else \<not> returned x s \<and> \<not> threw x s \<and> events x (exec_log s) = [])"

definition active_ok :: "claude \<Rightarrow> bool" where
  "active_ok s \<longleftrightarrow> (\<forall>t. cd_activeTurn s = Some t \<longrightarrow>
     tok_turn (tu_exec (cd_turns s t)) t \<in># tokens s \<and> \<not> tu_resolved (cd_turns s t))"

text \<open>\<open>held\<close> is the call whose token has been taken and not yet been given back.\<close>

definition calls_ok :: "nat option \<Rightarrow> claude \<Rightarrow> bool" where
  "calls_ok held s \<longleftrightarrow> active_ok s \<and> (\<forall>x. call_log_ok s x
     \<and> (if held = Some x then running x s \<and> tokens_of x s = {#} else call_ok s x))"

lemma calls_okD:
  assumes "calls_ok held s"
  shows "active_ok s" "call_log_ok s x" "held = Some x \<Longrightarrow> running x s" "held = Some x \<Longrightarrow> tokens_of x s = {#}"
    "held \<noteq> Some x \<Longrightarrow> call_ok s x"
  using assms by (auto simp: calls_ok_def)

section \<open>Passing tokens keeps the invariant\<close>

lemma gives_views:
  assumes "gives ts s s'"
  shows "no_end x s' = no_end x s" "one_end x s' = one_end x s" "started_first x s' = started_first x s"
    "returned x s' = returned x s" "threw x s' = threw x s" "finished x s' = finished x s" "token_ok s' k = token_ok s k"
    "running x s' = running x s" "call_log_ok s' x = call_log_ok s x"
proof -
  show 1: "no_end x s' = no_end x s" "one_end x s' = one_end x s" "started_first x s' = started_first x s"
    "returned x s' = returned x s" "threw x s' = threw x s" for x
    using assms by (simp_all add: gives_def no_end_def one_end_def started_first_def threw_def)
  show 2: "finished x s' = finished x s" for x using assms 1 by (simp add: finished_def gives_def)
  show "token_ok s' k = token_ok s k" using assms 1 2 by (cases k) (simp_all add: gives_def)
  show "running x s' = running x s" "call_log_ok s' x = call_log_ok s x"
    using assms 1 by (simp_all add: running_def call_log_ok_def gives_def)
qed

lemma keeps_calls_ok:
  assumes "keeps_calls s s'" "calls_ok held s"
  shows "calls_ok held s'"
proof -
  have t: "tokens s' = tokens s" using assms(1) by (simp add: gives_def)
  then have of: "tokens_of x s' = tokens_of x s" for x by (simp add: tokens_of_def)
  have "call_ok s' x = call_ok s x" for x using of gives_views [OF assms(1)] by (simp add: call_ok_def)
  moreover have "active_ok s' = active_ok s" using assms(1) t by (simp add: active_ok_def gives_def)
  ultimately show ?thesis using assms(2) gives_views(8,9) [OF assms(1)] of by (simp add: calls_ok_def)
qed

text \<open>The held token is given back.\<close>

lemma gives_back:
  assumes "gives [k] s s'" "calls_ok (Some (token_exec k)) s" "token_ok s k"
  shows "calls_ok None s'"
proof -
  have t: "tokens s' = add_mset k (tokens s)" using assms(1) by (simp add: gives_def)
  have of: "tokens_of x s' = (if x = token_exec k then add_mset k (tokens_of x s) else tokens_of x s)" for x
    by (simp add: tokens_of_def t)
  have "active_ok s'" using calls_okD(1) [OF assms(2)] assms(1) t by (auto simp: active_ok_def gives_def)
  moreover have "call_ok s' x" for x
  proof (cases "x = token_exec k")
    case True
    with of [of x] calls_okD(3,4) [OF assms(2)] gives_views [OF assms(1)] assms(3) show ?thesis by (simp add: call_ok_def)
  next
    case False
    with of [of x] calls_okD(5) [OF assms(2), of x] gives_views [OF assms(1)] show ?thesis by (simp add: call_ok_def)
  qed
  ultimately show ?thesis using calls_okD(2) [OF assms(2)] gives_views [OF assms(1)] by (simp add: calls_ok_def)
qed

text \<open>A task is taken out of the list; passing its tokens on changes nothing.\<close>

lemma tokens_drop: "k \<in> set (cd_tasks s) \<Longrightarrow> tokens s = tokens (drop_task k s) + mset (task_tokens k)"
proof -
  have "k \<in> set ks \<Longrightarrow> mset (concat (map task_tokens ks)) = mset (concat (map task_tokens (remove1 k ks))) + mset (task_tokens k)" for ks
    by (induction ks) (auto simp: ac_simps)
  then show "k \<in> set (cd_tasks s) \<Longrightarrow> ?thesis" by (simp add: tokens_def drop_task_def)
qed

lemma passes_on:
  assumes "k \<in> set (cd_tasks s)" "gives (task_tokens k) (drop_task k s) s'"
  shows "keeps_calls s s'"
  using assms(2) tokens_drop [OF assms(1)] by (simp add: gives_def drop_task_def exec_log_def)

lemma take_token:
  assumes "calls_ok None s" "k \<in> set (cd_tasks s)" "task_tokens k = [tok]"
    and "\<And>x t. tok = tok_turn x t \<Longrightarrow> tu_resolved (cd_turns s t)"
  shows "calls_ok (Some (token_exec tok)) (drop_task k s) \<and> token_ok (drop_task k s) tok"
proof -
  let ?d = "drop_task k s"
  have t: "tokens s = add_mset tok (tokens ?d)" using tokens_drop [OF assms(2)] assms(3) by simp
  have of: "tokens_of x s = (if x = token_exec tok then add_mset tok (tokens_of x ?d) else tokens_of x ?d)" for x
    by (simp add: tokens_of_def t)
  have views: "token_ok ?d j = token_ok s j" "running x ?d = running x s" "call_log_ok ?d x = call_log_ok s x" for j x
  proof -
    have "no_end x ?d = no_end x s" "finished x ?d = finished x s" for x
      by (simp_all add: no_end_def finished_def one_end_def drop_task_def exec_log_def)
    then show "token_ok ?d j = token_ok s j" by (cases j) (simp_all add: drop_task_def)
    show "running x ?d = running x s" "call_log_ok ?d x = call_log_ok s x"
      by (simp_all add: running_def call_log_ok_def threw_def started_first_def one_end_def drop_task_def exec_log_def)
  qed
  have mine: "running (token_exec tok) s \<and> tokens_of (token_exec tok) ?d = {#} \<and> token_ok s tok"
    using calls_okD(5) [OF assms(1), of "token_exec tok"] of [of "token_exec tok"]
    by (auto simp: call_ok_def split: if_splits)
  have others: "call_ok ?d x = call_ok s x" if "x \<noteq> token_exec tok" for x
    using of [of x] that by (simp add: call_ok_def views)
  have "active_ok ?d"
  proof -
    have "tok_turn (tu_exec (cd_turns s u)) u \<noteq> tok" if "cd_activeTurn s = Some u" for u
      using calls_okD(1) [OF assms(1)] that assms(4) by (auto simp: active_ok_def)
    then show ?thesis using calls_okD(1) [OF assms(1)] t by (auto simp: active_ok_def drop_task_def)
  qed
  moreover have "call_ok ?d x" if "x \<noteq> token_exec tok" for x
    using calls_okD(5) [OF assms(1), of x] others [OF that] by simp
  ultimately show ?thesis using mine views calls_okD(2) [OF assms(1)] by (auto simp: calls_ok_def)
qed

section \<open>Steps of one call\<close>

text \<open>Nothing changes but for the call \<open>x\<close>.\<close>

definition only_call :: "nat \<Rightarrow> claude \<Rightarrow> claude \<Rightarrow> bool" where
  "only_call x s s' \<longleftrightarrow>
     (\<forall>y. y \<noteq> x \<longrightarrow> events y (exec_log s') = events y (exec_log s) \<and> returned y s' = returned y s \<and> threw y s' = threw y s
        \<and> cd_execs s' y = cd_execs s y \<and> tokens_of y s' = tokens_of y s \<and> (y < cd_nextExec s' \<longleftrightarrow> y < cd_nextExec s))
   \<and> cd_nextTurn s \<le> cd_nextTurn s'
   \<and> (\<forall>u < cd_nextTurn s. tu_exec (cd_turns s u) \<noteq> x \<longrightarrow>
        tu_exec (cd_turns s' u) = tu_exec (cd_turns s u) \<and> tu_resolved (cd_turns s' u) = tu_resolved (cd_turns s u))"

lemma only_call_others:
  assumes "only_call x s s'" "y \<noteq> x"
  shows "call_log_ok s' y = call_log_ok s y" "call_ok s y \<Longrightarrow> call_ok s' y"
proof -
  have same: "events y (exec_log s') = events y (exec_log s)" "returned y s' = returned y s" "threw y s' = threw y s"
      "cd_execs s' y = cd_execs s y" "tokens_of y s' = tokens_of y s" "y < cd_nextExec s' \<longleftrightarrow> y < cd_nextExec s"
    using assms by (simp_all add: only_call_def)
  then have views: "no_end y s' = no_end y s" "one_end y s' = one_end y s" "started_first y s' = started_first y s"
      "finished y s' = finished y s" "running y s' = running y s"
    by (simp_all add: no_end_def one_end_def started_first_def finished_def running_def)
  then show "call_log_ok s' y = call_log_ok s y" using same by (simp add: call_log_ok_def)
  have "token_ok s' k" if "token_ok s k" "token_exec k = y" for k
  proof (cases k)
    case (tok_turn z t)
    with that assms(2) have t: "t < cd_nextTurn s" "tu_exec (cd_turns s t) \<noteq> x" "z = y" by auto
    with assms(1) have "tu_exec (cd_turns s' t) = tu_exec (cd_turns s t)" "tu_resolved (cd_turns s' t) = tu_resolved (cd_turns s t)"
        "t < cd_nextTurn s'"
      by (auto simp: only_call_def)
    with that(1) tok_turn t(3) same(4) views show ?thesis by simp
  qed (use that same(4) views in auto)
  moreover have "tokens_of y s = {#k#} \<Longrightarrow> token_exec k = y" for k
    using set_mset_filter [of "\<lambda>k. token_exec k = y" "tokens s"] by (auto simp: tokens_of_def)
  ultimately show "call_ok s y \<Longrightarrow> call_ok s' y" using same(5) views(5) by (auto simp: call_ok_def split: if_splits)
qed

text \<open>So the invariant has to be shown for \<open>x\<close> and the active turn only.\<close>

lemma only_call_ok:
  assumes "only_call x s s'" "\<And>y. y \<noteq> x \<Longrightarrow> call_log_ok s y \<and> call_ok s y"
    and "call_log_ok s' x" "active_ok s'" "call_ok s' x"
  shows "calls_ok None s'"
proof -
  have "call_log_ok s' y" for y using assms(2,3) only_call_others(1) [OF assms(1)] by (cases "y = x") simp_all
  moreover have "call_ok s' y" for y using assms(2,5) only_call_others(2) [OF assms(1)] by (cases "y = x") simp_all
  ultimately show ?thesis using assms(4) by (simp add: calls_ok_def)
qed

lemma others_free: "calls_ok None s \<Longrightarrow> call_log_ok s y \<and> call_ok s y"
  using calls_okD(2,5) [of None s y] by simp

lemma others_held: "calls_ok (Some x) s \<Longrightarrow> y \<noteq> x \<Longrightarrow> call_log_ok s y \<and> call_ok s y"
  using calls_okD(2,5) [of "Some x" s y] by simp

lemma active_call:
  assumes "calls_ok None s" "cd_activeTurn s = Some t" "x = tu_exec (cd_turns s t)"
  shows "running x s \<and> tokens_of x s = {#tok_turn x t#} \<and> token_ok s (tok_turn x t) \<and> \<not> tu_resolved (cd_turns s t)"
proof -
  have "tok_turn x t \<in># tokens_of x s" "\<not> tu_resolved (cd_turns s t)"
    using calls_okD(1) [OF assms(1)] assms(2,3) by (simp_all add: active_ok_def tokens_of_def)
  with calls_okD(5) [OF assms(1), of x] show ?thesis by (auto simp: call_ok_def split: if_splits)
qed

lemma dlog_emitted [simp]:
  "tokens (dlog ev s) = tokens s" "cd_execs (dlog ev s) = cd_execs s" "cd_nextExec (dlog ev s) = cd_nextExec s"
  "cd_activeTurn (dlog ev s) = cd_activeTurn s" "cd_turns (dlog ev s) = cd_turns s" "cd_nextTurn (dlog ev s) = cd_nextTurn s"
  "exec_log (dlog ev s) = exec_log s @ (if exec_event ev then [ev] else [])" "tokens_of x (dlog ev s) = tokens_of x s"
  by (simp_all add: dlog_def tokens_def exec_log_def tokens_of_def)

lemma put_exec_simps [simp]:
  "tokens (put_exec x f s) = tokens s" "cd_execs (put_exec x f s) = (cd_execs s)(x := f (cd_execs s x))"
  "cd_nextExec (put_exec x f s) = cd_nextExec s" "cd_activeTurn (put_exec x f s) = cd_activeTurn s"
  "cd_turns (put_exec x f s) = cd_turns s" "cd_nextTurn (put_exec x f s) = cd_nextTurn s" "exec_log (put_exec x f s) = exec_log s"
  "tokens_of y (put_exec x f s) = tokens_of y s"
  by (simp_all add: put_exec_def tokens_def exec_log_def tokens_of_def)

lemma put_turn_simps [simp]:
  "tokens (put_turn t g s) = tokens s" "cd_execs (put_turn t g s) = cd_execs s"
  "cd_nextExec (put_turn t g s) = cd_nextExec s" "cd_activeTurn (put_turn t g s) = cd_activeTurn s"
  "cd_turns (put_turn t g s) = (cd_turns s)(t := g (cd_turns s t))" "cd_nextTurn (put_turn t g s) = cd_nextTurn s"
  "exec_log (put_turn t g s) = exec_log s" "tokens_of y (put_turn t g s) = tokens_of y s"
  by (simp_all add: put_turn_def tokens_def exec_log_def tokens_of_def)

lemma clearTurnTimers_turns [simp]:
  "cd_turns (clearTurnTimers t s) =
     (cd_turns s)(t := (cd_turns s t)\<lparr>tu_idleTimer := False, tu_turnTimer := False, tu_dispatchTimer := False\<rparr>)"
  by (simp add: clearTurnTimers_def)

lemma log_emitted:
  assumes "call_log_ok s x" "running x s" "exec_log s' = exec_log s @ [drv_emitted x ev]" "cd_nextExec s' = cd_nextExec s"
    and "(\<forall>m. ev \<noteq> Started m) \<or> events x (exec_log s) = []"
  shows "call_log_ok s' x" "running x s'"
proof -
  have "events x (exec_log s') = events x (exec_log s) @ [ev]" "returned x s' = returned x s" "threw x s' = threw x s"
    using assms(3) by (simp_all add: threw_def)
  moreover from this have "started_first x s'" using assms(1,5)
    by (cases "events x (exec_log s)") (simp_all add: call_log_ok_def started_first_def)
  ultimately show "call_log_ok s' x" "running x s'" using assms(1,2,4) by (simp_all add: call_log_ok_def running_def)
qed

lemma log_unchanged:
  assumes "exec_log s' = exec_log s" "cd_nextExec s' = cd_nextExec s"
  shows "call_log_ok s' x = call_log_ok s x" "running x s' = running x s"
  using assms by (simp_all add: call_log_ok_def running_def threw_def started_first_def one_end_def)

text \<open>An event in the course of a turn.\<close>

lemma emit_more:
  assumes "calls_ok None s" "cd_activeTurn s = Some t" "\<not> terminal_body ev" "\<forall>m. ev \<noteq> Started m"
  shows "calls_ok None (emit_wrapped (tu_exec (cd_turns s t)) ev s)"
proof -
  let ?x = "tu_exec (cd_turns s t)"
  have call: "running ?x s" "tokens_of ?x s = {#tok_turn ?x t#}" "token_ok s (tok_turn ?x t)" "\<not> tu_resolved (cd_turns s t)"
    using active_call [OF assms(1,2) refl] by blast+
  have "\<not> swallows ev (cd_execs s ?x)" using assms(3) by (cases ev) (simp_all add: swallows_def)
  then have s': "emit_wrapped ?x ev s = dlog (drv_emitted ?x ev) s" by (simp add: emit_wrapped_def)
  let ?s = "dlog (drv_emitted ?x ev) s"
  have only: "only_call ?x s ?s" by (simp add: only_call_def threw_def)
  have "no_end ?x ?s" using call(3,4) assms(3) by (simp add: no_end_def)
  moreover have log: "call_log_ok ?s ?x" "running ?x ?s"
    using log_emitted [of s ?x ?s ev] others_free [OF assms(1)] call(1) assms(4) by simp_all
  ultimately have "call_ok ?s ?x" using call by (simp add: call_ok_def)
  moreover have "active_ok ?s" using calls_okD(1) [OF assms(1)] by (simp add: active_ok_def)
  ultimately show ?thesis unfolding s' using only_call_ok [OF only others_free [OF assms(1)]] log(1) by blast
qed

text \<open>The end of a turn.\<close>

lemma end_turn:
  assumes "calls_ok None s" "cd_activeTurn s = Some t" "terminal_body ev"
  shows "calls_ok None (emitTerminal t ev s)"
proof -
  let ?x = "tu_exec (cd_turns s t)" and ?s = "emitTerminal t ev s"
  let ?s2 = "(clearTurnTimers t s)\<lparr>cd_activeTurn := None\<rparr>"
  have call: "running ?x s" "tokens_of ?x s = {#tok_turn ?x t#}" "token_ok s (tok_turn ?x t)" "\<not> tu_resolved (cd_turns s t)"
    using active_call [OF assms(1,2) refl] by blast+
  have s': "?s = put_turn t (\<lambda>u. u\<lparr>tu_resolved := True\<rparr>) (emit_wrapped ?x ev ?s2)"
    using assms(2) by (simp add: emitTerminal_def clearTurnTimers_def)
  have same: "tokens ?s2 = tokens s" "exec_log ?s2 = exec_log s" "cd_execs ?s2 = cd_execs s" "cd_nextExec ?s2 = cd_nextExec s"
      "cd_nextTurn ?s2 = cd_nextTurn s" "\<And>u. tu_exec (cd_turns ?s2 u) = tu_exec (cd_turns s u)"
      "\<And>u. tu_resolved (cd_turns ?s2 u) = tu_resolved (cd_turns s u)" "\<And>y. tokens_of y ?s2 = tokens_of y s"
    by (simp_all add: clearTurnTimers_def put_turn_def tokens_def exec_log_def tokens_of_def)
  have not_started: "\<forall>m. ev \<noteq> Started m" using assms(3) by (cases ev) auto
  show ?thesis
  proof (cases "swallows ev (cd_execs s ?x)")
    case True
    then have w: "emit_wrapped ?x ev ?s2 = dlog (drv_swallowed ?x ev) (put_exec ?x (\<lambda>e. e\<lparr>ex_failedRetryable := True\<rparr>) ?s2)"
      using same(3) by (simp add: emit_wrapped_def)
    have only: "only_call ?x s ?s" unfolding s' w by (simp add: only_call_def same threw_def)
    have "finished ?x ?s" using call(3,4) True unfolding s' w by (simp add: finished_def no_end_def same swallows_def)
    moreover have log: "call_log_ok ?s ?x" "running ?x ?s"
      using log_unchanged [of ?s s ?x] others_free [OF assms(1)] call(1) unfolding s' w by (simp_all add: same)
    moreover have "tokens_of ?x ?s = {#tok_turn ?x t#}" using call(2) unfolding s' w by (simp add: same)
    moreover have "token_ok ?s (tok_turn ?x t)"
      using call(3) \<open>finished ?x ?s\<close> unfolding s' w by (simp add: same)
    ultimately have "call_ok ?s ?x" by (simp add: call_ok_def)
    moreover have "active_ok ?s" unfolding s' w by (simp add: active_ok_def)
    ultimately show ?thesis using only_call_ok [OF only others_free [OF assms(1)]] log(1) by blast
  next
    case False
    then have w: "emit_wrapped ?x ev ?s2 = dlog (drv_emitted ?x ev) ?s2" using same(3) by (simp add: emit_wrapped_def)
    have only: "only_call ?x s ?s" unfolding s' w by (simp add: only_call_def same threw_def)
    have "one_end ?x ?s" using call(3,4) assms(3) unfolding s' w by (simp add: one_end_def no_end_def same)
    then have "finished ?x ?s" using call(3,4) unfolding s' w by (simp add: finished_def same)
    moreover have log: "call_log_ok ?s ?x" "running ?x ?s"
      using log_emitted [of s ?x ?s ev] others_free [OF assms(1)] call(1) not_started unfolding s' w by (simp_all add: same)
    moreover have "tokens_of ?x ?s = {#tok_turn ?x t#}" using call(2) unfolding s' w by (simp add: same)
    moreover have "token_ok ?s (tok_turn ?x t)"
      using call(3) \<open>finished ?x ?s\<close> unfolding s' w by (simp add: same)
    ultimately have "call_ok ?s ?x" by (simp add: call_ok_def)
    moreover have "active_ok ?s" unfolding s' w by (simp add: active_ok_def)
    ultimately show ?thesis using only_call_ok [OF only others_free [OF assms(1)]] log(1) by blast
  qed
qed

lemma keeps_idle_again [simp]: "gives ts s (idle_again s') = gives ts s s'"
  by (simp add: idle_again_def)

lemma calls_ok_idle_again: "calls_ok held s \<Longrightarrow> calls_ok held (idle_again s)"
  by (rule keeps_calls_ok [of s]) simp_all

lemma terminate_calls_ok:
  assumes "calls_ok None s"
  shows "calls_ok None (terminateTurn t outcome s)"
proof (cases "tu_settled (cd_turns s t) \<or> cd_activeTurn s \<noteq> Some t")
  case True
  then show ?thesis using assms by (simp add: terminateTurn_def)
next
  case False
  let ?s = "put_turn t (\<lambda>u. u\<lparr>tu_settled := True\<rparr>) s"
  have "calls_ok None ?s" by (rule keeps_calls_ok [OF _ assms]) (simp add: gives_put_turn_eq)
  moreover have "cd_activeTurn ?s = Some t" using False by simp
  ultimately have "calls_ok None (idle_again (emitTerminal t ev ?s))" if "terminal_body ev" for ev
    using end_turn that calls_ok_idle_again by blast
  then show ?thesis using False by (simp add: terminateTurn_def Let_def split: sum.split)
qed

section \<open>Rounds of a call\<close>

lemma held_facts:
  assumes "calls_ok (Some x) s"
  shows "running x s" "tokens_of x s = {#}" "call_log_ok s x" "active_ok s"
  using calls_okD [OF assms] by blast+

lemma held_only:
  assumes "calls_ok (Some x) s" "only_call x s s'" "call_log_ok s' x" "active_ok s'" "call_ok s' x"
  shows "calls_ok None s'"
  using only_call_ok [OF assms(2) others_held [OF assms(1)] assms(3-5)] by blast

lemma returns_ok:
  assumes "calls_ok (Some x) s" "one_end x s"
  shows "calls_ok None (execute_returns x s)"
proof -
  let ?u = "s\<lparr>cd_cancellingExecutions := removeAll (xi_executionId (ex_input (cd_execs s x))) (cd_cancellingExecutions s)\<rparr>"
  let ?s = "dlog (execute_returned x) ?u"
  have same: "tokens ?u = tokens s" "exec_log ?u = exec_log s" "\<And>y. tokens_of y ?u = tokens_of y s"
    by (simp_all add: tokens_def exec_log_def tokens_of_def)
  note held = held_facts [OF assms(1)]
  have "only_call x s ?s" by (simp add: only_call_def same threw_def)
  moreover have "call_log_ok ?s x" using held(1,3) assms(2)
    by (simp add: call_log_ok_def running_def same threw_def started_first_def one_end_def)
  moreover have "active_ok ?s" using held(4) by (simp add: active_ok_def same)
  moreover have "call_ok ?s x" using held(2) by (simp add: call_ok_def running_def same)
  ultimately show ?thesis unfolding execute_returns_def by (rule held_only [OF assms(1)])
qed

text \<open>A terminal event of the call's own, while it holds its token.\<close>

lemma held_end:
  assumes "calls_ok (Some x) s" "no_end x s" "terminal_body ev"
  shows "calls_ok (Some x) (dlog (drv_emitted x ev) s)" "one_end x (dlog (drv_emitted x ev) s)"
proof -
  let ?s = "dlog (drv_emitted x ev) s"
  note held = held_facts [OF assms(1)]
  have not_started: "\<forall>m. ev \<noteq> Started m" using assms(3) by (cases ev) auto
  have log: "call_log_ok ?s x" "running x ?s" using log_emitted [OF held(3,1), of ?s ev] not_started by simp_all
  have "only_call x s ?s" by (simp add: only_call_def threw_def)
  note others = only_call_others [OF this]
  have "call_log_ok ?s y" for y using log(1) others(1) others_held [OF assms(1)] by (cases "y = x") simp_all
  moreover have "call_ok ?s y" if "y \<noteq> x" for y using others(2) others_held [OF assms(1)] that by simp
  moreover have "active_ok ?s" using held(4) by (simp add: active_ok_def)
  ultimately show "calls_ok (Some x) ?s" using log(2) held(2) by (simp add: calls_ok_def)
  show "one_end x ?s" using assms(2,3) by (simp add: one_end_def no_end_def)
qed

lemma held_put_exec:
  assumes "calls_ok (Some x) s"
  shows "calls_ok (Some x) (put_exec x f s)"
proof -
  let ?s = "put_exec x f s"
  have "only_call x s ?s" by (simp add: only_call_def threw_def)
  note others = only_call_others [OF this]
  have "call_log_ok ?s y" for y
    using others(1) others_held [OF assms] held_facts(3) [OF assms] log_unchanged [of ?s s] by (cases "y = x") simp_all
  moreover have "call_ok ?s y" if "y \<noteq> x" for y using others(2) others_held [OF assms] that by simp
  moreover have "active_ok ?s" "running x ?s" using held_facts [OF assms] by (simp_all add: active_ok_def running_def threw_def)
  ultimately show ?thesis using held_facts(2) [OF assms] by (simp add: calls_ok_def)
qed

lemma add_task_simps [simp]:
  "tokens (add_task k s) = tokens s + mset (task_tokens k)" "exec_log (add_task k s) = exec_log s"
  "cd_execs (add_task k s) = cd_execs s" "cd_nextExec (add_task k s) = cd_nextExec s" "cd_activeTurn (add_task k s) = cd_activeTurn s"
  "cd_turns (add_task k s) = cd_turns s" "cd_nextTurn (add_task k s) = cd_nextTurn s"
  by (simp_all add: add_task_def tokens_def exec_log_def)

lemma not_running_terminal: "terminal_body (not_running env i)"
  by (simp add: not_running_def)

text \<open>A round that finds no process to write to.\<close>

lemma round_not_running:
  assumes "calls_ok (Some x) s" "no_end x s" "\<not> ex_failedRetryable (cd_execs s x)"
  shows "calls_ok None (add_task (ex_after x) (emit_wrapped x (not_running env i) s))"
proof (cases "swallows (not_running env i) (cd_execs s x)")
  case True
  let ?s = "dlog (drv_swallowed x (not_running env i)) (put_exec x (\<lambda>e. e\<lparr>ex_failedRetryable := True\<rparr>) s)"
  have "calls_ok (Some x) (put_exec x (\<lambda>e. e\<lparr>ex_failedRetryable := True\<rparr>) s)" by (rule held_put_exec [OF assms(1)])
  then have "calls_ok (Some x) ?s" by (rule keeps_calls_ok [rotated]) simp
  moreover have "token_ok ?s (tok_after x)" using True assms(2) by (simp add: finished_def no_end_def swallows_def)
  ultimately show ?thesis using gives_back [OF gives_add_task [of "ex_after x" ?s, simplified]] True
    by (simp add: emit_wrapped_def)
next
  case False
  note ended = held_end [OF assms(1,2) not_running_terminal]
  have "token_ok (dlog (drv_emitted x (not_running env i)) s) (tok_after x)" using ended(2) [of env i] assms(3) by (simp add: finished_def)
  then show ?thesis using gives_back [OF gives_add_task [of "ex_after x", simplified]] ended(1) [of env i] False
    by (simp add: emit_wrapped_def)
qed

lemma armIdleTimer_turns:
  "tu_exec (cd_turns (armIdleTimer t s) u) = tu_exec (cd_turns s u)" "tu_resolved (cd_turns (armIdleTimer t s) u) = tu_resolved (cd_turns s u)"
  "tokens (armIdleTimer t s) = tokens s" "exec_log (armIdleTimer t s) = exec_log s" "cd_execs (armIdleTimer t s) = cd_execs s"
  "cd_nextExec (armIdleTimer t s) = cd_nextExec s" "cd_activeTurn (armIdleTimer t s) = cd_activeTurn s"
  "cd_nextTurn (armIdleTimer t s) = cd_nextTurn s"
  by (simp_all add: armIdleTimer_def)

lemma emit_started: "emit_wrapped x (Started m) s = dlog (drv_emitted x (Started m)) s"
  by (simp add: emit_wrapped_def swallows_def)

lemma turn_updates [simp]:
  "tokens (s\<lparr>cd_turns := ts\<rparr>) = tokens s" "tokens (s\<lparr>cd_nextTurn := n\<rparr>) = tokens s"
  "tokens (s\<lparr>cd_activeTurn := a\<rparr>) = tokens s" "tokens (s\<lparr>cd_state := st\<rparr>) = tokens s"
  "exec_log (s\<lparr>cd_turns := ts\<rparr>) = exec_log s" "exec_log (s\<lparr>cd_nextTurn := n\<rparr>) = exec_log s"
  "exec_log (s\<lparr>cd_activeTurn := a\<rparr>) = exec_log s" "exec_log (s\<lparr>cd_state := st\<rparr>) = exec_log s"
  "tokens (s\<lparr>cd_nextExec := n\<rparr>) = tokens s" "exec_log (s\<lparr>cd_nextExec := n\<rparr>) = exec_log s"
  "tokens_of y (s\<lparr>cd_nextExec := n\<rparr>) = tokens_of y s"
  by (simp_all add: tokens_def exec_log_def tokens_of_def)

lemma round_starts_turn:
  assumes "calls_ok (Some x) s" "no_end x s" "\<not> ex_failedRetryable (cd_execs s x)" "ex_attempt (cd_execs s x) \<in> {1, 2}"
    and "ex_attempt (cd_execs s x) = 1 \<Longrightarrow> events x (exec_log s) = []"
    and "cd_process s = Some p" "cd_state s = drv_ready"
  shows "calls_ok None (runTurn env x s)"
proof -
  let ?t = "cd_nextTurn s" and ?m = "xi_modelId (ex_input (cd_execs s x))" and ?s = "runTurn env x s"
  have views: "tokens ?s = add_mset (tok_turn x ?t) (tokens s)"
    "exec_log ?s = exec_log s @ (if ex_attempt (cd_execs s x) = 1 then [drv_emitted x (Started ?m)] else [])"
    "cd_execs ?s = cd_execs s" "cd_nextExec ?s = cd_nextExec s" "cd_activeTurn ?s = Some ?t" "cd_nextTurn ?s = ?t + 1"
    "tu_exec (cd_turns ?s ?t) = x" "\<not> tu_resolved (cd_turns ?s ?t)"
    "\<And>u. u \<noteq> ?t \<Longrightarrow> tu_exec (cd_turns ?s u) = tu_exec (cd_turns s u) \<and> tu_resolved (cd_turns ?s u) = tu_resolved (cd_turns s u)"
    using assms(6,7) by (simp_all add: runTurn_def Let_def emit_started armIdleTimer_turns new_turn_def)
  have of: "tokens_of y ?s = (if y = x then add_mset (tok_turn x ?t) (tokens_of y s) else tokens_of y s)" for y
    by (simp add: tokens_of_def views(1))
  note held = held_facts [OF assms(1)]
  have only: "only_call x s ?s" by (simp add: only_call_def threw_def views of)
  have log: "call_log_ok ?s x" "running x ?s"
  proof -
    have "call_log_ok ?s x \<and> running x ?s"
    proof (cases "ex_attempt (cd_execs s x) = 1")
      case True
      then show ?thesis using log_emitted [OF held(3,1), of ?s "Started ?m"] views(2,4) assms(5) by simp
    next
      case False
      then show ?thesis using log_unchanged [of ?s s x] views(2,4) held(1,3) by simp
    qed
    then show "call_log_ok ?s x" "running x ?s" by blast+
  qed
  have "no_end x ?s" using assms(2) by (simp add: no_end_def views(2))
  then have "token_ok ?s (tok_turn x ?t)" using assms(3,4) by (simp add: views)
  then have "call_ok ?s x" using of [of x] held(2) log(2) by (simp add: call_ok_def)
  moreover have "active_ok ?s" by (simp add: active_ok_def views)
  ultimately show ?thesis using held_only [OF assms(1) only log(1)] by blast
qed

lemma runTurn_ok:
  assumes "calls_ok (Some x) s" "no_end x s" "\<not> ex_failedRetryable (cd_execs s x)" "ex_attempt (cd_execs s x) \<in> {1, 2}"
    and "ex_attempt (cd_execs s x) = 1 \<Longrightarrow> events x (exec_log s) = []"
  shows "calls_ok None (runTurn env x s)"
proof (cases "cd_process s")
  case None
  then show ?thesis using round_not_running [OF assms(1-3)] by (simp add: runTurn_def Let_def)
next
  case (Some p)
  show ?thesis
  proof (cases "cd_state s = drv_ready")
    case True
    then show ?thesis using round_starts_turn [OF assms Some] by simp
  next
    case False
    then show ?thesis using round_not_running [OF assms(1-3)] Some by (simp add: runTurn_def Let_def)
  qed
qed

lemma no_end_put_exec [simp]: "no_end y (put_exec x f s) = no_end y s"
  by (simp add: no_end_def)

lemma stopped_ok:
  assumes "calls_ok (Some x) s" "no_end x s"
  shows "calls_ok None (execute_returns x (emitStoppedBeforeRetry x s))"
  using held_end [OF assms, of "Interrupted int_user_cancelled not_dispatched tool_none"]
  by (simp add: emitStoppedBeforeRetry_def returns_ok)

lemma execute_round_ok:
  assumes "calls_ok (Some x) s" "no_end x s" "ex_attempt (cd_execs s x) \<le> 1"
    and "ex_attempt (cd_execs s x) = 0 \<Longrightarrow> events x (exec_log s) = []"
  shows "calls_ok None (execute_round env x s)"
proof -
  let ?s1 = "put_exec x (\<lambda>e. e\<lparr>ex_attempt := ex_attempt e + 1\<rparr>) s"
  have s1: "calls_ok (Some x) ?s1" by (rule held_put_exec [OF assms(1)])
  show ?thesis
  proof (cases "ex_attempt (cd_execs ?s1 x) > 1 \<and> stopLatched x ?s1")
    case True
    then show ?thesis using stopped_ok [OF s1] assms(2) by (simp add: execute_round_def Let_def)
  next
    case False
    let ?s2 = "put_exec x (\<lambda>e. e\<lparr>ex_failedRetryable := False\<rparr>) ?s1"
    have "calls_ok None (runTurn env x ?s2)"
      by (rule runTurn_ok [OF held_put_exec [OF s1]]) (use assms(2-4) in \<open>auto simp: le_Suc_eq\<close>)
    then show ?thesis unfolding execute_round_def Let_def if_not_P [OF False] .
  qed
qed

lemma after_turn_ok:
  assumes "calls_ok (Some x) s" "finished x s"
  shows "calls_ok None (after_turn env x s)"
proof (cases "\<not> ex_failedRetryable (cd_execs s x) \<or> 2 \<le> ex_attempt (cd_execs s x)")
  case True
  then have "one_end x s" using assms(2) by (auto simp: finished_def split: if_splits)
  then show ?thesis using True returns_ok [OF assms(1)] by (simp add: after_turn_def)
next
  case False
  then have "token_ok s (tok_wait x)" using assms(2) by (simp add: finished_def)
  then have "calls_ok None s'" if "gives [tok_wait x] s s'" for s' using gives_back [OF that] assms(1) by simp
  then show ?thesis using False gives_respawn [of "rsp_retry x" s env] gives_add_task [of "ex_gap x False" s]
    by (simp add: after_turn_def)
qed

lemma after_gap_ok:
  assumes "calls_ok (Some x) s" "token_ok s (tok_wait x)"
  shows "calls_ok None (after_gap env x failed s)"
proof -
  have x: "no_end x s" "ex_attempt (cd_execs s x) = 1" using assms(2) by simp_all
  have "terminal_body (respawn_failed_event env i)" for i by (simp add: respawn_failed_event_def)
  then have "calls_ok None (execute_returns x (dlog (drv_emitted x (respawn_failed_event env i)) s))" for i
    using held_end [OF assms(1) x(1)] returns_ok by blast
  then show ?thesis using stopped_ok [OF assms(1) x(1)] execute_round_ok [OF assms(1) x(1)] x(2)
    by (simp add: after_gap_def)
qed

lemma execute_ok:
  assumes "calls_ok None s"
  shows "calls_ok None (execute env i s)"
proof -
  let ?x = "cd_nextExec s" and ?s1 = "s\<lparr>cd_nextExec := cd_nextExec s + 1\<rparr>"
  have same: "tokens ?s1 = tokens s" "exec_log ?s1 = exec_log s" "\<And>y. tokens_of y ?s1 = tokens_of y s"
    by (simp_all add: tokens_def exec_log_def tokens_of_def)
  have new: "\<not> returned ?x s" "\<not> threw ?x s" "events ?x (exec_log s) = []" "tokens_of ?x s = {#}" "started_first ?x s"
    using others_free [OF assms, of ?x] by (simp_all add: call_log_ok_def call_ok_def running_def)
  note all = others_free [OF assms]
  have active: "active_ok ?s1" using calls_okD(1) [OF assms] by (simp add: active_ok_def same)
  show ?thesis
  proof (cases "cd_activeTurn s")
    case (Some t)
    let ?s = "dlog (execute_threw ?x (coded_throw ''participant busy'' PARTICIPANT_BUSY)) ?s1"
    have "only_call ?x s ?s" by (auto simp: only_call_def same threw_def)
    moreover have "call_log_ok ?s ?x" using new by (auto simp: call_log_ok_def same threw_def started_first_def)
    moreover have "active_ok ?s" using active by (simp add: active_ok_def)
    moreover have "call_ok ?s ?x" using new(4) by (auto simp: call_ok_def running_def threw_def same)
    ultimately have "calls_ok None ?s" using only_call_ok all by blast
    then show ?thesis using Some by (simp add: execute_def Let_def)
  next
    case None
    let ?e = "\<lparr>ex_input = i, ex_attempt = 0, ex_closedAtEntry = isClosingOrClosed s, ex_failedRetryable = False\<rparr>"
    let ?s = "put_exec ?x (\<lambda>_. ?e) ?s1"
    have "only_call ?x s ?s" by (auto simp: only_call_def same threw_def)
    note others = only_call_others [OF this]
    have mine: "call_log_ok ?s ?x" using new by (simp add: call_log_ok_def same threw_def started_first_def)
    have "call_log_ok ?s y" for y
    proof (cases "y = ?x")
      case True
      then show ?thesis using mine by simp
    next
      case False
      then show ?thesis using others(1) all by blast
    qed
    moreover have "call_ok ?s y" if "y \<noteq> ?x" for y using others(2) all that by simp
    moreover have "active_ok ?s" using active by (simp add: active_ok_def)
    moreover have "running ?x ?s" using new by (simp add: running_def same threw_def)
    ultimately have "calls_ok (Some ?x) ?s" using new(4) by (simp add: calls_ok_def same)
    moreover have "no_end ?x ?s" using new(3) by (simp add: no_end_def same)
    ultimately show ?thesis using execute_round_ok [of ?x ?s env] new(3) None by (simp add: execute_def Let_def same)
  qed
qed

section \<open>Every step keeps the invariant\<close>

lemma keeps_ok: "calls_ok None s \<Longrightarrow> gives [] s s' \<Longrightarrow> calls_ok None s'"
  by (rule keeps_calls_ok)

lemma respawn_ok: "calls_ok None s \<Longrightarrow> respawner_tokens r = [] \<Longrightarrow> calls_ok None (respawn env r s)"
  using keeps_ok gives_respawn [of r s env] by fastforce

lemma put_turn_ok:
  "(\<And>u. tu_exec (f u) = tu_exec u \<and> tu_resolved (f u) = tu_resolved u) \<Longrightarrow> calls_ok None s \<Longrightarrow> calls_ok None (put_turn t f s)"
  using keeps_ok gives_put_turn by blast

lemma timers_ok:
  assumes "calls_ok None s"
  shows "calls_ok None (idle_timer env t s)" "calls_ok None (turn_timer env t s)" "calls_ok None (dispatch_timer env t s)"
    "calls_ok None (user_write_done env t failed s)"
proof -
  have p: "calls_ok None (put_turn t (\<lambda>u. u\<lparr>tu_idleTimer := False\<rparr>) s)" "calls_ok None (put_turn t (\<lambda>u. u\<lparr>tu_turnTimer := False\<rparr>) s)"
      "calls_ok None (put_turn t (\<lambda>u. u\<lparr>tu_dispatchTimer := False\<rparr>) s)"
    by (rule put_turn_ok [OF _ assms]; simp)+
  show "calls_ok None (idle_timer env t s)" "calls_ok None (turn_timer env t s)" "calls_ok None (dispatch_timer env t s)"
    using p by (simp_all add: idle_timer_def turn_timer_def dispatch_timer_def Let_def terminate_calls_ok respawn_ok)
  have "gives [] s (dlog (write_confirmed t) (put_turn t (\<lambda>u. u\<lparr>tu_dispatchState := dispatch_unknown, tu_dispatchTimer := True\<rparr>) s))"
    by (simp add: gives_put_turn_eq)
  then show "calls_ok None (user_write_done env t failed s)"
    using assms keeps_ok by (auto simp: user_write_done_def terminate_calls_ok split: option.split)
qed

lemma exit_ok:
  assumes "calls_ok None s"
  shows "calls_ok None (onProcessExit env code signal s)"
proof -
  define s1 where "s1 = s\<lparr>cd_process := None\<rparr>"
  define s2 where "s2 = (if isClosingOrClosed s1 then s1 else s1\<lparr>cd_sessionEpoch := cd_sessionEpoch s1 + 1, cd_state := drv_cold\<rparr>)"
  define s3 where "s3 = failAllPendingControls (if isClosingOrClosed s2 then closed_during_prewarm else plain_throw ''driver process exited'')
      (s2\<lparr>cd_initVerified := False\<rparr>)"
  have "gives [] s s3" by (simp add: s3_def s2_def s1_def)
  then have "calls_ok None s3" using keeps_ok assms by blast
  then show ?thesis unfolding onProcessExit_def Let_def s1_def [symmetric] s2_def [symmetric] s3_def [symmetric]
    by (simp add: terminate_calls_ok split: option.split)
qed

lemma result_ok:
  assumes "calls_ok None s" "cd_activeTurn s = Some t"
  shows "calls_ok None (handleResultFrame env t message s)"
proof -
  let ?diff = "usage_diff env (result_usage env message) (cd_lastCumulative s)"
  define s0 where "s0 = s\<lparr>cd_lastCumulative := result_usage env message\<rparr>"
  define s1 where "s1 = emit_wrapped (tu_exec (cd_turns s t)) (UsageReport ?diff) s0"
  have s0: "calls_ok None s0" "cd_activeTurn s0 = Some t" "cd_turns s0 = cd_turns s"
    using keeps_ok [OF assms(1), of s0] assms(2) by (simp_all add: s0_def)
  have "calls_ok None s1" using emit_more [OF s0(1,2), of "UsageReport ?diff"] s0(3) by (simp add: s1_def)
  moreover have "cd_activeTurn s1 = Some t" using s0(2) by (simp add: s1_def emit_wrapped_def swallows_def)
  ultimately show ?thesis using assms(1) end_turn [of s1 t]
    unfolding handleResultFrame_def Let_def s0_def [symmetric] s1_def [symmetric]
    by (simp add: terminate_calls_ok calls_ok_idle_again)
qed

lemma stream_event_ok:
  assumes "calls_ok None s" "cd_activeTurn s = Some t"
  shows "calls_ok None (handleStreamEvent t message s)"
proof -
  let ?s = "put_turn t (\<lambda>u. u\<lparr>tu_sawAssistantText := True\<rparr>) s"
  have "calls_ok None ?s" "cd_activeTurn ?s = Some t" "tu_exec (cd_turns ?s t) = tu_exec (cd_turns s t)"
    using put_turn_ok [OF _ assms(1)] assms(2) by simp_all
  then have "calls_ok None (emit_wrapped (tu_exec (cd_turns s t)) (OutputDelta body) ?s)" for body
    using emit_more [of ?s t "OutputDelta body"] by simp
  then show ?thesis using assms(1) by (simp add: handleStreamEvent_def split: option.split)
qed

lemma frame_ok:
  assumes "calls_ok None s"
  shows "calls_ok None (onFrame env message s)"
proof (cases "message = JNull")
  case True
  then show ?thesis using keeps_ok [OF assms] by (simp add: onFrame_def)
next
  case False
  obtain b s1 where r: "handleControlResponse env message s = (b, s1)" by (cases "handleControlResponse env message s")
  then have s1: "calls_ok None s1" using keeps_ok [OF assms, of s1] gives_handleControlResponse [of "[]" s env message s] by simp
  show ?thesis
  proof (cases b)
    case True
    then show ?thesis using \<open>message \<noteq> JNull\<close> r s1 by (simp add: onFrame_def)
  next
    case b: False
    have system: "calls_ok None (handleSystemFrame env turn message s')" if "calls_ok None s'" for turn s'
    proof -
      have "calls_ok None (s'\<lparr>cd_initVerified := True\<rparr>)" by (rule keeps_ok [OF that]) simp
      then show ?thesis using that by (simp add: handleSystemFrame_def terminate_calls_ok split: option.split)
    qed
    show ?thesis
    proof (cases "cd_activeTurn s1")
      case None
      then show ?thesis using \<open>message \<noteq> JNull\<close> r b s1 system by (simp add: onFrame_def Let_def)
    next
      case (Some t)
      let ?s = "armIdleTimer t s1"
      have armed: "calls_ok None ?s" "cd_activeTurn ?s = Some t"
        using keeps_ok [OF s1] Some by (simp_all add: armIdleTimer_turns)
      have "gives [] s' (handleReplayFrame t message s')" for s' by (simp add: handleReplayFrame_def gives_put_turn_eq)
      then have "calls_ok None (handleReplayFrame t message ?s)" using keeps_ok armed(1) by blast
      then show ?thesis using Some \<open>message \<noteq> JNull\<close> r b system armed result_ok [OF armed] stream_event_ok [OF armed]
        by (simp add: onFrame_def Let_def)
    qed
  qed
qed

lemma limit_ok: "calls_ok None s \<Longrightarrow> calls_ok None (onLimitExceeded env s)"
  by (simp add: onLimitExceeded_def terminate_calls_ok respawn_ok split: option.split)

lemma consume_ok:
  assumes "calls_ok None s"
  shows "calls_ok None (consume_all env calls s)"
  using assms
proof (induction calls arbitrary: s)
  case (Cons call calls)
  then have "calls_ok None (consume env call s)"
    by (simp add: consume_def frame_ok limit_ok split: ndjson_call.split option.split)
  with Cons.IH show ?case by (simp add: Let_def)
qed simp

lemma stdout_ok:
  assumes "calls_ok None s"
  shows "calls_ok None (stdout_data env p chunk s)" "calls_ok None (stdout_end env p s)"
proof -
  have "calls_ok None (s\<lparr>cd_splitters := sp\<rparr>)" for sp by (rule keeps_ok [OF assms]) simp
  then show "calls_ok None (stdout_data env p chunk s)" by (simp add: stdout_data_def consume_ok split: prod.split)
  show "calls_ok None (stdout_end env p s)" by (simp add: stdout_end_def consume_ok assms)
qed

lemma cancel_poll_ok:
  assumes "calls_ok None s"
  shows "calls_ok None (cancel_poll env c t expired s)"
proof -
  have returned: "calls_ok None (dlog (cancel_returned c) s)" by (rule keeps_ok [OF assms]) simp
  have again: "calls_ok None (add_task (cn_poll c t) s)"
    using keeps_ok [OF assms] gives_add_task [of "cn_poll c t" s] by simp
  have killed: "calls_ok None (case cd_process s of None \<Rightarrow> s | Some p \<Rightarrow> dlog (asked_kill p) s)"
    by (rule keeps_ok [OF assms]) (simp split: option.split)
  show ?thesis using returned again respawn_ok [OF terminate_calls_ok [OF killed]] by (simp add: cancel_poll_def)
qed

lemma go_on_ok:
  assumes "calls_ok None s" "k \<in> set (cd_tasks s)"
  shows "calls_ok None (go_on env k failed flag (drop_task k s))"
proof -
  let ?d = "drop_task k s"
  have pass: "calls_ok None s'" if "gives (task_tokens k) ?d s'" for s'
    using passes_on [OF assms(2) that] keeps_ok assms(1) by blast
  have free: "calls_ok None ?d" if "task_tokens k = []" using pass [of ?d] that by simp
  show ?thesis
  proof (cases k)
    case (hs_mkdir owner spec)
    then show ?thesis using pass gives_after_mkdir by simp
  next
    case (hs_spawn owner sp)
    then show ?thesis using pass gives_after_spawn by simp
  next
    case (hs_late owner sp p)
    then show ?thesis using pass gives_settle_spawn by (simp add: after_late_shutdown_def)
  next
    case (hs_adopt owner sp result)
    then show ?thesis using pass gives_adopt by simp
  next
    case (hs_supervised owner p)
    then show ?thesis using pass gives_after_supervised by simp
  next
    case (hs_done owner outcome)
    then show ?thesis using pass gives_handshake_settled by simp
  next
    case (on_control n user)
    then show ?thesis using pass gives_add_task [of k ?d] by simp
  next
    case (got_control user result)
    show ?thesis
    proof (cases user)
      case (for_init owner)
      then show ?thesis using got_control pass gives_after_initialize by simp
    next
      case (for_cancel c t)
      then show ?thesis using got_control pass gives_add_task [of "cn_poll c t" ?d] by simp
    next
      case (for_close j)
      then show ?thesis using got_control pass gives_close(2) by simp
    qed
  next
    case (rs_shutdown r p)
    then show ?thesis using pass gives_respawn_start by simp
  next
    case (ex_turn x t)
    show ?thesis
    proof (cases "tu_resolved (cd_turns ?d t)")
      case True
      then have t: "tu_resolved (cd_turns s t)" by (simp add: drop_task_def)
      have "calls_ok (Some x) ?d \<and> token_ok ?d (tok_turn x t)"
        using take_token [OF assms, of "tok_turn x t"] t ex_turn by simp
      then show ?thesis using after_turn_ok [of x ?d] ex_turn True by simp
    next
      case False
      then show ?thesis using pass gives_add_task [of k ?d] ex_turn by simp
    qed
  next
    case (ex_after x)
    then have "calls_ok (Some x) ?d \<and> token_ok ?d (tok_after x)" using take_token [OF assms, of "tok_after x"] by simp
    then show ?thesis using after_turn_ok ex_after by simp
  next
    case (ex_gap x b)
    then have "calls_ok (Some x) ?d \<and> token_ok ?d (tok_wait x)" using take_token [OF assms, of "tok_wait x"] by simp
    then show ?thesis using after_gap_ok ex_gap by simp
  next
    case (cn_poll c t)
    then have "calls_ok None ?d" using free by simp
    then show ?thesis using cancel_poll_ok cn_poll by simp
  next
    case (close_spawn j sp)
    have "gives [] ?d (close_process j (?d\<lparr>cd_pendingSpawn := None\<rparr>))"
      using gives_close(3) [of "?d\<lparr>cd_pendingSpawn := None\<rparr>" j] by simp
    then show ?thesis using close_spawn pass gives_add_task [of k ?d] by simp
  next
    case (close_shutdown j p)
    have "gives [] ?d (close_done j ?d)" by (simp add: close_done_def)
    then show ?thesis using close_shutdown pass by simp
  qed
qed

lemma control_ok:
  assumes "calls_ok None s"
  shows "calls_ok None (control_write_failed env n message s)" "calls_ok None (control_deadline env n s)"
  by (rule keeps_ok [OF assms]; simp add: control_write_failed_def control_deadline_def)+

lemma claude_step_ok: "claude_step env s s' \<Longrightarrow> calls_ok None s \<Longrightarrow> calls_ok None s'"
proof (induction rule: claude_step.induct)
  case (call_prewarm s spec ir)
  then show ?case using keeps_ok gives_prewarm by blast
next
  case (call_cancel s executionId)
  then show ?case using keeps_ok gives_cancel by blast
next
  case (call_close s)
  then show ?case using keeps_ok gives_close(1) by blast
qed (simp_all add: execute_ok go_on_ok control_ok timers_ok exit_ok stdout_ok)

lemma start_ok: "calls_ok None createClaudeStreamJsonDriver"
  by (simp add: calls_ok_def active_ok_def call_log_ok_def call_ok_def running_def threw_def started_first_def tokens_of_def
      tokens_def exec_log_def createClaudeStreamJsonDriver_def)

lemma claude_reachable_ok: "claude_reachable env s \<Longrightarrow> calls_ok None s"
  by (induction rule: rtranclp_induct) (simp_all add: start_ok claude_step_ok)

end
