(* ===== verification/Claude_Turns.thy ===== *)
theory Claude_Turns
  imports Claude_Properties
begin

text \<open>
  A turn can always end: the turn whose end a call of \<open>execute\<close> awaits is the active one, and as long
  as nobody has cancelled it its deadline is armed; when it has been cancelled, a cancellation or a
  closing is under way.
\<close>

section \<open>What keeps the turns\<close>

text \<open>The tasks of a cancellation that will end the turn \<open>t\<close>.\<close>

fun waits_for :: "nat \<Rightarrow> driver_task \<Rightarrow> bool" where
  "waits_for t (on_control n (for_cancel c u)) = (u = t)"
| "waits_for t (got_control (for_cancel c u) result) = (u = t)"
| "waits_for t (cn_poll c u) = (u = t)"
| "waits_for t _ = False"

definition cancel_waits :: "nat \<Rightarrow> claude \<Rightarrow> bool" where
  "cancel_waits t s = list_ex (waits_for t) (cd_tasks s)"

fun is_close_call :: "driver_event \<Rightarrow> bool" where
  "is_close_call (close_called k) = True"
| "is_close_call _ = False"

definition close_begun :: "claude \<Rightarrow> bool" where
  "close_begun s = list_ex is_close_call (cd_log s)"

definition turn_can_end :: "nat \<Rightarrow> claude \<Rightarrow> bool" where
  "turn_can_end t s \<longleftrightarrow> \<not> tu_settled (cd_turns s t)
    \<and> (if tu_cancelling (cd_turns s t) then cancel_waits t s \<or> close_begun s else tu_turnTimer (cd_turns s t))"

definition turns_ok :: "claude \<Rightarrow> bool" where
  "turns_ok s \<longleftrightarrow> (\<forall>t. cd_activeTurn s = Some t \<longrightarrow> turn_can_end t s)
    \<and> (\<forall>x t. ex_turn x t \<in> set (cd_tasks s) \<and> \<not> tu_resolved (cd_turns s t) \<longrightarrow> cd_activeTurn s = Some t)"

text \<open>From \<open>s\<close> to \<open>s'\<close> no turn has begun, and one that was active may have been resolved.\<close>

definition calm :: "claude \<Rightarrow> claude \<Rightarrow> bool" where
  "calm s s' \<longleftrightarrow>
     (\<forall>t. cd_activeTurn s' = Some t \<longrightarrow> cd_activeTurn s = Some t
        \<and> tu_settled (cd_turns s' t) = tu_settled (cd_turns s t)
        \<and> tu_cancelling (cd_turns s' t) = tu_cancelling (cd_turns s t)
        \<and> tu_turnTimer (cd_turns s' t) = tu_turnTimer (cd_turns s t)
        \<and> (cancel_waits t s \<longrightarrow> cancel_waits t s') \<and> (close_begun s \<longrightarrow> close_begun s'))
   \<and> (\<forall>t. cd_activeTurn s = Some t \<longrightarrow> cd_activeTurn s' = Some t \<or> tu_resolved (cd_turns s' t))
   \<and> (\<forall>x t. ex_turn x t \<in> set (cd_tasks s') \<and> \<not> tu_resolved (cd_turns s' t) \<longrightarrow>
        ex_turn x t \<in> set (cd_tasks s) \<and> \<not> tu_resolved (cd_turns s t))"

lemma calmD:
  assumes "calm s s'"
  shows "cd_activeTurn s' = Some t \<Longrightarrow> cd_activeTurn s = Some t \<and> (turn_can_end t s \<longrightarrow> turn_can_end t s')"
    "cd_activeTurn s = Some t \<Longrightarrow> \<not> tu_resolved (cd_turns s' t) \<Longrightarrow> cd_activeTurn s' = Some t"
    "ex_turn x t \<in> set (cd_tasks s') \<Longrightarrow> \<not> tu_resolved (cd_turns s' t) \<Longrightarrow>
       ex_turn x t \<in> set (cd_tasks s) \<and> \<not> tu_resolved (cd_turns s t)"
proof -
  show "cd_activeTurn s = Some t \<and> (turn_can_end t s \<longrightarrow> turn_can_end t s')" if "cd_activeTurn s' = Some t"
    using assms that by (simp add: calm_def turn_can_end_def) blast
  show "cd_activeTurn s' = Some t" if "cd_activeTurn s = Some t" "\<not> tu_resolved (cd_turns s' t)"
    using assms that unfolding calm_def by blast
  show "ex_turn x t \<in> set (cd_tasks s) \<and> \<not> tu_resolved (cd_turns s t)"
    if "ex_turn x t \<in> set (cd_tasks s')" "\<not> tu_resolved (cd_turns s' t)"
    using assms that unfolding calm_def by blast
qed

lemma calm_turns_ok:
  assumes "calm s s'" "turns_ok s"
  shows "turns_ok s'"
  unfolding turns_ok_def
proof (intro conjI allI impI)
  fix t assume "cd_activeTurn s' = Some t"
  then show "turn_can_end t s'" using calmD(1) [OF assms(1)] assms(2) unfolding turns_ok_def by blast
next
  fix x t assume "ex_turn x t \<in> set (cd_tasks s') \<and> \<not> tu_resolved (cd_turns s' t)"
  then show "cd_activeTurn s' = Some t" using calmD(2,3) [OF assms(1)] assms(2) unfolding turns_ok_def by blast
qed

lemma calm_refl [simp]: "calm s s"
  by (simp add: calm_def)

lemma calm_fields [simp]:
  "calm s (s'\<lparr>cd_state := a\<rparr>) = calm s s'" "calm s (s'\<lparr>cd_process := b\<rparr>) = calm s s'"
  "calm s (s'\<lparr>cd_pendingSpawn := c\<rparr>) = calm s s'" "calm s (s'\<lparr>cd_sessionEpoch := d\<rparr>) = calm s s'"
  "calm s (s'\<lparr>cd_canonicalModel := e\<rparr>) = calm s s'" "calm s (s'\<lparr>cd_catalog := f\<rparr>) = calm s s'"
  "calm s (s'\<lparr>cd_initVerified := g\<rparr>) = calm s s'" "calm s (s'\<lparr>cd_lastCumulative := h\<rparr>) = calm s s'"
  "calm s (s'\<lparr>cd_cancellingExecutions := i\<rparr>) = calm s s'" "calm s (s'\<lparr>cd_requestCounter := n\<rparr>) = calm s s'"
  "calm s (s'\<lparr>cd_pendingControls := j\<rparr>) = calm s s'" "calm s (s'\<lparr>cd_route := k\<rparr>) = calm s s'"
  "calm s (s'\<lparr>cd_persona := l\<rparr>) = calm s s'" "calm s (s'\<lparr>cd_lastInstallation := m\<rparr>) = calm s s'"
  "calm s (s'\<lparr>cd_execs := r\<rparr>) = calm s s'" "calm s (s'\<lparr>cd_nextExec := n\<rparr>) = calm s s'"
  "calm s (s'\<lparr>cd_nextSpawn := n\<rparr>) = calm s s'" "calm s (s'\<lparr>cd_settledSpawns := p\<rparr>) = calm s s'"
  "calm s (s'\<lparr>cd_splitters := q\<rparr>) = calm s s'" "calm s (s'\<lparr>cd_attached := p\<rparr>) = calm s s'"
  "calm s (s'\<lparr>cd_nextCall := n\<rparr>) = calm s s'"
  by (simp_all add: calm_def cancel_waits_def close_begun_def)

lemma calm_dlog [simp]: "calm s s' \<Longrightarrow> calm s (dlog ev s')"
  by (auto simp: calm_def dlog_def cancel_waits_def close_begun_def)

lemma calm_add_task [simp]: "calm s s' \<Longrightarrow> (\<And>x t. k \<noteq> ex_turn x t) \<Longrightarrow> calm s (add_task k s')"
  by (auto simp: calm_def add_task_def cancel_waits_def close_begun_def)

lemma calm_put_turn [simp]:
  assumes "calm s s'" "\<And>u. tu_settled (f u) = tu_settled u \<and> tu_cancelling (f u) = tu_cancelling u
     \<and> tu_turnTimer (f u) = tu_turnTimer u \<and> tu_resolved (f u) = tu_resolved u"
  shows "calm s (put_turn t f s')"
  using assms by (simp add: calm_def put_turn_def cancel_waits_def close_begun_def) blast

lemma calm_put_exec [simp]: "calm s s' \<Longrightarrow> calm s (put_exec x f s')"
  by (simp add: put_exec_def)

lemma calm_emit [simp]: "calm s s' \<Longrightarrow> calm s (emit_wrapped x ev s')"
  by (simp add: emit_wrapped_def)

lemma calm_arm [simp]: "calm s s' \<Longrightarrow> calm s (armIdleTimer t s')"
  by (simp add: armIdleTimer_def)

lemma control_ready_tasks:
  "(ex_turn x t \<in> set (map (control_ready n r) ks)) = (ex_turn x t \<in> set ks)"
  "list_ex (waits_for u) (map (control_ready n r) ks) = list_ex (waits_for u) ks"
proof -
  have "(control_ready n r k = ex_turn x t) = (k = ex_turn x t)" for k by (cases k) auto
  then show "(ex_turn x t \<in> set (map (control_ready n r) ks)) = (ex_turn x t \<in> set ks)"
    by (induction ks) (auto simp: eq_commute [of "ex_turn x t"])
  have "waits_for u (on_control m user) = waits_for u (got_control user r)" for m user by (cases user) simp_all
  then have "waits_for u (control_ready n r k) = waits_for u k" for k by (cases k) simp_all
  then show "list_ex (waits_for u) (map (control_ready n r) ks) = list_ex (waits_for u) ks"
    by (induction ks) simp_all
qed

lemma calm_settle_control [simp]: "calm s (settle_control n r s') = calm s s'"
  by (simp add: calm_def settle_control_def cancel_waits_def close_begun_def control_ready_tasks del: set_map)

lemma calm_fail_all [simp]: "calm s s' \<Longrightarrow> calm s (failAllPendingControls failure s')"
proof -
  have "calm s (fold (\<lambda>(rid, n). settle_control n (Inl failure)) ps s') = calm s s'" for ps
    by (induction ps arbitrary: s') (simp_all split: prod.split)
  then show "calm s s' \<Longrightarrow> calm s (failAllPendingControls failure s')" by (simp add: failAllPendingControls_def)
qed

lemma calm_drop_task:
  assumes "\<And>t. cd_activeTurn s = Some t \<Longrightarrow> \<not> waits_for t k"
  shows "calm s (drop_task k s)"
proof -
  have "cancel_waits t (drop_task k s)" if waits: "cancel_waits t s" and active: "cd_activeTurn s = Some t" for t
  proof -
    obtain j where "j \<in> set (cd_tasks s)" "waits_for t j" using waits unfolding cancel_waits_def list_ex_iff by blast
    moreover from this have "j \<noteq> k" using assms active by blast
    ultimately show ?thesis by (auto simp: cancel_waits_def list_ex_iff drop_task_def)
  qed
  then show ?thesis by (auto simp: calm_def drop_task_def cancel_waits_def close_begun_def dest: set_mp [OF set_remove1_subset])
qed

section \<open>The operations\<close>

lemma calm_emitTerminal [simp]: "calm s s' \<Longrightarrow> cd_activeTurn s' = Some t \<Longrightarrow> calm s (emitTerminal t ev s')"
  by (auto simp: calm_def emitTerminal_def Let_def clearTurnTimers_def put_turn_def emit_wrapped_def put_exec_def dlog_def
      cancel_waits_def close_begun_def)

lemma calm_idle_again [simp]: "calm s s' \<Longrightarrow> calm s (idle_again s')"
  by (simp add: idle_again_def)

lemma calm_terminate [simp]:
  assumes "calm s s'"
  shows "calm s (terminateTurn t outcome s')"
proof -
  let ?u = "put_turn t (\<lambda>u. u\<lparr>tu_settled := True\<rparr>) s'"
  have "calm s (emitTerminal t ev ?u)" if "cd_activeTurn s' = Some t" for ev
    using assms that
    by (auto simp: calm_def emitTerminal_def Let_def clearTurnTimers_def put_turn_def emit_wrapped_def put_exec_def dlog_def
        cancel_waits_def close_begun_def)
  then show ?thesis using assms by (simp add: terminateTurn_def Let_def)
qed

lemma calm_sendControl [simp]: "calm s s' \<Longrightarrow> calm s (sendControl env user subtype s')"
  by (simp add: sendControl_def Let_def split: option.split)

lemma calm_spawnAndHandshake [simp]: "calm s s' \<Longrightarrow> calm s (spawnAndHandshake env owner ir s')"
  by (simp add: spawnAndHandshake_def split: sum.split)

lemma calm_respawn_start [simp]: "calm s s' \<Longrightarrow> calm s (respawn_start env r s')"
  by (simp add: respawn_start_def split: option.split)

lemma calm_respawn [simp]: "calm s s' \<Longrightarrow> calm s (respawn env r s')"
  by (simp add: respawn_def Let_def split: option.split)

lemma calm_handshake [simp]:
  assumes "calm s s'"
  shows "calm s (after_mkdir env owner spec failed s')" "calm s (after_spawn owner sp result s')"
    "calm s (after_late_shutdown owner sp s')" "calm s (adopt owner sp result s')" "calm s (after_supervised env owner failed s')"
    "calm s (after_initialize env owner reply s')" "calm s (handshake_settled owner outcome s')"
  using assms
  by (simp_all add: after_mkdir_def after_spawn_def settle_spawn_def after_late_shutdown_def adopt_def after_supervised_def
      after_initialize_def handshake_settled_def respawn_settled_def Let_def
      split: option.split sum.split handshaker.split respawner.split prod.split)

lemma calm_prewarm [simp]: "calm s s' \<Longrightarrow> calm s (prewarm env k spec ir s')"
  by (simp add: prewarm_def Let_def split: DriverOptions.split)

lemma calm_execute_returns [simp]: "calm s s' \<Longrightarrow> calm s (execute_returns x s')"
  by (simp add: execute_returns_def)

lemma calm_stopped [simp]: "calm s s' \<Longrightarrow> calm s (emitStoppedBeforeRetry x s')"
  by (simp add: emitStoppedBeforeRetry_def)

lemma calm_after_turn [simp]: "calm s s' \<Longrightarrow> calm s (after_turn env x s')"
  by (simp add: after_turn_def)

lemma calm_frames [simp]:
  assumes "calm s s'"
  shows "calm s (handleSystemFrame env turn message s')" "calm s (handleStreamEvent t message s')" "calm s (handleReplayFrame t message s')"
  using assms by (simp_all add: handleSystemFrame_def handleStreamEvent_def handleReplayFrame_def split: option.split)

lemma calm_result [simp]:
  assumes "calm s s'" "cd_activeTurn s' = Some t"
  shows "calm s (handleResultFrame env t message s')"
proof -
  have "cd_activeTurn (emit_wrapped x ev (s'\<lparr>cd_lastCumulative := l\<rparr>)) = Some t" for x ev l
    using assms(2) by (simp add: emit_wrapped_def dlog_def put_exec_def)
  then show ?thesis using assms by (simp add: handleResultFrame_def Let_def)
qed

lemma calm_control_response:
  assumes "calm s s'" "handleControlResponse env message s' = (b, s'')"
  shows "calm s s''"
  using assms by (auto simp: handleControlResponse_def Let_def split: if_splits option.splits)

lemma calm_frame [simp]:
  assumes "calm s s'"
  shows "calm s (onFrame env message s')"
proof (cases "message = JNull")
  case False
  obtain b s1 where h: "handleControlResponse env message s' = (b, s1)" by fastforce
  have c: "calm s s1" using calm_control_response [OF assms h] .
  have active: "cd_activeTurn (armIdleTimer t s1) = cd_activeTurn s1" for t by (simp add: armIdleTimer_def put_turn_def)
  show ?thesis using False c by (cases b; cases "cd_activeTurn s1") (simp_all add: onFrame_def h Let_def active)
qed (simp add: onFrame_def assms)

lemma calm_limit [simp]: "calm s s' \<Longrightarrow> calm s (onLimitExceeded env s')"
  by (simp add: onLimitExceeded_def split: option.split)

lemma calm_consume [simp]: "calm s s' \<Longrightarrow> calm s (consume env call s')"
  by (simp add: consume_def split: ndjson_call.split option.split)

lemma calm_consume_all [simp]: "calm s s' \<Longrightarrow> calm s (consume_all env calls s')"
  by (induction calls arbitrary: s') simp_all

lemma calm_stdout [simp]: "calm s (stdout_data env p chunk s)" "calm s (stdout_end env p s)"
  by (simp_all add: stdout_data_def stdout_end_def split: prod.split)

lemma calm_exit [simp]: "calm s (onProcessExit env code signal s)"
  by (simp add: onProcessExit_def Let_def split: option.split)

lemma calm_close_done [simp]: "calm s s' \<Longrightarrow> calm s (close_done k s')"
  by (simp add: close_done_def)

lemma calm_close_process [simp]: "calm s s' \<Longrightarrow> calm s (close_process k s')"
  by (simp add: close_process_def split: option.split)

lemma calm_close_after_control [simp]: "calm s s' \<Longrightarrow> calm s (close_after_control k s')"
  by (simp add: close_after_control_def split: option.split)

lemma calm_callbacks [simp]:
  "calm s (user_write_done env t failed s)" "calm s (idle_timer env t s)" "calm s (dispatch_timer env t s)"
  "calm s (control_write_failed env n message s)" "calm s (control_deadline env n s)" "calm s (call_prewarm env spec ir s)"
  by (simp_all add: user_write_done_def idle_timer_def dispatch_timer_def control_write_failed_def control_deadline_def
      call_prewarm_def Let_def split: option.split)

section \<open>Every step\<close>

text \<open>The calls of \<open>execute\<close> are serial when never more than one of them is running: so the
  registry of executions calls a driver.\<close>

definition serial :: "claude \<Rightarrow> bool" where
  "serial s \<longleftrightarrow> (\<forall>x y. running x s \<longrightarrow> running y s \<longrightarrow> x = y)"

lemma runTurn_turns_ok:
  assumes "turns_ok s" "cd_activeTurn s = None"
  shows "turns_ok (runTurn env x s)"
proof (cases "cd_process s = None \<or> cd_state s \<noteq> drv_ready")
  case True
  then have "calm s (runTurn env x s)" by (auto simp: runTurn_def Let_def split: option.split)
  then show ?thesis using calm_turns_ok assms(1) by blast
next
  case False
  then obtain p where p: "cd_process s = Some p" "cd_state s = drv_ready" by auto
  let ?s = "runTurn env x s" and ?t = "cd_nextTurn s"
  have s': "cd_activeTurn ?s = Some ?t" "cd_tasks ?s = cd_tasks s @ [ex_turn x ?t]"
      "\<And>u. u \<noteq> ?t \<Longrightarrow> cd_turns ?s u = cd_turns s u"
      "\<not> tu_settled (cd_turns ?s ?t)" "\<not> tu_cancelling (cd_turns ?s ?t)" "tu_turnTimer (cd_turns ?s ?t)"
    using p by (simp_all add: runTurn_def Let_def emit_wrapped_def dlog_def add_task_def put_turn_def put_exec_def armIdleTimer_def new_turn_def)
  have none: "tu_resolved (cd_turns s u)" if "ex_turn y u \<in> set (cd_tasks s)" for y u
    using assms that by (auto simp: turns_ok_def)
  have "u = ?t" if "ex_turn y u \<in> set (cd_tasks ?s)" "\<not> tu_resolved (cd_turns ?s u)" for y u
    using that s'(2,3) none by (metis Un_iff driver_task.inject(10) list.set(1) list.set(2) set_append singletonD)
  then show ?thesis using s' by (auto simp: turns_ok_def turn_can_end_def)
qed

lemma turns_ok_put_exec [simp]:
  "turns_ok (put_exec x f s) = turns_ok s" "cd_activeTurn (put_exec x f s) = cd_activeTurn s"
  by (simp_all add: turns_ok_def turn_can_end_def cancel_waits_def close_begun_def put_exec_def)

lemma execute_round_turns_ok:
  assumes "turns_ok s" "cd_activeTurn s = None"
  shows "turns_ok (execute_round env x s)"
proof -
  have "turns_ok (execute_returns x (emitStoppedBeforeRetry x (put_exec x f s)))" for f
    using calm_turns_ok [OF _ assms(1)] by simp
  then show ?thesis using assms by (simp add: execute_round_def Let_def runTurn_turns_ok)
qed

lemma execute_turns_ok:
  assumes "turns_ok s"
  shows "turns_ok (execute env i s)"
proof (cases "cd_activeTurn s")
  case None
  have "turns_ok (put_exec x f (s\<lparr>cd_nextExec := n\<rparr>))" for x f n using calm_turns_ok [OF _ assms] by simp
  moreover have "cd_activeTurn (put_exec x f (s\<lparr>cd_nextExec := n\<rparr>)) = None" for x f n using None by (simp add: put_exec_def)
  ultimately show ?thesis using None by (simp add: execute_def Let_def execute_round_turns_ok)
next
  case (Some t)
  then show ?thesis using calm_turns_ok [OF _ assms] by (simp add: execute_def Let_def)
qed

lemma latching_turns_ok:
  assumes "turns_ok s" "calm s s'" "cd_activeTurn s' = Some t" "turn_can_end t u"
    "cd_activeTurn u = Some t" "\<And>v. tu_resolved (cd_turns u v) = tu_resolved (cd_turns s' v)"
    "\<And>x v. (ex_turn x v \<in> set (cd_tasks u)) = (ex_turn x v \<in> set (cd_tasks s'))"
  shows "turns_ok u"
  using calm_turns_ok [OF assms(2,1)] assms(3-7) by (auto simp: turns_ok_def)

lemma sendControl_view:
  "cd_activeTurn (sendControl env user subtype s) = cd_activeTurn s" "cd_turns (sendControl env user subtype s) = cd_turns s"
  "(ex_turn x v \<in> set (cd_tasks (sendControl env user subtype s))) = (ex_turn x v \<in> set (cd_tasks s))"
  "close_begun s \<Longrightarrow> close_begun (sendControl env user subtype s)"
  "cancel_waits t (sendControl env (for_cancel c t) subtype s)"
  by (simp_all add: sendControl_def Let_def add_task_def dlog_def close_begun_def cancel_waits_def split: option.split)

lemma cancel_turns_ok:
  assumes "turns_ok s"
  shows "turns_ok (cancel env executionId s)"
proof -
  let ?s = "dlog (cancel_called executionId) (s\<lparr>cd_nextCall := cd_nextCall s + 1,
     cd_cancellingExecutions := (if executionId \<in> set (cd_cancellingExecutions s) then cd_cancellingExecutions s
       else cd_cancellingExecutions s @ [executionId])\<rparr>)"
  have calm: "calm s ?s" by simp
  show ?thesis
  proof (cases "\<exists>t. cd_activeTurn s = Some t \<and> tu_executionId (cd_turns s t) = executionId")
    case True
    then obtain t where t: "cd_activeTurn s = Some t" "tu_executionId (cd_turns s t) = executionId" by blast
    let ?u = "clearTurnTimers t (put_turn t (\<lambda>u. u\<lparr>tu_cancelling := True\<rparr>) ?s)"
    have "cancel env executionId s = sendControl env (for_cancel (cd_nextCall s) t) ''interrupt'' ?u"
      using t by (simp add: cancel_def Let_def dlog_def)
    moreover have "\<not> tu_settled (cd_turns s t)" using assms t(1) by (simp add: turns_ok_def turn_can_end_def)
    then have "turn_can_end t (sendControl env (for_cancel (cd_nextCall s) t) ''interrupt'' ?u)"
      by (simp add: turn_can_end_def sendControl_view clearTurnTimers_def put_turn_def dlog_def)
    ultimately show ?thesis
      using latching_turns_ok [OF assms calm, of t "cancel env executionId s"] t(1)
      by (simp add: sendControl_view clearTurnTimers_def put_turn_def dlog_def)
  next
    case False
    then have "calm s (cancel env executionId s)" by (auto simp: cancel_def Let_def dlog_def [symmetric] split: option.split)
    then show ?thesis using calm_turns_ok assms by blast
  qed
qed

lemma close_turns_ok:
  assumes "turns_ok s"
  shows "turns_ok (close env s)"
proof -
  let ?s = "dlog (close_called (cd_nextCall s)) (s\<lparr>cd_nextCall := cd_nextCall s + 1, cd_state := drv_closing\<rparr>)"
  have calm: "calm s ?s" by simp
  show ?thesis
  proof (cases "cd_activeTurn s")
    case None
    then have "close env s = close_after_control (cd_nextCall s) ?s" by (simp add: close_def Let_def dlog_def)
    then show ?thesis using calm_turns_ok [OF calm_close_after_control [OF calm] assms] by simp
  next
    case (Some t)
    let ?u = "clearTurnTimers t (put_turn t (\<lambda>u. u\<lparr>tu_cancelling := True\<rparr>) ?s)"
    have "close env s = sendControl env (for_close (cd_nextCall s)) ''interrupt'' ?u"
      using Some by (simp add: close_def Let_def dlog_def)
    moreover have "\<not> tu_settled (cd_turns s t)" using assms Some by (simp add: turns_ok_def turn_can_end_def)
    moreover have "close_begun ?u" by (simp add: clearTurnTimers_def put_turn_def dlog_def close_begun_def)
    ultimately show ?thesis
      using latching_turns_ok [OF assms calm, of t "close env s"] Some sendControl_view(4) [of ?u]
      by (simp add: sendControl_view turn_can_end_def clearTurnTimers_def put_turn_def dlog_def)
  qed
qed

lemma turn_timer_turns_ok:
  assumes "turns_ok s"
  shows "turns_ok (turn_timer env t s)"
proof -
  let ?s = "put_turn t (\<lambda>u. u\<lparr>tu_turnTimer := False\<rparr>) s"
  show ?thesis
  proof (cases "may_settle t ?s")
    case True
    let ?u = "terminateTurn t (Inr int_timeout) ?s"
    have "cd_activeTurn s = Some t" "\<not> tu_settled (cd_turns s t)"
      using True by (simp_all add: may_settle_def deadlineMaySettle_def put_turn_def)
    then have "calm s ?u"
      by (auto simp: calm_def terminateTurn_def emitTerminal_def idle_again_def Let_def clearTurnTimers_def put_turn_def emit_wrapped_def
          put_exec_def dlog_def cancel_waits_def close_begun_def)
    then have "calm s (turn_timer env t s)" using True by (simp add: turn_timer_def Let_def)
    then show ?thesis using calm_turns_ok assms by blast
  next
    case False
    then have "turn_timer env t s = ?s" by (simp add: turn_timer_def Let_def)
    moreover have "turn_can_end u ?s" if "cd_activeTurn s = Some u" for u
      using assms that False
      by (auto simp: turns_ok_def turn_can_end_def may_settle_def deadlineMaySettle_def put_turn_def cancel_waits_def close_begun_def
          split: if_splits)
    ultimately show ?thesis using assms by (auto simp: turns_ok_def put_turn_def)
  qed
qed

lemma gap_is_free:
  assumes "calls_ok None s" "serial s" "ex_gap x b \<in> set (cd_tasks s)"
  shows "cd_activeTurn s = None"
proof (rule ccontr)
  assume "cd_activeTurn s \<noteq> None"
  then obtain t where t: "cd_activeTurn s = Some t" by blast
  let ?y = "tu_exec (cd_turns s t)"
  have y: "running ?y s" "tokens_of ?y s = {#tok_turn ?y t#}" using active_call [OF assms(1) t refl] by blast+
  have "tok_wait x \<in># tokens_of x s"
    using assms(3) by (force simp: tokens_of_def tokens_def)
  moreover from this have "running x s" using calls_okD(5) [OF assms(1), of x] by (auto simp: call_ok_def split: if_splits)
  then have "x = ?y" using y(1) assms(2) by (auto simp: serial_def)
  ultimately show False using y(2) by auto
qed

lemma drop_task_view [simp]: "cd_activeTurn (drop_task k s) = cd_activeTurn s" "cd_turns (drop_task k s) = cd_turns s"
  by (simp_all add: drop_task_def)

lemma calm_replace_task:
  assumes "k \<in> set (cd_tasks s)" "\<And>t. waits_for t k \<Longrightarrow> waits_for t k'" "\<And>x t. k' = ex_turn x t \<Longrightarrow> k' = k"
  shows "calm s (add_task k' (drop_task k s))"
proof -
  have waits: "cancel_waits t (add_task k' (drop_task k s))" if w: "cancel_waits t s" for t
  proof -
    obtain j where j: "j \<in> set (cd_tasks s)" "waits_for t j" using w unfolding cancel_waits_def list_ex_iff by blast
    show ?thesis
    proof (cases "j = k")
      case True
      then show ?thesis using j(2) assms(2) by (simp add: cancel_waits_def add_task_def)
    next
      case False
      then have "j \<in> set (remove1 k (cd_tasks s))" using j(1) by simp
      then show ?thesis using j(2) by (auto simp: cancel_waits_def list_ex_iff add_task_def drop_task_def)
    qed
  qed
  have "ex_turn x t \<in> set (cd_tasks s)" if "ex_turn x t \<in> set (cd_tasks (add_task k' (drop_task k s)))" for x t
    using that assms(1) assms(3) [of x t] set_remove1_subset [of k "cd_tasks s"] by (auto simp: add_task_def drop_task_def)
  then show ?thesis using waits by (simp add: calm_def) (simp add: add_task_def drop_task_def close_begun_def)
qed

lemma go_on_turns_ok:
  assumes "turns_ok s" "calls_ok None s" "serial s" "k \<in> set (cd_tasks s)"
  shows "turns_ok (go_on env k failed flag (drop_task k s))"
proof -
  let ?d = "drop_task k s" and ?s = "go_on env k failed flag (drop_task k s)"
  have drop: "calm s ?d" if "\<And>t. cd_activeTurn s = Some t \<Longrightarrow> \<not> waits_for t k" using that calm_drop_task by blast
  have quiet: "turns_ok ?s" if "calm s ?s" using calm_turns_ok [OF that assms(1)] .
  show ?thesis
  proof (cases k)
    case (on_control n user)
    have "calm s (add_task k ?d)" using calm_replace_task [OF assms(4), of k] by simp
    then show ?thesis using quiet on_control by simp
  next
    case (got_control user result)
    show ?thesis
    proof (cases user)
      case (for_cancel c t)
      have "calm s (add_task (cn_poll c t) ?d)"
        using calm_replace_task [OF assms(4), of "cn_poll c t"] got_control for_cancel by simp
      then show ?thesis using quiet got_control for_cancel by simp
    qed (use quiet drop got_control in \<open>simp_all\<close>)
  next
    case (ex_turn x t)
    have "calm s (add_task k ?d)" using calm_replace_task [OF assms(4), of k] by simp
    moreover have "calm s (after_turn env x ?d)" using drop ex_turn by simp
    ultimately show ?thesis using quiet ex_turn by simp
  next
    case (ex_gap x b)
    have none: "cd_activeTurn ?d = None" using gap_is_free [OF assms(2,3)] assms(4) ex_gap by (simp add: drop_task_def)
    have d: "calm s ?d" using drop ex_gap by simp
    have "turns_ok (execute_round env x ?d)" using execute_round_turns_ok [OF calm_turns_ok [OF d assms(1)] none] .
    moreover have "turns_ok (execute_returns x (emitStoppedBeforeRetry x ?d))" "turns_ok (execute_returns x (dlog ev ?d))" for ev
      using calm_turns_ok [OF _ assms(1)] d by simp_all
    ultimately show ?thesis using ex_gap by (cases b) (simp_all add: after_gap_def)
  next
    case (cn_poll c t)
    show ?thesis
    proof (cases "cd_activeTurn s = Some t")
      case True
      have "calm s (add_task k ?d)" using calm_replace_task [OF assms(4), of k] by simp
      moreover have "calm s ?s" if flag
      proof -
        let ?e = "case cd_process ?d of None \<Rightarrow> ?d | Some p \<Rightarrow> dlog (asked_kill p) ?d"
        let ?u = "terminateTurn t (Inr int_user_cancelled) ?e"
        have "\<not> tu_settled (cd_turns s t)" using assms(1) True by (simp add: turns_ok_def turn_can_end_def)
        then have "calm s ?u"
          using True
          by (auto simp: calm_def terminateTurn_def emitTerminal_def idle_again_def Let_def clearTurnTimers_def put_turn_def
              emit_wrapped_def put_exec_def dlog_def drop_task_def cancel_waits_def close_begun_def split: option.split
              dest: set_mp [OF set_remove1_subset])
        then show ?thesis using True that cn_poll by (simp add: cancel_poll_def cong: option.case_cong)
      qed
      ultimately show ?thesis using quiet True cn_poll by (cases flag) (simp_all add: cancel_poll_def)
    next
      case False
      then have "calm s ?d" using drop cn_poll by auto
      then show ?thesis using quiet False cn_poll by (simp add: cancel_poll_def drop_task_def)
    qed
  qed (use quiet drop in \<open>simp_all\<close>)
qed

lemma claude_step_turns_ok:
  assumes "claude_step env s s'" "turns_ok s" "calls_ok None s" "serial s"
  shows "turns_ok s'"
  using assms(1)
proof cases
  case call_execute
  then show ?thesis using execute_turns_ok assms(2) by simp
next
  case call_cancel
  then show ?thesis using cancel_turns_ok assms(2) by simp
next
  case call_close
  then show ?thesis using close_turns_ok assms(2) by simp
next
  case task_goes_on
  then show ?thesis using go_on_turns_ok assms(2-4) by simp
next
  case turn_fires
  then show ?thesis using turn_timer_turns_ok assms(2) by simp
qed (use calm_turns_ok [OF _ assms(2)] in simp_all)

definition serial_step :: "claude_env \<Rightarrow> claude \<Rightarrow> claude \<Rightarrow> bool" where
  "serial_step env s s' \<longleftrightarrow> claude_step env s s' \<and> serial s'"

abbreviation serially_reachable :: "claude_env \<Rightarrow> claude \<Rightarrow> bool" where
  "serially_reachable env s \<equiv> (serial_step env)\<^sup>*\<^sup>* createClaudeStreamJsonDriver s"

lemma serially_reachable_ok: "serially_reachable env s \<Longrightarrow> claude_reachable env s \<and> serial s \<and> turns_ok s"
proof (induction rule: rtranclp_induct)
  case base
  then show ?case by (simp add: serial_def running_def turns_ok_def createClaudeStreamJsonDriver_def)
next
  case (step s s')
  then have "claude_step env s s'" "serial s'" by (simp_all add: serial_step_def)
  moreover from this step.IH have "claude_reachable env s'" using rtranclp.rtrancl_into_rtrancl [of "claude_step env"] by blast
  moreover have "turns_ok s'" using claude_step_turns_ok \<open>claude_step env s s'\<close> step.IH claude_reachable_ok by blast
  ultimately show ?case by blast
qed

section \<open>How a turn ends\<close>

lemma terminate_ends:
  assumes "cd_activeTurn s = Some t" "\<not> tu_settled (cd_turns s t)"
  shows "tu_resolved (cd_turns (terminateTurn t outcome s) t)" "cd_activeTurn (terminateTurn t outcome s) = None"
  using assms
  by (simp_all add: terminateTurn_def emitTerminal_def Let_def idle_again_def clearTurnTimers_def put_turn_def emit_wrapped_def
      put_exec_def dlog_def)

lemma interrupted_is_reported:
  assumes "cd_activeTurn s = Some t" "\<not> tu_settled (cd_turns s t)"
  shows "drv_emitted (tu_exec (cd_turns s t)) (Interrupted reason (tu_dispatchState (cd_turns s t)) tool_none)
    \<in> set (cd_log (terminateTurn t (Inr reason) s))"
  using assms
  by (simp add: terminateTurn_def emitTerminal_def Let_def idle_again_def clearTurnTimers_def put_turn_def emit_wrapped_def swallows_def
      dlog_def)

lemma respawn_keeps_turns [simp]: "cd_turns (respawn env r s) = cd_turns s" "set (cd_log s) \<subseteq> set (cd_log (respawn env r s))"
  by (simp_all add: respawn_def respawn_start_def spawnAndHandshake_def Let_def add_task_def dlog_def split: option.split sum.split) auto

lemma fail_all_view [simp]:
  "cd_activeTurn (failAllPendingControls failure s) = cd_activeTurn s" "cd_turns (failAllPendingControls failure s) = cd_turns s"
proof -
  have "cd_activeTurn (fold (\<lambda>(rid, n). settle_control n (Inl failure)) ps s) = cd_activeTurn s
      \<and> cd_turns (fold (\<lambda>(rid, n). settle_control n (Inl failure)) ps s) = cd_turns s" for ps :: "(string \<times> nat) list"
    by (induction ps arbitrary: s) (simp_all add: settle_control_def split: prod.split)
  then show "cd_activeTurn (failAllPendingControls failure s) = cd_activeTurn s" "cd_turns (failAllPendingControls failure s) = cd_turns s"
    by (simp_all add: failAllPendingControls_def)
qed

end
