(* ===== verification/Claude_Dispatch.thy ===== *)
theory Claude_Dispatch
  imports Claude_Properties
begin

text \<open>
  The safe retry: a call of \<open>execute\<close> writes its prompt to a process at most twice, and a second
  time only after the first attempt was given up with nothing to show that its prompt had been
  dispatched.
\<close>

section \<open>Prompts in a log\<close>

fun is_prompt :: "nat \<Rightarrow> driver_event \<Rightarrow> bool" where
  "is_prompt x (wrote_user y t p f) = (y = x)"
| "is_prompt x _ = False"

definition prompts :: "nat \<Rightarrow> driver_event list \<Rightarrow> nat" where
  "prompts x l = length (filter (is_prompt x) l)"

text \<open>Nothing shows that the prompt of the turn \<open>t\<close> has left the Host.\<close>

definition unconfirmed :: "nat \<Rightarrow> driver_event list \<Rightarrow> bool" where
  "unconfirmed t l \<longleftrightarrow> write_confirmed t \<notin> set l \<and> replay_seen t \<notin> set l"

text \<open>Every prompt of \<open>x\<close> has been given up while it was unconfirmed.\<close>

definition safe_failure :: "DriverEvent \<Rightarrow> bool" where
  "safe_failure ev = (case ev of Failed failure d tool r \<Rightarrow> d = not_dispatched \<and> r | _ \<Rightarrow> False)"

definition given_up :: "nat \<Rightarrow> nat \<Rightarrow> driver_event list \<Rightarrow> driver_event list \<Rightarrow> bool" where
  "given_up x t before between \<longleftrightarrow>
     (\<exists>b1 ev b2. between = b1 @ drv_swallowed x ev # b2 \<and> safe_failure ev \<and> unconfirmed t (before @ b1))"

definition released :: "nat \<Rightarrow> driver_event list \<Rightarrow> bool" where
  "released x l \<longleftrightarrow> (\<forall>a t p f b. l = a @ wrote_user x t p f # b \<longrightarrow> given_up x t a b)"

definition retries_ok :: "nat \<Rightarrow> driver_event list \<Rightarrow> bool" where
  "retries_ok x l \<longleftrightarrow>
     (\<forall>a t p f b u q g c. l = a @ wrote_user x t p f # b @ wrote_user x u q g # c \<longrightarrow> given_up x t a b)"

lemma log_snoc_split:
  assumes "l @ [e] = a @ w # b" "e \<noteq> w"
  obtains b' where "b = b' @ [e]" "l = a @ w # b'"
  using assms by (cases b rule: rev_cases) auto

lemma given_up_more: "given_up x t a b \<Longrightarrow> given_up x t a (b @ c)"
  unfolding given_up_def by (metis append_Cons append_assoc)

lemma released_snoc:
  assumes "released x l" "\<not> is_prompt x e"
  shows "released x (l @ [e])"
  unfolding released_def
proof (intro allI impI)
  fix a t p f b assume l: "l @ [e] = a @ wrote_user x t p f # b"
  have "e \<noteq> wrote_user x t p f" using assms(2) by auto
  with l obtain b' where "b = b' @ [e]" "l = a @ wrote_user x t p f # b'" by (rule log_snoc_split)
  then show "given_up x t a b" using assms(1) given_up_more unfolding released_def by blast
qed

lemma released_swallowed:
  assumes "safe_failure ev" "\<And>t p f. wrote_user x t p f \<in> set l \<Longrightarrow> unconfirmed t l"
  shows "released x (l @ [drv_swallowed x ev])"
  unfolding released_def
proof (intro allI impI)
  fix a t p f b assume "l @ [drv_swallowed x ev] = a @ wrote_user x t p f # b"
  then obtain b' where b: "b = b' @ [drv_swallowed x ev]" "l = a @ wrote_user x t p f # b'" by (rule log_snoc_split) simp
  have "unconfirmed t (a @ b')" using assms(2) [of t p f] b(2) by (simp add: unconfirmed_def)
  then show "given_up x t a b" using b(1) assms(1) unfolding given_up_def by blast
qed

lemma no_prompts: "prompts x l = 0 \<Longrightarrow> wrote_user x t p f \<notin> set l"
  by (auto simp: prompts_def filter_empty_conv)

lemma released_none: "prompts x l = 0 \<Longrightarrow> released x l"
  unfolding released_def using no_prompts [of x l] by (metis in_set_conv_decomp)

lemma retries_snoc:
  assumes "retries_ok x l" "\<not> is_prompt x e \<or> released x l"
  shows "retries_ok x (l @ [e])"
  unfolding retries_ok_def
proof (intro allI impI)
  fix a t p f b u q g c assume l: "l @ [e] = a @ wrote_user x t p f # b @ wrote_user x u q g # c"
  show "given_up x t a b"
  proof (cases c rule: rev_cases)
    case Nil
    then have "e = wrote_user x u q g" "l = a @ wrote_user x t p f # b" using l by simp_all
    then show ?thesis using assms(2) by (simp add: released_def)
  next
    case (snoc c' e')
    then have "l = a @ wrote_user x t p f # b @ wrote_user x u q g # c'" using l by simp
    then show ?thesis using assms(1) by (simp add: retries_ok_def)
  qed
qed

lemma one_prompt:
  assumes "prompts x l \<le> 1" "wrote_user x t p f \<in> set l" "wrote_user x u q g \<in> set l"
  shows "u = t"
proof -
  have "wrote_user x t p f \<in> set (filter (is_prompt x) l)" "wrote_user x u q g \<in> set (filter (is_prompt x) l)" using assms(2,3) by simp_all
  moreover have "length (filter (is_prompt x) l) \<le> 1" using assms(1) by (simp add: prompts_def)
  ultimately show ?thesis by (cases "filter (is_prompt x) l") auto
qed

section \<open>The invariant\<close>

definition call_prompts_ok :: "claude \<Rightarrow> nat \<Rightarrow> bool" where
  "call_prompts_ok s x \<longleftrightarrow> retries_ok x (cd_log s) \<and> ex_attempt (cd_execs s x) \<le> 2
     \<and> (if x < cd_nextExec s
        then prompts x (cd_log s) \<le> ex_attempt (cd_execs s x)
          \<and> (ex_failedRetryable (cd_execs s x) \<longrightarrow> released x (cd_log s))
        else prompts x (cd_log s) = 0)"

definition written :: "nat \<Rightarrow> nat \<Rightarrow> driver_event list \<Rightarrow> bool" where
  "written x t l \<longleftrightarrow> (\<exists>p f. wrote_user x t p f \<in> set l)"

lemma written_more: "written x t l \<Longrightarrow> written x t (l @ l')"
  by (auto simp: written_def)

definition turn_prompt_ok :: "claude \<Rightarrow> nat \<Rightarrow> bool" where
  "turn_prompt_ok s t \<longleftrightarrow>
     (if t < cd_nextTurn s
      then written (tu_exec (cd_turns s t)) t (cd_log s)
        \<and> (tu_dispatchState (cd_turns s t) = not_dispatched \<longrightarrow> unconfirmed t (cd_log s))
      else unconfirmed t (cd_log s))"

definition prompts_ok :: "claude \<Rightarrow> bool" where
  "prompts_ok s \<longleftrightarrow> (\<forall>x. call_prompts_ok s x) \<and> (\<forall>t. turn_prompt_ok s t)
     \<and> (\<forall>t. cd_activeTurn s = Some t \<longrightarrow> t < cd_nextTurn s)"

lemma prompts_okD:
  assumes "prompts_ok s"
  shows "call_prompts_ok s x" "turn_prompt_ok s t" "cd_activeTurn s = Some t \<Longrightarrow> t < cd_nextTurn s"
  using assms by (simp_all add: prompts_ok_def)

lemma prompts_ok_fields [simp]:
  "prompts_ok (s\<lparr>cd_state := a\<rparr>) = prompts_ok s" "prompts_ok (s\<lparr>cd_process := b\<rparr>) = prompts_ok s"
  "prompts_ok (s\<lparr>cd_pendingSpawn := c\<rparr>) = prompts_ok s" "prompts_ok (s\<lparr>cd_sessionEpoch := n\<rparr>) = prompts_ok s"
  "prompts_ok (s\<lparr>cd_canonicalModel := e\<rparr>) = prompts_ok s" "prompts_ok (s\<lparr>cd_catalog := f\<rparr>) = prompts_ok s"
  "prompts_ok (s\<lparr>cd_initVerified := g\<rparr>) = prompts_ok s" "prompts_ok (s\<lparr>cd_lastCumulative := h\<rparr>) = prompts_ok s"
  "prompts_ok (s\<lparr>cd_cancellingExecutions := i\<rparr>) = prompts_ok s" "prompts_ok (s\<lparr>cd_requestCounter := n\<rparr>) = prompts_ok s"
  "prompts_ok (s\<lparr>cd_pendingControls := j\<rparr>) = prompts_ok s" "prompts_ok (s\<lparr>cd_route := k\<rparr>) = prompts_ok s"
  "prompts_ok (s\<lparr>cd_persona := l\<rparr>) = prompts_ok s" "prompts_ok (s\<lparr>cd_lastInstallation := m\<rparr>) = prompts_ok s"
  "prompts_ok (s\<lparr>cd_tasks := r\<rparr>) = prompts_ok s" "prompts_ok (s\<lparr>cd_nextSpawn := n\<rparr>) = prompts_ok s"
  "prompts_ok (s\<lparr>cd_settledSpawns := p\<rparr>) = prompts_ok s" "prompts_ok (s\<lparr>cd_splitters := q\<rparr>) = prompts_ok s"
  "prompts_ok (s\<lparr>cd_attached := p\<rparr>) = prompts_ok s" "prompts_ok (s\<lparr>cd_nextCall := n\<rparr>) = prompts_ok s"
  by (simp_all add: prompts_ok_def call_prompts_ok_def turn_prompt_ok_def)

lemma prompts_ok_no_turn [simp]: "prompts_ok s \<Longrightarrow> prompts_ok (s\<lparr>cd_activeTurn := None\<rparr>)"
  by (simp add: prompts_ok_def call_prompts_ok_def turn_prompt_ok_def)

lemma prompts_ok_add_task [simp]: "prompts_ok (add_task k s) = prompts_ok s"
  by (simp add: add_task_def)

fun prompt_event :: "driver_event \<Rightarrow> bool" where
  "prompt_event (wrote_user x t p f) = True"
| "prompt_event (write_confirmed t) = True"
| "prompt_event (replay_seen t) = True"
| "prompt_event _ = False"

lemma prompts_ok_dlog [simp]:
  assumes "prompts_ok s" "\<not> prompt_event ev"
  shows "prompts_ok (dlog ev s)"
proof -
  have ev: "\<not> is_prompt x ev" "ev \<noteq> write_confirmed t" "ev \<noteq> replay_seen t" for x t using assms(2) by (cases ev; simp)+
  then have same: "prompts x (cd_log s @ [ev]) = prompts x (cd_log s)" "unconfirmed t (cd_log s @ [ev]) = unconfirmed t (cd_log s)" for x t
    by (auto simp: prompts_def unconfirmed_def)
  then have calls: "call_prompts_ok (dlog ev s) x" for x
    using prompts_okD(1) [OF assms(1), of x] ev(1) released_snoc retries_snoc by (simp add: call_prompts_ok_def dlog_def)
  have "turn_prompt_ok (dlog ev s) t" for t
    using prompts_okD(2) [OF assms(1), of t] written_more same by (simp add: turn_prompt_ok_def dlog_def)
  then show ?thesis using calls prompts_okD(3) [OF assms(1)] by (simp add: prompts_ok_def dlog_def)
qed

lemma prompts_ok_put_turn [simp]:
  assumes "prompts_ok s" "\<And>u. tu_exec (f u) = tu_exec u" "\<And>u. tu_dispatchState (f u) = tu_dispatchState u"
  shows "prompts_ok (put_turn t f s)"
proof -
  have "turn_prompt_ok (put_turn t f s) u" for u
    using prompts_okD(2) [OF assms(1), of u] assms(2,3) by (cases "u = t") (simp_all add: turn_prompt_ok_def put_turn_def)
  moreover have "call_prompts_ok (put_turn t f s) x" for x
    using prompts_okD(1) [OF assms(1), of x] by (simp add: call_prompts_ok_def put_turn_def)
  ultimately show ?thesis using prompts_okD(3) [OF assms(1)] by (simp add: prompts_ok_def put_turn_def)
qed

lemma prompts_ok_confirm [simp]:
  assumes "prompts_ok s" "t < cd_nextTurn s" "e \<in> {write_confirmed t, replay_seen t}"
    "\<And>u. tu_exec (f u) = tu_exec u \<and> tu_dispatchState (f u) \<noteq> not_dispatched"
  shows "prompts_ok (dlog e (put_turn t f s))"
proof -
  have e: "\<not> is_prompt x e" for x using assms(3) by auto
  have "prompts x (cd_log s @ [e]) = prompts x (cd_log s)" for x using e by (simp add: prompts_def)
  then have "call_prompts_ok (dlog e (put_turn t f s)) x" for x
    using prompts_okD(1) [OF assms(1), of x] e released_snoc retries_snoc by (simp add: call_prompts_ok_def dlog_def put_turn_def)
  moreover have "turn_prompt_ok (dlog e (put_turn t f s)) u" for u
    using prompts_okD(2) [OF assms(1), of u] assms(2-4) written_more
    by (cases "u = t") (auto simp: turn_prompt_ok_def dlog_def put_turn_def unconfirmed_def)
  ultimately show ?thesis using prompts_okD(3) [OF assms(1)] by (simp add: prompts_ok_def dlog_def put_turn_def)
qed

section \<open>Giving a first attempt up\<close>

text \<open>The safe failure of the only prompt that was written, of the turn \<open>t\<close>.\<close>

lemma prompts_ok_swallow:
  assumes "prompts_ok s" "x < cd_nextExec s" "\<And>t. written x t (cd_log s) \<Longrightarrow> unconfirmed t (cd_log s)" "safe_failure ev"
  shows "prompts_ok (dlog (drv_swallowed x ev) (put_exec x (\<lambda>e. e\<lparr>ex_failedRetryable := True\<rparr>) s))"
proof -
  let ?s = "dlog (drv_swallowed x ev) (put_exec x (\<lambda>e. e\<lparr>ex_failedRetryable := True\<rparr>) s)"
  let ?l = "cd_log s @ [drv_swallowed x ev]"
  have same: "prompts y ?l = prompts y (cd_log s)" "unconfirmed t ?l = unconfirmed t (cd_log s)" for y t
    by (auto simp: prompts_def unconfirmed_def)
  have "released x ?l" by (rule released_swallowed) (use assms(3,4) in \<open>auto simp: written_def\<close>)
  then have "call_prompts_ok ?s y" for y
    using prompts_okD(1) [OF assms(1), of y] same(1) released_snoc retries_snoc assms(2)
    by (cases "y = x") (simp_all add: call_prompts_ok_def dlog_def put_exec_def)
  moreover have "turn_prompt_ok ?s t" for t
    using prompts_okD(2) [OF assms(1), of t] written_more same(2) by (simp add: turn_prompt_ok_def dlog_def put_exec_def)
  ultimately show ?thesis using prompts_okD(3) [OF assms(1)] by (simp add: prompts_ok_def dlog_def put_exec_def)
qed

lemma only_turn_unconfirmed:
  assumes "prompts_ok s" "t < cd_nextTurn s" "tu_dispatchState (cd_turns s t) = not_dispatched"
    "ex_attempt (cd_execs s (tu_exec (cd_turns s t))) = 1" "written (tu_exec (cd_turns s t)) u (cd_log s)"
  shows "unconfirmed u (cd_log s) \<and> tu_exec (cd_turns s t) < cd_nextExec s"
proof -
  let ?x = "tu_exec (cd_turns s t)"
  have t: "written ?x t (cd_log s)" "unconfirmed t (cd_log s)"
    using prompts_okD(2) [OF assms(1), of t] assms(2,3) by (simp_all add: turn_prompt_ok_def)
  moreover have "prompts ?x (cd_log s) \<noteq> 0" using t(1) no_prompts [of ?x "cd_log s"] unfolding written_def by blast
  then have x: "?x < cd_nextExec s" "prompts ?x (cd_log s) \<le> 1"
    using prompts_okD(1) [OF assms(1), of ?x] assms(4) by (auto simp: call_prompts_ok_def split: if_splits)
  ultimately have "u = t" using one_prompt [OF x(2)] assms(5) by (auto simp: written_def)
  then show ?thesis using t(2) x(1) by simp
qed

lemma prompts_ok_emitTerminal [simp]:
  assumes "prompts_ok s" "cd_activeTurn s = Some t" "\<And>failure d tool r. ev = Failed failure d tool r \<Longrightarrow> d = tu_dispatchState (cd_turns s t)"
  shows "prompts_ok (emitTerminal t ev s)"
proof -
  let ?x = "tu_exec (cd_turns s t)" and ?u = "(clearTurnTimers t s)\<lparr>cd_activeTurn := None\<rparr>"
  have u: "prompts_ok ?u" using assms(1) by (simp add: clearTurnTimers_def)
  have view: "tu_exec (cd_turns ?u t) = ?x" "cd_execs ?u = cd_execs s" "cd_log ?u = cd_log s" "cd_nextExec ?u = cd_nextExec s"
    by (simp_all add: clearTurnTimers_def put_turn_def)
  have "prompts_ok (emit_wrapped ?x ev ?u)"
  proof (cases "swallows ev (cd_execs s ?x)")
    case True
    then obtain failure tool where ev: "ev = Failed failure not_dispatched tool True" "ex_attempt (cd_execs s ?x) = 1"
      by (cases ev) (auto simp: swallows_def)
    then have "tu_dispatchState (cd_turns s t) = not_dispatched" using assms(3) by simp
    note only = only_turn_unconfirmed [OF assms(1) prompts_okD(3) [OF assms(1,2)] this ev(2)]
    have "written ?x t (cd_log s)"
      using prompts_okD(2) [OF assms(1), of t] prompts_okD(3) [OF assms(1,2)] by (simp add: turn_prompt_ok_def)
    then have "?x < cd_nextExec s" using only by blast
    then show ?thesis using prompts_ok_swallow [OF u, of ?x] only view True ev(1) by (simp add: emit_wrapped_def safe_failure_def)
  next
    case False
    then show ?thesis using u view by (simp add: emit_wrapped_def)
  qed
  moreover have "(if cd_activeTurn (clearTurnTimers t s) = Some t then (clearTurnTimers t s)\<lparr>cd_activeTurn := None\<rparr> else clearTurnTimers t s) = ?u"
    using assms(2) by (simp add: clearTurnTimers_def put_turn_def)
  ultimately show ?thesis using view by (simp add: emitTerminal_def Let_def)
qed

section \<open>The operations\<close>

lemma prompts_ok_idle [simp]: "prompts_ok s \<Longrightarrow> prompts_ok (idle_again s)"
  by (simp add: idle_again_def)

lemma prompts_ok_arm [simp]: "prompts_ok s \<Longrightarrow> prompts_ok (armIdleTimer t s)"
  by (simp add: armIdleTimer_def)

lemma prompts_ok_terminate [simp]:
  assumes "prompts_ok s"
  shows "prompts_ok (terminateTurn t outcome s)"
proof -
  let ?u = "put_turn t (\<lambda>u. u\<lparr>tu_settled := True\<rparr>) s"
  have u: "prompts_ok ?u" "cd_activeTurn ?u = cd_activeTurn s" "tu_dispatchState (cd_turns ?u t) = tu_dispatchState (cd_turns s t)"
    using assms by simp (simp_all add: put_turn_def)
  have "prompts_ok (emitTerminal t (Failed failure (tu_dispatchState (cd_turns s t)) tool r) ?u)"
      "prompts_ok (emitTerminal t (Interrupted reason d tool) ?u)" if "cd_activeTurn s = Some t" for failure tool r reason d
    by (rule prompts_ok_emitTerminal; use u that in simp)+
  then show ?thesis using assms by (simp add: terminateTurn_def Let_def split: sum.split)
qed

lemma prompts_ok_sendControl [simp]: "prompts_ok s \<Longrightarrow> prompts_ok (sendControl env user subtype s)"
  by (simp add: sendControl_def Let_def split: option.split)

lemma prompts_ok_settle_control [simp]: "prompts_ok (settle_control n r s) = prompts_ok s"
  by (simp add: settle_control_def)

lemma prompts_ok_fail_all [simp]:
  assumes "prompts_ok s"
  shows "prompts_ok (failAllPendingControls failure s)"
proof -
  have "prompts_ok (fold (\<lambda>(rid, n). settle_control n (Inl failure)) ps s) = prompts_ok s" for ps :: "(string \<times> nat) list"
    by (induction ps arbitrary: s) (simp_all split: prod.split)
  then show ?thesis using assms by (simp add: failAllPendingControls_def)
qed

lemma prompts_ok_spawnAndHandshake [simp]: "prompts_ok s \<Longrightarrow> prompts_ok (spawnAndHandshake env owner ir s)"
  by (simp add: spawnAndHandshake_def split: sum.split)

lemma prompts_ok_respawn_start [simp]: "prompts_ok s \<Longrightarrow> prompts_ok (respawn_start env r s)"
  by (simp add: respawn_start_def split: option.split)

lemma prompts_ok_respawn [simp]: "prompts_ok s \<Longrightarrow> prompts_ok (respawn env r s)"
  by (simp add: respawn_def Let_def split: option.split)

lemma prompts_ok_handshake [simp]:
  assumes "prompts_ok s"
  shows "prompts_ok (after_mkdir env owner spec failed s)" "prompts_ok (after_spawn owner sp result s)"
    "prompts_ok (after_late_shutdown owner sp s)" "prompts_ok (adopt owner sp result s)"
    "prompts_ok (after_supervised env owner failed s)" "prompts_ok (after_initialize env owner reply s)"
    "prompts_ok (handshake_settled owner outcome s)" "prompts_ok (prewarm env k spec' ir s)"
  using assms
  by (simp_all add: after_mkdir_def after_spawn_def settle_spawn_def after_late_shutdown_def adopt_def after_supervised_def
      after_initialize_def handshake_settled_def respawn_settled_def prewarm_def Let_def
      split: option.split sum.split handshaker.split respawner.split prod.split DriverOptions.split)

lemma prompts_ok_returns [simp]: "prompts_ok s \<Longrightarrow> prompts_ok (execute_returns x s)"
  by (simp add: execute_returns_def)

lemma prompts_ok_stopped [simp]: "prompts_ok s \<Longrightarrow> prompts_ok (emitStoppedBeforeRetry x s)"
  by (simp add: emitStoppedBeforeRetry_def)

lemma prompts_ok_after_turn [simp]: "prompts_ok s \<Longrightarrow> prompts_ok (after_turn env x s)"
  by (simp add: after_turn_def)

lemma prompts_ok_emit [simp]:
  assumes "prompts_ok s" "\<not> terminal_body ev"
  shows "prompts_ok (emit_wrapped x ev s)"
proof -
  have "\<not> swallows ev (cd_execs s x)" using assms(2) by (cases ev) (simp_all add: swallows_def)
  then show ?thesis using assms(1) by (simp add: emit_wrapped_def)
qed

lemma prompts_ok_frames [simp]:
  assumes "prompts_ok s"
  shows "prompts_ok (handleSystemFrame env turn message s)" "prompts_ok (handleStreamEvent t message s)"
  using assms by (simp_all add: handleSystemFrame_def handleStreamEvent_def split: option.split)

lemma prompts_ok_replay [simp]: "prompts_ok s \<Longrightarrow> t < cd_nextTurn s \<Longrightarrow> prompts_ok (handleReplayFrame t message s)"
  by (simp add: handleReplayFrame_def)

lemma prompts_ok_completed [simp]:
  "prompts_ok s \<Longrightarrow> cd_activeTurn s = Some t \<Longrightarrow> prompts_ok (emitTerminal t (Completed a b c d e f g h) s)"
  by (rule prompts_ok_emitTerminal) simp_all

lemma prompts_ok_result [simp]:
  assumes "prompts_ok s" "cd_activeTurn s = Some t"
  shows "prompts_ok (handleResultFrame env t message s)"
proof -
  have "cd_activeTurn (emit_wrapped x ev (s\<lparr>cd_lastCumulative := l\<rparr>)) = Some t" for x ev l
    using assms(2) by (simp add: emit_wrapped_def dlog_def put_exec_def)
  then show ?thesis using assms by (simp add: handleResultFrame_def Let_def)
qed

lemma control_response_prompts:
  assumes "handleControlResponse env message s = (b, s')"
  shows "prompts_ok s' = prompts_ok s"
  using assms by (auto simp: handleControlResponse_def Let_def split: if_splits option.splits)

lemma prompts_ok_frame [simp]:
  assumes "prompts_ok s"
  shows "prompts_ok (onFrame env message s)"
proof (cases "message = JNull")
  case False
  obtain b s1 where h: "handleControlResponse env message s = (b, s1)" by fastforce
  have s1: "prompts_ok s1" using control_response_prompts [OF h] assms by simp
  have view: "cd_activeTurn (armIdleTimer t s1) = cd_activeTurn s1" "cd_nextTurn (armIdleTimer t s1) = cd_nextTurn s1" for t
    by (simp_all add: armIdleTimer_def put_turn_def)
  show ?thesis using False s1 prompts_okD(3) [OF s1]
    by (cases b; cases "cd_activeTurn s1") (simp_all add: onFrame_def h Let_def view)
qed (simp add: onFrame_def assms)

lemma prompts_ok_limit [simp]: "prompts_ok s \<Longrightarrow> prompts_ok (onLimitExceeded env s)"
  by (simp add: onLimitExceeded_def split: option.split)

lemma prompts_ok_consume [simp]: "prompts_ok s \<Longrightarrow> prompts_ok (consume env call s)"
  by (simp add: consume_def split: ndjson_call.split option.split)

lemma prompts_ok_consume_all [simp]: "prompts_ok s \<Longrightarrow> prompts_ok (consume_all env calls s)"
  by (induction calls arbitrary: s) simp_all

lemma prompts_ok_process [simp]:
  assumes "prompts_ok s"
  shows "prompts_ok (stdout_data env p chunk s)" "prompts_ok (stdout_end env p s)" "prompts_ok (onProcessExit env code signal s)"
  using assms by (simp_all add: stdout_data_def stdout_end_def onProcessExit_def Let_def split: prod.split option.split)

lemma prompts_ok_close [simp]:
  assumes "prompts_ok s"
  shows "prompts_ok (close_done k s)" "prompts_ok (close_process k s)" "prompts_ok (close_after_control k s)" "prompts_ok (close env s)"
    "prompts_ok (cancel env executionId s)" "prompts_ok (cancel_poll env c t expired s)"
  using assms
  by (simp_all add: close_done_def close_process_def close_after_control_def close_def cancel_def cancel_poll_def clearTurnTimers_def Let_def
      split: option.split)

lemma prompts_ok_callbacks [simp]:
  assumes "prompts_ok s"
  shows "t < cd_nextTurn s \<Longrightarrow> prompts_ok (user_write_done env t failed s)" "prompts_ok (idle_timer env t s)"
    "prompts_ok (turn_timer env t s)" "prompts_ok (dispatch_timer env t s)" "prompts_ok (control_write_failed env n message s)"
    "prompts_ok (control_deadline env n s)" "prompts_ok (call_prewarm env spec ir s)"
  using assms
  by (simp_all add: user_write_done_def idle_timer_def turn_timer_def dispatch_timer_def control_write_failed_def control_deadline_def
      call_prewarm_def Let_def split: option.split)

section \<open>Rounds\<close>

lemma prompts_ok_put_exec:
  assumes "prompts_ok s" "x < cd_nextExec s"
    "prompts x (cd_log s) \<le> ex_attempt (f (cd_execs s x))" "ex_attempt (f (cd_execs s x)) \<le> 2"
    "ex_failedRetryable (f (cd_execs s x)) \<Longrightarrow> released x (cd_log s)"
  shows "prompts_ok (put_exec x f s)"
proof -
  have "call_prompts_ok (put_exec x f s) y" for y
    using prompts_okD(1) [OF assms(1), of y] assms(2-5) by (cases "y = x") (simp_all add: call_prompts_ok_def put_exec_def)
  moreover have "turn_prompt_ok (put_exec x f s) t" for t
    using prompts_okD(2) [OF assms(1), of t] by (simp add: turn_prompt_ok_def put_exec_def)
  ultimately show ?thesis using prompts_okD(3) [OF assms(1)] by (simp add: prompts_ok_def put_exec_def)
qed

lemma prompts_ok_begin_turn:
  assumes "prompts_ok s" "x < cd_nextExec s" "released x (cd_log s)" "prompts x (cd_log s) + 1 \<le> ex_attempt (cd_execs s x)"
    "\<not> ex_failedRetryable (cd_execs s x)" "tu_exec u = x"
  shows "prompts_ok (dlog (wrote_user x (cd_nextTurn s) p f)
    (s\<lparr>cd_turns := (cd_turns s)(cd_nextTurn s := u), cd_nextTurn := cd_nextTurn s + 1, cd_activeTurn := Some (cd_nextTurn s)\<rparr>))"
    (is "prompts_ok ?s")
proof -
  let ?t = "cd_nextTurn s" and ?l = "cd_log s @ [wrote_user x (cd_nextTurn s) p f]"
  have same: "unconfirmed v ?l = unconfirmed v (cd_log s)" for v by (simp add: unconfirmed_def)
  have count: "prompts y ?l = prompts y (cd_log s) + (if y = x then 1 else 0)" for y by (simp add: prompts_def)
  have "call_prompts_ok ?s y" for y
  proof (cases "y = x")
    case True
    then show ?thesis using prompts_okD(1) [OF assms(1), of x] assms(2-5) count [of x] retries_snoc
      by (simp add: call_prompts_ok_def dlog_def)
  next
    case False
    then show ?thesis using prompts_okD(1) [OF assms(1), of y] count [of y] retries_snoc released_snoc
      by (simp add: call_prompts_ok_def dlog_def)
  qed
  moreover have "turn_prompt_ok ?s v" for v
  proof (cases "v = ?t")
    case True
    then show ?thesis using prompts_okD(2) [OF assms(1), of ?t] same assms(6)
      by (auto simp: turn_prompt_ok_def dlog_def written_def)
  next
    case False
    then show ?thesis using prompts_okD(2) [OF assms(1), of v] same written_more
      by (simp add: turn_prompt_ok_def dlog_def less_Suc_eq)
  qed
  ultimately show ?thesis by (simp add: prompts_ok_def dlog_def)
qed

lemma prompts_ok_runTurn:
  assumes "prompts_ok s" "x < cd_nextExec s" "released x (cd_log s)" "prompts x (cd_log s) + 1 \<le> ex_attempt (cd_execs s x)"
    "\<not> ex_failedRetryable (cd_execs s x)"
  shows "prompts_ok (runTurn env x s)"
proof -
  have down: "prompts_ok (emit_wrapped x (not_running env i) s)" for i
  proof (cases "swallows (not_running env i) (cd_execs s x)")
    case True
    then have "prompts x (cd_log s) = 0" using assms(4) by (auto simp: swallows_def)
    then have "\<not> written x t (cd_log s)" for t using no_prompts by (auto simp: written_def)
    then show ?thesis using prompts_ok_swallow [OF assms(1,2)] True by (simp add: emit_wrapped_def not_running_def safe_failure_def)
  next
    case False
    then show ?thesis using assms(1) by (simp add: emit_wrapped_def)
  qed
  show ?thesis
  proof (cases "cd_process s = None \<or> cd_state s \<noteq> drv_ready")
    case True
    then show ?thesis using down by (auto simp: runTurn_def Let_def split: option.split)
  next
    case False
    then obtain p where p: "cd_process s = Some p" "cd_state s = drv_ready" by auto
    let ?t = "cd_nextTurn s" and ?f = "user_frame (ex_input (cd_execs s x)) (ce_uuid env (cd_nextTurn s))"
    let ?u = "(new_turn env x s)\<lparr>tu_idleTimer := True, tu_turnTimer := True\<rparr>"
    let ?b = "if ex_attempt (cd_execs s x) = 1 then dlog (drv_emitted x (Started (xi_modelId (ex_input (cd_execs s x))))) s else s"
    have ok: "prompts_ok ?b" using assms(1) by simp
    have b: "cd_nextTurn ?b = ?t" "cd_nextExec ?b = cd_nextExec s" "cd_execs ?b = cd_execs s" "cd_turns ?b = cd_turns s"
        "prompts x (cd_log ?b) = prompts x (cd_log s)" "released x (cd_log ?b)"
      using assms(1,3) released_snoc [OF assms(3), of "drv_emitted x (Started (xi_modelId (ex_input (cd_execs s x))))"]
      by (simp_all add: dlog_def prompts_def)
    have "runTurn env x s = add_task (ex_turn x ?t) ((dlog (wrote_user x ?t p ?f)
        (?b\<lparr>cd_turns := (cd_turns ?b)(?t := ?u), cd_nextTurn := ?t + 1, cd_activeTurn := Some ?t\<rparr>))\<lparr>cd_state := drv_busy\<rparr>)"
      using p by (cases s) (simp add: runTurn_def Let_def emit_wrapped_def swallows_def dlog_def put_turn_def armIdleTimer_def new_turn_def)
    then show ?thesis using prompts_ok_begin_turn [OF ok, of x ?u p ?f] b assms(2,4,5) by (simp add: new_turn_def)
  qed
qed

lemma prompts_ok_round:
  assumes "prompts_ok s" "x < cd_nextExec s" "released x (cd_log s)" "ex_attempt (cd_execs s x) \<le> 1"
  shows "prompts_ok (execute_round env x s)"
proof -
  let ?a = "put_exec x (\<lambda>e. e\<lparr>ex_attempt := ex_attempt e + 1\<rparr>) s"
  let ?b = "put_exec x (\<lambda>e. e\<lparr>ex_failedRetryable := False\<rparr>) ?a"
  have count: "prompts x (cd_log s) \<le> ex_attempt (cd_execs s x)"
    using prompts_okD(1) [OF assms(1), of x] assms(2) by (simp add: call_prompts_ok_def)
  have a: "prompts_ok ?a" using prompts_ok_put_exec [OF assms(1,2)] count assms(3,4) by simp
  then have b: "prompts_ok ?b"
    by (rule prompts_ok_put_exec) (use count assms(2-4) in \<open>simp_all add: put_exec_def\<close>)
  have "prompts_ok (runTurn env x ?b)"
    using prompts_ok_runTurn [OF b, of x] count assms(2,3) by (simp add: put_exec_def)
  then show ?thesis using a by (simp add: execute_round_def Let_def)
qed

lemma prompts_ok_execute:
  assumes "prompts_ok s"
  shows "prompts_ok (execute env i s)"
proof -
  let ?x = "cd_nextExec s"
  let ?e = "\<lparr>ex_input = i, ex_attempt = 0, ex_closedAtEntry = isClosingOrClosed s, ex_failedRetryable = False\<rparr>"
  let ?a = "put_exec ?x (\<lambda>_. ?e) (s\<lparr>cd_nextExec := ?x + 1\<rparr>)"
  have none: "prompts ?x (cd_log s) = 0" using prompts_okD(1) [OF assms, of ?x] by (simp add: call_prompts_ok_def)
  have calls: "call_prompts_ok ?a y" for y
    using prompts_okD(1) [OF assms, of y] none
    by (cases "y = ?x") (auto simp: call_prompts_ok_def put_exec_def less_Suc_eq)
  have turns: "turn_prompt_ok ?a t" for t
    using prompts_okD(2) [OF assms, of t] by (simp add: turn_prompt_ok_def put_exec_def)
  have a: "prompts_ok ?a" using calls turns prompts_okD(3) [OF assms] by (simp add: prompts_ok_def put_exec_def)
  have "prompts_ok (execute_round env ?x ?a)"
    using prompts_ok_round [OF a, of ?x] released_none [OF none] by (simp add: put_exec_def)
  moreover have "prompts_ok (dlog (execute_threw ?x failure) (s\<lparr>cd_nextExec := ?x + 1\<rparr>))" for failure
  proof -
    let ?s = "s\<lparr>cd_nextExec := ?x + 1\<rparr>"
    have "call_prompts_ok ?s y" for y
      using prompts_okD(1) [OF assms, of y] none released_none [OF none]
      by (cases "y = ?x") (auto simp: call_prompts_ok_def less_Suc_eq)
    moreover have "turn_prompt_ok ?s t" for t using prompts_okD(2) [OF assms, of t] by (simp add: turn_prompt_ok_def)
    ultimately have "prompts_ok ?s" using prompts_okD(3) [OF assms] by (simp add: prompts_ok_def)
    then show ?thesis by simp
  qed
  ultimately show ?thesis by (simp add: execute_def Let_def)
qed

lemma prompts_ok_go_on:
  assumes "prompts_ok s" "calls_ok None s" "k \<in> set (cd_tasks s)"
  shows "prompts_ok (go_on env k failed flag (drop_task k s))"
proof -
  have d: "prompts_ok (drop_task k s)" using assms(1) by (simp add: drop_task_def)
  show ?thesis
  proof (cases k)
    case (ex_gap x b)
    have "tok_wait x \<in># tokens_of x s" using assms(3) ex_gap by (force simp: tokens_of_def tokens_def)
    then have "running x s" "token_ok s (tok_wait x)"
      using calls_okD(5) [OF assms(2), of x] by (auto simp: call_ok_def split: if_splits)
    then have x: "x < cd_nextExec s" "ex_attempt (cd_execs s x) = 1" "ex_failedRetryable (cd_execs s x)"
      by (simp_all add: running_def)
    then have "released x (cd_log s)" using prompts_okD(1) [OF assms(1), of x] by (simp add: call_prompts_ok_def)
    then have "prompts_ok (execute_round env x (drop_task k s))"
      using prompts_ok_round [OF d, of x] x by (simp add: drop_task_def)
    then show ?thesis using d ex_gap by (cases b) (simp_all add: after_gap_def)
  next
    case (got_control user result)
    then show ?thesis using d by (cases user) simp_all
  qed (use d in simp_all)
qed

lemma claude_step_prompts_ok:
  assumes "claude_step env s s'" "prompts_ok s" "calls_ok None s"
  shows "prompts_ok s'"
  using assms(1)
proof cases
  case call_execute
  then show ?thesis using prompts_ok_execute assms(2) by simp
next
  case task_goes_on
  then show ?thesis using prompts_ok_go_on assms(2,3) by simp
qed (use assms(2) in simp_all)

lemma reachable_prompts_ok: "claude_reachable env s \<Longrightarrow> prompts_ok s"
proof (induction rule: rtranclp_induct)
  case base
  then show ?case
    by (simp add: prompts_ok_def call_prompts_ok_def turn_prompt_ok_def retries_ok_def prompts_def unconfirmed_def
        createClaudeStreamJsonDriver_def)
next
  case (step s s')
  then show ?case using claude_step_prompts_ok claude_reachable_ok by blast
qed

end
