(* ===== verification/Claude_Guarantees.thy ===== *)
theory Claude_Guarantees
  imports Claude_Turns Claude_Dispatch
begin

text \<open>
  The guarantees of the \<open>claude-stream-json\<close> driver, over every order of frames, exits, timers and
  calls: the stream of events of a call of \<open>execute\<close>, and that a turn can always end.
\<close>

section \<open>The events of one call\<close>

definition is_started :: "DriverEvent \<Rightarrow> bool" where
  "is_started ev = (case ev of Started m \<Rightarrow> True | _ \<Rightarrow> False)"

text \<open>The tasks that carry the call \<open>x\<close> on.\<close>

definition carriers :: "nat \<Rightarrow> claude \<Rightarrow> token list" where
  "carriers x s = filter (\<lambda>k. token_exec k = x) (concat (map task_tokens (cd_tasks s)))"

lemma tokens_of_carriers: "tokens_of x s = mset (carriers x s)"
  by (simp add: tokens_of_def tokens_def carriers_def)

lemma in_exec_log: "exec_event e \<Longrightarrow> (e \<in> set (exec_log s)) = (e \<in> set (cd_log s))"
  by (simp add: exec_log_def)

lemma events_all: "events x (exec_log s) = events x (cd_log s)"
  by (simp add: exec_log_def events_exec_log)

lemma stage_of_call:
  assumes "calls_ok None s"
  shows "no_end x s \<or> one_end x s"
proof (cases "running x s")
  case True
  then obtain k where "token_ok s k" "tokens_of x s = {#k#}" using calls_okD(5) [OF assms, of x] by (auto simp: call_ok_def)
  moreover from this(2) have "token_exec k = x"
    using set_mset_filter [of "\<lambda>k. token_exec k = x" "tokens s"] by (auto simp: tokens_of_def)
  ultimately show ?thesis by (cases k) (auto simp: finished_def split: if_splits)
next
  case False
  then show ?thesis using calls_okD(2) [OF assms, of x]
    by (auto simp: call_log_ok_def running_def no_end_def split: if_splits)
qed

lemma ends_last:
  assumes "no_end x s \<or> one_end x s"
  shows "list_all (\<lambda>ev. \<not> terminal_body ev) (butlast (events x (cd_log s)))"
  using assms by (auto simp: no_end_def one_end_def events_all list_all_iff dest: in_set_butlastD)

text \<open>C38: Whatever the process writes, whenever it dies, whichever timers fire and whoever cancels or
  closes: a call of \<open>execute\<close> reports that it started at most once and before anything else, reports at most
  one terminal event, and nothing after it; it has reported one when it returns; and as long as it has not
  returned exactly one task carries it on, so that it is never forgotten nor carried on twice.
\<close>

theorem claude_reports_one_terminal:
  assumes "claude_reachable env s"
  shows "list_all (\<lambda>ev. \<not> is_started ev) (tl (events x (cd_log s)))
    \<and> list_all (\<lambda>ev. \<not> terminal_body ev) (butlast (events x (cd_log s)))
    \<and> (execute_returned x \<in> set (cd_log s) \<longrightarrow> events x (cd_log s) \<noteq> [] \<and> terminal_body (last (events x (cd_log s))))
    \<and> (x < cd_nextExec s \<and> execute_returned x \<notin> set (cd_log s) \<and> (\<forall>e. execute_threw x e \<notin> set (cd_log s)) \<longrightarrow>
        length (carriers x s) = 1)"
proof (intro conjI)
  have ok: "calls_ok None s" using claude_reachable_ok [OF assms] .
  then have log: "call_log_ok s x" and call: "call_ok s x" using calls_okD(2,5) by blast+
  show "list_all (\<lambda>ev. \<not> is_started ev) (tl (events x (cd_log s)))"
    using log by (simp add: call_log_ok_def started_first_def events_all list_all_iff is_started_def split: DriverEvent.split)
  show "list_all (\<lambda>ev. \<not> terminal_body ev) (butlast (events x (cd_log s)))"
    using ends_last [OF stage_of_call [OF ok]] .
  show "execute_returned x \<in> set (cd_log s) \<longrightarrow> events x (cd_log s) \<noteq> [] \<and> terminal_body (last (events x (cd_log s)))"
    using log by (auto simp: call_log_ok_def in_exec_log one_end_def events_all split: if_splits)
  show "x < cd_nextExec s \<and> execute_returned x \<notin> set (cd_log s) \<and> (\<forall>e. execute_threw x e \<notin> set (cd_log s)) \<longrightarrow>
        length (carriers x s) = 1"
  proof
    assume "x < cd_nextExec s \<and> execute_returned x \<notin> set (cd_log s) \<and> (\<forall>e. execute_threw x e \<notin> set (cd_log s))"
    then have "running x s" by (simp add: running_def threw_def in_exec_log)
    then have "size (tokens_of x s) = 1" using call by (auto simp: call_ok_def)
    then show "length (carriers x s) = 1" by (simp add: tokens_of_carriers)
  qed
qed

section \<open>The end of a turn\<close>

text \<open>C40: A turn is never stuck.  When the calls of \<open>execute\<close> of a participant do not overlap and one of them
  awaits a turn, that turn is the active one.  As long as nobody has cancelled it, its deadline is armed, and
  when the deadline fires the call reports the interruption by timeout and the turn is resolved.
  When it has been cancelled, a cancellation that waits for it or a closing of the driver is
  under way, and its last resort resolves the turn; so does the exit of a process.
\<close>

theorem claude_turn_can_end:
  assumes "serially_reachable env s" "ex_turn x t \<in> set (cd_tasks s)" "\<not> tu_resolved (cd_turns s t)"
  shows "cd_activeTurn s = Some t
    \<and> (if tu_cancelling (cd_turns s t) then cancel_waits t s \<or> close_begun s
       else tu_turnTimer (cd_turns s t) \<and> tu_resolved (cd_turns (turn_timer env t s) t)
          \<and> drv_emitted x (Interrupted int_timeout (tu_dispatchState (cd_turns s t)) tool_none) \<in> set (cd_log (turn_timer env t s)))
    \<and> tu_resolved (cd_turns (cancel_poll env c t True s) t)
    \<and> tu_resolved (cd_turns (onProcessExit env code signal s) t)"
proof -
  have ok: "turns_ok s" "calls_ok None s" using serially_reachable_ok [OF assms(1)] claude_reachable_ok by blast+
  then have active: "cd_activeTurn s = Some t" and can: "turn_can_end t s" using assms(2,3) by (auto simp: turns_ok_def)
  then have open_turn: "\<not> tu_settled (cd_turns s t)" by (simp add: turn_can_end_def)
  have exec: "tu_exec (cd_turns s t) = x"
  proof -
    have "tok_turn x t \<in># tokens_of x s" using assms(2) by (force simp: tokens_of_def tokens_def)
    then have "token_ok s (tok_turn x t)" using calls_okD(5) [OF ok(2), of x] by (auto simp: call_ok_def split: if_splits)
    then show ?thesis by simp
  qed
  have timer: "tu_resolved (cd_turns (turn_timer env t s) t)
      \<and> drv_emitted x (Interrupted int_timeout (tu_dispatchState (cd_turns s t)) tool_none) \<in> set (cd_log (turn_timer env t s))"
    if "\<not> tu_cancelling (cd_turns s t)"
  proof -
    let ?s = "put_turn t (\<lambda>u. u\<lparr>tu_turnTimer := False\<rparr>) s"
    have "cd_activeTurn ?s = Some t" "\<not> tu_settled (cd_turns ?s t)" "may_settle t ?s"
      using active open_turn that by (simp_all add: put_turn_def may_settle_def deadlineMaySettle_def)
    moreover have "tu_exec (cd_turns ?s t) = x" "tu_dispatchState (cd_turns ?s t) = tu_dispatchState (cd_turns s t)"
      using exec by (simp_all add: put_turn_def)
    ultimately show ?thesis
      using terminate_ends(1) [of ?s t] interrupted_is_reported [of ?s t int_timeout] respawn_keeps_turns(2)
      by (fastforce simp: turn_timer_def Let_def)
  qed
  have poll: "tu_resolved (cd_turns (cancel_poll env c t True s) t)"
    using terminate_ends(1) [of "case cd_process s of None \<Rightarrow> s | Some p \<Rightarrow> dlog (asked_kill p) s" t] active open_turn
    by (simp add: cancel_poll_def dlog_def split: option.split)
  have exits: "tu_resolved (cd_turns (onProcessExit env code signal s) t)"
    using active open_turn by (simp add: onProcessExit_def Let_def terminate_ends)
  show ?thesis using active can timer poll exits by (simp add: turn_can_end_def)
qed

section \<open>The safe retry\<close>

text \<open>C39: A call of \<open>execute\<close> writes its prompt to a process at most twice; between two such writes the
  driver has swallowed a failure that said that nothing was dispatched and that a retry is safe, and
  until then neither the callback of the first write had reported that its bytes had left nor
  had the process replayed the message.
\<close>

theorem claude_prompt_is_retried_safely:
  assumes "claude_reachable env s"
  shows "prompts x (cd_log s) \<le> 2
    \<and> (\<forall>a t p f b u q g c. cd_log s = a @ wrote_user x t p f # b @ wrote_user x u q g # c \<longrightarrow>
        (\<exists>b1 ev b2. b = b1 @ drv_swallowed x ev # b2 \<and> safe_failure ev
          \<and> write_confirmed t \<notin> set (a @ b1) \<and> replay_seen t \<notin> set (a @ b1)))"
proof -
  have "call_prompts_ok s x" using prompts_okD(1) [OF reachable_prompts_ok [OF assms]] .
  then show ?thesis unfolding call_prompts_ok_def retries_ok_def given_up_def unconfirmed_def by (auto split: if_splits)
qed

section \<open>A sample run\<close>

text \<open>A driver that is prewarmed, runs a turn and reports its result.\<close>

fun sample_frame :: "string \<Rightarrow> json option" where
  "sample_frame line =
     (if line = ''init'' then Some (JObj [(''type'', JStr ''control_response''), (''response'', JObj
        [(''request_id'', JStr ''ck-p-1''), (''subtype'', JStr ''success''),
         (''response'', JObj [(''models'', JArr [JObj [(''value'', JStr ''default''), (''resolvedModel'', JStr ''m'')]])])])])
      else if line = ''replay'' then Some (JObj [(''type'', JStr ''user''), (''uuid'', JStr ''u'')])
      else if line = ''done'' then Some (JObj [(''type'', JStr ''result''), (''subtype'', JStr ''success''), (''result'', JStr ''hello'')])
      else None)"

definition sample_claude_env :: claude_env where
  "sample_claude_env = \<lparr>ce_participantId = ''p'', ce_workRoot = ''/w'', ce_handshakeMs = 15000, ce_streamIdleMs = 60000, ce_utf8 = id,
     ce_parse = sample_frame, ce_text = (\<lambda>_. []), ce_count = (\<lambda>_. 0), ce_costDiff = (\<lambda>_ _. ''0''), ce_uuid = (\<lambda>_. ''u'')\<rparr>"

definition claude_spec :: ParticipantSpec where
  "claude_spec = \<lparr>ps_participantId = ''p'', ps_profile = \<lparr>ep_installationId = ''i'', ep_options = ClaudeOptions ''deepseek''\<rparr>,
     ps_modelId = ''m'', ps_personaPrompt = None\<rparr>"

definition claude_installation :: InstallationRecord where
  "claude_installation = sample_installation\<lparr>ir_components :=
     [\<lparr>ic_role = role_claude_binary, ic_path = ''/c'', ic_fingerprint = ''f''\<rparr>]\<rparr>"

definition sample_claude_input :: ExecuteInput where
  "sample_claude_input = \<lparr>xi_executionId = ''e'', xi_prompt = ''hi'', xi_modelId = ''m'', xi_coldStart = False\<rparr>"

definition next_task :: "claude \<Rightarrow> claude" where
  "next_task s = (if cd_tasks s = [] then s
     else go_on sample_claude_env (hd (cd_tasks s)) None False (drop_task (hd (cd_tasks s)) s))"

lemma claude_further: "claude_reachable env s \<Longrightarrow> claude_step env s s' \<Longrightarrow> claude_reachable env s'"
  by (rule rtranclp.rtrancl_into_rtrancl)

lemma next_task_reachable: "claude_reachable sample_claude_env s \<Longrightarrow> claude_reachable sample_claude_env (next_task s)"
  by (simp add: next_task_def claude_further [OF _ task_goes_on])

definition sample_supervised :: claude where
  "sample_supervised = (next_task ^^ 4) (call_prewarm sample_claude_env claude_spec claude_installation createClaudeStreamJsonDriver)"

definition sample_ready :: claude where
  "sample_ready = (next_task ^^ 2) (stdout_data sample_claude_env 0 (''init'' @ [CHR 0x0A]) sample_supervised)"

definition sample_busy :: claude where
  "sample_busy = execute sample_claude_env sample_claude_input sample_ready"

definition sample_ended_turn :: claude where
  "sample_ended_turn = next_task (stdout_data sample_claude_env 0 (''done'' @ [CHR 0x0A]) sample_busy)"

lemma next_task_at: "cd_tasks s = k # ks \<Longrightarrow> next_task s = go_on sample_claude_env k None False (s\<lparr>cd_tasks := ks\<rparr>)"
  by (simp add: next_task_def drop_task_def)

lemma claude_sample_line:
  assumes "cd_splitters s p = new_splitter" "line \<in> set [''init'', ''replay'', ''done'']"
  shows "stdout_data sample_claude_env p (line @ [CHR 0x0A]) s = consume sample_claude_env (nd_line line) (s\<lparr>cd_splitters := (cd_splitters s)(p := new_splitter)\<rparr>)"
proof -
  have "ndjson_data id (line @ [CHR 0x0A]) new_splitter = ([nd_line line], new_splitter)"
    using assms(2)
    by (auto simp: ndjson_data_def new_splitter_def cut_lines.simps js_trim_def js_space_def LIMITS_ndjsonLineBytes_def)
  then show ?thesis using assms by (auto simp: stdout_data_def sample_claude_env_def callback_throws_def)
qed

lemmas claude_sample_lines = claude_sample_line [where line = "''init''", simplified] claude_sample_line [where line = "''replay''", simplified]
  claude_sample_line [where line = "''done''", simplified]

lemma sample_claude_env_at:
  "ce_parse sample_claude_env = sample_frame" "ce_participantId sample_claude_env = ''p''" "ce_uuid sample_claude_env = (\<lambda>_. ''u'')"
  "ce_costDiff sample_claude_env = (\<lambda>_ _. ''0'')" "ce_count sample_claude_env = (\<lambda>_. 0)"
  by (simp_all add: sample_claude_env_def)

lemma show_one: "show_nat (Suc 0) = ''1''"
  by code_simp

lemma tasks_4: "(f ^^ 4) x = f (f (f (f x)))" and tasks_2: "(f ^^ 2) x = f (f x)"
  by (simp_all add: numeral_eq_Suc)

lemmas sample_steps = tasks_4 tasks_2 Let_def dlog_def add_task_def next_task_at isClosingOrClosed_def put_turn_def put_exec_def
  createClaudeStreamJsonDriver_def call_prewarm_def prewarm_def claude_spec_def spawnAndHandshake_def driver_spec_def route_env_def
  component_path_def claude_installation_def sample_installation_def installationRecordToSpec_def after_mkdir_def after_spawn_def
  settle_spawn_def adopt_def after_supervised_def sendControl_def 

lemmas claude_sample_turn = consume_def onFrame_def handleControlResponse_def sample_claude_env_at string_field_def
  settle_control_def after_initialize_def accept_models_def default_model_def reply_models_def resolved_models_def nullish_def
  List.map_filter_def handshake_settled_def execute_def execute_round_def runTurn_def stopLatched_def emit_wrapped_def swallows_def
  armIdleTimer_def new_turn_def sample_claude_input_def request_id_def ROUTES_def prewarm_result_def model_text_def show_one

lemmas sample_end = handleResultFrame_def emitTerminal_def clearTurnTimers_def idle_again_def effective_model_def or_empty_def
  model_verdict_def result_usage_def usage_diff_def count_field_def after_turn_def execute_returns_def js_trim_def js_space_def

lemma sample_ready_at:
  "cd_tasks sample_ready = [] \<and> cd_state sample_ready = drv_ready \<and> cd_process sample_ready = Some 0 \<and> cd_activeTurn sample_ready = None
   \<and> cd_splitters sample_ready 0 = new_splitter \<and> events 0 (cd_log sample_ready) = [] \<and> execute_returned 0 \<notin> set (cd_log sample_ready)
   \<and> (\<forall>e. execute_threw 0 e \<notin> set (cd_log sample_ready)) \<and> cd_nextExec sample_ready = 0
   \<and> cd_nextTurn sample_ready = 0 \<and> cd_cancellingExecutions sample_ready = [] \<and> cd_canonicalModel sample_ready = Some ''m''
   \<and> cd_attached sample_ready = [0] \<and> cd_lastCumulative sample_ready = (0, 0, ''0'')"
  by (simp add: sample_supervised_def sample_ready_def sample_steps claude_sample_lines claude_sample_turn)

lemma sample_busy_at:
  "cd_activeTurn sample_busy = Some 0 \<and> events 0 (cd_log sample_busy) = [Started ''m'']
   \<and> cd_splitters sample_busy 0 = new_splitter \<and> cd_attached sample_busy = [0]"
  by (simp add: sample_busy_def sample_ready_at sample_steps claude_sample_turn)

lemma sample_returned:
  "events 0 (cd_log sample_ended_turn) = [Started ''m'', UsageReport \<lparr>us_inputTokens = Value 0, us_outputTokens = Value 0, us_costUsd = Value ''0''\<rparr>,
     Completed ''hello'' ''m'' (Some ''m'') verdict_match tool_none dispatch_accepted
       (Some \<lparr>us_inputTokens = Value 0, us_outputTokens = Value 0, us_costUsd = Value ''0''\<rparr>) 0]
   \<and> execute_returned 0 \<in> set (cd_log sample_ended_turn)"
  by (simp add: sample_ended_turn_def sample_busy_def sample_ready_at sample_steps claude_sample_lines claude_sample_turn sample_end)

lemma claude_sample_reachable:
  "claude_reachable sample_claude_env sample_supervised" "claude_reachable sample_claude_env sample_ready"
  "claude_reachable sample_claude_env sample_busy" "claude_reachable sample_claude_env sample_ended_turn"
proof -
  have attached: "cd_attached sample_supervised = [0]" by (simp add: sample_supervised_def sample_steps)
  show 1: "claude_reachable sample_claude_env sample_supervised"
    unfolding sample_supervised_def tasks_4
    by (intro next_task_reachable claude_further [OF _ call_prewarm]) simp
  show 2: "claude_reachable sample_claude_env sample_ready"
    unfolding sample_ready_def tasks_2
    by (intro next_task_reachable claude_further [OF 1 process_writes]) (simp add: attached)
  show 3: "claude_reachable sample_claude_env sample_busy"
    unfolding sample_busy_def by (intro claude_further [OF 2 call_execute])
  show "claude_reachable sample_claude_env sample_ended_turn"
    unfolding sample_ended_turn_def
    by (intro next_task_reachable claude_further [OF 3 process_writes]) (simp add: sample_busy_at)
qed

theorem claude_reports_one_terminal_witness:
  "list_all (\<lambda>ev. \<not> is_started ev) (tl (events 0 (cd_log sample_ended_turn)))
   \<and> list_all (\<lambda>ev. \<not> terminal_body ev) (butlast (events 0 (cd_log sample_ended_turn)))
   \<and> events 0 (cd_log sample_ended_turn) \<noteq> [] \<and> terminal_body (last (events 0 (cd_log sample_ended_turn)))
   \<and> carriers 0 sample_busy = [tok_turn 0 0]"
  using claude_reports_one_terminal [OF claude_sample_reachable(4), of 0]
  by (simp add: sample_returned carriers_def sample_busy_def sample_ready_at sample_steps claude_sample_turn)

lemma serially_further: "serially_reachable env s \<Longrightarrow> claude_step env s s' \<Longrightarrow> cd_nextExec s' \<le> 1 \<Longrightarrow> serially_reachable env s'"
  by (rule rtranclp.rtrancl_into_rtrancl) (auto simp: serial_step_def serial_def running_def)

lemma serially_next_task:
  "serially_reachable sample_claude_env s \<Longrightarrow> cd_nextExec (next_task s) \<le> 1 \<Longrightarrow> serially_reachable sample_claude_env (next_task s)"
  by (cases "cd_tasks s = []") (simp_all add: next_task_def serially_further [OF _ task_goes_on])

lemma sample_serial: "serially_reachable sample_claude_env sample_busy"
proof -
  let ?a = "call_prewarm sample_claude_env claude_spec claude_installation createClaudeStreamJsonDriver"
  let ?b = "stdout_data sample_claude_env 0 (''init'' @ [CHR 0x0A]) sample_supervised"
  have attached: "cd_attached sample_supervised = [0]" by (simp add: sample_supervised_def sample_steps)
  have "serially_reachable sample_claude_env ?a"
    by (rule serially_further [OF _ call_prewarm]) (simp_all add: sample_steps)
  then have "serially_reachable sample_claude_env sample_supervised"
    unfolding sample_supervised_def tasks_4 by (intro serially_next_task) (simp_all add: sample_steps)
  then have "serially_reachable sample_claude_env ?b"
    by (rule serially_further [OF _ process_writes])
      (simp_all add: attached sample_supervised_def sample_steps claude_sample_lines claude_sample_turn)
  then have "serially_reachable sample_claude_env sample_ready"
    unfolding sample_ready_def tasks_2
    by (intro serially_next_task) (simp_all add: sample_supervised_def sample_steps claude_sample_lines claude_sample_turn)
  then show ?thesis
    unfolding sample_busy_def
    by (rule serially_further [OF _ call_execute]) (simp add: sample_ready_at sample_steps claude_sample_turn)
qed

theorem claude_turn_can_end_witness:
  "tu_turnTimer (cd_turns sample_busy 0)
   \<and> drv_emitted 0 (Interrupted int_timeout not_dispatched tool_none) \<in> set (cd_log (turn_timer sample_claude_env 0 sample_busy))
   \<and> tu_resolved (cd_turns (onProcessExit sample_claude_env None (Some ''SIGKILL'') sample_busy) 0)"
proof -
  have busy: "ex_turn 0 0 \<in> set (cd_tasks sample_busy)" "\<not> tu_resolved (cd_turns sample_busy 0)"
    "\<not> tu_cancelling (cd_turns sample_busy 0)" "tu_dispatchState (cd_turns sample_busy 0) = not_dispatched"
    by (simp_all add: sample_busy_def sample_ready_at sample_steps claude_sample_turn)
  show ?thesis
    using claude_turn_can_end [OF sample_serial busy(1,2), of 0 None "Some ''SIGKILL''"] busy(3,4) by simp
qed

text \<open>The write of the prompt fails, and the call tries again.\<close>

definition sample_write_failed :: claude where
  "sample_write_failed = user_write_done sample_claude_env 0 (Some ''EPIPE'') sample_busy"

definition sample_retried :: claude where
  "sample_retried = next_task (next_task sample_write_failed)"

lemma sample_retried_at:
  "\<exists>a f ev g. cd_log sample_retried = a @ wrote_user 0 0 0 f # [drv_swallowed 0 ev] @ wrote_user 0 1 0 g # []
    \<and> prompts 0 (cd_log sample_retried) = 2"
proof -
  have "\<exists>f ev g. cd_log sample_retried = (cd_log sample_ready @ [drv_emitted 0 (Started ''m'')])
      @ wrote_user 0 0 0 f # [drv_swallowed 0 ev] @ wrote_user 0 1 0 g # []"
    by (simp add: sample_retried_def sample_write_failed_def sample_busy_def sample_ready_at sample_steps claude_sample_turn sample_end
        user_write_done_def may_settle_def deadlineMaySettle_def terminateTurn_def turn_error_def makeError_def after_gap_def)
  moreover have "prompts 0 (cd_log sample_ready) = 0"
    by (simp add: sample_supervised_def sample_ready_def sample_steps claude_sample_lines claude_sample_turn prompts_def)
  ultimately show ?thesis by (auto simp: prompts_def)
qed

lemma sample_retried_reachable: "claude_reachable sample_claude_env sample_retried"
  unfolding sample_retried_def sample_write_failed_def
  by (intro next_task_reachable claude_further [OF claude_sample_reachable(3) write_callback])
    (simp add: sample_busy_def sample_ready_at sample_steps claude_sample_turn)

theorem claude_prompt_is_retried_safely_witness:
  "\<exists>a f ev g. cd_log sample_retried = a @ wrote_user 0 0 0 f # [drv_swallowed 0 ev] @ wrote_user 0 1 0 g # []
    \<and> prompts 0 (cd_log sample_retried) = 2 \<and> safe_failure ev \<and> write_confirmed 0 \<notin> set a"
proof -
  obtain a f ev g where l: "cd_log sample_retried = a @ wrote_user 0 0 0 f # [drv_swallowed 0 ev] @ wrote_user 0 1 0 g # []"
    and two: "prompts 0 (cd_log sample_retried) = 2" using sample_retried_at by blast
  obtain b1 e b2 where "[drv_swallowed 0 ev] = b1 @ drv_swallowed 0 e # b2" "safe_failure e" "write_confirmed 0 \<notin> set (a @ b1)"
    using claude_prompt_is_retried_safely [OF sample_retried_reachable, of 0] l by blast
  then have "safe_failure ev" "write_confirmed 0 \<notin> set a" by (cases b1; simp)+
  then show ?thesis using l two by blast
qed

end
